(* ===== verification/Prelude.thy ===== *)
theory Prelude
  imports Main "HOL-Library.Word"
begin

text \<open>
  Shared vocabulary of the development: the C integer types of the sources, the faults a C
  statement can end in (a failed \<open>assert\<close>, a write or a read past a buffer, a null or dangling pointer, an
  undefined conversion), the sum type that carries them, and the list and word lemmas the
  component theories use.
\<close>

unbundle bit_operations_syntax

named_theorems res_simps \<open>unfolding rules of the fault-carrying sequencing\<close>
named_theorems wf_intros \<open>introduction rules for well-formedness predicates\<close>

section \<open>C types\<close>

type_synonym UCHAR = "8 word"
type_synonym USHORT = "16 word"
type_synonym uint32 = "32 word"

text \<open>A \<open>struct timeval\<close> as read by \<open>gettimeofday\<close>: seconds and microseconds.\<close>

type_synonym timeval = "int \<times> int"

section \<open>Faults and sequencing\<close>

datatype cfault =
    Assert_failed
  | Buffer_overflow
  | Null_deref
  | Bad_conversion
  | No_return_value
  | Division_by_zero
  | Out_of_bounds_read
  | Use_after_free

type_synonym 'a res = "cfault + 'a"

definition bind_res :: "'a res \<Rightarrow> ('a \<Rightarrow> 'b res) \<Rightarrow> 'b res" where
  "bind_res r f = (case r of Inl e \<Rightarrow> Inl e | Inr x \<Rightarrow> f x)"

lemma bind_res_Inl [simp]: "bind_res (Inl e) f = Inl e"
  by (simp add: bind_res_def)

lemma bind_res_Inr [simp]: "bind_res (Inr x) f = f x"
  by (simp add: bind_res_def)

lemma bind_res_eq_Inr: "bind_res r f = Inr y \<longleftrightarrow> (\<exists>x. r = Inr x \<and> f x = Inr y)"
  by (cases r) auto

lemma bind_res_eq_Inl: "bind_res r f = Inl e \<longleftrightarrow> r = Inl e \<or> (\<exists>x. r = Inr x \<and> f x = Inl e)"
  by (cases r) auto

lemma bind_res_cong [fundef_cong]:
  "r = r' \<Longrightarrow> (\<And>x. r' = Inr x \<Longrightarrow> f x = g x) \<Longrightarrow> bind_res r f = bind_res r' g"
  by (cases r') auto

lemmas [res_simps] = bind_res_eq_Inr bind_res_eq_Inl

text \<open>
  \<open>strcpy\<close> into a \<open>char\<close> array of \<open>n\<close> bytes: the string and its terminating zero have to fit,
  otherwise the write runs past the array.
\<close>

definition strcpy_buf :: "nat \<Rightarrow> string \<Rightarrow> string res" where
  "strcpy_buf n s = (if length s < n then Inr s else Inl Buffer_overflow)"

lemma strcpy_buf_Inr [simp]: "strcpy_buf n s = Inr t \<longleftrightarrow> length s < n \<and> t = s"
  by (auto simp: strcpy_buf_def)

lemma strcpy_buf_fits [simp]: "length s < n \<Longrightarrow> strcpy_buf n s = Inr s"
  by (simp add: strcpy_buf_def)

section \<open>Words\<close>

lemma uint16_add_no_wrap:
  fixes a b :: "16 word"
  assumes "unat a + unat b < 65536"
  shows "unat (a + b) = unat a + unat b"
  using assms by (simp add: unat_word_ariths)

lemma and_mask_unat:
  fixes x :: "'a::len word"
  shows "unat (x AND mask n) = unat x mod 2 ^ n"
  by (metis take_bit_eq_mask unsigned_take_bit_eq take_bit_eq_mod)

text \<open>On C \<open>int\<close>s held as integers, masking with a power of two less one is reduction modulo it.\<close>

lemma int_and_mask: "m = 2 ^ k - 1 \<Longrightarrow> (x::int) AND m = x mod 2 ^ k"
  by (metis mask_eq_exp_minus_1 take_bit_eq_mask take_bit_eq_mod)

lemma byte_split_join:
  fixes w :: "16 word"
  shows "(push_bit 8 (ucast (ucast (drop_bit 8 w) :: UCHAR)) :: 16 word) OR ucast (ucast w :: UCHAR) = w"
  by (rule bit_word_eqI) (auto simp: bit_simps)

lemma unat_ucast_8_16 [simp]: "unat (ucast (b :: UCHAR) :: USHORT) = unat b"
proof -
  have "unat b < 2 ^ 8" using unsigned_less[of b, where ?'a = nat] by simp
  then show ?thesis by (simp add: unsigned_ucast_eq take_bit_nat_eq_self)
qed

lemma ucast_double_8: "(ucast ((ucast (b :: UCHAR) :: USHORT) * 2) :: UCHAR) = 2 * b"
  by (rule word_unat_eq_iff[THEN iffD2])
    (simp add: unsigned_ucast_eq take_bit_eq_mod unat_word_ariths mod_mod_cancel mult.commute)

section \<open>Lists\<close>

lemma nth_take_drop_upd: "i < length xs \<Longrightarrow> take i xs @ v # drop (Suc i) xs = xs[i := v]"
  by (simp add: upd_conv_take_nth_drop)

lemma map_upt_shift: "map f [Suc a..<Suc b] = map (\<lambda>i. f (Suc i)) [a..<b]"
  by (induction b) auto

lemma tl_map_upt: "a < b \<Longrightarrow> tl (map f [a..<b]) = map f [Suc a..<b]"
  by (simp add: upt_conv_Cons)

section \<open>C strings\<close>

text \<open>The decimal digits \<open>printf\<close> writes for \<open>%d\<close>.\<close>

definition digit_char :: "nat \<Rightarrow> char" where
  "digit_char d = char_of (48 + d)"

function show_nat :: "nat \<Rightarrow> string" where
  "show_nat n = (if n < 10 then [digit_char n] else show_nat (n div 10) @ [digit_char (n mod 10)])"
  by pat_completeness auto

termination
  by (relation "measure id") auto

declare show_nat.simps [simp del]

definition show_int :: "int \<Rightarrow> string" where
  "show_int i = (if i < 0 then CHR ''-'' # show_nat (nat (- i)) else show_nat (nat i))"

text \<open>
  \<open>strncpy\<close> of a block of bytes into an array whose bytes are \<open>old\<close>, seen as the C string the
  array holds afterwards. The block is not terminated, so what was in the array follows it; a block longer
  than the array, or an array without a zero byte, runs past the end.
\<close>

definition strncpy_block :: "string \<Rightarrow> string \<Rightarrow> string res" where
  "strncpy_block old src =
     (let new = src @ drop (length src) old
      in if length src \<le> length old \<and> CHR 0x00 \<in> set new
         then Inr (takeWhile (\<lambda>c. c \<noteq> CHR 0x00) new) else Inl Buffer_overflow)"

text \<open>
  \<open>atoi\<close>: white space, a sign, decimal digits up to the first other character. The library computes
  with \<open>strtol\<close>, whose result saturates at the bounds of a 64-bit \<open>long\<close>, and converts it to \<open>int\<close>.
\<close>

definition isspace :: "char \<Rightarrow> bool" where
  "isspace c \<longleftrightarrow> c = CHR '' '' \<or> (9 \<le> (of_char c :: nat) \<and> (of_char c :: nat) \<le> 13)"

definition isdigit :: "char \<Rightarrow> bool" where
  "isdigit c \<longleftrightarrow> 48 \<le> (of_char c :: nat) \<and> (of_char c :: nat) \<le> 57"

fun digits_val :: "int \<Rightarrow> string \<Rightarrow> int" where
  "digits_val a [] = a"
| "digits_val a (c # cs) = (if isdigit c then digits_val (10 * a + (of_char c - 48)) cs else a)"

fun signed_val :: "string \<Rightarrow> int" where
  "signed_val [] = 0"
| "signed_val (c # cs) =
     (if c = CHR ''-'' then - digits_val 0 cs
      else if c = CHR ''+'' then digits_val 0 cs else digits_val 0 (c # cs))"

definition strtol10 :: "string \<Rightarrow> int" where
  "strtol10 s = max (- (2 ^ 63)) (min (2 ^ 63 - 1) (signed_val (dropWhile isspace s)))"

definition atoi :: "string \<Rightarrow> int" where
  "atoi s = sint (word_of_int (strtol10 s) :: 32 word)"

lemma of_digit_char [simp]: "d < 10 \<Longrightarrow> (of_char (digit_char d) :: nat) = 48 + d"
  by (simp add: digit_char_def)

lemma of_digit_char_int [simp]: "d < 10 \<Longrightarrow> (of_char (digit_char d) :: int) = 48 + int d"
  by (metis of_digit_char of_nat_of_char of_nat_add of_nat_numeral)

lemma isdigit_digit_char [simp]: "d < 10 \<Longrightarrow> isdigit (digit_char d)"
  by (simp add: isdigit_def)

lemma digits_val_append_digit:
  "list_all isdigit xs \<Longrightarrow> d < 10 \<Longrightarrow> digits_val a (xs @ [digit_char d]) = 10 * digits_val a xs + int d"
  by (induction xs arbitrary: a) auto

lemma show_nat_digits: "list_all isdigit (show_nat n)"
  by (induction n rule: show_nat.induct) (subst show_nat.simps, simp)

lemma show_nat_nonempty: "show_nat n \<noteq> []"
  by (subst show_nat.simps) simp

lemma digits_val_show_nat: "digits_val 0 (show_nat n) = int n"
proof (induction n rule: show_nat.induct)
  case (1 n)
  have "10 * int (n div 10) + int (n mod 10) = int n"
    by (metis div_mult_mod_eq mult.commute of_nat_add of_nat_mult of_nat_numeral)
  then show ?case
    using 1 by (subst show_nat.simps) (auto simp: digits_val_append_digit show_nat_digits)
qed

lemma signed_val_digits: "xs \<noteq> [] \<Longrightarrow> list_all isdigit xs \<Longrightarrow> signed_val xs = digits_val 0 xs"
  by (cases xs) (auto simp: isdigit_def)

lemma dropWhile_space_digits: "list_all isdigit xs \<Longrightarrow> dropWhile isspace xs = xs"
  by (cases xs) (auto simp: isdigit_def isspace_def)

lemma signed_val_show_int: "signed_val (dropWhile isspace (show_int i)) = i"
  using show_nat_digits show_nat_nonempty
  by (simp add: show_int_def signed_val_digits dropWhile_space_digits digits_val_show_nat isspace_def)

lemma atoi_show_int:
  assumes "- (2 ^ 31) \<le> i" "i < 2 ^ 31"
  shows "atoi (show_int i) = i"
proof -
  have "strtol10 (show_int i) = i" using assms by (simp add: strtol10_def signed_val_show_int)
  moreover have "signed_take_bit 31 i = i" using assms by (intro signed_take_bit_int_eq_self) auto
  ultimately show ?thesis using sint_sbintrunc'[of i, where ?'a = 32] by (simp add: atoi_def)
qed

end
