(* ===== verification/RingBuffer.thy ===== *)
theory RingBuffer
  imports Prelude
begin

text \<open>
  The ring buffers of the platform: six copies of one C file that differ in the element type and
  in the size (\<open>mqtt_ringbuffer.c\<close>, \<open>tbmqtt_ringbuffer.c\<close>, \<open>chan_ringbuffer.c\<close>,
  \<open>chan_serial_ringbuffer.c\<close>, \<open>chan_socketcan_ringbuffer.c\<close>, \<open>chan_tcpservcan_ringbuffer.c\<close>).
  The operations are translated once over the mask \<open>RING_BUFFER_MASK\<close>; each file is an instance.
  The locale \<open>lossy_fifo\<close> is the contract: a first-in first-out queue of bounded capacity
  that drops its oldest element when it is full.
\<close>

section \<open>The C operations\<close>

record 'e ringbuffer =
  buffer :: "'e list"
  tail_index :: int
  head_index :: int

definition rb_init :: "'e ringbuffer \<Rightarrow> 'e ringbuffer" where
  "rb_init b = b\<lparr>tail_index := 0, head_index := 0\<rparr>"

definition rb_num_items :: "int \<Rightarrow> 'e ringbuffer \<Rightarrow> int" where
  "rb_num_items msk b = (head_index b - tail_index b) AND msk"

definition rb_is_empty :: "'e ringbuffer \<Rightarrow> bool" where
  "rb_is_empty b \<longleftrightarrow> head_index b = tail_index b"

definition rb_is_full :: "int \<Rightarrow> 'e ringbuffer \<Rightarrow> bool" where
  "rb_is_full msk b \<longleftrightarrow> (head_index b - tail_index b) AND msk = msk"

text \<open>\<open>queue\<close>: a full buffer first gives up its oldest element, then the element is stored at the head.\<close>

definition rb_drop_oldest :: "int \<Rightarrow> 'e ringbuffer \<Rightarrow> 'e ringbuffer" where
  "rb_drop_oldest msk b = b\<lparr>tail_index := (tail_index b + 1) AND msk\<rparr>"

definition rb_store :: "int \<Rightarrow> 'e ringbuffer \<Rightarrow> 'e \<Rightarrow> 'e ringbuffer" where
  "rb_store msk b d =
     b\<lparr>buffer := (buffer b)[nat (head_index b) := d],
       head_index := (head_index b + 1) AND msk\<rparr>"

definition rb_queue :: "int \<Rightarrow> 'e ringbuffer \<Rightarrow> 'e \<Rightarrow> 'e ringbuffer" where
  "rb_queue msk b d =
     rb_store msk (if rb_is_full msk b then rb_drop_oldest msk b else b) d"

fun rb_queue_arr :: "int \<Rightarrow> 'e ringbuffer \<Rightarrow> 'e list \<Rightarrow> 'e ringbuffer" where
  "rb_queue_arr msk b [] = b"
| "rb_queue_arr msk b (d # ds) = rb_queue_arr msk (rb_queue msk b d) ds"

text \<open>The out-parameter \<open>*data\<close> together with the result 1 is \<open>Some\<close>, the result 0 is \<open>None\<close>.\<close>

definition rb_dequeue :: "int \<Rightarrow> 'e ringbuffer \<Rightarrow> 'e option \<times> 'e ringbuffer" where
  "rb_dequeue msk b =
     (if rb_is_empty b then (None, b)
      else (Some (buffer b ! nat (tail_index b)), rb_drop_oldest msk b))"

fun rb_dequeue_loop :: "int \<Rightarrow> 'e ringbuffer \<Rightarrow> nat \<Rightarrow> 'e list \<times> 'e ringbuffer" where
  "rb_dequeue_loop msk b 0 = ([], b)"
| "rb_dequeue_loop msk b (Suc len) =
     (case rb_dequeue msk b of
        (None, b') \<Rightarrow> ([], b')
      | (Some x, b') \<Rightarrow> (case rb_dequeue_loop msk b' len of (xs, b'') \<Rightarrow> (x # xs, b'')))"

definition rb_dequeue_arr :: "int \<Rightarrow> 'e ringbuffer \<Rightarrow> int \<Rightarrow> 'e list \<times> 'e ringbuffer" where
  "rb_dequeue_arr msk b len =
     (if rb_is_empty b then ([], b) else rb_dequeue_loop msk b (nat len))"

definition rb_peek :: "int \<Rightarrow> 'e ringbuffer \<Rightarrow> int \<Rightarrow> 'e option" where
  "rb_peek msk b index =
     (if index \<ge> rb_num_items msk b then None
      else Some (buffer b ! nat ((tail_index b + index) AND msk)))"

section \<open>Well-formed buffers and their contents\<close>

definition rb_wf :: "nat \<Rightarrow> 'e ringbuffer \<Rightarrow> bool" where
  "rb_wf k b \<longleftrightarrow>
     length (buffer b) = 2 ^ k \<and>
     0 \<le> tail_index b \<and> tail_index b < 2 ^ k \<and> 0 \<le> head_index b \<and> head_index b < 2 ^ k"

definition rb_items :: "int \<Rightarrow> 'e ringbuffer \<Rightarrow> 'e list" where
  "rb_items msk b =
     map (\<lambda>i. buffer b ! nat ((tail_index b + int i) AND msk)) [0..<nat (rb_num_items msk b)]"

lemma pow2_dvd_diff:
  fixes i j :: int
  assumes "2 ^ k dvd i - j" "0 \<le> i" "i < 2 ^ k" "0 \<le> j" "j < 2 ^ k"
  shows "i = j"
  using assms by (smt (verit) zdvd_not_zless dvd_minus_iff)

lemma mod_pow2_inj:
  fixes i j t :: int
  assumes "(t + i) mod 2 ^ k = (t + j) mod 2 ^ k" "0 \<le> i" "i < 2 ^ k" "0 \<le> j" "j < 2 ^ k"
  shows "i = j"
proof (rule pow2_dvd_diff[OF _ assms(2-)])
  show "2 ^ k dvd i - j"
    using assms(1) by (simp add: mod_eq_dvd_iff)
qed

lemma rb_init_wf: "length (buffer b) = 2 ^ k \<Longrightarrow> rb_wf k (rb_init b)"
  by (simp add: rb_wf_def rb_init_def)

lemma rb_init_items [simp]: "rb_items msk (rb_init b) = []"
  by (simp add: rb_items_def rb_init_def rb_num_items_def)

lemma rb_drop_oldest_wf: "rb_wf k b \<Longrightarrow> m = 2 ^ k - 1 \<Longrightarrow> rb_wf k (rb_drop_oldest m b)"
  by (simp add: rb_wf_def rb_drop_oldest_def int_and_mask)

lemma rb_store_wf: "rb_wf k b \<Longrightarrow> m = 2 ^ k - 1 \<Longrightarrow> rb_wf k (rb_store m b d)"
  by (simp add: rb_wf_def rb_store_def int_and_mask)

lemma rb_num_items_bounds:
  "m = 2 ^ k - 1 \<Longrightarrow> 0 \<le> rb_num_items m b \<and> rb_num_items m b < 2 ^ k"
  by (simp add: rb_num_items_def int_and_mask)

lemma rb_length_items: "m = 2 ^ k - 1 \<Longrightarrow> int (length (rb_items m b)) = rb_num_items m b"
  using rb_num_items_bounds[of m k b] by (simp add: rb_items_def)

lemma rb_is_empty_iff:
  assumes "rb_wf k b" "m = 2 ^ k - 1"
  shows "rb_is_empty b \<longleftrightarrow> rb_items m b = []"
proof -
  have "rb_num_items m b = 0 \<longleftrightarrow> head_index b = tail_index b"
    using assms pow2_dvd_diff[of k "head_index b" "tail_index b"]
    by (auto simp: rb_num_items_def int_and_mask rb_wf_def mod_eq_0_iff_dvd)
  then show ?thesis
    using rb_length_items[OF assms(2), of b] by (auto simp: rb_is_empty_def)
qed

lemma rb_is_full_iff: "m = 2 ^ k - 1 \<Longrightarrow> rb_is_full m b \<longleftrightarrow> int (length (rb_items m b)) = m"
  using rb_length_items[of m k b] by (simp add: rb_is_full_def rb_num_items_def)

lemma rb_items_nth:
  assumes "i < length (rb_items m b)"
  shows "rb_items m b ! i = buffer b ! nat ((tail_index b + int i) AND m)"
  using assms by (simp add: rb_items_def)

text \<open>Moving the tail index forward removes the oldest element.\<close>

lemma rb_num_items_drop:
  assumes "m = 2 ^ k - 1" "rb_num_items m b \<noteq> 0"
  shows "rb_num_items m (rb_drop_oldest m b) = rb_num_items m b - 1"
proof -
  let ?n = "(head_index b - tail_index b) mod 2 ^ k"
  have "(head_index b - (tail_index b + 1) mod 2 ^ k) mod 2 ^ k = (?n - 1) mod 2 ^ k"
    by (simp add: mod_diff_right_eq mod_diff_left_eq algebra_simps)
  also have "\<dots> = ?n - 1"
    using assms pos_mod_bound[of "2 ^ k" "head_index b - tail_index b"]
      pos_mod_sign[of "2 ^ k" "head_index b - tail_index b"]
    by (intro mod_pos_pos_trivial) (auto simp: rb_num_items_def int_and_mask simp del: pos_mod_bound pos_mod_sign)
  finally show ?thesis
    using assms by (simp add: rb_num_items_def rb_drop_oldest_def int_and_mask)
qed

lemma rb_items_drop:
  assumes "m = 2 ^ k - 1" "rb_items m b \<noteq> []"
  shows "rb_items m (rb_drop_oldest m b) = tl (rb_items m b)"
proof (rule nth_equalityI)
  have len: "int (length (rb_items m (rb_drop_oldest m b))) = int (length (rb_items m b)) - 1"
    using assms(2) rb_length_items[OF assms(1)] rb_num_items_drop[OF assms(1), of b]
    by (metis length_0_conv of_nat_eq_0_iff)
  then show "length (rb_items m (rb_drop_oldest m b)) = length (tl (rb_items m b))"
    using assms(2) by (cases "rb_items m b") auto
  fix i assume i: "i < length (rb_items m (rb_drop_oldest m b))"
  then have "Suc i < length (rb_items m b)" using len by simp
  moreover have "((tail_index b + 1) mod 2 ^ k + int i) mod 2 ^ k = (tail_index b + int (Suc i)) mod 2 ^ k"
    by (simp add: mod_simps algebra_simps)
  ultimately show "rb_items m (rb_drop_oldest m b) ! i = tl (rb_items m b) ! i"
    using i assms(1) by (simp add: rb_items_nth nth_tl) (simp add: rb_drop_oldest_def int_and_mask)
qed

text \<open>Storing at the head appends, as long as the buffer is not full.\<close>

lemma rb_num_items_store:
  assumes "m = 2 ^ k - 1" "rb_num_items m b < m"
  shows "rb_num_items m (rb_store m b d) = rb_num_items m b + 1"
proof -
  let ?n = "(head_index b - tail_index b) mod 2 ^ k"
  have "((head_index b + 1) mod 2 ^ k - tail_index b) mod 2 ^ k = (?n + 1) mod 2 ^ k"
    by (simp add: mod_simps algebra_simps)
  also have "\<dots> = ?n + 1"
    using assms by (intro mod_pos_pos_trivial) (auto simp: rb_num_items_def int_and_mask)
  finally show ?thesis
    using assms by (simp add: rb_num_items_def rb_store_def int_and_mask)
qed

lemma rb_index_head:
  assumes "rb_wf k b" "m = 2 ^ k - 1" "0 \<le> i" "i \<le> rb_num_items m b"
  shows "(tail_index b + i) AND m = head_index b \<longleftrightarrow> i = rb_num_items m b"
proof -
  have h: "(tail_index b + rb_num_items m b) mod 2 ^ k = head_index b"
    using assms by (simp add: rb_num_items_def rb_wf_def int_and_mask mod_add_right_eq)
  have "(tail_index b + i) mod 2 ^ k = head_index b \<longleftrightarrow> i = rb_num_items m b"
    using mod_pow2_inj[of "tail_index b" i k "rb_num_items m b"] h assms(3,4)
      rb_num_items_bounds[OF assms(2), of b] by auto
  then show ?thesis using assms(2) by (simp add: int_and_mask)
qed

lemma rb_items_store:
  assumes "rb_wf k b" "m = 2 ^ k - 1" "rb_num_items m b < m"
  shows "rb_items m (rb_store m b d) = rb_items m b @ [d]"
proof (rule nth_equalityI)
  have len: "int (length (rb_items m (rb_store m b d))) = int (length (rb_items m b)) + 1"
    using assms by (simp add: rb_length_items rb_num_items_store)
  then show "length (rb_items m (rb_store m b d)) = length (rb_items m b @ [d])" by simp
  fix i assume i: "i < length (rb_items m (rb_store m b d))"
  have le: "int i \<le> rb_num_items m b"
    using i len rb_length_items[OF assms(2), of b] by linarith
  have nz: "0 \<le> (tail_index b + int i) AND m"
    using assms(2) by (simp add: int_and_mask)
  have hb: "0 \<le> head_index b" "nat (head_index b) < length (buffer b)"
    using assms(1) by (auto simp: rb_wf_def nat_less_iff)
  have *: "nat ((tail_index b + int i) AND m) = nat (head_index b) \<longleftrightarrow> int i = rb_num_items m b"
    using rb_index_head[OF assms(1,2) _ le] nz hb by (simp add: eq_nat_nat_iff)
  show "rb_items m (rb_store m b d) ! i = (rb_items m b @ [d]) ! i"
    using i le * hb rb_length_items[OF assms(2), of b]
    by (auto simp: rb_items_nth nth_append) (auto simp: rb_store_def rb_items_nth nth_list_update)
qed

section \<open>The contract of a lossy bounded queue\<close>

text \<open>
  The specification on plain lists: \<open>spec_queue\<close> keeps the newest \<open>cap\<close> elements. A sequence of
  operations is a list of \<open>fifo_op\<close>s; running it gives the elements taken out, in order.
\<close>

datatype 'e fifo_op = Put 'e | Get

definition spec_queue :: "nat \<Rightarrow> 'e list \<Rightarrow> 'e \<Rightarrow> 'e list" where
  "spec_queue cap xs x = (if length xs = cap then tl xs else xs) @ [x]"

fun spec_run :: "nat \<Rightarrow> 'e list \<Rightarrow> 'e fifo_op list \<Rightarrow> 'e option list \<times> 'e list" where
  "spec_run cap xs [] = ([], xs)"
| "spec_run cap xs (Put x # ops) = spec_run cap (spec_queue cap xs x) ops"
| "spec_run cap xs (Get # ops) =
     (case xs of
        [] \<Rightarrow> (case spec_run cap [] ops of (os, r) \<Rightarrow> (None # os, r))
      | y # ys \<Rightarrow> (case spec_run cap ys ops of (os, r) \<Rightarrow> (Some y # os, r)))"

fun fifo_run :: "('q \<Rightarrow> 'e \<Rightarrow> 'q) \<Rightarrow> ('q \<Rightarrow> 'e option \<times> 'q) \<Rightarrow> 'q \<Rightarrow> 'e fifo_op list
    \<Rightarrow> 'e option list \<times> 'q" where
  "fifo_run put get q [] = ([], q)"
| "fifo_run put get q (Put x # ops) = fifo_run put get (put q x) ops"
| "fifo_run put get q (Get # ops) =
     (case get q of (r, q') \<Rightarrow> (case fifo_run put get q' ops of (os, q'') \<Rightarrow> (r # os, q'')))"

fun drain :: "('q \<Rightarrow> 'e option \<times> 'q) \<Rightarrow> 'q \<Rightarrow> nat \<Rightarrow> 'e list \<times> 'q" where
  "drain get q 0 = ([], q)"
| "drain get q (Suc n) =
     (case get q of
        (None, q') \<Rightarrow> ([], q')
      | (Some x, q') \<Rightarrow> (case drain get q' n of (xs, q'') \<Rightarrow> (x # xs, q'')))"

text \<open>No element is lost or reordered while at most \<open>cap\<close> are waiting.\<close>

lemma spec_queue_fits: "length xs < cap \<Longrightarrow> spec_queue cap xs x = xs @ [x]"
  by (simp add: spec_queue_def)

lemma length_spec_queue: "0 < cap \<Longrightarrow> length xs \<le> cap \<Longrightarrow> length (spec_queue cap xs x) \<le> cap"
  by (auto simp: spec_queue_def)

lemma spec_queue_all:
  assumes "0 < cap" "length xs \<le> cap"
  shows "foldl (spec_queue cap) xs ys = drop (length xs + length ys - cap) (xs @ ys)"
  using assms(2)
proof (induction ys arbitrary: xs)
  case (Cons y ys)
  have "spec_queue cap xs y @ ys = drop (if length xs = cap then 1 else 0) (xs @ y # ys)"
    using assms(1) by (cases xs) (auto simp: spec_queue_def)
  then show ?case
    using Cons.IH[OF length_spec_queue[OF assms(1) Cons.prems, of y]] assms(1) Cons.prems
    by (auto simp: spec_queue_def intro: arg_cong2[where f = drop])
qed simp

locale lossy_fifo =
  fixes inv :: "'q \<Rightarrow> bool" and items :: "'q \<Rightarrow> 'e list" and cap :: nat
    and queue :: "'q \<Rightarrow> 'e \<Rightarrow> 'q" and dequeue :: "'q \<Rightarrow> 'e option \<times> 'q"
    and peek :: "'q \<Rightarrow> int \<Rightarrow> 'e option"
  assumes cap_pos: "0 < cap"
    and items_cap: "inv q \<Longrightarrow> length (items q) \<le> cap"
    and queue_inv: "inv q \<Longrightarrow> inv (queue q x)"
    and queue_items: "inv q \<Longrightarrow> items (queue q x) = spec_queue cap (items q) x"
    and dequeue_inv: "inv q \<Longrightarrow> inv (snd (dequeue q))"
    and dequeue_result: "inv q \<Longrightarrow> fst (dequeue q) = (case items q of [] \<Rightarrow> None | x # xs \<Rightarrow> Some x)"
    and dequeue_items: "inv q \<Longrightarrow> items (snd (dequeue q)) = tl (items q)"
    and peek_result: "inv q \<Longrightarrow> 0 \<le> i \<Longrightarrow>
      peek q i = (if nat i < length (items q) then Some (items q ! nat i) else None)"
begin

lemma peek_dequeue: "inv q \<Longrightarrow> peek q 0 = fst (dequeue q)"
  by (simp add: peek_result dequeue_result nth_Cons' split: list.split)

lemma peek_idle: "inv q \<Longrightarrow> peek q 0 = None \<longleftrightarrow> items q = []"
  by (simp add: peek_result)

lemma queue_all_inv: "inv q \<Longrightarrow> inv (foldl queue q xs)"
  by (induction xs arbitrary: q) (auto simp: queue_inv)

lemma queue_all_spec: "inv q \<Longrightarrow> items (foldl queue q xs) = foldl (spec_queue cap) (items q) xs"
  by (induction xs arbitrary: q) (auto simp: queue_inv queue_items)

lemma queue_all_items:
  "inv q \<Longrightarrow>
   items (foldl queue q xs) = drop (length (items q) + length xs - cap) (items q @ xs)"
  by (simp add: queue_all_spec spec_queue_all cap_pos items_cap)

lemma drain_items:
  assumes "inv q"
  shows "fst (drain dequeue q n) = take n (items q) \<and> inv (snd (drain dequeue q n)) \<and>
    items (snd (drain dequeue q n)) = drop n (items q)"
  using assms
proof (induction n arbitrary: q)
  case (Suc n)
  obtain r q' where d: "dequeue q = (r, q')" by fastforce
  show ?case
    using Suc.IH[of q'] dequeue_inv[OF Suc.prems] dequeue_items[OF Suc.prems]
      dequeue_result[OF Suc.prems] d
    by (cases "items q") (auto split: prod.splits)
qed simp

lemma run_refines:
  assumes "inv q"
  shows "fst (fifo_run queue dequeue q ops) = fst (spec_run cap (items q) ops) \<and>
    inv (snd (fifo_run queue dequeue q ops)) \<and>
    items (snd (fifo_run queue dequeue q ops)) = snd (spec_run cap (items q) ops)"
  using assms
proof (induction ops arbitrary: q)
  case (Cons op ops)
  show ?case
  proof (cases op)
    case (Put x)
    then show ?thesis using Cons.IH[of "queue q x"] Cons.prems
      by (simp add: queue_inv queue_items)
  next
    case Get
    obtain r q' where d: "dequeue q = (r, q')" by fastforce
    show ?thesis
      using Cons.IH[of q'] dequeue_inv[OF Cons.prems] dequeue_items[OF Cons.prems]
        dequeue_result[OF Cons.prems] d Get
      by (cases "items q") (auto split: prod.splits)
  qed
qed simp

end

section \<open>The C buffers satisfy it\<close>

lemma rb_queue_wf: "rb_wf k b \<Longrightarrow> m = 2 ^ k - 1 \<Longrightarrow> rb_wf k (rb_queue m b d)"
  by (simp add: rb_queue_def rb_store_wf rb_drop_oldest_wf)

lemma rb_queue_items:
  assumes "rb_wf k b" "m = 2 ^ k - 1" "0 < k"
  shows "rb_items m (rb_queue m b d) = spec_queue (nat m) (rb_items m b) d"
proof (cases "rb_is_full m b")
  case True
  have pos: "0 < m" using assms(2,3) by (simp add: one_less_power)
  have len: "int (length (rb_items m b)) = m"
    using True rb_is_full_iff[OF assms(2)] by blast
  then have ne: "rb_items m b \<noteq> []" using pos by auto
  have "rb_num_items m (rb_drop_oldest m b) < m"
    using rb_num_items_drop[OF assms(2), of b] rb_length_items[OF assms(2), of b] len pos by simp
  then show ?thesis
    using True len ne rb_items_store[OF rb_drop_oldest_wf[OF assms(1,2)] assms(2)]
      rb_items_drop[OF assms(2) ne]
    by (auto simp: rb_queue_def spec_queue_def)
next
  case False
  have "rb_num_items m b < m"
    using False rb_num_items_bounds[OF assms(2), of b] rb_is_full_iff[OF assms(2), of b]
      rb_length_items[OF assms(2), of b] assms(2) by simp
  moreover have "length (rb_items m b) \<noteq> nat m"
    using calculation rb_length_items[OF assms(2), of b] by linarith
  ultimately show ?thesis
    using False rb_items_store[OF assms(1,2)] by (simp add: rb_queue_def spec_queue_def)
qed

lemma rb_dequeue_head:
  assumes "rb_wf k b" "m = 2 ^ k - 1" "rb_items m b = x # xs"
  shows "buffer b ! nat (tail_index b) = x"
  using assms rb_items_nth[of 0 m b] by (simp add: int_and_mask rb_wf_def)

lemma rb_lossy_fifo:
  assumes m: "m = 2 ^ k - 1" and k: "0 < k"
  shows "lossy_fifo (rb_wf k) (rb_items m) (nat m) (rb_queue m) (rb_dequeue m) (rb_peek m)"
proof
  show "0 < nat m" using assms by (simp add: one_less_power)
  fix q :: "'a ringbuffer" and x and i :: int
  assume q: "rb_wf k q"
  show "length (rb_items m q) \<le> nat m"
    using rb_num_items_bounds[OF m, of q] rb_length_items[OF m, of q] m by linarith
  show "rb_wf k (rb_queue m q x)" by (rule rb_queue_wf[OF q m])
  show "rb_items m (rb_queue m q x) = spec_queue (nat m) (rb_items m q) x"
    by (rule rb_queue_items[OF q m k])
  show "rb_wf k (snd (rb_dequeue m q))"
    using q by (simp add: rb_dequeue_def rb_drop_oldest_wf[OF q m])
  show "fst (rb_dequeue m q) = (case rb_items m q of [] \<Rightarrow> None | x # xs \<Rightarrow> Some x)"
    using rb_is_empty_iff[OF q m] rb_dequeue_head[OF q m]
    by (auto simp: rb_dequeue_def split: list.split)
  show "rb_items m (snd (rb_dequeue m q)) = tl (rb_items m q)"
    using rb_is_empty_iff[OF q m] rb_items_drop[OF m, of q] by (simp add: rb_dequeue_def)
  assume i: "0 \<le> i"
  show "rb_peek m q i = (if nat i < length (rb_items m q) then Some (rb_items m q ! nat i) else None)"
    using i rb_length_items[OF m, of q] rb_items_nth[of "nat i" m q]
    by (auto simp: rb_peek_def nat_less_iff)
qed

lemma rb_queue_arr_foldl: "rb_queue_arr msk b xs = foldl (rb_queue msk) b xs"
  by (induction xs arbitrary: b) auto

lemma rb_dequeue_loop_drain: "rb_dequeue_loop msk b n = drain (rb_dequeue msk) b n"
  by (induction n arbitrary: b) (auto split: prod.splits option.splits)

end
