(* ===== verification/RingBuffers.thy ===== *)
theory RingBuffers
  imports RingBuffer
begin

text \<open>
  The six ring-buffer files as instances of the operations of \<open>RingBuffer\<close>: their element types,
  their sizes, one definition per C function, and the interpretation of the queue contract for
  each of them.
\<close>

section \<open>Element types\<close>

record mqtt_ringbuffer_element_t =
  rb_idx :: int
  rb_cmd :: int
  rb_val :: int
  sztopic :: string
  szpayload :: string

record tbmqtt_ringbuffer_element_t =
  tb_idx :: int
  tb_cmd :: int
  tb_val :: int
  tb_sztopic :: string
  tb_szpayload :: string

record chan_ring_buffer_element_t =
  chan_c :: char

record chan_serial_ringbuffer_element_t =
  chan_serial_c :: char

record can_frame =
  can_id :: uint32
  can_dlc :: UCHAR
  can_data :: "UCHAR list"

record chan_socketcan_ringbuffer_element_t =
  socketcan_frame :: can_frame

record chan_tcpservcan_ringbuffer_element_t =
  tcpservcan_frame :: can_frame

section \<open>\<open>mqtt_ringbuffer\<close>\<close>

type_synonym mqtt_ringbuffer_t = "mqtt_ringbuffer_element_t ringbuffer"

definition MQTT_RING_BUFFER_SIZE :: int where
  "MQTT_RING_BUFFER_SIZE = 0x100"

definition MQTT_RING_BUFFER_MASK :: int where
  "MQTT_RING_BUFFER_MASK = MQTT_RING_BUFFER_SIZE - 1"

definition mqtt_ringbuffer_init :: "mqtt_ringbuffer_t \<Rightarrow> mqtt_ringbuffer_t" where
  "mqtt_ringbuffer_init = rb_init"

definition mqtt_ringbuffer_queue :: "mqtt_ringbuffer_t \<Rightarrow> mqtt_ringbuffer_element_t \<Rightarrow> mqtt_ringbuffer_t" where
  "mqtt_ringbuffer_queue = rb_queue MQTT_RING_BUFFER_MASK"

definition mqtt_ringbuffer_queue_arr ::
  "mqtt_ringbuffer_t \<Rightarrow> mqtt_ringbuffer_element_t list \<Rightarrow> mqtt_ringbuffer_t" where
  "mqtt_ringbuffer_queue_arr = rb_queue_arr MQTT_RING_BUFFER_MASK"

definition mqtt_ringbuffer_dequeue ::
  "mqtt_ringbuffer_t \<Rightarrow> mqtt_ringbuffer_element_t option \<times> mqtt_ringbuffer_t" where
  "mqtt_ringbuffer_dequeue = rb_dequeue MQTT_RING_BUFFER_MASK"

definition mqtt_ringbuffer_dequeue_arr ::
  "mqtt_ringbuffer_t \<Rightarrow> int \<Rightarrow> mqtt_ringbuffer_element_t list \<times> mqtt_ringbuffer_t" where
  "mqtt_ringbuffer_dequeue_arr = rb_dequeue_arr MQTT_RING_BUFFER_MASK"

definition mqtt_ringbuffer_peek :: "mqtt_ringbuffer_t \<Rightarrow> int \<Rightarrow> mqtt_ringbuffer_element_t option" where
  "mqtt_ringbuffer_peek = rb_peek MQTT_RING_BUFFER_MASK"

definition mqtt_ringbuffer_num_items :: "mqtt_ringbuffer_t \<Rightarrow> int" where
  "mqtt_ringbuffer_num_items = rb_num_items MQTT_RING_BUFFER_MASK"

definition mqtt_ringbuffer_size :: "mqtt_ringbuffer_t \<Rightarrow> int" where
  "mqtt_ringbuffer_size b = MQTT_RING_BUFFER_SIZE"

definition mqtt_ringbuffer_is_empty :: "mqtt_ringbuffer_t \<Rightarrow> bool" where
  "mqtt_ringbuffer_is_empty = rb_is_empty"

definition mqtt_ringbuffer_is_full :: "mqtt_ringbuffer_t \<Rightarrow> bool" where
  "mqtt_ringbuffer_is_full = rb_is_full MQTT_RING_BUFFER_MASK"

definition mqtt_ringbuffer_wf :: "mqtt_ringbuffer_t \<Rightarrow> bool" where
  "mqtt_ringbuffer_wf = rb_wf 8"

definition mqtt_ringbuffer_items :: "mqtt_ringbuffer_t \<Rightarrow> mqtt_ringbuffer_element_t list" where
  "mqtt_ringbuffer_items = rb_items MQTT_RING_BUFFER_MASK"

lemma MQTT_RING_BUFFER_MASK_pow2: "MQTT_RING_BUFFER_MASK = 2 ^ 8 - 1"
  by (simp add: MQTT_RING_BUFFER_MASK_def MQTT_RING_BUFFER_SIZE_def)

interpretation mqtt_rb: lossy_fifo mqtt_ringbuffer_wf mqtt_ringbuffer_items "nat MQTT_RING_BUFFER_MASK"
  mqtt_ringbuffer_queue mqtt_ringbuffer_dequeue mqtt_ringbuffer_peek
  unfolding mqtt_ringbuffer_wf_def mqtt_ringbuffer_items_def mqtt_ringbuffer_queue_def
    mqtt_ringbuffer_dequeue_def mqtt_ringbuffer_peek_def
  by (rule rb_lossy_fifo[OF MQTT_RING_BUFFER_MASK_pow2]) simp

section \<open>\<open>tbmqtt_ringbuffer\<close>\<close>

type_synonym tbmqtt_ringbuffer_t = "tbmqtt_ringbuffer_element_t ringbuffer"

definition TBMQTT_RINGBUFFER_SIZE :: int where
  "TBMQTT_RINGBUFFER_SIZE = 0x200"

definition TBMQTT_RINGBUFFER_MASK :: int where
  "TBMQTT_RINGBUFFER_MASK = TBMQTT_RINGBUFFER_SIZE - 1"

definition tbmqtt_ringbuffer_init :: "tbmqtt_ringbuffer_t \<Rightarrow> tbmqtt_ringbuffer_t" where
  "tbmqtt_ringbuffer_init = rb_init"

definition tbmqtt_ringbuffer_queue :: "tbmqtt_ringbuffer_t \<Rightarrow> tbmqtt_ringbuffer_element_t \<Rightarrow> tbmqtt_ringbuffer_t" where
  "tbmqtt_ringbuffer_queue = rb_queue TBMQTT_RINGBUFFER_MASK"

definition tbmqtt_ringbuffer_queue_arr ::
  "tbmqtt_ringbuffer_t \<Rightarrow> tbmqtt_ringbuffer_element_t list \<Rightarrow> tbmqtt_ringbuffer_t" where
  "tbmqtt_ringbuffer_queue_arr = rb_queue_arr TBMQTT_RINGBUFFER_MASK"

definition tbmqtt_ringbuffer_dequeue ::
  "tbmqtt_ringbuffer_t \<Rightarrow> tbmqtt_ringbuffer_element_t option \<times> tbmqtt_ringbuffer_t" where
  "tbmqtt_ringbuffer_dequeue = rb_dequeue TBMQTT_RINGBUFFER_MASK"

definition tbmqtt_ringbuffer_dequeue_arr ::
  "tbmqtt_ringbuffer_t \<Rightarrow> int \<Rightarrow> tbmqtt_ringbuffer_element_t list \<times> tbmqtt_ringbuffer_t" where
  "tbmqtt_ringbuffer_dequeue_arr = rb_dequeue_arr TBMQTT_RINGBUFFER_MASK"

definition tbmqtt_ringbuffer_peek :: "tbmqtt_ringbuffer_t \<Rightarrow> int \<Rightarrow> tbmqtt_ringbuffer_element_t option" where
  "tbmqtt_ringbuffer_peek = rb_peek TBMQTT_RINGBUFFER_MASK"

definition tbmqtt_ringbuffer_num_items :: "tbmqtt_ringbuffer_t \<Rightarrow> int" where
  "tbmqtt_ringbuffer_num_items = rb_num_items TBMQTT_RINGBUFFER_MASK"

definition tbmqtt_ringbuffer_size :: "tbmqtt_ringbuffer_t \<Rightarrow> int" where
  "tbmqtt_ringbuffer_size b = TBMQTT_RINGBUFFER_SIZE"

definition tbmqtt_ringbuffer_is_empty :: "tbmqtt_ringbuffer_t \<Rightarrow> bool" where
  "tbmqtt_ringbuffer_is_empty = rb_is_empty"

definition tbmqtt_ringbuffer_is_full :: "tbmqtt_ringbuffer_t \<Rightarrow> bool" where
  "tbmqtt_ringbuffer_is_full = rb_is_full TBMQTT_RINGBUFFER_MASK"

definition tbmqtt_ringbuffer_wf :: "tbmqtt_ringbuffer_t \<Rightarrow> bool" where
  "tbmqtt_ringbuffer_wf = rb_wf 9"

definition tbmqtt_ringbuffer_items :: "tbmqtt_ringbuffer_t \<Rightarrow> tbmqtt_ringbuffer_element_t list" where
  "tbmqtt_ringbuffer_items = rb_items TBMQTT_RINGBUFFER_MASK"

lemma TBMQTT_RINGBUFFER_MASK_pow2: "TBMQTT_RINGBUFFER_MASK = 2 ^ 9 - 1"
  by (simp add: TBMQTT_RINGBUFFER_MASK_def TBMQTT_RINGBUFFER_SIZE_def)

interpretation tbmqtt_rb: lossy_fifo tbmqtt_ringbuffer_wf tbmqtt_ringbuffer_items "nat TBMQTT_RINGBUFFER_MASK"
  tbmqtt_ringbuffer_queue tbmqtt_ringbuffer_dequeue tbmqtt_ringbuffer_peek
  unfolding tbmqtt_ringbuffer_wf_def tbmqtt_ringbuffer_items_def tbmqtt_ringbuffer_queue_def
    tbmqtt_ringbuffer_dequeue_def tbmqtt_ringbuffer_peek_def
  by (rule rb_lossy_fifo[OF TBMQTT_RINGBUFFER_MASK_pow2]) simp

section \<open>\<open>chan_ring_buffer\<close>\<close>

type_synonym chan_ring_buffer_t = "chan_ring_buffer_element_t ringbuffer"

definition CHAN_RING_BUFFER_SIZE :: int where
  "CHAN_RING_BUFFER_SIZE = 0x80"

definition CHAN_RING_BUFFER_MASK :: int where
  "CHAN_RING_BUFFER_MASK = CHAN_RING_BUFFER_SIZE - 1"

definition chan_ring_buffer_init :: "chan_ring_buffer_t \<Rightarrow> chan_ring_buffer_t" where
  "chan_ring_buffer_init = rb_init"

definition chan_ring_buffer_queue :: "chan_ring_buffer_t \<Rightarrow> chan_ring_buffer_element_t \<Rightarrow> chan_ring_buffer_t" where
  "chan_ring_buffer_queue = rb_queue CHAN_RING_BUFFER_MASK"

definition chan_ring_buffer_queue_arr ::
  "chan_ring_buffer_t \<Rightarrow> chan_ring_buffer_element_t list \<Rightarrow> chan_ring_buffer_t" where
  "chan_ring_buffer_queue_arr = rb_queue_arr CHAN_RING_BUFFER_MASK"

definition chan_ring_buffer_dequeue ::
  "chan_ring_buffer_t \<Rightarrow> chan_ring_buffer_element_t option \<times> chan_ring_buffer_t" where
  "chan_ring_buffer_dequeue = rb_dequeue CHAN_RING_BUFFER_MASK"

definition chan_ring_buffer_dequeue_arr ::
  "chan_ring_buffer_t \<Rightarrow> int \<Rightarrow> chan_ring_buffer_element_t list \<times> chan_ring_buffer_t" where
  "chan_ring_buffer_dequeue_arr = rb_dequeue_arr CHAN_RING_BUFFER_MASK"

definition chan_ring_buffer_peek :: "chan_ring_buffer_t \<Rightarrow> int \<Rightarrow> chan_ring_buffer_element_t option" where
  "chan_ring_buffer_peek = rb_peek CHAN_RING_BUFFER_MASK"

definition chan_ring_buffer_num_items :: "chan_ring_buffer_t \<Rightarrow> int" where
  "chan_ring_buffer_num_items = rb_num_items CHAN_RING_BUFFER_MASK"

definition chan_ring_buffer_is_empty :: "chan_ring_buffer_t \<Rightarrow> bool" where
  "chan_ring_buffer_is_empty = rb_is_empty"

definition chan_ring_buffer_is_full :: "chan_ring_buffer_t \<Rightarrow> bool" where
  "chan_ring_buffer_is_full = rb_is_full CHAN_RING_BUFFER_MASK"

definition chan_ring_buffer_wf :: "chan_ring_buffer_t \<Rightarrow> bool" where
  "chan_ring_buffer_wf = rb_wf 7"

definition chan_ring_buffer_items :: "chan_ring_buffer_t \<Rightarrow> chan_ring_buffer_element_t list" where
  "chan_ring_buffer_items = rb_items CHAN_RING_BUFFER_MASK"

lemma CHAN_RING_BUFFER_MASK_pow2: "CHAN_RING_BUFFER_MASK = 2 ^ 7 - 1"
  by (simp add: CHAN_RING_BUFFER_MASK_def CHAN_RING_BUFFER_SIZE_def)

interpretation chan_rb: lossy_fifo chan_ring_buffer_wf chan_ring_buffer_items "nat CHAN_RING_BUFFER_MASK"
  chan_ring_buffer_queue chan_ring_buffer_dequeue chan_ring_buffer_peek
  unfolding chan_ring_buffer_wf_def chan_ring_buffer_items_def chan_ring_buffer_queue_def
    chan_ring_buffer_dequeue_def chan_ring_buffer_peek_def
  by (rule rb_lossy_fifo[OF CHAN_RING_BUFFER_MASK_pow2]) simp

section \<open>\<open>chan_serial_ringbuffer\<close>\<close>

type_synonym chan_serial_ringbuffer_t = "chan_serial_ringbuffer_element_t ringbuffer"

definition CHAN_SERIAL_RINGBUFFER_SIZE :: int where
  "CHAN_SERIAL_RINGBUFFER_SIZE = 0x80"

definition CHAN_SERIAL_RINGBUFFER_MASK :: int where
  "CHAN_SERIAL_RINGBUFFER_MASK = CHAN_SERIAL_RINGBUFFER_SIZE - 1"

definition chan_serial_ringbuffer_init :: "chan_serial_ringbuffer_t \<Rightarrow> chan_serial_ringbuffer_t" where
  "chan_serial_ringbuffer_init = rb_init"

definition chan_serial_ringbuffer_queue :: "chan_serial_ringbuffer_t \<Rightarrow> chan_serial_ringbuffer_element_t \<Rightarrow> chan_serial_ringbuffer_t" where
  "chan_serial_ringbuffer_queue = rb_queue CHAN_SERIAL_RINGBUFFER_MASK"

definition chan_serial_ringbuffer_queue_arr ::
  "chan_serial_ringbuffer_t \<Rightarrow> chan_serial_ringbuffer_element_t list \<Rightarrow> chan_serial_ringbuffer_t" where
  "chan_serial_ringbuffer_queue_arr = rb_queue_arr CHAN_SERIAL_RINGBUFFER_MASK"

definition chan_serial_ringbuffer_dequeue ::
  "chan_serial_ringbuffer_t \<Rightarrow> chan_serial_ringbuffer_element_t option \<times> chan_serial_ringbuffer_t" where
  "chan_serial_ringbuffer_dequeue = rb_dequeue CHAN_SERIAL_RINGBUFFER_MASK"

definition chan_serial_ringbuffer_dequeue_arr ::
  "chan_serial_ringbuffer_t \<Rightarrow> int \<Rightarrow> chan_serial_ringbuffer_element_t list \<times> chan_serial_ringbuffer_t" where
  "chan_serial_ringbuffer_dequeue_arr = rb_dequeue_arr CHAN_SERIAL_RINGBUFFER_MASK"

definition chan_serial_ringbuffer_peek :: "chan_serial_ringbuffer_t \<Rightarrow> int \<Rightarrow> chan_serial_ringbuffer_element_t option" where
  "chan_serial_ringbuffer_peek = rb_peek CHAN_SERIAL_RINGBUFFER_MASK"

definition chan_serial_ringbuffer_num_items :: "chan_serial_ringbuffer_t \<Rightarrow> int" where
  "chan_serial_ringbuffer_num_items = rb_num_items CHAN_SERIAL_RINGBUFFER_MASK"

definition chan_serial_ringbuffer_is_empty :: "chan_serial_ringbuffer_t \<Rightarrow> bool" where
  "chan_serial_ringbuffer_is_empty = rb_is_empty"

definition chan_serial_ringbuffer_is_full :: "chan_serial_ringbuffer_t \<Rightarrow> bool" where
  "chan_serial_ringbuffer_is_full = rb_is_full CHAN_SERIAL_RINGBUFFER_MASK"

definition chan_serial_ringbuffer_wf :: "chan_serial_ringbuffer_t \<Rightarrow> bool" where
  "chan_serial_ringbuffer_wf = rb_wf 7"

definition chan_serial_ringbuffer_items :: "chan_serial_ringbuffer_t \<Rightarrow> chan_serial_ringbuffer_element_t list" where
  "chan_serial_ringbuffer_items = rb_items CHAN_SERIAL_RINGBUFFER_MASK"

lemma CHAN_SERIAL_RINGBUFFER_MASK_pow2: "CHAN_SERIAL_RINGBUFFER_MASK = 2 ^ 7 - 1"
  by (simp add: CHAN_SERIAL_RINGBUFFER_MASK_def CHAN_SERIAL_RINGBUFFER_SIZE_def)

interpretation chan_serial_rb: lossy_fifo chan_serial_ringbuffer_wf chan_serial_ringbuffer_items "nat CHAN_SERIAL_RINGBUFFER_MASK"
  chan_serial_ringbuffer_queue chan_serial_ringbuffer_dequeue chan_serial_ringbuffer_peek
  unfolding chan_serial_ringbuffer_wf_def chan_serial_ringbuffer_items_def chan_serial_ringbuffer_queue_def
    chan_serial_ringbuffer_dequeue_def chan_serial_ringbuffer_peek_def
  by (rule rb_lossy_fifo[OF CHAN_SERIAL_RINGBUFFER_MASK_pow2]) simp

section \<open>\<open>chan_socketcan_ringbuffer\<close>\<close>

type_synonym chan_socketcan_ringbuffer_t = "chan_socketcan_ringbuffer_element_t ringbuffer"

definition CHAN_SOCKETCAN_RINGBUFFER_SIZE :: int where
  "CHAN_SOCKETCAN_RINGBUFFER_SIZE = 0x80"

definition CHAN_SOCKETCAN_RINGBUFFER_MASK :: int where
  "CHAN_SOCKETCAN_RINGBUFFER_MASK = CHAN_SOCKETCAN_RINGBUFFER_SIZE - 1"

definition chan_socketcan_ringbuffer_init :: "chan_socketcan_ringbuffer_t \<Rightarrow> chan_socketcan_ringbuffer_t" where
  "chan_socketcan_ringbuffer_init = rb_init"

definition chan_socketcan_ringbuffer_queue :: "chan_socketcan_ringbuffer_t \<Rightarrow> chan_socketcan_ringbuffer_element_t \<Rightarrow> chan_socketcan_ringbuffer_t" where
  "chan_socketcan_ringbuffer_queue = rb_queue CHAN_SOCKETCAN_RINGBUFFER_MASK"

definition chan_socketcan_ringbuffer_queue_arr ::
  "chan_socketcan_ringbuffer_t \<Rightarrow> chan_socketcan_ringbuffer_element_t list \<Rightarrow> chan_socketcan_ringbuffer_t" where
  "chan_socketcan_ringbuffer_queue_arr = rb_queue_arr CHAN_SOCKETCAN_RINGBUFFER_MASK"

definition chan_socketcan_ringbuffer_dequeue ::
  "chan_socketcan_ringbuffer_t \<Rightarrow> chan_socketcan_ringbuffer_element_t option \<times> chan_socketcan_ringbuffer_t" where
  "chan_socketcan_ringbuffer_dequeue = rb_dequeue CHAN_SOCKETCAN_RINGBUFFER_MASK"

definition chan_socketcan_ringbuffer_dequeue_arr ::
  "chan_socketcan_ringbuffer_t \<Rightarrow> int \<Rightarrow> chan_socketcan_ringbuffer_element_t list \<times> chan_socketcan_ringbuffer_t" where
  "chan_socketcan_ringbuffer_dequeue_arr = rb_dequeue_arr CHAN_SOCKETCAN_RINGBUFFER_MASK"

definition chan_socketcan_ringbuffer_peek :: "chan_socketcan_ringbuffer_t \<Rightarrow> int \<Rightarrow> chan_socketcan_ringbuffer_element_t option" where
  "chan_socketcan_ringbuffer_peek = rb_peek CHAN_SOCKETCAN_RINGBUFFER_MASK"

definition chan_socketcan_ringbuffer_num_items :: "chan_socketcan_ringbuffer_t \<Rightarrow> int" where
  "chan_socketcan_ringbuffer_num_items = rb_num_items CHAN_SOCKETCAN_RINGBUFFER_MASK"

definition chan_socketcan_ringbuffer_is_empty :: "chan_socketcan_ringbuffer_t \<Rightarrow> bool" where
  "chan_socketcan_ringbuffer_is_empty = rb_is_empty"

definition chan_socketcan_ringbuffer_is_full :: "chan_socketcan_ringbuffer_t \<Rightarrow> bool" where
  "chan_socketcan_ringbuffer_is_full = rb_is_full CHAN_SOCKETCAN_RINGBUFFER_MASK"

definition chan_socketcan_ringbuffer_wf :: "chan_socketcan_ringbuffer_t \<Rightarrow> bool" where
  "chan_socketcan_ringbuffer_wf = rb_wf 7"

definition chan_socketcan_ringbuffer_items :: "chan_socketcan_ringbuffer_t \<Rightarrow> chan_socketcan_ringbuffer_element_t list" where
  "chan_socketcan_ringbuffer_items = rb_items CHAN_SOCKETCAN_RINGBUFFER_MASK"

lemma CHAN_SOCKETCAN_RINGBUFFER_MASK_pow2: "CHAN_SOCKETCAN_RINGBUFFER_MASK = 2 ^ 7 - 1"
  by (simp add: CHAN_SOCKETCAN_RINGBUFFER_MASK_def CHAN_SOCKETCAN_RINGBUFFER_SIZE_def)

interpretation chan_socketcan_rb: lossy_fifo chan_socketcan_ringbuffer_wf chan_socketcan_ringbuffer_items "nat CHAN_SOCKETCAN_RINGBUFFER_MASK"
  chan_socketcan_ringbuffer_queue chan_socketcan_ringbuffer_dequeue chan_socketcan_ringbuffer_peek
  unfolding chan_socketcan_ringbuffer_wf_def chan_socketcan_ringbuffer_items_def chan_socketcan_ringbuffer_queue_def
    chan_socketcan_ringbuffer_dequeue_def chan_socketcan_ringbuffer_peek_def
  by (rule rb_lossy_fifo[OF CHAN_SOCKETCAN_RINGBUFFER_MASK_pow2]) simp

section \<open>\<open>chan_tcpservcan_ringbuffer\<close>\<close>

type_synonym chan_tcpservcan_ringbuffer_t = "chan_tcpservcan_ringbuffer_element_t ringbuffer"

definition CHAN_TCPSERVCAN_RINGBUFFER_SIZE :: int where
  "CHAN_TCPSERVCAN_RINGBUFFER_SIZE = 0x80"

definition CHAN_TCPSERVCAN_RINGBUFFER_MASK :: int where
  "CHAN_TCPSERVCAN_RINGBUFFER_MASK = CHAN_TCPSERVCAN_RINGBUFFER_SIZE - 1"

definition chan_tcpservcan_ringbuffer_init :: "chan_tcpservcan_ringbuffer_t \<Rightarrow> chan_tcpservcan_ringbuffer_t" where
  "chan_tcpservcan_ringbuffer_init = rb_init"

definition chan_tcpservcan_ringbuffer_queue :: "chan_tcpservcan_ringbuffer_t \<Rightarrow> chan_tcpservcan_ringbuffer_element_t \<Rightarrow> chan_tcpservcan_ringbuffer_t" where
  "chan_tcpservcan_ringbuffer_queue = rb_queue CHAN_TCPSERVCAN_RINGBUFFER_MASK"

definition chan_tcpservcan_ringbuffer_queue_arr ::
  "chan_tcpservcan_ringbuffer_t \<Rightarrow> chan_tcpservcan_ringbuffer_element_t list \<Rightarrow> chan_tcpservcan_ringbuffer_t" where
  "chan_tcpservcan_ringbuffer_queue_arr = rb_queue_arr CHAN_TCPSERVCAN_RINGBUFFER_MASK"

definition chan_tcpservcan_ringbuffer_dequeue ::
  "chan_tcpservcan_ringbuffer_t \<Rightarrow> chan_tcpservcan_ringbuffer_element_t option \<times> chan_tcpservcan_ringbuffer_t" where
  "chan_tcpservcan_ringbuffer_dequeue = rb_dequeue CHAN_TCPSERVCAN_RINGBUFFER_MASK"

definition chan_tcpservcan_ringbuffer_dequeue_arr ::
  "chan_tcpservcan_ringbuffer_t \<Rightarrow> int \<Rightarrow> chan_tcpservcan_ringbuffer_element_t list \<times> chan_tcpservcan_ringbuffer_t" where
  "chan_tcpservcan_ringbuffer_dequeue_arr = rb_dequeue_arr CHAN_TCPSERVCAN_RINGBUFFER_MASK"

definition chan_tcpservcan_ringbuffer_peek :: "chan_tcpservcan_ringbuffer_t \<Rightarrow> int \<Rightarrow> chan_tcpservcan_ringbuffer_element_t option" where
  "chan_tcpservcan_ringbuffer_peek = rb_peek CHAN_TCPSERVCAN_RINGBUFFER_MASK"

definition chan_tcpservcan_ringbuffer_num_items :: "chan_tcpservcan_ringbuffer_t \<Rightarrow> int" where
  "chan_tcpservcan_ringbuffer_num_items = rb_num_items CHAN_TCPSERVCAN_RINGBUFFER_MASK"

definition chan_tcpservcan_ringbuffer_is_empty :: "chan_tcpservcan_ringbuffer_t \<Rightarrow> bool" where
  "chan_tcpservcan_ringbuffer_is_empty = rb_is_empty"

definition chan_tcpservcan_ringbuffer_is_full :: "chan_tcpservcan_ringbuffer_t \<Rightarrow> bool" where
  "chan_tcpservcan_ringbuffer_is_full = rb_is_full CHAN_TCPSERVCAN_RINGBUFFER_MASK"

definition chan_tcpservcan_ringbuffer_wf :: "chan_tcpservcan_ringbuffer_t \<Rightarrow> bool" where
  "chan_tcpservcan_ringbuffer_wf = rb_wf 7"

definition chan_tcpservcan_ringbuffer_items :: "chan_tcpservcan_ringbuffer_t \<Rightarrow> chan_tcpservcan_ringbuffer_element_t list" where
  "chan_tcpservcan_ringbuffer_items = rb_items CHAN_TCPSERVCAN_RINGBUFFER_MASK"

lemma CHAN_TCPSERVCAN_RINGBUFFER_MASK_pow2: "CHAN_TCPSERVCAN_RINGBUFFER_MASK = 2 ^ 7 - 1"
  by (simp add: CHAN_TCPSERVCAN_RINGBUFFER_MASK_def CHAN_TCPSERVCAN_RINGBUFFER_SIZE_def)

interpretation chan_tcpservcan_rb: lossy_fifo chan_tcpservcan_ringbuffer_wf chan_tcpservcan_ringbuffer_items "nat CHAN_TCPSERVCAN_RINGBUFFER_MASK"
  chan_tcpservcan_ringbuffer_queue chan_tcpservcan_ringbuffer_dequeue chan_tcpservcan_ringbuffer_peek
  unfolding chan_tcpservcan_ringbuffer_wf_def chan_tcpservcan_ringbuffer_items_def chan_tcpservcan_ringbuffer_queue_def
    chan_tcpservcan_ringbuffer_dequeue_def chan_tcpservcan_ringbuffer_peek_def
  by (rule rb_lossy_fifo[OF CHAN_TCPSERVCAN_RINGBUFFER_MASK_pow2]) simp

section \<open>Properties\<close>

lemma foldl_queue_arr:
  "mqtt_ringbuffer_queue_arr b xs = foldl mqtt_ringbuffer_queue b xs"
  "tbmqtt_ringbuffer_queue_arr c ys = foldl tbmqtt_ringbuffer_queue c ys"
  by (simp_all add: mqtt_ringbuffer_queue_arr_def mqtt_ringbuffer_queue_def
      tbmqtt_ringbuffer_queue_arr_def tbmqtt_ringbuffer_queue_def rb_queue_arr_foldl)

lemma tbmqtt_dequeue_arr_drain:
  "tbmqtt_ringbuffer_dequeue_arr b (int n) =
     (if tbmqtt_ringbuffer_is_empty b then ([], b) else drain tbmqtt_ringbuffer_dequeue b n)"
  by (simp add: tbmqtt_ringbuffer_dequeue_arr_def tbmqtt_ringbuffer_is_empty_def
      tbmqtt_ringbuffer_dequeue_def rb_dequeue_arr_def rb_dequeue_loop_drain)

lemma tbmqtt_is_empty_iff:
  "tbmqtt_ringbuffer_wf b \<Longrightarrow> tbmqtt_ringbuffer_is_empty b \<longleftrightarrow> tbmqtt_ringbuffer_items b = []"
  unfolding tbmqtt_ringbuffer_wf_def tbmqtt_ringbuffer_is_empty_def tbmqtt_ringbuffer_items_def
  by (rule rb_is_empty_iff[OF _ TBMQTT_RINGBUFFER_MASK_pow2])

lemma tbmqtt_rb_init:
  "length (buffer b) = 512 \<Longrightarrow> tbmqtt_ringbuffer_wf (tbmqtt_ringbuffer_init b)"
  "tbmqtt_ringbuffer_items (tbmqtt_ringbuffer_init b) = []"
  using rb_init_wf[of b 9]
  by (simp_all add: tbmqtt_ringbuffer_wf_def tbmqtt_ringbuffer_init_def tbmqtt_ringbuffer_items_def)

lemma mqtt_rb_init:
  "length (buffer b) = 256 \<Longrightarrow> mqtt_ringbuffer_wf (mqtt_ringbuffer_init b)"
  "mqtt_ringbuffer_items (mqtt_ringbuffer_init b) = []"
  using rb_init_wf[of b 8]
  by (simp_all add: mqtt_ringbuffer_wf_def mqtt_ringbuffer_init_def mqtt_ringbuffer_items_def)

text \<open>C10: the transmit buffer of the MQTT uplink refines a list queue of capacity 255 that drops
  its oldest element when full: from any freshly initialised 256-slot buffer, every interleaving
  of \<open>mqtt_ringbuffer_queue\<close> and \<open>mqtt_ringbuffer_dequeue\<close> returns exactly the elements the
  specification returns, in the same order, and leaves the same contents.\<close>

theorem mqtt_ringbuffer_refines_lossy_queue:
  assumes "length (buffer b) = 256"
  shows "fst (fifo_run mqtt_ringbuffer_queue mqtt_ringbuffer_dequeue (mqtt_ringbuffer_init b) ops)
      = fst (spec_run 255 [] ops)
    \<and> mqtt_ringbuffer_items
        (snd (fifo_run mqtt_ringbuffer_queue mqtt_ringbuffer_dequeue (mqtt_ringbuffer_init b) ops))
      = snd (spec_run 255 [] ops)"
proof -
  have "nat MQTT_RING_BUFFER_MASK = 255"
    by (simp add: MQTT_RING_BUFFER_MASK_def MQTT_RING_BUFFER_SIZE_def)
  then show ?thesis
    using mqtt_rb.run_refines[OF mqtt_rb_init(1)[OF assms], of ops] by (simp add: mqtt_rb_init(2))
qed

theorem mqtt_ringbuffer_refines_lossy_queue_witness:
  "fst (fifo_run mqtt_ringbuffer_queue mqtt_ringbuffer_dequeue
     (mqtt_ringbuffer_init \<lparr>buffer = replicate 256 \<lparr>rb_idx = 0, rb_cmd = 0, rb_val = 0,
        sztopic = '''', szpayload = ''''\<rparr>, tail_index = 9, head_index = 4\<rparr>)
     [Put \<lparr>rb_idx = 1, rb_cmd = 0, rb_val = 0, sztopic = ''a'', szpayload = ''''\<rparr>, Get, Get])
   = [Some \<lparr>rb_idx = 1, rb_cmd = 0, rb_val = 0, sztopic = ''a'', szpayload = ''''\<rparr>, None]"
  using mqtt_ringbuffer_refines_lossy_queue
    [of "\<lparr>buffer = replicate 256 \<lparr>rb_idx = 0, rb_cmd = 0, rb_val = 0,
        sztopic = '''', szpayload = ''''\<rparr>, tail_index = 9, head_index = 4\<rparr>"
      "[Put \<lparr>rb_idx = 1, rb_cmd = 0, rb_val = 0, sztopic = ''a'', szpayload = ''''\<rparr>, Get, Get]"]
  by (simp add: spec_queue_def)

text \<open>Fact: batching through the ThingsBoard buffer is a round trip that keeps the newest 511
  elements: queueing an array into an initialised buffer and dequeueing up to \<open>n\<close> elements
  gives back, oldest first, the first \<open>n\<close> of the last 511 elements queued.\<close>

theorem tbmqtt_ringbuffer_arr_roundtrip:
  assumes "length (buffer b) = 512"
  shows "fst (tbmqtt_ringbuffer_dequeue_arr
      (tbmqtt_ringbuffer_queue_arr (tbmqtt_ringbuffer_init b) xs) (int n))
    = take n (drop (length xs - 511) xs)"
proof -
  let ?q = "tbmqtt_ringbuffer_queue_arr (tbmqtt_ringbuffer_init b) xs"
  have cap: "nat TBMQTT_RINGBUFFER_MASK = 511"
    by (simp add: TBMQTT_RINGBUFFER_MASK_def TBMQTT_RINGBUFFER_SIZE_def)
  have wf: "tbmqtt_ringbuffer_wf ?q"
    unfolding foldl_queue_arr by (rule tbmqtt_rb.queue_all_inv[OF tbmqtt_rb_init(1)[OF assms]])
  have "tbmqtt_ringbuffer_items ?q = drop (length xs - 511) xs"
    unfolding foldl_queue_arr
    using tbmqtt_rb.queue_all_items[OF tbmqtt_rb_init(1)[OF assms]] by (simp add: tbmqtt_rb_init(2) cap)
  then show ?thesis
    using tbmqtt_rb.drain_items[OF wf, of n] tbmqtt_is_empty_iff[OF wf]
    by (simp add: tbmqtt_dequeue_arr_drain del: drop_eq_Nil)
qed

theorem tbmqtt_ringbuffer_arr_roundtrip_witness:
  "fst (tbmqtt_ringbuffer_dequeue_arr (tbmqtt_ringbuffer_queue_arr
     (tbmqtt_ringbuffer_init \<lparr>buffer = replicate 512 \<lparr>tb_idx = 0, tb_cmd = 0, tb_val = 0,
        tb_sztopic = '''', tb_szpayload = ''''\<rparr>, tail_index = 0, head_index = 3\<rparr>)
     [\<lparr>tb_idx = 1, tb_cmd = 0, tb_val = 0, tb_sztopic = '''', tb_szpayload = ''''\<rparr>,
      \<lparr>tb_idx = 2, tb_cmd = 0, tb_val = 0, tb_sztopic = '''', tb_szpayload = ''''\<rparr>]) (int 1))
   = [\<lparr>tb_idx = 1, tb_cmd = 0, tb_val = 0, tb_sztopic = '''', tb_szpayload = ''''\<rparr>]"
  by (subst tbmqtt_ringbuffer_arr_roundtrip) simp_all

text \<open>Fact: no operation of the channel byte buffer reads or writes outside its array, and its two
  indices stay inside it: on a well-formed buffer the head slot written by \<open>queue\<close>, the tail slot
  read by \<open>dequeue\<close> and the slot read by \<open>peek\<close> at any index, negative ones included, are below
  128, and every operation leaves a well-formed buffer.\<close>

theorem chan_ring_buffer_index_safety:
  assumes "chan_ring_buffer_wf b"
  shows "nat (head_index b) < length (buffer b) \<and> nat (tail_index b) < length (buffer b)
    \<and> nat ((tail_index b + i) AND CHAN_RING_BUFFER_MASK) < length (buffer b)
    \<and> chan_ring_buffer_wf (chan_ring_buffer_init b)
    \<and> chan_ring_buffer_wf (chan_ring_buffer_queue b x)
    \<and> chan_ring_buffer_wf (snd (chan_ring_buffer_dequeue b))
    \<and> chan_ring_buffer_wf (chan_ring_buffer_queue_arr b xs)
    \<and> chan_ring_buffer_wf (snd (chan_ring_buffer_dequeue_arr b n))"
proof -
  have len: "length (buffer b) = 128" and wf: "rb_wf 7 b"
    using assms by (simp_all add: chan_ring_buffer_wf_def rb_wf_def)
  have "rb_wf 7 (chan_ring_buffer_init b)"
    using rb_init_wf[of b 7] len by (simp add: chan_ring_buffer_init_def)
  moreover have "nat ((tail_index b + i) AND CHAN_RING_BUFFER_MASK) < 128"
    using int_and_mask[OF CHAN_RING_BUFFER_MASK_pow2] by (simp add: nat_less_iff)
  moreover have "chan_ring_buffer_wf (chan_ring_buffer_queue_arr b xs)"
    using chan_rb.queue_all_inv[OF assms]
    by (simp add: chan_ring_buffer_queue_arr_def chan_ring_buffer_queue_def rb_queue_arr_foldl)
  moreover have "chan_ring_buffer_wf (snd (chan_ring_buffer_dequeue_arr b n))"
    using chan_rb.drain_items[OF assms] assms
    by (simp add: chan_ring_buffer_dequeue_arr_def rb_dequeue_arr_def rb_dequeue_loop_drain
        chan_ring_buffer_dequeue_def)
  ultimately show ?thesis
    using chan_rb.queue_inv[OF assms] chan_rb.dequeue_inv[OF assms] wf len
    by (simp add: rb_wf_def chan_ring_buffer_wf_def nat_less_iff)
qed

theorem chan_ring_buffer_index_safety_witness:
  "chan_ring_buffer_wf (chan_ring_buffer_queue
     \<lparr>buffer = replicate 128 \<lparr>chan_c = CHR ''a''\<rparr>, tail_index = 0, head_index = 127\<rparr>
     \<lparr>chan_c = CHR ''b''\<rparr>)"
proof -
  have "chan_ring_buffer_wf
    \<lparr>buffer = replicate 128 \<lparr>chan_c = CHR ''a''\<rparr>, tail_index = 0, head_index = 127\<rparr>"
    by (simp add: chan_ring_buffer_wf_def rb_wf_def)
  from chan_ring_buffer_index_safety[OF this] show ?thesis by blast
qed

end
