(* ===== verification/Doubles.thy ===== *)
theory Doubles
  imports Prelude Complex_Main
begin

text \<open>
  C \<open>double\<close> arithmetic: a double is the rational number it denotes, and an operation rounds the
  exact result to 53 significant bits, ties to even (the default IEEE-754 mode). Only the normal
  range is modelled: no overflow to infinity, no subnormal numbers, no NaN and no negative zero. The
  quantities of the program (volts, amperes, milliseconds, percentages) stay far inside it.
\<close>

type_synonym dbl = rat

section \<open>Rounding to 53 bits\<close>

text \<open>The number of binary digits, and the exponent \<open>e\<close> with \<open>2\<^sup>e \<le> |x| < 2\<^sup>e\<^sup>+\<^sup>1\<close>.\<close>

function nbits :: "int \<Rightarrow> nat" where
  "nbits n = (if n \<le> 0 then 0 else Suc (nbits (n div 2)))"
  by pat_completeness auto

termination
  by (relation "measure nat") auto

declare nbits.simps [simp del]

definition pow2 :: "int \<Rightarrow> rat" where
  "pow2 e = (if e \<ge> 0 then 2 ^ nat e else 1 / 2 ^ nat (- e))"

definition binexp :: "rat \<Rightarrow> int" where
  "binexp x =
     (let (n, d) = quotient_of \<bar>x\<bar>;
          g = int (nbits n) - int (nbits d)
      in if pow2 g \<le> \<bar>x\<bar> then g else g - 1)"

definition round_even :: "rat \<Rightarrow> int" where
  "round_even x =
     (let f = \<lfloor>x\<rfloor>; r = x - of_int f
      in if r < 1 / 2 then f else if 1 / 2 < r then f + 1 else if even f then f else f + 1)"

definition dbl_round :: "rat \<Rightarrow> dbl" where
  "dbl_round x =
     (if x = 0 then 0
      else let u = pow2 (binexp x - 52) in of_int (round_even (x / u)) * u)"

definition dbl_add :: "dbl \<Rightarrow> dbl \<Rightarrow> dbl" where
  "dbl_add x y = dbl_round (x + y)"

definition dbl_sub :: "dbl \<Rightarrow> dbl \<Rightarrow> dbl" where
  "dbl_sub x y = dbl_round (x - y)"

definition dbl_mul :: "dbl \<Rightarrow> dbl \<Rightarrow> dbl" where
  "dbl_mul x y = dbl_round (x * y)"

definition dbl_div :: "dbl \<Rightarrow> dbl \<Rightarrow> dbl" where
  "dbl_div x y = dbl_round (x / y)"

text \<open>
  Conversion of a \<open>double\<close> to \<open>USHORT\<close>: truncation toward zero. C leaves a value whose integral
  part does not fit undefined.
\<close>

definition dbl_trunc :: "dbl \<Rightarrow> int" where
  "dbl_trunc x = (if 0 \<le> x then \<lfloor>x\<rfloor> else - \<lfloor>- x\<rfloor>)"

definition dbl_to_ushort :: "dbl \<Rightarrow> USHORT res" where
  "dbl_to_ushort x =
     (let t = dbl_trunc x
      in if 0 \<le> t \<and> t < 65536 then Inr (word_of_int t) else Inl Bad_conversion)"

section \<open>Lemmas\<close>

lemma pow2_pos [simp]: "0 < pow2 e"
  by (simp add: pow2_def)

lemma pow2_powi: "pow2 e = 2 powi e"
  by (simp add: pow2_def power_int_def field_simps)

lemma pow2_add: "pow2 (a + b) = pow2 a * pow2 b"
  by (simp add: pow2_powi power_int_add)

lemma pow2_mono: "a \<le> b \<Longrightarrow> pow2 a \<le> pow2 b"
  by (simp add: pow2_powi power_int_increasing)

lemma pow2_less_cancel: "pow2 a < pow2 b \<Longrightarrow> a < b"
  using pow2_mono[of b a] by (meson not_le)

lemma nbits_bounds: "0 < n \<Longrightarrow> 2 ^ (nbits n - 1) \<le> n \<and> n < 2 ^ nbits n"
proof (induction n rule: nbits.induct)
  case (1 n)
  show ?case
  proof (cases "n div 2 \<le> 0")
    case True
    then have "n = 1" using 1 by auto
    then show ?thesis by (simp add: nbits.simps)
  next
    case False
    then have IH: "2 ^ (nbits (n div 2) - 1) \<le> n div 2" "n div 2 < 2 ^ nbits (n div 2)"
      using 1 by auto
    have pos: "0 < nbits (n div 2)" using False by (subst nbits.simps) simp
    have "nbits n = Suc (nbits (n div 2))" using 1 by (simp add: nbits.simps[of n])
    moreover have "2 ^ nbits (n div 2) \<le> n"
      using IH(1) pos by (cases "nbits (n div 2)") auto
    moreover have "n < 2 * 2 ^ nbits (n div 2)" using IH(2) by linarith
    ultimately show ?thesis by simp
  qed
qed

lemma nbits_pow2:
  assumes "0 < (n::int)"
  shows "pow2 (int (nbits n) - 1) \<le> of_int n \<and> of_int n < pow2 (int (nbits n))"
proof -
  have pos: "0 < nbits n" using assms by (subst nbits.simps) simp
  have b: "2 ^ (nbits n - 1) \<le> n" "n < 2 ^ nbits n"
    using nbits_bounds[OF assms] by auto
  have "(of_int (2 ^ (nbits n - 1)) :: rat) \<le> of_int n" "(of_int n :: rat) < of_int (2 ^ nbits n)"
    using b by (simp_all only: of_int_le_iff of_int_less_iff)
  then show ?thesis
    using pos assms by (simp add: pow2_def nat_diff_distrib)
qed

lemma binexp_bounds:
  assumes "x \<noteq> 0"
  shows "pow2 (binexp x) \<le> \<bar>x\<bar> \<and> \<bar>x\<bar> < pow2 (binexp x + 1)"
proof -
  obtain n d where q: "quotient_of \<bar>x\<bar> = (n, d)" by fastforce
  have d: "0 < d" and xe: "\<bar>x\<bar> = of_int n / of_int d"
    using q quotient_of_denom_pos quotient_of_div by auto
  have "0 < \<bar>x\<bar>" using assms by simp
  then have n: "0 < n" using d unfolding xe by (simp add: zero_less_divide_iff)
  let ?a = "int (nbits n)" and ?b = "int (nbits d)"
  have nb: "pow2 (?a - 1) \<le> of_int n" "of_int n < pow2 ?a"
    and db: "pow2 (?b - 1) \<le> of_int d" "of_int d < pow2 ?b"
    using nbits_pow2[OF n] nbits_pow2[OF d] by auto
  have up: "\<bar>x\<bar> < pow2 (?a - ?b + 1)"
  proof -
    have "pow2 ?a = pow2 (?a - ?b + 1) * pow2 (?b - 1)" by (simp flip: pow2_add)
    also have "\<dots> \<le> pow2 (?a - ?b + 1) * of_int d"
      using db(1) by (simp add: mult_left_mono less_imp_le)
    finally have "of_int n < pow2 (?a - ?b + 1) * of_int d" using nb(2) by linarith
    then show ?thesis using d by (simp add: xe divide_less_eq)
  qed
  have lo: "pow2 (?a - ?b - 1) \<le> \<bar>x\<bar>"
  proof -
    have "pow2 (?a - ?b - 1) * of_int d \<le> pow2 (?a - ?b - 1) * pow2 ?b"
      using db(2) by (simp add: mult_left_mono less_imp_le)
    also have "\<dots> = pow2 (?a - 1)" by (simp flip: pow2_add)
    finally have "pow2 (?a - ?b - 1) * of_int d \<le> of_int n" using nb(1) by linarith
    then show ?thesis using d by (simp add: xe le_divide_eq)
  qed
  show ?thesis using up lo by (auto simp: binexp_def q Let_def)
qed

lemma binexp_unique:
  assumes "pow2 e \<le> \<bar>x\<bar>" "\<bar>x\<bar> < pow2 (e + 1)"
  shows "binexp x = e"
proof -
  have "x \<noteq> 0" using assms(1) pow2_pos[of e] by (metis abs_zero not_le)
  then have b: "pow2 (binexp x) \<le> \<bar>x\<bar>" "\<bar>x\<bar> < pow2 (binexp x + 1)"
    using binexp_bounds by auto
  have "pow2 (binexp x) < pow2 (e + 1)" "pow2 e < pow2 (binexp x + 1)"
    using assms b by linarith+
  then have "binexp x < e + 1" "e < binexp x + 1" using pow2_less_cancel by blast+
  then show ?thesis by simp
qed

lemma round_even_near: "\<bar>x - of_int (round_even x)\<bar> \<le> 1 / 2"
proof -
  have "of_int \<lfloor>x\<rfloor> \<le> x" "x < of_int \<lfloor>x\<rfloor> + 1" by linarith+
  then show ?thesis by (auto simp: round_even_def Let_def abs_le_iff)
qed

lemma round_even_int [simp]: "round_even (of_int n) = n"
  by (simp add: round_even_def)

text \<open>A value within half a unit of an even integer rounds to it.\<close>

lemma round_even_even:
  assumes "even n" "\<bar>x - of_int n\<bar> \<le> 1 / 2"
  shows "round_even x = n"
proof (cases "\<lfloor>x\<rfloor> = n")
  case True
  then show ?thesis using assms by (auto simp: round_even_def Let_def abs_le_iff)
next
  case False
  have "of_int n - 1 / 2 \<le> x" "x \<le> of_int n + 1 / 2" using assms(2) by linarith+
  then have "n - 1 \<le> \<lfloor>x\<rfloor>" "\<lfloor>x\<rfloor> \<le> n"
    by (simp_all add: le_floor_iff floor_le_iff)
  then have f: "\<lfloor>x\<rfloor> = n - 1" using False by simp
  then show ?thesis using assms \<open>of_int n - 1 / 2 \<le> x\<close>
    by (auto simp: round_even_def Let_def)
qed

section \<open>Exact values and the tenths round trip\<close>

lemma round_div_unit:
  assumes "0 < u" "even n" "\<bar>y - of_int n * u\<bar> \<le> u / 2"
  shows "round_even (y / u) = n"
proof (rule round_even_even[OF assms(2)])
  have "\<bar>y / u - of_int n\<bar> = \<bar>y - of_int n * u\<bar> / u"
    using assms(1) by (simp add: abs_if field_simps)
  also have "\<dots> \<le> 1 / 2" using assms(1,3) by (simp add: field_simps)
  finally show "\<bar>y / u - of_int n\<bar> \<le> 1 / 2" .
qed

lemma pow2_nat: "pow2 (int n) = 2 ^ n"
  by (simp add: pow2_def)

lemma pow2_inverse: "pow2 a * pow2 (- a) = 1"
  by (simp flip: pow2_add) (simp add: pow2_def)

text \<open>A rounded quotient by ten, multiplied by ten again, stays within four units of the last place.\<close>

lemma tenth_error:
  fixes k :: int
  assumes "0 < k" "k < 65536"
  defines "x \<equiv> of_int k / 10 :: rat"
  defines "u \<equiv> pow2 (binexp x - 52)"
  shows "\<bar>of_int k - dbl_round x * 10\<bar> \<le> 4 * u"
proof -
  have x: "x \<noteq> 0" "0 < x" "x < 2 ^ 13" using assms(1,2) by (auto simp: x_def)
  define m where "m = round_even (x / u)"
  have u: "0 < u" by (simp add: u_def)
  have e: "binexp x < 13"
    using binexp_bounds[OF x(1)] x(2,3) pow2_less_cancel[of "binexp x" 13] by (simp add: pow2_def)
  define p where "p = nat (51 - binexp x)"
  have pu: "2 * 2 ^ p * u = 1"
    using e pow2_inverse[of "binexp x - 52"] unfolding p_def u_def
    by (simp add: pow2_def[of "52 - binexp x"] nat_diff_distrib flip: power_Suc)
      (simp add: Suc_nat_eq_nat_zadd1 mult.commute)
  define D where "D = 2 * (k * 2 ^ p - 5 * m)"
  have Du: "of_int k - of_int m * u * 10 = of_int D * u"
    using pu by (simp add: D_def algebra_simps)
  have "\<bar>x / u - of_int m\<bar> \<le> 1 / 2" unfolding m_def by (rule round_even_near)
  then have "\<bar>x - of_int m * u\<bar> \<le> u / 2" using u by (simp add: abs_le_iff field_simps)
  then have "\<bar>of_int k - of_int m * u * 10\<bar> \<le> 5 * u" by (simp add: x_def abs_le_iff field_simps)
  then have "\<bar>of_int D\<bar> * u \<le> 5 * u" using u by (simp add: Du abs_mult)
  then have "\<bar>D\<bar> \<le> 5" using u by (simp add: mult_le_cancel_right flip: of_int_abs)
  then have "\<bar>D\<bar> \<le> 4" unfolding D_def by presburger
  then have "\<bar>of_int D * u\<bar> \<le> 4 * u"
    using u by (simp add: abs_mult mult_le_cancel_right flip: of_int_abs)
  moreover have "dbl_round x = of_int m * u" using x(1) by (simp add: dbl_round_def u_def m_def Let_def)
  ultimately show ?thesis using Du by simp
qed

lemma tenth_roundtrip:
  fixes k :: int
  assumes "0 \<le> k" "k < 65536"
  shows "dbl_mul (dbl_div (of_int k) 10) 10 = of_int k"
proof (cases "k = 0")
  case True
  then show ?thesis by (simp add: dbl_mul_def dbl_div_def dbl_round_def)
next
  case False
  then have k: "0 < k" using assms by simp
  let ?x = "of_int k / 10 :: rat" and ?y = "dbl_round (of_int k / 10) * 10"
  define e where "e = binexp ?x"
  define u where "u = pow2 (e - 52)"
  have err: "\<bar>of_int k - ?y\<bar> \<le> 4 * u" using tenth_error[OF k assms(2)] by (simp add: u_def e_def)
  have x: "pow2 e \<le> ?x" "?x < 2 * pow2 e"
    using binexp_bounds[of ?x] k by (auto simp: e_def pow2_add pow2_def[of 1])
  have "?x < 2 ^ 13" using assms(2) by simp
  then have e13: "e < 13" using x pow2_less_cancel[of e 13] by (simp add: pow2_def[of 13])
  have ue: "pow2 e = 2 ^ 52 * u" using pow2_add[of 52 "e - 52"] by (simp add: u_def pow2_def[of 52])
  have u0: "0 < u" by (simp add: u_def)
  have ylo: "8 * pow2 e \<le> ?y" using err x u0 unfolding ue by (simp add: abs_le_iff) 
  have yhi: "?y < 32 * pow2 e" using err x u0 unfolding ue by (simp add: abs_le_iff)
  define e' where "e' = binexp ?y"
  have y0: "0 < ?y" using ylo pow2_pos[of e] by linarith
  have yb: "pow2 e' \<le> ?y" "?y < pow2 (e' + 1)" using binexp_bounds[of ?y] y0 by (auto simp: e'_def)
  have "pow2 (e + 3) < pow2 (e' + 1)" "pow2 e' < pow2 (e + 5)"
    using ylo yhi yb by (auto simp: pow2_add pow2_def[of 3] pow2_def[of 5])
  then have e': "e + 3 \<le> e'" "e' < e + 5" using pow2_less_cancel by fastforce+
  let ?u' = "pow2 (e' - 52)"
  have u': "8 * u \<le> ?u'"
    using pow2_mono[of "e - 52 + 3" "e' - 52"] e'(1) unfolding u_def pow2_add pow2_def[of 3] by simp
  define p where "p = nat (51 - e')"
  have pu: "2 * 2 ^ p * ?u' = 1"
    using e13 e' pow2_inverse[of "e' - 52"] unfolding p_def
    by (simp add: pow2_def[of "52 - e'"] nat_diff_distrib flip: power_Suc)
      (simp add: Suc_nat_eq_nat_zadd1 mult.commute)
  have ke: "of_int (2 * (k * 2 ^ p)) * ?u' = (of_int k :: rat)"
    using pu by (simp add: algebra_simps)
  have "\<bar>?y - of_int k\<bar> \<le> ?u' / 2" using err u' by (simp add: abs_minus_commute)
  then have "round_even (?y / ?u') = 2 * (k * 2 ^ p)"
    by (intro round_div_unit) (simp_all only: ke pow2_pos, simp)
  then have "dbl_round ?y = of_int k"
    using y0 ke by (simp add: dbl_round_def Let_def e'_def)
  then show ?thesis by (simp add: dbl_mul_def dbl_div_def)
qed

end
