(* ===== verification/StateMachine.thy ===== *)
theory StateMachine
  imports Doubles
begin

text \<open>
  The generic state machine of \<open>platform/util/statemachine/sm.c\<close>: the record \<open>statemachine_t\<close>, its
  run-time statistics and tick counter, and the state, step and count accessors. The tables
  \<open>states\<close> and \<open>errs\<close> are lists, whose lengths are the fields \<open>state_nbr\<close> and \<open>err_nbr\<close> of the code.
  The clock read by \<open>gettimeofday\<close> is an argument.
\<close>

section \<open>State\<close>

type_synonym state_tab = "(int \<times> string) list"

record statemachine_t =
  sm_states :: state_tab
  sm_errs :: state_tab
  sm_state :: int
  sm_szstate :: string
  sm_step :: int
  sm_count :: int
  sm_err :: int
  sm_szerrcode :: string
  sm_tick :: UCHAR
  sm_tick_timer :: int
  sm_tick_prd :: int
  timing_timer :: int
  timing_prd :: int
  timing_tslastrun :: dbl
  timing_totalcnt :: dbl
  timing_totaltime :: dbl
  timing_ave :: dbl
  timing_max :: dbl
  timing_cur :: dbl

section \<open>Timing\<close>

text \<open>Milliseconds since the epoch.\<close>

definition sm_get_timeofday :: "timeval \<Rightarrow> dbl" where
  "sm_get_timeofday tv =
     dbl_add (dbl_mul (dbl_round (of_int (fst tv))) 1000) (dbl_div (dbl_round (of_int (snd tv))) 1000)"

definition sm_reset_timing :: "statemachine_t \<Rightarrow> int \<Rightarrow> int \<Rightarrow> statemachine_t" where
  "sm_reset_timing sm tprd kprd =
     sm\<lparr>timing_timer := -1, timing_prd := tprd, timing_ave := -1, timing_max := -1,
        timing_cur := -1, sm_tick_timer := 0, sm_tick := 0, sm_tick_prd := kprd\<rparr>"

definition sm_timing_reset :: "timeval \<Rightarrow> statemachine_t \<Rightarrow> statemachine_t" where
  "sm_timing_reset tv sm =
     sm\<lparr>timing_timer := 0, timing_tslastrun := sm_get_timeofday tv, timing_totalcnt := 0,
        timing_totaltime := 0, timing_ave := -1, timing_max := -1, timing_cur := -1\<rparr>"

definition sm_timing_sample :: "timeval \<Rightarrow> statemachine_t \<Rightarrow> statemachine_t" where
  "sm_timing_sample tv sm =
     (let ts = sm_get_timeofday tv;
          tseclipsed = dbl_sub ts (timing_tslastrun sm);
          totalcnt = dbl_add (timing_totalcnt sm) (of_int (timing_prd sm));
          totaltime = dbl_add (timing_totaltime sm) tseclipsed;
          cur = dbl_div tseclipsed (of_int (timing_prd sm))
      in sm\<lparr>timing_timer := (if totalcnt > 8640000 then -1 else 0),
            timing_tslastrun := ts,
            timing_totalcnt := totalcnt,
            timing_totaltime := totaltime,
            timing_ave := dbl_div totaltime totalcnt,
            timing_cur := cur,
            timing_max := (if cur > timing_max sm then cur else timing_max sm)\<rparr>)"

definition sm_timing_step :: "timeval \<Rightarrow> statemachine_t \<Rightarrow> statemachine_t" where
  "sm_timing_step tv sm =
     (if timing_timer sm < 0 then sm_timing_reset tv sm
      else if timing_timer sm + 1 \<ge> timing_prd sm then sm_timing_sample tv sm
      else sm\<lparr>timing_timer := timing_timer sm + 1\<rparr>)"

definition sm_tick_update :: "statemachine_t \<Rightarrow> statemachine_t" where
  "sm_tick_update sm =
     (if sm_tick_timer sm \<ge> sm_tick_prd sm
      then sm\<lparr>sm_tick_timer := 0, sm_tick := sm_tick sm + 1\<rparr>
      else sm\<lparr>sm_tick_timer := sm_tick_timer sm + 1\<rparr>)"

definition sm_cal_timing :: "timeval \<Rightarrow> statemachine_t \<Rightarrow> statemachine_t" where
  "sm_cal_timing tv sm = sm_tick_update (sm_timing_step tv sm)"

section \<open>States\<close>

text \<open>The table scan does not stop at a match: every matching entry is copied, so the last one stays.\<close>

fun sm_lookup :: "nat \<Rightarrow> int \<Rightarrow> state_tab \<Rightarrow> bool \<Rightarrow> string \<Rightarrow> (bool \<times> string) res" where
  "sm_lookup n key [] found dst = Inr (found, dst)"
| "sm_lookup n key ((c, s) # tab) found dst =
     (if key = c then bind_res (strcpy_buf n s) (\<lambda>t. sm_lookup n key tab True t)
      else sm_lookup n key tab found dst)"

definition sm_name :: "nat \<Rightarrow> int \<Rightarrow> state_tab \<Rightarrow> string \<Rightarrow> string res" where
  "sm_name n key tab dst =
     bind_res (sm_lookup n key tab False dst)
       (\<lambda>(found, t). if found then Inr t else strcpy_buf n ''unknown'')"

definition sm_set_state :: "statemachine_t \<Rightarrow> int \<Rightarrow> int \<Rightarrow> statemachine_t res" where
  "sm_set_state sm state err =
     bind_res (sm_name 16 state (sm_states sm) (sm_szstate sm)) (\<lambda>s.
     bind_res (sm_name 64 err (sm_errs sm) (sm_szerrcode sm)) (\<lambda>e.
       Inr (sm\<lparr>sm_state := state, sm_step := 0, sm_count := 0,
               sm_szstate := s, sm_szerrcode := e\<rparr>)))"

definition sm_get_state :: "statemachine_t \<Rightarrow> int" where
  "sm_get_state sm = sm_state sm"

definition sm_get_szstate :: "statemachine_t \<Rightarrow> string" where
  "sm_get_szstate sm = sm_szstate sm"

definition sm_get_step :: "statemachine_t \<Rightarrow> int" where
  "sm_get_step sm = sm_step sm"

definition sm_set_step :: "statemachine_t \<Rightarrow> int \<Rightarrow> statemachine_t" where
  "sm_set_step sm step = sm\<lparr>sm_step := step\<rparr>"

definition sm_get_count :: "statemachine_t \<Rightarrow> int" where
  "sm_get_count sm = sm_count sm"

definition sm_set_count :: "statemachine_t \<Rightarrow> int \<Rightarrow> statemachine_t" where
  "sm_set_count sm val = sm\<lparr>sm_count := val\<rparr>"

definition sm_inc_count :: "statemachine_t \<Rightarrow> statemachine_t" where
  "sm_inc_count sm = sm\<lparr>sm_count := sm_count sm + 1\<rparr>"

lemmas sm_accessors [simp] =
  sm_get_state_def sm_get_szstate_def sm_get_step_def sm_set_step_def
  sm_get_count_def sm_set_count_def sm_inc_count_def

section \<open>Lemmas\<close>

text \<open>A table whose names fit the destination arrays never overruns them.\<close>

definition tab_fits :: "nat \<Rightarrow> state_tab \<Rightarrow> bool" where
  "tab_fits n tab \<longleftrightarrow> list_all (\<lambda>(c, s). length s < n) tab"

fun tab_last :: "int \<Rightarrow> state_tab \<Rightarrow> string option" where
  "tab_last key [] = None"
| "tab_last key ((c, s) # tab) =
     (case tab_last key tab of Some t \<Rightarrow> Some t | None \<Rightarrow> if key = c then Some s else None)"

lemma sm_lookup_last:
  "tab_fits n tab \<Longrightarrow>
   sm_lookup n key tab found dst =
     Inr (case tab_last key tab of Some t \<Rightarrow> (True, t) | None \<Rightarrow> (found, dst))"
  by (induction n key tab found dst rule: sm_lookup.induct)
    (auto simp: tab_fits_def split: option.splits)

lemma sm_name_last:
  "tab_fits n tab \<Longrightarrow> 7 < n \<Longrightarrow>
   sm_name n key tab dst = Inr (case tab_last key tab of Some t \<Rightarrow> t | None \<Rightarrow> ''unknown'')"
  by (simp add: sm_name_def sm_lookup_last split: option.split)

definition sm_wf :: "statemachine_t \<Rightarrow> bool" where
  "sm_wf sm \<longleftrightarrow> tab_fits 16 (sm_states sm) \<and> tab_fits 64 (sm_errs sm)"

lemma sm_set_state_ok:
  assumes "sm_wf sm"
  shows "sm_set_state sm st er = Inr (sm\<lparr>sm_state := st, sm_step := 0, sm_count := 0,
    sm_szstate := (case tab_last st (sm_states sm) of Some t \<Rightarrow> t | None \<Rightarrow> ''unknown''),
    sm_szerrcode := (case tab_last er (sm_errs sm) of Some t \<Rightarrow> t | None \<Rightarrow> ''unknown'')\<rparr>)"
  using assms by (simp add: sm_set_state_def sm_wf_def sm_name_last)

text \<open>The statistics leave everything but their own fields alone, and the tick leaves the statistics alone.\<close>

lemma sm_cal_timing_frame [simp]:
  "sm_states (sm_cal_timing tv sm) = sm_states sm" "sm_errs (sm_cal_timing tv sm) = sm_errs sm"
  "sm_state (sm_cal_timing tv sm) = sm_state sm" "sm_step (sm_cal_timing tv sm) = sm_step sm"
  "sm_count (sm_cal_timing tv sm) = sm_count sm" "sm_tick_prd (sm_cal_timing tv sm) = sm_tick_prd sm"
  "sm_szstate (sm_cal_timing tv sm) = sm_szstate sm"
  by (simp_all add: sm_cal_timing_def sm_tick_update_def sm_timing_step_def sm_timing_reset_def
      sm_timing_sample_def Let_def)

lemma sm_wf_cal_timing [simp]: "sm_wf (sm_cal_timing tv sm) = sm_wf sm"
  by (simp add: sm_wf_def)

lemma sm_cal_timing_tick:
  "sm_tick_timer (sm_cal_timing tv sm) =
     (if sm_tick_timer sm \<ge> sm_tick_prd sm then 0 else sm_tick_timer sm + 1)"
  "sm_tick (sm_cal_timing tv sm) =
     (if sm_tick_timer sm \<ge> sm_tick_prd sm then sm_tick sm + 1 else sm_tick sm)"
  by (simp_all add: sm_cal_timing_def sm_tick_update_def sm_timing_step_def sm_timing_reset_def
      sm_timing_sample_def Let_def)

text \<open>A run of the main loop: one call of \<open>sm_cal_timing\<close> per clock reading.\<close>

fun sm_ticks :: "timeval list \<Rightarrow> statemachine_t \<Rightarrow> statemachine_t" where
  "sm_ticks [] sm = sm"
| "sm_ticks (tv # tvs) sm = sm_ticks tvs (sm_cal_timing tv sm)"

text \<open>Calls made since the last reset, counted in whole and started tick periods.\<close>

lemma sm_ticks_phase:
  assumes "0 \<le> sm_tick_timer sm" "sm_tick_timer sm \<le> sm_tick_prd sm" "sm_tick_prd sm = int p"
  shows "sm_tick_timer (sm_ticks tvs sm) = (sm_tick_timer sm + int (length tvs)) mod (int p + 1) \<and>
    sm_tick (sm_ticks tvs sm) =
      sm_tick sm + of_int ((sm_tick_timer sm + int (length tvs)) div (int p + 1))"
  using assms
proof (induction tvs arbitrary: sm)
  case Nil
  then show ?case by simp
next
  case (Cons tv tvs)
  let ?sm = "sm_cal_timing tv sm"
  show ?case
  proof (cases "sm_tick_timer sm = int p")
    case True
    have e: "sm_tick_timer sm + int (length (tv # tvs)) = int (length tvs) + (int p + 1)"
      using True by simp
    have dm: "(int (length tvs) + (int p + 1)) div (int p + 1) = int (length tvs) div (int p + 1) + 1"
      "(int (length tvs) + (int p + 1)) mod (int p + 1) = int (length tvs) mod (int p + 1)"
      by (simp_all only: div_add_self2 mod_add_self2)
    show ?thesis
      using Cons.IH[of ?sm] Cons.prems True unfolding e dm sm_ticks.simps
      by (simp add: sm_cal_timing_tick ac_simps)
  next
    case False
    then show ?thesis
      using Cons.IH[of ?sm] Cons.prems by (simp add: sm_cal_timing_tick algebra_simps)
  qed
qed

section \<open>Properties\<close>

text \<open>Fact: after \<open>sm_reset_timing\<close>, the tick counter of a state machine advances by one on every
  \<open>tick_prd + 1\<close>-th call of \<open>sm_cal_timing\<close> and wraps at 256, whatever the clock reads: after \<open>n\<close>
  calls it is \<open>n div (tick_prd + 1)\<close> as an unsigned char, and the phase is the remainder.\<close>

theorem sm_tick_counts_periods:
  "sm_tick (sm_ticks tvs (sm_reset_timing sm tprd (int p))) =
     of_int (int (length tvs) div (int p + 1)) \<and>
   sm_tick_timer (sm_ticks tvs (sm_reset_timing sm tprd (int p))) = int (length tvs) mod (int p + 1)"
  using sm_ticks_phase[of "sm_reset_timing sm tprd (int p)" p tvs] by (simp add: sm_reset_timing_def)

text \<open>Fact: when the state and error names of a machine fit their arrays of 16 and 64 bytes,
  \<open>sm_set_state\<close> overruns no array; it enters the state with step and count zero and shows the
  name of the last table entry with that code, or \<open>unknown\<close>.\<close>

theorem sm_set_state_enters:
  assumes "sm_wf sm"
  shows "\<exists>sm'. sm_set_state sm st er = Inr sm' \<and> sm_state sm' = st \<and> sm_step sm' = 0 \<and>
    sm_count sm' = 0 \<and> sm_wf sm' \<and>
    sm_szstate sm' = (case tab_last st (sm_states sm) of Some t \<Rightarrow> t | None \<Rightarrow> ''unknown'')"
  using assms by (simp add: sm_set_state_ok sm_wf_def)

definition sm_example :: statemachine_t where
  "sm_example =
     \<lparr>sm_states = [(11, ''offline''), (19, ''ready'')], sm_errs = [(0, ''none''), (1, ''pwrup'')],
      sm_state = 0, sm_szstate = '''', sm_step = 0, sm_count = 0, sm_err = 0, sm_szerrcode = '''',
      sm_tick = 0, sm_tick_timer = 0, sm_tick_prd = 0, timing_timer = 0, timing_prd = 0,
      timing_tslastrun = 0, timing_totalcnt = 0, timing_totaltime = 0, timing_ave = 0,
      timing_max = 0, timing_cur = 0\<rparr>"

theorem sm_set_state_enters_witness:
  "\<exists>sm'. sm_set_state sm_example 19 0 = Inr sm' \<and> sm_state sm' = 19 \<and> sm_szstate sm' = ''ready''"
proof -
  have "sm_wf sm_example" by (simp add: sm_wf_def tab_fits_def sm_example_def)
  from sm_set_state_enters[OF this, of 19 0] show ?thesis by (auto simp: sm_example_def)
qed

end
