(* ===== verification/Mbs.thy ===== *)
theory Mbs
  imports Doubles
begin

text \<open>
  The simulated converter and its Modbus register map: the record \<open>mdl_t\<close> of \<open>platform/abs/plt.h\<close>
  (its configuration and electrical quantities), the holding and input register banks and the
  register callbacks of \<open>platform/device/chan/mbs.c\<close>, and \<open>sim_init\<close> of \<open>appl/main.c\<close>. A bank of
  \<open>n\<close> registers is a function on indices; the lemmas show that only indices below \<open>n\<close> are used.
\<close>

section \<open>Data\<close>

record mdl_t =
  m_szDevName :: string
  m_szSerial :: string
  m_adr :: int
  m_szmqtt_servip :: string
  m_mqtt_servport :: int
  m_uab :: dbl
  m_ubc :: dbl
  m_uca :: dbl
  m_ua :: dbl
  m_ub :: dbl
  m_uc :: dbl
  m_ia :: dbl
  m_ib :: dbl
  m_ic :: dbl

datatype eMBErrorCode =
  MB_ENOERR | MB_ENOREG | MB_EINVAL | MB_EPORTERR | MB_ENORES | MB_EIO | MB_EILLSTATE | MB_ETIMEDOUT

datatype eMBRegisterMode = MB_REG_READ | MB_REG_WRITE

definition REG_HOLDING_START :: nat where
  "REG_HOLDING_START = 0x0000"

definition REG_HOLDING_NREGS :: nat where
  "REG_HOLDING_NREGS = 0x6200"

definition REG_INPUT_START :: nat where
  "REG_INPUT_START = 0x0000"

definition REG_INPUT_NREGS :: nat where
  "REG_INPUT_NREGS = 0x5400"

type_synonym regbank = "nat \<Rightarrow> USHORT"

text \<open>The globals the callbacks share: \<open>MDL\<close>, \<open>usHoldingRegisters\<close> and \<open>usInputRegisters\<close>.\<close>

record mbs_t =
  MDL :: mdl_t
  usHoldingRegisters :: regbank
  usInputRegisters :: regbank

definition MBSIDX_MDL :: int where
  "MBSIDX_MDL = 0"

definition sim_init :: "mdl_t \<Rightarrow> mdl_t" where
  "sim_init m = m\<lparr>m_uab := dbl_round (4001 / 10), m_ubc := dbl_round (4002 / 10),
                  m_uca := dbl_round (4003 / 10)\<rparr>"

section \<open>Register refresh\<close>

definition on_04_ReadInputRegisters :: "mbs_t \<Rightarrow> mbs_t res" where
  "on_04_ReadInputRegisters w =
     bind_res (dbl_to_ushort (m_ua (MDL w))) (\<lambda>a.
     bind_res (dbl_to_ushort (m_ub (MDL w))) (\<lambda>b.
       Inr (w\<lparr>usInputRegisters := (usInputRegisters w)(0 := a, 1 := b)\<rparr>)))"

definition on_03_ReadMultipleHoldingRegisters :: "mbs_t \<Rightarrow> mbs_t res" where
  "on_03_ReadMultipleHoldingRegisters w =
     bind_res (dbl_to_ushort (dbl_mul (m_uab (MDL w)) 10)) (\<lambda>r0.
     bind_res (dbl_to_ushort (dbl_mul (m_ubc (MDL w)) 10)) (\<lambda>r1.
     bind_res (dbl_to_ushort (dbl_mul (m_uca (MDL w)) 10)) (\<lambda>r2.
     bind_res (dbl_to_ushort (dbl_mul (m_ia (MDL w)) 10)) (\<lambda>r6.
     bind_res (dbl_to_ushort (dbl_mul (m_ib (MDL w)) 10)) (\<lambda>r7.
     bind_res (dbl_to_ushort (dbl_mul (m_ic (MDL w)) 10)) (\<lambda>r8.
       Inr (w\<lparr>usHoldingRegisters := (usHoldingRegisters w)
         (0x6020 := r0, 0x6021 := r1, 0x6022 := r2, 0x6026 := r6, 0x6027 := r7, 0x6028 := r8)\<rparr>)))))))"

text \<open>A register divided by \<open>10.0\<close>.\<close>

definition tenth :: "USHORT \<Rightarrow> dbl" where
  "tenth r = dbl_div (of_int (uint r)) 10"

definition on_06_WriteSingleHoldingRegister :: "mbs_t \<Rightarrow> mbs_t" where
  "on_06_WriteSingleHoldingRegister w =
     (let h = usHoldingRegisters w
      in w\<lparr>MDL := (MDL w)\<lparr>m_uab := tenth (h 0x6020), m_ubc := tenth (h 0x6021),
             m_uca := tenth (h 0x6022), m_ia := tenth (h 0x6026), m_ib := tenth (h 0x6027),
             m_ic := tenth (h 0x6028)\<rparr>\<rparr>)"

section \<open>Copying between registers and the frame\<close>

definition mk_ushort :: "UCHAR \<Rightarrow> UCHAR \<Rightarrow> USHORT" where
  "mk_ushort hi lo = push_bit 8 (ucast hi) OR ucast lo"

definition hi_byte :: "USHORT \<Rightarrow> UCHAR" where
  "hi_byte r = ucast (drop_bit 8 r)"

definition lo_byte :: "USHORT \<Rightarrow> UCHAR" where
  "lo_byte r = ucast (r AND 0xFF)"

definition buf_put :: "UCHAR list \<Rightarrow> nat \<Rightarrow> UCHAR \<Rightarrow> UCHAR list res" where
  "buf_put buf i v = (if i < length buf then Inr (buf[i := v]) else Inl Buffer_overflow)"

definition buf_get :: "UCHAR list \<Rightarrow> nat \<Rightarrow> UCHAR res" where
  "buf_get buf i = (if i < length buf then Inr (buf ! i) else Inl Buffer_overflow)"

fun regs_to_buf :: "regbank \<Rightarrow> UCHAR list \<Rightarrow> nat \<Rightarrow> nat \<Rightarrow> nat \<Rightarrow> UCHAR list res" where
  "regs_to_buf regs buf off iRegIndex 0 = Inr buf"
| "regs_to_buf regs buf off iRegIndex (Suc n) =
     bind_res (buf_put buf off (hi_byte (regs iRegIndex))) (\<lambda>b1.
     bind_res (buf_put b1 (off + 1) (lo_byte (regs iRegIndex))) (\<lambda>b2.
       regs_to_buf regs b2 (off + 2) (iRegIndex + 1) n))"

fun buf_to_regs :: "UCHAR list \<Rightarrow> regbank \<Rightarrow> nat \<Rightarrow> nat \<Rightarrow> nat \<Rightarrow> regbank res" where
  "buf_to_regs buf regs off iRegIndex 0 = Inr regs"
| "buf_to_regs buf regs off iRegIndex (Suc n) =
     bind_res (buf_get buf off) (\<lambda>hi.
     bind_res (buf_get buf (off + 1)) (\<lambda>lo.
       buf_to_regs buf (regs(iRegIndex := mk_ushort hi lo)) (off + 2) (iRegIndex + 1) n))"

section \<open>The callbacks of the protocol stack\<close>

text \<open>
  \<open>pucRegBuffer\<close> is position \<open>off\<close> of the frame buffer \<open>buf\<close>. The sum of address and count is
  computed in \<open>int\<close>, so it does not wrap. \<open>eMBRegHoldingCB\<close> has no return statement on the path where
  the slave index is not \<open>MBSIDX_MDL\<close>.
\<close>

definition eMBRegInputCB ::
  "int \<Rightarrow> mbs_t \<Rightarrow> UCHAR list \<Rightarrow> nat \<Rightarrow> USHORT \<Rightarrow> USHORT \<Rightarrow> (eMBErrorCode \<times> mbs_t \<times> UCHAR list) res"
  where
  "eMBRegInputCB mbsidx w buf off usAddress usNRegs =
     (if mbsidx = MBSIDX_MDL then
        (if unat usAddress \<ge> REG_INPUT_START \<and>
            unat usAddress + unat usNRegs \<le> REG_INPUT_START + REG_INPUT_NREGS
         then bind_res (on_04_ReadInputRegisters w) (\<lambda>w'.
              bind_res (regs_to_buf (usInputRegisters w') buf off
                          (unat usAddress - REG_INPUT_START) (unat usNRegs)) (\<lambda>buf'.
                Inr (MB_ENOERR, w', buf')))
         else Inr (MB_ENOREG, w, buf))
      else Inr (MB_ENOREG, w, buf))"

definition eMBRegHoldingCB ::
  "int \<Rightarrow> mbs_t \<Rightarrow> UCHAR list \<Rightarrow> nat \<Rightarrow> USHORT \<Rightarrow> USHORT \<Rightarrow> eMBRegisterMode
    \<Rightarrow> (eMBErrorCode \<times> mbs_t \<times> UCHAR list) res" where
  "eMBRegHoldingCB mbsidx w buf off usAddress usNRegs eMode =
     (if mbsidx = MBSIDX_MDL then
        (if unat usAddress \<ge> REG_HOLDING_START \<and>
            unat usAddress + unat usNRegs \<le> REG_HOLDING_START + REG_HOLDING_NREGS
         then (let iRegIndex = unat usAddress - REG_HOLDING_START in
           case eMode of
             MB_REG_READ \<Rightarrow>
               bind_res (on_03_ReadMultipleHoldingRegisters w) (\<lambda>w'.
               bind_res (regs_to_buf (usHoldingRegisters w') buf off iRegIndex (unat usNRegs)) (\<lambda>buf'.
                 Inr (MB_ENOERR, w', buf')))
           | MB_REG_WRITE \<Rightarrow>
               bind_res (buf_to_regs buf (usHoldingRegisters w) off iRegIndex (unat usNRegs)) (\<lambda>h.
                 Inr (MB_ENOERR, on_06_WriteSingleHoldingRegister (w\<lparr>usHoldingRegisters := h\<rparr>), buf)))
         else Inr (MB_ENOREG, w, buf))
      else Inl No_return_value)"

definition eMBRegCoilsCB :: "UCHAR list \<Rightarrow> eMBErrorCode \<times> UCHAR list" where
  "eMBRegCoilsCB buf = (MB_ENOREG, buf)"

definition eMBRegDiscreteCB :: "UCHAR list \<Rightarrow> eMBErrorCode \<times> UCHAR list" where
  "eMBRegDiscreteCB buf = (MB_ENOREG, buf)"

section \<open>Lemmas on the copying loops\<close>

lemma lo_byte_ucast: "lo_byte r = ucast r"
proof -
  have m: "(0xFF :: USHORT) = mask 8" by (simp add: mask_eq_exp_minus_1)
  show ?thesis unfolding lo_byte_def m
    by (rule bit_word_eqI) (simp add: bit_simps)
qed

lemma mk_ushort_bytes [simp]: "mk_ushort (hi_byte r) (lo_byte r) = r"
  by (simp add: mk_ushort_def hi_byte_def lo_byte_ucast byte_split_join)

lemma bytes_mk_ushort [simp]: "hi_byte (mk_ushort h l) = h" "lo_byte (mk_ushort h l) = l"
  by (rule bit_word_eqI; auto simp: hi_byte_def lo_byte_ucast mk_ushort_def bit_simps
      dest: bit_imp_le_length)+

definition reg_bytes :: "regbank \<Rightarrow> nat \<Rightarrow> nat \<Rightarrow> UCHAR list" where
  "reg_bytes regs i n = concat (map (\<lambda>j. [hi_byte (regs j), lo_byte (regs j)]) [i..<i + n])"

lemma reg_bytes_Suc:
  "reg_bytes regs i (Suc n) = hi_byte (regs i) # lo_byte (regs i) # reg_bytes regs (Suc i) n"
  by (simp add: reg_bytes_def upt_conv_Cons del: upt_Suc)

lemma length_reg_bytes [simp]: "length (reg_bytes regs i n) = 2 * n"
  by (induction n arbitrary: i) (simp_all add: reg_bytes_Suc, simp add: reg_bytes_def)

lemma regs_to_buf_ok:
  "off + 2 * n \<le> length buf \<Longrightarrow>
   regs_to_buf regs buf off i n = Inr (take off buf @ reg_bytes regs i n @ drop (off + 2 * n) buf)"
proof (induction n arbitrary: buf off i)
  case 0
  then show ?case by (simp add: reg_bytes_def)
next
  case (Suc n)
  let ?b = "buf[off := hi_byte (regs i), Suc off := lo_byte (regs i)]"
  have split: "take (off + 2) ?b = take off buf @ [hi_byte (regs i), lo_byte (regs i)]"
    using Suc.prems by (simp add: take_Suc_conv_app_nth numeral_2_eq_2 list_update_swap)
  show ?case
    using Suc.IH[of "off + 2" ?b "Suc i"] Suc.prems split
    by (simp add: buf_put_def reg_bytes_Suc)
qed

lemma buf_to_regs_ok:
  "off + 2 * n \<le> length buf \<Longrightarrow>
   buf_to_regs buf regs off i n =
     Inr (\<lambda>j. if i \<le> j \<and> j < i + n
              then mk_ushort (buf ! (off + 2 * (j - i))) (buf ! (off + 2 * (j - i) + 1)) else regs j)"
proof (induction n arbitrary: regs off i)
  case (Suc n)
  have "buf_to_regs buf regs off i (Suc n) =
    buf_to_regs buf (regs(i := mk_ushort (buf ! off) (buf ! Suc off))) (off + 2) (Suc i) n"
    using Suc.prems by (simp add: buf_get_def)
  also have "\<dots> = Inr (\<lambda>j. if Suc i \<le> j \<and> j < Suc i + n
      then mk_ushort (buf ! (off + 2 + 2 * (j - Suc i))) (buf ! (off + 2 + 2 * (j - Suc i) + 1))
      else (regs(i := mk_ushort (buf ! off) (buf ! Suc off))) j)"
    using Suc.IH[of "off + 2"] Suc.prems by simp
  also have "\<dots> = Inr (\<lambda>j. if i \<le> j \<and> j < i + Suc n
      then mk_ushort (buf ! (off + 2 * (j - i))) (buf ! (off + 2 * (j - i) + 1)) else regs j)"
    by (auto intro!: ext simp: not_less_eq_eq dest!: le_Suc_ex)
  finally show ?case .
qed (auto intro!: ext)

section \<open>Lemmas on the conversions\<close>

definition deci :: "dbl \<Rightarrow> USHORT" where
  "deci x = word_of_int (dbl_trunc (dbl_mul x 10))"

text \<open>The scaled value fits a register.\<close>

definition deci_ok :: "dbl \<Rightarrow> bool" where
  "deci_ok x \<longleftrightarrow> 0 \<le> dbl_trunc (dbl_mul x 10) \<and> dbl_trunc (dbl_mul x 10) < 65536"

lemma dbl_to_ushort_deci: "deci_ok x \<Longrightarrow> dbl_to_ushort (dbl_mul x 10) = Inr (deci x)"
  by (simp add: dbl_to_ushort_def deci_def deci_ok_def Let_def)

lemma tenth_mul: "dbl_mul (tenth r) 10 = of_int (uint r)"
  unfolding tenth_def using uint_bounded[of r] by (intro tenth_roundtrip) auto

lemma dbl_trunc_int [simp]: "dbl_trunc (of_int n) = n"
proof (cases "0 \<le> n")
  case False
  then show ?thesis by (simp add: dbl_trunc_def flip: of_int_minus)
qed (simp add: dbl_trunc_def)

lemma dbl_trunc_uint [simp]: "dbl_trunc (unsigned r) = uint (r :: USHORT)"
  using dbl_trunc_int[of "uint r"] by simp

lemma deci_tenth [simp]: "deci (tenth r) = r" "deci_ok (tenth r)"
  using uint_bounded[of r] by (simp_all add: deci_def deci_ok_def tenth_mul)

definition mdl_readable :: "mdl_t \<Rightarrow> bool" where
  "mdl_readable m \<longleftrightarrow> deci_ok (m_uab m) \<and> deci_ok (m_ubc m) \<and> deci_ok (m_uca m) \<and>
     deci_ok (m_ia m) \<and> deci_ok (m_ib m) \<and> deci_ok (m_ic m)"

definition holding_refresh :: "mdl_t \<Rightarrow> regbank \<Rightarrow> regbank" where
  "holding_refresh m h = h(0x6020 := deci (m_uab m), 0x6021 := deci (m_ubc m),
     0x6022 := deci (m_uca m), 0x6026 := deci (m_ia m), 0x6027 := deci (m_ib m),
     0x6028 := deci (m_ic m))"

lemma on_03_ok:
  "mdl_readable (MDL w) \<Longrightarrow> on_03_ReadMultipleHoldingRegisters w =
     Inr (w\<lparr>usHoldingRegisters := holding_refresh (MDL w) (usHoldingRegisters w)\<rparr>)"
  by (simp add: on_03_ReadMultipleHoldingRegisters_def mdl_readable_def dbl_to_ushort_deci
      holding_refresh_def)

lemma on_06_readable [simp]: "mdl_readable (MDL (on_06_WriteSingleHoldingRegister w))"
  by (simp add: on_06_WriteSingleHoldingRegister_def mdl_readable_def Let_def)

lemma on_06_holding [simp]:
  "usHoldingRegisters (on_06_WriteSingleHoldingRegister w) = usHoldingRegisters w"
  by (simp add: on_06_WriteSingleHoldingRegister_def Let_def)

text \<open>A refresh right after a write changes nothing: the registers already hold the tenths.\<close>

lemma on_03_on_06:
  "on_03_ReadMultipleHoldingRegisters (on_06_WriteSingleHoldingRegister w) =
   Inr (on_06_WriteSingleHoldingRegister w)"
proof -
  have "holding_refresh (MDL (on_06_WriteSingleHoldingRegister w)) (usHoldingRegisters w) =
      usHoldingRegisters w"
    by (simp add: holding_refresh_def on_06_WriteSingleHoldingRegister_def Let_def)
  then show ?thesis by (simp add: on_03_ok)
qed

section \<open>The callbacks on well-formed requests\<close>

definition holding_range :: "USHORT \<Rightarrow> USHORT \<Rightarrow> bool" where
  "holding_range a n \<longleftrightarrow> unat a + unat n \<le> REG_HOLDING_NREGS"

lemmas holding_consts = REG_HOLDING_START_def MBSIDX_MDL_def REG_INPUT_START_def

lemma holding_cb_out_of_range:
  "\<not> holding_range a n \<Longrightarrow> eMBRegHoldingCB MBSIDX_MDL w buf off a n mode = Inr (MB_ENOREG, w, buf)"
  by (simp add: eMBRegHoldingCB_def holding_range_def REG_HOLDING_START_def)

lemma holding_cb_read:
  assumes "holding_range a n" "mdl_readable (MDL w)" "off + 2 * unat n \<le> length buf"
  shows "eMBRegHoldingCB MBSIDX_MDL w buf off a n MB_REG_READ =
    Inr (MB_ENOERR, w\<lparr>usHoldingRegisters := holding_refresh (MDL w) (usHoldingRegisters w)\<rparr>,
      take off buf @ reg_bytes (holding_refresh (MDL w) (usHoldingRegisters w)) (unat a) (unat n)
        @ drop (off + 2 * unat n) buf)"
  using assms by (simp add: eMBRegHoldingCB_def holding_range_def REG_HOLDING_START_def on_03_ok
      regs_to_buf_ok)

text \<open>The bank after storing \<open>n\<close> registers from position \<open>off\<close> of a frame.\<close>

definition holding_store :: "UCHAR list \<Rightarrow> nat \<Rightarrow> nat \<Rightarrow> nat \<Rightarrow> regbank \<Rightarrow> regbank" where
  "holding_store buf off i n h =
     (\<lambda>j. if i \<le> j \<and> j < i + n
          then mk_ushort (buf ! (off + 2 * (j - i))) (buf ! (off + 2 * (j - i) + 1)) else h j)"

lemma holding_cb_write:
  assumes "holding_range a n" "off + 2 * unat n \<le> length buf"
  shows "eMBRegHoldingCB MBSIDX_MDL w buf off a n MB_REG_WRITE =
    Inr (MB_ENOERR, on_06_WriteSingleHoldingRegister
      (w\<lparr>usHoldingRegisters := holding_store buf off (unat a) (unat n) (usHoldingRegisters w)\<rparr>), buf)"
  using assms by (simp add: eMBRegHoldingCB_def holding_range_def REG_HOLDING_START_def
      buf_to_regs_ok holding_store_def Let_def)

lemma reg_bytes_holding_store:
  assumes "off + 2 * n \<le> length buf"
  shows "reg_bytes (holding_store buf off i n h) i n = take (2 * n) (drop off buf)"
proof -
  have "reg_bytes r i m = take (2 * m) (drop off buf)"
    if "\<forall>k<m. r (i + k) = mk_ushort (buf ! (off + 2 * k)) (buf ! (off + 2 * k + 1))"
      "off + 2 * m \<le> length buf" for r i m off
    using that
  proof (induction m arbitrary: i off)
    case 0
    then show ?case by (simp add: reg_bytes_def)
  next
    case (Suc m)
    have d: "take (2 * Suc m) (drop off buf) = buf ! off # buf ! Suc off # take (2 * m) (drop (off + 2) buf)"
      using Suc.prems(2) by (simp add: Cons_nth_drop_Suc[symmetric] take_Suc_Cons)
    have r0: "r i = mk_ushort (buf ! off) (buf ! Suc off)" using Suc.prems(1)[rule_format, of 0] by simp
    have "\<forall>k<m. r (Suc i + k) = mk_ushort (buf ! (off + 2 + 2 * k)) (buf ! (off + 2 + 2 * k + 1))"
    proof (intro allI impI)
      fix k assume "k < m"
      then show "r (Suc i + k) = mk_ushort (buf ! (off + 2 + 2 * k)) (buf ! (off + 2 + 2 * k + 1))"
        using Suc.prems(1)[rule_format, of "Suc k"] by (simp add: algebra_simps)
    qed
    then show ?case using Suc.IH[of "Suc i" "off + 2"] Suc.prems(2) d r0 by (simp add: reg_bytes_Suc)
  qed
  from this[of n "holding_store buf off i n h" i off] show ?thesis
    using assms by (simp add: holding_store_def)
qed

section \<open>Properties\<close>

text \<open>C3: what a Modbus master writes it reads back: after a write of \<open>n\<close> holding registers
  inside the bank, a read of the same registers succeeds and returns exactly the written bytes, in
  spite of the detour of six of the registers through \<open>double\<close>s divided and multiplied by ten.\<close>

theorem holding_write_read_roundtrip:
  assumes "holding_range a n" "off + 2 * unat n \<le> length buf" "off' + 2 * unat n \<le> length buf'"
  shows "\<exists>w1 w2 buf2. eMBRegHoldingCB MBSIDX_MDL w buf off a n MB_REG_WRITE = Inr (MB_ENOERR, w1, buf) \<and>
    eMBRegHoldingCB MBSIDX_MDL w1 buf' off' a n MB_REG_READ = Inr (MB_ENOERR, w2, buf2) \<and>
    take (2 * unat n) (drop off' buf2) = take (2 * unat n) (drop off buf)"
proof -
  let ?h = "holding_store buf off (unat a) (unat n) (usHoldingRegisters w)"
  let ?w1 = "on_06_WriteSingleHoldingRegister (w\<lparr>usHoldingRegisters := ?h\<rparr>)"
  let ?b2 = "take off' buf' @ reg_bytes ?h (unat a) (unat n) @ drop (off' + 2 * unat n) buf'"
  have "eMBRegHoldingCB MBSIDX_MDL ?w1 buf' off' a n MB_REG_READ = Inr (MB_ENOERR, ?w1, ?b2)"
    using assms(1,3) by (simp add: eMBRegHoldingCB_def holding_range_def REG_HOLDING_START_def
        on_03_on_06 regs_to_buf_ok)
  moreover have "take (2 * unat n) (drop off' ?b2) = take (2 * unat n) (drop off buf)"
    using assms(2,3) by (simp add: reg_bytes_holding_store)
  ultimately show ?thesis using holding_cb_write[OF assms(1,2)] by blast
qed

definition mbs_example :: mbs_t where
  "mbs_example =
     \<lparr>MDL = sim_init \<lparr>m_szDevName = '''', m_szSerial = '''', m_adr = 1, m_szmqtt_servip = '''',
        m_mqtt_servport = 0, m_uab = 0, m_ubc = 0, m_uca = 0, m_ua = 0, m_ub = 0, m_uc = 0,
        m_ia = 0, m_ib = 0, m_ic = 0\<rparr>,
      usHoldingRegisters = (\<lambda>_. 0), usInputRegisters = (\<lambda>_. 0)\<rparr>"

theorem holding_write_read_roundtrip_witness:
  "\<exists>w1 w2 buf2. eMBRegHoldingCB MBSIDX_MDL mbs_example [0x0F, 0xA3] 0 0x6020 1 MB_REG_WRITE
      = Inr (MB_ENOERR, w1, [0x0F, 0xA3]) \<and>
    eMBRegHoldingCB MBSIDX_MDL w1 [0, 0] 0 0x6020 1 MB_REG_READ = Inr (MB_ENOERR, w2, buf2) \<and>
    take 2 (drop 0 buf2) = [0x0F, 0xA3]"
  using holding_write_read_roundtrip[of "0x6020" 1 0 "[0x0F, 0xA3]" 0 "[0, 0]" mbs_example]
  by (simp add: holding_range_def REG_HOLDING_NREGS_def)

text \<open>Fact: a write to any holding register reloads all six electrical quantities from the register
  bank, not only the register written: before the first read has filled the bank, a write to an
  unrelated register sets the three line voltages to zero.\<close>

theorem holding_write_reloads_voltages:
  assumes "holding_range a n" "off + 2 * unat n \<le> length buf"
    and "unat a + unat n \<le> 0x6020" "usHoldingRegisters w = (\<lambda>_. 0)"
  shows "\<exists>w1. eMBRegHoldingCB MBSIDX_MDL w buf off a n MB_REG_WRITE = Inr (MB_ENOERR, w1, buf) \<and>
    m_uab (MDL w1) = 0 \<and> m_ubc (MDL w1) = 0 \<and> m_uca (MDL w1) = 0"
  using assms by (simp add: holding_cb_write on_06_WriteSingleHoldingRegister_def Let_def
      holding_store_def tenth_def dbl_div_def dbl_round_def)

theorem holding_write_reloads_voltages_witness:
  "\<exists>w1. eMBRegHoldingCB MBSIDX_MDL mbs_example [0, 5] 0 0x1000 1 MB_REG_WRITE
     = Inr (MB_ENOERR, w1, [0, 5]) \<and> m_uab (MDL w1) = 0 \<and> m_uab (MDL mbs_example) \<noteq> 0"
proof -
  have "m_uab (MDL mbs_example) = dbl_round (4001 / 10)" by (simp add: mbs_example_def sim_init_def)
  moreover have "dbl_round (4001 / 10) \<noteq> 0" by code_simp
  ultimately show ?thesis
    using holding_write_reloads_voltages[of "0x1000" 1 0 "[0, 5]" mbs_example]
    by (auto simp: holding_range_def REG_HOLDING_NREGS_def mbs_example_def)
qed

text \<open>Fact: on the freshly started simulator a read of the three line-voltage registers returns
  4001, 4002 and 4003, the initial voltages in tenths of a volt, big-endian.\<close>

theorem initial_voltages_read:
  assumes "m_ia (MDL w) = 0" "m_ib (MDL w) = 0" "m_ic (MDL w) = 0"
  shows "\<exists>w'. eMBRegHoldingCB MBSIDX_MDL (w\<lparr>MDL := sim_init (MDL w)\<rparr>) (replicate 6 0) 0 0x6020 3
      MB_REG_READ = Inr (MB_ENOERR, w', [0x0F, 0xA1, 0x0F, 0xA2, 0x0F, 0xA3])"
proof -
  have d: "deci (dbl_round (4001 / 10)) = 4001" "deci (dbl_round (4002 / 10)) = 4002"
    "deci (dbl_round (4003 / 10)) = 4003" "deci_ok (dbl_round (4001 / 10))"
    "deci_ok (dbl_round (4002 / 10))" "deci_ok (dbl_round (4003 / 10))" "deci_ok 0"
    using deci_tenth[of 4001] deci_tenth[of 4002] deci_tenth[of 4003] deci_tenth[of 0]
    by (simp_all add: tenth_def dbl_div_def dbl_round_def)
  have "mdl_readable (MDL (w\<lparr>MDL := sim_init (MDL w)\<rparr>))"
    using assms d by (simp add: mdl_readable_def sim_init_def)
  from holding_cb_read[OF _ this, of "0x6020" 3 0 "replicate 6 0"] show ?thesis
    using d by (simp add: holding_range_def REG_HOLDING_NREGS_def reg_bytes_def upt_rec
        holding_refresh_def sim_init_def hi_byte_def lo_byte_def)
qed

theorem initial_voltages_read_witness:
  "\<exists>w'. eMBRegHoldingCB MBSIDX_MDL (mbs_example\<lparr>MDL := sim_init (MDL mbs_example)\<rparr>) (replicate 6 0) 0
      0x6020 3 MB_REG_READ = Inr (MB_ENOERR, w', [0x0F, 0xA1, 0x0F, 0xA2, 0x0F, 0xA3])"
  by (rule initial_voltages_read) (simp_all add: mbs_example_def sim_init_def)

end
