(* ===== verification/MbFunc.thy ===== *)
theory MbFunc
  imports Mbs
begin

text \<open>
  The Modbus function handlers of \<open>modbus/functions\<close>: bit-field utilities and the error mapping
  (\<open>mbutils.c\<close>), the holding-register handlers (\<open>mbfuncholding.c\<close>), the input-register handler
  (\<open>mbfuncinput.c\<close>), the slave-id report (\<open>mbfuncother.c\<close>) and the handlers the configuration leaves
  out (coils, discrete inputs, read/write multiple). A handler works on the frame buffer that starts
  at the function code and returns the exception code, the changed globals, the buffer and the new
  length.
\<close>

section \<open>Exceptions and bit fields\<close>

datatype eMBException =
    MB_EX_NONE | MB_EX_ILLEGAL_FUNCTION | MB_EX_ILLEGAL_DATA_ADDRESS | MB_EX_ILLEGAL_DATA_VALUE
  | MB_EX_SLAVE_DEVICE_FAILURE | MB_EX_ACKNOWLEDGE | MB_EX_SLAVE_BUSY | MB_EX_MEMORY_PARITY_ERROR
  | MB_EX_GATEWAY_PATH_FAILED | MB_EX_GATEWAY_TGT_FAILED

fun ex_code :: "eMBException \<Rightarrow> UCHAR" where
  "ex_code MB_EX_NONE = 0x00"
| "ex_code MB_EX_ILLEGAL_FUNCTION = 0x01"
| "ex_code MB_EX_ILLEGAL_DATA_ADDRESS = 0x02"
| "ex_code MB_EX_ILLEGAL_DATA_VALUE = 0x03"
| "ex_code MB_EX_SLAVE_DEVICE_FAILURE = 0x04"
| "ex_code MB_EX_ACKNOWLEDGE = 0x05"
| "ex_code MB_EX_SLAVE_BUSY = 0x06"
| "ex_code MB_EX_MEMORY_PARITY_ERROR = 0x08"
| "ex_code MB_EX_GATEWAY_PATH_FAILED = 0x0A"
| "ex_code MB_EX_GATEWAY_TGT_FAILED = 0x0B"

fun prveMBError2Exception :: "eMBErrorCode \<Rightarrow> eMBException" where
  "prveMBError2Exception MB_ENOERR = MB_EX_NONE"
| "prveMBError2Exception MB_ENOREG = MB_EX_ILLEGAL_DATA_ADDRESS"
| "prveMBError2Exception MB_ETIMEDOUT = MB_EX_SLAVE_BUSY"
| "prveMBError2Exception _ = MB_EX_SLAVE_DEVICE_FAILURE"

text \<open>
  Bit fields of at most eight bits at a bit offset, across two neighbouring bytes. The shifted mask
  and value are truncated to 16 bits as the code does.
\<close>

definition xMBUtilSetBits :: "UCHAR list \<Rightarrow> USHORT \<Rightarrow> UCHAR \<Rightarrow> UCHAR \<Rightarrow> UCHAR list res" where
  "xMBUtilSetBits ucByteBuf usBitOffset ucNBits ucValue =
     (if ucNBits \<le> 8 then
        (let usByteOffset = unat usBitOffset div 8;
             usNPreBits = unat usBitOffset - usByteOffset * 8;
             usValue = push_bit usNPreBits (ucast ucValue) :: USHORT;
             usMask = push_bit usNPreBits (push_bit (unat ucNBits) 1 - 1) :: USHORT
         in bind_res (buf_get ucByteBuf usByteOffset) (\<lambda>b0.
            bind_res (buf_get ucByteBuf (usByteOffset + 1)) (\<lambda>b1.
              let usWordBuf = ucast b0 OR push_bit 8 (ucast b1) :: USHORT;
                  usWordBuf' = (usWordBuf AND NOT usMask) OR usValue
              in bind_res (buf_put ucByteBuf usByteOffset (ucast (usWordBuf' AND 0xFF))) (\<lambda>buf.
                 buf_put buf (usByteOffset + 1) (ucast (drop_bit 8 usWordBuf'))))))
      else Inl Assert_failed)"

definition xMBUtilGetBits :: "UCHAR list \<Rightarrow> USHORT \<Rightarrow> UCHAR \<Rightarrow> UCHAR res" where
  "xMBUtilGetBits ucByteBuf usBitOffset ucNBits =
     (let usByteOffset = unat usBitOffset div 8;
          usNPreBits = unat usBitOffset - usByteOffset * 8;
          usMask = push_bit (unat ucNBits) 1 - 1 :: USHORT
      in bind_res (buf_get ucByteBuf usByteOffset) (\<lambda>b0.
         bind_res (buf_get ucByteBuf (usByteOffset + 1)) (\<lambda>b1.
           let usWordBuf = ucast b0 OR push_bit 8 (ucast b1) :: USHORT
           in Inr (ucast (drop_bit usNPreBits usWordBuf AND usMask)))))"

section \<open>Frame layout\<close>

definition MB_PDU_SIZE_MIN :: nat where
  "MB_PDU_SIZE_MIN = 1"

definition MB_PDU_FUNC_OFF :: nat where
  "MB_PDU_FUNC_OFF = 0"

definition MB_PDU_DATA_OFF :: nat where
  "MB_PDU_DATA_OFF = 1"

definition MB_PDU_FUNC_READ_REGCNT_MAX :: USHORT where
  "MB_PDU_FUNC_READ_REGCNT_MAX = 0x007D"

definition MB_PDU_FUNC_WRITE_MUL_REGCNT_MAX :: USHORT where
  "MB_PDU_FUNC_WRITE_MUL_REGCNT_MAX = 0x0078"

type_synonym handler_result = "(eMBException \<times> mbs_t \<times> UCHAR list \<times> USHORT) res"

text \<open>The value two frame bytes form, most significant byte first.\<close>

definition frame_ushort :: "UCHAR list \<Rightarrow> nat \<Rightarrow> USHORT" where
  "frame_ushort pucFrame i = mk_ushort (pucFrame ! i) (pucFrame ! (i + 1))"

section \<open>Holding registers\<close>

definition eMBFuncWriteHoldingRegister ::
  "int \<Rightarrow> mbs_t \<Rightarrow> UCHAR list \<Rightarrow> USHORT \<Rightarrow> handler_result" where
  "eMBFuncWriteHoldingRegister mbsidx w pucFrame usLen =
     (if usLen = 5 then
        (let usRegAddress = frame_ushort pucFrame 1
         in bind_res (eMBRegHoldingCB mbsidx w pucFrame 3 usRegAddress 1 MB_REG_WRITE)
              (\<lambda>(eRegStatus, w', frame').
                Inr (if eRegStatus \<noteq> MB_ENOERR then prveMBError2Exception eRegStatus else MB_EX_NONE,
                     w', frame', usLen)))
      else Inr (MB_EX_ILLEGAL_DATA_VALUE, w, pucFrame, usLen))"

definition eMBFuncWriteMultipleHoldingRegister ::
  "int \<Rightarrow> mbs_t \<Rightarrow> UCHAR list \<Rightarrow> USHORT \<Rightarrow> handler_result" where
  "eMBFuncWriteMultipleHoldingRegister mbsidx w pucFrame usLen =
     (if usLen \<ge> 6 then
        (let usRegAddress = frame_ushort pucFrame 1;
             usRegCount = frame_ushort pucFrame 3;
             ucRegByteCount = pucFrame ! 5
         in if usRegCount \<ge> 1 \<and> usRegCount \<le> MB_PDU_FUNC_WRITE_MUL_REGCNT_MAX \<and>
               ucRegByteCount = ucast (2 * usRegCount)
            then bind_res (eMBRegHoldingCB mbsidx w pucFrame 6 usRegAddress usRegCount MB_REG_WRITE)
                   (\<lambda>(eRegStatus, w', frame').
                     if eRegStatus \<noteq> MB_ENOERR
                     then Inr (prveMBError2Exception eRegStatus, w', frame', usLen)
                     else Inr (MB_EX_NONE, w', frame', 5))
            else Inr (MB_EX_ILLEGAL_DATA_VALUE, w, pucFrame, usLen))
      else Inr (MB_EX_ILLEGAL_DATA_VALUE, w, pucFrame, usLen))"

text \<open>
  The count of a holding-register read is assigned twice, so only its low byte counts. The response
  header overwrites the request in place.
\<close>

definition eMBFuncReadHoldingRegister ::
  "int \<Rightarrow> mbs_t \<Rightarrow> UCHAR list \<Rightarrow> USHORT \<Rightarrow> handler_result" where
  "eMBFuncReadHoldingRegister mbsidx w pucFrame usLen =
     (if usLen = 5 then
        (let usRegAddress = frame_ushort pucFrame 1;
             usRegCount = ucast (pucFrame ! 4) :: USHORT
         in if usRegCount \<ge> 1 \<and> usRegCount \<le> MB_PDU_FUNC_READ_REGCNT_MAX
            then (let frame1 = pucFrame[0 := 3, 1 := ucast (usRegCount * 2)]
                  in bind_res (eMBRegHoldingCB mbsidx w frame1 2 usRegAddress usRegCount MB_REG_READ)
                       (\<lambda>(eRegStatus, w', frame').
                         if eRegStatus \<noteq> MB_ENOERR
                         then Inr (prveMBError2Exception eRegStatus, w', frame', 2)
                         else Inr (MB_EX_NONE, w', frame', 2 + usRegCount * 2)))
            else Inr (MB_EX_ILLEGAL_DATA_VALUE, w, pucFrame, usLen))
      else Inr (MB_EX_ILLEGAL_DATA_VALUE, w, pucFrame, usLen))"

section \<open>Input registers\<close>

definition eMBFuncReadInputRegister ::
  "int \<Rightarrow> mbs_t \<Rightarrow> UCHAR list \<Rightarrow> USHORT \<Rightarrow> handler_result" where
  "eMBFuncReadInputRegister mbsidx w pucFrame usLen =
     (if usLen = 5 then
        (let usRegAddress = frame_ushort pucFrame 1 + 1;
             usRegCount = frame_ushort pucFrame 3
         in if usRegCount \<ge> 1 \<and> usRegCount < MB_PDU_FUNC_READ_REGCNT_MAX
            then (let frame1 = pucFrame[0 := 4, 1 := ucast (usRegCount * 2)]
                  in bind_res (eMBRegInputCB mbsidx w frame1 2 usRegAddress usRegCount)
                       (\<lambda>(eRegStatus, w', frame').
                         if eRegStatus \<noteq> MB_ENOERR
                         then Inr (prveMBError2Exception eRegStatus, w', frame', 2)
                         else Inr (MB_EX_NONE, w', frame', 2 + usRegCount * 2)))
            else Inr (MB_EX_ILLEGAL_DATA_VALUE, w, pucFrame, usLen))
      else Inr (MB_EX_ILLEGAL_DATA_VALUE, w, pucFrame, usLen))"

section \<open>Slave id\<close>

definition MB_FUNC_OTHER_REP_SLAVEID_BUF :: nat where
  "MB_FUNC_OTHER_REP_SLAVEID_BUF = 32"

text \<open>The used part of \<open>ucMBSlaveID\<close>, whose length is \<open>usMBSlaveIDLen\<close>.\<close>

definition eMBSetSlaveID ::
  "UCHAR list \<Rightarrow> UCHAR \<Rightarrow> bool \<Rightarrow> UCHAR list \<Rightarrow> eMBErrorCode \<times> UCHAR list" where
  "eMBSetSlaveID old ucSlaveID xIsRunning pucAdditional =
     (if length pucAdditional + 2 < MB_FUNC_OTHER_REP_SLAVEID_BUF
      then (MB_ENOERR, [ucSlaveID, if xIsRunning then 0xFF else 0x00] @ pucAdditional)
      else (MB_ENORES, old))"

definition eMBFuncReportSlaveID ::
  "UCHAR list \<Rightarrow> mbs_t \<Rightarrow> UCHAR list \<Rightarrow> USHORT \<Rightarrow> handler_result" where
  "eMBFuncReportSlaveID ucMBSlaveID w pucFrame usLen =
     (if 1 + length ucMBSlaveID \<le> length pucFrame
      then Inr (MB_EX_NONE, w,
        take 1 pucFrame @ ucMBSlaveID @ drop (1 + length ucMBSlaveID) pucFrame,
        of_nat (1 + length ucMBSlaveID))
      else Inl Buffer_overflow)"

section \<open>The contract of a handler\<close>

text \<open>The quantities the registers are filled from can be converted, so a refresh cannot fail.\<close>

definition ushort_ok :: "dbl \<Rightarrow> bool" where
  "ushort_ok x \<longleftrightarrow> 0 \<le> dbl_trunc x \<and> dbl_trunc x < 65536"

definition mbs_ok :: "mbs_t \<Rightarrow> bool" where
  "mbs_ok w \<longleftrightarrow> mdl_readable (MDL w) \<and> ushort_ok (m_ua (MDL w)) \<and> ushort_ok (m_ub (MDL w))"

text \<open>
  What the protocol stack relies on when it calls a handler: it comes back without a fault, keeps
  the globals convertible and the frame buffer at its size, and a request within the maximal size of a
  protocol data unit, 253 bytes, gives a response within it.
\<close>

locale function_handler =
  fixes h :: "mbs_t \<Rightarrow> UCHAR list \<Rightarrow> USHORT \<Rightarrow> handler_result"
  assumes handles: "mbs_ok w \<Longrightarrow> 255 \<le> length f \<Longrightarrow>
    \<exists>ex w' f' n'. h w f n = Inr (ex, w', f', n') \<and> mbs_ok w' \<and> length f' = length f \<and>
      (unat n \<le> 253 \<longrightarrow> unat n' \<le> 253)"
begin

lemma no_fault: "mbs_ok w \<Longrightarrow> 255 \<le> length f \<Longrightarrow> h w f n \<noteq> Inl e"
  using handles[of w f n] by auto

lemma keeps_ok:
  "h w f n = Inr (ex, w', f', n') \<Longrightarrow> mbs_ok w \<Longrightarrow> 255 \<le> length f \<Longrightarrow> mbs_ok w' \<and> length f' = length f"
  using handles[of w f n] by auto

lemma response_fits:
  "h w f n = Inr (ex, w', f', n') \<Longrightarrow> mbs_ok w \<Longrightarrow> 255 \<le> length f \<Longrightarrow> unat n \<le> 253 \<Longrightarrow>
   unat n' \<le> 253"
  using handles[of w f n] by auto

end

lemma on_06_ok: "mbs_ok w \<Longrightarrow> mbs_ok (on_06_WriteSingleHoldingRegister (w\<lparr>usHoldingRegisters := h\<rparr>))"
  using on_06_readable[of "w\<lparr>usHoldingRegisters := h\<rparr>"]
  by (simp add: mbs_ok_def) (simp add: on_06_WriteSingleHoldingRegister_def Let_def)

lemma mbs_ok_holding [simp]: "mbs_ok (w\<lparr>usHoldingRegisters := h\<rparr>) = mbs_ok w"
  by (simp add: mbs_ok_def)

lemma mbs_ok_input [simp]: "mbs_ok (w\<lparr>usInputRegisters := h\<rparr>) = mbs_ok w"
  by (simp add: mbs_ok_def)

lemma holding_cb_total:
  assumes "mbs_ok w" "off + 2 * unat n \<le> length buf"
  shows "\<exists>e w' buf'. eMBRegHoldingCB MBSIDX_MDL w buf off a n mode = Inr (e, w', buf') \<and>
    mbs_ok w' \<and> length buf' = length buf"
proof (cases "holding_range a n")
  case True
  then show ?thesis
    using assms by (cases mode) (auto simp: holding_cb_read holding_cb_write mbs_ok_def[of w] on_06_ok)
qed (use assms in \<open>simp add: holding_cb_out_of_range\<close>)

lemma on_04_ok:
  "mbs_ok w \<Longrightarrow> \<exists>h. on_04_ReadInputRegisters w = Inr (w\<lparr>usInputRegisters := h\<rparr>)"
  by (auto simp: on_04_ReadInputRegisters_def mbs_ok_def ushort_ok_def dbl_to_ushort_def Let_def)

lemma input_cb_total:
  assumes "mbs_ok w" "off + 2 * unat n \<le> length buf"
  shows "\<exists>e w' buf'. eMBRegInputCB MBSIDX_MDL w buf off a n = Inr (e, w', buf') \<and>
    mbs_ok w' \<and> length buf' = length buf"
  using on_04_ok[OF assms(1)] assms by (auto simp: eMBRegInputCB_def regs_to_buf_ok)

lemma resp_len:
  fixes c :: USHORT
  assumes "c \<le> 125"
  shows "unat (2 + c * 2) = 2 + 2 * unat c"
proof -
  have c: "unat c \<le> 125" using assms by (simp add: word_le_nat_alt)
  then have "unat (c * 2) = unat c * 2" by (simp add: unat_word_ariths)
  then show ?thesis using c by (simp add: unat_word_ariths)
qed

interpretation write_holding: function_handler "eMBFuncWriteHoldingRegister MBSIDX_MDL"
proof
  fix w f n
  assume "mbs_ok w" "255 \<le> length (f :: UCHAR list)"
  then show "\<exists>ex w' f' n'. eMBFuncWriteHoldingRegister MBSIDX_MDL w f n = Inr (ex, w', f', n') \<and>
      mbs_ok w' \<and> length f' = length f \<and> (unat n \<le> 253 \<longrightarrow> unat n' \<le> 253)"
    using holding_cb_total[of w 3 1 f "frame_ushort f 1" MB_REG_WRITE]
    by (auto simp: eMBFuncWriteHoldingRegister_def Let_def)
qed

interpretation write_multiple: function_handler "eMBFuncWriteMultipleHoldingRegister MBSIDX_MDL"
proof
  fix w f n
  assume a: "mbs_ok w" "255 \<le> length (f :: UCHAR list)"
  let ?c = "frame_ushort f 3"
  have "6 + 2 * unat ?c \<le> length f" if "?c \<le> MB_PDU_FUNC_WRITE_MUL_REGCNT_MAX"
    using that a by (simp add: MB_PDU_FUNC_WRITE_MUL_REGCNT_MAX_def word_le_nat_alt)
  then show "\<exists>ex w' f' n'. eMBFuncWriteMultipleHoldingRegister MBSIDX_MDL w f n = Inr (ex, w', f', n') \<and>
      mbs_ok w' \<and> length f' = length f \<and> (unat n \<le> 253 \<longrightarrow> unat n' \<le> 253)"
    using a holding_cb_total[of w 6 ?c f "frame_ushort f 1" MB_REG_WRITE]
    by (auto simp: eMBFuncWriteMultipleHoldingRegister_def Let_def)
qed

interpretation read_holding: function_handler "eMBFuncReadHoldingRegister MBSIDX_MDL"
proof
  fix w f n
  assume a: "mbs_ok w" "255 \<le> length (f :: UCHAR list)"
  let ?c = "ucast (f ! 4) :: USHORT"
  let ?f = "f[0 := 3, 1 := ucast (?c * 2)]"
  show "\<exists>ex w' f' n'. eMBFuncReadHoldingRegister MBSIDX_MDL w f n = Inr (ex, w', f', n') \<and>
      mbs_ok w' \<and> length f' = length f \<and> (unat n \<le> 253 \<longrightarrow> unat n' \<le> 253)"
  proof (cases "n = 5 \<and> ?c \<ge> 1 \<and> ?c \<le> MB_PDU_FUNC_READ_REGCNT_MAX")
    case True
    then have c: "?c \<le> 125" by (simp add: MB_PDU_FUNC_READ_REGCNT_MAX_def)
    then have "unat ?c \<le> 125" by (simp only: word_le_nat_alt) simp
    then have "2 + 2 * unat ?c \<le> length ?f" using a by simp
    from holding_cb_total[OF a(1) this, of "frame_ushort f 1" MB_REG_READ] show ?thesis
      using True a resp_len[OF c] \<open>unat ?c \<le> 125\<close>
      by (auto simp: eMBFuncReadHoldingRegister_def Let_def)
  qed (use a in \<open>auto simp: eMBFuncReadHoldingRegister_def Let_def\<close>)
qed

interpretation read_input: function_handler "eMBFuncReadInputRegister MBSIDX_MDL"
proof
  fix w f n
  assume a: "mbs_ok w" "255 \<le> length (f :: UCHAR list)"
  let ?c = "frame_ushort f 3"
  let ?f = "f[0 := 4, 1 := ucast (?c * 2)]"
  show "\<exists>ex w' f' n'. eMBFuncReadInputRegister MBSIDX_MDL w f n = Inr (ex, w', f', n') \<and>
      mbs_ok w' \<and> length f' = length f \<and> (unat n \<le> 253 \<longrightarrow> unat n' \<le> 253)"
  proof (cases "n = 5 \<and> ?c \<ge> 1 \<and> ?c < MB_PDU_FUNC_READ_REGCNT_MAX")
    case True
    then have c: "?c \<le> 125" by (auto simp: MB_PDU_FUNC_READ_REGCNT_MAX_def)
    then have "unat ?c \<le> 125" by (simp only: word_le_nat_alt) simp
    then have "2 + 2 * unat ?c \<le> length ?f" using a by simp
    from input_cb_total[OF a(1) this, of "frame_ushort f 1 + 1"] show ?thesis
      using True a resp_len[OF c] \<open>unat ?c \<le> 125\<close>
      by (auto simp: eMBFuncReadInputRegister_def Let_def)
  qed (use a in \<open>auto simp: eMBFuncReadInputRegister_def Let_def\<close>)
qed

lemma report_slaveid_handler:
  assumes "length sid \<le> 31"
  shows "function_handler (eMBFuncReportSlaveID sid)"
proof
  fix w f n
  assume "mbs_ok w" "255 \<le> length (f :: UCHAR list)"
  then show "\<exists>ex w' f' n'. eMBFuncReportSlaveID sid w f n = Inr (ex, w', f', n') \<and>
      mbs_ok w' \<and> length f' = length f \<and> (unat n \<le> 253 \<longrightarrow> unat n' \<le> 253)"
    using assms by (auto simp: eMBFuncReportSlaveID_def unat_of_nat unat_word_ariths)
qed

section \<open>Bit fields\<close>

lemma bit_field_mask: "n \<le> 8 \<Longrightarrow> bit (2 ^ n - 1 :: USHORT) i \<longleftrightarrow> i < n"
  by (auto simp: mask_eq_exp_minus_1[symmetric] bit_mask_iff)

text \<open>The two bytes a field lies in, as one word.\<close>

definition pair_word :: "UCHAR list \<Rightarrow> nat \<Rightarrow> USHORT" where
  "pair_word buf i = ucast (buf ! i) OR push_bit 8 (ucast (buf ! (i + 1)))"

definition bits_word :: "USHORT \<Rightarrow> nat \<Rightarrow> nat \<Rightarrow> UCHAR \<Rightarrow> USHORT" where
  "bits_word v p n x = (v AND NOT (push_bit p (push_bit n 1 - 1))) OR push_bit p (ucast x)"

lemma set_bits_ok:
  assumes "nb \<le> 8" "unat off div 8 + 1 < length buf"
  shows "xMBUtilSetBits buf off nb v = Inr (buf
    [unat off div 8 := lo_byte (bits_word (pair_word buf (unat off div 8)) (unat off mod 8) (unat nb) v),
     unat off div 8 + 1 := hi_byte (bits_word (pair_word buf (unat off div 8)) (unat off mod 8) (unat nb) v)])"
  using assms by (simp add: xMBUtilSetBits_def Let_def buf_get_def buf_put_def bits_word_def
      pair_word_def lo_byte_def hi_byte_def minus_div_mult_eq_mod)

lemma pair_word_bytes:
  "i + 1 < length buf \<Longrightarrow> pair_word (buf[i := lo_byte w, i + 1 := hi_byte w]) i = w"
  using mk_ushort_bytes[of w] by (simp add: pair_word_def mk_ushort_def or.commute)

lemma get_bits_word:
  assumes "p < 8" "n \<le> 8" "unat v < 2 ^ n"
  shows "ucast (drop_bit p (bits_word w p n v) AND (push_bit n 1 - 1)) = (v :: UCHAR)"
proof (rule bit_word_eqI)
  fix i assume i: "i < LENGTH(8)"
  have "i < n" if "bit v i"
  proof (rule ccontr)
    assume "\<not> i < n"
    have "take_bit n v = v"
      using assms(3) by (simp add: word_unat_eq_iff unsigned_take_bit_eq take_bit_nat_eq_self)
    then show False using that \<open>\<not> i < n\<close> by (metis bit_take_bit_iff)
  qed
  then show "bit (ucast (drop_bit p (bits_word w p n v) AND (push_bit n 1 - 1)) :: UCHAR) i = bit v i"
    using i assms by (auto simp: bits_word_def bit_simps bit_field_mask)
qed

section \<open>Properties\<close>

text \<open>Fact: the bit-field utilities are inverse to each other: setting a field of at most eight bits
  at any bit offset inside the buffer and reading it back gives the value, when the value has no
  bits beyond the field.\<close>

theorem set_get_bits_roundtrip:
  assumes "nb \<le> 8" "unat off div 8 + 1 < length buf" "unat v < 2 ^ unat nb"
  shows "\<exists>buf'. xMBUtilSetBits buf off nb v = Inr buf' \<and> length buf' = length buf \<and>
    xMBUtilGetBits buf' off nb = Inr v"
proof -
  let ?i = "unat off div 8" and ?p = "unat off mod 8"
  let ?w = "bits_word (pair_word buf ?i) ?p (unat nb) v"
  let ?b = "buf[?i := lo_byte ?w, ?i + 1 := hi_byte ?w]"
  have "unat nb \<le> 8" using assms(1) by (simp add: word_le_nat_alt)
  then have "ucast (drop_bit ?p (pair_word ?b ?i) AND (push_bit (unat nb) 1 - 1)) = v"
    using get_bits_word[of ?p "unat nb" v "pair_word buf ?i"] assms(3) pair_word_bytes[OF assms(2)] by simp
  then have "xMBUtilGetBits ?b off nb = Inr v"
    using assms(2) by (simp add: xMBUtilGetBits_def Let_def buf_get_def pair_word_def minus_div_mult_eq_mod)
  then show ?thesis using set_bits_ok[OF assms(1,2)] by auto
qed

theorem set_get_bits_roundtrip_witness:
  "\<exists>buf'. xMBUtilSetBits [0xFF, 0xFF, 0] 5 4 0x9 = Inr buf' \<and> xMBUtilGetBits buf' 5 4 = Inr 0x9"
  using set_get_bits_roundtrip[of 4 5 "[0xFF, 0xFF, 0]" 9] by auto

text \<open>Fact: a read request for holding registers, with a count of at most 125 in its low byte, is
  answered with the function code, the byte count and the refreshed registers, big-endian; the high
  byte of the count is ignored. Outside the bank the answer is the exception for an illegal
  address, and no global changes.\<close>

theorem read_holding_response:
  assumes "mbs_ok w" "length f = 255" "1 \<le> f ! 4" "f ! 4 \<le> 125"
  shows "eMBFuncReadHoldingRegister MBSIDX_MDL w f 5 =
    (if unat (frame_ushort f 1) + unat (f ! 4) \<le> REG_HOLDING_NREGS
     then let h = holding_refresh (MDL w) (usHoldingRegisters w) in
       Inr (MB_EX_NONE, w\<lparr>usHoldingRegisters := h\<rparr>,
         [3, 2 * f ! 4] @ reg_bytes h (unat (frame_ushort f 1)) (unat (f ! 4))
           @ drop (2 + 2 * unat (f ! 4)) f,
         of_nat (2 + 2 * unat (f ! 4)))
     else Inr (MB_EX_ILLEGAL_DATA_ADDRESS, w, f[0 := 3, 1 := 2 * f ! 4], 2))"
proof -
  let ?c = "ucast (f ! 4) :: USHORT"
  have c8: "unat (f ! 4) \<le> 125" using assms(4) by (simp add: word_le_nat_alt)
  have c: "1 \<le> ?c" "?c \<le> MB_PDU_FUNC_READ_REGCNT_MAX"
    using assms(3) c8 by (simp_all add: word_le_nat_alt MB_PDU_FUNC_READ_REGCNT_MAX_def)
  have "(ucast (?c * 2) :: UCHAR) = 2 * f ! 4"
    by (rule ucast_double_8)
  moreover have "2 + ?c * 2 = of_nat (2 + 2 * unat (f ! 4))"
    by simp
  ultimately show ?thesis
    using assms c c8
    by (auto simp: eMBFuncReadHoldingRegister_def Let_def mbs_ok_def holding_cb_read
        holding_cb_out_of_range holding_range_def take_Suc_conv_app_nth numeral_2_eq_2)
qed

lemma mbs_example_ok: "mbs_ok mbs_example"
proof -
  have "deci_ok 0" "ushort_ok 0" by (simp_all add: deci_ok_def ushort_ok_def dbl_mul_def dbl_round_def dbl_trunc_def)
  moreover have "deci_ok (dbl_round (4001 / 10))" "deci_ok (dbl_round (4002 / 10))" "deci_ok (dbl_round (4003 / 10))"
    using deci_tenth(2)[of 4001] deci_tenth(2)[of 4002] deci_tenth(2)[of 4003]
    by (simp_all add: tenth_def dbl_div_def)
  ultimately show ?thesis
    by (simp add: mbs_ok_def mdl_readable_def mbs_example_def sim_init_def)
qed

theorem read_holding_response_witness:
  "\<exists>w' f'. eMBFuncReadHoldingRegister MBSIDX_MDL mbs_example ([3, 0x10, 0, 7, 1] @ replicate 250 0) 5
     = Inr (MB_EX_NONE, w', f', 4) \<and> take 4 f' = [3, 2, 0, 0]"
proof -
  let ?f = "[3, 0x10, 0, 7, 1] @ replicate 250 0 :: UCHAR list"
  let ?h = "holding_refresh (MDL mbs_example) (usHoldingRegisters mbs_example)"
  have a: "unat (frame_ushort ?f 1) = 0x1000" by (simp add: frame_ushort_def mk_ushort_def)
  have "?h 0x1000 = 0" by (simp add: holding_refresh_def mbs_example_def)
  then have "reg_bytes ?h 0x1000 1 = [0, 0]" by (simp add: reg_bytes_def hi_byte_def lo_byte_def)
  then show ?thesis
    using read_holding_response[OF mbs_example_ok, of ?f] a
    by (simp add: REG_HOLDING_NREGS_def Let_def)
qed

text \<open>Fact: a read of input registers is shifted by one: a request for \<open>n\<close> registers from address
  \<open>a\<close> is answered with the registers \<open>a + 1\<close> to \<open>a + n\<close> of the bank, so the first register of the
  bank cannot be read.\<close>

theorem read_input_shifted:
  assumes "mbs_ok w" "length f = 255" "1 \<le> frame_ushort f 3" "frame_ushort f 3 < 125"
    and "unat (frame_ushort f 1) + 1 + unat (frame_ushort f 3) \<le> REG_INPUT_NREGS"
  shows "\<exists>w' tl. on_04_ReadInputRegisters w = Inr w' \<and>
    eMBFuncReadInputRegister MBSIDX_MDL w f 5 = Inr (MB_EX_NONE, w',
      [4, ucast (frame_ushort f 3 * 2)]
        @ reg_bytes (usInputRegisters w') (unat (frame_ushort f 1) + 1) (unat (frame_ushort f 3)) @ tl,
      2 + frame_ushort f 3 * 2)"
proof -
  let ?a = "frame_ushort f 1" and ?c = "frame_ushort f 3"
  have c: "unat ?c < 125" using assms(4) by (simp add: word_less_nat_alt)
  have "unat ?a + unat (1 :: USHORT) < 65536"
    using assms(5) by (simp add: REG_INPUT_NREGS_def)
  then have a: "unat (?a + 1) = unat ?a + 1" using uint16_add_no_wrap by fastforce
  obtain h where h: "on_04_ReadInputRegisters w = Inr (w\<lparr>usInputRegisters := h\<rparr>)"
    using on_04_ok[OF assms(1)] by blast
  show ?thesis
    using assms c a h
    by (simp add: eMBFuncReadInputRegister_def Let_def eMBRegInputCB_def REG_INPUT_START_def
        MB_PDU_FUNC_READ_REGCNT_MAX_def regs_to_buf_ok take_Suc_conv_app_nth numeral_2_eq_2)
qed

theorem read_input_shifted_witness:
  "\<exists>w' tl. eMBFuncReadInputRegister MBSIDX_MDL mbs_example ([4, 0, 0, 0, 1] @ replicate 250 0) 5
     = Inr (MB_EX_NONE, w', [4, 2] @ reg_bytes (usInputRegisters w') 1 1 @ tl, 4)"
  using read_input_shifted[OF mbs_example_ok, of "[4, 0, 0, 0, 1] @ replicate 250 0"]
  by (auto simp: frame_ushort_def mk_ushort_def REG_INPUT_NREGS_def)

end
