(* ===== verification/Crc.thy ===== *)
theory Crc
  imports Prelude
begin

text \<open>
  The CRC of Modbus RTU frames, \<open>modbus/rtu/mbcrc.c\<close>: the two tables and the table-driven loop,
  the bit-by-bit definition of CRC-16/Modbus it stands for, and what the receiver relies on: a
  frame followed by its CRC has the CRC zero, only then, and no frame with a single changed byte
  passes.
\<close>

section \<open>The tables and the loop\<close>

definition aucCRCHi :: "UCHAR list" where
  "aucCRCHi =
    [0x00, 0xC1, 0x81, 0x40, 0x01, 0xC0, 0x80, 0x41, 0x01, 0xC0, 0x80, 0x41,
     0x00, 0xC1, 0x81, 0x40, 0x01, 0xC0, 0x80, 0x41, 0x00, 0xC1, 0x81, 0x40,
     0x00, 0xC1, 0x81, 0x40, 0x01, 0xC0, 0x80, 0x41, 0x01, 0xC0, 0x80, 0x41,
     0x00, 0xC1, 0x81, 0x40, 0x00, 0xC1, 0x81, 0x40, 0x01, 0xC0, 0x80, 0x41,
     0x00, 0xC1, 0x81, 0x40, 0x01, 0xC0, 0x80, 0x41, 0x01, 0xC0, 0x80, 0x41,
     0x00, 0xC1, 0x81, 0x40, 0x01, 0xC0, 0x80, 0x41, 0x00, 0xC1, 0x81, 0x40,
     0x00, 0xC1, 0x81, 0x40, 0x01, 0xC0, 0x80, 0x41, 0x00, 0xC1, 0x81, 0x40,
     0x01, 0xC0, 0x80, 0x41, 0x01, 0xC0, 0x80, 0x41, 0x00, 0xC1, 0x81, 0x40,
     0x00, 0xC1, 0x81, 0x40, 0x01, 0xC0, 0x80, 0x41, 0x01, 0xC0, 0x80, 0x41,
     0x00, 0xC1, 0x81, 0x40, 0x01, 0xC0, 0x80, 0x41, 0x00, 0xC1, 0x81, 0x40,
     0x00, 0xC1, 0x81, 0x40, 0x01, 0xC0, 0x80, 0x41, 0x01, 0xC0, 0x80, 0x41,
     0x00, 0xC1, 0x81, 0x40, 0x00, 0xC1, 0x81, 0x40, 0x01, 0xC0, 0x80, 0x41,
     0x00, 0xC1, 0x81, 0x40, 0x01, 0xC0, 0x80, 0x41, 0x01, 0xC0, 0x80, 0x41,
     0x00, 0xC1, 0x81, 0x40, 0x00, 0xC1, 0x81, 0x40, 0x01, 0xC0, 0x80, 0x41,
     0x01, 0xC0, 0x80, 0x41, 0x00, 0xC1, 0x81, 0x40, 0x01, 0xC0, 0x80, 0x41,
     0x00, 0xC1, 0x81, 0x40, 0x00, 0xC1, 0x81, 0x40, 0x01, 0xC0, 0x80, 0x41,
     0x00, 0xC1, 0x81, 0x40, 0x01, 0xC0, 0x80, 0x41, 0x01, 0xC0, 0x80, 0x41,
     0x00, 0xC1, 0x81, 0x40, 0x01, 0xC0, 0x80, 0x41, 0x00, 0xC1, 0x81, 0x40,
     0x00, 0xC1, 0x81, 0x40, 0x01, 0xC0, 0x80, 0x41, 0x01, 0xC0, 0x80, 0x41,
     0x00, 0xC1, 0x81, 0x40, 0x00, 0xC1, 0x81, 0x40, 0x01, 0xC0, 0x80, 0x41,
     0x00, 0xC1, 0x81, 0x40, 0x01, 0xC0, 0x80, 0x41, 0x01, 0xC0, 0x80, 0x41,
     0x00, 0xC1, 0x81, 0x40]"

definition aucCRCLo :: "UCHAR list" where
  "aucCRCLo =
    [0x00, 0xC0, 0xC1, 0x01, 0xC3, 0x03, 0x02, 0xC2, 0xC6, 0x06, 0x07, 0xC7,
     0x05, 0xC5, 0xC4, 0x04, 0xCC, 0x0C, 0x0D, 0xCD, 0x0F, 0xCF, 0xCE, 0x0E,
     0x0A, 0xCA, 0xCB, 0x0B, 0xC9, 0x09, 0x08, 0xC8, 0xD8, 0x18, 0x19, 0xD9,
     0x1B, 0xDB, 0xDA, 0x1A, 0x1E, 0xDE, 0xDF, 0x1F, 0xDD, 0x1D, 0x1C, 0xDC,
     0x14, 0xD4, 0xD5, 0x15, 0xD7, 0x17, 0x16, 0xD6, 0xD2, 0x12, 0x13, 0xD3,
     0x11, 0xD1, 0xD0, 0x10, 0xF0, 0x30, 0x31, 0xF1, 0x33, 0xF3, 0xF2, 0x32,
     0x36, 0xF6, 0xF7, 0x37, 0xF5, 0x35, 0x34, 0xF4, 0x3C, 0xFC, 0xFD, 0x3D,
     0xFF, 0x3F, 0x3E, 0xFE, 0xFA, 0x3A, 0x3B, 0xFB, 0x39, 0xF9, 0xF8, 0x38,
     0x28, 0xE8, 0xE9, 0x29, 0xEB, 0x2B, 0x2A, 0xEA, 0xEE, 0x2E, 0x2F, 0xEF,
     0x2D, 0xED, 0xEC, 0x2C, 0xE4, 0x24, 0x25, 0xE5, 0x27, 0xE7, 0xE6, 0x26,
     0x22, 0xE2, 0xE3, 0x23, 0xE1, 0x21, 0x20, 0xE0, 0xA0, 0x60, 0x61, 0xA1,
     0x63, 0xA3, 0xA2, 0x62, 0x66, 0xA6, 0xA7, 0x67, 0xA5, 0x65, 0x64, 0xA4,
     0x6C, 0xAC, 0xAD, 0x6D, 0xAF, 0x6F, 0x6E, 0xAE, 0xAA, 0x6A, 0x6B, 0xAB,
     0x69, 0xA9, 0xA8, 0x68, 0x78, 0xB8, 0xB9, 0x79, 0xBB, 0x7B, 0x7A, 0xBA,
     0xBE, 0x7E, 0x7F, 0xBF, 0x7D, 0xBD, 0xBC, 0x7C, 0xB4, 0x74, 0x75, 0xB5,
     0x77, 0xB7, 0xB6, 0x76, 0x72, 0xB2, 0xB3, 0x73, 0xB1, 0x71, 0x70, 0xB0,
     0x50, 0x90, 0x91, 0x51, 0x93, 0x53, 0x52, 0x92, 0x96, 0x56, 0x57, 0x97,
     0x55, 0x95, 0x94, 0x54, 0x9C, 0x5C, 0x5D, 0x9D, 0x5F, 0x9F, 0x9E, 0x5E,
     0x5A, 0x9A, 0x9B, 0x5B, 0x99, 0x59, 0x58, 0x98, 0x88, 0x48, 0x49, 0x89,
     0x4B, 0x8B, 0x8A, 0x4A, 0x4E, 0x8E, 0x8F, 0x4F, 0x8D, 0x4D, 0x4C, 0x8C,
     0x44, 0x84, 0x85, 0x45, 0x87, 0x47, 0x46, 0x86, 0x82, 0x42, 0x43, 0x83,
     0x41, 0x81, 0x80, 0x40]"

text \<open>One round of the loop on the pair (\<open>ucCRCHi\<close>, \<open>ucCRCLo\<close>).\<close>

definition crc_round :: "UCHAR \<times> UCHAR \<Rightarrow> UCHAR \<Rightarrow> UCHAR \<times> UCHAR" where
  "crc_round s b =
     (let iIndex = unat (snd s XOR b)
      in (aucCRCLo ! iIndex, fst s XOR aucCRCHi ! iIndex))"

definition usMBCRC16 :: "UCHAR list \<Rightarrow> USHORT" where
  "usMBCRC16 frame =
     (let s = foldl crc_round (0xFF, 0xFF) frame
      in push_bit 8 (ucast (fst s)) OR ucast (snd s))"

section \<open>The bit-by-bit definition\<close>

definition crc_bit :: "USHORT \<Rightarrow> USHORT" where
  "crc_bit c = (if bit c 0 then drop_bit 1 c XOR 0xA001 else drop_bit 1 c)"

definition crc_byte :: "USHORT \<Rightarrow> USHORT" where
  "crc_byte c = crc_bit (crc_bit (crc_bit (crc_bit (crc_bit (crc_bit (crc_bit (crc_bit c)))))))"

definition crc16_modbus :: "UCHAR list \<Rightarrow> USHORT" where
  "crc16_modbus frame = foldl (\<lambda>c b. crc_byte (c XOR ucast b)) 0xFFFF frame"

section \<open>The tables hold the bit-by-bit values\<close>

lemma crc_tables_length [simp]: "length aucCRCHi = 256" "length aucCRCLo = 256"
  by (simp_all add: aucCRCHi_def aucCRCLo_def)

fun crc_table_from :: "USHORT \<Rightarrow> UCHAR list \<Rightarrow> UCHAR list \<Rightarrow> bool" where
  "crc_table_from i (h # hs) (l # ls) \<longleftrightarrow>
     crc_byte i = push_bit 8 (ucast l) OR ucast h \<and> crc_table_from (i + 1) hs ls"
| "crc_table_from i _ _ \<longleftrightarrow> True"

lemma crc_table_ok: "crc_table_from 0 aucCRCHi aucCRCLo"
  by (simp add: aucCRCHi_def aucCRCLo_def crc_byte_def crc_bit_def)

lemma crc_table_from_nth:
  "crc_table_from i hs ls \<Longrightarrow> n < length hs \<Longrightarrow> n < length ls \<Longrightarrow>
   crc_byte (i + of_nat n) = push_bit 8 (ucast (ls ! n)) OR ucast (hs ! n)"
proof (induction i hs ls arbitrary: n rule: crc_table_from.induct)
  case (1 i h hs l ls)
  then show ?case by (cases n) (auto simp: algebra_simps)
qed auto

lemma crc_table_index:
  "crc_byte (ucast (b :: UCHAR)) = push_bit 8 (ucast (aucCRCLo ! unat b)) OR ucast (aucCRCHi ! unat b)"
proof -
  have "unat b < 256" using unsigned_less[of b] by simp
  moreover have "(ucast b :: USHORT) = of_nat (unat b)" by simp
  ultimately show ?thesis
    using crc_table_from_nth[OF crc_table_ok, of "unat b"] by simp
qed

section \<open>Algebra of the bit step\<close>

lemma crc_bit_xor: "crc_bit (a XOR b) = crc_bit a XOR crc_bit b"
  by (simp add: crc_bit_def bit_xor_iff drop_bit_xor ac_simps)

lemma crc_byte_xor: "crc_byte (a XOR b) = crc_byte a XOR crc_byte b"
  by (simp add: crc_byte_def crc_bit_xor)

lemma crc_bit_0 [simp]: "crc_bit 0 = 0"
  by (simp add: crc_bit_def)

lemma crc_byte_0 [simp]: "crc_byte 0 = 0"
  by (simp add: crc_byte_def)

text \<open>The polynomial has its top bit set, so the bit shifted out can be read off the result.\<close>

lemma crc_bit_eq_0: "crc_bit c = 0 \<Longrightarrow> c = 0"
proof (cases "bit c 0")
  case True
  assume "crc_bit c = 0"
  then have "bit (drop_bit 1 c XOR 0xA001) 15 = bit (0 :: USHORT) 15" using True by (simp add: crc_bit_def)
  then show ?thesis by (auto simp: bit_simps dest: bit_imp_le_length)
next
  case False
  assume "crc_bit c = 0"
  then have *: "drop_bit 1 c = 0" using False by (simp add: crc_bit_def)
  show ?thesis
  proof (rule bit_word_eqI)
    fix n assume "n < LENGTH(16)"
    show "bit c n = bit 0 n"
    proof (cases n)
      case 0
      then show ?thesis using False by simp
    next
      case (Suc m)
      have "bit (drop_bit 1 c) m = bit (0 :: USHORT) m" using * by simp
      then show ?thesis using Suc by (simp add: bit_simps)
    qed
  qed
qed

lemma crc_byte_eq_0: "crc_byte c = 0 \<Longrightarrow> c = 0"
  by (auto simp: crc_byte_def dest!: crc_bit_eq_0)

lemma word_xor_eq_0:
  fixes a b :: "'a::len word"
  assumes "a XOR b = 0"
  shows "a = b"
proof (rule bit_word_eqI)
  fix n
  have "bit (a XOR b) n = bit (0 :: 'a word) n" using assms by simp
  then show "bit a n = bit b n" by (simp add: bit_xor_iff)
qed

lemma word_xor_move:
  fixes a b c :: "'a::len word"
  shows "a XOR c = b \<longleftrightarrow> a = b XOR c"
  by (auto simp: xor.assoc)

lemma word_xor_cancel:
  fixes a b c :: "'a::len word"
  shows "a XOR b = a XOR c \<longleftrightarrow> b = c"
  using word_xor_move[of b a "a XOR c"] by (simp add: ac_simps)

lemma crc_byte_inj: "crc_byte a = crc_byte b \<longleftrightarrow> a = b"
proof
  assume "crc_byte a = crc_byte b"
  then have "crc_byte (a XOR b) = 0" by (simp add: crc_byte_xor)
  then have "a XOR b = 0" by (rule crc_byte_eq_0)
  then show "a = b" by (rule word_xor_eq_0)
qed simp

lemma crc_byte_funpow: "crc_byte c = (crc_bit ^^ Suc (Suc (Suc (Suc (Suc (Suc (Suc (Suc 0)))))))) c"
  by (simp add: crc_byte_def)

lemma crc_bits_low_zero: "\<forall>i<n. \<not> bit c i \<Longrightarrow> (crc_bit ^^ n) c = drop_bit n c"
  by (induction n) (simp_all add: crc_bit_def bit_drop_bit_eq)

lemma crc_byte_high: "crc_byte (push_bit 8 (ucast (h :: UCHAR))) = ucast h"
proof -
  have 8: "Suc (Suc (Suc (Suc (Suc (Suc (Suc (Suc 0))))))) = 8" by simp
  have "crc_byte (push_bit 8 (ucast h)) = drop_bit 8 (push_bit 8 (ucast h))"
    unfolding crc_byte_funpow 8 by (rule crc_bits_low_zero) (simp add: bit_push_bit_iff)
  also have "\<dots> = ucast h"
    by (rule bit_word_eqI) (auto simp: bit_simps dest: bit_imp_le_length)
  finally show ?thesis .
qed

section \<open>The loop computes the CRC\<close>

definition crc_join :: "UCHAR \<times> UCHAR \<Rightarrow> USHORT" where
  "crc_join s = push_bit 8 (ucast (fst s)) OR ucast (snd s)"

lemma crc_join_xor: "crc_join s = push_bit 8 (ucast (fst s)) XOR ucast (snd s)"
  unfolding crc_join_def by (rule bit_word_eqI) (auto simp: bit_simps dest: bit_imp_le_length)

lemma crc_join_inj: "crc_join s = crc_join t \<longleftrightarrow> s = t"
proof
  assume eq: "crc_join s = crc_join t"
  have "bit (fst s) n = bit (fst t) n" if "n < 8" for n
    using arg_cong[OF eq, of "\<lambda>w. bit w (n + 8)"] that
    by (auto simp: crc_join_def bit_simps dest: bit_imp_le_length)
  moreover have "bit (snd s) n = bit (snd t) n" if "n < 8" for n
    using arg_cong[OF eq, of "\<lambda>w. bit w n"] that by (simp add: crc_join_def bit_simps)
  ultimately show "s = t" by (auto simp: prod_eq_iff intro!: bit_word_eqI)
qed simp

lemma crc_round_byte: "crc_join (crc_round s b) = crc_byte (crc_join s XOR ucast b)"
proof -
  let ?i = "snd s XOR b"
  have "crc_join s XOR ucast b = push_bit 8 (ucast (fst s)) XOR ucast ?i"
    by (simp add: crc_join_xor xor.assoc unsigned_xor_eq)
  then have "crc_byte (crc_join s XOR ucast b) =
      ucast (fst s) XOR (push_bit 8 (ucast (aucCRCLo ! unat ?i)) OR ucast (aucCRCHi ! unat ?i))"
    by (simp add: crc_byte_xor crc_byte_high crc_table_index)
  also have "\<dots> = crc_join (crc_round s b)"
    by (rule bit_word_eqI) (auto simp: crc_join_def crc_round_def Let_def bit_simps dest: bit_imp_le_length)
  finally show ?thesis ..
qed

lemma crc_loop_join:
  "crc_join (foldl crc_round s frame) = foldl (\<lambda>c b. crc_byte (c XOR ucast b)) (crc_join s) frame"
  by (induction frame arbitrary: s) (simp_all add: crc_round_byte)

lemma usMBCRC16_join: "usMBCRC16 frame = crc_join (foldl crc_round (0xFF, 0xFF) frame)"
  by (simp add: usMBCRC16_def crc_join_def Let_def)

lemma usMBCRC16_bitwise: "usMBCRC16 frame = crc16_modbus frame"
  by (simp add: usMBCRC16_join crc_loop_join crc16_modbus_def) (simp add: crc_join_def)

lemma usMBCRC16_snoc: "usMBCRC16 (frame @ [b]) = crc_byte (usMBCRC16 frame XOR ucast b)"
  by (simp add: usMBCRC16_bitwise crc16_modbus_def)

text \<open>Continuing the loop from two states keeps them apart, and one state forced by two bytes splits.\<close>

lemma crc_fold_inj:
  "foldl (\<lambda>c b. crc_byte (c XOR ucast (b :: UCHAR))) c ys = foldl (\<lambda>c b. crc_byte (c XOR ucast b)) d ys
     \<longleftrightarrow> c = d"
proof (induction ys arbitrary: c d)
  case (Cons y ys)
  have "c XOR ucast y = d XOR ucast y \<longleftrightarrow> c = d"
    by (simp add: word_xor_move xor.assoc)
  then show ?case using Cons.IH by (simp add: crc_byte_inj)
qed simp

lemma ucast_byte_inj: "(ucast (a :: UCHAR) :: USHORT) = ucast b \<longleftrightarrow> a = b"
proof
  assume "(ucast a :: USHORT) = ucast b"
  from arg_cong[OF this, of "ucast :: USHORT \<Rightarrow> UCHAR"] show "a = b"
    by (simp add: ucast_up_ucast_id is_up)
qed simp

lemma crc_appended_zero:
  "usMBCRC16 (frame @ [lo, hi]) = 0 \<longleftrightarrow>
   lo = ucast (usMBCRC16 frame) \<and> hi = ucast (drop_bit 8 (usMBCRC16 frame))"
proof -
  let ?c = "usMBCRC16 frame"
  have "usMBCRC16 (frame @ [lo, hi]) = crc_byte (crc_byte (?c XOR ucast lo) XOR ucast hi)"
    using usMBCRC16_snoc[of "frame @ [lo]" hi] by (simp add: usMBCRC16_snoc)
  also have "\<dots> = 0 \<longleftrightarrow> crc_byte (?c XOR ucast lo) = ucast hi"
    by (metis crc_byte_0 crc_byte_eq_0 word_xor_eq_0 xor_self_eq)
  also have "\<dots> \<longleftrightarrow> ?c XOR ucast lo = push_bit 8 (ucast hi)"
    by (metis crc_byte_high crc_byte_inj)
  also have "\<dots> \<longleftrightarrow> ?c = crc_join (hi, lo)"
    by (simp add: word_xor_move crc_join_xor)
  also have "\<dots> \<longleftrightarrow> lo = ucast ?c \<and> hi = ucast (drop_bit 8 ?c)"
    using crc_join_inj[of "(ucast (drop_bit 8 ?c), ucast ?c)" "(hi, lo)"]
    by (auto simp: crc_join_def byte_split_join)
  finally show ?thesis .
qed

section \<open>Properties\<close>

text \<open>C22: the table-driven CRC of the RTU receiver and transmitter is CRC-16/Modbus: on every frame
  it equals the bit-by-bit computation with the reflected polynomial 0xA001 and the initial value
  0xFFFF.\<close>

theorem usMBCRC16_is_crc16_modbus: "usMBCRC16 frame = crc16_modbus frame"
  by (rule usMBCRC16_bitwise)

text \<open>Fact: the acceptance test of the receiver is exact: a frame extended by two bytes has CRC zero
  if and only if the two bytes are the low and the high byte of the CRC of the frame, in that
  order.\<close>

theorem crc_check_iff:
  "usMBCRC16 (frame @ [lo, hi]) = 0 \<longleftrightarrow>
   lo = ucast (usMBCRC16 frame) \<and> hi = ucast (drop_bit 8 (usMBCRC16 frame))"
  by (rule crc_appended_zero)

text \<open>C30: every error confined to one byte is detected: two frames that differ in exactly one
  byte have different CRCs, so at most one of them passes the acceptance test.\<close>

theorem crc_detects_single_byte_error:
  assumes "a \<noteq> b"
  shows "usMBCRC16 (xs @ [a] @ ys) \<noteq> usMBCRC16 (xs @ [b] @ ys)"
proof -
  have "crc16_modbus xs XOR ucast a \<noteq> crc16_modbus xs XOR ucast b"
    using assms by (simp add: word_xor_cancel ucast_byte_inj)
  then show ?thesis
    by (simp add: usMBCRC16_bitwise crc16_modbus_def crc_fold_inj crc_byte_inj)
qed

theorem crc_detects_single_byte_error_witness:
  "usMBCRC16 ([1, 3] @ [0x60] @ [0x20, 0, 1]) \<noteq> usMBCRC16 ([1, 3] @ [0x61] @ [0x20, 0, 1])"
  by (rule crc_detects_single_byte_error) simp

end
