(* ===== verification/MbPort.thy ===== *)
theory MbPort
  imports MbFunc Crc
begin

text \<open>
  The protocol-stack context \<open>fmodbus_t\<close> (\<open>modbus/include/mbctx.h\<close>, the fields of the RTU mode) and
  the Linux port layer: the one-slot event queue (\<open>portevent.c\<close>), the inter-frame timer
  (\<open>porttimer.c\<close>) and the serial driver (\<open>portserial.c\<close>). What the operating system answers to
  \<open>select\<close>, \<open>read\<close>, \<open>write\<close>, \<open>gettimeofday\<close>, \<open>open\<close> and the termios calls is an argument. Pointers
  into \<open>ucRTUBuf\<close> are offsets.
\<close>

section \<open>Context\<close>

datatype eMBMode = MB_RTU | MB_ASCII | MB_TCP

datatype eMBParity = MB_PAR_NONE | MB_PAR_ODD | MB_PAR_EVEN

datatype eMBRcvState = STATE_RX_INIT | STATE_RX_IDLE | STATE_RX_RCV | STATE_RX_ERROR

datatype eMBSndState = STATE_TX_IDLE | STATE_TX_XMIT

datatype eMBEventType = EV_READY | EV_FRAME_RECEIVED | EV_EXECUTE | EV_FRAME_SENT

datatype mbstate = STATE_ENABLED | STATE_DISABLED | STATE_NOT_INITIALIZED

type_synonym ULONG = "64 word"

record fmodbus_t =
  mbsidx :: int
  eMBCurrentMode :: eMBMode
  ucMBAddress :: UCHAR
  szPort :: string
  ulBaudRate :: ULONG
  eParity :: eMBParity
  ucDataBits :: UCHAR
  iSerialFd :: int
  bRxEnabled :: bool
  bTxEnabled :: bool
  ulTimeoutMs :: ULONG
  ucBuffer :: "UCHAR list"
  uiRxBufferPos :: nat
  uiTxBufferPos :: nat
  ulTimeOut :: ULONG
  bTimeoutEnable :: bool
  xTimeLast :: timeval
  ucMBSlaveID :: "UCHAR list"
  eMBState :: mbstate
  ucMBFrame :: "nat option"
  ucRcvAddress :: UCHAR
  ucFunctionCode :: UCHAR
  usLength :: USHORT
  eException :: eMBException
  eQueuedEvent :: eMBEventType
  xEventInQueue :: bool
  eSndState :: eMBSndState
  eRcvState :: eMBRcvState
  ucRTUBuf :: "UCHAR list"
  pucSndBufferCur :: nat
  usSndBufferCount :: USHORT
  usRcvBufferPos :: USHORT

definition BUF_SIZE :: nat where
  "BUF_SIZE = 256"

section \<open>Events\<close>

definition xMBPortEventInit :: "fmodbus_t \<Rightarrow> fmodbus_t" where
  "xMBPortEventInit ctx = ctx\<lparr>xEventInQueue := False\<rparr>"

definition xMBPortEventPost :: "fmodbus_t \<Rightarrow> eMBEventType \<Rightarrow> fmodbus_t" where
  "xMBPortEventPost ctx ev = ctx\<lparr>xEventInQueue := True, eQueuedEvent := ev\<rparr>"

section \<open>Timers\<close>

definition xMBPortSerialSetTimeout :: "fmodbus_t \<Rightarrow> ULONG \<Rightarrow> fmodbus_t" where
  "xMBPortSerialSetTimeout ctx t = ctx\<lparr>ulTimeoutMs := (if t > 0 then t else 1)\<rparr>"

definition xMBPortTimersInit :: "fmodbus_t \<Rightarrow> USHORT \<Rightarrow> fmodbus_t" where
  "xMBPortTimersInit ctx usTim1Timerout50us =
     (let t = ucast (usTim1Timerout50us div 20) :: ULONG;
          t' = if t = 0 then 1 else t
      in xMBPortSerialSetTimeout (ctx\<lparr>ulTimeOut := t'\<rparr>) t')"

definition vMBPortTimersEnable :: "timeval option \<Rightarrow> fmodbus_t \<Rightarrow> fmodbus_t res" where
  "vMBPortTimersEnable now ctx =
     (case now of
        None \<Rightarrow> Inl Assert_failed
      | Some tv \<Rightarrow> Inr (ctx\<lparr>xTimeLast := tv, bTimeoutEnable := True\<rparr>))"

definition vMBPortTimersDisable :: "fmodbus_t \<Rightarrow> fmodbus_t" where
  "vMBPortTimersDisable ctx = ctx\<lparr>bTimeoutEnable := False\<rparr>"

text \<open>
  The elapsed time of \<open>vMBPortTimerPoll\<close>: seconds and microseconds are both scaled by 1000 and the
  signed sum is converted to an unsigned 64-bit number.
\<close>

definition ulDeltaMS :: "timeval \<Rightarrow> timeval \<Rightarrow> ULONG" where
  "ulDeltaMS cur tlast = word_of_int ((fst cur - fst tlast) * 1000 + (snd cur - snd tlast) * 1000)"

definition vMBPortTimerPoll ::
  "(fmodbus_t \<Rightarrow> fmodbus_t res) \<Rightarrow> timeval option \<Rightarrow> fmodbus_t \<Rightarrow> fmodbus_t res" where
  "vMBPortTimerPoll expired now ctx =
     (if bTimeoutEnable ctx then
        (case now of
           None \<Rightarrow> Inr ctx
         | Some tv \<Rightarrow>
             if ulDeltaMS tv (xTimeLast ctx) > ulTimeOut ctx
             then expired (ctx\<lparr>bTimeoutEnable := False\<rparr>) else Inr ctx)
      else Inr ctx)"

section \<open>Serial port\<close>

definition vMBPortSerialEnable :: "fmodbus_t \<Rightarrow> bool \<Rightarrow> bool \<Rightarrow> fmodbus_t res" where
  "vMBPortSerialEnable ctx rx tx =
     (if rx \<and> tx then Inl Assert_failed
      else let c1 = (if rx then ctx\<lparr>uiRxBufferPos := 0, bRxEnabled := True\<rparr>
                     else ctx\<lparr>bRxEnabled := False\<rparr>)
           in Inr (if tx then c1\<lparr>bTxEnabled := True, uiTxBufferPos := 0\<rparr>
                   else c1\<lparr>bTxEnabled := False\<rparr>))"

text \<open>
  Outcomes of the system calls of \<open>xMBPortSerialInit\<close>. An \<open>open\<close> or termios failure is logged, and the
  status stays \<open>TRUE\<close>.
\<close>

record serial_os =
  os_open :: int
  os_tcgetattr :: bool
  os_cfsetispeed :: bool
  os_cfsetospeed :: bool
  os_tcsetattr :: bool

definition xMBPortSerialInit :: "serial_os \<Rightarrow> fmodbus_t \<Rightarrow> (bool \<times> fmodbus_t) res" where
  "xMBPortSerialInit os ctx =
     (let c1 = ctx\<lparr>iSerialFd := os_open os\<rparr>
      in if os_open os < 0 then Inr (True, c1)
         else if \<not> os_tcgetattr os then Inr (True, c1)
         else let bStatus = ((ucDataBits c1 = 8 \<or> ucDataBits c1 = 7) \<and>
                   ulBaudRate c1 \<in> set [9600, 19200, 38400, 57600, 115200])
              in if \<not> bStatus then Inr (False, c1)
                 else if \<not> os_cfsetispeed os then Inr (True, c1)
                 else if \<not> os_cfsetospeed os then Inr (True, c1)
                 else if \<not> os_tcsetattr os then Inr (True, c1)
                 else bind_res (vMBPortSerialEnable c1 False False) (\<lambda>c2. Inr (True, c2)))"

definition vMBPortClose :: "fmodbus_t \<Rightarrow> fmodbus_t" where
  "vMBPortClose ctx = (if iSerialFd ctx \<noteq> -1 then ctx\<lparr>iSerialFd := -1\<rparr> else ctx)"

definition xMBPortSerialPutByte :: "fmodbus_t \<Rightarrow> UCHAR \<Rightarrow> fmodbus_t res" where
  "xMBPortSerialPutByte ctx b =
     (if uiTxBufferPos ctx < BUF_SIZE
      then Inr (ctx\<lparr>ucBuffer := (ucBuffer ctx)[uiTxBufferPos ctx := b],
                    uiTxBufferPos := uiTxBufferPos ctx + 1\<rparr>)
      else Inl Assert_failed)"

definition xMBPortSerialGetByte :: "fmodbus_t \<Rightarrow> (UCHAR \<times> fmodbus_t) res" where
  "xMBPortSerialGetByte ctx =
     (if uiRxBufferPos ctx < BUF_SIZE
      then Inr (ucBuffer ctx ! uiRxBufferPos ctx, ctx\<lparr>uiRxBufferPos := uiRxBufferPos ctx + 1\<rparr>)
      else Inl Assert_failed)"

text \<open>
  The answers of \<open>select\<close> and \<open>read\<close>, in order; each received byte carries the clock reading made while it is
  processed. A list that is used up stands for a silent line: every further \<open>select\<close> times out.
\<close>

datatype sel_result =
    Sel_intr | Sel_error | Sel_timeout | Read_error | Read_ok "(timeval option \<times> UCHAR) list"

fun prvbMBPortSerialRead ::
  "sel_result list \<Rightarrow> bool \<times> (timeval option \<times> UCHAR) list \<times> sel_result list" where
  "prvbMBPortSerialRead [] = (True, [], [])"
| "prvbMBPortSerialRead (Sel_intr # rs) = prvbMBPortSerialRead rs"
| "prvbMBPortSerialRead (Sel_error # rs) = (False, [], rs)"
| "prvbMBPortSerialRead (Sel_timeout # rs) = (True, [], rs)"
| "prvbMBPortSerialRead (Read_error # rs) = (False, [], rs)"
| "prvbMBPortSerialRead (Read_ok bs # rs) = (True, bs, rs)"

lemma serial_read_shorter:
  "prvbMBPortSerialRead rs = (ok, bs, rs') \<Longrightarrow> rs \<noteq> [] \<Longrightarrow> length rs' < length rs"
proof (induction rs rule: prvbMBPortSerialRead.induct)
  case (2 rs)
  then show ?case by (cases rs) auto
qed auto

text \<open>The answers of \<open>write\<close>: interrupted, failed, or a number of bytes taken.\<close>

datatype write_result = Write_intr | Write_error | Wrote nat

fun prvbMBPortSerialWrite :: "write_result list \<Rightarrow> UCHAR list \<Rightarrow> bool \<times> UCHAR list" where
  "prvbMBPortSerialWrite rs [] = (True, [])"
| "prvbMBPortSerialWrite [] bs = (True, bs)"
| "prvbMBPortSerialWrite (Write_intr # rs) bs = prvbMBPortSerialWrite rs bs"
| "prvbMBPortSerialWrite (Write_error # rs) bs = (False, [])"
| "prvbMBPortSerialWrite (Wrote n # rs) bs =
     (case prvbMBPortSerialWrite rs (drop n bs) of (ok, out) \<Rightarrow> (ok, take n bs @ out))"

end
