(* ===== verification/MbRtu.thy ===== *)
theory MbRtu
  imports MbPort
begin

text \<open>
  The RTU transport of \<open>modbus/rtu/mbrtu.c\<close>: initialisation of the inter-frame time, start and stop,
  the receiver and transmitter state machines, frame reception with the length and CRC check,
  frame transmission, and the polling of the serial line that drives them (\<open>xMBPortSerialPoll\<close> of
  \<open>portserial.c\<close>, \<open>xMBPortEventGet\<close> of \<open>portevent.c\<close>). The invariant \<open>rtu_inv\<close> relates receiver,
  transmitter, timer and event slot.
\<close>

section \<open>Operations\<close>

definition MB_SER_PDU_SIZE_MIN :: nat where
  "MB_SER_PDU_SIZE_MIN = 4"

definition MB_SER_PDU_SIZE_MAX :: nat where
  "MB_SER_PDU_SIZE_MAX = 256"

definition usTimerT35_50us :: "ULONG \<Rightarrow> ULONG res" where
  "usTimerT35_50us baud =
     (if baud > 19200 then Inr 35
      else if 2 * baud = 0 then Inl Division_by_zero
      else Inr ((7 * 220000) div (2 * baud)))"

definition eMBRTUInit :: "serial_os \<Rightarrow> fmodbus_t \<Rightarrow> (eMBErrorCode \<times> fmodbus_t) res" where
  "eMBRTUInit os ctx =
     bind_res (xMBPortSerialInit os ctx) (\<lambda>(ok, c1).
       if \<not> ok then Inr (MB_EPORTERR, c1)
       else bind_res (usTimerT35_50us (ulBaudRate c1)) (\<lambda>t.
              Inr (MB_ENOERR, xMBPortTimersInit c1 (ucast t))))"

definition eMBRTUStart :: "timeval option \<Rightarrow> fmodbus_t \<Rightarrow> fmodbus_t res" where
  "eMBRTUStart now ctx =
     bind_res (vMBPortSerialEnable (ctx\<lparr>eRcvState := STATE_RX_INIT\<rparr>) True False)
       (vMBPortTimersEnable now)"

definition eMBRTUStop :: "fmodbus_t \<Rightarrow> fmodbus_t res" where
  "eMBRTUStop ctx =
     bind_res (vMBPortSerialEnable ctx False False) (\<lambda>c. Inr (vMBPortTimersDisable c))"

definition eMBRTUReceive :: "fmodbus_t \<Rightarrow> (eMBErrorCode \<times> fmodbus_t) res" where
  "eMBRTUReceive ctx =
     (if unat (usRcvBufferPos ctx) < MB_SER_PDU_SIZE_MAX then
        (if unat (usRcvBufferPos ctx) \<ge> MB_SER_PDU_SIZE_MIN \<and>
            usMBCRC16 (take (unat (usRcvBufferPos ctx)) (ucRTUBuf ctx)) = 0
         then Inr (MB_ENOERR, ctx\<lparr>ucRcvAddress := ucRTUBuf ctx ! 0,
                     usLength := usRcvBufferPos ctx - 1 - 2, ucMBFrame := Some 1\<rparr>)
         else Inr (MB_EIO, ctx))
      else Inl Assert_failed)"

definition eMBRTUSend :: "fmodbus_t \<Rightarrow> UCHAR \<Rightarrow> nat \<Rightarrow> USHORT \<Rightarrow> (eMBErrorCode \<times> fmodbus_t) res" where
  "eMBRTUSend ctx ucSlaveAddress pucFrame len =
     (if eRcvState ctx = STATE_RX_IDLE then
        (let cur = pucFrame - 1; count = 1 + len
         in bind_res (buf_put (ucRTUBuf ctx) cur ucSlaveAddress) (\<lambda>buf.
            let usCRC16 = usMBCRC16 (take (unat count) (drop cur buf))
            in bind_res (buf_put buf (unat count) (ucast (usCRC16 AND 0xFF))) (\<lambda>buf1.
               bind_res (buf_put buf1 (unat (count + 1)) (ucast (drop_bit 8 usCRC16))) (\<lambda>buf2.
               bind_res (vMBPortSerialEnable
                 (ctx\<lparr>pucSndBufferCur := cur, usSndBufferCount := count + 2, ucRTUBuf := buf2,
                      eSndState := STATE_TX_XMIT\<rparr>) False True)
                 (\<lambda>c. Inr (MB_ENOERR, c))))))
      else Inr (MB_EIO, ctx))"

definition rtu_store :: "fmodbus_t \<Rightarrow> UCHAR \<Rightarrow> fmodbus_t res" where
  "rtu_store ctx b =
     bind_res (buf_put (ucRTUBuf ctx) (unat (usRcvBufferPos ctx)) b) (\<lambda>buf.
       Inr (ctx\<lparr>ucRTUBuf := buf, usRcvBufferPos := usRcvBufferPos ctx + 1\<rparr>))"

definition xMBRTUReceiveFSM :: "timeval option \<Rightarrow> fmodbus_t \<Rightarrow> fmodbus_t res" where
  "xMBRTUReceiveFSM now ctx =
     (if eSndState ctx \<noteq> STATE_TX_IDLE then Inl Assert_failed
      else bind_res (xMBPortSerialGetByte ctx) (\<lambda>(ucByte, c).
        case eRcvState c of
          STATE_RX_INIT \<Rightarrow> vMBPortTimersEnable now c
        | STATE_RX_ERROR \<Rightarrow> vMBPortTimersEnable now c
        | STATE_RX_IDLE \<Rightarrow>
            bind_res (rtu_store (c\<lparr>usRcvBufferPos := 0\<rparr>) ucByte) (\<lambda>c1.
              vMBPortTimersEnable now (c1\<lparr>eRcvState := STATE_RX_RCV\<rparr>))
        | STATE_RX_RCV \<Rightarrow>
            if unat (usRcvBufferPos c) < MB_SER_PDU_SIZE_MAX
            then bind_res (rtu_store c ucByte) (vMBPortTimersEnable now)
            else vMBPortTimersEnable now (c\<lparr>eRcvState := STATE_RX_ERROR\<rparr>)))"

definition xMBRTUTransmitFSM :: "fmodbus_t \<Rightarrow> fmodbus_t res" where
  "xMBRTUTransmitFSM ctx =
     (if eRcvState ctx \<noteq> STATE_RX_IDLE then Inl Assert_failed
      else case eSndState ctx of
        STATE_TX_IDLE \<Rightarrow> vMBPortSerialEnable ctx True False
      | STATE_TX_XMIT \<Rightarrow>
          if usSndBufferCount ctx \<noteq> 0
          then bind_res (buf_get (ucRTUBuf ctx) (pucSndBufferCur ctx)) (\<lambda>b.
               bind_res (xMBPortSerialPutByte ctx b) (\<lambda>c.
                 Inr (c\<lparr>pucSndBufferCur := pucSndBufferCur c + 1,
                        usSndBufferCount := usSndBufferCount c - 1\<rparr>)))
          else bind_res (vMBPortSerialEnable (xMBPortEventPost ctx EV_FRAME_SENT) True False) (\<lambda>c.
                 Inr (c\<lparr>eSndState := STATE_TX_IDLE\<rparr>)))"

definition xMBRTUTimerT35Expired :: "fmodbus_t \<Rightarrow> fmodbus_t res" where
  "xMBRTUTimerT35Expired ctx =
     bind_res (case eRcvState ctx of
         STATE_RX_INIT \<Rightarrow> Inr (xMBPortEventPost ctx EV_READY)
       | STATE_RX_RCV \<Rightarrow> Inr (xMBPortEventPost ctx EV_FRAME_RECEIVED)
       | STATE_RX_ERROR \<Rightarrow> Inr ctx
       | STATE_RX_IDLE \<Rightarrow> Inl Assert_failed)
       (\<lambda>c. Inr ((vMBPortTimersDisable c)\<lparr>eRcvState := STATE_RX_IDLE\<rparr>))"

section \<open>Polling the line\<close>

fun rx_bytes :: "timeval option list \<Rightarrow> fmodbus_t \<Rightarrow> fmodbus_t res" where
  "rx_bytes [] ctx = Inr ctx"
| "rx_bytes (now # nows) ctx = bind_res (xMBRTUReceiveFSM now ctx) (rx_bytes nows)"

text \<open>A chunk of received bytes is stored at the start of \<open>ucBuffer\<close> and handed over byte by byte.\<close>

definition rx_chunk :: "(timeval option \<times> UCHAR) list \<Rightarrow> fmodbus_t \<Rightarrow> fmodbus_t res" where
  "rx_chunk bs ctx =
     bind_res (rx_bytes (map fst bs)
         (ctx\<lparr>ucBuffer := map snd bs @ drop (length bs) (ucBuffer ctx)\<rparr>))
       (\<lambda>c. Inr (c\<lparr>uiRxBufferPos := 0\<rparr>))"

function rx_loop :: "sel_result list \<Rightarrow> fmodbus_t \<Rightarrow> fmodbus_t res" where
  "rx_loop rs ctx =
     (if \<not> bRxEnabled ctx \<or> rs = [] then Inr ctx
      else case prvbMBPortSerialRead rs of
        (True, [], rs') \<Rightarrow> Inr ctx
      | (True, bs, rs') \<Rightarrow> bind_res (rx_chunk bs ctx) (rx_loop rs')
      | (False, bs, rs') \<Rightarrow> rx_loop rs' ctx)"
  by pat_completeness auto

termination
  by (relation "measure (\<lambda>(rs, _). length rs)")
    (auto dest: serial_read_shorter[OF sym] serial_read_shorter)

text \<open>Every transmitter step sends a byte or switches the transmitter off.\<close>

lemma transmit_decreases:
  assumes "xMBRTUTransmitFSM ctx = Inr c" "bTxEnabled ctx"
  shows "unat (usSndBufferCount c) + (if bTxEnabled c then 1 else 0) < unat (usSndBufferCount ctx) + 1"
proof -
  have "unat (usSndBufferCount ctx - 1) = unat (usSndBufferCount ctx) - 1" if "usSndBufferCount ctx \<noteq> 0"
    using that by (simp add: unat_minus_one)
  moreover have "0 < unat (usSndBufferCount ctx)" if "usSndBufferCount ctx \<noteq> 0"
    using that by (simp add: unat_gt_0)
  ultimately show ?thesis
    using assms by (auto simp: xMBRTUTransmitFSM_def vMBPortSerialEnable_def xMBPortSerialPutByte_def
        xMBPortEventPost_def bind_res_eq_Inr Let_def split: if_splits eMBSndState.splits)
qed

function tx_loop :: "fmodbus_t \<Rightarrow> fmodbus_t res" where
  "tx_loop ctx = (if bTxEnabled ctx then bind_res (xMBRTUTransmitFSM ctx) tx_loop else Inr ctx)"
  by pat_completeness auto

termination
  by (relation "measure (\<lambda>ctx. unat (usSndBufferCount ctx) + (if bTxEnabled ctx then 1 else 0))")
    (auto dest: transmit_decreases split: if_splits)

declare rx_loop.simps [simp del] tx_loop.simps [simp del]

text \<open>
  What the operating system answers during one poll: the reads, the writes and the clock of the timer
  check. The result carries the bytes put on the line.
\<close>

record poll_os =
  os_reads :: "sel_result list"
  os_writes :: "write_result list"
  os_now :: "timeval option"

definition xMBPortSerialPoll :: "poll_os \<Rightarrow> fmodbus_t \<Rightarrow> (fmodbus_t \<times> UCHAR list) res" where
  "xMBPortSerialPoll os ctx =
     bind_res (rx_loop (os_reads os) ctx) (\<lambda>c.
       if bTxEnabled c
       then bind_res (tx_loop c) (\<lambda>c'.
              Inr (c', snd (prvbMBPortSerialWrite (os_writes os) (take (uiTxBufferPos c') (ucBuffer c')))))
       else Inr (c, []))"

text \<open>The serial branch: a context in RTU mode never has the TCP pseudo address 255.\<close>

definition xMBPortEventGet ::
  "poll_os \<Rightarrow> fmodbus_t \<Rightarrow> (eMBEventType option \<times> fmodbus_t \<times> UCHAR list) res" where
  "xMBPortEventGet os ctx =
     (if xEventInQueue ctx then Inr (Some (eQueuedEvent ctx), ctx\<lparr>xEventInQueue := False\<rparr>, [])
      else bind_res (xMBPortSerialPoll os ctx) (\<lambda>(c, out).
           bind_res (vMBPortTimerPoll xMBRTUTimerT35Expired (os_now os) c) (\<lambda>c'.
             Inr (None, c', out))))"

section \<open>Invariant\<close>

text \<open>
  Receiver and transmitter exclude each other; an enabled transmitter has a complete frame before it and an idle
  receiver; the inter-frame timer runs only outside the idle state; the receive position stays in the
  buffer; a queued event fits the receiver state.
\<close>

definition rx_side :: "fmodbus_t \<Rightarrow> bool" where
  "rx_side ctx \<longleftrightarrow> bRxEnabled ctx \<and> \<not> bTxEnabled ctx \<and> eSndState ctx = STATE_TX_IDLE \<and>
     uiRxBufferPos ctx = 0"

definition tx_side :: "fmodbus_t \<Rightarrow> bool" where
  "tx_side ctx \<longleftrightarrow> bTxEnabled ctx \<and> \<not> bRxEnabled ctx \<and> eSndState ctx = STATE_TX_XMIT \<and>
     eRcvState ctx = STATE_RX_IDLE \<and> uiTxBufferPos ctx = pucSndBufferCur ctx \<and>
     pucSndBufferCur ctx + unat (usSndBufferCount ctx) \<le> 256"

definition rtu_bufs :: "fmodbus_t \<Rightarrow> bool" where
  "rtu_bufs ctx \<longleftrightarrow> length (ucRTUBuf ctx) = 256 \<and> length (ucBuffer ctx) = 256 \<and>
     (eRcvState ctx = STATE_RX_RCV \<longrightarrow> unat (usRcvBufferPos ctx) \<le> 256)"

definition rtu_event :: "fmodbus_t \<Rightarrow> bool" where
  "rtu_event ctx \<longleftrightarrow> (xEventInQueue ctx \<longrightarrow>
     rx_side ctx \<and> eRcvState ctx = STATE_RX_IDLE \<and> \<not> bTimeoutEnable ctx \<and>
     (eQueuedEvent ctx = EV_EXECUTE \<longrightarrow> ucMBFrame ctx = Some 1 \<and> unat (usLength ctx) \<le> 253))"

definition rtu_inv :: "fmodbus_t \<Rightarrow> bool" where
  "rtu_inv ctx \<longleftrightarrow> rtu_bufs ctx \<and> (rx_side ctx \<or> tx_side ctx) \<and>
     (bTimeoutEnable ctx \<longleftrightarrow> eRcvState ctx \<noteq> STATE_RX_IDLE) \<and> rtu_event ctx"

text \<open>The operating system delivers at most a buffer per read, and the clock can be read.\<close>

definition sel_ok :: "sel_result \<Rightarrow> bool" where
  "sel_ok r = (case r of Read_ok bs \<Rightarrow> length bs \<le> 256 \<and> list_all (\<lambda>b. fst b \<noteq> None) bs | _ \<Rightarrow> True)"

section \<open>The receiver keeps the invariant\<close>

text \<open>The state while a chunk is being handed over: as \<open>rtu_inv\<close>, without an event, the read position free.\<close>

definition rx_run :: "fmodbus_t \<Rightarrow> bool" where
  "rx_run ctx \<longleftrightarrow> rtu_bufs ctx \<and> bRxEnabled ctx \<and> \<not> bTxEnabled ctx \<and> eSndState ctx = STATE_TX_IDLE \<and>
     (bTimeoutEnable ctx \<longleftrightarrow> eRcvState ctx \<noteq> STATE_RX_IDLE) \<and> \<not> xEventInQueue ctx"

lemma pos_inc:
  fixes p :: USHORT
  shows "unat p < 256 \<Longrightarrow> unat (p + 1) = unat p + 1"
  using uint16_add_no_wrap[of p 1] by simp

lemma receive_run:
  assumes "rx_run ctx" "uiRxBufferPos ctx < 256" "now \<noteq> None"
  shows "\<exists>c. xMBRTUReceiveFSM now ctx = Inr c \<and> rx_run c \<and> uiRxBufferPos c = uiRxBufferPos ctx + 1"
  using assms
  by (auto simp: xMBRTUReceiveFSM_def rx_run_def rtu_bufs_def xMBPortSerialGetByte_def BUF_SIZE_def
      vMBPortTimersEnable_def rtu_store_def buf_put_def MB_SER_PDU_SIZE_MAX_def pos_inc
      split: eMBRcvState.splits option.splits)

lemma rx_bytes_run:
  "rx_run ctx \<Longrightarrow> uiRxBufferPos ctx + length nows \<le> 256 \<Longrightarrow> list_all (\<lambda>t. t \<noteq> None) nows \<Longrightarrow>
   \<exists>c. rx_bytes nows ctx = Inr c \<and> rx_run c"
proof (induction nows arbitrary: ctx)
  case (Cons now nows)
  obtain c where "xMBRTUReceiveFSM now ctx = Inr c" "rx_run c" "uiRxBufferPos c = uiRxBufferPos ctx + 1"
    using receive_run[of ctx now] Cons.prems by auto
  then show ?case using Cons.IH[of c] Cons.prems by auto
qed simp

lemma rx_chunk_run:
  assumes "rx_run ctx" "uiRxBufferPos ctx = 0" "length bs \<le> 256" "list_all (\<lambda>b. fst b \<noteq> None) bs"
  shows "\<exists>c. rx_chunk bs ctx = Inr c \<and> rx_run c \<and> uiRxBufferPos c = 0"
proof -
  let ?c = "ctx\<lparr>ucBuffer := map snd bs @ drop (length bs) (ucBuffer ctx)\<rparr>"
  have "rx_run ?c" using assms by (simp add: rx_run_def rtu_bufs_def)
  then obtain c where c: "rx_bytes (map fst bs) ?c = Inr c" "rx_run c"
    using rx_bytes_run[of ?c "map fst bs"] assms by (auto simp: list_all_iff)
  have "rx_run (c\<lparr>uiRxBufferPos := 0\<rparr>)" using c(2) by (simp add: rx_run_def rtu_bufs_def)
  then show ?thesis using c(1) by (simp add: rx_chunk_def)
qed

lemma serial_read_ok:
  "prvbMBPortSerialRead rs = (ok, bs, rs') \<Longrightarrow> list_all sel_ok rs \<Longrightarrow>
   list_all sel_ok rs' \<and> length bs \<le> 256 \<and> list_all (\<lambda>b. fst b \<noteq> None) bs"
  by (induction rs rule: prvbMBPortSerialRead.induct) (auto simp: sel_ok_def)

lemma rx_loop_run:
  "rx_run ctx \<Longrightarrow> uiRxBufferPos ctx = 0 \<Longrightarrow> list_all sel_ok rs \<Longrightarrow>
   \<exists>c. rx_loop rs ctx = Inr c \<and> rx_run c \<and> uiRxBufferPos c = 0"
proof (induction "length rs" arbitrary: rs ctx rule: less_induct)
  case less
  show ?case
  proof (cases "rs = []")
    case True
    then show ?thesis using less.prems by (simp add: rx_loop.simps)
  next
    case False
    obtain ok bs rs' where r: "prvbMBPortSerialRead rs = (ok, bs, rs')" by (metis prod_cases3)
    have rs': "length rs' < length rs" "list_all sel_ok rs'" "length bs \<le> 256"
      "list_all (\<lambda>b. fst b \<noteq> None) bs"
      using serial_read_shorter[OF r False] serial_read_ok[OF r less.prems(3)] by auto
    have rx: "bRxEnabled ctx" using less.prems(1) by (simp add: rx_run_def)
    obtain c where c: "rx_chunk bs ctx = Inr c" "rx_run c" "uiRxBufferPos c = 0"
      using rx_chunk_run[OF less.prems(1,2) rs'(3,4)] by blast
    show ?thesis
      using less.hyps[OF rs'(1) c(2,3) rs'(2)] less.hyps[OF rs'(1) less.prems(1,2) rs'(2)]
        less.prems c(1) r rx False
      by (subst rx_loop.simps) (cases ok; cases bs; simp)
  qed
qed

section \<open>The transmitter sends the frame and hands back to the receiver\<close>

text \<open>The context after the frame is out: receiver on, transmitter idle, the event posted.\<close>

lemma tx_loop_sends:
  assumes "tx_side ctx" "rtu_bufs ctx"
  shows "\<exists>c. tx_loop ctx = Inr c \<and>
    take (uiTxBufferPos c) (ucBuffer c) =
      take (uiTxBufferPos ctx) (ucBuffer ctx)
        @ take (unat (usSndBufferCount ctx)) (drop (pucSndBufferCur ctx) (ucRTUBuf ctx)) \<and>
    rx_side c \<and> rtu_bufs c \<and> xEventInQueue c \<and> eQueuedEvent c = EV_FRAME_SENT \<and>
    eRcvState c = STATE_RX_IDLE \<and> bTimeoutEnable c = bTimeoutEnable ctx \<and>
    ucRTUBuf c = ucRTUBuf ctx \<and> ucMBAddress c = ucMBAddress ctx \<and> eMBState c = eMBState ctx \<and>
    mbsidx c = mbsidx ctx \<and> ucMBSlaveID c = ucMBSlaveID ctx"
  using assms
proof (induction "unat (usSndBufferCount ctx)" arbitrary: ctx)
  case 0
  then have z: "usSndBufferCount ctx = 0" by (simp add: unat_eq_zero)
  let ?c = "(xMBPortEventPost ctx EV_FRAME_SENT)\<lparr>uiRxBufferPos := 0, bRxEnabled := True,
    bTxEnabled := False, eSndState := STATE_TX_IDLE\<rparr>"
  have "xMBRTUTransmitFSM ctx = Inr ?c"
    using 0 z by (simp add: xMBRTUTransmitFSM_def tx_side_def vMBPortSerialEnable_def
        xMBPortEventPost_def Let_def)
  then have "tx_loop ctx = Inr ?c"
    using 0 by (subst tx_loop.simps) (simp add: tx_side_def tx_loop.simps)
  then show ?case
    using 0 z by (simp add: rx_side_def tx_side_def rtu_bufs_def xMBPortEventPost_def)
next
  case (Suc n)
  have nz: "usSndBufferCount ctx \<noteq> 0" using Suc.hyps(2) by auto
  have cnt: "unat (usSndBufferCount ctx - 1) = n" using Suc.hyps(2) nz by (simp add: unat_minus_one)
  let ?p = "pucSndBufferCur ctx"
  have p: "?p < 256" "uiTxBufferPos ctx = ?p" using Suc.prems Suc.hyps(2) by (auto simp: tx_side_def)
  let ?c = "ctx\<lparr>ucBuffer := (ucBuffer ctx)[?p := ucRTUBuf ctx ! ?p], uiTxBufferPos := ?p + 1,
    pucSndBufferCur := ?p + 1, usSndBufferCount := usSndBufferCount ctx - 1\<rparr>"
  have step: "xMBRTUTransmitFSM ctx = Inr ?c"
    using Suc.prems nz p by (simp add: xMBRTUTransmitFSM_def tx_side_def rtu_bufs_def buf_get_def
        xMBPortSerialPutByte_def BUF_SIZE_def)
  have inv: "tx_side ?c" "rtu_bufs ?c"
    using Suc.prems Suc.hyps(2) cnt p by (auto simp: tx_side_def rtu_bufs_def)
  have eq: "tx_loop ctx = tx_loop ?c"
    using Suc.prems step by (subst tx_loop.simps) (simp add: tx_side_def)
  have bytes: "take (?p + 1) ((ucBuffer ctx)[?p := ucRTUBuf ctx ! ?p]) @ take n (drop (?p + 1) (ucRTUBuf ctx))
      = take ?p (ucBuffer ctx) @ take (Suc n) (drop ?p (ucRTUBuf ctx))"
    using p Suc.prems by (simp add: rtu_bufs_def take_Suc_conv_app_nth Cons_nth_drop_Suc[symmetric])
  show ?case
    using Suc.hyps(1)[of ?c] inv cnt p Suc.hyps(2) bytes unfolding eq by auto
qed

lemma serial_write_all:
  "list_all (\<lambda>r. r \<noteq> Write_error) ws \<Longrightarrow> prvbMBPortSerialWrite ws bs = (True, bs)"
  by (induction ws bs rule: prvbMBPortSerialWrite.induct) auto

section \<open>One poll of the line keeps the invariant\<close>

lemma timer_poll_inv:
  assumes "rx_run ctx" "uiRxBufferPos ctx = 0"
  shows "\<exists>c. vMBPortTimerPoll xMBRTUTimerT35Expired now ctx = Inr c \<and> rtu_inv c"
  using assms
  by (auto simp: vMBPortTimerPoll_def xMBRTUTimerT35Expired_def rx_run_def rtu_inv_def rx_side_def
      rtu_event_def rtu_bufs_def xMBPortEventPost_def vMBPortTimersDisable_def
      split: option.splits eMBRcvState.splits)

lemma event_get_inv:
  assumes "rtu_inv ctx" "list_all sel_ok (os_reads os)"
  shows "\<exists>ev c out. xMBPortEventGet os ctx = Inr (ev, c, out) \<and> rtu_inv c \<and>
    (ev \<noteq> None \<longrightarrow> xEventInQueue ctx \<and> ev = Some (eQueuedEvent ctx) \<and> c = ctx\<lparr>xEventInQueue := False\<rparr>)"
proof (cases "xEventInQueue ctx")
  case True
  then show ?thesis
    using assms by (simp add: xMBPortEventGet_def rtu_inv_def rtu_event_def rx_side_def tx_side_def rtu_bufs_def)
next
  case False
  show ?thesis
  proof (cases "rx_side ctx")
    case True
    then have "rx_run ctx" "uiRxBufferPos ctx = 0"
      using assms False by (auto simp: rx_run_def rx_side_def rtu_inv_def)
    then obtain c where c: "rx_loop (os_reads os) ctx = Inr c" "rx_run c" "uiRxBufferPos c = 0"
      using rx_loop_run[OF _ _ assms(2)] by blast
    then show ?thesis
      using timer_poll_inv[OF c(2,3), of "os_now os"] False
      by (auto simp: xMBPortEventGet_def xMBPortSerialPoll_def rx_run_def)
  next
    case no: False
    then have tx: "tx_side ctx" "rtu_bufs ctx" "\<not> bTimeoutEnable ctx"
      using assms by (auto simp: rtu_inv_def tx_side_def)
    have "rx_loop (os_reads os) ctx = Inr ctx"
      using tx by (subst rx_loop.simps) (simp add: tx_side_def)
    moreover obtain c where c: "tx_loop ctx = Inr c" "rx_side c" "rtu_bufs c" "xEventInQueue c"
      "eQueuedEvent c = EV_FRAME_SENT" "eRcvState c = STATE_RX_IDLE" "\<not> bTimeoutEnable c"
      using tx_loop_sends[OF tx(1,2)] tx(3) by auto
    ultimately show ?thesis
      using False tx c by (auto simp: xMBPortEventGet_def xMBPortSerialPoll_def vMBPortTimerPoll_def
          tx_side_def rtu_inv_def rtu_event_def)
  qed
qed

end
