(* ===== verification/Mb.thy ===== *)
theory Mb
  imports MbRtu
begin

text \<open>
  The Modbus slave: \<open>modbus/mb.c\<close> (initialisation, the handler table, enabling and disabling, and the poll
  that receives, executes and answers requests) and the start-up of \<open>mbs.c\<close>. The main results: from
  a started slave no poll ends in a fault, as long as no frame of the full buffer size arrives, and a
  correct request is answered by the response of its handler, framed with the slave address and
  the CRC.
\<close>

section \<open>The handler table\<close>

datatype handler =
  H_ReportSlaveID | H_ReadInput | H_ReadHolding | H_WriteMultiple | H_WriteHolding

type_synonym handler_table = "(UCHAR \<times> handler option) list"

definition MB_FUNC_HANDLERS_MAX :: nat where
  "MB_FUNC_HANDLERS_MAX = 16"

definition xFuncHandlers :: handler_table where
  "xFuncHandlers =
     [(17, Some H_ReportSlaveID), (4, Some H_ReadInput), (3, Some H_ReadHolding),
      (16, Some H_WriteMultiple), (6, Some H_WriteHolding)] @ replicate 11 (0, None)"

fun run_handler :: "handler \<Rightarrow> fmodbus_t \<Rightarrow> mbs_t \<Rightarrow> UCHAR list \<Rightarrow> USHORT \<Rightarrow> handler_result" where
  "run_handler H_ReportSlaveID ctx = eMBFuncReportSlaveID (ucMBSlaveID ctx)"
| "run_handler H_ReadInput ctx = eMBFuncReadInputRegister (mbsidx ctx)"
| "run_handler H_ReadHolding ctx = eMBFuncReadHoldingRegister (mbsidx ctx)"
| "run_handler H_WriteMultiple ctx = eMBFuncWriteMultipleHoldingRegister (mbsidx ctx)"
| "run_handler H_WriteHolding ctx = eMBFuncWriteHoldingRegister (mbsidx ctx)"

text \<open>\<open>eMBRegisterCB\<close>: registering takes the first free slot or the slot of the same handler.\<close>

fun register_slot :: "UCHAR \<Rightarrow> handler \<Rightarrow> handler_table \<Rightarrow> handler_table option" where
  "register_slot code h [] = None"
| "register_slot code h ((c, p) # tab) =
     (if p = None \<or> p = Some h then Some ((code, Some h) # tab)
      else map_option ((#) (c, p)) (register_slot code h tab))"

fun remove_slot :: "UCHAR \<Rightarrow> handler_table \<Rightarrow> handler_table" where
  "remove_slot code [] = []"
| "remove_slot code ((c, p) # tab) =
     (if c = code then (0, None) # tab else (c, p) # remove_slot code tab)"

definition eMBRegisterCB :: "handler_table \<Rightarrow> UCHAR \<Rightarrow> handler option \<Rightarrow> eMBErrorCode \<times> handler_table" where
  "eMBRegisterCB tab code pxHandler =
     (if 0 < code \<and> code \<le> 127 then
        (case pxHandler of
           Some h \<Rightarrow> (case register_slot code h tab of
                       Some tab' \<Rightarrow> (MB_ENOERR, tab') | None \<Rightarrow> (MB_ENORES, tab))
         | None \<Rightarrow> (MB_ENOERR, remove_slot code tab))
      else (MB_EINVAL, tab))"

text \<open>The dispatch of \<open>eMBPoll\<close>: the scan stops at the first entry with function code zero.\<close>

fun dispatch ::
  "handler_table \<Rightarrow> fmodbus_t \<Rightarrow> mbs_t \<Rightarrow> UCHAR \<Rightarrow> UCHAR list \<Rightarrow> USHORT \<Rightarrow> handler_result" where
  "dispatch [] ctx w code frame len = Inr (MB_EX_ILLEGAL_FUNCTION, w, frame, len)"
| "dispatch ((c, p) # tab) ctx w code frame len =
     (if c = 0 then Inr (MB_EX_ILLEGAL_FUNCTION, w, frame, len)
      else if c = code
        then (case p of Some h \<Rightarrow> run_handler h ctx w frame len | None \<Rightarrow> Inl Null_deref)
        else dispatch tab ctx w code frame len)"

section \<open>Initialisation\<close>

definition MB_ADDRESS_BROADCAST :: UCHAR where
  "MB_ADDRESS_BROADCAST = 0"

definition MB_ADDRESS_MIN :: UCHAR where
  "MB_ADDRESS_MIN = 1"

definition MB_ADDRESS_MAX :: UCHAR where
  "MB_ADDRESS_MAX = 247"

text \<open>
  The block \<open>malloc\<close> returns is not cleared: \<open>raw\<close> is its contents, \<open>None\<close> a failed allocation. The
  first result is the status, the second the context stored through \<open>pctx\<close>.
\<close>

definition eMBInit ::
  "fmodbus_t option \<Rightarrow> serial_os \<Rightarrow> eMBMode \<Rightarrow> UCHAR \<Rightarrow> string \<Rightarrow> ULONG \<Rightarrow> eMBParity
    \<Rightarrow> (eMBErrorCode \<times> fmodbus_t option) res" where
  "eMBInit raw os eMode ucSlaveAddress port baud par =
     (case raw of
        None \<Rightarrow> Inr (MB_EIO, None)
      | Some ctx \<Rightarrow>
          if ucSlaveAddress = MB_ADDRESS_BROADCAST \<or> ucSlaveAddress < MB_ADDRESS_MIN \<or>
             ucSlaveAddress > MB_ADDRESS_MAX
          then Inr (MB_EINVAL, Some ctx)
          else (let c1 = ctx\<lparr>ucMBAddress := ucSlaveAddress\<rparr> in
            case eMode of
              MB_RTU \<Rightarrow>
                bind_res (strcpy_buf 32 port) (\<lambda>p.
                bind_res (eMBRTUInit os (c1\<lparr>szPort := p, eParity := par, ulBaudRate := baud,
                            ucDataBits := 8, eMBState := STATE_NOT_INITIALIZED\<rparr>)) (\<lambda>(eStatus, c2).
                  if eStatus = MB_ENOERR
                  then Inr (MB_ENOERR, Some ((xMBPortEventInit c2)
                              \<lparr>eMBCurrentMode := eMode, eMBState := STATE_DISABLED\<rparr>))
                  else Inr (eStatus, Some c2)))
            | _ \<Rightarrow> Inr (MB_EINVAL, Some c1)))"

definition eMBEnable :: "timeval option \<Rightarrow> fmodbus_t \<Rightarrow> (eMBErrorCode \<times> fmodbus_t) res" where
  "eMBEnable now ctx =
     (if eMBState ctx = STATE_DISABLED
      then bind_res (eMBRTUStart now ctx) (\<lambda>c. Inr (MB_ENOERR, c\<lparr>eMBState := STATE_ENABLED\<rparr>))
      else Inr (MB_EILLSTATE, ctx))"

definition eMBDisable :: "fmodbus_t \<Rightarrow> (eMBErrorCode \<times> fmodbus_t) res" where
  "eMBDisable ctx =
     (case eMBState ctx of
        STATE_ENABLED \<Rightarrow>
          bind_res (eMBRTUStop ctx) (\<lambda>c. Inr (MB_ENOERR, c\<lparr>eMBState := STATE_DISABLED\<rparr>))
      | STATE_DISABLED \<Rightarrow> Inr (MB_ENOERR, ctx)
      | STATE_NOT_INITIALIZED \<Rightarrow> Inr (MB_EILLSTATE, ctx))"

text \<open>\<open>MB_PORT_HAS_CLOSE\<close> is 0, so there is no close function and a disabled stack stays as it is.\<close>

definition eMBClose :: "fmodbus_t \<Rightarrow> eMBErrorCode \<times> fmodbus_t" where
  "eMBClose ctx = (if eMBState ctx = STATE_DISABLED then (MB_ENOERR, ctx) else (MB_EILLSTATE, ctx))"

section \<open>The poll\<close>

definition poll_received :: "fmodbus_t \<Rightarrow> fmodbus_t res" where
  "poll_received ctx =
     bind_res (eMBRTUReceive ctx) (\<lambda>(eStatus, c).
       Inr (if eStatus = MB_ENOERR \<and>
               (ucRcvAddress c = ucMBAddress c \<or> ucRcvAddress c = MB_ADDRESS_BROADCAST)
            then xMBPortEventPost c EV_EXECUTE else c))"

text \<open>
  The response is built in place: \<open>frame\<close> is the memory from \<open>ucMBFrame\<close> on, and the handler's result is
  written back into \<open>ucRTUBuf\<close>. An exception replaces it by two bytes.
\<close>

definition poll_reply :: "fmodbus_t \<Rightarrow> nat \<Rightarrow> eMBException \<Rightarrow> UCHAR list \<Rightarrow> USHORT \<Rightarrow> fmodbus_t res" where
  "poll_reply ctx p ex frame len =
     (let c1 = ctx\<lparr>eException := ex, usLength := len, ucRTUBuf := take p (ucRTUBuf ctx) @ frame\<rparr>
      in if ucRcvAddress ctx \<noteq> MB_ADDRESS_BROADCAST then
           (let c2 = (if ex \<noteq> MB_EX_NONE
                      then c1\<lparr>usLength := 2, ucRTUBuf := (ucRTUBuf c1)
                              [p := ucFunctionCode c1 OR 128, p + 1 := ex_code ex]\<rparr>
                      else c1)
            in bind_res (eMBRTUSend c2 (ucMBAddress c2) p (usLength c2)) (\<lambda>(eStatus, c3). Inr c3))
         else Inr c1)"

definition poll_execute :: "handler_table \<Rightarrow> fmodbus_t \<Rightarrow> mbs_t \<Rightarrow> (fmodbus_t \<times> mbs_t) res" where
  "poll_execute tab ctx w =
     (case ucMBFrame ctx of
        None \<Rightarrow> Inl Null_deref
      | Some p \<Rightarrow>
          (let frame = drop p (ucRTUBuf ctx); c0 = ctx\<lparr>ucFunctionCode := frame ! 0\<rparr>
           in bind_res (dispatch tab c0 w (frame ! 0) frame (usLength c0)) (\<lambda>(ex, w', frame', len').
              bind_res (poll_reply c0 p ex frame' len') (\<lambda>c. Inr (c, w')))))"

definition eMBPoll ::
  "handler_table \<Rightarrow> poll_os \<Rightarrow> fmodbus_t \<Rightarrow> mbs_t \<Rightarrow> (eMBErrorCode \<times> fmodbus_t \<times> mbs_t \<times> UCHAR list) res"
  where
  "eMBPoll tab os ctx w =
     (if eMBState ctx \<noteq> STATE_ENABLED then Inr (MB_EILLSTATE, ctx, w, [])
      else bind_res (xMBPortEventGet os ctx) (\<lambda>(ev, c, out).
        case ev of
          Some EV_FRAME_RECEIVED \<Rightarrow> bind_res (poll_received c) (\<lambda>c'. Inr (MB_ENOERR, c', w, out))
        | Some EV_EXECUTE \<Rightarrow> bind_res (poll_execute tab c w) (\<lambda>(c', w'). Inr (MB_ENOERR, c', w', out))
        | _ \<Rightarrow> Inr (MB_ENOERR, c, w, out)))"

section \<open>Start of the slave\<close>

text \<open>\<open>MDL.adr\<close> is passed as an \<open>unsigned char\<close>. The result is the return value, with the slave's context.\<close>

definition mbs_start_MDL ::
  "fmodbus_t option \<Rightarrow> serial_os \<Rightarrow> bool \<Rightarrow> mdl_t \<Rightarrow> (int \<times> fmodbus_t option) res" where
  "mbs_start_MDL raw os thread_ok m =
     bind_res (eMBInit raw os MB_RTU (word_of_int (m_adr m)) (m_szSerial m) 9600 MB_PAR_NONE)
       (\<lambda>(st, pctx).
         if st \<noteq> MB_ENOERR then Inr (-1, pctx)
         else case pctx of
           None \<Rightarrow> Inl Null_deref
         | Some ctx \<Rightarrow>
             (case eMBSetSlaveID (ucMBSlaveID ctx) 0x34 True [0xAA, 0xBB, 0xCC] of (st2, sid) \<Rightarrow>
                if st2 \<noteq> MB_ENOERR then Inr (-2, pctx)
                else Inr (if thread_ok then 0 else -3,
                          Some (ctx\<lparr>ucMBSlaveID := sid, mbsidx := MBSIDX_MDL\<rparr>))))"

text \<open>The polling thread, for the answers of the operating system to its first polls.\<close>

fun poll_loop ::
  "handler_table \<Rightarrow> poll_os list \<Rightarrow> fmodbus_t \<Rightarrow> mbs_t \<Rightarrow> (fmodbus_t \<times> mbs_t \<times> UCHAR list list) res" where
  "poll_loop tab [] ctx w = Inr (ctx, w, [])"
| "poll_loop tab (os # oss) ctx w =
     bind_res (eMBPoll tab os ctx w) (\<lambda>(st, c, w', out).
       if st \<noteq> MB_ENOERR then bind_res (eMBDisable c) (\<lambda>(_, c'). Inr (c', w', [out]))
       else bind_res (poll_loop tab oss c w') (\<lambda>(c', w'', outs). Inr (c', w'', out # outs)))"

definition pvPollingThread ::
  "handler_table \<Rightarrow> timeval option \<Rightarrow> poll_os list \<Rightarrow> fmodbus_t \<Rightarrow> mbs_t
    \<Rightarrow> (fmodbus_t \<times> mbs_t \<times> UCHAR list list) res" where
  "pvPollingThread tab now oss ctx w =
     bind_res (eMBEnable now ctx) (\<lambda>(st, c).
       if st = MB_ENOERR then poll_loop tab oss c w
       else bind_res (eMBDisable c) (\<lambda>(_, c'). Inr (c', w, [])))"

section \<open>What polling leaves alone\<close>

definition cfg :: "fmodbus_t \<Rightarrow> mbstate \<times> int \<times> UCHAR list \<times> UCHAR \<times> ULONG" where
  "cfg ctx = (eMBState ctx, mbsidx ctx, ucMBSlaveID ctx, ucMBAddress ctx, ulTimeOut ctx)"

lemmas rtu_fsm_defs =
  xMBRTUReceiveFSM_def xMBRTUTransmitFSM_def xMBRTUTimerT35Expired_def xMBPortSerialGetByte_def
  xMBPortSerialPutByte_def rtu_store_def vMBPortTimersEnable_def vMBPortTimersDisable_def
  vMBPortSerialEnable_def xMBPortEventPost_def

lemma receive_cfg: "xMBRTUReceiveFSM now ctx = Inr c \<Longrightarrow> cfg c = cfg ctx"
  by (auto simp: rtu_fsm_defs cfg_def bind_res_eq_Inr split: if_splits eMBRcvState.splits option.splits)

lemma transmit_cfg: "xMBRTUTransmitFSM ctx = Inr c \<Longrightarrow> cfg c = cfg ctx"
  by (auto simp: rtu_fsm_defs cfg_def bind_res_eq_Inr Let_def split: if_splits eMBSndState.splits)

lemma rx_bytes_cfg: "rx_bytes nows ctx = Inr c \<Longrightarrow> cfg c = cfg ctx"
  by (induction nows arbitrary: ctx) (auto simp: bind_res_eq_Inr dest: receive_cfg)

lemma rx_chunk_cfg: "rx_chunk bs ctx = Inr c \<Longrightarrow> cfg c = cfg ctx"
  by (auto simp: rx_chunk_def bind_res_eq_Inr cfg_def dest!: rx_bytes_cfg)

lemma rx_loop_cfg: "rx_loop rs ctx = Inr c \<Longrightarrow> cfg c = cfg ctx"
proof (induction rs ctx arbitrary: c rule: rx_loop.induct)
  case (1 rs ctx)
  then show ?case
    by (subst (asm) (3) rx_loop.simps)
      (auto simp: bind_res_eq_Inr dest: rx_chunk_cfg split: if_splits prod.splits bool.splits list.splits)
qed

lemma tx_loop_cfg: "tx_loop ctx = Inr c \<Longrightarrow> cfg c = cfg ctx"
proof (induction ctx arbitrary: c rule: tx_loop.induct)
  case (1 ctx)
  then show ?case
    by (subst (asm) (2) tx_loop.simps) (auto simp: bind_res_eq_Inr dest: transmit_cfg split: if_splits)
qed

lemma timer_cfg:
  "vMBPortTimerPoll xMBRTUTimerT35Expired now ctx = Inr c \<Longrightarrow> cfg c = cfg ctx"
  by (auto simp: vMBPortTimerPoll_def rtu_fsm_defs cfg_def bind_res_eq_Inr
      split: if_splits option.splits eMBRcvState.splits)

lemma event_get_cfg: "xMBPortEventGet os ctx = Inr (ev, c, out) \<Longrightarrow> cfg c = cfg ctx"
  by (auto simp: xMBPortEventGet_def xMBPortSerialPoll_def bind_res_eq_Inr cfg_def
      dest!: timer_cfg rx_loop_cfg tx_loop_cfg split: if_splits)

section \<open>The invariant of the slave\<close>

definition slave_ok :: "fmodbus_t \<Rightarrow> mbs_t \<Rightarrow> bool" where
  "slave_ok ctx w \<longleftrightarrow> rtu_inv ctx \<and> mbs_ok w \<and> eMBState ctx = STATE_ENABLED \<and>
     mbsidx ctx = MBSIDX_MDL \<and> length (ucMBSlaveID ctx) \<le> 31"

text \<open>A received frame that fills the whole buffer waits for the poll.\<close>

definition full_frame_pending :: "fmodbus_t \<Rightarrow> bool" where
  "full_frame_pending ctx \<longleftrightarrow> xEventInQueue ctx \<and> eQueuedEvent ctx = EV_FRAME_RECEIVED \<and>
     unat (usRcvBufferPos ctx) \<ge> 256"

lemma handlers_contract:
  assumes "mbsidx ctx = MBSIDX_MDL" "length (ucMBSlaveID ctx) \<le> 31"
  shows "function_handler (run_handler h ctx)"
proof (cases h)
  case H_ReportSlaveID
  then show ?thesis using assms report_slaveid_handler by simp
next
  case H_ReadInput
  then show ?thesis using assms read_input.function_handler_axioms by simp
next
  case H_ReadHolding
  then show ?thesis using assms read_holding.function_handler_axioms by simp
next
  case H_WriteMultiple
  then show ?thesis using assms write_multiple.function_handler_axioms by simp
next
  case H_WriteHolding
  then show ?thesis using assms write_holding.function_handler_axioms by simp
qed

lemma table_handlers: "slave_ok ctx w \<Longrightarrow> function_handler (run_handler h ctx)"
  by (rule handlers_contract) (simp_all add: slave_ok_def)

definition table_ok :: "handler_table \<Rightarrow> bool" where
  "table_ok tab \<longleftrightarrow> list_all (\<lambda>(c, p). c = 0 \<or> p \<noteq> None) tab"

lemma dispatch_total:
  assumes "\<And>h. function_handler (run_handler h ctx)" "table_ok tab" "mbs_ok w" "255 \<le> length f"
  shows "\<exists>ex w' f' n'. dispatch tab ctx w code f n = Inr (ex, w', f', n') \<and> mbs_ok w' \<and>
    length f' = length f \<and> (unat n \<le> 253 \<longrightarrow> unat n' \<le> 253)"
  using assms(2)
proof (induction tab)
  case Nil
  then show ?case using assms by simp
next
  case (Cons e tab)
  obtain c p where e: "e = (c, p)" by fastforce
  show ?case
  proof (cases "c \<noteq> 0 \<and> c = code")
    case True
    then obtain h where "p = Some h" using Cons.prems e by (auto simp: table_ok_def)
    then show ?thesis
      using True e function_handler.handles[OF assms(1)[of h] assms(3,4), of n] by auto
  qed (use Cons e assms in \<open>auto simp: table_ok_def\<close>)
qed

lemma send_fits:
  assumes "rtu_inv ctx" "rx_side ctx" "eRcvState ctx = STATE_RX_IDLE" "unat n \<le> 253" "\<not> xEventInQueue ctx"
  shows "\<exists>c. eMBRTUSend ctx a 1 n = Inr (MB_ENOERR, c) \<and> rtu_inv c \<and> tx_side c \<and> cfg c = cfg ctx \<and>
    \<not> xEventInQueue c \<and> pucSndBufferCur c = 0 \<and> unat (usSndBufferCount c) = unat n + 3 \<and>
    (let body = take (unat n + 1) ((ucRTUBuf ctx)[0 := a])
     in take (unat n + 3) (ucRTUBuf c) =
          body @ [ucast (usMBCRC16 body AND 0xFF), ucast (drop_bit 8 (usMBCRC16 body))])"
proof -
  have l: "length (ucRTUBuf ctx) = 256" "length (ucBuffer ctx) = 256"
    using assms(1) by (auto simp: rtu_inv_def rtu_bufs_def)
  have n1: "unat (1 + n) = unat n + 1" using assms(4) by (simp add: unat_word_ariths)
  have n2: "unat (1 + n + 1) = unat n + 2" using assms(4) by (simp add: unat_word_ariths)
  have n3: "unat (1 + n + 2) = unat n + 3" using assms(4) by (simp add: unat_word_ariths)
  let ?b = "(ucRTUBuf ctx)[0 := a]"
  let ?crc = "usMBCRC16 (take (unat n + 1) ?b)"
  let ?b2 = "?b[unat n + 1 := ucast (?crc AND 0xFF), unat n + 2 := ucast (drop_bit 8 ?crc)]"
  have t: "take (unat n + 3) ?b2 = take (unat n + 1) ?b @ [ucast (?crc AND 0xFF), ucast (drop_bit 8 ?crc)]"
    using l assms(4) by (simp add: numeral_3_eq_3 take_Suc_conv_app_nth)
  let ?c = "ctx\<lparr>pucSndBufferCur := 0, usSndBufferCount := 1 + n + 2, ucRTUBuf := ?b2,
    eSndState := STATE_TX_XMIT, bRxEnabled := False, bTxEnabled := True, uiTxBufferPos := 0\<rparr>"
  have "eMBRTUSend ctx a 1 n = Inr (MB_ENOERR, ?c)"
    using assms l n1 n2 by (simp add: eMBRTUSend_def buf_put_def Let_def vMBPortSerialEnable_def)
  moreover have "rtu_inv ?c" "tx_side ?c"
    using assms l n3 by (auto simp: rtu_inv_def rtu_bufs_def tx_side_def rtu_event_def)
  moreover have "cfg ?c = cfg ctx" by (simp add: cfg_def)
  ultimately show ?thesis using t n3 assms(5) by (auto simp: Let_def)
qed

text \<open>A state in which the receiver waits: what the poll sees after it has taken an event.\<close>

definition waiting :: "fmodbus_t \<Rightarrow> bool" where
  "waiting ctx \<longleftrightarrow> rtu_inv ctx \<and> rx_side ctx \<and> eRcvState ctx = STATE_RX_IDLE \<and> \<not> xEventInQueue ctx"

lemma waiting_after_event:
  "rtu_inv ctx \<Longrightarrow> xEventInQueue ctx \<Longrightarrow> waiting (ctx\<lparr>xEventInQueue := False\<rparr>)"
  by (auto simp: waiting_def rtu_inv_def rtu_event_def rx_side_def tx_side_def rtu_bufs_def)

lemma waiting_cong:
  "waiting c \<Longrightarrow> rx_side c' = rx_side c \<Longrightarrow> eRcvState c' = eRcvState c \<Longrightarrow> xEventInQueue c' = xEventInQueue c
   \<Longrightarrow> bTimeoutEnable c' = bTimeoutEnable c \<Longrightarrow> length (ucRTUBuf c') = length (ucRTUBuf c)
   \<Longrightarrow> length (ucBuffer c') = length (ucBuffer c) \<Longrightarrow> waiting c'"
  by (auto simp: waiting_def rtu_inv_def rtu_event_def rtu_bufs_def)

lemma received_inv:
  assumes "waiting ctx" "unat (usRcvBufferPos ctx) < 256"
  shows "\<exists>c. poll_received ctx = Inr c \<and> rtu_inv c \<and> cfg c = cfg ctx"
proof -
  have "unat (usRcvBufferPos ctx - 1 - 2) \<le> 253" if "4 \<le> unat (usRcvBufferPos ctx)"
  proof -
    have "usRcvBufferPos ctx - 1 - 2 = usRcvBufferPos ctx - 3" by simp
    moreover have "unat (usRcvBufferPos ctx - 3) = unat (usRcvBufferPos ctx) - 3"
      using that by (intro unat_sub[where b = "3 :: USHORT", simplified]) (simp add: word_le_nat_alt)
    ultimately show ?thesis using assms(2) by simp
  qed
  then show ?thesis
    using assms by (auto simp: poll_received_def eMBRTUReceive_def MB_SER_PDU_SIZE_MAX_def
        MB_SER_PDU_SIZE_MIN_def waiting_def rtu_inv_def rtu_event_def rtu_bufs_def rx_side_def
        tx_side_def xMBPortEventPost_def cfg_def)
qed

lemma reply_inv:
  assumes "waiting ctx" "length f = 255" "unat n \<le> 253"
  shows "\<exists>c. poll_reply ctx 1 ex f n = Inr c \<and> rtu_inv c \<and> cfg c = cfg ctx"
proof (cases "ucRcvAddress ctx = MB_ADDRESS_BROADCAST")
  case True
  let ?c = "ctx\<lparr>eException := ex, usLength := n, ucRTUBuf := take 1 (ucRTUBuf ctx) @ f\<rparr>"
  have "length (ucRTUBuf ctx) = 256" using assms(1) by (simp add: waiting_def rtu_inv_def rtu_bufs_def)
  then have "waiting ?c" by (intro waiting_cong[OF assms(1)]) (auto simp: rx_side_def assms(2))
  moreover have "poll_reply ctx 1 ex f n = Inr ?c" using True by (simp add: poll_reply_def Let_def)
  ultimately show ?thesis by (auto simp: waiting_def cfg_def)
next
  case False
  let ?c1 = "ctx\<lparr>eException := ex, usLength := n, ucRTUBuf := take 1 (ucRTUBuf ctx) @ f\<rparr>"
  let ?c2 = "if ex \<noteq> MB_EX_NONE then ?c1\<lparr>usLength := 2, ucRTUBuf := (ucRTUBuf ?c1)
      [1 := ucFunctionCode ?c1 OR 128, 2 := ex_code ex]\<rparr> else ?c1"
  have "length (ucRTUBuf ctx) = 256" using assms(1) by (simp add: waiting_def rtu_inv_def rtu_bufs_def)
  then have w: "waiting ?c2" by (intro waiting_cong[OF assms(1)]) (auto simp: rx_side_def assms(2))
  have "unat (usLength ?c2) \<le> 253" using assms(3) by simp
  then obtain c where c: "eMBRTUSend ?c2 (ucMBAddress ?c2) 1 (usLength ?c2) = Inr (MB_ENOERR, c)"
    "rtu_inv c" "cfg c = cfg ?c2"
    using send_fits[of ?c2 "usLength ?c2" "ucMBAddress ?c2"] w by (auto simp: waiting_def)
  have "cfg ?c2 = cfg ctx" by (simp add: cfg_def)
  moreover have "poll_reply ctx 1 ex f n = Inr c"
    using False c(1) by (simp add: poll_reply_def Let_def numeral_2_eq_2 split: if_splits)
  ultimately show ?thesis using c by auto
qed

lemma execute_inv:
  assumes "waiting ctx" "slave_ok ctx w" "table_ok tab" "ucMBFrame ctx = Some 1" "unat (usLength ctx) \<le> 253"
  shows "\<exists>c w'. poll_execute tab ctx w = Inr (c, w') \<and> rtu_inv c \<and> cfg c = cfg ctx \<and> mbs_ok w'"
proof -
  let ?f = "drop 1 (ucRTUBuf ctx)"
  let ?c0 = "ctx\<lparr>ucFunctionCode := ?f ! 0\<rparr>"
  have w0: "waiting ?c0" by (rule waiting_cong[OF assms(1)]) (auto simp: rx_side_def)
  have "rtu_inv ?c0" using w0 by (simp add: waiting_def)
  then have ok: "slave_ok ?c0 w" using assms(2) by (simp add: slave_ok_def)
  have "length ?f = 255" using assms(1) by (simp add: waiting_def rtu_inv_def rtu_bufs_def)
  moreover have "mbs_ok w" using assms(2) by (simp add: slave_ok_def)
  ultimately obtain ex w' f' n' where d: "dispatch tab ?c0 w (?f ! 0) ?f (usLength ctx) = Inr (ex, w', f', n')"
    "mbs_ok w'" "length f' = 255" "unat n' \<le> 253"
    using dispatch_total[OF table_handlers[OF ok] assms(3), of w ?f "?f ! 0" "usLength ctx"] assms(5) by auto
  obtain c where "poll_reply ?c0 1 ex f' n' = Inr c" "rtu_inv c" "cfg c = cfg ?c0"
    using reply_inv[OF w0 d(3,4)] by blast
  moreover have "cfg ?c0 = cfg ctx" by (simp add: cfg_def)
  ultimately show ?thesis using d assms(4) by (simp add: poll_execute_def Let_def)
qed

lemma slave_ok_cfg:
  "slave_ok ctx w \<Longrightarrow> rtu_inv c \<Longrightarrow> cfg c = cfg ctx \<Longrightarrow> mbs_ok w' \<Longrightarrow> slave_ok c w'"
  by (simp add: slave_ok_def cfg_def)

lemma poll_ok:
  assumes "slave_ok ctx w" "table_ok tab" "list_all sel_ok (os_reads os)" "\<not> full_frame_pending ctx"
  shows "\<exists>c w' out. eMBPoll tab os ctx w = Inr (MB_ENOERR, c, w', out) \<and> slave_ok c w'"
proof -
  have inv: "rtu_inv ctx" and en: "eMBState ctx = STATE_ENABLED" and mok: "mbs_ok w"
    using assms(1) by (auto simp: slave_ok_def)
  obtain ev c out where g: "xMBPortEventGet os ctx = Inr (ev, c, out)" "rtu_inv c"
    "ev \<noteq> None \<longrightarrow> xEventInQueue ctx \<and> ev = Some (eQueuedEvent ctx) \<and> c = ctx\<lparr>xEventInQueue := False\<rparr>"
    using event_get_inv[OF inv assms(3)] by blast
  have cc: "cfg c = cfg ctx" by (rule event_get_cfg[OF g(1)])
  have okc: "slave_ok c w" by (rule slave_ok_cfg[OF assms(1) g(2) cc mok])
  show ?thesis
  proof (cases "ev = None \<or> ev = Some EV_READY \<or> ev = Some EV_FRAME_SENT")
    case True
    then have "eMBPoll tab os ctx w = Inr (MB_ENOERR, c, w, out)"
      using g(1) en by (auto simp: eMBPoll_def)
    then show ?thesis using okc by blast
  next
    case False
    then have q: "xEventInQueue ctx" "ev = Some (eQueuedEvent ctx)" "c = ctx\<lparr>xEventInQueue := False\<rparr>"
      using g(3) by auto
    have wt: "waiting c" using waiting_after_event[OF inv q(1)] q(3) by simp
    show ?thesis
    proof (cases "eQueuedEvent ctx = EV_FRAME_RECEIVED")
      case True
      then have "unat (usRcvBufferPos c) < 256"
        using assms(4) q by (simp add: full_frame_pending_def)
      from received_inv[OF wt this] obtain c' where "poll_received c = Inr c'" "rtu_inv c'" "cfg c' = cfg c"
        by blast
      then show ?thesis using True q g(1) en slave_ok_cfg[OF okc _ _ mok] by (simp add: eMBPoll_def)
    next
      case no: False
      then have x: "eQueuedEvent ctx = EV_EXECUTE" using False q(2) by (cases "eQueuedEvent ctx") auto
      then have "ucMBFrame c = Some 1" "unat (usLength c) \<le> 253"
        using inv q by (auto simp: rtu_inv_def rtu_event_def)
      from execute_inv[OF wt okc assms(2) this] obtain c' w' where
        "poll_execute tab c w = Inr (c', w')" "rtu_inv c'" "cfg c' = cfg c" "mbs_ok w'" by blast
      then show ?thesis using x q g(1) en slave_ok_cfg[OF okc] by (simp add: eMBPoll_def)
    qed
  qed
qed

section \<open>A frame on the line\<close>

text \<open>Bytes received while a frame is open are appended to it, and the timer is restarted.\<close>

lemma rx_bytes_append:
  assumes "rx_run ctx" "eRcvState ctx = STATE_RX_RCV" "unat (usRcvBufferPos ctx) = p"
    "p + n \<le> 256" "uiRxBufferPos ctx + n \<le> 256" "xTimeLast ctx = t"
  shows "\<exists>c. rx_bytes (replicate n (Some t)) ctx = Inr c \<and> rx_run c \<and> eRcvState c = STATE_RX_RCV \<and>
    unat (usRcvBufferPos c) = p + n \<and> xTimeLast c = t \<and>
    take (p + n) (ucRTUBuf c) = take p (ucRTUBuf ctx) @ take n (drop (uiRxBufferPos ctx) (ucBuffer ctx))"
  using assms
proof (induction n arbitrary: ctx p)
  case (Suc n)
  let ?q = "uiRxBufferPos ctx"
  let ?c = "ctx\<lparr>uiRxBufferPos := ?q + 1, ucRTUBuf := (ucRTUBuf ctx)[p := ucBuffer ctx ! ?q],
    usRcvBufferPos := usRcvBufferPos ctx + 1, xTimeLast := t, bTimeoutEnable := True\<rparr>"
  have l: "length (ucRTUBuf ctx) = 256" "length (ucBuffer ctx) = 256"
    using Suc.prems(1) by (auto simp: rx_run_def rtu_bufs_def)
  have step: "xMBRTUReceiveFSM (Some t) ctx = Inr ?c"
    using Suc.prems l by (simp add: xMBRTUReceiveFSM_def rx_run_def xMBPortSerialGetByte_def BUF_SIZE_def
        rtu_store_def buf_put_def vMBPortTimersEnable_def MB_SER_PDU_SIZE_MAX_def)
  have p1: "unat (usRcvBufferPos ?c) = p + 1" using Suc.prems(3,4) by (simp add: pos_inc)
  have run: "rx_run ?c" using Suc.prems p1 l by (simp add: rx_run_def rtu_bufs_def)
  obtain c where c: "rx_bytes (replicate n (Some t)) ?c = Inr c" "rx_run c" "eRcvState c = STATE_RX_RCV"
    "unat (usRcvBufferPos c) = p + 1 + n" "xTimeLast c = t"
    "take (p + 1 + n) (ucRTUBuf c) = take (p + 1) (ucRTUBuf ?c) @ take n (drop (?q + 1) (ucBuffer ?c))"
    using Suc.IH[OF run _ p1] Suc.prems by auto
  have "take (p + 1) (ucRTUBuf ?c) @ take n (drop (?q + 1) (ucBuffer ?c)) =
      take p (ucRTUBuf ctx) @ take (Suc n) (drop ?q (ucBuffer ctx))"
    using l Suc.prems(4,5) by (simp add: take_Suc_conv_app_nth Cons_nth_drop_Suc[symmetric])
  then show ?case using c step by (simp add: add.assoc)
qed simp

definition line_frame :: "timeval \<Rightarrow> UCHAR list \<Rightarrow> sel_result list" where
  "line_frame t bs = [Read_ok (map (\<lambda>b. (Some t, b)) bs)]"

lemma rx_chunk_idle:
  assumes "waiting ctx" "bs \<noteq> []" "length bs \<le> 256"
  shows "\<exists>c. rx_chunk (map (\<lambda>b. (Some t, b)) bs) ctx = Inr c \<and> rx_run c \<and> uiRxBufferPos c = 0 \<and>
    eRcvState c = STATE_RX_RCV \<and> unat (usRcvBufferPos c) = length bs \<and> xTimeLast c = t \<and>
    take (length bs) (ucRTUBuf c) = bs"
proof -
  obtain b bs' where bs: "bs = b # bs'" using assms(2) by (cases bs) auto
  have l: "length (ucRTUBuf ctx) = 256" "length (ucBuffer ctx) = 256"
    using assms(1) by (auto simp: waiting_def rtu_inv_def rtu_bufs_def)
  let ?buf = "bs @ drop (length bs) (ucBuffer ctx)"
  let ?c0 = "ctx\<lparr>ucBuffer := ?buf\<rparr>"
  let ?c1 = "?c0\<lparr>uiRxBufferPos := 1, usRcvBufferPos := 1, ucRTUBuf := (ucRTUBuf ctx)[0 := b],
    eRcvState := STATE_RX_RCV, xTimeLast := t, bTimeoutEnable := True\<rparr>"
  have s1: "xMBRTUReceiveFSM (Some t) ?c0 = Inr ?c1"
    using assms(1) l bs by (simp add: xMBRTUReceiveFSM_def waiting_def rx_side_def
        xMBPortSerialGetByte_def BUF_SIZE_def rtu_store_def buf_put_def vMBPortTimersEnable_def)
  have run: "rx_run ?c1"
    using assms l by (simp add: rx_run_def rtu_bufs_def waiting_def rx_side_def)
  obtain c where c: "rx_bytes (replicate (length bs') (Some t)) ?c1 = Inr c" "rx_run c"
    "eRcvState c = STATE_RX_RCV" "unat (usRcvBufferPos c) = 1 + length bs'" "xTimeLast c = t"
    "take (1 + length bs') (ucRTUBuf c) = take 1 (ucRTUBuf ?c1) @ take (length bs') (drop 1 ?buf)"
    using rx_bytes_append[OF run, of 1 "length bs'" t] assms(3) bs by auto
  have "take (length bs) (ucRTUBuf c) = bs"
    using c(6) l bs by (cases "ucRTUBuf ctx") auto
  moreover have "rx_bytes (map fst (map (\<lambda>b. (Some t, b)) bs)) ?c0 = Inr c"
    using s1 c(1) bs by (simp add: map_replicate_const comp_def)
  ultimately show ?thesis
    using c bs by (simp add: rx_chunk_def comp_def) (simp add: rx_run_def rtu_bufs_def)
qed

text \<open>The first poll takes the frame off the line, and the expired timer announces it.\<close>

lemma poll_takes_frame:
  assumes "waiting ctx" "eMBState ctx = STATE_ENABLED" "bs \<noteq> []" "length bs \<le> 256"
    "os_reads os = line_frame t bs" "os_now os = Some t'" "ulDeltaMS t' t > ulTimeOut ctx"
  shows "\<exists>c. eMBPoll tab os ctx w = Inr (MB_ENOERR, c, w, []) \<and> rtu_inv c \<and> cfg c = cfg ctx \<and>
    xEventInQueue c \<and> eQueuedEvent c = EV_FRAME_RECEIVED \<and> unat (usRcvBufferPos c) = length bs \<and>
    take (length bs) (ucRTUBuf c) = bs"
proof -
  obtain c where c: "rx_chunk (map (\<lambda>b. (Some t, b)) bs) ctx = Inr c" "rx_run c" "uiRxBufferPos c = 0"
    "eRcvState c = STATE_RX_RCV" "unat (usRcvBufferPos c) = length bs" "xTimeLast c = t"
    "take (length bs) (ucRTUBuf c) = bs"
    using rx_chunk_idle[OF assms(1,3,4)] by blast
  have cc: "cfg c = cfg ctx" by (rule rx_chunk_cfg[OF c(1)])
  have rx: "bRxEnabled ctx" "bRxEnabled c" "\<not> bTxEnabled c"
    using assms(1) c(2) by (auto simp: waiting_def rx_side_def rx_run_def)
  have loop: "rx_loop (line_frame t bs) ctx = Inr c"
    using c(1) rx assms(3) by (subst rx_loop.simps) (cases bs; simp add: line_frame_def rx_loop.simps)
  let ?c = "c\<lparr>bTimeoutEnable := False, xEventInQueue := True, eQueuedEvent := EV_FRAME_RECEIVED,
    eRcvState := STATE_RX_IDLE\<rparr>"
  have en: "bTimeoutEnable c" using c by (simp add: rx_run_def)
  have "ulTimeOut c = ulTimeOut ctx" using cc by (simp add: cfg_def)
  then have "vMBPortTimerPoll xMBRTUTimerT35Expired (Some t') c = Inr ?c"
    using assms(7) c en by (simp add: vMBPortTimerPoll_def xMBRTUTimerT35Expired_def
        xMBPortEventPost_def vMBPortTimersDisable_def)
  moreover have "\<not> xEventInQueue ctx" using assms(1) by (simp add: waiting_def)
  ultimately have "eMBPoll tab os ctx w = Inr (MB_ENOERR, ?c, w, [])"
    using loop assms rx by (simp add: eMBPoll_def xMBPortEventGet_def xMBPortSerialPoll_def)
  moreover have "rtu_inv ?c"
    using c by (simp add: rtu_inv_def rtu_bufs_def rx_run_def rx_side_def rtu_event_def)
  moreover have "cfg ?c = cfg ctx" using cc by (simp add: cfg_def)
  ultimately show ?thesis using c by auto
qed

section \<open>From request to response\<close>

definition crc_bytes :: "UCHAR list \<Rightarrow> UCHAR list" where
  "crc_bytes bs = [lo_byte (usMBCRC16 bs), hi_byte (usMBCRC16 bs)]"

lemma crc_bytes_zero: "usMBCRC16 (bs @ crc_bytes bs) = 0"
  by (simp add: crc_bytes_def crc_appended_zero lo_byte_ucast hi_byte_def)

lemma dispatch_cfg: "cfg c = cfg ctx \<Longrightarrow> dispatch tab c = dispatch tab ctx"
proof -
  assume cc: "cfg c = cfg ctx"
  have "run_handler h c = run_handler h ctx" for h
    using cc by (cases h) (auto simp: cfg_def)
  then have "dispatch tab c w code f n = dispatch tab ctx w code f n" for w code f n
    by (induction tab) (auto split: option.splits)
  then show ?thesis by (intro ext)
qed

definition reply_bytes :: "UCHAR \<Rightarrow> eMBException \<Rightarrow> UCHAR list \<Rightarrow> USHORT \<Rightarrow> UCHAR list" where
  "reply_bytes code ex f n =
     (if ex = MB_EX_NONE then take (unat n) f else [code OR 128, ex_code ex])"

lemma poll_receives:
  assumes "rtu_inv ctx" "eMBState ctx = STATE_ENABLED" "xEventInQueue ctx"
    "eQueuedEvent ctx = EV_FRAME_RECEIVED" "unat (usRcvBufferPos ctx) = length bs"
    "take (length bs) (ucRTUBuf ctx) = bs" "4 \<le> length bs" "length bs < 256"
    "usMBCRC16 bs = 0" "hd bs = ucMBAddress ctx"
  shows "\<exists>c. eMBPoll tab os ctx w = Inr (MB_ENOERR, c, w, []) \<and> rtu_inv c \<and> cfg c = cfg ctx \<and>
    xEventInQueue c \<and> eQueuedEvent c = EV_EXECUTE \<and> ucMBFrame c = Some 1 \<and>
    unat (usLength c) = length bs - 3 \<and> ucRcvAddress c = hd bs \<and> ucRTUBuf c = ucRTUBuf ctx"
proof -
  let ?c0 = "ctx\<lparr>xEventInQueue := False\<rparr>"
  have wt: "waiting ?c0" by (rule waiting_after_event[OF assms(1,3)])
  have "ucRTUBuf ctx ! 0 = hd bs" using assms(6,7) by (metis hd_conv_nth hd_take list.size(3) not_numeral_le_zero take_eq_Nil2 gr0I)
  then have recv: "eMBRTUReceive ?c0 = Inr (MB_ENOERR, ?c0\<lparr>ucRcvAddress := hd bs,
      usLength := usRcvBufferPos ctx - 1 - 2, ucMBFrame := Some 1\<rparr>)"
    using assms by (simp add: eMBRTUReceive_def MB_SER_PDU_SIZE_MAX_def MB_SER_PDU_SIZE_MIN_def)
  have "usRcvBufferPos ctx - 1 - 2 = usRcvBufferPos ctx - 3" by simp
  moreover have "unat (usRcvBufferPos ctx - 3) = length bs - 3"
    using assms(5,7) unat_sub[of 3 "usRcvBufferPos ctx"] by (simp add: word_le_nat_alt)
  ultimately have len: "unat (usRcvBufferPos ctx - 1 - 2) = length bs - 3" by simp
  obtain c where c: "poll_received ?c0 = Inr c" "rtu_inv c" "cfg c = cfg ?c0"
    using received_inv[OF wt] assms(5,8) by auto
  have "c = xMBPortEventPost (?c0\<lparr>ucRcvAddress := hd bs, usLength := usRcvBufferPos ctx - 1 - 2,
      ucMBFrame := Some 1\<rparr>) EV_EXECUTE"
    using c(1) recv assms(10) by (simp add: poll_received_def)
  then show ?thesis
    using c assms len by (simp add: eMBPoll_def xMBPortEventGet_def xMBPortEventPost_def cfg_def)
qed

lemma reply_sends:
  fixes ex :: eMBException
  assumes "waiting ctx" "length f = 255" "unat n \<le> 253" "ucRcvAddress ctx \<noteq> MB_ADDRESS_BROADCAST"
  defines "body \<equiv> ucMBAddress ctx # reply_bytes (ucFunctionCode ctx) ex f n"
  shows "\<exists>c. poll_reply ctx 1 ex f n = Inr c \<and> rtu_inv c \<and> tx_side c \<and> cfg c = cfg ctx \<and>
    \<not> xEventInQueue c \<and> pucSndBufferCur c = 0 \<and> unat (usSndBufferCount c) = length body + 2 \<and>
    take (length body + 2) (ucRTUBuf c) = body @ crc_bytes body"
proof -
  let ?c1 = "ctx\<lparr>eException := ex, usLength := n, ucRTUBuf := take 1 (ucRTUBuf ctx) @ f\<rparr>"
  let ?c2 = "if ex \<noteq> MB_EX_NONE then ?c1\<lparr>usLength := 2, ucRTUBuf := (ucRTUBuf ?c1)
      [1 := ucFunctionCode ?c1 OR 128, 2 := ex_code ex]\<rparr> else ?c1"
  have l: "length (ucRTUBuf ctx) = 256" using assms(1) by (simp add: waiting_def rtu_inv_def rtu_bufs_def)
  then obtain b0 bt where b0: "ucRTUBuf ctx = b0 # bt" by (cases "ucRTUBuf ctx") auto
  have w: "waiting ?c2" using l by (intro waiting_cong[OF assms(1)]) (auto simp: rx_side_def assms(2))
  have n: "unat (usLength ?c2) \<le> 253" using assms(3) by simp
  obtain x y ft where f: "f = x # y # ft"
    using that[of "f ! 0" "f ! 1" "drop 2 f"] assms(2) by (simp add: Cons_nth_drop_Suc numeral_2_eq_2)
  have body: "take (unat (usLength ?c2) + 1) ((ucRTUBuf ?c2)[0 := ucMBAddress ?c2]) = body"
    using b0 f by (auto simp: body_def reply_bytes_def)
  have len: "length body = unat (usLength ?c2) + 1"
    using assms(2,3) by (auto simp: body_def reply_bytes_def)
  obtain c where c: "eMBRTUSend ?c2 (ucMBAddress ?c2) 1 (usLength ?c2) = Inr (MB_ENOERR, c)"
    "rtu_inv c" "tx_side c" "cfg c = cfg ?c2" "\<not> xEventInQueue c" "pucSndBufferCur c = 0"
    "unat (usSndBufferCount c) = unat (usLength ?c2) + 3"
    "take (unat (usLength ?c2) + 3) (ucRTUBuf c) = body @ crc_bytes body"
    using send_fits[of ?c2 "usLength ?c2" "ucMBAddress ?c2"] w n body
    unfolding Let_def crc_bytes_def lo_byte_def hi_byte_def by (auto simp only: waiting_def)
  have "cfg ?c2 = cfg ctx" by (simp add: cfg_def)
  moreover have "poll_reply ctx 1 ex f n = Inr c"
    using assms(4) c(1) by (simp add: poll_reply_def Let_def numeral_2_eq_2 split: if_splits)
  moreover have "unat (usLength ?c2) + 3 = length body + 2" using len by simp
  ultimately show ?thesis using c by metis
qed

lemma poll_executes:
  assumes "slave_ok ctx w" "table_ok tab" "xEventInQueue ctx" "eQueuedEvent ctx = EV_EXECUTE"
    "ucRcvAddress ctx \<noteq> MB_ADDRESS_BROADCAST"
    "dispatch tab ctx w (ucRTUBuf ctx ! 1) (drop 1 (ucRTUBuf ctx)) (usLength ctx) = Inr (ex, w', f', n')"
  defines "body \<equiv> ucMBAddress ctx # reply_bytes (ucRTUBuf ctx ! 1) ex f' n'"
  shows "\<exists>c. eMBPoll tab os ctx w = Inr (MB_ENOERR, c, w', []) \<and> rtu_inv c \<and> tx_side c \<and>
    cfg c = cfg ctx \<and> \<not> xEventInQueue c \<and> pucSndBufferCur c = 0 \<and>
    unat (usSndBufferCount c) = length body + 2 \<and> take (length body + 2) (ucRTUBuf c) = body @ crc_bytes body"
proof -
  have inv: "rtu_inv ctx" "mbs_ok w" "eMBState ctx = STATE_ENABLED" using assms(1) by (auto simp: slave_ok_def)
  have fr: "ucMBFrame ctx = Some 1" "unat (usLength ctx) \<le> 253"
    using inv(1) assms(3,4) by (auto simp: rtu_inv_def rtu_event_def)
  have l: "length (ucRTUBuf ctx) = 256" using inv(1) by (simp add: rtu_inv_def rtu_bufs_def)
  let ?f = "drop 1 (ucRTUBuf ctx)"
  let ?c0 = "ctx\<lparr>xEventInQueue := False, ucFunctionCode := ?f ! 0\<rparr>"
  have code: "?f ! 0 = ucRTUBuf ctx ! 1" using l by simp
  have wt: "waiting ?c0"
    by (rule waiting_cong[OF waiting_after_event[OF inv(1) assms(3)]]) (auto simp: rx_side_def)
  have cc: "cfg ?c0 = cfg ctx" by (simp add: cfg_def)
  have d: "dispatch tab ?c0 w (?f ! 0) ?f (usLength ctx) = Inr (ex, w', f', n')"
    using assms(6) dispatch_cfg[OF cc] code by simp
  have "length f' = 255 \<and> unat n' \<le> 253"
    using dispatch_total[OF table_handlers[OF assms(1)] assms(2) inv(2), of ?f "ucRTUBuf ctx ! 1" "usLength ctx"]
      assms(6) fr(2) l by auto
  then obtain c where c: "poll_reply ?c0 1 ex f' n' = Inr c" "rtu_inv c" "tx_side c" "cfg c = cfg ?c0"
    "\<not> xEventInQueue c" "pucSndBufferCur c = 0" "unat (usSndBufferCount c) = length body + 2"
    "take (length body + 2) (ucRTUBuf c) = body @ crc_bytes body"
    using reply_sends[OF wt, of f' n' ex] assms(5) code by (auto simp: body_def)
  have "eMBPoll tab os ctx w = Inr (MB_ENOERR, c, w', [])"
    using d c(1) fr(1) assms(3,4) inv(3)
    by (simp add: eMBPoll_def xMBPortEventGet_def poll_execute_def Let_def)
  then show ?thesis using c cc by auto
qed

lemma poll_sends:
  assumes "rtu_inv ctx" "eMBState ctx = STATE_ENABLED" "tx_side ctx" "\<not> xEventInQueue ctx"
    "pucSndBufferCur ctx = 0" "list_all (\<lambda>r. r \<noteq> Write_error) (os_writes os)"
  shows "\<exists>c. eMBPoll tab os ctx w = Inr (MB_ENOERR, c, w, take (unat (usSndBufferCount ctx)) (ucRTUBuf ctx)) \<and>
    rx_side c \<and> eQueuedEvent c = EV_FRAME_SENT \<and> rtu_inv c \<and> xEventInQueue c \<and> cfg c = cfg ctx"
proof -
  have tx: "rtu_bufs ctx" "uiTxBufferPos ctx = 0" "\<not> bTimeoutEnable ctx" "bTxEnabled ctx" "\<not> bRxEnabled ctx"
    using assms(1,3,5) by (auto simp: rtu_inv_def tx_side_def)
  obtain c where c: "tx_loop ctx = Inr c" "rx_side c" "eQueuedEvent c = EV_FRAME_SENT" "\<not> bTimeoutEnable c"
    "rtu_bufs c" "xEventInQueue c" "eRcvState c = STATE_RX_IDLE"
    "take (uiTxBufferPos c) (ucBuffer c) = take (unat (usSndBufferCount ctx)) (ucRTUBuf ctx)"
    using tx_loop_sends[OF assms(3) tx(1)] tx assms(5) by auto
  then have inv: "rtu_inv c" by (simp add: rtu_inv_def rtu_event_def)
  have "rx_loop (os_reads os) ctx = Inr ctx" using tx(5) by (subst rx_loop.simps) simp
  then have ev: "xMBPortEventGet os ctx = Inr (None, c, take (unat (usSndBufferCount ctx)) (ucRTUBuf ctx))"
    using c tx assms by (simp add: xMBPortEventGet_def xMBPortSerialPoll_def vMBPortTimerPoll_def serial_write_all)
  then show ?thesis using c inv assms(2) event_get_cfg[OF ev] by (simp add: eMBPoll_def)
qed

section \<open>Start-up and reachable states\<close>

text \<open>The arrays of the context have their declared sizes.\<close>

definition ctx_shape :: "fmodbus_t \<Rightarrow> bool" where
  "ctx_shape ctx \<longleftrightarrow> length (ucRTUBuf ctx) = 256 \<and> length (ucBuffer ctx) = 256"

text \<open>What initialisation keeps of the raw block.\<close>

definition raw_kept :: "fmodbus_t \<Rightarrow> fmodbus_t \<Rightarrow> bool" where
  "raw_kept raw ctx \<longleftrightarrow> ctx_shape ctx = ctx_shape raw \<and> eSndState ctx = eSndState raw"

lemma serial_init_kept: "xMBPortSerialInit os ctx = Inr (ok, c) \<Longrightarrow> raw_kept ctx c"
  by (auto simp: xMBPortSerialInit_def Let_def vMBPortSerialEnable_def raw_kept_def ctx_shape_def
      split: if_splits)

lemma timers_init_kept: "raw_kept c (xMBPortTimersInit c t)"
  by (simp add: xMBPortTimersInit_def xMBPortSerialSetTimeout_def Let_def raw_kept_def ctx_shape_def)

lemma raw_kept_trans: "raw_kept a b \<Longrightarrow> raw_kept b c \<Longrightarrow> raw_kept a c"
  by (simp add: raw_kept_def)

lemma rtu_init_kept:
  assumes "eMBRTUInit os ctx = Inr (st, c)"
  shows "raw_kept ctx c"
proof -
  obtain ok c1 where c1: "xMBPortSerialInit os ctx = Inr (ok, c1)"
    "c = c1 \<or> (\<exists>t. c = xMBPortTimersInit c1 t)"
    using assms unfolding eMBRTUInit_def bind_res_eq_Inr by (auto simp: bind_res_eq_Inr split: if_splits)
  then show ?thesis
    using raw_kept_trans[OF serial_init_kept[OF c1(1)]] timers_init_kept serial_init_kept[OF c1(1)] by blast
qed

lemma mb_init_kept:
  assumes "eMBInit (Some raw) os MB_RTU a port baud par = Inr (MB_ENOERR, Some ctx)"
  shows "raw_kept raw ctx \<and> \<not> xEventInQueue ctx"
proof -
  let ?c0 = "raw\<lparr>ucMBAddress := a, szPort := port, eParity := par, ulBaudRate := baud, ucDataBits := 8,
    eMBState := STATE_NOT_INITIALIZED\<rparr>"
  have k0: "raw_kept raw ?c0" by (simp add: raw_kept_def ctx_shape_def)
  obtain st c2 where c2: "eMBRTUInit os ?c0 = Inr (st, c2)"
    "if st = MB_ENOERR then ctx = (xMBPortEventInit c2)\<lparr>eMBCurrentMode := MB_RTU, eMBState := STATE_DISABLED\<rparr>
     else st = MB_ENOERR"
    using assms unfolding eMBInit_def Let_def
    by (auto simp: bind_res_eq_Inr strcpy_buf_def split: if_splits)
  have "raw_kept raw c2" by (rule raw_kept_trans[OF k0 rtu_init_kept[OF c2(1)]])
  then show ?thesis using c2(2) by (simp add: raw_kept_def ctx_shape_def xMBPortEventInit_def split: if_splits)
qed

lemma start_ok:
  assumes "mbs_start_MDL (Some raw) os thr m = Inr (0, Some ctx)"
    "eMBEnable (Some tv) ctx = Inr (MB_ENOERR, c)"
    "ctx_shape raw" "eSndState raw = STATE_TX_IDLE" "mbs_ok w"
  shows "slave_ok c w"
proof -
  obtain c0 where c0: "eMBInit (Some raw) os MB_RTU (word_of_int (m_adr m)) (m_szSerial m) 9600 MB_PAR_NONE
      = Inr (MB_ENOERR, Some c0)" "ctx = c0\<lparr>ucMBSlaveID := [0x34, 0xFF, 0xAA, 0xBB, 0xCC], mbsidx := MBSIDX_MDL\<rparr>"
    using assms(1) by (auto simp: mbs_start_MDL_def bind_res_eq_Inr eMBSetSlaveID_def
        MB_FUNC_OTHER_REP_SLAVEID_BUF_def split: if_splits option.splits)
  then have "ctx_shape ctx \<and> eSndState ctx = STATE_TX_IDLE \<and> \<not> xEventInQueue ctx"
    using mb_init_kept[OF c0(1)] assms(3,4) by (auto simp: raw_kept_def ctx_shape_def)
  then show ?thesis
    using assms(2,5) c0(2)
    by (auto simp: eMBEnable_def eMBRTUStart_def vMBPortSerialEnable_def vMBPortTimersEnable_def
        slave_ok_def rtu_inv_def rtu_bufs_def rx_side_def rtu_event_def ctx_shape_def split: if_splits)
qed

text \<open>
  The states of a running slave: started from a block in which the transmitter state happens to be idle,
  then polled, the other threads changing the electrical quantities in between.
\<close>

inductive slave_reach :: "fmodbus_t \<Rightarrow> mbs_t \<Rightarrow> bool" where
  start: "mbs_start_MDL (Some raw) os thr m = Inr (0, Some ctx) \<Longrightarrow>
    eMBEnable (Some tv) ctx = Inr (MB_ENOERR, c) \<Longrightarrow> ctx_shape raw \<Longrightarrow>
    eSndState raw = STATE_TX_IDLE \<Longrightarrow> mbs_ok w \<Longrightarrow> slave_reach c w"
| poll: "slave_reach ctx w \<Longrightarrow> list_all sel_ok (os_reads os) \<Longrightarrow>
    eMBPoll xFuncHandlers os ctx w = Inr (st, c, w', out) \<Longrightarrow> slave_reach c w'"
| others: "slave_reach ctx w \<Longrightarrow> mbs_ok w' \<Longrightarrow> slave_reach ctx w'"

lemma xFuncHandlers_ok: "table_ok xFuncHandlers"
  by (simp add: table_ok_def xFuncHandlers_def list_all_iff)

lemma full_frame_asserts:
  assumes "slave_ok ctx w" "full_frame_pending ctx"
  shows "eMBPoll tab os ctx w = Inl Assert_failed"
  using assms by (simp add: eMBPoll_def xMBPortEventGet_def slave_ok_def full_frame_pending_def
      poll_received_def eMBRTUReceive_def MB_SER_PDU_SIZE_MAX_def)

lemma reach_ok: "slave_reach ctx w \<Longrightarrow> slave_ok ctx w"
proof (induction rule: slave_reach.induct)
  case (start raw os thr m ctx tv c w)
  then show ?case by (rule start_ok)
next
  case (poll ctx w os st c w' out)
  have "\<not> full_frame_pending ctx" using full_frame_asserts[OF poll.IH, of xFuncHandlers os] poll.hyps(3) by auto
  then show ?case using poll_ok[OF poll.IH xFuncHandlers_ok poll.hyps(2)] poll.hyps(3) by auto
next
  case (others ctx w w')
  then show ?case by (simp add: slave_ok_def)
qed

text \<open>Two polls after a correct frame arrives, the request waits for execution.\<close>

lemma request_arrives:
  assumes "slave_ok ctx w" "waiting ctx" "1 \<le> length pdu" "length pdu \<le> 252"
    and "os_reads os1 = line_frame t ((ucMBAddress ctx # pdu) @ crc_bytes (ucMBAddress ctx # pdu))"
    and "os_now os1 = Some t'" "ulDeltaMS t' t > ulTimeOut ctx"
  shows "\<exists>c1 c2 rest. eMBPoll tab os1 ctx w = Inr (MB_ENOERR, c1, w, []) \<and>
    eMBPoll tab os2 c1 w = Inr (MB_ENOERR, c2, w, []) \<and> slave_ok c2 w \<and> cfg c2 = cfg ctx \<and>
    xEventInQueue c2 \<and> eQueuedEvent c2 = EV_EXECUTE \<and> usLength c2 = of_nat (length pdu) \<and>
    ucRcvAddress c2 = ucMBAddress ctx \<and> ucRTUBuf c2 = ucMBAddress ctx # pdu @ rest"
proof -
  let ?a = "ucMBAddress ctx"
  let ?bs = "(?a # pdu) @ crc_bytes (?a # pdu)"
  have en: "eMBState ctx = STATE_ENABLED" and mok: "mbs_ok w" using assms(1) by (auto simp: slave_ok_def)
  have lb: "length ?bs = length pdu + 3" by (simp add: crc_bytes_def)
  obtain c1 where c1: "eMBPoll tab os1 ctx w = Inr (MB_ENOERR, c1, w, [])" "rtu_inv c1"
    "cfg c1 = cfg ctx" "xEventInQueue c1" "eQueuedEvent c1 = EV_FRAME_RECEIVED"
    "unat (usRcvBufferPos c1) = length ?bs" "take (length ?bs) (ucRTUBuf c1) = ?bs"
    using poll_takes_frame[OF assms(2) en _ _ assms(5,6,7)] lb assms(4) by (auto simp del: append_Cons)
  have cf: "eMBState c1 = STATE_ENABLED" "ucMBAddress c1 = ?a" using c1(3) en by (auto simp: cfg_def)
  have "4 \<le> length ?bs" "length ?bs < 256" "hd ?bs = ucMBAddress c1"
    using lb assms(3,4) cf(2) by auto
  from poll_receives[OF c1(2) cf(1) c1(4-7) this(1,2) crc_bytes_zero this(3), of tab os2 w]
  obtain c2 where c2: "eMBPoll tab os2 c1 w = Inr (MB_ENOERR, c2, w, [])" "rtu_inv c2"
    "cfg c2 = cfg c1" "xEventInQueue c2" "eQueuedEvent c2 = EV_EXECUTE" "unat (usLength c2) = length pdu"
    "ucRcvAddress c2 = ?a" "ucRTUBuf c2 = ucRTUBuf c1"
    using lb by auto
  have "take (1 + length pdu) (ucRTUBuf c2) = ?a # pdu"
    using arg_cong[OF c1(7), of "take (1 + length pdu)"] c2(8) lb by (simp add: min_def)
  then have "ucRTUBuf c2 = ?a # pdu @ drop (1 + length pdu) (ucRTUBuf c2)"
    using append_take_drop_id[of "1 + length pdu" "ucRTUBuf c2"] by simp
  moreover have "usLength c2 = of_nat (length pdu)" unfolding c2(6)[symmetric] by simp
  ultimately show ?thesis
    using c1 c2 slave_ok_cfg[OF assms(1) c2(2) _ mok] by auto
qed

section \<open>Properties\<close>


text \<open>The four polls that answer a request, and the state they leave: the event of the sent frame is still queued.\<close>

lemma request_answered:
  assumes "slave_ok ctx w" "waiting ctx" "ucMBAddress ctx \<noteq> 0"
    and "1 \<le> length pdu" "length pdu \<le> 252"
    and "os_reads os1 = line_frame t ((ucMBAddress ctx # pdu) @ crc_bytes (ucMBAddress ctx # pdu))"
    and "os_now os1 = Some t'" "ulDeltaMS t' t > ulTimeOut ctx"
    and "list_all (\<lambda>r. r \<noteq> Write_error) (os_writes os4)"
  obtains c w' rest ex f' n' where
    "dispatch xFuncHandlers ctx w (hd pdu) (pdu @ rest) (of_nat (length pdu)) = Inr (ex, w', f', n')"
    "length (pdu @ rest) = 255"
    "poll_loop xFuncHandlers [os1, os2, os3, os4] ctx w =
      Inr (c, w', [[], [], [], ucMBAddress ctx # reply_bytes (hd pdu) ex f' n'
        @ crc_bytes (ucMBAddress ctx # reply_bytes (hd pdu) ex f' n')])"
    "rx_side c" "eQueuedEvent c = EV_FRAME_SENT" "rtu_inv c" "xEventInQueue c" "cfg c = cfg ctx" "mbs_ok w'"
proof -
  have mok: "mbs_ok w" using assms(1) by (simp add: slave_ok_def)
  obtain c1 c2 rest where c: "eMBPoll xFuncHandlers os1 ctx w = Inr (MB_ENOERR, c1, w, [])"
    "eMBPoll xFuncHandlers os2 c1 w = Inr (MB_ENOERR, c2, w, [])" "slave_ok c2 w" "cfg c2 = cfg ctx"
    "xEventInQueue c2" "eQueuedEvent c2 = EV_EXECUTE" "usLength c2 = of_nat (length pdu)"
    "ucRcvAddress c2 = ucMBAddress ctx" "ucRTUBuf c2 = ucMBAddress ctx # pdu @ rest"
    using request_arrives[OF assms(1,2,4-8)] by blast
  have code: "ucRTUBuf c2 ! 1 = hd pdu" using c(9) assms(4) by (cases pdu) auto
  have len: "length (drop 1 (ucRTUBuf c2)) = 255" using c(3) by (simp add: slave_ok_def rtu_inv_def rtu_bufs_def)
  then obtain ex w' f' n' where d: "dispatch xFuncHandlers c2 w (ucRTUBuf c2 ! 1) (drop 1 (ucRTUBuf c2))
      (usLength c2) = Inr (ex, w', f', n')" "mbs_ok w'"
    using dispatch_total[OF table_handlers[OF c(3)] xFuncHandlers_ok mok order_eq_refl[OF len[symmetric]]] by blast
  define body where "body = ucMBAddress ctx # reply_bytes (hd pdu) ex f' n'"
  have adr: "ucMBAddress c2 = ucMBAddress ctx" using c(4) by (simp add: cfg_def)
  obtain c3 where c3: "eMBPoll xFuncHandlers os3 c2 w = Inr (MB_ENOERR, c3, w', [])" "rtu_inv c3" "tx_side c3"
    "cfg c3 = cfg c2" "\<not> xEventInQueue c3" "pucSndBufferCur c3 = 0"
    "unat (usSndBufferCount c3) = length body + 2" "take (length body + 2) (ucRTUBuf c3) = body @ crc_bytes body"
    using poll_executes[OF c(3) xFuncHandlers_ok c(5,6) _ d(1)] c(8) assms(3) adr code
    by (auto simp: body_def MB_ADDRESS_BROADCAST_def)
  have "eMBState c3 = STATE_ENABLED" using c3(4) c(3) by (simp add: cfg_def slave_ok_def)
  then obtain c4 where c4: "eMBPoll xFuncHandlers os4 c3 w' = Inr (MB_ENOERR, c4, w', body @ crc_bytes body)" "rx_side c4"
    "eQueuedEvent c4 = EV_FRAME_SENT" "rtu_inv c4" "xEventInQueue c4" "cfg c4 = cfg c3"
    using poll_sends[OF c3(2) _ c3(3,5,6) assms(9)] c3(7,8) by auto
  have "dispatch xFuncHandlers ctx w (hd pdu) (pdu @ rest) (of_nat (length pdu)) = Inr (ex, w', f', n')"
    using d(1) c(7,9) code dispatch_cfg[OF c(4)] by simp
  moreover have "poll_loop xFuncHandlers [os1, os2, os3, os4] ctx w = Inr (c4, w', [[], [], [], body @ crc_bytes body])"
    using c(1,2) c3(1) c4(1) by simp
  moreover have "length (pdu @ rest) = 255" using len c(9) by simp
  ultimately show ?thesis using that c4(2-6) c3(4) c(4) d(2) by (simp add: body_def)
qed

text \<open>C1: a correct request is answered. When the receiver waits and a frame with the address of the
  slave, a body of 1 to 252 bytes and the right CRC arrives, then four polls later the slave has put
  on the line its address, the response of the function handler (or the function code with the
  top bit set and the exception code), and the CRC of these bytes, and listens again.\<close>

theorem request_is_answered:
  assumes "slave_ok ctx w" "waiting ctx" "ucMBAddress ctx \<noteq> 0"
    and "1 \<le> length pdu" "length pdu \<le> 252"
    and "os_reads os1 = line_frame t ((ucMBAddress ctx # pdu) @ crc_bytes (ucMBAddress ctx # pdu))"
    and "os_now os1 = Some t'" "ulDeltaMS t' t > ulTimeOut ctx"
    and "list_all (\<lambda>r. r \<noteq> Write_error) (os_writes os4)"
  shows "\<exists>c w' rest ex f' n'.
    let body = ucMBAddress ctx # reply_bytes (hd pdu) ex f' n' in
    dispatch xFuncHandlers ctx w (hd pdu) (pdu @ rest) (of_nat (length pdu)) = Inr (ex, w', f', n') \<and>
    poll_loop xFuncHandlers [os1, os2, os3, os4] ctx w = Inr (c, w', [[], [], [], body @ crc_bytes body]) \<and>
    rx_side c"
proof -
  obtain c w' rest ex f' n' where
    "dispatch xFuncHandlers ctx w (hd pdu) (pdu @ rest) (of_nat (length pdu)) = Inr (ex, w', f', n')"
    "poll_loop xFuncHandlers [os1, os2, os3, os4] ctx w =
      Inr (c, w', [[], [], [], ucMBAddress ctx # reply_bytes (hd pdu) ex f' n'
        @ crc_bytes (ucMBAddress ctx # reply_bytes (hd pdu) ex f' n')])" "rx_side c"
    by (rule request_answered[OF assms])
  then show ?thesis unfolding Let_def append_Cons
    by - (intro exI conjI, assumption+)
qed

text \<open>C40: a burst of exactly 256 bytes stops the program: the receiver stores all of them, since it accepts
  positions up to the buffer size, the expired timer announces the frame, and the next poll fails the
  assertion that a frame is shorter than the buffer.\<close>

theorem full_frame_stops_slave:
  assumes "slave_ok ctx w" "waiting ctx" "length bs = 256"
    and "os_reads os1 = line_frame t bs" "os_now os1 = Some t'" "ulDeltaMS t' t > ulTimeOut ctx"
  shows "poll_loop tab [os1, os2] ctx w = Inl Assert_failed"
proof -
  have en: "eMBState ctx = STATE_ENABLED" and mok: "mbs_ok w" using assms(1) by (auto simp: slave_ok_def)
  obtain c where c: "eMBPoll tab os1 ctx w = Inr (MB_ENOERR, c, w, [])" "rtu_inv c" "cfg c = cfg ctx"
    "xEventInQueue c" "eQueuedEvent c = EV_FRAME_RECEIVED" "unat (usRcvBufferPos c) = 256"
    using poll_takes_frame[OF assms(2) en _ _ assms(4,5,6), of tab w] assms(3) by fastforce
  have "full_frame_pending c" using c by (simp add: full_frame_pending_def)
  then have "eMBPoll tab os2 c w = Inl Assert_failed"
    using full_frame_asserts slave_ok_cfg[OF assms(1) c(2,3) mok] by blast
  then show ?thesis using c(1) by simp
qed

text \<open>Fact: the inter-frame timer does not measure milliseconds: microseconds are multiplied by 1000
  instead of divided, so with any timeout below 1000 the timer counts as expired one microsecond
  after it was started, and a pause of one microsecond inside a frame ends it.\<close>

theorem timer_expires_after_one_microsecond:
  assumes "bTimeoutEnable ctx" "ulTimeOut ctx < 1000" "xTimeLast ctx = (s, u)"
    and "u < u'" "u' - u < 1000000"
  shows "vMBPortTimerPoll expired (Some (s, u')) ctx = expired (ctx\<lparr>bTimeoutEnable := False\<rparr>)"
proof -
  have d: "ulDeltaMS (s, u') (s, u) = word_of_int ((u' - u) * 1000)" by (simp add: ulDeltaMS_def)
  have small: "uint (word_of_int x :: ULONG) = x" if "0 \<le> x" "x < 2 ^ 64" for x
    using that by (simp add: unsigned_of_int take_bit_int_eq_self)
  have "uint (ulDeltaMS (s, u') (s, u)) = (u' - u) * 1000"
    unfolding d by (rule small) (use assms(4,5) in auto)
  moreover have "uint (ulTimeOut ctx) < 1000" using assms(2) by (simp add: word_less_def)
  ultimately have "ulDeltaMS (s, u') (s, u) > ulTimeOut ctx"
    using assms(4) by (simp add: word_less_def)
  then show ?thesis using assms by (simp add: vMBPortTimerPoll_def)
qed

section \<open>A concrete slave\<close>

definition raw_example :: fmodbus_t where
  "raw_example =
     \<lparr>mbsidx = 0, eMBCurrentMode = MB_RTU, ucMBAddress = 0, szPort = '''', ulBaudRate = 0,
      eParity = MB_PAR_NONE, ucDataBits = 0, iSerialFd = 0, bRxEnabled = False, bTxEnabled = False,
      ulTimeoutMs = 0, ucBuffer = replicate 256 0, uiRxBufferPos = 0, uiTxBufferPos = 0, ulTimeOut = 0,
      bTimeoutEnable = False, xTimeLast = (0, 0), ucMBSlaveID = [], eMBState = STATE_ENABLED,
      ucMBFrame = None, ucRcvAddress = 0, ucFunctionCode = 0, usLength = 0, eException = MB_EX_NONE,
      eQueuedEvent = EV_READY, xEventInQueue = False, eSndState = STATE_TX_IDLE, eRcvState = STATE_RX_INIT,
      ucRTUBuf = replicate 256 0, pucSndBufferCur = 0, usSndBufferCount = 0, usRcvBufferPos = 0\<rparr>"

definition serial_example :: serial_os where
  "serial_example = \<lparr>os_open = 5, os_tcgetattr = True, os_cfsetispeed = True, os_cfsetospeed = True,
     os_tcsetattr = True\<rparr>"

definition waiting_example :: fmodbus_t where
  "waiting_example = raw_example\<lparr>ucMBAddress := 1, ulTimeOut := 4, bRxEnabled := True,
     eRcvState := STATE_RX_IDLE\<rparr>"

lemma waiting_example_ok: "slave_ok waiting_example mbs_example" "waiting waiting_example"
  using mbs_example_ok
  by (simp_all add: slave_ok_def waiting_def rtu_inv_def rtu_bufs_def rx_side_def rtu_event_def
      waiting_example_def raw_example_def MBSIDX_MDL_def)

definition quiet :: poll_os where
  "quiet = \<lparr>os_reads = [], os_writes = [], os_now = None\<rparr>"

definition request_os :: "UCHAR list \<Rightarrow> poll_os" where
  "request_os bs = \<lparr>os_reads = line_frame (7, 100) bs, os_writes = [], os_now = Some (7, 200)\<rparr>"

lemma start_example:
  "\<exists>c. slave_reach c mbs_example \<and> \<not> full_frame_pending c"
proof -
  let ?m = "(MDL mbs_example)\<lparr>m_szSerial := ''/dev/ttyS1''\<rparr>"
  obtain ctx where ctx: "mbs_start_MDL (Some raw_example) serial_example True ?m = Inr (0, Some ctx)"
    "eMBState ctx = STATE_DISABLED" "\<not> xEventInQueue ctx"
    by (simp add: mbs_start_MDL_def eMBInit_def mbs_example_def sim_init_def MB_ADDRESS_BROADCAST_def
        MB_ADDRESS_MIN_def MB_ADDRESS_MAX_def eMBRTUInit_def xMBPortSerialInit_def serial_example_def
        vMBPortSerialEnable_def usTimerT35_50us_def xMBPortTimersInit_def xMBPortSerialSetTimeout_def
        xMBPortEventInit_def eMBSetSlaveID_def MB_FUNC_OTHER_REP_SLAVEID_BUF_def Let_def)
  obtain c where c: "eMBEnable (Some (7, 0)) ctx = Inr (MB_ENOERR, c)" "\<not> xEventInQueue c"
    using ctx by (simp add: eMBEnable_def eMBRTUStart_def vMBPortSerialEnable_def vMBPortTimersEnable_def)
  have "slave_reach c mbs_example"
    by (rule slave_reach.start[OF ctx(1) c(1) _ _ mbs_example_ok])
      (simp_all add: ctx_shape_def raw_example_def)
  then show ?thesis using c(2) by (auto simp: full_frame_pending_def)
qed


theorem request_is_answered_witness:
  "\<exists>c w' body. poll_loop xFuncHandlers
     [request_os ([1, 3, 0x60, 0x20, 0, 3] @ crc_bytes [1, 3, 0x60, 0x20, 0, 3]), quiet, quiet, quiet]
     waiting_example mbs_example = Inr (c, w', [[], [], [], body @ crc_bytes body])"
proof -
  have a: "ucMBAddress waiting_example = 1" "ulTimeOut waiting_example = 4"
    by (simp_all add: waiting_example_def)
  show ?thesis
    using request_is_answered[OF waiting_example_ok, of "[3, 0x60, 0x20, 0, 3]"
        "request_os ((1 # [3, 0x60, 0x20, 0, 3]) @ crc_bytes (1 # [3, 0x60, 0x20, 0, 3]))" "(7, 100)" "(7, 200)"
        quiet quiet quiet, unfolded a Let_def]
    by (simp add: request_os_def quiet_def ulDeltaMS_def del: poll_loop.simps append_Cons) blast
qed

theorem full_frame_stops_slave_witness:
  "poll_loop xFuncHandlers [request_os (replicate 256 0), quiet] waiting_example mbs_example = Inl Assert_failed"
  by (rule full_frame_stops_slave[OF waiting_example_ok, of "replicate 256 0" _ "(7, 100)" "(7, 200)"])
    (simp_all add: request_os_def ulDeltaMS_def waiting_example_def)

theorem timer_expires_after_one_microsecond_witness:
  "vMBPortTimerPoll xMBRTUTimerT35Expired (Some (7, 101))
     (waiting_example\<lparr>bTimeoutEnable := True, xTimeLast := (7, 100), eRcvState := STATE_RX_RCV\<rparr>)
   = xMBRTUTimerT35Expired (waiting_example\<lparr>xTimeLast := (7, 100), eRcvState := STATE_RX_RCV, bTimeoutEnable := False\<rparr>)"
  using timer_expires_after_one_microsecond
    [of "waiting_example\<lparr>bTimeoutEnable := True, xTimeLast := (7, 100), eRcvState := STATE_RX_RCV\<rparr>" 7 100 101]
  by (simp add: waiting_example_def)

end
