(* ===== verification/Sqlite.thy ===== *)
theory Sqlite
  imports Prelude
begin

text \<open>
  The interface of the program to SQLite, whose source is not part of the repository. One call of
  \<open>sqlite3_exec\<close> is a function from the statement text and the database to the rows
  it produces, the code it ends with and the database afterwards; the callbacks run over these rows.
\<close>

section \<open>Rows\<close>

text \<open>A row as a callback sees it: column names and values, \<open>None\<close> for a null pointer.\<close>

type_synonym row = "(string \<times> string option) list"

type_synonym 'db exec = "string \<Rightarrow> 'db \<Rightarrow> int \<times> row list \<times> 'db"

definition SQLITE_OK :: int where
  "SQLITE_OK = 0"

definition SQLITE_ABORT :: int where
  "SQLITE_ABORT = 4"

text \<open>
  \<open>atoi(columnvalue[i])\<close> and \<open>strcpy(dst, columnvalue[i])\<close>: both dereference the value.
\<close>

definition col_int :: "string option \<Rightarrow> (int \<Rightarrow> 'a) \<Rightarrow> 'a res" where
  "col_int v f = (case v of None \<Rightarrow> Inl Null_deref | Some s \<Rightarrow> Inr (f (atoi s)))"

definition col_str :: "nat \<Rightarrow> string option \<Rightarrow> (string \<Rightarrow> 'a) \<Rightarrow> 'a res" where
  "col_str n v f =
     (case v of None \<Rightarrow> Inl Null_deref | Some s \<Rightarrow> bind_res (strcpy_buf n s) (\<lambda>t. Inr (f t)))"

lemma col_int_Some [simp]: "col_int (Some s) f = Inr (f (atoi s))"
  by (simp add: col_int_def)

lemma col_str_Some [simp]: "length s < n \<Longrightarrow> col_str n (Some s) f = Inr (f s)"
  by (simp add: col_str_def)

section \<open>Executing a statement with a callback\<close>

text \<open>
  The callback runs on one row after the other and threads the data behind its parameter; a value other than
  zero stops the statement with \<open>SQLITE_ABORT\<close>.
\<close>

fun run_callback :: "(row \<Rightarrow> 's \<Rightarrow> (int \<times> 's) res) \<Rightarrow> int \<Rightarrow> row list \<Rightarrow> 's \<Rightarrow> (int \<times> 's) res" where
  "run_callback cb rc [] s = Inr (rc, s)"
| "run_callback cb rc (r # rs) s =
     bind_res (cb r s) (\<lambda>(ret, s'). if ret \<noteq> 0 then Inr (SQLITE_ABORT, s') else run_callback cb rc rs s')"

definition sqlite3_exec ::
  "'db exec \<Rightarrow> string \<Rightarrow> (row \<Rightarrow> 's \<Rightarrow> (int \<times> 's) res) \<Rightarrow> 's \<Rightarrow> 'db \<Rightarrow> (int \<times> 's \<times> 'db) res" where
  "sqlite3_exec ex sql cb s db =
     (case ex sql db of (rc, rows, db') \<Rightarrow>
        bind_res (run_callback cb rc rows s) (\<lambda>(rc', s'). Inr (rc', s', db')))"

text \<open>The parameter of the configuration callbacks.\<close>

record dbcbparam_t =
  cb_idx :: int
  cb_ret :: int
  cb_nrow :: int

end
