(* ===== verification/Mqtt.thy ===== *)
theory Mqtt
  imports StateMachine RingBuffers Mbs Sqlite
begin

text \<open>
  The MQTT uplink: \<open>platform/util/mqtt/mqtt.c\<close> and its state machine \<open>mqtt_sm.c\<close>. The MQTT client library
  is a parameter: what its calls return in one iteration is the record \<open>mqtt_os\<close>. The ghost
  field \<open>mq_confirmed\<close> collects the messages whose delivery the library has confirmed.
\<close>

section \<open>Data\<close>

definition SMST_OFFLINE :: int where
  "SMST_OFFLINE = 11"

definition SMST_READY :: int where
  "SMST_READY = 19"

definition CMD_SM_DONE :: int where
  "CMD_SM_DONE = 0"

definition CMD_SM_OFFLINE :: int where
  "CMD_SM_OFFLINE = 1"

definition CMD_SM_READY :: int where
  "CMD_SM_READY = 9"

definition CMD_MQTT_SENDKV :: int where
  "CMD_MQTT_SENDKV = 802"

record mqtt_t =
  mq_dbg :: int
  mq_cli :: bool
  mq_enable :: int
  mq_szservip :: string
  mq_servport :: int
  mq_szclientid :: string
  mq_szaccesstoken :: string
  mq_szusername :: string
  mq_szpasswd :: string
  mq_timezone :: int
  mq_connlost :: int
  mq_cmd :: int
  mq_txbuf_usage :: dbl
  mq_rxbuf_usage :: dbl
  mq_pub_starttime :: dbl
  mq_pub_endtime :: dbl
  mq_pub_totaltime :: dbl
  mq_pub_totalcnt :: dbl
  mq_pub_max :: dbl
  mq_pub_ave :: dbl
  mq_pub_failed :: int
  mq_pub_totalFailcnt :: dbl
  mq_pub_maxFailcnt :: dbl
  mq_sm :: statemachine_t
  mqtt_txbuf :: mqtt_ringbuffer_t
  mqtt_rxbuf :: mqtt_ringbuffer_t
  mq_confirmed :: "(string \<times> string) list"

text \<open>
  The answers of the libraries and the clock in one iteration: the generated UUID text, the handle after
  \<open>MQTTClient_create\<close> and the return codes of connect, subscribe, publish and wait.
\<close>

record mqtt_os =
  mo_now :: timeval
  mo_uuid_ok :: bool
  mo_uuid :: string
  mo_create :: bool
  mo_connect :: int
  mo_subscribe :: int
  mo_publish :: int
  mo_wait :: int
  mo_pub_start :: timeval
  mo_pub_end :: timeval

definition MQTTCLIENT_SUCCESS :: int where
  "MQTTCLIENT_SUCCESS = 0"

section \<open>Buffers, commands and accessors\<close>

definition mqtt_get_timeofday :: "timeval \<Rightarrow> dbl" where
  "mqtt_get_timeofday tv =
     dbl_add (dbl_mul (dbl_round (of_int (fst tv))) 1000) (dbl_div (dbl_round (of_int (snd tv))) 1000)"

definition mqtt_connlost :: "mqtt_t \<Rightarrow> mqtt_t" where
  "mqtt_connlost m = m\<lparr>mq_connlost := 1\<rparr>"

definition mqtt_init_txbuf :: "mqtt_t \<Rightarrow> mqtt_t" where
  "mqtt_init_txbuf m = m\<lparr>mqtt_txbuf := mqtt_ringbuffer_init (mqtt_txbuf m)\<rparr>"

definition mqtt_queue_txbuf :: "mqtt_ringbuffer_element_t \<Rightarrow> mqtt_t \<Rightarrow> mqtt_t" where
  "mqtt_queue_txbuf e m = m\<lparr>mqtt_txbuf := mqtt_ringbuffer_queue (mqtt_txbuf m) e\<rparr>"

definition mqtt_dequeue_txbuf :: "mqtt_t \<Rightarrow> mqtt_ringbuffer_element_t option \<times> mqtt_t" where
  "mqtt_dequeue_txbuf m =
     (case mqtt_ringbuffer_dequeue (mqtt_txbuf m) of (r, b) \<Rightarrow> (r, m\<lparr>mqtt_txbuf := b\<rparr>))"

text \<open>The index argument is ignored.\<close>

definition mqtt_peek_txbuf :: "mqtt_t \<Rightarrow> int \<Rightarrow> mqtt_ringbuffer_element_t option" where
  "mqtt_peek_txbuf m index = mqtt_ringbuffer_peek (mqtt_txbuf m) 0"

definition mqtt_init_rxbuf :: "mqtt_t \<Rightarrow> mqtt_t" where
  "mqtt_init_rxbuf m = m\<lparr>mqtt_rxbuf := mqtt_ringbuffer_init (mqtt_rxbuf m)\<rparr>"

definition mqtt_queue_rxbuf :: "mqtt_ringbuffer_element_t \<Rightarrow> mqtt_t \<Rightarrow> mqtt_t" where
  "mqtt_queue_rxbuf e m = m\<lparr>mqtt_rxbuf := mqtt_ringbuffer_queue (mqtt_rxbuf m) e\<rparr>"

definition mqtt_dequeue_rxbuf :: "mqtt_t \<Rightarrow> mqtt_ringbuffer_element_t option \<times> mqtt_t" where
  "mqtt_dequeue_rxbuf m =
     (case mqtt_ringbuffer_dequeue (mqtt_rxbuf m) of (r, b) \<Rightarrow> (r, m\<lparr>mqtt_rxbuf := b\<rparr>))"

definition mqtt_peek_rxbuf :: "mqtt_t \<Rightarrow> int \<Rightarrow> mqtt_ringbuffer_element_t option" where
  "mqtt_peek_rxbuf m index = mqtt_ringbuffer_peek (mqtt_rxbuf m) 0"

definition mqtt_get_cmd :: "mqtt_t \<Rightarrow> int" where
  "mqtt_get_cmd m = mq_cmd m"

definition mqtt_reset_cmd :: "mqtt_t \<Rightarrow> mqtt_t" where
  "mqtt_reset_cmd m = m\<lparr>mq_cmd := CMD_SM_DONE\<rparr>"

definition mqtt_send_sm_cmd :: "int \<Rightarrow> mqtt_t \<Rightarrow> mqtt_t" where
  "mqtt_send_sm_cmd c m = m\<lparr>mq_cmd := c\<rparr>"

definition mqtt_get_state :: "mqtt_t \<Rightarrow> int" where
  "mqtt_get_state m = sm_state (mq_sm m)"

definition mqtt_get_tz :: "mqtt_t \<Rightarrow> int" where
  "mqtt_get_tz m = mq_timezone m"

definition mqtt_get_txbuf_used :: "mqtt_t \<Rightarrow> int" where
  "mqtt_get_txbuf_used m = mqtt_ringbuffer_num_items (mqtt_txbuf m)"

definition mqtt_get_txbuf_size :: "mqtt_t \<Rightarrow> int" where
  "mqtt_get_txbuf_size m = mqtt_ringbuffer_size (mqtt_txbuf m)"

definition mqtt_get_rxbuf_used :: "mqtt_t \<Rightarrow> int" where
  "mqtt_get_rxbuf_used m = mqtt_ringbuffer_num_items (mqtt_rxbuf m)"

definition mqtt_get_rxbuf_size :: "mqtt_t \<Rightarrow> int" where
  "mqtt_get_rxbuf_size m = mqtt_ringbuffer_size (mqtt_rxbuf m)"

definition mqtt_get_state_str :: "mqtt_t \<Rightarrow> string" where
  "mqtt_get_state_str m = sm_szstate (mq_sm m)"

definition mqtt_get_stp :: "mqtt_t \<Rightarrow> int" where
  "mqtt_get_stp m = sm_step (mq_sm m)"

definition mqtt_get_err_str :: "mqtt_t \<Rightarrow> string" where
  "mqtt_get_err_str m = sm_szerrcode (mq_sm m)"

definition mqtt_get_tick :: "mqtt_t \<Rightarrow> int" where
  "mqtt_get_tick m = uint (sm_tick (mq_sm m))"

definition mqtt_get_timing_ave :: "mqtt_t \<Rightarrow> dbl" where
  "mqtt_get_timing_ave m = timing_ave (mq_sm m)"

definition mqtt_get_timing_cur :: "mqtt_t \<Rightarrow> dbl" where
  "mqtt_get_timing_cur m = timing_cur (mq_sm m)"

definition mqtt_get_timing_max :: "mqtt_t \<Rightarrow> dbl" where
  "mqtt_get_timing_max m = timing_max (mq_sm m)"

definition mqtt_get_enable :: "mqtt_t \<Rightarrow> int" where
  "mqtt_get_enable m = mq_enable m"

definition mqtt_get_servip_str :: "mqtt_t \<Rightarrow> string" where
  "mqtt_get_servip_str m = mq_szservip m"

definition mqtt_get_servport :: "mqtt_t \<Rightarrow> int" where
  "mqtt_get_servport m = mq_servport m"

definition mqtt_get_client_id :: "mqtt_t \<Rightarrow> string" where
  "mqtt_get_client_id m = mq_szclientid m"

definition mqtt_get_txbuf_usage :: "mqtt_t \<Rightarrow> dbl" where
  "mqtt_get_txbuf_usage m = mq_txbuf_usage m"

definition mqtt_get_access_token :: "mqtt_t \<Rightarrow> string" where
  "mqtt_get_access_token m = mq_szaccesstoken m"

definition mqtt_set_dbg :: "int \<Rightarrow> mqtt_t \<Rightarrow> mqtt_t" where
  "mqtt_set_dbg val m = m\<lparr>mq_dbg := val\<rparr>"

section \<open>Receiving\<close>

text \<open>
  The arrival callback: \<open>rcv\<close> is what \<open>MQTTClient_receive\<close> returns, \<open>e0\<close> the uninitialised local
  element, whose \<open>szpayload\<close> holds the 8000 bytes found on the stack.
\<close>

definition mqtt_msgarrvd ::
  "mqtt_ringbuffer_element_t \<Rightarrow> (string \<times> string) option \<Rightarrow> mqtt_t \<Rightarrow> mqtt_t res" where
  "mqtt_msgarrvd e0 rcv m =
     (case rcv of
        None \<Rightarrow> Inr m
      | Some (topic, payload) \<Rightarrow>
          bind_res (strcpy_buf 128 topic) (\<lambda>t.
          bind_res (strncpy_block (szpayload e0) payload) (\<lambda>p.
            Inr (mqtt_queue_rxbuf (e0\<lparr>sztopic := t, szpayload := p\<rparr>) m))))"

section \<open>Connecting and publishing\<close>

definition mqtt_connect :: "mqtt_os \<Rightarrow> mdl_t \<Rightarrow> mqtt_t \<Rightarrow> (int \<times> mqtt_t) res" where
  "mqtt_connect os d m =
     (let r0 = (if \<not> mo_uuid_ok os then -1 else 0)
      in bind_res (strcpy_buf 150 (m_szDevName d @ ''-'' @ show_int (m_adr d) @ ''-'' @ mo_uuid os)) (\<lambda>cid.
         bind_res (strcpy_buf 32 (m_szmqtt_servip d)) (\<lambda>ip.
         bind_res (strcpy_buf 256 (ip @ '':'' @ show_int (m_mqtt_servport d))) (\<lambda>url.
         bind_res (strcpy_buf 256 (m_szDevName d @ ''-ctl'')) (\<lambda>topic.
           let r1 = (if mo_connect os \<noteq> MQTTCLIENT_SUCCESS then -1 else r0);
               r2 = (if mo_subscribe os \<noteq> MQTTCLIENT_SUCCESS \<and> mo_subscribe os \<noteq> 2 then -2 else r1)
           in Inr (r2, m\<lparr>mq_szclientid := cid, mq_szservip := ip, mq_servport := m_mqtt_servport d,
                        mq_cli := mo_create os\<rparr>))))))"

definition mqtt_sub :: "mqtt_os \<Rightarrow> int" where
  "mqtt_sub os = (if mo_subscribe os \<noteq> MQTTCLIENT_SUCCESS then -1 else mo_subscribe os)"

definition mqtt_pub_stats :: "timeval \<Rightarrow> mqtt_t \<Rightarrow> mqtt_t" where
  "mqtt_pub_stats tend m =
     (let endtime = mqtt_get_timeofday tend;
          pub_time = dbl_sub endtime (mq_pub_starttime m);
          cnt = dbl_add (mq_pub_totalcnt m) 1;
          total = dbl_add (mq_pub_totaltime m) pub_time;
          ave = dbl_div total cnt;
          mx = (if pub_time > mq_pub_max m then pub_time else mq_pub_max m);
          over = cnt > 1000000
      in m\<lparr>mq_pub_endtime := endtime,
           mq_pub_totalcnt := (if over then 0 else cnt),
           mq_pub_totaltime := (if over then 0 else total),
           mq_pub_ave := (if over then 0 else ave),
           mq_pub_max := (if over then 0 else mx),
           mq_pub_maxFailcnt := (if of_int (mq_pub_failed m) > mq_pub_maxFailcnt m
                                 then of_int (mq_pub_failed m) else mq_pub_maxFailcnt m),
           mq_pub_totalFailcnt := dbl_add (mq_pub_totalFailcnt m) (of_int (mq_pub_failed m)),
           mq_pub_failed := 0\<rparr>)"

definition mqtt_pub :: "mqtt_os \<Rightarrow> string \<Rightarrow> string \<Rightarrow> mqtt_t \<Rightarrow> int \<times> mqtt_t" where
  "mqtt_pub os topic payload m =
     (let m1 = m\<lparr>mq_pub_starttime := mqtt_get_timeofday (mo_pub_start os)\<rparr>
      in if mo_publish os \<noteq> MQTTCLIENT_SUCCESS
         then (-2, m1\<lparr>mq_pub_failed := mq_pub_failed m1 + 1\<rparr>)
         else if mo_wait os \<noteq> MQTTCLIENT_SUCCESS
         then (-2, m1\<lparr>mq_pub_failed := mq_pub_failed m1 + 1\<rparr>)
         else (0, (mqtt_pub_stats (mo_pub_end os) m1)
                    \<lparr>mq_confirmed := mq_confirmed m1 @ [(topic, payload)]\<rparr>))"

section \<open>The state machine\<close>

definition mqtt_states :: state_tab where
  "mqtt_states = [(SMST_OFFLINE, ''offline''), (SMST_READY, ''ready'')]"

definition MQTTERR_NONE :: int where
  "MQTTERR_NONE = 0"

definition MQTTERR_OFFLINE_PWRUP :: int where
  "MQTTERR_OFFLINE_PWRUP = 1"

definition mqtt_errs :: state_tab where
  "mqtt_errs = [(MQTTERR_NONE, ''none''), (MQTTERR_OFFLINE_PWRUP, ''pwrup'')]"

definition mqtt_sm_init :: "mqtt_t \<Rightarrow> mqtt_t res" where
  "mqtt_sm_init m =
     bind_res (sm_set_state ((sm_reset_timing (mq_sm m) 100 25)
                 \<lparr>sm_states := mqtt_states, sm_errs := mqtt_errs\<rparr>) SMST_OFFLINE MQTTERR_OFFLINE_PWRUP)
       (\<lambda>s. Inr (m\<lparr>mq_sm := s\<rparr>))"

definition mqtt_set_sm :: "(statemachine_t \<Rightarrow> statemachine_t) \<Rightarrow> mqtt_t \<Rightarrow> mqtt_t" where
  "mqtt_set_sm f m = m\<lparr>mq_sm := f (mq_sm m)\<rparr>"

definition mqtt_goto :: "int \<Rightarrow> int \<Rightarrow> mqtt_t \<Rightarrow> mqtt_t res" where
  "mqtt_goto st err m = bind_res (sm_set_state (mq_sm m) st err) (\<lambda>s. Inr (m\<lparr>mq_sm := s\<rparr>))"

text \<open>A connection attempt: a failure destroys the handle and restarts the count.\<close>

definition mqtt_try_connect :: "mqtt_os \<Rightarrow> mdl_t \<Rightarrow> mqtt_t \<Rightarrow> mqtt_t res" where
  "mqtt_try_connect os d m =
     bind_res (mqtt_connect os d m) (\<lambda>(rc, m1).
       if rc < 0 then Inr (mqtt_set_sm (\<lambda>s. sm_set_count s 0) (m1\<lparr>mq_cli := False\<rparr>))
       else mqtt_goto SMST_READY MQTTERR_NONE (m1\<lparr>mq_connlost := 0\<rparr>))"

definition mqtt_sm_offline :: "mqtt_os \<Rightarrow> mdl_t \<Rightarrow> mqtt_t \<Rightarrow> mqtt_t res" where
  "mqtt_sm_offline os d m =
     (if sm_get_step (mq_sm m) = 0
      then Inr (mqtt_set_sm (\<lambda>s. sm_set_step s 10) (mqtt_reset_cmd m))
      else if sm_get_step (mq_sm m) = 10
      then (if mqtt_get_cmd m = CMD_SM_READY then mqtt_try_connect os d (mqtt_reset_cmd m)
            else let m1 = mqtt_set_sm sm_inc_count m in
              if sm_get_count (mq_sm m1) \<ge> 10
              then (let m2 = mqtt_set_sm (\<lambda>s. sm_set_count s 0) m1
                    in if mq_enable m2 \<noteq> 0 then mqtt_try_connect os d m2 else Inr m2)
              else Inr m1)
      else Inr m)"

text \<open>
  The forwarding step of the ready state. Between the peek and the dequeue the lock of the buffer
  is free: \<open>between\<close> is what the producer queues in that window.
\<close>

definition mqtt_forward :: "mqtt_os \<Rightarrow> mqtt_ringbuffer_element_t list \<Rightarrow> mqtt_t \<Rightarrow> mqtt_t" where
  "mqtt_forward os between m =
     (case mqtt_peek_txbuf m 0 of
        None \<Rightarrow> fold mqtt_queue_txbuf between m
      | Some e \<Rightarrow>
          (case mqtt_pub os (sztopic e) (szpayload e) m of (rc, m1) \<Rightarrow>
             let m2 = fold mqtt_queue_txbuf between m1
             in if rc = 0 then snd (mqtt_dequeue_txbuf m2) else m2))"

definition mqtt_sm_ready :: "mqtt_os \<Rightarrow> mqtt_ringbuffer_element_t list \<Rightarrow> mqtt_t \<Rightarrow> mqtt_t res" where
  "mqtt_sm_ready os between m =
     (if sm_get_step (mq_sm m) = 0
      then Inr (mqtt_set_sm (\<lambda>s. sm_set_step s 10) (mqtt_reset_cmd m))
      else if sm_get_step (mq_sm m) = 10
      then (if mqtt_get_cmd m = CMD_SM_OFFLINE
            then mqtt_goto SMST_OFFLINE MQTTERR_NONE ((mqtt_reset_cmd m)\<lparr>mq_cli := False\<rparr>)
            else if mq_connlost m \<noteq> 0
            then mqtt_goto SMST_OFFLINE MQTTERR_NONE (m\<lparr>mq_cli := False\<rparr>)
            else Inr (mqtt_forward os between m))
      else Inr m)"

definition mqtt_usages :: "mqtt_t \<Rightarrow> mqtt_t" where
  "mqtt_usages m =
     m\<lparr>mq_txbuf_usage := dbl_mul (dbl_div (of_int (mqtt_get_txbuf_used m)) (of_int (mqtt_get_txbuf_size m))) 100,
       mq_rxbuf_usage := dbl_mul (dbl_div (of_int (mqtt_get_rxbuf_used m)) (of_int (mqtt_get_rxbuf_size m))) 100\<rparr>"

definition mqtt_sm :: "mqtt_os \<Rightarrow> mdl_t \<Rightarrow> mqtt_ringbuffer_element_t list \<Rightarrow> mqtt_t \<Rightarrow> mqtt_t res" where
  "mqtt_sm os d between m =
     (let m1 = mqtt_usages (mqtt_set_sm (sm_cal_timing (mo_now os)) m)
      in if mqtt_get_state m1 = SMST_OFFLINE then mqtt_sm_offline os d m1
         else if mqtt_get_state m1 = SMST_READY then mqtt_sm_ready os between m1
         else Inr m1)"

text \<open>The start of the thread, up to its loop.\<close>

definition mqtt_thrd_main :: "mqtt_t \<Rightarrow> mqtt_t res" where
  "mqtt_thrd_main m =
     mqtt_sm_init (mqtt_init_rxbuf (mqtt_init_txbuf
       (m\<lparr>mq_enable := 1, mq_pub_totalcnt := 0, mq_pub_totaltime := 0, mq_pub_ave := 0, mq_pub_max := 0\<rparr>)))"

definition mqtt_init :: "bool \<Rightarrow> int" where
  "mqtt_init thread_ok = (if thread_ok then 0 else -1)"

text \<open>
  The row callback that reads the configuration: it counts the rows in the field \<open>nrow\<close> of its parameter
  and refuses a second one; only a row it accepts sets the field \<open>ret\<close>.
\<close>

definition mqtt_cfg_column :: "string \<times> string option \<Rightarrow> mqtt_t \<Rightarrow> mqtt_t res" where
  "mqtt_cfg_column c m =
     (case c of (name, val) \<Rightarrow>
        if name = ''enable'' then col_int val (\<lambda>v. m\<lparr>mq_enable := v\<rparr>)
        else if name = ''servip'' then col_str 32 val (\<lambda>v. m\<lparr>mq_szservip := v\<rparr>)
        else if name = ''servport'' then col_int val (\<lambda>v. m\<lparr>mq_servport := v\<rparr>)
        else if name = ''clientid'' then col_str 150 val (\<lambda>v. m\<lparr>mq_szclientid := v\<rparr>)
        else if name = ''username'' then col_str 64 val (\<lambda>v. m\<lparr>mq_szusername := v\<rparr>)
        else if name = ''passwd'' then col_str 64 val (\<lambda>v. m\<lparr>mq_szpasswd := v\<rparr>)
        else if name = ''timezone'' then col_int val (\<lambda>v. m\<lparr>mq_timezone := v\<rparr>)
        else Inr m)"

fun mqtt_cfg_columns :: "row \<Rightarrow> mqtt_t \<Rightarrow> mqtt_t res" where
  "mqtt_cfg_columns [] m = Inr m"
| "mqtt_cfg_columns (c # cs) m = bind_res (mqtt_cfg_column c m) (mqtt_cfg_columns cs)"

definition mqtt_dbcb_0 :: "row \<Rightarrow> dbcbparam_t \<times> mqtt_t \<Rightarrow> (int \<times> dbcbparam_t \<times> mqtt_t) res" where
  "mqtt_dbcb_0 cols pm =
     (case pm of (p, m) \<Rightarrow>
        let p1 = p\<lparr>cb_nrow := cb_nrow p + 1\<rparr>
        in if cb_nrow p1 > 1 then Inr (-1, p1, m)
           else bind_res (mqtt_cfg_columns cols m) (\<lambda>m'. Inr (0, p1\<lparr>cb_ret := 0\<rparr>, m')))"

section \<open>Invariant\<close>

text \<open>The device data that are copied into fixed arrays fit them.\<close>

definition mqtt_names_fit :: "mqtt_os \<Rightarrow> mdl_t \<Rightarrow> bool" where
  "mqtt_names_fit os d \<longleftrightarrow>
     length (m_szDevName d) + length (show_int (m_adr d))
       + length (mo_uuid os) + 2 < 150 \<and>
     length (m_szmqtt_servip d) < 32 \<and>
     length (m_szmqtt_servip d) + length (show_int (m_mqtt_servport d)) + 1 < 256"

definition mqtt_wf :: "mqtt_t \<Rightarrow> bool" where
  "mqtt_wf m \<longleftrightarrow>
     mqtt_ringbuffer_wf (mqtt_txbuf m) \<and> mqtt_ringbuffer_wf (mqtt_rxbuf m) \<and>
     sm_states (mq_sm m) = mqtt_states \<and> sm_errs (mq_sm m) = mqtt_errs \<and>
     sm_state (mq_sm m) \<in> {SMST_OFFLINE, SMST_READY} \<and> sm_step (mq_sm m) \<in> {0, 10} \<and>
     0 \<le> sm_count (mq_sm m) \<and> sm_count (mq_sm m) < 10"

lemmas mqtt_defs = mqtt_set_sm_def mqtt_reset_cmd_def mqtt_get_cmd_def mqtt_get_state_def
  mqtt_usages_def

lemma mqtt_sm_tables: "sm_states s = mqtt_states \<Longrightarrow> sm_errs s = mqtt_errs \<Longrightarrow> sm_wf s"
  by (simp add: sm_wf_def mqtt_states_def mqtt_errs_def tab_fits_def)

lemma mqtt_goto_ok:
  assumes "mqtt_wf m" "st \<in> {SMST_OFFLINE, SMST_READY}"
  shows "\<exists>m'. mqtt_goto st err m = Inr m' \<and> mqtt_wf m' \<and> sm_state (mq_sm m') = st \<and>
    sm_step (mq_sm m') = 0 \<and> mqtt_txbuf m' = mqtt_txbuf m \<and> mqtt_rxbuf m' = mqtt_rxbuf m \<and>
    mq_confirmed m' = mq_confirmed m \<and> mq_cli m' = mq_cli m \<and> mq_connlost m' = mq_connlost m \<and>
    mq_cmd m' = mq_cmd m \<and> mq_enable m' = mq_enable m"
proof -
  have "sm_wf (mq_sm m)" using assms(1) by (intro mqtt_sm_tables) (auto simp: mqtt_wf_def)
  then show ?thesis
    using assms by (auto simp: mqtt_goto_def sm_set_state_ok mqtt_wf_def)
qed

lemma mqtt_connect_ok:
  assumes "mqtt_names_fit os d"
  shows "\<exists>rc m'. mqtt_connect os d m = Inr (rc, m') \<and> mq_sm m' = mq_sm m \<and> mqtt_txbuf m' = mqtt_txbuf m \<and>
    mqtt_rxbuf m' = mqtt_rxbuf m \<and> mq_confirmed m' = mq_confirmed m \<and> mq_connlost m' = mq_connlost m \<and>
    mq_cmd m' = mq_cmd m \<and> mq_enable m' = mq_enable m \<and> mq_cli m' = mo_create os \<and>
    (rc = 0 \<longleftrightarrow> mo_uuid_ok os \<and> mo_connect os = 0 \<and> (mo_subscribe os = 0 \<or> mo_subscribe os = 2)) \<and>
    (rc \<noteq> 0 \<longleftrightarrow> rc < 0)"
  using assms by (auto simp: mqtt_connect_def mqtt_names_fit_def strcpy_buf_def MQTTCLIENT_SUCCESS_def Let_def)

lemma mqtt_wf_sm:
  "mqtt_wf m \<Longrightarrow> mqtt_wf (mqtt_set_sm (\<lambda>s. sm_set_count s 0) (m\<lparr>mq_cli := b\<rparr>))"
  "mqtt_wf m \<Longrightarrow> mqtt_wf (mqtt_set_sm (\<lambda>s. sm_set_step s 10) (mqtt_reset_cmd m))"
  by (auto simp: mqtt_wf_def mqtt_defs)

definition connect_succeeds :: "mqtt_os \<Rightarrow> bool" where
  "connect_succeeds os \<longleftrightarrow>
     mo_uuid_ok os \<and> mo_connect os = 0 \<and> (mo_subscribe os = 0 \<or> mo_subscribe os = 2)"

lemma mqtt_try_connect_ok:
  assumes "mqtt_wf m" "mqtt_names_fit os d"
  shows "\<exists>m'. mqtt_try_connect os d m = Inr m' \<and> mqtt_wf m' \<and> mqtt_txbuf m' = mqtt_txbuf m \<and>
    mqtt_rxbuf m' = mqtt_rxbuf m \<and> mq_confirmed m' = mq_confirmed m \<and> mq_cmd m' = mq_cmd m \<and>
    mq_enable m' = mq_enable m \<and>
    (if connect_succeeds os then sm_state (mq_sm m') = SMST_READY \<and> mq_connlost m' = 0 \<and> sm_step (mq_sm m') = 0
     else sm_state (mq_sm m') = sm_state (mq_sm m) \<and> sm_step (mq_sm m') = sm_step (mq_sm m) \<and>
       sm_count (mq_sm m') = 0 \<and> \<not> mq_cli m')"
proof -
  obtain rc m1 where c: "mqtt_connect os d m = Inr (rc, m1)" "mq_sm m1 = mq_sm m" "mqtt_txbuf m1 = mqtt_txbuf m"
    "mqtt_rxbuf m1 = mqtt_rxbuf m" "mq_confirmed m1 = mq_confirmed m" "mq_cmd m1 = mq_cmd m"
    "mq_enable m1 = mq_enable m" "rc = 0 \<longleftrightarrow> connect_succeeds os" "rc \<noteq> 0 \<longleftrightarrow> rc < 0"
    using mqtt_connect_ok[OF assms(2), of m] by (auto simp: connect_succeeds_def)
  have wf1: "mqtt_wf m1" using assms(1) c by (simp add: mqtt_wf_def)
  show ?thesis
  proof (cases "connect_succeeds os")
    case True
    have "mqtt_wf (m1\<lparr>mq_connlost := 0\<rparr>)" using wf1 by (simp add: mqtt_wf_def)
    then show ?thesis
      using mqtt_goto_ok[of "m1\<lparr>mq_connlost := 0\<rparr>" SMST_READY MQTTERR_NONE] True c
      by (auto simp: mqtt_try_connect_def)
  next
    case False
    then show ?thesis
      using c mqtt_wf_sm(1)[OF wf1] by (simp add: mqtt_try_connect_def mqtt_set_sm_def)
  qed
qed

lemma mqtt_offline_ok:
  assumes "mqtt_wf m" "mqtt_names_fit os d"
  shows "\<exists>m'. mqtt_sm_offline os d m = Inr m' \<and> mqtt_wf m' \<and> mqtt_txbuf m' = mqtt_txbuf m \<and>
    mq_confirmed m' = mq_confirmed m"
proof -
  have a: "mqtt_wf (mqtt_reset_cmd m)" using assms(1) by (simp add: mqtt_wf_def mqtt_defs)
  have b: "mqtt_wf (mqtt_set_sm (\<lambda>s. sm_set_count s 0) (mqtt_set_sm sm_inc_count m))"
    using assms(1) by (auto simp: mqtt_wf_def mqtt_defs)
  have c: "mqtt_wf (mqtt_set_sm sm_inc_count m)" if "\<not> sm_count (mq_sm m) + 1 \<ge> 10"
    using assms(1) that by (auto simp: mqtt_wf_def mqtt_defs)
  show ?thesis
    using mqtt_try_connect_ok[OF a assms(2)] mqtt_try_connect_ok[OF b assms(2)] b c mqtt_wf_sm(2)[OF assms(1)] assms(1)
    by (auto simp: mqtt_sm_offline_def Let_def mqtt_defs)
qed

text \<open>Queueing and publishing, seen on the contents of the buffer.\<close>

abbreviation tx_items :: "mqtt_t \<Rightarrow> mqtt_ringbuffer_element_t list" where
  "tx_items m \<equiv> mqtt_ringbuffer_items (mqtt_txbuf m)"

lemma MQTT_MASK_255: "nat MQTT_RING_BUFFER_MASK = 255"
  by (simp add: MQTT_RING_BUFFER_MASK_def MQTT_RING_BUFFER_SIZE_def)

lemma fold_queue_txbuf:
  "fold mqtt_queue_txbuf es m = m\<lparr>mqtt_txbuf := foldl mqtt_ringbuffer_queue (mqtt_txbuf m) es\<rparr>"
  by (induction es arbitrary: m) (simp_all add: mqtt_queue_txbuf_def)

lemma fold_queue_items:
  "mqtt_ringbuffer_wf (mqtt_txbuf m) \<Longrightarrow>
   tx_items (fold mqtt_queue_txbuf es m) = drop (length (tx_items m) + length es - 255) (tx_items m @ es)"
  using mqtt_rb.queue_all_items[of "mqtt_txbuf m" es] by (simp add: fold_queue_txbuf MQTT_MASK_255)

lemma mqtt_wf_fold_queue: "mqtt_wf m \<Longrightarrow> mqtt_wf (fold mqtt_queue_txbuf es m)"
  by (simp add: mqtt_wf_def fold_queue_txbuf mqtt_rb.queue_all_inv)

lemma mqtt_pub_frame:
  "mqtt_txbuf (snd (mqtt_pub os t p m)) = mqtt_txbuf m" "mqtt_rxbuf (snd (mqtt_pub os t p m)) = mqtt_rxbuf m"
  "mq_sm (snd (mqtt_pub os t p m)) = mq_sm m"
  "mq_confirmed (snd (mqtt_pub os t p m)) =
     (if fst (mqtt_pub os t p m) = 0 then mq_confirmed m @ [(t, p)] else mq_confirmed m)"
  by (simp_all add: mqtt_pub_def mqtt_pub_stats_def Let_def)

lemma mqtt_wf_pub: "mqtt_wf m \<Longrightarrow> mqtt_wf (snd (mqtt_pub os t p m))"
  by (simp add: mqtt_wf_def mqtt_pub_frame)

lemma mqtt_dequeue_items:
  assumes "mqtt_wf m"
  shows "tx_items (snd (mqtt_dequeue_txbuf m)) = tl (tx_items m)" "mqtt_wf (snd (mqtt_dequeue_txbuf m))"
    "mq_confirmed (snd (mqtt_dequeue_txbuf m)) = mq_confirmed m"
    "mq_sm (snd (mqtt_dequeue_txbuf m)) = mq_sm m"
proof -
  have w: "mqtt_ringbuffer_wf (mqtt_txbuf m)" using assms by (simp add: mqtt_wf_def)
  obtain r b where d: "mqtt_ringbuffer_dequeue (mqtt_txbuf m) = (r, b)" by fastforce
  have "mqtt_ringbuffer_wf b" "mqtt_ringbuffer_items b = tl (tx_items m)"
    using mqtt_rb.dequeue_inv[OF w] mqtt_rb.dequeue_items[OF w] d by auto
  then show "tx_items (snd (mqtt_dequeue_txbuf m)) = tl (tx_items m)" "mqtt_wf (snd (mqtt_dequeue_txbuf m))"
    "mq_confirmed (snd (mqtt_dequeue_txbuf m)) = mq_confirmed m" "mq_sm (snd (mqtt_dequeue_txbuf m)) = mq_sm m"
    using d assms by (simp_all add: mqtt_dequeue_txbuf_def mqtt_wf_def)
qed

lemma mqtt_peek_head:
  assumes "mqtt_wf m"
  shows "mqtt_peek_txbuf m i = (case tx_items m of [] \<Rightarrow> None | e # es \<Rightarrow> Some e)"
  using assms mqtt_rb.peek_result[of "mqtt_txbuf m" 0]
  by (auto simp: mqtt_peek_txbuf_def mqtt_wf_def split: list.split)

text \<open>The outcome of the forwarding step, with \<open>es\<close> queued between its peek and its dequeue.\<close>

lemma mqtt_forward_wf: "mqtt_wf m \<Longrightarrow> mqtt_wf (mqtt_forward os es m)"
  by (simp add: mqtt_forward_def case_prod_beta Let_def mqtt_wf_fold_queue mqtt_wf_pub mqtt_dequeue_items(2)
      split: option.split)

lemma mqtt_ready_ok:
  assumes "mqtt_wf m"
  shows "\<exists>m'. mqtt_sm_ready os es m = Inr m' \<and> mqtt_wf m'"
proof -
  have "mqtt_wf ((mqtt_reset_cmd m)\<lparr>mq_cli := False\<rparr>)" "mqtt_wf (m\<lparr>mq_cli := False\<rparr>)"
    using assms by (simp_all add: mqtt_wf_def mqtt_defs)
  from this[THEN mqtt_goto_ok, of SMST_OFFLINE MQTTERR_NONE] show ?thesis
    using mqtt_forward_wf[OF assms] mqtt_wf_sm(2)[OF assms] assms by (auto simp: mqtt_sm_ready_def)
qed

lemma mqtt_usages_wf [simp]: "mqtt_wf (mqtt_usages (mqtt_set_sm (sm_cal_timing tv) m)) = mqtt_wf m"
  by (simp add: mqtt_wf_def mqtt_defs)

lemma mqtt_sm_ok:
  assumes "mqtt_wf m" "mqtt_names_fit os d"
  shows "\<exists>m'. mqtt_sm os d es m = Inr m' \<and> mqtt_wf m'"
  using mqtt_offline_ok[of "mqtt_usages (mqtt_set_sm (sm_cal_timing (mo_now os)) m)" os d]
    mqtt_ready_ok[of "mqtt_usages (mqtt_set_sm (sm_cal_timing (mo_now os)) m)" os es] assms
  by (auto simp: mqtt_sm_def Let_def)

section \<open>Runs\<close>

text \<open>One iteration of the thread per entry: what the producer queues before it, and the library's answers.\<close>

fun mqtt_run ::
  "mdl_t \<Rightarrow> (mqtt_ringbuffer_element_t list \<times> mqtt_os) list \<Rightarrow> mqtt_t \<Rightarrow> mqtt_t res" where
  "mqtt_run d [] m = Inr m"
| "mqtt_run d ((es, os) # its) m =
     bind_res (mqtt_sm os d [] (fold mqtt_queue_txbuf es m)) (mqtt_run d its)"

definition msg_key :: "mqtt_ringbuffer_element_t \<Rightarrow> string \<times> string" where
  "msg_key e = (sztopic e, szpayload e)"

text \<open>What is confirmed and what still waits, in the order of queueing.\<close>

definition mqtt_ledger :: "mqtt_t \<Rightarrow> (string \<times> string) list" where
  "mqtt_ledger m = mq_confirmed m @ map msg_key (tx_items m)"

lemma mqtt_forward_ledger:
  assumes "mqtt_wf m"
  shows "mqtt_ledger (mqtt_forward os [] m) = mqtt_ledger m \<and>
    length (tx_items (mqtt_forward os [] m)) \<le> length (tx_items m)"
proof (cases "tx_items m")
  case Nil
  then show ?thesis by (simp add: mqtt_forward_def mqtt_peek_head[OF assms])
next
  case (Cons e es)
  let ?m1 = "snd (mqtt_pub os (sztopic e) (szpayload e) m)"
  have f: "mqtt_forward os [] m = (if fst (mqtt_pub os (sztopic e) (szpayload e) m) = 0
      then snd (mqtt_dequeue_txbuf ?m1) else ?m1)"
    by (simp add: mqtt_forward_def mqtt_peek_head[OF assms] Cons case_prod_beta Let_def)
  have "tx_items ?m1 = e # es" using Cons by (simp add: mqtt_pub_frame)
  then show ?thesis
    unfolding f using mqtt_dequeue_items[OF mqtt_wf_pub[OF assms]] Cons
    by (simp add: mqtt_ledger_def mqtt_pub_frame msg_key_def)
qed

lemma mqtt_sm_ledger:
  assumes "mqtt_wf m" "mqtt_names_fit os d"
  shows "\<exists>m'. mqtt_sm os d [] m = Inr m' \<and> mqtt_wf m' \<and> mqtt_ledger m' = mqtt_ledger m \<and>
    length (tx_items m') \<le> length (tx_items m)"
proof -
  let ?m = "mqtt_usages (mqtt_set_sm (sm_cal_timing (mo_now os)) m)"
  have wf: "mqtt_wf ?m" using assms(1) by simp
  have led: "mqtt_ledger ?m = mqtt_ledger m" "tx_items ?m = tx_items m"
    by (simp_all add: mqtt_ledger_def mqtt_defs)
  have "mqtt_wf ((mqtt_reset_cmd ?m)\<lparr>mq_cli := False\<rparr>)" "mqtt_wf (?m\<lparr>mq_cli := False\<rparr>)"
    using wf by (simp_all add: mqtt_wf_def mqtt_reset_cmd_def)
  note g = this[THEN mqtt_goto_ok, of SMST_OFFLINE MQTTERR_NONE]
  have ready: "\<exists>m'. mqtt_sm_ready os [] ?m = Inr m' \<and> mqtt_wf m' \<and> mqtt_ledger m' = mqtt_ledger ?m \<and>
      length (tx_items m') \<le> length (tx_items ?m)"
    using g mqtt_forward_ledger[OF wf, of os] mqtt_forward_wf[OF wf, of os "[]"] mqtt_wf_sm(2)[OF wf] wf
    unfolding mqtt_sm_ready_def
    by (auto simp: mqtt_ledger_def mqtt_reset_cmd_def mqtt_set_sm_def)
  have off: "\<exists>m'. mqtt_sm_offline os d ?m = Inr m' \<and> mqtt_wf m' \<and> mqtt_ledger m' = mqtt_ledger ?m \<and>
      length (tx_items m') \<le> length (tx_items ?m)"
    using mqtt_offline_ok[OF wf assms(2)] by (auto simp: mqtt_ledger_def)
  show ?thesis using ready off wf led by (auto simp: mqtt_sm_def Let_def)
qed

lemma mqtt_run_ledger:
  assumes "mqtt_wf m" "list_all (\<lambda>(es, os). mqtt_names_fit os d) its"
    "length (tx_items m) + length (concat (map fst its)) \<le> 255"
  shows "\<exists>m'. mqtt_run d its m = Inr m' \<and> mqtt_wf m' \<and>
    mqtt_ledger m' = mqtt_ledger m @ map msg_key (concat (map fst its))"
  using assms
proof (induction its arbitrary: m)
  case (Cons it its)
  obtain es os where it: "it = (es, os)" by fastforce
  let ?m = "fold mqtt_queue_txbuf es m"
  have wf: "mqtt_wf ?m" by (rule mqtt_wf_fold_queue[OF Cons.prems(1)])
  have items: "tx_items ?m = tx_items m @ es"
    using Cons.prems(1,3) it by (simp add: fold_queue_items mqtt_wf_def)
  have led: "mqtt_ledger ?m = mqtt_ledger m @ map msg_key es"
    using items by (simp add: mqtt_ledger_def fold_queue_txbuf)
  obtain m1 where m1: "mqtt_sm os d [] ?m = Inr m1" "mqtt_wf m1" "mqtt_ledger m1 = mqtt_ledger ?m"
    "length (tx_items m1) \<le> length (tx_items ?m)"
    using mqtt_sm_ledger[OF wf, of os d] Cons.prems(2) it by auto
  then show ?case
    using Cons.IH[OF m1(2)] Cons.prems(2,3) it items led by auto
qed simp

lemma mqtt_start_wf:
  assumes "length (buffer (mqtt_txbuf m)) = 256" "length (buffer (mqtt_rxbuf m)) = 256"
  shows "\<exists>m'. mqtt_thrd_main m = Inr m' \<and> mqtt_wf m' \<and> tx_items m' = [] \<and>
    mq_confirmed m' = mq_confirmed m \<and> sm_state (mq_sm m') = SMST_OFFLINE \<and> sm_step (mq_sm m') = 0 \<and>
    sm_count (mq_sm m') = 0 \<and> mq_enable m' = 1"
proof -
  have "sm_wf ((sm_reset_timing (mq_sm m) 100 25)\<lparr>sm_states := mqtt_states, sm_errs := mqtt_errs\<rparr>)"
    by (rule mqtt_sm_tables) simp_all
  then show ?thesis
    using assms mqtt_rb_init[of "mqtt_txbuf m"] mqtt_rb_init[of "mqtt_rxbuf m"]
    by (simp add: mqtt_thrd_main_def mqtt_sm_init_def mqtt_init_txbuf_def mqtt_init_rxbuf_def sm_set_state_ok
        mqtt_wf_def)
qed

section \<open>Reconnection\<close>

text \<open>While it waits offline without a command, each iteration only counts.\<close>

lemma mqtt_offline_counts:
  assumes "mqtt_wf m" "sm_state (mq_sm m) = SMST_OFFLINE" "sm_step (mq_sm m) = 10" "mq_cmd m = CMD_SM_DONE"
    "sm_count (mq_sm m) < 9"
  shows "\<exists>m'. mqtt_sm os d [] m = Inr m' \<and> mqtt_wf m' \<and> sm_state (mq_sm m') = SMST_OFFLINE \<and>
    sm_step (mq_sm m') = 10 \<and> mq_cmd m' = CMD_SM_DONE \<and> sm_count (mq_sm m') = sm_count (mq_sm m) + 1 \<and>
    mq_enable m' = mq_enable m"
  using assms
  by (auto simp: mqtt_sm_def mqtt_sm_offline_def mqtt_defs Let_def mqtt_wf_def CMD_SM_DONE_def CMD_SM_READY_def)

lemma mqtt_offline_counts_run:
  assumes "mqtt_wf m" "sm_state (mq_sm m) = SMST_OFFLINE" "sm_step (mq_sm m) = 10" "mq_cmd m = CMD_SM_DONE"
    "sm_count (mq_sm m) + int (length oss) \<le> 9"
  shows "\<exists>m'. mqtt_run d (map (Pair []) oss) m = Inr m' \<and> mqtt_wf m' \<and> sm_state (mq_sm m') = SMST_OFFLINE \<and>
    sm_step (mq_sm m') = 10 \<and> mq_cmd m' = CMD_SM_DONE \<and>
    sm_count (mq_sm m') = sm_count (mq_sm m) + int (length oss) \<and> mq_enable m' = mq_enable m"
  using assms
proof (induction oss arbitrary: m)
  case (Cons os oss)
  obtain m1 where m1: "mqtt_sm os d [] m = Inr m1" "mqtt_wf m1" "sm_state (mq_sm m1) = SMST_OFFLINE"
    "sm_step (mq_sm m1) = 10" "mq_cmd m1 = CMD_SM_DONE" "sm_count (mq_sm m1) = sm_count (mq_sm m) + 1"
    "mq_enable m1 = mq_enable m"
    using mqtt_offline_counts[OF Cons.prems(1-4), of os d] Cons.prems(5) by auto
  show ?case using Cons.IH[OF m1(2-5)] m1(1,6,7) Cons.prems(5) by auto
qed simp

lemma mqtt_run_append:
  "mqtt_run d (xs @ ys) m = bind_res (mqtt_run d xs m) (mqtt_run d ys)"
proof (induction xs arbitrary: m)
  case (Cons x xs)
  obtain es os where "x = (es, os)" by fastforce
  then show ?case by (cases "mqtt_sm os d [] (fold mqtt_queue_txbuf es m)") (simp_all add: Cons.IH)
qed simp

section \<open>Properties\<close>



text \<open>Fact: an enabled uplink that has just entered the state offline, and gets no command, attempts to
  connect in its eleventh iteration, not earlier; it is ready after it if the attempt succeeds, and counts
  again from zero if it fails. With 10 ms per iteration this is a tenth of a second, where the
  comments say ten seconds.\<close>

theorem mqtt_reconnects_in_eleventh_iteration:
  assumes "mqtt_wf m" "sm_state (mq_sm m) = SMST_OFFLINE" "sm_step (mq_sm m) = 0" "sm_count (mq_sm m) = 0"
    and "mq_enable m \<noteq> 0" "length oss = 9" "mqtt_names_fit os d"
  shows "\<exists>m9 m'. mqtt_run d (map (Pair []) (os0 # oss)) m = Inr m9 \<and> sm_state (mq_sm m9) = SMST_OFFLINE \<and>
    mqtt_run d (map (Pair []) (os0 # oss @ [os])) m = Inr m' \<and>
    (if connect_succeeds os then sm_state (mq_sm m') = SMST_READY \<and> mq_connlost m' = 0
     else sm_state (mq_sm m') = SMST_OFFLINE \<and> sm_count (mq_sm m') = 0 \<and> \<not> mq_cli m')"
proof -
  obtain m1 where m1: "mqtt_sm os0 d [] m = Inr m1" "mqtt_wf m1" "sm_state (mq_sm m1) = SMST_OFFLINE"
    "sm_step (mq_sm m1) = 10" "mq_cmd m1 = CMD_SM_DONE" "sm_count (mq_sm m1) = 0" "mq_enable m1 = mq_enable m"
    using assms(1-4) by (auto simp: mqtt_sm_def mqtt_sm_offline_def mqtt_defs mqtt_wf_def Let_def)
  obtain m9 where m9: "mqtt_run d (map (Pair []) oss) m1 = Inr m9" "mqtt_wf m9"
    "sm_state (mq_sm m9) = SMST_OFFLINE" "sm_step (mq_sm m9) = 10" "mq_cmd m9 = CMD_SM_DONE"
    "sm_count (mq_sm m9) = 9" "mq_enable m9 = mq_enable m"
    using mqtt_offline_counts_run[OF m1(2-5), of oss d] m1(6,7) assms(6) by auto
  let ?m = "mqtt_set_sm (\<lambda>s. sm_set_count s 0) (mqtt_set_sm sm_inc_count
    (mqtt_usages (mqtt_set_sm (sm_cal_timing (mo_now os)) m9)))"
  have "mqtt_wf ?m" using m9(2) by (auto simp: mqtt_wf_def mqtt_defs)
  then obtain m' where m': "mqtt_try_connect os d ?m = Inr m'"
    "if connect_succeeds os then sm_state (mq_sm m') = SMST_READY \<and> mq_connlost m' = 0
     else sm_state (mq_sm m') = SMST_OFFLINE \<and> sm_count (mq_sm m') = 0 \<and> \<not> mq_cli m'"
    using mqtt_try_connect_ok[OF _ assms(7), of ?m] m9(3) by (auto simp: mqtt_defs split: if_splits)
  have "mqtt_sm os d [] m9 = Inr m'"
    using m'(1) m9 assms(5) by (simp add: mqtt_sm_def mqtt_sm_offline_def mqtt_defs Let_def
        CMD_SM_DONE_def CMD_SM_READY_def)
  then show ?thesis using m1(1) m9(1,3) m'(2) by (simp add: mqtt_run_append)
qed

text \<open>C39: publishing and removing a message are not one step: the buffer lock is free in between. When
  the buffer is full and the producer queues one message in that window, the queue gives up the message
  just published, the dequeue takes the next one, and that message leaves the buffer without ever
  having been published.\<close>

theorem mqtt_forward_race_loses_message:
  assumes "mqtt_wf m" "tx_items m = e1 # e2 # es" "length (tx_items m) = 255"
    and "mo_publish os = 0" "mo_wait os = 0"
  shows "tx_items (mqtt_forward os [x] m) = es @ [x] \<and>
    mq_confirmed (mqtt_forward os [x] m) = mq_confirmed m @ [msg_key e1]"
proof -
  let ?m1 = "snd (mqtt_pub os (sztopic e1) (szpayload e1) m)"
  let ?m2 = "fold mqtt_queue_txbuf [x] ?m1"
  have rc: "fst (mqtt_pub os (sztopic e1) (szpayload e1) m) = 0"
    using assms(4,5) by (simp add: mqtt_pub_def MQTTCLIENT_SUCCESS_def Let_def)
  have f: "mqtt_forward os [x] m = snd (mqtt_dequeue_txbuf ?m2)"
    using rc by (simp add: mqtt_forward_def mqtt_peek_head[OF assms(1)] assms(2) case_prod_beta Let_def)
  have wf1: "mqtt_wf ?m1" by (rule mqtt_wf_pub[OF assms(1)])
  have "tx_items ?m1 = e1 # e2 # es" using assms(2) by (simp add: mqtt_pub_frame)
  then have i2: "tx_items ?m2 = e2 # es @ [x]"
    using fold_queue_items[of ?m1 "[x]"] wf1 assms(2,3) by (simp add: mqtt_wf_def)
  have c2: "mq_confirmed ?m2 = mq_confirmed m @ [msg_key e1]"
    using rc by (simp add: fold_queue_txbuf mqtt_pub_frame msg_key_def del: fold.simps)
  show ?thesis
    unfolding f using mqtt_dequeue_items[OF mqtt_wf_fold_queue[OF wf1, of "[x]"]] i2 c2
    by (simp del: fold.simps)
qed

text \<open>Fact: a message accepted by the arrival callback keeps its topic, but its payload is not terminated:
  when the payload is shorter than what the uninitialised local buffer held, the old bytes behind it
  become part of the received text.\<close>

theorem mqtt_arrival_keeps_stack_bytes:
  assumes "length topic < 128" "length payload < length old" "length (szpayload e0) = 8000"
    and "szpayload e0 = old @ CHR 0x00 # rest" "CHR 0x00 \<notin> set old" "CHR 0x00 \<notin> set payload"
    and "mqtt_wf m"
  shows "\<exists>m'. mqtt_msgarrvd e0 (Some (topic, payload)) m = Inr m' \<and>
    mqtt_ringbuffer_items (mqtt_rxbuf m') = spec_queue 255 (mqtt_ringbuffer_items (mqtt_rxbuf m))
      (e0\<lparr>sztopic := topic, szpayload := payload @ drop (length payload) old\<rparr>)"
proof -
  have tw: "takeWhile (\<lambda>c. c \<noteq> CHR 0x00) (payload @ drop (length payload) old @ CHR 0x00 # rest)
      = payload @ drop (length payload) old"
    using assms(5,6) by (subst append_assoc[symmetric], subst takeWhile_append2)
      (auto dest: in_set_dropD)
  have "strncpy_block (szpayload e0) payload = Inr (payload @ drop (length payload) old)"
    using assms(2,3,4) tw by (simp add: strncpy_block_def Let_def)
  moreover have "mqtt_ringbuffer_wf (mqtt_rxbuf m)" using assms(7) by (simp add: mqtt_wf_def)
  ultimately show ?thesis
    using assms(1) mqtt_rb.queue_items[of "mqtt_rxbuf m"]
    by (simp add: mqtt_msgarrvd_def mqtt_queue_rxbuf_def MQTT_MASK_255)
qed

section \<open>A concrete uplink\<close>

definition elem0 :: mqtt_ringbuffer_element_t where
  "elem0 = \<lparr>rb_idx = 0, rb_cmd = 0, rb_val = 0, sztopic = ''t'', szpayload = ''p''\<rparr>"

definition mqtt_example :: mqtt_t where
  "mqtt_example =
     \<lparr>mq_dbg = 0, mq_cli = False, mq_enable = 1, mq_szservip = '''', mq_servport = 0, mq_szclientid = '''',
      mq_szaccesstoken = '''',
      mq_szusername = '''', mq_szpasswd = '''', mq_timezone = 0, mq_connlost = 0, mq_cmd = 0,
      mq_txbuf_usage = 0, mq_rxbuf_usage = 0, mq_pub_starttime = 0, mq_pub_endtime = 0, mq_pub_totaltime = 0,
      mq_pub_totalcnt = 0, mq_pub_max = 0, mq_pub_ave = 0, mq_pub_failed = 0, mq_pub_totalFailcnt = 0,
      mq_pub_maxFailcnt = 0, mq_sm = sm_example\<lparr>sm_state := SMST_OFFLINE\<rparr>,
      mqtt_txbuf = \<lparr>buffer = replicate 256 elem0, tail_index = 0, head_index = 0\<rparr>,
      mqtt_rxbuf = \<lparr>buffer = replicate 256 elem0, tail_index = 0, head_index = 0\<rparr>,
      mq_confirmed = []\<rparr>"

definition mqtt_os_example :: mqtt_os where
  "mqtt_os_example = \<lparr>mo_now = (0, 0), mo_uuid_ok = True, mo_uuid = ''u'', mo_create = True, mo_connect = 0,
     mo_subscribe = 2, mo_publish = 0, mo_wait = 0, mo_pub_start = (0, 0), mo_pub_end = (0, 5)\<rparr>"

lemma mqtt_example_wf: "mqtt_wf mqtt_example"
  by (simp add: mqtt_wf_def mqtt_example_def mqtt_ringbuffer_wf_def rb_wf_def sm_example_def mqtt_states_def
      mqtt_errs_def SMST_OFFLINE_def SMST_READY_def MQTTERR_NONE_def MQTTERR_OFFLINE_PWRUP_def)

lemma mqtt_names_example: "mqtt_names_fit mqtt_os_example (MDL mbs_example)"
  by (simp add: mqtt_names_fit_def mqtt_os_example_def mbs_example_def sim_init_def show_int_def show_nat.simps)



theorem mqtt_reconnects_in_eleventh_iteration_witness:
  "\<exists>m'. mqtt_run (MDL mbs_example) (map (Pair []) (replicate 11 mqtt_os_example)) mqtt_example = Inr m' \<and>
     sm_state (mq_sm m') = SMST_READY"
proof -
  have r: "replicate 11 mqtt_os_example = mqtt_os_example # replicate 9 mqtt_os_example @ [mqtt_os_example]"
    by (simp add: numeral_eq_Suc)
  have c: "connect_succeeds mqtt_os_example" by (simp add: connect_succeeds_def mqtt_os_example_def)
  have "sm_state (mq_sm mqtt_example) = SMST_OFFLINE" "sm_step (mq_sm mqtt_example) = 0"
    "sm_count (mq_sm mqtt_example) = 0" "mq_enable mqtt_example \<noteq> 0"
    by (simp_all add: mqtt_example_def sm_example_def)
  from mqtt_reconnects_in_eleventh_iteration[OF mqtt_example_wf this _ mqtt_names_example,
      of "replicate 9 mqtt_os_example" mqtt_os_example] show ?thesis
    unfolding r using c by auto
qed

lemma rb_items_const:
  assumes "buffer b = replicate (2 ^ k) e" "m = 2 ^ k - 1"
  shows "rb_items m b = replicate (nat (rb_num_items m b)) e"
  using assms by (intro nth_equalityI) (auto simp: rb_items_def int_and_mask nat_less_iff)

definition mqtt_full_example :: mqtt_t where
  "mqtt_full_example = mqtt_example
     \<lparr>mqtt_txbuf := \<lparr>buffer = replicate (2 ^ 8) elem0, tail_index = 0, head_index = 255\<rparr>\<rparr>"

lemma mqtt_full_items: "tx_items mqtt_full_example = replicate 255 elem0"
  unfolding mqtt_ringbuffer_items_def mqtt_full_example_def
  by (subst rb_items_const[where k = 8 and e = elem0, OF _ MQTT_RING_BUFFER_MASK_pow2])
    (simp_all add: rb_num_items_def MQTT_RING_BUFFER_MASK_def MQTT_RING_BUFFER_SIZE_def)

theorem mqtt_forward_race_loses_message_witness:
  "tx_items (mqtt_forward mqtt_os_example [elem0\<lparr>sztopic := ''x''\<rparr>] mqtt_full_example)
     = replicate 253 elem0 @ [elem0\<lparr>sztopic := ''x''\<rparr>] \<and>
   mq_confirmed (mqtt_forward mqtt_os_example [elem0\<lparr>sztopic := ''x''\<rparr>] mqtt_full_example) = [(''t'', ''p'')]"
proof -
  have wf: "mqtt_wf mqtt_full_example"
    using mqtt_example_wf by (simp add: mqtt_wf_def mqtt_full_example_def mqtt_ringbuffer_wf_def rb_wf_def)
  have "255 = Suc (Suc 253)" by simp
  then have i: "tx_items mqtt_full_example = elem0 # elem0 # replicate 253 elem0"
    unfolding mqtt_full_items by (metis replicate_Suc)
  have "length (tx_items mqtt_full_example) = 255" "mo_publish mqtt_os_example = 0" "mo_wait mqtt_os_example = 0"
    by (simp_all add: mqtt_full_items mqtt_os_example_def)
  moreover have "mq_confirmed mqtt_full_example = []" "msg_key elem0 = (''t'', ''p'')"
    by (simp_all add: mqtt_full_example_def mqtt_example_def msg_key_def elem0_def)
  ultimately show ?thesis
    using mqtt_forward_race_loses_message[OF wf i, of mqtt_os_example "elem0\<lparr>sztopic := ''x''\<rparr>"] by simp
qed

theorem mqtt_arrival_keeps_stack_bytes_witness:
  "\<exists>m'. mqtt_msgarrvd (elem0\<lparr>szpayload := ''old'' @ CHR 0x00 # replicate 7996 CHR 0x00\<rparr>)
      (Some (''c'', ''n'')) mqtt_example = Inr m' \<and>
    mqtt_ringbuffer_items (mqtt_rxbuf m') = spec_queue 255 (mqtt_ringbuffer_items (mqtt_rxbuf mqtt_example))
      (elem0\<lparr>sztopic := ''c'', szpayload := ''nld''\<rparr>)"
  using mqtt_arrival_keeps_stack_bytes[of "''c''" "''n''" "''old''"
      "elem0\<lparr>szpayload := ''old'' @ CHR 0x00 # replicate 7996 CHR 0x00\<rparr>" "replicate 7996 CHR 0x00"
      mqtt_example] mqtt_example_wf
  by simp

end
