(* ===== verification/Cache.thy ===== *)
theory Cache
  imports Sqlite Doubles
begin

text \<open>
  The SQL layer of the message caches, \<open>mqtt_cache.c\<close> and \<open>tbmqtt_cache.c\<close>: two copies of one file that
  differ in the element type only. The operations are translated once over the topic and the
  payload of an element; the two files are instances in \<open>MqttCache\<close>. Each operation prints its
  statement into a fixed array and hands it to \<open>sqlite3_exec\<close>.
\<close>

section \<open>Statements\<close>

definition BUF_PAYLOAD_MAX_LEN :: nat where
  "BUF_PAYLOAD_MAX_LEN = 8000"

definition BUF_TOPIC_MAX_LEN :: nat where
  "BUF_TOPIC_MAX_LEN = 128"

definition sql_create :: "string \<Rightarrow> string" where
  "sql_create tn = ''CREATE TABLE ['' @ tn @ ''] ([topic] TEXT('' @ show_nat BUF_TOPIC_MAX_LEN @
     ''),[payload] TEXT('' @ show_nat BUF_PAYLOAD_MAX_LEN @ ''))''"

definition sql_select :: "string \<Rightarrow> string" where
  "sql_select tn = ''select rowid,* from '' @ tn @ '' limit 1''"

definition sql_insert :: "string \<Rightarrow> string \<Rightarrow> string \<Rightarrow> string" where
  "sql_insert tn topic payload =
     ''insert into '' @ tn @ '' values('' @ CHR 0x22 # topic @ CHR 0x22 # '','' @ CHR 0x22 # payload @ CHR 0x22 # '')''"

definition sql_delete :: "string \<Rightarrow> int \<Rightarrow> string" where
  "sql_delete tn rowid = ''delete from '' @ tn @ '' where rowid = '' @ show_int rowid"

definition sql_count :: "string \<Rightarrow> string" where
  "sql_count tn = ''select count(1) from '' @ tn"

section \<open>Callbacks\<close>

text \<open>What \<open>callback_read_one_item\<close> fills in: the row number and the two strings of the element.\<close>

record cache_item =
  ci_rowid :: int
  ci_topic :: string
  ci_payload :: string

definition read_column :: "string \<times> string option \<Rightarrow> cache_item \<Rightarrow> cache_item res" where
  "read_column c i =
     (case c of (name, val) \<Rightarrow>
        if name = ''rowid'' then col_int val (\<lambda>v. i\<lparr>ci_rowid := v\<rparr>)
        else if name = ''topic'' then col_str BUF_TOPIC_MAX_LEN val (\<lambda>v. i\<lparr>ci_topic := v\<rparr>)
        else if name = ''payload'' then col_str BUF_PAYLOAD_MAX_LEN val (\<lambda>v. i\<lparr>ci_payload := v\<rparr>)
        else Inr i)"

fun callback_read_one_item :: "row \<Rightarrow> cache_item \<Rightarrow> (int \<times> cache_item) res" where
  "callback_read_one_item [] i = Inr (0, i)"
| "callback_read_one_item (c # cs) i = bind_res (read_column c i) (callback_read_one_item cs)"

definition callback_count :: "row \<Rightarrow> int \<Rightarrow> (int \<times> int) res" where
  "callback_count cols n =
     (case cols of [] \<Rightarrow> Inr (-1, n) | (name, val) # cs \<Rightarrow> col_int val (\<lambda>v. (0, v)))"

definition callback_pageSize :: "row \<Rightarrow> int \<Rightarrow> (int \<times> int) res" where
  "callback_pageSize cols n =
     (case cols of [] \<Rightarrow> Inr (-1, n) | (name, val) # cs \<Rightarrow> col_int val (\<lambda>v. (0, v)))"

definition callback_pageCount :: "row \<Rightarrow> int \<Rightarrow> (int \<times> int) res" where
  "callback_pageCount cols n =
     (case cols of [] \<Rightarrow> Inr (-1, n) | (name, val) # cs \<Rightarrow> col_int val (\<lambda>v. (0, v)))"

text \<open>A statement run without a callback.\<close>

definition no_callback :: "row \<Rightarrow> unit \<Rightarrow> (int \<times> unit) res" where
  "no_callback cols u = Inr (0, u)"

section \<open>Operations\<close>

text \<open>
  Opening: \<open>op\<close> is \<open>sqlite3_open\<close>, which returns a code and sets the handle. The outcome of creating the
  table is ignored, since the table may exist already.
\<close>

definition cache_open ::
  "(string \<Rightarrow> int \<times> 'db option) \<Rightarrow> 'db exec \<Rightarrow> string \<Rightarrow> string \<Rightarrow> (int \<times> 'db option) res" where
  "cache_open op ex dir tn =
     (case op dir of (rc, h) \<Rightarrow>
        if rc \<noteq> SQLITE_OK then Inr (-1, h)
        else bind_res (strcpy_buf 128 (sql_create tn)) (\<lambda>sql.
          case h of None \<Rightarrow> Inr (0, None)
          | Some db \<Rightarrow> bind_res (sqlite3_exec ex sql no_callback () db) (\<lambda>(rc, u, db'). Inr (0, Some db'))))"

definition cache_read_one_payload ::
  "'db exec \<Rightarrow> string \<Rightarrow> cache_item \<Rightarrow> 'db \<Rightarrow> (int \<times> cache_item \<times> 'db) res" where
  "cache_read_one_payload ex tn i db =
     bind_res (strcpy_buf 128 (sql_select tn)) (\<lambda>sql.
     bind_res (sqlite3_exec ex sql callback_read_one_item i db) (\<lambda>(rc, i', db').
       Inr (if rc \<noteq> SQLITE_OK then -1 else 0, i', db')))"

definition cache_write_one_payload ::
  "'db exec \<Rightarrow> string \<Rightarrow> string \<Rightarrow> string \<Rightarrow> 'db \<Rightarrow> (int \<times> 'db) res" where
  "cache_write_one_payload ex tn topic payload db =
     bind_res (strcpy_buf (BUF_PAYLOAD_MAX_LEN + BUF_TOPIC_MAX_LEN + 128) (sql_insert tn topic payload)) (\<lambda>sql.
     bind_res (sqlite3_exec ex sql no_callback () db) (\<lambda>(rc, u, db').
       Inr (if rc \<noteq> SQLITE_OK then -1 else 0, db')))"

definition cache_delete_one_payload :: "'db exec \<Rightarrow> string \<Rightarrow> int \<Rightarrow> 'db \<Rightarrow> (int \<times> 'db) res" where
  "cache_delete_one_payload ex tn rowid db =
     bind_res (strcpy_buf 128 (sql_delete tn rowid)) (\<lambda>sql.
     bind_res (sqlite3_exec ex sql no_callback () db) (\<lambda>(rc, u, db').
       Inr (if rc \<noteq> SQLITE_OK then -1 else 0, db')))"

definition cache_get_payload_nb :: "'db exec \<Rightarrow> string \<Rightarrow> int \<Rightarrow> 'db \<Rightarrow> (int \<times> int \<times> 'db) res" where
  "cache_get_payload_nb ex tn nb db =
     bind_res (strcpy_buf 128 (sql_count tn)) (\<lambda>sql.
     bind_res (sqlite3_exec ex sql callback_count nb db) (\<lambda>(rc, nb', db').
       Inr (if rc \<noteq> SQLITE_OK then -1 else 0, nb', db')))"

definition cache_free_memory :: "'db exec \<Rightarrow> 'db \<Rightarrow> (int \<times> 'db) res" where
  "cache_free_memory ex db =
     bind_res (sqlite3_exec ex ''vacuum'' no_callback () db) (\<lambda>(rc, u, db').
       Inr (if rc \<noteq> SQLITE_OK then -1 else 0, db'))"

text \<open>
  The size in bytes: the product is computed in \<open>int\<close> and wraps. When a statement fails, the size
  keeps the value it had.
\<close>

definition cache_get_memory_size :: "'db exec \<Rightarrow> int \<Rightarrow> 'db \<Rightarrow> (int \<times> int \<times> 'db) res" where
  "cache_get_memory_size ex sz db =
     bind_res (sqlite3_exec ex ''PRAGMA PAGE_SIZE'' callback_pageSize 0 db) (\<lambda>(rc1, page_size, db1).
       if rc1 \<noteq> SQLITE_OK then Inr (-1, sz, db1)
       else bind_res (sqlite3_exec ex ''PRAGMA PAGE_COUNT'' callback_pageCount 0 db1) (\<lambda>(rc2, page_count, db2).
         if rc2 \<noteq> SQLITE_OK then Inr (-2, sz, db2)
         else Inr (0, sint (word_of_int (page_size * page_count) :: 32 word), db2)))"

section \<open>What the cache relies on\<close>

text \<open>
  The contract of the database for the table \<open>tn\<close>, as SQL documents the statements: \<open>rows\<close> is the content of the
  table in the order of the row numbers. A text that contains a double quote is excluded from the insertion.
\<close>

definition cache_contract :: "'db exec \<Rightarrow> string \<Rightarrow> ('db \<Rightarrow> (int \<times> string \<times> string) list) \<Rightarrow> bool" where
  "cache_contract ex tn rows \<longleftrightarrow>
     (\<forall>db t p. CHR 0x22 \<notin> set t \<longrightarrow> CHR 0x22 \<notin> set p \<longrightarrow>
        (\<exists>db' rid. ex (sql_insert tn t p) db = (SQLITE_OK, [], db') \<and> rows db' = rows db @ [(rid, t, p)] \<and>
           rid \<notin> fst ` set (rows db))) \<and>
     (\<forall>db. ex (sql_select tn) db = (SQLITE_OK,
        (case rows db of [] \<Rightarrow> [] | (rid, t, p) # rs \<Rightarrow>
           [[(''rowid'', Some (show_int rid)), (''topic'', Some t), (''payload'', Some p)]]), db)) \<and>
     (\<forall>db rid. \<exists>db'. ex (sql_delete tn rid) db = (SQLITE_OK, [], db') \<and>
        rows db' = filter (\<lambda>r. fst r \<noteq> rid) (rows db)) \<and>
     (\<forall>db. ex (sql_count tn) db =
        (SQLITE_OK, [[(''count(1)'', Some (show_int (int (length (rows db)))))]], db)) \<and>
     (\<forall>db. \<exists>db'. ex ''vacuum'' db = (SQLITE_OK, [], db') \<and> map snd (rows db') = map snd (rows db)) \<and>
     (\<forall>db. \<exists>n. ex ''PRAGMA PAGE_SIZE'' db = (SQLITE_OK, [[(''page_size'', Some (show_int n))]], db)) \<and>
     (\<forall>db. \<exists>n. ex ''PRAGMA PAGE_COUNT'' db = (SQLITE_OK, [[(''page_count'', Some (show_int n))]], db))"

text \<open>Rows that the program can read back: row numbers that fit an \<open>int\<close>, strings that fit the arrays.\<close>

definition row_ok :: "int \<times> string \<times> string \<Rightarrow> bool" where
  "row_ok r \<longleftrightarrow> (case r of (rid, t, p) \<Rightarrow>
     - (2 ^ 31) \<le> rid \<and> rid < 2 ^ 31 \<and> length t < BUF_TOPIC_MAX_LEN \<and> length p < BUF_PAYLOAD_MAX_LEN)"

definition rows_ok :: "(int \<times> string \<times> string) list \<Rightarrow> bool" where
  "rows_ok rs \<longleftrightarrow> distinct (map fst rs) \<and> list_all row_ok rs \<and> length rs < 2 ^ 31"

lemma length_show_nat: "n < 10 ^ k \<Longrightarrow> 0 < k \<Longrightarrow> length (show_nat n) \<le> k"
proof (induction k arbitrary: n)
  case (Suc k)
  show ?case
  proof (cases "n < 10")
    case False
    then have "n div 10 < 10 ^ k" "0 < k"
      using Suc.prems by (auto simp: div_less_iff_less_mult mult.commute) (cases k, auto)
    then show ?thesis using Suc.IH[of "n div 10"] False by (subst show_nat.simps) simp
  qed (subst show_nat.simps, simp)
qed simp

lemma length_show_int: "- (2 ^ 31) \<le> i \<Longrightarrow> i < 2 ^ 31 \<Longrightarrow> length (show_int i) \<le> 11"
  using length_show_nat[of "nat i" 10] length_show_nat[of "nat (- i)" 10]
  by (cases "i < 0") (auto simp: show_int_def nat_less_iff)

text \<open>The operations under the contract.\<close>

lemma cache_write_ok:
  assumes "cache_contract ex tn rows" "CHR 0x22 \<notin> set t" "CHR 0x22 \<notin> set p"
    "length t < BUF_TOPIC_MAX_LEN" "length p < BUF_PAYLOAD_MAX_LEN" "length tn \<le> 64"
  obtains db' rid where "cache_write_one_payload ex tn t p db = Inr (0, db')"
    "rows db' = rows db @ [(rid, t, p)]" "rid \<notin> fst ` set (rows db)"
proof -
  obtain db' rid where "ex (sql_insert tn t p) db = (SQLITE_OK, [], db')" "rows db' = rows db @ [(rid, t, p)]"
    "rid \<notin> fst ` set (rows db)"
    using assms(1-3) unfolding cache_contract_def by blast
  moreover have "length (sql_insert tn t p) < BUF_PAYLOAD_MAX_LEN + BUF_TOPIC_MAX_LEN + 128"
    using assms(4-6) by (simp add: sql_insert_def)
  ultimately show ?thesis
    using that by (simp add: cache_write_one_payload_def sqlite3_exec_def)
qed

lemma cache_nb_ok:
  assumes "cache_contract ex tn rows" "length (rows db) < 2 ^ 31" "length tn \<le> 64"
  shows "cache_get_payload_nb ex tn n db = Inr (0, int (length (rows db)), db)"
proof -
  have "ex (sql_count tn) db = (SQLITE_OK, [[(''count(1)'', Some (show_int (int (length (rows db)))))]], db)"
    using assms(1) by (simp add: cache_contract_def)
  moreover have "length (sql_count tn) < 128" using assms(3) by (simp add: sql_count_def)
  ultimately show ?thesis
    using assms(2) by (simp add: cache_get_payload_nb_def sqlite3_exec_def callback_count_def atoi_show_int)
qed

lemma cache_read_ok:
  assumes "cache_contract ex tn rows" "rows db = (rid, t, p) # rs" "row_ok (rid, t, p)" "length tn \<le> 64"
  shows "cache_read_one_payload ex tn i db =
    Inr (0, i\<lparr>ci_rowid := rid, ci_topic := t, ci_payload := p\<rparr>, db)"
proof -
  have "ex (sql_select tn) db = (SQLITE_OK,
      [[(''rowid'', Some (show_int rid)), (''topic'', Some t), (''payload'', Some p)]], db)"
    using assms(1,2) by (simp add: cache_contract_def)
  moreover have "length (sql_select tn) < 128" using assms(4) by (simp add: sql_select_def)
  ultimately show ?thesis
    using assms(3)
    by (simp add: cache_read_one_payload_def sqlite3_exec_def read_column_def row_ok_def atoi_show_int)
qed

lemma cache_delete_ok:
  assumes "cache_contract ex tn rows" "- (2 ^ 31) \<le> rid" "rid < 2 ^ 31" "length tn \<le> 64"
  obtains db' where "cache_delete_one_payload ex tn rid db = Inr (0, db')"
    "rows db' = filter (\<lambda>r. fst r \<noteq> rid) (rows db)"
proof -
  obtain db' where "ex (sql_delete tn rid) db = (SQLITE_OK, [], db')"
    "rows db' = filter (\<lambda>r. fst r \<noteq> rid) (rows db)"
    using assms(1) unfolding cache_contract_def by blast
  moreover have "length (sql_delete tn rid) < 128"
    using length_show_int[OF assms(2,3)] assms(4) by (simp add: sql_delete_def)
  ultimately show ?thesis using that by (simp add: cache_delete_one_payload_def sqlite3_exec_def)
qed

lemma cache_free_ok:
  assumes "cache_contract ex tn rows"
  obtains db' where "cache_free_memory ex db = Inr (0, db')" "map snd (rows db') = map snd (rows db)"
proof -
  obtain db' where "ex ''vacuum'' db = (SQLITE_OK, [], db')" "map snd (rows db') = map snd (rows db)"
    using assms unfolding cache_contract_def by blast
  then show ?thesis using that by (simp add: cache_free_memory_def sqlite3_exec_def)
qed

lemma cache_size_ok:
  assumes "cache_contract ex tn rows"
  obtains n where "cache_get_memory_size ex sz db = Inr (0, n, db)"
proof -
  obtain a b where "ex ''PRAGMA PAGE_SIZE'' db = (SQLITE_OK, [[(''page_size'', Some (show_int a))]], db)"
    "ex ''PRAGMA PAGE_COUNT'' db = (SQLITE_OK, [[(''page_count'', Some (show_int b))]], db)"
    using assms unfolding cache_contract_def by blast
  then show ?thesis
    using that by (simp add: cache_get_memory_size_def sqlite3_exec_def callback_pageSize_def callback_pageCount_def)
qed

section \<open>Quoting\<close>

text \<open>
  How SQL reads a quoted text, after its opening quote: up to the next quote, where a doubled quote stands for
  one. The result is the text and what follows it.
\<close>

fun sql_literal :: "string \<Rightarrow> (string \<times> string) option" where
  "sql_literal [] = None"
| "sql_literal (c # cs) =
     (if c \<noteq> CHR 0x22 then map_option (\<lambda>(l, r). (c # l, r)) (sql_literal cs)
      else (case cs of
              [] \<Rightarrow> Some ([], cs)
            | d # ds \<Rightarrow> if d = CHR 0x22 then map_option (\<lambda>(l, r). (CHR 0x22 # l, r)) (sql_literal ds)
                        else Some ([], cs)))"

text \<open>The two values of an insertion into \<open>tn\<close>, if the statement has this form.\<close>

definition sql_values :: "string \<Rightarrow> string \<Rightarrow> (string \<times> string) option" where
  "sql_values tn sql =
     (let pre = ''insert into '' @ tn @ '' values('' @ [CHR 0x22]
      in if take (length pre) sql \<noteq> pre then None
         else case sql_literal (drop (length pre) sql) of
                None \<Rightarrow> None
              | Some (t, r) \<Rightarrow>
                  (if take 2 r \<noteq> [CHR 0x2C, CHR 0x22] then None
                   else case sql_literal (drop 2 r) of
                          None \<Rightarrow> None
                        | Some (p, r') \<Rightarrow> if r' = '')'' then Some (t, p) else None))"

fun sql_escape :: "string \<Rightarrow> string" where
  "sql_escape [] = []"
| "sql_escape (c # cs) = (if c = CHR 0x22 then [c, c] else [c]) @ sql_escape cs"

lemma sql_literal_escape: "sql_literal s = Some (l, r) \<Longrightarrow> s = sql_escape l @ CHR 0x22 # r"
  by (induction s arbitrary: l r rule: sql_literal.induct) (auto split: if_splits list.splits)

lemma sql_literal_plain:
  "CHR 0x22 \<notin> set l \<Longrightarrow> c \<noteq> CHR 0x22 \<Longrightarrow> sql_literal (l @ CHR 0x22 # c # r) = Some (l, c # r)"
  by (induction l) auto

lemma escape_shift:
  "v @ CHR 0x22 # r = replicate (Suc k) (CHR 0x22) @ sql_escape v @ CHR 0x22 # r' \<Longrightarrow>
   r \<noteq> [] \<and> hd r = CHR 0x22"
proof (induction v arbitrary: k)
  case Nil
  then show ?case by (cases k) auto
next
  case (Cons c w)
  then have "c = CHR 0x22" by (cases k) auto
  then have "w @ CHR 0x22 # r = replicate (Suc (Suc k)) (CHR 0x22) @ sql_escape w @ CHR 0x22 # r'"
    using Cons.prems by (simp add: replicate_app_Cons_same)
  then show ?case by (rule Cons.IH)
qed

lemma sql_literal_reads_iff:
  assumes "c \<noteq> CHR 0x22"
  shows "(\<exists>r'. sql_literal (l @ CHR 0x22 # c # r) = Some (l, r')) \<longleftrightarrow> CHR 0x22 \<notin> set l"
proof
  assume "\<exists>r'. sql_literal (l @ CHR 0x22 # c # r) = Some (l, r')"
  then obtain r' where e: "l @ CHR 0x22 # c # r = sql_escape l @ CHR 0x22 # r'"
    using sql_literal_escape by blast
  have plain: "sql_escape u = u" if "CHR 0x22 \<notin> set u" for u using that by (induction u) auto
  have app: "sql_escape (u @ v) = sql_escape u @ sql_escape v" for u v by (induction u) auto
  show "CHR 0x22 \<notin> set l"
  proof
    assume "CHR 0x22 \<in> set l"
    then obtain u v where uv: "l = u @ CHR 0x22 # v" "CHR 0x22 \<notin> set u" by (meson split_list_first)
    have "v @ CHR 0x22 # c # r = replicate (Suc 0) (CHR 0x22) @ sql_escape v @ CHR 0x22 # r'"
      using e uv by (simp add: app plain)
    from escape_shift[OF this] assms show False by simp
  qed
qed (use sql_literal_plain[OF _ assms] in blast)

lemma sql_values_iff:
  "sql_values tn (sql_insert tn t p) = Some (t, p) \<longleftrightarrow> CHR 0x22 \<notin> set t \<and> CHR 0x22 \<notin> set p"
proof -
  have d: "drop (length (''insert into '' @ tn @ '' values('' @ [CHR 0x22])) (sql_insert tn t p)
      = t @ CHR 0x22 # CHR 0x2C # CHR 0x22 # p @ CHR 0x22 # CHR 0x29 # []"
    and a: "take (length (''insert into '' @ tn @ '' values('' @ [CHR 0x22])) (sql_insert tn t p)
      = ''insert into '' @ tn @ '' values('' @ [CHR 0x22]"
    by (simp_all add: sql_insert_def)
  show ?thesis
    using sql_literal_reads_iff[of "CHR 0x2C" t "CHR 0x22 # p @ CHR 0x22 # CHR 0x29 # []"]
      sql_literal_reads_iff[of "CHR 0x29" p "[]"] sql_literal_plain[of t "CHR 0x2C"]
      sql_literal_plain[of p "CHR 0x29" "[]"]
    unfolding sql_values_def Let_def d a by (auto split: option.splits if_splits)
qed

end
