(* ===== verification/MqttCache.thy ===== *)
theory MqttCache
  imports Cache Mqtt "HOL-Library.Multiset"
begin

text \<open>
  The message cache of the MQTT uplink: the functions of \<open>mqtt_cache.c\<close> on the element type of the
  transmit buffer, and \<open>mqtt_deal_with_cache\<close> of \<open>mqtt.c\<close>, which moves messages from a filling transmit buffer
  into the database and back. The thread that would run it is not started by the program.
\<close>

section \<open>\<open>mqtt_cache.c\<close>\<close>

definition mqtt_cache_open ::
  "(string \<Rightarrow> int \<times> 'db option) \<Rightarrow> 'db exec \<Rightarrow> string \<Rightarrow> string \<Rightarrow> (int \<times> 'db option) res" where
  "mqtt_cache_open = cache_open"

definition mqtt_cache_read_one_payload ::
  "'db exec \<Rightarrow> string \<Rightarrow> mqtt_ringbuffer_element_t \<Rightarrow> int \<Rightarrow> 'db \<Rightarrow>
   (int \<times> mqtt_ringbuffer_element_t \<times> int \<times> 'db) res" where
  "mqtt_cache_read_one_payload ex tn e idx db =
     bind_res (cache_read_one_payload ex tn \<lparr>ci_rowid = idx, ci_topic = sztopic e, ci_payload = szpayload e\<rparr> db)
       (\<lambda>(rc, i, db'). Inr (rc, e\<lparr>sztopic := ci_topic i, szpayload := ci_payload i\<rparr>, ci_rowid i, db'))"

definition mqtt_cache_write_one_payload ::
  "'db exec \<Rightarrow> string \<Rightarrow> mqtt_ringbuffer_element_t \<Rightarrow> 'db \<Rightarrow> (int \<times> 'db) res" where
  "mqtt_cache_write_one_payload ex tn e = cache_write_one_payload ex tn (sztopic e) (szpayload e)"

definition mqtt_cache_delete_one_payload :: "'db exec \<Rightarrow> string \<Rightarrow> int \<Rightarrow> 'db \<Rightarrow> (int \<times> 'db) res" where
  "mqtt_cache_delete_one_payload = cache_delete_one_payload"

definition mqtt_cache_get_payload_nb :: "'db exec \<Rightarrow> string \<Rightarrow> int \<Rightarrow> 'db \<Rightarrow> (int \<times> int \<times> 'db) res" where
  "mqtt_cache_get_payload_nb = cache_get_payload_nb"

definition mqtt_cache_free_memory :: "'db exec \<Rightarrow> 'db \<Rightarrow> (int \<times> 'db) res" where
  "mqtt_cache_free_memory = cache_free_memory"

definition mqtt_cache_get_memory_size :: "'db exec \<Rightarrow> int \<Rightarrow> 'db \<Rightarrow> (int \<times> int \<times> 'db) res" where
  "mqtt_cache_get_memory_size = cache_get_memory_size"

section \<open>Spilling and refilling\<close>

definition MQTT_CACHE_DATA_BASE :: string where
  "MQTT_CACHE_DATA_BASE = ''../data/mqtt.db''"

definition MQTT_CACHE_TABLE :: string where
  "MQTT_CACHE_TABLE = ''mqtt_cache''"

definition TX_BUFF_TO_CACHE_USAGE :: dbl where
  "TX_BUFF_TO_CACHE_USAGE = 75"

definition CACHE_TO_TX_BUFF_USAGE :: dbl where
  "CACHE_TO_TX_BUFF_USAGE = 65"

definition CACHE_FILE_MEMORY_SIZE_MAX :: int where
  "CACHE_FILE_MEMORY_SIZE_MAX = 40 * 1024 * 1024"

text \<open>
  One step of the cache thread. The state is the uplink, the database handle and the static counter of
  refilled messages; \<open>e0\<close> is the uninitialised local element.
\<close>

definition mqtt_spill :: "'db exec \<Rightarrow> mqtt_t \<Rightarrow> 'db \<Rightarrow> int \<Rightarrow> (mqtt_t \<times> 'db option \<times> int) res" where
  "mqtt_spill ex m db cnt =
     bind_res (mqtt_cache_get_memory_size ex 0 db) (\<lambda>(rc, sz, db1).
       if sz > CACHE_FILE_MEMORY_SIZE_MAX then Inr (m, Some db1, cnt)
       else case mqtt_peek_txbuf m 0 of
              None \<Rightarrow> Inr (m, Some db1, cnt)
            | Some e \<Rightarrow>
                bind_res (mqtt_cache_write_one_payload ex MQTT_CACHE_TABLE e db1) (\<lambda>(rc, db2).
                  Inr (if rc = 0 then snd (mqtt_dequeue_txbuf m) else m, Some db2, cnt)))"

definition mqtt_refill ::
  "'db exec \<Rightarrow> mqtt_ringbuffer_element_t \<Rightarrow> mqtt_t \<Rightarrow> 'db \<Rightarrow> int \<Rightarrow> (mqtt_t \<times> 'db option \<times> int) res" where
  "mqtt_refill ex e0 m db cnt =
     bind_res (mqtt_cache_get_payload_nb ex MQTT_CACHE_TABLE 0 db) (\<lambda>(rc, nb, db1).
       if nb > 0 \<and> rc = 0
       then bind_res (mqtt_cache_read_one_payload ex MQTT_CACHE_TABLE (e0\<lparr>sztopic := [], szpayload := []\<rparr>) 0 db1)
              (\<lambda>(rc, e, idx, db2).
            let m1 = mqtt_queue_txbuf (e\<lparr>rb_cmd := CMD_MQTT_SENDKV\<rparr>) m
            in bind_res (mqtt_cache_delete_one_payload ex MQTT_CACHE_TABLE idx db2) (\<lambda>(rc, db3).
                 if cnt + 1 > 500
                 then bind_res (mqtt_cache_free_memory ex db3) (\<lambda>(rc, db4). Inr (m1, Some db4, 0))
                 else Inr (m1, Some db3, cnt + 1)))
       else Inr (m, Some db1, cnt))"

definition mqtt_deal_with_cache ::
  "'db exec \<Rightarrow> mqtt_ringbuffer_element_t \<Rightarrow> mqtt_t \<times> 'db option \<times> int \<Rightarrow> (mqtt_t \<times> 'db option \<times> int) res" where
  "mqtt_deal_with_cache ex e0 s =
     (case s of (m, h, cnt) \<Rightarrow>
        (case h of
           None \<Rightarrow> Inr s
         | Some db \<Rightarrow>
             if mq_txbuf_usage m > TX_BUFF_TO_CACHE_USAGE then mqtt_spill ex m db cnt
             else if mq_txbuf_usage m < CACHE_TO_TX_BUFF_USAGE then mqtt_refill ex e0 m db cnt
             else Inr s))"

text \<open>The thread: it opens the database, ignores the outcome, and repeats the step.\<close>

definition mqtt_db_cache_thrd_main ::
  "(string \<Rightarrow> int \<times> 'db option) \<Rightarrow> 'db exec \<Rightarrow> mqtt_t \<Rightarrow> (mqtt_t \<times> 'db option \<times> int) res" where
  "mqtt_db_cache_thrd_main op ex m =
     bind_res (mqtt_cache_open op ex MQTT_CACHE_DATA_BASE MQTT_CACHE_TABLE) (\<lambda>(rc, h). Inr (m, h, 0))"

lemmas mqtt_cache_defs = mqtt_cache_get_memory_size_def mqtt_cache_write_one_payload_def
  mqtt_cache_get_payload_nb_def mqtt_cache_read_one_payload_def mqtt_cache_delete_one_payload_def
  mqtt_cache_free_memory_def

section \<open>Conservation\<close>

abbreviation held :: "mqtt_t \<Rightarrow> (string \<times> string) multiset" where
  "held m \<equiv> mset (map msg_key (tx_items m))"

lemma mqtt_table_short: "length MQTT_CACHE_TABLE \<le> 64"
  by (simp add: MQTT_CACHE_TABLE_def)

text \<open>A message that survives the way through the database: no quote, and short enough for the arrays.\<close>

definition msg_plain :: "mqtt_ringbuffer_element_t \<Rightarrow> bool" where
  "msg_plain e \<longleftrightarrow> CHR 0x22 \<notin> set (sztopic e) \<and> CHR 0x22 \<notin> set (szpayload e) \<and>
     length (sztopic e) < BUF_TOPIC_MAX_LEN \<and> length (szpayload e) < BUF_PAYLOAD_MAX_LEN"

lemma mqtt_spill_keeps:
  assumes "cache_contract ex MQTT_CACHE_TABLE rows" "mqtt_wf m" "list_all msg_plain (tx_items m)"
  shows "\<exists>m' db'. mqtt_spill ex m db cnt = Inr (m', Some db', cnt) \<and>
    ((m' = m \<and> rows db' = rows db) \<or>
     (\<exists>e es rid. tx_items m = e # es \<and> tx_items m' = es \<and> mqtt_wf m' \<and>
        rows db' = rows db @ [(rid, sztopic e, szpayload e)] \<and> rid \<notin> fst ` set (rows db)))"
proof -
  obtain n where n: "cache_get_memory_size ex 0 db = Inr (0, n, db)" using cache_size_ok[OF assms(1)] by blast
  show ?thesis
  proof (cases "tx_items m")
    case Nil
    then show ?thesis using n by (simp add: mqtt_spill_def mqtt_cache_defs mqtt_peek_head[OF assms(2)])
  next
    case (Cons e es)
    then have "msg_plain e" using assms(3) by simp
    then obtain db' rid where w: "cache_write_one_payload ex MQTT_CACHE_TABLE (sztopic e) (szpayload e) db = Inr (0, db')"
      "rows db' = rows db @ [(rid, sztopic e, szpayload e)]" "rid \<notin> fst ` set (rows db)"
      using cache_write_ok[OF assms(1) _ _ _ _ mqtt_table_short, of "sztopic e" "szpayload e" db]
      by (auto simp: msg_plain_def)
    show ?thesis
      using n w Cons mqtt_dequeue_items(1,2)[OF assms(2)]
      by (auto simp: mqtt_spill_def mqtt_cache_defs mqtt_peek_head[OF assms(2)])
  qed
qed

lemma mqtt_refill_keeps:
  assumes "cache_contract ex MQTT_CACHE_TABLE rows" "mqtt_wf m" "rows_ok (rows db)" "length (tx_items m) < 255"
  shows "\<exists>m' db' c'. mqtt_refill ex e0 m db cnt = Inr (m', Some db', c') \<and>
    ((m' = m \<and> rows db = [] \<and> rows db' = []) \<or>
     (\<exists>rid t p rs. rows db = (rid, t, p) # rs \<and> map snd (rows db') = map snd rs \<and> mqtt_wf m' \<and>
        tx_items m' = tx_items m @ [e0\<lparr>sztopic := t, szpayload := p, rb_cmd := CMD_MQTT_SENDKV\<rparr>]))"
proof (cases "rows db")
  case Nil
  then show ?thesis
    using cache_nb_ok[OF assms(1) _ mqtt_table_short, of db 0] by (simp add: mqtt_refill_def mqtt_cache_defs)
next
  case (Cons r rs)
  obtain rid t p where r: "r = (rid, t, p)" by (metis prod_cases3)
  have ok: "row_ok (rid, t, p)" "rid \<notin> fst ` set rs" "length (rows db) < 2 ^ 31"
    using assms(3) Cons r by (auto simp: rows_ok_def)
  let ?e = "e0\<lparr>sztopic := t, szpayload := p, rb_cmd := CMD_MQTT_SENDKV\<rparr>"
  have nb: "cache_get_payload_nb ex MQTT_CACHE_TABLE 0 db = Inr (0, int (length (rows db)), db)"
    by (rule cache_nb_ok[OF assms(1) ok(3) mqtt_table_short])
  note rd = cache_read_ok[OF assms(1) Cons[unfolded r] ok(1) mqtt_table_short]
  have b: "- (2 ^ 31) \<le> rid" "rid < 2 ^ 31" using ok(1) by (auto simp: row_ok_def)
  obtain db1 where d: "cache_delete_one_payload ex MQTT_CACHE_TABLE rid db = Inr (0, db1)"
    "rows db1 = filter (\<lambda>r. fst r \<noteq> rid) (rows db)"
    using cache_delete_ok[OF assms(1) b mqtt_table_short] by blast
  have f: "rows db1 = rs" using d(2) Cons r ok(2) by (auto simp: filter_id_conv)
  obtain db2 where v: "cache_free_memory ex db1 = Inr (0, db2)" "map snd (rows db2) = map snd (rows db1)"
    using cache_free_ok[OF assms(1)] by blast
  have q: "mqtt_wf (mqtt_queue_txbuf ?e m)" "tx_items (mqtt_queue_txbuf ?e m) = tx_items m @ [?e]"
    using mqtt_wf_fold_queue[OF assms(2), of "[?e]"] fold_queue_items[of m "[?e]"] assms(2,4)
    by (simp_all add: mqtt_wf_def)
  show ?thesis
    using nb rd d(1) v f q Cons r by (auto simp: mqtt_refill_def mqtt_cache_defs Let_def)
qed

section \<open>A database\<close>

text \<open>An engine that keeps the rows in a list and reads the statements of the cache.\<close>

definition after :: "string \<Rightarrow> string \<Rightarrow> string option" where
  "after pre s = (if take (length pre) s = pre then Some (drop (length pre) s) else None)"

definition list_engine :: "string \<Rightarrow> (int \<times> string \<times> string) list exec" where
  "list_engine tn sql db =
     (if sql = sql_select tn
      then (SQLITE_OK, (case db of [] \<Rightarrow> [] | (rid, t, p) # rs \<Rightarrow>
             [[(''rowid'', Some (show_int rid)), (''topic'', Some t), (''payload'', Some p)]]), db)
      else if sql = sql_count tn
      then (SQLITE_OK, [[(''count(1)'', Some (show_int (int (length db))))]], db)
      else if sql = ''PRAGMA PAGE_SIZE'' then (SQLITE_OK, [[(''page_size'', Some (show_int 4096))]], db)
      else if sql = ''PRAGMA PAGE_COUNT'' then (SQLITE_OK, [[(''page_count'', Some (show_int (int (length db))))]], db)
      else case sql_values tn sql of
        Some (t, p) \<Rightarrow> (SQLITE_OK, [], db @ [(foldr max (map fst db) 0 + 1, t, p)])
      | None \<Rightarrow>
          (case after (''delete from '' @ tn @ '' where rowid = '') sql of
             Some d \<Rightarrow> (SQLITE_OK, [], filter (\<lambda>r. fst r \<noteq> signed_val (dropWhile isspace d)) db)
           | None \<Rightarrow> (SQLITE_OK, [], db)))"

lemma foldr_max_bound: "(x::int) \<in> set xs \<Longrightarrow> x \<le> foldr max xs 0"
  by (induction xs) auto

lemma list_engine_contract: "cache_contract (list_engine tn) tn (\<lambda>db. db)"
proof -
  have ins: "\<exists>rid. list_engine tn (sql_insert tn t p) db = (SQLITE_OK, [], db @ [(rid, t, p)]) \<and> rid \<notin> fst ` set db"
    if "CHR 0x22 \<notin> set t" "CHR 0x22 \<notin> set p" for t p and db :: "(int \<times> string \<times> string) list"
  proof -
    have "sql_values tn (sql_insert tn t p) = Some (t, p)" using sql_values_iff that by blast
    moreover have "foldr max (map fst db) 0 + 1 \<notin> fst ` set db"
      using foldr_max_bound[of _ "map fst db"] by fastforce
    ultimately show ?thesis
      by (simp add: list_engine_def sql_select_def sql_count_def sql_insert_def)
  qed
  have del: "list_engine tn (sql_delete tn rid) db = (SQLITE_OK, [], filter (\<lambda>r. fst r \<noteq> rid) db)"
    for rid and db :: "(int \<times> string \<times> string) list"
    by (simp add: list_engine_def sql_select_def sql_count_def sql_delete_def sql_values_def after_def Let_def
        signed_val_show_int)
  have vac: "list_engine tn ''vacuum'' db = (SQLITE_OK, [], db)" for db
    by (simp add: list_engine_def sql_select_def sql_count_def sql_values_def after_def Let_def)
  have rest: "list_engine tn (sql_select tn) db = (SQLITE_OK, (case db of [] \<Rightarrow> [] | (rid, t, p) # rs \<Rightarrow>
      [[(''rowid'', Some (show_int rid)), (''topic'', Some t), (''payload'', Some p)]]), db)"
    "list_engine tn (sql_count tn) db = (SQLITE_OK, [[(''count(1)'', Some (show_int (int (length db))))]], db)"
    "list_engine tn ''PRAGMA PAGE_SIZE'' db = (SQLITE_OK, [[(''page_size'', Some (show_int 4096))]], db)"
    "list_engine tn ''PRAGMA PAGE_COUNT'' db =
       (SQLITE_OK, [[(''page_count'', Some (show_int (int (length db))))]], db)"
    for db
    by (simp_all add: list_engine_def sql_select_def sql_count_def)
  show ?thesis
    unfolding cache_contract_def
    by (intro conjI allI impI) (use ins in blast, rule rest, use del in blast, rule rest, use vac in blast, (rule exI, rule rest)+)
qed

section \<open>Properties\<close>


text \<open>Fact: the insertion statement stores the message it was made for exactly when neither the topic nor
  the payload contains a double quote; every JSON payload contains one.\<close>

theorem insert_stores_message_iff:
  "sql_values MQTT_CACHE_TABLE (sql_insert MQTT_CACHE_TABLE t p) = Some (t, p) \<longleftrightarrow>
     CHR 0x22 \<notin> set t \<and> CHR 0x22 \<notin> set p"
  by (rule sql_values_iff)

text \<open>Fact: when the table has rows but reading one fails, the failure is not noticed: an empty message with
  an empty topic is queued for transmission, and row 0 is deleted.\<close>

theorem refill_read_failure_queues_empty_message:
  assumes "mqtt_wf m" "length (tx_items m) < 255" "mq_txbuf_usage m < CACHE_TO_TX_BUFF_USAGE"
    "ex (sql_count MQTT_CACHE_TABLE) db = (SQLITE_OK, [[(c, Some (show_int n))]], db)" "0 < n" "n < 2 ^ 31"
    "ex (sql_select MQTT_CACHE_TABLE) db = (rc, [], db)" "rc \<noteq> SQLITE_OK"
    "ex (sql_delete MQTT_CACHE_TABLE 0) db = (rc', [], db')" "cnt < 500"
  shows "\<exists>m'. mqtt_deal_with_cache ex e0 (m, Some db, cnt) = Inr (m', Some db', cnt + 1) \<and>
    tx_items m' = tx_items m @ [e0\<lparr>sztopic := [], szpayload := [], rb_cmd := CMD_MQTT_SENDKV\<rparr>]"
proof -
  let ?e = "e0\<lparr>sztopic := [], szpayload := [], rb_cmd := CMD_MQTT_SENDKV\<rparr>"
  have n: "cache_get_payload_nb ex MQTT_CACHE_TABLE 0 db = Inr (0, n, db)"
    using assms(4-6) by (simp add: cache_get_payload_nb_def sqlite3_exec_def callback_count_def atoi_show_int
        sql_count_def MQTT_CACHE_TABLE_def)
  have r: "cache_read_one_payload ex MQTT_CACHE_TABLE i db = Inr (-1, i, db)" for i
    using assms(7,8) by (simp add: cache_read_one_payload_def sqlite3_exec_def sql_select_def MQTT_CACHE_TABLE_def)
  have "length (sql_delete MQTT_CACHE_TABLE 0) < 128"
    using length_show_int[of 0] by (simp add: sql_delete_def MQTT_CACHE_TABLE_def)
  then have d: "cache_delete_one_payload ex MQTT_CACHE_TABLE 0 db = Inr (if rc' \<noteq> SQLITE_OK then -1 else 0, db')"
    using assms(9) by (simp add: cache_delete_one_payload_def sqlite3_exec_def)
  have "tx_items (mqtt_queue_txbuf ?e m) = tx_items m @ [?e]"
    using fold_queue_items[of m "[?e]"] assms(1,2) by (simp add: mqtt_wf_def)
  then show ?thesis
    using n r d assms(3,5,10)
    by (simp add: mqtt_deal_with_cache_def mqtt_refill_def mqtt_cache_defs TX_BUFF_TO_CACHE_USAGE_def
        CACHE_TO_TX_BUFF_USAGE_def Let_def)
qed

section \<open>Concrete caches\<close>

lemma mqtt_example_items: "tx_items mqtt_example = []"
  by (simp add: mqtt_example_def mqtt_ringbuffer_items_def rb_items_def rb_num_items_def)


definition failing_engine :: "unit exec" where
  "failing_engine sql db =
     (if sql = sql_count MQTT_CACHE_TABLE then (SQLITE_OK, [[(''count(1)'', Some (show_int 1))]], db)
      else (5, [], db))"

theorem refill_read_failure_queues_empty_message_witness:
  "\<exists>m'. mqtt_deal_with_cache failing_engine elem0 (mqtt_example, Some (), 0) = Inr (m', Some (), 1) \<and>
     tx_items m' = [elem0\<lparr>sztopic := [], szpayload := [], rb_cmd := CMD_MQTT_SENDKV\<rparr>]"
proof -
  have "failing_engine (sql_count MQTT_CACHE_TABLE) () = (SQLITE_OK, [[(''count(1)'', Some (show_int 1))]], ())"
    "failing_engine (sql_select MQTT_CACHE_TABLE) () = (5, [], ())"
    "failing_engine (sql_delete MQTT_CACHE_TABLE 0) () = (5, [], ())"
    by (simp_all add: failing_engine_def sql_count_def sql_select_def sql_delete_def MQTT_CACHE_TABLE_def)
  moreover have "mq_txbuf_usage mqtt_example < CACHE_TO_TX_BUFF_USAGE"
    by (simp add: mqtt_example_def CACHE_TO_TX_BUFF_USAGE_def)
  ultimately show ?thesis
    using refill_read_failure_queues_empty_message[OF mqtt_example_wf, of failing_engine "()" "''count(1)''" 1 5 5 "()" 0 elem0]
    by (simp add: mqtt_example_items SQLITE_OK_def)
qed

end
