(* ===== verification/Tbmqtt.thy ===== *)
theory Tbmqtt
  imports Mqtt Cache
begin

text \<open>
  The ThingsBoard uplink: \<open>platform/util/tbmqtt/tbmqtt.c\<close> and its state machine \<open>tbmqtt_sm.c\<close>, modelled like
  the MQTT uplink of \<open>Mqtt\<close>. The program does not start it. It differs from the other uplink in
  its waiting time, its counters, its configuration, and in the handle it passes to
  \<open>MQTTClient_create\<close>: the value of the field \<open>cli\<close> instead of its address.
\<close>

section \<open>Data\<close>

record tbmqtt_t =
  tq_dbg :: int
  tq_cli :: bool
  tq_enable :: int
  tq_szservip :: string
  tq_servport :: int
  tq_szclientid :: string
  tq_szaccesstoken :: string
  tq_szusername :: string
  tq_szpasswd :: string
  tq_timezone :: int
  tq_connlost :: int
  tq_connLostCnt :: int
  tq_cmd :: int
  tq_txbuf_usage :: dbl
  tq_rxbuf_usage :: dbl
  tq_pub_starttime :: dbl
  tq_pub_endtime :: dbl
  tq_pubTotalTime :: dbl
  tq_pubTotalCnt :: dbl
  tq_pub_failed :: int
  tq_pub_totalFailcnt :: dbl
  tq_pub_maxFailcnt :: dbl
  tq_pubMax :: dbl
  tq_pubAvg :: dbl
  tq_sm :: statemachine_t
  tbmqtt_txbuf :: tbmqtt_ringbuffer_t
  tbmqtt_rxbuf :: tbmqtt_ringbuffer_t
  tq_confirmed :: "(string \<times> string) list"

text \<open>What the client library and the clock answer in one iteration.\<close>

record tbmqtt_os =
  to_now :: timeval
  to_create :: int
  to_connect :: int
  to_subscribe :: int
  to_publish :: int
  to_wait :: int
  to_pub_start :: timeval
  to_pub_end :: timeval

section \<open>Buffers, commands and accessors\<close>

definition tbmqtt_get_timeofday :: "timeval \<Rightarrow> dbl" where
  "tbmqtt_get_timeofday tv =
     dbl_add (dbl_mul (dbl_round (of_int (fst tv))) 1000) (dbl_div (dbl_round (of_int (snd tv))) 1000)"

definition tbmqtt_connlost :: "tbmqtt_t \<Rightarrow> tbmqtt_t" where
  "tbmqtt_connlost m = m\<lparr>tq_connlost := 1, tq_connLostCnt := tq_connLostCnt m + 1\<rparr>"

definition tbmqtt_init_txbuf :: "tbmqtt_t \<Rightarrow> tbmqtt_t" where
  "tbmqtt_init_txbuf m = m\<lparr>tbmqtt_txbuf := tbmqtt_ringbuffer_init (tbmqtt_txbuf m)\<rparr>"

definition tbmqtt_queue_txbuf :: "tbmqtt_ringbuffer_element_t \<Rightarrow> tbmqtt_t \<Rightarrow> tbmqtt_t" where
  "tbmqtt_queue_txbuf e m = m\<lparr>tbmqtt_txbuf := tbmqtt_ringbuffer_queue (tbmqtt_txbuf m) e\<rparr>"

definition tbmqtt_dequeue_txbuf :: "tbmqtt_t \<Rightarrow> tbmqtt_ringbuffer_element_t option \<times> tbmqtt_t" where
  "tbmqtt_dequeue_txbuf m =
     (case tbmqtt_ringbuffer_dequeue (tbmqtt_txbuf m) of (r, b) \<Rightarrow> (r, m\<lparr>tbmqtt_txbuf := b\<rparr>))"

text \<open>The index argument is ignored.\<close>

definition tbmqtt_peek_txbuf :: "tbmqtt_t \<Rightarrow> int \<Rightarrow> tbmqtt_ringbuffer_element_t option" where
  "tbmqtt_peek_txbuf m index = tbmqtt_ringbuffer_peek (tbmqtt_txbuf m) 0"

definition tbmqtt_init_rxbuf :: "tbmqtt_t \<Rightarrow> tbmqtt_t" where
  "tbmqtt_init_rxbuf m = m\<lparr>tbmqtt_rxbuf := tbmqtt_ringbuffer_init (tbmqtt_rxbuf m)\<rparr>"

definition tbmqtt_queue_rxbuf :: "tbmqtt_ringbuffer_element_t \<Rightarrow> tbmqtt_t \<Rightarrow> tbmqtt_t" where
  "tbmqtt_queue_rxbuf e m = m\<lparr>tbmqtt_rxbuf := tbmqtt_ringbuffer_queue (tbmqtt_rxbuf m) e\<rparr>"

definition tbmqtt_dequeue_rxbuf :: "tbmqtt_t \<Rightarrow> tbmqtt_ringbuffer_element_t option \<times> tbmqtt_t" where
  "tbmqtt_dequeue_rxbuf m =
     (case tbmqtt_ringbuffer_dequeue (tbmqtt_rxbuf m) of (r, b) \<Rightarrow> (r, m\<lparr>tbmqtt_rxbuf := b\<rparr>))"

definition tbmqtt_peek_rxbuf :: "tbmqtt_t \<Rightarrow> int \<Rightarrow> tbmqtt_ringbuffer_element_t option" where
  "tbmqtt_peek_rxbuf m index = tbmqtt_ringbuffer_peek (tbmqtt_rxbuf m) 0"

definition tbmqtt_get_cmd :: "tbmqtt_t \<Rightarrow> int" where
  "tbmqtt_get_cmd m = tq_cmd m"

definition tbmqtt_reset_cmd :: "tbmqtt_t \<Rightarrow> tbmqtt_t" where
  "tbmqtt_reset_cmd m = m\<lparr>tq_cmd := CMD_SM_DONE\<rparr>"

definition tbmqtt_send_sm_cmd :: "int \<Rightarrow> tbmqtt_t \<Rightarrow> tbmqtt_t" where
  "tbmqtt_send_sm_cmd c m = m\<lparr>tq_cmd := c\<rparr>"

definition tbmqtt_get_state :: "tbmqtt_t \<Rightarrow> int" where
  "tbmqtt_get_state m = sm_state (tq_sm m)"

definition tbmqtt_get_tz :: "tbmqtt_t \<Rightarrow> int" where
  "tbmqtt_get_tz m = tq_timezone m"

definition tbmqtt_get_txbuf_used :: "tbmqtt_t \<Rightarrow> int" where
  "tbmqtt_get_txbuf_used m = tbmqtt_ringbuffer_num_items (tbmqtt_txbuf m)"

definition tbmqtt_get_txbuf_size :: "tbmqtt_t \<Rightarrow> int" where
  "tbmqtt_get_txbuf_size m = tbmqtt_ringbuffer_size (tbmqtt_txbuf m)"

definition tbmqtt_get_rxbuf_used :: "tbmqtt_t \<Rightarrow> int" where
  "tbmqtt_get_rxbuf_used m = tbmqtt_ringbuffer_num_items (tbmqtt_rxbuf m)"

definition tbmqtt_get_rxbuf_size :: "tbmqtt_t \<Rightarrow> int" where
  "tbmqtt_get_rxbuf_size m = tbmqtt_ringbuffer_size (tbmqtt_rxbuf m)"

definition tbmqtt_get_state_str :: "tbmqtt_t \<Rightarrow> string" where
  "tbmqtt_get_state_str m = sm_szstate (tq_sm m)"

definition tbmqtt_get_stp :: "tbmqtt_t \<Rightarrow> int" where
  "tbmqtt_get_stp m = sm_step (tq_sm m)"

definition tbmqtt_get_err_str :: "tbmqtt_t \<Rightarrow> string" where
  "tbmqtt_get_err_str m = sm_szerrcode (tq_sm m)"

definition tbmqtt_get_tick :: "tbmqtt_t \<Rightarrow> int" where
  "tbmqtt_get_tick m = uint (sm_tick (tq_sm m))"

definition tbmqtt_get_timing_ave :: "tbmqtt_t \<Rightarrow> dbl" where
  "tbmqtt_get_timing_ave m = timing_ave (tq_sm m)"

definition tbmqtt_get_timing_cur :: "tbmqtt_t \<Rightarrow> dbl" where
  "tbmqtt_get_timing_cur m = timing_cur (tq_sm m)"

definition tbmqtt_get_timing_max :: "tbmqtt_t \<Rightarrow> dbl" where
  "tbmqtt_get_timing_max m = timing_max (tq_sm m)"

definition tbmqtt_get_enable :: "tbmqtt_t \<Rightarrow> int" where
  "tbmqtt_get_enable m = tq_enable m"

definition tbmqtt_get_servip_str :: "tbmqtt_t \<Rightarrow> string" where
  "tbmqtt_get_servip_str m = tq_szservip m"

definition tbmqtt_get_servport :: "tbmqtt_t \<Rightarrow> int" where
  "tbmqtt_get_servport m = tq_servport m"

definition tbmqtt_get_client_id :: "tbmqtt_t \<Rightarrow> string" where
  "tbmqtt_get_client_id m = tq_szclientid m"

definition tbmqtt_get_txbuf_usage :: "tbmqtt_t \<Rightarrow> dbl" where
  "tbmqtt_get_txbuf_usage m = tq_txbuf_usage m"

definition tbmqtt_get_access_token :: "tbmqtt_t \<Rightarrow> string" where
  "tbmqtt_get_access_token m = tq_szaccesstoken m"

definition tbmqtt_set_dbg :: "int \<Rightarrow> tbmqtt_t \<Rightarrow> tbmqtt_t" where
  "tbmqtt_set_dbg val m = m\<lparr>tq_dbg := val\<rparr>"

definition tbmqtt_reset :: "tbmqtt_t \<Rightarrow> tbmqtt_t" where
  "tbmqtt_reset m = tbmqtt_init_txbuf (tbmqtt_init_rxbuf m)"

section \<open>Receiving\<close>

text \<open>The arrival callback takes the message the library hands over; \<open>e0\<close> is the uninitialised local element.\<close>

definition tbmqtt_msgarrvd ::
  "tbmqtt_ringbuffer_element_t \<Rightarrow> (string \<times> string) option \<Rightarrow> tbmqtt_t \<Rightarrow> tbmqtt_t res" where
  "tbmqtt_msgarrvd e0 message m =
     (case message of
        None \<Rightarrow> Inr m
      | Some (topic, payload) \<Rightarrow>
          bind_res (strcpy_buf BUF_TOPIC_MAX_LEN topic) (\<lambda>t.
          bind_res (strncpy_block (tb_szpayload e0) payload) (\<lambda>p.
            Inr (tbmqtt_queue_rxbuf (e0\<lparr>tb_sztopic := t, tb_szpayload := p\<rparr>) m))))"

section \<open>Connecting and publishing\<close>

text \<open>
  \<open>MQTTClient_create\<close> stores the new client through its first argument once it has accepted the others;
  here that argument is the value of \<open>cli\<close>, which is null until a client has been stored.
\<close>

definition tbmqtt_connect :: "tbmqtt_os \<Rightarrow> tbmqtt_t \<Rightarrow> (int \<times> tbmqtt_t) res" where
  "tbmqtt_connect os m =
     bind_res (strcpy_buf 1024 (''tcp://'' @ tq_szservip m @ '':'' @ show_int (tq_servport m))) (\<lambda>url.
       if to_create os \<noteq> MQTTCLIENT_SUCCESS then Inr (-1, m)
       else if \<not> tq_cli m then Inl Null_deref
       else if to_connect os \<noteq> MQTTCLIENT_SUCCESS then Inr (-1, m)
       else if to_subscribe os \<noteq> MQTTCLIENT_SUCCESS \<and> to_subscribe os \<noteq> 2 then Inr (-2, m)
       else Inr (0, m))"

definition tbmqtt_pub_stats :: "timeval \<Rightarrow> tbmqtt_t \<Rightarrow> tbmqtt_t" where
  "tbmqtt_pub_stats tend m =
     (let endtime = tbmqtt_get_timeofday tend;
          pub_time = dbl_sub endtime (tq_pub_starttime m);
          cnt = dbl_add (tq_pubTotalCnt m) 1;
          total = dbl_add (tq_pubTotalTime m) pub_time;
          ave = dbl_div total cnt;
          mx = (if pub_time > tq_pubMax m then pub_time else tq_pubMax m);
          over = cnt > 1000000
      in m\<lparr>tq_pub_endtime := endtime,
           tq_pubTotalCnt := (if over then 0 else cnt),
           tq_pubTotalTime := (if over then 0 else total),
           tq_pubAvg := (if over then 0 else ave),
           tq_pubMax := (if over then 0 else mx),
           tq_pub_maxFailcnt := (if of_int (tq_pub_failed m) > tq_pub_maxFailcnt m
                                 then of_int (tq_pub_failed m) else tq_pub_maxFailcnt m),
           tq_pub_totalFailcnt := dbl_add (tq_pub_totalFailcnt m) (of_int (tq_pub_failed m)),
           tq_pub_failed := 0\<rparr>)"

definition tbmqtt_pub :: "tbmqtt_os \<Rightarrow> string \<Rightarrow> string \<Rightarrow> tbmqtt_t \<Rightarrow> int \<times> tbmqtt_t" where
  "tbmqtt_pub os topic payload m =
     (let m1 = m\<lparr>tq_pub_starttime := tbmqtt_get_timeofday (to_pub_start os)\<rparr>
      in if to_publish os \<noteq> MQTTCLIENT_SUCCESS
         then (-1, m1\<lparr>tq_pub_failed := tq_pub_failed m1 + 1\<rparr>)
         else if to_wait os \<noteq> MQTTCLIENT_SUCCESS
         then (-2, m1\<lparr>tq_pub_failed := tq_pub_failed m1 + 1\<rparr>)
         else (0, (tbmqtt_pub_stats (to_pub_end os) m1)
                    \<lparr>tq_confirmed := tq_confirmed m1 @ [(topic, payload)]\<rparr>))"

section \<open>The state machine\<close>

definition TBMQTTERR_NONE :: int where
  "TBMQTTERR_NONE = 0"

definition TBMQTTERR_OFFLINE_PWRUP :: int where
  "TBMQTTERR_OFFLINE_PWRUP = 1"

definition tbmqtt_states :: state_tab where
  "tbmqtt_states = [(SMST_OFFLINE, ''offline''), (SMST_READY, ''ready'')]"

definition tbmqtt_errs :: state_tab where
  "tbmqtt_errs = [(TBMQTTERR_NONE, ''none''), (TBMQTTERR_OFFLINE_PWRUP, ''pwrup'')]"

definition tbmqtt_sm_init :: "tbmqtt_t \<Rightarrow> tbmqtt_t res" where
  "tbmqtt_sm_init m =
     bind_res (sm_set_state ((sm_reset_timing (tq_sm m) 20 20)
                 \<lparr>sm_states := tbmqtt_states, sm_errs := tbmqtt_errs\<rparr>) SMST_OFFLINE TBMQTTERR_OFFLINE_PWRUP)
       (\<lambda>s. Inr (m\<lparr>tq_sm := s\<rparr>))"

definition tbmqtt_set_sm :: "(statemachine_t \<Rightarrow> statemachine_t) \<Rightarrow> tbmqtt_t \<Rightarrow> tbmqtt_t" where
  "tbmqtt_set_sm f m = m\<lparr>tq_sm := f (tq_sm m)\<rparr>"

definition tbmqtt_goto :: "int \<Rightarrow> int \<Rightarrow> tbmqtt_t \<Rightarrow> tbmqtt_t res" where
  "tbmqtt_goto st err m = bind_res (sm_set_state (tq_sm m) st err) (\<lambda>s. Inr (m\<lparr>tq_sm := s\<rparr>))"

definition tbmqtt_try_connect :: "tbmqtt_os \<Rightarrow> tbmqtt_t \<Rightarrow> tbmqtt_t res" where
  "tbmqtt_try_connect os m =
     bind_res (tbmqtt_connect os m) (\<lambda>(rc, m1).
       if rc < 0
       then Inr (tbmqtt_set_sm (\<lambda>s. sm_set_count s 0) (m1\<lparr>tq_cli := False, tq_connlost := 1\<rparr>))
       else tbmqtt_goto SMST_READY TBMQTTERR_NONE (m1\<lparr>tq_connlost := 0\<rparr>))"

definition tbmqtt_sm_offline :: "tbmqtt_os \<Rightarrow> tbmqtt_t \<Rightarrow> tbmqtt_t res" where
  "tbmqtt_sm_offline os m =
     (if sm_get_step (tq_sm m) = 0
      then Inr (tbmqtt_set_sm (\<lambda>s. sm_set_count (sm_set_step s 10) 0) (tbmqtt_reset_cmd m))
      else if sm_get_step (tq_sm m) = 10
      then (if tbmqtt_get_cmd m = CMD_SM_READY then tbmqtt_try_connect os (tbmqtt_reset_cmd m)
            else let m1 = tbmqtt_set_sm sm_inc_count m in
              if sm_get_count (tq_sm m1) \<ge> 2000
              then (let m2 = tbmqtt_set_sm (\<lambda>s. sm_set_count s 0) m1
                    in if tq_enable m2 \<noteq> 0 then tbmqtt_try_connect os m2 else Inr m2)
              else Inr m1)
      else Inr m)"

text \<open>As in \<open>mqtt_forward\<close>, \<open>between\<close> is what the producer queues while the lock is free.\<close>

definition tbmqtt_forward ::
  "tbmqtt_os \<Rightarrow> tbmqtt_ringbuffer_element_t list \<Rightarrow> tbmqtt_t \<Rightarrow> tbmqtt_t" where
  "tbmqtt_forward os between m =
     (case tbmqtt_peek_txbuf m 0 of
        None \<Rightarrow> fold tbmqtt_queue_txbuf between m
      | Some e \<Rightarrow>
          (case tbmqtt_pub os (tb_sztopic e) (tb_szpayload e) m of (rc, m1) \<Rightarrow>
             let m2 = fold tbmqtt_queue_txbuf between m1
             in if rc = 0 then snd (tbmqtt_dequeue_txbuf m2) else m2))"

definition tbmqtt_sm_ready ::
  "tbmqtt_os \<Rightarrow> tbmqtt_ringbuffer_element_t list \<Rightarrow> tbmqtt_t \<Rightarrow> tbmqtt_t res" where
  "tbmqtt_sm_ready os between m =
     (if sm_get_step (tq_sm m) = 0
      then Inr (tbmqtt_set_sm (\<lambda>s. sm_set_step s 10) (tbmqtt_reset_cmd m))
      else if sm_get_step (tq_sm m) = 10
      then (if tbmqtt_get_cmd m = CMD_SM_OFFLINE
            then tbmqtt_goto SMST_OFFLINE TBMQTTERR_NONE ((tbmqtt_reset_cmd m)\<lparr>tq_cli := False\<rparr>)
            else if tq_connlost m \<noteq> 0
            then tbmqtt_goto SMST_OFFLINE TBMQTTERR_NONE (m\<lparr>tq_cli := False\<rparr>)
            else Inr (tbmqtt_forward os between m))
      else Inr m)"

definition tbmqtt_update :: "tbmqtt_t \<Rightarrow> tbmqtt_t" where
  "tbmqtt_update m =
     m\<lparr>tq_txbuf_usage :=
         dbl_mul (dbl_div (of_int (tbmqtt_get_txbuf_used m)) (of_int (tbmqtt_get_txbuf_size m))) 100,
       tq_rxbuf_usage :=
         dbl_mul (dbl_div (of_int (tbmqtt_get_rxbuf_used m)) (of_int (tbmqtt_get_rxbuf_size m))) 100\<rparr>"

definition tbmqtt_sm :: "tbmqtt_os \<Rightarrow> tbmqtt_ringbuffer_element_t list \<Rightarrow> tbmqtt_t \<Rightarrow> tbmqtt_t res" where
  "tbmqtt_sm os between m =
     (let m1 = tbmqtt_update (tbmqtt_set_sm (sm_cal_timing (to_now os)) m)
      in if tbmqtt_get_state m1 = SMST_OFFLINE then tbmqtt_sm_offline os m1
         else if tbmqtt_get_state m1 = SMST_READY then tbmqtt_sm_ready os between m1
         else Inr m1)"

text \<open>The start of the thread, up to its loop.\<close>

definition tbmqtt_thrd_main :: "tbmqtt_t \<Rightarrow> tbmqtt_t res" where
  "tbmqtt_thrd_main m =
     tbmqtt_sm_init (tbmqtt_init_rxbuf (tbmqtt_init_txbuf
       (m\<lparr>tq_connLostCnt := 0, tq_pubTotalCnt := 0, tq_pubTotalTime := 0, tq_pubAvg := 0, tq_pubMax := 0\<rparr>)))"

section \<open>Configuration\<close>

definition tbmqtt_cfg_column :: "string \<times> string option \<Rightarrow> tbmqtt_t \<Rightarrow> tbmqtt_t res" where
  "tbmqtt_cfg_column c m =
     (case c of (name, val) \<Rightarrow>
        if name = ''enable'' then col_int val (\<lambda>v. m\<lparr>tq_enable := v\<rparr>)
        else if name = ''servip'' then col_str 32 val (\<lambda>v. m\<lparr>tq_szservip := v\<rparr>)
        else if name = ''servport'' then col_int val (\<lambda>v. m\<lparr>tq_servport := v\<rparr>)
        else if name = ''clientid'' then col_str 64 val (\<lambda>v. m\<lparr>tq_szclientid := v\<rparr>)
        else if name = ''username'' then col_str 64 val (\<lambda>v. m\<lparr>tq_szusername := v\<rparr>)
        else if name = ''passwd'' then col_str 64 val (\<lambda>v. m\<lparr>tq_szpasswd := v\<rparr>)
        else if name = ''accesstoken'' then col_str 64 val (\<lambda>v. m\<lparr>tq_szaccesstoken := v\<rparr>)
        else if name = ''timezone'' then col_int val (\<lambda>v. m\<lparr>tq_timezone := v\<rparr>)
        else Inr m)"

fun tbmqtt_cfg_columns :: "row \<Rightarrow> tbmqtt_t \<Rightarrow> tbmqtt_t res" where
  "tbmqtt_cfg_columns [] m = Inr m"
| "tbmqtt_cfg_columns (c # cs) m = bind_res (tbmqtt_cfg_column c m) (tbmqtt_cfg_columns cs)"

definition tbmqtt_dbcb_0 :: "row \<Rightarrow> dbcbparam_t \<times> tbmqtt_t \<Rightarrow> (int \<times> dbcbparam_t \<times> tbmqtt_t) res" where
  "tbmqtt_dbcb_0 cols pm =
     (case pm of (p, m) \<Rightarrow>
        let p1 = p\<lparr>cb_nrow := cb_nrow p + 1\<rparr>
        in if cb_nrow p1 > 1 then Inr (-1, p1, m)
           else bind_res (tbmqtt_cfg_columns cols m) (\<lambda>m'. Inr (0, p1\<lparr>cb_ret := 0\<rparr>, m')))"

text \<open>
  Initialisation: \<open>p0\<close> is the uninitialised callback parameter, of which only \<open>nrow\<close> is set, and \<open>thread_ok\<close>
  tells whether the thread could be created. The result is the return value, whether
  the thread runs, and the configured uplink.
\<close>

definition tbmqtt_init ::
  "'db exec \<Rightarrow> dbcbparam_t \<Rightarrow> bool \<Rightarrow> 'db \<Rightarrow> tbmqtt_t \<Rightarrow> (int \<times> bool \<times> tbmqtt_t) res" where
  "tbmqtt_init ex p0 thread_ok db m =
     bind_res (sqlite3_exec ex ''select * from tbmqtt'' tbmqtt_dbcb_0 (p0\<lparr>cb_nrow := 0\<rparr>, m) db)
       (\<lambda>(rc, (p, m'), db').
         if rc \<noteq> SQLITE_OK then Inr (-1, False, m')
         else if cb_ret p \<noteq> 0 then Inr (-2, False, m')
         else if thread_ok then Inr (0, True, m') else Inr (-1, False, m'))"

section \<open>Runs\<close>

text \<open>
  The states the uplink reaches after its start: iterations of the thread, with anything queued before and
  during them, commands, lost connections and arrivals reported by the library, in any order.
\<close>

inductive tb_reach :: "tbmqtt_t \<Rightarrow> tbmqtt_t \<Rightarrow> bool" where
  start: "tbmqtt_thrd_main m0 = Inr m \<Longrightarrow> tb_reach m0 m"
| iteration: "tb_reach m0 m \<Longrightarrow> tbmqtt_sm os es m = Inr m' \<Longrightarrow> tb_reach m0 m'"
| command: "tb_reach m0 m \<Longrightarrow> tb_reach m0 (tbmqtt_send_sm_cmd c m)"
| queue: "tb_reach m0 m \<Longrightarrow> tb_reach m0 (tbmqtt_queue_txbuf e m)"
| lost: "tb_reach m0 m \<Longrightarrow> tb_reach m0 (tbmqtt_connlost m)"
| arrival: "tb_reach m0 m \<Longrightarrow> tbmqtt_msgarrvd e0 msg m = Inr m' \<Longrightarrow> tb_reach m0 m'"
| reset: "tb_reach m0 m \<Longrightarrow> tb_reach m0 (tbmqtt_reset m)"

definition tbmqtt_down :: "tbmqtt_t \<Rightarrow> bool" where
  "tbmqtt_down m \<longleftrightarrow> \<not> tq_cli m \<and> sm_state (tq_sm m) = SMST_OFFLINE \<and>
     sm_states (tq_sm m) = tbmqtt_states \<and> sm_errs (tq_sm m) = tbmqtt_errs \<and> sm_step (tq_sm m) \<in> {0, 10}"

lemmas tbmqtt_defs = tbmqtt_set_sm_def tbmqtt_reset_cmd_def tbmqtt_get_cmd_def tbmqtt_get_state_def
  tbmqtt_update_def tbmqtt_queue_txbuf_def tbmqtt_queue_rxbuf_def tbmqtt_send_sm_cmd_def tbmqtt_connlost_def
  tbmqtt_init_txbuf_def tbmqtt_init_rxbuf_def tbmqtt_reset_def

lemma tbmqtt_tables: "sm_states s = tbmqtt_states \<Longrightarrow> sm_errs s = tbmqtt_errs \<Longrightarrow> sm_wf s"
  by (simp add: sm_wf_def tbmqtt_states_def tbmqtt_errs_def tab_fits_def)

lemma tbmqtt_start:
  "\<exists>m. tbmqtt_thrd_main m0 = Inr m \<and> tq_cli m = tq_cli m0 \<and> tq_confirmed m = tq_confirmed m0 \<and>
     sm_state (tq_sm m) = SMST_OFFLINE \<and> sm_step (tq_sm m) = 0 \<and> sm_states (tq_sm m) = tbmqtt_states \<and>
     sm_errs (tq_sm m) = tbmqtt_errs \<and> tq_enable m = tq_enable m0 \<and> tq_szservip m = tq_szservip m0 \<and>
     tq_servport m = tq_servport m0"
proof -
  have "sm_wf ((sm_reset_timing (tq_sm m0) 20 20)\<lparr>sm_states := tbmqtt_states, sm_errs := tbmqtt_errs\<rparr>)"
    by (rule tbmqtt_tables) simp_all
  then show ?thesis by (simp add: tbmqtt_thrd_main_def tbmqtt_sm_init_def sm_set_state_ok tbmqtt_defs)
qed

lemma tbmqtt_connect_down:
  assumes "\<not> tq_cli m" "tbmqtt_connect os m = Inr (rc, m')"
  shows "rc = -1 \<and> m' = m"
  using assms by (auto simp: tbmqtt_connect_def bind_res_eq_Inr split: if_splits)

lemma tbmqtt_try_connect_down:
  assumes "tbmqtt_down m" "tbmqtt_try_connect os m = Inr m'"
  shows "tbmqtt_down m' \<and> tq_confirmed m' = tq_confirmed m"
proof -
  have "\<not> tq_cli m" using assms(1) by (simp add: tbmqtt_down_def)
  then have "m' = tbmqtt_set_sm (\<lambda>s. sm_set_count s 0) (m\<lparr>tq_cli := False, tq_connlost := 1\<rparr>)"
    using assms(2) tbmqtt_connect_down by (fastforce simp: tbmqtt_try_connect_def bind_res_eq_Inr)
  then show ?thesis using assms(1) by (simp add: tbmqtt_down_def tbmqtt_set_sm_def)
qed

lemma tbmqtt_offline_down:
  assumes "tbmqtt_down m" "tbmqtt_sm_offline os m = Inr m'"
  shows "tbmqtt_down m' \<and> tq_confirmed m' = tq_confirmed m"
proof -
  have d: "tbmqtt_down (tbmqtt_reset_cmd m)" "tbmqtt_down (tbmqtt_set_sm sm_inc_count m)"
    "tbmqtt_down (tbmqtt_set_sm (\<lambda>s. sm_set_count s 0) (tbmqtt_set_sm sm_inc_count m))"
    "tbmqtt_down (tbmqtt_set_sm (\<lambda>s. sm_set_count (sm_set_step s 10) 0) (tbmqtt_reset_cmd m))"
    using assms(1) by (auto simp: tbmqtt_down_def tbmqtt_defs)
  show ?thesis
    using assms(2) d(2-) tbmqtt_try_connect_down[OF d(1)] tbmqtt_try_connect_down[OF d(3)] assms(1)
    unfolding tbmqtt_sm_offline_def Let_def by (auto simp: tbmqtt_defs split: if_splits)
qed

lemma tbmqtt_sm_down:
  assumes "tbmqtt_down m" "tbmqtt_sm os es m = Inr m'"
  shows "tbmqtt_down m' \<and> tq_confirmed m' = tq_confirmed m"
proof -
  let ?m = "tbmqtt_update (tbmqtt_set_sm (sm_cal_timing (to_now os)) m)"
  have "tbmqtt_down ?m" "tq_confirmed ?m = tq_confirmed m" using assms(1) by (simp_all add: tbmqtt_down_def tbmqtt_defs)
  moreover have "tbmqtt_sm_offline os ?m = Inr m'"
    using assms by (simp add: tbmqtt_sm_def tbmqtt_down_def tbmqtt_get_state_def tbmqtt_update_def tbmqtt_set_sm_def Let_def)
  ultimately show ?thesis using tbmqtt_offline_down by metis
qed

lemma tb_reach_down:
  assumes "tb_reach m0 m" "\<not> tq_cli m0"
  shows "tbmqtt_down m \<and> tq_confirmed m = tq_confirmed m0"
  using assms
proof (induction rule: tb_reach.induct)
  case (start m0 m)
  then show ?case using tbmqtt_start[of m0] by (auto simp: tbmqtt_down_def)
next
  case (iteration m0 m os es m')
  then show ?case using tbmqtt_sm_down by metis
next
  case (arrival m0 m e0 msg m')
  then show ?case
    by (auto simp: tbmqtt_msgarrvd_def tbmqtt_down_def tbmqtt_queue_rxbuf_def bind_res_eq_Inr split: option.splits)
qed (auto simp: tbmqtt_down_def tbmqtt_defs)

text \<open>Iterations of the thread while nothing else happens.\<close>

fun tbmqtt_run :: "tbmqtt_os list \<Rightarrow> tbmqtt_t \<Rightarrow> tbmqtt_t res" where
  "tbmqtt_run [] m = Inr m"
| "tbmqtt_run (os # oss) m = bind_res (tbmqtt_sm os [] m) (tbmqtt_run oss)"

lemma tbmqtt_run_append: "tbmqtt_run (xs @ ys) m = bind_res (tbmqtt_run xs m) (tbmqtt_run ys)"
proof (induction xs arbitrary: m)
  case (Cons os oss)
  then show ?case by (cases "tbmqtt_sm os [] m") simp_all
qed simp

definition tbmqtt_idle :: "int \<Rightarrow> string \<Rightarrow> int \<Rightarrow> int \<Rightarrow> tbmqtt_t \<Rightarrow> bool" where
  "tbmqtt_idle n ip port en m \<longleftrightarrow> \<not> tq_cli m \<and> sm_state (tq_sm m) = SMST_OFFLINE \<and> sm_step (tq_sm m) = 10 \<and>
     sm_count (tq_sm m) = n \<and> tq_cmd m = CMD_SM_DONE \<and> tq_szservip m = ip \<and> tq_servport m = port \<and>
     tq_enable m = en"

lemma tbmqtt_idle_step:
  assumes "tbmqtt_idle n ip port en m" "n < 1999"
  shows "\<exists>m'. tbmqtt_sm os [] m = Inr m' \<and> tbmqtt_idle (n + 1) ip port en m'"
  using assms
  by (auto simp: tbmqtt_sm_def tbmqtt_sm_offline_def tbmqtt_defs Let_def tbmqtt_idle_def CMD_SM_DONE_def CMD_SM_READY_def)

lemma tbmqtt_idle_run:
  assumes "tbmqtt_idle n ip port en m" "n + int (length oss) \<le> 1999"
  shows "\<exists>m'. tbmqtt_run oss m = Inr m' \<and> tbmqtt_idle (n + int (length oss)) ip port en m'"
  using assms
proof (induction oss arbitrary: n m)
  case (Cons os oss)
  obtain m1 where m1: "tbmqtt_sm os [] m = Inr m1" "tbmqtt_idle (n + 1) ip port en m1"
    using tbmqtt_idle_step[OF Cons.prems(1), of os] Cons.prems(2) by auto
  then show ?case using Cons.IH[OF m1(2)] Cons.prems(2) by (auto simp: algebra_simps)
qed simp

section \<open>Properties\<close>

text \<open>C33: the ThingsBoard uplink never becomes ready: since its client handle is never stored, whatever the
  library answers and whatever is queued, commanded or received, every state it reaches is offline, and no
  message is ever confirmed.\<close>

theorem tbmqtt_never_ready:
  assumes "tb_reach m0 m" "\<not> tq_cli m0" "tq_confirmed m0 = []"
  shows "tbmqtt_get_state m = SMST_OFFLINE \<and> tq_confirmed m = [] \<and> \<not> tq_cli m"
  using tb_reach_down[OF assms(1,2)] assms(3) by (simp add: tbmqtt_down_def tbmqtt_get_state_def)

text \<open>Fact: an enabled ThingsBoard uplink that starts with the null handle dereferences it in its 2001st iteration, when
  the library accepts the arguments of \<open>MQTTClient_create\<close>: the iterations before only wait.\<close>

theorem tbmqtt_first_connect_faults:
  assumes "tbmqtt_thrd_main m0 = Inr m" "\<not> tq_cli m0" "tq_enable m0 \<noteq> 0"
    "length (tq_szservip m0) + length (show_int (tq_servport m0)) < 1000"
    "length oss = 1999" "to_create os = MQTTCLIENT_SUCCESS"
  shows "tbmqtt_run (os0 # oss @ [os]) m = Inl Null_deref \<and> (\<exists>m'. tbmqtt_run (os0 # oss) m = Inr m')"
proof -
  have m: "\<not> tq_cli m" "sm_state (tq_sm m) = SMST_OFFLINE" "sm_step (tq_sm m) = 0" "tq_enable m = tq_enable m0"
    "tq_szservip m = tq_szservip m0" "tq_servport m = tq_servport m0"
    using tbmqtt_start[of m0] assms(1,2) by auto
  then obtain m1 where m1: "tbmqtt_sm os0 [] m = Inr m1"
    "tbmqtt_idle 0 (tq_szservip m0) (tq_servport m0) (tq_enable m0) m1"
    by (auto simp: tbmqtt_sm_def tbmqtt_sm_offline_def tbmqtt_defs Let_def tbmqtt_idle_def)
  obtain m2 where m2: "tbmqtt_run oss m1 = Inr m2"
    "tbmqtt_idle 1999 (tq_szservip m0) (tq_servport m0) (tq_enable m0) m2"
    using tbmqtt_idle_run[OF m1(2), of oss] assms(5) by auto
  have "tbmqtt_sm os [] m2 = Inl Null_deref"
    using m2(2) assms(3,4,6)
    by (simp add: tbmqtt_sm_def tbmqtt_sm_offline_def tbmqtt_try_connect_def tbmqtt_connect_def tbmqtt_defs
        tbmqtt_idle_def Let_def CMD_SM_DONE_def CMD_SM_READY_def)
  then show ?thesis using m1(1) m2(1) by (simp add: tbmqtt_run_append)
qed

text \<open>Fact: the outcomes of the initialisation. A single configuration row is loaded, numbers and names as they were
  printed; a second row makes it fail with -1; and with an empty table the result is decided by
  the uninitialised field \<open>ret\<close> of the callback parameter.\<close>

theorem tbmqtt_init_outcomes:
  assumes "- (2 ^ 31) \<le> en \<and> en < 2 ^ 31" "- (2 ^ 31) \<le> port \<and> port < 2 ^ 31" "length ip < 32" "length tok < 64"
    "row = [(''enable'', Some (show_int en)), (''servip'', Some ip), (''servport'', Some (show_int port)),
            (''accesstoken'', Some tok)]"
  shows "(ex ''select * from tbmqtt'' db = (SQLITE_OK, [row], db) \<longrightarrow>
        tbmqtt_init ex p0 True db m =
          Inr (0, True, m\<lparr>tq_enable := en, tq_szservip := ip, tq_servport := port, tq_szaccesstoken := tok\<rparr>)) \<and>
    (ex ''select * from tbmqtt'' db = (SQLITE_OK, [row, row2], db) \<longrightarrow>
        (\<exists>m'. tbmqtt_init ex p0 True db m = Inr (-1, False, m'))) \<and>
    (ex ''select * from tbmqtt'' db = (SQLITE_OK, [], db) \<longrightarrow>
        tbmqtt_init ex p0 True db m = Inr (if cb_ret p0 = 0 then 0 else -2, cb_ret p0 = 0, m))"
  using assms
  by (auto simp: tbmqtt_init_def sqlite3_exec_def tbmqtt_dbcb_0_def tbmqtt_cfg_column_def atoi_show_int
      SQLITE_ABORT_def SQLITE_OK_def)

section \<open>A concrete uplink\<close>

definition tb_elem0 :: tbmqtt_ringbuffer_element_t where
  "tb_elem0 = \<lparr>tb_idx = 0, tb_cmd = 0, tb_val = 0, tb_sztopic = ''t'', tb_szpayload = ''p''\<rparr>"

definition tbmqtt_example :: tbmqtt_t where
  "tbmqtt_example =
     \<lparr>tq_dbg = 0, tq_cli = False, tq_enable = 1, tq_szservip = ''10.0.0.1'', tq_servport = 1883,
      tq_szclientid = '''', tq_szaccesstoken = '''', tq_szusername = '''', tq_szpasswd = '''', tq_timezone = 0,
      tq_connlost = 0, tq_connLostCnt = 0, tq_cmd = 0, tq_txbuf_usage = 0, tq_rxbuf_usage = 0,
      tq_pub_starttime = 0, tq_pub_endtime = 0, tq_pubTotalTime = 0, tq_pubTotalCnt = 0, tq_pub_failed = 0,
      tq_pub_totalFailcnt = 0, tq_pub_maxFailcnt = 0, tq_pubMax = 0, tq_pubAvg = 0, tq_sm = sm_example,
      tbmqtt_txbuf = \<lparr>buffer = replicate 512 tb_elem0, tail_index = 0, head_index = 0\<rparr>,
      tbmqtt_rxbuf = \<lparr>buffer = replicate 512 tb_elem0, tail_index = 0, head_index = 0\<rparr>,
      tq_confirmed = []\<rparr>"

definition tbmqtt_os_example :: tbmqtt_os where
  "tbmqtt_os_example = \<lparr>to_now = (0, 0), to_create = 0, to_connect = 0, to_subscribe = 2, to_publish = 0,
     to_wait = 0, to_pub_start = (0, 0), to_pub_end = (0, 5)\<rparr>"

lemma tbmqtt_example_fields [simp]:
  "\<not> tq_cli tbmqtt_example" "tq_enable tbmqtt_example = 1" "tq_confirmed tbmqtt_example = []"
  "tq_szservip tbmqtt_example = ''10.0.0.1''" "tq_servport tbmqtt_example = 1883"
  by (simp_all add: tbmqtt_example_def)

theorem tbmqtt_never_ready_witness:
  "\<exists>m. tbmqtt_thrd_main tbmqtt_example = Inr m \<and>
     tb_reach tbmqtt_example (tbmqtt_send_sm_cmd CMD_SM_READY (tbmqtt_queue_txbuf tb_elem0 m)) \<and>
     tbmqtt_get_state (tbmqtt_send_sm_cmd CMD_SM_READY (tbmqtt_queue_txbuf tb_elem0 m)) = SMST_OFFLINE"
proof -
  obtain m where m: "tbmqtt_thrd_main tbmqtt_example = Inr m" using tbmqtt_start by blast
  then have r: "tb_reach tbmqtt_example (tbmqtt_send_sm_cmd CMD_SM_READY (tbmqtt_queue_txbuf tb_elem0 m))"
    by (intro tb_reach.command tb_reach.queue tb_reach.start)
  then show ?thesis using m tbmqtt_never_ready[OF r] by auto
qed

theorem tbmqtt_first_connect_faults_witness:
  "\<exists>m. tbmqtt_thrd_main tbmqtt_example = Inr m \<and>
     tbmqtt_run (tbmqtt_os_example # replicate 1999 tbmqtt_os_example @ [tbmqtt_os_example]) m = Inl Null_deref"
proof -
  obtain m where m: "tbmqtt_thrd_main tbmqtt_example = Inr m" using tbmqtt_start by blast
  have "length (tq_szservip tbmqtt_example) + length (show_int (tq_servport tbmqtt_example)) < 1000"
    using length_show_int[of 1883] by simp
  then show ?thesis
    using m tbmqtt_first_connect_faults[OF m, of "replicate 1999 tbmqtt_os_example" tbmqtt_os_example tbmqtt_os_example]
    by (simp add: tbmqtt_os_example_def MQTTCLIENT_SUCCESS_def del: tbmqtt_run.simps)
qed

theorem tbmqtt_init_outcomes_witness:
  "tbmqtt_init (\<lambda>sql db. (SQLITE_OK, [], db)) \<lparr>cb_idx = 0, cb_ret = 7, cb_nrow = 0\<rparr> True () tbmqtt_example =
     Inr (-2, False, tbmqtt_example) \<and>
   tbmqtt_init (\<lambda>sql db. (SQLITE_OK, [[(''enable'', Some (show_int 1)), (''servip'', Some ''h''),
       (''servport'', Some (show_int 1883)), (''accesstoken'', Some ''k'')]], db))
       \<lparr>cb_idx = 0, cb_ret = 7, cb_nrow = 0\<rparr> True () tbmqtt_example =
     Inr (0, True, tbmqtt_example\<lparr>tq_enable := 1, tq_szservip := ''h'', tq_servport := 1883, tq_szaccesstoken := ''k''\<rparr>)"
  using tbmqtt_init_outcomes[of 1 1883 "''h''" "''k''" _ "\<lambda>sql db. (SQLITE_OK, [], db)" "()"
      "\<lparr>cb_idx = 0, cb_ret = 7, cb_nrow = 0\<rparr>" tbmqtt_example]
    tbmqtt_init_outcomes[of 1 1883 "''h''" "''k''" _ "\<lambda>sql db. (SQLITE_OK, [[(''enable'', Some (show_int 1)),
       (''servip'', Some ''h''), (''servport'', Some (show_int 1883)), (''accesstoken'', Some ''k'')]], db)" "()"
      "\<lparr>cb_idx = 0, cb_ret = 7, cb_nrow = 0\<rparr>" tbmqtt_example]
  by simp

end
