(* ===== verification/TbmqttCache.thy ===== *)
theory TbmqttCache
  imports Tbmqtt MqttCache
begin

text \<open>
  The message cache of the ThingsBoard uplink: \<open>tbmqtt_cache.c\<close> and \<open>tbmqtt_deal_with_cache\<close> of \<open>tbmqtt.c\<close>, the
  counterpart of \<open>MqttCache\<close> for the larger buffer. The thresholds are those of the MQTT cache.
\<close>

section \<open>\<open>tbmqtt_cache.c\<close>\<close>

definition tbmqtt_cache_open ::
  "(string \<Rightarrow> int \<times> 'db option) \<Rightarrow> 'db exec \<Rightarrow> string \<Rightarrow> string \<Rightarrow> (int \<times> 'db option) res" where
  "tbmqtt_cache_open = cache_open"

definition tbmqtt_cache_read_one_payload ::
  "'db exec \<Rightarrow> string \<Rightarrow> tbmqtt_ringbuffer_element_t \<Rightarrow> int \<Rightarrow> 'db \<Rightarrow>
   (int \<times> tbmqtt_ringbuffer_element_t \<times> int \<times> 'db) res" where
  "tbmqtt_cache_read_one_payload ex tn e idx db =
     bind_res (cache_read_one_payload ex tn \<lparr>ci_rowid = idx, ci_topic = tb_sztopic e, ci_payload = tb_szpayload e\<rparr> db)
       (\<lambda>(rc, i, db'). Inr (rc, e\<lparr>tb_sztopic := ci_topic i, tb_szpayload := ci_payload i\<rparr>, ci_rowid i, db'))"

definition tbmqtt_cache_write_one_payload ::
  "'db exec \<Rightarrow> string \<Rightarrow> tbmqtt_ringbuffer_element_t \<Rightarrow> 'db \<Rightarrow> (int \<times> 'db) res" where
  "tbmqtt_cache_write_one_payload ex tn e = cache_write_one_payload ex tn (tb_sztopic e) (tb_szpayload e)"

definition tbmqtt_cache_delete_one_payload :: "'db exec \<Rightarrow> string \<Rightarrow> int \<Rightarrow> 'db \<Rightarrow> (int \<times> 'db) res" where
  "tbmqtt_cache_delete_one_payload = cache_delete_one_payload"

definition tbmqtt_cache_get_payload_nb :: "'db exec \<Rightarrow> string \<Rightarrow> int \<Rightarrow> 'db \<Rightarrow> (int \<times> int \<times> 'db) res" where
  "tbmqtt_cache_get_payload_nb = cache_get_payload_nb"

definition tbmqtt_cache_free_memory :: "'db exec \<Rightarrow> 'db \<Rightarrow> (int \<times> 'db) res" where
  "tbmqtt_cache_free_memory = cache_free_memory"

definition tbmqtt_cache_get_memory_size :: "'db exec \<Rightarrow> int \<Rightarrow> 'db \<Rightarrow> (int \<times> int \<times> 'db) res" where
  "tbmqtt_cache_get_memory_size = cache_get_memory_size"

section \<open>Spilling and refilling\<close>

definition TBMQTT_CACHE_DATA_BASE :: string where
  "TBMQTT_CACHE_DATA_BASE = ''../data/tbmqtt.db''"

definition TBMQTT_CACHE_TABLE :: string where
  "TBMQTT_CACHE_TABLE = ''tbmqtt_cache''"

text \<open>
  One step of the cache thread. The state is the uplink, the database handle and the static counter of
  refilled messages; \<open>e0\<close> is the uninitialised local element.
\<close>

definition tbmqtt_spill :: "'db exec \<Rightarrow> tbmqtt_t \<Rightarrow> 'db \<Rightarrow> int \<Rightarrow> (tbmqtt_t \<times> 'db option \<times> int) res" where
  "tbmqtt_spill ex m db cnt =
     bind_res (tbmqtt_cache_get_memory_size ex 0 db) (\<lambda>(rc, sz, db1).
       if sz > CACHE_FILE_MEMORY_SIZE_MAX then Inr (m, Some db1, cnt)
       else case tbmqtt_peek_txbuf m 0 of
              None \<Rightarrow> Inr (m, Some db1, cnt)
            | Some e \<Rightarrow>
                bind_res (tbmqtt_cache_write_one_payload ex TBMQTT_CACHE_TABLE e db1) (\<lambda>(rc, db2).
                  Inr (if rc = 0 then snd (tbmqtt_dequeue_txbuf m) else m, Some db2, cnt)))"

definition tbmqtt_refill ::
  "'db exec \<Rightarrow> tbmqtt_ringbuffer_element_t \<Rightarrow> tbmqtt_t \<Rightarrow> 'db \<Rightarrow> int \<Rightarrow> (tbmqtt_t \<times> 'db option \<times> int) res" where
  "tbmqtt_refill ex e0 m db cnt =
     bind_res (tbmqtt_cache_get_payload_nb ex TBMQTT_CACHE_TABLE 0 db) (\<lambda>(rc, nb, db1).
       if nb > 0 \<and> rc = 0
       then bind_res (tbmqtt_cache_read_one_payload ex TBMQTT_CACHE_TABLE (e0\<lparr>tb_sztopic := [], tb_szpayload := []\<rparr>) 0 db1)
              (\<lambda>(rc, e, idx, db2).
            let m1 = tbmqtt_queue_txbuf (e\<lparr>tb_cmd := CMD_MQTT_SENDKV\<rparr>) m
            in bind_res (tbmqtt_cache_delete_one_payload ex TBMQTT_CACHE_TABLE idx db2) (\<lambda>(rc, db3).
                 if cnt + 1 > 500
                 then bind_res (tbmqtt_cache_free_memory ex db3) (\<lambda>(rc, db4). Inr (m1, Some db4, 0))
                 else Inr (m1, Some db3, cnt + 1)))
       else Inr (m, Some db1, cnt))"

definition tbmqtt_deal_with_cache ::
  "'db exec \<Rightarrow> tbmqtt_ringbuffer_element_t \<Rightarrow> tbmqtt_t \<times> 'db option \<times> int \<Rightarrow> (tbmqtt_t \<times> 'db option \<times> int) res" where
  "tbmqtt_deal_with_cache ex e0 s =
     (case s of (m, h, cnt) \<Rightarrow>
        (case h of
           None \<Rightarrow> Inr s
         | Some db \<Rightarrow>
             if tq_txbuf_usage m > TX_BUFF_TO_CACHE_USAGE then tbmqtt_spill ex m db cnt
             else if tq_txbuf_usage m < CACHE_TO_TX_BUFF_USAGE then tbmqtt_refill ex e0 m db cnt
             else Inr s))"

text \<open>The thread: it opens the database, ignores the outcome, and repeats the step.\<close>

definition tbmqtt_db_cache_thrd_main ::
  "(string \<Rightarrow> int \<times> 'db option) \<Rightarrow> 'db exec \<Rightarrow> tbmqtt_t \<Rightarrow> (tbmqtt_t \<times> 'db option \<times> int) res" where
  "tbmqtt_db_cache_thrd_main op ex m =
     bind_res (tbmqtt_cache_open op ex TBMQTT_CACHE_DATA_BASE TBMQTT_CACHE_TABLE) (\<lambda>(rc, h). Inr (m, h, 0))"

lemmas tbmqtt_cache_defs = tbmqtt_cache_get_memory_size_def tbmqtt_cache_write_one_payload_def
  tbmqtt_cache_get_payload_nb_def tbmqtt_cache_read_one_payload_def tbmqtt_cache_delete_one_payload_def
  tbmqtt_cache_free_memory_def

section \<open>The transmit buffer\<close>

abbreviation tb_items :: "tbmqtt_t \<Rightarrow> tbmqtt_ringbuffer_element_t list" where
  "tb_items m \<equiv> tbmqtt_ringbuffer_items (tbmqtt_txbuf m)"

abbreviation tbmqtt_tx_wf :: "tbmqtt_t \<Rightarrow> bool" where
  "tbmqtt_tx_wf m \<equiv> tbmqtt_ringbuffer_wf (tbmqtt_txbuf m)"

definition tb_key :: "tbmqtt_ringbuffer_element_t \<Rightarrow> string \<times> string" where
  "tb_key e = (tb_sztopic e, tb_szpayload e)"

lemma TBMQTT_MASK_511: "nat TBMQTT_RINGBUFFER_MASK = 511"
  by (simp add: TBMQTT_RINGBUFFER_MASK_def TBMQTT_RINGBUFFER_SIZE_def)

lemma tbmqtt_peek_head:
  assumes "tbmqtt_tx_wf m"
  shows "tbmqtt_peek_txbuf m i = (case tb_items m of [] \<Rightarrow> None | e # es \<Rightarrow> Some e)"
  using assms tbmqtt_rb.peek_result[of "tbmqtt_txbuf m" 0]
  by (auto simp: tbmqtt_peek_txbuf_def split: list.split)

lemma tbmqtt_dequeue_items:
  assumes "tbmqtt_tx_wf m"
  shows "tb_items (snd (tbmqtt_dequeue_txbuf m)) = tl (tb_items m)" "tbmqtt_tx_wf (snd (tbmqtt_dequeue_txbuf m))"
  using tbmqtt_rb.dequeue_inv[OF assms] tbmqtt_rb.dequeue_items[OF assms]
  by (simp_all add: tbmqtt_dequeue_txbuf_def case_prod_beta)

lemma tbmqtt_queue_items:
  assumes "tbmqtt_tx_wf m" "length (tb_items m) < 511"
  shows "tb_items (tbmqtt_queue_txbuf e m) = tb_items m @ [e]" "tbmqtt_tx_wf (tbmqtt_queue_txbuf e m)"
  using tbmqtt_rb.queue_items[OF assms(1), of e] tbmqtt_rb.queue_inv[OF assms(1), of e] assms(2)
  by (simp_all add: tbmqtt_queue_txbuf_def TBMQTT_MASK_511 spec_queue_fits)

section \<open>Conservation\<close>

abbreviation tb_held :: "tbmqtt_t \<Rightarrow> (string \<times> string) multiset" where
  "tb_held m \<equiv> mset (map tb_key (tb_items m))"

lemma tbmqtt_table_short: "length TBMQTT_CACHE_TABLE \<le> 64"
  by (simp add: TBMQTT_CACHE_TABLE_def)

text \<open>A message that survives the way through the database: no quote, and short enough for the arrays.\<close>

definition tb_plain :: "tbmqtt_ringbuffer_element_t \<Rightarrow> bool" where
  "tb_plain e \<longleftrightarrow> CHR 0x22 \<notin> set (tb_sztopic e) \<and> CHR 0x22 \<notin> set (tb_szpayload e) \<and>
     length (tb_sztopic e) < BUF_TOPIC_MAX_LEN \<and> length (tb_szpayload e) < BUF_PAYLOAD_MAX_LEN"

lemma tbmqtt_spill_keeps:
  assumes "cache_contract ex TBMQTT_CACHE_TABLE rows" "tbmqtt_tx_wf m" "list_all tb_plain (tb_items m)"
  shows "\<exists>m' db'. tbmqtt_spill ex m db cnt = Inr (m', Some db', cnt) \<and>
    ((m' = m \<and> rows db' = rows db) \<or>
     (\<exists>e es rid. tb_items m = e # es \<and> tb_items m' = es \<and> tbmqtt_tx_wf m' \<and>
        rows db' = rows db @ [(rid, tb_sztopic e, tb_szpayload e)] \<and> rid \<notin> fst ` set (rows db)))"
proof -
  obtain n where n: "cache_get_memory_size ex 0 db = Inr (0, n, db)" using cache_size_ok[OF assms(1)] by blast
  show ?thesis
  proof (cases "tb_items m")
    case Nil
    then show ?thesis using n by (simp add: tbmqtt_spill_def tbmqtt_cache_defs tbmqtt_peek_head[OF assms(2)])
  next
    case (Cons e es)
    then have "tb_plain e" using assms(3) by simp
    then obtain db' rid where w: "cache_write_one_payload ex TBMQTT_CACHE_TABLE (tb_sztopic e) (tb_szpayload e) db = Inr (0, db')"
      "rows db' = rows db @ [(rid, tb_sztopic e, tb_szpayload e)]" "rid \<notin> fst ` set (rows db)"
      using cache_write_ok[OF assms(1) _ _ _ _ tbmqtt_table_short, of "tb_sztopic e" "tb_szpayload e" db]
      by (auto simp: tb_plain_def)
    show ?thesis
      using n w Cons tbmqtt_dequeue_items(1,2)[OF assms(2)]
      by (auto simp: tbmqtt_spill_def tbmqtt_cache_defs tbmqtt_peek_head[OF assms(2)])
  qed
qed

lemma tbmqtt_refill_keeps:
  assumes "cache_contract ex TBMQTT_CACHE_TABLE rows" "tbmqtt_tx_wf m" "rows_ok (rows db)" "length (tb_items m) < 511"
  shows "\<exists>m' db' c'. tbmqtt_refill ex e0 m db cnt = Inr (m', Some db', c') \<and>
    ((m' = m \<and> rows db = [] \<and> rows db' = []) \<or>
     (\<exists>rid t p rs. rows db = (rid, t, p) # rs \<and> map snd (rows db') = map snd rs \<and> tbmqtt_tx_wf m' \<and>
        tb_items m' = tb_items m @ [e0\<lparr>tb_sztopic := t, tb_szpayload := p, tb_cmd := CMD_MQTT_SENDKV\<rparr>]))"
proof (cases "rows db")
  case Nil
  then show ?thesis
    using cache_nb_ok[OF assms(1) _ tbmqtt_table_short, of db 0] by (simp add: tbmqtt_refill_def tbmqtt_cache_defs)
next
  case (Cons r rs)
  obtain rid t p where r: "r = (rid, t, p)" by (metis prod_cases3)
  have ok: "row_ok (rid, t, p)" "rid \<notin> fst ` set rs" "length (rows db) < 2 ^ 31"
    using assms(3) Cons r by (auto simp: rows_ok_def)
  let ?e = "e0\<lparr>tb_sztopic := t, tb_szpayload := p, tb_cmd := CMD_MQTT_SENDKV\<rparr>"
  have nb: "cache_get_payload_nb ex TBMQTT_CACHE_TABLE 0 db = Inr (0, int (length (rows db)), db)"
    by (rule cache_nb_ok[OF assms(1) ok(3) tbmqtt_table_short])
  note rd = cache_read_ok[OF assms(1) Cons[unfolded r] ok(1) tbmqtt_table_short]
  have b: "- (2 ^ 31) \<le> rid" "rid < 2 ^ 31" using ok(1) by (auto simp: row_ok_def)
  obtain db1 where d: "cache_delete_one_payload ex TBMQTT_CACHE_TABLE rid db = Inr (0, db1)"
    "rows db1 = filter (\<lambda>r. fst r \<noteq> rid) (rows db)"
    using cache_delete_ok[OF assms(1) b tbmqtt_table_short] by blast
  have f: "rows db1 = rs" using d(2) Cons r ok(2) by (auto simp: filter_id_conv)
  obtain db2 where v: "cache_free_memory ex db1 = Inr (0, db2)" "map snd (rows db2) = map snd (rows db1)"
    using cache_free_ok[OF assms(1)] by blast
  have q: "tbmqtt_tx_wf (tbmqtt_queue_txbuf ?e m)" "tb_items (tbmqtt_queue_txbuf ?e m) = tb_items m @ [?e]"
    by (rule tbmqtt_queue_items[OF assms(2,4)])+
  show ?thesis
    using nb rd d(1) v f q Cons r by (auto simp: tbmqtt_refill_def tbmqtt_cache_defs Let_def)
qed

section \<open>Properties\<close>

text \<open>A step of the ThingsBoard cache thread neither loses nor duplicates a message: with a database that keeps the SQL
  contract, messages without double quotes, and room in the transmit buffer when it refills, what the
  buffer and the table hold together is unchanged, whichever way the step moves a message.\<close>

theorem tbmqtt_cache_conserves_messages:
  assumes "cache_contract ex TBMQTT_CACHE_TABLE rows" "tbmqtt_tx_wf m" "list_all tb_plain (tb_items m)"
    "rows_ok (rows db)"
    "tq_txbuf_usage m < CACHE_TO_TX_BUFF_USAGE \<Longrightarrow> length (tb_items m) < 511"
  shows "\<exists>m' db' cnt'. tbmqtt_deal_with_cache ex e0 (m, Some db, cnt) = Inr (m', Some db', cnt') \<and>
    tb_held m' + mset (map snd (rows db')) = tb_held m + mset (map snd (rows db))"
proof -
  consider (spill) "tq_txbuf_usage m > TX_BUFF_TO_CACHE_USAGE"
    | (refill) "\<not> tq_txbuf_usage m > TX_BUFF_TO_CACHE_USAGE" "tq_txbuf_usage m < CACHE_TO_TX_BUFF_USAGE"
    | (none) "\<not> tq_txbuf_usage m > TX_BUFF_TO_CACHE_USAGE" "\<not> tq_txbuf_usage m < CACHE_TO_TX_BUFF_USAGE"
    by blast
  then show ?thesis
  proof cases
    case spill
    then show ?thesis
      using tbmqtt_spill_keeps[OF assms(1-3), of db cnt]
      by (auto simp: tbmqtt_deal_with_cache_def tb_key_def)
  next
    case refill
    then show ?thesis
      using tbmqtt_refill_keeps[OF assms(1,2,4) assms(5)[OF refill(2)], of e0 cnt]
      by (auto simp: tbmqtt_deal_with_cache_def tb_key_def simp del: mset_map)
  next
    case none
    then show ?thesis by (simp add: tbmqtt_deal_with_cache_def)
  qed
qed

lemma tbmqtt_example_items: "tb_items tbmqtt_example = []"
  by (simp add: tbmqtt_example_def tbmqtt_ringbuffer_items_def rb_items_def rb_num_items_def)

lemma tbmqtt_example_tx_wf: "tbmqtt_tx_wf tbmqtt_example"
  by (simp add: tbmqtt_example_def tbmqtt_ringbuffer_wf_def rb_wf_def)

theorem tbmqtt_cache_conserves_messages_witness:
  "\<exists>m' db' cnt'. tbmqtt_deal_with_cache (list_engine TBMQTT_CACHE_TABLE) tb_elem0
       (tbmqtt_example, Some [(1, ''t'', ''p'')], 0) = Inr (m', Some db', cnt') \<and>
     tb_held m' + mset (map snd db') = {#(''t'', ''p'')#}"
proof -
  have "rows_ok [(1, ''t'', ''p'')]"
    by (simp add: rows_ok_def row_ok_def BUF_TOPIC_MAX_LEN_def BUF_PAYLOAD_MAX_LEN_def)
  from tbmqtt_cache_conserves_messages[OF list_engine_contract tbmqtt_example_tx_wf _ this, of tb_elem0 0]
  show ?thesis by (simp add: tbmqtt_example_items)
qed

end
