(* ===== verification/NumText.thy ===== *)
theory NumText
  imports Doubles
begin

text \<open>
  Numbers as text: \<open>printf("%1.<P>g")\<close> and \<open>strtod\<close> of the C library as far as cJSON uses them, on the doubles of
  theory Doubles. The printer rounds the exact value to \<open>P\<close> significant decimal digits, ties to even, removes
  trailing zeros and chooses between the fixed and the exponent form; the reader takes the longest decimal numeral
  and rounds its exact value to the nearest double. The main lemma is that seventeen digits determine a double.
\<close>

section \<open>Decimal digits\<close>

definition pow10 :: "int \<Rightarrow> rat" where
  "pow10 e = (if e \<ge> 0 then 10 ^ nat e else 1 / 10 ^ nat (- e))"

text \<open>The decimal digits of a non-negative number, computed on integers.\<close>

function show_dec :: "int \<Rightarrow> string" where
  "show_dec n = (if n < 10 then [char_of (48 + n)] else show_dec (n div 10) @ [char_of (48 + n mod 10)])"
  by pat_completeness auto

termination
  by (relation "measure nat") auto

declare show_dec.simps [simp del]

text \<open>The exponent \<open>e\<close> with \<open>10\<^sup>e \<le> |x| < 10\<^sup>e\<^sup>+\<^sup>1\<close>.\<close>

definition ndigits :: "int \<Rightarrow> nat" where
  "ndigits n = length (show_dec n)"

definition decexp :: "rat \<Rightarrow> int" where
  "decexp x =
     (let (n, d) = quotient_of \<bar>x\<bar>;
          g = int (ndigits n) - int (ndigits d)
      in if pow10 g \<le> \<bar>x\<bar> then g else g - 1)"

text \<open>The significand with \<open>P\<close> digits and the exponent of its leading digit; rounding up may carry into a new digit.\<close>

definition sig_digits :: "nat \<Rightarrow> rat \<Rightarrow> int \<times> int" where
  "sig_digits P x =
     (let e = decexp x;
          m = round_even (\<bar>x\<bar> / pow10 (e - int P + 1))
      in if m = 10 ^ P then (10 ^ (P - 1), e + 1) else (m, e))"

definition drop_zeros :: "string \<Rightarrow> string" where
  "drop_zeros s = rev (dropWhile (\<lambda>c. c = CHR ''0'') (rev s))"

definition frac_part :: "string \<Rightarrow> string" where
  "frac_part s = (let t = drop_zeros s in if t = [] then [] else CHR ''.'' # t)"

definition exp_part :: "int \<Rightarrow> string" where
  "exp_part e =
     (let t = show_dec \<bar>e\<bar>
      in CHR ''e'' # (if e < 0 then CHR ''-'' else CHR ''+'') # replicate (2 - length t) (CHR ''0'') @ t)"

definition sprintf_g :: "nat \<Rightarrow> dbl \<Rightarrow> string" where
  "sprintf_g P x =
     (if x = 0 then ''0''
      else let (m, e) = sig_digits P x;
               ds = show_dec m;
               sg = (if x < 0 then ''-'' else [])
           in if - 4 \<le> e \<and> e < int P
              then if 0 \<le> e then sg @ take (nat e + 1) ds @ frac_part (drop (nat e + 1) ds)
                   else sg @ ''0'' @ frac_part (replicate (nat (- e) - 1) (CHR ''0'') @ ds)
              else sg @ take 1 ds @ frac_part (drop 1 ds) @ exp_part e)"

section \<open>Reading a numeral\<close>

text \<open>Each scanner returns what it read and the rest of the text.\<close>

definition scan_sign :: "string \<Rightarrow> bool \<times> string" where
  "scan_sign s =
     (case s of [] \<Rightarrow> (False, [])
      | c # cs \<Rightarrow> if c = CHR ''-'' then (True, cs) else if c = CHR ''+'' then (False, cs) else (False, s))"

definition scan_frac :: "string \<Rightarrow> string \<times> string" where
  "scan_frac s =
     (case s of [] \<Rightarrow> ([], [])
      | c # cs \<Rightarrow> if c = CHR ''.'' then (takeWhile isdigit cs, dropWhile isdigit cs) else ([], s))"

definition scan_exp :: "string \<Rightarrow> int \<times> string" where
  "scan_exp s =
     (case s of [] \<Rightarrow> (0, [])
      | c # cs \<Rightarrow>
          if c = CHR ''e'' \<or> c = CHR ''E''
          then let (neg, t) = scan_sign cs; ds = takeWhile isdigit t
               in if ds = [] then (0, s)
                  else (if neg then - digits_val 0 ds else digits_val 0 ds, dropWhile isdigit t)
          else (0, s))"

text \<open>
  \<open>strtod\<close>: the double and the number of characters read; \<open>0\<close> characters is the failed conversion. The numerals
  here consist of digits, signs, points and exponent letters only: white space, hexadecimal numerals, \<open>inf\<close> and
  \<open>nan\<close> do not occur.
\<close>

definition strtod :: "string \<Rightarrow> dbl \<times> nat" where
  "strtod s =
     (let (neg, s1) = scan_sign s;
          ip = takeWhile isdigit s1;
          (fp, s3) = scan_frac (dropWhile isdigit s1)
      in if ip = [] \<and> fp = [] then (0, 0)
         else let (ex, s4) = scan_exp s3;
                  v = of_int (digits_val 0 (ip @ fp)) * pow10 (ex - int (length fp))
              in (dbl_round (if neg then - v else v), length s - length s4))"

section \<open>Digits\<close>

lemma show_dec_nat: "0 \<le> n \<Longrightarrow> show_dec n = show_nat (nat n)"
proof (induction n rule: show_dec.induct)
  case (1 n)
  have c: "char_of (48 + k) = digit_char (nat k)" if "0 \<le> k" for k :: int
    using char_of_nat[of "48 + nat k", where ?'a = int] that by (simp add: digit_char_def)
  show ?case
    using 1 by (simp add: show_dec.simps[of n] show_nat.simps[of "nat n"] c nat_div_distrib nat_mod_distrib nat_less_iff)
qed

lemma show_dec_digits [simp]: "0 \<le> n \<Longrightarrow> list_all isdigit (show_dec n)"
  by (simp add: show_dec_nat show_nat_digits)

lemma show_dec_nonempty [simp]: "show_dec n \<noteq> []"
  by (subst show_dec.simps) simp

lemma digits_val_show_dec [simp]: "0 \<le> n \<Longrightarrow> digits_val 0 (show_dec n) = n"
  by (simp add: show_dec_nat digits_val_show_nat)

lemma digits_val_acc:
  "list_all isdigit ys \<Longrightarrow> digits_val a ys = a * 10 ^ length ys + digits_val 0 ys"
proof (induction ys arbitrary: a)
  case (Cons y ys)
  let ?y = "of_char y - 48 :: int"
  have d: "isdigit y" "list_all isdigit ys" using Cons.prems by auto
  have "digits_val (10 * a + ?y) ys = (10 * a + ?y) * 10 ^ length ys + digits_val 0 ys" by (rule Cons.IH[OF d(2)])
  moreover have "digits_val ?y ys = ?y * 10 ^ length ys + digits_val 0 ys" by (rule Cons.IH[OF d(2)])
  ultimately show ?case using d(1) by (simp add: distrib_right)
qed simp

lemma digits_val_append:
  assumes "list_all isdigit xs" "list_all isdigit ys"
  shows "digits_val 0 (xs @ ys) = digits_val 0 xs * 10 ^ length ys + digits_val 0 ys"
proof -
  have "digits_val a (xs @ ys) = digits_val (digits_val a xs) ys" for a
    using assms(1) by (induction xs arbitrary: a) auto
  then show ?thesis using digits_val_acc[OF assms(2)] by metis
qed

lemma digits_val_zeros [simp]: "digits_val 0 (replicate k (CHR ''0'')) = 0"
  by (induction k) (auto simp: isdigit_def)

lemma ndigits_bounds: "0 < n \<Longrightarrow> 10 ^ (ndigits n - 1) \<le> n \<and> n < 10 ^ ndigits n"
proof (induction n rule: show_dec.induct)
  case (1 n)
  show ?case
  proof (cases "n < 10")
    case True
    then show ?thesis using 1 by (simp add: ndigits_def show_dec.simps[of n])
  next
    case False
    then have IH: "10 ^ (ndigits (n div 10) - 1) \<le> n div 10" "n div 10 < 10 ^ ndigits (n div 10)"
      using 1 by auto
    have e: "ndigits n = Suc (ndigits (n div 10))" using False by (simp add: ndigits_def show_dec.simps[of n])
    have "0 < ndigits (n div 10)" by (simp add: ndigits_def)
    then have "10 ^ ndigits (n div 10) = 10 * (10 ^ (ndigits (n div 10) - 1) :: int)"
      by (metis power_minus_mult mult.commute)
    then have "10 ^ ndigits (n div 10) \<le> n" using IH(1) by linarith
    moreover have "n < 10 * 10 ^ ndigits (n div 10)" using IH(2) by linarith
    ultimately show ?thesis by (simp add: e)
  qed
qed

lemma ndigits_eq:
  assumes "10 ^ k \<le> n" "n < 10 ^ Suc k"
  shows "ndigits n = Suc k"
proof -
  have "0 < n" using assms(1) zero_less_power[of "10::int" k] by linarith
  then have b: "10 ^ (ndigits n - 1) \<le> n" "n < 10 ^ ndigits n" using ndigits_bounds by auto
  have "(10::int) ^ k < 10 ^ ndigits n" "(10::int) ^ (ndigits n - 1) < 10 ^ Suc k" using b assms by linarith+
  then show ?thesis by (simp add: power_strict_increasing_iff del: power_Suc)
qed

section \<open>Powers of ten\<close>

lemma pow10_pos [simp]: "0 < pow10 e"
  by (simp add: pow10_def)

lemma pow10_powi: "pow10 e = 10 powi e"
  by (simp add: pow10_def power_int_def field_simps)

lemma pow10_add: "pow10 (a + b) = pow10 a * pow10 b"
  by (simp add: pow10_powi power_int_add)

lemma pow10_nat: "pow10 (int n) = 10 ^ n"
  by (simp add: pow10_def)

lemma pow10_sub: "pow10 (a - int n) * 10 ^ n = pow10 a"
  using pow10_add[of "a - int n" "int n"] by (simp add: pow10_nat)

lemma decexp_bounds:
  assumes "x \<noteq> 0"
  shows "pow10 (decexp x) \<le> \<bar>x\<bar> \<and> \<bar>x\<bar> < pow10 (decexp x + 1)"
proof -
  obtain n d where q: "quotient_of \<bar>x\<bar> = (n, d)" by fastforce
  have d: "0 < d" and xe: "\<bar>x\<bar> = of_int n / of_int d"
    using q quotient_of_denom_pos quotient_of_div by auto
  have "0 < \<bar>x\<bar>" using assms by simp
  then have n: "0 < n" using d unfolding xe by (simp add: zero_less_divide_iff)
  let ?a = "int (ndigits n)" and ?b = "int (ndigits d)"
  have pb: "pow10 (int (ndigits k) - 1) \<le> of_int k \<and> of_int k < pow10 (int (ndigits k))" if "0 < k" for k
  proof -
    have p: "0 < ndigits k" by (simp add: ndigits_def)
    have "(of_int (10 ^ (ndigits k - 1)) :: rat) \<le> of_int k" "(of_int k :: rat) < of_int (10 ^ ndigits k)"
      using ndigits_bounds[OF that] by (simp_all only: of_int_le_iff of_int_less_iff)
    then show ?thesis using p by (simp add: pow10_def nat_diff_distrib)
  qed
  note nb = conjunct1[OF pb[OF n]] conjunct2[OF pb[OF n]] and db = conjunct1[OF pb[OF d]] conjunct2[OF pb[OF d]]
  have up: "\<bar>x\<bar> < pow10 (?a - ?b + 1)"
  proof -
    have "pow10 ?a = pow10 (?a - ?b + 1) * pow10 (?b - 1)" by (simp flip: pow10_add)
    also have "\<dots> \<le> pow10 (?a - ?b + 1) * of_int d"
      using db(1) by (simp add: mult_left_mono less_imp_le)
    finally have "of_int n < pow10 (?a - ?b + 1) * of_int d" using nb(2) by linarith
    then show ?thesis using d by (simp add: xe divide_less_eq)
  qed
  have lo: "pow10 (?a - ?b - 1) \<le> \<bar>x\<bar>"
  proof -
    have "pow10 (?a - ?b - 1) * of_int d \<le> pow10 (?a - ?b - 1) * pow10 ?b"
      using db(2) by (simp add: mult_left_mono less_imp_le)
    also have "\<dots> = pow10 (?a - 1)" by (simp flip: pow10_add)
    finally have "pow10 (?a - ?b - 1) * of_int d \<le> of_int n" using nb(1) by linarith
    then show ?thesis using d by (simp add: xe le_divide_eq)
  qed
  show ?thesis using up lo by (auto simp: decexp_def q Let_def)
qed

lemma sig_digits_spec:
  assumes "x \<noteq> 0" "sig_digits (Suc p) x = (m, e)"
  shows "10 ^ p \<le> m" "m < 10 ^ Suc p"
    "\<bar>of_int m * pow10 (e - int p) - \<bar>x\<bar>\<bar> \<le> pow10 (decexp x - int p) / 2"
proof -
  define u where "u = pow10 (decexp x - int p)"
  define k where "k = round_even (\<bar>x\<bar> / u)"
  have u: "0 < u" by (simp add: u_def)
  have b: "pow10 (decexp x) \<le> \<bar>x\<bar>" "\<bar>x\<bar> < pow10 (decexp x + 1)" using decexp_bounds[OF assms(1)] by auto
  have pu: "pow10 (decexp x) = 10 ^ p * u" "pow10 (decexp x + 1) = 10 ^ Suc p * u"
    using pow10_sub[of "decexp x" p] pow10_add[of "decexp x" 1] by (simp_all add: u_def pow10_def[of 1] mult.commute)
  have q: "10 ^ p \<le> \<bar>x\<bar> / u" "\<bar>x\<bar> / u < 10 ^ Suc p" using b u unfolding pu by (simp_all add: field_simps)
  have near: "\<bar>\<bar>x\<bar> / u - of_int k\<bar> \<le> 1 / 2" unfolding k_def by (rule round_even_near)
  have "(of_int (10 ^ p) :: rat) - 1 / 2 \<le> of_int k" "(of_int k :: rat) < of_int (10 ^ Suc p) + 1"
    using near q by (simp_all only: abs_le_iff of_int_power of_int_numeral) linarith+
  then have kb: "10 ^ p \<le> k" "k \<le> 10 ^ Suc p" by linarith+
  have err: "\<bar>of_int k * u - \<bar>x\<bar>\<bar> \<le> u / 2"
    using near u by (simp add: abs_minus_commute field_simps)
  have d: "(m, e) = (if k = 10 ^ Suc p then (10 ^ p, decexp x + 1) else (k, decexp x))"
    using assms(2) by (auto simp: sig_digits_def Let_def k_def u_def split: if_splits)
  show "10 ^ p \<le> m" "m < 10 ^ Suc p" using d kb by (auto split: if_splits)
  have "of_int m * pow10 (e - int p) = of_int k * u"
    using d pow10_add[of 1 "decexp x - int p"]
    by (auto split: if_splits simp: u_def pow10_def[of 1] algebra_simps)
  then show "\<bar>of_int m * pow10 (e - int p) - \<bar>x\<bar>\<bar> \<le> pow10 (decexp x - int p) / 2"
    using err by (simp add: u_def)
qed

section \<open>Rounding near a double\<close>

lemma round_even_minus: "round_even (- x) = - round_even x"
proof (cases "x = of_int \<lfloor>x\<rfloor>")
  case True
  then have "round_even x = \<lfloor>x\<rfloor>" "round_even (- x) = - \<lfloor>x\<rfloor>"
    using round_even_int[of "\<lfloor>x\<rfloor>"] round_even_int[of "- \<lfloor>x\<rfloor>"] by simp_all
  then show ?thesis by simp
next
  case False
  have "of_int \<lfloor>x\<rfloor> < x" "x < of_int \<lfloor>x\<rfloor> + 1" using False of_int_floor_le[of x] by linarith+
  then have "\<lfloor>- x\<rfloor> = - \<lfloor>x\<rfloor> - 1" by (intro floor_unique) simp_all
  then show ?thesis by (auto simp: round_even_def Let_def)
qed

lemma dbl_round_minus: "dbl_round (- x) = - dbl_round x"
  by (simp add: dbl_round_def binexp_def Let_def round_even_minus)

lemma round_even_close:
  assumes "\<bar>x - of_int n\<bar> < 1 / 2"
  shows "round_even x = n"
proof -
  have "\<bar>of_int (round_even x - n)\<bar> < (1 :: rat)" using round_even_near[of x] assms unfolding of_int_diff by linarith
  then have "\<bar>round_even x - n\<bar> < 1" by (simp only: of_int_abs[symmetric] of_int_less_1_iff)
  then show ?thesis by simp
qed

text \<open>A positive double is a 53-bit integer times its unit.\<close>

lemma dbl_significand:
  assumes "dbl_round x = x" "0 < x"
  obtains n where "x = of_int n * pow2 (binexp x - 52)" "2 ^ 52 \<le> n" "n < 2 ^ 53"
proof -
  let ?u = "pow2 (binexp x - 52)"
  define n where "n = round_even (x / ?u)"
  have xe: "x = of_int n * ?u" using assms by (simp add: dbl_round_def Let_def n_def)
  have p: "pow2 (binexp x) = 2 ^ 52 * ?u" "pow2 (binexp x + 1) = 2 ^ 53 * ?u"
    using pow2_add[of 52 "binexp x - 52"] pow2_add[of 53 "binexp x - 52"] by (simp_all add: add.commute[of 1] pow2_def[of 52] pow2_def[of 53])
  have "2 ^ 52 * ?u \<le> of_int n * ?u" "of_int n * ?u < 2 ^ 53 * ?u"
    using binexp_bounds[of x] assms(2) unfolding p using xe by auto
  then have "(of_int (2 ^ 52) :: rat) \<le> of_int n" "(of_int n :: rat) < of_int (2 ^ 53)" by simp_all
  then show thesis using that xe by (simp only: of_int_le_iff of_int_less_iff)
qed

lemma dbl_round_near_pos:
  assumes "dbl_round x = x" "0 < x" "\<bar>y - x\<bar> \<le> x * (1 / (2 * 10 ^ 16))"
  shows "dbl_round y = x"
proof -
  define b where "b = binexp x"
  define u where "u = pow2 (b - 52)"
  obtain n where n: "x = of_int n * u" "2 ^ 52 \<le> n" "n < 2 ^ 53"
    using dbl_significand[OF assms(1,2)] by (auto simp: u_def b_def)
  have u: "0 < u" by (simp add: u_def)
  have nr: "(4503599627370496 :: rat) \<le> of_int n" "(of_int n :: rat) \<le> 9007199254740991"
    using n(2,3) of_int_le_iff[of "2 ^ 52" n, where ?'a = rat] of_int_le_iff[of n "2 ^ 53 - 1", where ?'a = rat] by auto
  define t where "t = y / u"
  have yt: "y = t * u" using u by (simp add: t_def)
  have "\<bar>t - of_int n\<bar> * u \<le> of_int n * u * (1 / (2 * 10 ^ 16))"
    using assms(3) u unfolding yt n(1) by (simp add: abs_mult flip: left_diff_distrib)
  then have err: "\<bar>t - of_int n\<bar> \<le> of_int n / 20000000000000000" using u by (simp add: field_simps)
  have p: "pow2 b = 2 ^ 52 * u" "pow2 (b + 1) = 2 ^ 53 * u" "pow2 (b - 1) = 2 ^ 51 * u"
    using pow2_add[of 52 "b - 52"] pow2_add[of 53 "b - 52"] pow2_add[of 51 "b - 52"]
    by (simp_all add: u_def add.commute[of 1] pow2_def[of 52] pow2_def[of 53] pow2_def[of 51])
  have t0: "0 < t" using err nr by linarith
  show ?thesis
  proof (cases "2 ^ 52 \<le> t")
    case True
    have "t < 9007199254740992" using err nr by linarith
    then have "binexp y = b" using True u t0 by (intro binexp_unique) (simp_all add: p yt abs_mult)
    moreover have "\<bar>t - of_int n\<bar> < 1 / 2" using err nr by linarith
    then have "round_even t = n" by (rule round_even_close)
    ultimately show ?thesis using t0 u by (simp add: dbl_round_def Let_def yt n(1) flip: u_def)
  next
    case False
    have "of_int n < (4503599627370497 :: rat)" using err nr False by simp
    then have n52: "n = 4503599627370496" using n(2) of_int_less_iff[of n 4503599627370497, where ?'a = rat] by auto
    have t1: "2251799813685248 \<le> t" "\<bar>2 * t - 9007199254740992\<bar> < 1 / 2" using err unfolding n52 of_int_numeral by linarith+
    then have "binexp y = b - 1" using False u t0 by (intro binexp_unique) (simp_all add: p yt abs_mult)
    moreover have v: "pow2 (b - 53) = u / 2" using pow2_add[of "b - 52" "-1"] by (simp add: u_def pow2_def[of "-1"])
    moreover have tv: "t * u / pow2 (b - 53) = 2 * t" using u unfolding v by simp
    moreover have "round_even (2 * t) = 9007199254740992" using t1(2) by (intro round_even_close) simp
    ultimately show ?thesis using t0 u by (simp add: dbl_round_def Let_def yt n(1) n52)
  qed
qed

lemma dbl_round_near:
  assumes "dbl_round x = x" "\<bar>y - x\<bar> \<le> \<bar>x\<bar> * (1 / (2 * 10 ^ 16))"
  shows "dbl_round y = x"
proof (cases x "0 :: rat" rule: linorder_cases)
  case less
  then have "dbl_round (- y) = - x"
    using dbl_round_near_pos[of "- x" "- y"] assms unfolding dbl_round_minus by (simp add: abs_minus_commute)
  then show ?thesis by (simp add: dbl_round_minus)
next
  case equal
  then show ?thesis using assms(2) by (simp add: dbl_round_def)
next
  case greater
  then show ?thesis using dbl_round_near_pos[OF assms(1)] assms(2) by simp
qed

section \<open>The value of a printed number\<close>

lemma takeWhile_digits:
  assumes "list_all isdigit xs" "rest = [] \<or> \<not> isdigit (hd rest)"
  shows "takeWhile isdigit (xs @ rest) = xs" "dropWhile isdigit (xs @ rest) = rest"
proof -
  have "takeWhile isdigit rest = []" "dropWhile isdigit rest = rest" using assms(2) by (cases rest; simp)+
  then show "takeWhile isdigit (xs @ rest) = xs" "dropWhile isdigit (xs @ rest) = rest"
    using assms(1) by (induction xs) auto
qed

lemma drop_zeros_split: "\<exists>k. s = drop_zeros s @ replicate k (CHR ''0'')"
proof -
  let ?t = "rev (takeWhile (\<lambda>c. c = CHR ''0'') (rev s))"
  have "?t = replicate (length ?t) (CHR ''0'')" by (rule replicate_eqI) (auto dest: set_takeWhileD)
  moreover have "s = drop_zeros s @ ?t" by (simp add: drop_zeros_def flip: rev_append)
  ultimately show ?thesis by (intro exI[of _ "length ?t"]) simp
qed

text \<open>The value of a digit string does not change when the zeros at the end of its fraction go.\<close>

lemma drop_zeros_value:
  assumes "list_all isdigit ip" "list_all isdigit fp"
  shows "of_int (digits_val 0 (ip @ drop_zeros fp)) * pow10 (ex - int (length (drop_zeros fp))) =
    of_int (digits_val 0 (ip @ fp)) * pow10 (ex - int (length fp))" "list_all isdigit (drop_zeros fp)"
proof -
  obtain k where k: "fp = drop_zeros fp @ replicate k (CHR ''0'')" using drop_zeros_split by blast
  show z: "list_all isdigit (drop_zeros fp)" using assms(2) by (subst (asm) k) simp
  have "list_all isdigit (replicate k (CHR ''0''))" by (simp add: list_all_iff isdigit_def)
  then have "digits_val 0 ((ip @ drop_zeros fp) @ replicate k (CHR ''0'')) = digits_val 0 (ip @ drop_zeros fp) * 10 ^ k"
    using digits_val_append[of "ip @ drop_zeros fp" "replicate k (CHR ''0'')"] assms(1) z by simp
  then have v: "digits_val 0 (ip @ fp) = digits_val 0 (ip @ drop_zeros fp) * 10 ^ k" using k by simp
  have l: "length fp = length (drop_zeros fp) + k" by (subst k) simp
  have "pow10 (ex - int (length (drop_zeros fp))) = 10 ^ k * pow10 (ex - int (length fp))"
    using pow10_sub[of "ex - int (length (drop_zeros fp))" k] by (simp add: l algebra_simps)
  then show "of_int (digits_val 0 (ip @ drop_zeros fp)) * pow10 (ex - int (length (drop_zeros fp))) =
    of_int (digits_val 0 (ip @ fp)) * pow10 (ex - int (length fp))" by (simp add: v)
qed

text \<open>A numeral with sign, integral part, fraction and exponent part is read to its end.\<close>

lemma strtod_numeral:
  assumes "list_all isdigit ip" "ip \<noteq> []" "list_all isdigit fp"
    "scan_exp es = (ex, [])" "es = [] \<or> hd es = CHR ''e''"
  shows "strtod ((if neg then ''-'' else []) @ ip @ frac_part fp @ es) =
    (dbl_round ((if neg then - 1 else 1) * (of_int (digits_val 0 (ip @ fp)) * pow10 (ex - int (length fp)))),
     length ((if neg then ''-'' else []) @ ip @ frac_part fp @ es))"
proof -
  obtain i js where ip: "ip = i # js" "isdigit i" using assms(1,2) by (cases ip) auto
  have sg: "scan_sign ((if neg then ''-'' else []) @ ip @ frac_part fp @ es) = (neg, ip @ frac_part fp @ es)"
    using ip by (auto simp: scan_sign_def isdigit_def)
  have nd: "es = [] \<or> \<not> isdigit (hd es)" using assms(5) by (auto simp: isdigit_def)
  have tw: "takeWhile isdigit (ip @ frac_part fp @ es) = ip" "dropWhile isdigit (ip @ frac_part fp @ es) = frac_part fp @ es"
    using takeWhile_digits[OF assms(1), of "frac_part fp @ es"] nd
    by (auto simp: frac_part_def Let_def isdigit_def split: if_splits)
  have fr: "scan_frac (frac_part fp @ es) = (drop_zeros fp, es)"
  proof (cases "drop_zeros fp = []")
    case True
    then show ?thesis using assms(5) by (cases es) (auto simp: frac_part_def scan_frac_def)
  next
    case False
    then show ?thesis using takeWhile_digits[OF drop_zeros_value(2)[OF assms(1,3)] nd]
      by (simp add: frac_part_def scan_frac_def)
  qed
  show ?thesis
    unfolding strtod_def sg Let_def prod.case tw fr assms(4)
    using assms(2) drop_zeros_value(1)[OF assms(1,3), of ex] by simp
qed

lemma scan_exp_part: "scan_exp (exp_part e) = (e, [])"
proof -
  define t where "t = replicate (2 - length (show_dec \<bar>e\<bar>)) (CHR ''0'') @ show_dec \<bar>e\<bar>"
  have d: "list_all isdigit t" using show_dec_digits[of "\<bar>e\<bar>"] by (auto simp: t_def list_all_iff isdigit_def)
  have tw: "takeWhile isdigit t = t" "dropWhile isdigit t = []" using takeWhile_digits[OF d, of "[]"] by simp_all
  have "digits_val 0 t = \<bar>e\<bar>" using d by (simp add: t_def digits_val_append)
  moreover have "t \<noteq> []" by (simp add: t_def)
  moreover have "exp_part e = CHR ''e'' # (if e < 0 then CHR ''-'' else CHR ''+'') # t" by (simp add: exp_part_def t_def Let_def)
  ultimately show ?thesis by (simp add: scan_exp_def scan_sign_def tw Let_def)
qed

lemma strtod_sprintf_g:
  assumes "x \<noteq> 0" "sig_digits (Suc p) x = (m, e)"
  shows "strtod (sprintf_g (Suc p) x) =
    (dbl_round (sgn x * (of_int m * pow10 (e - int p))), length (sprintf_g (Suc p) x))"
proof -
  note b = sig_digits_spec(1,2)[OF assms]
  have m0: "0 \<le> m" using b(1) order_trans[OF zero_le_power[of "10::int" p]] by simp
  define ds where "ds = show_dec m"
  have ds: "list_all isdigit ds" "length ds = Suc p" "digits_val 0 ds = m"
    using ndigits_eq[OF b] m0 by (simp_all add: ds_def ndigits_def)
  have sg: "sgn x = (if x < 0 then - 1 else 1)" using assms(1) by (simp add: sgn_if)
  have tk: "list_all isdigit (take k ds)" "list_all isdigit (drop k ds)" for k
    using ds(1) by (auto simp: list_all_iff dest: in_set_takeD in_set_dropD)
  have se: "scan_exp [] = (0, [])" by (simp add: scan_exp_def)
  consider (fixed) "0 \<le> e" "e < int (Suc p)" | (small) "- 4 \<le> e" "e < 0" | (sci) "e < - 4 \<or> int (Suc p) \<le> e" by linarith
  then show ?thesis
  proof cases
    case fixed
    define k where "k = Suc (nat e)"
    have t: "sprintf_g (Suc p) x = (if x < 0 then ''-'' else []) @ take k ds @ frac_part (drop k ds) @ []"
      using assms fixed by (simp add: sprintf_g_def k_def ds_def Let_def)
    have "take k ds \<noteq> []" using ds(2) by (auto simp: k_def)
    note r = strtod_numeral[OF tk(1) this tk(2) se, of "x < 0"]
    have "0 - int (length (drop k ds)) = e - int p" using fixed ds(2) by (simp add: k_def)
    then show ?thesis unfolding t using r by (simp add: ds(3) sg)
  next
    case small
    define z where "z = replicate (nat (- e) - 1) (CHR ''0'')"
    have z: "list_all isdigit z" "digits_val 0 z = 0" by (simp_all add: z_def list_all_iff isdigit_def)
    have t: "sprintf_g (Suc p) x = (if x < 0 then ''-'' else []) @ ''0'' @ frac_part (z @ ds) @ []"
      using assms small by (simp add: sprintf_g_def z_def ds_def Let_def)
    have i: "list_all isdigit ''0''" "''0'' \<noteq> []" by (simp_all add: isdigit_def)
    have zd: "list_all isdigit (z @ ds)" using z(1) ds(1) by simp
    note r = strtod_numeral[OF i zd se, of "x < 0"]
    have "digits_val 0 (''0'' @ z @ ds) = m" using digits_val_append[OF i(1) zd] digits_val_append[OF z(1) ds(1)] z ds
      by (simp add: isdigit_def)
    moreover have "0 - int (length (z @ ds)) = e - int p" using small ds(2) by (simp add: z_def)
    ultimately show ?thesis unfolding t using r by (simp add: sg)
  next
    case sci
    have t: "sprintf_g (Suc p) x = (if x < 0 then ''-'' else []) @ take 1 ds @ frac_part (drop 1 ds) @ exp_part e"
      using assms sci by (auto simp: sprintf_g_def ds_def Let_def)
    have "take 1 ds \<noteq> []" using ds(2) by auto
    note r = strtod_numeral[OF tk(1) this tk(2) scan_exp_part[of e], of "x < 0"]
    have "e - int (length (drop 1 ds)) = e - int p" using ds(2) by simp
    moreover have "exp_part e = [] \<or> hd (exp_part e) = CHR ''e''" by (simp add: exp_part_def Let_def)
    ultimately show ?thesis unfolding t using r by (simp add: ds(3) sg)
  qed
qed

text \<open>Seventeen significant digits determine a double.\<close>

lemma strtod_sprintf_17:
  assumes "dbl_round x = x"
  shows "strtod (sprintf_g 17 x) = (x, length (sprintf_g 17 x))"
proof (cases "x = 0")
  case True
  then show ?thesis
    by (simp add: sprintf_g_def strtod_def scan_sign_def scan_frac_def scan_exp_def isdigit_def dbl_round_def)
next
  case False
  obtain m e where s: "sig_digits (Suc 16) x = (m, e)" by fastforce
  let ?y = "of_int m * pow10 (e - 16)"
  have "\<bar>?y - \<bar>x\<bar>\<bar> \<le> pow10 (decexp x - 16) / 2" using sig_digits_spec(3)[OF False s] by simp
  moreover have "pow10 (decexp x - 16) * 10 ^ 16 \<le> \<bar>x\<bar>"
    using decexp_bounds[OF False] pow10_sub[of "decexp x" 16] by simp
  ultimately have "\<bar>?y - \<bar>x\<bar>\<bar> \<le> \<bar>x\<bar> * (1 / (2 * 10 ^ 16))" by simp
  moreover have "\<bar>sgn x * ?y - x\<bar> = \<bar>?y - \<bar>x\<bar>\<bar>" using False by (simp add: sgn_if abs_if)
  ultimately have "dbl_round (sgn x * ?y) = x" using dbl_round_near[OF assms] by simp
  then show ?thesis using strtod_sprintf_g[OF False s] by (simp add: eval_nat_numeral)
qed

section \<open>Exact values\<close>

lemma pow2_neq_0 [simp]: "pow2 k \<noteq> 0"
  by (simp add: pow2_def)

lemma dbl_round_exact:
  assumes "\<bar>n\<bar> \<le> 2 ^ 53"
  shows "dbl_round (of_int n * pow2 k) = of_int n * pow2 k"
proof (cases "n = 0")
  case True
  then show ?thesis by (simp add: dbl_round_def)
next
  case False
  define x where "x = of_int n * pow2 k"
  define b where "b = binexp x"
  have x0: "x \<noteq> 0" using False less_imp_neq[OF pow2_pos[of k]] by (simp add: x_def)
  have ax: "\<bar>x\<bar> = of_int \<bar>n\<bar> * pow2 k" using abs_of_pos[OF pow2_pos[of k]] by (simp add: x_def abs_mult)
  have "pow2 b \<le> of_int \<bar>n\<bar> * pow2 k" using binexp_bounds[OF x0] unfolding ax b_def by simp
  also have "\<dots> \<le> of_int (2 ^ 53) * pow2 k" using assms by (intro mult_right_mono) (simp_all only: of_int_le_iff less_imp_le pow2_pos)
  also have "\<dots> = pow2 (53 + k)" by (simp add: pow2_add pow2_def[of 53])
  finally have le: "pow2 b \<le> of_int \<bar>n\<bar> * pow2 k" "pow2 b \<le> pow2 (53 + k)"
    using binexp_bounds[OF x0] unfolding ax b_def by simp_all
  then have bk: "b \<le> 53 + k" using pow2_less_cancel[of "53 + k" b] pow2_mono[of "53 + k" b] 
    by (cases "53 + k < b") (auto simp: pow2_powi power_int_strict_increasing dest: power_int_strict_increasing[of _ _ "2 :: rat"])
  have "\<exists>m. x = of_int m * pow2 (b - 52)"
  proof (cases "b - 52 \<le> k")
    case True
    have "pow2 k = pow2 (k - (b - 52)) * pow2 (b - 52)" by (simp flip: pow2_add)
    moreover have "pow2 (k - (b - 52)) = of_int (2 ^ nat (k - (b - 52)))" using True by (simp add: pow2_def)
    ultimately have "x = of_int (n * 2 ^ nat (k - (b - 52))) * pow2 (b - 52)" by (simp add: x_def)
    then show ?thesis by blast
  next
    case False
    then have k: "b = k + 53" using bk by simp
    have "pow2 b = 2 ^ 53 * pow2 k" using pow2_add[of 53 k] by (simp add: k pow2_def[of 53] add.commute)
    then have "(of_int (2 ^ 53) :: rat) \<le> of_int \<bar>n\<bar>" using le(1) pow2_pos[of k] by simp
    then have n: "\<bar>n\<bar> = 2 ^ 53" using assms by (simp only: of_int_le_iff) 
    have "2 dvd \<bar>n\<bar>" unfolding n by simp
    then have "n = n div 2 * 2" by simp
    then have "of_int n = (of_int (n div 2 * 2) :: rat)" by simp
    moreover have "of_int (n div 2 * 2) = of_int (n div 2) * (2 :: rat)" by simp
    moreover have "pow2 (b - 52) = 2 * pow2 k" using pow2_add[of 1 k] by (simp add: k pow2_def[of 1] add.commute)
    ultimately have "x = of_int (n div 2) * pow2 (b - 52)" by (simp add: x_def)
    then show ?thesis by blast
  qed
  then obtain m where m: "x = of_int m * pow2 (b - 52)" by blast
  then have "x / pow2 (b - 52) = of_int m" by simp
  then have "round_even (x / pow2 (b - 52)) = m" by simp
  then have "dbl_round x = x" using x0 unfolding dbl_round_def Let_def b_def[symmetric] m[symmetric] by (simp add: m[symmetric])
  then show ?thesis by (simp add: x_def)
qed

lemma dbl_round_int: "\<bar>n\<bar> \<le> 2 ^ 53 \<Longrightarrow> dbl_round (of_int n) = of_int n"
  using dbl_round_exact[of n 0] by (simp add: pow2_def)

lemma dbl_round_idem [simp]: "dbl_round (dbl_round x) = dbl_round x"
proof (cases "x = 0")
  case True
  then show ?thesis by (simp add: dbl_round_def)
next
  case False
  define u where "u = pow2 (binexp x - 52)"
  define n where "n = round_even (x / u)"
  have u: "0 < u" by (simp add: u_def)
  have r: "dbl_round x = of_int n * u" using False by (simp add: dbl_round_def Let_def n_def u_def)
  have "\<bar>x\<bar> < 2 ^ 53 * u"
    using binexp_bounds[OF False] pow2_add[of 53 "binexp x - 52"] by (simp add: u_def pow2_def[of 53] add.commute[of 1])
  then have "\<bar>x / u\<bar> < 2 ^ 53" using u by (simp add: abs_divide field_simps)
  moreover have "\<bar>x / u - of_int n\<bar> \<le> 1 / 2" unfolding n_def by (rule round_even_near)
  ultimately have "\<bar>of_int n\<bar> < (2 ^ 53 + 1 :: rat)" by linarith
  then have "(of_int \<bar>n\<bar> :: rat) < of_int (2 ^ 53 + 1)" by simp
  then have "\<bar>n\<bar> < 2 ^ 53 + 1" by (simp only: of_int_less_iff)
  then have "\<bar>n\<bar> \<le> 2 ^ 53" by linarith
  then show ?thesis unfolding r u_def by (rule dbl_round_exact)
qed

lemma dbl_round_error: "\<bar>dbl_round y - y\<bar> \<le> \<bar>y\<bar> / 9007199254740992"
proof (cases "y = 0")
  case True
  then show ?thesis by (simp add: dbl_round_def)
next
  case False
  define u where "u = pow2 (binexp y - 52)"
  have u: "0 < u" by (simp add: u_def)
  have "\<bar>y / u - of_int (round_even (y / u))\<bar> * u \<le> 1 / 2 * u" using u by (intro mult_right_mono round_even_near) simp
  moreover have "\<bar>y / u - of_int (round_even (y / u))\<bar> * u = \<bar>y - dbl_round y\<bar>"
  proof -
    have "\<bar>y / u - of_int (round_even (y / u))\<bar> * u = \<bar>(y / u - of_int (round_even (y / u))) * u\<bar>"
      using u by (simp add: abs_mult)
    also have "(y / u - of_int (round_even (y / u))) * u = y - dbl_round y"
      using False u by (simp add: dbl_round_def Let_def u_def[symmetric] left_diff_distrib)
    finally show ?thesis .
  qed
  moreover have "4503599627370496 * u \<le> \<bar>y\<bar>"
    using binexp_bounds[OF False] pow2_add[of 52 "binexp y - 52"] by (simp add: u_def pow2_def[of 52])
  ultimately show ?thesis by (simp add: abs_minus_commute)
qed

text \<open>A decimal numeral of at most fifteen digits survives being rounded to a double and printed.\<close>

lemma sig_digits_decimal:
  fixes n j :: int
  assumes n: "n \<noteq> 0" "\<bar>n\<bar> < 10 ^ 15"
  defines "y \<equiv> of_int n * pow10 j"
  defines "x \<equiv> dbl_round y"
  shows "x \<noteq> 0" "sgn x = sgn y" "sig_digits 15 x = (m, e) \<Longrightarrow> of_int m * pow10 (e - 14) = \<bar>y\<bar>"
proof -
  have p: "0 < pow10 j" by simp
  have ay: "\<bar>y\<bar> = of_int \<bar>n\<bar> * pow10 j" using abs_of_pos[OF p] by (simp add: y_def abs_mult)
  have y0: "0 < \<bar>y\<bar>" using n(1) p by (simp add: ay)
  have err: "\<bar>x - y\<bar> \<le> \<bar>y\<bar> / 9007199254740992" unfolding x_def by (rule dbl_round_error)
  show x0: "x \<noteq> 0" using err y0 by auto
  show "sgn x = sgn y" using err y0 by (auto simp: sgn_if abs_if split: if_splits)
  have ex: "\<bar>\<bar>x\<bar> - \<bar>y\<bar>\<bar> \<le> \<bar>y\<bar> / 9007199254740992" using err by linarith
  define e' where "e' = decexp x"
  have e: "pow10 e' \<le> \<bar>x\<bar>" "\<bar>x\<bar> < pow10 (e' + 1)" using decexp_bounds[OF x0] by (auto simp: e'_def)
  have "(of_int \<bar>n\<bar> :: rat) \<le> of_int 999999999999999" using n(2) by (simp only: of_int_le_iff) simp
  then have "\<bar>y\<bar> \<le> 999999999999999 * pow10 j" using p unfolding ay by (simp add: mult_right_mono)
  then have "\<bar>x\<bar> < 1000000000000000 * pow10 j" using ex p by linarith
  also have "\<dots> = pow10 (j + 15)" using pow10_add[of j 15] by (simp add: pow10_def[of 15])
  finally have lt: "pow10 e' < pow10 (j + 15)" using e(1) by simp
  have ej: "e' \<le> j + 14"
    using lt power_int_increasing[of "j + 15" e' "10 :: rat"] by (cases "j + 15 \<le> e'") (simp_all add: pow10_powi)
  define u where "u = pow10 (e' - 14)"
  have u: "0 < u" by (simp add: u_def)
  define N where "N = \<bar>n\<bar> * 10 ^ nat (j + 14 - e')"
  have pj: "pow10 j = 10 ^ nat (j + 14 - e') * u"
    using pow10_add[of "j + 14 - e'" "e' - 14"] ej by (simp add: u_def pow10_def[of "j + 14 - e'"])
  have yN: "\<bar>y\<bar> = of_int N * u" by (simp add: ay pj N_def)
  have xu: "\<bar>x\<bar> / u < 1000000000000000"
    using e(2) u pow10_add[of 15 "e' - 14"] by (simp add: u_def pow10_def[of 15] field_simps)
  have "\<bar>\<bar>x\<bar> / u - of_int N\<bar> * u = \<bar>\<bar>x\<bar> - \<bar>y\<bar>\<bar>"
  proof -
    have "\<bar>\<bar>x\<bar> / u - of_int N\<bar> * u = \<bar>(\<bar>x\<bar> / u - of_int N) * u\<bar>" using u by (simp add: abs_mult)
    also have "(\<bar>x\<bar> / u - of_int N) * u = \<bar>x\<bar> - \<bar>y\<bar>" using u by (simp add: yN left_diff_distrib)
    finally show ?thesis .
  qed
  also have "\<dots> \<le> of_int N / 9007199254740992 * u" using ex by (simp add: yN)
  finally have "\<bar>\<bar>x\<bar> / u - of_int N\<bar> \<le> of_int N / 9007199254740992" using u by simp
  then have "\<bar>\<bar>x\<bar> / u - of_int N\<bar> < 1 / 2" using xu by linarith
  then have r: "round_even (\<bar>x\<bar> / u) = N" by (rule round_even_close)
  assume "sig_digits 15 x = (m, e)"
  then have "(m, e) = (if N = 10 ^ 15 then (10 ^ 14, e' + 1) else (N, e'))"
    using r by (auto simp: sig_digits_def Let_def u_def e'_def split: if_splits)
  then show "of_int m * pow10 (e - 14) = \<bar>y\<bar>"
    using pow10_add[of 1 "e' - 14"] by (auto split: if_splits simp: yN u_def pow10_def[of 1] algebra_simps)
qed

end
