(* ===== verification/CJson.thy ===== *)
theory CJson
  imports NumText
begin

text \<open>
  The JSON library \<open>component/cJSON/cJSON.c\<close>: the tree and the functions that build, search, change, copy and
  compare trees. The parser is in theory CJsonParse, the printer in theory CJsonPrint. The \<open>next\<close>/\<open>prev\<close> chain of
  the children is the list of children, so a function that links a node in or out returns the changed tree. Every function rejects null arguments before it does anything else; the definitions take
  existing nodes. Memory allocation is taken to succeed.
\<close>

section \<open>Trees\<close>

datatype cJSON = CJSON
  (cj_type: int) (cj_valuestring: "string option") (cj_valueint: int) (cj_valuedouble: dbl) (cj_string: "string option")
  (cj_child: "cJSON list")

definition cJSON_Invalid :: int where "cJSON_Invalid = 0"
definition cJSON_False :: int where "cJSON_False = 1"
definition cJSON_True :: int where "cJSON_True = 2"
definition cJSON_NULL :: int where "cJSON_NULL = 4"
definition cJSON_Number :: int where "cJSON_Number = 8"
definition cJSON_String :: int where "cJSON_String = 16"
definition cJSON_Array :: int where "cJSON_Array = 32"
definition cJSON_Object :: int where "cJSON_Object = 64"
definition cJSON_Raw :: int where "cJSON_Raw = 128"
definition cJSON_IsReference :: int where "cJSON_IsReference = 256"
definition cJSON_StringIsConst :: int where "cJSON_StringIsConst = 512"

lemmas cJSON_types = cJSON_Invalid_def cJSON_False_def cJSON_True_def cJSON_NULL_def cJSON_Number_def cJSON_String_def
  cJSON_Array_def cJSON_Object_def cJSON_Raw_def cJSON_IsReference_def cJSON_StringIsConst_def

definition cJSON_kind :: "cJSON \<Rightarrow> int" where
  "cJSON_kind item = cj_type item AND 0xFF"

definition cJSON_IsString :: "cJSON \<Rightarrow> bool" where
  "cJSON_IsString item \<longleftrightarrow> cj_type item AND 0xFF = cJSON_String"

definition cJSON_IsNumber :: "cJSON \<Rightarrow> bool" where
  "cJSON_IsNumber item \<longleftrightarrow> cj_type item AND 0xFF = cJSON_Number"

definition cJSON_IsArray :: "cJSON \<Rightarrow> bool" where
  "cJSON_IsArray item \<longleftrightarrow> cj_type item AND 0xFF = cJSON_Array"

definition cJSON_IsObject :: "cJSON \<Rightarrow> bool" where
  "cJSON_IsObject item \<longleftrightarrow> cj_type item AND 0xFF = cJSON_Object"

definition cJSON_IsNull :: "cJSON \<Rightarrow> bool" where
  "cJSON_IsNull item \<longleftrightarrow> cj_type item AND 0xFF = cJSON_NULL"

definition cJSON_IsTrue :: "cJSON \<Rightarrow> bool" where
  "cJSON_IsTrue item \<longleftrightarrow> cj_type item AND 0xFF = cJSON_True"

definition cJSON_IsFalse :: "cJSON \<Rightarrow> bool" where
  "cJSON_IsFalse item \<longleftrightarrow> cj_type item AND 0xFF = cJSON_False"

definition cJSON_IsBool :: "cJSON \<Rightarrow> bool" where
  "cJSON_IsBool item \<longleftrightarrow> cj_type item AND (cJSON_True OR cJSON_False) \<noteq> 0"

definition cJSON_IsInvalid :: "cJSON \<Rightarrow> bool" where
  "cJSON_IsInvalid item \<longleftrightarrow> cj_type item AND 0xFF = cJSON_Invalid"

definition cJSON_IsRaw :: "cJSON \<Rightarrow> bool" where
  "cJSON_IsRaw item \<longleftrightarrow> cj_type item AND 0xFF = cJSON_Raw"

definition cJSON_GetStringValue :: "cJSON \<Rightarrow> string option" where
  "cJSON_GetStringValue item = (if cJSON_IsString item then cj_valuestring item else None)"

text \<open>\<open>None\<close> is the not-a-number that the function returns for an item of another type.\<close>

definition cJSON_GetNumberValue :: "cJSON \<Rightarrow> dbl option" where
  "cJSON_GetNumberValue item = (if cJSON_IsNumber item then Some (cj_valuedouble item) else None)"

section \<open>Building trees\<close>

definition cJSON_New_Item :: cJSON where
  "cJSON_New_Item = CJSON 0 None 0 0 None []"

text \<open>The integer view of a number saturates at the bounds of \<open>int\<close>.\<close>

definition saturate_int :: "dbl \<Rightarrow> int" where
  "saturate_int num =
     (if num \<ge> 2147483647 then 2147483647 else if num \<le> - 2147483648 then - 2147483648 else dbl_trunc num)"

fun cJSON_SetNumberHelper :: "cJSON \<Rightarrow> dbl \<Rightarrow> cJSON" where
  "cJSON_SetNumberHelper (CJSON ty vs vi vd st ch) num = CJSON ty vs (saturate_int num) num st ch"

fun cJSON_SetValuestring :: "cJSON \<Rightarrow> string \<Rightarrow> cJSON option" where
  "cJSON_SetValuestring (CJSON ty vs vi vd st ch) s =
     (if ty AND cJSON_String = 0 \<or> ty AND cJSON_IsReference \<noteq> 0 then None else Some (CJSON ty (Some s) vi vd st ch))"

definition cJSON_CreateNull :: cJSON where "cJSON_CreateNull = CJSON cJSON_NULL None 0 0 None []"
definition cJSON_CreateTrue :: cJSON where "cJSON_CreateTrue = CJSON cJSON_True None 0 0 None []"
definition cJSON_CreateFalse :: cJSON where "cJSON_CreateFalse = CJSON cJSON_False None 0 0 None []"
definition cJSON_CreateBool :: "bool \<Rightarrow> cJSON" where
  "cJSON_CreateBool b = CJSON (if b then cJSON_True else cJSON_False) None 0 0 None []"
definition cJSON_CreateNumber :: "dbl \<Rightarrow> cJSON" where
  "cJSON_CreateNumber num = CJSON cJSON_Number None (saturate_int num) num None []"
definition cJSON_CreateString :: "string \<Rightarrow> cJSON" where
  "cJSON_CreateString s = CJSON cJSON_String (Some s) 0 0 None []"
definition cJSON_CreateRaw :: "string \<Rightarrow> cJSON" where
  "cJSON_CreateRaw s = CJSON cJSON_Raw (Some s) 0 0 None []"
definition cJSON_CreateArray :: cJSON where "cJSON_CreateArray = CJSON cJSON_Array None 0 0 None []"
definition cJSON_CreateObject :: cJSON where "cJSON_CreateObject = CJSON cJSON_Object None 0 0 None []"

fun add_item_to_array :: "cJSON \<Rightarrow> cJSON \<Rightarrow> cJSON" where
  "add_item_to_array (CJSON ty vs vi vd st ch) item = CJSON ty vs vi vd st (ch @ [item])"

definition cJSON_AddItemToArray :: "cJSON \<Rightarrow> cJSON \<Rightarrow> cJSON" where
  "cJSON_AddItemToArray array item = add_item_to_array array item"

text \<open>The key is copied into the item, and the flag for a constant key is cleared or set.\<close>

fun item_with_key :: "bool \<Rightarrow> string \<Rightarrow> cJSON \<Rightarrow> cJSON" where
  "item_with_key constant_key name (CJSON ty vs vi vd st ch) =
     CJSON (if constant_key then ty OR cJSON_StringIsConst else ty AND NOT cJSON_StringIsConst) vs vi vd (Some name) ch"

definition add_item_to_object :: "cJSON \<Rightarrow> string \<Rightarrow> cJSON \<Rightarrow> bool \<Rightarrow> cJSON" where
  "add_item_to_object object name item constant_key = add_item_to_array object (item_with_key constant_key name item)"

definition cJSON_AddItemToObject :: "cJSON \<Rightarrow> string \<Rightarrow> cJSON \<Rightarrow> cJSON" where
  "cJSON_AddItemToObject object name item = add_item_to_object object name item False"

definition cJSON_AddItemToObjectCS :: "cJSON \<Rightarrow> string \<Rightarrow> cJSON \<Rightarrow> cJSON" where
  "cJSON_AddItemToObjectCS object name item = add_item_to_object object name item True"

definition cJSON_AddRawToObject :: "cJSON \<Rightarrow> string \<Rightarrow> string \<Rightarrow> cJSON" where
  "cJSON_AddRawToObject object name raw = add_item_to_object object name (cJSON_CreateRaw raw) False"

definition cJSON_AddObjectToObject :: "cJSON \<Rightarrow> string \<Rightarrow> cJSON" where
  "cJSON_AddObjectToObject object name = add_item_to_object object name cJSON_CreateObject False"

definition cJSON_AddArrayToObject :: "cJSON \<Rightarrow> string \<Rightarrow> cJSON" where
  "cJSON_AddArrayToObject object name = add_item_to_object object name cJSON_CreateArray False"

definition cJSON_AddNumberToObject :: "cJSON \<Rightarrow> string \<Rightarrow> dbl \<Rightarrow> cJSON" where
  "cJSON_AddNumberToObject object name num = add_item_to_object object name (cJSON_CreateNumber num) False"

definition cJSON_AddStringToObject :: "cJSON \<Rightarrow> string \<Rightarrow> string \<Rightarrow> cJSON" where
  "cJSON_AddStringToObject object name s = add_item_to_object object name (cJSON_CreateString s) False"

definition cJSON_AddBoolToObject :: "cJSON \<Rightarrow> string \<Rightarrow> bool \<Rightarrow> cJSON" where
  "cJSON_AddBoolToObject object name b = add_item_to_object object name (cJSON_CreateBool b) False"

definition cJSON_AddNullToObject :: "cJSON \<Rightarrow> string \<Rightarrow> cJSON" where
  "cJSON_AddNullToObject object name = add_item_to_object object name cJSON_CreateNull False"

definition cJSON_AddFalseToObject :: "cJSON \<Rightarrow> string \<Rightarrow> cJSON" where
  "cJSON_AddFalseToObject object name = add_item_to_object object name cJSON_CreateFalse False"

definition cJSON_AddTrueToObject :: "cJSON \<Rightarrow> string \<Rightarrow> cJSON" where
  "cJSON_AddTrueToObject object name = add_item_to_object object name cJSON_CreateTrue False"

text \<open>The arrays made from a vector of values: the nodes in the order of the vector.\<close>

definition cJSON_CreateDoubleArray :: "dbl list \<Rightarrow> cJSON" where
  "cJSON_CreateDoubleArray numbers = CJSON cJSON_Array None 0 0 None (map cJSON_CreateNumber numbers)"

text \<open>Every \<open>float\<close> is a \<open>double\<close> of the same value.\<close>

definition cJSON_CreateFloatArray :: "dbl list \<Rightarrow> cJSON" where
  "cJSON_CreateFloatArray numbers = CJSON cJSON_Array None 0 0 None (map cJSON_CreateNumber numbers)"

definition cJSON_CreateIntArray :: "int list \<Rightarrow> cJSON" where
  "cJSON_CreateIntArray numbers = CJSON cJSON_Array None 0 0 None (map (\<lambda>n. cJSON_CreateNumber (of_int n)) numbers)"

definition cJSON_CreateStringArray :: "string list \<Rightarrow> cJSON" where
  "cJSON_CreateStringArray strings = CJSON cJSON_Array None 0 0 None (map cJSON_CreateString strings)"

section \<open>Searching trees\<close>

definition cJSON_GetArraySize :: "cJSON \<Rightarrow> int" where
  "cJSON_GetArraySize array = sint (word_of_nat (length (cj_child array)) :: 32 word)"

definition get_array_item :: "cJSON \<Rightarrow> nat \<Rightarrow> cJSON option" where
  "get_array_item array index = (if index < length (cj_child array) then Some (cj_child array ! index) else None)"

definition cJSON_GetArrayItem :: "cJSON \<Rightarrow> int \<Rightarrow> cJSON option" where
  "cJSON_GetArrayItem array index = (if index < 0 then None else get_array_item array (nat index))"

definition tolower :: "char \<Rightarrow> char" where
  "tolower c = (if 65 \<le> (of_char c :: nat) \<and> (of_char c :: nat) \<le> 90 then char_of (of_char c + 32 :: nat) else c)"

text \<open>Names are compared without regard to case; a child without a name never matches.\<close>

definition case_insensitive_eq :: "string \<Rightarrow> string option \<Rightarrow> bool" where
  "case_insensitive_eq a b = (case b of None \<Rightarrow> False | Some s \<Rightarrow> map tolower a = map tolower s)"

text \<open>The search that regards case ends at the first child without a name.\<close>

fun find_named :: "string \<Rightarrow> cJSON list \<Rightarrow> cJSON option" where
  "find_named name [] = None"
| "find_named name (c # cs) =
     (case cj_string c of None \<Rightarrow> None | Some s \<Rightarrow> if s = name then Some c else find_named name cs)"

definition get_object_item :: "cJSON \<Rightarrow> string \<Rightarrow> bool \<Rightarrow> cJSON option" where
  "get_object_item object name case_sensitive =
     (if case_sensitive then find_named name (cj_child object)
      else find (\<lambda>c. case_insensitive_eq name (cj_string c)) (cj_child object))"

definition cJSON_GetObjectItem :: "cJSON \<Rightarrow> string \<Rightarrow> cJSON option" where
  "cJSON_GetObjectItem object name = get_object_item object name False"

definition cJSON_GetObjectItemCaseSensitive :: "cJSON \<Rightarrow> string \<Rightarrow> cJSON option" where
  "cJSON_GetObjectItemCaseSensitive object name = get_object_item object name True"

definition cJSON_HasObjectItem :: "cJSON \<Rightarrow> string \<Rightarrow> bool" where
  "cJSON_HasObjectItem object name \<longleftrightarrow> cJSON_GetObjectItem object name \<noteq> None"

section \<open>Changing trees\<close>

fun set_child_list :: "cJSON \<Rightarrow> cJSON list \<Rightarrow> cJSON" where
  "set_child_list (CJSON ty vs vi vd st ch) items = CJSON ty vs vi vd st items"

text \<open>The detached item and the rest of the tree.\<close>

definition detach_child :: "cJSON \<Rightarrow> nat \<Rightarrow> cJSON option \<times> cJSON" where
  "detach_child parent i =
     (if i \<ge> length (cj_child parent) then (None, parent)
      else (Some (cj_child parent ! i), set_child_list parent (take i (cj_child parent) @ drop (Suc i) (cj_child parent))))"

definition cJSON_DetachItemFromArray :: "cJSON \<Rightarrow> int \<Rightarrow> cJSON option \<times> cJSON" where
  "cJSON_DetachItemFromArray array which =
     (if which < 0 then (None, array) else detach_child array (nat which))"

definition cJSON_DeleteItemFromArray :: "cJSON \<Rightarrow> int \<Rightarrow> cJSON" where
  "cJSON_DeleteItemFromArray array which = snd (cJSON_DetachItemFromArray array which)"

text \<open>The position of the child that \<open>get_object_item\<close> finds: the pointer the code passes on.\<close>

fun child_index :: "bool \<Rightarrow> string \<Rightarrow> cJSON list \<Rightarrow> nat option" where
  "child_index case_sensitive name [] = None"
| "child_index case_sensitive name (c # cs) =
     (if case_sensitive \<and> cj_string c = None then None
      else if (if case_sensitive then cj_string c = Some name else case_insensitive_eq name (cj_string c)) then Some 0
      else map_option Suc (child_index case_sensitive name cs))"

lemma child_index_bound: "child_index k name cs = Some i \<Longrightarrow> i < length cs"
  by (induction cs arbitrary: i) (auto split: if_splits)

lemma child_index_item: "get_object_item object name k = map_option ((!) (cj_child object)) (child_index k name (cj_child object))"
proof -
  have t: "find_named name cs = map_option ((!) cs) (child_index True name cs)" for cs
    by (induction cs) (auto simp: option.map_comp comp_def split: option.splits)
  have f: "find (\<lambda>c. case_insensitive_eq name (cj_string c)) cs = map_option ((!) cs) (child_index False name cs)" for cs
    by (induction cs) (auto simp: option.map_comp comp_def)
  show ?thesis by (cases k) (simp_all add: get_object_item_def t f)
qed

definition detach_named :: "bool \<Rightarrow> cJSON \<Rightarrow> string \<Rightarrow> cJSON option \<times> cJSON" where
  "detach_named case_sensitive object name =
     (case child_index case_sensitive name (cj_child object) of None \<Rightarrow> (None, object) | Some i \<Rightarrow> detach_child object i)"

definition cJSON_DetachItemFromObject :: "cJSON \<Rightarrow> string \<Rightarrow> cJSON option \<times> cJSON" where
  "cJSON_DetachItemFromObject object name = detach_named False object name"

definition cJSON_DetachItemFromObjectCaseSensitive :: "cJSON \<Rightarrow> string \<Rightarrow> cJSON option \<times> cJSON" where
  "cJSON_DetachItemFromObjectCaseSensitive object name = detach_named True object name"

definition cJSON_DeleteItemFromObject :: "cJSON \<Rightarrow> string \<Rightarrow> cJSON" where
  "cJSON_DeleteItemFromObject object name = snd (cJSON_DetachItemFromObject object name)"

definition cJSON_DeleteItemFromObjectCaseSensitive :: "cJSON \<Rightarrow> string \<Rightarrow> cJSON" where
  "cJSON_DeleteItemFromObjectCaseSensitive object name = snd (cJSON_DetachItemFromObjectCaseSensitive object name)"

text \<open>An index behind the end appends; a negative one is refused.\<close>

definition cJSON_InsertItemInArray :: "cJSON \<Rightarrow> int \<Rightarrow> cJSON \<Rightarrow> cJSON option" where
  "cJSON_InsertItemInArray array which newitem =
     (if which < 0 then None
      else if nat which \<ge> length (cj_child array) then Some (add_item_to_array array newitem)
      else Some (set_child_list array (take (nat which) (cj_child array) @ newitem # drop (nat which) (cj_child array))))"

definition replace_child :: "cJSON \<Rightarrow> nat \<Rightarrow> cJSON \<Rightarrow> cJSON option" where
  "replace_child parent i newitem =
     (if i \<ge> length (cj_child parent) then None else Some (set_child_list parent ((cj_child parent)[i := newitem])))"

definition cJSON_ReplaceItemInArray :: "cJSON \<Rightarrow> int \<Rightarrow> cJSON \<Rightarrow> cJSON option" where
  "cJSON_ReplaceItemInArray array which newitem = (if which < 0 then None else replace_child array (nat which) newitem)"

definition replace_item_in_object :: "cJSON \<Rightarrow> string \<Rightarrow> cJSON \<Rightarrow> bool \<Rightarrow> cJSON option" where
  "replace_item_in_object object name newitem case_sensitive =
     Option.bind (child_index case_sensitive name (cj_child object))
       (\<lambda>i. replace_child object i (item_with_key False name newitem))"

definition cJSON_ReplaceItemInObject :: "cJSON \<Rightarrow> string \<Rightarrow> cJSON \<Rightarrow> cJSON option" where
  "cJSON_ReplaceItemInObject object name newitem = replace_item_in_object object name newitem False"

definition cJSON_ReplaceItemInObjectCaseSensitive :: "cJSON \<Rightarrow> string \<Rightarrow> cJSON \<Rightarrow> cJSON option" where
  "cJSON_ReplaceItemInObjectCaseSensitive object name newitem = replace_item_in_object object name newitem True"

section \<open>Copying and comparing trees\<close>

fun cJSON_Duplicate :: "bool \<Rightarrow> cJSON \<Rightarrow> cJSON" where
  "cJSON_Duplicate recurse (CJSON ty vs vi vd st ch) =
     CJSON (ty AND NOT cJSON_IsReference) vs vi vd st (if recurse then map (cJSON_Duplicate True) ch else [])"

definition DBL_EPSILON :: dbl where
  "DBL_EPSILON = 1 / 2 ^ 52"

definition compare_double :: "dbl \<Rightarrow> dbl \<Rightarrow> bool" where
  "compare_double a b =
     (let maxVal = (if \<bar>a\<bar> > \<bar>b\<bar> then \<bar>a\<bar> else \<bar>b\<bar>) in \<bar>dbl_sub a b\<bar> \<le> dbl_mul maxVal DBL_EPSILON)"

text \<open>
  Two trees of different nodes (a node compared with itself is equal at once). The members of an object are looked up
  by name, in both directions.
\<close>

definition find_same_name :: "cJSON \<Rightarrow> cJSON \<Rightarrow> bool \<Rightarrow> cJSON option" where
  "find_same_name object item case_sensitive =
     Option.bind (cj_string item) (\<lambda>name. get_object_item object name case_sensitive)"

lemma find_named_in: "find_named name cs = Some c \<Longrightarrow> c \<in> set cs"
  by (induction cs) (auto split: option.splits if_splits)

lemma find_same_name_in: "find_same_name object item k = Some c \<Longrightarrow> c \<in> set (cj_child object)"
  by (auto simp: find_same_name_def get_object_item_def find_Some_iff dest: find_named_in split: if_splits bind_splits)

lemma child_smaller: "c \<in> set (cj_child item) \<Longrightarrow> size c < size item"
  by (cases item) (auto simp: less_Suc_eq_le intro: size_list_estimation')

lemma zip_children_smaller:
  "(x, y) \<in> set (zip (cj_child a) (cj_child b)) \<Longrightarrow> size x + size y < size a + size b"
  by (meson add_strict_mono child_smaller set_zip_leftD set_zip_rightD)

function cJSON_Compare :: "bool \<Rightarrow> cJSON \<Rightarrow> cJSON \<Rightarrow> bool" where
  "cJSON_Compare case_sensitive a b =
     (let k = cj_type a AND 0xFF
      in if k \<noteq> cj_type b AND 0xFF then False
         else if k = cJSON_False \<or> k = cJSON_True \<or> k = cJSON_NULL then True
         else if k = cJSON_Number then compare_double (cj_valuedouble a) (cj_valuedouble b)
         else if k = cJSON_String \<or> k = cJSON_Raw
         then cj_valuestring a \<noteq> None \<and> cj_valuestring b \<noteq> None \<and> cj_valuestring a = cj_valuestring b
         else if k = cJSON_Array
         then length (cj_child a) = length (cj_child b) \<and>
              list_all (\<lambda>(x, y). cJSON_Compare case_sensitive x y) (zip (cj_child a) (cj_child b))
         else if k = cJSON_Object
         then list_all (\<lambda>x. case find_same_name b x case_sensitive of
                None \<Rightarrow> False | Some y \<Rightarrow> cJSON_Compare case_sensitive x y) (cj_child a) \<and>
              list_all (\<lambda>y. case find_same_name a y case_sensitive of
                None \<Rightarrow> False | Some x \<Rightarrow> cJSON_Compare case_sensitive y x) (cj_child b)
         else False)"
  by pat_completeness auto

termination
  by (relation "measure (\<lambda>(k, a, b). size a + size b)")
    (auto dest!: zip_children_smaller find_same_name_in child_smaller)

declare cJSON_Compare.simps [simp del]

section \<open>Updates of a tree\<close>

lemma item_with_key_string [simp]: "cj_string (item_with_key k name item) = Some name"
  by (cases item) simp

lemma set_child_list_child [simp]: "cj_child (set_child_list t cs) = cs"
  by (cases t) simp

lemma set_child_list_same: "set_child_list t (cj_child t) = t"
  by (cases t) simp

lemma set_child_list_twice [simp]: "set_child_list (set_child_list t cs) ds = set_child_list t ds"
  by (cases t) simp

lemma case_insensitive_sym: "case_insensitive_eq a (Some b) = case_insensitive_eq b (Some a)"
  by (auto simp: case_insensitive_eq_def)

text \<open>Replacing the child that is found keeps the search for it, and for names that neither node has.\<close>

lemma child_index_update:
  assumes "child_index False name cs = Some i" "cj_string new = Some name"
  shows "child_index False name (cs[i := new]) = Some i"
    "\<not> case_insensitive_eq n (Some name) \<Longrightarrow> child_index False n (cs[i := new]) = child_index False n cs"
  using assms
  by (induction cs arbitrary: i) (auto simp: case_insensitive_eq_def nth_Cons' split: if_splits option.splits)

lemma child_index_found:
  "child_index False name cs = Some i \<Longrightarrow> case_insensitive_eq n (Some name) = case_insensitive_eq n (cj_string (cs ! i))"
  by (induction cs arbitrary: i) (auto simp: case_insensitive_eq_def split: if_splits option.splits)

text \<open>Fact: after a member of an object is replaced, the look-up of its name finds the new item under that name, every
  other name is found as before, and the object keeps its size.\<close>

theorem json_object_replace:
  assumes "cJSON_ReplaceItemInObject obj name item = Some obj'"
  shows "cJSON_GetObjectItem obj' name = Some (item_with_key False name item) \<and>
    (\<forall>n. \<not> case_insensitive_eq n (Some name) \<longrightarrow> cJSON_GetObjectItem obj' n = cJSON_GetObjectItem obj n) \<and>
    cJSON_GetArraySize obj' = cJSON_GetArraySize obj"
proof -
  let ?new = "item_with_key False name item"
  obtain i where i: "child_index False name (cj_child obj) = Some i"
    and o: "obj' = set_child_list obj ((cj_child obj)[i := ?new])"
    using assms by (auto simp: cJSON_ReplaceItemInObject_def replace_item_in_object_def replace_child_def
        split: bind_splits if_splits)
  have len: "i < length (cj_child obj)" using child_index_bound[OF i] .
  have "cJSON_GetObjectItem obj' n = cJSON_GetObjectItem obj n" if n: "\<not> case_insensitive_eq n (Some name)" for n
  proof -
    have "j \<noteq> i" if "child_index False n (cj_child obj) = Some j" for j
      using n child_index_found[OF i, of n] child_index_found[OF that, of n] by (auto simp: case_insensitive_eq_def)
    then show ?thesis using child_index_update(2)[OF i _ n, of ?new]
      by (cases "child_index False n (cj_child obj)") (auto simp: cJSON_GetObjectItem_def child_index_item o)
  qed
  moreover have "cJSON_GetObjectItem obj' name = Some ?new"
    using child_index_update(1)[OF i, of ?new] len by (simp add: cJSON_GetObjectItem_def child_index_item o)
  ultimately show ?thesis by (simp add: cJSON_GetArraySize_def o)
qed

text \<open>Fact: an item that was detached from an array goes back to its place by inserting it at the same index.\<close>

theorem json_detach_insert:
  assumes "cJSON_DetachItemFromArray array which = (Some item, array')"
  shows "cJSON_InsertItemInArray array' which item = Some array"
proof -
  let ?cs = "cj_child array" and ?n = "nat which"
  have n: "0 \<le> which" "?n < length ?cs" and item: "item = ?cs ! ?n"
    and a: "array' = set_child_list array (take ?n ?cs @ drop (Suc ?n) ?cs)"
    using assms by (auto simp: cJSON_DetachItemFromArray_def detach_child_def split: if_splits)
  have "take ?n ?cs @ item # drop (Suc ?n) ?cs = ?cs" using n(2) item by (simp add: id_take_nth_drop[symmetric])
  then show ?thesis
    using n a set_child_list_same[of array]
    by (cases array) (auto simp: cJSON_InsertItemInArray_def)
qed

definition sample_object :: cJSON where
  "sample_object = CJSON 64 None 0 0 None [CJSON 8 None 220 220 (Some ''Uab'') [], CJSON 8 None 5 5 (Some ''Ia'') []]"

theorem json_object_replace_witness:
  "cJSON_GetObjectItem (CJSON 64 None 0 0 None [CJSON 8 None 380 380 (Some ''uab'') [], CJSON 8 None 5 5 (Some ''Ia'') []]) ''ia'' =
     cJSON_GetObjectItem sample_object ''ia''"
proof -
  have "cJSON_ReplaceItemInObject sample_object ''uab'' (cJSON_CreateNumber 380) =
      Some (CJSON 64 None 0 0 None [CJSON 8 None 380 380 (Some ''uab'') [], CJSON 8 None 5 5 (Some ''Ia'') []])"
    by code_simp
  moreover have "\<not> case_insensitive_eq ''ia'' (Some ''uab'')" by code_simp
  ultimately show ?thesis using json_object_replace[of sample_object "''uab''" "cJSON_CreateNumber 380"] by blast
qed

theorem json_detach_insert_witness:
  "cJSON_InsertItemInArray (CJSON 64 None 0 0 None [CJSON 8 None 220 220 (Some ''Uab'') []]) 1 (CJSON 8 None 5 5 (Some ''Ia'') []) =
     Some sample_object"
proof (rule json_detach_insert)
  show "cJSON_DetachItemFromArray sample_object 1 =
      (Some (CJSON 8 None 5 5 (Some ''Ia'') []), CJSON 64 None 0 0 None [CJSON 8 None 220 220 (Some ''Uab'') []])"
    by code_simp
qed

end
