(* ===== verification/CJsonParse.thy ===== *)
theory CJsonParse
  imports CJson
begin

text \<open>
  The parser of \<open>component/cJSON/cJSON.c\<close>: the parse buffer, white space, string literals with their escape sequences,
  numbers, and the mutually recursive functions for values, arrays and objects, which terminate because every
  successful call reads at least one byte. A read that is not guarded by the length of the buffer is a fault.
\<close>

section \<open>The parse buffer\<close>

text \<open>
  The input bytes (the list is as long as the buffer), the position of the next byte and the number of open arrays
  and objects.
\<close>

record parse_buffer =
  pb_content :: string
  pb_offset :: nat
  pb_depth :: nat

definition can_access_at_index :: "parse_buffer \<Rightarrow> nat \<Rightarrow> bool" where
  "can_access_at_index b i \<longleftrightarrow> pb_offset b + i < length (pb_content b)"

definition can_read :: "parse_buffer \<Rightarrow> nat \<Rightarrow> bool" where
  "can_read b n \<longleftrightarrow> pb_offset b + n \<le> length (pb_content b)"

text \<open>The bytes from the offset on, and the test of the next byte behind the test that it exists.\<close>

definition buffer_at_offset :: "parse_buffer \<Rightarrow> string" where
  "buffer_at_offset b = drop (pb_offset b) (pb_content b)"

definition next_is :: "parse_buffer \<Rightarrow> char \<Rightarrow> bool" where
  "next_is b c \<longleftrightarrow> can_access_at_index b 0 \<and> buffer_at_offset b ! 0 = c"

definition advance :: "nat \<Rightarrow> parse_buffer \<Rightarrow> parse_buffer" where
  "advance n b = b\<lparr>pb_offset := pb_offset b + n\<rparr>"

definition step_back :: "parse_buffer \<Rightarrow> parse_buffer" where
  "step_back b = b\<lparr>pb_offset := pb_offset b - 1\<rparr>"

definition ws :: "char \<Rightarrow> bool" where
  "ws c \<longleftrightarrow> (of_char c :: nat) \<le> 32"

definition buffer_skip_whitespace :: "parse_buffer \<Rightarrow> parse_buffer" where
  "buffer_skip_whitespace b =
     (if \<not> can_access_at_index b 0 then b
      else let b1 = advance (length (takeWhile ws (buffer_at_offset b))) b
           in if pb_offset b1 = length (pb_content b1) then step_back b1 else b1)"

definition skip_utf8_bom :: "parse_buffer \<Rightarrow> parse_buffer option" where
  "skip_utf8_bom b =
     (if pb_offset b \<noteq> 0 then None
      else if can_access_at_index b 4 \<and> take 3 (buffer_at_offset b) = [CHR 0xEF, CHR 0xBB, CHR 0xBF]
           then Some (advance 3 b) else Some b)"

section \<open>Strings\<close>

definition hex_digit :: "char \<Rightarrow> nat option" where
  "hex_digit c =
     (let n = of_char c
      in if 48 \<le> n \<and> n \<le> 57 then Some (n - 48)
         else if 65 \<le> n \<and> n \<le> 70 then Some (10 + n - 65)
         else if 97 \<le> n \<and> n \<le> 102 then Some (10 + n - 97) else None)"

text \<open>Four hexadecimal digits; the value is \<open>0\<close> when one of them is not a digit.\<close>

definition parse_hex4 :: "string \<Rightarrow> nat" where
  "parse_hex4 input =
     (case those (map hex_digit (take 4 input)) of
        None \<Rightarrow> 0 | Some ds \<Rightarrow> foldl (\<lambda>h d. 16 * h + d) 0 ds)"

text \<open>The bytes of a code point; the lower bytes carry six bits each.\<close>

definition utf8_encode :: "nat \<Rightarrow> string option" where
  "utf8_encode cp =
     (let low = (\<lambda>k. char_of ((cp div 64 ^ k) mod 64 + 128))
      in if cp < 0x80 then Some [char_of cp]
         else if cp < 0x800 then Some [char_of (0xC0 + cp div 64), low 0]
         else if cp < 0x10000 then Some [char_of (0xE0 + cp div 64 ^ 2), low 1, low 0]
         else if cp \<le> 0x10FFFF then Some [char_of (0xF0 + cp div 64 ^ 3), low 2, low 1, low 0]
         else None)"

text \<open>
  \<open>inp\<close> are the bytes from the backslash to the end of the literal; the result is the number of bytes of the
  sequence and its encoding.
\<close>

definition utf16_literal_to_utf8 :: "string \<Rightarrow> (nat \<times> string) option" where
  "utf16_literal_to_utf8 inp =
     (if length inp < 6 then None
      else let first_code = parse_hex4 (drop 2 inp)
           in if 0xDC00 \<le> first_code \<and> first_code \<le> 0xDFFF then None
              else if 0xD800 \<le> first_code \<and> first_code \<le> 0xDBFF
              then let second = drop 6 inp; second_code = parse_hex4 (drop 2 second)
                   in if length second < 6 \<or> second ! 0 \<noteq> CHR 0x5C \<or> second ! 1 \<noteq> CHR ''u'' then None
                      else if second_code < 0xDC00 \<or> 0xDFFF < second_code then None
                      else map_option (Pair 12)
                             (utf8_encode (0x10000 + (first_code mod 0x400 * 0x400 + second_code mod 0x400)))
              else map_option (Pair 6) (utf8_encode first_code))"

definition simple_escape :: "char \<Rightarrow> char option" where
  "simple_escape c =
     (if c = CHR ''b'' then Some (CHR 0x08) else if c = CHR ''f'' then Some (CHR 0x0C)
      else if c = CHR ''n'' then Some (CHR 0x0A) else if c = CHR ''r'' then Some (CHR 0x0D)
      else if c = CHR ''t'' then Some (CHR 0x09)
      else if c = CHR 0x22 \<or> c = CHR 0x5C \<or> c = CHR ''/'' then Some c else None)"

text \<open>
  The position of the closing quote in the bytes behind the opening one: a backslash hides the byte that follows it.
\<close>

fun string_end :: "string \<Rightarrow> nat option" where
  "string_end [] = None"
| "string_end (c # cs) =
     (if c = CHR 0x22 then Some 0
      else if c = CHR 0x5C then (case cs of [] \<Rightarrow> None | d # ds \<Rightarrow> map_option (\<lambda>n. n + 2) (string_end ds))
      else map_option Suc (string_end cs))"

text \<open>
  The second pass over the literal: the decoded bytes, or \<open>None\<close> for a bad escape sequence, and the number of bytes
  read until then. The byte behind a backslash at the very end would be the closing quote.
\<close>

fun unescape :: "string \<Rightarrow> string option \<times> nat" where
  "unescape [] = (Some [], 0)"
| "unescape (c # cs) =
     (if c \<noteq> CHR 0x5C
      then (let (r, k) = unescape cs in (map_option ((#) c) r, Suc k))
      else let e = (case cs of [] \<Rightarrow> CHR 0x22 | d # ds \<Rightarrow> d)
           in if e = CHR ''u''
              then (case utf16_literal_to_utf8 (c # cs) of
                      None \<Rightarrow> (None, 0)
                    | Some (n, out) \<Rightarrow>
                        (let (r, k) = unescape (drop (n - 1) cs) in (map_option ((@) out) r, n + k)))
              else (case simple_escape e of
                      None \<Rightarrow> (None, 0)
                    | Some d \<Rightarrow> (let (r, k) = unescape (drop 1 cs) in (map_option ((#) d) r, 2 + k))))"

text \<open>The C string that starts an array of bytes.\<close>

definition c_str :: "string \<Rightarrow> string" where
  "c_str bs = takeWhile (\<lambda>c. c \<noteq> CHR 0x00) bs"

text \<open>A parse function returns whether it succeeded, with the item it filled, and the buffer.\<close>

type_synonym parsed = "cJSON option \<times> parse_buffer"

fun set_string :: "string \<Rightarrow> cJSON \<Rightarrow> cJSON" where
  "set_string s (CJSON ty vs vi vd st ch) = CJSON cJSON_String (Some s) vi vd st ch"

text \<open>The first byte is read without a test that the buffer has one.\<close>

definition parse_string :: "cJSON \<Rightarrow> parse_buffer \<Rightarrow> parsed res" where
  "parse_string item b =
     (if \<not> can_access_at_index b 0 then Inl Out_of_bounds_read
      else if buffer_at_offset b ! 0 \<noteq> CHR 0x22 then Inr (None, advance 1 b)
      else let s = drop 1 (buffer_at_offset b)
           in case string_end s of
                None \<Rightarrow> Inr (None, advance 1 b)
              | Some n \<Rightarrow>
                  (case unescape (take n s) of
                     (None, k) \<Rightarrow> Inr (None, advance (1 + k) b)
                   | (Some output, k) \<Rightarrow> Inr (Some (set_string (c_str output) item), advance (n + 2) b)))"

section \<open>Numbers\<close>

definition number_char :: "char \<Rightarrow> bool" where
  "number_char c \<longleftrightarrow> isdigit c \<or> c = CHR ''+'' \<or> c = CHR ''-'' \<or> c = CHR ''e'' \<or> c = CHR ''E'' \<or> c = CHR ''.''"

fun set_number :: "dbl \<Rightarrow> cJSON \<Rightarrow> cJSON" where
  "set_number d (CJSON ty vs vi vd st ch) = CJSON cJSON_Number vs (saturate_int d) d st ch"

definition parse_number :: "cJSON \<Rightarrow> parse_buffer \<Rightarrow> parsed" where
  "parse_number item b =
     (let number_c_string = take 63 (takeWhile number_char (buffer_at_offset b));
          (number, n) = strtod number_c_string
      in if n = 0 then (None, b) else (Some (set_number number item), advance n b))"

section \<open>Values\<close>

definition CJSON_NESTING_LIMIT :: nat where
  "CJSON_NESTING_LIMIT = 1000"

fun set_type :: "int \<Rightarrow> cJSON \<Rightarrow> cJSON" where
  "set_type t (CJSON ty vs vi vd st ch) = CJSON t vs vi vd st ch"

fun set_true :: "cJSON \<Rightarrow> cJSON" where
  "set_true (CJSON ty vs vi vd st ch) = CJSON cJSON_True vs 1 vd st ch"

fun set_children :: "int \<Rightarrow> cJSON list \<Rightarrow> cJSON \<Rightarrow> cJSON" where
  "set_children t items (CJSON ty vs vi vd st ch) = CJSON t vs vi vd st items"

text \<open>The name of a member was parsed as a string value and moves to the key.\<close>

fun swap_name :: "cJSON \<Rightarrow> cJSON" where
  "swap_name (CJSON ty vs vi vd st ch) = CJSON ty None vi vd vs ch"

definition deeper :: "parse_buffer \<Rightarrow> parse_buffer" where
  "deeper b = b\<lparr>pb_depth := pb_depth b + 1\<rparr>"

definition shallower :: "parse_buffer \<Rightarrow> parse_buffer" where
  "shallower b = b\<lparr>pb_depth := pb_depth b - 1\<rparr>"

definition starts_value_number :: "parse_buffer \<Rightarrow> bool" where
  "starts_value_number b \<longleftrightarrow>
     can_access_at_index b 0 \<and> (buffer_at_offset b ! 0 = CHR ''-'' \<or> isdigit (buffer_at_offset b ! 0))"

definition reads :: "parse_buffer \<Rightarrow> string \<Rightarrow> bool" where
  "reads b s \<longleftrightarrow> can_read b (length s) \<and> take (length s) (buffer_at_offset b) = s"

text \<open>A step that failed ends the function that called it (the jump to \<open>fail\<close>).\<close>

definition and_then :: "('a option \<times> 'b) res \<Rightarrow> ('a \<Rightarrow> 'b \<Rightarrow> ('c option \<times> 'b) res) \<Rightarrow> ('c option \<times> 'b) res" where
  "and_then r f = bind_res r (\<lambda>(x, b). case x of None \<Rightarrow> Inr (None, b) | Some y \<Rightarrow> f y b)"

lemma and_then_simps [simp]:
  "and_then (Inl e) f = Inl e" "and_then (Inr (None, b)) f = Inr (None, b)" "and_then (Inr (Some x, b)) f = f x b"
  by (simp_all add: and_then_def)

lemma and_then_cong [fundef_cong]:
  assumes "r = r'" "\<And>x b. r' = Inr (Some x, b) \<Longrightarrow> f x b = g x b"
  shows "and_then r f = and_then r' g"
  using assms by (auto simp: and_then_def intro!: bind_res_cong split: option.split)

lemma and_then_Some [res_simps]:
  "and_then r f = Inr (Some y, b') \<longleftrightarrow> (\<exists>x b. r = Inr (Some x, b) \<and> f x b = Inr (Some y, b'))"
  by (auto simp: and_then_def bind_res_eq_Inr split: option.splits)

lemma and_then_Inl [res_simps]:
  "and_then r f = Inl e \<longleftrightarrow> r = Inl e \<or> (\<exists>x b. r = Inr (Some x, b) \<and> f x b = Inl e)"
  by (auto simp: and_then_def bind_res_eq_Inl split: option.splits)

text \<open>
  \<open>parse_elements\<close> and \<open>parse_members\<close> are the loops over the comma separated children: the buffer stands on the byte
  before the child.
\<close>

function (sequential)
  parse_value :: "cJSON \<Rightarrow> parse_buffer \<Rightarrow> parsed res" and
  parse_array :: "cJSON \<Rightarrow> parse_buffer \<Rightarrow> parsed res" and
  parse_object :: "cJSON \<Rightarrow> parse_buffer \<Rightarrow> parsed res" and
  parse_elements :: "parse_buffer \<Rightarrow> (cJSON list option \<times> parse_buffer) res" and
  parse_members :: "parse_buffer \<Rightarrow> (cJSON list option \<times> parse_buffer) res"
where
  "parse_value item b =
     (if reads b ''null'' then Inr (Some (set_type cJSON_NULL item), advance 4 b)
      else if reads b ''false'' then Inr (Some (set_type cJSON_False item), advance 5 b)
      else if reads b ''true'' then Inr (Some (set_true item), advance 4 b)
      else if next_is b (CHR 0x22) then parse_string item b
      else if starts_value_number b then Inr (parse_number item b)
      else if next_is b (CHR ''['') then parse_array item b
      else if next_is b (CHR ''{'') then parse_object item b
      else Inr (None, b))"
| "parse_array item b =
     (if pb_depth b \<ge> CJSON_NESTING_LIMIT then Inr (None, b)
      else let b1 = buffer_skip_whitespace (advance 1 (deeper b))
           in if next_is b1 (CHR '']'')
              then Inr (Some (set_children cJSON_Array [] item), advance 1 (shallower b1))
              else if \<not> can_access_at_index b1 0 then Inr (None, step_back b1)
              else and_then (parse_elements (step_back b1)) (\<lambda>items b2.
                     if next_is b2 (CHR '']'')
                     then Inr (Some (set_children cJSON_Array items item), advance 1 (shallower b2))
                     else Inr (None, b2)))"
| "parse_object item b =
     (if pb_depth b \<ge> CJSON_NESTING_LIMIT then Inr (None, b)
      else let b1 = buffer_skip_whitespace (advance 1 (deeper b))
           in if next_is b1 (CHR ''}'')
              then Inr (Some (set_children cJSON_Object [] item), advance 1 (shallower b1))
              else if \<not> can_access_at_index b1 0 then Inr (None, step_back b1)
              else and_then (parse_members (step_back b1)) (\<lambda>items b2.
                     if next_is b2 (CHR ''}'')
                     then Inr (Some (set_children cJSON_Object items item), advance 1 (shallower b2))
                     else Inr (None, b2)))"
| "parse_elements b =
     and_then (parse_value cJSON_New_Item (buffer_skip_whitespace (advance 1 b))) (\<lambda>item b1.
       let b2 = buffer_skip_whitespace b1
       in if next_is b2 (CHR '','')
          then and_then (parse_elements b2) (\<lambda>items b3. Inr (Some (item # items), b3))
          else Inr (Some [item], b2))"
| "parse_members b =
     and_then (parse_string cJSON_New_Item (buffer_skip_whitespace (advance 1 b))) (\<lambda>named b1.
       let b2 = buffer_skip_whitespace b1
       in if \<not> next_is b2 (CHR '':'') then Inr (None, b2)
          else and_then (parse_value (swap_name named) (buffer_skip_whitespace (advance 1 b2))) (\<lambda>item b3.
                 let b4 = buffer_skip_whitespace b3
                 in if next_is b4 (CHR '','')
                    then and_then (parse_members b4) (\<lambda>items b5. Inr (Some (item # items), b5))
                    else Inr (Some [item], b4)))"
  by pat_completeness auto

section \<open>Progress and termination\<close>

lemma advance_fields [simp]:
  "pb_content (advance n b) = pb_content b" "pb_offset (advance n b) = pb_offset b + n" "pb_depth (advance n b) = pb_depth b"
  by (simp_all add: advance_def)

lemma step_back_fields [simp]:
  "pb_content (step_back b) = pb_content b" "pb_offset (step_back b) = pb_offset b - 1" "pb_depth (step_back b) = pb_depth b"
  by (simp_all add: step_back_def)

lemma deeper_fields [simp]:
  "pb_content (deeper b) = pb_content b" "pb_offset (deeper b) = pb_offset b" "pb_depth (deeper b) = Suc (pb_depth b)"
  by (simp_all add: deeper_def)

lemma shallower_fields [simp]:
  "pb_content (shallower b) = pb_content b" "pb_offset (shallower b) = pb_offset b" "pb_depth (shallower b) = pb_depth b - 1"
  by (simp_all add: shallower_def)

lemma skip_ws_fields [simp]:
  "pb_content (buffer_skip_whitespace b) = pb_content b" "pb_depth (buffer_skip_whitespace b) = pb_depth b"
  by (simp_all add: buffer_skip_whitespace_def Let_def)

lemma skip_ws_offset: "pb_offset b \<le> pb_offset (buffer_skip_whitespace b)"
  by (auto simp: buffer_skip_whitespace_def Let_def can_access_at_index_def)

lemma skip_ws_access: "can_access_at_index b 0 \<Longrightarrow> can_access_at_index (buffer_skip_whitespace b) 0"
proof -
  assume a: "can_access_at_index b 0"
  have "length (takeWhile ws (buffer_at_offset b)) \<le> length (pb_content b) - pb_offset b"
    by (metis buffer_at_offset_def length_drop length_takeWhile_le)
  then show ?thesis using a by (auto simp: buffer_skip_whitespace_def Let_def can_access_at_index_def)
qed

lemma string_end_bound: "string_end s = Some n \<Longrightarrow> n < length s"
  by (induction s arbitrary: n rule: string_end.induct) (auto split: if_splits list.splits)

text \<open>A buffer \<open>b'\<close> that a parse function left with success: the input is unchanged and something was read.\<close>

definition progress :: "parse_buffer \<Rightarrow> parse_buffer \<Rightarrow> bool" where
  "progress b b' \<longleftrightarrow> pb_content b' = pb_content b \<and> pb_depth b' = pb_depth b \<and>
     pb_offset b < length (pb_content b) \<and> pb_offset b < pb_offset b' \<and> pb_offset b' \<le> length (pb_content b)"

lemma parse_string_progress: "parse_string item b = Inr (Some x, b') \<Longrightarrow> progress b b'"
  by (auto simp: parse_string_def progress_def can_access_at_index_def buffer_at_offset_def Let_def
      split: if_splits option.splits prod.splits dest: string_end_bound)

lemma strtod_length: "snd (strtod s) \<le> length s"
  by (simp add: strtod_def Let_def split: prod.splits)

lemma parse_number_progress: "parse_number item b = (Some x, b') \<Longrightarrow> progress b b'"
proof -
  let ?t = "take 63 (takeWhile number_char (buffer_at_offset b))"
  assume p: "parse_number item b = (Some x, b')"
  have "snd (strtod ?t) \<le> length ?t" by (rule strtod_length)
  also have "\<dots> \<le> length (buffer_at_offset b)" by (simp add: length_takeWhile_le le_trans min_le_iff_disj)
  finally have "snd (strtod ?t) \<le> length (pb_content b) - pb_offset b" by (simp add: buffer_at_offset_def)
  then show ?thesis using p by (auto simp: parse_number_def progress_def Let_def split: prod.splits if_splits)
qed

lemma reads_progress: "reads b s \<Longrightarrow> length s = n \<Longrightarrow> 0 < n \<Longrightarrow> progress b (advance n b)"
  by (auto simp: reads_def can_read_def progress_def)

lemma skip_ws_bound: "pb_offset b \<le> length (pb_content b) \<Longrightarrow> pb_offset (buffer_skip_whitespace b) \<le> length (pb_content b)"
  using skip_ws_access[of b] by (cases "can_access_at_index b 0")
    (auto simp: can_access_at_index_def, simp add: buffer_skip_whitespace_def can_access_at_index_def)

lemma next_is_access: "next_is b c \<Longrightarrow> pb_offset b < length (pb_content b)"
  by (simp add: next_is_def can_access_at_index_def)

lemma progress_skip:
  assumes "progress (buffer_skip_whitespace (advance n b)) b'"
  shows "progress (advance n b) (buffer_skip_whitespace b')"
  using assms skip_ws_offset[of "advance n b"] skip_ws_offset[of b'] skip_ws_bound[of b'] by (auto simp: progress_def)

lemma progress_advance: "progress (advance 1 b) b' \<Longrightarrow> progress b b'"
  by (auto simp: progress_def)

lemma progress_trans: "progress b b1 \<Longrightarrow> progress b1 b2 \<Longrightarrow> progress b b2"
  by (auto simp: progress_def)

lemma progress_child: "progress (buffer_skip_whitespace (advance 1 b)) b' \<Longrightarrow> progress b (buffer_skip_whitespace b')"
  by (rule progress_advance, rule progress_skip)

lemma progress_container:
  assumes "progress (step_back (buffer_skip_whitespace (advance 1 (deeper b)))) b2" "next_is b2 c"
  shows "progress b (advance 1 (shallower b2))"
  using assms skip_ws_offset[of "advance 1 (deeper b)"] next_is_access[of b2 c] by (auto simp: progress_def)

lemma progress_empty:
  assumes "next_is (buffer_skip_whitespace (advance 1 (deeper b))) c"
  shows "progress b (advance 1 (shallower (buffer_skip_whitespace (advance 1 (deeper b)))))"
  using skip_ws_offset[of "advance 1 (deeper b)"] next_is_access[OF assms] by (auto simp: progress_def)

lemmas parse_pinduct = parse_value_parse_array_parse_object_parse_elements_parse_members.pinduct

lemma parse_progress_dom:
  "parse_value_parse_array_parse_object_parse_elements_parse_members_dom (Inl (Inl (item, b))) \<Longrightarrow>
     parse_value item b = Inr (Some x, b') \<Longrightarrow> progress b b'"
  "parse_value_parse_array_parse_object_parse_elements_parse_members_dom (Inl (Inr (item, b))) \<Longrightarrow>
     parse_array item b = Inr (Some x, b') \<Longrightarrow> progress b b'"
  "parse_value_parse_array_parse_object_parse_elements_parse_members_dom (Inr (Inl (item, b))) \<Longrightarrow>
     parse_object item b = Inr (Some x, b') \<Longrightarrow> progress b b'"
  "parse_value_parse_array_parse_object_parse_elements_parse_members_dom (Inr (Inr (Inl b))) \<Longrightarrow>
     parse_elements b = Inr (Some xs, b') \<Longrightarrow> progress b b'"
  "parse_value_parse_array_parse_object_parse_elements_parse_members_dom (Inr (Inr (Inr b))) \<Longrightarrow>
     parse_members b = Inr (Some xs, b') \<Longrightarrow> progress b b'"
proof (induction item b and item b and item b and b and b arbitrary: x b' and x b' and x b' and xs b' and xs b' rule: parse_pinduct)
  case (1 item b)
  show ?case
    using 1(4) unfolding parse_value.psimps[OF 1(1)]
    by (auto split: if_splits dest: 1(2,3) parse_string_progress parse_number_progress intro: reads_progress)
next
  case (2 item b)
  show ?case
    using 2(3) unfolding parse_array.psimps[OF 2(1)] Let_def
    by (auto simp: res_simps simp del: One_nat_def split: if_splits intro: progress_container progress_empty 2(2)[OF _ refl])
next
  case (3 item b)
  show ?case
    using 3(3) unfolding parse_object.psimps[OF 3(1)] Let_def
    by (auto simp: res_simps simp del: One_nat_def split: if_splits intro: progress_container progress_empty 3(2)[OF _ refl])
next
  case (4 b)
  let ?b1 = "buffer_skip_whitespace (advance 1 b)"
  obtain item b1 where v: "parse_value cJSON_New_Item ?b1 = Inr (Some item, b1)"
    using 4(4) unfolding parse_elements.psimps[OF 4(1)] and_then_Some by blast
  have p: "progress b (buffer_skip_whitespace b1)" by (rule progress_child[OF 4(2)[OF v]])
  show ?case
    using 4(4) 4(3)[OF v refl] p unfolding parse_elements.psimps[OF 4(1)] v
    by (auto simp: res_simps Let_def split: if_splits intro: progress_trans)
next
  case (5 b)
  let ?b1 = "buffer_skip_whitespace (advance 1 b)"
  obtain named b1 where n: "parse_string cJSON_New_Item ?b1 = Inr (Some named, b1)"
    using 5(4) unfolding parse_members.psimps[OF 5(1)] and_then_Some by blast
  let ?b2 = "buffer_skip_whitespace b1"
  have p: "progress b ?b2" by (rule progress_child[OF parse_string_progress[OF n]])
  obtain item b3 where c: "next_is ?b2 (CHR '':'')"
    and v: "parse_value (swap_name named) (buffer_skip_whitespace (advance 1 ?b2)) = Inr (Some item, b3)"
    using 5(4) unfolding parse_members.psimps[OF 5(1)] n by (auto simp: res_simps Let_def split: if_splits)
  have "progress ?b2 (buffer_skip_whitespace b3)" by (rule progress_child[OF 5(2)[OF n refl _ v]]) (simp add: c)
  then have p2: "progress b (buffer_skip_whitespace b3)" by (rule progress_trans[OF p])
  show ?case
    using 5(4) 5(3)[OF n refl _ v refl] c p2 unfolding parse_members.psimps[OF 5(1)] n and_then_simps Let_def
    by (auto simp: v[simplified] res_simps split: if_splits intro: progress_trans)
qed

definition bytes_left :: "parse_buffer \<Rightarrow> nat" where
  "bytes_left b = length (pb_content b) - pb_offset b"

lemma progress_bytes_left: "progress b b' \<Longrightarrow> bytes_left b' < bytes_left b"
  by (auto simp: progress_def bytes_left_def)

lemma skip_ws_bytes_left:
  "can_access_at_index (buffer_skip_whitespace (advance 1 b)) 0 \<Longrightarrow>
     bytes_left (buffer_skip_whitespace (advance 1 b)) < bytes_left b"
  using skip_ws_offset[of "advance 1 b"] by (auto simp: bytes_left_def can_access_at_index_def)

lemma step_back_bytes_left:
  assumes "can_access_at_index (buffer_skip_whitespace (advance 1 (deeper b))) 0"
  shows "bytes_left (step_back (buffer_skip_whitespace (advance 1 (deeper b)))) \<le> bytes_left b"
  using assms skip_ws_offset[of "advance 1 (deeper b)"] by (auto simp: bytes_left_def can_access_at_index_def)

lemma parse_terminates: "All parse_value_parse_array_parse_object_parse_elements_parse_members_dom"
proof -
  let ?m = "\<lambda>k b. 3 * bytes_left b + k"
  let ?M = "case_sum (case_sum (\<lambda>(item, b). if can_access_at_index b 0 then ?m 3 b else 0) (\<lambda>(item, b). ?m 2 b))
    (case_sum (\<lambda>(item, b). ?m 2 b) (case_sum (?m 1) (?m 1)))"
  note left = parse_progress_dom(1)[THEN progress_child, THEN progress_bytes_left]
    parse_string_progress[THEN progress_child, THEN progress_bytes_left]
  show ?thesis
  proof (relation "measure ?M", goal_cases)
    case (2 item b)
    then show ?case by (auto simp: next_is_def)
  next
    case (3 item b)
    then show ?case by (auto simp: next_is_def)
  next
    case (4 item b b1)
    then show ?case using step_back_bytes_left[of b] by simp
  next
    case (5 item b b1)
    then show ?case using step_back_bytes_left[of b] by simp
  next
    case (6 b)
    show ?case using skip_ws_bytes_left[of b] by auto
  next
    case (7 b item b1 b2)
    then show ?case by (auto simp del: One_nat_def dest!: left(1))
  next
    case (8 b named b1 b2)
    then show ?case using skip_ws_bytes_left[of b2] by (auto simp del: One_nat_def dest!: left(2))
  next
    case (9 b named b1 b2 item b3 b4)
    then show ?case by (auto simp del: One_nat_def dest!: left)
  qed simp
qed

termination parse_value
  by (rule parse_terminates)

declare parse_value.simps [simp del] parse_array.simps [simp del] parse_object.simps [simp del]
  parse_elements.simps [simp del] parse_members.simps [simp del]

lemmas parse_progress = parse_progress_dom[OF parse_terminates[THEN spec]]

section \<open>Entry points\<close>

definition error_position :: "parse_buffer \<Rightarrow> nat" where
  "error_position b =
     (if pb_offset b < length (pb_content b) then pb_offset b
      else if length (pb_content b) > 0 then length (pb_content b) - 1 else 0)"

text \<open>
  The item, or \<open>None\<close>, with the offset that is stored through \<open>return_parse_end\<close>, which on failure is also the position
  of the global error. The list holds exactly the \<open>buffer_length\<close> bytes.
\<close>

definition cJSON_ParseWithLengthOpts :: "string \<Rightarrow> bool \<Rightarrow> (cJSON option \<times> nat) res" where
  "cJSON_ParseWithLengthOpts bytes require_null_terminated =
     (if bytes = [] then Inr (None, 0)
      else let b = \<lparr>pb_content = bytes, pb_offset = 0, pb_depth = 0\<rparr>
           in case skip_utf8_bom b of
                None \<Rightarrow> Inr (None, error_position b)
              | Some b1 \<Rightarrow>
                  bind_res (parse_value cJSON_New_Item (buffer_skip_whitespace b1)) (\<lambda>(r, b2).
                    case r of
                      None \<Rightarrow> Inr (None, error_position b2)
                    | Some item \<Rightarrow>
                        if require_null_terminated
                        then let b3 = buffer_skip_whitespace b2
                             in if next_is b3 (CHR 0x00) then Inr (Some item, pb_offset b3)
                                else Inr (None, error_position b3)
                        else Inr (Some item, pb_offset b2)))"

text \<open>A C string is the list of its bytes without the terminating zero, which is part of the buffer.\<close>

definition cJSON_ParseWithOpts :: "string \<Rightarrow> bool \<Rightarrow> (cJSON option \<times> nat) res" where
  "cJSON_ParseWithOpts s require_null_terminated = cJSON_ParseWithLengthOpts (s @ [CHR 0x00]) require_null_terminated"

definition cJSON_Parse :: "string \<Rightarrow> cJSON option res" where
  "cJSON_Parse s = bind_res (cJSON_ParseWithOpts s False) (\<lambda>(r, e). Inr r)"

definition cJSON_ParseWithLength :: "string \<Rightarrow> cJSON option res" where
  "cJSON_ParseWithLength bytes = bind_res (cJSON_ParseWithLengthOpts bytes False) (\<lambda>(r, e). Inr r)"

section \<open>Safety\<close>

text \<open>The buffer of a C string ends in a zero byte, so no byte that is compared with success is the last one.\<close>

definition nul_terminated :: "parse_buffer \<Rightarrow> bool" where
  "nul_terminated b \<longleftrightarrow> pb_content b \<noteq> [] \<and> last (pb_content b) = CHR 0x00"

lemma next_is_not_last:
  assumes "nul_terminated b" "next_is b c" "c \<noteq> CHR 0x00"
  shows "can_access_at_index (advance 1 b) 0"
proof (rule ccontr)
  assume "\<not> can_access_at_index (advance 1 b) 0"
  then have "pb_offset b = length (pb_content b) - 1" using next_is_access[OF assms(2)] by (simp add: can_access_at_index_def)
  then have "c = last (pb_content b)"
    using assms(1,2) last_conv_nth[of "pb_content b"]
    by (simp add: next_is_def buffer_at_offset_def nul_terminated_def can_access_at_index_def)
  then show False using assms by (simp add: nul_terminated_def)
qed

lemma nul_terminated_cong: "pb_content b' = pb_content b \<Longrightarrow> nul_terminated b \<Longrightarrow> nul_terminated b'"
  by (simp add: nul_terminated_def)

lemma nul_terminated_moves [simp]:
  "nul_terminated (advance n b) = nul_terminated b" "nul_terminated (step_back b) = nul_terminated b"
  "nul_terminated (deeper b) = nul_terminated b" "nul_terminated (buffer_skip_whitespace b) = nul_terminated b"
  by (simp_all add: nul_terminated_def)

lemma nul_terminated_progress: "progress b b' \<Longrightarrow> nul_terminated b' = nul_terminated b"
  by (simp add: progress_def nul_terminated_def)

lemma parse_string_Inl: "parse_string item b = Inl e \<longleftrightarrow> \<not> can_access_at_index b 0 \<and> e = Out_of_bounds_read"
  by (auto simp: parse_string_def Let_def split: option.splits prod.splits)

lemma step_back_advance:
  "can_access_at_index (buffer_skip_whitespace (advance 1 (deeper b))) 0 \<Longrightarrow>
     can_access_at_index (advance 1 (step_back (buffer_skip_whitespace (advance 1 (deeper b))))) 0"
  using skip_ws_offset[of "advance 1 (deeper b)"] by (simp add: can_access_at_index_def)

lemma parse_safe:
  "nul_terminated b \<Longrightarrow> parse_value item b \<noteq> Inl e"
  "nul_terminated b \<Longrightarrow> parse_array item b \<noteq> Inl e"
  "nul_terminated b \<Longrightarrow> parse_object item b \<noteq> Inl e"
  "nul_terminated b \<Longrightarrow> parse_elements b \<noteq> Inl e"
  "nul_terminated b \<Longrightarrow> can_access_at_index (advance 1 b) 0 \<Longrightarrow> parse_members b \<noteq> Inl e"
proof (induction item b and item b and item b and b and b
    rule: parse_value_parse_array_parse_object_parse_elements_parse_members.induct)
  case (1 item b)
  then show ?case by (auto simp: parse_value.simps[of item b] parse_string_Inl next_is_def)
next
  case (2 item b)
  then show ?case by (auto simp: parse_array.simps[of item b] Let_def res_simps simp del: One_nat_def)
next
  case (3 item b)
  then show ?case
    by (auto simp: parse_object.simps[of item b] Let_def res_simps step_back_advance simp del: One_nat_def)
next
  case (4 b)
  show ?case
  proof
    assume "parse_elements b = Inl e"
    then obtain item b1 where v: "parse_value cJSON_New_Item (buffer_skip_whitespace (advance 1 b)) = Inr (Some item, b1)"
      and r: "next_is (buffer_skip_whitespace b1) (CHR '','')" "parse_elements (buffer_skip_whitespace b1) = Inl e"
      using 4 by (auto simp: parse_elements.simps[of b] Let_def res_simps simp del: One_nat_def split: if_splits)
    then show False using 4(2)[OF v refl r(1)] 4(3) nul_terminated_progress[OF progress_child[OF parse_progress(1)[OF v]]] by simp
  qed
next
  case (5 b)
  have a: "can_access_at_index (buffer_skip_whitespace (advance 1 b)) 0" using 5(4) by (rule skip_ws_access)
  show ?case
  proof
    assume "parse_members b = Inl e"
    then obtain named b1 where n: "parse_string cJSON_New_Item (buffer_skip_whitespace (advance 1 b)) = Inr (Some named, b1)"
      and c: "next_is (buffer_skip_whitespace b1) (CHR '':'')" and
      r: "and_then (parse_value (swap_name named) (buffer_skip_whitespace (advance 1 (buffer_skip_whitespace b1)))) (\<lambda>item b3.
                 let b4 = buffer_skip_whitespace b3
                 in if next_is b4 (CHR '','')
                    then and_then (parse_members b4) (\<lambda>items b5. Inr (Some (item # items), b5))
                    else Inr (Some [item], b4)) = Inl e"
      using a unfolding parse_members.simps[of b] by (auto simp: Let_def and_then_Inl parse_string_Inl simp del: One_nat_def split: if_splits)
    have nt: "nul_terminated (buffer_skip_whitespace b1)"
      using 5(3) nul_terminated_progress[OF progress_child[OF parse_string_progress[OF n]]] by simp
    then obtain item b3 where v: "parse_value (swap_name named) (buffer_skip_whitespace (advance 1 (buffer_skip_whitespace b1))) = Inr (Some item, b3)"
      and r: "next_is (buffer_skip_whitespace b3) (CHR '','')" "parse_members (buffer_skip_whitespace b3) = Inl e"
      using r 5(1)[OF n refl] c by (auto simp: Let_def and_then_Inl simp del: One_nat_def split: if_splits)
    have "nul_terminated (buffer_skip_whitespace b3)"
      using nt nul_terminated_progress[OF progress_child[OF parse_progress(1)[OF v]]] by simp
    then show False using 5(2)[OF n refl _ v refl r(1)] c next_is_not_last[OF _ r(1)] r(2) by simp
  qed
qed

lemma cJSON_ParseWithOpts_safe: "\<exists>r. cJSON_ParseWithOpts s rn = Inr r"
proof -
  let ?b = "\<lparr>pb_content = s @ [CHR 0x00], pb_offset = 0, pb_depth = 0\<rparr>"
  obtain b1 where b1: "skip_utf8_bom ?b = Some b1" "pb_content b1 = s @ [CHR 0x00]"
    by (cases "skip_utf8_bom ?b") (auto simp: skip_utf8_bom_def split: if_splits)
  then have "nul_terminated (buffer_skip_whitespace b1)" by (simp add: nul_terminated_def)
  then obtain r b2 where "parse_value cJSON_New_Item (buffer_skip_whitespace b1) = Inr (r, b2)"
    using parse_safe(1) by (metis sum.exhaust surj_pair)
  then show ?thesis using b1(1)
    by (cases r) (auto simp: cJSON_ParseWithOpts_def cJSON_ParseWithLengthOpts_def Let_def)
qed

section \<open>Types of parsed trees\<close>

fun json_nesting :: "cJSON \<Rightarrow> nat" where
  "json_nesting (CJSON ty vs vi vd st ch) =
     (if ty AND 0xFF = cJSON_Array \<or> ty AND 0xFF = cJSON_Object then Suc (foldr (\<lambda>c. max (json_nesting c)) ch 0) else 0)"

definition named :: "cJSON \<Rightarrow> bool" where
  "named c \<longleftrightarrow> (case cj_string c of None \<Rightarrow> False | Some s \<Rightarrow> CHR 0x00 \<notin> set s)"

text \<open>
  The type of a node determines its other fields: only a string has a text, only a number a value, only arrays and
  objects have children, and the children of an object, and only they, have names.
\<close>

fun json_typed :: "cJSON \<Rightarrow> bool" where
  "json_typed (CJSON ty vs vi vd st ch) \<longleftrightarrow>
     (if ty = cJSON_NULL \<or> ty = cJSON_False then vs = None \<and> vi = 0 \<and> vd = 0 \<and> ch = []
      else if ty = cJSON_True then vs = None \<and> vi = 1 \<and> vd = 0 \<and> ch = []
      else if ty = cJSON_Number then vs = None \<and> vi = saturate_int vd \<and> dbl_round vd = vd \<and> ch = []
      else if ty = cJSON_String
      then (case vs of None \<Rightarrow> False | Some s \<Rightarrow> CHR 0x00 \<notin> set s) \<and> vi = 0 \<and> vd = 0 \<and> ch = []
      else if ty = cJSON_Array
      then vs = None \<and> vi = 0 \<and> vd = 0 \<and> list_all (\<lambda>c. cj_string c = None \<and> json_typed c) ch
      else if ty = cJSON_Object
      then vs = None \<and> vi = 0 \<and> vd = 0 \<and> list_all (\<lambda>c. named c \<and> json_typed c) ch
      else False)"

text \<open>A freshly allocated node, possibly with its name.\<close>

definition blank :: "cJSON \<Rightarrow> bool" where
  "blank item \<longleftrightarrow> cj_valuestring item = None \<and> cj_valueint item = 0 \<and> cj_valuedouble item = 0 \<and> cj_child item = []"

lemma c_str_no_nul [simp]: "CHR 0x00 \<notin> set (c_str s)"
  unfolding c_str_def by (induction s) auto

lemma strtod_double: "dbl_round (fst (strtod s)) = fst (strtod s)"
  by (simp add: strtod_def Let_def dbl_round_def[of 0] split: prod.splits)

lemma parse_string_item:
  "parse_string item b = Inr (Some t, b') \<Longrightarrow> \<exists>s. t = set_string s item \<and> CHR 0x00 \<notin> set s"
  by (auto simp: parse_string_def Let_def split: if_splits option.splits prod.splits)

lemma parse_number_item:
  "parse_number item b = (Some t, b') \<Longrightarrow> \<exists>d. t = set_number d item \<and> dbl_round d = d"
  using strtod_double by (auto simp: parse_number_def Let_def split: if_splits prod.splits) (metis fst_conv)

lemma foldr_max_le: "foldr (\<lambda>c. max (f c)) cs 0 \<le> k \<longleftrightarrow> list_all (\<lambda>c. f c \<le> (k :: nat)) cs"
  by (induction cs) auto

lemma blank_children:
  assumes "blank item" "ty = cJSON_Array \<or> ty = cJSON_Object"
    "list_all (\<lambda>c. json_typed c \<and> json_nesting c + Suc d \<le> CJSON_NESTING_LIMIT) cs"
    "ty = cJSON_Array \<Longrightarrow> list_all (\<lambda>c. cj_string c = None) cs" "ty = cJSON_Object \<Longrightarrow> list_all named cs"
    "d < CJSON_NESTING_LIMIT"
  shows "json_typed (set_children ty cs item) \<and> json_nesting (set_children ty cs item) + d \<le> CJSON_NESTING_LIMIT"
proof -
  have "foldr (\<lambda>c. max (json_nesting c)) cs 0 \<le> CJSON_NESTING_LIMIT - Suc d"
    using assms(3) unfolding foldr_max_le by (auto simp: list_all_iff)
  then show ?thesis
    using assms by (cases item) (auto simp: blank_def cJSON_types list_all_iff)
qed

lemma parse_typed:
  "blank item \<Longrightarrow> pb_depth b \<le> CJSON_NESTING_LIMIT \<Longrightarrow> parse_value item b = Inr (Some t, b') \<Longrightarrow>
     json_typed t \<and> json_nesting t + pb_depth b \<le> CJSON_NESTING_LIMIT \<and> cj_string t = cj_string item"
  "blank item \<Longrightarrow> parse_array item b = Inr (Some t, b') \<Longrightarrow>
     json_typed t \<and> json_nesting t + pb_depth b \<le> CJSON_NESTING_LIMIT \<and> cj_string t = cj_string item"
  "blank item \<Longrightarrow> parse_object item b = Inr (Some t, b') \<Longrightarrow>
     json_typed t \<and> json_nesting t + pb_depth b \<le> CJSON_NESTING_LIMIT \<and> cj_string t = cj_string item"
  "pb_depth b \<le> CJSON_NESTING_LIMIT \<Longrightarrow> parse_elements b = Inr (Some ts, b') \<Longrightarrow>
     list_all (\<lambda>c. cj_string c = None \<and> json_typed c \<and> json_nesting c + pb_depth b \<le> CJSON_NESTING_LIMIT) ts"
  "pb_depth b \<le> CJSON_NESTING_LIMIT \<Longrightarrow> parse_members b = Inr (Some ts, b') \<Longrightarrow>
     list_all (\<lambda>c. named c \<and> json_typed c \<and> json_nesting c + pb_depth b \<le> CJSON_NESTING_LIMIT) ts"
proof (induction item b and item b and item b and b and b arbitrary: t b' and t b' and t b' and ts b' and ts b'
    rule: parse_value_parse_array_parse_object_parse_elements_parse_members.induct)
  case (1 item b)
  have s: "json_typed (set_string s item) \<and> json_nesting (set_string s item) = 0 \<and> cj_string (set_string s item) = cj_string item"
    if "CHR 0x00 \<notin> set s" for s using that 1(3) by (cases item) (auto simp: blank_def cJSON_types)
  have n: "json_typed (set_number d item) \<and> json_nesting (set_number d item) = 0 \<and> cj_string (set_number d item) = cj_string item"
    if "dbl_round d = d" for d using that 1(3) by (cases item) (auto simp: blank_def cJSON_types)
  have t: "json_typed (set_true item) \<and> json_nesting (set_true item) = 0 \<and> cj_string (set_true item) = cj_string item"
    "json_typed (set_type cJSON_NULL item) \<and> json_nesting (set_type cJSON_NULL item) = 0 \<and> cj_string (set_type cJSON_NULL item) = cj_string item"
    "json_typed (set_type cJSON_False item) \<and> json_nesting (set_type cJSON_False item) = 0 \<and> cj_string (set_type cJSON_False item) = cj_string item"
    using 1(3) by (cases item; auto simp: blank_def cJSON_types)+
  show ?case
    using 1(5) 1(1)[OF _ _ _ _ _ _ 1(3)] 1(2)[OF _ _ _ _ _ _ _ 1(3)] 1(4) t unfolding parse_value.simps[of item b]
    by (auto split: if_splits dest!: parse_string_item parse_number_item simp: s n)
next
  case (2 item b)
  let ?b1 = "buffer_skip_whitespace (advance 1 (deeper b))"
  obtain ts where t: "t = set_children cJSON_Array ts item" "\<not> CJSON_NESTING_LIMIT \<le> pb_depth b"
    and c: "ts = [] \<or> \<not> next_is ?b1 (CHR '']'') \<and> can_access_at_index ?b1 0 \<and> (\<exists>b2. parse_elements (step_back ?b1) = Inr (Some ts, b2))"
    using 2(3) by (auto simp: parse_array.simps[of item b] Let_def res_simps simp del: One_nat_def split: if_splits)
  have "list_all (\<lambda>c. cj_string c = None \<and> json_typed c \<and> json_nesting c + Suc (pb_depth b) \<le> CJSON_NESTING_LIMIT) ts"
    using c 2(1)[OF t(2) refl] t(2) by auto
  then show ?case using blank_children[OF 2(2), of cJSON_Array "pb_depth b" ts] t
    by (cases item) (auto simp: list_all_iff cJSON_types)
next
  case (3 item b)
  let ?b1 = "buffer_skip_whitespace (advance 1 (deeper b))"
  obtain ts where t: "t = set_children cJSON_Object ts item" "\<not> CJSON_NESTING_LIMIT \<le> pb_depth b"
    and c: "ts = [] \<or> \<not> next_is ?b1 (CHR ''}'') \<and> can_access_at_index ?b1 0 \<and> (\<exists>b2. parse_members (step_back ?b1) = Inr (Some ts, b2))"
    using 3(3) by (auto simp: parse_object.simps[of item b] Let_def res_simps simp del: One_nat_def split: if_splits)
  have "list_all (\<lambda>c. named c \<and> json_typed c \<and> json_nesting c + Suc (pb_depth b) \<le> CJSON_NESTING_LIMIT) ts"
    using c 3(1)[OF t(2) refl] t(2) by auto
  then show ?case using blank_children[OF 3(2), of cJSON_Object "pb_depth b" ts] t
    by (cases item) (auto simp: list_all_iff cJSON_types)
next
  case (4 b)
  obtain item b1 where v: "parse_value cJSON_New_Item (buffer_skip_whitespace (advance 1 b)) = Inr (Some item, b1)"
    using 4(4) unfolding parse_elements.simps[of b] and_then_Some by blast
  have i: "cj_string item = None \<and> json_typed item \<and> json_nesting item + pb_depth b \<le> CJSON_NESTING_LIMIT"
    using 4(1)[OF _ _ v] 4(3) by (simp add: blank_def cJSON_New_Item_def)
  have d: "pb_depth (buffer_skip_whitespace b1) = pb_depth b"
    using progress_child[OF parse_progress(1)[OF v]] by (simp add: progress_def)
  show ?case using 4(4) 4(2)[OF v refl] 4(3) i d unfolding parse_elements.simps[of b] v
    by (auto simp: Let_def res_simps split: if_splits)
next
  case (5 b)
  obtain nm b1 where n: "parse_string cJSON_New_Item (buffer_skip_whitespace (advance 1 b)) = Inr (Some nm, b1)"
    using 5(4) unfolding parse_members.simps[of b] and_then_Some by blast
  let ?b2 = "buffer_skip_whitespace b1"
  obtain item b3 where c: "next_is ?b2 (CHR '':'')"
    and v: "parse_value (swap_name nm) (buffer_skip_whitespace (advance 1 ?b2)) = Inr (Some item, b3)"
    using 5(4) unfolding parse_members.simps[of b] n by (auto simp: res_simps Let_def split: if_splits)
  have d: "pb_depth ?b2 = pb_depth b" "pb_depth (buffer_skip_whitespace b3) = pb_depth b"
    using progress_child[OF parse_progress(1)[OF v]] progress_child[OF parse_string_progress[OF n]] by (simp_all add: progress_def)
  obtain s where s: "nm = set_string s cJSON_New_Item" "CHR 0x00 \<notin> set s" using parse_string_item[OF n] by blast
  then have "blank (swap_name nm)" "cj_string (swap_name nm) = Some s" by (simp_all add: blank_def cJSON_New_Item_def)
  then have i: "named item \<and> json_typed item \<and> json_nesting item + pb_depth b \<le> CJSON_NESTING_LIMIT"
    using 5(1)[OF n refl _ _ _ v] c 5(3) d s(2) by (simp add: named_def)
  show ?case using 5(4) 5(2)[OF n refl _ v refl] 5(3) i d c unfolding parse_members.simps[of b] n and_then_simps Let_def
    by (auto simp: v[simplified] res_simps split: if_splits)
qed

end
