(* ===== verification/CJsonPrint.thy ===== *)
theory CJsonPrint
  imports CJsonParse
begin

text \<open>
  The printer of \<open>component/cJSON/cJSON.c\<close>: the growing output buffer, strings with their escape sequences, numbers,
  and the recursive functions for values, arrays and objects, both formatted and unformatted. A write past the
  buffer is a fault. The lemmas show that it never happens, that the output is a reference text of the tree, and
  that the parser reads the text back.
\<close>

section \<open>The output buffer\<close>

text \<open>
  The text written so far (its length is the offset), the size of the allocated buffer, the nesting depth, and the two
  options. \<open>update_offset\<close> is part of every write: the offset always stands behind the text.
\<close>

record printbuffer =
  pr_text :: string
  pr_length :: int
  pr_depth :: nat
  pr_noalloc :: bool
  pr_format :: bool

definition INT_MAX :: int where
  "INT_MAX = 2147483647"

definition ensure :: "int \<Rightarrow> printbuffer \<Rightarrow> printbuffer option" where
  "ensure needed p =
     (let offset = int (length (pr_text p)); total = needed + offset + 1
      in if pr_length p > 0 \<and> offset \<ge> pr_length p then None
         else if needed > INT_MAX then None
         else if total \<le> pr_length p then Some p
         else if pr_noalloc p then None
         else if total > INT_MAX div 2
         then (if total \<le> INT_MAX then Some (p\<lparr>pr_length := INT_MAX\<rparr>) else None)
         else Some (p\<lparr>pr_length := total * 2\<rparr>))"

text \<open>A write of a text and a terminating zero after \<open>ensure\<close>; \<open>Inr None\<close> is the failed function.\<close>

definition put :: "int \<Rightarrow> string \<Rightarrow> printbuffer \<Rightarrow> printbuffer option res" where
  "put needed s p =
     (case ensure needed p of
        None \<Rightarrow> Inr None
      | Some q \<Rightarrow>
          if int (length (pr_text q) + length s) < pr_length q then Inr (Some (q\<lparr>pr_text := pr_text q @ s\<rparr>))
          else Inl Buffer_overflow)"

definition bind_print :: "printbuffer option res \<Rightarrow> (printbuffer \<Rightarrow> printbuffer option res) \<Rightarrow> printbuffer option res" where
  "bind_print r f = bind_res r (\<lambda>x. case x of None \<Rightarrow> Inr None | Some p \<Rightarrow> f p)"

lemma bind_print_simps [simp]:
  "bind_print (Inl e) f = Inl e" "bind_print (Inr None) f = Inr None" "bind_print (Inr (Some p)) f = f p"
  by (simp_all add: bind_print_def)

lemma bind_print_cong [fundef_cong]:
  assumes "r = r'" "\<And>p. r' = Inr (Some p) \<Longrightarrow> f p = g p"
  shows "bind_print r f = bind_print r' g"
  using assms by (auto simp: bind_print_def intro!: bind_res_cong split: option.split)

section \<open>Strings and numbers\<close>

definition hex_char :: "nat \<Rightarrow> char" where
  "hex_char n = (if n < 10 then char_of (48 + n) else char_of (87 + n))"

definition escape_char :: "char \<Rightarrow> string" where
  "escape_char c =
     (if (of_char c :: nat) > 31 \<and> c \<noteq> CHR 0x22 \<and> c \<noteq> CHR 0x5C then [c]
      else CHR 0x5C #
        (if c = CHR 0x5C then [CHR 0x5C] else if c = CHR 0x22 then [CHR 0x22]
         else if c = CHR 0x08 then ''b'' else if c = CHR 0x0C then ''f''
         else if c = CHR 0x0A then ''n'' else if c = CHR 0x0D then ''r''
         else if c = CHR 0x09 then ''t''
         else ''u00'' @ [hex_char (of_char c div 16), hex_char (of_char c mod 16)]))"

definition escape :: "string \<Rightarrow> string" where
  "escape s = concat (map escape_char s)"

text \<open>The bytes that the first loop of \<open>print_string_ptr\<close> counts for the escape sequences.\<close>

definition extra_bytes :: "char \<Rightarrow> nat" where
  "extra_bytes c =
     (if c = CHR 0x22 \<or> c = CHR 0x5C \<or> c = CHR 0x08 \<or> c = CHR 0x0C \<or> c = CHR 0x0A \<or> c = CHR 0x0D \<or> c = CHR 0x09
      then 1 else if (of_char c :: nat) < 32 then 5 else 0)"

definition quoted :: "string \<Rightarrow> string" where
  "quoted s = CHR 0x22 # escape s @ [CHR 0x22]"

definition print_string_ptr :: "string option \<Rightarrow> printbuffer \<Rightarrow> printbuffer option res" where
  "print_string_ptr input p =
     (case input of
        None \<Rightarrow> put 3 [CHR 0x22, CHR 0x22] p
      | Some s \<Rightarrow> put (int (length s + sum_list (map extra_bytes s) + 3)) (quoted s) p)"

text \<open>
  Fifteen digits when they lead back to the number, else seventeen. The library's \<open>sscanf("%lg")\<close> reads like \<open>strtod\<close>,
  and the decimal point of the C locale is the one of JSON.
\<close>

definition number_text :: "dbl \<Rightarrow> string" where
  "number_text d = (let s = sprintf_g 15 d in if compare_double (fst (strtod s)) d then s else sprintf_g 17 d)"

definition print_number :: "dbl \<Rightarrow> printbuffer \<Rightarrow> printbuffer option res" where
  "print_number d p =
     (let s = number_text d in if length s > 25 then Inr None else put (int (length s) + 1) s p)"

section \<open>Values\<close>

definition tabs :: "nat \<Rightarrow> string" where
  "tabs n = replicate n (CHR 0x09)"

definition comma_text :: "bool \<Rightarrow> string" where
  "comma_text fmt = (if fmt then '', '' else '','')"

definition open_text :: "bool \<Rightarrow> string" where
  "open_text fmt = (if fmt then [CHR ''{'', CHR 0x0A] else ''{'')"

definition colon_text :: "bool \<Rightarrow> string" where
  "colon_text fmt = (if fmt then [CHR '':'', CHR 0x09] else '':'')"

text \<open>What follows a member: a comma unless it is the last one, and a new line in formatted output.\<close>

definition member_end :: "bool \<Rightarrow> bool \<Rightarrow> string" where
  "member_end fmt follows = (if follows then '','' else []) @ (if fmt then [CHR 0x0A] else [])"

function (sequential)
  print_value :: "cJSON \<Rightarrow> printbuffer \<Rightarrow> printbuffer option res" and
  print_array :: "cJSON \<Rightarrow> printbuffer \<Rightarrow> printbuffer option res" and
  print_object :: "cJSON \<Rightarrow> printbuffer \<Rightarrow> printbuffer option res" and
  print_elements :: "cJSON list \<Rightarrow> printbuffer \<Rightarrow> printbuffer option res" and
  print_members :: "cJSON list \<Rightarrow> printbuffer \<Rightarrow> printbuffer option res"
where
  "print_value item p =
     (let ty = cj_type item AND 0xFF
      in if ty = cJSON_NULL then put 5 ''null'' p
         else if ty = cJSON_False then put 6 ''false'' p
         else if ty = cJSON_True then put 5 ''true'' p
         else if ty = cJSON_Number then print_number (cj_valuedouble item) p
         else if ty = cJSON_Raw
         then (case cj_valuestring item of None \<Rightarrow> Inr None | Some s \<Rightarrow> put (int (length s) + 1) s p)
         else if ty = cJSON_String then print_string_ptr (cj_valuestring item) p
         else if ty = cJSON_Array then print_array item p
         else if ty = cJSON_Object then print_object item p
         else Inr None)"
| "print_array item p =
     bind_print (put 1 ''['' p) (\<lambda>p1.
     bind_print (print_elements (cj_child item) (p1\<lparr>pr_depth := pr_depth p1 + 1\<rparr>)) (\<lambda>p2.
     bind_print (put 2 '']'' p2) (\<lambda>p3. Inr (Some (p3\<lparr>pr_depth := pr_depth p3 - 1\<rparr>)))))"
| "print_object item p =
     bind_print (put (int (length (open_text (pr_format p))) + 1) (open_text (pr_format p)) p) (\<lambda>p1.
     bind_print (print_members (cj_child item) (p1\<lparr>pr_depth := pr_depth p1 + 1\<rparr>)) (\<lambda>p2.
     bind_print
       (put (if pr_format p2 then int (pr_depth p2) + 1 else 2) ((if pr_format p2 then tabs (pr_depth p2 - 1) else []) @ ''}'') p2)
       (\<lambda>p3. Inr (Some (p3\<lparr>pr_depth := pr_depth p3 - 1\<rparr>)))))"
| "print_elements [] p = Inr (Some p)"
| "print_elements (c # cs) p =
     bind_print (print_value c p) (\<lambda>p1.
       if cs = [] then print_elements cs p1
       else bind_print (put (int (length (comma_text (pr_format p1))) + 1) (comma_text (pr_format p1)) p1) (print_elements cs))"
| "print_members [] p = Inr (Some p)"
| "print_members (c # cs) p =
     bind_print (if pr_format p then put (int (pr_depth p)) (tabs (pr_depth p)) p else Inr (Some p)) (\<lambda>p1.
     bind_print (print_string_ptr (cj_string c) p1) (\<lambda>p2.
     bind_print (put (int (length (colon_text (pr_format p2)))) (colon_text (pr_format p2)) p2) (\<lambda>p3.
     bind_print (print_value c p3) (\<lambda>p4.
     bind_print (put (int (length (member_end (pr_format p4) (cs \<noteq> []))) + 1) (member_end (pr_format p4) (cs \<noteq> [])) p4)
       (print_members cs)))))"
  by pat_completeness auto

lemma size_children: "3 * size_list size (cj_child item) < Suc (3 * size item)"
  by (cases item) simp

termination print_value
  by (relation "measure (case_sum (case_sum (\<lambda>(i, p). 3 * size i + 2) (\<lambda>(i, p). 3 * size i + 1))
      (case_sum (\<lambda>(i, p). 3 * size i + 1) (case_sum (\<lambda>(cs, p). 3 * size_list size cs) (\<lambda>(cs, p). 3 * size_list size cs))))")
    (simp_all add: size_children)

declare print_value.simps [simp del] print_array.simps [simp del] print_object.simps [simp del]

section \<open>Entry points\<close>

text \<open>The buffer is 256 bytes at first; the text is moved to a block of its size at the end.\<close>

definition print :: "cJSON \<Rightarrow> bool \<Rightarrow> string option res" where
  "print item fmt =
     bind_res (print_value item \<lparr>pr_text = [], pr_length = 256, pr_depth = 0, pr_noalloc = False, pr_format = fmt\<rparr>)
       (\<lambda>r. Inr (map_option pr_text r))"

definition cJSON_Print :: "cJSON \<Rightarrow> string option res" where
  "cJSON_Print item = print item True"

definition cJSON_PrintUnformatted :: "cJSON \<Rightarrow> string option res" where
  "cJSON_PrintUnformatted item = print item False"

definition cJSON_PrintBuffered :: "cJSON \<Rightarrow> int \<Rightarrow> bool \<Rightarrow> string option res" where
  "cJSON_PrintBuffered item prebuffer fmt =
     (if prebuffer < 0 then Inr None
      else bind_res
             (print_value item
                \<lparr>pr_text = [], pr_length = prebuffer, pr_depth = 0, pr_noalloc = False, pr_format = fmt\<rparr>)
             (\<lambda>r. Inr (map_option pr_text r)))"

text \<open>The text that the caller's array holds afterwards when the function returns true.\<close>

definition cJSON_PrintPreallocated :: "cJSON \<Rightarrow> int \<Rightarrow> bool \<Rightarrow> string option res" where
  "cJSON_PrintPreallocated item len fmt =
     (if len < 0 then Inr None
      else bind_res
             (print_value item \<lparr>pr_text = [], pr_length = len, pr_depth = 0, pr_noalloc = True, pr_format = fmt\<rparr>)
             (\<lambda>r. Inr (map_option pr_text r)))"

section \<open>Writes stay inside the buffer\<close>

lemma ensure_spec:
  assumes "ensure needed p = Some q" "0 \<le> needed"
  shows "needed + int (length (pr_text p)) < pr_length q" "pr_text q = pr_text p" "pr_depth q = pr_depth p"
    "pr_format q = pr_format p" "pr_noalloc q = pr_noalloc p" "pr_noalloc p \<Longrightarrow> q = p"
  using assms by (auto simp: ensure_def Let_def INT_MAX_def split: if_splits)

lemma put_safe: "int (length s) \<le> needed \<Longrightarrow> put needed s p \<noteq> Inl e"
proof (cases "ensure needed p")
  case (Some q)
  assume "int (length s) \<le> needed"
  then show ?thesis using ensure_spec(1,2)[OF Some] by (simp add: put_def Some)
qed (simp add: put_def)

lemma bind_print_Inl: "bind_print r f = Inl e \<longleftrightarrow> r = Inl e \<or> (\<exists>p. r = Inr (Some p) \<and> f p = Inl e)"
  by (auto simp: bind_print_def bind_res_eq_Inl split: option.splits)

lemma escape_length: "length (escape s) = length s + sum_list (map extra_bytes s)"
proof -
  have "length (escape_char c) = Suc (extra_bytes c)" for c
  proof (cases "c \<in> {CHR 0x22, CHR 0x5C, CHR 0x08, CHR 0x0C, CHR 0x0A, CHR 0x0D, CHR 0x09}")
    case True
    then show ?thesis by (auto simp: escape_char_def extra_bytes_def)
  next
    case False
    then show ?thesis by (auto simp: escape_char_def extra_bytes_def)
  qed
  then show ?thesis by (induction s) (simp_all add: escape_def)
qed

lemma print_string_safe: "print_string_ptr v p \<noteq> Inl e"
  by (auto simp: print_string_ptr_def quoted_def escape_length put_safe split: option.splits)

lemma print_number_safe: "print_number d p \<noteq> Inl e"
  by (auto simp: print_number_def Let_def put_safe)

lemma print_safe:
  "print_value item p \<noteq> Inl e" "print_array item p \<noteq> Inl e" "print_object item p \<noteq> Inl e"
  "print_elements items p \<noteq> Inl e" "print_members items p \<noteq> Inl e"
proof (induction item p and item p and item p and items p and items p
    rule: print_value_print_array_print_object_print_elements_print_members.induct)
  case (1 item p)
  then show ?case
    by (auto simp: print_value.simps[of item p] Let_def put_safe print_string_safe print_number_safe split: option.splits)
next
  case (2 item p)
  then show ?case by (auto simp: print_array.simps[of item p] bind_print_Inl put_safe)
next
  case (3 item p)
  then show ?case by (auto simp: print_object.simps[of item p] bind_print_Inl put_safe tabs_def)
next
  case (5 c cs p)
  then show ?case by (auto simp: bind_print_Inl put_safe split: if_splits)
next
  case (7 c cs p)
  then show ?case by (auto simp: bind_print_Inl put_safe print_string_safe tabs_def split: if_splits)
qed simp_all

section \<open>The printed text\<close>

text \<open>The text of a tree, without a buffer: \<open>f\<close> chooses the formatted output, \<open>d\<close> is the nesting depth.\<close>

definition text_of :: "string option \<Rightarrow> string" where
  "text_of v = (case v of None \<Rightarrow> [] | Some s \<Rightarrow> s)"

fun json_text :: "bool \<Rightarrow> nat \<Rightarrow> cJSON \<Rightarrow> string" and
  elements_text :: "bool \<Rightarrow> nat \<Rightarrow> cJSON list \<Rightarrow> string" and
  members_text :: "bool \<Rightarrow> nat \<Rightarrow> cJSON list \<Rightarrow> string"
where
  "json_text f d (CJSON ty vs vi vd st ch) =
     (let k = ty AND 0xFF
      in if k = cJSON_NULL then ''null'' else if k = cJSON_False then ''false''
         else if k = cJSON_True then ''true'' else if k = cJSON_Number then number_text vd
         else if k = cJSON_Raw then text_of vs else if k = cJSON_String then quoted (text_of vs)
         else if k = cJSON_Array then ''['' @ elements_text f (Suc d) ch @ '']''
         else if k = cJSON_Object
         then open_text f @ members_text f (Suc d) ch @ (if f then tabs d else []) @ ''}''
         else [])"
| "elements_text f d [] = []"
| "elements_text f d (c # cs) = json_text f d c @ (if cs = [] then [] else comma_text f @ elements_text f d cs)"
| "members_text f d [] = []"
| "members_text f d (c # cs) =
     (if f then tabs d else []) @ quoted (text_of (cj_string c)) @ colon_text f @ json_text f d c @
     member_end f (cs \<noteq> []) @ members_text f d cs"

text \<open>The trees the printer accepts.\<close>

fun printable :: "cJSON \<Rightarrow> bool" where
  "printable (CJSON ty vs vi vd st ch) \<longleftrightarrow>
     (let k = ty AND 0xFF
      in if k = cJSON_NULL \<or> k = cJSON_False \<or> k = cJSON_True \<or> k = cJSON_String then True
         else if k = cJSON_Number then length (number_text vd) \<le> 25
         else if k = cJSON_Raw then vs \<noteq> None
         else (k = cJSON_Array \<or> k = cJSON_Object) \<and> list_all printable ch)"

definition fits :: "printbuffer \<Rightarrow> string \<Rightarrow> bool" where
  "fits p s \<longleftrightarrow> \<not> pr_noalloc p \<and> int (length (pr_text p)) < pr_length p \<and> int (length (pr_text p @ s)) + 3 \<le> INT_MAX"

definition printed :: "printbuffer \<Rightarrow> string \<Rightarrow> printbuffer option res \<Rightarrow> bool" where
  "printed p s r \<longleftrightarrow> (\<exists>l. r = Inr (Some (p\<lparr>pr_text := pr_text p @ s, pr_length := l\<rparr>)) \<and> int (length (pr_text p @ s)) < l)"

lemma put_printed:
  assumes "fits p s" "int (length s) \<le> needed" "needed \<le> int (length s) + 1"
  shows "printed p s (put needed s p)"
proof -
  have "\<exists>l. ensure needed p = Some (p\<lparr>pr_length := l\<rparr>)"
    using assms unfolding fits_def ensure_def Let_def INT_MAX_def by (auto intro: exI[of _ "pr_length p"])
  then obtain l where l: "ensure needed p = Some (p\<lparr>pr_length := l\<rparr>)" by blast
  then have "needed + int (length (pr_text p)) < l" using ensure_spec(1)[OF l] assms(2) by simp
  then show ?thesis using assms(2) by (auto simp: put_def l printed_def intro!: exI[of _ l])
qed

lemma printed_bind:
  assumes "printed p s r" "fits p (s @ t)"
    "\<And>l. fits (p\<lparr>pr_text := pr_text p @ s, pr_length := l\<rparr>) t \<Longrightarrow>
       printed (p\<lparr>pr_text := pr_text p @ s, pr_length := l\<rparr>) t (f (p\<lparr>pr_text := pr_text p @ s, pr_length := l\<rparr>))"
  shows "printed p (s @ t) (bind_print r f)"
proof -
  obtain l where l: "r = Inr (Some (p\<lparr>pr_text := pr_text p @ s, pr_length := l\<rparr>))" "int (length (pr_text p @ s)) < l"
    using assms(1) by (auto simp: printed_def)
  then have "fits (p\<lparr>pr_text := pr_text p @ s, pr_length := l\<rparr>) t" using assms(2) by (simp add: fits_def)
  from assms(3)[OF this] show ?thesis by (simp add: l(1) printed_def)
qed

lemma fits_prefix: "fits p (s @ t) \<Longrightarrow> fits p s"
  by (simp add: fits_def)

lemma fits_depth [simp]: "fits (p\<lparr>pr_depth := d\<rparr>) s = fits p s"
  by (simp add: fits_def)

lemma printed_nil: "int (length (pr_text p)) < pr_length p \<Longrightarrow> printed p [] (Inr (Some p))"
  unfolding printed_def by (rule exI[of _ "pr_length p"]) simp

lemma quoted_length: "length (quoted s) = length s + sum_list (map extra_bytes s) + 2"
  by (simp add: quoted_def escape_length)

lemma print_string_printed: "fits p (quoted (text_of v)) \<Longrightarrow> printed p (quoted (text_of v)) (print_string_ptr v p)"
proof (cases v)
  case None
  assume "fits p (quoted (text_of v))"
  then show ?thesis using put_printed[of p "[CHR 0x22, CHR 0x22]" 3]
    by (simp add: None print_string_ptr_def text_of_def quoted_def escape_def)
next
  case (Some s)
  assume "fits p (quoted (text_of v))"
  then show ?thesis unfolding print_string_ptr_def Some option.case text_of_def
    by (intro put_printed) (simp_all add: quoted_length)
qed

text \<open>A container: the depth is one higher between the brackets.\<close>

lemma printed_nested:
  assumes "fits p (a @ s @ c)" "printed p a r"
    "\<And>q. fits q s \<Longrightarrow> pr_format q = pr_format p \<Longrightarrow> pr_depth q = Suc (pr_depth p) \<Longrightarrow> printed q s (g q)"
    "\<And>q. fits q c \<Longrightarrow> pr_format q = pr_format p \<Longrightarrow> pr_depth q = Suc (pr_depth p) \<Longrightarrow> printed q c (h q)"
  shows "printed p (a @ s @ c)
    (bind_print r (\<lambda>p1. bind_print (g (p1\<lparr>pr_depth := pr_depth p1 + 1\<rparr>)) (\<lambda>p2.
       bind_print (h p2) (\<lambda>p3. Inr (Some (p3\<lparr>pr_depth := pr_depth p3 - 1\<rparr>))))))"
proof (rule printed_bind[OF assms(2,1)])
  fix l
  let ?p1 = "p\<lparr>pr_text := pr_text p @ a, pr_length := l\<rparr>"
  let ?q = "?p1\<lparr>pr_depth := pr_depth ?p1 + 1\<rparr>"
  assume "fits ?p1 (s @ c)"
  then have f: "fits ?q (s @ c)" by simp
  have "printed ?q (s @ c) (bind_print (g ?q) h)"
    by (rule printed_bind[OF assms(3)[OF fits_prefix[OF f]] f]) (auto intro: assms(4))
  then obtain l2 where l2: "bind_print (g ?q) h = Inr (Some (?q\<lparr>pr_text := pr_text ?q @ s @ c, pr_length := l2\<rparr>))"
    "int (length (pr_text ?q @ s @ c)) < l2" by (auto simp: printed_def)
  have "bind_print (g ?q) (\<lambda>p2. bind_print (h p2) (\<lambda>p3. Inr (Some (p3\<lparr>pr_depth := pr_depth p3 - 1\<rparr>)))) =
      bind_print (bind_print (g ?q) h) (\<lambda>p3. Inr (Some (p3\<lparr>pr_depth := pr_depth p3 - 1\<rparr>)))"
    by (auto simp: bind_print_def bind_res_def split: sum.split option.split)
  then show "printed ?p1 (s @ c) (bind_print (g (?p1\<lparr>pr_depth := pr_depth ?p1 + 1\<rparr>)) (\<lambda>p2.
      bind_print (h p2) (\<lambda>p3. Inr (Some (p3\<lparr>pr_depth := pr_depth p3 - 1\<rparr>)))))"
    using l2 by (auto simp: printed_def intro!: exI[of _ l2])
qed

lemma print_printed:
  "printable item \<Longrightarrow> fits p (json_text f d item) \<Longrightarrow> pr_format p = f \<Longrightarrow> pr_depth p = d \<Longrightarrow>
     printed p (json_text f d item) (print_value item p)"
  "list_all printable cs \<Longrightarrow> fits p (elements_text f d cs) \<Longrightarrow> pr_format p = f \<Longrightarrow> pr_depth p = d \<Longrightarrow>
     printed p (elements_text f d cs) (print_elements cs p)"
  "list_all printable cs \<Longrightarrow> fits p (members_text f d cs) \<Longrightarrow> pr_format p = f \<Longrightarrow> pr_depth p = d \<Longrightarrow>
     printed p (members_text f d cs) (print_members cs p)"
proof (induction f d item and f d cs and f d cs arbitrary: p and p and p rule: json_text_elements_text_members_text.induct)
  case (1 f d ty vs vi vd st ch)
  let ?k = "ty AND 0xFF" and ?i = "CJSON ty vs vi vd st ch"
  consider "?k = cJSON_NULL" | "?k = cJSON_False" | "?k = cJSON_True" | "?k = cJSON_Number" | "?k = cJSON_Raw"
    | (str) "?k = cJSON_String" | (arr) "?k = cJSON_Array" | (obj) "?k = cJSON_Object"
    using 1(3) by (auto simp: Let_def split: if_splits)
  then show ?case
  proof cases
    case str
    then show ?thesis using 1(4) print_string_printed[of p vs] by (simp add: print_value.simps cJSON_types)
  next
    case arr
    have t: "json_text f d ?i = ''['' @ elements_text f (Suc d) ch @ '']''" by (simp add: arr cJSON_types)
    have v: "print_value ?i p = print_array ?i p" by (simp add: print_value.simps arr cJSON_types)
    have ch: "list_all printable ch" using 1(3) by (simp add: arr cJSON_types)
    have ft: "fits p (''['' @ elements_text f (Suc d) ch @ '']'')" using 1(4) unfolding t .
    show ?thesis unfolding t v print_array.simps cJSON.sel
      by (rule printed_nested[OF ft]) (use 1 ch arr fits_prefix[OF ft] in \<open>auto intro!: put_printed simp: cJSON_types\<close>)
  next
    case obj
    let ?c = "(if f then tabs d else []) @ ''}''"
    have t: "json_text f d ?i = open_text f @ members_text f (Suc d) ch @ ?c" by (simp add: obj cJSON_types)
    have v: "print_value ?i p = print_object ?i p" by (simp add: print_value.simps obj cJSON_types)
    have ch: "list_all printable ch" using 1(3) by (simp add: obj cJSON_types)
    have ft: "fits p (open_text f @ members_text f (Suc d) ch @ ?c)" using 1(4) unfolding t .
    have c: "printed q ?c (put (if pr_format q then int (pr_depth q) + 1 else 2)
        ((if pr_format q then tabs (pr_depth q - 1) else []) @ ''}'') q)"
      if "fits q ?c" "pr_format q = f" "pr_depth q = Suc d" for q
      using that put_printed[OF that(1), of "if f then int (Suc d) + 1 else 2"] by (cases f) (simp_all add: tabs_def)
    show ?thesis unfolding t v print_object.simps cJSON.sel
      by (rule printed_nested[OF ft]) (use 1 ch obj fits_prefix[OF ft] c in \<open>auto intro!: put_printed simp: cJSON_types\<close>)
  qed (use 1(3-) in \<open>auto simp: print_value.simps Let_def cJSON_types print_number_def text_of_def
        intro!: put_printed print_string_printed split: option.splits\<close>)
next
  case (2 f d)
  then show ?case by (auto simp: fits_def intro: printed_nil)
next
  case (3 f d c cs)
  have "fits p (json_text f d c @ (if cs = [] then [] else comma_text f @ elements_text f d cs))" using 3(4) by simp
  then have 
    "printed p (json_text f d c @ (if cs = [] then [] else comma_text f @ elements_text f d cs))
      (bind_print (print_value c p) (\<lambda>p1. if cs = [] then print_elements cs p1
       else bind_print (put (int (length (comma_text (pr_format p1))) + 1) (comma_text (pr_format p1)) p1) (print_elements cs)))"
    using 3 by (intro printed_bind) (auto simp: fits_def intro!: printed_nil printed_bind put_printed)
  then show ?case by simp
next
  case (4 f d)
  then show ?case by (auto simp: fits_def intro: printed_nil)
next
  case (5 f d c cs)
  let ?A = "if f then tabs d else []" and ?E = "member_end f (cs \<noteq> [])"
  have ft: "fits p (?A @ quoted (text_of (cj_string c)) @ colon_text f @ json_text f d c @ ?E @ members_text f d cs)"
    using 5(4) by simp
  have a: "printed p ?A (if f then put (int d) (tabs d) p else Inr (Some p))"
    using fits_prefix[OF ft] by (auto simp: tabs_def fits_def[of p "[]"] intro!: put_printed printed_nil)
  have c: "printable c" "list_all printable cs" using 5(3) by auto
  have f: "pr_format p = f" "pr_depth p = d" by fact+
  let ?g5 = "\<lambda>p4. bind_print (put (int (length (member_end (pr_format p4) (cs \<noteq> []))) + 1) (member_end (pr_format p4) (cs \<noteq> [])) p4)
       (print_members cs)"
  let ?g4 = "\<lambda>p3. bind_print (print_value c p3) ?g5"
  let ?g3 = "\<lambda>p2. bind_print (put (int (length (colon_text (pr_format p2)))) (colon_text (pr_format p2)) p2) ?g4"
  have g5: "printed q (?E @ members_text f d cs) (?g5 q)"
    if "fits q (?E @ members_text f d cs)" "pr_format q = f" "pr_depth q = d" for q
    by (rule printed_bind[OF _ that(1)]) (use that fits_prefix[OF that(1)] 5(2)[OF c(2)] in \<open>auto intro!: put_printed\<close>)
  have g4: "printed q (json_text f d c @ ?E @ members_text f d cs) (?g4 q)"
    if "fits q (json_text f d c @ ?E @ members_text f d cs)" "pr_format q = f" "pr_depth q = d" for q
    by (rule printed_bind[OF 5(1)[OF c(1) fits_prefix[OF that(1)] that(2,3)] that(1)]) (rule g5, simp_all add: that)
  have g3: "printed q (colon_text f @ json_text f d c @ ?E @ members_text f d cs) (?g3 q)"
    if "fits q (colon_text f @ json_text f d c @ ?E @ members_text f d cs)" "pr_format q = f" "pr_depth q = d" for q
    unfolding that(2)
    by (rule printed_bind[OF put_printed[OF fits_prefix[OF that(1)]] that(1)]) (simp_all, rule g4, simp_all add: that)
  have g2: "printed q (quoted (text_of (cj_string c)) @ colon_text f @ json_text f d c @ ?E @ members_text f d cs)
      (bind_print (print_string_ptr (cj_string c) q) ?g3)"
    if "fits q (quoted (text_of (cj_string c)) @ colon_text f @ json_text f d c @ ?E @ members_text f d cs)"
      "pr_format q = f" "pr_depth q = d" for q
    by (rule printed_bind[OF print_string_printed[OF fits_prefix[OF that(1)]] that(1)]) (rule g3, simp_all add: that)
  have "printed p (?A @ quoted (text_of (cj_string c)) @ colon_text f @ json_text f d c @ ?E @ members_text f d cs)
      (print_members (c # cs) p)"
    unfolding print_members.simps f by (rule printed_bind[OF a ft]) (rule g2, simp_all add: f)
  then show ?case by simp
qed

section \<open>Room in the output buffer\<close>

lemma bind_print_Some: "bind_print r f = Inr (Some q) \<longleftrightarrow> (\<exists>p. r = Inr (Some p) \<and> f p = Inr (Some q))"
  by (auto simp: bind_print_def bind_res_eq_Inr split: option.splits)

definition roomy :: "printbuffer \<Rightarrow> printbuffer \<Rightarrow> bool" where
  "roomy p q \<longleftrightarrow> int (length (pr_text q)) < pr_length q \<and> (pr_noalloc p \<longrightarrow> pr_noalloc q \<and> pr_length q = pr_length p)"

lemma roomy_trans: "roomy p q \<Longrightarrow> roomy q r \<Longrightarrow> roomy p r"
  by (auto simp: roomy_def)

lemma roomy_depth [simp]: "roomy (p\<lparr>pr_depth := d\<rparr>) q = roomy p q" "roomy p (q\<lparr>pr_depth := d\<rparr>) = roomy p q"
  by (simp_all add: roomy_def)

lemma put_roomy: "put needed s p = Inr (Some q) \<Longrightarrow> 0 \<le> needed \<Longrightarrow> roomy p q"
proof (cases "ensure needed p")
  case (Some r)
  assume "put needed s p = Inr (Some q)" "0 \<le> needed"
  then show ?thesis using ensure_spec(5,6)[OF Some] by (auto simp: put_def Some roomy_def split: if_splits)
qed (simp add: put_def)

lemma print_leaf_roomy:
  "print_string_ptr v p = Inr (Some q) \<Longrightarrow> roomy p q" "print_number d p = Inr (Some q) \<Longrightarrow> roomy p q"
  by (auto simp: print_string_ptr_def print_number_def Let_def split: option.splits if_splits dest: put_roomy)

lemma print_roomy:
  "print_value item p = Inr (Some q) \<Longrightarrow> roomy p q" "print_array item p = Inr (Some q) \<Longrightarrow> roomy p q"
  "print_object item p = Inr (Some q) \<Longrightarrow> roomy p q"
  "print_elements items p = Inr (Some q) \<Longrightarrow> roomy p p \<Longrightarrow> roomy p q"
  "print_members items p = Inr (Some q) \<Longrightarrow> roomy p p \<Longrightarrow> roomy p q"
proof (induction item p and item p and item p and items p and items p arbitrary: q and q and q and q and q
    rule: print_value_print_array_print_object_print_elements_print_members.induct)
  case (1 item p)
  then show ?case
    by (auto simp: print_value.simps[of item p] Let_def split: if_splits option.splits dest: put_roomy print_leaf_roomy)
next
  case (2 item p)
  obtain p1 p2 p3 where p: "put 1 ''['' p = Inr (Some p1)"
    "print_elements (cj_child item) (p1\<lparr>pr_depth := pr_depth p1 + 1\<rparr>) = Inr (Some p2)" "put 2 '']'' p2 = Inr (Some p3)"
    "q = p3\<lparr>pr_depth := pr_depth p3 - 1\<rparr>"
    using 2(2) unfolding print_array.simps bind_print_Some by auto
  have "roomy p p1" by (rule put_roomy[OF p(1)]) simp
  moreover have "roomy p1 p2" using 2(1)[OF p(1,2)] \<open>roomy p p1\<close> by (simp add: roomy_def)
  moreover have "roomy p2 p3" by (rule put_roomy[OF p(3)]) simp
  ultimately show ?case using p(4) by (auto intro: roomy_trans)
next
  case (3 item p)
  obtain p1 p2 p3 n s where p: "put (int (length (open_text (pr_format p))) + 1) (open_text (pr_format p)) p = Inr (Some p1)"
    "print_members (cj_child item) (p1\<lparr>pr_depth := pr_depth p1 + 1\<rparr>) = Inr (Some p2)" "put n s p2 = Inr (Some p3)" "0 \<le> n"
    "q = p3\<lparr>pr_depth := pr_depth p3 - 1\<rparr>"
    using 3(2) unfolding print_object.simps bind_print_Some by (auto split: if_splits)
  have "roomy p p1" by (rule put_roomy[OF p(1)]) simp
  moreover have "roomy p1 p2" using 3(1)[OF p(1,2)] \<open>roomy p p1\<close> by (simp add: roomy_def)
  moreover have "roomy p2 p3" by (rule put_roomy[OF p(3,4)])
  ultimately show ?case using p(5) by (auto intro: roomy_trans)
next
  case (5 c cs p)
  obtain p1 where p1: "print_value c p = Inr (Some p1)" using 5(4) unfolding print_elements.simps bind_print_Some by auto
  have r1: "roomy p p1" by (rule 5(1)[OF p1])
  then have r11: "roomy p1 p1" by (simp add: roomy_def)
  show ?case
  proof (cases "cs = []")
    case True
    then show ?thesis using 5(4) p1 r1 by simp
  next
    case False
    then obtain p2 where p2: "put (int (length (comma_text (pr_format p1))) + 1) (comma_text (pr_format p1)) p1 = Inr (Some p2)"
      "print_elements cs p2 = Inr (Some q)" using 5(4) p1 by (auto simp: bind_print_Some)
    have r2: "roomy p1 p2" by (rule put_roomy[OF p2(1)]) simp
    then have "roomy p2 p2" by (simp add: roomy_def)
    then show ?thesis using 5(3)[OF p1 False p2] r1 r2 by (blast intro: roomy_trans)
  qed
next
  case (7 c cs p)
  let ?e = "\<lambda>p4. member_end (pr_format p4) (cs \<noteq> [])"
  obtain p1 p2 p3 p4 p5 where p:
    "(if pr_format p then put (int (pr_depth p)) (tabs (pr_depth p)) p else Inr (Some p)) = Inr (Some p1)"
    "print_string_ptr (cj_string c) p1 = Inr (Some p2)"
    "put (int (length (colon_text (pr_format p2)))) (colon_text (pr_format p2)) p2 = Inr (Some p3)"
    "print_value c p3 = Inr (Some p4)" "put (int (length (?e p4)) + 1) (?e p4) p4 = Inr (Some p5)"
    "print_members cs p5 = Inr (Some q)"
    using 7(3) unfolding print_members.simps bind_print_Some by blast
  have "roomy p p1" using p(1) 7(4) by (auto split: if_splits intro: put_roomy)
  then have "roomy p p5"
    using print_leaf_roomy(1)[OF p(2)] put_roomy[OF p(3)] 7(1)[OF p(1-4)] put_roomy[OF p(5)]
    by (meson of_nat_0_le_iff add_nonneg_nonneg zero_le_one roomy_trans)
  moreover from this have "roomy p5 p5" by (simp add: roomy_def)
  ultimately show ?case using 7(2)[OF p] by (blast intro: roomy_trans)
qed simp_all

end
