(* ===== verification/CJsonRoundtrip.thy ===== *)
theory CJsonRoundtrip
  imports CJsonPrint
begin

text \<open>
  The parser reads back what the printer wrote: strings exactly, numbers up to the comparison that the printer itself
  makes, and whole trees with the fields normalised to those the parser sets.
\<close>

section \<open>Strings\<close>

lemma hex_digit_hex_char: "k < 16 \<Longrightarrow> hex_digit (hex_char k) = Some k"
  by (simp add: hex_digit_def hex_char_def Let_def)

lemma parse_hex4_control:
  assumes "n < 32"
  shows "parse_hex4 (CHR ''0'' # CHR ''0'' # hex_char (n div 16) # hex_char (n mod 16) # s) = n"
proof -
  have "n div 16 < 16" "n mod 16 < 16" using assms by auto
  moreover have "hex_digit (CHR ''0'') = Some 0" by (simp add: hex_digit_def)
  moreover have "16 * (n div 16) + n mod 16 = n" by simp
  ultimately show ?thesis by (simp add: parse_hex4_def hex_digit_hex_char)
qed

lemma utf16_control:
  assumes "(of_char c :: nat) < 32"
  shows "utf16_literal_to_utf8 (CHR 0x5C # CHR ''u'' # CHR ''0'' # CHR ''0'' # hex_char (of_char c div 16) #
    hex_char (of_char c mod 16) # s) = Some (6, [c])"
  using assms by (simp add: utf16_literal_to_utf8_def parse_hex4_control utf8_encode_def Let_def)

lemma escape_char_cases:
  obtains (plain) "escape_char c = [c]" "c \<noteq> CHR 0x22" "c \<noteq> CHR 0x5C"
  | (simple) e where "escape_char c = [CHR 0x5C, e]" "simple_escape e = Some c" "e \<noteq> CHR ''u''"
  | (control) "escape_char c = CHR 0x5C # CHR ''u'' # CHR ''0'' # CHR ''0'' # [hex_char (of_char c div 16), hex_char (of_char c mod 16)]"
      "(of_char c :: nat) < 32"
proof (cases "c \<in> {CHR 0x22, CHR 0x5C, CHR 0x08, CHR 0x0C, CHR 0x0A, CHR 0x0D, CHR 0x09}")
  case True
  then show thesis by (auto simp: escape_char_def simple_escape_def intro: simple)
next
  case False
  show thesis
  proof (cases "31 < (of_char c :: nat)")
    case True
    then show thesis using False by (intro plain) (auto simp: escape_char_def)
  next
    case False
    then show thesis using \<open>c \<notin> _\<close> by (intro control) (auto simp: escape_char_def)
  qed
qed

lemma escape_char_unescape:
  "unescape (escape_char c @ s) =
     (map_option ((#) c) (fst (unescape s)), length (escape_char c) + snd (unescape s))"
proof (cases c rule: escape_char_cases)
  case (control)
  then show ?thesis by (cases "unescape s"; cases "fst (unescape s)") (simp_all add: utf16_control)
qed (simp_all split: prod.split)

lemma hex_char_plain: "k < 16 \<Longrightarrow> hex_char k \<noteq> CHR 0x22 \<and> hex_char k \<noteq> CHR 0x5C"
  using hex_digit_hex_char[of k] by (auto simp: hex_digit_def)

lemma escape_char_end:
  "string_end (escape_char c @ s) = map_option ((+) (length (escape_char c))) (string_end s)"
proof (cases c rule: escape_char_cases)
  case (control)
  then have "(of_char c :: nat) div 16 < 16" "(of_char c :: nat) mod 16 < 16" by auto
  then show ?thesis unfolding control(1) using hex_char_plain by (cases "string_end s") simp_all
qed (cases "string_end s"; simp add: simple_escape_def split: if_splits)+

lemma unescape_escape: "unescape (escape s) = (Some s, length (escape s))"
  by (induction s) (simp_all add: escape_def escape_char_unescape)

lemma string_end_escape: "string_end (escape s @ CHR 0x22 # rest) = Some (length (escape s))"
  by (induction s) (simp_all add: escape_def escape_char_end)

lemma c_str_id: "CHR 0x00 \<notin> set s \<Longrightarrow> c_str s = s"
  unfolding c_str_def by (induction s) auto

lemma parse_string_quoted:
  assumes "buffer_at_offset b = quoted s @ rest" "CHR 0x00 \<notin> set s"
  shows "parse_string item b = Inr (Some (set_string s item), advance (length (quoted s)) b)"
proof -
  have "can_access_at_index b 0" using assms(1) by (cases "pb_offset b < length (pb_content b)")
      (auto simp: can_access_at_index_def buffer_at_offset_def quoted_def)
  moreover have "drop 1 (buffer_at_offset b) = escape s @ CHR 0x22 # rest" by (simp add: assms(1) quoted_def)
  ultimately show ?thesis
    using assms by (simp add: parse_string_def string_end_escape unescape_escape c_str_id) (simp add: quoted_def)
qed

section \<open>Numbers\<close>

text \<open>The number that the parser makes of the text of a number.\<close>

definition reread_number :: "dbl \<Rightarrow> dbl" where
  "reread_number d = fst (strtod (number_text d))"

lemma strtod_sprintf_length: "snd (strtod (sprintf_g (Suc p) x)) = length (sprintf_g (Suc p) x)"
proof (cases "x = 0")
  case True
  then show ?thesis by (simp add: sprintf_g_def strtod_def scan_sign_def scan_frac_def scan_exp_def isdigit_def)
next
  case False
  obtain m e where "sig_digits (Suc p) x = (m, e)" by fastforce
  from strtod_sprintf_g[OF False this] show ?thesis by simp
qed

lemma strtod_number_text: "strtod (number_text d) = (reread_number d, length (number_text d))"
  using strtod_sprintf_length[of 14 d] strtod_sprintf_length[of 16 d]
  by (auto simp: reread_number_def number_text_def Let_def prod_eq_iff)

text \<open>The first byte is a sign or a digit, and every byte can stand in a number.\<close>

definition numeral_text :: "string \<Rightarrow> bool" where
  "numeral_text s \<longleftrightarrow> s \<noteq> [] \<and> (hd s = CHR ''-'' \<or> isdigit (hd s)) \<and> list_all number_char s"

lemma digits_number_chars: "list_all isdigit s \<Longrightarrow> list_all number_char s"
  by (auto simp: list_all_iff number_char_def)

lemma frac_part_chars: "list_all isdigit s \<Longrightarrow> list_all number_char (frac_part s)"
  using drop_zeros_value(2)[of "[]" s] by (auto simp: frac_part_def Let_def number_char_def list_all_iff)

lemma exp_part_chars: "list_all number_char (exp_part e)"
  using show_dec_digits[of "\<bar>e\<bar>"]
  by (auto simp: exp_part_def Let_def number_char_def list_all_iff isdigit_def)

lemma numeral_text_append:
  assumes "list_all isdigit ip" "ip \<noteq> []" "list_all number_char t"
  shows "numeral_text ((if neg then ''-'' else []) @ ip @ t)"
  using assms digits_number_chars[OF assms(1)] by (cases ip) (auto simp: numeral_text_def number_char_def)

lemma sprintf_g_numeral: "numeral_text (sprintf_g (Suc p) x)"
proof (cases "x = 0")
  case True
  then show ?thesis by (simp add: sprintf_g_def numeral_text_def isdigit_def number_char_def)
next
  case False
  obtain m e where s: "sig_digits (Suc p) x = (m, e)" by fastforce
  note b = sig_digits_spec(1,2)[OF False s]
  have "0 \<le> m" using b(1) order_trans[OF zero_le_power[of "10::int" p]] by simp
  then have d: "list_all isdigit (take k (show_dec m))" "list_all isdigit (drop k (show_dec m))" for k
    using show_dec_digits[of m] by (auto simp: list_all_iff dest: in_set_takeD in_set_dropD)
  have z: "list_all isdigit (replicate k (CHR ''0'') @ show_dec m)" for k
    using d(1)[of "length (show_dec m)"] by (auto simp: list_all_iff isdigit_def)
  have a: "numeral_text ((if x < 0 then ''-'' else []) @ ''0'' @ frac_part (replicate k (CHR ''0'') @ show_dec m))" for k
    by (rule numeral_text_append) (simp_all only: frac_part_chars[OF z], simp_all add: isdigit_def)
  have b: "numeral_text ((if x < 0 then ''-'' else []) @ take (Suc k) (show_dec m) @ frac_part (drop (Suc k) (show_dec m)) @ t)"
    if "list_all number_char t" for k t
    by (rule numeral_text_append) (use that d frac_part_chars[OF d(2)] in simp_all)
  show ?thesis
    using False a[of "nat (- e) - 1"] b[of "[]" "nat e"] b[OF exp_part_chars, of 0 e] unfolding sprintf_g_def s Let_def prod.case
    by (cases "- 4 \<le> e \<and> e < int (Suc p)"; cases "0 \<le> e") simp_all
qed

lemma number_text_numeral: "numeral_text (number_text d)"
  using sprintf_g_numeral[of 14 d] sprintf_g_numeral[of 16 d] by (simp add: number_text_def Let_def)

lemma parse_number_text:
  assumes "buffer_at_offset b = number_text d @ rest" "rest = [] \<or> \<not> number_char (hd rest)" "length (number_text d) \<le> 25"
  shows "parse_number item b = (Some (set_number (reread_number d) item), advance (length (number_text d)) b)"
proof -
  have "takeWhile number_char (number_text d @ rest) = number_text d"
    using number_text_numeral[of d] assms(2) by (cases rest) (auto simp: numeral_text_def list_all_iff takeWhile_append)
  moreover have "number_text d \<noteq> []" using number_text_numeral[of d] by (simp add: numeral_text_def)
  ultimately show ?thesis using assms(1,3) by (simp add: parse_number_def strtod_number_text)
qed
lemma dbl_round_nonneg: "0 \<le> x \<Longrightarrow> 0 \<le> dbl_round x"
proof -
  assume x: "0 \<le> x"
  have "0 \<le> round_even y" if "0 \<le> y" for y using that by (auto simp: round_even_def Let_def)
  then show ?thesis using x by (auto simp: dbl_round_def Let_def less_imp_le)
qed

lemma compare_double_refl: "compare_double d d"
  using dbl_round_nonneg[of "\<bar>d\<bar> * DBL_EPSILON"]
  by (simp add: compare_double_def dbl_sub_def dbl_mul_def DBL_EPSILON_def dbl_round_def[of 0])

lemma reread_number_close: "dbl_round d = d \<Longrightarrow> compare_double (reread_number d) d"
  using strtod_sprintf_17[of d] compare_double_refl by (simp add: reread_number_def number_text_def Let_def)

lemma reread_number_exact:
  "dbl_round d = d \<Longrightarrow> \<not> compare_double (fst (strtod (sprintf_g 15 d))) d \<Longrightarrow> reread_number d = d"
  using strtod_sprintf_17[of d] by (simp add: reread_number_def number_text_def Let_def)

lemma reread_number_decimal:
  assumes "\<bar>n\<bar> < 10 ^ 15"
  shows "reread_number (dbl_round (of_int n * pow10 j)) = dbl_round (of_int n * pow10 j)"
proof (cases "n = 0")
  case True
  then show ?thesis
    by (simp add: reread_number_def number_text_def sprintf_g_def strtod_def scan_sign_def scan_frac_def scan_exp_def
        isdigit_def dbl_round_def Let_def)
next
  case False
  let ?y = "of_int n * pow10 j"
  note d = sig_digits_decimal[OF False assms, of j]
  obtain m e where s: "sig_digits (Suc 14) (dbl_round ?y) = (m, e)" by fastforce
  have "of_int m * pow10 (e - 14) = \<bar>?y\<bar>" using d(3)[of m e] s by (simp add: eval_nat_numeral)
  then have "sgn (dbl_round ?y) * (of_int m * pow10 (e - 14)) = ?y" by (simp only: d(2) sgn_mult_abs)
  then have "fst (strtod (sprintf_g 15 (dbl_round ?y))) = dbl_round ?y"
    using strtod_sprintf_g[OF d(1) s] by (simp add: eval_nat_numeral)
  then show ?thesis using compare_double_refl by (simp add: reread_number_def number_text_def Let_def)
qed

lemma pow10_less_cancel: "pow10 a < pow10 b \<Longrightarrow> a < b"
  using power_int_increasing[of b a "10 :: rat"] by (cases "b \<le> a") (simp_all add: pow10_powi)

lemma drop_zeros_length: "length (drop_zeros s) \<le> length s"
  by (simp add: drop_zeros_def length_dropWhile_le[of _ "rev s", simplified])

lemma frac_part_length: "length (frac_part s) \<le> Suc (length s)"
  using drop_zeros_length[of s] by (simp add: frac_part_def Let_def)

lemma exp_part_length: "\<bar>e\<bar> < 1000 \<Longrightarrow> length (exp_part e) \<le> 5"
proof -
  assume e: "\<bar>e\<bar> < 1000"
  have "length (show_dec \<bar>e\<bar>) \<le> 3"
  proof (rule ccontr)
    assume "\<not> length (show_dec \<bar>e\<bar>) \<le> 3"
    then have "3 \<le> ndigits \<bar>e\<bar> - 1" by (simp add: ndigits_def)
    then have "(10 :: int) ^ 3 \<le> 10 ^ (ndigits \<bar>e\<bar> - 1)" by (intro power_increasing) simp_all
    moreover have "0 < \<bar>e\<bar>" using \<open>\<not> length (show_dec \<bar>e\<bar>) \<le> 3\<close> by (cases "e = 0") (simp_all add: show_dec.simps[of 0])
    ultimately show False using ndigits_bounds[of "\<bar>e\<bar>"] e by simp
  qed
  then show ?thesis by (simp add: exp_part_def Let_def)
qed

lemma sprintf_g_length:
  assumes "x \<noteq> 0" "pow10 (- 900) \<le> \<bar>x\<bar>" "\<bar>x\<bar> < pow10 900" "p \<le> 16"
  shows "length (sprintf_g (Suc p) x) \<le> 25"
proof -
  obtain m e where s: "sig_digits (Suc p) x = (m, e)" by fastforce
  have l: "length (show_dec m) = Suc p" using ndigits_eq[OF sig_digits_spec(1,2)[OF assms(1) s]] by (simp add: ndigits_def)
  have "pow10 (decexp x) < pow10 900" "pow10 (- 900) < pow10 (decexp x + 1)" using decexp_bounds[OF assms(1)] assms(2,3) by linarith+
  then have "decexp x < 900" "- 900 < decexp x + 1" using pow10_less_cancel by blast+
  moreover have "e = decexp x \<or> e = decexp x + 1" using s by (auto simp: sig_digits_def Let_def split: if_splits)
  ultimately have e: "\<bar>e\<bar> < 1000" by linarith
  have f: "length (frac_part (drop k (show_dec m))) \<le> Suc (Suc p - k)" for k using frac_part_length[of "drop k (show_dec m)"] l by simp
  consider "0 \<le> e" "e < int (Suc p)" | "- 4 \<le> e" "e < 0" | "e < - 4 \<or> int (Suc p) \<le> e" by linarith
  then show ?thesis
  proof cases
    case 1
    then have "nat e \<le> p" by simp
    then show ?thesis using 1 f[of "Suc (nat e)"] assms(1,4) l
      by (cases "x < 0") (simp_all add: sprintf_g_def s Let_def)
  next
    case 2
    then have "nat (- e) \<le> 4" by simp
    then show ?thesis using 2 frac_part_length[of "replicate (nat (- e) - 1) (CHR ''0'') @ show_dec m"] assms(1,4) l
      by (cases "x < 0") (simp_all add: sprintf_g_def s Let_def)
  next
    case 3
    then show ?thesis using f[of 1] exp_part_length[OF e] assms(1,4) l by (auto simp: sprintf_g_def s Let_def)
  qed
qed

text \<open>Every number in the range of the type \<open>double\<close> fits the printer's local buffer.\<close>

definition double_range :: "dbl \<Rightarrow> bool" where
  "double_range d \<longleftrightarrow> d = 0 \<or> pow10 (- 900) \<le> \<bar>d\<bar> \<and> \<bar>d\<bar> < pow10 900"

lemma number_text_length: "double_range d \<Longrightarrow> length (number_text d) \<le> 25"
  using sprintf_g_length[of d 14] sprintf_g_length[of d 16]
  by (cases "d = 0") (simp_all add: double_range_def number_text_def Let_def sprintf_g_def[of _ 0])

section \<open>Trees\<close>

text \<open>The tree that the parser makes of a printed tree; \<open>nm\<close> is the name of the node.\<close>

fun reread :: "string option \<Rightarrow> cJSON \<Rightarrow> cJSON" where
  "reread nm (CJSON ty vs vi vd st ch) =
     (let k = ty AND 0xFF
      in if k = cJSON_Number
         then CJSON cJSON_Number None (saturate_int (reread_number vd)) (reread_number vd) nm []
         else if k = cJSON_String then CJSON cJSON_String (Some (text_of vs)) 0 0 nm []
         else if k = cJSON_True then CJSON cJSON_True None 1 0 nm []
         else if k = cJSON_Array then CJSON cJSON_Array None 0 0 nm (map (reread None) ch)
         else if k = cJSON_Object
         then CJSON cJSON_Object None 0 0 nm (map (\<lambda>c. reread (Some (text_of (cj_string c))) c) ch)
         else CJSON k None 0 0 nm [])"

text \<open>A tree of JSON values: no raw text, doubles for numbers, C strings for texts and names.\<close>

fun json_clean :: "cJSON \<Rightarrow> bool" where
  "json_clean (CJSON ty vs vi vd st ch) \<longleftrightarrow>
     (let k = ty AND 0xFF
      in if k = cJSON_NULL \<or> k = cJSON_False \<or> k = cJSON_True then True
         else if k = cJSON_Number then length (number_text vd) \<le> 25
         else if k = cJSON_String then CHR 0x00 \<notin> set (text_of vs)
         else if k = cJSON_Array then list_all json_clean ch
         else if k = cJSON_Object then list_all (\<lambda>c. CHR 0x00 \<notin> set (text_of (cj_string c)) \<and> json_clean c) ch
         else False)"

lemma json_clean_printable: "json_clean t \<Longrightarrow> printable t"
  by (induction t) (auto simp: Let_def list_all_iff cJSON_types split: if_splits)

lemma at_offset_access: "buffer_at_offset b = c # cs \<Longrightarrow> can_access_at_index b 0"
  by (cases "pb_offset b < length (pb_content b)") (auto simp: can_access_at_index_def buffer_at_offset_def)

lemma at_offset_next: "buffer_at_offset b = c # cs \<Longrightarrow> next_is b d \<longleftrightarrow> c = d"
  using at_offset_access by (auto simp: next_is_def)

lemma at_offset_advance: "buffer_at_offset b = s @ t \<Longrightarrow> n = length s \<Longrightarrow> buffer_at_offset (advance n b) = t"
  by (simp add: buffer_at_offset_def flip: drop_drop) (metis add.commute append_eq_conv_conj drop_drop)

lemma at_offset_moves [simp]:
  "buffer_at_offset (deeper b) = buffer_at_offset b" "buffer_at_offset (shallower b) = buffer_at_offset b"
  by (simp_all add: buffer_at_offset_def)

lemma skip_ws_none: "buffer_at_offset b = c # cs \<Longrightarrow> \<not> ws c \<Longrightarrow> buffer_skip_whitespace b = b"
  using at_offset_access[of b c cs] by (auto simp: buffer_skip_whitespace_def Let_def advance_def can_access_at_index_def)

lemma advance_moves [simp]:
  "advance m (advance n b) = advance (n + m) b" "advance n (deeper b) = deeper (advance n b)"
  "advance n (shallower b) = shallower (advance n b)" "shallower (deeper b) = b" "step_back (advance (Suc n) b) = advance n b"
  "step_back (deeper b) = deeper (step_back b)" "advance 0 b = b"
  by (simp_all add: advance_def deeper_def shallower_def step_back_def)

text \<open>The text of a value starts with a byte that is not white space.\<close>

lemma json_text_start:
  assumes "json_clean t"
  obtains c cs where "json_text False d t = c # cs" "\<not> ws c" "c \<noteq> CHR '']''" "c \<noteq> CHR 0xEF"
proof -
  obtain ty vs vi vd st ch where t: "t = CJSON ty vs vi vd st ch" by (cases t)
  have "number_text vd \<noteq> [] \<and> \<not> ws (hd (number_text vd)) \<and> hd (number_text vd) \<notin> {CHR '']'', CHR 0xEF}"
    using number_text_numeral[of vd] by (auto simp: numeral_text_def ws_def isdigit_def)
  then have "json_text False d t \<noteq> [] \<and> \<not> ws (hd (json_text False d t)) \<and> hd (json_text False d t) \<notin> {CHR '']'', CHR 0xEF}"
    using assms by (auto simp: t Let_def ws_def quoted_def open_text_def cJSON_types split: if_splits)
  then show thesis using that by (cases "json_text False d t") auto
qed

definition ends_value :: "string \<Rightarrow> bool" where
  "ends_value s \<longleftrightarrow> (case s of [] \<Rightarrow> False | c # cs \<Rightarrow> c \<in> {CHR '','', CHR '']'', CHR ''}'', CHR 0x00})"

lemma reads_at_offset: "buffer_at_offset b = s @ t \<Longrightarrow> s \<noteq> [] \<Longrightarrow> reads b s"
proof -
  assume a: "buffer_at_offset b = s @ t" "s \<noteq> []"
  have "length (buffer_at_offset b) = length (pb_content b) - pb_offset b" by (simp add: buffer_at_offset_def)
  then have "length s + length t = length (pb_content b) - pb_offset b" using a(1) by simp
  moreover have "0 < length s" using a(2) by simp
  ultimately have "pb_offset b + length s \<le> length (pb_content b)" by linarith
  then show ?thesis using a by (simp add: reads_def can_read_def)
qed

lemma reads_not: "buffer_at_offset b = c # cs \<Longrightarrow> c \<noteq> d \<Longrightarrow> \<not> reads b (d # ds)"
  by (simp add: reads_def)

lemma ends_value_skip: "buffer_at_offset b = s \<Longrightarrow> ends_value s \<Longrightarrow> hd s \<noteq> CHR 0x00 \<Longrightarrow> buffer_skip_whitespace b = b"
  by (cases s) (auto simp: ends_value_def ws_def intro: skip_ws_none)

lemma nesting_children:
  assumes "json_nesting (CJSON ty vs vi vd st ch) + d \<le> CJSON_NESTING_LIMIT" "ty AND 0xFF = cJSON_Array \<or> ty AND 0xFF = cJSON_Object"
  shows "d < CJSON_NESTING_LIMIT" "list_all (\<lambda>c. json_nesting c + Suc d \<le> CJSON_NESTING_LIMIT) ch"
proof -
  have "foldr (\<lambda>c. max (json_nesting c)) ch 0 \<le> CJSON_NESTING_LIMIT - Suc d" "d < CJSON_NESTING_LIMIT" using assms by auto
  then show "d < CJSON_NESTING_LIMIT" "list_all (\<lambda>c. json_nesting c + Suc d \<le> CJSON_NESTING_LIMIT) ch"
    unfolding foldr_max_le by (auto simp: list_all_iff)
qed

lemma elements_start:
  assumes "list_all json_clean ch" "ch \<noteq> []"
  obtains c cs where "elements_text False d ch = c # cs" "\<not> ws c" "c \<noteq> CHR '']''"
proof -
  obtain t ts where ch: "ch = t # ts" using assms(2) by (cases ch) auto
  have "json_clean t" using assms(1) by (simp add: ch)
  then obtain c cs where "json_text False d t = c # cs" "\<not> ws c" "c \<noteq> CHR '']''" by (rule json_text_start)
  then show thesis using that by (simp add: ch)
qed

definition json_leaf :: "int \<Rightarrow> bool" where
  "json_leaf k \<longleftrightarrow> k \<in> {cJSON_NULL, cJSON_False, cJSON_True, cJSON_Number, cJSON_String}"

lemma parse_number_printed:
  assumes b: "buffer_at_offset b = number_text d @ rest" and r: "ends_value rest" and l: "length (number_text d) \<le> 25"
  shows "parse_value item b = Inr (Some (set_number (reread_number d) item), advance (length (number_text d)) b)"
proof -
  obtain c cs where c: "number_text d = c # cs" "c = CHR ''-'' \<or> isdigit c"
    using number_text_numeral[of d] by (cases "number_text d") (auto simp: numeral_text_def)
  have bb: "buffer_at_offset b = c # cs @ rest" using b c by simp
  have nr: "c \<noteq> CHR ''n'' \<and> c \<noteq> CHR ''f'' \<and> c \<noteq> CHR ''t'' \<and> c \<noteq> CHR 0x22" using c(2) by (auto simp: isdigit_def)
  have "starts_value_number b" using at_offset_access[OF bb] bb c(2) by (simp add: starts_value_number_def)
  moreover have "rest = [] \<or> \<not> number_char (hd rest)"
    using r by (cases rest) (auto simp: ends_value_def number_char_def isdigit_def)
  ultimately show ?thesis
    using parse_number_text[OF b _ l] nr reads_not[OF bb] at_offset_next[OF bb] by (simp add: parse_value.simps[of _ b])
qed

lemma parse_leaf_printed:
  assumes "json_leaf (ty AND 0xFF)" "json_clean (CJSON ty vs vi vd st ch)"
    "buffer_at_offset b = json_text f d (CJSON ty vs vi vd st ch) @ rest" "ends_value rest"
  shows "parse_value (CJSON ty0 None 0 0 nm []) b =
    Inr (Some (reread nm (CJSON ty vs vi vd st ch)), advance (length (json_text f d (CJSON ty vs vi vd st ch))) b)"
proof -
  let ?k = "ty AND 0xFF" and ?i = "CJSON ty0 None 0 0 nm []"
  consider (null) "?k = cJSON_NULL" | (false) "?k = cJSON_False" | (true) "?k = cJSON_True" | (num) "?k = cJSON_Number"
    | (str) "?k = cJSON_String" using assms(1) by (auto simp: json_leaf_def)
  then show ?thesis
  proof cases
    case null
    then show ?thesis using reads_at_offset[of b "''null''" rest] assms(3) by (simp add: parse_value.simps cJSON_types)
  next
    case false
    then show ?thesis using reads_at_offset[of b "''false''" rest] assms(3) reads_not[of b "CHR ''f''"]
      by (simp add: parse_value.simps cJSON_types)
  next
    case true
    then show ?thesis using reads_at_offset[of b "''true''" rest] assms(3) reads_not[of b "CHR ''t''"]
      by (simp add: parse_value.simps cJSON_types)
  next
    case num
    then show ?thesis using parse_number_printed[OF _ assms(4), of b vd ?i] assms(2,3) by (simp add: cJSON_types)
  next
    case str
    have t: "json_text f d (CJSON ty vs vi vd st ch) = quoted (text_of vs)" by (simp add: str cJSON_types)
    have bb: "buffer_at_offset b = CHR 0x22 # escape (text_of vs) @ CHR 0x22 # rest" using assms(3) t by (simp add: quoted_def)
    have "CHR 0x00 \<notin> set (text_of vs)" using assms(2) by (simp add: str cJSON_types)
    then have "parse_string ?i b = Inr (Some (set_string (text_of vs) ?i), advance (length (quoted (text_of vs))) b)"
      using parse_string_quoted[of b "text_of vs" rest] assms(3) unfolding t by blast
    moreover have "parse_value ?i b = parse_string ?i b"
      using reads_not[OF bb] at_offset_next[OF bb] by (simp add: parse_value.simps[of _ b])
    ultimately show ?thesis unfolding t by (simp add: str cJSON_types)
  qed
qed

lemma parse_array_printed:
  assumes b: "buffer_at_offset b = CHR ''['' # e @ CHR '']'' # rest" and d: "pb_depth b < CJSON_NESTING_LIMIT"
    and e: "e = [] \<and> items = [] \<or> (\<exists>x xs. e = x # xs \<and> \<not> ws x \<and> x \<noteq> CHR '']'') \<and>
      parse_elements (deeper b) = Inr (Some items, advance (Suc (length e)) (deeper b))"
  shows "parse_value (CJSON ty0 None 0 0 nm []) b =
    Inr (Some (CJSON cJSON_Array None 0 0 nm items), advance (Suc (Suc (length e))) b)"
proof -
  let ?i = "CJSON ty0 None 0 0 nm []" and ?b1 = "advance 1 (deeper b)"
  have sn: "\<not> starts_value_number b" using b by (simp add: starts_value_number_def isdigit_def)
  have v: "parse_value ?i b = parse_array ?i b"
    using reads_not[OF b] at_offset_next[OF b] sn by (simp add: parse_value.simps[of _ b])
  have b1: "buffer_at_offset ?b1 = e @ CHR '']'' # rest" using at_offset_advance[of "deeper b" "''[''"] b by simp
  have b2: "buffer_at_offset (advance (Suc (length e)) (deeper b)) = CHR '']'' # rest"
    using at_offset_advance[of "deeper b" "CHR ''['' # e"] b by simp
  show ?thesis using e
  proof
    assume e0: "e = [] \<and> items = []"
    then have "buffer_skip_whitespace ?b1 = ?b1" using b1 by (intro skip_ws_none) (auto simp: ws_def)
    then show ?thesis unfolding v using d at_offset_next[of ?b1] b1 e0 by (simp add: parse_array.simps[of _ b])
  next
    assume "(\<exists>x xs. e = x # xs \<and> \<not> ws x \<and> x \<noteq> CHR '']'') \<and>
      parse_elements (deeper b) = Inr (Some items, advance (Suc (length e)) (deeper b))"
    then obtain x xs where x: "e = x # xs" "\<not> ws x" "x \<noteq> CHR '']''"
      and l: "parse_elements (deeper b) = Inr (Some items, advance (Suc (length e)) (deeper b))" by blast
    have bx: "buffer_at_offset ?b1 = x # xs @ CHR '']'' # rest" using b1 x(1) by simp
    have "buffer_skip_whitespace ?b1 = ?b1" by (rule skip_ws_none[OF bx x(2)])
    then show ?thesis unfolding v
      using d l x(3) at_offset_next[OF bx] at_offset_next[OF b2] at_offset_access[OF bx] by (simp add: parse_array.simps[of _ b])
  qed
qed

lemma parse_object_printed:
  assumes b: "buffer_at_offset b = CHR ''{'' # e @ CHR ''}'' # rest" and d: "pb_depth b < CJSON_NESTING_LIMIT"
    and e: "e = [] \<and> items = [] \<or> (\<exists>x xs. e = x # xs \<and> \<not> ws x \<and> x \<noteq> CHR ''}'') \<and>
      parse_members (deeper b) = Inr (Some items, advance (Suc (length e)) (deeper b))"
  shows "parse_value (CJSON ty0 None 0 0 nm []) b =
    Inr (Some (CJSON cJSON_Object None 0 0 nm items), advance (Suc (Suc (length e))) b)"
proof -
  let ?i = "CJSON ty0 None 0 0 nm []" and ?b1 = "advance 1 (deeper b)"
  have sn: "\<not> starts_value_number b" using b by (simp add: starts_value_number_def isdigit_def)
  have v: "parse_value ?i b = parse_object ?i b"
    using reads_not[OF b] at_offset_next[OF b] sn by (simp add: parse_value.simps[of _ b])
  have b1: "buffer_at_offset ?b1 = e @ CHR ''}'' # rest" using at_offset_advance[of "deeper b" "''{''"] b by simp
  have b2: "buffer_at_offset (advance (Suc (length e)) (deeper b)) = CHR ''}'' # rest"
    using at_offset_advance[of "deeper b" "CHR ''{'' # e"] b by simp
  show ?thesis using e
  proof
    assume e0: "e = [] \<and> items = []"
    then have "buffer_skip_whitespace ?b1 = ?b1" using b1 by (intro skip_ws_none) (auto simp: ws_def)
    then show ?thesis unfolding v using d at_offset_next[of ?b1] b1 e0 by (simp add: parse_object.simps[of _ b])
  next
    assume "(\<exists>x xs. e = x # xs \<and> \<not> ws x \<and> x \<noteq> CHR ''}'') \<and>
      parse_members (deeper b) = Inr (Some items, advance (Suc (length e)) (deeper b))"
    then obtain x xs where x: "e = x # xs" "\<not> ws x" "x \<noteq> CHR ''}''"
      and l: "parse_members (deeper b) = Inr (Some items, advance (Suc (length e)) (deeper b))" by blast
    have bx: "buffer_at_offset ?b1 = x # xs @ CHR ''}'' # rest" using b1 x(1) by simp
    have "buffer_skip_whitespace ?b1 = ?b1" by (rule skip_ws_none[OF bx x(2)])
    then show ?thesis unfolding v
      using d l x(3) at_offset_next[OF bx] at_offset_next[OF b2] at_offset_access[OF bx] by (simp add: parse_object.simps[of _ b])
  qed
qed

lemma elements_parsed:
  assumes "parse_value cJSON_New_Item (advance 1 b) = Inr (Some item, advance n b)" "buffer_at_offset (advance 1 b) = x # xs" "\<not> ws x"
    "buffer_at_offset (advance n b) = y # ys" "\<not> ws y"
  shows "parse_elements b = (if y = CHR '','' then and_then (parse_elements (advance n b)) (\<lambda>items b3. Inr (Some (item # items), b3))
    else Inr (Some [item], advance n b))"
  using assms by (simp add: parse_elements.simps[of b] skip_ws_none[OF assms(2,3)] skip_ws_none[OF assms(4,5)] at_offset_next[OF assms(4)]
      del: One_nat_def)

lemma members_parsed:
  assumes "parse_value (CJSON cJSON_String None 0 0 (Some s) []) (advance (Suc n) b) = Inr (Some item, advance m b)"
    "buffer_at_offset (advance 1 b) = quoted s @ CHR '':'' # x # xs" "CHR 0x00 \<notin> set s" "\<not> ws x" "n = Suc (length (quoted s))"
    "buffer_at_offset (advance m b) = y # ys" "\<not> ws y"
  shows "parse_members b = (if y = CHR '','' then and_then (parse_members (advance m b)) (\<lambda>items b3. Inr (Some (item # items), b3))
    else Inr (Some [item], advance m b))"
proof -
  have b1: "buffer_at_offset (advance 1 b) = CHR 0x22 # escape s @ CHR 0x22 # CHR '':'' # x # xs" using assms(2) by (simp add: quoted_def)
  have b2: "buffer_at_offset (advance n b) = CHR '':'' # x # xs" using at_offset_advance[OF assms(2) refl] assms(5) by simp
  have b3: "buffer_at_offset (advance (Suc n) b) = x # xs"
    using at_offset_advance[of "advance n b" "'':''"] b2 by simp
  have "buffer_skip_whitespace (advance 1 b) = advance 1 b" by (rule skip_ws_none[OF b1]) (simp add: ws_def)
  moreover have "buffer_skip_whitespace (advance n b) = advance n b" by (rule skip_ws_none[OF b2]) (simp add: ws_def)
  moreover have "buffer_skip_whitespace (advance (Suc n) b) = advance (Suc n) b" by (rule skip_ws_none[OF b3 assms(4)])
  moreover have "buffer_skip_whitespace (advance m b) = advance m b" by (rule skip_ws_none[OF assms(6,7)])
  moreover have "parse_string cJSON_New_Item (advance 1 b) = Inr (Some (CJSON cJSON_String (Some s) 0 0 None []), advance n b)"
    using parse_string_quoted[OF assms(2,3)] assms(5) by (simp add: cJSON_New_Item_def)
  ultimately show ?thesis
    using assms(1) at_offset_next[OF b2] at_offset_next[OF assms(6)] by (simp add: parse_members.simps[of b])
qed

lemma parse_printed:
  "f = False \<Longrightarrow> json_clean t \<Longrightarrow> json_nesting t + pb_depth b \<le> CJSON_NESTING_LIMIT \<Longrightarrow>
     buffer_at_offset b = json_text f d t @ rest \<Longrightarrow> ends_value rest \<Longrightarrow>
     parse_value (CJSON ty0 None 0 0 nm []) b = Inr (Some (reread nm t), advance (length (json_text f d t)) b)"
  "f = False \<Longrightarrow> cs \<noteq> [] \<Longrightarrow> list_all json_clean cs \<Longrightarrow> list_all (\<lambda>c. json_nesting c + pb_depth b \<le> CJSON_NESTING_LIMIT) cs \<Longrightarrow>
     buffer_at_offset b = x # elements_text f d cs @ CHR '']'' # rest \<Longrightarrow>
     parse_elements b = Inr (Some (map (reread None) cs), advance (Suc (length (elements_text f d cs))) b)"
  "f = False \<Longrightarrow> cs \<noteq> [] \<Longrightarrow> list_all (\<lambda>c. CHR 0x00 \<notin> set (text_of (cj_string c)) \<and> json_clean c) cs \<Longrightarrow>
     list_all (\<lambda>c. json_nesting c + pb_depth b \<le> CJSON_NESTING_LIMIT) cs \<Longrightarrow>
     buffer_at_offset b = x # members_text f d cs @ CHR ''}'' # rest \<Longrightarrow>
     parse_members b = Inr (Some (map (\<lambda>c. reread (Some (text_of (cj_string c))) c) cs),
       advance (Suc (length (members_text f d cs))) b)"
proof (induction f d t and f d cs and f d cs arbitrary: b rest ty0 nm and b x rest and b x rest
    rule: json_text_elements_text_members_text.induct)
  case (1 f d ty vs vi vd st ch)
  let ?k = "ty AND 0xFF" and ?t = "CJSON ty vs vi vd st ch" and ?i = "CJSON ty0 None 0 0 nm []"
  note b = 1(6) and f = 1(3)
  consider (leaf) "json_leaf ?k" | (arr) "?k = cJSON_Array" | (obj) "?k = cJSON_Object"
    using 1(4) by (auto simp: Let_def json_leaf_def split: if_splits)
  then show ?case
  proof cases
    case leaf
    then show ?thesis using 1(4,6,7) by (rule parse_leaf_printed)
  next
    case arr
    have t: "json_text f d ?t = CHR ''['' # elements_text f (Suc d) ch @ '']''" by (simp add: arr cJSON_types)
    have bb: "buffer_at_offset b = CHR ''['' # elements_text f (Suc d) ch @ CHR '']'' # rest" using b t by simp
    have lim: "pb_depth b < CJSON_NESTING_LIMIT" "list_all (\<lambda>c. json_nesting c + pb_depth (deeper b) \<le> CJSON_NESTING_LIMIT) ch"
      using nesting_children[OF 1(5)] arr by simp_all
    have cl: "list_all json_clean ch" using 1(4) by (simp add: arr cJSON_types)
    have "ch \<noteq> [] \<Longrightarrow> parse_elements (deeper b) =
        Inr (Some (map (reread None) ch), advance (Suc (length (elements_text f (Suc d) ch))) (deeper b))"
      using 1(1)[OF refl _ _ _ _ _ _ _ f _ cl lim(2)] bb arr by (simp add: cJSON_types)
    then have "elements_text f (Suc d) ch = [] \<and> map (reread None) ch = [] \<or>
        (\<exists>x xs. elements_text f (Suc d) ch = x # xs \<and> \<not> ws x \<and> x \<noteq> CHR '']'') \<and>
        parse_elements (deeper b) = Inr (Some (map (reread None) ch), advance (Suc (length (elements_text f (Suc d) ch))) (deeper b))"
      using elements_start[OF cl] f by (cases "ch = []") (auto, metis)
    from parse_array_printed[OF bb lim(1) this] show ?thesis unfolding t by (simp add: arr) (simp add: cJSON_types)
  next
    case obj
    have t: "json_text f d ?t = CHR ''{'' # members_text f (Suc d) ch @ ''}''" using f by (simp add: obj open_text_def cJSON_types)
    have bb: "buffer_at_offset b = CHR ''{'' # members_text f (Suc d) ch @ CHR ''}'' # rest" using b t by simp
    have lim: "pb_depth b < CJSON_NESTING_LIMIT" "list_all (\<lambda>c. json_nesting c + pb_depth (deeper b) \<le> CJSON_NESTING_LIMIT) ch"
      using nesting_children[OF 1(5)] obj by simp_all
    have cl: "list_all (\<lambda>c. CHR 0x00 \<notin> set (text_of (cj_string c)) \<and> json_clean c) ch" using 1(4) by (simp add: obj cJSON_types)
    let ?items = "map (\<lambda>c. reread (Some (text_of (cj_string c))) c) ch"
    have "ch \<noteq> [] \<Longrightarrow> parse_members (deeper b) = Inr (Some ?items, advance (Suc (length (members_text f (Suc d) ch))) (deeper b))"
      using 1(2)[OF refl _ _ _ _ _ _ _ _ f _ cl lim(2)] bb obj by (simp add: cJSON_types)
    then have "members_text f (Suc d) ch = [] \<and> ?items = [] \<or>
        (\<exists>x xs. members_text f (Suc d) ch = x # xs \<and> \<not> ws x \<and> x \<noteq> CHR ''}'') \<and>
        parse_members (deeper b) = Inr (Some ?items, advance (Suc (length (members_text f (Suc d) ch))) (deeper b))"
      using f by (cases ch) (auto simp: quoted_def ws_def)
    from parse_object_printed[OF bb lim(1) this] show ?thesis unfolding t by (simp add: obj) (simp add: cJSON_types)
  qed
next
  case (3 f d c cs)
  let ?J = "json_text f d c" and ?n = "Suc (length (json_text f d c))"
  define r where "r = (if cs = [] then [] else CHR '','' # elements_text f d cs) @ CHR '']'' # rest"
  have b1: "buffer_at_offset (advance 1 b) = ?J @ r"
    using at_offset_advance[of b "[x]" "?J @ r"] 3(7) 3(3) by (simp add: r_def comma_text_def)
  have b2: "buffer_at_offset (advance ?n b) = r" using at_offset_advance[OF b1 refl] by simp
  obtain y ys where y: "r = y # ys" "\<not> ws y" "y = CHR '','' \<longleftrightarrow> cs \<noteq> []" by (cases "cs = []") (auto simp: r_def ws_def)
  have c: "json_clean c" "list_all json_clean cs" "json_nesting c + pb_depth (advance 1 b) \<le> CJSON_NESTING_LIMIT"
    "list_all (\<lambda>c. json_nesting c + pb_depth (advance ?n b) \<le> CJSON_NESTING_LIMIT) cs"
    using 3(5,6) by auto
  obtain z zs where z: "?J = z # zs" "\<not> ws z" using json_text_start[OF c(1)] 3(3) by metis
  have "ends_value r" by (cases "cs = []") (auto simp: r_def ends_value_def)
  then have v: "parse_value cJSON_New_Item (advance 1 b) = Inr (Some (reread None c), advance ?n b)"
    using 3(1)[OF 3(3) c(1,3) b1, of 0 None] by (simp add: cJSON_New_Item_def)
  have p: "parse_elements b = (if y = CHR '','' then and_then (parse_elements (advance ?n b))
      (\<lambda>items b3. Inr (Some (reread None c # items), b3)) else Inr (Some [reread None c], advance ?n b))"
    by (rule elements_parsed[OF v, where x = z and xs = "zs @ r" and y = y and ys = ys]) (use b1 b2 y z in auto)
  show ?case
  proof (cases "cs = []")
    case True
    then show ?thesis using p y(3) by simp
  next
    case False
    have "buffer_at_offset (advance ?n b) = CHR '','' # elements_text f d cs @ CHR '']'' # rest" using b2 False by (simp add: r_def)
    from 3(2)[OF False 3(3) False c(2,4) this] show ?thesis using p y(3) False 3(3) by (simp add: comma_text_def)
  qed
next
  case (5 f d c cs)
  let ?J = "json_text f d c" and ?s = "text_of (cj_string c)"
  let ?n = "Suc (length (quoted (text_of (cj_string c))))"
  let ?m = "Suc (?n + length (json_text f d c))"
  define r where "r = (if cs = [] then [] else CHR '','' # members_text f d cs) @ CHR ''}'' # rest"
  have b1: "buffer_at_offset (advance 1 b) = quoted ?s @ CHR '':'' # ?J @ r"
    using at_offset_advance[of b "[x]" "quoted ?s @ CHR '':'' # ?J @ r"] 5(7) 5(3) by (simp add: r_def colon_text_def member_end_def)
  have b2: "buffer_at_offset (advance (Suc ?n) b) = ?J @ r"
    using at_offset_advance[of "advance 1 b" "quoted ?s @ '':''"] b1 by simp
  have b3: "buffer_at_offset (advance ?m b) = r" using at_offset_advance[OF b2 refl] by simp
  obtain y ys where y: "r = y # ys" "\<not> ws y" "y = CHR '','' \<longleftrightarrow> cs \<noteq> []" by (cases "cs = []") (auto simp: r_def ws_def)
  have c: "json_clean c" "list_all (\<lambda>c. CHR 0x00 \<notin> set (text_of (cj_string c)) \<and> json_clean c) cs" "CHR 0x00 \<notin> set ?s"
    "json_nesting c + pb_depth (advance (Suc ?n) b) \<le> CJSON_NESTING_LIMIT"
    "list_all (\<lambda>c. json_nesting c + pb_depth (advance ?m b) \<le> CJSON_NESTING_LIMIT) cs"
    using 5(5,6) by auto
  obtain z zs where z: "?J = z # zs" "\<not> ws z" using json_text_start[OF c(1)] 5(3) by metis
  have "ends_value r" by (cases "cs = []") (auto simp: r_def ends_value_def)
  then have v: "parse_value (CJSON cJSON_String None 0 0 (Some ?s) []) (advance (Suc ?n) b) =
      Inr (Some (reread (Some ?s) c), advance ?m b)"
    using 5(1)[OF 5(3) c(1,4) b2, of cJSON_String "Some ?s"] by simp
  have p: "parse_members b = (if y = CHR '','' then and_then (parse_members (advance ?m b))
      (\<lambda>items b3. Inr (Some (reread (Some ?s) c # items), b3)) else Inr (Some [reread (Some ?s) c], advance ?m b))"
    by (rule members_parsed[OF v, where x = z and xs = "zs @ r" and y = y and ys = ys]) (use b1 b3 y z c(3) in auto)
  show ?case
  proof (cases "cs = []")
    case True
    then show ?thesis using p y(3) 5(3) by (simp add: colon_text_def member_end_def)
  next
    case False
    have "buffer_at_offset (advance ?m b) = CHR '','' # members_text f d cs @ CHR ''}'' # rest" using b3 False by (simp add: r_def)
    from 5(2)[OF 5(3) False c(2,5) this] show ?thesis using p y(3) False 5(3) by (simp add: colon_text_def member_end_def)
  qed
qed simp_all

section \<open>A tree read back compares equal\<close>

fun json_plain :: "cJSON \<Rightarrow> bool" where
  "json_plain (CJSON ty vs vi vd st ch) \<longleftrightarrow>
     (ty AND 0xFF = cJSON_Number \<longrightarrow> dbl_round vd = vd) \<and> (ty AND 0xFF = cJSON_String \<longrightarrow> vs \<noteq> None) \<and>
     (ty AND 0xFF = cJSON_Object \<longrightarrow> list_all (\<lambda>c. cj_string c \<noteq> None) ch \<and> distinct (map cj_string ch)) \<and>
     list_all json_plain ch"

lemma compare_double_sym: "compare_double a b = compare_double b a"
proof -
  have "dbl_sub a b = - dbl_sub b a" using dbl_round_minus[of "b - a"] by (simp add: dbl_sub_def)
  then show ?thesis by (auto simp: compare_double_def Let_def)
qed

lemma find_named_distinct:
  "list_all (\<lambda>c. cj_string c \<noteq> None) cs \<Longrightarrow> distinct (map cj_string cs) \<Longrightarrow> c \<in> set cs \<Longrightarrow> cj_string c = Some n \<Longrightarrow>
     find_named n cs = Some c"
  by (induction cs) (auto split: option.splits, metis image_eqI)

lemma reread_string [simp]: "cj_string (reread nm t) = nm"
  by (cases t) (simp add: Let_def)

lemma reread_kind: "json_clean t \<Longrightarrow> cj_type (reread nm t) = cj_type t AND 0xFF"
  by (cases t) (auto simp: Let_def split: if_splits)

lemma text_of_named: "cj_string c \<noteq> None \<Longrightarrow> Some (text_of (cj_string c)) = cj_string c"
  by (auto simp: text_of_def)

lemma object_compares:
  assumes "list_all (\<lambda>c. cj_string c \<noteq> None) ch" "distinct (map cj_string ch)" "cj_child a = ch" "cj_child b = map f ch"
    "\<And>c. c \<in> set ch \<Longrightarrow> cj_string (f c) = cj_string c"
    "\<And>c. c \<in> set ch \<Longrightarrow> cJSON_Compare True c (f c) \<and> cJSON_Compare True (f c) c"
  shows "list_all (\<lambda>x. case find_same_name b x True of None \<Rightarrow> False | Some y \<Rightarrow> cJSON_Compare True x y) (cj_child a)"
    "list_all (\<lambda>x. case find_same_name a x True of None \<Rightarrow> False | Some y \<Rightarrow> cJSON_Compare True x y) (cj_child b)"
proof -
  have n: "map cj_string (map f ch) = map cj_string ch" using assms(5) by simp
  have d: "distinct (map cj_string (map f ch))" using assms(2) unfolding n .
  have nn: "list_all (\<lambda>c. cj_string c \<noteq> None) (map f ch)" using assms(1,5) by (simp add: list_all_iff)
  have "find_same_name b c True = Some (f c) \<and> find_same_name a (f c) True = Some c" if c: "c \<in> set ch" for c
  proof -
    obtain s where s: "cj_string c = Some s" using c assms(1) by (auto simp: list_all_iff)
    have "find_named s (map f ch) = Some (f c)"
      using find_named_distinct[OF nn d, of "f c" s] assms(5) c s by simp
    then show ?thesis using find_named_distinct[OF assms(1,2) c s] s assms(3,4,5) c
      by (simp add: find_same_name_def get_object_item_def)
  qed
  then show "list_all (\<lambda>x. case find_same_name b x True of None \<Rightarrow> False | Some y \<Rightarrow> cJSON_Compare True x y) (cj_child a)"
    "list_all (\<lambda>x. case find_same_name a x True of None \<Rightarrow> False | Some y \<Rightarrow> cJSON_Compare True x y) (cj_child b)"
    using assms(3,4,6) by (auto simp: list_all_iff)
qed

lemma reread_compares:
  "json_clean t \<Longrightarrow> json_plain t \<Longrightarrow> cJSON_Compare True t (reread nm t) \<and> cJSON_Compare True (reread nm t) t"
proof (induction t arbitrary: nm)
  case (CJSON ty vs vi vd st ch)
  let ?k = "ty AND 0xFF" and ?t = "CJSON ty vs vi vd st ch"
  consider (leaf) "json_leaf ?k" | (arr) "?k = cJSON_Array" | (obj) "?k = cJSON_Object"
    using CJSON(2) by (auto simp: Let_def json_leaf_def split: if_splits)
  then show ?case
  proof cases
    case leaf
    then show ?thesis using CJSON(2,3) reread_number_close[of vd] compare_double_sym[of vd]
      by (auto simp: json_leaf_def cJSON_Compare.simps cJSON_types text_of_def)
  next
    case arr
    then have "list_all json_clean ch" "list_all json_plain ch" using CJSON(2,3) by (auto simp: cJSON_types)
    then have "cJSON_Compare True c (reread None c) \<and> cJSON_Compare True (reread None c) c" if "c \<in> set ch" for c
      using CJSON(1)[OF that] that by (auto simp: list_all_iff)
    moreover have "reread nm ?t = CJSON 32 None 0 0 nm (map (reread None) ch)" using arr by (simp add: cJSON_types)
    ultimately show ?thesis using arr
      by (auto simp: cJSON_Compare.simps[of True ?t] cJSON_Compare.simps[of True "CJSON 32 None 0 0 nm (map (reread None) ch)"]
          cJSON_types list_all_iff set_zip)
  next
    case obj
    let ?f = "\<lambda>c. reread (Some (text_of (cj_string c))) c"
    have cl: "list_all json_clean ch" "list_all json_plain ch" "list_all (\<lambda>c. cj_string c \<noteq> None) ch" "distinct (map cj_string ch)"
      using CJSON(2,3) obj by (auto simp: cJSON_types list_all_iff)
    have r: "reread nm ?t = CJSON 64 None 0 0 nm (map ?f ch)" using obj by (simp add: cJSON_types)
    have s: "cj_string (?f c) = cj_string c" if "c \<in> set ch" for c
      using that cl(3) text_of_named[of c] by (auto simp: list_all_iff)
    have i: "cJSON_Compare True c (?f c) \<and> cJSON_Compare True (?f c) c" if "c \<in> set ch" for c
      using CJSON(1)[OF that] that cl by (auto simp: list_all_iff)
    note o = object_compares[OF cl(3,4) _ _ s i, of ?t "reread nm ?t"]
    show ?thesis using o obj unfolding r
      by (auto simp: cJSON_Compare.simps[of True ?t] cJSON_Compare.simps[of True "CJSON 64 None 0 0 nm (map ?f ch)"] cJSON_types)
  qed
qed

section \<open>Properties\<close>

lemma print_tree:
  assumes "printable t" "int (length (json_text f 0 t)) + 3 \<le> INT_MAX"
  shows "print t f = Inr (Some (json_text f 0 t))"
proof -
  let ?p = "\<lparr>pr_text = [], pr_length = 256, pr_depth = 0, pr_noalloc = False, pr_format = f\<rparr>"
  have "fits ?p (json_text f 0 t)" using assms(2) by (simp add: fits_def)
  then have "printed ?p (json_text f 0 t) (print_value t ?p)" using print_printed(1)[OF assms(1)] by simp
  then show ?thesis by (auto simp: printed_def print_def)
qed

lemma print_unformatted:
  "printable t \<Longrightarrow> int (length (json_text False 0 t)) + 3 \<le> INT_MAX \<Longrightarrow>
    cJSON_PrintUnformatted t = Inr (Some (json_text False 0 t))"
  by (simp add: cJSON_PrintUnformatted_def print_tree)

lemma parse_text:
  assumes "json_clean t" "json_nesting t \<le> CJSON_NESTING_LIMIT"
  shows "cJSON_Parse (json_text False 0 t) = Inr (Some (reread None t))"
proof -
  let ?s = "json_text False 0 t @ [CHR 0x00]"
  let ?b = "\<lparr>pb_content = ?s, pb_offset = 0, pb_depth = 0\<rparr>"
  obtain c cs where c: "json_text False 0 t = c # cs" "\<not> ws c" "c \<noteq> CHR 0xEF" using json_text_start[OF assms(1)] by metis
  have b: "buffer_at_offset ?b = json_text False 0 t @ [CHR 0x00]" by (simp add: buffer_at_offset_def)
  have "skip_utf8_bom ?b = Some ?b" using c(1,3) by (auto simp: skip_utf8_bom_def buffer_at_offset_def)
  moreover have "buffer_skip_whitespace ?b = ?b" by (rule skip_ws_none[of _ c "cs @ [CHR 0x00]"]) (simp_all add: buffer_at_offset_def c)
  moreover have "parse_value cJSON_New_Item ?b = Inr (Some (reread None t), advance (length (json_text False 0 t)) ?b)"
    using parse_printed(1)[OF refl assms(1), of ?b 0 "[CHR 0x00]" 0 None] assms(2) b by (simp add: cJSON_New_Item_def ends_value_def)
  ultimately show ?thesis by (simp add: cJSON_Parse_def cJSON_ParseWithOpts_def cJSON_ParseWithLengthOpts_def)
qed

text \<open>C9: a tree of JSON values that nests at most a thousand levels is printed, and the parser reads the text back to
  the same tree, with numbers as the printed digits denote them; the copy compares equal to the original.\<close>

theorem json_print_parse_roundtrip:
  assumes "json_clean t" "json_plain t" "json_nesting t \<le> CJSON_NESTING_LIMIT"
    "int (length (json_text False 0 t)) + 3 \<le> INT_MAX"
  shows "\<exists>s. cJSON_PrintUnformatted t = Inr (Some s) \<and> cJSON_Parse s = Inr (Some (reread None t)) \<and>
    cJSON_Compare True t (reread None t)"
  using print_unformatted[OF json_clean_printable[OF assms(1)] assms(4)] parse_text[OF assms(1,3)]
    reread_compares[OF assms(1,2)] by blast

text \<open>Fact: the text of a double denotes a number that the library's comparison takes for the double; it is the double itself
  when fifteen digits do not pass that comparison, and for the double nearest to a decimal numeral of at most fifteen
  digits.\<close>

theorem print_number_reread:
  assumes "dbl_round d = d"
  shows "compare_double (reread_number d) d \<and>
    (\<not> compare_double (fst (strtod (sprintf_g 15 d))) d \<longrightarrow> reread_number d = d) \<and>
    (\<forall>n j. d = dbl_round (of_int n * pow10 j) \<longrightarrow> \<bar>n\<bar> < 10 ^ 15 \<longrightarrow> reread_number d = d)"
  using reread_number_close[OF assms] reread_number_exact[OF assms] reread_number_decimal by blast

text \<open>C20: every C string is parsed to an end: the parser returns, with a tree or without, and reads no byte outside the
  buffer.\<close>

theorem cJSON_Parse_returns:
  "\<exists>r. cJSON_Parse s = Inr r"
  using cJSON_ParseWithOpts_safe[of s False] by (auto simp: cJSON_Parse_def)


text \<open>C21: what the parser returns is typed: the type of a node decides which of its fields carry data, and no tree nests
  deeper than the limit.\<close>

theorem cJSON_Parse_typed:
  assumes "cJSON_Parse s = Inr (Some t)"
  shows "json_typed t \<and> json_nesting t \<le> CJSON_NESTING_LIMIT \<and> cj_string t = None"
proof -
  let ?b = "\<lparr>pb_content = s @ [CHR 0x00], pb_offset = 0, pb_depth = 0\<rparr>"
  obtain b1 where b1: "skip_utf8_bom ?b = Some b1" "pb_depth b1 = 0"
    by (cases "skip_utf8_bom ?b") (auto simp: skip_utf8_bom_def split: if_splits)
  then obtain b' where b: "parse_value cJSON_New_Item (buffer_skip_whitespace b1) = Inr (Some t, b')"
    using assms by (auto simp: cJSON_Parse_def cJSON_ParseWithOpts_def cJSON_ParseWithLengthOpts_def Let_def res_simps
        split: option.splits)
  then show ?thesis using parse_typed(1)[OF _ _ b] b1(2) by (simp add: blank_def cJSON_New_Item_def)
qed

text \<open>Fact: the printer writes inside its buffer, whatever the tree, the options and the size of the buffer, and what it
  leaves in the array of \<open>cJSON_PrintPreallocated\<close> fits there with its terminating zero.\<close>

theorem print_stays_in_buffer:
  "print_value item p \<noteq> Inl e \<and>
   (\<forall>s. cJSON_PrintPreallocated item len fmt = Inr (Some s) \<longrightarrow> int (length s) < len)"
proof -
  have "int (length s) < len" if "cJSON_PrintPreallocated item len fmt = Inr (Some s)" for s
    using that print_roomy(1)[of item]
    by (fastforce simp: cJSON_PrintPreallocated_def res_simps roomy_def split: if_splits)
  then show ?thesis using print_safe(1) by blast
qed

section \<open>A concrete tree\<close>

definition sample_json :: cJSON where
  "sample_json = CJSON 64 None 0 0 None
     [CJSON 16 (Some ''set uab'') 0 0 (Some ''cmd'') [], CJSON 8 None 220 220 (Some ''param'') [],
      CJSON 32 None 0 0 (Some ''list'') [CJSON 4 None 0 0 None [], CJSON 2 None 1 0 None []]]"

definition sample_text :: string where
  "sample_text = json_text False 0 sample_json"

lemma sample_clean: "json_clean sample_json"
  by code_simp

lemma sample_plain: "json_plain sample_json"
  by code_simp

lemma sample_reread: "reread None sample_json = sample_json"
  by code_simp

lemma sample_length: "int (length (json_text False 0 sample_json)) + 3 \<le> INT_MAX"
  by code_simp

lemma sample_nesting: "json_nesting sample_json \<le> CJSON_NESTING_LIMIT"
  by code_simp

theorem json_print_parse_roundtrip_witness:
  "\<exists>s. cJSON_PrintUnformatted sample_json = Inr (Some s) \<and> cJSON_Parse s = Inr (Some sample_json)"
  using json_print_parse_roundtrip[OF sample_clean sample_plain sample_nesting sample_length] sample_reread by auto

theorem print_number_reread_witness:
  "compare_double (reread_number (dbl_round (3801 / 10))) (dbl_round (3801 / 10))"
  using print_number_reread[of "dbl_round (3801 / 10)"] by simp

theorem cJSON_Parse_typed_witness:
  "json_typed sample_json \<and> json_nesting sample_json \<le> CJSON_NESTING_LIMIT \<and> cj_string sample_json = None"
proof (rule cJSON_Parse_typed)
  show "cJSON_Parse sample_text = Inr (Some sample_json)" by code_simp
qed

theorem print_stays_in_buffer_witness:
  "\<exists>s. cJSON_PrintPreallocated sample_json 64 False = Inr (Some s) \<and> int (length s) < 64"
proof -
  have "cJSON_PrintPreallocated sample_json 64 False = Inr (Some sample_text)" by code_simp
  then show ?thesis using print_stays_in_buffer[of sample_json _ _ 64 False] by blast
qed

end
