(* ===== verification/Cloud.thy ===== *)
theory Cloud
  imports Mqtt Cache CJsonRoundtrip
begin

text \<open>
  The cloud client \<open>appl/cloud.c\<close>: it queues a telemetry message for the uplink on every eleventh call and
  executes the commands that the uplink received. The functions take the parser and the printer as
  arguments, so that their theorems hold for any; the client of the program passes \<open>cJSON_Parse\<close> and
  \<open>cJSON_PrintUnformatted\<close> of theories CJsonParse and CJsonPrint (section on the client's own parser and printer).
\<close>

section \<open>State\<close>

record cloud_t =
  cl_sys_timer :: int
  cl_sys_intv :: int
  cl_upload_enable :: int

text \<open>The parts of the global \<open>MDL\<close> the client works on: the model, the uplink with its buffers, and its own data.\<close>

record sim_t =
  sim_mdl :: mdl_t
  sim_mqtt :: mqtt_t
  sim_cloud :: cloud_t

definition cloud_get_unixts :: "int \<Rightarrow> int" where
  "cloud_get_unixts now = now"

definition cloud_get_timezonets :: "int \<Rightarrow> int" where
  "cloud_get_timezonets now = cloud_get_unixts now * 1000"

definition cloud_is_upload_enable :: "sim_t \<Rightarrow> int" where
  "cloud_is_upload_enable s = cl_upload_enable (sim_cloud s)"

definition cloud_enable_upload :: "sim_t \<Rightarrow> sim_t" where
  "cloud_enable_upload s = s\<lparr>sim_cloud := (sim_cloud s)\<lparr>cl_upload_enable := 1\<rparr>\<rparr>"

definition cloud_disable_upload :: "sim_t \<Rightarrow> sim_t" where
  "cloud_disable_upload s = s\<lparr>sim_cloud := (sim_cloud s)\<lparr>cl_upload_enable := 0\<rparr>\<rparr>"

definition cloud_init :: "sim_t \<Rightarrow> sim_t" where
  "cloud_init s =
     (let s1 = cloud_enable_upload s
      in s1\<lparr>sim_cloud := (sim_cloud s1)\<lparr>cl_sys_timer := 0, cl_sys_intv := 10\<rparr>\<rparr>)"

section \<open>Telemetry\<close>

text \<open>
  \<open>prt\<close> prints the members of an object, \<open>ts\<close> is the date and time as text, \<open>e0\<close> the uninitialised local element.
\<close>

definition telemetry_members :: "mdl_t \<Rightarrow> (string \<times> dbl) list" where
  "telemetry_members d =
     [(''uab'', m_uab d), (''uca'', m_uca d), (''ubc'', m_ubc d), (''ia'', m_ia d), (''ib'', m_ib d), (''ic'', m_ic d)]"

definition telemetry_payload :: "((string \<times> dbl) list \<Rightarrow> string) \<Rightarrow> string \<Rightarrow> mdl_t \<Rightarrow> string" where
  "telemetry_payload prt ts d =
     CHR ''{'' # CHR 0x22 # ''ts'' @ CHR 0x22 # '':'' @ CHR 0x22 # ts @ CHR 0x22 # '','' @ CHR 0x22 # ''data'' @ CHR 0x22 #
     '':'' @ prt (telemetry_members d) @ ''}''"

definition cloud_update ::
  "((string \<times> dbl) list \<Rightarrow> string) \<Rightarrow> string \<Rightarrow> mqtt_ringbuffer_element_t \<Rightarrow> sim_t \<Rightarrow> sim_t res" where
  "cloud_update prt ts e0 s =
     (let c = sim_cloud s;
          c1 = c\<lparr>cl_sys_timer := cl_sys_timer c + 1\<rparr>
      in if cl_sys_timer c \<ge> cl_sys_intv c
         then bind_res (strcpy_buf 8000 (telemetry_payload prt ts (sim_mdl s))) (\<lambda>payload.
              bind_res (strcpy_buf 128 (m_szDevName (sim_mdl s))) (\<lambda>topic.
                Inr (s\<lparr>sim_cloud := c1\<lparr>cl_sys_timer := 0\<rparr>,
                       sim_mqtt := mqtt_queue_txbuf
                         (e0\<lparr>rb_cmd := CMD_MQTT_SENDKV, sztopic := topic, szpayload := payload\<rparr>) (sim_mqtt s)\<rparr>)))
         else Inr (s\<lparr>sim_cloud := c1\<rparr>))"

section \<open>Commands\<close>

text \<open>\<open>snprintf\<close> into an array of \<open>n\<close> bytes cuts the text; \<open>%s\<close> of a null pointer prints \<open>(null)\<close>.\<close>

definition snprintf_buf :: "nat \<Rightarrow> string \<Rightarrow> string" where
  "snprintf_buf n s = take (n - 1) s"

definition show_ptr :: "string option \<Rightarrow> string" where
  "show_ptr p = (case p of None \<Rightarrow> ''(null)'' | Some s \<Rightarrow> s)"

text \<open>A dereference of a pointer that may be null.\<close>

definition deref :: "'a option \<Rightarrow> ('a \<Rightarrow> 'b res) \<Rightarrow> 'b res" where
  "deref p f = (case p of None \<Rightarrow> Inl Null_deref | Some x \<Rightarrow> f x)"

text \<open>
  The branch of a message with a member \<open>cmd\<close>: the model afterwards and the text of the response; \<open>None\<close> is the jump
  to \<open>JSON_DONE\<close>, which skips the response.
\<close>

definition cloud_cmd :: "cJSON \<Rightarrow> cJSON \<Rightarrow> mdl_t \<Rightarrow> (mdl_t \<times> string option) res" where
  "cloud_cmd rt cmd d =
     (if cJSON_IsString cmd
      then deref (cj_valuestring cmd) (\<lambda>vs.
             let resp = snprintf_buf 128 (''cloud_proc_recv get cmd:'' @ vs)
             in if vs = ''set uab''
                then deref (cJSON_GetObjectItem rt ''param'') (\<lambda>param.
                       Inr (d\<lparr>m_uab := cj_valuedouble param\<rparr>, Some resp))
                else Inr (d, Some resp))
      else case cj_child cmd of
             [] \<Rightarrow> Inr (d, None)
           | subCmd # cs \<Rightarrow>
               (let resp = snprintf_buf 128 (''ctn cmd '' @ show_ptr (cj_string subCmd) @ '' received'')
                in deref (cj_string subCmd) (\<lambda>name.
                     if name = ''set_ctn_cmd'' then deref (cj_valuestring subCmd) (\<lambda>v. Inr (d, Some resp))
                     else if name = ''meter_send_cmd'' then deref (cj_valuestring subCmd) (\<lambda>v. Inr (d, Some resp))
                     else Inr (d, Some resp))))"

text \<open>The branch of a message with a member \<open>update\<close> only logs the three members it expects.\<close>

definition cloud_upd :: "cJSON \<Rightarrow> mdl_t \<Rightarrow> (mdl_t \<times> string option) res" where
  "cloud_upd upd d =
     deref (cJSON_GetObjectItem upd ''uab'') (\<lambda>uab.
     deref (cJSON_GetObjectItem upd ''uca'') (\<lambda>uca.
     deref (cJSON_GetObjectItem upd ''ubc'') (\<lambda>ubc. Inr (d, None))))"

definition response_payload :: "int \<Rightarrow> string \<Rightarrow> string" where
  "response_payload now resp =
     CHR ''{'' # CHR 0x22 # ''type'' @ CHR 0x22 # '':'' @ CHR 0x22 # ''response'' @ CHR 0x22 # '','' @
     CHR 0x22 # ''timestamp'' @ CHR 0x22 # '':'' @ show_int (cloud_get_timezonets now) @ '','' @
     CHR 0x22 # ''data'' @ CHR 0x22 # '':'' @ CHR 0x22 # resp @ CHR 0x22 # ''}''"

definition cloud_respond :: "int \<Rightarrow> mqtt_ringbuffer_element_t \<Rightarrow> string \<Rightarrow> sim_t \<Rightarrow> sim_t res" where
  "cloud_respond now e0 resp s =
     bind_res (strcpy_buf 8000 (response_payload now resp)) (\<lambda>payload.
     bind_res (strcpy_buf 128 (m_szDevName (sim_mdl s) @ ''-ctl'')) (\<lambda>topic.
       Inr (s\<lparr>sim_mqtt := mqtt_queue_txbuf
                (e0\<lparr>rb_cmd := CMD_MQTT_SENDKV, sztopic := topic, szpayload := payload\<rparr>) (sim_mqtt s)\<rparr>)))"

text \<open>\<open>prs\<close> is the parser, \<open>now\<close> the time in seconds, \<open>e0\<close> the uninitialised element of the response.\<close>

definition cloud_proc_recv ::
  "(string \<Rightarrow> cJSON option) \<Rightarrow> int \<Rightarrow> mqtt_ringbuffer_element_t \<Rightarrow> sim_t \<Rightarrow> sim_t res" where
  "cloud_proc_recv prs now e0 s =
     (case mqtt_dequeue_rxbuf (sim_mqtt s) of
        (None, m) \<Rightarrow> Inr (s\<lparr>sim_mqtt := m\<rparr>)
      | (Some e, m) \<Rightarrow>
          (let s1 = s\<lparr>sim_mqtt := m\<rparr>
           in case prs (szpayload e) of
                None \<Rightarrow> Inr s1
              | Some rt \<Rightarrow>
                  (case cJSON_GetObjectItem rt ''cmd'' of
                     Some cmd \<Rightarrow>
                       bind_res (cloud_cmd rt cmd (sim_mdl s1)) (\<lambda>(d, resp).
                         let s2 = s1\<lparr>sim_mdl := d\<rparr>
                         in case resp of None \<Rightarrow> Inr s2 | Some r \<Rightarrow> cloud_respond now e0 r s2)
                   | None \<Rightarrow>
                       (case cJSON_GetObjectItem rt ''update'' of
                          Some upd \<Rightarrow>
                            bind_res (cloud_upd upd (sim_mdl s1)) (\<lambda>(d, resp). Inr (s1\<lparr>sim_mdl := d\<rparr>))
                        | None \<Rightarrow> Inr s1))))"

text \<open>The answers of the libraries and the clock in one call.\<close>

record cloud_os =
  co_parse :: "string \<Rightarrow> cJSON option"
  co_print :: "(string \<times> dbl) list \<Rightarrow> string"
  co_now :: int
  co_ts :: string
  co_e0 :: mqtt_ringbuffer_element_t

definition cloud_exe :: "cloud_os \<Rightarrow> sim_t \<Rightarrow> sim_t res" where
  "cloud_exe os s =
     bind_res (cloud_proc_recv (co_parse os) (co_now os) (co_e0 os) s) (cloud_update (co_print os) (co_ts os) (co_e0 os))"

section \<open>Behaviour of the calls\<close>

abbreviation rx_items :: "mqtt_t \<Rightarrow> mqtt_ringbuffer_element_t list" where
  "rx_items m \<equiv> mqtt_ringbuffer_items (mqtt_rxbuf m)"

lemma dequeue_rx_empty:
  assumes "mqtt_wf m" "rx_items m = []"
  shows "mqtt_dequeue_rxbuf m = (None, m)"
proof -
  have "mqtt_ringbuffer_is_empty (mqtt_rxbuf m)"
    using assms rb_is_empty_iff[of 8 "mqtt_rxbuf m", OF _ MQTT_RING_BUFFER_MASK_pow2]
    by (simp add: mqtt_wf_def mqtt_ringbuffer_wf_def mqtt_ringbuffer_items_def mqtt_ringbuffer_is_empty_def)
  then show ?thesis
    by (simp add: mqtt_dequeue_rxbuf_def mqtt_ringbuffer_dequeue_def rb_dequeue_def mqtt_ringbuffer_is_empty_def)
qed

lemma dequeue_rx_head:
  assumes "mqtt_wf m" "rx_items m = e # es"
  shows "\<exists>m'. mqtt_dequeue_rxbuf m = (Some e, m') \<and> mqtt_wf m' \<and> rx_items m' = es \<and>
    mqtt_txbuf m' = mqtt_txbuf m \<and> mq_confirmed m' = mq_confirmed m"
proof -
  have w: "mqtt_ringbuffer_wf (mqtt_rxbuf m)" using assms(1) by (simp add: mqtt_wf_def)
  obtain r b where d: "mqtt_ringbuffer_dequeue (mqtt_rxbuf m) = (r, b)" by fastforce
  have "r = Some e" "mqtt_ringbuffer_wf b" "mqtt_ringbuffer_items b = es"
    using mqtt_rb.dequeue_inv[OF w] mqtt_rb.dequeue_items[OF w] mqtt_rb.dequeue_result[OF w] d assms(2) by auto
  then show ?thesis using d assms(1) by (simp add: mqtt_dequeue_rxbuf_def mqtt_wf_def)
qed

lemma queue_tx_room:
  assumes "mqtt_wf m" "length (tx_items m) < 255"
  shows "tx_items (mqtt_queue_txbuf e m) = tx_items m @ [e]" "mqtt_wf (mqtt_queue_txbuf e m)"
    "rx_items (mqtt_queue_txbuf e m) = rx_items m"
  using fold_queue_items[of m "[e]"] mqtt_wf_fold_queue[OF assms(1), of "[e]"] assms
  by (simp_all add: mqtt_wf_def mqtt_queue_txbuf_def)

lemma cloud_idle_exe:
  assumes "mqtt_wf (sim_mqtt s)" "rx_items (sim_mqtt s) = []"
  shows "cloud_exe os s = cloud_update (co_print os) (co_ts os) (co_e0 os) s"
  using dequeue_rx_empty[OF assms] by (simp add: cloud_exe_def cloud_proc_recv_def)

text \<open>Calls of the application's loop.\<close>

fun cloud_run :: "cloud_os list \<Rightarrow> sim_t \<Rightarrow> sim_t res" where
  "cloud_run [] s = Inr s"
| "cloud_run (os # oss) s = bind_res (cloud_exe os s) (cloud_run oss)"

definition telemetry_fits :: "mdl_t \<Rightarrow> cloud_os \<Rightarrow> bool" where
  "telemetry_fits d os \<longleftrightarrow>
     length (m_szDevName d) < 128 \<and> length (telemetry_payload (co_print os) (co_ts os) d) < 8000"

text \<open>The phase of the telemetry: \<open>n\<close> calls since the start, with \<open>k\<close> messages waiting before.\<close>

definition cloud_phase :: "mdl_t \<Rightarrow> nat \<Rightarrow> nat \<Rightarrow> sim_t \<Rightarrow> bool" where
  "cloud_phase d k n s \<longleftrightarrow> sim_mdl s = d \<and> mqtt_wf (sim_mqtt s) \<and> rx_items (sim_mqtt s) = [] \<and>
     cl_sys_intv (sim_cloud s) = 10 \<and> cl_sys_timer (sim_cloud s) = int (n mod 11) \<and>
     length (tx_items (sim_mqtt s)) = k + n div 11 \<and>
     (\<forall>e \<in> set (drop k (tx_items (sim_mqtt s))). sztopic e = m_szDevName d \<and> rb_cmd e = CMD_MQTT_SENDKV)"

lemma cloud_phase_step:
  assumes "cloud_phase d k n s" "telemetry_fits d os" "k + Suc n div 11 \<le> 255"
  shows "\<exists>s'. cloud_exe os s = Inr s' \<and> cloud_phase d k (Suc n) s'"
proof (cases "n mod 11 = 10")
  case False
  have t: "Suc n mod 11 = Suc (n mod 11)" "Suc n div 11 = n div 11" using False by (simp_all add: mod_Suc div_Suc)
  have "n mod 11 < 10" using False mod_less_divisor[of 11 n] by linarith
  then show ?thesis
    using assms(1) unfolding cloud_phase_def t by (simp add: cloud_idle_exe cloud_update_def Let_def)
next
  case True
  have t: "Suc n mod 11 = 0" "Suc n div 11 = Suc (n div 11)" using True by (simp_all add: mod_Suc div_Suc)
  then have "length (tx_items (sim_mqtt s)) < 255" using assms(1,3) by (simp add: cloud_phase_def)
  moreover note ph = assms(1)[unfolded cloud_phase_def]
  ultimately have q: "tx_items (mqtt_queue_txbuf e (sim_mqtt s)) = tx_items (sim_mqtt s) @ [e]"
    "mqtt_wf (mqtt_queue_txbuf e (sim_mqtt s))" "rx_items (mqtt_queue_txbuf e (sim_mqtt s)) = []" for e
    using queue_tx_room[of "sim_mqtt s" e] by auto
  obtain e where e: "cloud_exe os s = Inr (s\<lparr>sim_cloud := (sim_cloud s)\<lparr>cl_sys_timer := 0\<rparr>,
      sim_mqtt := mqtt_queue_txbuf e (sim_mqtt s)\<rparr>)" "sztopic e = m_szDevName d" "rb_cmd e = CMD_MQTT_SENDKV"
    using ph assms(2) True by (simp add: telemetry_fits_def cloud_idle_exe cloud_update_def Let_def)
  have "k \<le> length (tx_items (sim_mqtt s))" using ph by simp
  then show ?thesis unfolding e(1) using ph t by (simp add: cloud_phase_def q e(2,3))
qed

lemma cloud_phase_run:
  assumes "cloud_phase d k n s" "list_all (telemetry_fits d) oss" "k + (n + length oss) div 11 \<le> 255"
  shows "\<exists>s'. cloud_run oss s = Inr s' \<and> cloud_phase d k (n + length oss) s'"
  using assms
proof (induction oss arbitrary: n s)
  case (Cons os oss)
  have "k + Suc n div 11 \<le> k + (n + length (os # oss)) div 11" by (simp add: div_le_mono)
  then obtain s1 where s1: "cloud_exe os s = Inr s1" "cloud_phase d k (Suc n) s1"
    using cloud_phase_step[OF Cons.prems(1), of os] Cons.prems(2,3) by auto
  then show ?case using Cons.IH[OF s1(2)] Cons.prems(2,3) by auto
qed simp

text \<open>A message that carries the command \<open>name\<close>, as the parser presents it.\<close>

definition carries_cmd :: "(string \<Rightarrow> cJSON option) \<Rightarrow> string \<Rightarrow> string \<Rightarrow> cJSON \<Rightarrow> bool" where
  "carries_cmd prs payload name rt \<longleftrightarrow>
     prs payload = Some rt \<and>
     (\<exists>cmd. cJSON_GetObjectItem rt ''cmd'' = Some cmd \<and> cJSON_IsString cmd \<and> cj_valuestring cmd = Some name)"

lemma response_payload_length:
  "length (response_payload now resp) = 42 + length (show_int (now * 1000)) + length resp"
  by (simp add: response_payload_def cloud_get_timezonets_def cloud_get_unixts_def)

lemma response_payload_fits:
  assumes "\<bar>now\<bar> < 10 ^ 17" "length resp < 128"
  shows "length (response_payload now resp) < 8000"
proof -
  have "length (show_int (now * 1000)) \<le> 21"
    using length_show_nat[of "nat (now * 1000)" 20] length_show_nat[of "nat (- (now * 1000))" 20] assms(1)
    by (auto simp: show_int_def nat_less_iff)
  then show ?thesis using assms(2) by (simp add: response_payload_length)
qed

lemma cloud_set_uab_ok:
  assumes "mqtt_wf (sim_mqtt s)" "rx_items (sim_mqtt s) = e # es" "length (tx_items (sim_mqtt s)) < 255"
    "carries_cmd prs (szpayload e) ''set uab'' rt" "cJSON_GetObjectItem rt ''param'' = Some param"
    "length (m_szDevName (sim_mdl s)) < 124" "\<bar>now\<bar> < 10 ^ 17"
  shows "\<exists>s'. cloud_proc_recv prs now e0 s = Inr s' \<and>
    sim_mdl s' = (sim_mdl s)\<lparr>m_uab := cj_valuedouble param\<rparr> \<and> sim_cloud s' = sim_cloud s \<and>
    mqtt_wf (sim_mqtt s') \<and> rx_items (sim_mqtt s') = es \<and>
    tx_items (sim_mqtt s') = tx_items (sim_mqtt s) @
      [e0\<lparr>rb_cmd := CMD_MQTT_SENDKV, sztopic := m_szDevName (sim_mdl s) @ ''-ctl'',
          szpayload := response_payload now ''cloud_proc_recv get cmd:set uab''\<rparr>]"
proof -
  obtain m' where m': "mqtt_dequeue_rxbuf (sim_mqtt s) = (Some e, m')" "mqtt_wf m'" "rx_items m' = es"
    "mqtt_txbuf m' = mqtt_txbuf (sim_mqtt s)"
    using dequeue_rx_head[OF assms(1,2)] by blast
  obtain cmd where cmd: "prs (szpayload e) = Some rt" "cJSON_GetObjectItem rt ''cmd'' = Some cmd"
    "cJSON_IsString cmd" "cj_valuestring cmd = Some ''set uab''"
    using assms(4) unfolding carries_cmd_def by blast
  have fits: "length (response_payload now ''cloud_proc_recv get cmd:set uab'') < 8000"
    using response_payload_fits[OF assms(7)] by simp
  have room: "length (tx_items m') < 255" using assms(3) m'(4) by simp
  have "cloud_cmd rt cmd (sim_mdl s) = Inr ((sim_mdl s)\<lparr>m_uab := cj_valuedouble param\<rparr>,
      Some ''cloud_proc_recv get cmd:set uab'')"
    using cmd assms(5) by (simp add: cloud_cmd_def deref_def snprintf_buf_def)
  then show ?thesis
    using m' cmd fits assms(6) queue_tx_room[OF m'(2) room]
    by (simp add: cloud_proc_recv_def cloud_respond_def)
qed

section \<open>Properties\<close>

text \<open>C23: a received message \<open>{"cmd":"set uab","param":v}\<close> sets the line voltage to \<open>v\<close>, leaves the rest of the model
  alone, is removed from the receive buffer, and is answered by exactly one response on the control topic.\<close>

theorem cloud_set_uab_command:
  assumes "mqtt_wf (sim_mqtt s)" "rx_items (sim_mqtt s) = e # es" "length (tx_items (sim_mqtt s)) < 255"
    "carries_cmd prs (szpayload e) ''set uab'' rt" "cJSON_GetObjectItem rt ''param'' = Some param"
    "length (m_szDevName (sim_mdl s)) < 124" "\<bar>now\<bar> < 10 ^ 17"
  shows "\<exists>s'. cloud_proc_recv prs now e0 s = Inr s' \<and>
    sim_mdl s' = (sim_mdl s)\<lparr>m_uab := cj_valuedouble param\<rparr> \<and> rx_items (sim_mqtt s') = es \<and>
    tx_items (sim_mqtt s') = tx_items (sim_mqtt s) @
      [e0\<lparr>rb_cmd := CMD_MQTT_SENDKV, sztopic := m_szDevName (sim_mdl s) @ ''-ctl'',
          szpayload := response_payload now ''cloud_proc_recv get cmd:set uab''\<rparr>]"
  using cloud_set_uab_ok[OF assms, of e0] by blast

text \<open>Fact: the command without a parameter dereferences a null pointer: one message on the control topic stops the
  simulator.\<close>

theorem cloud_set_uab_without_param_faults:
  assumes "mqtt_wf (sim_mqtt s)" "rx_items (sim_mqtt s) = e # es"
    "carries_cmd (co_parse os) (szpayload e) ''set uab'' rt" "cJSON_GetObjectItem rt ''param'' = None"
  shows "cloud_exe os s = Inl Null_deref"
proof -
  obtain m' where "mqtt_dequeue_rxbuf (sim_mqtt s) = (Some e, m')" using dequeue_rx_head[OF assms(1,2)] by blast
  then show ?thesis
    using assms(3,4) by (auto simp: carries_cmd_def cloud_exe_def cloud_proc_recv_def cloud_cmd_def deref_def Let_def)
qed

text \<open>C24: telemetry is periodic: after the initialisation, while no message arrives, \<open>n\<close> calls queue exactly
  \<open>n div 11\<close> messages, each under the device name and with the command that the uplink sends.\<close>

theorem cloud_telemetry_period:
  assumes "mqtt_wf (sim_mqtt s)" "rx_items (sim_mqtt s) = []" "tx_items (sim_mqtt s) = []"
    "list_all (telemetry_fits (sim_mdl s)) oss" "length oss div 11 \<le> 255"
  shows "\<exists>s'. cloud_run oss (cloud_init s) = Inr s' \<and>
    length (tx_items (sim_mqtt s')) = length oss div 11 \<and>
    (\<forall>e \<in> set (tx_items (sim_mqtt s')). sztopic e = m_szDevName (sim_mdl s) \<and> rb_cmd e = CMD_MQTT_SENDKV)"
proof -
  have "cloud_phase (sim_mdl s) 0 0 (cloud_init s)"
    using assms(1-3) by (simp add: cloud_phase_def cloud_init_def cloud_enable_upload_def Let_def)
  from cloud_phase_run[OF this assms(4)] show ?thesis using assms(5) by (auto simp: cloud_phase_def)
qed

lemma cloud_disable_fields [simp]:
  "sim_mdl (cloud_disable_upload s) = sim_mdl s" "sim_mqtt (cloud_disable_upload s) = sim_mqtt s"
  "(cloud_disable_upload s)\<lparr>sim_mqtt := m\<rparr> = cloud_disable_upload (s\<lparr>sim_mqtt := m\<rparr>)"
  "(cloud_disable_upload s)\<lparr>sim_mdl := d\<rparr> = cloud_disable_upload (s\<lparr>sim_mdl := d\<rparr>)"
  by (simp_all add: cloud_disable_upload_def)

lemma cloud_respond_disabled:
  "cloud_respond now e0 r (cloud_disable_upload s) =
     bind_res (cloud_respond now e0 r s) (\<lambda>s'. Inr (cloud_disable_upload s'))"
  by (simp add: cloud_respond_def strcpy_buf_def)

lemma cloud_recv_disabled:
  "cloud_proc_recv prs now e0 (cloud_disable_upload s) =
     bind_res (cloud_proc_recv prs now e0 s) (\<lambda>s'. Inr (cloud_disable_upload s'))"
proof -
  obtain r m where dq: "mqtt_dequeue_rxbuf (sim_mqtt s) = (r, m)" by fastforce
  show ?thesis
  proof (cases "Option.bind r (\<lambda>e. prs (szpayload e))")
    case None
    then show ?thesis by (cases r) (simp_all add: cloud_proc_recv_def dq)
  next
    case (Some rt)
    then obtain e where e: "r = Some e" "prs (szpayload e) = Some rt" by (cases r) auto
    show ?thesis
    proof (cases "cJSON_GetObjectItem rt ''cmd''")
      case None
      then show ?thesis
        by (cases "cJSON_GetObjectItem rt ''update''"; cases "cloud_upd (the (cJSON_GetObjectItem rt ''update'')) (sim_mdl s)")
          (auto simp: cloud_proc_recv_def dq e)
    next
      case (Some cmd)
      then show ?thesis
        by (cases "cloud_cmd rt cmd (sim_mdl s)")
          (auto simp: cloud_proc_recv_def dq e cloud_respond_disabled Let_def split: option.split)
    qed
  qed
qed

text \<open>Fact: disabling the upload has no effect: every call does the same and only the flag differs.\<close>

theorem cloud_disable_has_no_effect:
  "cloud_exe os (cloud_disable_upload s) = bind_res (cloud_exe os s) (\<lambda>s'. Inr (cloud_disable_upload s'))"
proof -
  have "cloud_update prt ts e0 (cloud_disable_upload s) =
      bind_res (cloud_update prt ts e0 s) (\<lambda>s'. Inr (cloud_disable_upload s'))" for prt ts e0 s
    by (simp add: cloud_update_def cloud_disable_upload_def Let_def strcpy_buf_def)
  then show ?thesis
    by (cases "cloud_proc_recv (co_parse os) (co_now os) (co_e0 os) s") (simp_all add: cloud_exe_def cloud_recv_disabled)
qed

section \<open>A concrete client\<close>

definition set_uab_json :: cJSON where
  "set_uab_json = CJSON 64 None 0 0 None
     [CJSON 16 (Some ''set uab'') 0 0 (Some ''cmd'') [], CJSON 8 None 220 220 (Some ''param'') []]"

definition bare_cmd_json :: cJSON where
  "bare_cmd_json = CJSON 64 None 0 0 None [CJSON 16 (Some ''set uab'') 0 0 (Some ''cmd'') []]"

definition sim_example :: sim_t where
  "sim_example = \<lparr>sim_mdl = MDL mbs_example,
     sim_mqtt = mqtt_example\<lparr>mqtt_rxbuf := \<lparr>buffer = replicate (2 ^ 8) elem0, tail_index = 0, head_index = 1\<rparr>\<rparr>,
     sim_cloud = \<lparr>cl_sys_timer = 0, cl_sys_intv = 10, cl_upload_enable = 1\<rparr>\<rparr>"

definition cloud_os_example :: cloud_os where
  "cloud_os_example = \<lparr>co_parse = (\<lambda>s. Some bare_cmd_json), co_print = (\<lambda>ms. ''{}''), co_now = 1700000000,
     co_ts = ''2023-11-14 22:13:20'', co_e0 = elem0\<rparr>"

lemma sim_example_wf: "mqtt_wf (sim_mqtt sim_example)"
  using mqtt_example_wf by (simp add: mqtt_wf_def sim_example_def mqtt_ringbuffer_wf_def rb_wf_def)

lemma sim_example_rx: "rx_items (sim_mqtt sim_example) = [elem0]"
  unfolding mqtt_ringbuffer_items_def sim_example_def
  by (subst rb_items_const[where k = 8 and e = elem0, OF _ MQTT_RING_BUFFER_MASK_pow2])
    (simp_all add: rb_num_items_def MQTT_RING_BUFFER_MASK_def MQTT_RING_BUFFER_SIZE_def)

lemma example_tx [simp]: "tx_items mqtt_example = []"
  by (simp add: mqtt_example_def mqtt_ringbuffer_items_def rb_items_def rb_num_items_def)

lemma example_rx [simp]: "rx_items mqtt_example = []"
  by (simp add: mqtt_example_def mqtt_ringbuffer_items_def rb_items_def rb_num_items_def)

lemma example_name: "length (m_szDevName (MDL mbs_example)) < 124"
  by (simp add: mbs_example_def sim_init_def)

theorem cloud_set_uab_command_witness:
  "\<exists>s'. cloud_proc_recv (\<lambda>p. Some set_uab_json) 1700000000 elem0 sim_example = Inr s' \<and>
     sim_mdl s' = (MDL mbs_example)\<lparr>m_uab := 220\<rparr> \<and> rx_items (sim_mqtt s') = []"
proof -
  have "length (tx_items (sim_mqtt sim_example)) < 255" "length (m_szDevName (sim_mdl sim_example)) < 124"
    using example_name by (simp_all add: sim_example_def)
  moreover have "carries_cmd (\<lambda>p. Some set_uab_json) (szpayload elem0) ''set uab'' set_uab_json"
    "cJSON_GetObjectItem set_uab_json ''param'' = Some (CJSON 8 None 220 220 (Some ''param'') [])"
    by (simp_all add: carries_cmd_def set_uab_json_def cJSON_GetObjectItem_def get_object_item_def case_insensitive_eq_def tolower_def
        cJSON_IsString_def cJSON_String_def)
  ultimately show ?thesis
    using cloud_set_uab_command[OF sim_example_wf sim_example_rx, of "\<lambda>p. Some set_uab_json" set_uab_json _ 1700000000 elem0]
    by (auto simp: sim_example_def)
qed

theorem cloud_set_uab_without_param_faults_witness:
  "cloud_exe cloud_os_example sim_example = Inl Null_deref"
proof (rule cloud_set_uab_without_param_faults[OF sim_example_wf sim_example_rx])
  show "carries_cmd (co_parse cloud_os_example) (szpayload elem0) ''set uab'' bare_cmd_json"
    "cJSON_GetObjectItem bare_cmd_json ''param'' = None"
    by (simp_all add: carries_cmd_def cloud_os_example_def bare_cmd_json_def cJSON_GetObjectItem_def get_object_item_def
        case_insensitive_eq_def tolower_def cJSON_IsString_def cJSON_String_def)
qed

theorem cloud_telemetry_period_witness:
  "\<exists>s'. cloud_run (replicate 25 cloud_os_example) (cloud_init (sim_example\<lparr>sim_mqtt := mqtt_example\<rparr>)) = Inr s' \<and>
     length (tx_items (sim_mqtt s')) = 2"
proof -
  have "telemetry_fits (MDL mbs_example) cloud_os_example"
    using example_name by (simp add: telemetry_fits_def telemetry_payload_def cloud_os_example_def)
  then have "list_all (telemetry_fits (sim_mdl (sim_example\<lparr>sim_mqtt := mqtt_example\<rparr>))) (replicate 25 cloud_os_example)"
    by (simp add: sim_example_def list_all_iff)
  from cloud_telemetry_period[OF _ _ _ this] show ?thesis
    using mqtt_example_wf by (auto simp del: cloud_run.simps)
qed

end
