(* ===== verification/CJsonMinify.thy ===== *)
theory CJsonMinify
  imports CJsonRoundtrip
begin

text \<open>
  The function of cJSON.c that removes white space and comments from a text in place, and what it does to the output
  of the formatted printer. The text is a C string without its terminating zero. The function writes behind its read
  position only, so the in-place rewriting is the list function below.
\<close>

section \<open>Minify\<close>

text \<open>The text behind the start of a comment; a comment without an end runs to the end of the text.\<close>

fun skip_oneline_comment :: "string \<Rightarrow> string" where
  "skip_oneline_comment [] = []"
| "skip_oneline_comment (c # cs) = (if c = CHR 0x0A then cs else skip_oneline_comment cs)"

fun skip_multiline_comment :: "string \<Rightarrow> string" where
  "skip_multiline_comment [] = []"
| "skip_multiline_comment (c # cs) =
     (if c = CHR ''*'' \<and> cs \<noteq> [] \<and> hd cs = CHR ''/'' then tl cs else skip_multiline_comment cs)"

text \<open>The text behind an opening quote: what is copied, the closing quote included, and what is left.\<close>

fun minify_string :: "string \<Rightarrow> string \<times> string" where
  "minify_string [] = ([], [])"
| "minify_string (c # cs) =
     (if c = CHR 0x22 then ([c], cs)
      else if c = CHR 0x5C \<and> cs \<noteq> [] \<and> hd cs = CHR 0x22
      then (let (out, rest) = minify_string (tl cs) in (c # CHR 0x22 # out, rest))
      else (let (out, rest) = minify_string cs in (c # out, rest)))"

lemma skip_comment_length [termination_simp]:
  "length (skip_oneline_comment s) \<le> length s" "length (skip_multiline_comment s) \<le> length s"
  by (induction s) (auto simp: le_SucI le_diff_conv)

lemma minify_string_length: "length (snd (minify_string s)) \<le> length s"
  by (induction s rule: minify_string.induct) (auto simp: case_prod_beta le_SucI le_diff_conv)

lemma minify_string_rest [termination_simp]: "(out, rest) = minify_string s \<Longrightarrow> length rest < Suc (length s)"
  using minify_string_length[of s] by (metis le_imp_less_Suc snd_conv)

function cJSON_Minify :: "string \<Rightarrow> string" where
  "cJSON_Minify json =
     (case json of
        [] \<Rightarrow> []
      | c # cs \<Rightarrow>
          if c = CHR '' '' \<or> c = CHR 0x09 \<or> c = CHR 0x0D \<or> c = CHR 0x0A then cJSON_Minify cs
          else if c = CHR ''/''
          then (if cs \<noteq> [] \<and> hd cs = CHR ''/'' then cJSON_Minify (skip_oneline_comment (tl cs))
                else if cs \<noteq> [] \<and> hd cs = CHR ''*'' then cJSON_Minify (skip_multiline_comment (tl cs))
                else cJSON_Minify cs)
          else if c = CHR 0x22
          then (let (out, rest) = minify_string cs in c # out @ cJSON_Minify rest)
          else c # cJSON_Minify cs)"
  by pat_completeness auto

lemma skip_comment_less:
  "length (skip_oneline_comment (tl cs)) < Suc (length cs)" "length (skip_multiline_comment (tl cs)) < Suc (length cs)"
  using skip_comment_length[of "tl cs"] by auto

termination cJSON_Minify
  by (relation "measure length") (auto simp: skip_comment_less minify_string_rest)

declare cJSON_Minify.simps [simp del]

lemma cJSON_Minify_Nil [simp]: "cJSON_Minify [] = []"
  by (simp add: cJSON_Minify.simps)

text \<open>The characters that are neither dropped nor start a comment or a string.\<close>

definition solid :: "char \<Rightarrow> bool" where
  "solid c \<longleftrightarrow> c \<notin> {CHR '' '', CHR 0x09, CHR 0x0D, CHR 0x0A, CHR ''/'', CHR 0x22}"

lemma minify_solid: "list_all solid s \<Longrightarrow> cJSON_Minify (s @ r) = s @ cJSON_Minify r"
  by (induction s) (simp_all add: solid_def cJSON_Minify.simps[of "x # xs" for x xs])

lemma minify_space: "set s \<subseteq> {CHR '' '', CHR 0x09, CHR 0x0D, CHR 0x0A} \<Longrightarrow> cJSON_Minify (s @ r) = cJSON_Minify r"
  by (induction s) (auto simp: cJSON_Minify.simps[of "x # xs" for x xs])

section \<open>Strings\<close>

text \<open>Strings that do not end in a backslash: the text of one that does ends in the two characters of an escaped quote.\<close>

definition no_backslash_end :: "string \<Rightarrow> bool" where
  "no_backslash_end s \<longleftrightarrow> s = [] \<or> last s \<noteq> CHR 0x5C"

lemma minify_string_plain:
  "c \<noteq> CHR 0x22 \<Longrightarrow> c \<noteq> CHR 0x5C \<Longrightarrow> minify_string (c # cs) = (c # fst (minify_string cs), snd (minify_string cs))"
  by (simp add: case_prod_beta)

lemma minify_string_plains:
  "CHR 0x22 \<notin> set s \<Longrightarrow> CHR 0x5C \<notin> set s \<Longrightarrow>
    minify_string (s @ cs) = (s @ fst (minify_string cs), snd (minify_string cs))"
  by (induction s) (auto simp: case_prod_beta)

lemma minify_escape_char:
  assumes "c = CHR 0x5C \<longrightarrow> cs \<noteq> [] \<and> hd cs \<noteq> CHR 0x22"
  shows "minify_string (escape_char c @ cs) = (escape_char c @ fst (minify_string cs), snd (minify_string cs))"
proof (cases c rule: escape_char_cases)
  case (control)
  then have "(of_char c :: nat) div 16 < 16" "(of_char c :: nat) mod 16 < 16" by auto
  then show ?thesis unfolding control(1) using hex_char_plain by (simp add: case_prod_beta)
next
  case (simple e)
  then show ?thesis using assms by (auto simp: simple_escape_def case_prod_beta split: if_splits)
qed (simp add: case_prod_beta)

lemma escape_char_hd: "escape_char c \<noteq> []" "hd (escape_char c) \<noteq> CHR 0x22"
  by (cases c rule: escape_char_cases; simp)+

lemma minify_escape:
  assumes "no_backslash_end s"
  shows "minify_string (escape s @ CHR 0x22 # r) = (escape s @ [CHR 0x22], r)"
  using assms
proof (induction s)
  case (Cons c s)
  have "no_backslash_end s" using Cons.prems by (auto simp: no_backslash_end_def split: if_splits)
  note ih = Cons.IH[OF this]
  have "c = CHR 0x5C \<longrightarrow> escape s @ CHR 0x22 # r \<noteq> [] \<and> hd (escape s @ CHR 0x22 # r) \<noteq> CHR 0x22"
  proof
    assume "c = CHR 0x5C"
    then obtain d s' where "s = d # s'" using Cons.prems by (cases s) (auto simp: no_backslash_end_def)
    then show "escape s @ CHR 0x22 # r \<noteq> [] \<and> hd (escape s @ CHR 0x22 # r) \<noteq> CHR 0x22"
      using escape_char_hd[of d] by (simp add: escape_def)
  qed
  then show ?case using minify_escape_char[of c "escape s @ CHR 0x22 # r"] ih by (simp add: escape_def)
qed (simp add: escape_def)

lemma minify_quoted: "no_backslash_end s \<Longrightarrow> cJSON_Minify (quoted s @ r) = quoted s @ cJSON_Minify r"
  using minify_escape[of s r] by (simp add: quoted_def cJSON_Minify.simps[of "CHR 0x22 # xs" for xs])

section \<open>Trees\<close>

text \<open>Trees of JSON values in which no string and no name ends in a backslash.\<close>

fun json_minifiable :: "cJSON \<Rightarrow> bool" where
  "json_minifiable (CJSON ty vs vi vd st ch) \<longleftrightarrow>
     (let k = ty AND 0xFF
      in if k = cJSON_Raw then False
         else if k = cJSON_String then no_backslash_end (text_of vs)
         else if k = cJSON_Array then list_all json_minifiable ch
         else if k = cJSON_Object then list_all (\<lambda>c. no_backslash_end (text_of (cj_string c)) \<and> json_minifiable c) ch
         else True)"

lemma minify_number: "cJSON_Minify (number_text d @ r) = number_text d @ cJSON_Minify r"
  using number_text_numeral[of d]
  by (intro minify_solid) (auto simp: numeral_text_def list_all_iff number_char_def solid_def isdigit_def)

lemma minify_tabs: "cJSON_Minify (tabs d @ r) = cJSON_Minify r"
  by (rule minify_space) (auto simp: tabs_def)

lemma minify_char: "solid c \<Longrightarrow> cJSON_Minify (c # r) = c # cJSON_Minify r"
  using minify_solid[of "[c]" r] by simp

lemma minify_blank: "c = CHR '' '' \<or> c = CHR 0x09 \<or> c = CHR 0x0A \<Longrightarrow> cJSON_Minify (c # r) = cJSON_Minify r"
  using minify_space[of "[c]" r] by auto

lemmas minify_texts = minify_number minify_quoted minify_tabs minify_char minify_blank solid_def open_text_def
  comma_text_def colon_text_def member_end_def

lemma unformatted_depth:
  "\<not> f \<Longrightarrow> json_text f (Suc d) t = json_text f d t"
  "\<not> f \<Longrightarrow> elements_text f (Suc d) cs = elements_text f d cs"
  "\<not> f \<Longrightarrow> members_text f (Suc d) cs = members_text f d cs"
  by (induction f d t and f d cs and f d cs rule: json_text_elements_text_members_text.induct) (simp_all add: Let_def)

lemma minify_json_text:
  "json_minifiable t \<Longrightarrow> cJSON_Minify (json_text f d t @ r) = json_text False 0 t @ cJSON_Minify r"
  "list_all json_minifiable cs \<Longrightarrow> cJSON_Minify (elements_text f d cs @ r) = elements_text False 0 cs @ cJSON_Minify r"
  "list_all (\<lambda>c. no_backslash_end (text_of (cj_string c)) \<and> json_minifiable c) cs \<Longrightarrow>
    cJSON_Minify (members_text f d cs @ r) = members_text False 0 cs @ cJSON_Minify r"
proof (induction f d t and f d cs and f d cs arbitrary: r and r and r rule: json_text_elements_text_members_text.induct)
qed (auto simp: Let_def minify_texts unformatted_depth split: if_splits)

section \<open>Properties\<close>

text \<open>Fact: removing the white space from the formatted text of a tree gives its unformatted text, when no string of the
  tree ends in a backslash.\<close>

theorem minify_formatted:
  assumes "printable t" "json_minifiable t"
    "int (length (json_text True 0 t)) + 3 \<le> INT_MAX" "int (length (json_text False 0 t)) + 3 \<le> INT_MAX"
  shows "\<exists>s u. cJSON_Print t = Inr (Some s) \<and> cJSON_PrintUnformatted t = Inr (Some u) \<and> cJSON_Minify s = u"
  using minify_json_text(1)[OF assms(2), of True 0 "[]"] print_tree[OF assms(1,3)] print_unformatted[OF assms(1,4)]
  by (simp add: cJSON_Print_def)

theorem minify_formatted_witness:
  "\<exists>s u. cJSON_Print sample_json = Inr (Some s) \<and> cJSON_PrintUnformatted sample_json = Inr (Some u) \<and> cJSON_Minify s = u"
proof (rule minify_formatted)
  show "printable sample_json" using json_clean_printable[OF sample_clean] .
  show "json_minifiable sample_json" by code_simp
  show "int (length (json_text True 0 sample_json)) + 3 \<le> INT_MAX" by code_simp
  show "int (length (json_text False 0 sample_json)) + 3 \<le> INT_MAX" by (rule sample_length)
qed

text \<open>Fact: a string that ends in a backslash is not recognised as ended: the white space and the comment behind it stay
  in the text, and a string that follows loses its blanks.\<close>

theorem minify_backslash_end:
  "cJSON_Minify (CHR ''['' # quoted [CHR 0x5C] @ '' , '' @ quoted ''a b'' @ '']'') =
     CHR ''['' # quoted [CHR 0x5C] @ '' , '' @ quoted ''ab'' @ '']''"
  by code_simp

end
