(* ===== verification/CloudJson.thy ===== *)
theory CloudJson
  imports Cloud
begin

text \<open>
  The cloud client of \<open>appl/cloud.c\<close> with the parser and the printer it really calls, \<open>cJSON_Parse\<close> and
  \<open>cJSON_PrintUnformatted\<close>: what the text of a command does, and that the text of the telemetry can be read back.
\<close>

section \<open>The client's own parser and printer\<close>

text \<open>The parser never faults on a C string (\<open>cJSON_ParseWithOpts_safe\<close>).\<close>

definition json_parse :: "string \<Rightarrow> cJSON option" where
  "json_parse s = (case cJSON_Parse s of Inr r \<Rightarrow> r | Inl e \<Rightarrow> None)"

definition telemetry_object :: "(string \<times> dbl) list \<Rightarrow> cJSON" where
  "telemetry_object ms = foldl (\<lambda>obj (name, v). cJSON_AddNumberToObject obj name v) cJSON_CreateObject ms"

text \<open>The printed object goes through \<open>%s\<close>, which prints a null pointer as \<open>(null)\<close>.\<close>

definition json_print :: "(string \<times> dbl) list \<Rightarrow> string" where
  "json_print ms = (case cJSON_PrintUnformatted (telemetry_object ms) of Inr r \<Rightarrow> show_ptr r | Inl e \<Rightarrow> show_ptr None)"

definition cloud_client :: "int \<Rightarrow> string \<Rightarrow> mqtt_ringbuffer_element_t \<Rightarrow> cloud_os" where
  "cloud_client now ts e0 = \<lparr>co_parse = json_parse, co_print = json_print, co_now = now, co_ts = ts, co_e0 = e0\<rparr>"

section \<open>The text of a command\<close>

definition set_uab_text :: "dbl \<Rightarrow> string" where
  "set_uab_text v =
     ''{'' @ quoted ''cmd'' @ '':'' @ quoted ''set uab'' @ '','' @ quoted ''param'' @ '':'' @ number_text v @ ''}''"

definition set_uab_tree :: "dbl \<Rightarrow> cJSON" where
  "set_uab_tree v = CJSON 64 None 0 0 None
     [CJSON 16 (Some ''set uab'') 0 0 (Some ''cmd'') [], CJSON 8 None 0 v (Some ''param'') []]"

lemma set_uab_text_tree: "json_text False 0 (set_uab_tree v) = set_uab_text v"
  by (simp add: set_uab_tree_def set_uab_text_def cJSON_types open_text_def colon_text_def member_end_def text_of_def)

lemma json_parse_text:
  "json_clean t \<Longrightarrow> json_nesting t \<le> CJSON_NESTING_LIMIT \<Longrightarrow> json_parse (json_text False 0 t) = Some (reread None t)"
  by (simp add: json_parse_def parse_text)

lemma set_uab_parsed:
  assumes "double_range v"
  shows "json_parse (set_uab_text v) = Some (reread None (set_uab_tree v))"
  unfolding set_uab_text_tree[symmetric]
  by (rule json_parse_text)
    (use number_text_length[OF assms] in \<open>simp_all add: set_uab_tree_def cJSON_types text_of_def CJSON_NESTING_LIMIT_def\<close>)

lemmas lookup_simps = cJSON_GetObjectItem_def get_object_item_def case_insensitive_eq_def tolower_def

lemma set_uab_carries:
  assumes "double_range v" "payload = set_uab_text v"
  shows "carries_cmd json_parse payload ''set uab'' (reread None (set_uab_tree v))"
    "cJSON_GetObjectItem (reread None (set_uab_tree v)) ''param'' =
      Some (CJSON 8 None (saturate_int (reread_number v)) (reread_number v) (Some ''param'') [])"
  using set_uab_parsed[OF assms(1)] assms(2)
  by (simp_all add: carries_cmd_def set_uab_tree_def cJSON_types text_of_def lookup_simps cJSON_IsString_def)

section \<open>The text of the telemetry\<close>

lemma telemetry_object_eq:
  "telemetry_object ms = CJSON 64 None 0 0 None (map (\<lambda>(n, v). CJSON 8 None (saturate_int v) v (Some n) []) ms)"
proof (induction ms rule: rev_induct)
  case Nil
  then show ?case by (simp add: telemetry_object_def cJSON_CreateObject_def cJSON_types)
next
  case (snoc m ms)
  obtain n v where m: "m = (n, v)" by fastforce
  have "telemetry_object (ms @ [m]) = cJSON_AddNumberToObject (telemetry_object ms) n v" by (simp add: telemetry_object_def m)
  then show ?case
    by (simp add: snoc m cJSON_AddNumberToObject_def add_item_to_object_def cJSON_CreateNumber_def cJSON_types)
qed

definition telemetry_tree :: "string \<Rightarrow> mdl_t \<Rightarrow> cJSON" where
  "telemetry_tree ts d = CJSON 64 None 0 0 None
     [CJSON 16 (Some ts) 0 0 (Some ''ts'') [],
      CJSON 64 None 0 0 (Some ''data'') (cj_child (telemetry_object (telemetry_members d)))]"

definition members_in_range :: "mdl_t \<Rightarrow> bool" where
  "members_in_range d \<longleftrightarrow> list_all (\<lambda>(n, v). double_range v) (telemetry_members d)"

lemma members_text_lengths:
  assumes "members_in_range d"
  shows "length (number_text (m_uab d)) \<le> 25" "length (number_text (m_uca d)) \<le> 25" "length (number_text (m_ubc d)) \<le> 25"
    "length (number_text (m_ia d)) \<le> 25" "length (number_text (m_ib d)) \<le> 25" "length (number_text (m_ic d)) \<le> 25"
  using assms by (auto simp: members_in_range_def telemetry_members_def intro: number_text_length)

lemma telemetry_printed:
  assumes "members_in_range d"
  shows "json_print (telemetry_members d) = json_text False 0 (telemetry_object (telemetry_members d))"
proof -
  note l = members_text_lengths[OF assms]
  have "printable (telemetry_object (telemetry_members d))"
    using l by (simp add: telemetry_object_eq telemetry_members_def cJSON_types)
  moreover have "int (length (json_text False 0 (telemetry_object (telemetry_members d)))) + 3 \<le> INT_MAX"
    using l by (simp add: telemetry_object_eq telemetry_members_def cJSON_types open_text_def colon_text_def member_end_def
        text_of_def quoted_def escape_def escape_char_def INT_MAX_def)
  ultimately show ?thesis by (simp add: json_print_def print_unformatted show_ptr_def)
qed

lemma telemetry_text_tree:
  assumes "members_in_range d" "escape ts = ts"
  shows "telemetry_payload json_print ts d = json_text False 0 (telemetry_tree ts d)"
  unfolding telemetry_payload_def telemetry_printed[OF assms(1)]
  by (simp add: telemetry_tree_def telemetry_object_eq telemetry_members_def
      cJSON_types open_text_def colon_text_def member_end_def text_of_def quoted_def assms(2) escape_def[of "''ts''"] escape_def[of "''data''"]
      escape_char_def)

lemma telemetry_parsed:
  assumes "members_in_range d" "escape ts = ts" "CHR 0x00 \<notin> set ts"
  shows "json_parse (telemetry_payload json_print ts d) = Some (reread None (telemetry_tree ts d))"
  unfolding telemetry_text_tree[OF assms(1,2)]
  by (rule json_parse_text) (use members_text_lengths[OF assms(1)] assms(3) in
      \<open>simp_all add: telemetry_tree_def telemetry_object_eq telemetry_members_def cJSON_types text_of_def CJSON_NESTING_LIMIT_def\<close>)

lemma escape_id_no_nul: "escape s = s \<Longrightarrow> CHR 0x00 \<notin> set s"
proof
  assume e: "escape s = s" "CHR 0x00 \<in> set s"
  have "sum_list (map extra_bytes s) = 0" using escape_length[of s] e(1) by simp
  then have "extra_bytes (CHR 0x00) = 0" using e(2) by auto
  then show False by (simp add: extra_bytes_def)
qed

lemma telemetry_payload_length:
  assumes "members_in_range d"
  shows "length (telemetry_payload json_print ts d) \<le> 300 + length ts"
  using members_text_lengths[OF assms]
  unfolding telemetry_payload_def telemetry_printed[OF assms]
  by (simp add: telemetry_object_eq telemetry_members_def cJSON_types open_text_def colon_text_def member_end_def
      text_of_def quoted_def escape_def escape_char_def)

lemma telemetry_data_members:
  assumes "members_in_range d" "escape ts = ts"
  shows "\<exists>t data. cJSON_Parse (telemetry_payload json_print ts d) = Inr (Some t) \<and>
    cJSON_GetObjectItem t ''data'' = Some data \<and>
    list_all (\<lambda>(n, v). map_option cj_valuedouble (cJSON_GetObjectItem data n) = Some (reread_number v)) (telemetry_members d)"
proof -
  have "cJSON_Parse (telemetry_payload json_print ts d) = Inr (Some (reread None (telemetry_tree ts d)))"
    using telemetry_parsed[OF assms escape_id_no_nul[OF assms(2)]] cJSON_ParseWithOpts_safe[of "telemetry_payload json_print ts d" False]
    by (auto simp: json_parse_def cJSON_Parse_def split: sum.splits)
  moreover have "\<exists>data. cJSON_GetObjectItem (reread None (telemetry_tree ts d)) ''data'' = Some data \<and>
    list_all (\<lambda>(n, v). map_option cj_valuedouble (cJSON_GetObjectItem data n) = Some (reread_number v)) (telemetry_members d)"
    by (simp add: telemetry_tree_def telemetry_object_eq telemetry_members_def cJSON_types text_of_def lookup_simps)
  ultimately show ?thesis by blast
qed
text \<open>Fact: the text of a telemetry message is JSON: the parser reads it back to an object whose member \<open>data\<close> holds the six
  quantities of the model under their names, with the value that their printed digits denote.\<close>

theorem telemetry_text_reads_back:
  assumes "members_in_range d" "escape ts = ts"
  shows "\<exists>t data. cJSON_Parse (telemetry_payload json_print ts d) = Inr (Some t) \<and>
    cJSON_GetObjectItem t ''data'' = Some data \<and>
    list_all (\<lambda>(n, v). map_option cj_valuedouble (cJSON_GetObjectItem data n) = Some (reread_number v)) (telemetry_members d)"
  by (rule telemetry_data_members[OF assms])

section \<open>Register values as text\<close>

lemma tenth_decimal: "tenth r = dbl_round (of_int (uint r) * pow10 (- 1))"
  by (simp add: tenth_def dbl_div_def pow10_def)

lemma reread_tenth: "reread_number (tenth r) = tenth r"
proof -
  have "uint r < 2 ^ 16" using uint_lt2p[of r] by simp
  then have "\<bar>uint r\<bar> < 10 ^ 15" by simp
  then show ?thesis unfolding tenth_decimal by (rule reread_number_decimal)
qed

lemma tenth_range: "double_range (tenth r)"
proof (cases "uint r = 0")
  case True
  then show ?thesis by (simp add: tenth_def dbl_div_def dbl_round_def double_range_def)
next
  case False
  define k where "k = uint r"
  have "0 \<le> k" "k < 65536" "k \<noteq> 0" using False uint_lt2p[of r] by (simp_all add: k_def)
  then have "1 \<le> (of_int k :: rat)" "(of_int k :: rat) < 65536" by simp_all
  then have y: "1 / 10 \<le> of_int k / (10 :: rat)" "of_int k / 10 < (6554 :: rat)" by simp_all
  have "\<bar>tenth r - of_int k / 10\<bar> \<le> \<bar>of_int k / 10\<bar> / 9007199254740992"
    using dbl_round_error[of "of_int k / 10"] by (simp only: tenth_def dbl_div_def k_def)
  then have t: "1 / 100 \<le> tenth r" "tenth r < 10000" using y by linarith+
  have "pow10 (- 900) \<le> pow10 (- 2)" "pow10 4 \<le> pow10 900" unfolding pow10_powi by (rule power_int_increasing; simp)+
  moreover have "pow10 (- 2) = 1 / 100" "pow10 4 = 10000" by (simp_all add: pow10_def)
  ultimately show ?thesis using t by (simp add: double_range_def)
qed

section \<open>A client with one message\<close>

definition sim_holding :: "mqtt_ringbuffer_element_t \<Rightarrow> sim_t" where
  "sim_holding e = \<lparr>sim_mdl = MDL mbs_example,
     sim_mqtt = mqtt_example\<lparr>mqtt_rxbuf := \<lparr>buffer = replicate (2 ^ 8) e, tail_index = 0, head_index = 1\<rparr>\<rparr>,
     sim_cloud = \<lparr>cl_sys_timer = 0, cl_sys_intv = 10, cl_upload_enable = 1\<rparr>\<rparr>"

lemma sim_holding_wf: "mqtt_wf (sim_mqtt (sim_holding e))"
  using mqtt_example_wf by (simp add: mqtt_wf_def sim_holding_def mqtt_ringbuffer_wf_def rb_wf_def)

lemma sim_holding_rx: "rx_items (sim_mqtt (sim_holding e)) = [e]"
  unfolding mqtt_ringbuffer_items_def sim_holding_def
  by (subst rb_items_const[where k = 8 and e = e, OF _ MQTT_RING_BUFFER_MASK_pow2])
    (simp_all add: rb_num_items_def MQTT_RING_BUFFER_MASK_def MQTT_RING_BUFFER_SIZE_def)

theorem telemetry_text_reads_back_witness:
  "\<exists>t data. cJSON_Parse (telemetry_payload json_print ''2023-11-14 22:13:20'' (MDL mbs_example)) = Inr (Some t) \<and>
     cJSON_GetObjectItem t ''data'' = Some data \<and>
     map_option cj_valuedouble (cJSON_GetObjectItem data ''uab'') = Some (reread_number (dbl_round (4001 / 10)))"
proof -
  have "double_range (dbl_round (4001 / 10))" "double_range (dbl_round (4002 / 10))" "double_range (dbl_round (4003 / 10))"
    using tenth_range[of 4001] tenth_range[of 4002] tenth_range[of 4003] by (simp_all add: tenth_def dbl_div_def)
  moreover have "double_range 0" by (simp add: double_range_def)
  ultimately have "members_in_range (MDL mbs_example)"
    by (simp add: members_in_range_def telemetry_members_def mbs_example_def sim_init_def)
  moreover have "escape ''2023-11-14 22:13:20'' = ''2023-11-14 22:13:20''" by (simp add: escape_def escape_char_def)
  ultimately show ?thesis
    using telemetry_text_reads_back[of "MDL mbs_example" "''2023-11-14 22:13:20''"]
    by (auto simp: telemetry_members_def mbs_example_def sim_init_def)
qed

end
