(* ===== verification/LibModbus.thy ===== *)
theory LibModbus
  imports Crc Mbs
begin

text \<open>
  The client side of libmodbus in the version the repository carries (\<open>modbus.c\<close>, \<open>modbus-rtu.c\<close>, \<open>modbus-tcp.c\<close>; with
  two backends of its own, RTU over UDP and RTU over TCP): requests, their transmission, the reassembly of the answer
  and its check against the request. The other end of the line is a parameter, the function \<open>link\<close> from a message to
  the result of the send call and to what can then be read. Error recovery is never enabled by the program, and the
  debug flag only prints; both are left out.
\<close>

section \<open>Contexts\<close>

datatype modbus_backend_t = RTU_BACKEND | RTUUDP_BACKEND | RTUTCP_BACKEND | TCP_BACKEND

record modbus_t =
  mc_backend :: modbus_backend_t
  mc_slave :: int

definition header_length :: "modbus_backend_t \<Rightarrow> nat" where
  "header_length bk = (if bk = TCP_BACKEND then 7 else 1)"

definition checksum_length :: "modbus_backend_t \<Rightarrow> nat" where
  "checksum_length bk = (if bk = TCP_BACKEND then 0 else 2)"

definition max_adu_length :: "modbus_backend_t \<Rightarrow> nat" where
  "max_adu_length bk = (if bk = TCP_BACKEND then 260 else 256)"

text \<open>The values of \<open>errno\<close> behind a result of \<open>-1\<close>; \<open>EIO\<close> stands for what the system reported itself.\<close>

datatype modbus_errno = EMBX nat | EMBBADCRC | EMBBADDATA | EMBBADEXC | EMBMDATA | EINVAL | ETIMEDOUT | ECONNRESET | ENOPROTOOPT | EIO

type_synonym 'a reply = "modbus_errno + 'a"

definition MODBUS_EXCEPTION_MAX :: nat where
  "MODBUS_EXCEPTION_MAX = 12"

definition MODBUS_TCP_SLAVE :: int where
  "MODBUS_TCP_SLAVE = 0xFF"

text \<open>The range of the RTU slave numbers was widened to 254 in this copy of the library.\<close>

definition modbus_set_slave :: "modbus_t \<Rightarrow> int \<Rightarrow> unit reply \<times> modbus_t" where
  "modbus_set_slave ctx slave =
     (if 0 \<le> slave \<and> slave \<le> 254 \<or> mc_backend ctx = TCP_BACKEND \<and> slave = MODBUS_TCP_SLAVE
      then (Inr (), ctx\<lparr>mc_slave := slave\<rparr>) else (Inl EINVAL, ctx))"

text \<open>
  New contexts; \<open>None\<close> is the null pointer. The name of a serial device has an array of 16 bytes, the address of
  a server as well.
\<close>

definition modbus_new_rtu :: "string \<Rightarrow> char \<Rightarrow> modbus_t option" where
  "modbus_new_rtu device parity =
     (if device = [] then None
      else if length device \<ge> 16 then None
      else if parity = CHR ''N'' \<or> parity = CHR ''E'' \<or> parity = CHR ''O''
      then Some \<lparr>mc_backend = RTU_BACKEND, mc_slave = -1\<rparr> else None)"

definition modbus_new_tcp :: "string \<Rightarrow> modbus_t option" where
  "modbus_new_tcp ip =
     (if ip = [] then None else if length ip \<ge> 16 then None
      else Some \<lparr>mc_backend = TCP_BACKEND, mc_slave = MODBUS_TCP_SLAVE\<rparr>)"

definition modbus_new_rtuudp :: "modbus_t option" where
  "modbus_new_rtuudp = Some \<lparr>mc_backend = RTUUDP_BACKEND, mc_slave = -1\<rparr>"

definition modbus_new_rtutcp :: "modbus_t option" where
  "modbus_new_rtutcp = Some \<lparr>mc_backend = RTUTCP_BACKEND, mc_slave = -1\<rparr>"

section \<open>Messages\<close>

definition table_crc_hi :: "UCHAR list" where
  "table_crc_hi =
   [0x00, 0xC1, 0x81, 0x40, 0x01, 0xC0, 0x80, 0x41, 0x01, 0xC0, 0x80, 0x41, 0x00, 0xC1, 0x81, 0x40,
    0x01, 0xC0, 0x80, 0x41, 0x00, 0xC1, 0x81, 0x40, 0x00, 0xC1, 0x81, 0x40, 0x01, 0xC0, 0x80, 0x41,
    0x01, 0xC0, 0x80, 0x41, 0x00, 0xC1, 0x81, 0x40, 0x00, 0xC1, 0x81, 0x40, 0x01, 0xC0, 0x80, 0x41,
    0x00, 0xC1, 0x81, 0x40, 0x01, 0xC0, 0x80, 0x41, 0x01, 0xC0, 0x80, 0x41, 0x00, 0xC1, 0x81, 0x40,
    0x01, 0xC0, 0x80, 0x41, 0x00, 0xC1, 0x81, 0x40, 0x00, 0xC1, 0x81, 0x40, 0x01, 0xC0, 0x80, 0x41,
    0x00, 0xC1, 0x81, 0x40, 0x01, 0xC0, 0x80, 0x41, 0x01, 0xC0, 0x80, 0x41, 0x00, 0xC1, 0x81, 0x40,
    0x00, 0xC1, 0x81, 0x40, 0x01, 0xC0, 0x80, 0x41, 0x01, 0xC0, 0x80, 0x41, 0x00, 0xC1, 0x81, 0x40,
    0x01, 0xC0, 0x80, 0x41, 0x00, 0xC1, 0x81, 0x40, 0x00, 0xC1, 0x81, 0x40, 0x01, 0xC0, 0x80, 0x41,
    0x01, 0xC0, 0x80, 0x41, 0x00, 0xC1, 0x81, 0x40, 0x00, 0xC1, 0x81, 0x40, 0x01, 0xC0, 0x80, 0x41,
    0x00, 0xC1, 0x81, 0x40, 0x01, 0xC0, 0x80, 0x41, 0x01, 0xC0, 0x80, 0x41, 0x00, 0xC1, 0x81, 0x40,
    0x00, 0xC1, 0x81, 0x40, 0x01, 0xC0, 0x80, 0x41, 0x01, 0xC0, 0x80, 0x41, 0x00, 0xC1, 0x81, 0x40,
    0x01, 0xC0, 0x80, 0x41, 0x00, 0xC1, 0x81, 0x40, 0x00, 0xC1, 0x81, 0x40, 0x01, 0xC0, 0x80, 0x41,
    0x00, 0xC1, 0x81, 0x40, 0x01, 0xC0, 0x80, 0x41, 0x01, 0xC0, 0x80, 0x41, 0x00, 0xC1, 0x81, 0x40,
    0x01, 0xC0, 0x80, 0x41, 0x00, 0xC1, 0x81, 0x40, 0x00, 0xC1, 0x81, 0x40, 0x01, 0xC0, 0x80, 0x41,
    0x01, 0xC0, 0x80, 0x41, 0x00, 0xC1, 0x81, 0x40, 0x00, 0xC1, 0x81, 0x40, 0x01, 0xC0, 0x80, 0x41,
    0x00, 0xC1, 0x81, 0x40, 0x01, 0xC0, 0x80, 0x41, 0x01, 0xC0, 0x80, 0x41, 0x00, 0xC1, 0x81, 0x40]"

definition table_crc_lo :: "UCHAR list" where
  "table_crc_lo =
   [0x00, 0xC0, 0xC1, 0x01, 0xC3, 0x03, 0x02, 0xC2, 0xC6, 0x06, 0x07, 0xC7, 0x05, 0xC5, 0xC4, 0x04,
    0xCC, 0x0C, 0x0D, 0xCD, 0x0F, 0xCF, 0xCE, 0x0E, 0x0A, 0xCA, 0xCB, 0x0B, 0xC9, 0x09, 0x08, 0xC8,
    0xD8, 0x18, 0x19, 0xD9, 0x1B, 0xDB, 0xDA, 0x1A, 0x1E, 0xDE, 0xDF, 0x1F, 0xDD, 0x1D, 0x1C, 0xDC,
    0x14, 0xD4, 0xD5, 0x15, 0xD7, 0x17, 0x16, 0xD6, 0xD2, 0x12, 0x13, 0xD3, 0x11, 0xD1, 0xD0, 0x10,
    0xF0, 0x30, 0x31, 0xF1, 0x33, 0xF3, 0xF2, 0x32, 0x36, 0xF6, 0xF7, 0x37, 0xF5, 0x35, 0x34, 0xF4,
    0x3C, 0xFC, 0xFD, 0x3D, 0xFF, 0x3F, 0x3E, 0xFE, 0xFA, 0x3A, 0x3B, 0xFB, 0x39, 0xF9, 0xF8, 0x38,
    0x28, 0xE8, 0xE9, 0x29, 0xEB, 0x2B, 0x2A, 0xEA, 0xEE, 0x2E, 0x2F, 0xEF, 0x2D, 0xED, 0xEC, 0x2C,
    0xE4, 0x24, 0x25, 0xE5, 0x27, 0xE7, 0xE6, 0x26, 0x22, 0xE2, 0xE3, 0x23, 0xE1, 0x21, 0x20, 0xE0,
    0xA0, 0x60, 0x61, 0xA1, 0x63, 0xA3, 0xA2, 0x62, 0x66, 0xA6, 0xA7, 0x67, 0xA5, 0x65, 0x64, 0xA4,
    0x6C, 0xAC, 0xAD, 0x6D, 0xAF, 0x6F, 0x6E, 0xAE, 0xAA, 0x6A, 0x6B, 0xAB, 0x69, 0xA9, 0xA8, 0x68,
    0x78, 0xB8, 0xB9, 0x79, 0xBB, 0x7B, 0x7A, 0xBA, 0xBE, 0x7E, 0x7F, 0xBF, 0x7D, 0xBD, 0xBC, 0x7C,
    0xB4, 0x74, 0x75, 0xB5, 0x77, 0xB7, 0xB6, 0x76, 0x72, 0xB2, 0xB3, 0x73, 0xB1, 0x71, 0x70, 0xB0,
    0x50, 0x90, 0x91, 0x51, 0x93, 0x53, 0x52, 0x92, 0x96, 0x56, 0x57, 0x97, 0x55, 0x95, 0x94, 0x54,
    0x9C, 0x5C, 0x5D, 0x9D, 0x5F, 0x9F, 0x9E, 0x5E, 0x5A, 0x9A, 0x9B, 0x5B, 0x99, 0x59, 0x58, 0x98,
    0x88, 0x48, 0x49, 0x89, 0x4B, 0x8B, 0x8A, 0x4A, 0x4E, 0x8E, 0x8F, 0x4F, 0x8D, 0x4D, 0x4C, 0x8C,
    0x44, 0x84, 0x85, 0x45, 0x87, 0x47, 0x46, 0x86, 0x82, 0x42, 0x43, 0x83, 0x41, 0x81, 0x80, 0x40]"

text \<open>One round on the pair (\<open>crc_hi\<close>, \<open>crc_lo\<close>).\<close>

definition crc16_round :: "UCHAR \<times> UCHAR \<Rightarrow> UCHAR \<Rightarrow> UCHAR \<times> UCHAR" where
  "crc16_round s b =
     (let i = unat (fst s XOR b) in (snd s XOR table_crc_hi ! i, table_crc_lo ! i))"

definition crc16 :: "UCHAR list \<Rightarrow> USHORT" where
  "crc16 bs = (let (crc_hi, crc_lo) = foldl crc16_round (0xFF, 0xFF) bs in mk_ushort crc_hi crc_lo)"

text \<open>The bytes of an \<open>int\<close> as they are stored into \<open>uint8_t\<close> fields.\<close>

definition int_hi :: "int \<Rightarrow> UCHAR" where
  "int_hi x = word_of_int (x div 256)"

definition int_lo :: "int \<Rightarrow> UCHAR" where
  "int_lo x = word_of_int x"

text \<open>The RTU header asserts that a slave was set. The TCP header carries a transaction number, a static variable.\<close>

definition rtu_build_request_basis :: "modbus_t \<Rightarrow> UCHAR \<Rightarrow> int \<Rightarrow> int \<Rightarrow> UCHAR list res" where
  "rtu_build_request_basis ctx fc addr nb =
     (if mc_slave ctx = -1 then Inl Assert_failed
      else Inr [int_lo (mc_slave ctx), fc, int_hi addr, int_lo addr, int_hi nb, int_lo nb])"

definition next_tid :: "USHORT \<Rightarrow> USHORT" where
  "next_tid t_id = (if t_id < 0xFFFF then t_id + 1 else 0)"

definition tcp_build_request_basis :: "USHORT \<Rightarrow> modbus_t \<Rightarrow> UCHAR \<Rightarrow> int \<Rightarrow> int \<Rightarrow> UCHAR list" where
  "tcp_build_request_basis t_id ctx fc addr nb =
     [hi_byte t_id, lo_byte t_id, 0, 0, 0, 0, int_lo (mc_slave ctx), fc, int_hi addr, int_lo addr, int_hi nb, int_lo nb]"

definition build_request_basis :: "USHORT \<Rightarrow> modbus_t \<Rightarrow> UCHAR \<Rightarrow> int \<Rightarrow> int \<Rightarrow> (USHORT \<times> UCHAR list) res" where
  "build_request_basis t_id ctx fc addr nb =
     (if mc_backend ctx = TCP_BACKEND
      then Inr (next_tid t_id, tcp_build_request_basis (next_tid t_id) ctx fc addr nb)
      else bind_res (rtu_build_request_basis ctx fc addr nb) (\<lambda>req. Inr (t_id, req)))"

text \<open>The checksum or the length that is added when the message is complete.\<close>

definition send_msg_pre :: "modbus_backend_t \<Rightarrow> UCHAR list \<Rightarrow> UCHAR list" where
  "send_msg_pre bk msg =
     (if bk = TCP_BACKEND
      then (let mbap_length = int (length msg) - 6 in msg[4 := int_hi mbap_length, 5 := int_lo mbap_length])
      else msg @ [hi_byte (crc16 msg), lo_byte (crc16 msg)])"

section \<open>The line\<close>

text \<open>
  The answer to a message: the result of the send call, and the pieces that the following calls of \<open>select\<close> and
  \<open>recv\<close> find. A piece \<open>None\<close> is a failed read, an empty one the end of the connection; when there are no more pieces,
  \<open>select\<close> times out.
\<close>

type_synonym pieces = "UCHAR list option list"

record answer =
  an_rc :: int
  an_in :: pieces

type_synonym 's link = "UCHAR list \<Rightarrow> 's \<Rightarrow> (answer \<times> 's) res"

text \<open>The static transaction number, the state of the other end, and the messages that were sent so far.\<close>

record 's wire =
  wi_tid :: USHORT
  wi_peer :: 's
  wi_sent :: "UCHAR list list"

definition send_msg :: "'s link \<Rightarrow> modbus_backend_t \<Rightarrow> UCHAR list \<Rightarrow> 's wire \<Rightarrow> (int reply \<times> pieces \<times> 's wire) res" where
  "send_msg link bk msg w =
     (let m = send_msg_pre bk msg
      in bind_res (link m (wi_peer w)) (\<lambda>(a, s).
           let w' = w\<lparr>wi_peer := s, wi_sent := wi_sent w @ [m]\<rparr>
           in if an_rc a = -1 then Inr (Inl EIO, an_in a, w')
              else if an_rc a > 0 \<and> an_rc a \<noteq> int (length m) then Inr (Inl EMBBADDATA, an_in a, w')
              else Inr (Inr (an_rc a), an_in a, w')))"

section \<open>Receiving\<close>

datatype msg_type_t = MSG_INDICATION | MSG_CONFIRMATION

datatype step_t = STEP_FUNCTION | STEP_META | STEP_DATA

definition compute_meta_length_after_function :: "UCHAR \<Rightarrow> msg_type_t \<Rightarrow> nat" where
  "compute_meta_length_after_function fc mt =
     (if mt = MSG_INDICATION
      then (if fc \<le> 0x06 then 4 else if fc = 0x0F \<or> fc = 0x10 then 5 else if fc = 0x17 then 9 else 0)
      else (if fc = 0x05 \<or> fc = 0x06 \<or> fc = 0x0F \<or> fc = 0x10 then 4 else 1))"

definition compute_data_length_after_meta :: "modbus_backend_t \<Rightarrow> UCHAR list \<Rightarrow> msg_type_t \<Rightarrow> nat" where
  "compute_data_length_after_meta bk msg mt =
     (let h = header_length bk; fc = msg ! h
      in (if mt = MSG_INDICATION
          then (if fc = 0x0F \<or> fc = 0x10 then unat (msg ! (h + 5)) else if fc = 0x17 then unat (msg ! (h + 9)) else 0)
          else (if fc \<le> 0x04 \<or> fc = 0x11 \<or> fc = 0x17 then unat (msg ! (h + 1)) else 0))
         + checksum_length bk)"

text \<open>What follows when the bytes that a step asked for are complete: the step and the number of bytes it asks for.\<close>

definition after_meta :: "modbus_backend_t \<Rightarrow> msg_type_t \<Rightarrow> UCHAR list \<Rightarrow> (step_t \<times> nat) reply" where
  "after_meta bk mt msg =
     (let n = compute_data_length_after_meta bk msg mt
      in if length msg + n > max_adu_length bk then Inl EMBBADDATA else Inr (STEP_DATA, n))"

definition next_step :: "modbus_backend_t \<Rightarrow> msg_type_t \<Rightarrow> step_t \<Rightarrow> UCHAR list \<Rightarrow> (step_t \<times> nat) reply" where
  "next_step bk mt step msg =
     (case step of
        STEP_FUNCTION \<Rightarrow>
          (let n = compute_meta_length_after_function (msg ! header_length bk) mt
           in if n \<noteq> 0 then Inr (STEP_META, n) else after_meta bk mt msg)
      | STEP_META \<Rightarrow> after_meta bk mt msg
      | STEP_DATA \<Rightarrow> Inr (STEP_DATA, 0))"

text \<open>What a read of a part of a piece leaves: a stream keeps the rest of it, a datagram is gone.\<close>

definition rest_of_piece :: "modbus_backend_t \<Rightarrow> nat \<Rightarrow> UCHAR list \<Rightarrow> pieces \<Rightarrow> pieces" where
  "rest_of_piece bk n bs ps = (if bk = RTUUDP_BACKEND \<or> length bs \<le> n then ps else Some (drop n bs) # ps)"

definition pieces_size :: "pieces \<Rightarrow> nat" where
  "pieces_size ps = sum_list (map (\<lambda>p. case p of None \<Rightarrow> 1 | Some bs \<Rightarrow> Suc (length bs)) ps)"

lemma rest_of_piece_size: "0 < n \<Longrightarrow> pieces_size (rest_of_piece bk n bs ps) < pieces_size (Some bs # ps)"
  by (auto simp: rest_of_piece_def pieces_size_def)

function receive_loop :: "modbus_backend_t \<Rightarrow> msg_type_t \<Rightarrow> step_t \<Rightarrow> nat \<Rightarrow> UCHAR list \<Rightarrow> pieces \<Rightarrow> UCHAR list reply" where
  "receive_loop bk mt step length_to_read msg ps =
     (if length_to_read = 0 then Inr msg
      else case ps of
        [] \<Rightarrow> Inl ETIMEDOUT
      | None # ps' \<Rightarrow> Inl EIO
      | Some bs # ps' \<Rightarrow>
          if bs = [] then Inl ECONNRESET
          else let msg' = msg @ take length_to_read bs; ps'' = rest_of_piece bk length_to_read bs ps'
               in if length bs < length_to_read
                  then receive_loop bk mt step (length_to_read - length bs) msg' ps''
                  else case next_step bk mt step msg' of
                         Inl e \<Rightarrow> Inl e
                       | Inr (step', n) \<Rightarrow> receive_loop bk mt step' n msg' ps'')"
  by pat_completeness auto

termination
  by (relation "measure (\<lambda>(bk, mt, step, n, msg, ps). pieces_size ps)") (auto intro: rest_of_piece_size)

declare receive_loop.simps [simp del]

definition check_integrity :: "modbus_backend_t \<Rightarrow> UCHAR list \<Rightarrow> UCHAR list reply" where
  "check_integrity bk msg =
     (if bk = TCP_BACKEND then Inr msg
      else let n = length msg
           in if crc16 (take (n - 2) msg) = mk_ushort (msg ! (n - 2)) (msg ! (n - 1)) then Inr msg else Inl EMBBADCRC)"

definition receive_msg :: "modbus_backend_t \<Rightarrow> msg_type_t \<Rightarrow> pieces \<Rightarrow> UCHAR list reply" where
  "receive_msg bk mt ps =
     (case receive_loop bk mt STEP_FUNCTION (header_length bk + 1) [] ps of
        Inl e \<Rightarrow> Inl e | Inr msg \<Rightarrow> check_integrity bk msg)"

section \<open>Checking the answer\<close>

text \<open>The expected length of the answer; \<open>None\<close> where the answer itself tells.\<close>

definition compute_response_length_from_request :: "modbus_backend_t \<Rightarrow> UCHAR list \<Rightarrow> nat option" where
  "compute_response_length_from_request bk req =
     (let off = header_length bk; fc = req ! off; nb = unat (mk_ushort (req ! (off + 3)) (req ! (off + 4)));
          total = (\<lambda>n. Some (off + n + checksum_length bk))
      in if fc = 0x01 \<or> fc = 0x02 then total (2 + nb div 8 + (if nb mod 8 \<noteq> 0 then 1 else 0))
         else if fc = 0x17 \<or> fc = 0x03 \<or> fc = 0x04 then total (2 + 2 * nb)
         else if fc = 0x07 then total 3
         else if fc = 0x11 then None
         else total 5)"

text \<open>The counts that the request asks for and that the answer carries.\<close>

definition nb_values :: "modbus_backend_t \<Rightarrow> UCHAR list \<Rightarrow> UCHAR list \<Rightarrow> nat \<times> nat" where
  "nb_values bk req rsp =
     (let off = header_length bk; fc = rsp ! off; nb = unat (mk_ushort (req ! (off + 3)) (req ! (off + 4)))
      in if fc = 0x01 \<or> fc = 0x02 then (nb div 8 + (if nb mod 8 \<noteq> 0 then 1 else 0), unat (rsp ! (off + 1)))
         else if fc = 0x17 \<or> fc = 0x03 \<or> fc = 0x04 then (nb, unat (rsp ! (off + 1)) div 2)
         else if fc = 0x0F \<or> fc = 0x10 then (nb, unat (mk_ushort (rsp ! (off + 3)) (rsp ! (off + 4))))
         else if fc = 0x11 then (unat (rsp ! (off + 1)), unat (rsp ! (off + 1)))
         else (1, 1))"

definition check_confirmation :: "modbus_backend_t \<Rightarrow> UCHAR list \<Rightarrow> UCHAR list \<Rightarrow> nat reply" where
  "check_confirmation bk req rsp =
     (let off = header_length bk; expected = compute_response_length_from_request bk req
      in if bk = TCP_BACKEND \<and> (req ! 0 \<noteq> rsp ! 0 \<or> req ! 1 \<noteq> rsp ! 1) then Inl EMBBADDATA
         else if expected = None \<or> expected = Some (length rsp)
         then (if rsp ! off \<noteq> req ! off then Inl EMBBADDATA
               else let (req_nb_value, rsp_nb_value) = nb_values bk req rsp
                    in if req_nb_value = rsp_nb_value then Inr rsp_nb_value else Inl EMBBADDATA)
         else if length rsp = off + 2 + checksum_length bk \<and> int (unat (req ! off)) = int (unat (rsp ! off)) - 0x80
         then (let exception_code = unat (rsp ! (off + 1))
               in if exception_code < MODBUS_EXCEPTION_MAX then Inl (EMBX exception_code) else Inl EMBBADEXC)
         else Inl EMBBADDATA)"

section \<open>Requests\<close>

text \<open>
  A request is sent, its answer received and checked; the number of values and the answer, or the result of the send
  call when nothing was sent.
\<close>

definition exchange :: "'s link \<Rightarrow> modbus_t \<Rightarrow> UCHAR list \<Rightarrow> 's wire \<Rightarrow> ((int \<times> UCHAR list) reply \<times> 's wire) res" where
  "exchange link ctx req w =
     bind_res (send_msg link (mc_backend ctx) req w) (\<lambda>(r, ps, w').
       case r of
         Inl e \<Rightarrow> Inr (Inl e, w')
       | Inr rc \<Rightarrow>
           if rc > 0
           then Inr (case receive_msg (mc_backend ctx) MSG_CONFIRMATION ps of
                       Inl e \<Rightarrow> Inl e
                     | Inr rsp \<Rightarrow> map_sum id (\<lambda>n. (int n, rsp)) (check_confirmation (mc_backend ctx) req rsp), w')
           else Inr (Inr (rc, []), w'))"

text \<open>A request made of a header and of further bytes.\<close>

definition modbus_request ::
  "'s link \<Rightarrow> modbus_t \<Rightarrow> UCHAR \<Rightarrow> int \<Rightarrow> int \<Rightarrow> UCHAR list \<Rightarrow> 's wire \<Rightarrow> ((int \<times> UCHAR list) reply \<times> 's wire) res" where
  "modbus_request link ctx fc addr nb payload w =
     bind_res (build_request_basis (wi_tid w) ctx fc addr nb) (\<lambda>(t, req).
       exchange link ctx (req @ payload) (w\<lparr>wi_tid := t\<rparr>))"

text \<open>The results of the client functions are the return value and, for the reads, the array \<open>dest\<close>.\<close>

definition byte_bits :: "UCHAR \<Rightarrow> bool list" where
  "byte_bits b = map (bit b) [0..<8]"

definition read_io_status :: "'s link \<Rightarrow> modbus_t \<Rightarrow> UCHAR \<Rightarrow> int \<Rightarrow> int \<Rightarrow> 's wire \<Rightarrow> ((int \<times> bool list) reply \<times> 's wire) res" where
  "read_io_status link ctx fc addr nb w =
     bind_res (modbus_request link ctx fc addr nb [] w) (\<lambda>(r, w').
       Inr (map_sum id (\<lambda>(n, rsp).
              (n, take (nat nb) (concat (map byte_bits (take (nat n) (drop (header_length (mc_backend ctx) + 2) rsp)))))) r, w'))"

definition MODBUS_MAX_READ_BITS :: int where
  "MODBUS_MAX_READ_BITS = 2000"

definition read_bits_result :: "int \<Rightarrow> (int \<times> bool list) reply \<Rightarrow> (int \<times> bool list) reply" where
  "read_bits_result nb r = map_sum id (\<lambda>(n, bs). (nb, bs)) r"

definition modbus_read_bits :: "'s link \<Rightarrow> modbus_t \<Rightarrow> int \<Rightarrow> int \<Rightarrow> 's wire \<Rightarrow> ((int \<times> bool list) reply \<times> 's wire) res" where
  "modbus_read_bits link ctx addr nb w =
     (if nb > MODBUS_MAX_READ_BITS then Inr (Inl EMBMDATA, w)
      else bind_res (read_io_status link ctx 0x01 addr nb w) (\<lambda>(r, w'). Inr (read_bits_result nb r, w')))"

definition modbus_read_input_bits :: "'s link \<Rightarrow> modbus_t \<Rightarrow> int \<Rightarrow> int \<Rightarrow> 's wire \<Rightarrow> ((int \<times> bool list) reply \<times> 's wire) res" where
  "modbus_read_input_bits link ctx addr nb w =
     (if nb > MODBUS_MAX_READ_BITS then Inr (Inl EMBMDATA, w)
      else bind_res (read_io_status link ctx 0x02 addr nb w) (\<lambda>(r, w'). Inr (read_bits_result nb r, w')))"

definition MODBUS_MAX_READ_REGISTERS :: int where
  "MODBUS_MAX_READ_REGISTERS = 125"

definition answer_registers :: "nat \<Rightarrow> UCHAR list \<Rightarrow> nat \<Rightarrow> USHORT list" where
  "answer_registers off rsp n = map (\<lambda>i. mk_ushort (rsp ! (off + 2 + 2 * i)) (rsp ! (off + 3 + 2 * i))) [0..<n]"

definition read_registers :: "'s link \<Rightarrow> modbus_t \<Rightarrow> UCHAR \<Rightarrow> int \<Rightarrow> int \<Rightarrow> 's wire \<Rightarrow> ((int \<times> USHORT list) reply \<times> 's wire) res" where
  "read_registers link ctx fc addr nb w =
     (if nb > MODBUS_MAX_READ_REGISTERS then Inr (Inl EMBMDATA, w)
      else bind_res (modbus_request link ctx fc addr nb [] w) (\<lambda>(r, w').
             Inr (map_sum id (\<lambda>(n, rsp). (n, answer_registers (header_length (mc_backend ctx)) rsp (nat n))) r, w')))"

definition modbus_read_registers :: "'s link \<Rightarrow> modbus_t \<Rightarrow> int \<Rightarrow> int \<Rightarrow> 's wire \<Rightarrow> ((int \<times> USHORT list) reply \<times> 's wire) res" where
  "modbus_read_registers link ctx addr nb w =
     (if nb > MODBUS_MAX_READ_REGISTERS then Inr (Inl EMBMDATA, w) else read_registers link ctx 0x03 addr nb w)"

definition modbus_read_input_registers :: "'s link \<Rightarrow> modbus_t \<Rightarrow> int \<Rightarrow> int \<Rightarrow> 's wire \<Rightarrow> ((int \<times> USHORT list) reply \<times> 's wire) res" where
  "modbus_read_input_registers link ctx addr nb w =
     (if nb > MODBUS_MAX_READ_REGISTERS then Inr (Inl EMBMDATA, w) else read_registers link ctx 0x04 addr nb w)"

definition write_single :: "'s link \<Rightarrow> modbus_t \<Rightarrow> UCHAR \<Rightarrow> int \<Rightarrow> int \<Rightarrow> 's wire \<Rightarrow> (int reply \<times> 's wire) res" where
  "write_single link ctx fc addr val w =
     bind_res (modbus_request link ctx fc addr val [] w) (\<lambda>(r, w'). Inr (map_sum id fst r, w'))"

definition modbus_write_bit :: "'s link \<Rightarrow> modbus_t \<Rightarrow> int \<Rightarrow> int \<Rightarrow> 's wire \<Rightarrow> (int reply \<times> 's wire) res" where
  "modbus_write_bit link ctx addr status w = write_single link ctx 0x05 addr (if status \<noteq> 0 then 0xFF00 else 0) w"

definition modbus_write_register :: "'s link \<Rightarrow> modbus_t \<Rightarrow> int \<Rightarrow> int \<Rightarrow> 's wire \<Rightarrow> (int reply \<times> 's wire) res" where
  "modbus_write_register link ctx addr val w = write_single link ctx 0x06 addr val w"

definition MODBUS_MAX_WRITE_BITS :: int where
  "MODBUS_MAX_WRITE_BITS = 1968"

text \<open>Eight bits go into a byte, the first one into its lowest bit; the last byte is filled up with zeros.\<close>

definition bits_byte :: "bool list \<Rightarrow> UCHAR" where
  "bits_byte bs = foldr (\<lambda>b acc. of_bool b + 2 * acc) bs 0"

fun pack_bits :: "bool list \<Rightarrow> UCHAR list" where
  "pack_bits [] = []"
| "pack_bits (b # bs) = bits_byte (take 8 (b # bs)) # pack_bits (drop 8 (b # bs))"

text \<open>\<open>src\<close> holds the \<open>nb\<close> values; a non-zero byte is a set bit.\<close>

definition modbus_write_bits :: "'s link \<Rightarrow> modbus_t \<Rightarrow> int \<Rightarrow> bool list \<Rightarrow> 's wire \<Rightarrow> (int reply \<times> 's wire) res" where
  "modbus_write_bits link ctx addr src w =
     (let nb = int (length src)
      in if nb > MODBUS_MAX_WRITE_BITS then Inr (Inl EMBMDATA, w)
         else bind_res (modbus_request link ctx 0x0F addr nb (int_lo (int (length (pack_bits src))) # pack_bits src) w)
                (\<lambda>(r, w'). Inr (map_sum id fst r, w')))"

definition MODBUS_MAX_WRITE_REGISTERS :: int where
  "MODBUS_MAX_WRITE_REGISTERS = 123"

definition modbus_write_registers :: "'s link \<Rightarrow> modbus_t \<Rightarrow> int \<Rightarrow> USHORT list \<Rightarrow> 's wire \<Rightarrow> (int reply \<times> 's wire) res" where
  "modbus_write_registers link ctx addr src w =
     (let nb = int (length src)
      in if nb > MODBUS_MAX_WRITE_REGISTERS then Inr (Inl EMBMDATA, w)
         else bind_res (modbus_request link ctx 0x10 addr nb
                  (int_lo (nb * 2) # concat (map (\<lambda>r. [hi_byte r, lo_byte r]) src)) w)
                (\<lambda>(r, w'). Inr (map_sum id fst r, w')))"

end
