(* ===== verification/LibModbusFrames.thy ===== *)
theory LibModbusFrames
  imports LibModbus
begin

text \<open>
  What the client side of libmodbus does with a line: the checksum is the one of the slave library, the receiver
  reassembles an answer from pieces of any size, and the calls over RTU return what a complete answer carries.
\<close>

section \<open>The checksum\<close>

lemma crc_tables: "table_crc_hi = aucCRCHi" "table_crc_lo = aucCRCLo"
  by (simp_all add: table_crc_hi_def table_crc_lo_def aucCRCHi_def aucCRCLo_def)

text \<open>Both libraries use the same tables; the pair of bytes is held in the opposite order.\<close>

lemma crc16_round_swap: "crc16_round (prod.swap s) b = prod.swap (crc_round s b)"
  by (simp add: crc16_round_def crc_round_def crc_tables Let_def)

lemma crc16_foldl_swap: "foldl crc16_round (prod.swap s) bs = prod.swap (foldl crc_round s bs)"
  by (induction bs arbitrary: s) (simp_all add: crc16_round_swap)

lemma crc16_bytes: "hi_byte (crc16 bs) = lo_byte (usMBCRC16 bs)" "lo_byte (crc16 bs) = hi_byte (usMBCRC16 bs)"
  using crc16_foldl_swap[of "(0xFF, 0xFF)" bs]
  by (simp_all add: crc16_def usMBCRC16_def Let_def mk_ushort_def[symmetric] split: prod.splits)

section \<open>The receiver on a stream\<close>

text \<open>The reference: a receiver of a plain list of bytes.\<close>

function receive_bytes :: "modbus_backend_t \<Rightarrow> msg_type_t \<Rightarrow> step_t \<Rightarrow> nat \<Rightarrow> UCHAR list \<Rightarrow> UCHAR list \<Rightarrow> UCHAR list reply" where
  "receive_bytes bk mt step n msg bs =
     (if n = 0 then Inr msg
      else if length bs < n then Inl ETIMEDOUT
      else case next_step bk mt step (msg @ take n bs) of
             Inl e \<Rightarrow> Inl e
           | Inr (step', m) \<Rightarrow> receive_bytes bk mt step' m (msg @ take n bs) (drop n bs))"
  by pat_completeness auto

termination
  by (relation "measure (\<lambda>(bk, mt, step, n, msg, bs). length bs)") auto

declare receive_bytes.simps [simp del]

text \<open>A stream without failures: every piece has bytes.\<close>

definition stream :: "pieces \<Rightarrow> bool" where
  "stream ps \<longleftrightarrow> list_all (\<lambda>p. p \<noteq> None \<and> p \<noteq> Some []) ps"

definition stream_bytes :: "pieces \<Rightarrow> UCHAR list" where
  "stream_bytes ps = concat (map the ps)"

lemma stream_Cons: "stream (Some bs # ps) \<longleftrightarrow> bs \<noteq> [] \<and> stream ps" "\<not> stream (None # ps)" "stream []"
  "stream_bytes (Some bs # ps) = bs @ stream_bytes ps" "stream_bytes [] = []"
  by (auto simp: stream_def stream_bytes_def)

lemma stream_rest:
  "stream (Some bs # ps) \<Longrightarrow> bk \<noteq> RTUUDP_BACKEND \<Longrightarrow> stream (rest_of_piece bk n bs ps) \<and>
    stream_bytes (rest_of_piece bk n bs ps) = drop n bs @ stream_bytes ps"
  by (auto simp: rest_of_piece_def stream_Cons)

lemma receive_bytes_part:
  assumes "length bs < n" "bs \<noteq> []"
  shows "receive_bytes bk mt step n msg (bs @ cs) = receive_bytes bk mt step (n - length bs) (msg @ bs) cs"
  using assms by (subst (1 2) receive_bytes.simps) (auto simp: less_diff_conv split: sum.split)

lemma receive_loop_bytes:
  assumes "bk \<noteq> RTUUDP_BACKEND" "stream ps"
  shows "receive_loop bk mt step n msg ps = receive_bytes bk mt step n msg (stream_bytes ps)"
  using assms
proof (induction bk mt step n msg ps rule: receive_loop.induct)
  case (1 bk mt step n msg ps)
  show ?case
  proof (cases ps)
    case Nil
    then show ?thesis by (simp add: receive_loop.simps receive_bytes.simps stream_Cons)
  next
    case (Cons p ps')
    then obtain bs where p: "ps = Some bs # ps'" "bs \<noteq> []" "stream ps'" using 1(4) by (cases p) (auto simp: stream_Cons)
    show ?thesis
    proof (cases "n = 0")
      case True
      then show ?thesis by (simp add: receive_loop.simps receive_bytes.simps)
    next
      case n: False
      have r: "stream (rest_of_piece bk n bs ps')" "stream_bytes (rest_of_piece bk n bs ps') = drop n bs @ stream_bytes ps'"
        using stream_rest[of bs ps' bk n] p 1(3) by (auto simp: stream_Cons)
      show ?thesis
      proof (cases "length bs < n")
        case True
        then show ?thesis
          using 1(1)[OF n _ _ _ refl refl True] n p r 1(3) receive_bytes_part[OF True p(2)]
          by (subst receive_loop.simps) (simp add: stream_Cons Let_def)
      next
        case False
        then show ?thesis
          using 1(2)[OF n _ _ _ refl refl False] n p r 1(3)
          by (subst receive_loop.simps, subst receive_bytes.simps) (auto simp: stream_Cons Let_def split: sum.split prod.split)
      qed
    qed
  qed
qed


section \<open>Complete RTU frames\<close>

text \<open>
  A frame that has the length its first bytes announce to a server (an indication) or to a client (a confirmation),
  and the right checksum.
\<close>

definition rtu_frame_for :: "msg_type_t \<Rightarrow> UCHAR list \<Rightarrow> bool" where
  "rtu_frame_for mt fr \<longleftrightarrow>
     1 \<le> compute_meta_length_after_function (fr ! 1) mt \<and>
     length fr = 2 + compute_meta_length_after_function (fr ! 1) mt + compute_data_length_after_meta RTU_BACKEND fr mt \<and>
     length fr \<le> 256 \<and> drop (length fr - 2) fr = [hi_byte (crc16 (take (length fr - 2) fr)), lo_byte (crc16 (take (length fr - 2) fr))]"

abbreviation rtu_frame :: "UCHAR list \<Rightarrow> bool" where
  "rtu_frame \<equiv> rtu_frame_for MSG_CONFIRMATION"

lemma backend_lengths [simp]:
  "header_length RTU_BACKEND = 1" "header_length RTUTCP_BACKEND = 1" "header_length TCP_BACKEND = 7"
  "checksum_length RTU_BACKEND = 2" "checksum_length RTUTCP_BACKEND = 2" "checksum_length TCP_BACKEND = 0"
  "max_adu_length RTU_BACKEND = 256" "max_adu_length RTUTCP_BACKEND = 256" "max_adu_length TCP_BACKEND = 260"
  by (simp_all add: header_length_def checksum_length_def max_adu_length_def)

lemma meta_pos: "1 \<le> compute_meta_length_after_function fc MSG_CONFIRMATION"
  by (simp add: compute_meta_length_after_function_def)

lemma data_length_prefix:
  "1 \<le> compute_meta_length_after_function (fr ! 1) mt \<Longrightarrow> 2 + compute_meta_length_after_function (fr ! 1) mt \<le> n \<Longrightarrow>
   compute_data_length_after_meta RTU_BACKEND (take n fr) mt = compute_data_length_after_meta RTU_BACKEND fr mt"
  by (auto simp: compute_data_length_after_meta_def compute_meta_length_after_function_def Let_def split: if_splits)

lemma take_more: "take a fr @ take b (drop a fr) = take (a + b) fr"
  by (simp add: take_add)

text \<open>The three steps of the receiver on a complete frame; what follows it stays unread.\<close>

lemma receive_frame:
  assumes "rtu_frame_for mt fr" "stream ps" "stream_bytes ps = fr @ extra"
  shows "receive_msg RTU_BACKEND mt ps = Inr fr"
proof -
  define m where "m = compute_meta_length_after_function (fr ! 1) mt"
  define d where "d = compute_data_length_after_meta RTU_BACKEND fr mt"
  have len: "length fr = 2 + m + d" "length fr \<le> 256" using assms(1) by (simp_all add: rtu_frame_for_def m_def d_def)
  have m: "1 \<le> m" "0 < d" using assms(1) by (simp_all add: rtu_frame_for_def m_def d_def compute_data_length_after_meta_def Let_def)
  note rb = receive_bytes.simps[of RTU_BACKEND mt]
  have s1: "next_step RTU_BACKEND mt STEP_FUNCTION (take 2 fr) = Inr (STEP_META, m)"
    using m(1) len by (simp add: next_step_def Let_def m_def)
  have "compute_data_length_after_meta RTU_BACKEND (take (2 + m) fr) mt = d"
    using data_length_prefix[of fr mt "2 + m"] m(1) by (simp add: d_def m_def)
  then have s2: "next_step RTU_BACKEND mt STEP_META (take (2 + m) fr) = Inr (STEP_DATA, d)"
    using len by (simp add: next_step_def after_meta_def)
  have t: "take 2 fr @ take m (drop 2 (fr @ extra)) = take (2 + m) fr"
    "take (2 + m) fr @ take d (drop (2 + m) (fr @ extra)) = fr" "take 2 (fr @ extra) = take 2 fr"
    using len take_more[of 2 fr m] take_more[of "2 + m" fr d] by simp_all
  have "receive_bytes RTU_BACKEND mt STEP_DATA d (take (2 + m) fr) (drop (2 + m) (fr @ extra)) = Inr fr"
    using m len t(2) by (subst rb) (simp add: next_step_def rb[of _ 0])
  then have "receive_bytes RTU_BACKEND mt STEP_META m (take 2 fr) (drop 2 (fr @ extra)) = Inr fr"
    using m len s2 t(1) by (subst rb) (simp add: add.commute)
  then have "receive_bytes RTU_BACKEND mt STEP_FUNCTION 2 [] (fr @ extra) = Inr fr"
    using len s1 t(3) by (subst rb) simp
  then have loop: "receive_loop RTU_BACKEND mt STEP_FUNCTION 2 [] ps = Inr fr"
    using receive_loop_bytes[OF _ assms(2), of RTU_BACKEND] assms(3) by simp
  let ?n = "length fr - 2"
  have "drop ?n fr = [fr ! ?n, fr ! (length fr - 1)]"
    using len m by (intro nth_equalityI) (auto simp: less_Suc_eq numeral_2_eq_2)
  moreover have "drop ?n fr = [hi_byte (crc16 (take ?n fr)), lo_byte (crc16 (take ?n fr))]"
    using assms(1) unfolding rtu_frame_for_def by blast
  ultimately have "fr ! ?n = hi_byte (crc16 (take ?n fr))" "fr ! (length fr - 1) = lo_byte (crc16 (take ?n fr))"
    by (metis list.inject)+
  then have "check_integrity RTU_BACKEND fr = Inr fr" by (simp only: check_integrity_def Let_def mk_ushort_bytes) simp
  then show ?thesis using loop by (simp add: receive_msg_def numeral_2_eq_2)
qed


section \<open>Requests over RTU\<close>

definition rtu_seal :: "UCHAR list \<Rightarrow> UCHAR list" where
  "rtu_seal bs = bs @ [hi_byte (crc16 bs), lo_byte (crc16 bs)]"

lemma send_msg_pre_rtu: "send_msg_pre RTU_BACKEND bs = rtu_seal bs"
  by (simp add: send_msg_pre_def rtu_seal_def)

lemma rtu_frame_seal_for:
  assumes "length bs = compute_meta_length_after_function (bs ! 1) mt + compute_data_length_after_meta RTU_BACKEND bs mt"
    "3 \<le> length bs" "length bs \<le> 254" "1 \<le> compute_meta_length_after_function (bs ! 1) mt"
  shows "rtu_frame_for mt (rtu_seal bs)"
proof -
  have b1: "rtu_seal bs ! 1 = bs ! 1" using assms(2) by (simp add: rtu_seal_def nth_append)
  have "2 \<le> compute_data_length_after_meta RTU_BACKEND bs mt" by (simp add: compute_data_length_after_meta_def Let_def)
  then have "compute_data_length_after_meta RTU_BACKEND (rtu_seal bs) mt = compute_data_length_after_meta RTU_BACKEND bs mt"
    using data_length_prefix[of "rtu_seal bs" mt "length bs"] assms(1,4) b1 by (simp add: rtu_seal_def)
  then show ?thesis using assms b1 by (simp add: rtu_frame_for_def) (simp add: rtu_seal_def)
qed

lemma rtu_frame_seal:
  assumes "length bs = compute_meta_length_after_function (bs ! 1) MSG_CONFIRMATION
      + compute_data_length_after_meta RTU_BACKEND bs MSG_CONFIRMATION" "3 \<le> length bs" "length bs \<le> 254"
  shows "rtu_frame (rtu_seal bs)"
  by (rule rtu_frame_seal_for[OF assms meta_pos])

text \<open>A line that takes the whole message and delivers, in pieces of any size, an answer and perhaps more.\<close>

definition delivers :: "'s link \<Rightarrow> UCHAR list \<Rightarrow> 's \<Rightarrow> UCHAR list \<Rightarrow> 's \<Rightarrow> bool" where
  "delivers link m s fr s' \<longleftrightarrow>
     (\<exists>a extra. link m s = Inr (a, s') \<and> an_rc a = int (length m) \<and> stream (an_in a) \<and> stream_bytes (an_in a) = fr @ extra)"

definition sent :: "'s wire \<Rightarrow> UCHAR list \<Rightarrow> 's \<Rightarrow> 's wire" where
  "sent w m s = w\<lparr>wi_peer := s, wi_sent := wi_sent w @ [m]\<rparr>"

lemma exchange_rtu:
  assumes "mc_backend ctx = RTU_BACKEND" "delivers link (rtu_seal req) (wi_peer w) fr s" "rtu_frame fr"
  shows "exchange link ctx req w =
    Inr (map_sum id (\<lambda>n. (int n, fr)) (check_confirmation RTU_BACKEND req fr), sent w (rtu_seal req) s)"
proof -
  obtain a extra where a: "link (rtu_seal req) (wi_peer w) = Inr (a, s)" "an_rc a = int (length (rtu_seal req))"
    "stream (an_in a)" "stream_bytes (an_in a) = fr @ extra"
    using assms(2) by (auto simp: delivers_def)
  have "0 < length (rtu_seal req)" by (simp add: rtu_seal_def)
  then show ?thesis
    using a receive_frame[OF assms(3) a(3,4)] assms(1)
    by (simp add: exchange_def send_msg_def send_msg_pre_rtu Let_def sent_def)
qed

lemma request_rtu:
  assumes "mc_backend ctx = RTU_BACKEND" "mc_slave ctx \<noteq> -1"
    "delivers link (rtu_seal ([int_lo (mc_slave ctx), fc, int_hi addr, int_lo addr, int_hi nb, int_lo nb] @ payload)) (wi_peer w) fr s"
    "rtu_frame fr"
  shows "modbus_request link ctx fc addr nb payload w =
    Inr (map_sum id (\<lambda>n. (int n, fr)) (check_confirmation RTU_BACKEND
           ([int_lo (mc_slave ctx), fc, int_hi addr, int_lo addr, int_hi nb, int_lo nb] @ payload) fr),
         sent w (rtu_seal ([int_lo (mc_slave ctx), fc, int_hi addr, int_lo addr, int_hi nb, int_lo nb] @ payload)) s)"
proof -
  have "w\<lparr>wi_tid := wi_tid w\<rparr> = w" by simp
  then show ?thesis
    using exchange_rtu[OF assms(1,3,4)] assms(1,2)
    by (simp add: modbus_request_def build_request_basis_def rtu_build_request_basis_def)
qed

text \<open>The answers of a slave: written values are echoed, read registers follow their byte count, errors carry a code.\<close>

lemma int_bytes_word: "mk_ushort (int_hi n) (int_lo n) = word_of_int n"
proof -
  have "int_hi n = word_of_int (drop_bit 8 n)" by (simp add: int_hi_def drop_bit_eq_div)
  then show ?thesis unfolding mk_ushort_def int_lo_def by (intro bit_word_eqI) (auto simp: bit_simps)
qed

text \<open>The number of registers of a request, as the library reads it back from its own header.\<close>

lemma request_count: "0 \<le> n \<Longrightarrow> n < 65536 \<Longrightarrow> unat (mk_ushort (int_hi n) (int_lo n)) = nat n"
  by (simp add: int_bytes_word unat_eq_nat_uint uint_word_of_int_eq take_bit_eq_mod)

lemmas confirm_defs = check_confirmation_def compute_response_length_from_request_def nb_values_def Let_def

lemmas frame_length_defs = compute_meta_length_after_function_def compute_data_length_after_meta_def Let_def

lemma confirm_echo:
  assumes "fc = 0x05 \<or> fc = 0x06"
  shows "check_confirmation RTU_BACKEND ([sl, fc, a, b, c, d]) (rtu_seal [sl', fc, e, f, g, h]) = Inr 1"
    and "rtu_frame (rtu_seal [sl', fc, e, f, g, h])"
proof -
  show "check_confirmation RTU_BACKEND ([sl, fc, a, b, c, d]) (rtu_seal [sl', fc, e, f, g, h]) = Inr 1"
    using assms by (auto simp: confirm_defs rtu_seal_def)
  show "rtu_frame (rtu_seal [sl', fc, e, f, g, h])"
    by (rule rtu_frame_seal) (use assms in \<open>auto simp: frame_length_defs\<close>)
qed

lemma confirm_multi:
  assumes "fc = 0x0F \<or> fc = 0x10"
  shows "check_confirmation RTU_BACKEND ([sl, fc, a, b, c, d] @ payload) (rtu_seal [sl', fc, e, f, c, d]) =
      Inr (unat (mk_ushort c d))"
    and "rtu_frame (rtu_seal [sl', fc, e, f, c, d])"
proof -
  show "check_confirmation RTU_BACKEND ([sl, fc, a, b, c, d] @ payload) (rtu_seal [sl', fc, e, f, c, d]) =
      Inr (unat (mk_ushort c d))"
    using assms by (auto simp: confirm_defs rtu_seal_def)
  show "rtu_frame (rtu_seal [sl', fc, e, f, c, d])"
    by (rule rtu_frame_seal) (use assms in \<open>auto simp: frame_length_defs\<close>)
qed

lemma confirm_read:
  assumes "fc = 0x03 \<or> fc = 0x04" "n \<le> 125" "unat (mk_ushort c d) = n" "length data = 2 * n" "unat cnt = 2 * n"
  shows "check_confirmation RTU_BACKEND [sl, fc, a, b, c, d] (rtu_seal ([sl', fc, cnt] @ data)) = Inr n"
    and "rtu_frame (rtu_seal ([sl', fc, cnt] @ data))"
proof -
  show "check_confirmation RTU_BACKEND [sl, fc, a, b, c, d] (rtu_seal ([sl', fc, cnt] @ data)) = Inr n"
    using assms by (auto simp: confirm_defs rtu_seal_def)
  show "rtu_frame (rtu_seal ([sl', fc, cnt] @ data))"
    by (rule rtu_frame_seal) (use assms in \<open>auto simp: frame_length_defs\<close>)
qed

text \<open>An exception: the function code with the top bit set and a code. The requests that the channels send.\<close>

lemma confirm_exception:
  assumes "fc \<in> {0x03, 0x04, 0x05, 0x06, 0x0F, 0x10}" "fc \<in> {0x03, 0x04} \<longrightarrow> 0 < unat (mk_ushort c d)"
  shows "check_confirmation RTU_BACKEND ([sl, fc, a, b, c, d] @ payload) (rtu_seal [sl', fc OR 128, code]) =
      Inl (if unat code < 12 then EMBX (unat code) else EMBBADEXC)"
    and "rtu_frame (rtu_seal [sl', fc OR 128, code])"
proof -
  show "check_confirmation RTU_BACKEND ([sl, fc, a, b, c, d] @ payload) (rtu_seal [sl', fc OR 128, code]) =
      Inl (if unat code < 12 then EMBX (unat code) else EMBBADEXC)"
    using assms by (auto simp: confirm_defs rtu_seal_def MODBUS_EXCEPTION_MAX_def)
  show "rtu_frame (rtu_seal [sl', fc OR 128, code])"
    by (rule rtu_frame_seal) (use assms in \<open>auto simp: frame_length_defs\<close>)
qed

lemma answer_registers_bytes:
  "answer_registers 1 (sl # fc # cnt # concat (map (\<lambda>r. [hi_byte r, lo_byte r]) rs) @ rest) (length rs) = rs"
proof (rule nth_equalityI)
  fix i assume i: "i < length (answer_registers 1 (sl # fc # cnt # concat (map (\<lambda>r. [hi_byte r, lo_byte r]) rs) @ rest) (length rs))"
  have "concat (map (\<lambda>r. [hi_byte r, lo_byte r]) rs) ! (2 * i) = hi_byte (rs ! i) \<and>
      concat (map (\<lambda>r. [hi_byte r, lo_byte r]) rs) ! (2 * i + 1) = lo_byte (rs ! i)" if "i < length rs" for i
    using that
  proof (induction rs arbitrary: i)
    case (Cons r rs)
    then show ?case by (cases i) auto
  qed simp
  moreover have "length (concat (map (\<lambda>r. [hi_byte r, lo_byte r]) rs)) = 2 * length rs" by (induction rs) auto
  ultimately show "answer_registers 1 (sl # fc # cnt # concat (map (\<lambda>r. [hi_byte r, lo_byte r]) rs) @ rest) (length rs) ! i = rs ! i"
    using i by (simp add: answer_registers_def nth_append)
qed (simp add: answer_registers_def)

section \<open>Client calls over RTU\<close>

definition reg_payload :: "USHORT list \<Rightarrow> UCHAR list" where
  "reg_payload rs = concat (map (\<lambda>r. [hi_byte r, lo_byte r]) rs)"

lemma length_reg_payload [simp]: "length (reg_payload rs) = 2 * length rs"
  by (induction rs) (simp_all add: reg_payload_def)

definition rtu_request :: "modbus_t \<Rightarrow> UCHAR \<Rightarrow> int \<Rightarrow> int \<Rightarrow> UCHAR list \<Rightarrow> UCHAR list" where
  "rtu_request ctx fc addr nb payload =
     rtu_seal ([int_lo (mc_slave ctx), fc, int_hi addr, int_lo addr, int_hi nb, int_lo nb] @ payload)"

definition rtu_master :: "modbus_t \<Rightarrow> bool" where
  "rtu_master ctx \<longleftrightarrow> mc_backend ctx = RTU_BACKEND \<and> mc_slave ctx \<noteq> -1"

lemma read_registers_rtu:
  assumes "rtu_master ctx" "fc = 0x03 \<or> fc = 0x04" "1 \<le> length rs" "length rs \<le> 125"
    "delivers link (rtu_request ctx fc addr (int (length rs)) []) (wi_peer w)
       (rtu_seal ([sl, fc, of_nat (2 * length rs)] @ reg_payload rs)) s"
  shows "read_registers link ctx fc addr (int (length rs)) w =
    Inr (Inr (int (length rs), rs), sent w (rtu_request ctx fc addr (int (length rs)) []) s)"
proof -
  let ?n = "int (length rs)"
  have c: "unat (mk_ushort (int_hi ?n) (int_lo ?n)) = length rs" using assms(4) request_count[of ?n] by simp
  have cnt: "unat (of_nat (2 * length rs) :: UCHAR) = 2 * length rs"
    using assms(4) by (simp add: unat_of_nat take_bit_eq_mod del: of_nat_mult)
  note cf = confirm_read[OF assms(2,4) c _ cnt, where data = "reg_payload rs"]
  have "modbus_request link ctx fc addr ?n [] w =
    Inr (Inr (?n, rtu_seal ([sl, fc, of_nat (2 * length rs)] @ reg_payload rs)), sent w (rtu_request ctx fc addr ?n []) s)"
    using request_rtu[of ctx link fc addr ?n "[]" w _ s] assms(1,5) cf by (simp add: rtu_request_def rtu_master_def)
  moreover have "answer_registers 1 (rtu_seal ([sl, fc, of_nat (2 * length rs)] @ reg_payload rs)) (length rs) = rs"
    using answer_registers_bytes[of sl fc _ rs] by (simp add: rtu_seal_def reg_payload_def)
  ultimately show ?thesis
    using assms(1,4) by (simp add: read_registers_def MODBUS_MAX_READ_REGISTERS_def rtu_master_def)
qed

lemma write_register_rtu:
  assumes "rtu_master ctx"
    "delivers link (rtu_request ctx 0x06 addr v []) (wi_peer w)
       (rtu_seal [sl, 0x06, int_hi addr, int_lo addr, int_hi v, int_lo v]) s"
  shows "modbus_write_register link ctx addr v w = Inr (Inr 1, sent w (rtu_request ctx 0x06 addr v []) s)"
  using request_rtu[of ctx link "0x06" addr v "[]" w _ s] assms confirm_echo[of "0x06"]
  by (simp add: modbus_write_register_def write_single_def rtu_request_def rtu_master_def)

definition registers_payload :: "USHORT list \<Rightarrow> UCHAR list" where
  "registers_payload rs = int_lo (int (length rs) * 2) # reg_payload rs"

lemma write_registers_rtu:
  assumes "rtu_master ctx" "length rs \<le> 123"
    "delivers link (rtu_request ctx 0x10 addr (int (length rs)) (registers_payload rs)) (wi_peer w)
       (rtu_seal [sl, 0x10, int_hi addr, int_lo addr, int_hi (int (length rs)), int_lo (int (length rs))]) s"
  shows "modbus_write_registers link ctx addr rs w =
    Inr (Inr (int (length rs)), sent w (rtu_request ctx 0x10 addr (int (length rs)) (registers_payload rs)) s)"
  using request_rtu[of ctx link "0x10" addr "int (length rs)" "registers_payload rs" w _ s] assms
    confirm_multi[of "0x10"] request_count[of "int (length rs)"]
  by (simp add: modbus_write_registers_def rtu_request_def rtu_master_def registers_payload_def reg_payload_def
      MODBUS_MAX_WRITE_REGISTERS_def Let_def)

lemma request_exception_rtu:
  assumes "rtu_master ctx" "fc \<in> {0x03, 0x04, 0x05, 0x06, 0x0F, 0x10}" "fc \<in> {0x03, 0x04} \<longrightarrow> 0 < nb \<and> nb < 65536"
    "delivers link (rtu_request ctx fc addr nb payload) (wi_peer w) (rtu_seal [sl, fc OR 128, code]) s"
  shows "modbus_request link ctx fc addr nb payload w =
    Inr (Inl (if unat code < 12 then EMBX (unat code) else EMBBADEXC), sent w (rtu_request ctx fc addr nb payload) s)"
proof -
  have "fc \<in> {0x03, 0x04} \<longrightarrow> 0 < unat (mk_ushort (int_hi nb) (int_lo nb))" using assms(3) request_count[of nb] by auto
  then show ?thesis
    using request_rtu[of ctx link fc addr nb payload w _ s] assms(1,4) confirm_exception[OF assms(2)]
    by (simp add: rtu_request_def rtu_master_def)
qed

section \<open>Bits\<close>

lemma bit_bits_byte: "i < length bs \<Longrightarrow> length bs \<le> 8 \<Longrightarrow> bit (bits_byte bs) i = bs ! i"
proof (induction bs arbitrary: i)
  case (Cons b bs)
  have "bit (of_bool b + 2 * bits_byte bs :: UCHAR) i = (if i = 0 then b else bit (bits_byte bs) (i - 1))"
    using Cons.prems by (cases i) (auto simp: bit_simps even_bit_succ_iff bit_double_iff bit_0)
  then show ?case using Cons by (cases i) (simp_all add: bits_byte_def)
qed simp

lemma byte_bits_pack: "length bs \<le> 8 \<Longrightarrow> take (length bs) (byte_bits (bits_byte bs)) = bs"
  by (rule nth_equalityI) (auto simp: byte_bits_def bit_bits_byte)

lemma pack_bits_unpack: "take (length bs) (concat (map byte_bits (pack_bits bs))) = bs"
proof (induction bs rule: pack_bits.induct)
  case (2 b bs)
  let ?c = "take 8 (b # bs)"
  have l: "length (byte_bits x) = 8" for x by (simp add: byte_bits_def)
  have "take (length (b # bs)) (concat (map byte_bits (pack_bits (b # bs)))) =
      take (length (b # bs)) (byte_bits (bits_byte ?c)) @ take (length (b # bs) - 8) (concat (map byte_bits (pack_bits (drop 8 (b # bs)))))"
    by (simp add: l)
  also have "take (length (b # bs)) (byte_bits (bits_byte ?c)) = ?c"
    using byte_bits_pack[of ?c] l[of "bits_byte ?c"] by (cases "length (b # bs) \<le> 8") (auto simp: min_def)
  also have "take (length (b # bs) - 8) (concat (map byte_bits (pack_bits (drop 8 (b # bs))))) = drop 8 (b # bs)"
    using 2 by simp
  finally show ?case by (simp only: append_take_drop_id)
qed simp

section \<open>Properties\<close>

text \<open>C28: how the answer is cut into pieces on the way does not matter: on a serial line or a stream socket two
  sequences of non-empty pieces with the same bytes are received as the same message, or fail alike.\<close>

theorem receive_independent_of_pieces:
  assumes "bk \<noteq> RTUUDP_BACKEND" "stream ps" "stream qs" "stream_bytes ps = stream_bytes qs"
  shows "receive_msg bk mt ps = receive_msg bk mt qs"
  using assms by (simp add: receive_msg_def receive_loop_bytes)

theorem receive_independent_of_pieces_witness:
  "receive_msg RTU_BACKEND MSG_CONFIRMATION [Some [1], Some [3, 2, 15], Some [160, 188, 12]] =
   receive_msg RTU_BACKEND MSG_CONFIRMATION [Some [1, 3, 2, 15, 160, 188, 12]]"
  by (rule receive_independent_of_pieces) (simp_all add: stream_def stream_bytes_def)

text \<open>Fact: an answer that arrives as one datagram is lost with the RTU over UDP backend: the receiver asks for two bytes
  first, and the rest of the datagram is discarded with this read.\<close>

theorem rtuudp_answer_lost:
  "receive_msg RTUUDP_BACKEND MSG_CONFIRMATION [Some bs] \<noteq> Inr msg"
proof -
  have "next_step RTUUDP_BACKEND MSG_CONFIRMATION STEP_FUNCTION m = Inr (STEP_META,
      compute_meta_length_after_function (m ! 1) MSG_CONFIRMATION)" for m
    using meta_pos[of "m ! 1"] by (simp add: next_step_def Let_def header_length_def)
  moreover have "0 < compute_meta_length_after_function (bs ! 1) MSG_CONFIRMATION" using meta_pos[of "bs ! 1"] by simp
  ultimately show ?thesis
    by (auto simp: receive_msg_def receive_loop.simps rest_of_piece_def header_length_def Let_def)
qed

text \<open>Fact: the bits that a request packs into bytes are the bits the library unpacks from an answer.\<close>

theorem modbus_bits_roundtrip:
  "take (length bs) (concat (map byte_bits (pack_bits bs))) = bs \<and>
   int (length (pack_bits bs)) = int (length bs) div 8 + (if int (length bs) mod 8 \<noteq> 0 then 1 else 0)"
proof -
  have "length (pack_bits bs) = length bs div 8 + (if length bs mod 8 \<noteq> 0 then 1 else 0)"
  proof (induction bs rule: pack_bits.induct)
    case (2 b bs)
    then show ?case by (cases "length (b # bs) < 8") (auto simp: le_div_geq le_mod_geq)
  qed simp
  then have "int (length (pack_bits bs)) = int (length bs div 8 + (if length bs mod 8 \<noteq> 0 then 1 else 0))" by simp
  also have "\<dots> = int (length bs) div 8 + (if int (length bs) mod 8 \<noteq> 0 then 1 else 0)"
    using zmod_int[of "length bs" 8] by (simp add: zdiv_int)
  finally show ?thesis using pack_bits_unpack by blast
qed

end
