(* ===== verification/Chan.thy ===== *)
theory Chan
  imports LibModbusFrames RingBuffers Sqlite Doubles
begin

text \<open>
  The field channels of \<open>chan.c\<close>: their configuration from the database, the start of a channel in each of its modes,
  the Modbus requests with and without retries (over the model of libmodbus), digital inputs and outputs, and the
  threads that move bytes and CAN frames between a device and the ring buffers. The answers of the operating system
  are arguments. The mutex of a channel only protects the ring buffers; a step of a thread is one locked section.
\<close>

section \<open>Channels\<close>

text \<open>A pointer to an allocated object; a freed one may still be held.\<close>

datatype 'a cptr = Null | Live 'a | Freed

definition deref_ptr :: "'a cptr \<Rightarrow> 'a res" where
  "deref_ptr p = (case p of Null \<Rightarrow> Inl Null_deref | Live x \<Rightarrow> Inr x | Freed \<Rightarrow> Inl Use_after_free)"

lemma deref_ptr_simps [simp]:
  "deref_ptr Null = Inl Null_deref" "deref_ptr (Live x) = Inr x" "deref_ptr Freed = Inl Use_after_free"
  by (simp_all add: deref_ptr_def)

datatype chanmode_t =
    CHANMODE_UNKNOWN | CHANMODE_SERIAL | CHANMODE_SOCKET_CAN | CHANMODE_TCPSERV_CAN | CHANMODE_MODBUS_RTU
  | CHANMODE_MODBUS_RTU_SLAVE | CHANMODE_MODBUS_TCP | CHANMODE_MODBUS_TCP_SLAVE | CHANMODE_UDP2SERIAL
  | CHANMODE_TCP2SERIAL | CHANMODE_DI | CHANMODE_DO

text \<open>The members that \<open>chan.c\<close> uses.\<close>

record chan_t =
  ch_rstcnt :: dbl
  ch_servip :: string
  ch_servport :: int
  ch_szinfo :: string
  ch_dbg :: int
  ch_en :: int
  ch_ctx :: "modbus_t cptr"
  ch_fd :: int
  ch_baud :: int
  ch_szparity :: string
  ch_szdev :: string
  ch_port :: int
  ch_szmode :: string
  ch_mode :: chanmode_t
  ch_sockfd :: int
  ch_errcnt :: uint32
  ch_started :: int
  ch_restart_times :: int
  ch_retry_times :: int
  serial_rxrb :: "chan_serial_ringbuffer_t cptr"
  serial_txrb :: "chan_serial_ringbuffer_t cptr"
  socketcan_rxrb :: "chan_socketcan_ringbuffer_t cptr"
  socketcan_txrb :: "chan_socketcan_ringbuffer_t cptr"
  tcpservcan_rxrb :: "chan_tcpservcan_ringbuffer_t cptr"
  tcpservcan_txrb :: "chan_tcpservcan_ringbuffer_t cptr"

definition CHAN_NBR_MAX :: nat where
  "CHAN_NBR_MAX = 8"

text \<open>The global variables, with the line that the Modbus contexts share.\<close>

record 's chans_t =
  chan :: "chan_t list"
  channbr :: int
  chan_wire :: "'s wire"

definition chans_ok :: "'s chans_t \<Rightarrow> bool" where
  "chans_ok st \<longleftrightarrow> length (chan st) = CHAN_NBR_MAX + 1"

text \<open>\<open>chan[idx]\<close>: reads and writes outside the array.\<close>

definition chan_at :: "int \<Rightarrow> 's chans_t \<Rightarrow> chan_t res" where
  "chan_at idx st = (if 0 \<le> idx \<and> nat idx < length (chan st) then Inr (chan st ! nat idx) else Inl Out_of_bounds_read)"

definition chan_put :: "int \<Rightarrow> chan_t \<Rightarrow> 's chans_t \<Rightarrow> 's chans_t res" where
  "chan_put idx ch st =
     (if 0 \<le> idx \<and> nat idx < length (chan st) then Inr (st\<lparr>chan := (chan st)[nat idx := ch]\<rparr>) else Inl Buffer_overflow)"

definition chan_upd :: "int \<Rightarrow> (chan_t \<Rightarrow> chan_t) \<Rightarrow> 's chans_t \<Rightarrow> 's chans_t res" where
  "chan_upd idx f st = bind_res (chan_at idx st) (\<lambda>ch. chan_put idx (f ch) st)"

definition chan_mode_str2nbr :: "string option \<Rightarrow> chanmode_t" where
  "chan_mode_str2nbr szmode =
     (case szmode of
        None \<Rightarrow> CHANMODE_UNKNOWN
      | Some s \<Rightarrow>
          if s = ''serial'' then CHANMODE_SERIAL else if s = ''socket_can'' then CHANMODE_SOCKET_CAN
          else if s = ''tcp_can'' then CHANMODE_TCPSERV_CAN else if s = ''modbus_rtu'' then CHANMODE_MODBUS_RTU
          else if s = ''modbus_tcp'' then CHANMODE_MODBUS_TCP else if s = ''di'' then CHANMODE_DI
          else if s = ''do'' then CHANMODE_DO else CHANMODE_UNKNOWN)"

section \<open>Serial ports\<close>

text \<open>The flag words of a terminal, with the values of Linux, and its speed.\<close>

record termios =
  c_iflag :: uint32
  c_oflag :: uint32
  c_cflag :: uint32
  c_lflag :: uint32
  c_vtime :: nat
  c_vmin :: nat
  c_speed :: int

definition CSIZE :: uint32 where "CSIZE = 0x30"
definition CS7 :: uint32 where "CS7 = 0x20"
definition CS8 :: uint32 where "CS8 = 0x30"
definition CSTOPB :: uint32 where "CSTOPB = 0x40"
definition CREAD :: uint32 where "CREAD = 0x80"
definition PARENB :: uint32 where "PARENB = 0x100"
definition PARODD :: uint32 where "PARODD = 0x200"
definition CLOCAL :: uint32 where "CLOCAL = 0x800"
definition CRTSCTS :: uint32 where "CRTSCTS = 0x80000000"
definition INPCK :: uint32 where "INPCK = 0x10"

text \<open>The input, output and local flags that are cleared together.\<close>

definition IFLAGS_OFF :: uint32 where
  "IFLAGS_OFF = 0x1C00 OR (0x001 OR 0x002 OR 0x008 OR 0x020 OR 0x040 OR 0x080 OR 0x100)"

definition OFLAGS_OFF :: uint32 where
  "OFLAGS_OFF = 0x01 OR 0x04"

definition LFLAGS_OFF :: uint32 where
  "LFLAGS_OFF = 0x02 OR 0x08 OR 0x10 OR 0x40 OR 0x01"

definition parity_flags :: "char \<Rightarrow> termios \<Rightarrow> termios option" where
  "parity_flags parity t =
     (if parity = CHR ''O'' \<or> parity = CHR ''o''
      then Some (t\<lparr>c_cflag := c_cflag t OR PARENB OR PARODD, c_iflag := c_iflag t OR INPCK\<rparr>)
      else if parity = CHR ''E'' \<or> parity = CHR ''e''
      then Some (t\<lparr>c_cflag := (c_cflag t OR PARENB) AND NOT PARODD, c_iflag := c_iflag t OR INPCK\<rparr>)
      else if parity = CHR ''N'' \<or> parity = CHR ''n''
      then Some (t\<lparr>c_cflag := c_cflag t AND NOT PARENB\<rparr>)
      else None)"

definition raw_flags :: "int \<Rightarrow> termios \<Rightarrow> termios" where
  "raw_flags bits t =
     t\<lparr>c_cflag := (((c_cflag t AND NOT CSTOPB) AND NOT CSIZE OR (if bits = 7 then CS7 else CS8)) AND NOT CRTSCTS) OR CREAD OR CLOCAL,
       c_lflag := c_lflag t AND NOT LFLAGS_OFF, c_iflag := c_iflag t AND NOT IFLAGS_OFF,
       c_oflag := c_oflag t AND NOT OFLAGS_OFF, c_vtime := 10, c_vmin := 0\<rparr>"

text \<open>
  The result is the descriptor or an error code, and the attributes that were set. \<open>fd\<close> is the result of \<open>open\<close>,
  \<open>old\<close> that of \<open>tcgetattr\<close>, and \<open>set_ok\<close> tells whether \<open>tcsetattr\<close> succeeds.
\<close>

definition chan_open_serial ::
  "int \<Rightarrow> termios option \<Rightarrow> bool \<Rightarrow> int \<Rightarrow> int \<Rightarrow> char \<Rightarrow> int \<Rightarrow> int \<times> termios option" where
  "chan_open_serial fd old set_ok baud bits parity stop =
     (if fd < 0 then (-1, None)
      else case old of
        None \<Rightarrow> (-2, None)
      | Some tty \<Rightarrow>
          (case parity_flags parity tty of
             None \<Rightarrow> (-3, None)
           | Some tty1 \<Rightarrow>
               if stop \<noteq> 1 then (-4, None)
               else if bits \<noteq> 7 \<and> bits \<noteq> 8 then (-5, None)
               else if baud \<notin> {1200, 2400, 4800, 9600, 19200, 115200} then (-6, None)
               else if \<not> set_ok then (-7, None)
               else (fd, Some ((raw_flags bits tty1)\<lparr>c_speed := baud\<rparr>))))"

text \<open>The two older functions for an open port; nothing calls them any more.\<close>

definition chan_set_baud :: "bool \<Rightarrow> int \<Rightarrow> termios \<Rightarrow> int \<times> termios" where
  "chan_set_baud set_ok speed t =
     (if speed \<in> {115200, 57600, 38400, 19200, 9600, 4800, 2400, 1200}
      then (if set_ok then (0, t\<lparr>c_speed := speed\<rparr>) else (-1, t)) else (-1, t))"

definition parity_options :: "char \<Rightarrow> termios \<Rightarrow> termios option" where
  "parity_options parity t =
     (if parity = CHR ''n'' \<or> parity = CHR ''N''
      then Some (t\<lparr>c_cflag := c_cflag t AND NOT PARENB, c_iflag := c_iflag t AND NOT INPCK\<rparr>)
      else if parity = CHR ''o'' \<or> parity = CHR ''O''
      then Some (t\<lparr>c_cflag := c_cflag t OR PARODD OR PARENB, c_iflag := c_iflag t OR INPCK\<rparr>)
      else if parity = CHR ''e'' \<or> parity = CHR ''E''
      then Some (t\<lparr>c_cflag := (c_cflag t OR PARENB) AND NOT PARODD, c_iflag := c_iflag t OR INPCK\<rparr>)
      else if parity = CHR ''S'' \<or> parity = CHR ''s''
      then Some (t\<lparr>c_cflag := c_cflag t AND NOT PARENB AND NOT CSTOPB\<rparr>)
      else None)"

definition stop_options :: "int \<Rightarrow> termios \<Rightarrow> termios option" where
  "stop_options stopbits t =
     (if stopbits = 1 then Some (t\<lparr>c_cflag := c_cflag t AND NOT CSTOPB\<rparr>)
      else if stopbits = 2 then Some (t\<lparr>c_cflag := c_cflag t OR CSTOPB\<rparr>) else None)"

definition chan_set_parity :: "termios option \<Rightarrow> bool \<Rightarrow> int \<Rightarrow> int \<Rightarrow> char \<Rightarrow> termios option" where
  "chan_set_parity old set_ok databits stopbits parity =
     Option.bind old (\<lambda>t.
       if databits \<noteq> 7 \<and> databits \<noteq> 8 then None
       else Option.bind (parity_options parity (t\<lparr>c_cflag := c_cflag t AND NOT CSIZE OR (if databits = 7 then CS7 else CS8)\<rparr>)) (\<lambda>t1.
            Option.bind (stop_options stopbits t1) (\<lambda>t2.
              let t3 = t2\<lparr>c_iflag := c_iflag t2 AND NOT 0x5EB, c_oflag := c_oflag t2 AND NOT 0x01,
                          c_lflag := c_lflag t2 AND NOT 0x804B\<rparr>;
                  t4 = (if parity \<noteq> CHR ''n'' then t3\<lparr>c_iflag := c_iflag t3 OR INPCK\<rparr> else t3)
              in if set_ok then Some (t4\<lparr>c_vtime := 150, c_vmin := 0\<rparr>) else None)))"

section \<open>Configuration\<close>

definition chan_columns :: "string list" where
  "chan_columns = [''info'', ''dev'', ''mode'', ''port'', ''baud'', ''parity'', ''servip'', ''servport'', ''restart_times'', ''retry_times'']"

definition chan_cfg_column :: "string \<times> string option \<Rightarrow> chan_t \<Rightarrow> chan_t res" where
  "chan_cfg_column c ch =
     (case c of (name, val) \<Rightarrow>
        if name = ''info'' then col_str 32 val (\<lambda>v. ch\<lparr>ch_szinfo := v\<rparr>)
        else if name = ''dev'' then col_str 32 val (\<lambda>v. ch\<lparr>ch_szdev := v\<rparr>)
        else if name = ''mode'' then col_str 32 val (\<lambda>v. ch\<lparr>ch_szmode := v, ch_mode := chan_mode_str2nbr (Some v)\<rparr>)
        else if name = ''port'' then col_int val (\<lambda>v. ch\<lparr>ch_port := v\<rparr>)
        else if name = ''baud'' then col_int val (\<lambda>v. ch\<lparr>ch_baud := v\<rparr>)
        else if name = ''parity'' then col_str 8 val (\<lambda>v. ch\<lparr>ch_szparity := v\<rparr>)
        else if name = ''servip'' then col_str 16 val (\<lambda>v. ch\<lparr>ch_servip := v\<rparr>)
        else if name = ''servport'' then col_int val (\<lambda>v. ch\<lparr>ch_servport := v\<rparr>)
        else if name = ''restart_times'' then col_int val (\<lambda>v. ch\<lparr>ch_restart_times := v\<rparr>)
        else if name = ''retry_times'' then col_int val (\<lambda>v. ch\<lparr>ch_retry_times := v\<rparr>)
        else Inr ch)"

text \<open>A column that no member takes does not touch the array.\<close>

fun chan_cfg_columns :: "row \<Rightarrow> int \<Rightarrow> 's chans_t \<Rightarrow> 's chans_t res" where
  "chan_cfg_columns [] idx st = Inr st"
| "chan_cfg_columns (c # cs) idx st =
     bind_res
       (if fst c \<notin> set chan_columns then Inr st
        else if \<not> (0 \<le> idx \<and> nat idx < length (chan st)) then Inl Buffer_overflow
        else bind_res (chan_cfg_column c (chan st ! nat idx)) (\<lambda>ch. chan_put idx ch st))
       (chan_cfg_columns cs idx)"

text \<open>Row \<open>n\<close> of the table configures channel \<open>n\<close>; the number of rows is not checked.\<close>

definition chan_dbcb_0 :: "row \<Rightarrow> dbcbparam_t \<times> 's chans_t \<Rightarrow> (int \<times> dbcbparam_t \<times> 's chans_t) res" where
  "chan_dbcb_0 cols pm =
     (case pm of (p, st) \<Rightarrow>
        let p1 = p\<lparr>cb_nrow := cb_nrow p + 1\<rparr>
        in bind_res (chan_cfg_columns cols (cb_nrow p1) st) (\<lambda>st'. Inr (0, p1\<lparr>cb_ret := 0\<rparr>, st')))"

definition chan_set_nbr :: "int \<Rightarrow> 's chans_t \<Rightarrow> 's chans_t" where
  "chan_set_nbr nbr st = st\<lparr>channbr := nbr\<rparr>"

definition chan_get_nbr :: "'s chans_t \<Rightarrow> int" where
  "chan_get_nbr st = channbr st"

section \<open>Ring buffers of a channel\<close>

definition chan_serial_rxrb_init :: "int \<Rightarrow> 's chans_t \<Rightarrow> 's chans_t res" where
  "chan_serial_rxrb_init idx st =
     bind_res (chan_at idx st) (\<lambda>ch. bind_res (deref_ptr (serial_rxrb ch)) (\<lambda>rb.
       chan_put idx (ch\<lparr>serial_rxrb := Live (chan_serial_ringbuffer_init rb)\<rparr>) st))"

definition chan_serial_txrb_init :: "int \<Rightarrow> 's chans_t \<Rightarrow> 's chans_t res" where
  "chan_serial_txrb_init idx st =
     bind_res (chan_at idx st) (\<lambda>ch. bind_res (deref_ptr (serial_txrb ch)) (\<lambda>rb.
       chan_put idx (ch\<lparr>serial_txrb := Live (chan_serial_ringbuffer_init rb)\<rparr>) st))"

definition chan_serial_rxrb_queue :: "int \<Rightarrow> chan_serial_ringbuffer_element_t \<Rightarrow> 's chans_t \<Rightarrow> 's chans_t res" where
  "chan_serial_rxrb_queue idx e st =
     bind_res (chan_at idx st) (\<lambda>ch. bind_res (deref_ptr (serial_rxrb ch)) (\<lambda>rb.
       chan_put idx (ch\<lparr>serial_rxrb := Live (chan_serial_ringbuffer_queue rb e)\<rparr>) st))"

definition chan_serial_rxrb_dequeue_arr :: "int \<Rightarrow> int \<Rightarrow> 's chans_t \<Rightarrow> (chan_serial_ringbuffer_element_t list \<times> 's chans_t) res" where
  "chan_serial_rxrb_dequeue_arr idx len st =
     bind_res (chan_at idx st) (\<lambda>ch. bind_res (deref_ptr (serial_rxrb ch)) (\<lambda>rb.
       case chan_serial_ringbuffer_dequeue_arr rb len of (es, rb') \<Rightarrow>
         bind_res (chan_put idx (ch\<lparr>serial_rxrb := Live rb'\<rparr>) st) (\<lambda>st'. Inr (es, st'))))"

definition chan_serial_rxrb_num_items :: "int \<Rightarrow> 's chans_t \<Rightarrow> int res" where
  "chan_serial_rxrb_num_items idx st =
     bind_res (chan_at idx st) (\<lambda>ch. bind_res (deref_ptr (serial_rxrb ch)) (\<lambda>rb. Inr (chan_serial_ringbuffer_num_items rb)))"

definition chan_serial_txrb_num_items :: "int \<Rightarrow> 's chans_t \<Rightarrow> int res" where
  "chan_serial_txrb_num_items idx st =
     bind_res (chan_at idx st) (\<lambda>ch. bind_res (deref_ptr (serial_txrb ch)) (\<lambda>rb. Inr (chan_serial_ringbuffer_num_items rb)))"

definition chan_serial_txrb_dequeue_arr :: "int \<Rightarrow> int \<Rightarrow> 's chans_t \<Rightarrow> (chan_serial_ringbuffer_element_t list \<times> 's chans_t) res" where
  "chan_serial_txrb_dequeue_arr idx len st =
     bind_res (chan_at idx st) (\<lambda>ch. bind_res (deref_ptr (serial_txrb ch)) (\<lambda>rb.
       case chan_serial_ringbuffer_dequeue_arr rb len of (es, rb') \<Rightarrow>
         bind_res (chan_put idx (ch\<lparr>serial_txrb := Live rb'\<rparr>) st) (\<lambda>st'. Inr (es, st'))))"

definition chan_serial_txrb_queue_arr :: "int \<Rightarrow> chan_serial_ringbuffer_element_t list \<Rightarrow> 's chans_t \<Rightarrow> 's chans_t res" where
  "chan_serial_txrb_queue_arr idx es st =
     bind_res (chan_at idx st) (\<lambda>ch. bind_res (deref_ptr (serial_txrb ch)) (\<lambda>rb.
       chan_put idx (ch\<lparr>serial_txrb := Live (chan_serial_ringbuffer_queue_arr rb es)\<rparr>) st))"

definition chan_socketcan_rxrb_init :: "int \<Rightarrow> 's chans_t \<Rightarrow> 's chans_t res" where
  "chan_socketcan_rxrb_init idx st =
     bind_res (chan_at idx st) (\<lambda>ch. bind_res (deref_ptr (socketcan_rxrb ch)) (\<lambda>rb.
       chan_put idx (ch\<lparr>socketcan_rxrb := Live (chan_socketcan_ringbuffer_init rb)\<rparr>) st))"

definition chan_socketcan_txrb_init :: "int \<Rightarrow> 's chans_t \<Rightarrow> 's chans_t res" where
  "chan_socketcan_txrb_init idx st =
     bind_res (chan_at idx st) (\<lambda>ch. bind_res (deref_ptr (socketcan_txrb ch)) (\<lambda>rb.
       chan_put idx (ch\<lparr>socketcan_txrb := Live (chan_socketcan_ringbuffer_init rb)\<rparr>) st))"

definition chan_socketcan_rxrb_queue :: "int \<Rightarrow> chan_socketcan_ringbuffer_element_t \<Rightarrow> 's chans_t \<Rightarrow> 's chans_t res" where
  "chan_socketcan_rxrb_queue idx e st =
     bind_res (chan_at idx st) (\<lambda>ch. bind_res (deref_ptr (socketcan_rxrb ch)) (\<lambda>rb.
       chan_put idx (ch\<lparr>socketcan_rxrb := Live (chan_socketcan_ringbuffer_queue rb e)\<rparr>) st))"

definition chan_socketcan_rxrb_queue_arr :: "int \<Rightarrow> chan_socketcan_ringbuffer_element_t list \<Rightarrow> 's chans_t \<Rightarrow> 's chans_t res" where
  "chan_socketcan_rxrb_queue_arr idx es st =
     bind_res (chan_at idx st) (\<lambda>ch. bind_res (deref_ptr (socketcan_rxrb ch)) (\<lambda>rb.
       chan_put idx (ch\<lparr>socketcan_rxrb := Live (chan_socketcan_ringbuffer_queue_arr rb es)\<rparr>) st))"

definition chan_socketcan_rxrb_dequeue :: "int \<Rightarrow> 's chans_t \<Rightarrow> (chan_socketcan_ringbuffer_element_t option \<times> 's chans_t) res" where
  "chan_socketcan_rxrb_dequeue idx st =
     bind_res (chan_at idx st) (\<lambda>ch. bind_res (deref_ptr (socketcan_rxrb ch)) (\<lambda>rb.
       case chan_socketcan_ringbuffer_dequeue rb of (e, rb') \<Rightarrow>
         bind_res (chan_put idx (ch\<lparr>socketcan_rxrb := Live rb'\<rparr>) st) (\<lambda>st'. Inr (e, st'))))"

definition chan_socketcan_rxrb_dequeue_arr :: "int \<Rightarrow> int \<Rightarrow> 's chans_t \<Rightarrow> (chan_socketcan_ringbuffer_element_t list \<times> 's chans_t) res" where
  "chan_socketcan_rxrb_dequeue_arr idx len st =
     bind_res (chan_at idx st) (\<lambda>ch. bind_res (deref_ptr (socketcan_rxrb ch)) (\<lambda>rb.
       case chan_socketcan_ringbuffer_dequeue_arr rb len of (es, rb') \<Rightarrow>
         bind_res (chan_put idx (ch\<lparr>socketcan_rxrb := Live rb'\<rparr>) st) (\<lambda>st'. Inr (es, st'))))"

definition chan_socketcan_txrb_num_items :: "int \<Rightarrow> 's chans_t \<Rightarrow> int res" where
  "chan_socketcan_txrb_num_items idx st =
     bind_res (chan_at idx st) (\<lambda>ch. bind_res (deref_ptr (socketcan_txrb ch)) (\<lambda>rb. Inr (chan_socketcan_ringbuffer_num_items rb)))"

definition chan_socketcan_rxrb_num_items :: "int \<Rightarrow> 's chans_t \<Rightarrow> int res" where
  "chan_socketcan_rxrb_num_items idx st =
     bind_res (chan_at idx st) (\<lambda>ch. bind_res (deref_ptr (socketcan_rxrb ch)) (\<lambda>rb. Inr (chan_socketcan_ringbuffer_num_items rb)))"

definition chan_socketcan_txrb_dequeue_arr :: "int \<Rightarrow> int \<Rightarrow> 's chans_t \<Rightarrow> (chan_socketcan_ringbuffer_element_t list \<times> 's chans_t) res" where
  "chan_socketcan_txrb_dequeue_arr idx len st =
     bind_res (chan_at idx st) (\<lambda>ch. bind_res (deref_ptr (socketcan_txrb ch)) (\<lambda>rb.
       case chan_socketcan_ringbuffer_dequeue_arr rb len of (es, rb') \<Rightarrow>
         bind_res (chan_put idx (ch\<lparr>socketcan_txrb := Live rb'\<rparr>) st) (\<lambda>st'. Inr (es, st'))))"

definition chan_socketcan_txrb_dequeue :: "int \<Rightarrow> 's chans_t \<Rightarrow> (chan_socketcan_ringbuffer_element_t option \<times> 's chans_t) res" where
  "chan_socketcan_txrb_dequeue idx st =
     bind_res (chan_at idx st) (\<lambda>ch. bind_res (deref_ptr (socketcan_txrb ch)) (\<lambda>rb.
       case chan_socketcan_ringbuffer_dequeue rb of (e, rb') \<Rightarrow>
         bind_res (chan_put idx (ch\<lparr>socketcan_txrb := Live rb'\<rparr>) st) (\<lambda>st'. Inr (e, st'))))"

definition chan_socketcan_txrb_queue :: "int \<Rightarrow> chan_socketcan_ringbuffer_element_t \<Rightarrow> 's chans_t \<Rightarrow> 's chans_t res" where
  "chan_socketcan_txrb_queue idx e st =
     bind_res (chan_at idx st) (\<lambda>ch. bind_res (deref_ptr (socketcan_txrb ch)) (\<lambda>rb.
       chan_put idx (ch\<lparr>socketcan_txrb := Live (chan_socketcan_ringbuffer_queue rb e)\<rparr>) st))"

definition chan_tcpservcan_rxrb_init :: "int \<Rightarrow> 's chans_t \<Rightarrow> 's chans_t res" where
  "chan_tcpservcan_rxrb_init idx st =
     bind_res (chan_at idx st) (\<lambda>ch. bind_res (deref_ptr (tcpservcan_rxrb ch)) (\<lambda>rb.
       chan_put idx (ch\<lparr>tcpservcan_rxrb := Live (chan_tcpservcan_ringbuffer_init rb)\<rparr>) st))"

definition chan_tcpservcan_txrb_init :: "int \<Rightarrow> 's chans_t \<Rightarrow> 's chans_t res" where
  "chan_tcpservcan_txrb_init idx st =
     bind_res (chan_at idx st) (\<lambda>ch. bind_res (deref_ptr (tcpservcan_txrb ch)) (\<lambda>rb.
       chan_put idx (ch\<lparr>tcpservcan_txrb := Live (chan_tcpservcan_ringbuffer_init rb)\<rparr>) st))"

definition chan_tcpservcan_rxrb_queue :: "int \<Rightarrow> chan_tcpservcan_ringbuffer_element_t \<Rightarrow> 's chans_t \<Rightarrow> 's chans_t res" where
  "chan_tcpservcan_rxrb_queue idx e st =
     bind_res (chan_at idx st) (\<lambda>ch. bind_res (deref_ptr (tcpservcan_rxrb ch)) (\<lambda>rb.
       chan_put idx (ch\<lparr>tcpservcan_rxrb := Live (chan_tcpservcan_ringbuffer_queue rb e)\<rparr>) st))"

definition chan_tcpservcan_txrb_num_items :: "int \<Rightarrow> 's chans_t \<Rightarrow> int res" where
  "chan_tcpservcan_txrb_num_items idx st =
     bind_res (chan_at idx st) (\<lambda>ch. bind_res (deref_ptr (tcpservcan_txrb ch)) (\<lambda>rb. Inr (chan_tcpservcan_ringbuffer_num_items rb)))"

definition chan_tcpservcan_txrb_dequeue_arr :: "int \<Rightarrow> int \<Rightarrow> 's chans_t \<Rightarrow> (chan_tcpservcan_ringbuffer_element_t list \<times> 's chans_t) res" where
  "chan_tcpservcan_txrb_dequeue_arr idx len st =
     bind_res (chan_at idx st) (\<lambda>ch. bind_res (deref_ptr (tcpservcan_txrb ch)) (\<lambda>rb.
       case chan_tcpservcan_ringbuffer_dequeue_arr rb len of (es, rb') \<Rightarrow>
         bind_res (chan_put idx (ch\<lparr>tcpservcan_txrb := Live rb'\<rparr>) st) (\<lambda>st'. Inr (es, st'))))"

section \<open>Starting a channel\<close>

text \<open>
  What the operating system answers to the calls of one \<open>chan_start\<close>. The allocations give memory with any content
  (the flag selects the receive or the transmit buffer) or fail; \<open>so_thrd\<close> tells which of the two threads can be created.
\<close>

record start_os =
  so_open :: int
  so_getattr :: "termios option"
  so_setattr :: bool
  so_malloc :: "bool \<Rightarrow> bool"
  so_serial_mem :: "bool \<Rightarrow> chan_serial_ringbuffer_t"
  so_can_mem :: "bool \<Rightarrow> chan_socketcan_ringbuffer_t"
  so_tcpcan_mem :: "bool \<Rightarrow> chan_tcpservcan_ringbuffer_t"
  so_thrd :: "bool \<Rightarrow> bool"
  so_socket :: int
  so_ifindex :: bool
  so_bind :: bool
  so_tcp_connect :: bool
  so_mb_connect :: bool
  so_gpio_exported :: bool
  so_export_open :: bool
  so_export_write :: bool
  so_dir_open :: bool
  so_dir_write :: bool

definition threads_ret :: "start_os \<Rightarrow> int \<Rightarrow> int" where
  "threads_ret os ret = (if so_thrd os False \<and> so_thrd os True then ret else -1)"

text \<open>
  The buffers of a serial channel: when only the second allocation fails, the first buffer is freed while the channel
  keeps its address, and the threads are created all the same.
\<close>

definition start_serial_buffers :: "start_os \<Rightarrow> int \<Rightarrow> 's chans_t \<Rightarrow> (int \<times> 's chans_t) res" where
  "start_serial_buffers os idx st =
     (if \<not> so_malloc os False
      then bind_res (chan_upd idx (\<lambda>ch. ch\<lparr>serial_rxrb := Null\<rparr>) st) (\<lambda>s. Inr (-1, s))
      else bind_res (chan_upd idx (\<lambda>ch. ch\<lparr>serial_rxrb := Live (so_serial_mem os False)\<rparr>) st) (\<lambda>s1.
           bind_res (chan_serial_rxrb_init idx s1) (\<lambda>s2.
             if \<not> so_malloc os True
             then bind_res (chan_upd idx (\<lambda>ch. ch\<lparr>serial_txrb := Null, serial_rxrb := Freed\<rparr>) s2) (\<lambda>s. Inr (-1, s))
             else bind_res (chan_upd idx (\<lambda>ch. ch\<lparr>serial_txrb := Live (so_serial_mem os True)\<rparr>) s2) (\<lambda>s3.
                  bind_res (chan_serial_txrb_init idx s3) (\<lambda>s4. Inr (0, s4))))))"

definition start_serial :: "start_os \<Rightarrow> int \<Rightarrow> 's chans_t \<Rightarrow> (int \<times> 's chans_t) res" where
  "start_serial os idx st =
     bind_res (chan_at idx st) (\<lambda>ch.
       let fd = fst (chan_open_serial (so_open os) (so_getattr os) (so_setattr os) (ch_baud ch) 8
                  (case ch_szparity ch of [] \<Rightarrow> CHR 0x00 | c # _ \<Rightarrow> c) 1)
       in if fd < 0 then bind_res (chan_put idx (ch\<lparr>ch_fd := 0\<rparr>) st) (\<lambda>s. Inr (-1, s))
          else bind_res (chan_put idx (ch\<lparr>ch_fd := fd\<rparr>) st) (\<lambda>s1.
               bind_res (start_serial_buffers os idx s1) (\<lambda>(ret, s2). Inr (threads_ret os ret, s2))))"

definition start_can_buffers :: "start_os \<Rightarrow> int \<Rightarrow> 's chans_t \<Rightarrow> (int \<times> 's chans_t) res" where
  "start_can_buffers os idx st =
     (if \<not> so_malloc os False
      then bind_res (chan_upd idx (\<lambda>ch. ch\<lparr>socketcan_rxrb := Null\<rparr>) st) (\<lambda>s. Inr (-1, s))
      else bind_res (chan_upd idx (\<lambda>ch. ch\<lparr>socketcan_rxrb := Live (so_can_mem os False)\<rparr>) st) (\<lambda>s1.
           bind_res (chan_socketcan_rxrb_init idx s1) (\<lambda>s2.
             if \<not> so_malloc os True
             then bind_res (chan_upd idx (\<lambda>ch. ch\<lparr>socketcan_txrb := Null, socketcan_rxrb := Freed\<rparr>) s2) (\<lambda>s. Inr (-1, s))
             else bind_res (chan_upd idx (\<lambda>ch. ch\<lparr>socketcan_txrb := Live (so_can_mem os True)\<rparr>) s2) (\<lambda>s3.
                  bind_res (chan_socketcan_txrb_init idx s3) (\<lambda>s4. Inr (0, s4))))))"

text \<open>The name of the interface is copied into the 16 bytes of \<open>ifr_name\<close>.\<close>

definition IFNAMSIZ :: nat where
  "IFNAMSIZ = 16"

definition start_socketcan :: "start_os \<Rightarrow> int \<Rightarrow> 's chans_t \<Rightarrow> (int \<times> 's chans_t) res" where
  "start_socketcan os idx st =
     bind_res (chan_at idx st) (\<lambda>ch.
       if so_socket os < 0 then Inr (-1, st)
       else bind_res (strcpy_buf IFNAMSIZ (ch_szdev ch)) (\<lambda>_.
         if \<not> so_ifindex os then Inr (-1, st)
         else if \<not> so_bind os then Inr (-1, st)
         else bind_res (chan_put idx (ch\<lparr>ch_sockfd := so_socket os\<rparr>) st) (\<lambda>s1.
              bind_res (start_can_buffers os idx s1) (\<lambda>(ret, s2). Inr (threads_ret os ret, s2)))))"

definition start_tcpcan_buffers :: "start_os \<Rightarrow> int \<Rightarrow> 's chans_t \<Rightarrow> (int \<times> 's chans_t) res" where
  "start_tcpcan_buffers os idx st =
     (if \<not> so_malloc os False
      then bind_res (chan_upd idx (\<lambda>ch. ch\<lparr>tcpservcan_rxrb := Null\<rparr>) st) (\<lambda>s. Inr (-1, s))
      else bind_res (chan_upd idx (\<lambda>ch. ch\<lparr>tcpservcan_rxrb := Live (so_tcpcan_mem os False)\<rparr>) st) (\<lambda>s1.
           bind_res (chan_tcpservcan_rxrb_init idx s1) (\<lambda>s2.
             if \<not> so_malloc os True
             then bind_res (chan_upd idx (\<lambda>ch. ch\<lparr>tcpservcan_txrb := Null, tcpservcan_rxrb := Freed\<rparr>) s2) (\<lambda>s. Inr (-1, s))
             else bind_res (chan_upd idx (\<lambda>ch. ch\<lparr>tcpservcan_txrb := Live (so_tcpcan_mem os True)\<rparr>) s2) (\<lambda>s3.
                  bind_res (chan_tcpservcan_txrb_init idx s3) (\<lambda>s4. Inr (0, s4))))))"

definition start_tcpcan :: "start_os \<Rightarrow> int \<Rightarrow> 's chans_t \<Rightarrow> (int \<times> 's chans_t) res" where
  "start_tcpcan os idx st =
     (if so_socket os < 0 then Inr (-1, st)
      else if \<not> so_tcp_connect os then Inr (-1, st)
      else bind_res (chan_upd idx (\<lambda>ch. ch\<lparr>ch_sockfd := so_socket os\<rparr>) st) (\<lambda>s1.
           bind_res (start_tcpcan_buffers os idx s1) (\<lambda>(ret, s2). Inr (threads_ret os ret, s2))))"

text \<open>Closing and freeing the old context; a dangling one is used once more.\<close>

definition drop_ctx :: "chan_t \<Rightarrow> chan_t res" where
  "drop_ctx ch = (case ch_ctx ch of Null \<Rightarrow> Inr ch | Live c \<Rightarrow> Inr (ch\<lparr>ch_ctx := Null\<rparr>) | Freed \<Rightarrow> Inl Use_after_free)"

text \<open>A context that could not be created is handed to \<open>modbus_set_debug\<close>. The result is 0 even when the connection fails.\<close>

definition start_modbus_rtu :: "start_os \<Rightarrow> chan_t \<Rightarrow> (int \<times> chan_t) res" where
  "start_modbus_rtu os ch =
     bind_res (drop_ctx ch) (\<lambda>ch1.
       case modbus_new_rtu (''/dev/'' @ ch_szdev ch1) (case ch_szparity ch1 of [] \<Rightarrow> CHR 0x00 | c # _ \<Rightarrow> c) of
         None \<Rightarrow> Inl Null_deref
       | Some c \<Rightarrow> Inr (0, ch1\<lparr>ch_ctx := if so_mb_connect os then Live c else Null\<rparr>))"

text \<open>The two backends of this copy of libmodbus: a context that did not connect is freed and kept.\<close>

definition start_modbus_rtu_udp :: "start_os \<Rightarrow> chan_t \<Rightarrow> int \<times> chan_t" where
  "start_modbus_rtu_udp os ch =
     (case modbus_new_rtuudp of
        None \<Rightarrow> (-3, ch\<lparr>ch_ctx := Null\<rparr>)
      | Some c \<Rightarrow> if so_mb_connect os then (0, ch\<lparr>ch_ctx := Live c\<rparr>) else (-4, ch\<lparr>ch_ctx := Freed\<rparr>))"

definition start_modbus_rtu_tcp :: "start_os \<Rightarrow> chan_t \<Rightarrow> int \<times> chan_t" where
  "start_modbus_rtu_tcp os ch =
     (case modbus_new_rtutcp of
        None \<Rightarrow> (-5, ch\<lparr>ch_ctx := Null\<rparr>)
      | Some c \<Rightarrow> if so_mb_connect os then (0, ch\<lparr>ch_ctx := Live c\<rparr>) else (-6, ch\<lparr>ch_ctx := Freed\<rparr>))"

definition start_modbus_tcp :: "start_os \<Rightarrow> chan_t \<Rightarrow> (int \<times> chan_t) res" where
  "start_modbus_tcp os ch =
     bind_res (drop_ctx ch) (\<lambda>ch1.
       case modbus_new_tcp (ch_servip ch1) of
         None \<Rightarrow> Inr (0, ch1\<lparr>ch_ctx := Null, ch_started := 0\<rparr>)
       | Some c \<Rightarrow> if so_mb_connect os then Inr (0, ch1\<lparr>ch_ctx := Live c, ch_started := 1\<rparr>)
                   else Inr (0, ch1\<lparr>ch_ctx := Null, ch_started := 0\<rparr>))"

definition start_gpio :: "start_os \<Rightarrow> int" where
  "start_gpio os =
     (if \<not> so_gpio_exported os \<and> \<not> so_export_open os then -1
      else if \<not> so_gpio_exported os \<and> \<not> so_export_write os then -1
      else if \<not> so_dir_open os then -1
      else if \<not> so_dir_write os then -1 else 0)"

definition chan_start :: "start_os \<Rightarrow> int \<Rightarrow> 's chans_t \<Rightarrow> (int \<times> 's chans_t) res" where
  "chan_start os idx st0 =
     bind_res (chan_upd idx (\<lambda>ch. ch\<lparr>ch_started := 0\<rparr>) st0) (\<lambda>st.
     bind_res (chan_at idx st) (\<lambda>ch.
       let on_chan = (\<lambda>r. bind_res r (\<lambda>(ret, ch'). bind_res (chan_put idx ch' st) (\<lambda>s. Inr (ret, s))))
       in if ch_mode ch = CHANMODE_SERIAL then start_serial os idx st
          else if ch_mode ch = CHANMODE_SOCKET_CAN then start_socketcan os idx st
          else if ch_mode ch = CHANMODE_TCPSERV_CAN then start_tcpcan os idx st
          else if ch_mode ch = CHANMODE_MODBUS_RTU then on_chan (start_modbus_rtu os ch)
          else if ch_szmode ch = ''modbus_rtu_udp'' then on_chan (Inr (start_modbus_rtu_udp os ch))
          else if ch_szmode ch = ''modbus_rtu_tcp'' then on_chan (Inr (start_modbus_rtu_tcp os ch))
          else if ch_mode ch = CHANMODE_MODBUS_TCP then on_chan (start_modbus_tcp os ch)
          else if ch_mode ch = CHANMODE_DI \<or> ch_mode ch = CHANMODE_DO then Inr (start_gpio os, st)
          else Inr (-1, st)))"

text \<open>The loop of \<open>chan_init\<close> over the configured channels; \<open>oss i\<close> are the answers for channel \<open>i\<close>.\<close>

fun chan_start_all :: "(int \<Rightarrow> start_os) \<Rightarrow> int list \<Rightarrow> 's chans_t \<Rightarrow> 's chans_t res" where
  "chan_start_all oss [] st = Inr st"
| "chan_start_all oss (i # is') st =
     bind_res (chan_upd i (\<lambda>ch. ch\<lparr>ch_errcnt := 0, ch_dbg := 0, ch_ctx := Null, ch_started := 0\<rparr>) st) (\<lambda>s.
     bind_res (chan_start (oss i) i s) (\<lambda>(ret, s'). chan_start_all oss is' s'))"

definition chan_init :: "'db exec \<Rightarrow> dbcbparam_t \<Rightarrow> (int \<Rightarrow> start_os) \<Rightarrow> 'db \<Rightarrow> 's chans_t \<Rightarrow> (int \<times> 's chans_t) res" where
  "chan_init ex p0 oss db st =
     bind_res (sqlite3_exec ex ''select * from chan'' chan_dbcb_0 (p0\<lparr>cb_nrow := 0\<rparr>, st) db) (\<lambda>(rc, (p, st1), db').
       if rc \<noteq> SQLITE_OK then Inr (-1, st1)
       else if cb_ret p \<noteq> 0 then Inr (-2, st1)
       else bind_res (chan_start_all oss [1..chan_get_nbr (chan_set_nbr (cb_nrow p) st1)] (chan_set_nbr (cb_nrow p) st1))
              (\<lambda>st2. Inr (0, st2)))"

text \<open>Only Modbus TCP channels can be reset.\<close>

definition chan_reset :: "start_os \<Rightarrow> int \<Rightarrow> 's chans_t \<Rightarrow> (int \<times> 's chans_t) res" where
  "chan_reset os idx st =
     bind_res (chan_at idx st) (\<lambda>ch.
       if ch_szmode ch \<noteq> ''modbus_tcp'' then Inr (-10, st)
       else bind_res (drop_ctx (ch\<lparr>ch_rstcnt := dbl_add (ch_rstcnt ch) 1\<rparr>)) (\<lambda>ch1.
              case modbus_new_tcp (ch_servip ch1) of
                None \<Rightarrow> bind_res (chan_put idx (ch1\<lparr>ch_ctx := Null\<rparr>) st) (\<lambda>s. Inr (-1, s))
              | Some c \<Rightarrow>
                  if so_mb_connect os then bind_res (chan_put idx (ch1\<lparr>ch_ctx := Live c\<rparr>) st) (\<lambda>s. Inr (0, s))
                  else bind_res (chan_put idx (ch1\<lparr>ch_ctx := Null\<rparr>) st) (\<lambda>s. Inr (-2, s))))"

section \<open>Modbus requests\<close>

text \<open>
  The shared head of the requests: the slave number is set in the context, its refusal is ignored, and the library is
  called. \<open>None\<close> when the channel has no context.
\<close>

definition chan_modbus ::
  "int \<Rightarrow> int \<Rightarrow> (modbus_t \<Rightarrow> 's wire \<Rightarrow> ('r \<times> 's wire) res) \<Rightarrow> 's chans_t \<Rightarrow> ('r option \<times> 's chans_t) res" where
  "chan_modbus idx slaveaddr call st =
     bind_res (chan_at idx st) (\<lambda>ch.
       if ch_ctx ch = Null then Inr (None, st)
       else bind_res (deref_ptr (ch_ctx ch)) (\<lambda>c.
            let c' = snd (modbus_set_slave c slaveaddr)
            in bind_res (call c' (chan_wire st)) (\<lambda>(r, w).
               bind_res (chan_put idx (ch\<lparr>ch_ctx := Live c'\<rparr>) (st\<lparr>chan_wire := w\<rparr>)) (\<lambda>s. Inr (Some r, s)))))"

definition chan_count_error :: "int \<Rightarrow> 's chans_t \<Rightarrow> 's chans_t res" where
  "chan_count_error idx st = chan_upd idx (\<lambda>ch. ch\<lparr>ch_errcnt := ch_errcnt ch + 1\<rparr>) st"

definition rc_of :: "int reply \<Rightarrow> int" where
  "rc_of r = (case r of Inl e \<Rightarrow> -1 | Inr n \<Rightarrow> n)"

definition rc_data :: "(int \<times> 'a list) reply \<Rightarrow> int" where
  "rc_data r = (case r of Inl e \<Rightarrow> -1 | Inr (n, d) \<Rightarrow> n)"

definition data_of :: "(int \<times> 'a list) reply \<Rightarrow> 'a list" where
  "data_of r = (case r of Inl e \<Rightarrow> [] | Inr (n, d) \<Rightarrow> d)"

definition chan_write_single_register :: "'s link \<Rightarrow> int \<Rightarrow> int \<Rightarrow> int \<Rightarrow> int \<Rightarrow> 's chans_t \<Rightarrow> (int \<times> 's chans_t) res" where
  "chan_write_single_register link idx slaveaddr regaddr regval st =
     bind_res (chan_modbus idx slaveaddr (\<lambda>c. modbus_write_register link c regaddr regval) st) (\<lambda>(r, s).
       case r of
         None \<Rightarrow> Inr (-1, s)
       | Some r \<Rightarrow> if rc_of r \<noteq> 1 then bind_res (chan_count_error idx s) (\<lambda>s'. Inr (-3, s')) else Inr (0, s))"

definition chan_write_multi_registers :: "'s link \<Rightarrow> int \<Rightarrow> int \<Rightarrow> int \<Rightarrow> USHORT list \<Rightarrow> 's chans_t \<Rightarrow> (int \<times> 's chans_t) res" where
  "chan_write_multi_registers link idx slaveaddr regaddr regval st =
     bind_res (chan_modbus idx slaveaddr (\<lambda>c. modbus_write_registers link c regaddr regval) st) (\<lambda>(r, s).
       case r of
         None \<Rightarrow> Inr (-1, s)
       | Some r \<Rightarrow> if rc_of r \<noteq> int (length regval) then bind_res (chan_count_error idx s) (\<lambda>s'. Inr (-2, s')) else Inr (0, s))"

text \<open>The reads return the code and the array \<open>dest\<close>.\<close>

definition chan_read ::
  "(modbus_t \<Rightarrow> 's wire \<Rightarrow> ((int \<times> 'd list) reply \<times> 's wire) res) \<Rightarrow> int \<Rightarrow> int \<Rightarrow> int \<Rightarrow> 's chans_t \<Rightarrow> (int \<times> 'd list \<times> 's chans_t) res" where
  "chan_read call idx slaveaddr nb st =
     bind_res (chan_modbus idx slaveaddr call st) (\<lambda>(r, s).
       case r of
         None \<Rightarrow> Inr (-1, [], s)
       | Some r \<Rightarrow> if rc_data r \<noteq> nb then bind_res (chan_count_error idx s) (\<lambda>s'. Inr (-2, data_of r, s')) else Inr (0, data_of r, s))"

definition chan_read_input_registers :: "'s link \<Rightarrow> int \<Rightarrow> int \<Rightarrow> int \<Rightarrow> int \<Rightarrow> 's chans_t \<Rightarrow> (int \<times> USHORT list \<times> 's chans_t) res" where
  "chan_read_input_registers link idx slaveaddr regaddr nb st =
     chan_read (\<lambda>c. modbus_read_input_registers link c regaddr nb) idx slaveaddr nb st"

definition chan_read_holdingregisters :: "'s link \<Rightarrow> int \<Rightarrow> int \<Rightarrow> int \<Rightarrow> int \<Rightarrow> 's chans_t \<Rightarrow> (int \<times> USHORT list \<times> 's chans_t) res" where
  "chan_read_holdingregisters link idx slaveaddr regaddr nb st =
     chan_read (\<lambda>c. modbus_read_registers link c regaddr nb) idx slaveaddr nb st"

definition chan_read_bits :: "'s link \<Rightarrow> int \<Rightarrow> int \<Rightarrow> int \<Rightarrow> int \<Rightarrow> 's chans_t \<Rightarrow> (int \<times> bool list \<times> 's chans_t) res" where
  "chan_read_bits link idx slaveaddr regaddr nb st =
     chan_read (\<lambda>c. modbus_read_bits link c regaddr nb) idx slaveaddr nb st"

text \<open>
  \<open>chan_read_input_bits\<close> computes its code and returns \<open>rc\<close>, which is the uninitialised \<open>rc0\<close> when the channel
  has no context.
\<close>

definition chan_read_input_bits :: "'s link \<Rightarrow> int \<Rightarrow> int \<Rightarrow> int \<Rightarrow> int \<Rightarrow> int \<Rightarrow> 's chans_t \<Rightarrow> (int \<times> bool list \<times> 's chans_t) res" where
  "chan_read_input_bits link rc0 idx slaveaddr regaddr nb st =
     bind_res (chan_modbus idx slaveaddr (\<lambda>c. modbus_read_input_bits link c regaddr nb) st) (\<lambda>(r, s).
       case r of
         None \<Rightarrow> Inr (rc0, [], s)
       | Some r \<Rightarrow> if rc_data r \<noteq> nb then bind_res (chan_count_error idx s) (\<lambda>s'. Inr (rc_data r, data_of r, s'))
                   else Inr (rc_data r, data_of r, s))"

definition chan_write_bit :: "'s link \<Rightarrow> int \<Rightarrow> int \<Rightarrow> int \<Rightarrow> int \<Rightarrow> 's chans_t \<Rightarrow> (int \<times> 's chans_t) res" where
  "chan_write_bit link idx slaveaddr addr status st =
     bind_res (chan_modbus idx slaveaddr (\<lambda>c. modbus_write_bit link c addr status) st) (\<lambda>(r, s).
       case r of
         None \<Rightarrow> Inr (-1, s)
       | Some r \<Rightarrow> if rc_of r \<le> 0 then bind_res (chan_count_error idx s) (\<lambda>s'. Inr (-2, s')) else Inr (0, s))"

definition chan_write_bits :: "'s link \<Rightarrow> int \<Rightarrow> int \<Rightarrow> int \<Rightarrow> bool list \<Rightarrow> 's chans_t \<Rightarrow> (int \<times> 's chans_t) res" where
  "chan_write_bits link idx slaveaddr addr status st =
     bind_res (chan_modbus idx slaveaddr (\<lambda>c. modbus_write_bits link c addr status) st) (\<lambda>(r, s).
       case r of
         None \<Rightarrow> Inr (-1, s)
       | Some r \<Rightarrow> if rc_of r \<le> 0 then bind_res (chan_count_error idx s) (\<lambda>s'. Inr (-2, s')) else Inr (0, s))"

section \<open>Requests with retries\<close>

text \<open>
  The two nested loops of the functions \<open>..._with_retry\<close>. An attempt gives \<open>Some\<close> when it succeeded. After
  \<open>retry_times\<close> failed attempts the channel is started again, whatever that gives, \<open>restart_times\<close> times; \<open>oss k\<close>
  are the answers at start \<open>k\<close>.
\<close>

fun try_times :: "('st \<Rightarrow> ('a option \<times> 'st) res) \<Rightarrow> nat \<Rightarrow> 'st \<Rightarrow> ('a option \<times> 'st) res" where
  "try_times f 0 st = Inr (None, st)"
| "try_times f (Suc n) st =
     bind_res (f st) (\<lambda>(r, s). case r of Some x \<Rightarrow> Inr (Some x, s) | None \<Rightarrow> try_times f n s)"

fun with_retry ::
  "('s chans_t \<Rightarrow> ('a option \<times> 's chans_t) res) \<Rightarrow> (nat \<Rightarrow> start_os) \<Rightarrow> int \<Rightarrow> nat \<Rightarrow> nat \<Rightarrow> nat \<Rightarrow> 's chans_t \<Rightarrow>
    ('a option \<times> 's chans_t) res" where
  "with_retry f oss idx 0 retry_times k st = Inr (None, st)"
| "with_retry f oss idx (Suc restart_times) retry_times k st =
     bind_res (try_times f retry_times st) (\<lambda>(r, s).
       case r of
         Some x \<Rightarrow> Inr (Some x, s)
       | None \<Rightarrow>
           bind_res (chan_start (oss k) idx s) (\<lambda>(ret, s1).
           bind_res (chan_at idx s1) (\<lambda>ch.
             with_retry f oss idx restart_times (nat (ch_retry_times ch)) (Suc k) s1)))"

definition retry_channel ::
  "('s chans_t \<Rightarrow> ('a option \<times> 's chans_t) res) \<Rightarrow> (nat \<Rightarrow> start_os) \<Rightarrow> int \<Rightarrow> 's chans_t \<Rightarrow> ('a option \<times> 's chans_t) res" where
  "retry_channel f oss idx st =
     bind_res (chan_at idx st) (\<lambda>ch. with_retry f oss idx (nat (ch_restart_times ch)) (nat (ch_retry_times ch)) 0 st)"

text \<open>One attempt: nothing happens without a context, and a wrong result is counted.\<close>

definition attempt ::
  "int \<Rightarrow> int \<Rightarrow> (modbus_t \<Rightarrow> 's wire \<Rightarrow> ('r \<times> 's wire) res) \<Rightarrow> ('r \<Rightarrow> 'a option) \<Rightarrow> 's chans_t \<Rightarrow> ('a option \<times> 's chans_t) res" where
  "attempt idx slaveaddr call ok st =
     bind_res (chan_modbus idx slaveaddr call st) (\<lambda>(r, s).
       case r of
         None \<Rightarrow> Inr (None, s)
       | Some r \<Rightarrow> (case ok r of
                     Some x \<Rightarrow> Inr (Some x, s)
                   | None \<Rightarrow> bind_res (chan_count_error idx s) (\<lambda>s'. Inr (None, s'))))"

definition wanted :: "int \<Rightarrow> (int \<times> 'd list) reply \<Rightarrow> 'd list option" where
  "wanted nb r = (if rc_data r = nb then Some (data_of r) else None)"

definition chan_write_single_register_with_retry ::
  "'s link \<Rightarrow> (nat \<Rightarrow> start_os) \<Rightarrow> int \<Rightarrow> int \<Rightarrow> int \<Rightarrow> int \<Rightarrow> 's chans_t \<Rightarrow> (int \<times> 's chans_t) res" where
  "chan_write_single_register_with_retry link oss idx slaveaddr regaddr regval st =
     bind_res (chan_at idx st) (\<lambda>ch.
       if ch_ctx ch = Null then Inr (-2, st)
       else bind_res (retry_channel (attempt idx slaveaddr (\<lambda>c. modbus_write_register link c regaddr regval)
                        (\<lambda>r. if rc_of r = 1 then Some () else None)) oss idx st)
              (\<lambda>(r, s). Inr (if r = None then -1 else 0, s)))"

text \<open>The reads return the code and, when an attempt succeeded, its data.\<close>

definition chan_read_input_registers_with_retry ::
  "'s link \<Rightarrow> (nat \<Rightarrow> start_os) \<Rightarrow> int \<Rightarrow> int \<Rightarrow> int \<Rightarrow> int \<Rightarrow> 's chans_t \<Rightarrow> (int \<times> USHORT list option \<times> 's chans_t) res" where
  "chan_read_input_registers_with_retry link oss idx slaveaddr regaddr nb st =
     bind_res (retry_channel (attempt idx slaveaddr (\<lambda>c. modbus_read_input_registers link c regaddr nb) (wanted nb)) oss idx st)
       (\<lambda>(r, s). Inr (if r = None then -1 else 0, r, s))"

definition chan_read_holdingregisters_with_retry ::
  "'s link \<Rightarrow> (nat \<Rightarrow> start_os) \<Rightarrow> int \<Rightarrow> int \<Rightarrow> int \<Rightarrow> int \<Rightarrow> 's chans_t \<Rightarrow> (int \<times> USHORT list option \<times> 's chans_t) res" where
  "chan_read_holdingregisters_with_retry link oss idx slaveaddr regaddr nb st =
     bind_res (retry_channel (attempt idx slaveaddr (\<lambda>c. modbus_read_registers link c regaddr nb) (wanted nb)) oss idx st)
       (\<lambda>(r, s). Inr (if r = None then -1 else 0, r, s))"

text \<open>This one goes through \<open>chan_read_input_bits\<close>, so a failure is counted twice.\<close>

definition attempt_input_bits ::
  "'s link \<Rightarrow> int \<Rightarrow> int \<Rightarrow> int \<Rightarrow> int \<Rightarrow> 's chans_t \<Rightarrow> (bool list option \<times> 's chans_t) res" where
  "attempt_input_bits link idx slaveaddr regaddr nb st =
     bind_res (chan_at idx st) (\<lambda>ch.
       if ch_ctx ch = Null then Inr (None, st)
       else bind_res (chan_read_input_bits link 0 idx slaveaddr regaddr nb st) (\<lambda>(rc, bits, s).
              if rc \<noteq> nb then bind_res (chan_count_error idx s) (\<lambda>s'. Inr (None, s')) else Inr (Some bits, s)))"

definition chan_read_input_bits_with_retry ::
  "'s link \<Rightarrow> (nat \<Rightarrow> start_os) \<Rightarrow> int \<Rightarrow> int \<Rightarrow> int \<Rightarrow> int \<Rightarrow> 's chans_t \<Rightarrow> (int \<times> bool list option \<times> 's chans_t) res" where
  "chan_read_input_bits_with_retry link oss idx slaveaddr regaddr nb st =
     bind_res (retry_channel (attempt_input_bits link idx slaveaddr regaddr nb) oss idx st)
       (\<lambda>(r, s). Inr (if r = None then -1 else 0, r, s))"

section \<open>Digital inputs and outputs\<close>

text \<open>\<open>content\<close> is what reading the value file gives: nothing when it cannot be opened, \<open>Some None\<close> when it cannot be read.\<close>

definition chan_read_gpio :: "string option option \<Rightarrow> int \<Rightarrow> 's chans_t \<Rightarrow> (int \<times> int option) res" where
  "chan_read_gpio content idx st =
     bind_res (chan_at idx st) (\<lambda>ch.
       Inr (if ch_mode ch \<noteq> CHANMODE_DO \<and> ch_mode ch \<noteq> CHANMODE_DI then (-1, None)
            else case content of
              None \<Rightarrow> (-1, None)
            | Some None \<Rightarrow> (-1, None)
            | Some (Some s) \<Rightarrow> (0, Some (atoi s))))"

definition gpio_path :: "chan_t \<Rightarrow> string" where
  "gpio_path ch = ''/sys/class/gpio/gpio'' @ ch_szdev ch @ ''/value''"

text \<open>
  The bytes written are the whole array of 4096: the digits and their terminating zero lie over the path of the file
  that the array held before.
\<close>

definition gpio_bytes :: "chan_t \<Rightarrow> int \<Rightarrow> string" where
  "gpio_bytes ch v =
     (let old = gpio_path ch @ replicate (4096 - length (gpio_path ch)) (CHR 0x00); new = show_int v @ [CHR 0x00]
      in new @ drop (length new) old)"

definition chan_write_gpio :: "bool \<Rightarrow> bool \<Rightarrow> int \<Rightarrow> int \<Rightarrow> 's chans_t \<Rightarrow> (int \<times> string option) res" where
  "chan_write_gpio open_ok write_ok idx v st =
     bind_res (chan_at idx st) (\<lambda>ch.
       Inr (if ch_mode ch \<noteq> CHANMODE_DO then (-1, None)
            else if \<not> open_ok then (-1, None)
            else if \<not> write_ok then (-1, None)
            else (0, Some (gpio_bytes ch v))))"

section \<open>The threads\<close>

text \<open>A read of a serial port gives at most 100 bytes; they are queued one by one.\<close>

fun serial_queue_all :: "int \<Rightarrow> string \<Rightarrow> 's chans_t \<Rightarrow> 's chans_t res" where
  "serial_queue_all idx [] st = Inr st"
| "serial_queue_all idx (c # cs) st =
     bind_res (chan_serial_rxrb_queue idx \<lparr>chan_serial_c = c\<rparr> st) (serial_queue_all idx cs)"

definition chan_serial_rxthrd :: "int \<Rightarrow> string \<Rightarrow> 's chans_t \<Rightarrow> 's chans_t res" where
  "chan_serial_rxthrd idx bytes st = (if bytes = [] then Inr st else serial_queue_all idx (take 100 bytes) st)"

text \<open>One iteration of the sender; the result is what is passed to \<open>write\<close>.\<close>

definition chan_serial_txthrd :: "int \<Rightarrow> 's chans_t \<Rightarrow> (string \<times> 's chans_t) res" where
  "chan_serial_txthrd idx st =
     bind_res (chan_serial_txrb_num_items idx st) (\<lambda>needtowrite.
       if needtowrite > 0
       then bind_res (chan_serial_txrb_dequeue_arr idx (if needtowrite > 128 then 128 else needtowrite) st)
              (\<lambda>(es, s). Inr (map chan_serial_c es, s))
       else Inr ([], st))"

text \<open>
  A CAN frame as its 16 bytes: the identifier in little-endian order, the length, and the data behind three bytes of
  padding. The receivers clear the frame before they read into it.
\<close>

definition frame_of_bytes :: "UCHAR list \<Rightarrow> can_frame" where
  "frame_of_bytes bs =
     (let b = take 16 bs @ replicate (16 - length bs) 0
      in \<lparr>can_id = ucast (b ! 0) OR push_bit 8 (ucast (b ! 1)) OR push_bit 16 (ucast (b ! 2)) OR push_bit 24 (ucast (b ! 3)),
          can_dlc = b ! 4, can_data = drop 8 b\<rparr>)"

text \<open>With debugging on, \<open>dump\<close> prints \<open>can_dlc\<close> bytes of the eight data bytes.\<close>

definition dump_frame :: "chan_t \<Rightarrow> can_frame \<Rightarrow> unit res" where
  "dump_frame ch fr =
     (if ch_dbg ch \<noteq> 0 \<and> unat (can_dlc fr) > length (can_data fr) then Inl Out_of_bounds_read else Inr ())"

definition chan_socketcan_rxthrd :: "int \<Rightarrow> UCHAR list \<Rightarrow> 's chans_t \<Rightarrow> 's chans_t res" where
  "chan_socketcan_rxthrd idx bytes st =
     (let fr = frame_of_bytes bytes
      in if can_dlc fr = 0 then Inr st
         else bind_res (chan_at idx st) (\<lambda>ch. bind_res (dump_frame ch fr) (\<lambda>_.
                chan_socketcan_rxrb_queue idx \<lparr>socketcan_frame = fr\<rparr> st)))"

definition chan_tcpservcan_rxthrd :: "int \<Rightarrow> UCHAR list \<Rightarrow> 's chans_t \<Rightarrow> 's chans_t res" where
  "chan_tcpservcan_rxthrd idx bytes st =
     (let fr = frame_of_bytes bytes
      in if can_dlc fr = 0 then Inr st
         else bind_res (chan_at idx st) (\<lambda>ch. bind_res (dump_frame ch fr) (\<lambda>_.
                chan_tcpservcan_rxrb_queue idx \<lparr>tcpservcan_frame = fr\<rparr> st)))"

text \<open>The senders: up to 32 frames per iteration, or one frame in up to three attempts (\<open>ok i\<close> is the success of the \<open>i\<close>-th).\<close>

definition chan_tcpservcan_txthrd :: "int \<Rightarrow> 's chans_t \<Rightarrow> (can_frame list \<times> 's chans_t) res" where
  "chan_tcpservcan_txthrd idx st =
     bind_res (chan_tcpservcan_txrb_num_items idx st) (\<lambda>n2write.
       if n2write > 0
       then bind_res (chan_tcpservcan_txrb_dequeue_arr idx (if n2write > 32 then 32 else n2write) st)
              (\<lambda>(es, s). Inr (map tcpservcan_frame es, s))
       else Inr ([], st))"

definition socketcan_writes :: "bool \<Rightarrow> bool \<Rightarrow> nat" where
  "socketcan_writes ok1 ok2 = (if ok1 then 1 else if ok2 then 2 else 3)"

definition chan_socketcan_txthrd :: "bool \<Rightarrow> bool \<Rightarrow> int \<Rightarrow> 's chans_t \<Rightarrow> (can_frame list \<times> 's chans_t) res" where
  "chan_socketcan_txthrd ok1 ok2 idx st =
     bind_res (chan_socketcan_txrb_dequeue idx st) (\<lambda>(r, s).
       Inr (case r of None \<Rightarrow> [] | Some e \<Rightarrow> replicate (socketcan_writes ok1 ok2) (socketcan_frame e), s))"

section \<open>Switches and queries\<close>

definition chan_enable_dbg :: "int \<Rightarrow> 's chans_t \<Rightarrow> 's chans_t res" where
  "chan_enable_dbg idx st =
     bind_res (chan_at idx st) (\<lambda>ch. if ch_ctx ch = Freed then Inl Use_after_free else chan_put idx (ch\<lparr>ch_dbg := 1\<rparr>) st)"

definition chan_disable_dbg :: "int \<Rightarrow> 's chans_t \<Rightarrow> 's chans_t res" where
  "chan_disable_dbg idx st =
     bind_res (chan_at idx st) (\<lambda>ch. if ch_ctx ch = Freed then Inl Use_after_free else chan_put idx (ch\<lparr>ch_dbg := 0\<rparr>) st)"

definition chan_set_dbg :: "int \<Rightarrow> int \<Rightarrow> 's chans_t \<Rightarrow> 's chans_t res" where
  "chan_set_dbg idx enable st =
     bind_res (chan_at idx st) (\<lambda>ch. if ch_ctx ch = Freed then Inl Use_after_free else chan_put idx (ch\<lparr>ch_dbg := enable\<rparr>) st)"

definition chan_set_en :: "int \<Rightarrow> int \<Rightarrow> 's chans_t \<Rightarrow> 's chans_t res" where
  "chan_set_en idx enable st = chan_upd idx (\<lambda>ch. ch\<lparr>ch_en := enable\<rparr>) st"

definition chan_get_en :: "int \<Rightarrow> 's chans_t \<Rightarrow> int res" where
  "chan_get_en idx st = bind_res (chan_at idx st) (\<lambda>ch. Inr (ch_en ch))"

definition chan_get_mode :: "int \<Rightarrow> 's chans_t \<Rightarrow> chanmode_t res" where
  "chan_get_mode idx st = bind_res (chan_at idx st) (\<lambda>ch. Inr (ch_mode ch))"

text \<open>The queries check the index against the number of channels from above only.\<close>

definition chan_query :: "(chan_t \<Rightarrow> 'a) \<Rightarrow> 'a \<Rightarrow> int \<Rightarrow> 's chans_t \<Rightarrow> 'a res" where
  "chan_query f none idx st =
     (if idx > chan_get_nbr st then Inr none else bind_res (chan_at idx st) (\<lambda>ch. Inr (f ch)))"

definition chan_get_info_str :: "int \<Rightarrow> 's chans_t \<Rightarrow> string option res" where
  "chan_get_info_str = chan_query (\<lambda>ch. Some (ch_szinfo ch)) None"
definition chan_get_servip_str :: "int \<Rightarrow> 's chans_t \<Rightarrow> string option res" where
  "chan_get_servip_str = chan_query (\<lambda>ch. Some (ch_servip ch)) None"
definition chan_get_servport :: "int \<Rightarrow> 's chans_t \<Rightarrow> int res" where
  "chan_get_servport = chan_query ch_servport (-1)"
definition chan_get_baud :: "int \<Rightarrow> 's chans_t \<Rightarrow> int res" where
  "chan_get_baud = chan_query ch_baud (-1)"
definition chan_get_parity_str :: "int \<Rightarrow> 's chans_t \<Rightarrow> string option res" where
  "chan_get_parity_str = chan_query (\<lambda>ch. Some (ch_szparity ch)) None"
definition chan_get_dev_str :: "int \<Rightarrow> 's chans_t \<Rightarrow> string option res" where
  "chan_get_dev_str = chan_query (\<lambda>ch. Some (ch_szdev ch)) None"
definition chan_get_port :: "int \<Rightarrow> 's chans_t \<Rightarrow> int res" where
  "chan_get_port = chan_query ch_port (-1)"
definition chan_get_mode_str :: "int \<Rightarrow> 's chans_t \<Rightarrow> string option res" where
  "chan_get_mode_str = chan_query (\<lambda>ch. Some (ch_szmode ch)) None"
definition chan_get_errcnt :: "int \<Rightarrow> 's chans_t \<Rightarrow> int res" where
  "chan_get_errcnt = chan_query (\<lambda>ch. sint (ch_errcnt ch)) (-1)"
definition chan_get_started :: "int \<Rightarrow> 's chans_t \<Rightarrow> int res" where
  "chan_get_started = chan_query ch_started (-1)"
definition chan_get_restart_times :: "int \<Rightarrow> 's chans_t \<Rightarrow> int res" where
  "chan_get_restart_times = chan_query ch_restart_times (-1)"
definition chan_get_retry_times :: "int \<Rightarrow> 's chans_t \<Rightarrow> int res" where
  "chan_get_retry_times = chan_query ch_retry_times (-1)"
definition chan_get_dbg :: "int \<Rightarrow> 's chans_t \<Rightarrow> int res" where
  "chan_get_dbg = chan_query ch_dbg (-1)"

end
