(* ===== verification/ChanRetry.thy ===== *)
theory ChanRetry
  imports Chan
begin

text \<open>
  Requests with retries: what the two nested loops of the functions \<open>..._with_retry\<close> do to a channel whose device
  answers late or not at all, and the starts of a channel that leave it in a state that a request faults on.
\<close>

section \<open>Access to a channel\<close>

lemma chan_at_put: "chan_put idx ch st = Inr st' \<Longrightarrow> chan_at idx st' = Inr ch"
  by (auto simp: chan_put_def chan_at_def split: if_splits)

lemma chan_put_ok: "chan_at idx st = Inr ch \<Longrightarrow> chan_put idx ch' st = Inr (st\<lparr>chan := (chan st)[nat idx := ch']\<rparr>)"
  by (auto simp: chan_put_def chan_at_def split: if_splits)

lemma chan_at_updated [simp]:
  "chan_at idx st = Inr ch \<Longrightarrow> chan_at idx (st\<lparr>chan := (chan st)[nat idx := ch']\<rparr>) = Inr ch'"
  by (auto simp: chan_at_def split: if_splits)

lemma chan_at_wire [simp]: "chan_at idx (st\<lparr>chan_wire := w\<rparr>) = chan_at idx st"
  by (simp add: chan_at_def)

lemma chan_at_updated_wire [simp]:
  "chan_at idx st = Inr ch \<Longrightarrow> chan_at idx (st\<lparr>chan_wire := w, chan := (chan st)[nat idx := ch']\<rparr>) = Inr ch'"
  by (auto simp: chan_at_def split: if_splits)

lemma chan_upd_ok: "chan_at idx st = Inr ch \<Longrightarrow> chan_upd idx f st = Inr (st\<lparr>chan := (chan st)[nat idx := f ch]\<rparr>)"
  by (simp add: chan_upd_def chan_put_ok)

lemmas chan_access = chan_put_ok chan_upd_ok

section \<open>A device that answers late\<close>

text \<open>The line takes every message; the first \<open>k\<close> of them are not answered.\<close>

definition late_link :: "nat \<Rightarrow> UCHAR list \<Rightarrow> nat link" where
  "late_link k fr m n = Inr (\<lparr>an_rc = int (length m), an_in = if n < k then [] else [Some fr]\<rparr>, Suc n)"

text \<open>The channel after \<open>n\<close> messages and \<open>e\<close> counted errors.\<close>

definition rtu_channel :: "chan_t \<Rightarrow> bool" where
  "rtu_channel ch \<longleftrightarrow> ch_mode ch = CHANMODE_MODBUS_RTU \<and> ch_szdev ch \<noteq> [] \<and> length (ch_szdev ch) < 11 \<and>
     (\<exists>p ps. ch_szparity ch = p # ps \<and> (p = CHR ''N'' \<or> p = CHR ''E'' \<or> p = CHR ''O''))"

definition served :: "int \<Rightarrow> chan_t \<Rightarrow> UCHAR list list \<Rightarrow> UCHAR list \<Rightarrow> nat \<Rightarrow> nat \<Rightarrow> nat chans_t \<Rightarrow> bool" where
  "served idx ch0 old req n e st \<longleftrightarrow>
     (\<exists>ch c. chan_at idx st = Inr ch \<and> ch_ctx ch = Live c \<and> mc_backend c = RTU_BACKEND \<and> rtu_channel ch \<and>
        ch_retry_times ch = ch_retry_times ch0 \<and> ch_errcnt ch = ch_errcnt ch0 + of_nat e \<and>
        wi_peer (chan_wire st) = n \<and> wi_sent (chan_wire st) = old @ replicate n req)"

definition read_request :: "int \<Rightarrow> int \<Rightarrow> int \<Rightarrow> UCHAR list" where
  "read_request slave addr nb = rtu_seal [int_lo slave, 0x03, int_hi addr, int_lo addr, int_hi nb, int_lo nb]"

definition read_answer :: "UCHAR \<Rightarrow> USHORT list \<Rightarrow> UCHAR list" where
  "read_answer sl rs = rtu_seal ([sl, 0x03, of_nat (2 * length rs)] @ reg_payload rs)"

lemma read_on_late_link:
  assumes "rtu_master c" "mc_slave c = slave" "1 \<le> length rs" "length rs \<le> 125"
  shows "modbus_read_registers (late_link k (read_answer sl rs)) c addr (int (length rs)) w =
    Inr (if wi_peer w < k then Inl ETIMEDOUT else Inr (int (length rs), rs),
         sent w (read_request slave addr (int (length rs))) (Suc (wi_peer w)))"
proof (cases "wi_peer w < k")
  case False
  have "delivers (late_link k (read_answer sl rs)) m (wi_peer w)
      (rtu_seal ([sl, 0x03, of_nat (2 * length rs)] @ reg_payload rs)) (Suc (wi_peer w))" for m
    using False by (auto simp: delivers_def late_link_def stream_def stream_bytes_def rtu_seal_def read_answer_def)
  note r = read_registers_rtu[OF assms(1) _ assms(3,4) this]
  show ?thesis
    using r[of addr] False assms(2,4)
    by (simp add: modbus_read_registers_def MODBUS_MAX_READ_REGISTERS_def read_request_def rtu_request_def)
next
  case True
  have w: "w\<lparr>wi_tid := wi_tid w\<rparr> = w" by simp
  have "length (rtu_seal bs) \<noteq> 0" for bs by (simp add: rtu_seal_def)
  then show ?thesis
    using True assms
    by (simp add: modbus_read_registers_def read_registers_def MODBUS_MAX_READ_REGISTERS_def modbus_request_def rtu_master_def
        build_request_basis_def rtu_build_request_basis_def exchange_def send_msg_def send_msg_pre_rtu late_link_def
        receive_msg_def receive_loop.simps header_length_def sent_def read_request_def Let_def)
qed

definition one_attempt ::
  "nat \<Rightarrow> UCHAR \<Rightarrow> USHORT list \<Rightarrow> int \<Rightarrow> int \<Rightarrow> int \<Rightarrow> nat chans_t \<Rightarrow> (USHORT list option \<times> nat chans_t) res" where
  "one_attempt k sl rs idx slave addr =
     attempt idx slave (\<lambda>c. modbus_read_registers (late_link k (read_answer sl rs)) c addr (int (length rs))) (wanted (int (length rs)))"

definition late_setup :: "int \<Rightarrow> USHORT list \<Rightarrow> bool" where
  "late_setup slave rs \<longleftrightarrow> 0 \<le> slave \<and> slave \<le> 254 \<and> 1 \<le> length rs \<and> length rs \<le> 125"

text \<open>One attempt, one start of the channel.\<close>

lemma attempt_served:
  assumes "late_setup slave rs" "served idx ch0 old (read_request slave addr (int (length rs))) n e st"
  shows "\<exists>st'. one_attempt k sl rs idx slave addr st = Inr (if n < k then None else Some rs, st') \<and>
    served idx ch0 old (read_request slave addr (int (length rs))) (Suc n) (if n < k then Suc e else e) st'"
proof -
  let ?req = "read_request slave addr (int (length rs))"
  obtain ch c where ch: "chan_at idx st = Inr ch" "ch_ctx ch = Live c" "mc_backend c = RTU_BACKEND" "rtu_channel ch"
    "ch_retry_times ch = ch_retry_times ch0" "ch_errcnt ch = ch_errcnt ch0 + of_nat e"
    "wi_peer (chan_wire st) = n" "wi_sent (chan_wire st) = old @ replicate n ?req"
    using assms(2) by (auto simp: served_def)
  define c' where "c' = c\<lparr>mc_slave := slave\<rparr>"
  have sl: "snd (modbus_set_slave c slave) = c'" "rtu_master c'" "mc_slave c' = slave"
    using assms(1) ch(3) by (simp_all add: modbus_set_slave_def late_setup_def c'_def rtu_master_def)
  let ?w = "sent (chan_wire st) ?req (Suc n)"
  define s where "s = (st\<lparr>chan_wire := ?w\<rparr>)\<lparr>chan := (chan (st\<lparr>chan_wire := ?w\<rparr>))[nat idx := ch\<lparr>ch_ctx := Live c'\<rparr>]\<rparr>"
  have s: "chan_at idx s = Inr (ch\<lparr>ch_ctx := Live c'\<rparr>)" "chan_wire s = ?w"
    using ch(1) by (simp_all add: s_def)
  have m: "chan_modbus idx slave (\<lambda>c. modbus_read_registers (late_link k (read_answer sl rs)) c addr (int (length rs))) st =
      Inr (Some (if n < k then Inl ETIMEDOUT else Inr (int (length rs), rs)), s)"
    using ch(1,2,7) sl read_on_late_link[OF sl(2,3), of rs k sl addr "chan_wire st"] assms(1)
      chan_put_ok[of idx "st\<lparr>chan_wire := ?w\<rparr>"]
    by (simp add: chan_modbus_def Let_def late_setup_def s_def)
  have w: "wi_peer ?w = Suc n" "wi_sent ?w = old @ replicate (Suc n) ?req"
    using ch(8) by (simp_all add: sent_def replicate_append_same)
  show ?thesis
  proof (cases "n < k")
    case True
    let ?ch = "ch\<lparr>ch_ctx := Live c', ch_errcnt := ch_errcnt ch + 1\<rparr>"
    have "one_attempt k sl rs idx slave addr st = Inr (None, s\<lparr>chan := (chan s)[nat idx := ?ch]\<rparr>)"
      using m True assms(1) chan_upd_ok[OF s(1)]
      by (simp add: one_attempt_def attempt_def wanted_def rc_data_def chan_count_error_def)
    moreover have "served idx ch0 old ?req (Suc n) (Suc e) (s\<lparr>chan := (chan s)[nat idx := ?ch]\<rparr>)"
      using s(2) w ch(3-6) chan_at_updated[OF s(1), of ?ch] c'_def
      by (auto simp: served_def rtu_channel_def add.commute)
    ultimately show ?thesis using True by auto
  next
    case False
    have "one_attempt k sl rs idx slave addr st = Inr (Some rs, s)"
      using m False by (simp add: one_attempt_def attempt_def wanted_def rc_data_def data_of_def)
    moreover have "served idx ch0 old ?req (Suc n) e s"
      using s w ch(3-6) c'_def by (auto simp: served_def rtu_channel_def)
    ultimately show ?thesis using False by auto
  qed
qed

lemma start_served:
  assumes "served idx ch0 old req n e st" "so_mb_connect os"
  shows "\<exists>st'. chan_start os idx st = Inr (0, st') \<and> served idx ch0 old req n e st'"
proof -
  obtain ch c where ch: "chan_at idx st = Inr ch" "ch_ctx ch = Live c" "mc_backend c = RTU_BACKEND" "rtu_channel ch"
    "ch_retry_times ch = ch_retry_times ch0" "ch_errcnt ch = ch_errcnt ch0 + of_nat e"
    "wi_peer (chan_wire st) = n" "wi_sent (chan_wire st) = old @ replicate n req"
    using assms(1) by (auto simp: served_def)
  obtain p ps where p: "ch_szparity ch = p # ps" "p = CHR ''N'' \<or> p = CHR ''E'' \<or> p = CHR ''O''"
    using ch(4) by (auto simp: rtu_channel_def)
  let ?new = "\<lparr>mc_backend = RTU_BACKEND, mc_slave = -1\<rparr>"
  let ?ch = "ch\<lparr>ch_started := 0\<rparr>\<lparr>ch_ctx := Live ?new\<rparr>"
  let ?s = "st\<lparr>chan := (chan st)[nat idx := ch\<lparr>ch_started := 0\<rparr>]\<rparr>"
  have new: "modbus_new_rtu (''/dev/'' @ ch_szdev ch) p = Some ?new"
    using ch(4) p(2) by (auto simp: modbus_new_rtu_def rtu_channel_def)
  have "start_modbus_rtu os (ch\<lparr>ch_started := 0\<rparr>) = Inr (0, ?ch)"
    using ch(2) p(1) new assms(2) by (simp add: start_modbus_rtu_def drop_ctx_def)
  then have "chan_start os idx st = Inr (0, ?s\<lparr>chan := (chan ?s)[nat idx := ?ch]\<rparr>)"
    using ch(1,4) chan_upd_ok[OF ch(1)] chan_at_updated[OF ch(1)] chan_put_ok[of idx ?s]
    by (simp add: chan_start_def Let_def rtu_channel_def)
  moreover have "served idx ch0 old req n e (?s\<lparr>chan := (chan ?s)[nat idx := ?ch]\<rparr>)"
    using ch(4-8) chan_at_updated[OF chan_at_updated[OF ch(1)], of "ch\<lparr>ch_started := 0\<rparr>" ?ch]
    by (auto simp: served_def rtu_channel_def)
  ultimately show ?thesis by blast
qed

text \<open>The loops.\<close>

lemma try_served:
  assumes "late_setup slave rs" "served idx ch0 old (read_request slave addr (int (length rs))) n n st" "n \<le> k"
  shows "\<exists>st'. try_times (one_attempt k sl rs idx slave addr) b st = Inr (if k < n + b then Some rs else None, st') \<and>
    served idx ch0 old (read_request slave addr (int (length rs))) (min (Suc k) (n + b)) (min k (n + b)) st'"
  using assms(2,3)
proof (induction b arbitrary: n st)
  case 0
  then show ?case by (auto simp: min_def)
next
  case (Suc b)
  obtain st1 where st1: "one_attempt k sl rs idx slave addr st = Inr (if n < k then None else Some rs, st1)"
    "served idx ch0 old (read_request slave addr (int (length rs))) (Suc n) (if n < k then Suc n else n) st1"
    using attempt_served[OF assms(1) Suc.prems(1)] by blast
  show ?case
  proof (cases "n < k")
    case True
    then show ?thesis using Suc.IH[of "Suc n" st1] st1 by simp
  next
    case False
    then show ?thesis using st1 Suc.prems(2) by (auto simp: min_def)
  qed
qed

lemma retry_served:
  assumes "late_setup slave rs" "served idx ch0 old (read_request slave addr (int (length rs))) n n st" "n \<le> k"
    "\<And>i. so_mb_connect (oss i)" "b = nat (ch_retry_times ch0)"
  shows "\<exists>st'. with_retry (one_attempt k sl rs idx slave addr) oss idx a b i st =
      Inr (if k < n + a * b then Some rs else None, st') \<and>
    served idx ch0 old (read_request slave addr (int (length rs))) (min (Suc k) (n + a * b)) (min k (n + a * b)) st'"
  using assms(2,3)
proof (induction a arbitrary: n st i)
  case 0
  then show ?case by (auto simp: min_def)
next
  case (Suc a)
  let ?req = "read_request slave addr (int (length rs))"
  obtain st1 where st1: "try_times (one_attempt k sl rs idx slave addr) b st = Inr (if k < n + b then Some rs else None, st1)"
    "served idx ch0 old ?req (min (Suc k) (n + b)) (min k (n + b)) st1"
    using try_served[OF assms(1) Suc.prems] by blast
  show ?case
  proof (cases "k < n + b")
    case True
    then have "min (Suc k) (n + b) = Suc k" "min k (n + b) = k" "min (Suc k) (n + Suc a * b) = Suc k" "min k (n + Suc a * b) = k"
      by auto
    then show ?thesis using st1 True by auto
  next
    case False
    then have m: "min (Suc k) (n + b) = n + b" "min k (n + b) = n + b" by auto
    obtain st2 where st2: "chan_start (oss i) idx st1 = Inr (0, st2)" "served idx ch0 old ?req (n + b) (n + b) st2"
      using start_served[OF st1(2) assms(4)] m by auto
    obtain ch where "chan_at idx st2 = Inr ch" "ch_retry_times ch = ch_retry_times ch0" using st2(2) by (auto simp: served_def)
    then show ?thesis
      using st1(1) st2 False Suc.IH[of "n + b" st2 "Suc i"] assms(5) by (simp add: add.assoc)
  qed
qed

section \<open>Properties\<close>

text \<open>C11: a read with retries on a serial Modbus channel whose device leaves the first \<open>k\<close> requests unanswered: the
  call returns, and it delivers the registers exactly when \<open>k\<close> is less than \<open>restart_times * retry_times\<close>. The same
  request goes out once per attempt, and each unanswered one is counted as an error. The slave number in the answer
  does not matter.\<close>

theorem late_answer_delivered:
  assumes "chan_at idx st = Inr ch" "ch_ctx ch = Live c" "mc_backend c = RTU_BACKEND" "rtu_channel ch"
    "0 \<le> slave" "slave \<le> 254" "1 \<le> length rs" "length rs \<le> 125" "\<forall>i. so_mb_connect (oss i)"
    "wi_peer (chan_wire st) = 0" "attempts = nat (ch_restart_times ch) * nat (ch_retry_times ch)"
  shows "\<exists>st' ch'.
    chan_read_holdingregisters_with_retry (late_link k (read_answer sl rs)) oss idx slave addr (int (length rs)) st =
      Inr (if k < attempts then 0 else -1, if k < attempts then Some rs else None, st') \<and>
    wi_sent (chan_wire st') =
      wi_sent (chan_wire st) @ replicate (min (Suc k) attempts) (read_request slave addr (int (length rs))) \<and>
    chan_at idx st' = Inr ch' \<and> ch_errcnt ch' = ch_errcnt ch + of_nat (min k attempts)"
proof -
  let ?req = "read_request slave addr (int (length rs))"
  have "served idx ch (wi_sent (chan_wire st)) ?req 0 0 st" using assms(1-4,10) by (simp add: served_def)
  moreover have "late_setup slave rs" using assms(5-8) by (simp add: late_setup_def)
  ultimately obtain st' where st': "with_retry (one_attempt k sl rs idx slave addr) oss idx (nat (ch_restart_times ch))
      (nat (ch_retry_times ch)) 0 st = Inr (if k < attempts then Some rs else None, st')"
    "served idx ch (wi_sent (chan_wire st)) ?req (min (Suc k) attempts) (min k attempts) st'"
    using retry_served[of slave rs idx ch "wi_sent (chan_wire st)" addr 0 st k oss _ sl "nat (ch_restart_times ch)" 0] assms(9,11)
    by auto
  have "chan_read_holdingregisters_with_retry (late_link k (read_answer sl rs)) oss idx slave addr (int (length rs)) st =
      Inr (if k < attempts then 0 else -1, if k < attempts then Some rs else None, st')"
    using st'(1) assms(1) by (simp add: chan_read_holdingregisters_with_retry_def retry_channel_def one_attempt_def)
  then show ?thesis using st'(2) by (auto simp: served_def)
qed

definition sample_chan :: "string \<Rightarrow> modbus_t cptr \<Rightarrow> chan_t" where
  "sample_chan parity ctx =
     \<lparr>ch_rstcnt = 0, ch_servip = [], ch_servport = 0, ch_szinfo = [], ch_dbg = 0, ch_en = 1, ch_ctx = ctx, ch_fd = 0,
      ch_baud = 9600, ch_szparity = parity, ch_szdev = ''ttyS1'', ch_port = 0, ch_szmode = ''modbus_rtu'',
      ch_mode = CHANMODE_MODBUS_RTU, ch_sockfd = 0, ch_errcnt = 0, ch_started = 1, ch_restart_times = 2, ch_retry_times = 3,
      serial_rxrb = Null, serial_txrb = Null, socketcan_rxrb = Null, socketcan_txrb = Null, tcpservcan_rxrb = Null,
      tcpservcan_txrb = Null\<rparr>"

definition sample_chans :: "chan_t \<Rightarrow> nat chans_t" where
  "sample_chans ch = \<lparr>chan = replicate 9 ch, channbr = 1, chan_wire = \<lparr>wi_tid = 0, wi_peer = 0, wi_sent = []\<rparr>\<rparr>"

definition sample_os :: "bool \<Rightarrow> start_os" where
  "sample_os connect =
     \<lparr>so_open = 3, so_getattr = None, so_setattr = True, so_malloc = (\<lambda>_. True),
      so_serial_mem = (\<lambda>_. \<lparr>buffer = [], tail_index = 0, head_index = 0\<rparr>),
      so_can_mem = (\<lambda>_. \<lparr>buffer = [], tail_index = 0, head_index = 0\<rparr>),
      so_tcpcan_mem = (\<lambda>_. \<lparr>buffer = [], tail_index = 0, head_index = 0\<rparr>), so_thrd = (\<lambda>_. True), so_socket = 4,
      so_ifindex = True, so_bind = True, so_tcp_connect = True, so_mb_connect = connect, so_gpio_exported = True,
      so_export_open = True, so_export_write = True, so_dir_open = True, so_dir_write = True\<rparr>"

lemma sample_chans_at: "chan_at 1 (sample_chans ch) = Inr ch"
  by (simp add: sample_chans_def chan_at_def)

theorem late_answer_delivered_witness:
  "\<exists>st' ch'. chan_read_holdingregisters_with_retry (late_link 4 (read_answer 9 [7, 8])) (\<lambda>_. sample_os True) 1 17 100 2
      (sample_chans (sample_chan ''N'' (Live \<lparr>mc_backend = RTU_BACKEND, mc_slave = -1\<rparr>))) = Inr (0, Some [7, 8], st') \<and>
    wi_sent (chan_wire st') = replicate 5 (read_request 17 100 2) \<and> chan_at 1 st' = Inr ch' \<and> ch_errcnt ch' = 4"
proof -
  let ?c = "\<lparr>mc_backend = RTU_BACKEND, mc_slave = -1\<rparr>"
  have "rtu_channel (sample_chan ''N'' (Live ?c))" by (simp add: rtu_channel_def sample_chan_def)
  moreover have "ch_ctx (sample_chan ''N'' (Live ?c)) = Live ?c" "ch_restart_times (sample_chan ''N'' (Live ?c)) = 2"
    "ch_retry_times (sample_chan ''N'' (Live ?c)) = 3" "ch_errcnt (sample_chan ''N'' (Live ?c)) = 0"
    by (simp_all add: sample_chan_def)
  moreover have "wi_peer (chan_wire (sample_chans ch)) = 0" "wi_sent (chan_wire (sample_chans ch)) = []" for ch
    by (simp_all add: sample_chans_def)
  moreover have "so_mb_connect (sample_os True)" by (simp add: sample_os_def)
  ultimately show ?thesis
    using late_answer_delivered[OF sample_chans_at, of "sample_chan ''N'' (Live ?c)" ?c 17 "[7, 8]" "\<lambda>_. sample_os True" 6 4 9 100]
    by simp
qed

lemma freed_context_faults: "chan_at idx st = Inr ch \<Longrightarrow> ch_ctx ch = Freed \<Longrightarrow> chan_modbus idx slave call st = Inl Use_after_free"
  by (simp add: chan_modbus_def)

text \<open>Fact: a channel of one of the two RTU over network modes whose connection fails keeps the address of the freed
  context: the start returns its error code, and the next request uses the freed memory.\<close>

theorem failed_connect_dangles:
  assumes "chan_at idx st = Inr ch" "ch_mode ch = chan_mode_str2nbr (Some (ch_szmode ch))"
    "ch_szmode ch = ''modbus_rtu_udp'' \<or> ch_szmode ch = ''modbus_rtu_tcp''" "\<not> so_mb_connect os"
  shows "\<exists>ret st'. chan_start os idx st = Inr (ret, st') \<and> ret < 0 \<and>
    chan_read_holdingregisters link idx slave addr nb st' = Inl Use_after_free \<and>
    chan_write_single_register link idx slave addr v st' = Inl Use_after_free"
proof -
  have m: "ch_mode ch = CHANMODE_UNKNOWN" using assms(2,3) by (auto simp: chan_mode_str2nbr_def)
  let ?s = "st\<lparr>chan := (chan st)[nat idx := ch\<lparr>ch_started := 0\<rparr>]\<rparr>"
  let ?ch = "ch\<lparr>ch_started := 0, ch_ctx := Freed\<rparr>"
  let ?t = "?s\<lparr>chan := (chan ?s)[nat idx := ?ch]\<rparr>"
  have started: "\<exists>ret < 0. chan_start os idx st = Inr (ret, ?t)"
    using assms(1,3,4) m chan_upd_ok[OF assms(1)] chan_at_updated[OF assms(1)] chan_put_ok[of idx ?s]
    by (auto simp: chan_start_def Let_def start_modbus_rtu_udp_def start_modbus_rtu_tcp_def modbus_new_rtuudp_def
        modbus_new_rtutcp_def)
  have at: "chan_at idx ?t = Inr ?ch" by (rule chan_at_updated[OF chan_at_updated[OF assms(1)]])
  have freed: "ch_ctx ?ch = Freed" by simp
  have "chan_read_holdingregisters link idx slave addr nb ?t = Inl Use_after_free"
    "chan_write_single_register link idx slave addr v ?t = Inl Use_after_free"
    unfolding chan_read_holdingregisters_def chan_read_def chan_write_single_register_def
    by (simp_all only: freed_context_faults[OF at freed] bind_res_Inl)
  then show ?thesis using started by blast
qed

theorem failed_connect_dangles_witness:
  "\<exists>ret st'. chan_start (sample_os False) 1
      (sample_chans ((sample_chan ''N'' Null)\<lparr>ch_szmode := ''modbus_rtu_tcp'', ch_mode := CHANMODE_UNKNOWN\<rparr>)) = Inr (ret, st') \<and>
    ret < 0 \<and> chan_read_holdingregisters (late_link 0 []) 1 17 100 1 st' = Inl Use_after_free \<and>
    chan_write_single_register (late_link 0 []) 1 17 100 5 st' = Inl Use_after_free"
  by (rule failed_connect_dangles[OF sample_chans_at]) (simp_all add: sample_chan_def sample_os_def chan_mode_str2nbr_def)

text \<open>Fact: the first start of a serial Modbus channel hands a null pointer to the library exactly when the parity is not
  one of the capital letters N, E and O or the device name has eleven characters or more; the serial mode of a
  channel accepts small letters as well.\<close>

theorem rtu_start_null_pointer:
  assumes "chan_at idx st = Inr ch" "ch_mode ch = CHANMODE_MODBUS_RTU" "ch_ctx ch = Null" "ch_szparity ch = p # ps"
  shows "(chan_start os idx st = Inl Null_deref \<longleftrightarrow>
      11 \<le> length (ch_szdev ch) \<or> p \<noteq> CHR ''N'' \<and> p \<noteq> CHR ''E'' \<and> p \<noteq> CHR ''O'') \<and>
    parity_flags (CHR ''n'') tty = parity_flags (CHR ''N'') tty"
proof -
  let ?s = "st\<lparr>chan := (chan st)[nat idx := ch\<lparr>ch_started := 0\<rparr>]\<rparr>"
  have "chan_start os idx st = bind_res (start_modbus_rtu os (ch\<lparr>ch_started := 0\<rparr>)) (\<lambda>(ret, ch').
      bind_res (chan_put idx ch' ?s) (\<lambda>s. Inr (ret, s)))"
    using assms(1,2) chan_upd_ok[OF assms(1)] chan_at_updated[OF assms(1)] by (simp add: chan_start_def Let_def)
  moreover have "start_modbus_rtu os (ch\<lparr>ch_started := 0\<rparr>) =
      (if 11 \<le> length (ch_szdev ch) \<or> p \<noteq> CHR ''N'' \<and> p \<noteq> CHR ''E'' \<and> p \<noteq> CHR ''O'' then Inl Null_deref
       else Inr (0, ch\<lparr>ch_started := 0, ch_ctx := if so_mb_connect os then Live \<lparr>mc_backend = RTU_BACKEND, mc_slave = -1\<rparr> else Null\<rparr>))"
    using assms(3,4) by (auto simp: start_modbus_rtu_def drop_ctx_def modbus_new_rtu_def)
  moreover have "parity_flags (CHR ''n'') tty = parity_flags (CHR ''N'') tty" by (simp add: parity_flags_def)
  ultimately show ?thesis using chan_put_ok[OF chan_at_updated[OF assms(1)]] by auto
qed

theorem rtu_start_null_pointer_witness:
  "chan_start (sample_os True) 1 (sample_chans (sample_chan ''n'' Null)) = Inl Null_deref"
  using rtu_start_null_pointer[OF sample_chans_at, of "sample_chan ''n'' Null" "CHR ''n''" "[]" "sample_os True"]
  by (simp add: sample_chan_def)

end
