(* ===== verification/ChanIo.thy ===== *)
theory ChanIo
  imports ChanRetry
begin

text \<open>
  The other properties of the channels: the bytes of a serial port pass the two ring buffers and the threads in
  order, the attributes that a serial port is opened with, and the bound that the table of channels has to keep.
\<close>

section \<open>Serial buffers\<close>

lemma serial_mask: "nat CHAN_SERIAL_RINGBUFFER_MASK = 127"
  by (simp add: CHAN_SERIAL_RINGBUFFER_MASK_pow2)

lemma serial_queue_arr_foldl: "chan_serial_ringbuffer_queue_arr b es = foldl chan_serial_ringbuffer_queue b es"
  by (simp add: chan_serial_ringbuffer_queue_arr_def chan_serial_ringbuffer_queue_def rb_queue_arr_foldl)

lemma serial_num_items:
  "chan_serial_ringbuffer_num_items b = int (length (chan_serial_ringbuffer_items b))"
  using rb_length_items[OF CHAN_SERIAL_RINGBUFFER_MASK_pow2, of b]
  by (simp add: chan_serial_ringbuffer_num_items_def chan_serial_ringbuffer_items_def)

lemma serial_dequeue_arr:
  assumes "chan_serial_ringbuffer_wf b"
  shows "\<exists>b'. chan_serial_ringbuffer_dequeue_arr b n = (take (nat n) (chan_serial_ringbuffer_items b), b') \<and>
    chan_serial_ringbuffer_wf b' \<and> chan_serial_ringbuffer_items b' = drop (nat n) (chan_serial_ringbuffer_items b)"
proof -
  have "rb_is_empty b \<longleftrightarrow> chan_serial_ringbuffer_items b = []"
    using rb_is_empty_iff[OF _ CHAN_SERIAL_RINGBUFFER_MASK_pow2, of b] assms
    by (simp add: chan_serial_ringbuffer_wf_def chan_serial_ringbuffer_items_def)
  moreover have "chan_serial_ringbuffer_dequeue_arr b n =
      (if rb_is_empty b then ([], b) else drain chan_serial_ringbuffer_dequeue b (nat n))"
    by (simp add: chan_serial_ringbuffer_dequeue_arr_def chan_serial_ringbuffer_dequeue_def rb_dequeue_arr_def rb_dequeue_loop_drain)
  ultimately show ?thesis
    using chan_serial_rb.drain_items[OF assms, of "nat n"] assms
    by (cases "drain chan_serial_ringbuffer_dequeue b (nat n)") auto
qed

lemma serial_queue_fits:
  assumes "chan_serial_ringbuffer_wf b" "length (chan_serial_ringbuffer_items b) + length es \<le> 127"
  shows "chan_serial_ringbuffer_items (foldl chan_serial_ringbuffer_queue b es) = chan_serial_ringbuffer_items b @ es"
  using chan_serial_rb.queue_all_items[OF assms(1), of es] assms(2) by (simp add: serial_mask)

definition serial_byte :: "char \<Rightarrow> chan_serial_ringbuffer_element_t" where
  "serial_byte c = \<lparr>chan_serial_c = c\<rparr>"

lemma serial_byte_c [simp]: "chan_serial_c (serial_byte c) = c" "serial_byte (chan_serial_c e) = e"
  by (simp_all add: serial_byte_def)

lemma serial_queue_all_ok:
  assumes "chan_at idx st = Inr ch" "serial_rxrb ch = Live rb"
  shows "serial_queue_all idx bytes st = Inr (st\<lparr>chan := (chan st)[nat idx :=
    ch\<lparr>serial_rxrb := Live (foldl chan_serial_ringbuffer_queue rb (map serial_byte bytes))\<rparr>]\<rparr>)"
  using assms
proof (induction bytes arbitrary: st ch rb)
  case Nil
  have "ch\<lparr>serial_rxrb := serial_rxrb ch\<rparr> = ch" by simp
  then have "ch\<lparr>serial_rxrb := Live rb\<rparr> = ch" using Nil.prems(2) by simp
  moreover have "chan st ! nat idx = ch" using Nil.prems(1) by (auto simp: chan_at_def split: if_splits)
  ultimately show ?case by (metis chans_t.surjective chans_t.update_convs(1) foldl_Nil list.simps(8) list_update_id serial_queue_all.simps(1))
next
  case (Cons c cs)
  let ?ch = "ch\<lparr>serial_rxrb := Live (chan_serial_ringbuffer_queue rb (serial_byte c))\<rparr>"
  have "chan_serial_rxrb_queue idx \<lparr>chan_serial_c = c\<rparr> st = Inr (st\<lparr>chan := (chan st)[nat idx := ?ch]\<rparr>)"
    using Cons.prems chan_put_ok[OF Cons.prems(1)] by (simp add: chan_serial_rxrb_queue_def serial_byte_def)
  then show ?case
    using Cons.IH[OF chan_at_updated[OF Cons.prems(1), of ?ch], of "chan_serial_ringbuffer_queue rb (serial_byte c)"]
    by simp
qed

section \<open>Properties\<close>

text \<open>C29: bytes that are queued for sending on a serial channel come out of the sender in one write, and, when the
  wire leads back to the channel, they are read from it behind what was there before, in order and complete, as long
  as the two buffers have room and the receiver reads them at once.\<close>

theorem serial_loopback_in_order:
  assumes "chan_at idx st = Inr ch" "serial_txrb ch = Live tx" "serial_rxrb ch = Live rx"
    "chan_serial_ringbuffer_wf tx" "chan_serial_ringbuffer_wf rx"
    "out = chan_serial_ringbuffer_items tx @ es" "length out \<le> 100"
    "length (chan_serial_ringbuffer_items rx) + length out \<le> 127"
  shows "\<exists>s1 s2 s3 s4.
    chan_serial_txrb_queue_arr idx es st = Inr s1 \<and>
    chan_serial_txthrd idx s1 = Inr (map chan_serial_c out, s2) \<and> chan_serial_txrb_num_items idx s2 = Inr 0 \<and>
    chan_serial_rxthrd idx (map chan_serial_c out) s2 = Inr s3 \<and>
    chan_serial_rxrb_dequeue_arr idx 127 s3 = Inr (chan_serial_ringbuffer_items rx @ out, s4)"
proof -
  let ?tx = "chan_serial_ringbuffer_queue_arr tx es"
  let ?c1 = "ch\<lparr>serial_txrb := Live ?tx\<rparr>"
  define s1 where "s1 = st\<lparr>chan := (chan st)[nat idx := ?c1]\<rparr>"
  have q: "chan_serial_txrb_queue_arr idx es st = Inr s1"
    using assms(1,2) chan_put_ok[OF assms(1)] by (simp add: chan_serial_txrb_queue_arr_def s1_def)
  have a1: "chan_at idx s1 = Inr ?c1" using assms(1) by (simp add: s1_def)
  have tx: "chan_serial_ringbuffer_wf ?tx" "chan_serial_ringbuffer_items ?tx = out"
    using assms(4,6,7) chan_serial_rb.queue_all_inv[OF assms(4)] serial_queue_fits[OF assms(4), of es]
    by (simp_all add: serial_queue_arr_foldl)
  obtain tx' where tx': "chan_serial_ringbuffer_dequeue_arr ?tx (int (length out)) = (out, tx')"
    "chan_serial_ringbuffer_items tx' = []"
    using serial_dequeue_arr[OF tx(1), of "int (length out)"] tx(2) by auto
  define c2 where "c2 = (if out = [] then ?c1 else ?c1\<lparr>serial_txrb := Live tx'\<rparr>)"
  define s2 where "s2 = (if out = [] then s1 else s1\<lparr>chan := (chan s1)[nat idx := c2]\<rparr>)"
  have a2: "chan_at idx s2 = Inr c2" using a1 chan_at_updated[OF a1, of c2] by (simp add: s2_def c2_def)
  have send: "chan_serial_txthrd idx s1 = Inr (map chan_serial_c out, s2)"
    using a1 tx(2) tx'(1) assms(7) chan_put_ok[OF a1]
    by (auto simp: chan_serial_txthrd_def chan_serial_txrb_num_items_def serial_num_items chan_serial_txrb_dequeue_arr_def
        s2_def c2_def)
  have n2: "chan_serial_txrb_num_items idx s2 = Inr 0"
    using a2 tx(2) tx'(2) by (auto simp: chan_serial_txrb_num_items_def serial_num_items c2_def)
  let ?rx = "foldl chan_serial_ringbuffer_queue rx out"
  let ?c3 = "c2\<lparr>serial_rxrb := Live ?rx\<rparr>"
  define s3 where "s3 = (if out = [] then s2 else s2\<lparr>chan := (chan s2)[nat idx := ?c3]\<rparr>)"
  have a3: "\<exists>c3. chan_at idx s3 = Inr c3 \<and> serial_rxrb c3 = Live ?rx"
    using a2 chan_at_updated[OF a2, of ?c3] assms(3) by (auto simp: s3_def c2_def)
  have rx2: "serial_rxrb c2 = Live rx" using assms(3) by (simp add: c2_def)
  have recv: "chan_serial_rxthrd idx (map chan_serial_c out) s2 = Inr s3"
    using serial_queue_all_ok[OF a2 rx2, of "map chan_serial_c out"] assms(7)
    by (auto simp: chan_serial_rxthrd_def s3_def comp_def)
  have rx: "chan_serial_ringbuffer_wf ?rx" "chan_serial_ringbuffer_items ?rx = chan_serial_ringbuffer_items rx @ out"
    using assms(8) chan_serial_rb.queue_all_inv[OF assms(5)] serial_queue_fits[OF assms(5), of out] by simp_all
  obtain c3 where c3: "chan_at idx s3 = Inr c3" "serial_rxrb c3 = Live ?rx" using a3 by blast
  obtain rx' where rx': "chan_serial_ringbuffer_dequeue_arr ?rx 127 = (chan_serial_ringbuffer_items rx @ out, rx')"
    using serial_dequeue_arr[OF rx(1), of 127] rx(2) assms(8) by auto
  have "\<exists>s4. chan_serial_rxrb_dequeue_arr idx 127 s3 = Inr (chan_serial_ringbuffer_items rx @ out, s4)"
    using c3 rx' chan_put_ok[OF c3(1)] by (simp add: chan_serial_rxrb_dequeue_arr_def)
  then show ?thesis using q send n2 recv by blast
qed

theorem serial_loopback_in_order_witness:
  "\<exists>ch st s1 s2 s3 s4. chan_serial_txrb_queue_arr 1 (map serial_byte ''hello'') st = Inr s1 \<and>
    chan_serial_txthrd 1 s1 = Inr (''hello'', s2) \<and> chan_serial_txrb_num_items 1 s2 = Inr 0 \<and>
    chan_serial_rxthrd 1 ''hello'' s2 = Inr s3 \<and>
    chan_serial_rxrb_dequeue_arr 1 127 s3 = Inr (map serial_byte ''hello'', s4) \<and> st = sample_chans ch"
proof -
  let ?b = "chan_serial_ringbuffer_init \<lparr>buffer = replicate 128 (serial_byte (CHR 0x00)), tail_index = 0, head_index = 0\<rparr>"
  let ?ch = "(sample_chan ''N'' Null)\<lparr>serial_txrb := Live ?b, serial_rxrb := Live ?b\<rparr>"
  have b: "chan_serial_ringbuffer_wf ?b" "chan_serial_ringbuffer_items ?b = []"
    by (simp_all add: chan_serial_ringbuffer_init_def chan_serial_ringbuffer_wf_def chan_serial_ringbuffer_items_def rb_init_wf)
  show ?thesis
    using serial_loopback_in_order[OF sample_chans_at, of ?ch ?b ?b "map serial_byte ''hello''" "map serial_byte ''hello''"] b
    by fastforce
qed

lemma word32_eqI:
  fixes a b :: uint32
  assumes "\<forall>n \<in> set [0..<32]. bit a n = bit b n"
  shows "a = b"
  using assms by (intro bit_word_eqI) simp

lemmas cflag_bits = CSTOPB_def CSIZE_def CS8_def CS7_def CRTSCTS_def CREAD_def CLOCAL_def PARENB_def PARODD_def

definition raw_cflag :: "uint32 \<Rightarrow> uint32 \<Rightarrow> uint32" where
  "raw_cflag x cs = ((x AND NOT CSTOPB) AND NOT CSIZE OR cs) AND NOT CRTSCTS OR CREAD OR CLOCAL"

lemma raw_cflag_bits:
  "raw_cflag x CS8 AND CSIZE = CS8" "raw_cflag x CS7 AND CSIZE = CS7"
  "raw_cflag x CS8 AND (CSTOPB OR CRTSCTS) = 0" "raw_cflag x CS7 AND (CSTOPB OR CRTSCTS) = 0"
  "raw_cflag x cs AND (CREAD OR CLOCAL) = CREAD OR CLOCAL"
  by (rule word32_eqI; simp add: bit_simps raw_cflag_def cflag_bits upt_rec)+

lemma raw_cflag_parity:
  "raw_cflag (c AND NOT PARENB) CS8 AND PARENB = 0" "raw_cflag (c AND NOT PARENB) CS7 AND PARENB = 0"
  "raw_cflag ((c OR PARENB) AND NOT PARODD) CS8 AND (PARENB OR PARODD) = PARENB"
  "raw_cflag ((c OR PARENB) AND NOT PARODD) CS7 AND (PARENB OR PARODD) = PARENB"
  "raw_cflag (c OR PARENB OR PARODD) cs AND (PARENB OR PARODD) = PARENB OR PARODD"
  by (rule word32_eqI; simp add: bit_simps raw_cflag_def cflag_bits upt_rec)+

lemma cleared_flags: "(x AND NOT m) AND m = (0 :: uint32)"
  by (rule bit_word_eqI) (simp add: bit_simps)

text \<open>Fact: when a serial port can be opened and configured, it has the data bits that were asked for, one stop bit, the
  parity of the letter, no flow control and the speed, whatever its attributes were before; everything else is
  refused with an error code and nothing is set.\<close>

theorem open_serial_configures:
  "case chan_open_serial fd (Some old) True baud bits parity stop of
     (r, None) \<Rightarrow> r < 0 \<and> \<not> (0 \<le> fd \<and> stop = 1 \<and> bits \<in> {7, 8} \<and> baud \<in> {1200, 2400, 4800, 9600, 19200, 115200} \<and>
       parity \<in> set ''NnEeOo'')
   | (r, Some t) \<Rightarrow> r = fd \<and> 0 \<le> fd \<and> c_speed t = baud \<and>
       c_cflag t AND CSIZE = (if bits = 7 then CS7 else CS8) \<and> c_cflag t AND (CSTOPB OR CRTSCTS) = 0 \<and>
       c_cflag t AND (CREAD OR CLOCAL) = CREAD OR CLOCAL \<and> c_iflag t AND IFLAGS_OFF = 0 \<and>
       c_lflag t AND LFLAGS_OFF = 0 \<and> c_oflag t AND OFLAGS_OFF = 0 \<and>
       (parity = CHR ''N'' \<or> parity = CHR ''n'' \<longrightarrow> c_cflag t AND PARENB = 0) \<and>
       (parity = CHR ''E'' \<or> parity = CHR ''e'' \<longrightarrow> c_cflag t AND (PARENB OR PARODD) = PARENB) \<and>
       (parity = CHR ''O'' \<or> parity = CHR ''o'' \<longrightarrow> c_cflag t AND (PARENB OR PARODD) = PARENB OR PARODD)"
proof -
  have raw: "c_cflag (raw_flags bits t) = raw_cflag (c_cflag t) (if bits = 7 then CS7 else CS8)" for t
    by (simp add: raw_flags_def raw_cflag_def)
  have off: "c_iflag (raw_flags bits t) AND IFLAGS_OFF = 0" "c_lflag (raw_flags bits t) AND LFLAGS_OFF = 0"
    "c_oflag (raw_flags bits t) AND OFLAGS_OFF = 0" for t by (simp_all add: raw_flags_def cleared_flags)
  have par: "case parity_flags parity old of
      None \<Rightarrow> parity \<notin> set ''NnEeOo''
    | Some t \<Rightarrow>
       (parity = CHR ''N'' \<or> parity = CHR ''n'' \<longrightarrow> c_cflag (raw_flags bits t) AND PARENB = 0) \<and>
       (parity = CHR ''E'' \<or> parity = CHR ''e'' \<longrightarrow> c_cflag (raw_flags bits t) AND (PARENB OR PARODD) = PARENB) \<and>
       (parity = CHR ''O'' \<or> parity = CHR ''o'' \<longrightarrow> c_cflag (raw_flags bits t) AND (PARENB OR PARODD) = PARENB OR PARODD)"
    by (auto simp: parity_flags_def raw raw_cflag_parity)
  show ?thesis
  proof (cases "parity_flags parity old")
    case None
    then show ?thesis using par by (simp add: chan_open_serial_def)
  next
    case (Some t)
    then have known: "parity \<in> set ''NnEeOo''" by (auto simp: parity_flags_def split: if_splits)
    let ?u = "(raw_flags bits t)\<lparr>c_speed := baud\<rparr>"
    let ?ok = "\<not> fd < 0 \<and> stop = 1 \<and> (bits = 7 \<or> bits = 8) \<and> baud \<in> {1200, 2400, 4800, 9600, 19200, 115200}"
    show ?thesis
    proof (cases ?ok)
      case True
      then have r: "chan_open_serial fd (Some old) True baud bits parity stop = (fd, Some ?u)"
        using Some by (simp add: chan_open_serial_def)
      have "c_cflag ?u AND CSIZE = (if bits = 7 then CS7 else CS8)" "c_cflag ?u AND (CSTOPB OR CRTSCTS) = 0"
        "c_cflag ?u AND (CREAD OR CLOCAL) = CREAD OR CLOCAL"
        by (simp_all add: raw raw_cflag_bits)
      moreover have "(parity = CHR ''N'' \<or> parity = CHR ''n'' \<longrightarrow> c_cflag ?u AND PARENB = 0) \<and>
          (parity = CHR ''E'' \<or> parity = CHR ''e'' \<longrightarrow> c_cflag ?u AND (PARENB OR PARODD) = PARENB) \<and>
          (parity = CHR ''O'' \<or> parity = CHR ''o'' \<longrightarrow> c_cflag ?u AND (PARENB OR PARODD) = PARENB OR PARODD)"
        using par Some by simp
      moreover have "c_iflag ?u AND IFLAGS_OFF = 0" "c_lflag ?u AND LFLAGS_OFF = 0" "c_oflag ?u AND OFLAGS_OFF = 0" "c_speed ?u = baud"
        using off by simp_all
      moreover have "0 \<le> fd" using True by simp
      ultimately show ?thesis unfolding r prod.case option.case by blast
    next
      case False
      then consider "fd < 0" | "\<not> fd < 0" "stop \<noteq> 1" | "\<not> fd < 0" "stop = 1" "bits \<noteq> 7" "bits \<noteq> 8"
        | "\<not> fd < 0" "stop = 1" "bits = 7 \<or> bits = 8" "baud \<notin> {1200, 2400, 4800, 9600, 19200, 115200}" by blast
      then have "\<exists>r < 0. chan_open_serial fd (Some old) True baud bits parity stop = (r, None)"
        by cases (use Some in \<open>auto simp: chan_open_serial_def\<close>)
      then obtain r where r: "r < 0" "chan_open_serial fd (Some old) True baud bits parity stop = (r, None)" by blast
      moreover have "\<not> (0 \<le> fd \<and> stop = 1 \<and> bits \<in> {7, 8} \<and> baud \<in> {1200, 2400, 4800, 9600, 19200, 115200} \<and>
          parity \<in> set ''NnEeOo'')" using False unfolding linorder_not_less by blast
      ultimately show ?thesis unfolding r(2) prod.case option.case by blast
    qed
  qed
qed

theorem open_serial_configures_witness:
  "case chan_open_serial 3 (Some \<lparr>c_iflag = 0, c_oflag = 5, c_cflag = 0xFFFF, c_lflag = 7, c_vtime = 0, c_vmin = 1, c_speed = 0\<rparr>)
      True 9600 8 (CHR ''E'') 1 of
     (r, None) \<Rightarrow> False
   | (r, Some t) \<Rightarrow> r = 3 \<and> c_speed t = 9600 \<and> c_cflag t AND CSIZE = CS8 \<and> c_cflag t AND (CSTOPB OR CRTSCTS) = 0 \<and>
       c_cflag t AND (PARENB OR PARODD) = PARENB"
  using open_serial_configures[where fd = 3 and baud = 9600 and bits = 8 and parity = "CHR ''E''" and stop = 1 and
      old = "\<lparr>c_iflag = 0, c_oflag = 5, c_cflag = 0xFFFF, c_lflag = 7, c_vtime = 0, c_vmin = 1, c_speed = 0\<rparr>"]
  by (auto split: option.splits prod.splits)

section \<open>The table of channels\<close>

definition chan_row_ok :: "row \<Rightarrow> bool" where
  "chan_row_ok row \<longleftrightarrow> (\<exists>c \<in> set row. fst c \<in> set chan_columns) \<and>
     (\<forall>c \<in> set row. fst c \<in> set chan_columns \<longrightarrow> (\<exists>s. snd c = Some s \<and> length s < 8))"

lemma chan_cfg_column_ok: "length s < 8 \<Longrightarrow> \<exists>ch'. chan_cfg_column (name, Some s) ch = Inr ch'"
  by (auto simp: chan_cfg_column_def)

lemma chan_cfg_columns_ok:
  assumes "\<forall>c \<in> set cs. fst c \<in> set chan_columns \<longrightarrow> (\<exists>s. snd c = Some s \<and> length s < 8)" "chans_ok st" "0 \<le> idx" "idx \<le> 8"
  shows "\<exists>st'. chan_cfg_columns cs idx st = Inr st' \<and> chans_ok st' \<and> channbr st' = channbr st"
  using assms(1,2)
proof (induction cs arbitrary: st)
  case (Cons c cs)
  have n: "nat idx < length (chan st)" using Cons.prems(2) assms(3,4) by (auto simp: chans_ok_def CHAN_NBR_MAX_def)
  show ?case
  proof (cases "fst c \<in> set chan_columns")
    case True
    then obtain s where s: "snd c = Some s" "length s < 8" using Cons.prems(1) by auto
    obtain ch where ch: "chan_cfg_column c (chan st ! nat idx) = Inr ch"
      using chan_cfg_column_ok[OF s(2), of "fst c"] s(1) by (metis prod.collapse)
    let ?st = "st\<lparr>chan := (chan st)[nat idx := ch]\<rparr>"
    have "chans_ok ?st" "channbr ?st = channbr st" using Cons.prems(2) by (simp_all add: chans_ok_def)
    then show ?thesis using Cons.IH[of ?st] Cons.prems(1) True n ch assms(3) by (auto simp: chan_put_def)
  next
    case False
    then show ?thesis using Cons.IH[OF _ Cons.prems(2)] Cons.prems(1) by auto
  qed
qed auto

lemma chan_cfg_columns_overflow:
  assumes "\<exists>c \<in> set cs. fst c \<in> set chan_columns" "chans_ok st" "8 < idx"
  shows "chan_cfg_columns cs idx st = Inl Buffer_overflow"
  using assms(1)
proof (induction cs)
  case (Cons c cs)
  have "\<not> nat idx < length (chan st)" using assms(2,3) by (auto simp: chans_ok_def CHAN_NBR_MAX_def)
  then show ?case using Cons by auto
qed simp

lemma chan_rows_loaded:
  assumes "\<forall>r \<in> set rows. chan_row_ok r" "chans_ok st" "0 \<le> cb_nrow p" "cb_nrow p \<le> 8"
  shows "if cb_nrow p + int (length rows) \<le> 8
    then \<exists>p' st'. run_callback chan_dbcb_0 rc rows (p, st) = Inr (rc, p', st') \<and> cb_nrow p' = cb_nrow p + int (length rows) \<and>
      chans_ok st' \<and> (rows \<noteq> [] \<longrightarrow> cb_ret p' = 0)
    else run_callback chan_dbcb_0 rc rows (p, st) = Inl Buffer_overflow"
  using assms
proof (induction rows arbitrary: p st)
  case Nil
  then show ?case by auto
next
  case (Cons r rows)
  let ?n = "cb_nrow p + 1"
  show ?case
  proof (cases "?n \<le> 8")
    case True
    obtain st' where st': "chan_cfg_columns r ?n st = Inr st'" "chans_ok st'"
      using chan_cfg_columns_ok[of r st ?n] Cons.prems True by (auto simp: chan_row_ok_def)
    let ?p = "p\<lparr>cb_nrow := ?n, cb_ret := 0\<rparr>"
    have "run_callback chan_dbcb_0 rc (r # rows) (p, st) = run_callback chan_dbcb_0 rc rows (?p, st')"
      using st'(1) by (simp add: chan_dbcb_0_def Let_def)
    then show ?thesis using Cons.IH[of st' ?p] Cons.prems st'(2) True by (cases rows) (auto split: if_splits)
  next
    case False
    then have "chan_cfg_columns r ?n st = Inl Buffer_overflow"
      using chan_cfg_columns_overflow[of r st ?n] Cons.prems by (simp add: chan_row_ok_def)
    then show ?thesis using False by (simp add: chan_dbcb_0_def Let_def)
  qed
qed

text \<open>Fact: the channels are loaded into an array of nine elements, the first of which is unused, without a check: a table of
  at most eight rows is loaded and counted, and a ninth row is written past the end of the array.\<close>

theorem channel_table_bound:
  assumes "ex ''select * from chan'' db = (SQLITE_OK, rows, db')" "\<forall>r \<in> set rows. chan_row_ok r" "chans_ok st"
  shows "if length rows \<le> 8
    then \<exists>p' st'. sqlite3_exec ex ''select * from chan'' chan_dbcb_0 (p\<lparr>cb_nrow := 0\<rparr>, st) db = Inr (SQLITE_OK, (p', st'), db') \<and>
      cb_nrow p' = int (length rows) \<and> chans_ok st'
    else chan_init ex p oss db st = Inl Buffer_overflow"
proof -
  note l = chan_rows_loaded[OF assms(2,3), of "p\<lparr>cb_nrow := 0\<rparr>" SQLITE_OK]
  show ?thesis
  proof (cases "length rows \<le> 8")
    case True
    then show ?thesis using l assms(1) by (auto simp: sqlite3_exec_def)
  next
    case False
    then show ?thesis using l assms(1) by (simp add: chan_init_def sqlite3_exec_def)
  qed
qed

theorem channel_table_bound_witness:
  "chan_init (\<lambda>_ db. (0, replicate 9 [(''info'', Some ''a'')], db)) \<lparr>cb_idx = 0, cb_ret = 0, cb_nrow = 0\<rparr> (\<lambda>_. sample_os True) ()
     (sample_chans (sample_chan ''N'' Null)) = Inl Buffer_overflow"
proof -
  let ?ex = "\<lambda>_ db. (0, replicate 9 [(''info'', Some ''a'')], db)"
  have "?ex ''select * from chan'' () = (SQLITE_OK, replicate 9 [(''info'', Some ''a'')], ())" by (simp add: SQLITE_OK_def)
  moreover have "\<forall>r \<in> set (replicate 9 [(''info'', Some ''a'')]). chan_row_ok r" by (simp add: chan_row_ok_def chan_columns_def)
  moreover have "chans_ok (sample_chans (sample_chan ''N'' Null))" by (simp add: chans_ok_def sample_chans_def CHAN_NBR_MAX_def)
  ultimately show ?thesis
    using channel_table_bound[of ?ex "()" "replicate 9 [(''info'', Some ''a'')]" "()" "sample_chans (sample_chan ''N'' Null)"
        "\<lparr>cb_idx = 0, cb_ret = 0, cb_nrow = 0\<rparr>" "\<lambda>_. sample_os True"]
    by simp
qed

end
