(* ===== verification/ChanSlave.thy ===== *)
theory ChanSlave
  imports ChanRetry Mb
begin

text \<open>
  The two ends of the program composed: a request of a field channel (\<open>chan.c\<close> and the client of libmodbus) that
  travels over the line to the simulated slave (\<open>mbs.c\<close> and the FreeModbus stack), is executed there, and whose
  answer the channel receives and checks.
\<close>

section \<open>The slave at the other end of the line\<close>

text \<open>
  The polls of the slave for one request: the whole frame is read by the first one, in which the inter-frame timer
  expires as well; the fourth writes the answer and the fifth takes the event of the sent frame.
\<close>

definition idle_os :: poll_os where
  "idle_os = \<lparr>os_reads = [], os_writes = [], os_now = None\<rparr>"

definition slave_link :: "timeval \<Rightarrow> timeval \<Rightarrow> (fmodbus_t \<times> mbs_t) link" where
  "slave_link t t' m s =
     bind_res (poll_loop xFuncHandlers
         (\<lparr>os_reads = line_frame t m, os_writes = [], os_now = Some t'\<rparr> # replicate 4 idle_os) (fst s) (snd s))
       (\<lambda>(c, w, outs). Inr (\<lparr>an_rc = int (length m), an_in = map Some (filter (\<lambda>out. out \<noteq> []) outs)\<rparr>, (c, w)))"

definition slave_ready :: "timeval \<Rightarrow> timeval \<Rightarrow> fmodbus_t \<Rightarrow> mbs_t \<Rightarrow> bool" where
  "slave_ready t t' ctx w \<longleftrightarrow>
     slave_ok ctx w \<and> waiting ctx \<and> ucMBAddress ctx \<noteq> 0 \<and> ulDeltaMS t' t > ulTimeOut ctx"

lemma rtu_seal_crc_bytes: "rtu_seal bs = bs @ crc_bytes bs"
  by (simp add: rtu_seal_def crc_bytes_def crc16_bytes)

lemma poll_loop_snoc:
  "poll_loop tab oss ctx w = Inr (c, w', outs) \<Longrightarrow> length outs = length oss \<Longrightarrow>
   eMBPoll tab os c w' = Inr (MB_ENOERR, c', w'', out) \<Longrightarrow>
   poll_loop tab (oss @ [os]) ctx w = Inr (c', w'', outs @ [out])"
proof (induction oss arbitrary: ctx w outs)
  case (Cons o1 oss)
  obtain st c1 w1 out1 where p: "eMBPoll tab o1 ctx w = Inr (st, c1, w1, out1)"
    using Cons.prems(1) by (auto simp: bind_res_eq_Inr)
  show ?case
  proof (cases "st = MB_ENOERR")
    case True
    obtain outs1 where "poll_loop tab oss c1 w1 = Inr (c, w', outs1)" "outs = out1 # outs1"
      using Cons.prems(1) p True by (auto simp: bind_res_eq_Inr)
    then show ?thesis using p True Cons.IH[of c1 w1 outs1] Cons.prems by simp
  next
    case False
    then obtain e where "eMBDisable c1 = Inr (e, c)" using Cons.prems(1) p by (auto simp: bind_res_eq_Inr)
    moreover have "eMBState c = STATE_ENABLED" using Cons.prems(3) by (simp add: eMBPoll_def split: if_splits)
    ultimately have False by (auto simp: eMBDisable_def bind_res_eq_Inr split: mbstate.splits)
    then show ?thesis ..
  qed
qed simp

text \<open>A request to the slave: what its handler makes of it comes back, and the slave waits for the next one.\<close>

lemma slave_serves:
  assumes "slave_ready t t' ctx w" "1 \<le> length pdu" "length pdu \<le> 252"
  obtains c w' rest ex f' n' where
    "dispatch xFuncHandlers ctx w (hd pdu) (pdu @ rest) (of_nat (length pdu)) = Inr (ex, w', f', n')"
    "length (pdu @ rest) = 255"
    "delivers (slave_link t t') (rtu_seal (ucMBAddress ctx # pdu)) (ctx, w)
       (rtu_seal (ucMBAddress ctx # reply_bytes (hd pdu) ex f' n')) (c, w')"
    "slave_ready t t' c w'" "cfg c = cfg ctx"
proof -
  let ?m = "rtu_seal (ucMBAddress ctx # pdu)"
  have r: "slave_ok ctx w" "waiting ctx" "ucMBAddress ctx \<noteq> 0" "ulDeltaMS t' t > ulTimeOut ctx"
    using assms(1) by (auto simp: slave_ready_def)
  let ?os = "\<lparr>os_reads = line_frame t ?m, os_writes = [], os_now = Some t'\<rparr> :: poll_os"
  have os: "os_reads ?os = line_frame t ((ucMBAddress ctx # pdu) @ crc_bytes (ucMBAddress ctx # pdu))"
    "os_now ?os = Some t'" "list_all (\<lambda>r. r \<noteq> Write_error) (os_writes idle_os)"
    by (simp_all add: rtu_seal_crc_bytes idle_os_def)
  obtain c w' rest ex f' n' where p:
    "dispatch xFuncHandlers ctx w (hd pdu) (pdu @ rest) (of_nat (length pdu)) = Inr (ex, w', f', n')"
    "length (pdu @ rest) = 255"
    "poll_loop xFuncHandlers [?os, idle_os, idle_os, idle_os] ctx w =
      Inr (c, w', [[], [], [], ucMBAddress ctx # reply_bytes (hd pdu) ex f' n'
        @ crc_bytes (ucMBAddress ctx # reply_bytes (hd pdu) ex f' n')])"
    "rx_side c" "eQueuedEvent c = EV_FRAME_SENT" "rtu_inv c" "xEventInQueue c" "cfg c = cfg ctx" "mbs_ok w'"
    by (rule request_answered[OF r(1,2,3) assms(2,3) os(1,2) r(4) os(3)])
  let ?c = "c\<lparr>xEventInQueue := False\<rparr>"
  have wt: "waiting ?c" by (rule waiting_after_event[OF p(6,7)])
  have cc: "cfg ?c = cfg ctx" using p(8) by (simp add: cfg_def)
  have ok: "slave_ok ?c w'" using slave_ok_cfg[OF r(1) _ cc p(9)] wt by (simp add: waiting_def)
  then have "eMBPoll xFuncHandlers idle_os c w' = Inr (MB_ENOERR, ?c, w', [])"
    using p(5,7) by (simp add: eMBPoll_def xMBPortEventGet_def slave_ok_def)
  from poll_loop_snoc[OF p(3) _ this]
  have "slave_link t t' ?m (ctx, w) = Inr (\<lparr>an_rc = int (length ?m),
      an_in = [Some (rtu_seal (ucMBAddress ctx # reply_bytes (hd pdu) ex f' n'))]\<rparr>, (?c, w'))"
    by (simp add: slave_link_def numeral_eq_Suc rtu_seal_crc_bytes)
  then have "delivers (slave_link t t') ?m (ctx, w) (rtu_seal (ucMBAddress ctx # reply_bytes (hd pdu) ex f' n')) (?c, w')"
    by (auto simp: delivers_def stream_def stream_bytes_def rtu_seal_def)
  moreover have "slave_ready t t' ?c w'" using ok wt cc r(3,4) by (auto simp: slave_ready_def cfg_def)
  ultimately show ?thesis using that p(1,2) cc by blast
qed

section \<open>Registers over the line\<close>

lemma dispatch_registers:
  "dispatch xFuncHandlers ctx w 0x10 f n = eMBFuncWriteMultipleHoldingRegister (mbsidx ctx) w f n"
  "dispatch xFuncHandlers ctx w 0x03 f n = eMBFuncReadHoldingRegister (mbsidx ctx) w f n"
  "dispatch xFuncHandlers ctx w 0x06 f n = eMBFuncWriteHoldingRegister (mbsidx ctx) w f n"
  by (simp_all add: xFuncHandlers_def)

lemma ushort_low: "(ucast (word_of_int k :: USHORT) :: UCHAR) = word_of_int k"
  by (rule bit_word_eqI) (auto simp: bit_simps bit_word_of_int_iff)

definition registers_body :: "int \<Rightarrow> USHORT list \<Rightarrow> UCHAR list" where
  "registers_body addr rs =
     [0x10, int_hi addr, int_lo addr, int_hi (int (length rs)), int_lo (int (length rs))] @ registers_payload rs"

definition written :: "mbs_t \<Rightarrow> int \<Rightarrow> USHORT list \<Rightarrow> mbs_t \<Rightarrow> bool" where
  "written w addr rs w' \<longleftrightarrow> (\<exists>h. w' = on_06_WriteSingleHoldingRegister (w\<lparr>usHoldingRegisters := h\<rparr>) \<and>
     reg_bytes h (nat addr) (length rs) = reg_payload rs)"

lemma slave_writes:
  assumes "length rest + length (registers_body addr rs) = 255" "1 \<le> length rs" "length rs \<le> 120"
    "0 \<le> addr" "addr + int (length rs) \<le> int REG_HOLDING_NREGS"
    "eMBFuncWriteMultipleHoldingRegister MBSIDX_MDL w (registers_body addr rs @ rest)
       (of_nat (length (registers_body addr rs))) = Inr (ex, w', f', n')"
  shows "ex = MB_EX_NONE" "take (unat n') f' = take 5 (registers_body addr rs)" "written w addr rs w'"
proof -
  let ?n = "int (length rs)" and ?f = "registers_body addr rs @ rest"
  have bound: "addr < 65536" using assms(2,5) by (simp add: REG_HOLDING_NREGS_def)
  have a: "frame_ushort ?f 1 = mk_ushort (int_hi addr) (int_lo addr)" "unat (frame_ushort ?f 1) = nat addr"
    using request_count[OF assms(4) bound] by (simp_all add: frame_ushort_def registers_body_def)
  have cnt: "frame_ushort ?f 3 = word_of_int ?n" "unat (frame_ushort ?f 3) = length rs"
    using request_count[of ?n] assms(3) by (simp_all add: frame_ushort_def registers_body_def int_bytes_word)
  have len: "length (registers_body addr rs) = 6 + 2 * length rs"
    by (simp add: registers_body_def registers_payload_def)
  have ok: "frame_ushort ?f 3 \<ge> 1" "frame_ushort ?f 3 \<le> MB_PDU_FUNC_WRITE_MUL_REGCNT_MAX"
    using cnt(2) assms(2,3) by (simp_all add: word_le_nat_alt MB_PDU_FUNC_WRITE_MUL_REGCNT_MAX_def)
  have bc: "?f ! 5 = ucast (2 * frame_ushort ?f 3)"
    using ushort_low[of "2 * ?n"] unfolding cnt(1)
    by (simp add: registers_body_def registers_payload_def int_lo_def mult.commute)
  have lenw: "(of_nat (length (registers_body addr rs)) :: USHORT) \<ge> 6"
    using assms(3) by (simp add: len word_le_nat_alt unsigned_of_nat take_bit_nat_eq_self del: of_nat_add of_nat_mult)
  have range: "holding_range (frame_ushort ?f 1) (frame_ushort ?f 3)"
    using a(2) cnt(2) assms(4,5) by (simp add: holding_range_def)
  have fits: "6 + 2 * unat (frame_ushort ?f 3) \<le> length ?f" using cnt(2) assms(1) len by simp
  let ?h = "holding_store ?f 6 (nat addr) (length rs) (usHoldingRegisters w)"
  have h: "eMBFuncWriteMultipleHoldingRegister MBSIDX_MDL w ?f (of_nat (length (registers_body addr rs))) =
      Inr (MB_EX_NONE, on_06_WriteSingleHoldingRegister (w\<lparr>usHoldingRegisters := ?h\<rparr>), ?f, 5)"
    using lenw ok bc holding_cb_write[OF range fits, of w] a(2) cnt(2)
    by (simp add: eMBFuncWriteMultipleHoldingRegister_def Let_def)
  then have res: "ex = MB_EX_NONE" "f' = ?f" "n' = 5" "w' = on_06_WriteSingleHoldingRegister (w\<lparr>usHoldingRegisters := ?h\<rparr>)"
    using assms(6) by simp_all
  show "ex = MB_EX_NONE" "take (unat n') f' = take 5 (registers_body addr rs)"
    unfolding res by (simp_all add: registers_body_def)
  have "drop 6 (registers_body addr rs) = reg_payload rs" by (simp add: registers_body_def registers_payload_def)
  then have "reg_bytes ?h (nat addr) (length rs) = reg_payload rs"
    using reg_bytes_holding_store[of 6 "length rs" ?f] fits cnt(2) len by simp
  then show "written w addr rs w'" using res(4) by (auto simp: written_def)
qed

definition read_body :: "int \<Rightarrow> nat \<Rightarrow> UCHAR list" where
  "read_body addr n = [0x03, int_hi addr, int_lo addr, int_hi (int n), int_lo (int n)]"

text \<open>After a write a refresh changes no register.\<close>

lemma written_refresh:
  assumes "written w addr rs w'"
  shows "reg_bytes (holding_refresh (MDL w') (usHoldingRegisters w')) (nat addr) (length rs) = reg_payload rs"
    and "mdl_readable (MDL w')"
proof -
  obtain h where h: "w' = on_06_WriteSingleHoldingRegister (w\<lparr>usHoldingRegisters := h\<rparr>)"
    "reg_bytes h (nat addr) (length rs) = reg_payload rs" using assms by (auto simp: written_def)
  show m: "mdl_readable (MDL w')" using h(1) by simp
  have "w'\<lparr>usHoldingRegisters := holding_refresh (MDL w') (usHoldingRegisters w')\<rparr> = w'"
    using on_03_on_06[of "w\<lparr>usHoldingRegisters := h\<rparr>"] on_03_ok[OF m] h(1) by simp
  then have "holding_refresh (MDL w') (usHoldingRegisters w') = h"
    using h(1) by (metis mbs_t.select_convs(2) mbs_t.surjective mbs_t.update_convs(2) on_06_holding)
  then show "reg_bytes (holding_refresh (MDL w') (usHoldingRegisters w')) (nat addr) (length rs) = reg_payload rs"
    using h(2) by simp
qed

lemma slave_reads:
  assumes "length rest = 250" "1 \<le> length rs" "length rs \<le> 120" "0 \<le> addr"
    "addr + int (length rs) \<le> int REG_HOLDING_NREGS" "written w addr rs w1"
    "eMBFuncReadHoldingRegister MBSIDX_MDL w1 (read_body addr (length rs) @ rest) 5 = Inr (ex, w', f', n')"
  shows "ex = MB_EX_NONE" "take (unat n') f' = [0x03, of_nat (2 * length rs)] @ reg_payload rs"
proof -
  let ?f = "read_body addr (length rs) @ rest"
  have bound: "addr < 65536" using assms(2,5) by (simp add: REG_HOLDING_NREGS_def)
  have a: "unat (frame_ushort ?f 1) = nat addr"
    using request_count[OF assms(4) bound] by (simp add: frame_ushort_def read_body_def)
  let ?c = "?f ! 4"
  have c: "unat ?c = length rs" "?c = of_nat (length rs)"
    using assms(3) by (simp_all add: read_body_def int_lo_def unsigned_of_nat take_bit_nat_eq_self)
  let ?r = "ucast ?c :: USHORT"
  have r: "unat ?r = length rs" using c(1) by (simp add: unsigned_ucast_eq take_bit_nat_eq_self)
  have ok: "?r \<ge> 1" "?r \<le> MB_PDU_FUNC_READ_REGCNT_MAX"
    using r assms(2,3) by (simp_all add: word_le_nat_alt MB_PDU_FUNC_READ_REGCNT_MAX_def)
  let ?g = "?f[0 := 3, 1 := ucast (?r * 2)]"
  have l: "length ?g = 255" using assms(1) by (simp add: read_body_def)
  have range: "holding_range (frame_ushort ?f 1) ?r" using a r assms(4,5) by (simp add: holding_range_def)
  have n2: "unat (2 + ?r * 2) = 2 + 2 * length rs" using resp_len[of ?r] r assms(3) by (simp add: word_le_nat_alt)
  note cb = holding_cb_read[OF range written_refresh(2)[OF assms(6)], of 2 ?g]
  have "ex = MB_EX_NONE \<and> n' = 2 + ?r * 2 \<and> f' = take 2 ?g @ reg_payload rs @ drop (2 + 2 * length rs) ?g"
    using assms(7) ok cb l assms(3) a r written_refresh(1)[OF assms(6)]
    by (simp add: eMBFuncReadHoldingRegister_def Let_def)
  moreover have "take 2 ?g = [3, of_nat (2 * length rs)]"
  proof -
    have "?r = word_of_int (int (length rs))" using r assms(3) by (simp add: word_unat_eq_iff unsigned_of_nat take_bit_nat_eq_self)
    then have "(ucast (?r * 2) :: UCHAR) = of_nat (2 * length rs)"
      using ushort_low[of "2 * int (length rs)"] by (simp add: mult.commute)
    then show ?thesis by (simp add: read_body_def)
  qed
  ultimately show "ex = MB_EX_NONE" "take (unat n') f' = [0x03, of_nat (2 * length rs)] @ reg_payload rs"
    using n2 by simp_all
qed


section \<open>The channel at this end\<close>

lemma chan_modbus_call:
  assumes "chan_at idx st = Inr ch" "ch_ctx ch = Live c" "0 \<le> slave" "slave \<le> 254"
    "call (c\<lparr>mc_slave := slave\<rparr>) (chan_wire st) = Inr (r, w)"
  obtains st' where "chan_modbus idx slave call st = Inr (Some r, st')"
    "chan_at idx st' = Inr (ch\<lparr>ch_ctx := Live (c\<lparr>mc_slave := slave\<rparr>)\<rparr>)" "chan_wire st' = w"
proof -
  let ?ch = "ch\<lparr>ch_ctx := Live (c\<lparr>mc_slave := slave\<rparr>)\<rparr>"
  let ?s = "(st\<lparr>chan_wire := w\<rparr>)\<lparr>chan := (chan (st\<lparr>chan_wire := w\<rparr>))[nat idx := ?ch]\<rparr>"
  have "chan_modbus idx slave call st = Inr (Some r, ?s)"
    using assms chan_put_ok[of idx "st\<lparr>chan_wire := w\<rparr>"] by (simp add: chan_modbus_def modbus_set_slave_def Let_def)
  moreover have "chan_at idx ?s = Inr ?ch" using assms(1) by simp
  ultimately show ?thesis using that by simp
qed

text \<open>A serial channel whose line leads to a slave that waits.\<close>

definition connected :: "timeval \<Rightarrow> timeval \<Rightarrow> int \<Rightarrow> (fmodbus_t \<times> mbs_t) chans_t \<Rightarrow> fmodbus_t \<Rightarrow> mbs_t \<Rightarrow> uint32 \<Rightarrow> bool" where
  "connected t t' idx st ctx w errs \<longleftrightarrow>
     (\<exists>ch c. chan_at idx st = Inr ch \<and> ch_ctx ch = Live c \<and> mc_backend c = RTU_BACKEND \<and> ch_errcnt ch = errs) \<and>
     wi_peer (chan_wire st) = (ctx, w) \<and> slave_ready t t' ctx w \<and> ucMBAddress ctx \<le> 247"

lemma address_range: "a \<le> 247 \<Longrightarrow> uint (a :: UCHAR) \<le> 254"
  by (simp add: word_le_def)

lemma byte_no_null_slave: "uint (a :: UCHAR) \<noteq> - 1"
proof -
  have "0 \<le> uint a" by simp
  then show ?thesis by linarith
qed

lemma slave_ready_idx: "slave_ready t t' ctx w \<Longrightarrow> mbsidx ctx = MBSIDX_MDL"
  by (simp add: slave_ready_def slave_ok_def)

lemma channel_writes:
  assumes "connected t t' idx st ctx w errs" "1 \<le> length rs" "length rs \<le> 120" "0 \<le> addr"
    "addr + int (length rs) \<le> int REG_HOLDING_NREGS"
  obtains st' ctx' w' where
    "chan_write_multi_registers (slave_link t t') idx (uint (ucMBAddress ctx)) addr rs st = Inr (0, st')"
    "connected t t' idx st' ctx' w' errs" "ucMBAddress ctx' = ucMBAddress ctx" "written w addr rs w'"
proof -
  obtain ch c where ch: "chan_at idx st = Inr ch" "ch_ctx ch = Live c" "mc_backend c = RTU_BACKEND" "ch_errcnt ch = errs"
    "wi_peer (chan_wire st) = (ctx, w)" "slave_ready t t' ctx w" "ucMBAddress ctx \<le> 247"
    using assms(1) by (auto simp: connected_def)
  let ?sl = "uint (ucMBAddress ctx)" and ?body = "registers_body addr rs"
  let ?c = "c\<lparr>mc_slave := ?sl\<rparr>"
  have len: "1 \<le> length ?body" "length ?body \<le> 252"
    using assms(3) by (simp_all add: registers_body_def registers_payload_def)
  obtain ctx' w' rest ex f' n' where s:
    "dispatch xFuncHandlers ctx w (hd ?body) (?body @ rest) (of_nat (length ?body)) = Inr (ex, w', f', n')"
    "length (?body @ rest) = 255"
    "delivers (slave_link t t') (rtu_seal (ucMBAddress ctx # ?body)) (ctx, w)
       (rtu_seal (ucMBAddress ctx # reply_bytes (hd ?body) ex f' n')) (ctx', w')"
    "slave_ready t t' ctx' w'" "cfg ctx' = cfg ctx"
    by (rule slave_serves[OF ch(6) len])
  have hd: "hd ?body = 0x10" by (simp add: registers_body_def)
  have handler: "eMBFuncWriteMultipleHoldingRegister MBSIDX_MDL w (?body @ rest) (of_nat (length ?body)) = Inr (ex, w', f', n')"
    using s(1) unfolding hd dispatch_registers slave_ready_idx[OF ch(6)] .
  have l: "length rest + length ?body = 255" using s(2) by simp
  note wr = slave_writes[OF l assms(2-5) handler]
  let ?w = "sent (chan_wire st) (rtu_request ?c 0x10 addr (int (length rs)) (registers_payload rs)) (ctx', w')"
  have m: "rtu_master ?c" using ch(3) byte_no_null_slave by (simp add: rtu_master_def)
  have req: "rtu_request ?c 0x10 addr (int (length rs)) (registers_payload rs) = rtu_seal (ucMBAddress ctx # ?body)"
    by (simp add: rtu_request_def registers_body_def int_lo_def)
  have rep: "reply_bytes (hd ?body) ex f' n' = [0x10, int_hi addr, int_lo addr, int_hi (int (length rs)), int_lo (int (length rs))]"
    using wr(1,2) by (simp add: reply_bytes_def registers_body_def)
  have "modbus_write_registers (slave_link t t') ?c addr rs (chan_wire st) = Inr (Inr (int (length rs)), ?w)"
    by (rule write_registers_rtu[OF m, of rs "slave_link t t'" addr "chan_wire st" "ucMBAddress ctx"])
      (use assms(3) s(3) in \<open>simp_all add: req rep ch(5)\<close>)
  from chan_modbus_call[OF ch(1,2) _ address_range[OF ch(7)], of "\<lambda>c. modbus_write_registers (slave_link t t') c addr rs", OF _ this]
  obtain st' where st': "chan_modbus idx ?sl (\<lambda>c. modbus_write_registers (slave_link t t') c addr rs) st =
      Inr (Some (Inr (int (length rs))), st')" "chan_at idx st' = Inr (ch\<lparr>ch_ctx := Live ?c\<rparr>)" "chan_wire st' = ?w"
    by auto
  have "chan_write_multi_registers (slave_link t t') idx ?sl addr rs st = Inr (0, st')"
    using st'(1) by (simp add: chan_write_multi_registers_def rc_of_def)
  moreover have "ucMBAddress ctx' = ucMBAddress ctx" using s(5) by (simp add: cfg_def)
  moreover from this have "connected t t' idx st' ctx' w' errs"
    using st'(2,3) ch(3,4,7) s(4) by (simp add: connected_def sent_def)
  ultimately show ?thesis using that wr(3) by blast
qed

lemma channel_reads:
  assumes "connected t t' idx st ctx w errs" "1 \<le> length rs" "length rs \<le> 120" "0 \<le> addr"
    "addr + int (length rs) \<le> int REG_HOLDING_NREGS" "written w0 addr rs w"
  obtains st' ctx' w' where
    "chan_read_holdingregisters (slave_link t t') idx (uint (ucMBAddress ctx)) addr (int (length rs)) st = Inr (0, rs, st')"
    "connected t t' idx st' ctx' w' errs"
proof -
  obtain ch c where ch: "chan_at idx st = Inr ch" "ch_ctx ch = Live c" "mc_backend c = RTU_BACKEND" "ch_errcnt ch = errs"
    "wi_peer (chan_wire st) = (ctx, w)" "slave_ready t t' ctx w" "ucMBAddress ctx \<le> 247"
    using assms(1) by (auto simp: connected_def)
  let ?sl = "uint (ucMBAddress ctx)" and ?body = "read_body addr (length rs)"
  let ?c = "c\<lparr>mc_slave := ?sl\<rparr>"
  have len: "1 \<le> length ?body" "length ?body \<le> 252" by (simp_all add: read_body_def)
  obtain ctx' w' rest ex f' n' where s:
    "dispatch xFuncHandlers ctx w (hd ?body) (?body @ rest) (of_nat (length ?body)) = Inr (ex, w', f', n')"
    "length (?body @ rest) = 255"
    "delivers (slave_link t t') (rtu_seal (ucMBAddress ctx # ?body)) (ctx, w)
       (rtu_seal (ucMBAddress ctx # reply_bytes (hd ?body) ex f' n')) (ctx', w')"
    "slave_ready t t' ctx' w'" "cfg ctx' = cfg ctx"
    by (rule slave_serves[OF ch(6) len])
  have hd: "hd ?body = 0x03" "(of_nat (length ?body) :: USHORT) = 5" by (simp_all add: read_body_def)
  have handler: "eMBFuncReadHoldingRegister MBSIDX_MDL w (?body @ rest) 5 = Inr (ex, w', f', n')"
    using s(1) unfolding hd dispatch_registers slave_ready_idx[OF ch(6)] .
  have l: "length rest = 250" using s(2) by (simp add: read_body_def)
  note rd = slave_reads[OF l assms(2-6) handler]
  let ?w = "sent (chan_wire st) (rtu_request ?c 0x03 addr (int (length rs)) []) (ctx', w')"
  have m: "rtu_master ?c" using ch(3) byte_no_null_slave by (simp add: rtu_master_def)
  have req: "rtu_request ?c 0x03 addr (int (length rs)) [] = rtu_seal (ucMBAddress ctx # ?body)"
    by (simp add: rtu_request_def read_body_def int_lo_def)
  have rep: "ucMBAddress ctx # reply_bytes (hd ?body) ex f' n' = [ucMBAddress ctx, 0x03, of_nat (2 * length rs)] @ reg_payload rs"
    using rd by (simp add: reply_bytes_def)
  have n125: "length rs \<le> 125" using assms(3) by simp
  have d: "delivers (slave_link t t') (rtu_request ?c 0x03 addr (int (length rs)) []) (wi_peer (chan_wire st))
      (rtu_seal ([ucMBAddress ctx, 0x03, of_nat (2 * length rs)] @ reg_payload rs)) (ctx', w')"
    using s(3) unfolding req rep ch(5) .
  have "modbus_read_registers (slave_link t t') ?c addr (int (length rs)) (chan_wire st) = Inr (Inr (int (length rs), rs), ?w)"
    using read_registers_rtu[OF m _ assms(2) n125 d] n125 by (simp add: modbus_read_registers_def MODBUS_MAX_READ_REGISTERS_def)
  from chan_modbus_call[OF ch(1,2) _ address_range[OF ch(7)],
      of "\<lambda>c. modbus_read_registers (slave_link t t') c addr (int (length rs))", OF _ this]
  obtain st' where st': "chan_modbus idx ?sl (\<lambda>c. modbus_read_registers (slave_link t t') c addr (int (length rs))) st =
      Inr (Some (Inr (int (length rs), rs)), st')" "chan_at idx st' = Inr (ch\<lparr>ch_ctx := Live ?c\<rparr>)" "chan_wire st' = ?w"
    by auto
  have "chan_read_holdingregisters (slave_link t t') idx ?sl addr (int (length rs)) st = Inr (0, rs, st')"
    using st'(1) by (simp add: chan_read_holdingregisters_def chan_read_def rc_data_def data_of_def)
  moreover have "connected t t' idx st' ctx' w' errs"
    using st'(2,3) ch(3,4,7) s(4,5) by (simp add: connected_def sent_def cfg_def)
  ultimately show ?thesis using that by blast
qed

section \<open>Properties\<close>

text \<open>C4: the two ends of the program agree: registers that a channel writes to the simulated slave over the serial
  line are read back by the channel unchanged, through both stacks (the request built and sealed by libmodbus, cut
  into bytes on the line, received, checked and executed by FreeModbus, answered, reassembled and checked again);
  both calls return 0 and no error is counted.\<close>

theorem written_registers_read_back:
  assumes "chan_at idx st = Inr ch" "ch_ctx ch = Live c" "mc_backend c = RTU_BACKEND"
    "wi_peer (chan_wire st) = (ctx, w)" "slave_ready t t' ctx w" "ucMBAddress ctx \<le> 247"
    "1 \<le> length rs" "length rs \<le> 120" "0 \<le> addr" "addr + int (length rs) \<le> int REG_HOLDING_NREGS"
  shows "\<exists>st1 st2 ch'.
    chan_write_multi_registers (slave_link t t') idx (uint (ucMBAddress ctx)) addr rs st = Inr (0, st1) \<and>
    chan_read_holdingregisters (slave_link t t') idx (uint (ucMBAddress ctx)) addr (int (length rs)) st1 = Inr (0, rs, st2) \<and>
    chan_at idx st2 = Inr ch' \<and> ch_errcnt ch' = ch_errcnt ch"
proof -
  have "connected t t' idx st ctx w (ch_errcnt ch)" using assms(1-6) by (simp add: connected_def)
  then obtain st1 ctx1 w1 where w1:
    "chan_write_multi_registers (slave_link t t') idx (uint (ucMBAddress ctx)) addr rs st = Inr (0, st1)"
    "connected t t' idx st1 ctx1 w1 (ch_errcnt ch)" "ucMBAddress ctx1 = ucMBAddress ctx" "written w addr rs w1"
    by (rule channel_writes[OF _ assms(7-10)])
  obtain st2 ctx2 w2 where
    "chan_read_holdingregisters (slave_link t t') idx (uint (ucMBAddress ctx1)) addr (int (length rs)) st1 = Inr (0, rs, st2)"
    "connected t t' idx st2 ctx2 w2 (ch_errcnt ch)"
    by (rule channel_reads[OF w1(2) assms(7-10) w1(4)])
  then show ?thesis using w1(1,3) by (auto simp: connected_def)
qed

theorem written_registers_read_back_witness:
  "\<exists>st1 st2 ch'. let st = \<lparr>chan = replicate 9 (sample_chan ''N'' (Live \<lparr>mc_backend = RTU_BACKEND, mc_slave = -1\<rparr>)), channbr = 1,
      chan_wire = \<lparr>wi_tid = 0, wi_peer = (waiting_example, mbs_example), wi_sent = []\<rparr>\<rparr> in
    chan_write_multi_registers (slave_link (7, 100) (7, 200)) 1 1 0x6020 [4100, 4200] st = Inr (0, st1) \<and>
    chan_read_holdingregisters (slave_link (7, 100) (7, 200)) 1 1 0x6020 2 st1 = Inr (0, [4100, 4200], st2) \<and>
    chan_at 1 st2 = Inr ch' \<and> ch_errcnt ch' = 0"
proof -
  let ?c = "\<lparr>mc_backend = RTU_BACKEND, mc_slave = -1\<rparr>"
  let ?ch = "sample_chan ''N'' (Live ?c)"
  let ?st = "\<lparr>chan = replicate 9 ?ch, channbr = 1,
      chan_wire = \<lparr>wi_tid = 0, wi_peer = (waiting_example, mbs_example), wi_sent = []\<rparr>\<rparr>"
  have at: "chan_at 1 ?st = Inr ?ch" by (simp add: chan_at_def)
  have ch: "ch_ctx ?ch = Live ?c" "ch_errcnt ?ch = 0" by (simp_all add: sample_chan_def)
  have "slave_ready (7, 100) (7, 200) waiting_example mbs_example"
    using waiting_example_ok by (simp add: slave_ready_def waiting_example_def raw_example_def ulDeltaMS_def)
  moreover have "ucMBAddress waiting_example = 1" by (simp add: waiting_example_def raw_example_def)
  ultimately show ?thesis
    using written_registers_read_back[OF at ch(1), of waiting_example mbs_example "(7, 100)" "(7, 200)" "[4100, 4200]" "0x6020"] ch(2)
    by (simp add: REG_HOLDING_NREGS_def Let_def)
qed

end
