(* ===== verification/MbTcp.thy ===== *)
theory MbTcp
  imports Mb
begin

text \<open>
  The TCP transport of FreeModbus: \<open>modbus/tcp/mbtcp.c\<close>, the port layer \<open>port/porttcp.c\<close>, the initialisation
  \<open>eMBTCPInit\<close> of \<open>mb.c\<close>, and the poll of \<open>mb.c\<close> with the frame functions of this transport. The program starts its
  slave in the serial mode; the transport is compiled with it.
\<close>

section \<open>Context\<close>

text \<open>The fields of \<open>fmodbus_t\<close> that only this mode uses, beside those of the serial mode.\<close>

record tcp_t =
  tc_ctx :: fmodbus_t
  xListenSocket :: int
  xClientSocket :: int
  aucTCPBuf :: "UCHAR list"
  usTCPBufPos :: USHORT
  usTCPFrameBytesLeft :: USHORT

definition INVALID_SOCKET :: int where
  "INVALID_SOCKET = -1"

definition MB_TCP_BUF_SIZE :: nat where
  "MB_TCP_BUF_SIZE = 256 + 7"

definition MB_TCP_DEFAULT_PORT :: USHORT where
  "MB_TCP_DEFAULT_PORT = 502"

definition MB_TCP_PSEUDO_ADDRESS :: UCHAR where
  "MB_TCP_PSEUDO_ADDRESS = 255"

text \<open>
  What the operating system answers: the socket of an accepted client, what happens on the connection until the poll
  returns, the results of the \<open>send\<close> calls (when they are used up the rest of a frame is accepted), and the bytes that
  are drained from a connection that is given up. An event is an unsuccessful \<open>select\<close>, the end of the connection, or
  bytes that can be read.
\<close>

datatype tcp_event = Tcp_silent | Tcp_closed | Tcp_avail "UCHAR list"

record tcp_os =
  to_accept :: int
  to_events :: "tcp_event list"
  to_send :: "int list"
  to_drain :: "UCHAR list"

section \<open>Port layer\<close>

text \<open>The results of \<open>socket\<close>, \<open>bind\<close> and \<open>listen\<close>; the first is stored in any case. The port is the last result.\<close>

definition xMBTCPPortInit :: "int \<Rightarrow> bool \<Rightarrow> bool \<Rightarrow> tcp_t \<Rightarrow> USHORT \<Rightarrow> bool \<times> tcp_t \<times> USHORT" where
  "xMBTCPPortInit sock bound listening c usTCPPort =
     (let usPort = if usTCPPort = 0 then MB_TCP_DEFAULT_PORT else usTCPPort; c1 = c\<lparr>xListenSocket := sock\<rparr>
      in (sock \<noteq> -1 \<and> bound \<and> listening, c1, usPort))"

definition prvvMBPortReleaseClient :: "UCHAR list \<Rightarrow> tcp_t \<Rightarrow> tcp_t" where
  "prvvMBPortReleaseClient drained c =
     (let bs = take MB_TCP_BUF_SIZE drained
      in c\<lparr>aucTCPBuf := bs @ drop (length bs) (aucTCPBuf c), xClientSocket := INVALID_SOCKET\<rparr>)"

text \<open>Closing gives up the client and closes the socket that listens; the second result tells whether it does.\<close>

definition vMBTCPPortDisable :: "UCHAR list \<Rightarrow> tcp_t \<Rightarrow> tcp_t" where
  "vMBTCPPortDisable drained c =
     (if xClientSocket c \<noteq> INVALID_SOCKET then prvvMBPortReleaseClient drained c else c)"

definition vMBTCPPortClose :: "UCHAR list \<Rightarrow> tcp_t \<Rightarrow> tcp_t \<times> bool" where
  "vMBTCPPortClose drained c = (vMBTCPPortDisable drained c, xListenSocket c \<noteq> INVALID_SOCKET)"

definition prvbMBPortAcceptClient :: "int \<Rightarrow> tcp_t \<Rightarrow> bool \<times> tcp_t" where
  "prvbMBPortAcceptClient accepted c =
     (if xClientSocket c \<noteq> INVALID_SOCKET then (False, c)
      else if accepted = INVALID_SOCKET then (False, c)
      else (True, c\<lparr>xClientSocket := accepted, usTCPBufPos := 0, usTCPFrameBytesLeft := 7\<rparr>))"

text \<open>
  Received bytes are stored and counted; from the seventh on the length field tells how many follow. The first result
  tells whether the frame is complete.
\<close>

definition tcp_recv :: "UCHAR list \<Rightarrow> tcp_t \<Rightarrow> (bool \<times> tcp_t) res" where
  "tcp_recv bs c =
     (if unat (usTCPBufPos c) + length bs > length (aucTCPBuf c) then Inl Buffer_overflow
      else let p = unat (usTCPBufPos c);
               buf = take p (aucTCPBuf c) @ bs @ drop (p + length bs) (aucTCPBuf c);
               pos = usTCPBufPos c + of_nat (length bs);
               c1 = c\<lparr>aucTCPBuf := buf, usTCPBufPos := pos, usTCPFrameBytesLeft := usTCPFrameBytesLeft c - of_nat (length bs)\<rparr>;
               len = mk_ushort (buf ! 4) (buf ! 5)
           in if unat pos \<ge> 7
              then (if unat pos < 6 + unat len then Inr (False, c1\<lparr>usTCPFrameBytesLeft := len + 6 - pos\<rparr>)
                    else if unat pos = 6 + unat len
                    then Inr (True, c1\<lparr>tc_ctx := xMBPortEventPost (tc_ctx c1) EV_FRAME_RECEIVED\<rparr>)
                    else Inl Assert_failed)
              else Inr (False, c1))"

text \<open>The receiving loop; \<open>None\<close> while it waits for more. What the connection still holds is the second result.\<close>

fun ev_size :: "tcp_event \<Rightarrow> nat" where
  "ev_size (Tcp_avail bs) = Suc (length bs)"
| "ev_size _ = 1"

definition tcp_unread :: "nat \<Rightarrow> UCHAR list \<Rightarrow> tcp_event list \<Rightarrow> tcp_event list" where
  "tcp_unread n bs evs = (if n < length bs then Tcp_avail (drop n bs) # evs else evs)"

lemma tcp_unread_size: "0 < n \<Longrightarrow> sum_list (map ev_size (tcp_unread n bs evs)) < sum_list (map ev_size (Tcp_avail bs # evs))"
  by (auto simp: tcp_unread_def)

function tcp_pool_loop :: "nat \<Rightarrow> tcp_event list \<Rightarrow> tcp_t \<Rightarrow> (tcp_t \<times> tcp_event list) option res" where
  "tcp_pool_loop timeout [] c = Inr None"
| "tcp_pool_loop timeout (Tcp_silent # evs) c =
     (if timeout + 1 \<ge> 2000 then Inr (Some (c\<lparr>xClientSocket := INVALID_SOCKET\<rparr>, evs))
      else tcp_pool_loop (timeout + 1) evs c)"
| "tcp_pool_loop timeout (Tcp_closed # evs) c = Inr (Some (c\<lparr>xClientSocket := INVALID_SOCKET\<rparr>, evs))"
| "tcp_pool_loop timeout (Tcp_avail bs # evs) c =
     (let n = min (length bs) (unat (usTCPFrameBytesLeft c))
      in if n = 0 then Inr (Some (c\<lparr>xClientSocket := INVALID_SOCKET\<rparr>, evs))
         else bind_res (tcp_recv (take n bs) c) (\<lambda>(complete, c').
                if complete then Inr (Some (c', tcp_unread n bs evs)) else tcp_pool_loop 0 (tcp_unread n bs evs) c'))"
  by pat_completeness auto

termination tcp_pool_loop
  by (relation "measure (\<lambda>(_, evs, _). sum_list (map ev_size evs))") (auto intro: tcp_unread_size[simplified])

text \<open>Without a client the pool accepts one first; when that fails it puts the socket number -1 into a descriptor set.\<close>

definition xMBPortTCPPool :: "tcp_os \<Rightarrow> tcp_t \<Rightarrow> (tcp_t \<times> tcp_event list) option res" where
  "xMBPortTCPPool os c =
     (let c0 = if xClientSocket c = INVALID_SOCKET then snd (prvbMBPortAcceptClient (to_accept os) c) else c
      in if xClientSocket c0 = INVALID_SOCKET then Inl Buffer_overflow else tcp_pool_loop 0 (to_events os) c0)"

definition xMBTCPPortGetRequest :: "tcp_t \<Rightarrow> USHORT \<times> tcp_t" where
  "xMBTCPPortGetRequest c = (usTCPBufPos c, c\<lparr>usTCPBufPos := 0, usTCPFrameBytesLeft := 7\<rparr>)"

text \<open>
  The sending loop: what was accepted, whether it is the whole frame, and whether the client is given up. An error is
  retried while the budget lasts, an end of the connection is not.
\<close>

fun tcp_send :: "int list \<Rightarrow> int \<Rightarrow> UCHAR list \<Rightarrow> UCHAR list \<times> bool \<times> bool" where
  "tcp_send [] iTimeOut bs = (bs, True, False)"
| "tcp_send (r # rs) iTimeOut bs =
     (if r = -1 then (if iTimeOut > 0 then tcp_send rs (iTimeOut - 100) bs else ([], False, False))
      else if r = 0 then ([], False, True)
      else let n = min (nat r) (length bs)
           in if n = length bs then (bs, True, False)
              else case tcp_send rs iTimeOut (drop n bs) of (out, sent, released) \<Rightarrow> (take n bs @ out, sent, released))"

definition xMBTCPPortSendResponse :: "tcp_os \<Rightarrow> tcp_t \<Rightarrow> UCHAR list \<Rightarrow> bool \<times> tcp_t \<times> UCHAR list" where
  "xMBTCPPortSendResponse os c bs =
     (case tcp_send (to_send os) 2000 bs of (out, sent, released) \<Rightarrow>
        (sent, if released then prvvMBPortReleaseClient (to_drain os) c else c, out))"

section \<open>Transport\<close>

definition eMBTCPDoInit :: "int \<Rightarrow> bool \<Rightarrow> bool \<Rightarrow> tcp_t \<Rightarrow> USHORT \<Rightarrow> eMBErrorCode \<times> tcp_t" where
  "eMBTCPDoInit sock bound listening c port =
     (case xMBTCPPortInit sock bound listening c port of (ok, c', p) \<Rightarrow> (if ok then MB_ENOERR else MB_EPORTERR, c'))"

definition eMBTCPStart :: "tcp_t \<Rightarrow> tcp_t" where
  "eMBTCPStart c = c"

definition eMBTCPStop :: "UCHAR list \<Rightarrow> tcp_t \<Rightarrow> tcp_t" where
  "eMBTCPStop drained c = vMBTCPPortDisable drained c"

text \<open>The frame of the protocol data unit starts at position 7 of the buffer.\<close>

definition eMBTCPReceive :: "tcp_t \<Rightarrow> eMBErrorCode \<times> tcp_t" where
  "eMBTCPReceive c =
     (let (len, c1) = xMBTCPPortGetRequest c
      in if mk_ushort (aucTCPBuf c1 ! 2) (aucTCPBuf c1 ! 3) = 0
         then (MB_ENOERR, c1\<lparr>tc_ctx := (tc_ctx c1)\<lparr>ucMBFrame := Some 7, usLength := len - 7, ucRcvAddress := MB_TCP_PSEUDO_ADDRESS\<rparr>\<rparr>)
         else (MB_EIO, c1))"

definition eMBTCPSend :: "tcp_os \<Rightarrow> tcp_t \<Rightarrow> nat \<Rightarrow> USHORT \<Rightarrow> (eMBErrorCode \<times> tcp_t \<times> UCHAR list) res" where
  "eMBTCPSend os c pucFrame len =
     (let p = pucFrame - 7; n = unat (len + 7)
      in bind_res (buf_put (aucTCPBuf c) (p + 4) (hi_byte (len + 1))) (\<lambda>b1.
         bind_res (buf_put b1 (p + 5) (lo_byte (len + 1))) (\<lambda>b2.
           if p + n > length b2 then Inl Buffer_overflow
           else case xMBTCPPortSendResponse os (c\<lparr>aucTCPBuf := b2\<rparr>) (take n (drop p b2)) of (sent, c', out) \<Rightarrow>
                  Inr (if sent then MB_ENOERR else MB_EIO, c', out))))"

section \<open>The protocol stack in TCP mode\<close>

text \<open>The block of \<open>malloc\<close> is cleared: every number is zero, every enumeration its first constant.\<close>

definition zero_ctx :: fmodbus_t where
  "zero_ctx =
     \<lparr>mbsidx = 0, eMBCurrentMode = MB_RTU, ucMBAddress = 0, szPort = [], ulBaudRate = 0, eParity = MB_PAR_NONE,
      ucDataBits = 0, iSerialFd = 0, bRxEnabled = False, bTxEnabled = False, ulTimeoutMs = 0, ucBuffer = replicate 256 0,
      uiRxBufferPos = 0, uiTxBufferPos = 0, ulTimeOut = 0, bTimeoutEnable = False, xTimeLast = (0, 0), ucMBSlaveID = [],
      eMBState = STATE_ENABLED, ucMBFrame = None, ucRcvAddress = 0, ucFunctionCode = 0, usLength = 0,
      eException = MB_EX_NONE, eQueuedEvent = EV_READY, xEventInQueue = False, eSndState = STATE_TX_IDLE,
      eRcvState = STATE_RX_INIT, ucRTUBuf = replicate 256 0, pucSndBufferCur = 0, usSndBufferCount = 0, usRcvBufferPos = 0\<rparr>"

definition eMBTCPInit :: "bool \<Rightarrow> int \<Rightarrow> bool \<Rightarrow> bool \<Rightarrow> USHORT \<Rightarrow> eMBErrorCode \<times> tcp_t option" where
  "eMBTCPInit allocated sock bound listening port =
     (if \<not> allocated then (MB_EIO, None)
      else let c0 = \<lparr>tc_ctx = zero_ctx, xListenSocket = 0, xClientSocket = INVALID_SOCKET,
                 aucTCPBuf = replicate MB_TCP_BUF_SIZE 0, usTCPBufPos = 0, usTCPFrameBytesLeft = 0\<rparr>;
               (st, c1) = eMBTCPDoInit sock bound listening c0 port
           in if st \<noteq> MB_ENOERR then (st, Some (c1\<lparr>tc_ctx := (tc_ctx c1)\<lparr>eMBState := STATE_DISABLED\<rparr>\<rparr>))
              else (MB_ENOERR, Some (c1\<lparr>tc_ctx := (xMBPortEventInit (tc_ctx c1))
                     \<lparr>ucMBAddress := MB_TCP_PSEUDO_ADDRESS, eMBCurrentMode := MB_TCP, eMBState := STATE_DISABLED\<rparr>\<rparr>)))"

definition tcp_enable :: "tcp_t \<Rightarrow> eMBErrorCode \<times> tcp_t" where
  "tcp_enable c =
     (if eMBState (tc_ctx c) = STATE_DISABLED
      then (MB_ENOERR, (eMBTCPStart c)\<lparr>tc_ctx := (tc_ctx c)\<lparr>eMBState := STATE_ENABLED\<rparr>\<rparr>) else (MB_EILLSTATE, c))"

definition tcp_disable :: "UCHAR list \<Rightarrow> tcp_t \<Rightarrow> eMBErrorCode \<times> tcp_t" where
  "tcp_disable drained c =
     (case eMBState (tc_ctx c) of
        STATE_ENABLED \<Rightarrow> (MB_ENOERR, (eMBTCPStop drained c)\<lparr>tc_ctx := (tc_ctx c)\<lparr>eMBState := STATE_DISABLED\<rparr>\<rparr>)
      | STATE_DISABLED \<Rightarrow> (MB_ENOERR, c)
      | STATE_NOT_INITIALIZED \<Rightarrow> (MB_EILLSTATE, c))"

definition tcp_poll_received :: "tcp_t \<Rightarrow> tcp_t" where
  "tcp_poll_received c =
     (case eMBTCPReceive c of (st, c') \<Rightarrow>
        if st = MB_ENOERR \<and> (ucRcvAddress (tc_ctx c') = ucMBAddress (tc_ctx c') \<or> ucRcvAddress (tc_ctx c') = MB_ADDRESS_BROADCAST)
        then c'\<lparr>tc_ctx := xMBPortEventPost (tc_ctx c') EV_EXECUTE\<rparr> else c')"

definition tcp_poll_reply ::
  "tcp_os \<Rightarrow> tcp_t \<Rightarrow> nat \<Rightarrow> eMBException \<Rightarrow> UCHAR list \<Rightarrow> USHORT \<Rightarrow> (tcp_t \<times> UCHAR list) res" where
  "tcp_poll_reply os c p ex frame len =
     (let c1 = c\<lparr>tc_ctx := (tc_ctx c)\<lparr>eException := ex, usLength := len\<rparr>, aucTCPBuf := take p (aucTCPBuf c) @ frame\<rparr>
      in if ucRcvAddress (tc_ctx c) \<noteq> MB_ADDRESS_BROADCAST
         then (let c2 = (if ex \<noteq> MB_EX_NONE
                         then c1\<lparr>tc_ctx := (tc_ctx c1)\<lparr>usLength := 2\<rparr>,
                                 aucTCPBuf := (aucTCPBuf c1)[p := ucFunctionCode (tc_ctx c1) OR 128, p + 1 := ex_code ex]\<rparr>
                         else c1)
               in bind_res (eMBTCPSend os c2 p (usLength (tc_ctx c2))) (\<lambda>(st, c3, out). Inr (c3, out)))
         else Inr (c1, []))"

definition tcp_poll_execute :: "handler_table \<Rightarrow> tcp_os \<Rightarrow> tcp_t \<Rightarrow> mbs_t \<Rightarrow> (tcp_t \<times> mbs_t \<times> UCHAR list) res" where
  "tcp_poll_execute tab os c w =
     (case ucMBFrame (tc_ctx c) of
        None \<Rightarrow> Inl Null_deref
      | Some p \<Rightarrow>
          (let frame = drop p (aucTCPBuf c); c0 = c\<lparr>tc_ctx := (tc_ctx c)\<lparr>ucFunctionCode := frame ! 0\<rparr>\<rparr>
           in bind_res (dispatch tab (tc_ctx c0) w (frame ! 0) frame (usLength (tc_ctx c0))) (\<lambda>(ex, w', frame', len').
              bind_res (tcp_poll_reply os c0 p ex frame' len') (\<lambda>(c', out). Inr (c', w', out)))))"

text \<open>
  One poll: the status, the context, the globals of the slave, the bytes sent, and what the connection still holds;
  \<open>None\<close> while the pool waits for more.
\<close>

definition tcp_poll ::
  "handler_table \<Rightarrow> tcp_os \<Rightarrow> tcp_t \<Rightarrow> mbs_t
    \<Rightarrow> (eMBErrorCode \<times> tcp_t \<times> mbs_t \<times> UCHAR list \<times> tcp_event list) option res" where
  "tcp_poll tab os c w =
     (if eMBState (tc_ctx c) \<noteq> STATE_ENABLED then Inr (Some (MB_EILLSTATE, c, w, [], to_events os))
      else if xEventInQueue (tc_ctx c)
      then (let c0 = c\<lparr>tc_ctx := (tc_ctx c)\<lparr>xEventInQueue := False\<rparr>\<rparr>
            in case eQueuedEvent (tc_ctx c) of
                 EV_FRAME_RECEIVED \<Rightarrow> Inr (Some (MB_ENOERR, tcp_poll_received c0, w, [], to_events os))
               | EV_EXECUTE \<Rightarrow>
                   bind_res (tcp_poll_execute tab os c0 w) (\<lambda>(c', w', out). Inr (Some (MB_ENOERR, c', w', out, to_events os)))
               | _ \<Rightarrow> Inr (Some (MB_ENOERR, c0, w, [], to_events os)))
      else bind_res (xMBPortTCPPool os c) (\<lambda>r.
             case r of
               None \<Rightarrow> Inr None
             | Some (c', evs) \<Rightarrow> Inr (Some (MB_ENOERR, c', w, [], evs))))"

section \<open>A frame in pieces\<close>

definition tcp_stream :: "tcp_event list \<Rightarrow> bool" where
  "tcp_stream evs \<longleftrightarrow> list_all (\<lambda>e. \<exists>b bs. e = Tcp_avail (b # bs)) evs"

fun ev_bytes :: "tcp_event \<Rightarrow> UCHAR list" where
  "ev_bytes (Tcp_avail bs) = bs"
| "ev_bytes _ = []"

definition tcp_bytes :: "tcp_event list \<Rightarrow> UCHAR list" where
  "tcp_bytes evs = concat (map ev_bytes evs)"

lemma tcp_stream_simps [simp]:
  "tcp_stream []" "tcp_stream (Tcp_avail bs # evs) \<longleftrightarrow> bs \<noteq> [] \<and> tcp_stream evs"
  "\<not> tcp_stream (Tcp_silent # evs)" "\<not> tcp_stream (Tcp_closed # evs)"
  "tcp_bytes [] = []" "tcp_bytes (e # evs) = ev_bytes e @ tcp_bytes evs"
  by (auto simp: tcp_stream_def tcp_bytes_def neq_Nil_conv)

lemma tcp_unread_bytes [simp]:
  "tcp_bytes (tcp_unread n bs evs) = drop n bs @ tcp_bytes evs"
  "tcp_stream evs \<Longrightarrow> tcp_stream (tcp_unread n bs evs)"
  by (auto simp: tcp_unread_def)

text \<open>The value of the length field, and how far the receiver reads when it has \<open>n\<close> bytes.\<close>

definition tcp_length :: "UCHAR list \<Rightarrow> nat" where
  "tcp_length bs = unat (mk_ushort (bs ! 4) (bs ! 5))"

definition tcp_target :: "UCHAR list \<Rightarrow> nat \<Rightarrow> nat" where
  "tcp_target bs n = (if n < 7 then 7 else 6 + tcp_length bs)"

text \<open>The receiver holds the first \<open>n\<close> bytes of \<open>bs\<close>.\<close>

definition tcp_holds :: "UCHAR list \<Rightarrow> nat \<Rightarrow> tcp_t \<Rightarrow> bool" where
  "tcp_holds bs n c \<longleftrightarrow> length (aucTCPBuf c) = 263 \<and> n \<le> length bs \<and> n \<le> 263 \<and> usTCPBufPos c = of_nat n \<and>
     take n (aucTCPBuf c) = take n bs \<and> n < tcp_target bs n \<and> usTCPFrameBytesLeft c = of_nat (tcp_target bs n - n)"

definition tcp_full :: "UCHAR list \<Rightarrow> tcp_t \<Rightarrow> tcp_t" where
  "tcp_full bs c =
     (let t = 6 + tcp_length bs
      in c\<lparr>tc_ctx := xMBPortEventPost (tc_ctx c) EV_FRAME_RECEIVED, aucTCPBuf := take t bs @ drop t (aucTCPBuf c),
           usTCPBufPos := of_nat t, usTCPFrameBytesLeft := 0\<rparr>)"

lemma ushort_nat: "n < 65536 \<Longrightarrow> unat (of_nat n :: USHORT) = n"
  by (simp add: unsigned_of_nat take_bit_nat_eq_self)

lemma tcp_length_bound: "tcp_length bs < 65536"
  unfolding tcp_length_def using unsigned_less[of "mk_ushort (bs ! 4) (bs ! 5)"] by simp

text \<open>One read: \<open>k\<close> bytes of those that are awaited.\<close>

lemma tcp_recv_step:
  assumes "tcp_holds bs n c" "0 < k" "n + k \<le> tcp_target bs n" "n + k \<le> length bs"
  shows "tcp_recv (take k (drop n bs)) c =
    (if 263 < n + k then Inl Buffer_overflow
     else if n + k < 7 \<or> n + k < 6 + tcp_length bs
       then Inr (False, c\<lparr>aucTCPBuf := take (n + k) bs @ drop (n + k) (aucTCPBuf c), usTCPBufPos := of_nat (n + k),
                          usTCPFrameBytesLeft := of_nat (tcp_target bs (n + k) - (n + k))\<rparr>)
     else if n + k = 6 + tcp_length bs then Inr (True, tcp_full bs c)
     else Inl Assert_failed)"
proof (cases "263 < n + k")
  case True
  then show ?thesis using assms by (simp add: tcp_holds_def tcp_recv_def ushort_nat)
next
  case False
  have h: "length (aucTCPBuf c) = 263" "usTCPBufPos c = of_nat n" "take n (aucTCPBuf c) = take n bs"
    "n < tcp_target bs n" "usTCPFrameBytesLeft c = of_nat (tcp_target bs n - n)"
    using assms(1) by (simp_all add: tcp_holds_def)
  have p: "unat (usTCPBufPos c) = n" using h(2) False by (simp add: ushort_nat)
  have l: "length (take k (drop n bs)) = k" using assms(4) by simp
  let ?buf = "take (n + k) bs @ drop (n + k) (aucTCPBuf c)"
  have buf: "take n (aucTCPBuf c) @ take k (drop n bs) @ drop (n + k) (aucTCPBuf c) = ?buf"
    using h(3) by (simp add: take_add)
  have pos: "usTCPBufPos c + of_nat k = of_nat (n + k)" "unat (of_nat (n + k) :: USHORT) = n + k"
    using h(2) False ushort_nat[of "n + k"] by simp_all
  have left: "usTCPFrameBytesLeft c - of_nat k = (of_nat (tcp_target bs n - (n + k)) :: USHORT)"
  proof -
    have "tcp_target bs n - n = (tcp_target bs n - (n + k)) + k" using assms(3) by simp
    then show ?thesis using h(5) by (metis add_diff_cancel_right' of_nat_add)
  qed
  have len: "unat (mk_ushort (?buf ! 4) (?buf ! 5)) = tcp_length bs" if "7 \<le> n + k"
    using that assms(4) by (simp add: tcp_length_def nth_append)
  have more: "mk_ushort (?buf ! 4) (?buf ! 5) + 6 - of_nat (n + k) = (of_nat (6 + tcp_length bs - (n + k)) :: USHORT)"
    if "7 \<le> n + k" "n + k < 6 + tcp_length bs"
  proof -
    have "mk_ushort (?buf ! 4) (?buf ! 5) = of_nat (tcp_length bs)" by (simp flip: len[OF that(1)])
    then show ?thesis using that(2) by (simp add: of_nat_diff)
  qed
  have recv: "tcp_recv (take k (drop n bs)) c =
      (let c1 = c\<lparr>aucTCPBuf := ?buf, usTCPBufPos := of_nat (n + k), usTCPFrameBytesLeft := of_nat (tcp_target bs n - (n + k))\<rparr>;
           len = mk_ushort (?buf ! 4) (?buf ! 5)
       in if n + k \<ge> 7
          then (if n + k < 6 + unat len then Inr (False, c1\<lparr>usTCPFrameBytesLeft := len + 6 - of_nat (n + k)\<rparr>)
                else if n + k = 6 + unat len then Inr (True, c1\<lparr>tc_ctx := xMBPortEventPost (tc_ctx c1) EV_FRAME_RECEIVED\<rparr>)
                else Inl Assert_failed)
          else Inr (False, c1))"
    unfolding tcp_recv_def Let_def p l buf pos left using False h(1) by simp
  show ?thesis
  proof (cases "n + k < 7")
    case True
    then show ?thesis using recv False by (simp add: tcp_target_def)
  next
    case ge: False
    have lf: "tcp_target bs n - (n + k) = 0" if "n + k = 6 + tcp_length bs"
      using that assms(3) ge by (auto simp: tcp_target_def split: if_splits)
    show ?thesis
      using recv False ge len more lf
      by (auto simp: Let_def tcp_target_def tcp_full_def simp del: of_nat_add)
  qed
qed

lemma tcp_full_grow:
  "m \<le> 6 + tcp_length bs \<Longrightarrow> m \<le> length bs \<Longrightarrow>
   tcp_full bs (c\<lparr>aucTCPBuf := take m bs @ drop m (aucTCPBuf c), usTCPBufPos := p, usTCPFrameBytesLeft := l\<rparr>) = tcp_full bs c"
  by (simp add: tcp_full_def Let_def)

definition tcp_outcome :: "UCHAR list \<Rightarrow> tcp_t \<Rightarrow> (tcp_t \<times> tcp_event list) option res \<Rightarrow> bool" where
  "tcp_outcome bs c r \<longleftrightarrow>
     (if tcp_length bs = 0 then r = Inl Assert_failed
      else if 257 < tcp_length bs then r = Inl Buffer_overflow
      else \<exists>rest. r = Inr (Some (tcp_full bs c, rest)) \<and> tcp_stream rest \<and> tcp_bytes rest = drop (6 + tcp_length bs) bs)"

lemma tcp_pool_stream:
  assumes "tcp_stream evs" "tcp_holds bs n c" "drop n bs = tcp_bytes evs" "7 \<le> length bs" "6 + tcp_length bs \<le> length bs"
  shows "tcp_outcome bs c (tcp_pool_loop t evs c)"
  using assms
proof (induction t evs c arbitrary: n rule: tcp_pool_loop.induct)
  case (1 t c)
  have "n < tcp_target bs n" using 1(2) unfolding tcp_holds_def by blast
  moreover have "length bs \<le> n" using 1 by simp
  ultimately have False using 1(4,5) by (auto simp: tcp_target_def split: if_splits)
  then show ?case ..
next
  case (4 t b evs c)
  define k where "k = min (length b) (unat (usTCPFrameBytesLeft c))"
  have h: "length (aucTCPBuf c) = 263" "n \<le> length bs" "n \<le> 263" "n < tcp_target bs n"
    "usTCPFrameBytesLeft c = of_nat (tcp_target bs n - n)" using 4(3) by (simp_all add: tcp_holds_def)
  have "tcp_target bs n - n < 65536" using tcp_length_bound[of bs] unfolding tcp_target_def by (split if_split) linarith
  then have left: "unat (usTCPFrameBytesLeft c) = tcp_target bs n - n" using h(5) ushort_nat by simp
  have b: "drop n bs = b @ tcp_bytes evs" "b \<noteq> []" "tcp_stream evs" using 4(2,4) by simp_all
  have k: "0 < k" "n + k \<le> tcp_target bs n" "k \<le> length b" using left h(4) b(2) by (auto simp: k_def)
  have nk: "n + k \<le> length bs" using arg_cong[OF b(1), of length] k(3) h(2) by simp
  have tk: "take k b = take k (drop n bs)" using b(1) k(3) by simp
  let ?c = "c\<lparr>aucTCPBuf := take (n + k) bs @ drop (n + k) (aucTCPBuf c), usTCPBufPos := of_nat (n + k),
      usTCPFrameBytesLeft := of_nat (tcp_target bs (n + k) - (n + k))\<rparr>"
  note step = tcp_recv_step[OF 4(3) k(1,2) nk]
  have loop: "tcp_pool_loop t (Tcp_avail b # evs) c =
      bind_res (tcp_recv (take k (drop n bs)) c) (\<lambda>(complete, c').
        if complete then Inr (Some (c', tcp_unread k b evs)) else tcp_pool_loop 0 (tcp_unread k b evs) c')"
    unfolding tcp_pool_loop.simps(4) Let_def k_def[symmetric] tk using k(1) by simp
  have rest: "drop (n + k) bs = tcp_bytes (tcp_unread k b evs)"
    using b(1) k(3) by (simp add: add.commute flip: drop_drop)
  consider "263 < n + k" | "n + k \<le> 263" "n + k < 7 \<or> n + k < 6 + tcp_length bs"
    | "n + k \<le> 263" "n + k = 6 + tcp_length bs" "7 \<le> n + k" | "n + k \<le> 263" "7 \<le> n + k" "6 + tcp_length bs < n + k" by linarith
  then show ?case
  proof cases
    case 1
    then have "257 < tcp_length bs" using k(2) by (auto simp: tcp_target_def split: if_splits)
    then show ?thesis using loop step 1 by (simp add: tcp_outcome_def)
  next
    case 2
    have holds: "tcp_holds bs (n + k) ?c"
      using 2 h(1) nk by (auto simp: tcp_holds_def tcp_target_def)
    have step': "tcp_recv (take k b) c = Inr (False, ?c)" using step 2 unfolding tk by simp
    have "tcp_outcome bs ?c (tcp_pool_loop 0 (tcp_unread k b evs) ?c)"
      by (rule 4(1)[OF k_def _ step' refl _ _ holds rest 4(5,6)]) (use k(1) b(3) in simp_all)
    moreover have "n + k \<le> 6 + tcp_length bs \<Longrightarrow> tcp_full bs ?c = tcp_full bs c" using tcp_full_grow nk by blast
    moreover have "n + k \<le> 6 + tcp_length bs \<or> tcp_length bs = 0" using 2 by linarith
    ultimately have "tcp_outcome bs c (tcp_pool_loop 0 (tcp_unread k b evs) ?c)" by (auto simp: tcp_outcome_def)
    then show ?thesis using loop step 2 by simp
  next
    case 3
    then have "tcp_length bs \<noteq> 0" "\<not> 257 < tcp_length bs" by linarith+
    moreover have "tcp_pool_loop t (Tcp_avail b # evs) c = Inr (Some (tcp_full bs c, tcp_unread k b evs))"
      using loop step 3 by simp
    ultimately show ?thesis using rest 3(2) b(3) by (simp add: tcp_outcome_def)
  next
    case 4
    have "n < 7" using 4(3) k(2) by (auto simp: tcp_target_def split: if_splits)
    then have "n + k = 7" using 4(2) k(2) by (simp add: tcp_target_def)
    then have "tcp_length bs = 0" using 4(3) by linarith
    then show ?thesis using loop step 4 by (simp add: tcp_outcome_def)
  qed
qed simp_all

section \<open>Requests over TCP\<close>

text \<open>A slave in TCP mode that has a client and awaits a request.\<close>

definition tcp_ready :: "tcp_t \<Rightarrow> mbs_t \<Rightarrow> bool" where
  "tcp_ready c w \<longleftrightarrow> mbs_ok w \<and> eMBState (tc_ctx c) = STATE_ENABLED \<and> mbsidx (tc_ctx c) = MBSIDX_MDL \<and>
     length (ucMBSlaveID (tc_ctx c)) \<le> 31 \<and> ucMBAddress (tc_ctx c) = MB_TCP_PSEUDO_ADDRESS \<and> \<not> xEventInQueue (tc_ctx c) \<and>
     xClientSocket c \<noteq> INVALID_SOCKET \<and> length (aucTCPBuf c) = 263 \<and> usTCPBufPos c = 0 \<and> usTCPFrameBytesLeft c = 7"

lemma tcp_ready_holds: "tcp_ready c w \<Longrightarrow> tcp_holds bs 0 c"
  by (simp add: tcp_ready_def tcp_holds_def tcp_target_def)

lemma tcp_ready_pool:
  assumes "tcp_ready c w" "tcp_stream (to_events os)" "tcp_bytes (to_events os) = bs" "7 \<le> length bs"
    "6 + tcp_length bs \<le> length bs"
  shows "tcp_outcome bs c (xMBPortTCPPool os c)"
  using tcp_pool_stream[OF assms(2) tcp_ready_holds[OF assms(1)] _ assms(4,5), of 0] assms(1,3)
  by (simp add: xMBPortTCPPool_def tcp_ready_def)

lemma tcp_send_all: "list_all (\<lambda>r. 0 < r) rs \<Longrightarrow> bs \<noteq> [] \<Longrightarrow> tcp_send rs t bs = (bs, True, False)"
proof (induction rs arbitrary: bs)
  case (Cons r rs)
  then show ?case by (cases "nat r < length bs") (auto simp: Let_def min_def)
qed simp

definition mbap :: "UCHAR list \<Rightarrow> UCHAR \<Rightarrow> nat \<Rightarrow> UCHAR list" where
  "mbap tid uid n = tid @ [0, 0, hi_byte (of_nat n), lo_byte (of_nat n), uid]"

lemma tcp_length_mbap: "length tid = 2 \<Longrightarrow> n < 65536 \<Longrightarrow> tcp_length (mbap tid uid n @ pdu) = n"
  by (cases tid; cases "tl tid") (auto simp: tcp_length_def mbap_def ushort_nat)

text \<open>The third poll: the handler and the response.\<close>

lemma tcp_executes:
  assumes "mbs_ok w" "mbsidx (tc_ctx c) = MBSIDX_MDL" "length (ucMBSlaveID (tc_ctx c)) \<le> 31"
    "ucMBFrame (tc_ctx c) = Some 7" "ucRcvAddress (tc_ctx c) = MB_TCP_PSEUDO_ADDRESS" "length tid = 2"
    "aucTCPBuf c = mbap tid uid k @ pdu @ rest" "length (aucTCPBuf c) = 263" "pdu \<noteq> []" "usLength (tc_ctx c) = of_nat (length pdu)"
    "length pdu \<le> 253" "list_all (\<lambda>r. 0 < r) (to_send os)"
  obtains w' ex f' n' buf' ctx' where
    "dispatch xFuncHandlers (tc_ctx c) w (hd pdu) (pdu @ rest) (of_nat (length pdu)) = Inr (ex, w', f', n')" "mbs_ok w'"
    "tcp_poll_execute xFuncHandlers os c w =
      Inr (c\<lparr>tc_ctx := ctx', aucTCPBuf := buf'\<rparr>, w',
           mbap tid uid (length (reply_bytes (hd pdu) ex f' n') + 1) @ reply_bytes (hd pdu) ex f' n')"
    "length buf' = 263" "cfg ctx' = cfg (tc_ctx c)" "xEventInQueue ctx' = xEventInQueue (tc_ctx c)"
proof -
  obtain t1 t2 where tid: "tid = [t1, t2]" using assms(6) by (auto simp: numeral_2_eq_2 length_Suc_conv)
  let ?f = "pdu @ rest" and ?start = "(tc_ctx c)\<lparr>ucFunctionCode := hd pdu\<rparr>"
  have lf: "length ?f = 256" using assms(7,8) tid by (simp add: mbap_def)
  have cc: "cfg ?start = cfg (tc_ctx c)" by (simp add: cfg_def)
  have u: "unat (of_nat (length pdu) :: USHORT) \<le> 253" using assms(11) ushort_nat[of "length pdu"] by simp
  obtain ex w' f' n' where d: "dispatch xFuncHandlers (tc_ctx c) w (hd pdu) ?f (of_nat (length pdu)) = Inr (ex, w', f', n')"
    "mbs_ok w'" "length f' = 256" "unat n' \<le> 253"
    using dispatch_total[OF handlers_contract[OF assms(2,3)] xFuncHandlers_ok assms(1), of ?f "hd pdu" "of_nat (length pdu)"] lf u
    by auto
  define reply where "reply = reply_bytes (hd pdu) ex f' n'"
  define g where "g = (if ex = MB_EX_NONE then f' else f'[0 := hd pdu OR 128, 1 := ex_code ex])"
  define n where "n = (if ex = MB_EX_NONE then n' else 2)"
  have g: "length g = 256" "unat n \<le> 253" "take (unat n) g = reply" "length reply = unat n"
  proof -
    show "length g = 256" "unat n \<le> 253" using d(3,4) by (simp_all add: g_def n_def)
    obtain a b fs where "f' = a # b # fs" using d(3) by (cases f'; cases "tl f'") auto
    then show "take (unat n) g = reply" by (simp add: g_def n_def reply_def reply_bytes_def)
    then show "length reply = unat n" using \<open>length g = 256\<close> \<open>unat n \<le> 253\<close> by auto
  qed
  let ?ctx = "?start\<lparr>eException := ex, usLength := n\<rparr>"
  define h where "h = mbap tid uid (unat n + 1)"
  have lh: "length h = 7" "length (mbap tid uid k) = 7" using tid by (simp_all add: h_def mbap_def)
  let ?b2 = "h @ g"
  have n7: "unat (n + 7) = unat n + 7" using g(2) by (subst unat_plus_if') simp
  have n1: "n + 1 = of_nat (unat n + 1)" by simp
  have frame: "drop 7 (aucTCPBuf c) = ?f" "take 7 (aucTCPBuf c) = mbap tid uid k"
    using assms(7) tid by (simp_all add: mbap_def)
  have code: "?f ! 0 = hd pdu" using assms(9) by (simp add: hd_conv_nth nth_append)
  have buf: "(mbap tid uid k @ g)[4 := hi_byte (n + 1), 5 := lo_byte (n + 1)] = ?b2"
    using tid unfolding n1 h_def by (simp add: mbap_def del: of_nat_add of_nat_Suc)
  let ?c1 = "c\<lparr>tc_ctx := ?ctx, aucTCPBuf := mbap tid uid k @ g\<rparr>"
  have send: "eMBTCPSend os ?c1 7 n = Inr (MB_ENOERR, ?c1\<lparr>aucTCPBuf := ?b2\<rparr>, h @ reply)"
  proof -
    have "h @ reply \<noteq> []" using lh by auto
    from tcp_send_all[OF assms(12) this, of 2000] show ?thesis
      using buf n7 g(1-3) lh
      by (simp add: eMBTCPSend_def buf_put_def xMBTCPPortSendResponse_def)
  qed
  have upd: "(mbap tid uid k @ f')[7 := a, 8 := b] = mbap tid uid k @ f'[0 := a, 1 := b]" for a b
    using lh by (simp add: list_update_append)
  have r: "tcp_poll_reply os (c\<lparr>tc_ctx := ?start\<rparr>) 7 ex f' n' = Inr (?c1\<lparr>aucTCPBuf := ?b2\<rparr>, h @ reply)"
    using send frame(2) assms(5) upd
    by (cases "ex = MB_EX_NONE")
      (simp_all add: tcp_poll_reply_def MB_TCP_PSEUDO_ADDRESS_def MB_ADDRESS_BROADCAST_def Let_def g_def n_def)
  then have e: "tcp_poll_execute xFuncHandlers os c w = Inr (c\<lparr>tc_ctx := ?ctx, aucTCPBuf := ?b2\<rparr>, w',
      mbap tid uid (length (reply_bytes (hd pdu) ex f' n') + 1) @ reply_bytes (hd pdu) ex f' n')"
    using g(4)
    by (simp add: tcp_poll_execute_def Let_def assms(4,10) frame(1) code dispatch_cfg[OF cc] d(1) reply_def h_def)
  have l: "length ?b2 = 263" using g(1) lh by simp
  have same: "cfg ?ctx = cfg (tc_ctx c)" "xEventInQueue ?ctx = xEventInQueue (tc_ctx c)" by (simp_all add: cfg_def)
  show ?thesis by (rule that[OF d(1,2) e l same])
qed

lemma tcp_ready_extra:
  "tcp_ready c w \<Longrightarrow> xClientSocket c' = xClientSocket c \<Longrightarrow> length (aucTCPBuf c') = 263 \<Longrightarrow> usTCPBufPos c' = 0 \<Longrightarrow>
   usTCPFrameBytesLeft c' = 7 \<Longrightarrow> cfg (tc_ctx c') = cfg (tc_ctx c) \<Longrightarrow> \<not> xEventInQueue (tc_ctx c') \<Longrightarrow> mbs_ok w' \<Longrightarrow>
   tcp_ready c' w'"
  by (auto simp: tcp_ready_def cfg_def)

section \<open>Properties\<close>

text \<open>C19: a request over TCP is answered, however the network cuts it into pieces: once the header (two bytes of
  transaction number, protocol 0, the length, the unit) and a body of 1 to 253 bytes have come, three polls later the
  slave has sent the same transaction number and unit, the length, and the response of the function handler; what
  arrived behind the request stays unread, and the slave awaits the next one.\<close>

theorem tcp_request_answered:
  assumes "tcp_ready c w" "length tid = 2" "1 \<le> length pdu" "length pdu \<le> 253" "tcp_stream (to_events os1)"
    "tcp_bytes (to_events os1) = mbap tid uid (length pdu + 1) @ pdu @ extra" "list_all (\<lambda>r. 0 < r) (to_send os3)"
  shows "\<exists>c1 c2 c3 w' rest mem ex f' n'. let reply = reply_bytes (hd pdu) ex f' n' in
    tcp_poll xFuncHandlers os1 c w = Inr (Some (MB_ENOERR, c1, w, [], rest)) \<and> tcp_bytes rest = extra \<and>
    tcp_poll xFuncHandlers os2 c1 w = Inr (Some (MB_ENOERR, c2, w, [], to_events os2)) \<and>
    dispatch xFuncHandlers (tc_ctx c) w (hd pdu) (pdu @ mem) (of_nat (length pdu)) = Inr (ex, w', f', n') \<and>
    tcp_poll xFuncHandlers os3 c2 w =
      Inr (Some (MB_ENOERR, c3, w', mbap tid uid (length reply + 1) @ reply, to_events os3)) \<and>
    tcp_ready c3 w'"
proof -
  let ?bs = "mbap tid uid (length pdu + 1) @ pdu @ extra"
  have L: "tcp_length ?bs = length pdu + 1" using tcp_length_mbap[OF assms(2)] assms(4) by simp
  have lm: "length (mbap tid uid k) = 7" for k using assms(2) by (simp add: mbap_def)
  have full: "1 \<le> tcp_length ?bs" "tcp_length ?bs \<le> 257" "7 \<le> length ?bs" "6 + tcp_length ?bs \<le> length ?bs"
    unfolding L using assms(4) lm by simp_all
  have r: "eMBState (tc_ctx c) = STATE_ENABLED" "\<not> xEventInQueue (tc_ctx c)" "length (aucTCPBuf c) = 263" "mbs_ok w"
    "ucMBAddress (tc_ctx c) = MB_TCP_PSEUDO_ADDRESS" using assms(1) by (simp_all add: tcp_ready_def)
  let ?c1 = "tcp_full ?bs c"
  obtain rest where rest: "xMBPortTCPPool os1 c = Inr (Some (?c1, rest))" "tcp_bytes rest = drop (6 + tcp_length ?bs) ?bs"
    using tcp_ready_pool[OF assms(1,5,6) full(3,4)] full(1,2) by (auto simp: tcp_outcome_def)
  have extra: "drop (6 + tcp_length ?bs) ?bs = extra" unfolding L using lm by simp
  have p1: "tcp_poll xFuncHandlers os1 c w = Inr (Some (MB_ENOERR, ?c1, w, [], rest))"
    using r(1,2) rest(1) by (simp add: tcp_poll_def)
  let ?mem = "drop (6 + tcp_length ?bs) (aucTCPBuf c)"
  have c1: "aucTCPBuf ?c1 = mbap tid uid (length pdu + 1) @ pdu @ ?mem" "usTCPBufPos ?c1 = of_nat (length pdu + 7)"
    "tc_ctx ?c1 = xMBPortEventPost (tc_ctx c) EV_FRAME_RECEIVED" "xClientSocket ?c1 = xClientSocket c"
    unfolding tcp_full_def Let_def L using lm by simp_all
  let ?ctx = "(tc_ctx c)\<lparr>xEventInQueue := True, eQueuedEvent := EV_EXECUTE, ucMBFrame := Some 7,
      usLength := of_nat (length pdu), ucRcvAddress := MB_TCP_PSEUDO_ADDRESS\<rparr>"
  let ?c2 = "?c1\<lparr>tc_ctx := ?ctx, usTCPBufPos := 0, usTCPFrameBytesLeft := 7\<rparr>"
  have pid: "mk_ushort (aucTCPBuf ?c1 ! 2) (aucTCPBuf ?c1 ! 3) = 0"
    using assms(2) unfolding c1(1) by (cases tid; cases "tl tid") (auto simp: mbap_def mk_ushort_def)
  have len: "of_nat (length pdu + 7) - 7 = (of_nat (length pdu) :: USHORT)" by simp
  have "tcp_poll_received (?c1\<lparr>tc_ctx := (tc_ctx ?c1)\<lparr>xEventInQueue := False\<rparr>\<rparr>) = ?c2"
    using pid len r(5) c1(2,3)
    by (simp add: tcp_poll_received_def eMBTCPReceive_def xMBTCPPortGetRequest_def xMBPortEventPost_def del: of_nat_add)
  then have p2: "tcp_poll xFuncHandlers os2 ?c1 w = Inr (Some (MB_ENOERR, ?c2, w, [], to_events os2))"
    using r(1) c1(3) by (simp add: tcp_poll_def xMBPortEventPost_def)
  let ?c0 = "?c2\<lparr>tc_ctx := ?ctx\<lparr>xEventInQueue := False\<rparr>\<rparr>"
  have pre: "mbsidx (tc_ctx ?c0) = MBSIDX_MDL" "length (ucMBSlaveID (tc_ctx ?c0)) \<le> 31" "ucMBFrame (tc_ctx ?c0) = Some 7"
    "ucRcvAddress (tc_ctx ?c0) = MB_TCP_PSEUDO_ADDRESS" "aucTCPBuf ?c0 = mbap tid uid (length pdu + 1) @ pdu @ ?mem"
    "length (aucTCPBuf ?c0) = 263" "pdu \<noteq> []" "usLength (tc_ctx ?c0) = of_nat (length pdu)"
    using assms(1,3) c1(1) lm r(3) L full(2) by (auto simp: tcp_ready_def)
  obtain w' ex f' n' buf' ctx' where x:
    "dispatch xFuncHandlers (tc_ctx ?c0) w (hd pdu) (pdu @ ?mem) (of_nat (length pdu)) = Inr (ex, w', f', n')" "mbs_ok w'"
    "tcp_poll_execute xFuncHandlers os3 ?c0 w = Inr (?c0\<lparr>tc_ctx := ctx', aucTCPBuf := buf'\<rparr>, w',
       mbap tid uid (length (reply_bytes (hd pdu) ex f' n') + 1) @ reply_bytes (hd pdu) ex f' n')"
    "length buf' = 263" "cfg ctx' = cfg (tc_ctx ?c0)" "xEventInQueue ctx' = xEventInQueue (tc_ctx ?c0)"
    by (rule tcp_executes[OF r(4) pre(1-4) assms(2) pre(5-8) assms(4,7)])
  let ?c3 = "?c0\<lparr>tc_ctx := ctx', aucTCPBuf := buf'\<rparr>"
  have p3: "tcp_poll xFuncHandlers os3 ?c2 w = Inr (Some (MB_ENOERR, ?c3, w',
      mbap tid uid (length (reply_bytes (hd pdu) ex f' n') + 1) @ reply_bytes (hd pdu) ex f' n', to_events os3))"
    using r(1) x(3) by (simp add: tcp_poll_def)
  have cc: "cfg (tc_ctx ?c0) = cfg (tc_ctx c)" by (simp add: cfg_def)
  have "tcp_ready ?c3 w'"
    by (rule tcp_ready_extra[OF assms(1)]) (use x(2,4,5,6) cc c1(4) in simp_all)
  then show ?thesis
    using p1 rest(2) extra p2 p3 x(1) dispatch_cfg[OF cc] unfolding Let_def by (intro exI conjI) auto
qed

text \<open>Fact: the length field of the header is trusted: a client that announces more than 257 bytes and sends them makes the
  port write behind its buffer, and one that announces 0 bytes stops the program; every other request is
  received.\<close>

theorem tcp_length_trusted:
  assumes "tcp_ready c w" "tcp_stream (to_events os)" "7 \<le> length (tcp_bytes (to_events os))"
    "6 + tcp_length (tcp_bytes (to_events os)) \<le> length (tcp_bytes (to_events os))"
  shows "(tcp_poll tab os c w = Inl Buffer_overflow \<longleftrightarrow> 257 < tcp_length (tcp_bytes (to_events os))) \<and>
    (tcp_poll tab os c w = Inl Assert_failed \<longleftrightarrow> tcp_length (tcp_bytes (to_events os)) = 0)"
proof -
  have "tcp_poll tab os c w = bind_res (xMBPortTCPPool os c) (\<lambda>r. case r of None \<Rightarrow> Inr None
      | Some (c', evs) \<Rightarrow> Inr (Some (MB_ENOERR, c', w, [], evs)))"
    using assms(1) by (simp add: tcp_poll_def tcp_ready_def)
  then show ?thesis
    using tcp_ready_pool[OF assms(1,2) refl assms(3,4)] by (auto simp: tcp_outcome_def split: if_splits)
qed

section \<open>A concrete slave\<close>

definition tcp_example :: tcp_t where
  "tcp_example =
     \<lparr>tc_ctx = zero_ctx\<lparr>ucMBAddress := MB_TCP_PSEUDO_ADDRESS, eMBCurrentMode := MB_TCP\<rparr>, xListenSocket = 3, xClientSocket = 4,
      aucTCPBuf = replicate 263 0, usTCPBufPos = 0, usTCPFrameBytesLeft = 7\<rparr>"

definition tcp_events :: "tcp_event list \<Rightarrow> tcp_os" where
  "tcp_events evs = \<lparr>to_accept = -1, to_events = evs, to_send = [4], to_drain = []\<rparr>"

lemma tcp_example_ready: "tcp_ready tcp_example mbs_example"
  using mbs_example_ok by (simp add: tcp_ready_def tcp_example_def zero_ctx_def MBSIDX_MDL_def INVALID_SOCKET_def)

theorem tcp_request_answered_witness:
  "\<exists>c1 c2 c3 w' rest.
    tcp_poll xFuncHandlers (tcp_events [Tcp_avail [0, 7, 0], Tcp_avail [0, 0, 2, 1, 0x41, 9]]) tcp_example mbs_example =
      Inr (Some (MB_ENOERR, c1, mbs_example, [], rest)) \<and> tcp_bytes rest = [9] \<and>
    tcp_poll xFuncHandlers (tcp_events []) c1 mbs_example = Inr (Some (MB_ENOERR, c2, mbs_example, [], [])) \<and>
    tcp_poll xFuncHandlers (tcp_events []) c2 mbs_example = Inr (Some (MB_ENOERR, c3, w', [0, 7, 0, 0, 0, 3, 1, 0xC1, 1], []))"
proof -
  let ?os = "tcp_events [Tcp_avail [0, 7, 0], Tcp_avail [0, 0, 2, 1, 0x41, 9]]"
  have b: "tcp_bytes (to_events ?os) = mbap [0, 7] 1 (length [0x41 :: UCHAR] + 1) @ [0x41] @ [9]" "tcp_stream (to_events ?os)"
    by (simp_all add: tcp_events_def mbap_def hi_byte_def lo_byte_def)
  have s: "list_all (\<lambda>r. 0 < r) (to_send (tcp_events []))" by (simp add: tcp_events_def)
  have free: "replicate 11 (0 :: UCHAR, None :: handler option) = (0, None) # replicate 10 (0, None)"
    by (simp add: numeral_eq_Suc)
  have d: "dispatch xFuncHandlers ctx w 0x41 f n = Inr (MB_EX_ILLEGAL_FUNCTION, w, f, n)" for ctx w f n
    using free by (simp add: xFuncHandlers_def)
  have e: "to_events (tcp_events []) = []" by (simp add: tcp_events_def)
  obtain c1 c2 c3 w' rest where r:
    "tcp_poll xFuncHandlers ?os tcp_example mbs_example = Inr (Some (MB_ENOERR, c1, mbs_example, [], rest))" "tcp_bytes rest = [9]"
    "tcp_poll xFuncHandlers (tcp_events []) c1 mbs_example = Inr (Some (MB_ENOERR, c2, mbs_example, [], []))"
    "tcp_poll xFuncHandlers (tcp_events []) c2 mbs_example =
      Inr (Some (MB_ENOERR, c3, w', mbap [0, 7] 1 3 @ [0xC1, 1], []))"
    using tcp_request_answered[OF tcp_example_ready _ _ _ b(2,1) s, of "tcp_events []"] d e
    by (auto simp: Let_def reply_bytes_def numeral_3_eq_3)
  have "mbap [0, 7] 1 3 = [0, 7, 0, 0, 0, 3, 1]" by (simp add: mbap_def hi_byte_def lo_byte_def)
  then show ?thesis using r by auto
qed

theorem tcp_length_trusted_witness:
  "tcp_poll xFuncHandlers (tcp_events [Tcp_avail [0, 7, 0, 0, 0, 0, 1]]) tcp_example mbs_example = Inl Assert_failed \<and>
   tcp_poll xFuncHandlers (tcp_events [Tcp_avail [0, 7, 0, 0, 1, 2, 1], Tcp_avail (replicate 257 9)]) tcp_example mbs_example =
     Inl Buffer_overflow"
proof -
  have "tcp_length [0, 7, 0, 0, 0, 0, 1] = 0" "tcp_length ([0, 7, 0, 0, 1, 2, 1] @ replicate 257 9) = 258"
    by (simp_all add: tcp_length_def mk_ushort_def)
  then show ?thesis
    using tcp_length_trusted[OF tcp_example_ready, of "tcp_events [Tcp_avail [0, 7, 0, 0, 0, 0, 1]]" xFuncHandlers]
      tcp_length_trusted[OF tcp_example_ready, of "tcp_events [Tcp_avail [0, 7, 0, 0, 1, 2, 1], Tcp_avail (replicate 257 9)]" xFuncHandlers]
    by (simp add: tcp_events_def)
qed

end
