(* ===== verification/MbAscii.thy ===== *)
theory MbAscii
  imports MbPort
begin

text \<open>
  The ASCII transport of FreeModbus, \<open>modbus/ascii/mbascii.c\<close>: a frame is a colon, two hexadecimal digits for each
  byte of address, body and check sum (LRC), carriage return and line feed. The configuration leaves it out
  (\<open>MB_ASCII_ENABLED\<close> is 0), and it calls the functions of the port without a context; what it asks of the port is
  recorded in fields of the state.
\<close>

section \<open>State\<close>

datatype asc_rcv = ASC_RX_IDLE | ASC_RX_RCV | ASC_RX_WAIT_EOF

datatype asc_snd = ASC_TX_IDLE | ASC_TX_START | ASC_TX_DATA | ASC_TX_END | ASC_TX_NOTIFY

datatype eMBBytePos = BYTE_HIGH_NIBBLE | BYTE_LOW_NIBBLE

text \<open>The file's static variables; then what was last asked of the port: receiver, transmitter, timer, and the event.\<close>

record ascii_t =
  a_snd :: asc_snd
  a_rcv :: asc_rcv
  ucASCIIBuf :: "UCHAR list"
  a_rcvpos :: USHORT
  eBytePos :: eMBBytePos
  a_cur :: nat
  a_count :: USHORT
  ucMBLFCharacter :: UCHAR
  port_rx :: bool
  port_tx :: bool
  port_timer :: bool
  port_event :: "eMBEventType option"

definition MB_ASCII_DEFAULT_CR :: UCHAR where
  "MB_ASCII_DEFAULT_CR = 0x0D"

definition MB_ASCII_DEFAULT_LF :: UCHAR where
  "MB_ASCII_DEFAULT_LF = 0x0A"

definition ASCII_COLON :: UCHAR where
  "ASCII_COLON = 0x3A"

definition ASCII_PDU_SIZE_MIN :: nat where
  "ASCII_PDU_SIZE_MIN = 3"

definition ASCII_PDU_SIZE_MAX :: nat where
  "ASCII_PDU_SIZE_MAX = 256"

section \<open>Digits and check sum\<close>

definition prvucMBCHAR2BIN :: "UCHAR \<Rightarrow> UCHAR" where
  "prvucMBCHAR2BIN ucCharacter =
     (if ucCharacter \<ge> 0x30 \<and> ucCharacter \<le> 0x39 then ucCharacter - 0x30
      else if ucCharacter \<ge> 0x41 \<and> ucCharacter \<le> 0x46 then ucCharacter - 0x41 + 0x0A
      else 0xFF)"

definition prvucMBBIN2CHAR :: "UCHAR \<Rightarrow> UCHAR res" where
  "prvucMBBIN2CHAR ucByte =
     (if ucByte \<le> 0x09 then Inr (0x30 + ucByte)
      else if ucByte \<ge> 0x0A \<and> ucByte \<le> 0x0F then Inr (ucByte - 0x0A + 0x41)
      else Inl Assert_failed)"

definition prvucMBLRC :: "UCHAR list \<Rightarrow> UCHAR" where
  "prvucMBLRC bs = - foldl (+) 0 bs"

section \<open>Start, stop, frames\<close>

text \<open>The results of the two calls to the port.\<close>

definition eMBASCIIInit :: "bool \<Rightarrow> bool \<Rightarrow> ascii_t \<Rightarrow> eMBErrorCode \<times> ascii_t" where
  "eMBASCIIInit serial_ok timer_ok a =
     (let a1 = a\<lparr>ucMBLFCharacter := MB_ASCII_DEFAULT_LF\<rparr>
      in (if \<not> serial_ok then MB_EPORTERR else if \<not> timer_ok then MB_EPORTERR else MB_ENOERR, a1))"

definition eMBASCIIStart :: "ascii_t \<Rightarrow> ascii_t" where
  "eMBASCIIStart a = a\<lparr>port_rx := True, port_tx := False, a_rcv := ASC_RX_IDLE, port_event := Some EV_READY\<rparr>"

definition eMBASCIIStop :: "ascii_t \<Rightarrow> ascii_t" where
  "eMBASCIIStop a = a\<lparr>port_rx := False, port_tx := False, port_timer := False\<rparr>"

text \<open>The address, the start and the length of the body, when the frame is right.\<close>

definition eMBASCIIReceive :: "ascii_t \<Rightarrow> (eMBErrorCode \<times> (UCHAR \<times> nat \<times> USHORT) option) res" where
  "eMBASCIIReceive a =
     (if unat (a_rcvpos a) < ASCII_PDU_SIZE_MAX
      then (if unat (a_rcvpos a) \<ge> ASCII_PDU_SIZE_MIN \<and> prvucMBLRC (take (unat (a_rcvpos a)) (ucASCIIBuf a)) = 0
            then Inr (MB_ENOERR, Some (ucASCIIBuf a ! 0, 1, a_rcvpos a - 1 - 1)) else Inr (MB_EIO, None))
      else Inl Assert_failed)"

definition eMBASCIISend :: "ascii_t \<Rightarrow> UCHAR \<Rightarrow> nat \<Rightarrow> USHORT \<Rightarrow> (eMBErrorCode \<times> ascii_t) res" where
  "eMBASCIISend a ucSlaveAddress pucFrame len =
     (if a_rcv a = ASC_RX_IDLE
      then (let cur = pucFrame - 1; count = 1 + len
            in bind_res (buf_put (ucASCIIBuf a) cur ucSlaveAddress) (\<lambda>buf.
               bind_res (buf_put buf (unat count) (prvucMBLRC (take (unat count) (drop cur buf)))) (\<lambda>buf1.
                 Inr (MB_ENOERR, a\<lparr>a_cur := cur, a_count := count + 1, ucASCIIBuf := buf1, a_snd := ASC_TX_START,
                                   port_rx := False, port_tx := True\<rparr>))))
      else Inr (MB_EIO, a))"

section \<open>The receiver\<close>

text \<open>One received character.\<close>

definition asc_store_nibble :: "UCHAR \<Rightarrow> ascii_t \<Rightarrow> ascii_t res" where
  "asc_store_nibble r a =
     (case eBytePos a of
        BYTE_HIGH_NIBBLE \<Rightarrow>
          if unat (a_rcvpos a) < ASCII_PDU_SIZE_MAX
          then bind_res (buf_put (ucASCIIBuf a) (unat (a_rcvpos a)) (push_bit 4 r)) (\<lambda>buf.
                 Inr (a\<lparr>ucASCIIBuf := buf, eBytePos := BYTE_LOW_NIBBLE\<rparr>))
          else Inr (a\<lparr>a_rcv := ASC_RX_IDLE, port_timer := False\<rparr>)
      | BYTE_LOW_NIBBLE \<Rightarrow>
          bind_res (buf_get (ucASCIIBuf a) (unat (a_rcvpos a))) (\<lambda>b.
          bind_res (buf_put (ucASCIIBuf a) (unat (a_rcvpos a)) (b OR r)) (\<lambda>buf.
            Inr (a\<lparr>ucASCIIBuf := buf, a_rcvpos := a_rcvpos a + 1, eBytePos := BYTE_HIGH_NIBBLE\<rparr>))))"

definition xMBASCIIReceiveFSM :: "UCHAR \<Rightarrow> ascii_t \<Rightarrow> ascii_t res" where
  "xMBASCIIReceiveFSM ucByte a =
     (if a_snd a \<noteq> ASC_TX_IDLE then Inl Assert_failed
      else case a_rcv a of
        ASC_RX_RCV \<Rightarrow>
          (let a1 = a\<lparr>port_timer := True\<rparr>
           in if ucByte = ASCII_COLON then Inr (a1\<lparr>eBytePos := BYTE_HIGH_NIBBLE, a_rcvpos := 0\<rparr>)
              else if ucByte = MB_ASCII_DEFAULT_CR then Inr (a1\<lparr>a_rcv := ASC_RX_WAIT_EOF\<rparr>)
              else asc_store_nibble (prvucMBCHAR2BIN ucByte) a1)
      | ASC_RX_WAIT_EOF \<Rightarrow>
          if ucByte = ucMBLFCharacter a
          then Inr (a\<lparr>port_timer := False, a_rcv := ASC_RX_IDLE, port_event := Some EV_FRAME_RECEIVED\<rparr>)
          else if ucByte = ASCII_COLON
          then Inr (a\<lparr>eBytePos := BYTE_HIGH_NIBBLE, a_rcvpos := 0, a_rcv := ASC_RX_RCV, port_timer := True\<rparr>)
          else Inr (a\<lparr>a_rcv := ASC_RX_IDLE\<rparr>)
      | ASC_RX_IDLE \<Rightarrow>
          if ucByte = ASCII_COLON
          then Inr (a\<lparr>port_timer := True, a_rcvpos := 0, eBytePos := BYTE_HIGH_NIBBLE, a_rcv := ASC_RX_RCV\<rparr>)
          else Inr a)"

definition xMBASCIITimerT1SExpired :: "ascii_t \<Rightarrow> ascii_t res" where
  "xMBASCIITimerT1SExpired a =
     (if a_rcv a = ASC_RX_IDLE then Inl Assert_failed else Inr (a\<lparr>a_rcv := ASC_RX_IDLE, port_timer := False\<rparr>))"

section \<open>The transmitter\<close>

text \<open>One step, with the character it puts on the line.\<close>

definition xMBASCIITransmitFSM :: "ascii_t \<Rightarrow> (ascii_t \<times> UCHAR list) res" where
  "xMBASCIITransmitFSM a =
     (if a_rcv a \<noteq> ASC_RX_IDLE then Inl Assert_failed
      else case a_snd a of
        ASC_TX_START \<Rightarrow> Inr (a\<lparr>a_snd := ASC_TX_DATA, eBytePos := BYTE_HIGH_NIBBLE\<rparr>, [ASCII_COLON])
      | ASC_TX_DATA \<Rightarrow>
          if a_count a > 0
          then bind_res (buf_get (ucASCIIBuf a) (a_cur a)) (\<lambda>b.
                 case eBytePos a of
                   BYTE_HIGH_NIBBLE \<Rightarrow> bind_res (prvucMBBIN2CHAR (drop_bit 4 b)) (\<lambda>ch. Inr (a\<lparr>eBytePos := BYTE_LOW_NIBBLE\<rparr>, [ch]))
                 | BYTE_LOW_NIBBLE \<Rightarrow> bind_res (prvucMBBIN2CHAR (b AND 0x0F)) (\<lambda>ch.
                     Inr (a\<lparr>a_cur := a_cur a + 1, eBytePos := BYTE_HIGH_NIBBLE, a_count := a_count a - 1\<rparr>, [ch])))
          else Inr (a\<lparr>a_snd := ASC_TX_END\<rparr>, [MB_ASCII_DEFAULT_CR])
      | ASC_TX_END \<Rightarrow> Inr (a\<lparr>a_snd := ASC_TX_NOTIFY\<rparr>, [ucMBLFCharacter a])
      | ASC_TX_NOTIFY \<Rightarrow>
          Inr (a\<lparr>a_snd := ASC_TX_IDLE, port_event := Some EV_FRAME_SENT, port_rx := True, port_tx := False\<rparr>, [])
      | ASC_TX_IDLE \<Rightarrow> Inr (a\<lparr>port_rx := True, port_tx := False\<rparr>, []))"

text \<open>The interrupts of the port: characters received one after the other, and steps while the transmitter is on.\<close>

fun asc_receive :: "UCHAR list \<Rightarrow> ascii_t \<Rightarrow> ascii_t res" where
  "asc_receive [] a = Inr a"
| "asc_receive (b # bs) a = bind_res (xMBASCIIReceiveFSM b a) (asc_receive bs)"

definition asc_left :: "ascii_t \<Rightarrow> nat" where
  "asc_left a =
     (if \<not> port_tx a then 0
      else case a_snd a of
        ASC_TX_START \<Rightarrow> 2 * unat (a_count a) + 6
      | ASC_TX_DATA \<Rightarrow> 2 * unat (a_count a) + (if eBytePos a = BYTE_HIGH_NIBBLE then 5 else 4)
      | ASC_TX_END \<Rightarrow> 3 | ASC_TX_NOTIFY \<Rightarrow> 2 | ASC_TX_IDLE \<Rightarrow> 1)"

lemma asc_transmit_decreases:
  assumes "port_tx a" "xMBASCIITransmitFSM a = Inr (a', out)"
  shows "asc_left a' < asc_left a"
proof -
  have "unat (a_count a - 1) = unat (a_count a) - 1" "0 < unat (a_count a)" if "0 < a_count a"
    using that by (simp_all add: unat_minus_one word_greater_zero_iff unat_gt_0)
  then show ?thesis
    using assms
    by (cases "a_snd a"; cases "eBytePos a")
      (simp_all add: xMBASCIITransmitFSM_def bind_res_eq_Inr split: if_splits, auto simp: asc_left_def)
qed

function asc_transmit :: "ascii_t \<Rightarrow> (ascii_t \<times> UCHAR list) res" where
  "asc_transmit a =
     (if port_tx a
      then bind_res (xMBASCIITransmitFSM a) (\<lambda>(a', out). bind_res (asc_transmit a') (\<lambda>(a'', outs). Inr (a'', out @ outs)))
      else Inr (a, []))"
  by pat_completeness auto

termination asc_transmit
  by (relation "measure asc_left") (auto intro: asc_transmit_decreases)

declare asc_transmit.simps [simp del]

section \<open>Digits and sums\<close>

definition ascii_digit :: "UCHAR \<Rightarrow> UCHAR" where
  "ascii_digit v = (if v \<le> 9 then 0x30 + v else v - 0x0A + 0x41)"

lemma nibble_cases: "(v :: UCHAR) \<le> 0x0F \<Longrightarrow> v \<in> {0, 1, 2, 3, 4, 5, 6, 7, 8, 9, 10, 11, 12, 13, 14, 15}"
proof -
  assume "v \<le> 0x0F"
  then have "unat v \<le> 15" by (simp add: word_le_nat_alt)
  then have "unat v \<in> {0, 1, 2, 3, 4, 5, 6, 7, 8, 9, 10, 11, 12, 13, 14, 15}"
    by (simp only: insert_iff empty_iff) presburger
  then show ?thesis by (auto simp: word_unat_eq_iff)
qed

lemma bin2char: "v \<le> 0x0F \<Longrightarrow> prvucMBBIN2CHAR v = Inr (ascii_digit v)"
  by (auto simp: prvucMBBIN2CHAR_def ascii_digit_def not_le dest!: nibble_cases)

lemma ascii_digit_reads:
  assumes "v \<le> 0x0F"
  shows "prvucMBCHAR2BIN (ascii_digit v) = v" "ascii_digit v \<noteq> ASCII_COLON" "ascii_digit v \<noteq> MB_ASCII_DEFAULT_CR"
  using nibble_cases[OF assms] by (auto simp: prvucMBCHAR2BIN_def ascii_digit_def ASCII_COLON_def MB_ASCII_DEFAULT_CR_def)

lemma nibbles: "drop_bit 4 (b :: UCHAR) \<le> 0x0F" "b AND 0x0F \<le> 0x0F" "push_bit 4 (drop_bit 4 b) OR (b AND 0x0F) = b"
proof -
  show "b AND 0x0F \<le> 0x0F" by (rule word_and_le1)
  have "unat (drop_bit 4 b) = unat b div 16" by (simp only: unat_drop_bit_eq) (simp only: drop_bit_eq_div, simp)
  moreover have "unat b < 256" using unsigned_less[of b] by simp
  ultimately show "drop_bit 4 b \<le> 0x0F" by (simp add: word_le_nat_alt)
  have m: "(0x0F :: UCHAR) = mask 4" by (simp add: mask_eq_exp_minus_1)
  show "push_bit 4 (drop_bit 4 b) OR (b AND 0x0F) = b"
    unfolding m by (rule bit_word_eqI) (auto simp: bit_simps)
qed

lemma foldl_plus: "foldl (+) (s :: UCHAR) bs = s + foldl (+) 0 bs"
  by (induction bs arbitrary: s) (simp, metis (no_types, lifting) add.assoc add.left_neutral foldl_Cons)

lemma lrc_zero: "prvucMBLRC (bs @ [prvucMBLRC bs]) = 0"
  by (simp add: prvucMBLRC_def)

section \<open>A frame on the line\<close>

definition hex_pair :: "UCHAR \<Rightarrow> UCHAR list" where
  "hex_pair b = [ascii_digit (drop_bit 4 b), ascii_digit (b AND 0x0F)]"

definition hex_text :: "UCHAR list \<Rightarrow> UCHAR list" where
  "hex_text bs = concat (map hex_pair bs)"

lemma hex_text_simps [simp]: "hex_text [] = []" "hex_text (b # bs) = hex_pair b @ hex_text bs"
  by (simp_all add: hex_text_def)

lemma count_nat: "n < 65536 \<Longrightarrow> unat (of_nat n :: USHORT) = n"
  by (simp add: unsigned_of_nat take_bit_nat_eq_self)

lemma transmit_step:
  "port_tx a \<Longrightarrow> xMBASCIITransmitFSM a = Inr (a', out) \<Longrightarrow> asc_transmit a' = Inr (a'', outs) \<Longrightarrow>
   asc_transmit a = Inr (a'', out @ outs)"
  by (subst asc_transmit.simps) simp

lemma transmit_data:
  "port_tx a \<Longrightarrow> a_rcv a = ASC_RX_IDLE \<Longrightarrow> a_snd a = ASC_TX_DATA \<Longrightarrow> eBytePos a = BYTE_HIGH_NIBBLE \<Longrightarrow>
   a_count a = of_nat (length bs) \<Longrightarrow> length bs < 65536 \<Longrightarrow> take (length bs) (drop (a_cur a) (ucASCIIBuf a)) = bs \<Longrightarrow>
   \<exists>a'. asc_transmit a = Inr (a', hex_text bs @ [MB_ASCII_DEFAULT_CR, ucMBLFCharacter a]) \<and>
     port_event a' = Some EV_FRAME_SENT \<and> port_rx a' \<and> \<not> port_tx a' \<and> a_snd a' = ASC_TX_IDLE"
proof (induction bs arbitrary: a)
  case Nil
  let ?a1 = "a\<lparr>a_snd := ASC_TX_END\<rparr>" and ?a2 = "a\<lparr>a_snd := ASC_TX_NOTIFY\<rparr>"
  let ?a3 = "a\<lparr>a_snd := ASC_TX_IDLE, port_event := Some EV_FRAME_SENT, port_rx := True, port_tx := False\<rparr>"
  have "asc_transmit ?a3 = Inr (?a3, [])" by (subst asc_transmit.simps) simp
  then have "asc_transmit ?a2 = Inr (?a3, [])"
    by (subst asc_transmit.simps) (simp add: Nil.prems xMBASCIITransmitFSM_def)
  then have "asc_transmit ?a1 = Inr (?a3, [ucMBLFCharacter a])"
    by (subst asc_transmit.simps) (simp add: Nil.prems xMBASCIITransmitFSM_def)
  then have "asc_transmit a = Inr (?a3, [MB_ASCII_DEFAULT_CR, ucMBLFCharacter a])"
    by (subst asc_transmit.simps) (use Nil.prems in \<open>simp add: xMBASCIITransmitFSM_def\<close>)
  then show ?case by auto
next
  case (Cons b bs)
  let ?a1 = "a\<lparr>eBytePos := BYTE_LOW_NIBBLE\<rparr>"
  let ?a2 = "a\<lparr>a_cur := a_cur a + 1, eBytePos := BYTE_HIGH_NIBBLE, a_count := a_count a - 1\<rparr>"
  have pos: "a_count a > 0" using Cons.prems(5,6) count_nat[of "Suc (length bs)"] by (simp add: word_less_nat_alt)
  have d: "drop (a_cur a) (ucASCIIBuf a) = b # drop (Suc (a_cur a)) (ucASCIIBuf a)" "take (length bs) (drop (Suc (a_cur a)) (ucASCIIBuf a)) = bs"
    "a_cur a < length (ucASCIIBuf a)" "ucASCIIBuf a ! a_cur a = b"
  proof -
    have "drop (a_cur a) (ucASCIIBuf a) \<noteq> []" using Cons.prems(7) by auto
    then show lt: "a_cur a < length (ucASCIIBuf a)" by simp
    then have c: "drop (a_cur a) (ucASCIIBuf a) = ucASCIIBuf a ! a_cur a # drop (Suc (a_cur a)) (ucASCIIBuf a)"
      by (rule Cons_nth_drop_Suc[symmetric])
    then show "drop (a_cur a) (ucASCIIBuf a) = b # drop (Suc (a_cur a)) (ucASCIIBuf a)" "ucASCIIBuf a ! a_cur a = b"
      "take (length bs) (drop (Suc (a_cur a)) (ucASCIIBuf a)) = bs" using Cons.prems(7) by simp_all
  qed
  have "\<exists>a'. asc_transmit ?a2 = Inr (a', hex_text bs @ [MB_ASCII_DEFAULT_CR, ucMBLFCharacter ?a2]) \<and>
     port_event a' = Some EV_FRAME_SENT \<and> port_rx a' \<and> \<not> port_tx a' \<and> a_snd a' = ASC_TX_IDLE"
    by (rule Cons.IH) (use Cons.prems d(2) in simp_all)
  then obtain a' where a': "asc_transmit ?a2 = Inr (a', hex_text bs @ [MB_ASCII_DEFAULT_CR, ucMBLFCharacter a])"
    "port_event a' = Some EV_FRAME_SENT" "port_rx a'" "\<not> port_tx a'" "a_snd a' = ASC_TX_IDLE" by auto
  have s1: "xMBASCIITransmitFSM a = Inr (?a1, [ascii_digit (drop_bit 4 b)])"
    using Cons.prems pos d(3,4) bin2char[OF nibbles(1)[of b]] by (simp add: xMBASCIITransmitFSM_def buf_get_def)
  have s2: "xMBASCIITransmitFSM ?a1 = Inr (?a2, [ascii_digit (b AND 0x0F)])"
    using Cons.prems pos d(3,4) bin2char[OF nibbles(2)[of b]] by (simp add: xMBASCIITransmitFSM_def buf_get_def)
  have "port_tx ?a1" using Cons.prems by simp
  from transmit_step[OF Cons.prems(1) s1 transmit_step[OF this s2 a'(1)]]
  show ?case using a' by (simp add: hex_pair_def)
qed

text \<open>Reception of the digits: one byte, then all of them.\<close>

definition asc_open :: "nat \<Rightarrow> ascii_t \<Rightarrow> bool" where
  "asc_open p a \<longleftrightarrow> a_snd a = ASC_TX_IDLE \<and> a_rcv a = ASC_RX_RCV \<and> eBytePos a = BYTE_HIGH_NIBBLE \<and> a_rcvpos a = of_nat p \<and>
     length (ucASCIIBuf a) = 256"

lemma receive_byte:
  assumes "asc_open p a" "p < 256"
  shows "asc_receive (hex_pair b) a =
    Inr (a\<lparr>ucASCIIBuf := (ucASCIIBuf a)[p := b], a_rcvpos := of_nat (Suc p), port_timer := True\<rparr>)"
proof -
  have p: "unat (of_nat p :: USHORT) = p" using assms(2) by (intro count_nat) simp
  have h: "a_snd a = ASC_TX_IDLE" "a_rcv a = ASC_RX_RCV" "eBytePos a = BYTE_HIGH_NIBBLE" "a_rcvpos a = of_nat p"
    "length (ucASCIIBuf a) = 256" using assms(1) by (simp_all add: asc_open_def)
  note hi = ascii_digit_reads[OF nibbles(1)[of b]]
  note lo = ascii_digit_reads[OF nibbles(2)[of b]]
  have e: "(ucASCIIBuf a)[p := b] = (ucASCIIBuf a)[p := b] \<and> a\<lparr>eBytePos := BYTE_HIGH_NIBBLE\<rparr> = a" using h(3) by simp
  let ?a1 = "a\<lparr>port_timer := True, ucASCIIBuf := (ucASCIIBuf a)[p := push_bit 4 (drop_bit 4 b)], eBytePos := BYTE_LOW_NIBBLE\<rparr>"
  have s1: "xMBASCIIReceiveFSM (ascii_digit (drop_bit 4 b)) a = Inr ?a1"
    using h p assms(2) hi
    by (simp add: xMBASCIIReceiveFSM_def asc_store_nibble_def ASCII_PDU_SIZE_MAX_def buf_put_def Let_def)
  have s2: "xMBASCIIReceiveFSM (ascii_digit (b AND 0x0F)) ?a1 =
      Inr (a\<lparr>ucASCIIBuf := (ucASCIIBuf a)[p := b], a_rcvpos := of_nat (Suc p), port_timer := True\<rparr>)"
    using h p assms(2) lo nibbles(3)[of b]
    by (simp add: xMBASCIIReceiveFSM_def asc_store_nibble_def buf_put_def buf_get_def Let_def add.commute)
  show ?thesis using s1 s2 by (simp add: hex_pair_def)
qed

lemma asc_receive_append: "asc_receive (bs @ cs) a = bind_res (asc_receive bs a) (asc_receive cs)"
proof (induction bs arbitrary: a)
  case (Cons b bs)
  then show ?case by (cases "xMBASCIIReceiveFSM b a") simp_all
qed simp

lemma receive_text:
  "asc_open p a \<Longrightarrow> p + length bs \<le> 256 \<Longrightarrow>
   \<exists>a'. asc_receive (hex_text bs) a = Inr a' \<and> asc_open (p + length bs) a' \<and> ucMBLFCharacter a' = ucMBLFCharacter a \<and>
     ucASCIIBuf a' = take p (ucASCIIBuf a) @ bs @ drop (p + length bs) (ucASCIIBuf a)"
proof (induction bs arbitrary: p a)
  case (Cons b bs)
  let ?a1 = "a\<lparr>ucASCIIBuf := (ucASCIIBuf a)[p := b], a_rcvpos := of_nat (Suc p), port_timer := True\<rparr>"
  have l: "length (ucASCIIBuf a) = 256" "p < 256" using Cons.prems by (simp_all add: asc_open_def)
  have o: "asc_open (Suc p) ?a1" using Cons.prems(1) by (simp add: asc_open_def)
  obtain a' where a': "asc_receive (hex_text bs) ?a1 = Inr a'" "asc_open (Suc p + length bs) a'"
    "ucMBLFCharacter a' = ucMBLFCharacter ?a1" "ucASCIIBuf a' = take (Suc p) (ucASCIIBuf ?a1) @ bs @ drop (Suc p + length bs) (ucASCIIBuf ?a1)"
    using Cons.IH[OF o] Cons.prems(2) by auto
  have "take (Suc p) ((ucASCIIBuf a)[p := b]) = take p (ucASCIIBuf a) @ [b]" using l by (simp add: take_Suc_conv_app_nth)
  then show ?case
    using a' receive_byte[OF Cons.prems(1) l(2), of b] by (simp add: asc_receive_append)
qed auto

section \<open>Properties\<close>

text \<open>Fact: what the transmitter puts on the line for a response, the receiver of another station takes for a frame with
  the same address and body.\<close>

theorem ascii_frame_roundtrip:
  assumes "a_rcv s = ASC_RX_IDLE" "length (ucASCIIBuf s) = 256" "take (length pdu) (drop 1 (ucASCIIBuf s)) = pdu"
    "1 \<le> length pdu" "length pdu \<le> 253" "a_snd r = ASC_TX_IDLE" "a_rcv r = ASC_RX_IDLE" "length (ucASCIIBuf r) = 256"
    "ucMBLFCharacter r = ucMBLFCharacter s"
  shows "\<exists>s1 s2 line r'. eMBASCIISend s adr 1 (of_nat (length pdu)) = Inr (MB_ENOERR, s1) \<and>
    asc_transmit s1 = Inr (s2, line) \<and> port_event s2 = Some EV_FRAME_SENT \<and>
    asc_receive line r = Inr r' \<and> port_event r' = Some EV_FRAME_RECEIVED \<and>
    eMBASCIIReceive r' = Inr (MB_ENOERR, Some (adr, 1, of_nat (length pdu))) \<and>
    take (length pdu) (drop 1 (ucASCIIBuf r')) = pdu"
proof -
  let ?n = "length pdu"
  define fr where "fr = (adr # pdu) @ [prvucMBLRC (adr # pdu)]"
  have lf: "length fr = ?n + 2" by (simp add: fr_def)
  have cnt: "unat (1 + of_nat ?n :: USHORT) = Suc ?n" using count_nat[of "Suc ?n"] assms(5) by simp
  obtain x bs where buf: "ucASCIIBuf s = x # bs" using assms(2) by (cases "ucASCIIBuf s") auto
  have pdu: "take ?n bs = pdu" using assms(3) buf by simp
  let ?buf = "(adr # bs)[Suc ?n := prvucMBLRC (adr # pdu)]"
  have tk: "take (Suc ?n) (adr # bs) = adr # pdu" using pdu by simp
  let ?s1 = "s\<lparr>a_cur := 0, a_count := 1 + of_nat ?n + 1, ucASCIIBuf := ?buf, a_snd := ASC_TX_START, port_rx := False, port_tx := True\<rparr>"
  have send: "eMBASCIISend s adr 1 (of_nat ?n) = Inr (MB_ENOERR, ?s1)"
    using assms(1,2,5) buf cnt tk by (simp add: eMBASCIISend_def buf_put_def Let_def)
  have frame: "take (length fr) ?buf = fr"
  proof -
    have "take (Suc (Suc ?n)) ?buf = take (Suc ?n) ?buf @ [?buf ! Suc ?n]"
      using assms(2,5) buf by (intro take_Suc_conv_app_nth) simp
    then show ?thesis using tk assms(2,5) buf by (simp add: lf fr_def)
  qed
  let ?s2 = "?s1\<lparr>a_snd := ASC_TX_DATA, eBytePos := BYTE_HIGH_NIBBLE\<rparr>"
  have "\<exists>a'. asc_transmit ?s2 = Inr (a', hex_text fr @ [MB_ASCII_DEFAULT_CR, ucMBLFCharacter ?s2]) \<and>
     port_event a' = Some EV_FRAME_SENT \<and> port_rx a' \<and> \<not> port_tx a' \<and> a_snd a' = ASC_TX_IDLE"
    by (rule transmit_data) (use assms(1,5) frame lf in simp_all)
  then obtain s2 where s2: "asc_transmit ?s2 = Inr (s2, hex_text fr @ [MB_ASCII_DEFAULT_CR, ucMBLFCharacter s])"
    "port_event s2 = Some EV_FRAME_SENT" by auto
  have t: "asc_transmit ?s1 = Inr (s2, ASCII_COLON # hex_text fr @ [MB_ASCII_DEFAULT_CR, ucMBLFCharacter s])"
    using transmit_step[of ?s1, OF _ _ s2(1)] assms(1) by (simp add: xMBASCIITransmitFSM_def)
  let ?r1 = "r\<lparr>port_timer := True, a_rcvpos := 0, eBytePos := BYTE_HIGH_NIBBLE, a_rcv := ASC_RX_RCV\<rparr>"
  have r1: "xMBASCIIReceiveFSM ASCII_COLON r = Inr ?r1" using assms(6,7) by (simp add: xMBASCIIReceiveFSM_def)
  have "asc_open 0 ?r1" using assms(6,8) by (simp add: asc_open_def)
  from receive_text[OF this, of fr] lf assms(5) obtain r2 where r2: "asc_receive (hex_text fr) ?r1 = Inr r2"
    "asc_open (length fr) r2" "ucMBLFCharacter r2 = ucMBLFCharacter s" "ucASCIIBuf r2 = fr @ drop (length fr) (ucASCIIBuf r)"
    using assms(9) by auto
  let ?r3 = "r2\<lparr>port_timer := False, a_rcv := ASC_RX_IDLE, port_event := Some EV_FRAME_RECEIVED\<rparr>"
  have "asc_receive [MB_ASCII_DEFAULT_CR, ucMBLFCharacter s] r2 = Inr ?r3"
    using r2(2,3) by (simp add: asc_open_def xMBASCIIReceiveFSM_def MB_ASCII_DEFAULT_CR_def ASCII_COLON_def Let_def)
  then have rcv: "asc_receive (ASCII_COLON # hex_text fr @ [MB_ASCII_DEFAULT_CR, ucMBLFCharacter s]) r = Inr ?r3"
    using r1 r2(1) by (simp add: asc_receive_append)
  have pos: "unat (a_rcvpos ?r3) = ?n + 2" "a_rcvpos ?r3 - 1 - 1 = of_nat ?n"
    using r2(2) lf count_nat[of "?n + 2"] assms(5) by (simp_all add: asc_open_def)
  have "take (?n + 2) (ucASCIIBuf ?r3) = fr" using r2(4) lf by simp
  then have "eMBASCIIReceive ?r3 = Inr (MB_ENOERR, Some (adr, 1, of_nat ?n))"
    using pos lrc_zero[of "adr # pdu"] assms(4,5) r2(4)
    by (simp add: eMBASCIIReceive_def ASCII_PDU_SIZE_MAX_def ASCII_PDU_SIZE_MIN_def fr_def)
  moreover have "take ?n (drop 1 (ucASCIIBuf ?r3)) = pdu" using r2(4) by (simp add: fr_def)
  ultimately show ?thesis using send t s2(2) rcv by auto
qed

end
