(* ===== verification/MbCoils.thy ===== *)
theory MbCoils
  imports MbFunc
begin

text \<open>
  The function handlers that the configuration leaves out: coils (\<open>mbfunccoils.c\<close>), discrete inputs
  (\<open>mbfuncdisc.c\<close>) and the combined read and write of holding registers (\<open>mbfuncholding.c\<close>). They call the
  callbacks of the application without a context; the callback is an argument, with a state of its own.
\<close>

type_synonym 's mb_callback =
  "'s \<Rightarrow> UCHAR list \<Rightarrow> nat \<Rightarrow> USHORT \<Rightarrow> USHORT \<Rightarrow> eMBRegisterMode \<Rightarrow> (eMBErrorCode \<times> 's \<times> UCHAR list) res"

type_synonym 's disc_callback =
  "'s \<Rightarrow> UCHAR list \<Rightarrow> nat \<Rightarrow> USHORT \<Rightarrow> USHORT \<Rightarrow> (eMBErrorCode \<times> 's \<times> UCHAR list) res"

type_synonym 's bit_result = "(eMBException \<times> 's \<times> UCHAR list \<times> USHORT) res"

definition MB_PDU_FUNC_READ_COILCNT_MAX :: USHORT where
  "MB_PDU_FUNC_READ_COILCNT_MAX = 0x07D0"

definition MB_PDU_FUNC_READ_DISCCNT_MAX :: USHORT where
  "MB_PDU_FUNC_READ_DISCCNT_MAX = 0x07D0"

definition MB_PDU_FUNC_WRITE_MUL_COILCNT_MAX :: USHORT where
  "MB_PDU_FUNC_WRITE_MUL_COILCNT_MAX = 0x07B0"

text \<open>The bytes that hold a number of bits.\<close>

definition bit_bytes :: "USHORT \<Rightarrow> UCHAR" where
  "bit_bytes n = (if n AND 7 \<noteq> 0 then ucast (n div 8 + 1) else ucast (n div 8))"

section \<open>Coils\<close>

definition eMBFuncReadCoils :: "'s mb_callback \<Rightarrow> 's \<Rightarrow> UCHAR list \<Rightarrow> USHORT \<Rightarrow> 's bit_result" where
  "eMBFuncReadCoils coils_cb s pucFrame usLen =
     (if usLen = 5
      then (let usRegAddress = frame_ushort pucFrame 1 + 1; usCoilCount = frame_ushort pucFrame 3
            in if usCoilCount \<ge> 1 \<and> usCoilCount < MB_PDU_FUNC_READ_COILCNT_MAX
               then (let ucNBytes = bit_bytes usCoilCount; frame1 = pucFrame[0 := 1, 1 := ucNBytes]
                     in bind_res (coils_cb s frame1 2 usRegAddress usCoilCount MB_REG_READ) (\<lambda>(eRegStatus, s', frame').
                          if eRegStatus \<noteq> MB_ENOERR then Inr (prveMBError2Exception eRegStatus, s', frame', 2)
                          else Inr (MB_EX_NONE, s', frame', 2 + ucast ucNBytes)))
               else Inr (MB_EX_ILLEGAL_DATA_VALUE, s, pucFrame, usLen))
      else Inr (MB_EX_ILLEGAL_DATA_VALUE, s, pucFrame, usLen))"

text \<open>The value goes to the callback in an array of its own.\<close>

definition eMBFuncWriteCoil :: "'s mb_callback \<Rightarrow> 's \<Rightarrow> UCHAR list \<Rightarrow> USHORT \<Rightarrow> 's bit_result" where
  "eMBFuncWriteCoil coils_cb s pucFrame usLen =
     (if usLen = 5
      then (let usRegAddress = frame_ushort pucFrame 1 + 1
            in if pucFrame ! 4 = 0 \<and> (pucFrame ! 3 = 0xFF \<or> pucFrame ! 3 = 0)
               then bind_res (coils_cb s [if pucFrame ! 3 = 0xFF then 1 else 0, 0] 0 usRegAddress 1 MB_REG_WRITE)
                      (\<lambda>(eRegStatus, s', buf).
                         Inr (if eRegStatus \<noteq> MB_ENOERR then prveMBError2Exception eRegStatus else MB_EX_NONE, s', pucFrame, usLen))
               else Inr (MB_EX_ILLEGAL_DATA_VALUE, s, pucFrame, usLen))
      else Inr (MB_EX_ILLEGAL_DATA_VALUE, s, pucFrame, usLen))"

definition eMBFuncWriteMultipleCoils :: "'s mb_callback \<Rightarrow> 's \<Rightarrow> UCHAR list \<Rightarrow> USHORT \<Rightarrow> 's bit_result" where
  "eMBFuncWriteMultipleCoils coils_cb s pucFrame usLen =
     (if usLen > 5
      then (let usRegAddress = frame_ushort pucFrame 1 + 1; usCoilCnt = frame_ushort pucFrame 3;
                ucByteCount = pucFrame ! 5; ucByteCountVerify = bit_bytes usCoilCnt
            in if usCoilCnt \<ge> 1 \<and> usCoilCnt \<le> MB_PDU_FUNC_WRITE_MUL_COILCNT_MAX \<and> ucByteCountVerify = ucByteCount
               then bind_res (coils_cb s pucFrame 6 usRegAddress usCoilCnt MB_REG_WRITE) (\<lambda>(eRegStatus, s', frame').
                      if eRegStatus \<noteq> MB_ENOERR then Inr (prveMBError2Exception eRegStatus, s', frame', usLen)
                      else Inr (MB_EX_NONE, s', frame', 5))
               else Inr (MB_EX_ILLEGAL_DATA_VALUE, s, pucFrame, usLen))
      else Inr (MB_EX_ILLEGAL_DATA_VALUE, s, pucFrame, usLen))"

section \<open>Discrete inputs\<close>

definition eMBFuncReadDiscreteInputs :: "'s disc_callback \<Rightarrow> 's \<Rightarrow> UCHAR list \<Rightarrow> USHORT \<Rightarrow> 's bit_result" where
  "eMBFuncReadDiscreteInputs disc_cb s pucFrame usLen =
     (if usLen = 5
      then (let usRegAddress = frame_ushort pucFrame 1 + 1; usDiscreteCnt = frame_ushort pucFrame 3
            in if usDiscreteCnt \<ge> 1 \<and> usDiscreteCnt < MB_PDU_FUNC_READ_DISCCNT_MAX
               then (let ucNBytes = bit_bytes usDiscreteCnt; frame1 = pucFrame[0 := 2, 1 := ucNBytes]
                     in bind_res (disc_cb s frame1 2 usRegAddress usDiscreteCnt) (\<lambda>(eRegStatus, s', frame').
                          if eRegStatus \<noteq> MB_ENOERR then Inr (prveMBError2Exception eRegStatus, s', frame', 2)
                          else Inr (MB_EX_NONE, s', frame', 2 + ucast ucNBytes)))
               else Inr (MB_EX_ILLEGAL_DATA_VALUE, s, pucFrame, usLen))
      else Inr (MB_EX_ILLEGAL_DATA_VALUE, s, pucFrame, usLen))"

section \<open>Read and write of registers\<close>

text \<open>A request that is too short is answered by itself: there is no branch for it.\<close>

definition eMBFuncReadWriteMultipleHoldingRegister :: "'s mb_callback \<Rightarrow> 's \<Rightarrow> UCHAR list \<Rightarrow> USHORT \<Rightarrow> 's bit_result" where
  "eMBFuncReadWriteMultipleHoldingRegister holding_cb s pucFrame usLen =
     (if usLen \<ge> 10
      then (let usRegReadAddress = frame_ushort pucFrame 1 + 1; usRegReadCount = frame_ushort pucFrame 3;
                usRegWriteAddress = frame_ushort pucFrame 5 + 1; usRegWriteCount = frame_ushort pucFrame 7;
                ucRegWriteByteCount = pucFrame ! 9
            in if usRegReadCount \<ge> 1 \<and> usRegReadCount \<le> 0x7D \<and> usRegWriteCount \<ge> 1 \<and> usRegWriteCount \<le> 0x79 \<and>
                  2 * unat usRegWriteCount = unat ucRegWriteByteCount
               then bind_res (holding_cb s pucFrame 10 usRegWriteAddress usRegWriteCount MB_REG_WRITE)
                      (\<lambda>(st, s1, frame1).
                         if st \<noteq> MB_ENOERR then Inr (prveMBError2Exception st, s1, frame1, usLen)
                         else (let frame2 = frame1[0 := 23, 1 := ucast (usRegReadCount * 2)]
                               in bind_res (holding_cb s1 frame2 2 usRegReadAddress usRegReadCount MB_REG_READ)
                                    (\<lambda>(st2, s2, frame3).
                                       if st2 \<noteq> MB_ENOERR then Inr (prveMBError2Exception st2, s2, frame3, 2)
                                       else Inr (MB_EX_NONE, s2, frame3, 2 + 2 * usRegReadCount))))
               else Inr (MB_EX_ILLEGAL_DATA_VALUE, s, pucFrame, usLen))
      else Inr (MB_EX_NONE, s, pucFrame, usLen))"

section \<open>Responses\<close>

text \<open>The number of bytes is the rounded-up eighth of the number of bits.\<close>

lemma div8_up: "(k :: nat) mod 8 = 0 \<Longrightarrow> (k + 7) div 8 = k div 8" "k mod 8 \<noteq> 0 \<Longrightarrow> (k + 7) div 8 = k div 8 + 1"
proof -
  define r where "r = k mod 8"
  have d: "(k + 7) div 8 = k div 8 + (r + 7) div 8" unfolding r_def by (simp add: div_add1_eq[of k 7 8])
  have "r < 8" by (simp add: r_def)
  then have "(r + 7) div 8 = (if r = 0 then 0 else 1)" by (cases r) auto
  then show "k mod 8 = 0 \<Longrightarrow> (k + 7) div 8 = k div 8" "k mod 8 \<noteq> 0 \<Longrightarrow> (k + 7) div 8 = k div 8 + 1"
    unfolding d r_def[symmetric] by simp_all
qed

lemma bit_bytes_count: "n \<le> 0x07D0 \<Longrightarrow> unat (bit_bytes n) = (unat n + 7) div 8"
proof -
  assume "n \<le> 0x07D0"
  then have n: "unat n \<le> 2000" by (simp add: word_le_nat_alt)
  have m: "(n AND 7 \<noteq> 0) \<longleftrightarrow> unat n mod 8 \<noteq> 0"
  proof -
    have "n AND 7 = take_bit 3 n" by (simp add: take_bit_eq_mask mask_eq_exp_minus_1)
    then have "unat (n AND 7) = unat n mod 8" by (simp add: unsigned_take_bit_eq) (simp add: take_bit_eq_mod)
    then show ?thesis by (metis unsigned_0 unsigned_eq_0_iff)
  qed
  have q: "unat (n div 8) = unat n div 8" by (simp add: unat_div)
  show ?thesis
  proof (cases "unat n mod 8 = 0")
    case True
    have "unat (ucast (n div 8) :: UCHAR) = unat n div 8"
      using n q by (simp add: unsigned_ucast_eq take_bit_nat_eq_self)
    moreover have "(unat n + 7) div 8 = unat n div 8" by (rule div8_up(1)[OF True])
    ultimately show ?thesis using True m by (simp add: bit_bytes_def)
  next
    case False
    have "unat (n div 8 + 1) = unat n div 8 + 1" using n q by (subst unat_plus_if') simp
    then have "unat (ucast (n div 8 + 1) :: UCHAR) = unat n div 8 + 1"
      using n by (simp add: unsigned_ucast_eq take_bit_nat_eq_self)
    moreover have "(unat n + 7) div 8 = unat n div 8 + 1" by (rule div8_up(2)[OF False])
    ultimately show ?thesis using False m by (simp add: bit_bytes_def)
  qed
qed

lemma bit_response_length: "n < 0x07D0 \<Longrightarrow> unat (2 + ucast (bit_bytes n) :: USHORT) \<le> 253"
proof -
  assume "n < 0x07D0"
  then have "unat (bit_bytes n) \<le> 250" using bit_bytes_count[of n] by (simp add: word_less_nat_alt word_le_nat_alt)
  then have "unat (ucast (bit_bytes n) :: USHORT) \<le> 250" by (simp add: unsigned_ucast_eq take_bit_nat_eq_self)
  then show ?thesis by (subst unat_plus_if') simp
qed

definition keeps_length :: "(eMBErrorCode \<times> 's \<times> UCHAR list) res \<Rightarrow> UCHAR list \<Rightarrow> bool" where
  "keeps_length r f \<longleftrightarrow> (\<forall>e s' f'. r = Inr (e, s', f') \<longrightarrow> length f' = length f)"

text \<open>Fact: the two reads of bits fit a protocol data unit whenever the callback keeps the frame at its length.\<close>

theorem read_coils_fits:
  assumes "\<And>s f a n. keeps_length (cb s f 2 a n MB_REG_READ) f" "unat usLen \<le> 253"
    "eMBFuncReadCoils cb s f usLen = Inr (ex, s', f', n')"
  shows "unat n' \<le> 253 \<and> length f' = length f"
proof (cases "usLen = 5 \<and> 1 \<le> frame_ushort f 3 \<and> frame_ushort f 3 < 0x07D0")
  case True
  let ?g = "f[0 := 1, 1 := bit_bytes (frame_ushort f 3)]"
  obtain e b where r: "cb s ?g 2 (frame_ushort f 1 + 1) (frame_ushort f 3) MB_REG_READ = Inr (e, s', f')"
    "n' = 2 \<or> n' = 2 + ucast (bit_bytes (frame_ushort f 3))"
    using assms(3) True
    by (auto simp: eMBFuncReadCoils_def MB_PDU_FUNC_READ_COILCNT_MAX_def Let_def bind_res_eq_Inr split: if_splits)
  then show ?thesis using bit_response_length True assms(1)[of s ?g] by (auto simp: keeps_length_def)
next
  case False
  then show ?thesis
    using assms(2,3) by (auto simp: eMBFuncReadCoils_def MB_PDU_FUNC_READ_COILCNT_MAX_def Let_def split: if_splits)
qed

theorem read_discrete_fits:
  assumes "\<And>s f a n. keeps_length (cb s f 2 a n) f" "unat usLen \<le> 253"
    "eMBFuncReadDiscreteInputs cb s f usLen = Inr (ex, s', f', n')"
  shows "unat n' \<le> 253 \<and> length f' = length f"
proof (cases "usLen = 5 \<and> 1 \<le> frame_ushort f 3 \<and> frame_ushort f 3 < 0x07D0")
  case True
  let ?g = "f[0 := 2, 1 := bit_bytes (frame_ushort f 3)]"
  obtain e b where r: "cb s ?g 2 (frame_ushort f 1 + 1) (frame_ushort f 3) = Inr (e, s', f')"
    "n' = 2 \<or> n' = 2 + ucast (bit_bytes (frame_ushort f 3))"
    using assms(3) True
    by (auto simp: eMBFuncReadDiscreteInputs_def MB_PDU_FUNC_READ_DISCCNT_MAX_def Let_def bind_res_eq_Inr split: if_splits)
  then show ?thesis using bit_response_length True assms(1)[of s ?g] by (auto simp: keeps_length_def)
next
  case False
  then show ?thesis
    using assms(2,3) by (auto simp: eMBFuncReadDiscreteInputs_def MB_PDU_FUNC_READ_DISCCNT_MAX_def Let_def split: if_splits)
qed

text \<open>The callback of \<open>mbs.c\<close> refuses every coil, so the simulator answers each of them with the exception for an
  illegal address.\<close>

definition mbs_coils :: "'s mb_callback" where
  "mbs_coils s f off a n m = (case eMBRegCoilsCB f of (e, f') \<Rightarrow> Inr (e, s, f'))"

lemma mbs_coils_refused:
  "5 < usLen \<Longrightarrow> frame_ushort f 3 \<ge> 1 \<Longrightarrow> frame_ushort f 3 \<le> 0x07B0 \<Longrightarrow> f ! 5 = bit_bytes (frame_ushort f 3) \<Longrightarrow>
   eMBFuncWriteMultipleCoils mbs_coils s f usLen = Inr (MB_EX_ILLEGAL_DATA_ADDRESS, s, f, usLen)"
  by (simp add: eMBFuncWriteMultipleCoils_def mbs_coils_def eMBRegCoilsCB_def MB_PDU_FUNC_WRITE_MUL_COILCNT_MAX_def Let_def)

end
