(* ===== verification/LibModbusServer.thy ===== *)
theory LibModbusServer
  imports LibModbusFrames
begin

text \<open>
  The server side of libmodbus: the mapping of bits and registers (\<open>modbus_mapping_new\<close>), the analysis of a request and
  the response to it (\<open>modbus_reply\<close>, \<open>modbus_reply_exception\<close> of \<open>modbus.c\<close>), the bit functions of \<open>modbus-data.c\<close>, and the
  remaining requests of the client (raw requests, write and read in one request, the report of the slave id). Client and
  server are then put at the two ends of a line.
\<close>

section \<open>Mapping\<close>

text \<open>The counts of the structure are the lengths of its arrays.\<close>

record mapping_t =
  tab_bits :: "UCHAR list"
  tab_input_bits :: "UCHAR list"
  tab_registers :: "USHORT list"
  tab_input_registers :: "USHORT list"

text \<open>One array: no memory is needed for none, a negative size is refused, and the array is cleared.\<close>

definition table_new :: "bool \<Rightarrow> int \<Rightarrow> 'a::zero list option" where
  "table_new mem nb = (if nb = 0 then Some [] else if nb < 0 \<or> \<not> mem then None else Some (replicate (nat nb) 0))"

text \<open>The answers of the five calls of \<open>malloc\<close>.\<close>

definition modbus_mapping_new :: "(nat \<Rightarrow> bool) \<Rightarrow> int \<Rightarrow> int \<Rightarrow> int \<Rightarrow> int \<Rightarrow> mapping_t option" where
  "modbus_mapping_new mem nb_bits nb_input_bits nb_registers nb_input_registers =
     (if \<not> mem 0 then None
      else case table_new (mem 1) nb_bits of None \<Rightarrow> None
      | Some b \<Rightarrow> (case table_new (mem 2) nb_input_bits of None \<Rightarrow> None
      | Some ib \<Rightarrow> (case table_new (mem 3) nb_registers of None \<Rightarrow> None
      | Some r \<Rightarrow> (case table_new (mem 4) nb_input_registers of None \<Rightarrow> None
      | Some ir \<Rightarrow> Some \<lparr>tab_bits = b, tab_input_bits = ib, tab_registers = r, tab_input_registers = ir\<rparr>))))"

section \<open>Bits and bytes\<close>

text \<open>The bits of a table packed into bytes; \<open>byte\<close> and \<open>shift\<close> are the byte under construction.\<close>

fun io_status :: "nat \<Rightarrow> UCHAR \<Rightarrow> UCHAR list \<Rightarrow> UCHAR list" where
  "io_status shift byte [] = (if shift \<noteq> 0 then [byte] else [])"
| "io_status shift byte (b # bs) =
     (let byte' = byte OR push_bit shift b
      in if shift = 7 then byte' # io_status 0 0 bs else io_status (shift + 1) byte' bs)"

definition response_io_status :: "nat \<Rightarrow> nat \<Rightarrow> UCHAR list \<Rightarrow> UCHAR list \<Rightarrow> UCHAR list" where
  "response_io_status address nb tab_io_status rsp = rsp @ io_status 0 0 (take nb (drop address tab_io_status))"

definition modbus_set_bits_from_byte :: "UCHAR list \<Rightarrow> nat \<Rightarrow> UCHAR \<Rightarrow> UCHAR list res" where
  "modbus_set_bits_from_byte dest index value =
     (if index + 8 > length dest then Inl Buffer_overflow
      else Inr (take index dest @ map (\<lambda>i. of_bool (bit value i)) [0..<8] @ drop (index + 8) dest))"

definition modbus_set_bits_from_bytes :: "UCHAR list \<Rightarrow> nat \<Rightarrow> nat \<Rightarrow> UCHAR list \<Rightarrow> UCHAR list res" where
  "modbus_set_bits_from_bytes dest index nb_bits tab_byte =
     (if index + nb_bits > length dest \<or> nb_bits > 8 * length tab_byte then Inl Buffer_overflow
      else Inr (take index dest @ map (\<lambda>i. of_bool (bit (tab_byte ! (i div 8)) (i mod 8))) [0..<nb_bits]
                @ drop (index + nb_bits) dest))"

definition modbus_get_byte_from_bits :: "UCHAR list \<Rightarrow> nat \<Rightarrow> nat \<Rightarrow> UCHAR res" where
  "modbus_get_byte_from_bits src index nb_bits =
     (if nb_bits > 8 then Inl Assert_failed
      else if index + nb_bits > length src then Inl Buffer_overflow
      else Inr (foldl (\<lambda>value i. value OR push_bit i (src ! (index + i))) 0 [0..<nb_bits]))"

section \<open>Responses\<close>

text \<open>
  The header of a response; the length of a TCP header is filled in when it is sent. In RTU mode a request for another
  station is ignored.
\<close>

definition build_response_basis :: "modbus_backend_t \<Rightarrow> USHORT \<Rightarrow> UCHAR \<Rightarrow> UCHAR \<Rightarrow> UCHAR list" where
  "build_response_basis bk t_id slave fc =
     (if bk = TCP_BACKEND then [hi_byte t_id, lo_byte t_id, 0, 0, 0, 0, slave, fc] else [slave, fc])"

definition prepare_response_tid :: "modbus_backend_t \<Rightarrow> UCHAR list \<Rightarrow> nat \<Rightarrow> USHORT \<times> nat" where
  "prepare_response_tid bk req req_length =
     (if bk = TCP_BACKEND then (mk_ushort (req ! 0) (req ! 1), req_length) else (0, req_length - 2))"

definition MODBUS_BROADCAST_ADDRESS :: int where
  "MODBUS_BROADCAST_ADDRESS = 0"

definition filter_request :: "modbus_t \<Rightarrow> int \<Rightarrow> bool" where
  "filter_request ctx slave \<longleftrightarrow>
     mc_backend ctx \<noteq> TCP_BACKEND \<and> slave \<noteq> mc_slave ctx \<and> slave \<noteq> MODBUS_BROADCAST_ADDRESS"

definition MODBUS_EXCEPTION_ILLEGAL_FUNCTION :: UCHAR where
  "MODBUS_EXCEPTION_ILLEGAL_FUNCTION = 1"

definition MODBUS_EXCEPTION_ILLEGAL_DATA_ADDRESS :: UCHAR where
  "MODBUS_EXCEPTION_ILLEGAL_DATA_ADDRESS = 2"

definition MODBUS_EXCEPTION_ILLEGAL_DATA_VALUE :: UCHAR where
  "MODBUS_EXCEPTION_ILLEGAL_DATA_VALUE = 3"

text \<open>What the cases of \<open>modbus_reply\<close> share: the request with its length, and the parts of its header.\<close>

record request_t =
  rq_backend :: modbus_backend_t
  rq_bytes :: "UCHAR list"
  rq_length :: nat
  rq_tid :: USHORT
  rq_slave :: UCHAR
  rq_function :: UCHAR

definition rq_basis :: "request_t \<Rightarrow> UCHAR list" where
  "rq_basis q = build_response_basis (rq_backend q) (rq_tid q) (rq_slave q) (rq_function q)"

definition response_exception :: "request_t \<Rightarrow> UCHAR \<Rightarrow> UCHAR list" where
  "response_exception q exception_code =
     build_response_basis (rq_backend q) (rq_tid q) (rq_slave q) (rq_function q + 0x80) @ [exception_code]"

definition rq_ushort :: "request_t \<Rightarrow> nat \<Rightarrow> nat" where
  "rq_ushort q i = (let off = header_length (rq_backend q) in unat (mk_ushort (rq_bytes q ! (off + i)) (rq_bytes q ! (off + i + 1))))"

definition reply_read_bits :: "request_t \<Rightarrow> UCHAR list \<Rightarrow> UCHAR list" where
  "reply_read_bits q tab =
     (let address = rq_ushort q 1; nb = rq_ushort q 3
      in if nb < 1 \<or> 2000 < nb then response_exception q MODBUS_EXCEPTION_ILLEGAL_DATA_VALUE
         else if address + nb > length tab then response_exception q MODBUS_EXCEPTION_ILLEGAL_DATA_ADDRESS
         else response_io_status address nb tab (rq_basis q @ [of_nat (nb div 8 + (if nb mod 8 \<noteq> 0 then 1 else 0))]))"

definition reply_read_registers :: "request_t \<Rightarrow> USHORT list \<Rightarrow> UCHAR list" where
  "reply_read_registers q tab =
     (let address = rq_ushort q 1; nb = rq_ushort q 3
      in if nb < 1 \<or> 125 < nb then response_exception q MODBUS_EXCEPTION_ILLEGAL_DATA_VALUE
         else if address + nb > length tab then response_exception q MODBUS_EXCEPTION_ILLEGAL_DATA_ADDRESS
         else rq_basis q @ [of_nat (2 * nb)] @ concat (map (\<lambda>r. [hi_byte r, lo_byte r]) (take nb (drop address tab))))"

text \<open>A single write is answered by the request without its checksum.\<close>

definition reply_write_bit :: "request_t \<Rightarrow> mapping_t \<Rightarrow> UCHAR list \<times> mapping_t" where
  "reply_write_bit q mp =
     (let address = rq_ushort q 1; data = rq_ushort q 3
      in if address \<ge> length (tab_bits mp) then (response_exception q MODBUS_EXCEPTION_ILLEGAL_DATA_ADDRESS, mp)
         else if data = 0xFF00 \<or> data = 0
         then (take (rq_length q) (rq_bytes q), mp\<lparr>tab_bits := (tab_bits mp)[address := of_bool (data \<noteq> 0)]\<rparr>)
         else (response_exception q MODBUS_EXCEPTION_ILLEGAL_DATA_VALUE, mp))"

definition reply_write_register :: "request_t \<Rightarrow> mapping_t \<Rightarrow> UCHAR list \<times> mapping_t" where
  "reply_write_register q mp =
     (let address = rq_ushort q 1; data = rq_ushort q 3
      in if address \<ge> length (tab_registers mp) then (response_exception q MODBUS_EXCEPTION_ILLEGAL_DATA_ADDRESS, mp)
         else (take (rq_length q) (rq_bytes q), mp\<lparr>tab_registers := (tab_registers mp)[address := of_nat data]\<rparr>))"

text \<open>
  The values of a multiple write are taken from where they have to be in the array; neither the byte count nor the length
  of the request is looked at. The response repeats address and count.
\<close>

definition rq_echo :: "request_t \<Rightarrow> UCHAR list" where
  "rq_echo q = rq_basis q @ take 4 (drop (length (rq_basis q)) (rq_bytes q))"

definition reply_write_bits :: "request_t \<Rightarrow> mapping_t \<Rightarrow> (UCHAR list \<times> mapping_t) res" where
  "reply_write_bits q mp =
     (let address = rq_ushort q 1; nb = rq_ushort q 3
      in if nb < 1 \<or> 1968 < nb then Inr (response_exception q MODBUS_EXCEPTION_ILLEGAL_DATA_VALUE, mp)
         else if address + nb > length (tab_bits mp) then Inr (response_exception q MODBUS_EXCEPTION_ILLEGAL_DATA_ADDRESS, mp)
         else bind_res (modbus_set_bits_from_bytes (tab_bits mp) address nb
                  (drop (header_length (rq_backend q) + 6) (rq_bytes q)))
                (\<lambda>bits. Inr (rq_echo q, mp\<lparr>tab_bits := bits\<rparr>)))"

text \<open>The registers that start at position \<open>j\<close> behind the header.\<close>

definition rq_registers :: "request_t \<Rightarrow> nat \<Rightarrow> nat \<Rightarrow> USHORT list res" where
  "rq_registers q j nb =
     (if header_length (rq_backend q) + j + 2 * nb > length (rq_bytes q) then Inl Buffer_overflow
      else Inr (map (\<lambda>k. of_nat (rq_ushort q (j + 2 * k))) [0..<nb]))"

definition store_registers :: "nat \<Rightarrow> USHORT list \<Rightarrow> mapping_t \<Rightarrow> mapping_t" where
  "store_registers address rs mp =
     mp\<lparr>tab_registers := take address (tab_registers mp) @ rs @ drop (address + length rs) (tab_registers mp)\<rparr>"

definition reply_write_registers :: "request_t \<Rightarrow> mapping_t \<Rightarrow> (UCHAR list \<times> mapping_t) res" where
  "reply_write_registers q mp =
     (let address = rq_ushort q 1; nb = rq_ushort q 3
      in if nb < 1 \<or> 123 < nb then Inr (response_exception q MODBUS_EXCEPTION_ILLEGAL_DATA_VALUE, mp)
         else if address + nb > length (tab_registers mp) then Inr (response_exception q MODBUS_EXCEPTION_ILLEGAL_DATA_ADDRESS, mp)
         else bind_res (rq_registers q 6 nb) (\<lambda>rs. Inr (rq_echo q, store_registers address rs mp)))"

definition LIBMODBUS_VERSION_STRING :: string where
  "LIBMODBUS_VERSION_STRING = ''3.0.6''"

definition reply_report_slave_id :: "request_t \<Rightarrow> UCHAR list" where
  "reply_report_slave_id q =
     (let body = [180, 0xFF] @ map (\<lambda>ch. of_nat (of_char ch)) (''LMB'' @ LIBMODBUS_VERSION_STRING)
      in rq_basis q @ [of_nat (length body)] @ body)"

definition reply_write_and_read :: "request_t \<Rightarrow> mapping_t \<Rightarrow> (UCHAR list \<times> mapping_t) res" where
  "reply_write_and_read q mp =
     (let address = rq_ushort q 1; nb = rq_ushort q 3; address_write = rq_ushort q 5; nb_write = rq_ushort q 7;
          nb_write_bytes = unat (rq_bytes q ! (header_length (rq_backend q) + 9))
      in if nb_write < 1 \<or> 121 < nb_write \<or> nb < 1 \<or> 125 < nb \<or> nb_write_bytes \<noteq> nb_write * 2
         then Inr (response_exception q MODBUS_EXCEPTION_ILLEGAL_DATA_VALUE, mp)
         else if address + nb > length (tab_registers mp) \<or> address_write + nb_write > length (tab_registers mp)
         then Inr (response_exception q MODBUS_EXCEPTION_ILLEGAL_DATA_ADDRESS, mp)
         else bind_res (rq_registers q 10 nb_write) (\<lambda>rs.
                let mp' = store_registers address_write rs mp
                in Inr (rq_basis q @ [of_nat (2 * nb)]
                          @ concat (map (\<lambda>r. [hi_byte r, lo_byte r]) (take nb (drop address (tab_registers mp')))), mp')))"

text \<open>The response to a request; the status of the exceptions is not implemented.\<close>

definition build_response :: "request_t \<Rightarrow> mapping_t \<Rightarrow> (UCHAR list option \<times> mapping_t) res" where
  "build_response q mp =
     (let fc = rq_function q; answer = \<lambda>(rsp, mp'). Inr (Some rsp, mp')
      in if fc = 0x01 then Inr (Some (reply_read_bits q (tab_bits mp)), mp)
         else if fc = 0x02 then Inr (Some (reply_read_bits q (tab_input_bits mp)), mp)
         else if fc = 0x03 then Inr (Some (reply_read_registers q (tab_registers mp)), mp)
         else if fc = 0x04 then Inr (Some (reply_read_registers q (tab_input_registers mp)), mp)
         else if fc = 0x05 then answer (reply_write_bit q mp)
         else if fc = 0x06 then answer (reply_write_register q mp)
         else if fc = 0x0F then bind_res (reply_write_bits q mp) answer
         else if fc = 0x10 then bind_res (reply_write_registers q mp) answer
         else if fc = 0x11 then Inr (Some (reply_report_slave_id q), mp)
         else if fc = 0x07 then Inr (None, mp)
         else if fc = 0x17 then bind_res (reply_write_and_read q mp) answer
         else Inr (Some (response_exception q MODBUS_EXCEPTION_ILLEGAL_FUNCTION), mp))"

definition request_of :: "modbus_t \<Rightarrow> UCHAR list \<Rightarrow> nat \<Rightarrow> request_t" where
  "request_of ctx req req_length =
     (let bk = mc_backend ctx; off = header_length bk; (t_id, n) = prepare_response_tid bk req req_length
      in \<lparr>rq_backend = bk, rq_bytes = req, rq_length = n, rq_tid = t_id, rq_slave = req ! (off - 1), rq_function = req ! off\<rparr>)"

text \<open>\<open>req\<close> is the array that the caller received the request into; \<open>req_length\<close> bytes of it are the request.\<close>

definition modbus_reply ::
  "'s link \<Rightarrow> modbus_t \<Rightarrow> UCHAR list \<Rightarrow> nat \<Rightarrow> mapping_t \<Rightarrow> 's wire \<Rightarrow> (int reply \<times> mapping_t \<times> 's wire) res" where
  "modbus_reply link ctx req req_length mb_mapping w =
     (let q = request_of ctx req req_length
      in if filter_request ctx (int (unat (rq_slave q))) then Inr (Inr 0, mb_mapping, w)
         else bind_res (build_response q mb_mapping) (\<lambda>(rsp, mp).
                case rsp of
                  None \<Rightarrow> Inr (Inl ENOPROTOOPT, mp, w)
                | Some m \<Rightarrow> bind_res (send_msg link (mc_backend ctx) m w) (\<lambda>(r, _, w'). Inr (r, mp, w'))))"

definition modbus_reply_exception ::
  "'s link \<Rightarrow> modbus_t \<Rightarrow> UCHAR list \<Rightarrow> nat \<Rightarrow> 's wire \<Rightarrow> (int reply \<times> 's wire) res" where
  "modbus_reply_exception link ctx req exception_code w =
     (let q = request_of ctx req 99
      in if filter_request ctx (int (unat (rq_slave q))) then Inr (Inr 0, w)
         else if exception_code < MODBUS_EXCEPTION_MAX
         then bind_res (send_msg link (mc_backend ctx) (response_exception q (of_nat exception_code)) w) (\<lambda>(r, _, w'). Inr (r, w'))
         else Inr (Inl EINVAL, w))"

definition modbus_receive :: "modbus_t \<Rightarrow> pieces \<Rightarrow> UCHAR list reply" where
  "modbus_receive ctx ps = receive_msg (mc_backend ctx) MSG_INDICATION ps"

definition modbus_receive_confirmation :: "modbus_t \<Rightarrow> pieces \<Rightarrow> UCHAR list reply" where
  "modbus_receive_confirmation ctx ps = receive_msg (mc_backend ctx) MSG_CONFIRMATION ps"

section \<open>Further requests\<close>

text \<open>A raw request is copied into an array of 260 bytes without a look at its length.\<close>

definition modbus_send_raw_request :: "'s link \<Rightarrow> modbus_t \<Rightarrow> UCHAR list \<Rightarrow> 's wire \<Rightarrow> (int reply \<times> 's wire) res" where
  "modbus_send_raw_request link ctx raw_req w =
     (if length raw_req < 2 then Inr (Inl EINVAL, w)
      else let req = build_response_basis (mc_backend ctx) 0 (raw_req ! 0) (raw_req ! 1) @ drop 2 raw_req
           in if length req + checksum_length (mc_backend ctx) > 260 then Inl Buffer_overflow
              else bind_res (send_msg link (mc_backend ctx) req w) (\<lambda>(r, _, w'). Inr (r, w')))"

definition modbus_write_and_read_registers ::
  "'s link \<Rightarrow> modbus_t \<Rightarrow> int \<Rightarrow> USHORT list \<Rightarrow> int \<Rightarrow> int \<Rightarrow> 's wire \<Rightarrow> ((int \<times> USHORT list) reply \<times> 's wire) res" where
  "modbus_write_and_read_registers link ctx write_addr src read_addr read_nb w =
     (let write_nb = int (length src)
      in if write_nb > 121 then Inr (Inl EMBMDATA, w)
         else if read_nb > MODBUS_MAX_READ_REGISTERS then Inr (Inl EMBMDATA, w)
         else bind_res (modbus_request link ctx 0x17 read_addr read_nb
                  ([int_hi write_addr, int_lo write_addr, int_hi write_nb, int_lo write_nb, int_lo (write_nb * 2)]
                     @ concat (map (\<lambda>r. [hi_byte r, lo_byte r]) src)) w) (\<lambda>(r, w').
                Inr (map_sum id (\<lambda>(n, rsp). (n, answer_registers (header_length (mc_backend ctx)) rsp (nat n))) r, w')))"

text \<open>The request is a header without address and count.\<close>

definition modbus_report_slave_id :: "'s link \<Rightarrow> modbus_t \<Rightarrow> 's wire \<Rightarrow> ((int \<times> UCHAR list) reply \<times> 's wire) res" where
  "modbus_report_slave_id link ctx w =
     bind_res (build_request_basis (wi_tid w) ctx 0x11 0 0) (\<lambda>(t, req).
     bind_res (exchange link ctx (take (length req - 4) req) (w\<lparr>wi_tid := t\<rparr>)) (\<lambda>(r, w').
       Inr (map_sum id (\<lambda>(n, rsp). (n, take (nat n) (drop (header_length (mc_backend ctx) + 2) rsp))) r, w')))"

section \<open>Packed bits\<close>

lemma length_io_status: "shift < 8 \<Longrightarrow> length (io_status shift byte bs) = (shift + length bs + 7) div 8"
proof (induction bs arbitrary: shift byte)
  case Nil
  then show ?case by (cases shift) auto
next
  case (Cons b bs)
  show ?case
  proof (cases "shift = 7")
    case True
    have "(7 + Suc (length bs) + 7) div 8 = Suc ((length bs + 7) div 8)" by simp
    then show ?thesis using True Cons.IH[of 0] by (simp add: Let_def)
  next
    case False
    then show ?thesis using Cons.IH[of "Suc shift"] Cons.prems by (simp add: Let_def)
  qed
qed

text \<open>The bits come back out of the bytes: first those of the byte under construction, then the rest.\<close>

lemma io_status_unpack:
  "shift < 8 \<Longrightarrow> (\<And>i. shift \<le> i \<Longrightarrow> \<not> bit byte i) \<Longrightarrow>
   take (shift + length bs) (concat (map byte_bits (io_status shift byte (map of_bool bs)))) = map (bit byte) [0..<shift] @ bs"
proof (induction bs arbitrary: shift byte)
  case Nil
  then show ?case by (auto simp: byte_bits_def take_map)
next
  case (Cons b bs)
  let ?byte = "byte OR push_bit shift (of_bool b)"
  have bits: "bit ?byte i = (if i = shift then b else bit byte i)" for i
    using Cons.prems by (auto simp: bit_simps)
  have below: "map (bit ?byte) [0..<shift] = map (bit byte) [0..<shift]" by (simp add: bits)
  show ?case
  proof (cases "shift = 7")
    case True
    have "byte_bits ?byte = map (bit byte) [0..<7] @ [b]"
    proof -
      have "[0..<8] = [0..<7] @ [7::nat]" using upt_add_eq_append[of 0 7 1] by simp
      then show ?thesis using below True bits[of 7] by (simp add: byte_bits_def)
    qed
    then show ?thesis using True Cons.IH[of 0 0] by (simp add: Let_def)
  next
    case False
    have "take (Suc shift + length bs) (concat (map byte_bits (io_status (Suc shift) ?byte (map of_bool bs)))) =
        map (bit ?byte) [0..<Suc shift] @ bs"
      using False Cons.prems by (intro Cons.IH) (auto simp: bits)
    then show ?thesis using False below bits[of shift] by (simp add: Let_def)
  qed
qed

lemma packed_bit:
  "i < 8 * length xs \<Longrightarrow> concat (map byte_bits xs) ! i = bit (xs ! (i div 8)) (i mod 8)"
proof (induction xs arbitrary: i)
  case (Cons x xs)
  have l: "length (byte_bits x) = 8" by (simp add: byte_bits_def)
  show ?case
  proof (cases "i < 8")
    case True
    then show ?thesis using l by (simp add: nth_append) (simp add: byte_bits_def)
  next
    case False
    then have "i div 8 = Suc ((i - 8) div 8)" "i mod 8 = (i - 8) mod 8"
      by (auto simp: le_div_geq le_mod_geq)
    then show ?thesis using False l Cons.IH[of "i - 8"] Cons.prems by (simp add: nth_append)
  qed
qed simp

lemma length_pack_bits: "length bs \<le> 8 * length (pack_bits bs)"
  by (induction bs rule: pack_bits.induct) auto

lemma set_packed_bits:
  assumes "index + length bs \<le> length dest"
  shows "modbus_set_bits_from_bytes dest index (length bs) (pack_bits bs @ tail) =
    Inr (take index dest @ map of_bool bs @ drop (index + length bs) dest)"
proof -
  have "map (\<lambda>i. of_bool (bit ((pack_bits bs @ tail) ! (i div 8)) (i mod 8))) [0..<length bs] = (map of_bool bs :: UCHAR list)"
  proof (rule nth_equalityI)
    fix i assume "i < length (map (\<lambda>i. of_bool (bit ((pack_bits bs @ tail) ! (i div 8)) (i mod 8)) :: UCHAR) [0..<length bs])"
    then have i: "i < length bs" by simp
    then have p: "i < 8 * length (pack_bits bs)" using length_pack_bits[of bs] by simp
    then have d: "i div 8 < length (pack_bits bs)" by (simp add: less_mult_imp_div_less mult.commute)
    have "bs ! i = concat (map byte_bits (pack_bits bs)) ! i"
      using i arg_cong[OF pack_bits_unpack[of bs], of "\<lambda>l. l ! i"] by simp
    then show "map (\<lambda>i. of_bool (bit ((pack_bits bs @ tail) ! (i div 8)) (i mod 8)) :: UCHAR) [0..<length bs] ! i = map of_bool bs ! i"
      using i p d by (simp add: packed_bit nth_append)
  qed simp
  then show ?thesis using assms length_pack_bits[of bs] by (simp add: modbus_set_bits_from_bytes_def)
qed

end
