(* ===== verification/LibModbusPair.thy ===== *)
theory LibModbusPair
  imports LibModbusServer
begin

text \<open>
  Client and server of libmodbus at the two ends of a serial line. The server is a loop of \<open>modbus_receive\<close> and
  \<open>modbus_reply\<close> over one array and one mapping; what the client writes it reads back.
\<close>

section \<open>The server as the other end of a line\<close>

text \<open>A line that takes every response; one turn of the server: receive into the array, reply.\<close>

definition taking_link :: "unit link" where
  "taking_link m s = Inr (\<lparr>an_rc = int (length m), an_in = []\<rparr>, ())"

definition serve :: "UCHAR list \<Rightarrow> modbus_t \<Rightarrow> mapping_t link" where
  "serve arr sctx m mp =
     (case modbus_receive sctx [Some m] of
        Inl e \<Rightarrow> Inr (\<lparr>an_rc = int (length m), an_in = []\<rparr>, mp)
      | Inr req \<Rightarrow> bind_res (modbus_reply taking_link sctx (req @ drop (length req) arr) (length req) mp
                              \<lparr>wi_tid = 0, wi_peer = (), wi_sent = []\<rparr>)
                    (\<lambda>(r, mp', w). Inr (\<lparr>an_rc = int (length m), an_in = map Some (wi_sent w)\<rparr>, mp')))"

definition rtu_slave :: "modbus_t \<Rightarrow> bool" where
  "rtu_slave ctx \<longleftrightarrow> mc_backend ctx = RTU_BACKEND \<and> 0 \<le> mc_slave ctx \<and> mc_slave ctx \<le> 254"

lemma rtu_seal_not_Nil [simp]: "rtu_seal bs \<noteq> []" "length (rtu_seal bs) = length bs + 2"
  by (simp_all add: rtu_seal_def)

lemma send_taking:
  "send_msg taking_link RTU_BACKEND rsp \<lparr>wi_tid = 0, wi_peer = (), wi_sent = []\<rparr> =
    Inr (Inr (int (length rsp) + 2), [], \<lparr>wi_tid = 0, wi_peer = (), wi_sent = [rtu_seal rsp]\<rparr>)"
  by (simp add: send_msg_def taking_link_def send_msg_pre_rtu Let_def)

lemma nonempty_length: "1 \<le> length xs \<Longrightarrow> xs \<noteq> []"
  by auto

lemma unat_int_lo: "0 \<le> n \<Longrightarrow> n < 256 \<Longrightarrow> unat (int_lo n) = nat n"
  by (simp add: int_lo_def unat_eq_nat_uint uint_word_of_int_eq take_bit_eq_mod)

lemma own_slave: "rtu_slave ctx \<Longrightarrow> int (unat (int_lo (mc_slave ctx))) = mc_slave ctx"
  by (simp add: rtu_slave_def unat_int_lo)

lemma serve_rtu:
  assumes "rtu_slave sctx" "rtu_frame_for MSG_INDICATION (rtu_seal (int_lo (mc_slave sctx) # body))"
    "build_response (request_of sctx (rtu_seal (int_lo (mc_slave sctx) # body) @ drop (length body + 3) arr) (length body + 3)) mp =
       Inr (Some rsp, mp')"
  shows "delivers (serve arr sctx) (rtu_seal (int_lo (mc_slave sctx) # body)) mp (rtu_seal rsp) mp'"
proof -
  let ?m = "rtu_seal (int_lo (mc_slave sctx) # body)"
  have "modbus_receive sctx [Some ?m] = Inr ?m"
    using receive_frame[OF assms(2), of "[Some ?m]" "[]"] assms(1)
    by (simp add: modbus_receive_def rtu_slave_def stream_Cons)
  moreover have "?m ! 0 = int_lo (mc_slave sctx)" by (simp add: rtu_seal_def)
  moreover have "rq_slave (request_of sctx (?m @ drop (length body + 3) arr) (length body + 3)) = ?m ! 0"
    using assms(1) by (simp add: request_of_def rtu_slave_def prepare_response_tid_def Let_def rtu_seal_def)
  ultimately have "serve arr sctx ?m mp = Inr (\<lparr>an_rc = int (length ?m), an_in = [Some (rtu_seal rsp)]\<rparr>, mp')"
    using assms(1,3) own_slave[OF assms(1)]
    by (simp add: serve_def modbus_reply_def Let_def filter_request_def send_taking rtu_slave_def numeral_3_eq_3)
  then show ?thesis by (auto simp: delivers_def stream_Cons intro: exI[of _ "[]"])
qed

section \<open>What the server reads in a request\<close>

lemma request_fields:
  assumes "mc_backend sctx = RTU_BACKEND" "q = request_of sctx (rtu_seal (sl # fc # a # b # c # d # payload) @ rest) n"
  shows "rq_ushort q (Suc 0) = unat (mk_ushort a b)" "rq_ushort q 3 = unat (mk_ushort c d)" "rq_function q = fc"
    "rq_basis q = [sl, fc]" "rq_echo q = [sl, fc, a, b, c, d]"
  using assms
  by (simp_all add: request_of_def Let_def prepare_response_tid_def rtu_seal_def rq_ushort_def rq_basis_def rq_echo_def
      build_response_basis_def)

lemma request_registers:
  assumes "mc_backend sctx = RTU_BACKEND"
  shows "rq_registers (request_of sctx (rtu_seal (sl # fc # a # b # c # d # registers_payload rs) @ rest) n) 6 (length rs) = Inr rs"
proof -
  let ?req = "rtu_seal (sl # fc # a # b # c # d # registers_payload rs) @ rest"
  let ?q = "request_of sctx ?req n"
  have q: "rq_bytes ?q = ?req" "rq_backend ?q = RTU_BACKEND"
    using assms by (simp_all add: request_of_def prepare_response_tid_def Let_def)
  have "map (\<lambda>k. of_nat (rq_ushort ?q (6 + 2 * k))) [0..<length rs] = answer_registers 1 (drop 4 ?req) (length rs)"
    unfolding answer_registers_def rq_ushort_def Let_def q
    by (intro map_cong refl) (simp add: rtu_seal_def algebra_simps numeral_eq_Suc)
  also have "\<dots> = rs"
    using answer_registers_bytes[of c d "int_lo (int (length rs) * 2)" rs]
    by (simp add: rtu_seal_def registers_payload_def reg_payload_def)
  finally show ?thesis by (simp add: rq_registers_def q) (simp add: rtu_seal_def registers_payload_def)
qed

lemma request_bits:
  assumes "mc_backend sctx = RTU_BACKEND" "q = request_of sctx (rtu_seal (sl # fc # a # b # c # d # n' # payload) @ rest) n"
  obtains tail where "drop (header_length (rq_backend q) + 6) (rq_bytes q) = payload @ tail"
proof (rule that)
  show "drop (header_length (rq_backend q) + 6) (rq_bytes q) =
      payload @ drop (length payload) (drop (header_length (rq_backend q) + 6) (rq_bytes q))"
    using assms by (simp add: request_of_def prepare_response_tid_def Let_def rtu_seal_def)
qed

section \<open>Registers\<close>

definition registers_at :: "mapping_t \<Rightarrow> int \<Rightarrow> USHORT list \<Rightarrow> bool" where
  "registers_at mp addr rs \<longleftrightarrow> nat addr + length rs \<le> length (tab_registers mp) \<and>
     take (length rs) (drop (nat addr) (tab_registers mp)) = rs"

lemma indication_multiple:
  assumes "fc = 0x0F \<or> fc = 0x10" "unat n' = length payload" "length payload \<le> 246"
  shows "rtu_frame_for MSG_INDICATION (rtu_seal (sl # fc # a # b # c # d # n' # payload))"
proof -
  have "compute_meta_length_after_function fc MSG_INDICATION = 5"
    "compute_data_length_after_meta RTU_BACKEND (sl # fc # a # b # c # d # n' # payload) MSG_INDICATION = length payload + 2"
    using assms by (elim disjE; simp add: frame_length_defs)+
  then show ?thesis using assms(3) by (intro rtu_frame_seal_for) simp_all
qed

lemma indication_write_registers:
  "length rs \<le> 123 \<Longrightarrow> rtu_frame_for MSG_INDICATION (rtu_seal (sl # 0x10 # a # b # c # d # registers_payload rs))"
  unfolding registers_payload_def by (intro indication_multiple) (simp_all add: unat_int_lo nat_mult_distrib)

lemma indication_read:
  assumes "fc = 0x01 \<or> fc = 0x03"
  shows "rtu_frame_for MSG_INDICATION (rtu_seal [sl, fc, a, b, c, d])"
proof -
  have "compute_meta_length_after_function fc MSG_INDICATION = 4"
    "compute_data_length_after_meta RTU_BACKEND [sl, fc, a, b, c, d] MSG_INDICATION = 2"
    using assms by (elim disjE; simp add: frame_length_defs)+
  then show ?thesis by (intro rtu_frame_seal_for) simp_all
qed

lemma pair_writes_registers:
  assumes "rtu_slave sctx" "rtu_master cctx" "mc_slave cctx = mc_slave sctx" "1 \<le> length rs" "length rs \<le> 123"
    "0 \<le> addr" "addr < 65536" "nat addr + length rs \<le> length (tab_registers (wi_peer w))"
  obtains m where "modbus_write_registers (serve arr sctx) cctx addr rs w =
      Inr (Inr (int (length rs)), sent w m (store_registers (nat addr) rs (wi_peer w)))"
proof -
  let ?n = "int (length rs)" and ?sl = "int_lo (mc_slave sctx)"
  let ?body = "0x10 # int_hi addr # int_lo addr # int_hi ?n # int_lo ?n # registers_payload rs"
  have ne: "rs \<noteq> []" using assms(4) by auto
  have bk: "mc_backend sctx = RTU_BACKEND" using assms(1) by (simp add: rtu_slave_def)
  have "build_response (request_of sctx (rtu_seal (?sl # ?body) @ drop (length ?body + 3) arr) (length ?body + 3)) (wi_peer w) =
      Inr (Some [?sl, 0x10, int_hi addr, int_lo addr, int_hi ?n, int_lo ?n], store_registers (nat addr) rs (wi_peer w))"
    using assms(5-8) nonempty_length[OF assms(4)] request_count[of addr] request_count[of ?n]
    by (simp add: build_response_def request_fields[OF bk refl] reply_write_registers_def request_registers[OF bk] Let_def
        bind_res_def)
  then have "delivers (serve arr sctx) (rtu_request cctx 0x10 addr ?n (registers_payload rs)) (wi_peer w)
      (rtu_seal [?sl, 0x10, int_hi addr, int_lo addr, int_hi ?n, int_lo ?n]) (store_registers (nat addr) rs (wi_peer w))"
    using serve_rtu[OF assms(1) indication_write_registers[OF assms(5)]] assms(3) by (simp add: rtu_request_def)
  from write_registers_rtu[OF assms(2,5) this] show ?thesis using that by blast
qed

lemma pair_reads_registers:
  assumes "rtu_slave sctx" "rtu_master cctx" "mc_slave cctx = mc_slave sctx" "1 \<le> length rs" "length rs \<le> 125"
    "0 \<le> addr" "addr < 65536" "registers_at (wi_peer w) addr rs"
  obtains m where "modbus_read_registers (serve arr sctx) cctx addr (int (length rs)) w =
      Inr (Inr (int (length rs), rs), sent w m (wi_peer w))"
proof -
  let ?n = "int (length rs)" and ?sl = "int_lo (mc_slave sctx)"
  let ?body = "[0x03, int_hi addr, int_lo addr, int_hi ?n, int_lo ?n]"
  have ne: "rs \<noteq> []" using assms(4) by auto
  have bk: "mc_backend sctx = RTU_BACKEND" using assms(1) by (simp add: rtu_slave_def)
  have "build_response (request_of sctx (rtu_seal (?sl # ?body) @ drop (length ?body + 3) arr) (length ?body + 3)) (wi_peer w) =
      Inr (Some ([?sl, 0x03, of_nat (2 * length rs)] @ reg_payload rs), wi_peer w)"
    using assms(5-8) nonempty_length[OF assms(4)] request_count[of addr] request_count[of ?n]
    by (simp add: build_response_def request_fields[OF bk refl] reply_read_registers_def registers_at_def reg_payload_def Let_def)
  then have d: "delivers (serve arr sctx) (rtu_request cctx 0x03 addr ?n []) (wi_peer w)
      (rtu_seal ([?sl, 0x03, of_nat (2 * length rs)] @ reg_payload rs)) (wi_peer w)"
    using serve_rtu[OF assms(1) indication_read[of "0x03"]] assms(3) by (simp add: rtu_request_def)
  from read_registers_rtu[OF assms(2) _ assms(4,5) d] show ?thesis
    using assms(5) that by (simp add: modbus_read_registers_def MODBUS_MAX_READ_REGISTERS_def)
qed

lemma store_registers_at:
  "nat addr + length rs \<le> length (tab_registers mp) \<Longrightarrow> registers_at (store_registers (nat addr) rs mp) addr rs"
  by (simp add: registers_at_def store_registers_def)

section \<open>Bits\<close>

definition bits_at :: "mapping_t \<Rightarrow> int \<Rightarrow> bool list \<Rightarrow> bool" where
  "bits_at mp addr bs \<longleftrightarrow> nat addr + length bs \<le> length (tab_bits mp) \<and>
     take (length bs) (drop (nat addr) (tab_bits mp)) = map of_bool bs"

definition bit_bytes_of :: "nat \<Rightarrow> nat" where
  "bit_bytes_of n = n div 8 + (if n mod 8 \<noteq> 0 then 1 else 0)"

lemma pack_bits_bytes: "length (pack_bits bs) = bit_bytes_of (length bs)"
proof (induction bs rule: pack_bits.induct)
  case (2 b bs)
  then show ?case by (cases "length (b # bs) < 8") (auto simp: le_div_geq le_mod_geq bit_bytes_of_def)
qed (simp add: bit_bytes_of_def)

lemma bit_bytes_up: "bit_bytes_of n = (n + 7) div 8"
proof -
  obtain q r where n: "n = 8 * q + r" "r < 8" by (metis mult_div_mod_eq mod_less_divisor zero_less_numeral)
  have "r = 0 \<or> 1 \<le> r" by auto
  then show ?thesis
  proof
    assume "1 \<le> r"
    then have "(n + 7) div 8 = Suc q" using n div_eq_dividend_iff by (intro div_nat_eqI) simp_all
    then show ?thesis using n \<open>1 \<le> r\<close> by (simp add: bit_bytes_of_def)
  qed (use n in \<open>simp add: bit_bytes_of_def\<close>)
qed

lemma bit_bytes_bound: "n \<le> 8 * k \<Longrightarrow> bit_bytes_of n \<le> k"
  unfolding bit_bytes_up by linarith

lemma io_status_bytes: "length (io_status 0 0 bs) = bit_bytes_of (length bs)"
  unfolding bit_bytes_up using length_io_status[of 0 0 bs] by simp

lemma confirm_read_bits:
  assumes "unat (mk_ushort c d) = n" "length data = bit_bytes_of n" "unat cnt = bit_bytes_of n" "n \<le> 2000"
  shows "check_confirmation RTU_BACKEND [sl, 0x01, a, b, c, d] (rtu_seal ([sl', 0x01, cnt] @ data)) = Inr (bit_bytes_of n)"
    and "rtu_frame (rtu_seal ([sl', 0x01, cnt] @ data))"
proof -
  show "check_confirmation RTU_BACKEND [sl, 0x01, a, b, c, d] (rtu_seal ([sl', 0x01, cnt] @ data)) = Inr (bit_bytes_of n)"
    using assms by (auto simp: confirm_defs rtu_seal_def bit_bytes_of_def)
  show "rtu_frame (rtu_seal ([sl', 0x01, cnt] @ data))"
    by (rule rtu_frame_seal) (use assms bit_bytes_bound[of n 250] in \<open>auto simp: frame_length_defs\<close>)
qed

lemma reply_write_bits_stores:
  assumes "rq_ushort q (Suc 0) + length bs \<le> length (tab_bits mp)" "rq_ushort q 3 = length bs" "1 \<le> length bs" "length bs \<le> 1968"
    "drop (header_length (rq_backend q) + 6) (rq_bytes q) = pack_bits bs @ tail"
  shows "reply_write_bits q mp = Inr (rq_echo q, mp\<lparr>tab_bits := take (rq_ushort q (Suc 0)) (tab_bits mp) @ map of_bool bs
      @ drop (rq_ushort q (Suc 0) + length bs) (tab_bits mp)\<rparr>)"
  using assms(1,2,4) nonempty_length[OF assms(3)] set_packed_bits[OF assms(1), of tail] by (simp add: reply_write_bits_def Let_def assms(5))

lemma pair_writes_bits:
  assumes "rtu_slave sctx" "rtu_master cctx" "mc_slave cctx = mc_slave sctx" "1 \<le> length bs" "length bs \<le> 1968"
    "0 \<le> addr" "addr < 65536" "nat addr + length bs \<le> length (tab_bits (wi_peer w))"
  obtains m mp where "modbus_write_bits (serve arr sctx) cctx addr bs w = Inr (Inr (int (length bs)), sent w m mp)" "bits_at mp addr bs"
    "tab_registers mp = tab_registers (wi_peer w)"
proof -
  let ?n = "int (length bs)" and ?sl = "int_lo (mc_slave sctx)" and ?cnt = "int_lo (int (length (pack_bits bs)))"
  let ?body = "0x0F # int_hi addr # int_lo addr # int_hi ?n # int_lo ?n # ?cnt # pack_bits bs"
  let ?q = "request_of sctx (rtu_seal (?sl # ?body) @ drop (length ?body + 3) arr) (length ?body + 3)"
  let ?mp = "(wi_peer w)\<lparr>tab_bits := take (nat addr) (tab_bits (wi_peer w)) @ map of_bool bs @ drop (nat addr + length bs) (tab_bits (wi_peer w))\<rparr>"
  have bk: "mc_backend sctx = RTU_BACKEND" using assms(1) by (simp add: rtu_slave_def)
  have p: "length (pack_bits bs) \<le> 246" using assms(5) bit_bytes_bound[of "length bs" 246] by (simp add: pack_bits_bytes)
  obtain tail where tail: "drop (header_length (rq_backend ?q) + 6) (rq_bytes ?q) = pack_bits bs @ tail"
    using request_bits[OF bk refl] by blast
  have "build_response ?q (wi_peer w) = Inr (Some [?sl, 0x0F, int_hi addr, int_lo addr, int_hi ?n, int_lo ?n], ?mp)"
    using reply_write_bits_stores[of ?q bs "wi_peer w", OF _ _ assms(4,5) tail] assms(5-8) request_count[of addr]
      request_count[of ?n] request_fields[OF bk, of ?q, OF refl]
    by (simp add: build_response_def Let_def)
  moreover have "rtu_frame_for MSG_INDICATION (rtu_seal (?sl # ?body))"
    using p by (intro indication_multiple) (simp_all add: unat_int_lo)
  ultimately have d: "delivers (serve arr sctx) (rtu_request cctx 0x0F addr ?n (?cnt # pack_bits bs)) (wi_peer w)
      (rtu_seal [?sl, 0x0F, int_hi addr, int_lo addr, int_hi ?n, int_lo ?n]) ?mp"
    using serve_rtu[OF assms(1)] assms(3) by (simp add: rtu_request_def)
  have "modbus_write_bits (serve arr sctx) cctx addr bs w =
      Inr (Inr ?n, sent w (rtu_request cctx 0x0F addr ?n (?cnt # pack_bits bs)) ?mp)"
    using request_rtu[of cctx "serve arr sctx" "0x0F" addr ?n "?cnt # pack_bits bs" w _ ?mp] d assms(2,5)
      confirm_multi[of "0x0F"] request_count[of ?n]
    by (simp add: modbus_write_bits_def rtu_request_def rtu_master_def MODBUS_MAX_WRITE_BITS_def Let_def)
  moreover have "bits_at ?mp addr bs" using assms(8) by (simp add: bits_at_def)
  ultimately show ?thesis by (rule that) simp
qed

lemma pair_reads_bits:
  assumes "rtu_slave sctx" "rtu_master cctx" "mc_slave cctx = mc_slave sctx" "1 \<le> length bs" "length bs \<le> 2000"
    "0 \<le> addr" "addr < 65536" "bits_at (wi_peer w) addr bs"
  obtains m where "modbus_read_bits (serve arr sctx) cctx addr (int (length bs)) w =
      Inr (Inr (int (length bs), bs), sent w m (wi_peer w))"
proof -
  let ?n = "int (length bs)" and ?sl = "int_lo (mc_slave sctx)"
  let ?body = "[0x01, int_hi addr, int_lo addr, int_hi ?n, int_lo ?n]" and ?k = "bit_bytes_of (length bs)"
  let ?q = "request_of sctx (rtu_seal (?sl # ?body) @ drop (length ?body + 3) arr) (length ?body + 3)"
  let ?data = "io_status 0 0 (map of_bool bs)" and ?req = "rtu_request cctx 0x01 addr ?n []"
  let ?rsp = "[?sl, 0x01, of_nat ?k] @ ?data"
  have bk: "mc_backend sctx = RTU_BACKEND" "header_length (mc_backend cctx) = 1" using assms(1,2) by (simp_all add: rtu_slave_def rtu_master_def)
  have k: "?k \<le> 250" using bit_bytes_bound[of "length bs" 250] assms(5) by simp
  then have cnt: "unat (of_nat ?k :: UCHAR) = ?k" by (simp add: unat_of_nat take_bit_eq_mod)
  have data: "length ?data = ?k" by (simp add: io_status_bytes)
  have "build_response ?q (wi_peer w) = Inr (Some ?rsp, wi_peer w)"
    using assms(5-8) nonempty_length[OF assms(4)] request_count[of addr] request_count[of ?n] request_fields[OF bk(1), of ?q, OF refl]
    by (simp add: build_response_def reply_read_bits_def response_io_status_def bits_at_def bit_bytes_of_def Let_def)
  then have d: "delivers (serve arr sctx) ?req (wi_peer w) (rtu_seal ?rsp) (wi_peer w)"
    using serve_rtu[OF assms(1) indication_read[of "0x01"]] assms(3) by (simp add: rtu_request_def)
  have c: "unat (mk_ushort (int_hi ?n) (int_lo ?n)) = length bs" using assms(5) request_count[of ?n] by simp
  have "modbus_request (serve arr sctx) cctx 0x01 addr ?n [] w = Inr (Inr (int ?k, rtu_seal ?rsp), sent w ?req (wi_peer w))"
    using request_rtu[of cctx "serve arr sctx" "0x01" addr ?n "[]" w _ "wi_peer w"] d assms(2) confirm_read_bits[OF c data cnt assms(5)]
    by (simp add: rtu_request_def rtu_master_def)
  moreover have "take ?k (drop (Suc (Suc (Suc 0))) (rtu_seal ?rsp)) = ?data" using data by (simp add: rtu_seal_def)
  moreover have "take (length bs) (concat (map byte_bits ?data)) = bs" using io_status_unpack[of 0 0 bs] by simp
  ultimately have "modbus_read_bits (serve arr sctx) cctx addr ?n w = Inr (Inr (?n, bs), sent w ?req (wi_peer w))"
    using assms(5) bk(2)
    by (simp add: modbus_read_bits_def read_io_status_def read_bits_result_def MODBUS_MAX_READ_BITS_def)
  then show ?thesis by (rule that)
qed

section \<open>Properties\<close>

text \<open>C6: the two sides of libmodbus agree over RTU: the bits a client writes to a libmodbus server, and the registers,
  are read back unchanged, for every count, first value and address that both sides accept and whatever the server's
  array held before.\<close>

theorem server_returns_what_was_written:
  assumes "rtu_slave sctx" "rtu_master cctx" "mc_slave cctx = mc_slave sctx"
    "1 \<le> length bs" "length bs \<le> 1968" "0 \<le> addr" "addr < 65536" "nat addr + length bs \<le> length (tab_bits (wi_peer w))"
    "1 \<le> length rs" "length rs \<le> 123" "0 \<le> addr'" "addr' < 65536" "nat addr' + length rs \<le> length (tab_registers (wi_peer w))"
  shows "\<exists>w1 w2 w3 w4.
    modbus_write_bits (serve arr sctx) cctx addr bs w = Inr (Inr (int (length bs)), w1) \<and>
    modbus_read_bits (serve arr sctx) cctx addr (int (length bs)) w1 = Inr (Inr (int (length bs), bs), w2) \<and>
    modbus_write_registers (serve arr sctx) cctx addr' rs w2 = Inr (Inr (int (length rs)), w3) \<and>
    modbus_read_registers (serve arr sctx) cctx addr' (int (length rs)) w3 = Inr (Inr (int (length rs), rs), w4)"
proof -
  obtain m1 mp1 where w1: "modbus_write_bits (serve arr sctx) cctx addr bs w = Inr (Inr (int (length bs)), sent w m1 mp1)"
    "bits_at mp1 addr bs" "tab_registers mp1 = tab_registers (wi_peer w)"
    by (rule pair_writes_bits[OF assms(1-8)])
  let ?w1 = "sent w m1 mp1"
  obtain m2 where w2: "modbus_read_bits (serve arr sctx) cctx addr (int (length bs)) ?w1 =
      Inr (Inr (int (length bs), bs), sent ?w1 m2 mp1)"
    using pair_reads_bits[of sctx cctx bs addr ?w1 arr] assms(1-7) w1(2) by (auto simp: sent_def)
  let ?w2 = "sent ?w1 m2 mp1"
  obtain m3 where w3: "modbus_write_registers (serve arr sctx) cctx addr' rs ?w2 =
      Inr (Inr (int (length rs)), sent ?w2 m3 (store_registers (nat addr') rs mp1))"
    using pair_writes_registers[of sctx cctx rs addr' ?w2 arr] assms(1-3,9-13) w1(3) by (auto simp: sent_def)
  let ?w3 = "sent ?w2 m3 (store_registers (nat addr') rs mp1)"
  obtain m4 where "modbus_read_registers (serve arr sctx) cctx addr' (int (length rs)) ?w3 =
      Inr (Inr (int (length rs), rs), sent ?w3 m4 (wi_peer ?w3))"
    using pair_reads_registers[of sctx cctx rs addr' ?w3 arr] assms(1-3,9-13) store_registers_at[of addr' rs mp1] w1(3)
    by (auto simp: sent_def)
  then show ?thesis using w1(1) w2 w3 by blast
qed

definition example_slave :: modbus_t where
  "example_slave = \<lparr>mc_backend = RTU_BACKEND, mc_slave = 17\<rparr>"

theorem server_returns_what_was_written_witness:
  "\<exists>w1 w2 w3 w4. let mp = the (modbus_mapping_new (\<lambda>i. True) 40 0 10 0);
      w = \<lparr>wi_tid = 0, wi_peer = mp, wi_sent = []\<rparr>; link = serve (replicate 260 7) example_slave;
      bs = [True, False, True, True, False, False, True, True, False, True] in
    modbus_write_bits link example_slave 19 bs w = Inr (Inr 10, w1) \<and>
    modbus_read_bits link example_slave 19 10 w1 = Inr (Inr (10, bs), w2) \<and>
    modbus_write_registers link example_slave 3 [4100, 65535] w2 = Inr (Inr 2, w3) \<and>
    modbus_read_registers link example_slave 3 2 w3 = Inr (Inr (2, [4100, 65535]), w4)"
proof -
  have mp: "modbus_mapping_new (\<lambda>i. True) 40 0 10 0 =
      Some \<lparr>tab_bits = replicate 40 0, tab_input_bits = [], tab_registers = replicate 10 0, tab_input_registers = []\<rparr>"
    by (simp add: modbus_mapping_new_def table_new_def)
  show ?thesis
    using server_returns_what_was_written[of example_slave example_slave "[True, False, True, True, False, False, True, True, False, True]" 19
        "\<lparr>wi_tid = 0, wi_peer = the (modbus_mapping_new (\<lambda>i. True) 40 0 10 0), wi_sent = []\<rparr>" "[4100, 65535]" 3 "replicate 260 7"]
    by (simp add: mp rtu_slave_def rtu_master_def example_slave_def Let_def)
qed

end
