(* ===== verification/Tb.thy ===== *)
theory Tb
  imports Cloud TbmqttCache
begin

text \<open>
  The ThingsBoard client \<open>appl/tb.c\<close>: it queues telemetry for the ThingsBoard uplink, and executes remote
  procedure calls while it is unlocked. A lock protects the calls; it closes again by itself. The application loop does not call
  this client.
\<close>

section \<open>State\<close>

text \<open>The structure \<open>tb_t\<close> with the static variables of \<open>tb.c\<close>.\<close>

record tb_t =
  th_upload_enable :: int
  th_param_en :: int
  th_sys_timer0 :: int
  th_sys_timer1 :: int
  th_sys_intv0 :: int
  th_sys_intv1 :: int
  th_meter_timer :: int
  th_meter_intv :: int
  th_lock :: int
  th_lock_timer :: int
  th_lock_intv :: int
  th_init :: int
  th_tmpaps :: int
  th_tmpaps_received :: int

text \<open>The client and the uplink it queues into.\<close>

record tbs_t =
  ts_tb :: tb_t
  ts_mq :: tbmqtt_t

definition tb_get_unixts :: "int \<Rightarrow> int" where
  "tb_get_unixts now = now"

definition tb_get_ts :: "int \<Rightarrow> int" where
  "tb_get_ts now = (tb_get_unixts now + 0 * 3600) * 1000"

definition tb_set_param_en :: "int \<Rightarrow> tbs_t \<Rightarrow> tbs_t" where
  "tb_set_param_en val s = s\<lparr>ts_tb := (ts_tb s)\<lparr>th_param_en := val\<rparr>\<rparr>"

definition tb_init :: "tbs_t \<Rightarrow> tbs_t" where
  "tb_init s = s\<lparr>ts_tb := (ts_tb s)\<lparr>th_upload_enable := 1, th_param_en := 0, th_sys_intv0 := 10,
     th_sys_intv1 := 60, th_meter_intv := 5, th_lock_timer := 0, th_lock := 1, th_lock_intv := 15\<rparr>\<rparr>"

section \<open>Queueing\<close>

definition tb_telemetry :: "int \<Rightarrow> string \<Rightarrow> string" where
  "tb_telemetry now items =
     CHR ''{'' # CHR 0x27 # ''ts'' @ CHR 0x27 # '':'' @ show_int (tb_get_ts now) @ '','' @ CHR 0x27 # ''values'' @
     CHR 0x27 # '':{'' @ items @ ''}}''"

definition tb_queue ::
  "tbmqtt_ringbuffer_element_t \<Rightarrow> string \<Rightarrow> string \<Rightarrow> tbs_t \<Rightarrow> tbs_t res" where
  "tb_queue e0 topic payload s =
     bind_res (strcpy_buf BUF_PAYLOAD_MAX_LEN payload) (\<lambda>p.
     bind_res (strcpy_buf BUF_TOPIC_MAX_LEN topic) (\<lambda>t.
       Inr (s\<lparr>ts_mq := tbmqtt_queue_txbuf
                (e0\<lparr>tb_cmd := CMD_MQTT_SENDKV, tb_sztopic := t, tb_szpayload := p\<rparr>) (ts_mq s)\<rparr>)))"

text \<open>\<open>itm\<close> is the text found in the local array \<open>itm_buf\<close>, which these two functions print without filling it.\<close>

definition tb_upload_meter ::
  "int \<Rightarrow> string \<Rightarrow> tbmqtt_ringbuffer_element_t \<Rightarrow> tbs_t \<Rightarrow> tbs_t res" where
  "tb_upload_meter now itm e0 s =
     (let c = ts_tb s; c1 = c\<lparr>th_meter_timer := th_meter_timer c + 1\<rparr>
      in if th_meter_intv c > 0
         then (if th_meter_timer c \<ge> th_meter_intv c
               then tb_queue e0 ''v1/devices/me/telemetry'' (tb_telemetry now itm)
                      (s\<lparr>ts_tb := c1\<lparr>th_meter_timer := 0\<rparr>\<rparr>)
               else Inr (s\<lparr>ts_tb := c1\<rparr>))
         else Inr s)"

definition tb_upload_param ::
  "int \<Rightarrow> string \<Rightarrow> tbmqtt_ringbuffer_element_t \<Rightarrow> tbs_t \<Rightarrow> tbs_t res" where
  "tb_upload_param now itm e0 s =
     (if th_param_en (ts_tb s) > 0
      then tb_queue e0 ''v1/devices/me/telemetry'' (tb_telemetry now itm)
             (s\<lparr>ts_tb := (ts_tb s)\<lparr>th_param_en := 0\<rparr>\<rparr>)
      else Inr s)"

text \<open>The two periods of \<open>tb_upload_sys\<close>.\<close>

definition tb_upload_sys0 :: "int \<Rightarrow> tbmqtt_ringbuffer_element_t \<Rightarrow> tbs_t \<Rightarrow> tbs_t res" where
  "tb_upload_sys0 now e0 s =
     (let c = ts_tb s; c1 = c\<lparr>th_sys_timer0 := th_sys_timer0 c + 1\<rparr>
      in if th_sys_intv0 c > 0
         then (if th_sys_timer0 c \<ge> th_sys_intv0 c
               then tb_queue e0 ''v1/devices/me/telemetry'' (tb_telemetry now [])
                      (s\<lparr>ts_tb := c1\<lparr>th_sys_timer0 := 0\<rparr>\<rparr>)
               else Inr (s\<lparr>ts_tb := c1\<rparr>))
         else Inr s)"

definition tb_upload_sys1 :: "int \<Rightarrow> tbmqtt_ringbuffer_element_t \<Rightarrow> tbs_t \<Rightarrow> tbs_t res" where
  "tb_upload_sys1 now e0 s =
     (let c = ts_tb s; c1 = c\<lparr>th_sys_timer1 := th_sys_timer1 c + 1\<rparr>
      in if th_sys_intv1 c > 0
         then (if th_sys_timer1 c \<ge> th_sys_intv1 c
               then tb_queue e0 ''v1/devices/me/telemetry'' (tb_telemetry now [])
                      (s\<lparr>ts_tb := c1\<lparr>th_sys_timer1 := 0\<rparr>\<rparr>)
               else Inr (s\<lparr>ts_tb := c1\<rparr>))
         else Inr s)"

definition tb_upload_sys :: "int \<Rightarrow> tbmqtt_ringbuffer_element_t \<Rightarrow> tbs_t \<Rightarrow> tbs_t res" where
  "tb_upload_sys now e0 s = bind_res (tb_upload_sys0 now e0 s) (tb_upload_sys1 now e0)"

definition tb_update_attributes ::
  "tbmqtt_ringbuffer_element_t \<Rightarrow> string \<Rightarrow> tbs_t \<Rightarrow> tbs_t res" where
  "tb_update_attributes e0 payload s =
     tb_queue e0 ''v1/devices/me/attributes'' (''{'' @ payload @ ''}'') s"

text \<open>The request number is what follows the last slash of the topic, copied into 256 bytes.\<close>

definition after_last_slash :: "string \<Rightarrow> string option" where
  "after_last_slash t =
     (if CHR ''/'' \<in> set t then Some (rev (takeWhile (\<lambda>c. c \<noteq> CHR ''/'') (rev t))) else None)"

definition tb_send_rpc_response ::
  "tbmqtt_ringbuffer_element_t \<Rightarrow> string \<Rightarrow> string \<Rightarrow> tbs_t \<Rightarrow> tbs_t res" where
  "tb_send_rpc_response e0 request_topic response s =
     (case after_last_slash request_topic of
        None \<Rightarrow> Inr s
      | Some szreqid \<Rightarrow>
          bind_res (strcpy_buf 256 szreqid) (\<lambda>r.
            tb_queue e0 (''v1/devices/me/rpc/response/'' @ r) response s))"

section \<open>Remote procedure calls\<close>

definition tb_lock_attribute :: string where
  "tb_lock_attribute = CHR 0x27 # ''TbLock'' @ CHR 0x27 # '':true''"

text \<open>The method of a parsed call; a value that is no string is a null pointer.\<close>

definition tb_method :: "cJSON \<Rightarrow> cJSON \<Rightarrow> tb_t \<Rightarrow> tb_t res" where
  "tb_method rt item c =
     deref (cj_valuestring item) (\<lambda>name.
       if name = ''set_lock''
       then (case cJSON_GetObjectItem rt ''params'' of
               None \<Rightarrow> Inr c
             | Some p \<Rightarrow> deref (cj_valuestring p) (\<lambda>v. Inr (c\<lparr>th_lock := (if v = ''lock'' then 1 else 0)\<rparr>)))
       else if th_lock c \<noteq> 0 then Inr c
       else if name = ''stdby'' then Inr c
       else if name = ''set_aps''
       then (case cJSON_GetObjectItem rt ''params'' of
               None \<Rightarrow> Inr c
             | Some p \<Rightarrow> Inr (c\<lparr>th_tmpaps := cj_valueint p, th_tmpaps_received := 1\<rparr>))
       else Inr c)"

text \<open>The announcement of the lock at the first call, and the lock that closes again.\<close>

definition tb_first :: "tbmqtt_ringbuffer_element_t \<Rightarrow> tbs_t \<Rightarrow> tbs_t res" where
  "tb_first e0 s =
     (if th_init (ts_tb s) = 0
      then tb_update_attributes e0 tb_lock_attribute (s\<lparr>ts_tb := (ts_tb s)\<lparr>th_init := 1\<rparr>\<rparr>)
      else Inr s)"

definition tb_relock :: "tbmqtt_ringbuffer_element_t \<Rightarrow> tbs_t \<Rightarrow> tbs_t res" where
  "tb_relock e0 s =
     (let c = ts_tb s; c1 = c\<lparr>th_lock_timer := th_lock_timer c + 1\<rparr>
      in if th_lock c = 0
         then (if th_lock_timer c \<ge> th_lock_intv c
               then tb_update_attributes e0 tb_lock_attribute (s\<lparr>ts_tb := c1\<lparr>th_lock_timer := 0, th_lock := 1\<rparr>\<rparr>)
               else Inr (s\<lparr>ts_tb := c1\<rparr>))
         else Inr s)"

definition tb_receive :: "(string \<Rightarrow> cJSON option) \<Rightarrow> tbs_t \<Rightarrow> tbs_t res" where
  "tb_receive prs s =
     (case tbmqtt_dequeue_rxbuf (ts_mq s) of
        (None, m) \<Rightarrow> Inr (s\<lparr>ts_mq := m\<rparr>)
      | (Some e, m) \<Rightarrow>
          (case prs (tb_szpayload e) of
             None \<Rightarrow> Inr (s\<lparr>ts_mq := m\<rparr>)
           | Some rt \<Rightarrow>
               (case cJSON_GetObjectItem rt ''method'' of
                  None \<Rightarrow> Inr (s\<lparr>ts_mq := m\<rparr>)
                | Some item \<Rightarrow>
                    bind_res (tb_method rt item (ts_tb s)) (\<lambda>c. Inr (s\<lparr>ts_mq := m, ts_tb := c\<rparr>)))))"

definition tb_proc_recv ::
  "(string \<Rightarrow> cJSON option) \<Rightarrow> tbmqtt_ringbuffer_element_t \<Rightarrow> tbs_t \<Rightarrow> tbs_t res" where
  "tb_proc_recv prs e0 s = bind_res (bind_res (tb_first e0 s) (tb_relock e0)) (tb_receive prs)"

text \<open>What one call finds: the parser, the time, the uninitialised arrays and element.\<close>

record tb_os =
  tbo_parse :: "string \<Rightarrow> cJSON option"
  tbo_now :: int
  tbo_itm_param :: string
  tbo_itm_meter :: string
  tbo_e0 :: tbmqtt_ringbuffer_element_t

definition tb_exe :: "tb_os \<Rightarrow> tbs_t \<Rightarrow> tbs_t res" where
  "tb_exe os s =
     bind_res (tb_proc_recv (tbo_parse os) (tbo_e0 os) s) (\<lambda>s1.
       if th_upload_enable (ts_tb s1) \<noteq> 0
       then bind_res (tb_upload_param (tbo_now os) (tbo_itm_param os) (tbo_e0 os) s1) (\<lambda>s2.
            bind_res (tb_upload_sys (tbo_now os) (tbo_e0 os) s2)
              (tb_upload_meter (tbo_now os) (tbo_itm_meter os) (tbo_e0 os)))
       else Inr s1)"

section \<open>What the uploads leave alone\<close>

definition tb_same :: "tbs_t \<Rightarrow> tbs_t \<Rightarrow> bool" where
  "tb_same s s' \<longleftrightarrow> th_lock (ts_tb s') = th_lock (ts_tb s) \<and> th_lock_timer (ts_tb s') = th_lock_timer (ts_tb s) \<and>
     th_lock_intv (ts_tb s') = th_lock_intv (ts_tb s) \<and> th_tmpaps (ts_tb s') = th_tmpaps (ts_tb s) \<and>
     th_tmpaps_received (ts_tb s') = th_tmpaps_received (ts_tb s) \<and>
     tbmqtt_rxbuf (ts_mq s') = tbmqtt_rxbuf (ts_mq s)"

lemma tb_same_trans [trans]: "tb_same s s' \<Longrightarrow> tb_same s' s'' \<Longrightarrow> tb_same s s''"
  by (simp add: tb_same_def)

lemma tb_queue_same: "tb_queue e0 t p s = Inr s' \<Longrightarrow> ts_tb s' = ts_tb s \<and> tbmqtt_rxbuf (ts_mq s') = tbmqtt_rxbuf (ts_mq s)"
  by (auto simp: tb_queue_def bind_res_eq_Inr tbmqtt_queue_txbuf_def)

lemma tb_queue_fits: "length p < 8000 \<Longrightarrow> length t < 128 \<Longrightarrow> \<exists>s'. tb_queue e0 t p s = Inr s'"
  by (simp add: tb_queue_def BUF_PAYLOAD_MAX_LEN_def BUF_TOPIC_MAX_LEN_def)

lemma tb_upload_same:
  "tb_upload_param now itm e0 s = Inr s' \<Longrightarrow> tb_same s s'"
  "tb_upload_sys0 now e0 s = Inr s' \<Longrightarrow> tb_same s s'"
  "tb_upload_sys1 now e0 s = Inr s' \<Longrightarrow> tb_same s s'"
  "tb_upload_meter now itm e0 s = Inr s' \<Longrightarrow> tb_same s s'"
  by (auto simp: tb_upload_param_def tb_upload_sys0_def tb_upload_sys1_def tb_upload_meter_def tb_same_def Let_def
      dest!: tb_queue_same split: if_splits)

lemma tb_uploads_same:
  assumes "tb_exe os s = Inr s'"
  obtains s1 where "tb_proc_recv (tbo_parse os) (tbo_e0 os) s = Inr s1" "tb_same s1 s'"
proof -
  obtain s1 where s1: "tb_proc_recv (tbo_parse os) (tbo_e0 os) s = Inr s1"
    using assms by (auto simp: tb_exe_def bind_res_eq_Inr)
  have "tb_same s1 s'"
  proof (cases "th_upload_enable (ts_tb s1) \<noteq> 0")
    case True
    then obtain s2 s3 s4 where "tb_upload_param (tbo_now os) (tbo_itm_param os) (tbo_e0 os) s1 = Inr s2"
      "tb_upload_sys0 (tbo_now os) (tbo_e0 os) s2 = Inr s3" "tb_upload_sys1 (tbo_now os) (tbo_e0 os) s3 = Inr s4"
      "tb_upload_meter (tbo_now os) (tbo_itm_meter os) (tbo_e0 os) s4 = Inr s'"
      using assms s1 by (auto simp: tb_exe_def bind_res_eq_Inr tb_upload_sys_def)
    then show ?thesis using tb_upload_same tb_same_trans by metis
  next
    case False
    then show ?thesis using assms s1 by (simp add: tb_exe_def tb_same_def)
  qed
  then show ?thesis using s1 that by blast
qed

text \<open>The texts of one call fit their arrays.\<close>

definition tb_fits :: "tb_os \<Rightarrow> bool" where
  "tb_fits os \<longleftrightarrow> length (tb_telemetry (tbo_now os) (tbo_itm_param os)) < 8000 \<and>
     length (tb_telemetry (tbo_now os) (tbo_itm_meter os)) < 8000"

lemma tb_telemetry_mono: "length (tb_telemetry now []) \<le> length (tb_telemetry now itm)"
  by (simp add: tb_telemetry_def)

lemma tb_uploads_ok:
  assumes "tb_fits os" "tb_proc_recv (tbo_parse os) (tbo_e0 os) s = Inr s1"
  shows "\<exists>s'. tb_exe os s = Inr s'"
proof -
  have n: "length (tb_telemetry (tbo_now os) []) < 8000"
    using assms(1) tb_telemetry_mono[of "tbo_now os" "tbo_itm_param os"] by (simp add: tb_fits_def)
  have "\<exists>s'. tb_upload_param (tbo_now os) (tbo_itm_param os) e0 s = Inr s'"
    "\<exists>s'. tb_upload_sys0 (tbo_now os) e0 s = Inr s'" "\<exists>s'. tb_upload_sys1 (tbo_now os) e0 s = Inr s'"
    "\<exists>s'. tb_upload_meter (tbo_now os) (tbo_itm_meter os) e0 s = Inr s'" for e0 s
    using assms(1) n unfolding tb_fits_def
    by (simp_all add: tb_upload_param_def tb_upload_sys0_def tb_upload_sys1_def tb_upload_meter_def Let_def tb_queue_fits)
  then show ?thesis using assms(2) by (simp add: tb_exe_def tb_upload_sys_def) (metis bind_res_Inr)
qed

lemma tb_attributes_same:
  "tb_update_attributes e0 p s = Inr s' \<Longrightarrow> ts_tb s' = ts_tb s \<and> tbmqtt_rxbuf (ts_mq s') = tbmqtt_rxbuf (ts_mq s)"
  by (simp add: tb_update_attributes_def tb_queue_same)

lemma tb_lock_attribute_ok: "\<exists>s'. tb_update_attributes e0 tb_lock_attribute s = Inr s'"
  by (simp add: tb_update_attributes_def tb_lock_attribute_def tb_queue_fits)

lemma tb_first_ok: "\<exists>s'. tb_first e0 s = Inr s' \<and> tb_same s s'"
proof -
  obtain s' where "tb_update_attributes e0 tb_lock_attribute (s\<lparr>ts_tb := (ts_tb s)\<lparr>th_init := 1\<rparr>\<rparr>) = Inr s'"
    using tb_lock_attribute_ok by blast
  then show ?thesis using tb_attributes_same by (fastforce simp: tb_first_def tb_same_def)
qed

text \<open>What the first part of a call does to the lock and its timer.\<close>

definition tb_ticked :: "tbs_t \<Rightarrow> tbs_t \<Rightarrow> bool" where
  "tb_ticked s s' \<longleftrightarrow>
     (th_lock (ts_tb s'), th_lock_timer (ts_tb s')) =
       (if th_lock (ts_tb s) \<noteq> 0 then (th_lock (ts_tb s), th_lock_timer (ts_tb s))
        else if th_lock_timer (ts_tb s) < th_lock_intv (ts_tb s) then (0, th_lock_timer (ts_tb s) + 1)
        else (1, 0)) \<and>
     th_lock_intv (ts_tb s') = th_lock_intv (ts_tb s) \<and> th_tmpaps (ts_tb s') = th_tmpaps (ts_tb s) \<and>
     th_tmpaps_received (ts_tb s') = th_tmpaps_received (ts_tb s) \<and>
     tbmqtt_rxbuf (ts_mq s') = tbmqtt_rxbuf (ts_mq s)"

lemma tb_relock_ok: "\<exists>s'. tb_relock e0 s = Inr s' \<and> tb_ticked s s'"
proof -
  obtain s' where "tb_update_attributes e0 tb_lock_attribute
      (s\<lparr>ts_tb := (ts_tb s)\<lparr>th_lock_timer := 0, th_lock := 1\<rparr>\<rparr>) = Inr s'"
    using tb_lock_attribute_ok by blast
  then show ?thesis using tb_attributes_same by (fastforce simp: tb_relock_def tb_ticked_def Let_def)
qed

lemma tb_before_receive: "\<exists>s1. bind_res (tb_first e0 s) (tb_relock e0) = Inr s1 \<and> tb_ticked s s1"
proof -
  obtain s0 where s0: "tb_first e0 s = Inr s0" "tb_same s s0" using tb_first_ok by blast
  obtain s1 where "tb_relock e0 s0 = Inr s1" "tb_ticked s0 s1" using tb_relock_ok by blast
  then show ?thesis using s0 by (simp add: tb_same_def tb_ticked_def)
qed

text \<open>A received message, and the method it calls.\<close>

definition calls_method :: "(string \<Rightarrow> cJSON option) \<Rightarrow> tbmqtt_t \<Rightarrow> string \<Rightarrow> bool" where
  "calls_method prs m name \<longleftrightarrow>
     (\<exists>e m' rt item. tbmqtt_dequeue_rxbuf m = (Some e, m') \<and> prs (tb_szpayload e) = Some rt \<and>
        cJSON_GetObjectItem rt ''method'' = Some item \<and> cj_valuestring item = Some name)"

lemma dequeue_rx_cong:
  "tbmqtt_rxbuf m1 = tbmqtt_rxbuf m2 \<Longrightarrow> fst (tbmqtt_dequeue_rxbuf m1) = fst (tbmqtt_dequeue_rxbuf m2)"
  by (simp add: tbmqtt_dequeue_rxbuf_def case_prod_beta)

lemma calls_method_cong: "tbmqtt_rxbuf m1 = tbmqtt_rxbuf m2 \<Longrightarrow> calls_method prs m1 name = calls_method prs m2 name"
  using dequeue_rx_cong[of m1 m2] unfolding calls_method_def by (metis prod.collapse fst_conv)

lemma tb_method_locked:
  assumes "th_lock c \<noteq> 0" "tb_method rt item c = Inr c'"
  shows "th_tmpaps c' = th_tmpaps c \<and> th_tmpaps_received c' = th_tmpaps_received c \<and>
    (th_lock c' = 0 \<longrightarrow> cj_valuestring item = Some ''set_lock'')"
  using assms by (auto simp: tb_method_def deref_def split: option.splits if_splits)

lemma tb_receive_locked:
  assumes "th_lock (ts_tb s) \<noteq> 0" "tb_receive prs s = Inr s'"
  shows "th_tmpaps (ts_tb s') = th_tmpaps (ts_tb s) \<and>
    th_tmpaps_received (ts_tb s') = th_tmpaps_received (ts_tb s) \<and>
    (th_lock (ts_tb s') = 0 \<longrightarrow> calls_method prs (ts_mq s) ''set_lock'')"
proof -
  obtain r m where r: "tbmqtt_dequeue_rxbuf (ts_mq s) = (r, m)" by fastforce
  show ?thesis
    using assms tb_method_locked[OF assms(1)]
    by (fastforce simp: tb_receive_def r bind_res_eq_Inr calls_method_def split: option.splits)
qed

lemma tb_receive_idle:
  assumes "tbmqtt_ringbuffer_wf (tbmqtt_rxbuf (ts_mq s))" "tbmqtt_ringbuffer_items (tbmqtt_rxbuf (ts_mq s)) = []"
  shows "tb_receive prs s = Inr s"
proof -
  have "tbmqtt_ringbuffer_is_empty (tbmqtt_rxbuf (ts_mq s))" using tbmqtt_is_empty_iff assms by blast
  then have "tbmqtt_dequeue_rxbuf (ts_mq s) = (None, ts_mq s)"
    by (simp add: tbmqtt_dequeue_rxbuf_def tbmqtt_ringbuffer_dequeue_def rb_dequeue_def tbmqtt_ringbuffer_is_empty_def)
  then show ?thesis by (simp add: tb_receive_def)
qed

fun tb_run :: "tb_os list \<Rightarrow> tbs_t \<Rightarrow> tbs_t res" where
  "tb_run [] s = Inr s"
| "tb_run (os # oss) s = bind_res (tb_exe os s) (tb_run oss)"

text \<open>An unlocked client without messages, \<open>t\<close> calls after the timer started.\<close>

definition tb_unlocked :: "int \<Rightarrow> tbs_t \<Rightarrow> bool" where
  "tb_unlocked t s \<longleftrightarrow> th_lock (ts_tb s) = 0 \<and> th_lock_timer (ts_tb s) = t \<and> th_lock_intv (ts_tb s) = 15 \<and>
     tbmqtt_ringbuffer_wf (tbmqtt_rxbuf (ts_mq s)) \<and> tbmqtt_ringbuffer_items (tbmqtt_rxbuf (ts_mq s)) = []"

lemma tb_idle_exe:
  assumes "tb_unlocked t s" "tb_fits os"
  shows "\<exists>s'. tb_exe os s = Inr s' \<and> (if t < 15 then tb_unlocked (t + 1) s'
    else th_lock (ts_tb s') = 1 \<and> th_lock_timer (ts_tb s') = 0)"
proof -
  obtain s1 where s1: "bind_res (tb_first (tbo_e0 os) s) (tb_relock (tbo_e0 os)) = Inr s1"
    "th_lock (ts_tb s1) = (if t < 15 then 0 else 1)" "th_lock_timer (ts_tb s1) = (if t < 15 then t + 1 else 0)"
    "th_lock_intv (ts_tb s1) = 15" "tbmqtt_rxbuf (ts_mq s1) = tbmqtt_rxbuf (ts_mq s)"
    using tb_before_receive[of "tbo_e0 os" s] assms(1) by (auto simp: tb_unlocked_def tb_ticked_def split: if_splits)
  have "tb_receive (tbo_parse os) s1 = Inr s1"
    using tb_receive_idle[of s1] assms(1) s1(5) by (simp add: tb_unlocked_def)
  then have p: "tb_proc_recv (tbo_parse os) (tbo_e0 os) s = Inr s1" by (simp add: tb_proc_recv_def s1(1))
  obtain s' where s': "tb_exe os s = Inr s'" using tb_uploads_ok[OF assms(2) p] by blast
  have "tb_same s1 s'" using tb_uploads_same[OF s'] p by (metis sum.inject(2))
  then show ?thesis using s' s1 assms(1) by (auto simp: tb_same_def tb_unlocked_def)
qed

lemma tb_idle_run:
  assumes "tb_unlocked t s" "list_all tb_fits oss" "t + int (length oss) \<le> 15"
  shows "\<exists>s'. tb_run oss s = Inr s' \<and> tb_unlocked (t + int (length oss)) s'"
  using assms
proof (induction oss arbitrary: t s)
  case (Cons os oss)
  obtain s1 where s1: "tb_exe os s = Inr s1" "tb_unlocked (t + 1) s1"
    using tb_idle_exe[OF Cons.prems(1), of os] Cons.prems(2,3) by auto
  then show ?case using Cons.IH[OF s1(2)] Cons.prems(2,3) by (auto simp: algebra_simps)
qed simp

lemma tb_run_append: "tb_run (xs @ ys) s = bind_res (tb_run xs s) (tb_run ys)"
proof (induction xs arbitrary: s)
  case (Cons os oss)
  then show ?case by (cases "tb_exe os s") simp_all
qed simp

section \<open>Properties\<close>

text \<open>C32: while the ThingsBoard client is locked, no message changes the power setpoint, and only the method
  \<open>set_lock\<close> can open the lock.\<close>

theorem tb_locked_ignores_calls:
  assumes "th_lock (ts_tb s) \<noteq> 0" "tb_exe os s = Inr s'"
  shows "th_tmpaps (ts_tb s') = th_tmpaps (ts_tb s) \<and>
    th_tmpaps_received (ts_tb s') = th_tmpaps_received (ts_tb s) \<and>
    (th_lock (ts_tb s') = 0 \<longrightarrow> calls_method (tbo_parse os) (ts_mq s) ''set_lock'')"
proof -
  obtain s2 where s2: "tb_proc_recv (tbo_parse os) (tbo_e0 os) s = Inr s2" "tb_same s2 s'"
    using tb_uploads_same[OF assms(2)] by blast
  obtain s1 where s1: "bind_res (tb_first (tbo_e0 os) s) (tb_relock (tbo_e0 os)) = Inr s1"
    "th_lock (ts_tb s1) \<noteq> 0" "th_tmpaps (ts_tb s1) = th_tmpaps (ts_tb s)"
    "th_tmpaps_received (ts_tb s1) = th_tmpaps_received (ts_tb s)" "tbmqtt_rxbuf (ts_mq s1) = tbmqtt_rxbuf (ts_mq s)"
    using tb_before_receive[of "tbo_e0 os" s] assms(1) by (auto simp: tb_ticked_def)
  have "tb_receive (tbo_parse os) s1 = Inr s2" using s2(1) by (simp add: tb_proc_recv_def s1(1))
  from tb_receive_locked[OF s1(2) this] show ?thesis
    using s1(3-5) s2(2) calls_method_cong[OF s1(5)] by (auto simp: tb_same_def)
qed

text \<open>Fact: an open lock closes by itself: without messages it stays open for exactly 15 more calls from the moment
  its timer is zero, and the next call closes it.\<close>

theorem tb_lock_closes_again:
  assumes "tb_unlocked 0 s" "list_all tb_fits oss" "length oss = 15" "tb_fits os"
  shows "\<exists>s1 s2. tb_run oss s = Inr s1 \<and> th_lock (ts_tb s1) = 0 \<and> tb_run (oss @ [os]) s = Inr s2 \<and>
    th_lock (ts_tb s2) = 1"
proof -
  obtain s1 where s1: "tb_run oss s = Inr s1" "tb_unlocked 15 s1" using tb_idle_run[OF assms(1,2)] assms(3) by auto
  obtain s2 where "tb_exe os s1 = Inr s2" "th_lock (ts_tb s2) = 1" using tb_idle_exe[OF s1(2) assms(4)] by auto
  then show ?thesis using s1 by (auto simp: tb_run_append tb_unlocked_def)
qed

section \<open>A concrete client\<close>

definition tbs_example :: "int \<Rightarrow> tbs_t" where
  "tbs_example lock = \<lparr>ts_tb = \<lparr>th_upload_enable = 1, th_param_en = 0, th_sys_timer0 = 0, th_sys_timer1 = 0,
      th_sys_intv0 = 10, th_sys_intv1 = 60, th_meter_timer = 0, th_meter_intv = 5, th_lock = lock, th_lock_timer = 0,
      th_lock_intv = 15, th_init = 0, th_tmpaps = 7, th_tmpaps_received = 0\<rparr>, ts_mq = tbmqtt_example\<rparr>"

definition tb_os_example :: tb_os where
  "tb_os_example = \<lparr>tbo_parse = (\<lambda>s. None), tbo_now = 1700000000, tbo_itm_param = [], tbo_itm_meter = [],
     tbo_e0 = tb_elem0\<rparr>"

lemma tb_example_fits: "tb_fits tb_os_example"
  using length_show_nat[of 1700000000000 13]
  by (simp add: tb_fits_def tb_os_example_def tb_telemetry_def tb_get_ts_def tb_get_unixts_def show_int_def)

lemma tbs_example_rx:
  "tbmqtt_ringbuffer_wf (tbmqtt_rxbuf (ts_mq (tbs_example l)))"
  "tbmqtt_ringbuffer_items (tbmqtt_rxbuf (ts_mq (tbs_example l))) = []"
  by (simp_all add: tbs_example_def tbmqtt_example_def tbmqtt_ringbuffer_wf_def rb_wf_def tbmqtt_ringbuffer_items_def
      rb_items_def rb_num_items_def)

theorem tb_locked_ignores_calls_witness:
  "\<exists>s'. tb_exe tb_os_example (tbs_example 1) = Inr s' \<and> th_tmpaps (ts_tb s') = 7"
proof -
  let ?s = "tbs_example 1"
  obtain s1 where s1: "bind_res (tb_first (tbo_e0 tb_os_example) ?s) (tb_relock (tbo_e0 tb_os_example)) = Inr s1"
    "tb_ticked ?s s1"
    using tb_before_receive by blast
  then have "tb_receive (tbo_parse tb_os_example) s1 = Inr s1"
    using tbs_example_rx[of 1] by (intro tb_receive_idle) (simp_all add: tb_ticked_def)
  then have "tb_proc_recv (tbo_parse tb_os_example) (tbo_e0 tb_os_example) ?s = Inr s1"
    by (simp add: tb_proc_recv_def s1(1))
  then obtain s' where s': "tb_exe tb_os_example ?s = Inr s'" using tb_uploads_ok[OF tb_example_fits] by blast
  have "th_lock (ts_tb ?s) \<noteq> 0" by (simp add: tbs_example_def)
  from tb_locked_ignores_calls[OF this s'] show ?thesis using s' by (simp add: tbs_example_def)
qed

theorem tb_lock_closes_again_witness:
  "\<exists>s1 s2. tb_run (replicate 15 tb_os_example) (tbs_example 0) = Inr s1 \<and> th_lock (ts_tb s1) = 0 \<and>
     tb_run (replicate 15 tb_os_example @ [tb_os_example]) (tbs_example 0) = Inr s2 \<and> th_lock (ts_tb s2) = 1"
proof (rule tb_lock_closes_again)
  show "tb_unlocked 0 (tbs_example 0)"
    using tbs_example_rx[of 0] unfolding tb_unlocked_def by (simp add: tbs_example_def)
qed (simp_all add: tb_example_fits list_all_iff)

end
