(* ===== verification/Misc.thy ===== *)
theory Misc
  imports Doubles
begin

text \<open>
  The byte utilities of \<open>platform/util/misc.c\<close>: the three checksums, the hexadecimal dump and the
  conversions between integers and little-endian bytes. The functions on dates, directories and processes are in \<open>Clock\<close>.
\<close>

section \<open>Checksums\<close>

fun CalChecksum :: "UCHAR \<Rightarrow> UCHAR list \<Rightarrow> UCHAR" where
  "CalChecksum checksum [] = checksum"
| "CalChecksum checksum (b # bs) = CalChecksum (checksum + b) bs"

fun calChecksum16 :: "USHORT \<Rightarrow> UCHAR list \<Rightarrow> USHORT" where
  "calChecksum16 checksum [] = checksum"
| "calChecksum16 checksum (b # bs) = calChecksum16 (checksum + ucast b) bs"

fun calChecksum32 :: "uint32 \<Rightarrow> UCHAR list \<Rightarrow> uint32" where
  "calChecksum32 checksum [] = checksum"
| "calChecksum32 checksum (b # bs) = calChecksum32 (checksum + ucast b) bs"

section \<open>Dump\<close>

text \<open>The two upper-case hexadecimal digits of \<open>%02X\<close> and the space after them.\<close>

definition dump_digit :: "nat \<Rightarrow> char" where
  "dump_digit n = (if n < 10 then char_of (48 + n) else char_of (55 + n))"

fun dump :: "UCHAR list \<Rightarrow> string" where
  "dump [] = []"
| "dump (b # bs) = dump_digit (unat b div 16) # dump_digit (unat b mod 16) # CHR '' '' # dump bs"

section \<open>Conversions\<close>

text \<open>A C \<open>int\<close> is a 32-bit word read as signed, a \<open>short\<close> a 16-bit word read as signed.\<close>

definition i32_to_pu8 :: "32 word \<Rightarrow> UCHAR list" where
  "i32_to_pu8 ival =
     [ucast (ival AND 0xFF), ucast (drop_bit 8 ival AND 0xFF), ucast (drop_bit 16 ival AND 0xFF),
      ucast (drop_bit 24 ival AND 0xFF)]"

definition pu8_to_i32 :: "UCHAR list \<Rightarrow> 32 word" where
  "pu8_to_i32 p =
     ucast (p ! 0) OR push_bit 8 (ucast (p ! 1)) OR push_bit 16 (ucast (p ! 2)) OR push_bit 24 (ucast (p ! 3))"

definition pu8_to_i16 :: "UCHAR list \<Rightarrow> 16 word" where
  "pu8_to_i16 p = ucast (ucast (p ! 0) OR push_bit 8 (ucast (p ! 1)) :: 32 word)"

text \<open>
  The conversions from \<open>float\<close> truncate towards zero; a value that the integer type cannot hold has no
  defined conversion. \<open>f32_to_pi16\<close> goes through \<open>int\<close> and then keeps the low 16 bits.
\<close>

definition f32_trunc :: "int \<Rightarrow> rat \<Rightarrow> int res" where
  "f32_trunc bound fval =
     (let t = dbl_trunc fval in if - bound \<le> t \<and> t < bound then Inr t else Inl Bad_conversion)"

definition f32_to_u16 :: "rat \<Rightarrow> USHORT res" where
  "f32_to_u16 val = bind_res (f32_trunc (2 ^ 15) val) (\<lambda>stmp. Inr (word_of_int stmp))"

definition f32_to_pi32 :: "rat \<Rightarrow> UCHAR list res" where
  "f32_to_pi32 fval =
     bind_res (f32_trunc (2 ^ 31) fval) (\<lambda>t.
       let itmp = word_of_int t :: 32 word
       in Inr [ucast (itmp AND 0xFF), ucast (drop_bit 8 itmp AND 0xFF), ucast (drop_bit 16 itmp AND 0xFF),
               ucast (drop_bit 24 itmp AND 0xFF)])"

definition f32_to_pi16 :: "rat \<Rightarrow> UCHAR list res" where
  "f32_to_pi16 fval =
     bind_res (f32_trunc (2 ^ 31) fval) (\<lambda>t.
       let itmp = word_of_int t :: 16 word
       in Inr [ucast (itmp AND 0xFF), ucast (drop_bit 8 itmp AND 0xFF)])"

section \<open>Lemmas\<close>

lemma unat_mod_8 [simp]: "unat (c :: 8 word) mod 256 = unat c"
  using unsigned_less[of c, where ?'a = nat] by simp

lemma unat_mod_16 [simp]: "unat (c :: 16 word) mod 65536 = unat c"
  using unsigned_less[of c, where ?'a = nat] by simp

lemma unat_mod_32 [simp]: "unat (c :: 32 word) mod 4294967296 = unat c"
  using unsigned_less[of c, where ?'a = nat] by simp

lemma unat_ucast_8_32 [simp]: "unat (ucast (b :: UCHAR) :: uint32) = unat b"
proof -
  have "unat b < 2 ^ 8" using unsigned_less[of b, where ?'a = nat] by simp
  then show ?thesis by (simp add: unsigned_ucast_eq take_bit_nat_eq_self)
qed

lemma CalChecksum_unat: "unat (CalChecksum c bs) = (unat c + sum_list (map unat bs)) mod 2 ^ 8"
  by (induction bs arbitrary: c) (simp_all add: unat_word_ariths mod_simps add.assoc)

lemma calChecksum16_unat: "unat (calChecksum16 c bs) = (unat c + sum_list (map unat bs)) mod 2 ^ 16"
  by (induction bs arbitrary: c) (simp_all add: unat_word_ariths mod_simps add.assoc)

lemma calChecksum32_unat: "unat (calChecksum32 c bs) = (unat c + sum_list (map unat bs)) mod 2 ^ 32"
  by (induction bs arbitrary: c) (simp_all add: unat_word_ariths mod_simps add.assoc)

lemma low_byte_32: "(ucast (w AND 0xFF :: 32 word) :: UCHAR) = ucast w"
proof -
  have m: "(0xFF :: 32 word) = mask 8" by (simp add: mask_eq_exp_minus_1)
  show ?thesis unfolding m by (intro bit_word_eqI) (simp add: bit_simps)
qed

lemma low_byte_16: "(ucast (w AND 0xFF :: 16 word) :: UCHAR) = ucast w"
proof -
  have m: "(0xFF :: 16 word) = mask 8" by (simp add: mask_eq_exp_minus_1)
  show ?thesis unfolding m by (intro bit_word_eqI) (simp add: bit_simps)
qed

lemma bit_byte_high: "8 \<le> n \<Longrightarrow> \<not> bit (b :: UCHAR) n"
  using bit_imp_le_length[of b n] by auto

lemma i32_bytes: "pu8_to_i32 (i32_to_pu8 w) = w"
proof (rule bit_word_eqI)
  fix n assume "n < LENGTH(32)"
  then consider "n < 8" | "8 \<le> n" "n < 16" | "16 \<le> n" "n < 24" | "24 \<le> n" "n < 32" by fastforce
  then show "bit (pu8_to_i32 (i32_to_pu8 w)) n = bit w n"
    by cases (auto simp: pu8_to_i32_def i32_to_pu8_def low_byte_32 bit_simps)
qed

lemma bytes_i32: "i32_to_pu8 (pu8_to_i32 [a, b, c, d]) = [a, b, c, d]"
  unfolding pu8_to_i32_def i32_to_pu8_def low_byte_32
  by (auto intro!: bit_word_eqI simp: bit_simps bit_byte_high)

lemma i16_bytes: "pu8_to_i16 [ucast (w AND 0xFF), ucast (drop_bit 8 w AND 0xFF)] = w"
proof (rule bit_word_eqI)
  fix n assume "n < LENGTH(16)"
  then consider "n < 8" | "8 \<le> n" "n < 16" by fastforce
  then show "bit (pu8_to_i16 [ucast (w AND 0xFF), ucast (drop_bit 8 w AND 0xFF)]) n = bit w n"
    by cases (auto simp: pu8_to_i16_def low_byte_16 bit_simps)
qed

lemma sint_word_of_int_fits:
  assumes "- (2 ^ (LENGTH('a) - 1)) \<le> i" "i < 2 ^ (LENGTH('a) - 1)"
  shows "sint (word_of_int i :: 'a::len word) = i"
proof -
  have "signed_take_bit (LENGTH('a) - 1) i = i" using assms by (intro signed_take_bit_int_eq_self) auto
  then show ?thesis using sint_sbintrunc'[of i, where ?'a = 'a] by simp
qed

lemma dbl_trunc_bound: "\<bar>x\<bar> < of_int b \<Longrightarrow> - b < dbl_trunc x \<and> dbl_trunc x < b"
proof (cases "0 \<le> x")
  case True
  assume "\<bar>x\<bar> < of_int b"
  then have "\<lfloor>x\<rfloor> < b" "0 \<le> \<lfloor>x\<rfloor>" using True by (simp_all add: floor_less_iff)
  then show ?thesis using True by (simp add: dbl_trunc_def del: zero_le_floor)
next
  case False
  assume "\<bar>x\<bar> < of_int b"
  then have "\<lfloor>- x\<rfloor> < b" "0 \<le> \<lfloor>- x\<rfloor>" using False by (simp_all add: floor_less_iff)
  then show ?thesis using False by (simp add: dbl_trunc_def del: zero_le_floor)
qed

section \<open>Properties\<close>

text \<open>Fact: the little-endian conversions invert each other on every 32-bit integer and on every four bytes.\<close>

theorem little_endian_roundtrip:
  "pu8_to_i32 (i32_to_pu8 w) = w \<and> i32_to_pu8 (pu8_to_i32 [a, b, c, d]) = [a, b, c, d]"
  by (simp add: i32_bytes bytes_i32)

text \<open>Fact: writing a \<open>float\<close> as four or two bytes and reading them back gives the value truncated towards
  zero, when the integer type can hold it; otherwise the conversion is undefined.\<close>

theorem float_bytes_truncate:
  "(\<bar>fval\<bar> < 2 ^ 15 \<longrightarrow> (\<exists>p. f32_to_pi16 fval = Inr p \<and> sint (pu8_to_i16 p) = dbl_trunc fval)) \<and>
   (\<bar>fval\<bar> < 2 ^ 31 \<longrightarrow> (\<exists>p. f32_to_pi32 fval = Inr p \<and> sint (pu8_to_i32 p) = dbl_trunc fval)) \<and>
   (2 ^ 31 \<le> fval \<longrightarrow> f32_to_pi32 fval = Inl Bad_conversion)"
proof (intro conjI impI)
  assume "\<bar>fval\<bar> < 2 ^ 15"
  then have "- (2 ^ 15) \<le> dbl_trunc fval \<and> dbl_trunc fval < 2 ^ 15" using dbl_trunc_bound[of fval "2 ^ 15"] by auto
  then show "\<exists>p. f32_to_pi16 fval = Inr p \<and> sint (pu8_to_i16 p) = dbl_trunc fval"
    using sint_word_of_int_fits[of "dbl_trunc fval", where ?'a = 16]
    by (simp add: f32_to_pi16_def f32_trunc_def Let_def i16_bytes)
next
  assume "\<bar>fval\<bar> < 2 ^ 31"
  then have "- (2 ^ 31) \<le> dbl_trunc fval \<and> dbl_trunc fval < 2 ^ 31" using dbl_trunc_bound[of fval "2 ^ 31"] by auto
  then show "\<exists>p. f32_to_pi32 fval = Inr p \<and> sint (pu8_to_i32 p) = dbl_trunc fval"
    using sint_word_of_int_fits[of "dbl_trunc fval", where ?'a = 32] i32_bytes[of "word_of_int (dbl_trunc fval)"]
    by (simp add: f32_to_pi32_def f32_trunc_def Let_def i32_to_pu8_def)
next
  assume "2 ^ 31 \<le> fval"
  then have "2 ^ 31 \<le> dbl_trunc fval" by (simp add: dbl_trunc_def le_floor_iff)
  then show "f32_to_pi32 fval = Inl Bad_conversion" by (simp add: f32_to_pi32_def f32_trunc_def Let_def)
qed

theorem float_bytes_truncate_witness:
  "\<exists>p. f32_to_pi16 (- 7 / 2) = Inr p \<and> sint (pu8_to_i16 p) = -3"
proof -
  have "\<lfloor>7 / 2 :: rat\<rfloor> = 3" by (rule floor_unique) simp_all
  then show ?thesis using float_bytes_truncate[of "- 7 / 2"] by (simp add: dbl_trunc_def)
qed

text \<open>The checksums are the sum of the bytes modulo the width of their type.\<close>

theorem checksums_are_sums:
  "unat (CalChecksum 0 bs) = sum_list (map unat bs) mod 2 ^ 8 \<and>
   unat (calChecksum16 0 bs) = sum_list (map unat bs) mod 2 ^ 16 \<and>
   unat (calChecksum32 0 bs) = sum_list (map unat bs) mod 2 ^ 32"
  by (simp add: CalChecksum_unat calChecksum16_unat calChecksum32_unat)

end
