(* ===== verification/Clock.thy ===== *)
theory Clock
  imports Misc "HOL-Library.Signed_Division"
begin

text \<open>
  The functions of \<open>platform/util/misc.c\<close> on dates, directories and processes. What the operating system answers is an
  argument; the calls a function makes are part of its result.
\<close>

section \<open>Dates\<close>

record tm =
  tm_year :: int
  tm_mon :: int
  tm_mday :: int
  tm_hour :: int
  tm_min :: int
  tm_sec :: int

definition misc_gettimeofday :: "timeval \<Rightarrow> dbl" where
  "misc_gettimeofday tv =
     dbl_add (dbl_mul (dbl_round (of_int (fst tv))) 1000) (dbl_div (dbl_round (of_int (snd tv))) 1000)"

definition misc_get_datetime :: "tm \<Rightarrow> int \<times> int \<times> int \<times> int \<times> int \<times> int" where
  "misc_get_datetime tsp = (1900 + tm_year tsp, 1 + tm_mon tsp, tm_mday tsp, tm_hour tsp, tm_min tsp, tm_sec tsp)"

text \<open>The day number of one date; C divides towards zero.\<close>

definition day_number :: "int \<Rightarrow> int \<Rightarrow> int \<Rightarrow> int" where
  "day_number year month day =
     (let m = (month + 9) smod 12;
          y = year - m sdiv 10
      in 365 * y + y sdiv 4 - y sdiv 100 + y sdiv 400 + (m * 306 + 5) sdiv 10 + (day - 1))"

definition misc_day_diff :: "int \<Rightarrow> int \<Rightarrow> int \<Rightarrow> int \<Rightarrow> int \<Rightarrow> int \<Rightarrow> int" where
  "misc_day_diff year_start month_start day_start year_end month_end day_end =
     day_number year_end month_end day_end - day_number year_start month_start day_start"

text \<open>\<open>%0nd\<close>: zeros up to the width, which counts the sign.\<close>

definition show_padded :: "nat \<Rightarrow> int \<Rightarrow> string" where
  "show_padded n i =
     (let ds = show_int \<bar>i\<bar>; sign = (if i < 0 then ''-'' else []) in sign @ replicate (n - length sign - length ds) (CHR ''0'') @ ds)"

text \<open>
  The text goes through a local array of 32 bytes; \<open>strncpy\<close> leaves the target without its terminating zero when the text
  has \<open>len\<close> characters or more.
\<close>

definition datetime_text :: "tm \<Rightarrow> string" where
  "datetime_text tsp =
     show_padded 4 (tm_year tsp + 1900) @ ''-'' @ show_padded 2 (tm_mon tsp + 1) @ ''-'' @ show_padded 2 (tm_mday tsp) @ '' ''
     @ show_padded 2 (tm_hour tsp) @ '':'' @ show_padded 2 (tm_min tsp) @ '':'' @ show_padded 2 (tm_sec tsp)"

definition strncpy_text :: "string \<Rightarrow> nat \<Rightarrow> string" where
  "strncpy_text s len = take len (s @ replicate (len - length s) (CHR 0x00))"

definition misc_gen_datetimestr :: "tm \<Rightarrow> nat \<Rightarrow> string res" where
  "misc_gen_datetimestr tsp len = bind_res (strcpy_buf 32 (datetime_text tsp)) (\<lambda>tmpbuf. Inr (strncpy_text tmpbuf len))"

definition misc_gen_timestring :: "tm \<Rightarrow> nat \<Rightarrow> string res" where
  "misc_gen_timestring tsp len =
     bind_res (strcpy_buf 32 (show_padded 2 (tm_hour tsp) @ '':'' @ show_padded 2 (tm_min tsp) @ '':'' @ show_padded 2 (tm_sec tsp)))
       (\<lambda>tmpbuf. Inr (strncpy_text tmpbuf len))"

definition misc_get_datetimestr :: "tm \<Rightarrow> nat \<Rightarrow> string res" where
  "misc_get_datetimestr tsp len = bind_res (strcpy_buf 32 (datetime_text tsp)) (\<lambda>tmpbuf. Inr (strncpy_text tmpbuf len))"

text \<open>1 when the first byte in memory of the integer 1 is its low byte.\<close>

definition JudgeEnd :: "(32 word \<Rightarrow> UCHAR list) \<Rightarrow> int" where
  "JudgeEnd bytes = (if bytes 1 ! 0 \<noteq> 0 then 1 else 0)"

text \<open>\<open>st_size\<close> as \<open>stat\<close> left it, squeezed into an \<open>int\<close>.\<close>

definition file_size :: "int \<Rightarrow> int" where
  "file_size st_size = sint (word_of_int st_size :: 32 word)"

section \<open>Directories\<close>

text \<open>
  The loop over \<open>DirName\<close>, which ends in a slash: at each slash but the one at position 0 the path before it. The result is
  the return value and the calls of \<open>mkdir\<close> with their paths.
\<close>

fun createDir_loop :: "(string \<Rightarrow> bool) \<Rightarrow> (string \<Rightarrow> bool) \<Rightarrow> string list \<Rightarrow> int \<times> string list" where
  "createDir_loop access mkdir [] = (0, [])"
| "createDir_loop access mkdir (d # ds) =
     (if access d then createDir_loop access mkdir ds
      else if mkdir d then (case createDir_loop access mkdir ds of (ret, made) \<Rightarrow> (ret, d # made))
      else (-1, [d]))"

definition dir_prefixes :: "string \<Rightarrow> string list" where
  "dir_prefixes dir = map (\<lambda>i. take i dir) (filter (\<lambda>i. dir ! i = CHR ''/'') [1..<length dir])"

text \<open>An empty name reads the byte before the array.\<close>

definition misc_createDir :: "(string \<Rightarrow> bool) \<Rightarrow> (string \<Rightarrow> bool) \<Rightarrow> string \<Rightarrow> (int \<times> string list) res" where
  "misc_createDir access mkdir sPathName =
     bind_res (strcpy_buf 256 sPathName) (\<lambda>DirName.
       if DirName = [] then Inl Out_of_bounds_read
       else bind_res (if last DirName = CHR ''/'' then Inr DirName else strcpy_buf 256 (DirName @ ''/'')) (\<lambda>dir.
         Inr (createDir_loop access mkdir (dir_prefixes dir))))"

section \<open>Daemon\<close>

text \<open>The system calls of the child, and what they answer.\<close>

datatype syscall =
    Sys_setsid | Sys_umask int | Sys_chdir string | Sys_open string | Sys_dup2 int int | Sys_close int | Sys_exit int | Sys_fork

record daemon_os =
  do_fork :: "int list"
  do_setsid :: int
  do_open :: int
  do_dup2 :: "int \<Rightarrow> int"
  do_sysconf :: int

text \<open>The result is the return value, or nothing in a parent that exits, with the calls made.\<close>

definition misc_daemon :: "daemon_os \<Rightarrow> bool \<Rightarrow> bool \<Rightarrow> int option \<times> syscall list" where
  "misc_daemon os nochdir noclose =
     (let pid = do_fork os ! 0
      in if pid = -1 then (Some (-1), [Sys_fork])
         else if pid \<noteq> 0 then (None, [Sys_fork, Sys_exit 0])
         else if do_setsid os = -1 then (Some (-1), [Sys_fork, Sys_setsid])
         else
           (let fd = do_open os
            in (Some 0, [Sys_fork, Sys_setsid] @ (if nochdir then [] else [Sys_chdir ''/''])
                @ (if noclose then []
                   else Sys_open ''/dev/null''
                     # (if fd = -1 then []
                        else [Sys_dup2 fd 0, Sys_dup2 fd 1, Sys_dup2 fd 2] @ (if fd > 2 then [Sys_close fd] else []))))))"

definition BD_NO_CHDIR :: int where "BD_NO_CHDIR = 1"

definition BD_NO_CLOSE_FILES :: int where "BD_NO_CLOSE_FILES = 2"

definition BD_NO_REOPEN_STD_FDS :: int where "BD_NO_REOPEN_STD_FDS = 4"

definition BD_NO_UMASK0 :: int where "BD_NO_UMASK0 = 8"

definition BD_MAX_CLOSE :: int where "BD_MAX_CLOSE = 8192"

definition flag_set :: "int \<Rightarrow> int \<Rightarrow> bool" where
  "flag_set flags b \<longleftrightarrow> flags AND b \<noteq> 0"

definition daemon_reopen :: "daemon_os \<Rightarrow> int \<times> syscall list" where
  "daemon_reopen os =
     (if do_open os \<noteq> 0 then (-1, [Sys_close 0, Sys_open ''/dev/null''])
      else if do_dup2 os 1 \<noteq> 1 then (-1, [Sys_close 0, Sys_open ''/dev/null'', Sys_dup2 0 1])
      else if do_dup2 os 2 \<noteq> 2 then (-1, [Sys_close 0, Sys_open ''/dev/null'', Sys_dup2 0 1, Sys_dup2 0 2])
      else (0, [Sys_close 0, Sys_open ''/dev/null'', Sys_dup2 0 1, Sys_dup2 0 2]))"

definition daemon_close_all :: "daemon_os \<Rightarrow> syscall list" where
  "daemon_close_all os =
     (let maxfd = (if do_sysconf os = -1 then BD_MAX_CLOSE else do_sysconf os) in map (\<lambda>fd. Sys_close (int fd)) [0..<nat maxfd])"

definition misc_becomeDaemon :: "daemon_os \<Rightarrow> int \<Rightarrow> int option \<times> syscall list" where
  "misc_becomeDaemon os flags =
     (let pid = do_fork os ! 0; pid2 = do_fork os ! 1
      in if pid = -1 then (Some (-1), [Sys_fork])
         else if pid \<noteq> 0 then (None, [Sys_fork, Sys_exit 0])
         else if do_setsid os = -1 then (Some (-1), [Sys_fork, Sys_setsid])
         else if pid2 = -1 then (Some (-1), [Sys_fork, Sys_setsid, Sys_fork])
         else if pid2 \<noteq> 0 then (None, [Sys_fork, Sys_setsid, Sys_fork, Sys_exit 0])
         else
           (let calls = [Sys_fork, Sys_setsid, Sys_fork]
                  @ (if flag_set flags BD_NO_UMASK0 then [] else [Sys_umask 0])
                  @ (if flag_set flags BD_NO_CHDIR then [] else [Sys_chdir ''/''])
                  @ (if flag_set flags BD_NO_CLOSE_FILES then [] else daemon_close_all os)
            in if flag_set flags BD_NO_REOPEN_STD_FDS then (Some 0, calls)
               else (case daemon_reopen os of (ret, more_calls) \<Rightarrow> (Some ret, calls @ more_calls))))"

section \<open>The calendar\<close>

definition leap_year :: "int \<Rightarrow> bool" where
  "leap_year y \<longleftrightarrow> y mod 4 = 0 \<and> (y mod 100 \<noteq> 0 \<or> y mod 400 = 0)"

definition month_days :: "int \<Rightarrow> int \<Rightarrow> int" where
  "month_days y m = (if m = 2 then if leap_year y then 29 else 28 else if m \<in> {4, 6, 9, 11} then 30 else 31)"

type_synonym date = "int \<times> int \<times> int"

fun valid_date :: "date \<Rightarrow> bool" where
  "valid_date (y, m, d) \<longleftrightarrow> 1 \<le> y \<and> 1 \<le> m \<and> m \<le> 12 \<and> 1 \<le> d \<and> d \<le> month_days y m"

fun next_day :: "date \<Rightarrow> date" where
  "next_day (y, m, d) =
     (if d < month_days y m then (y, m, d + 1) else if m < 12 then (y, m + 1, 1) else (y + 1, 1, 1))"

lemma valid_next_day: "valid_date x \<Longrightarrow> valid_date (next_day x)"
  by (cases x) (auto simp: month_days_def)

lemma sdiv_nonneg [simp]: "0 \<le> a \<Longrightarrow> 0 < b \<Longrightarrow> (a::int) sdiv b = a div b"
  by (cases "a = 0") (simp_all add: signed_divide_int_def sgn_if)

lemma smod_nonneg [simp]: "0 \<le> a \<Longrightarrow> 0 < b \<Longrightarrow> (a::int) smod b = a mod b"
  by (cases "a = 0") (simp_all add: signed_modulo_int_def sgn_if)

lemma div_pred:
  assumes "0 < b"
  shows "(y::int) div b = (y - 1) div b + (if y mod b = 0 then 1 else 0)"
proof -
  have e: "y - 1 = b * (y div b) + (y mod b - 1)" by simp
  have r: "0 \<le> y mod b" "y mod b < b" using assms by simp_all
  show ?thesis
  proof (cases "y mod b = 0")
    case True
    then have "y - 1 = b * (y div b - 1) + (b - 1)" using e by (simp add: algebra_simps)
    then have "(y - 1) div b = y div b - 1" using assms int_div_pos_eq[of "y - 1" b "y div b - 1" "b - 1"] by simp
    then show ?thesis using True by simp
  next
    case False
    then show ?thesis using int_div_pos_eq[OF e] r by simp
  qed
qed

text \<open>The year that begins in March counts its leap day at the end.\<close>

lemma leap_days:
  "y div 4 - y div 100 + y div 400 = (y - 1) div 4 - (y - 1) div 100 + (y - 1) div 400 + (if leap_year y then 1 else 0)"
proof -
  have h: "y mod 400 = 0 \<Longrightarrow> y mod 100 = 0" "y mod 100 = 0 \<Longrightarrow> y mod 4 = 0" by presburger+
  have d: "y div 4 = (y - 1) div 4 + (if y mod 4 = 0 then 1 else 0)" "y div 100 = (y - 1) div 100 + (if y mod 100 = 0 then 1 else 0)"
    "y div 400 = (y - 1) div 400 + (if y mod 400 = 0 then 1 else 0)" by (rule div_pred, simp)+
  show ?thesis unfolding d leap_year_def using h by (cases "y mod 4 = 0"; cases "y mod 100 = 0"; cases "y mod 400 = 0") auto
qed

definition month_offset :: "int \<Rightarrow> int" where
  "month_offset m = ((m + 9) mod 12 * 306 + 5) div 10"

lemma month_cases:
  assumes "1 \<le> m" "m \<le> (12::int)"
  obtains "m = 1" | "m = 2" | "m = 3" | "m = 4" | "m = 5" | "m = 6" | "m = 7" | "m = 8" | "m = 9" | "m = 10" | "m = 11" | "m = 12"
proof -
  have "m \<in> set [1..12]" using assms by simp
  also have "[1..12] = [1, 2, 3, 4, 5, 6, 7, 8, 9, 10, 11, 12 :: int]" by (simp add: upto_rec1)
  finally show thesis using that by auto
qed

lemma month_offsets [simp]:
  "month_offset 1 = 306" "month_offset 2 = 337" "month_offset 3 = 0" "month_offset 4 = 31" "month_offset 5 = 61"
  "month_offset 6 = 92" "month_offset 7 = 122" "month_offset 8 = 153" "month_offset 9 = 184" "month_offset 10 = 214"
  "month_offset 11 = 245" "month_offset 12 = 275"
  by (simp_all add: month_offset_def)

definition year_days :: "int \<Rightarrow> int" where
  "year_days y = 365 * y + (y div 4 - y div 100 + y div 400)"

lemma year_days_step: "year_days y = year_days (y - 1) + (if leap_year y then 366 else 365)"
  using leap_days[of y] by (simp add: year_days_def)

lemma day_number_eq:
  assumes "1 \<le> y" "1 \<le> m" "m \<le> 12"
  shows "day_number y m d = year_days (if m \<le> 2 then y - 1 else y) + month_offset m + (d - 1)"
proof -
  have "(m + 9) smod 12 = (m + 9) mod 12" "(m + 9) mod 12 sdiv 10 = (m + 9) mod 12 div 10"
    "((m + 9) mod 12 * 306 + 5) sdiv 10 = month_offset m" using assms by (simp_all add: month_offset_def)
  moreover have "(m + 9) mod 12 div 10 = (if m \<le> 2 then 1 else 0)" using assms(2,3) by (cases rule: month_cases) simp_all
  ultimately show ?thesis using assms(1) by (simp add: day_number_def year_days_def Let_def)
qed

lemma month_step:
  assumes "1 \<le> y" "1 \<le> m" "m < 12"
  shows "day_number y (m + 1) 1 = day_number y m (month_days y m) + 1"
proof -
  have m: "1 \<le> m" "m \<le> 12" using assms by simp_all
  show ?thesis
    using m
  proof (cases rule: month_cases)
    case 2
    then show ?thesis using assms(1) year_days_step[of y] by (simp add: day_number_eq month_days_def)
  qed (use assms in \<open>simp_all add: day_number_eq month_days_def\<close>)
qed

lemma year_step: "1 \<le> y \<Longrightarrow> day_number (y + 1) 1 1 = day_number y 12 31 + 1"
  by (simp add: day_number_eq)

lemma day_number_step:
  assumes "valid_date (y, m, d)" "next_day (y, m, d) = (y', m', d')"
  shows "day_number y' m' d' = day_number y m d + 1"
proof (cases "d < month_days y m")
  case True
  then show ?thesis using assms by (auto simp: day_number_def Let_def)
next
  case False
  then have d: "d = month_days y m" using assms(1) by simp
  show ?thesis
  proof (cases "m < 12")
    case True
    then show ?thesis using assms d month_step[of y m] by auto
  next
    case False
    then have "m = 12" using assms(1) by simp
    then show ?thesis using assms d year_step[of y] by (auto simp: month_days_def)
  qed
qed

section \<open>Properties\<close>

text \<open>Fact: \<open>misc_day_diff\<close> counts the days of the Gregorian calendar: from a date of a year after 0 to the date \<open>n\<close> days later
  it returns \<open>n\<close>.\<close>

theorem day_diff_counts_days:
  assumes "valid_date (y, m, d)" "(next_day ^^ n) (y, m, d) = (y', m', d')"
  shows "misc_day_diff y m d y' m' d' = int n"
  using assms(2)
proof (induction n arbitrary: y' m' d')
  case 0
  then show ?case by (simp add: misc_day_diff_def)
next
  case (Suc n)
  obtain y1 m1 d1 where x: "(next_day ^^ n) (y, m, d) = (y1, m1, d1)" by (metis prod_cases3)
  have "valid_date ((next_day ^^ n) (y, m, d))" by (induction n) (use assms(1) valid_next_day in auto)
  then have "day_number y' m' d' = day_number y1 m1 d1 + 1" using day_number_step[of y1 m1 d1 y' m' d'] Suc(2) x by simp
  then show ?case using Suc(1)[OF x] by (simp add: misc_day_diff_def)
qed

theorem day_diff_counts_days_witness: "misc_day_diff 2024 2 28 2024 3 1 = 2"
  using day_diff_counts_days[of 2024 2 28 2 2024 3 1] by (simp add: numeral_eq_Suc month_days_def leap_year_def)

end
