(* ===== verification/Stats.thy ===== *)
theory Stats
  imports StateMachine Clock
begin

text \<open>
  The statistics: how long an acquisition takes, \<open>platform/util/comm/comm.c\<close>, and how busy the machine is,
  \<open>platform/device/misc/mac.c\<close>. Single precision numbers are rationals rounded to 24 bits.
\<close>

section \<open>Communication\<close>

record dac_t =
  dac_param_en :: int
  totalcnt :: dbl
  totaltime :: dbl
  dac_timing_ave :: dbl
  dac_timing_max :: dbl
  dac_timing_cur :: dbl
  timing_start :: dbl
  timing_end :: dbl

record comm_t =
  cm_chanidx :: int
  cm_adr :: int
  cm_state :: int
  cm_szState :: string
  cm_dac :: dac_t

definition COMMST_NORMAL :: int where "COMMST_NORMAL = 0"

definition COMMST_ERR :: int where "COMMST_ERR = 1"

definition comm_get_timeofday :: "timeval \<Rightarrow> dbl" where
  "comm_get_timeofday tv =
     dbl_add (dbl_mul (dbl_round (of_int (fst tv))) 1000) (dbl_div (dbl_round (of_int (snd tv))) 1000)"

definition comm_set_state :: "comm_t \<Rightarrow> int \<Rightarrow> comm_t" where
  "comm_set_state comm state =
     comm\<lparr>cm_state := state,
          cm_szState := (if state = COMMST_NORMAL then ''norm'' else if state = COMMST_ERR then ''err'' else ''unknown'')\<rparr>"

definition comm_get_state :: "comm_t \<Rightarrow> int" where "comm_get_state comm = cm_state comm"

definition comm_set_dac_param_en :: "comm_t \<Rightarrow> int \<Rightarrow> comm_t" where
  "comm_set_dac_param_en comm v = comm\<lparr>cm_dac := (cm_dac comm)\<lparr>dac_param_en := v\<rparr>\<rparr>"

definition comm_get_dac_param_en :: "comm_t \<Rightarrow> int" where "comm_get_dac_param_en comm = dac_param_en (cm_dac comm)"

definition comm_start_cal_dac_timing :: "timeval \<Rightarrow> comm_t \<Rightarrow> comm_t" where
  "comm_start_cal_dac_timing tv comm = comm\<lparr>cm_dac := (cm_dac comm)\<lparr>timing_start := comm_get_timeofday tv\<rparr>\<rparr>"

text \<open>One measurement is taken, or the statistics begin anew; -0.1 is the double next to it.\<close>

definition dac_reset :: "dac_t \<Rightarrow> dac_t" where
  "dac_reset d = d\<lparr>dac_timing_ave := -1, dac_timing_max := -1, dac_timing_cur := -1, totalcnt := 0, totaltime := 0\<rparr>"

definition dac_sample :: "dbl \<Rightarrow> dac_t \<Rightarrow> dac_t" where
  "dac_sample now d =
     (let c = dbl_sub now (timing_start d);
          n = dbl_add (totalcnt d) 1;
          t = dbl_add (totaltime d) c
      in d\<lparr>timing_end := now, dac_timing_cur := c, totalcnt := (if n > 1640000 then -1 else n), totaltime := t,
           dac_timing_ave := dbl_div t n, dac_timing_max := (if c > dac_timing_max d then c else dac_timing_max d)\<rparr>)"

definition comm_stop_cal_dac_timing :: "timeval \<Rightarrow> comm_t \<Rightarrow> comm_t" where
  "comm_stop_cal_dac_timing tv comm =
     comm\<lparr>cm_dac := (if totalcnt (cm_dac comm) < dbl_round (-1 / 10) then dac_reset (cm_dac comm)
                     else dac_sample (comm_get_timeofday tv) (cm_dac comm))\<rparr>"

definition comm_reset :: "comm_t \<Rightarrow> comm_t" where
  "comm_reset comm = comm_set_dac_param_en (comm_set_state comm COMMST_NORMAL) 1"

definition comm_get_adr :: "comm_t \<Rightarrow> int" where "comm_get_adr comm = cm_adr comm"

definition comm_get_chan_idx :: "comm_t \<Rightarrow> int" where "comm_get_chan_idx comm = cm_chanidx comm"

definition comm_get_state_str :: "comm_t \<Rightarrow> string" where "comm_get_state_str comm = cm_szState comm"

text \<open>
  The texts of the statistics; \<open>%.0f\<close> rounds to the nearest integer, ties to even, and keeps the sign. The size of the
  buffer is not looked at.
\<close>

definition show_f0 :: "dbl \<Rightarrow> string" where
  "show_f0 x = (if x < 0 then ''-'' else []) @ show_int (round_even \<bar>x\<bar>)"

definition comm_get_summary :: "comm_t \<Rightarrow> string" where
  "comm_get_summary comm =
     ''chan:'' @ show_int (cm_chanidx comm) @ '' adr:'' @ show_int (cm_adr comm) @ '' state:'' @ cm_szState comm
     @ '' dac_timing_ave(ms):'' @ show_f0 (dac_timing_ave (cm_dac comm)) @ '' max:'' @ show_f0 (dac_timing_max (cm_dac comm))
     @ '' cur:'' @ show_f0 (dac_timing_cur (cm_dac comm))"

definition sm_get_summary :: "statemachine_t \<Rightarrow> string" where
  "sm_get_summary sm =
     ''SM stat:'' @ [CHR 0x1B] @ ''[1;33m'' @ sm_szstate sm @ [CHR 0x1B] @ ''[0m'' @ '' stp:'' @ show_int (sm_step sm)
     @ '' err:['' @ sm_szerrcode sm @ ''] tick:'' @ show_padded 3 (uint (sm_tick sm)) @ '' timing_ave(ms):'' @ show_f0 (timing_ave sm)
     @ '' cur:'' @ show_f0 (timing_cur sm) @ '' max:'' @ show_f0 (timing_max sm)"

section \<open>Machine\<close>

type_synonym flt = rat

definition flt_round :: "rat \<Rightarrow> flt" where
  "flt_round x = (if x = 0 then 0 else let u = pow2 (binexp x - 23) in of_int (round_even (x / u)) * u)"

record cpu_info_t =
  cpu_name :: string
  cpu_user :: uint32
  cpu_nic :: uint32
  cpu_system :: uint32
  cpu_idle :: uint32

text \<open>The fields of the first line of \<open>/proc/stat\<close>; the name goes into 20 bytes without a bound.\<close>

definition mac_get_cpu_info :: "string \<times> uint32 \<times> uint32 \<times> uint32 \<times> uint32 \<Rightarrow> cpu_info_t res" where
  "mac_get_cpu_info line =
     (case line of (name, user, nic, sys, idle) \<Rightarrow>
        bind_res (strcpy_buf 20 name) (\<lambda>n. Inr \<lparr>cpu_name = n, cpu_user = user, cpu_nic = nic, cpu_system = sys, cpu_idle = idle\<rparr>))"

text \<open>The sums and differences of the counters are taken in 32 bits and then widened; the difference of the sums in 64.\<close>

definition cpu_time :: "cpu_info_t \<Rightarrow> 64 word" where
  "cpu_time c = ucast (cpu_user c + cpu_nic c + cpu_system c + cpu_idle c)"

definition mac_cal_cpu_occupy :: "cpu_info_t \<Rightarrow> cpu_info_t \<Rightarrow> flt" where
  "mac_cal_cpu_occupy first second =
     (let usr_Time_Diff = ucast (cpu_user second - cpu_user first) :: 64 word;
          sys_Time_Diff = ucast (cpu_system second - cpu_system first) :: 64 word;
          nic_Time_Diff = ucast (cpu_nic second - cpu_nic first) :: 64 word;
          d = cpu_time second - cpu_time first
      in if d \<noteq> 0
         then flt_round (flt_round (100 * flt_round (of_nat (unat (usr_Time_Diff + sys_Time_Diff + nic_Time_Diff)))) / flt_round (of_nat (unat d)))
         else 0)"

text \<open>A machine with less than one MiB divides by zero.\<close>

definition mac_get_mem_occupy :: "int \<Rightarrow> nat \<Rightarrow> nat \<Rightarrow> flt res" where
  "mac_get_mem_occupy ret freeram totalram =
     (if ret = 0
      then
        let free = flt_round (of_nat (freeram div (1024 * 1024))); total = flt_round (of_nat (totalram div (1024 * 1024)))
        in if total = 0 then Inl Division_by_zero
           else Inr (flt_round (dbl_mul (flt_round (flt_round (total - free) / total)) 100))
      else Inr (-1))"

text \<open>The lines of \<open>df\<close> after its head, blocks and used blocks, up to the first that does not parse.\<close>

fun disk_sums :: "(dbl \<times> dbl) list \<Rightarrow> dbl \<Rightarrow> dbl \<Rightarrow> dbl \<times> dbl" where
  "disk_sums [] dev_total dev_used = (dev_total, dev_used)"
| "disk_sums ((b, c) # ls) dev_total dev_used = disk_sums ls (dbl_add dev_total b) (dbl_add dev_used c)"

definition mac_get_disk_occupy :: "(dbl \<times> dbl) list \<Rightarrow> flt res" where
  "mac_get_disk_occupy ls =
     (case disk_sums ls 0 0 of (dev_total, dev_used) \<Rightarrow>
        if dev_total = 0 then Inl Division_by_zero else Inr (flt_round (dbl_mul (dbl_div dev_used dev_total) 100)))"

record mac_t =
  cpu_occupy :: flt
  mem_occupy :: flt
  disk_occupy :: flt
  cal_timer :: int
  cal_intv :: int

record mac_st =
  ms_mac :: mac_t
  ms_last :: cpu_info_t

record mac_os =
  mo_stat :: "string \<times> uint32 \<times> uint32 \<times> uint32 \<times> uint32"
  mo_sysinfo :: int
  mo_freeram :: nat
  mo_totalram :: nat

definition mac_init :: "mac_os \<Rightarrow> mac_st res" where
  "mac_init os =
     bind_res (mac_get_cpu_info (mo_stat os)) (\<lambda>c.
       Inr \<lparr>ms_mac = \<lparr>cpu_occupy = 0, mem_occupy = 0, disk_occupy = 0, cal_timer = 0, cal_intv = 60\<rparr>, ms_last = c\<rparr>)"

definition mac_refresh :: "mac_os \<Rightarrow> mac_st \<Rightarrow> mac_st res" where
  "mac_refresh os m =
     bind_res (mac_get_cpu_info (mo_stat os)) (\<lambda>c.
     bind_res (mac_get_mem_occupy (mo_sysinfo os) (mo_freeram os) (mo_totalram os)) (\<lambda>mem.
       Inr \<lparr>ms_mac = (ms_mac m)\<lparr>cal_timer := 0, cpu_occupy := mac_cal_cpu_occupy (ms_last m) c, mem_occupy := mem\<rparr>, ms_last = c\<rparr>))"

definition mac_exe :: "mac_os \<Rightarrow> mac_st \<Rightarrow> mac_st res" where
  "mac_exe os m =
     (if cal_timer (ms_mac m) \<ge> cal_intv (ms_mac m) then mac_refresh os m
      else Inr (m\<lparr>ms_mac := (ms_mac m)\<lparr>cal_timer := cal_timer (ms_mac m) + 1\<rparr>\<rparr>))"

definition mac_get_cpu_occupy :: "string \<times> uint32 \<times> uint32 \<times> uint32 \<times> uint32 \<Rightarrow> string \<times> uint32 \<times> uint32 \<times> uint32 \<times> uint32 \<Rightarrow> flt res" where
  "mac_get_cpu_occupy line1 line2 =
     bind_res (mac_get_cpu_info line1) (\<lambda>first. bind_res (mac_get_cpu_info line2) (\<lambda>second. Inr (mac_cal_cpu_occupy first second)))"

section \<open>Rounding\<close>

lemma flt_round_int:
  assumes "n < 2 ^ 24"
  shows "flt_round (of_nat n) = of_nat n"
proof (cases "n = 0")
  case True
  then show ?thesis by (simp add: flt_round_def)
next
  case False
  define b where "b = binexp (of_nat n)"
  have n0: "(of_nat n :: rat) \<noteq> 0" using False by simp
  have "pow2 b \<le> of_nat n" using binexp_bounds[OF n0] by (simp add: b_def)
  also have "(of_nat n :: rat) < of_nat (2 ^ 24)" using assms by (simp only: of_nat_less_iff)
  also have "\<dots> = pow2 24" by (simp add: pow2_def)
  finally have "b < 24" by (rule pow2_less_cancel)
  then have p: "pow2 (23 - b) = of_int (2 ^ nat (23 - b))" by (simp add: pow2_def)
  have u: "pow2 (23 - b) * pow2 (b - 23) = 1" using pow2_inverse[of "23 - b"] by simp
  have u0: "pow2 (b - 23) \<noteq> 0" using u by auto
  have "(of_nat n :: rat) / pow2 (b - 23) = of_nat n * pow2 (23 - b)" using u u0 by (simp add: divide_eq_eq mult.assoc)
  also have "\<dots> = of_int (int n * 2 ^ nat (23 - b))" by (simp add: p)
  finally have "round_even (of_nat n / pow2 (b - 23)) = int n * 2 ^ nat (23 - b)" by (simp only: round_even_int)
  then have "flt_round (of_nat n) = of_nat n * pow2 (23 - b) * pow2 (b - 23)" using n0 by (simp add: flt_round_def b_def[symmetric] p)
  then show ?thesis using u by (simp add: mult.assoc)
qed

lemma flt_round_error: "\<bar>flt_round y - y\<bar> \<le> \<bar>y\<bar> / 2 ^ 24"
proof (cases "y = 0")
  case True
  then show ?thesis by (simp add: flt_round_def)
next
  case False
  define u where "u = pow2 (binexp y - 23)"
  define k where "k = round_even (y / u)"
  have u: "0 < u" by (simp add: u_def)
  have r: "flt_round y = of_int k * u" using False by (simp add: flt_round_def Let_def u_def k_def)
  have "\<bar>flt_round y - y\<bar> = \<bar>y / u - of_int k\<bar> * u"
  proof -
    have "y = y / u * u" using u by simp
    then have "flt_round y - y = (of_int k - y / u) * u" unfolding r by (metis left_diff_distrib)
    then show ?thesis using u by (simp add: abs_mult abs_minus_commute)
  qed
  also have "\<dots> \<le> 1 / 2 * u" unfolding k_def using u by (intro mult_right_mono round_even_near) simp
  also have "2 ^ 23 * u \<le> \<bar>y\<bar>" using binexp_bounds[OF False] pow2_add[of 23 "binexp y - 23"] by (simp add: u_def pow2_def[of 23])
  then have "1 / 2 * u \<le> \<bar>y\<bar> / 2 ^ 24" by simp
  finally show ?thesis .
qed

section \<open>Properties\<close>

text \<open>The ticks of all kinds, and those that were not idle.\<close>

definition ticks :: "cpu_info_t \<Rightarrow> nat" where
  "ticks c = unat (cpu_user c) + unat (cpu_nic c) + unat (cpu_system c) + unat (cpu_idle c)"

definition busy_ticks :: "cpu_info_t \<Rightarrow> nat" where
  "busy_ticks c = unat (cpu_user c) + unat (cpu_nic c) + unat (cpu_system c)"

lemma cpu_time_ticks: "ticks c < 2 ^ 32 \<Longrightarrow> unat (cpu_time c) = ticks c"
  by (simp add: cpu_time_def ticks_def unsigned_ucast_eq take_bit_nat_eq_self unat_word_ariths)

lemma unat_wide: "unat (ucast (w :: 32 word) :: 64 word) = unat w"
  using unsigned_less[of w, where ?'a = nat] by (simp add: unsigned_ucast_eq take_bit_nat_eq_self)

lemma unat_sub_mono: "a \<le> b \<Longrightarrow> unat (b - a) = unat b - unat (a :: 'a::len word)"
  by (rule unat_sub)

lemma unat_wide_sum: "unat (ucast (a :: 32 word) + ucast (b :: 32 word) + ucast (d :: 32 word) :: 64 word) = unat a + unat b + unat d"
proof -
  have "unat a < 2 ^ 32" "unat b < 2 ^ 32" "unat d < 2 ^ 32"
    using unsigned_less[of a, where ?'a = nat] unsigned_less[of b, where ?'a = nat] unsigned_less[of d, where ?'a = nat] by simp_all
  then have "unat a + unat b + unat d < 2 ^ 64" by simp
  then show ?thesis unfolding unat_word_ariths unat_wide mod_simps by simp
qed

text \<open>Fact: the occupancy of the processor is the share of busy ticks in per cent, up to the rounding of one float, when no
  counter runs backwards or over, the sum of the counters stays below \<open>2\<^sup>3\<^sup>2\<close>, and at most 167772 ticks pass.\<close>

theorem cpu_occupancy_is_busy_share:
  assumes "cpu_user c \<le> cpu_user c'" "cpu_nic c \<le> cpu_nic c'" "cpu_system c \<le> cpu_system c'" "cpu_idle c \<le> cpu_idle c'"
    "ticks c' < 2 ^ 32" "ticks c < ticks c'" "ticks c' - ticks c \<le> 167772"
  shows "\<bar>mac_cal_cpu_occupy c c' - 100 * of_nat (busy_ticks c' - busy_ticks c) / of_nat (ticks c' - ticks c)\<bar> \<le> 100 / 2 ^ 24"
proof -
  let ?b = "busy_ticks c' - busy_ticks c" and ?d = "ticks c' - ticks c"
  have le: "unat (cpu_user c) \<le> unat (cpu_user c')" "unat (cpu_nic c) \<le> unat (cpu_nic c')"
    "unat (cpu_system c) \<le> unat (cpu_system c')" "unat (cpu_idle c) \<le> unat (cpu_idle c')"
    using assms(1-4) by (simp_all add: word_le_nat_alt)
  have bd: "?b \<le> ?d" using le by (simp add: ticks_def busy_ticks_def)
  have b: "unat (ucast (cpu_user c' - cpu_user c) + ucast (cpu_system c' - cpu_system c) + ucast (cpu_nic c' - cpu_nic c) :: 64 word) = ?b"
    unfolding unat_wide_sum using assms(1-3) le by (simp add: unat_sub_mono busy_ticks_def)
  have t: "cpu_time c \<le> cpu_time c'" using assms(5,6) by (simp add: word_le_nat_alt cpu_time_ticks)
  have d: "unat (cpu_time c' - cpu_time c) = ?d" using t assms(5,6) by (simp add: unat_sub_mono cpu_time_ticks)
  then have d0: "cpu_time c' - cpu_time c \<noteq> 0" using assms(6) by auto
  define B where "B = ?b"
  define D where "D = ?d"
  have BD: "B \<le> D" "D \<le> 167772" "0 < D" using bd assms(6,7) by (simp_all add: B_def D_def)
  have "B < 2 ^ 24" "D < 2 ^ 24" "100 * B < 2 ^ 24" using BD by simp_all
  note f = this[THEN flt_round_int]
  have r: "mac_cal_cpu_occupy c c' = flt_round (100 * of_nat B / of_nat D)"
    unfolding mac_cal_cpu_occupy_def Let_def b d B_def[symmetric] D_def[symmetric] f using d0 f by simp
  have "(of_nat B :: rat) \<le> of_nat D" using BD by (simp only: of_nat_le_iff)
  then have "100 * of_nat B / of_nat D \<le> (100 :: rat)" using BD(3) by (simp add: divide_le_eq)
  moreover have "0 \<le> (100 * of_nat B / of_nat D :: rat)" by simp
  ultimately have "\<bar>100 * of_nat B / of_nat D :: rat\<bar> / 2 ^ 24 \<le> 100 / 2 ^ 24" by (intro divide_right_mono) auto
  then show ?thesis unfolding r B_def[symmetric] D_def[symmetric] using flt_round_error[of "100 * of_nat B / of_nat D"] by linarith
qed

definition sample_cpu :: "uint32 \<Rightarrow> uint32 \<Rightarrow> cpu_info_t" where
  "sample_cpu user idle = \<lparr>cpu_name = ''cpu'', cpu_user = user, cpu_nic = 0, cpu_system = 0, cpu_idle = idle\<rparr>"

theorem cpu_occupancy_is_busy_share_witness:
  "\<bar>mac_cal_cpu_occupy (sample_cpu 100 100) (sample_cpu 200 400) - 25\<bar> \<le> 100 / 2 ^ 24"
  using cpu_occupancy_is_busy_share[of "sample_cpu 100 100" "sample_cpu 200 400"]
  by (simp add: sample_cpu_def ticks_def busy_ticks_def)

fun mac_run :: "mac_os list \<Rightarrow> mac_st \<Rightarrow> mac_st res" where
  "mac_run [] m = Inr m"
| "mac_run (os # oss) m = bind_res (mac_exe os m) (mac_run oss)"

lemma mac_exe_timer:
  "mac_exe os m = Inr m' \<Longrightarrow> 0 \<le> cal_timer (ms_mac m) \<Longrightarrow> cal_timer (ms_mac m) \<le> 60 \<Longrightarrow> cal_intv (ms_mac m) = 60 \<Longrightarrow>
   cal_timer (ms_mac m') = (cal_timer (ms_mac m) + 1) mod 61 \<and> cal_intv (ms_mac m') = 60"
  by (auto simp: mac_exe_def mac_refresh_def res_simps split: if_splits)

text \<open>Fact: the statistics of the machine are taken at every sixty-first call, although the interval is set to 60: after \<open>n\<close>
  calls the timer stands at \<open>n mod 61\<close>, and a call at which it stands at 60 is the one that measures.\<close>

theorem mac_measures_every_61_calls:
  assumes "mac_init os0 = Inr m" "mac_run oss m = Inr m'" "mac_exe os m' = Inr m''"
  shows "cal_timer (ms_mac m') = int (length oss) mod 61 \<and>
    (length oss mod 61 = 60 \<longrightarrow> mac_refresh os m' = Inr m'') \<and> (length oss mod 61 \<noteq> 60 \<longrightarrow> ms_last m'' = ms_last m')"
proof -
  have run: "cal_timer (ms_mac m') = (t + int (length oss)) mod 61 \<and> cal_intv (ms_mac m') = 60"
    if "mac_run oss m = Inr m'" "t = cal_timer (ms_mac m)" "0 \<le> t" "t \<le> 60" "cal_intv (ms_mac m) = 60" for oss m t
    using that
  proof (induction oss arbitrary: m t)
    case (Cons os oss)
    obtain m1 where m1: "mac_exe os m = Inr m1" "mac_run oss m1 = Inr m'" using Cons(2) by (auto simp: res_simps)
    have t1: "cal_timer (ms_mac m1) = (t + 1) mod 61" "cal_intv (ms_mac m1) = 60" using mac_exe_timer[OF m1(1)] Cons(3-6) by simp_all
    have "cal_timer (ms_mac m') = ((t + 1) mod 61 + int (length oss)) mod 61 \<and> cal_intv (ms_mac m') = 60"
      using Cons(1)[OF m1(2), of "(t + 1) mod 61"] t1 by simp
    then show ?case by (simp add: mod_simps ac_simps)
  qed simp
  have i: "cal_timer (ms_mac m) = 0" "cal_intv (ms_mac m) = 60" using assms(1) by (auto simp: mac_init_def res_simps)
  define k where "k = length oss mod 61"
  have k: "k < 61" by (simp add: k_def)
  have r: "cal_timer (ms_mac m') = int k" "cal_intv (ms_mac m') = 60" using run[OF assms(2), of 0] i by (simp_all add: zmod_int k_def)
  then have "(k = 60 \<longrightarrow> mac_refresh os m' = Inr m'') \<and> (k \<noteq> 60 \<longrightarrow> ms_last m'' = ms_last m')"
    using assms(3) k by (auto simp: mac_exe_def split: if_splits)
  then show ?thesis using r by (simp add: k_def zmod_int)
qed

theorem mac_measures_every_61_calls_witness:
  "\<exists>m m'. mac_init \<lparr>mo_stat = (''cpu'', 1, 0, 0, 9), mo_sysinfo = -1, mo_freeram = 0, mo_totalram = 0\<rparr> = Inr m \<and>
    mac_exe \<lparr>mo_stat = (''cpu'', 5, 0, 0, 15), mo_sysinfo = -1, mo_freeram = 0, mo_totalram = 0\<rparr> m = Inr m' \<and> ms_last m' = ms_last m"
proof -
  let ?os = "\<lparr>mo_stat = (''cpu'', 1, 0, 0, 9), mo_sysinfo = -1, mo_freeram = 0, mo_totalram = 0\<rparr>"
  let ?os' = "\<lparr>mo_stat = (''cpu'', 5, 0, 0, 15), mo_sysinfo = -1, mo_freeram = 0, mo_totalram = 0\<rparr>"
  obtain m where m: "mac_init ?os = Inr m" by (simp add: mac_init_def mac_get_cpu_info_def)
  obtain m' where m': "mac_exe ?os' m = Inr m'" using m by (auto simp: mac_exe_def mac_init_def mac_get_cpu_info_def)
  have "mac_run [] m = Inr m" by simp
  from mac_measures_every_61_calls[OF m this m'] show ?thesis using m m' by auto
qed

end
