(* ===== verification/Log.thy ===== *)
theory Log
  imports NumText
begin

text \<open>
  The number printers of \<open>platform/util/log/log.c\<close>, which append to a buffer of 2048 characters.
\<close>

section \<open>Buffer\<close>

definition LOG_BUF_SIZE :: nat where "LOG_BUF_SIZE = 2048"

text \<open>The characters written so far; their number is the index \<open>i\<close>.\<close>

type_synonym buf_t = string

definition log_putchar :: "buf_t \<Rightarrow> char \<Rightarrow> buf_t res" where
  "log_putchar b c = (if length b < LOG_BUF_SIZE then Inr (b @ [c]) else Inl Buffer_overflow)"

section \<open>Time stamps\<close>

text \<open>The seconds of \<open>time\<close>, and the milliseconds in the time zone of the uplink, whose hours are added with their sign.\<close>

definition log_get_unixts :: "int \<Rightarrow> int" where "log_get_unixts time = time"

definition log_get_timezonets :: "int \<Rightarrow> int \<Rightarrow> int" where
  "log_get_timezonets time tz = (log_get_unixts time + tz * 3600) * 1000"

section \<open>Integers\<close>

text \<open>The three bases that the callers use.\<close>

datatype base = Base_8 | Base_10 | Base_16

fun base_nbr :: "base \<Rightarrow> nat" where
  "base_nbr Base_8 = 8"
| "base_nbr Base_10 = 10"
| "base_nbr Base_16 = 16"

lemma base_nbr_gt1: "1 < base_nbr b"
  by (cases b) auto

definition num_digit :: "nat \<Rightarrow> char" where
  "num_digit d = ''0123456789abcdef'' ! d"

text \<open>The recursion ends at 0, which prints nothing.\<close>

function printNum :: "buf_t \<Rightarrow> nat \<Rightarrow> base \<Rightarrow> buf_t res" where
  "printNum b num base =
     (if num = 0 then Inr b
      else bind_res (printNum b (num div base_nbr base) base) (\<lambda>b1. log_putchar b1 (num_digit (num mod base_nbr base))))"
  by pat_completeness auto

termination printNum
  by (relation "measure (\<lambda>(b, num, base). num)") (auto intro: div_less_dividend base_nbr_gt1)

declare printNum.simps [simp del]

text \<open>The negation of the least integer has no defined value.\<close>

definition printDeci :: "buf_t \<Rightarrow> int \<Rightarrow> buf_t res" where
  "printDeci b dec =
     bind_res
       (if dec < 0
        then bind_res (log_putchar b (CHR ''-'')) (\<lambda>b1. if dec = - (2 ^ 31) then Inl Bad_conversion else Inr (- dec, b1))
        else Inr (dec, b)) (\<lambda>(d, b1).
       if d = 0 then log_putchar b1 (CHR ''0'') else printNum b1 (nat d) Base_10)"

definition printOct :: "buf_t \<Rightarrow> nat \<Rightarrow> buf_t res" where
  "printOct b oct = (if oct = 0 then log_putchar b (CHR ''0'') else printNum b oct Base_8)"

definition printHex :: "buf_t \<Rightarrow> nat \<Rightarrow> buf_t res" where
  "printHex b hex = (if hex = 0 then log_putchar b (CHR ''0'') else printNum b hex Base_16)"

definition printAddr :: "buf_t \<Rightarrow> nat \<Rightarrow> buf_t res" where
  "printAddr b addr =
     bind_res (log_putchar b (CHR ''0'')) (\<lambda>b1. bind_res (log_putchar b1 (CHR ''x'')) (\<lambda>b2. printNum b2 addr Base_16))"

fun printStr :: "buf_t \<Rightarrow> string \<Rightarrow> buf_t res" where
  "printStr b [] = Inr b"
| "printStr b (c # cs) = bind_res (log_putchar b c) (\<lambda>b1. printStr b1 cs)"

section \<open>Floating point\<close>

text \<open>The truncation to \<open>int\<close>; C leaves it undefined outside of its range.\<close>

definition log_trunc :: "dbl \<Rightarrow> nat res" where
  "log_trunc f = (if dbl_trunc f < 2 ^ 31 then Inr (nat (dbl_trunc f)) else Inl Bad_conversion)"

definition printFloat :: "buf_t \<Rightarrow> dbl \<Rightarrow> buf_t res" where
  "printFloat b f0 =
     bind_res (if f0 < 0 then printStr b ''-'' else Inr b) (\<lambda>b1.
       let f = \<bar>f0\<bar>
       in bind_res (log_trunc f) (\<lambda>temp.
          bind_res (printNum b1 temp Base_10) (\<lambda>b2.
          bind_res (log_putchar b2 (CHR ''.'')) (\<lambda>b3.
            let g = dbl_sub f (of_nat temp)
            in if g = 0 then printStr b3 ''000000''
               else bind_res (log_trunc (dbl_mul g 1000000)) (\<lambda>temp2. printNum b3 temp2 Base_10)))))"

section \<open>Lemmas\<close>

text \<open>The text of a positive number, most significant digit first.\<close>

function num_text :: "nat \<Rightarrow> base \<Rightarrow> string" where
  "num_text num base = (if num = 0 then [] else num_text (num div base_nbr base) base @ [num_digit (num mod base_nbr base)])"
  by pat_completeness auto

termination num_text
  by (relation "measure (\<lambda>(num, base). num)") (auto intro: div_less_dividend base_nbr_gt1)

declare num_text.simps [simp del]

lemma printStr_fits: "length b + length s \<le> LOG_BUF_SIZE \<Longrightarrow> printStr b s = Inr (b @ s)"
  by (induction s arbitrary: b) (auto simp: log_putchar_def)

lemma printNum_fits: "length b + length (num_text num base) \<le> LOG_BUF_SIZE \<Longrightarrow> printNum b num base = Inr (b @ num_text num base)"
proof (induction b num base rule: printNum.induct)
  case (1 b num base)
  show ?case
  proof (cases "num = 0")
    case True
    then show ?thesis by (simp add: printNum.simps[of b 0] num_text.simps[of 0])
  next
    case False
    then show ?thesis using 1 by (simp add: printNum.simps[of b num] num_text.simps[of num] log_putchar_def)
  qed
qed

lemma num_digit_decimal: "d < 10 \<Longrightarrow> num_digit d = digit_char d"
proof -
  assume "d < 10"
  moreover have "list_all (\<lambda>d. num_digit d = digit_char d) [0..<10]" by code_simp
  ultimately show ?thesis by (simp add: list_all_iff)
qed

lemma num_text_decimal: "0 < n \<Longrightarrow> num_text n Base_10 = show_nat n"
proof (induction n rule: show_nat.induct)
  case (1 n)
  show ?case
  proof (cases "n < 10")
    case True
    then show ?thesis using 1(2) num_digit_decimal[of n]
      by (simp add: num_text.simps[of n] num_text.simps[of 0] show_nat.simps[of n])
  next
    case False
    then have "num_text (n div 10) Base_10 = show_nat (n div 10)" using 1(1) by simp
    then show ?thesis using False by (simp add: num_text.simps[of n] show_nat.simps[of n] num_digit_decimal)
  qed
qed

section \<open>Properties\<close>

text \<open>Fact: \<open>printDeci\<close> writes the decimal text of every integer but the least, which it cannot negate, as long as the text
  fits in the buffer, and \<open>atoi\<close> reads the integer back from that text.\<close>

theorem printDeci_writes_integer:
  assumes "- (2 ^ 31) < dec" "dec < 2 ^ 31" "length b + length (show_int dec) \<le> LOG_BUF_SIZE"
  shows "printDeci b dec = Inr (b @ show_int dec) \<and> atoi (show_int dec) = dec"
proof -
  have "show_nat 0 = ''0''" by code_simp
  moreover have "printNum b (nat dec) Base_10 = Inr (b @ show_nat (nat dec))" if "0 < dec"
    using that assms(3) printNum_fits[of b "nat dec" Base_10] by (simp add: num_text_decimal show_int_def)
  moreover have "printNum (b @ ''-'') (nat (- dec)) Base_10 = Inr (b @ ''-'' @ show_nat (nat (- dec)))" if "dec < 0"
    using that assms(3) printNum_fits[of "b @ ''-''" "nat (- dec)" Base_10] by (simp add: num_text_decimal show_int_def)
  ultimately have "printDeci b dec = Inr (b @ show_int dec)"
    using assms by (auto simp: printDeci_def log_putchar_def show_int_def)
  then show ?thesis using atoi_show_int[of dec] assms by simp
qed

theorem printDeci_writes_integer_witness: "printDeci ''n='' (-42) = Inr ''n=-42''"
proof -
  have "show_int (-42) = ''-42''" by code_simp
  then show ?thesis using printDeci_writes_integer[of "-42" "''n=''"] by (simp add: LOG_BUF_SIZE_def)
qed

text \<open>Fact: \<open>printFloat\<close> drops the zeros in front of the digits of a fraction and prints no integer part for numbers below 1: the
  text of 17/16, which is 1.0625, reads as 1.625, and the text of a half begins with the point.\<close>

lemma printFloat_of:
  assumes "dbl_trunc f = int n" "n < 2 ^ 31" "0 \<le> f" "dbl_sub f (of_nat n) = g" "g \<noteq> 0" "dbl_mul g 1000000 = of_nat m" "m < 2 ^ 31"
    "length (num_text n Base_10 @ ''.'' @ num_text m Base_10) \<le> LOG_BUF_SIZE"
  shows "printFloat [] f = Inr (num_text n Base_10 @ ''.'' @ num_text m Base_10)"
proof -
  have "dbl_trunc (of_nat m) = int m" by (simp add: dbl_trunc_def)
  then show ?thesis
    using assms printNum_fits[of "[]" n Base_10] printNum_fits[of "num_text n Base_10 @ ''.''" m Base_10]
    by (simp add: printFloat_def log_trunc_def log_putchar_def Let_def)
qed

theorem printFloat_loses_zeros:
  "printFloat [] (17 / 16) = Inr ''1.62500''" "printFloat [] (1 / 2) = Inr ''.500000''"
proof -
  have "dbl_round 62500 = 62500" "dbl_round 500000 = 500000" using dbl_round_int[of 62500] dbl_round_int[of 500000] by simp_all
  moreover have "dbl_round (1 / 16) = 1 / 16" "dbl_round (1 / 2) = 1 / 2"
    using dbl_round_exact[of 1 "-4"] dbl_round_exact[of 1 "-1"] by (simp_all add: pow2_def)
  moreover have "num_text 1 Base_10 = ''1''" "num_text 62500 Base_10 = ''62500''" "num_text 500000 Base_10 = ''500000''" "num_text 0 Base_10 = []"
    by (simp_all add: num_text.simps num_digit_def)
  moreover have "\<lfloor>17 / 16 :: rat\<rfloor> = 1" "\<lfloor>1 / 2 :: rat\<rfloor> = 0" by (simp_all add: floor_eq_iff)
  ultimately show "printFloat [] (17 / 16) = Inr ''1.62500''" "printFloat [] (1 / 2) = Inr ''.500000''"
    using printFloat_of[of "17 / 16" 1 "1 / 16" 62500] printFloat_of[of "1 / 2" 0 "1 / 2" 500000]
    by (simp_all add: dbl_trunc_def dbl_sub_def dbl_mul_def LOG_BUF_SIZE_def)
qed

end
