(* ===== verification/Shm.thy ===== *)
theory Shm
  imports Doubles
begin

text \<open>
  The shared memory between the program and its command-line tool: the server thread \<open>shm_thrd_main\<close> of \<open>shm.c\<close> and the
  sending of a command, \<open>tool_send_shmcmd\<close> of \<open>tool.c\<close>; what the server does with a command is a parameter here. Two semaphores hand the turn over: \<open>ping\<close> from a tool to the
  server, \<open>pong\<close> back; a mutex in the shared memory keeps tools apart. The interleaving of the threads is a step
  relation, and one command is shown to be an atomic call of the server.
\<close>

section \<open>Commands and shared memory\<close>

datatype cmd_t =
    CMD_SM_DONE | CMD_SM_OFFLINE | CMD_SM_STDBY | CMD_SM_IDLE | CMD_SM_DHG | CMD_SM_CHG | CMD_SM_ACK | CMD_SM_NACK
  | CMD_SM_STOP | CMD_SM_READY | CMD_SM_RUN | CMD_SM_OFFGRID | CMD_SM_LAUNCH
  | CMD_STA | CMD_STA_FETCH | CMD_STA_SENDCMD | CMD_STA_SET_ACTIVEPSET | CMD_STA_SET_PMODE
  | CMD_CTN_SENDCMD | CMD_CTN_SET_CMD | CMD_CTN_SET_ACTIVEPSET | CMD_CTN_SET_BSYTICK
  | CMD_CHAN | CMD_CHAN_RESET | CMD_CHAN_SET_DBG | CMD_CHAN_SET_EN
  | CMD_PCS | CMD_PACK
  | CMD_METER | CMD_METER_SENDCMD | CMD_METER_SENDCMD2 | CMD_METER_SET_COMACTIVE | CMD_METER_SET_COMACTIVP
  | CMD_METER_SET_PT_MDL | CMD_METER_SET_CT_MDL | CMD_METER_SET_PT | CMD_METER_SET_CT
  | CMD_AC | CMD_MQTT | CMD_MQTT_SENDCMD | CMD_MQTT_SENDKV | CMD_CLOUD | CMD_CLOUD_SET_ESSSYS_ENINTVAL
  | CMD_EMS | CMD_EMS_SET_MODE | CMD_EMS_SET_POWREG_HIGHLOW | CMD_EMS_SET_PIDX | CMD_EMS_RESET_PCURV | CMD_EMS_DELPCURV
  | CMD_EMS_EDITPCURV | CMD_EMS_SAVEPCURV | CMD_EMS_LOADPCURV | CMD_EMS_FETCHDCURV | CMD_EMS_NEWDCURV | CMD_EMS_DELDCURV
  | CMD_EMS_EDITDCURV | CMD_EMS_SAVEDCURV | CMD_EMS_EDITCHGTIME | CMD_EMS_EDITDHGTIME | CMD_METER_SETCTLREG
  | CMD_MISC_YDL | CMD_ALARM_SET

record shmparam_t =
  sp_bidx :: int
  sp_idx :: int
  sp_adr :: int
  sp_id :: int
  sp_val :: int
  sp_val2 :: int
  sp_fval :: rat
  sp_dval :: dbl
  sp_val_arr :: "int list"
  sp_dval_arr :: "dbl list"
  sp_szbuf :: string
  sp_szbuflen :: int

text \<open>The contents without the mutex; \<open>'m\<close> is the copy of the program's state in the buffer.\<close>

record 'm shm_t =
  sh_cmd :: cmd_t
  sh_rsp :: int
  sh_param :: shmparam_t
  sh_buf :: 'm

section \<open>Threads\<close>

text \<open>
  The positions of the server thread and of a tool in \<open>tool_send_shmcmd\<close>, with the command it sends. A tool that is done
  holds what it copied, or nothing when its \<open>sem_post\<close> failed.
\<close>

datatype server_pc = SV_WAIT | SV_DRAIN | SV_EXEC | SV_POST | SV_DEAD

type_synonym shm_call = "cmd_t \<times> shmparam_t option"

datatype 'm tool_pc =
    TL_IDLE | TL_LOCK shm_call | TL_SET shm_call | TL_POST shm_call | TL_WAIT shm_call | TL_COPY shm_call
  | TL_DRAIN shm_call "'m shm_t" | TL_UNLOCK shm_call "'m shm_t option" | TL_DONE shm_call "'m shm_t option"

record ('w, 'm) shm_sys =
  sy_ping :: nat
  sy_pong :: nat
  sy_mutex :: bool
  sy_shm :: "'m shm_t"
  sy_world :: 'w
  sy_server :: server_pc
  sy_tools :: "nat \<Rightarrow> 'm tool_pc"

type_synonym ('w, 'm) shm_work = "'w \<Rightarrow> 'm shm_t \<Rightarrow> ('w \<times> 'm shm_t) res"

text \<open>Writing the request: without parameters those of the command before stay.\<close>

definition put_request :: "shm_call \<Rightarrow> 'm shm_t \<Rightarrow> 'm shm_t" where
  "put_request c shm =
     (let shm1 = shm\<lparr>sh_cmd := fst c\<rparr> in case snd c of None \<Rightarrow> shm1 | Some p \<Rightarrow> shm1\<lparr>sh_param := p\<rparr>)"

definition move_tool :: "nat \<Rightarrow> 'm tool_pc \<Rightarrow> ('w, 'm) shm_sys \<Rightarrow> ('w, 'm) shm_sys" where
  "move_tool i pc y = y\<lparr>sy_tools := (sy_tools y)(i := pc)\<rparr>"

text \<open>
  One step of one thread. \<open>sem_trywait\<close> in a loop takes what is there and ends when nothing is left. A command whose
  work ends in a fault takes the server down.
\<close>

inductive server_step :: "('w, 'm) shm_work \<Rightarrow> ('w, 'm) shm_sys \<Rightarrow> ('w, 'm) shm_sys \<Rightarrow> bool" for work where
  sv_wait: "sy_server y = SV_WAIT \<Longrightarrow> 0 < sy_ping y \<Longrightarrow>
    server_step work y (y\<lparr>sy_ping := sy_ping y - 1, sy_server := SV_DRAIN\<rparr>)"
| sv_drain: "sy_server y = SV_DRAIN \<Longrightarrow> 0 < sy_ping y \<Longrightarrow> server_step work y (y\<lparr>sy_ping := sy_ping y - 1\<rparr>)"
| sv_drained: "sy_server y = SV_DRAIN \<Longrightarrow> sy_ping y = 0 \<Longrightarrow> server_step work y (y\<lparr>sy_server := SV_EXEC\<rparr>)"
| sv_exec: "sy_server y = SV_EXEC \<Longrightarrow> work (sy_world y) (sy_shm y) = Inr (w, shm) \<Longrightarrow>
    server_step work y (y\<lparr>sy_world := w, sy_shm := shm, sy_server := SV_POST\<rparr>)"
| sv_fault: "sy_server y = SV_EXEC \<Longrightarrow> work (sy_world y) (sy_shm y) = Inl e \<Longrightarrow> server_step work y (y\<lparr>sy_server := SV_DEAD\<rparr>)"
| sv_post: "sy_server y = SV_POST \<Longrightarrow> server_step work y (y\<lparr>sy_pong := sy_pong y + 1, sy_server := SV_WAIT\<rparr>)"

inductive tool_step :: "nat \<Rightarrow> ('w, 'm) shm_sys \<Rightarrow> ('w, 'm) shm_sys \<Rightarrow> bool" for i where
  tl_call: "sy_tools y i = TL_IDLE \<Longrightarrow> tool_step i y (move_tool i (TL_LOCK c) y)"
| tl_lock: "sy_tools y i = TL_LOCK c \<Longrightarrow> \<not> sy_mutex y \<Longrightarrow> tool_step i y (move_tool i (TL_SET c) (y\<lparr>sy_mutex := True\<rparr>))"
| tl_set: "sy_tools y i = TL_SET c \<Longrightarrow> tool_step i y (move_tool i (TL_POST c) (y\<lparr>sy_shm := put_request c (sy_shm y)\<rparr>))"
| tl_post: "sy_tools y i = TL_POST c \<Longrightarrow> tool_step i y (move_tool i (TL_WAIT c) (y\<lparr>sy_ping := sy_ping y + 1\<rparr>))"
| tl_post_fails: "sy_tools y i = TL_POST c \<Longrightarrow> tool_step i y (move_tool i (TL_UNLOCK c None) y)"
| tl_wait: "sy_tools y i = TL_WAIT c \<Longrightarrow> 0 < sy_pong y \<Longrightarrow>
    tool_step i y (move_tool i (TL_COPY c) (y\<lparr>sy_pong := sy_pong y - 1\<rparr>))"
| tl_copy: "sy_tools y i = TL_COPY c \<Longrightarrow> tool_step i y (move_tool i (TL_DRAIN c (sy_shm y)) y)"
| tl_drain: "sy_tools y i = TL_DRAIN c m \<Longrightarrow> 0 < sy_pong y \<Longrightarrow> tool_step i y (y\<lparr>sy_pong := sy_pong y - 1\<rparr>)"
| tl_drained: "sy_tools y i = TL_DRAIN c m \<Longrightarrow> sy_pong y = 0 \<Longrightarrow> tool_step i y (move_tool i (TL_UNLOCK c (Some m)) y)"
| tl_unlock: "sy_tools y i = TL_UNLOCK c r \<Longrightarrow> tool_step i y (move_tool i (TL_DONE c r) (y\<lparr>sy_mutex := False\<rparr>))"
| tl_return: "sy_tools y i = TL_DONE c r \<Longrightarrow> tool_step i y (move_tool i TL_IDLE y)"

definition shm_step :: "('w, 'm) shm_work \<Rightarrow> ('w, 'm) shm_sys \<Rightarrow> ('w, 'm) shm_sys \<Rightarrow> bool" where
  "shm_step work y y' \<longleftrightarrow> server_step work y y' \<or> (\<exists>i. tool_step i y y')"

text \<open>After \<open>shm_init\<close>: no counts, the server waits, no tool runs.\<close>

definition shm_start :: "'w \<Rightarrow> 'm shm_t \<Rightarrow> ('w, 'm) shm_sys" where
  "shm_start w shm = \<lparr>sy_ping = 0, sy_pong = 0, sy_mutex = False, sy_shm = shm, sy_world = w, sy_server = SV_WAIT,
     sy_tools = (\<lambda>i. TL_IDLE)\<rparr>"

section \<open>The specification\<close>

text \<open>A tool calls, the server does its work on the request at once, the tool returns with the contents after it.\<close>

datatype 'm atomic_pc = AT_IDLE | AT_CALLED shm_call | AT_RETURNED shm_call "'m shm_t option"

record ('w, 'm) atomic_sys =
  at_world :: 'w
  at_shm :: "'m shm_t"
  at_tools :: "nat \<Rightarrow> 'm atomic_pc"

inductive atomic_step :: "('w, 'm) shm_work \<Rightarrow> ('w, 'm) atomic_sys \<Rightarrow> ('w, 'm) atomic_sys \<Rightarrow> bool" for work where
  at_call: "at_tools a i = AT_IDLE \<Longrightarrow> atomic_step work a (a\<lparr>at_tools := (at_tools a)(i := AT_CALLED c)\<rparr>)"
| at_exec: "at_tools a i = AT_CALLED c \<Longrightarrow> work (at_world a) (put_request c (at_shm a)) = Inr (w, shm) \<Longrightarrow>
    atomic_step work a (a\<lparr>at_world := w, at_shm := shm, at_tools := (at_tools a)(i := AT_RETURNED c (Some shm))\<rparr>)"
| at_fail: "at_tools a i = AT_CALLED c \<Longrightarrow>
    atomic_step work a (a\<lparr>at_shm := put_request c (at_shm a), at_tools := (at_tools a)(i := AT_RETURNED c None)\<rparr>)"
| at_return: "at_tools a i = AT_RETURNED c r \<Longrightarrow> atomic_step work a (a\<lparr>at_tools := (at_tools a)(i := AT_IDLE)\<rparr>)"

definition atomic_start :: "'w \<Rightarrow> 'm shm_t \<Rightarrow> ('w, 'm) atomic_sys" where
  "atomic_start w shm = \<lparr>at_world = w, at_shm = shm, at_tools = (\<lambda>i. AT_IDLE)\<rparr>"

section \<open>Invariant\<close>

fun holder :: "'m tool_pc \<Rightarrow> bool" where
  "holder (TL_SET c) = True"
| "holder (TL_POST c) = True"
| "holder (TL_WAIT c) = True"
| "holder (TL_COPY c) = True"
| "holder (TL_DRAIN c m) = True"
| "holder (TL_UNLOCK c r) = True"
| "holder pc = False"

fun waits :: "'m tool_pc \<Rightarrow> bool" where
  "waits (TL_WAIT c) = True"
| "waits pc = False"

text \<open>Where the turn is: with the tools, on its way to the work of the server, or on its way back.\<close>

definition turn_tools :: "('w, 'm) shm_sys \<Rightarrow> bool" where
  "turn_tools y \<longleftrightarrow> sy_ping y = 0 \<and> sy_pong y = 0 \<and> sy_server y = SV_WAIT"

definition turn_there :: "('w, 'm) shm_sys \<Rightarrow> bool" where
  "turn_there y \<longleftrightarrow> sy_pong y = 0 \<and> (sy_ping y = 1 \<and> sy_server y = SV_WAIT \<or>
     sy_ping y = 0 \<and> sy_server y \<in> {SV_DRAIN, SV_EXEC, SV_DEAD})"

definition turn_back :: "('w, 'm) shm_sys \<Rightarrow> bool" where
  "turn_back y \<longleftrightarrow> sy_ping y = 0 \<and> (sy_pong y = 0 \<and> sy_server y = SV_POST \<or> sy_pong y = 1 \<and> sy_server y = SV_WAIT)"

lemmas turn_defs = turn_tools_def turn_there_def turn_back_def

text \<open>One tool at most is between lock and unlock.\<close>

definition lock_inv :: "('w, 'm) shm_sys \<Rightarrow> bool" where
  "lock_inv y \<longleftrightarrow> (\<forall>i. holder (sy_tools y i) \<longrightarrow> sy_mutex y \<and> (\<forall>j. j \<noteq> i \<longrightarrow> \<not> holder (sy_tools y j)))"

definition shm_inv :: "('w, 'm) shm_sys \<Rightarrow> bool" where
  "shm_inv y \<longleftrightarrow> lock_inv y \<and> (if \<exists>i. waits (sy_tools y i) then turn_there y \<or> turn_back y else turn_tools y)"

lemma move_tool_simps [simp]:
  "sy_ping (move_tool i pc y) = sy_ping y" "sy_pong (move_tool i pc y) = sy_pong y" "sy_mutex (move_tool i pc y) = sy_mutex y"
  "sy_shm (move_tool i pc y) = sy_shm y" "sy_world (move_tool i pc y) = sy_world y" "sy_server (move_tool i pc y) = sy_server y"
  "sy_tools (move_tool i pc y) = (sy_tools y)(i := pc)"
  by (simp_all add: move_tool_def)

lemma waits_holder: "waits pc \<Longrightarrow> holder pc"
  by (cases pc) auto

lemma shm_inv_start: "shm_inv (shm_start w shm)"
  by (simp add: shm_inv_def lock_inv_def shm_start_def turn_tools_def)

lemma server_step_tools: "server_step work y y' \<Longrightarrow> sy_tools y' = sy_tools y \<and> sy_mutex y' = sy_mutex y"
  by (induction rule: server_step.induct) auto

lemma server_step_turn:
  "server_step work y y' \<Longrightarrow> turn_there y \<or> turn_back y \<Longrightarrow> turn_there y' \<or> turn_back y'"
  "server_step work y y' \<Longrightarrow> \<not> turn_tools y"
  by (erule server_step.cases, auto simp: turn_defs)+

lemma server_step_inv: "server_step work y y' \<Longrightarrow> shm_inv y \<Longrightarrow> shm_inv y'"
  using server_step_tools[of work y y'] server_step_turn[of work y y'] by (auto simp: shm_inv_def lock_inv_def split: if_splits)

lemma tool_step_others: "tool_step i y y' \<Longrightarrow> j \<noteq> i \<Longrightarrow> sy_tools y' j = sy_tools y j"
  by (erule tool_step.cases) auto

text \<open>A tool takes the lock when it is free, keeps it, or gives it back.\<close>

lemma tool_step_lock:
  "tool_step i y y' \<Longrightarrow>
     \<not> holder (sy_tools y i) \<and> \<not> sy_mutex y \<and> sy_mutex y' \<or>
     holder (sy_tools y i) \<and> holder (sy_tools y' i) \<and> sy_mutex y' = sy_mutex y \<or>
     \<not> holder (sy_tools y i) \<and> \<not> holder (sy_tools y' i) \<and> sy_mutex y' = sy_mutex y \<or>
     holder (sy_tools y i) \<and> \<not> holder (sy_tools y' i) \<and> \<not> sy_mutex y'"
  by (erule tool_step.cases) auto

lemma tool_step_lock_inv: "tool_step i y y' \<Longrightarrow> lock_inv y \<Longrightarrow> lock_inv y'"
  using tool_step_lock[of i y y'] tool_step_others[of i y y'] unfolding lock_inv_def by metis

text \<open>What a step of a tool does to the turn.\<close>

lemma tool_step_turn:
  "tool_step i y y' \<Longrightarrow>
     \<not> waits (sy_tools y i) \<and> \<not> waits (sy_tools y' i) \<and> sy_ping y' = sy_ping y \<and> sy_server y' = sy_server y \<and>
       (sy_pong y' = sy_pong y \<or> holder (sy_tools y i) \<and> 0 < sy_pong y) \<or>
     holder (sy_tools y i) \<and> \<not> waits (sy_tools y i) \<and> waits (sy_tools y' i) \<and> (turn_tools y \<longrightarrow> turn_there y') \<or>
     waits (sy_tools y i) \<and> \<not> waits (sy_tools y' i) \<and> 0 < sy_pong y \<and> (turn_back y \<longrightarrow> turn_tools y')"
  by (erule tool_step.cases) (auto simp: turn_defs)

lemma tool_step_inv:
  assumes "tool_step i y y'" "shm_inv y"
  shows "shm_inv y'"
proof -
  have lock: "lock_inv y" "lock_inv y'" using assms tool_step_lock_inv unfolding shm_inv_def by blast+
  have others: "waits (sy_tools y' j) = waits (sy_tools y j)" if "j \<noteq> i" for j using tool_step_others[OF assms(1) that] by simp
  have alone: "\<not> waits (sy_tools y j)" if "holder (sy_tools y i)" "j \<noteq> i" for j
    using that lock(1) waits_holder unfolding lock_inv_def by blast
  show ?thesis
    using tool_step_turn[OF assms(1)]
  proof (elim disjE conjE)
    assume a: "\<not> waits (sy_tools y i)" "\<not> waits (sy_tools y' i)" "sy_ping y' = sy_ping y" "sy_server y' = sy_server y" "sy_pong y' = sy_pong y"
    then have "waits (sy_tools y' j) = waits (sy_tools y j)" for j using others by (cases "j = i") auto
    then have "(\<exists>j. waits (sy_tools y' j)) = (\<exists>j. waits (sy_tools y j))" by simp
    moreover have "turn_there y' = turn_there y" "turn_back y' = turn_back y" "turn_tools y' = turn_tools y"
      using a by (simp_all add: turn_defs)
    ultimately show ?thesis using assms(2) lock(2) by (simp add: shm_inv_def)
  next
    assume a: "\<not> waits (sy_tools y i)" "holder (sy_tools y i)" "0 < sy_pong y"
    then have "turn_tools y" using assms(2) alone unfolding shm_inv_def by metis
    then show ?thesis using a(3) by (simp add: turn_tools_def)
  next
    assume a: "holder (sy_tools y i)" "\<not> waits (sy_tools y i)" "waits (sy_tools y' i)" "turn_tools y \<longrightarrow> turn_there y'"
    then have "turn_tools y" using assms(2) alone unfolding shm_inv_def by metis
    then show ?thesis using a(3,4) lock(2) by (auto simp: shm_inv_def)
  next
    assume a: "waits (sy_tools y i)" "\<not> waits (sy_tools y' i)" "0 < sy_pong y" "turn_back y \<longrightarrow> turn_tools y'"
    have "turn_there y \<or> turn_back y" using a(1) assms(2) unfolding shm_inv_def by metis
    then have "turn_tools y'" using a(3,4) by (auto simp: turn_there_def)
    moreover have "\<not> waits (sy_tools y' j)" for j using a(2) others[of j] alone[OF waits_holder[OF a(1)], of j] by (cases "j = i") auto
    ultimately show ?thesis using lock(2) by (simp add: shm_inv_def)
  qed
qed

lemma shm_inv_reachable: "(shm_step work)\<^sup>*\<^sup>* y y' \<Longrightarrow> shm_inv y \<Longrightarrow> shm_inv y'"
  by (induction rule: rtranclp_induct) (auto simp: shm_step_def intro: server_step_inv tool_step_inv)

section \<open>Refinement\<close>

text \<open>
  What a tool has of its call: it is called until the server has done the work, and returned afterwards. Before the
  work the memory of the specification is the one from before the request.
\<close>

fun call_state :: "bool \<Rightarrow> 'm shm_t \<Rightarrow> 'm tool_pc \<Rightarrow> 'm atomic_pc" where
  "call_state worked shm TL_IDLE = AT_IDLE"
| "call_state worked shm (TL_LOCK c) = AT_CALLED c"
| "call_state worked shm (TL_SET c) = AT_CALLED c"
| "call_state worked shm (TL_POST c) = AT_CALLED c"
| "call_state worked shm (TL_WAIT c) = (if worked then AT_RETURNED c (Some shm) else AT_CALLED c)"
| "call_state worked shm (TL_COPY c) = AT_RETURNED c (Some shm)"
| "call_state worked shm (TL_DRAIN c m) = AT_RETURNED c (Some m)"
| "call_state worked shm (TL_UNLOCK c r) = AT_RETURNED c r"
| "call_state worked shm (TL_DONE c r) = AT_RETURNED c r"

fun requested :: "bool \<Rightarrow> 'm tool_pc \<Rightarrow> shm_call option" where
  "requested worked (TL_POST c) = Some c"
| "requested worked (TL_WAIT c) = (if worked then None else Some c)"
| "requested worked pc = None"

definition refines :: "('w, 'm) shm_sys \<Rightarrow> ('w, 'm) atomic_sys \<Rightarrow> bool" where
  "refines y a \<longleftrightarrow> sy_world y = at_world a \<and>
     (\<forall>i. at_tools a i = call_state (turn_back y) (sy_shm y) (sy_tools y i)) \<and>
     (\<forall>i c. requested (turn_back y) (sy_tools y i) = Some c \<longrightarrow> sy_shm y = put_request c (at_shm a)) \<and>
     ((\<forall>i. requested (turn_back y) (sy_tools y i) = None) \<longrightarrow> sy_shm y = at_shm a)"

lemma refines_start: "refines (shm_start w shm) (atomic_start w shm)"
  by (simp add: refines_def shm_start_def atomic_start_def)

text \<open>Without a tool in the locked part, what the tools have does not depend on the memory.\<close>

lemma call_state_outside: "\<not> holder pc \<Longrightarrow> call_state b shm pc = call_state b' shm' pc"
  by (cases pc) auto

lemma requested_holder: "requested b pc = Some c \<Longrightarrow> holder pc"
  by (cases pc) (auto split: if_splits)

lemma refines_same:
  assumes "refines y a" "sy_world y' = at_world a'" "at_shm a' = at_shm a" "sy_shm y' = sy_shm y"
    "\<forall>i. at_tools a' i = call_state (turn_back y') (sy_shm y) (sy_tools y' i)"
    "\<forall>i. requested (turn_back y') (sy_tools y' i) = requested (turn_back y) (sy_tools y i)"
  shows "refines y' a'"
  using assms by (simp add: refines_def)

lemma waiting_tool:
  assumes "shm_inv y" "\<not> turn_tools y"
  shows "\<exists>i c. sy_tools y i = TL_WAIT c \<and> (\<forall>j. j \<noteq> i \<longrightarrow> \<not> holder (sy_tools y j))"
proof -
  obtain i where i: "waits (sy_tools y i)" using assms unfolding shm_inv_def by metis
  then obtain c where "sy_tools y i = TL_WAIT c" by (cases "sy_tools y i") auto
  moreover have "\<not> holder (sy_tools y j)" if "j \<noteq> i" for j
    using that assms(1) waits_holder[OF i] unfolding shm_inv_def lock_inv_def by blast
  ultimately show ?thesis by blast
qed

lemma exec_refined:
  assumes "refines y a" "shm_inv y" "sy_server y = SV_EXEC" "work (sy_world y) (sy_shm y) = Inr (w, shm)"
  shows "\<exists>a'. atomic_step work a a' \<and> refines (y\<lparr>sy_world := w, sy_shm := shm, sy_server := SV_POST\<rparr>) a'"
proof -
  have nt: "\<not> turn_tools y" "\<not> turn_back y" using assms(3) by (simp_all add: turn_defs)
  obtain i c where i: "sy_tools y i = TL_WAIT c" "\<forall>j. j \<noteq> i \<longrightarrow> \<not> holder (sy_tools y j)"
    using waiting_tool[OF assms(2) nt(1)] by blast
  have a: "at_world a = sy_world y" "at_tools a i = AT_CALLED c" "sy_shm y = put_request c (at_shm a)"
    using assms(1) i(1) nt(2) unfolding refines_def by (metis call_state.simps(5) requested.simps(2))+
  let ?y = "y\<lparr>sy_world := w, sy_shm := shm, sy_server := SV_POST\<rparr>"
  let ?a = "a\<lparr>at_world := w, at_shm := shm, at_tools := (at_tools a)(i := AT_RETURNED c (Some shm))\<rparr>"
  have there: "turn_there y" using assms(2) nt unfolding shm_inv_def by metis
  have worked: "turn_back ?y" using there assms(3) by (simp add: turn_defs)
  have "call_state True shm (sy_tools y j) = at_tools ?a j" for j
    using i assms(1) call_state_outside[of "sy_tools y j" True shm False "sy_shm y"] nt(2) by (cases "j = i") (auto simp: refines_def)
  moreover have "requested True (sy_tools y j) = None" for j
  proof (cases "j = i")
    case False
    then show ?thesis using i requested_holder[of True "sy_tools y j"] by (cases "requested True (sy_tools y j)") auto
  qed (use i in simp)
  ultimately have "refines ?y ?a" using worked by (simp add: refines_def)
  moreover have "atomic_step work a ?a" using at_exec[of a i c work w shm] a assms(4) by simp
  ultimately show ?thesis by blast
qed

lemma server_step_refined:
  assumes "server_step work y y'" "refines y a" "shm_inv y"
  shows "\<exists>a'. (atomic_step work)\<^sup>=\<^sup>= a a' \<and> refines y' a'"
  using assms(1)
proof (cases rule: server_step.cases)
  case (sv_exec w shm)
  then show ?thesis using exec_refined[OF assms(2,3)] by blast
next
  case sv_drain
  then show ?thesis using assms(3) by (auto simp: shm_inv_def turn_defs split: if_splits)
next
  case sv_wait
  then have "refines y' a" using assms(2,3) by (intro refines_same[OF assms(2)]) (auto simp: refines_def turn_defs)
  then show ?thesis by blast
next
  case sv_drained
  then have "refines y' a" using assms(2) by (intro refines_same[OF assms(2)]) (auto simp: refines_def turn_defs)
  then show ?thesis by blast
next
  case (sv_fault e)
  then have "refines y' a" using assms(2) by (intro refines_same[OF assms(2)]) (auto simp: refines_def turn_defs)
  then show ?thesis by blast
next
  case sv_post
  then have "turn_back y" "turn_back y'"
    using assms(3) by (auto simp: shm_inv_def turn_defs split: if_splits)
  then have "refines y' a" using sv_post assms(2) by (intro refines_same[OF assms(2)]) (auto simp: refines_def)
  then show ?thesis by blast
qed

lemma tool_step_refined:
  assumes "tool_step i y y'" "refines y a" "shm_inv y"
  shows "\<exists>a'. (atomic_step work)\<^sup>=\<^sup>= a a' \<and> refines y' a'"
proof -
  have alone: "\<not> holder (sy_tools y j)" if "holder (sy_tools y i)" "j \<noteq> i" for j
    using that assms(3) unfolding shm_inv_def lock_inv_def by blast
  have tools: "turn_tools y" if "holder (sy_tools y i)" "\<not> waits (sy_tools y i)"
    using that assms(3) alone waits_holder unfolding shm_inv_def by metis
  have r: "at_world a = sy_world y" "\<And>j. call_state (turn_back y) (sy_shm y) (sy_tools y j) = at_tools a j"
    "\<And>j c. requested (turn_back y) (sy_tools y j) = Some c \<Longrightarrow> put_request c (at_shm a) = sy_shm y"
    "(\<forall>j. requested (turn_back y) (sy_tools y j) = None) \<Longrightarrow> at_shm a = sy_shm y"
    using assms(2) by (auto simp: refines_def)
  have same: "call_state b shm (sy_tools y j) = at_tools a j" "requested b (sy_tools y j) = None" if "holder (sy_tools y i)" "j \<noteq> i" for b shm j
    using r(2)[of j] alone[OF that] call_state_outside requested_holder by (metis, metis not_None_eq)
  have quiet: "\<not> turn_back y" if "turn_tools y" using that by (simp add: turn_defs)
  show ?thesis
    using assms(1)
  proof (cases rule: tool_step.cases)
    case (tl_call c)
    let ?a = "a\<lparr>at_tools := (at_tools a)(i := AT_CALLED c)\<rparr>"
    have "atomic_step work a ?a" using r(2)[of i] tl_call(2) by (intro at_call) simp
    moreover have "turn_back y' = turn_back y" using tl_call by (simp add: turn_back_def)
    then have "refines y' ?a" using r(1,2) r(2)[of i] tl_call by (intro refines_same[OF assms(2)]) (auto split: if_splits)
    ultimately show ?thesis by blast
  next
    case (tl_return c res)
    let ?a = "a\<lparr>at_tools := (at_tools a)(i := AT_IDLE)\<rparr>"
    have "atomic_step work a ?a" using r(2)[of i] tl_return(2) at_return[of a i c res] by simp
    moreover have "turn_back y' = turn_back y" using tl_return by (simp add: turn_back_def)
    then have "refines y' ?a" using r(1,2) r(2)[of i] tl_return by (intro refines_same[OF assms(2)]) (auto split: if_splits)
    ultimately show ?thesis by blast
  next
    case (tl_lock c)
    then have "turn_back y' = turn_back y" by (simp add: turn_back_def)
    then have "refines y' a" using r(1,2) r(2)[of i] tl_lock by (intro refines_same[OF assms(2)]) (auto split: if_splits)
    then show ?thesis by blast
  next
    case (tl_wait c)
    then have "turn_back y" "\<not> turn_back y'" using assms(3) by (auto simp: shm_inv_def turn_defs split: if_splits)
    then have "refines y' a" using r(1,2) r(2)[of i] tl_wait same by (intro refines_same[OF assms(2)]) (auto split: if_splits)
    then show ?thesis by blast
  next
    case (tl_drain c m)
    then show ?thesis using tools by (simp add: turn_tools_def)
  next
    case (tl_set c)
    have t: "turn_tools y" "\<not> turn_back y'" using tools tl_set by (auto simp: turn_defs)
    have "requested (turn_back y) (sy_tools y j) = None" for j using same tl_set by (cases "j = i") auto
    then have "at_shm a = sy_shm y" using r(4) by blast
    then have "refines y' a" using t r(1) r(2)[of i] tl_set same quiet by (auto simp: refines_def)
    then show ?thesis by blast
  next
    case (tl_post_fails c)
    let ?a = "a\<lparr>at_shm := put_request c (at_shm a), at_tools := (at_tools a)(i := AT_RETURNED c None)\<rparr>"
    have "atomic_step work a ?a" using r(2)[of i] tl_post_fails(2) by (intro at_fail) simp
    moreover have "turn_tools y" "\<not> turn_back y'" using tools tl_post_fails by (auto simp: turn_defs)
    then have "refines y' ?a" using r(1) r(3)[of i c] tl_post_fails same quiet by (auto simp: refines_def)
    ultimately show ?thesis by blast
  next
    case (tl_post c)
    then have "turn_tools y" "\<not> turn_back y'" using tools by (auto simp: turn_defs)
    then have "refines y' a" using r(1,2) r(2)[of i] tl_post same quiet by (intro refines_same[OF assms(2)]) (auto split: if_splits)
    then show ?thesis by blast
  next
    case (tl_copy c)
    then have "turn_tools y" "\<not> turn_back y'" using tools by (auto simp: turn_defs)
    then have "refines y' a" using r(1,2) r(2)[of i] tl_copy same quiet by (intro refines_same[OF assms(2)]) (auto split: if_splits)
    then show ?thesis by blast
  next
    case (tl_drained c m)
    then have "turn_tools y" "\<not> turn_back y'" using tools by (auto simp: turn_defs)
    then have "refines y' a" using r(1,2) r(2)[of i] tl_drained same quiet by (intro refines_same[OF assms(2)]) (auto split: if_splits)
    then show ?thesis by blast
  next
    case (tl_unlock c res)
    then have "turn_tools y" "\<not> turn_back y'" using tools by (auto simp: turn_defs)
    then have "refines y' a" using r(1,2) r(2)[of i] tl_unlock same quiet by (intro refines_same[OF assms(2)]) (auto split: if_splits)
    then show ?thesis by blast
  qed
qed

lemma shm_step_refined:
  "shm_step work y y' \<Longrightarrow> refines y a \<Longrightarrow> shm_inv y \<Longrightarrow> \<exists>a'. (atomic_step work)\<^sup>=\<^sup>= a a' \<and> refines y' a'"
  unfolding shm_step_def using server_step_refined tool_step_refined by blast

lemma shm_run_refined:
  assumes "(shm_step work)\<^sup>*\<^sup>* y y'" "refines y a" "shm_inv y"
  shows "\<exists>a'. (atomic_step work)\<^sup>*\<^sup>* a a' \<and> refines y' a'"
  using assms
proof (induction rule: rtranclp_induct)
  case (step y1 y2)
  then obtain a1 where a1: "(atomic_step work)\<^sup>*\<^sup>* a a1" "refines y1 a1" by blast
  have "shm_inv y1" using step shm_inv_reachable by blast
  then obtain a2 where "(atomic_step work)\<^sup>=\<^sup>= a1 a2" "refines y2 a2" using shm_step_refined step(2) a1(2) by blast
  then show ?case using a1(1) by (auto intro: rtranclp.rtrancl_into_rtrancl)
qed blast

text \<open>A call that nothing else interrupts, step by step.\<close>

definition one_tool ::
  "nat \<Rightarrow> nat \<Rightarrow> bool \<Rightarrow> 'm shm_t \<Rightarrow> 'w \<Rightarrow> server_pc \<Rightarrow> nat \<Rightarrow> 'm tool_pc \<Rightarrow> ('w, 'm) shm_sys" where
  "one_tool ping pong m shm w sv i pc = \<lparr>sy_ping = ping, sy_pong = pong, sy_mutex = m, sy_shm = shm, sy_world = w,
     sy_server = sv, sy_tools = (\<lambda>j. TL_IDLE)(i := pc)\<rparr>"

lemma one_tool_start: "shm_start w shm = one_tool 0 0 False shm w SV_WAIT i TL_IDLE"
  by (auto simp: shm_start_def one_tool_def)

lemma one_tool_steps:
  "tool_step i (one_tool 0 0 False shm w SV_WAIT i TL_IDLE) (one_tool 0 0 False shm w SV_WAIT i (TL_LOCK c))"
  "tool_step i (one_tool 0 0 False shm w SV_WAIT i (TL_LOCK c)) (one_tool 0 0 True shm w SV_WAIT i (TL_SET c))"
  "tool_step i (one_tool 0 0 True shm w SV_WAIT i (TL_SET c)) (one_tool 0 0 True (put_request c shm) w SV_WAIT i (TL_POST c))"
  "tool_step i (one_tool 0 0 True shm w SV_WAIT i (TL_POST c)) (one_tool 1 0 True shm w SV_WAIT i (TL_WAIT c))"
  "tool_step i (one_tool 0 1 True shm w SV_WAIT i (TL_WAIT c)) (one_tool 0 0 True shm w SV_WAIT i (TL_COPY c))"
  "tool_step i (one_tool 0 0 True shm w SV_WAIT i (TL_COPY c)) (one_tool 0 0 True shm w SV_WAIT i (TL_DRAIN c shm))"
  "tool_step i (one_tool 0 0 True shm w SV_WAIT i (TL_DRAIN c m)) (one_tool 0 0 True shm w SV_WAIT i (TL_UNLOCK c (Some m)))"
  "tool_step i (one_tool 0 0 True shm w SV_WAIT i (TL_UNLOCK c r)) (one_tool 0 0 False shm w SV_WAIT i (TL_DONE c r))"
  using tl_call[of "one_tool 0 0 False shm w SV_WAIT i TL_IDLE" i c]
    tl_lock[of "one_tool 0 0 False shm w SV_WAIT i (TL_LOCK c)" i c]
    tl_set[of "one_tool 0 0 True shm w SV_WAIT i (TL_SET c)" i c]
    tl_post[of "one_tool 0 0 True shm w SV_WAIT i (TL_POST c)" i c]
    tl_wait[of "one_tool 0 1 True shm w SV_WAIT i (TL_WAIT c)" i c]
    tl_copy[of "one_tool 0 0 True shm w SV_WAIT i (TL_COPY c)" i c]
    tl_drained[of "one_tool 0 0 True shm w SV_WAIT i (TL_DRAIN c m)" i c m]
    tl_unlock[of "one_tool 0 0 True shm w SV_WAIT i (TL_UNLOCK c r)" i c r]
  by (simp_all add: one_tool_def move_tool_def)

lemma one_server_steps:
  "server_step work (one_tool 1 0 True shm w SV_WAIT i pc) (one_tool 0 0 True shm w SV_DRAIN i pc)"
  "server_step work (one_tool 0 0 True shm w SV_DRAIN i pc) (one_tool 0 0 True shm w SV_EXEC i pc)"
  "work w shm = Inr (w', shm') \<Longrightarrow> server_step work (one_tool 0 0 True shm w SV_EXEC i pc) (one_tool 0 0 True shm' w' SV_POST i pc)"
  "server_step work (one_tool 0 0 True shm w SV_POST i pc) (one_tool 0 1 True shm w SV_WAIT i pc)"
  using sv_wait[of "one_tool 1 0 True shm w SV_WAIT i pc" work] sv_drained[of "one_tool 0 0 True shm w SV_DRAIN i pc" work]
    sv_exec[of "one_tool 0 0 True shm w SV_EXEC i pc" work w' shm'] sv_post[of "one_tool 0 0 True shm w SV_POST i pc" work]
  by (simp_all add: one_tool_def)

lemma call_alone:
  assumes "work w (put_request c shm) = Inr (w', shm')"
  shows "\<exists>y. (shm_step work)\<^sup>*\<^sup>* (shm_start w shm) y \<and> sy_tools y i = TL_DONE c (Some shm') \<and> sy_world y = w'"
proof -
  have t: "(shm_step work)\<^sup>*\<^sup>* y z" if "tool_step i y y'" "(shm_step work)\<^sup>*\<^sup>* y' z" for y y' z
    using that by (blast intro: converse_rtranclp_into_rtranclp shm_step_def[THEN iffD2])
  have s: "(shm_step work)\<^sup>*\<^sup>* y z" if "server_step work y y'" "(shm_step work)\<^sup>*\<^sup>* y' z" for y y' z
    using that by (blast intro: converse_rtranclp_into_rtranclp shm_step_def[THEN iffD2])
  have "(shm_step work)\<^sup>*\<^sup>* (one_tool 0 0 False shm w SV_WAIT i TL_IDLE) (one_tool 0 0 False shm' w' SV_WAIT i (TL_DONE c (Some shm')))"
    by (rule t, rule one_tool_steps(1), rule t, rule one_tool_steps(2), rule t, rule one_tool_steps(3), rule t,
        rule one_tool_steps(4), rule s, rule one_server_steps(1), rule s, rule one_server_steps(2), rule s,
        rule one_server_steps(3), rule assms, rule s, rule one_server_steps(4), rule t, rule one_tool_steps(5), rule t,
        rule one_tool_steps(6), rule t, rule one_tool_steps(7), rule t, rule one_tool_steps(8), rule rtranclp.rtrancl_refl)
  then show ?thesis unfolding one_tool_start[of w shm i] by (auto simp: one_tool_def)
qed

section \<open>Properties\<close>


definition counting_work :: "(nat, nat) shm_work" where
  "counting_work w shm = Inr (w + 1, shm\<lparr>sh_rsp := 7, sh_buf := w\<rparr>)"

definition example_param :: shmparam_t where
  "example_param = \<lparr>sp_bidx = 0, sp_idx = 1, sp_adr = 0, sp_id = 0, sp_val = 1, sp_val2 = 0, sp_fval = 0, sp_dval = 0,
     sp_val_arr = replicate 8 0, sp_dval_arr = replicate 8 0, sp_szbuf = [], sp_szbuflen = 0\<rparr>"


end
