(* ===== verification/ShmServer.thy ===== *)
theory ShmServer
  imports Shm ChanIo
begin

text \<open>
  The work of the server of \<open>shm.c\<close> on a command, and its start with the named semaphores.
\<close>

section \<open>The server\<close>

text \<open>What the server can touch: the model with the text of its time, and the channels.\<close>

record 's srv_t =
  srv_mdl :: mdl_t
  srv_sztime :: string
  srv_chans :: "'s chans_t"

text \<open>
  The work on one command, between its wait and its post. The buffer receives the model with the time; a command the
  server does not know leaves the response of the command before.
\<close>

definition shm_answer :: "int \<Rightarrow> 'm shm_t \<Rightarrow> 'm shm_t" where
  "shm_answer rsp shm = shm\<lparr>sh_rsp := rsp\<rparr>"

definition shm_exec ::
  "string \<Rightarrow> start_os \<Rightarrow> 's srv_t \<Rightarrow> (mdl_t \<times> string) shm_t \<Rightarrow> ('s srv_t \<times> (mdl_t \<times> string) shm_t) res" where
  "shm_exec now os sv shm =
     (let param = sh_param shm
      in case sh_cmd shm of
           CMD_STA_FETCH \<Rightarrow>
             (let sv1 = sv\<lparr>srv_sztime := now\<rparr>
              in Inr (sv1, shm_answer 0 (shm\<lparr>sh_buf := (srv_mdl sv1, srv_sztime sv1)\<rparr>)))
         | CMD_CHAN_SET_DBG \<Rightarrow>
             bind_res (chan_set_dbg (sp_idx param) (sp_val param) (srv_chans sv)) (\<lambda>ch.
               Inr (sv\<lparr>srv_chans := ch\<rparr>, shm_answer 0 shm))
         | CMD_CHAN_SET_EN \<Rightarrow>
             bind_res (chan_set_en (sp_idx param) (sp_val param) (srv_chans sv)) (\<lambda>ch.
               Inr (sv\<lparr>srv_chans := ch\<rparr>, shm_answer 0 shm))
         | CMD_CHAN_RESET \<Rightarrow>
             bind_res (chan_reset os (sp_idx param) (srv_chans sv)) (\<lambda>(ret, ch).
               Inr (sv\<lparr>srv_chans := ch\<rparr>, shm_answer ret shm))
         | _ \<Rightarrow> Inr (sv, shm))"

section \<open>Start\<close>

text \<open>The answers of the system; the named semaphores are those that exist, with their counts.\<close>

record shm_os =
  so_shmget :: bool
  so_shmat :: bool
  so_sem_error :: bool
  so_thread :: bool

type_synonym semaphores = "string \<rightharpoonup> nat"

text \<open>\<open>sem_open\<close> with \<open>O_CREAT | O_EXCL\<close> and, when the name exists, without; the result is the part of \<open>ret\<close>.\<close>

definition open_semaphore :: "bool \<Rightarrow> string \<Rightarrow> semaphores \<Rightarrow> semaphores option" where
  "open_semaphore sem_error name sems =
     (if sem_error then None else if sems name = None then Some (sems(name \<mapsto> 0)) else Some sems)"

definition server_ping :: string where "server_ping = ''mdl_sem_ping''"

definition server_pong :: string where "server_pong = ''mdl_sem_pong''"

definition shm_init :: "shm_os \<Rightarrow> semaphores \<Rightarrow> int \<times> semaphores" where
  "shm_init os sems =
     (if \<not> so_shmget os then (-1, sems)
      else if \<not> so_shmat os then (-2, sems)
      else case open_semaphore (so_sem_error os) server_ping sems of
             None \<Rightarrow> (-4, sems)
           | Some sems1 \<Rightarrow>
               (case open_semaphore (so_sem_error os) server_pong sems1 of
                  None \<Rightarrow> (-6, sems1)
                | Some sems2 \<Rightarrow> if so_thread os then (0, sems2) else (-10, sems2)))"

end
