(* ===== verification/Tool.thy ===== *)
theory Tool
  imports ShmServer CJsonPrint
begin

text \<open>
  The command-line tool \<open>platform/util/tool.c\<close>: the commands that its menu functions send, with the values that \<open>scanf\<close>
  stored as arguments, the menus, and its start. A command is an atomic call of the server. The texts it prints are
  left out.
\<close>

section \<open>Sending\<close>

text \<open>A function sends its commands one after the other; the responses are what it reports.\<close>

fun tool_send :: "('w, 'm) shm_work \<Rightarrow> shm_call list \<Rightarrow> 'w \<times> 'm shm_t \<Rightarrow> (int list \<times> 'w \<times> 'm shm_t) res" where
  "tool_send work [] s = Inr ([], s)"
| "tool_send work (c # cs) s =
     bind_res (work (fst s) (put_request c (snd s))) (\<lambda>(w, shm).
     bind_res (tool_send work cs (w, shm)) (\<lambda>(rs, s'). Inr (sh_rsp shm # rs, s')))"

text \<open>The loop over \<open>nb\<close> devices from \<open>start\<close> on; \<open>p\<close> is the local structure, whose other fields are not initialised.\<close>

definition send_range :: "cmd_t \<Rightarrow> int \<Rightarrow> int \<Rightarrow> shmparam_t \<Rightarrow> shm_call list" where
  "send_range cmd start nb p = map (\<lambda>i. (cmd, Some (p\<lparr>sp_idx := start + int i\<rparr>))) [0..<nat nb]"

definition update_station :: "('w, 'm) shm_work \<Rightarrow> 'w \<times> 'm shm_t \<Rightarrow> ('m \<times> 'w \<times> 'm shm_t) res" where
  "update_station work s =
     bind_res (work (fst s) (put_request (CMD_STA_FETCH, None) (snd s))) (\<lambda>(w, shm). Inr (sh_buf shm, w, shm))"

section \<open>Menu functions\<close>

text \<open>The values that \<open>scanf\<close> stored: integers, and one double.\<close>

type_synonym form = "int list \<times> dbl"

definition mfunc_chan_set_dbg :: "shmparam_t \<Rightarrow> form \<Rightarrow> shm_call list" where
  "mfunc_chan_set_dbg p f = send_range CMD_CHAN_SET_DBG (fst f ! 0) (fst f ! 1) (p\<lparr>sp_val := fst f ! 2\<rparr>)"

definition mfunc_chan_set_en :: "shmparam_t \<Rightarrow> form \<Rightarrow> shm_call list" where
  "mfunc_chan_set_en p f = send_range CMD_CHAN_SET_EN (fst f ! 0) (fst f ! 1) (p\<lparr>sp_val := fst f ! 2\<rparr>)"

definition mfunc_chan_reset :: "shmparam_t \<Rightarrow> form \<Rightarrow> shm_call list" where
  "mfunc_chan_reset p f = send_range CMD_CHAN_RESET (fst f ! 0) (fst f ! 1) p"

definition mfunc_meter_set_com_active_e :: "shmparam_t \<Rightarrow> form \<Rightarrow> shm_call list" where
  "mfunc_meter_set_com_active_e p f = send_range CMD_METER_SET_COMACTIVE (fst f ! 0) (fst f ! 1) (p\<lparr>sp_dval := snd f\<rparr>)"

definition mfunc_meter_set_com_active_p :: "shmparam_t \<Rightarrow> form \<Rightarrow> shm_call list" where
  "mfunc_meter_set_com_active_p p f = send_range CMD_METER_SET_COMACTIVP (fst f ! 0) (fst f ! 1) (p\<lparr>sp_dval := snd f\<rparr>)"

definition mfunc_meter_set_pt_mdl :: "shmparam_t \<Rightarrow> form \<Rightarrow> shm_call list" where
  "mfunc_meter_set_pt_mdl p f = send_range CMD_METER_SET_PT_MDL (fst f ! 0) (fst f ! 1) (p\<lparr>sp_val := fst f ! 2\<rparr>)"

definition mfunc_meter_set_ct_mdl :: "shmparam_t \<Rightarrow> form \<Rightarrow> shm_call list" where
  "mfunc_meter_set_ct_mdl p f = send_range CMD_METER_SET_CT_MDL (fst f ! 0) (fst f ! 1) (p\<lparr>sp_val := fst f ! 2\<rparr>)"

definition mfunc_meter_sendcmd :: "shmparam_t \<Rightarrow> form \<Rightarrow> shm_call list" where
  "mfunc_meter_sendcmd p f = send_range CMD_METER_SENDCMD (fst f ! 0) (fst f ! 1) (p\<lparr>sp_val := fst f ! 2\<rparr>)"

definition mfunc_meter_set_pt :: "shmparam_t \<Rightarrow> form \<Rightarrow> shm_call list" where
  "mfunc_meter_set_pt p f = send_range CMD_METER_SET_PT (fst f ! 0) (fst f ! 1) (p\<lparr>sp_val := fst f ! 2\<rparr>)"

definition mfunc_meter_set_ct :: "shmparam_t \<Rightarrow> form \<Rightarrow> shm_call list" where
  "mfunc_meter_set_ct p f = send_range CMD_METER_SET_CT (fst f ! 0) (fst f ! 1) (p\<lparr>sp_val := fst f ! 2\<rparr>)"

definition mfunc_mqtt_sendcmd :: "shmparam_t \<Rightarrow> form \<Rightarrow> shm_call list" where
  "mfunc_mqtt_sendcmd p f = [(CMD_MQTT_SENDCMD, Some (p\<lparr>sp_val := fst f ! 0\<rparr>))]"

definition mfunc_ctn_sendcmd :: "shmparam_t \<Rightarrow> form \<Rightarrow> shm_call list" where
  "mfunc_ctn_sendcmd p f = send_range CMD_CTN_SENDCMD (fst f ! 0) (fst f ! 1) (p\<lparr>sp_val := fst f ! 2\<rparr>)"

definition mfunc_ctn_set_aps :: "shmparam_t \<Rightarrow> form \<Rightarrow> shm_call list" where
  "mfunc_ctn_set_aps p f = send_range CMD_CTN_SET_ACTIVEPSET (fst f ! 0) (fst f ! 1) (p\<lparr>sp_dval := snd f\<rparr>)"

definition mfunc_sta_sendcmd :: "shmparam_t \<Rightarrow> form \<Rightarrow> shm_call list" where
  "mfunc_sta_sendcmd p f = [(CMD_STA_SENDCMD, Some (p\<lparr>sp_val := fst f ! 0\<rparr>))]"

text \<open>The position of a command in the first block of the enumeration is its number.\<close>

definition sta_cmd_nbr :: "cmd_t \<Rightarrow> int" where
  "sta_cmd_nbr c = (if c = CMD_SM_STDBY then 2 else if c = CMD_SM_STOP then 8 else if c = CMD_SM_READY then 9 else 0)"

definition mfunc_sta_send_stdby_cmd :: "shmparam_t \<Rightarrow> form \<Rightarrow> shm_call list" where
  "mfunc_sta_send_stdby_cmd p f = [(CMD_STA_SENDCMD, Some (p\<lparr>sp_val := sta_cmd_nbr CMD_SM_STDBY\<rparr>))]"

definition mfunc_sta_send_stop_cmd :: "shmparam_t \<Rightarrow> form \<Rightarrow> shm_call list" where
  "mfunc_sta_send_stop_cmd p f = [(CMD_STA_SENDCMD, Some (p\<lparr>sp_val := sta_cmd_nbr CMD_SM_STOP\<rparr>))]"

definition mfunc_sta_send_ready_cmd :: "shmparam_t \<Rightarrow> form \<Rightarrow> shm_call list" where
  "mfunc_sta_send_ready_cmd p f = [(CMD_STA_SENDCMD, Some (p\<lparr>sp_val := sta_cmd_nbr CMD_SM_READY\<rparr>))]"

definition mfunc_sta_set_active_p_set :: "shmparam_t \<Rightarrow> form \<Rightarrow> shm_call list" where
  "mfunc_sta_set_active_p_set p f = [(CMD_STA_SET_ACTIVEPSET, Some (p\<lparr>sp_val := fst f ! 0\<rparr>))]"

definition mfunc_cloud_set_ess_sys_en_intval :: "shmparam_t \<Rightarrow> form \<Rightarrow> shm_call list" where
  "mfunc_cloud_set_ess_sys_en_intval p f =
     send_range CMD_CLOUD_SET_ESSSYS_ENINTVAL 1 1 (p\<lparr>sp_val := fst f ! 0, sp_val2 := fst f ! 1\<rparr>)"

definition mfunc_ems_set_pow_regulate_high_low :: "shmparam_t \<Rightarrow> form \<Rightarrow> shm_call list" where
  "mfunc_ems_set_pow_regulate_high_low p f =
     send_range CMD_EMS_SET_POWREG_HIGHLOW 1 1 (p\<lparr>sp_val_arr := (sp_val_arr p)[0 := fst f ! 0, 1 := fst f ! 1]\<rparr>)"

definition mfunc_ems_set_pcurvidx :: "shmparam_t \<Rightarrow> form \<Rightarrow> shm_call list" where
  "mfunc_ems_set_pcurvidx p f = send_range CMD_EMS_SET_PIDX 1 1 (p\<lparr>sp_val := fst f ! 0\<rparr>)"

definition mfunc_ems_reset_pcurv :: "shmparam_t \<Rightarrow> form \<Rightarrow> shm_call list" where
  "mfunc_ems_reset_pcurv p f = [(CMD_EMS_RESET_PCURV, Some p)]"

definition mfunc_ems_edit_pcurv :: "shmparam_t \<Rightarrow> form \<Rightarrow> shm_call list" where
  "mfunc_ems_edit_pcurv p f =
     [(CMD_EMS_EDITPCURV, Some (p\<lparr>sp_val_arr := (sp_val_arr p)[0 := fst f ! 0, 1 := fst f ! 1, 2 := fst f ! 2, 3 := fst f ! 3],
                                  sp_val := fst f ! 4\<rparr>))]"

definition mfunc_ems_save_pcurv :: "shmparam_t \<Rightarrow> form \<Rightarrow> shm_call list" where
  "mfunc_ems_save_pcurv p f = [(CMD_EMS_SAVEPCURV, Some p)]"

text \<open>The two examples for the JSON library; the second repeats the first without end and frees nothing.\<close>

definition mfunc_misc_cjson_ex :: "string option res" where
  "mfunc_misc_cjson_ex =
     (let t0 = cJSON_CreateObject;
          t1 = cJSON_AddStringToObject t0 ''name'' ''mculover666'';
          t2 = cJSON_AddNumberToObject t1 ''age'' 22;
          t3 = cJSON_AddNumberToObject t2 ''weight'' (111 / 2);
          a0 = cJSON_CreateObject;
          a1 = cJSON_AddStringToObject a0 ''country'' ''China'';
          a2 = cJSON_AddNumberToObject a1 ''zip-code'' 111111;
          t4 = cJSON_AddItemToObject t3 ''address'' a2;
          s0 = cJSON_CreateArray;
          s1 = cJSON_AddItemToArray s0 (cJSON_CreateString ''C'');
          s2 = cJSON_AddItemToArray s1 (cJSON_CreateString ''Java'');
          s3 = cJSON_AddItemToArray s2 (cJSON_CreateString ''Python'');
          t5 = cJSON_AddItemToObject t4 ''skill'' s3;
          t6 = cJSON_AddFalseToObject t5 ''student''
      in cJSON_Print t6)"

section \<open>Menus\<close>

text \<open>
  An entry is hidden or not, and leaves the menu, sends commands, opens a menu, never returns, or works on the tool's own
  terminal or semaphores.
\<close>

datatype menu_fn = Fn_return | Fn_send "form \<Rightarrow> shm_call list" | Fn_menu "(bool \<times> string \<times> menu_fn) list" | Fn_forever | Fn_local

type_synonym menu_t = "bool \<times> string \<times> menu_fn"

definition menu_chan :: "shmparam_t \<Rightarrow> menu_t list" where
  "menu_chan p =
     [(False, ''return'', Fn_return), (False, ''print'', Fn_forever), (False, ''set dbg'', Fn_send (mfunc_chan_set_dbg p)),
      (False, ''set en'', Fn_send (mfunc_chan_set_en p)), (False, ''reset'', Fn_send (mfunc_chan_reset p))]"

definition menu_meter :: "shmparam_t \<Rightarrow> menu_t list" where
  "menu_meter p =
     [(False, ''return'', Fn_return), (False, ''send cmd'', Fn_send (mfunc_meter_sendcmd p)),
      (False, ''set PT'', Fn_send (mfunc_meter_set_pt p)), (False, ''set CT'', Fn_send (mfunc_meter_set_ct p))]"

definition menu_mqtt :: "shmparam_t \<Rightarrow> menu_t list" where
  "menu_mqtt p = [(False, ''return'', Fn_return), (False, ''send cmd'', Fn_send (mfunc_mqtt_sendcmd p))]"

definition menu_misc :: "menu_t list" where
  "menu_misc =
     [(False, ''return'', Fn_return), (False, ''print mac'', Fn_local), (False, ''lock shm'', Fn_local),
      (False, ''unlock shm'', Fn_local), (False, ''post semPing'', Fn_local), (False, ''wait semPong'', Fn_local),
      (False, ''cJSON example'', Fn_local), (False, ''ringbuffer example'', Fn_local),
      (False, ''mem leak example'', Fn_forever), (False, ''snap del test'', Fn_local)]"

definition menu_ctn :: "shmparam_t \<Rightarrow> menu_t list" where
  "menu_ctn p =
     [(False, ''return'', Fn_return), (False, ''send cmd'', Fn_send (mfunc_ctn_sendcmd p)), (False, ''set aps'', Fn_send (mfunc_ctn_set_aps p))]"

definition menu_sta :: "shmparam_t \<Rightarrow> menu_t list" where
  "menu_sta p =
     [(False, ''return'', Fn_return), (False, ''send cmd'', Fn_send (mfunc_sta_sendcmd p)),
      (False, ''set aps'', Fn_send (mfunc_sta_set_active_p_set p))]"

definition menu_cloud :: "shmparam_t \<Rightarrow> menu_t list" where
  "menu_cloud p =
     [(False, ''return'', Fn_return), (False, ''set ess_sys enable and interval'', Fn_send (mfunc_cloud_set_ess_sys_en_intval p))]"

definition menu_ems :: "shmparam_t \<Rightarrow> menu_t list" where
  "menu_ems p =
     [(False, ''return'', Fn_return), (False, ''set pow regulate high and low'', Fn_send (mfunc_ems_set_pow_regulate_high_low p)),
      (False, ''set pcurv idx'', Fn_send (mfunc_ems_set_pcurvidx p)), (False, ''reset pcurv'', Fn_send (mfunc_ems_reset_pcurv p)),
      (False, ''print pcurv'', Fn_local), (False, ''edit pcurv'', Fn_send (mfunc_ems_edit_pcurv p)),
      (False, ''save pcurv'', Fn_send (mfunc_ems_save_pcurv p))]"

text \<open>An entry of the main menu that opens another one runs the loop of \<open>menu_loop\<close> over it.\<close>

definition mfunc_chan :: "shmparam_t \<Rightarrow> menu_fn" where "mfunc_chan p = Fn_menu (menu_chan p)"

definition mfunc_meter :: "shmparam_t \<Rightarrow> menu_fn" where "mfunc_meter p = Fn_menu (menu_meter p)"

definition mfunc_mqtt :: "shmparam_t \<Rightarrow> menu_fn" where "mfunc_mqtt p = Fn_menu (menu_mqtt p)"

definition mfunc_misc :: "menu_fn" where "mfunc_misc = Fn_menu menu_misc"

definition mfunc_ctn :: "shmparam_t \<Rightarrow> menu_fn" where "mfunc_ctn p = Fn_menu (menu_ctn p)"

definition mfunc_sta :: "shmparam_t \<Rightarrow> menu_fn" where "mfunc_sta p = Fn_menu (menu_sta p)"

definition mfunc_cloud :: "shmparam_t \<Rightarrow> menu_fn" where "mfunc_cloud p = Fn_menu (menu_cloud p)"

definition mfunc_ems :: "shmparam_t \<Rightarrow> menu_fn" where "mfunc_ems p = Fn_menu (menu_ems p)"

text \<open>A decade of the main menu: one entry and hidden ones.\<close>

definition menu_decade :: "nat \<Rightarrow> menu_t \<Rightarrow> menu_t list" where
  "menu_decade n e = e # replicate (n - 1) (True, ''reserved'', Fn_return)"

definition menu_main :: "shmparam_t \<Rightarrow> menu_t list" where
  "menu_main p =
     [(False, ''exit'', Fn_return), (False, ''print sta'', Fn_forever),
      (False, ''sta send stdby cmd'', Fn_send (mfunc_sta_send_stdby_cmd p)),
      (False, ''sta send stop cmd'', Fn_send (mfunc_sta_send_stop_cmd p)),
      (False, ''sta send ready cmd'', Fn_send (mfunc_sta_send_ready_cmd p)),
      (False, ''sta set aps'', Fn_send (mfunc_sta_set_active_p_set p))]
     @ replicate 4 (True, ''r'', Fn_return)
     @ [(False, ''sta'', mfunc_sta p), (False, ''ems'', mfunc_ems p)]
     @ menu_decade 8 (False, ''cloud'', mfunc_cloud p)
     @ menu_decade 10 (False, ''ctn'', mfunc_ctn p)
     @ menu_decade 10 (False, ''chan'', mfunc_chan p)
     @ menu_decade 10 (True, ''pcs'', Fn_return)
     @ menu_decade 10 (True, ''pack'', Fn_return)
     @ menu_decade 10 (False, ''meter'', mfunc_meter p)
     @ menu_decade 10 (False, ''mqtt'', mfunc_mqtt p)
     @ menu_decade 9 (False, ''misc'', mfunc_misc)"

text \<open>The number is compared as an unsigned one, so a negative number is illegal too.\<close>

definition menu_select :: "menu_t list \<Rightarrow> int \<Rightarrow> menu_fn option" where
  "menu_select m iinput =
     (if 0 \<le> iinput \<and> nat iinput < length m
      then (case m ! nat iinput of (hide, info, fn) \<Rightarrow> if hide then None else Some fn) else None)"

text \<open>
  The nested loops of the menus on what the user enters, a number with the values asked for: the commands sent, and the
  menus still open. Nothing is read after an entry that does not return.
\<close>

fun menu_loop :: "menu_t list list \<Rightarrow> (int \<times> form) list \<Rightarrow> shm_call list \<times> menu_t list list" where
  "menu_loop [] us = ([], [])"
| "menu_loop ms [] = ([], ms)"
| "menu_loop (m # ms) ((iinput, f) # us) =
     (case menu_select m iinput of
        None \<Rightarrow> menu_loop (m # ms) us
      | Some Fn_return \<Rightarrow> menu_loop ms us
      | Some Fn_local \<Rightarrow> menu_loop (m # ms) us
      | Some Fn_forever \<Rightarrow> ([], m # ms)
      | Some (Fn_menu m') \<Rightarrow> menu_loop (m' # m # ms) us
      | Some (Fn_send g) \<Rightarrow> (case menu_loop (m # ms) us of (cs, ms') \<Rightarrow> (g f @ cs, ms')))"

section \<open>Start\<close>

definition tool_ping :: string where "tool_ping = ''sta_sem_ping''"

definition tool_pong :: string where "tool_pong = ''sta_sem_pong''"

text \<open>
  The tool does not create the semaphores. The first result is \<open>ret\<close> at \<open>leave\<close>, although the function returns 0 whatever
  it is; the second is what the menus sent.
\<close>

definition tool_main :: "bool \<Rightarrow> bool \<Rightarrow> semaphores \<Rightarrow> shmparam_t \<Rightarrow> (int \<times> form) list \<Rightarrow> int \<times> shm_call list" where
  "tool_main shm_exists attached sems p us =
     (if \<not> shm_exists then (-1, [])
      else if \<not> attached then (-2, [])
      else if sems tool_ping = None then (-3, [])
      else if sems tool_pong = None then (-4, [])
      else (0, fst (menu_loop [menu_main p] us)))"

section \<open>Commands for channels\<close>

lemma send_range_step:
  assumes "0 < nb"
  shows "send_range cmd start nb p = (cmd, Some (p\<lparr>sp_idx := start\<rparr>)) # send_range cmd (start + 1) (nb - 1) p"
proof -
  obtain k where k: "nat nb = Suc k" using assms by (cases "nat nb") auto
  then have "nat (nb - 1) = k" by simp
  then show ?thesis unfolding send_range_def k upt_conv_Cons[OF zero_less_Suc] map_Suc_upt[symmetric]
    by (simp add: comp_def add.assoc add.commute)
qed

definition enable_range :: "int \<Rightarrow> int \<Rightarrow> int \<Rightarrow> chan_t list \<Rightarrow> chan_t list" where
  "enable_range start nb v cs =
     map (\<lambda>i. if start \<le> int i \<and> int i < start + nb then (cs ! i)\<lparr>ch_en := v\<rparr> else cs ! i) [0..<length cs]"

lemma enable_range_step:
  "0 \<le> start \<Longrightarrow> 0 < nb \<Longrightarrow>
   enable_range (start + 1) (nb - 1) v (cs[nat start := (cs ! nat start)\<lparr>ch_en := v\<rparr>]) = enable_range start nb v cs"
  by (auto simp: enable_range_def nth_list_update)

lemma enable_range_none: "enable_range start 0 v cs = cs"
  by (auto simp: enable_range_def intro: nth_equalityI)

text \<open>One command for a channel inside the table and outside of it.\<close>

lemma exec_set_en:
  "0 \<le> i \<Longrightarrow> i < int (length (chan (srv_chans sv))) \<Longrightarrow>
   shm_exec now os sv (put_request (CMD_CHAN_SET_EN, Some (p\<lparr>sp_idx := i\<rparr>)) shm) =
     Inr (sv\<lparr>srv_chans := (srv_chans sv)\<lparr>chan := (chan (srv_chans sv))[nat i := (chan (srv_chans sv) ! nat i)\<lparr>ch_en := sp_val p\<rparr>]\<rparr>\<rparr>,
          shm_answer 0 (put_request (CMD_CHAN_SET_EN, Some (p\<lparr>sp_idx := i\<rparr>)) shm))"
  "i < 0 \<or> int (length (chan (srv_chans sv))) \<le> i \<Longrightarrow>
   shm_exec now os sv (put_request (CMD_CHAN_SET_EN, Some (p\<lparr>sp_idx := i\<rparr>)) shm) = Inl Out_of_bounds_read"
  by (auto simp: shm_exec_def put_request_def chan_set_en_def chan_upd_def chan_at_def chan_put_def Let_def)

lemma range_inside:
  assumes "0 \<le> nb" "0 \<le> start" "start + nb \<le> int (length (chan (srv_chans sv)))"
  shows "\<exists>shm'. tool_send (shm_exec now os) (send_range CMD_CHAN_SET_EN start nb p) (sv, shm) =
    Inr (replicate (nat nb) 0, sv\<lparr>srv_chans := (srv_chans sv)\<lparr>chan := enable_range start nb (sp_val p) (chan (srv_chans sv))\<rparr>\<rparr>, shm')"
  using assms
proof (induction "nat nb" arbitrary: nb start sv shm)
  case 0
  then show ?case by (simp add: send_range_def enable_range_none)
next
  case (Suc n)
  let ?req = "put_request (CMD_CHAN_SET_EN, Some (p\<lparr>sp_idx := start\<rparr>)) shm"
  let ?cs = "(chan (srv_chans sv))[nat start := (chan (srv_chans sv) ! nat start)\<lparr>ch_en := sp_val p\<rparr>]"
  let ?sv = "sv\<lparr>srv_chans := (srv_chans sv)\<lparr>chan := ?cs\<rparr>\<rparr>"
  have nb: "0 < nb" "n = nat (nb - 1)" using Suc(2) by simp_all
  obtain shm' where shm': "tool_send (shm_exec now os) (send_range CMD_CHAN_SET_EN (start + 1) (nb - 1) p) (?sv, shm_answer 0 ?req) =
      Inr (replicate (nat (nb - 1)) 0, ?sv\<lparr>srv_chans := (srv_chans ?sv)\<lparr>chan := enable_range (start + 1) (nb - 1) (sp_val p) ?cs\<rparr>\<rparr>, shm')"
    using Suc(1)[OF nb(2), of "start + 1" ?sv "shm_answer 0 ?req"] Suc(2-) nb(1) by auto
  have "nat nb = Suc (nat (nb - 1))" using nb(1) by simp
  then show ?case
    using shm' nb(1) Suc(4,5) by (simp add: send_range_step exec_set_en(1) enable_range_step shm_answer_def)
qed

lemma range_outside:
  assumes "0 < nb" "start < 0 \<or> int (length (chan (srv_chans sv))) < start + nb"
  shows "tool_send (shm_exec now os) (send_range CMD_CHAN_SET_EN start nb p) (sv, shm) = Inl Out_of_bounds_read"
  using assms
proof (induction "nat nb" arbitrary: nb start sv shm)
  case (Suc n)
  show ?case
  proof (cases "0 \<le> start \<and> start < int (length (chan (srv_chans sv)))")
    case True
    let ?cs = "(chan (srv_chans sv))[nat start := (chan (srv_chans sv) ! nat start)\<lparr>ch_en := sp_val p\<rparr>]"
    have "tool_send (shm_exec now os) (send_range CMD_CHAN_SET_EN (start + 1) (nb - 1) p)
        (sv\<lparr>srv_chans := (srv_chans sv)\<lparr>chan := ?cs\<rparr>\<rparr>, shm_answer 0 (put_request (CMD_CHAN_SET_EN, Some (p\<lparr>sp_idx := start\<rparr>)) shm)) =
      Inl Out_of_bounds_read"
    proof (rule Suc(1))
      show "n = nat (nb - 1)" using Suc(2) by simp
    qed (use Suc(3,4) True in auto)
    then show ?thesis using Suc(3) True by (simp add: send_range_step exec_set_en(1))
  next
    case False
    then have "start < 0 \<or> int (length (chan (srv_chans sv))) \<le> start" by auto
    then show ?thesis using Suc(3) by (simp add: send_range_step exec_set_en(2))
  qed
qed simp

lemma main_menu_chan: "menu_select (menu_main p) 30 = Some (Fn_menu (menu_chan p))"
  by (simp add: menu_select_def menu_main_def menu_decade_def mfunc_chan_def nth_append numeral_eq_Suc)

lemma session_calls:
  "fst (menu_loop [menu_main p] [(30, f0), (3, ([start, nb, en], d)), (0, f1), (0, f2)]) =
    send_range CMD_CHAN_SET_EN start nb (p\<lparr>sp_val := en\<rparr>)"
proof -
  have "menu_select (menu_chan p) 3 = Some (Fn_send (mfunc_chan_set_en p))" "menu_select (menu_chan p) 0 = Some Fn_return"
    "menu_select (menu_main p) 0 = Some Fn_return"
    by (simp_all add: menu_select_def menu_chan_def menu_main_def)
  then show ?thesis by (simp add: main_menu_chan mfunc_chan_set_en_def)
qed

section \<open>Properties\<close>


definition sample_srv :: "nat srv_t" where
  "sample_srv = \<lparr>srv_mdl = MDL mbs_example, srv_sztime = [], srv_chans = sample_chans (sample_chan ''N'' Null)\<rparr>"

definition sample_shm :: "(mdl_t \<times> string) shm_t" where
  "sample_shm = \<lparr>sh_cmd = CMD_SM_DONE, sh_rsp = 0, sh_param = example_param, sh_buf = (MDL mbs_example, [])\<rparr>"


text \<open>Fact: the tool never reaches the server: it opens semaphores of other names than those the server creates, so in a
  system where nobody else creates them it ends before its first menu.\<close>

theorem tool_does_not_find_server:
  assumes "shm_init os (\<lambda>name. None) = (ret, sems)"
  shows "tool_main True True sems p us = (-3, [])"
proof -
  have "sems tool_ping = None"
    using assms by (auto simp: shm_init_def open_semaphore_def server_ping_def server_pong_def tool_ping_def split: if_splits)
  then show ?thesis by (simp add: tool_main_def)
qed

theorem tool_does_not_find_server_witness:
  "shm_init \<lparr>so_shmget = True, so_shmat = True, so_sem_error = False, so_thread = True\<rparr> (\<lambda>name. None) =
     (0, [''mdl_sem_ping'' \<mapsto> 0, ''mdl_sem_pong'' \<mapsto> 0]) \<and>
   tool_main True True [''mdl_sem_ping'' \<mapsto> 0, ''mdl_sem_pong'' \<mapsto> 0] example_param [] = (-3, [])"
proof -
  have i: "shm_init \<lparr>so_shmget = True, so_shmat = True, so_sem_error = False, so_thread = True\<rparr> (\<lambda>name. None) =
     (0, [''mdl_sem_ping'' \<mapsto> 0, ''mdl_sem_pong'' \<mapsto> 0])"
    by (auto simp: shm_init_def open_semaphore_def server_ping_def server_pong_def)
  show ?thesis using tool_does_not_find_server[OF i] i by blast
qed

text \<open>Fact: a command that the server does not know, as all those of the menus for meters, containers, station, cloud and
  energy management, changes nothing and is answered with the response of the command before it.\<close>

theorem unknown_command_keeps_response:
  "sh_cmd shm \<notin> {CMD_STA_FETCH, CMD_CHAN_SET_DBG, CMD_CHAN_SET_EN, CMD_CHAN_RESET} \<Longrightarrow> shm_exec now os sv shm = Inr (sv, shm)"
  by (cases "sh_cmd shm") (simp_all add: shm_exec_def)

end
