(* ===== verification/LinkedList.thy ===== *)
theory LinkedList
  imports Prelude "HOL-Library.Multiset"
begin

text \<open>
  The doubly linked list \<open>component/list\<close>: nodes in a heap of allocated addresses, the operations with their writes through
  pointers, iterators, and the sorting function. A loop that follows pointers is a partial function: no result means
  that it does not end.
\<close>

section \<open>Nodes\<close>

type_synonym nptr = "nat option"

record 'v list_node =
  nd_prev :: nptr
  nd_next :: nptr
  nd_val :: 'v

type_synonym 'v node_heap = "nat \<rightharpoonup> 'v list_node"

definition node_at :: "'v node_heap \<Rightarrow> nptr \<Rightarrow> 'v list_node res" where
  "node_at h p =
     (case p of None \<Rightarrow> Inl Null_deref
      | Some a \<Rightarrow> (case h a of None \<Rightarrow> Inl Use_after_free | Some nd \<Rightarrow> Inr nd))"

definition node_upd :: "nptr \<Rightarrow> ('v list_node \<Rightarrow> 'v list_node) \<Rightarrow> 'v node_heap \<Rightarrow> 'v node_heap res" where
  "node_upd p f h = bind_res (node_at h p) (\<lambda>nd. Inr (h(the p \<mapsto> f nd)))"

text \<open>What \<open>malloc\<close> returns is an argument: no address, or one that is not in use.\<close>

definition list_node_new :: "nptr \<Rightarrow> 'v \<Rightarrow> 'v node_heap \<Rightarrow> nptr \<times> 'v node_heap" where
  "list_node_new addr v h =
     (case addr of None \<Rightarrow> (None, h)
      | Some a \<Rightarrow> (Some a, h(a \<mapsto> \<lparr>nd_prev = None, nd_next = None, nd_val = v\<rparr>)))"

section \<open>Lists\<close>

text \<open>The destructor of the values only says whether there is one; the values it received are kept in the state.\<close>

record 'v list_t =
  l_head :: nptr
  l_tail :: nptr
  l_len :: uint32
  l_free :: bool
  l_match :: "('v \<Rightarrow> 'v \<Rightarrow> int) option"

record 'v list_st =
  ls_heap :: "'v node_heap"
  ls_self :: "'v list_t"
  ls_freed :: "'v list"

definition list_new :: "bool \<Rightarrow> 'v list_t option" where
  "list_new mem =
     (if mem then Some \<lparr>l_head = None, l_tail = None, l_len = 0, l_free = False, l_match = None\<rparr> else None)"

definition list_len :: "'v list_t \<Rightarrow> int" where
  "list_len self = sint (l_len self)"

definition list_set_match :: "'v list_t \<Rightarrow> ('v \<Rightarrow> 'v \<Rightarrow> int) option \<Rightarrow> 'v list_t" where
  "list_set_match self pfunc = self\<lparr>l_match := pfunc\<rparr>"

definition link_single :: "nptr \<Rightarrow> 'v list_st \<Rightarrow> 'v list_st res" where
  "link_single node s =
     bind_res (node_upd node (\<lambda>nd. nd\<lparr>nd_prev := None, nd_next := None\<rparr>) (ls_heap s)) (\<lambda>h.
       Inr (s\<lparr>ls_heap := h, ls_self := (ls_self s)\<lparr>l_head := node, l_tail := node\<rparr>\<rparr>))"

definition len_inc :: "'v list_st \<Rightarrow> 'v list_st" where
  "len_inc s = s\<lparr>ls_self := (ls_self s)\<lparr>l_len := l_len (ls_self s) + 1\<rparr>\<rparr>"

definition len_dec :: "'v list_st \<Rightarrow> 'v list_st" where
  "len_dec s = s\<lparr>ls_self := (ls_self s)\<lparr>l_len := l_len (ls_self s) - 1\<rparr>\<rparr>"

definition list_rpush :: "nptr \<Rightarrow> 'v list_st \<Rightarrow> (nptr \<times> 'v list_st) res" where
  "list_rpush node s =
     (if node = None then Inr (None, s)
      else if l_len (ls_self s) \<noteq> 0
      then bind_res (node_upd node (\<lambda>nd. nd\<lparr>nd_prev := l_tail (ls_self s), nd_next := None\<rparr>) (ls_heap s)) (\<lambda>h1.
           bind_res (node_upd (l_tail (ls_self s)) (\<lambda>nd. nd\<lparr>nd_next := node\<rparr>) h1) (\<lambda>h2.
             Inr (node, len_inc (s\<lparr>ls_heap := h2, ls_self := (ls_self s)\<lparr>l_tail := node\<rparr>\<rparr>))))
      else bind_res (link_single node s) (\<lambda>s1. Inr (node, len_inc s1)))"

definition list_lpush :: "nptr \<Rightarrow> 'v list_st \<Rightarrow> (nptr \<times> 'v list_st) res" where
  "list_lpush node s =
     (if node = None then Inr (None, s)
      else if l_len (ls_self s) \<noteq> 0
      then bind_res (node_upd node (\<lambda>nd. nd\<lparr>nd_next := l_head (ls_self s), nd_prev := None\<rparr>) (ls_heap s)) (\<lambda>h1.
           bind_res (node_upd (l_head (ls_self s)) (\<lambda>nd. nd\<lparr>nd_prev := node\<rparr>) h1) (\<lambda>h2.
             Inr (node, len_inc (s\<lparr>ls_heap := h2, ls_self := (ls_self s)\<lparr>l_head := node\<rparr>\<rparr>))))
      else bind_res (link_single node s) (\<lambda>s1. Inr (node, len_inc s1)))"

definition list_rpop :: "'v list_st \<Rightarrow> (nptr \<times> 'v list_st) res" where
  "list_rpop s =
     (if l_len (ls_self s) = 0 then Inr (None, s)
      else
        let node = l_tail (ls_self s); s1 = len_dec s
        in bind_res
             (if l_len (ls_self s1) \<noteq> 0
              then bind_res (node_at (ls_heap s1) node) (\<lambda>nd.
                   bind_res (node_upd (nd_prev nd) (\<lambda>pd. pd\<lparr>nd_next := None\<rparr>) (ls_heap s1)) (\<lambda>h.
                     Inr (s1\<lparr>ls_heap := h, ls_self := (ls_self s1)\<lparr>l_tail := nd_prev nd\<rparr>\<rparr>)))
              else Inr (s1\<lparr>ls_self := (ls_self s1)\<lparr>l_head := None, l_tail := None\<rparr>\<rparr>)) (\<lambda>s2.
           bind_res (node_upd node (\<lambda>nd. nd\<lparr>nd_prev := None, nd_next := None\<rparr>) (ls_heap s2)) (\<lambda>h.
             Inr (node, s2\<lparr>ls_heap := h\<rparr>))))"

definition list_lpop :: "'v list_st \<Rightarrow> (nptr \<times> 'v list_st) res" where
  "list_lpop s =
     (if l_len (ls_self s) = 0 then Inr (None, s)
      else
        let node = l_head (ls_self s); s1 = len_dec s
        in bind_res
             (if l_len (ls_self s1) \<noteq> 0
              then bind_res (node_at (ls_heap s1) node) (\<lambda>nd.
                   bind_res (node_upd (nd_next nd) (\<lambda>pd. pd\<lparr>nd_prev := None\<rparr>) (ls_heap s1)) (\<lambda>h.
                     Inr (s1\<lparr>ls_heap := h, ls_self := (ls_self s1)\<lparr>l_head := nd_next nd\<rparr>\<rparr>)))
              else Inr (s1\<lparr>ls_self := (ls_self s1)\<lparr>l_head := None, l_tail := None\<rparr>\<rparr>)) (\<lambda>s2.
           bind_res (node_upd node (\<lambda>nd. nd\<lparr>nd_prev := None, nd_next := None\<rparr>) (ls_heap s2)) (\<lambda>h.
             Inr (node, s2\<lparr>ls_heap := h\<rparr>))))"

text \<open>Removal frees the node, and its value when the list has a destructor.\<close>

definition unlink_prev :: "'v list_node \<Rightarrow> 'v list_st \<Rightarrow> 'v list_st res" where
  "unlink_prev nd s =
     (if nd_prev nd \<noteq> None
      then bind_res (node_upd (nd_prev nd) (\<lambda>pd. pd\<lparr>nd_next := nd_next nd\<rparr>) (ls_heap s)) (\<lambda>h. Inr (s\<lparr>ls_heap := h\<rparr>))
      else Inr (s\<lparr>ls_self := (ls_self s)\<lparr>l_head := nd_next nd\<rparr>\<rparr>))"

definition unlink_next :: "'v list_node \<Rightarrow> 'v list_st \<Rightarrow> 'v list_st res" where
  "unlink_next nd s =
     (if nd_next nd \<noteq> None
      then bind_res (node_upd (nd_next nd) (\<lambda>pd. pd\<lparr>nd_prev := nd_prev nd\<rparr>) (ls_heap s)) (\<lambda>h. Inr (s\<lparr>ls_heap := h\<rparr>))
      else Inr (s\<lparr>ls_self := (ls_self s)\<lparr>l_tail := nd_prev nd\<rparr>\<rparr>))"

definition list_free_node :: "nat \<Rightarrow> 'v \<Rightarrow> 'v list_st \<Rightarrow> 'v list_st" where
  "list_free_node a v s =
     s\<lparr>ls_heap := (ls_heap s)(a := None), ls_freed := ls_freed s @ (if l_free (ls_self s) then [v] else [])\<rparr>"

definition list_remove :: "nptr \<Rightarrow> 'v list_st \<Rightarrow> 'v list_st res" where
  "list_remove node s =
     bind_res (node_at (ls_heap s) node) (\<lambda>nd.
     bind_res (unlink_prev nd s) (\<lambda>s1.
     bind_res (node_at (ls_heap s1) node) (\<lambda>nd1.
     bind_res (unlink_next nd1 s1) (\<lambda>s2.
       Inr (len_dec (list_free_node (the node) (nd_val nd1) s2))))))"

text \<open>The loop over the length; the list structure itself is freed too.\<close>

fun destroy_loop :: "nat \<Rightarrow> nptr \<Rightarrow> 'v list_st \<Rightarrow> 'v list_st res" where
  "destroy_loop 0 cur s = Inr s"
| "destroy_loop (Suc n) cur s =
     bind_res (node_at (ls_heap s) cur) (\<lambda>nd. destroy_loop n (nd_next nd) (list_free_node (the cur) (nd_val nd) s))"

definition list_destroy :: "'v list_st \<Rightarrow> ('v node_heap \<times> 'v list) res" where
  "list_destroy s =
     bind_res (destroy_loop (unat (l_len (ls_self s))) (l_head (ls_self s)) s) (\<lambda>s1. Inr (ls_heap s1, ls_freed s1))"

section \<open>Iterators\<close>

datatype list_direction_t = LIST_HEAD | LIST_TAIL

record list_iterator_t =
  it_next :: nptr
  it_direction :: list_direction_t

definition list_iterator_new_from_node :: "bool \<Rightarrow> nptr \<Rightarrow> list_direction_t \<Rightarrow> list_iterator_t option" where
  "list_iterator_new_from_node mem node d = (if mem then Some \<lparr>it_next = node, it_direction = d\<rparr> else None)"

definition list_iterator_new :: "bool \<Rightarrow> 'v list_t \<Rightarrow> list_direction_t \<Rightarrow> list_iterator_t option" where
  "list_iterator_new mem self d =
     list_iterator_new_from_node mem (if d = LIST_HEAD then l_head self else l_tail self) d"

definition list_iterator_next :: "'v node_heap \<Rightarrow> list_iterator_t \<Rightarrow> (nptr \<times> list_iterator_t) res" where
  "list_iterator_next h it =
     (case it_next it of
        None \<Rightarrow> Inr (None, it)
      | Some a \<Rightarrow>
          bind_res (node_at h (it_next it)) (\<lambda>nd.
            Inr (it_next it, it\<lparr>it_next := (if it_direction it = LIST_HEAD then nd_next nd else nd_prev nd)\<rparr>)))"

text \<open>A function that gets no memory for its iterator uses a null pointer.\<close>

definition with_iterator :: "list_iterator_t option \<Rightarrow> (list_iterator_t \<Rightarrow> 'a res option) \<Rightarrow> 'a res option" where
  "with_iterator it f = (case it of None \<Rightarrow> Some (Inl Null_deref) | Some i \<Rightarrow> f i)"

definition list_hit :: "'v list_t \<Rightarrow> 'v \<Rightarrow> 'v \<Rightarrow> bool" where
  "list_hit self v w = (case l_match self of Some m \<Rightarrow> m v w \<noteq> 0 | None \<Rightarrow> v = w)"

partial_function (option) find_loop :: "'v list_st \<Rightarrow> 'v \<Rightarrow> list_iterator_t \<Rightarrow> nptr res option" where
  "find_loop s v it =
     (case list_iterator_next (ls_heap s) it of
        Inl e \<Rightarrow> Some (Inl e)
      | Inr (node, it') \<Rightarrow>
          (case node of
             None \<Rightarrow> Some (Inr None)
           | Some a \<Rightarrow>
               (case node_at (ls_heap s) node of
                  Inl e \<Rightarrow> Some (Inl e)
                | Inr nd \<Rightarrow> if list_hit (ls_self s) v (nd_val nd) then Some (Inr node) else find_loop s v it')))"

definition list_find :: "bool \<Rightarrow> 'v list_st \<Rightarrow> 'v \<Rightarrow> nptr res option" where
  "list_find mem s v = with_iterator (list_iterator_new mem (ls_self s) LIST_HEAD) (find_loop s v)"

fun at_loop :: "'v node_heap \<Rightarrow> nat \<Rightarrow> list_iterator_t \<Rightarrow> nptr res" where
  "at_loop h 0 it = bind_res (list_iterator_next h it) (\<lambda>(node, it'). Inr node)"
| "at_loop h (Suc n) it = bind_res (list_iterator_next h it) (\<lambda>(node, it'). at_loop h n it')"

definition list_at :: "bool \<Rightarrow> 'v list_st \<Rightarrow> int \<Rightarrow> nptr res option" where
  "list_at mem s index =
     (let direction = (if index < 0 then LIST_TAIL else LIST_HEAD);
          i = (if index < 0 then - index - 1 else index)
      in if i < uint (l_len (ls_self s))
         then with_iterator (list_iterator_new mem (ls_self s) direction) (\<lambda>it. Some (at_loop (ls_heap s) (nat i) it))
         else Some (Inr None))"

partial_function (option) clear_loop :: "list_iterator_t \<Rightarrow> 'v list_st \<Rightarrow> 'v list_st res option" where
  "clear_loop it s =
     (case list_iterator_next (ls_heap s) it of
        Inl e \<Rightarrow> Some (Inl e)
      | Inr (node, it') \<Rightarrow>
          (if node = None then Some (Inr s)
           else case list_remove node s of Inl e \<Rightarrow> Some (Inl e) | Inr s' \<Rightarrow> clear_loop it' s'))"

definition list_clear :: "bool \<Rightarrow> 'v list_st \<Rightarrow> 'v list_st res option" where
  "list_clear mem s = with_iterator (list_iterator_new mem (ls_self s) LIST_HEAD) (\<lambda>it. clear_loop it s)"

section \<open>Sorting\<close>

text \<open>The comparison is called through its pointer, which may be null; values change places when it returns 0.\<close>

definition sort_compare :: "nptr \<Rightarrow> nptr \<Rightarrow> 'v list_st \<Rightarrow> 'v list_st res" where
  "sort_compare i j s =
     bind_res (node_at (ls_heap s) i) (\<lambda>inode.
     bind_res (node_at (ls_heap s) j) (\<lambda>jnode.
       case l_match (ls_self s) of
         None \<Rightarrow> Inl Null_deref
       | Some m \<Rightarrow>
           (if m (nd_val inode) (nd_val jnode) = 0
            then Inr (s\<lparr>ls_heap := (ls_heap s)(the i \<mapsto> inode\<lparr>nd_val := nd_val jnode\<rparr>, the j \<mapsto> jnode\<lparr>nd_val := nd_val inode\<rparr>)\<rparr>)
            else Inr s)))"

partial_function (option) sort_inner :: "nptr \<Rightarrow> nptr \<Rightarrow> 'v list_st \<Rightarrow> 'v list_st res option" where
  "sort_inner i j s =
     (if j = None then Some (Inr s)
      else case bind_res (sort_compare i j s) (\<lambda>s'. bind_res (node_at (ls_heap s') j) (\<lambda>nd. Inr (nd_next nd, s'))) of
             Inl e \<Rightarrow> Some (Inl e)
           | Inr (j', s') \<Rightarrow> sort_inner i j' s')"

partial_function (option) sort_outer :: "nptr \<Rightarrow> 'v list_st \<Rightarrow> 'v list_st res option" where
  "sort_outer i s =
     (if i = l_tail (ls_self s) then Some (Inr s)
      else case node_at (ls_heap s) i of
             Inl e \<Rightarrow> Some (Inl e)
           | Inr nd \<Rightarrow>
               (case sort_inner i (nd_next nd) s of
                  None \<Rightarrow> None
                | Some (Inl e) \<Rightarrow> Some (Inl e)
                | Some (Inr s') \<Rightarrow>
                    (case node_at (ls_heap s') i of Inl e \<Rightarrow> Some (Inl e) | Inr nd' \<Rightarrow> sort_outer (nd_next nd') s')))"

definition list_sort :: "'v list_st \<Rightarrow> 'v list_st res option" where
  "list_sort s = (if list_len (ls_self s) \<le> 1 then Some (Inr s) else sort_outer (l_head (ls_self s)) s)"

section \<open>What a list represents\<close>

text \<open>A sequence of nodes with their values, linked both ways from the node before it to the one after it.\<close>

fun first :: "(nat \<times> 'v) list \<Rightarrow> nptr \<Rightarrow> nptr" where
  "first [] n = n"
| "first (x # xs) n = Some (fst x)"

definition final :: "nptr \<Rightarrow> (nat \<times> 'v) list \<Rightarrow> nptr" where
  "final p xs = (if xs = [] then p else Some (fst (last xs)))"

fun chain :: "'v node_heap \<Rightarrow> nptr \<Rightarrow> (nat \<times> 'v) list \<Rightarrow> nptr \<Rightarrow> bool" where
  "chain h p [] n \<longleftrightarrow> True"
| "chain h p (x # xs) n \<longleftrightarrow>
     h (fst x) = Some \<lparr>nd_prev = p, nd_next = first xs n, nd_val = snd x\<rparr> \<and> chain h (Some (fst x)) xs n"

definition represents :: "'v list_st \<Rightarrow> (nat \<times> 'v) list \<Rightarrow> bool" where
  "represents s xs \<longleftrightarrow>
     distinct (map fst xs) \<and> chain (ls_heap s) None xs None \<and> l_head (ls_self s) = first xs None \<and>
     l_tail (ls_self s) = final None xs \<and> unat (l_len (ls_self s)) = length xs"

lemma first_append [simp]: "first (xs @ ys) n = first xs (first ys n)"
  by (cases xs) auto

lemma final_simps [simp]: "final p [] = p" "final p (xs @ [x]) = Some (fst x)" "final p (x # xs) = final (Some (fst x)) xs"
  by (auto simp: final_def)

lemma final_append [simp]: "final p (xs @ ys) = final (final p xs) ys"
  by (auto simp: final_def)

lemma chain_append [simp]: "chain h p (xs @ ys) n \<longleftrightarrow> chain h p xs (first ys n) \<and> chain h (final p xs) ys n"
  by (induction xs arbitrary: p) auto

lemma chain_other [simp]: "a \<notin> fst ` set xs \<Longrightarrow> chain (h(a := x)) p xs n = chain h p xs n"
  by (induction xs arbitrary: p) auto

lemma node_at_simps [simp]: "h a = Some nd \<Longrightarrow> node_at h (Some a) = Inr nd"
  by (simp add: node_at_def)

lemma node_upd_simps [simp]: "h a = Some nd \<Longrightarrow> node_upd (Some a) f h = Inr (h(a \<mapsto> f nd))"
  by (simp add: node_upd_def)

lemma len_zero: "represents s xs \<Longrightarrow> l_len (ls_self s) = 0 \<longleftrightarrow> xs = []"
  by (auto simp: represents_def unat_eq_zero)

lemma len_inc_unat: "unat (l :: uint32) + 1 < 2 ^ 32 \<Longrightarrow> unat (l + 1) = unat l + 1"
  by (simp add: unat_word_ariths)

lemma len_dec_unat: "unat (l :: uint32) = Suc n \<Longrightarrow> unat (l - 1) = n"
  by (metis add_diff_cancel_right' plus_1_eq_Suc unat_minus_one unat_eq_zero nat.distinct(1) add.commute)

lemma list_rpush_appends:
  assumes "represents s xs" "ls_heap s a = Some nd" "a \<notin> fst ` set xs" "length xs + 1 < 2 ^ 32"
  shows "\<exists>s'. list_rpush (Some a) s = Inr (Some a, s') \<and> represents s' (xs @ [(a, nd_val nd)]) \<and>
    (\<forall>x. x \<notin> insert a (fst ` set xs) \<longrightarrow> ls_heap s' x = ls_heap s x)"
proof (cases xs rule: rev_cases)
  case Nil
  have "l_len (ls_self s) = 0" using assms(1) Nil len_zero by blast
  then show ?thesis using assms Nil
    by (cases nd) (auto simp: list_rpush_def link_single_def len_inc_def represents_def)
next
  case (snoc ys b)
  have "l_len (ls_self s) \<noteq> 0" using assms(1) snoc len_zero by blast
  then show ?thesis using assms snoc len_inc_unat[of "l_len (ls_self s)"]
    by (cases nd, cases b) (auto simp: list_rpush_def len_inc_def represents_def)
qed

lemma list_lpush_prepends:
  assumes "represents s xs" "ls_heap s a = Some nd" "a \<notin> fst ` set xs" "length xs + 1 < 2 ^ 32"
  shows "\<exists>s'. list_lpush (Some a) s = Inr (Some a, s') \<and> represents s' ((a, nd_val nd) # xs) \<and>
    (\<forall>x. x \<notin> insert a (fst ` set xs) \<longrightarrow> ls_heap s' x = ls_heap s x)"
proof (cases xs)
  case Nil
  have "l_len (ls_self s) = 0" using assms(1) Nil len_zero by blast
  then show ?thesis using assms Nil
    by (cases nd) (auto simp: list_lpush_def link_single_def len_inc_def represents_def)
next
  case (Cons b ys)
  have "l_len (ls_self s) \<noteq> 0" using assms(1) Cons len_zero by blast
  then show ?thesis using assms Cons len_inc_unat[of "l_len (ls_self s)"]
    by (cases nd, cases b) (auto simp: list_lpush_def len_inc_def represents_def)
qed

lemma list_rpop_takes_last:
  assumes "represents s (xs @ [(a, v)])"
  shows "\<exists>s'. list_rpop s = Inr (Some a, s') \<and> represents s' xs \<and>
    ls_heap s' a = Some \<lparr>nd_prev = None, nd_next = None, nd_val = v\<rparr>"
proof -
  have l: "l_len (ls_self s) \<noteq> 0" using assms len_zero by blast
  have l1: "unat (l_len (ls_self s) - 1) = length xs" using assms by (intro len_dec_unat) (simp add: represents_def)
  then have l0: "l_len (ls_self s) - 1 = 0 \<longleftrightarrow> xs = []" by (metis length_0_conv unat_eq_zero)
  show ?thesis
    using assms l l1 l0 by (cases xs rule: rev_cases) (auto simp: list_rpop_def len_dec_def represents_def Let_def)
qed

lemma list_lpop_takes_first:
  assumes "represents s ((a, v) # xs)"
  shows "\<exists>s'. list_lpop s = Inr (Some a, s') \<and> represents s' xs \<and>
    ls_heap s' a = Some \<lparr>nd_prev = None, nd_next = None, nd_val = v\<rparr>"
proof -
  have l: "l_len (ls_self s) \<noteq> 0" using assms len_zero by blast
  have l1: "unat (l_len (ls_self s) - 1) = length xs" using assms by (intro len_dec_unat) (simp add: represents_def)
  then have l0: "l_len (ls_self s) - 1 = 0 \<longleftrightarrow> xs = []" by (metis length_0_conv unat_eq_zero)
  show ?thesis
    using assms l l1 l0 by (cases xs) (auto simp: list_lpop_def len_dec_def represents_def Let_def)
qed

lemma list_remove_takes_out:
  assumes "represents s (xs @ (a, v) # ys)"
  shows "\<exists>s'. list_remove (Some a) s = Inr s' \<and> represents s' (xs @ ys) \<and> ls_heap s' a = None \<and>
    (\<forall>x. x \<notin> fst ` set (xs @ (a, v) # ys) \<longrightarrow> ls_heap s' x = ls_heap s x) \<and>
    l_match (ls_self s') = l_match (ls_self s) \<and> l_free (ls_self s') = l_free (ls_self s) \<and>
    ls_freed s' = ls_freed s @ (if l_free (ls_self s) then [v] else [])"
proof -
  have l1: "unat (l_len (ls_self s) - 1) = length xs + length ys"
    using assms by (intro len_dec_unat) (simp add: represents_def)
  show ?thesis
    using assms l1
    by (cases xs rule: rev_cases; cases ys)
      (auto simp: list_remove_def unlink_prev_def unlink_next_def list_free_node_def len_dec_def represents_def)
qed

section \<open>Searching and clearing\<close>

lemma iterator_next_head:
  "chain h p (x # xs) n \<Longrightarrow>
   list_iterator_next h \<lparr>it_next = Some (fst x), it_direction = LIST_HEAD\<rparr> =
     Inr (Some (fst x), \<lparr>it_next = first xs n, it_direction = LIST_HEAD\<rparr>)"
  by (simp add: list_iterator_next_def)

lemma iterator_next_end [simp]: "list_iterator_next h \<lparr>it_next = None, it_direction = d\<rparr> = Inr (None, \<lparr>it_next = None, it_direction = d\<rparr>)"
  by (simp add: list_iterator_next_def)

lemma find_loop_finds:
  "chain (ls_heap s) p xs None \<Longrightarrow>
   find_loop s v \<lparr>it_next = first xs None, it_direction = LIST_HEAD\<rparr> =
     Some (Inr (map_option fst (List.find (\<lambda>x. list_hit (ls_self s) v (snd x)) xs)))"
proof (induction xs arbitrary: p)
  case Nil
  then show ?case by (subst find_loop.simps) simp
next
  case (Cons x xs)
  then show ?case by (subst find_loop.simps) (auto simp: iterator_next_head)
qed

lemma list_find_finds:
  "represents s xs \<Longrightarrow>
   list_find True s v = Some (Inr (map_option fst (List.find (\<lambda>x. list_hit (ls_self s) v (snd x)) xs)))"
  using find_loop_finds[of s None xs v]
  by (simp add: list_find_def with_iterator_def list_iterator_new_def list_iterator_new_from_node_def represents_def)

lemma at_loop_head:
  "chain h p xs None \<Longrightarrow> n < length xs \<Longrightarrow>
   at_loop h n \<lparr>it_next = first xs None, it_direction = LIST_HEAD\<rparr> = Inr (Some (fst (xs ! n)))"
proof (induction n arbitrary: xs p)
  case 0
  then show ?case by (cases xs) (auto simp: list_iterator_next_def)
next
  case (Suc n)
  then show ?case by (cases xs) (auto simp: list_iterator_next_def)
qed

lemma at_loop_tail:
  "chain h None xs m \<Longrightarrow> n < length xs \<Longrightarrow>
   at_loop h n \<lparr>it_next = final None xs, it_direction = LIST_TAIL\<rparr> = Inr (Some (fst (rev xs ! n)))"
proof (induction n arbitrary: xs m)
  case 0
  then show ?case by (cases xs rule: rev_cases) (auto simp: list_iterator_next_def)
next
  case (Suc n)
  then show ?case by (cases xs rule: rev_cases) (auto simp: list_iterator_next_def)
qed

lemma list_at_indexes:
  assumes "represents s xs"
  shows "list_at True s i = Some (Inr
    (if 0 \<le> i \<and> i < int (length xs) then Some (fst (xs ! nat i))
     else if i < 0 \<and> - i \<le> int (length xs) then Some (fst (xs ! nat (int (length xs) + i))) else None))"
proof -
  have l: "uint (l_len (ls_self s)) = int (length xs)" using assms by (metis represents_def uint_nat)
  have c: "chain (ls_heap s) None xs None" using assms by (simp add: represents_def)
  have t: "rev xs ! nat (- i - 1) = xs ! nat (int (length xs) + i)" if "i < 0" "- i \<le> int (length xs)"
  proof -
    have "length xs - Suc (nat (- i - 1)) = nat (int (length xs) + i)" using that by linarith
    then show ?thesis using that by (simp add: rev_nth)
  qed
  show ?thesis
  proof (cases "0 \<le> i")
    case True
    then show ?thesis using assms l at_loop_head[OF c, of "nat i"]
      by (auto simp: list_at_def with_iterator_def list_iterator_new_def list_iterator_new_from_node_def represents_def)
  next
    case False
    then show ?thesis using assms l t at_loop_tail[OF c, of "nat (- i - 1)"]
      by (auto simp: list_at_def with_iterator_def list_iterator_new_def list_iterator_new_from_node_def represents_def)
  qed
qed

lemma clear_loop_clears:
  "represents s xs \<Longrightarrow>
   \<exists>s'. clear_loop \<lparr>it_next = first xs None, it_direction = LIST_HEAD\<rparr> s = Some (Inr s') \<and> represents s' [] \<and>
     (\<forall>x. ls_heap s' x = (if x \<in> fst ` set xs then None else ls_heap s x)) \<and>
     ls_freed s' = ls_freed s @ (if l_free (ls_self s) then map snd xs else [])"
proof (induction xs arbitrary: s)
  case Nil
  then show ?case by (subst clear_loop.simps) simp
next
  case (Cons x xs)
  have it: "list_iterator_next (ls_heap s) \<lparr>it_next = Some (fst x), it_direction = LIST_HEAD\<rparr> =
      Inr (Some (fst x), \<lparr>it_next = first xs None, it_direction = LIST_HEAD\<rparr>)"
    using Cons(2) iterator_next_head[of "ls_heap s" None x xs None] by (auto simp: represents_def)
  obtain s1 where s1: "list_remove (Some (fst x)) s = Inr s1" "represents s1 xs" "ls_heap s1 (fst x) = None"
    "\<forall>y. y \<notin> fst ` set (x # xs) \<longrightarrow> ls_heap s1 y = ls_heap s y" "l_free (ls_self s1) = l_free (ls_self s)"
    "ls_freed s1 = ls_freed s @ (if l_free (ls_self s) then [snd x] else [])"
    using list_remove_takes_out[of s "[]" "fst x" "snd x" xs] Cons(2) by auto
  obtain s2 where s2: "clear_loop \<lparr>it_next = first xs None, it_direction = LIST_HEAD\<rparr> s1 = Some (Inr s2)" "represents s2 []"
    "\<forall>y. ls_heap s2 y = (if y \<in> fst ` set xs then None else ls_heap s1 y)"
    "ls_freed s2 = ls_freed s1 @ (if l_free (ls_self s1) then map snd xs else [])"
    using Cons(1)[OF s1(2)] by blast
  show ?case
    using s1 s2 by (subst clear_loop.simps) (auto simp: it)
qed

lemma list_clear_clears:
  assumes "represents s xs"
  shows "\<exists>s'. list_clear True s = Some (Inr s') \<and> represents s' [] \<and>
     (\<forall>x. ls_heap s' x = (if x \<in> fst ` set xs then None else ls_heap s x)) \<and>
     ls_freed s' = ls_freed s @ (if l_free (ls_self s) then map snd xs else [])"
proof -
  have "l_head (ls_self s) = first xs None" using assms by (simp add: represents_def)
  then show ?thesis using clear_loop_clears[OF assms]
    by (simp add: list_clear_def with_iterator_def list_iterator_new_def list_iterator_new_from_node_def)
qed

lemma destroy_loop_frees:
  "chain (ls_heap s) p xs None \<Longrightarrow> distinct (map fst xs) \<Longrightarrow>
   \<exists>s'. destroy_loop (length xs) (first xs None) s = Inr s' \<and>
     (\<forall>x. ls_heap s' x = (if x \<in> fst ` set xs then None else ls_heap s x)) \<and>
     ls_freed s' = ls_freed s @ (if l_free (ls_self s) then map snd xs else [])"
proof (induction xs arbitrary: s p)
  case (Cons x xs)
  let ?s = "list_free_node (fst x) (snd x) s"
  have "chain (ls_heap ?s) (Some (fst x)) xs None" using Cons(2,3) by (simp add: list_free_node_def)
  then obtain s' where "destroy_loop (length xs) (first xs None) ?s = Inr s'"
    "\<forall>y. ls_heap s' y = (if y \<in> fst ` set xs then None else ls_heap ?s y)"
    "ls_freed s' = ls_freed ?s @ (if l_free (ls_self ?s) then map snd xs else [])"
    using Cons(1)[of ?s "Some (fst x)"] Cons(3) by (metis distinct.simps(2) list.simps(9))
  then show ?case using Cons(2) by (auto simp: list_free_node_def)
qed simp

lemma list_destroy_frees:
  assumes "represents s xs"
  shows "list_destroy s = Inr (\<lambda>x. if x \<in> fst ` set xs then None else ls_heap s x,
    ls_freed s @ (if l_free (ls_self s) then map snd xs else []))"
proof -
  have c: "chain (ls_heap s) None xs None" "distinct (map fst xs)" "l_head (ls_self s) = first xs None"
    "unat (l_len (ls_self s)) = length xs" using assms by (simp_all add: represents_def)
  obtain s' where "destroy_loop (length xs) (first xs None) s = Inr s'"
    "\<forall>x. ls_heap s' x = (if x \<in> fst ` set xs then None else ls_heap s x)"
    "ls_freed s' = ls_freed s @ (if l_free (ls_self s) then map snd xs else [])"
    using destroy_loop_frees[OF c(1,2)] by blast
  then show ?thesis using c by (auto simp: list_destroy_def)
qed

section \<open>Sorting\<close>

text \<open>The reference: exchange sort on the values. \<open>le\<close> says that two values are in order.\<close>

fun exch_step :: "('v \<Rightarrow> 'v \<Rightarrow> bool) \<Rightarrow> 'v \<Rightarrow> 'v list \<Rightarrow> 'v \<times> 'v list" where
  "exch_step le x [] = (x, [])"
| "exch_step le x (y # ys) =
     (let (m, r) = exch_step le (if le x y then x else y) ys in (m, (if le x y then y else x) # r))"

lemma exch_step_length [simp]: "length (snd (exch_step le x ys)) = length ys"
  by (induction ys arbitrary: x) (auto simp: split_beta Let_def)

function exch_sort :: "('v \<Rightarrow> 'v \<Rightarrow> bool) \<Rightarrow> 'v list \<Rightarrow> 'v list" where
  "exch_sort le [] = []"
| "exch_sort le (x # xs) = fst (exch_step le x xs) # exch_sort le (snd (exch_step le x xs))"
  by pat_completeness auto

termination exch_sort
  by (relation "measure (\<lambda>(le, xs). length xs)") auto

lemma exch_sort_length [simp]: "length (exch_sort le xs) = length xs"
  by (induction le xs rule: exch_sort.induct) auto

lemma exch_step_mset: "add_mset (fst (exch_step le x ys)) (mset (snd (exch_step le x ys))) = add_mset x (mset ys)"
  by (induction ys arbitrary: x) (auto simp: split_beta Let_def add_mset_commute)

lemma exch_sort_mset: "mset (exch_sort le xs) = mset xs"
  by (induction le xs rule: exch_sort.induct) (simp_all add: exch_step_mset)

lemma exch_step_least:
  assumes "\<And>a b. le a b \<or> le b a" "\<And>a b c. le a b \<Longrightarrow> le b c \<Longrightarrow> le a c"
  shows "le (fst (exch_step le x ys)) x \<and> (\<forall>z \<in> set (snd (exch_step le x ys)). le (fst (exch_step le x ys)) z)"
proof (induction ys arbitrary: x)
  case Nil
  then show ?case using assms(1)[of x x] by simp
next
  case (Cons y ys)
  have "le y x" if "\<not> le x y" using assms(1)[of x y] that by blast
  then show ?case using Cons[of "if le x y then x else y"] by (auto simp: split_beta Let_def intro: assms(2))
qed

lemma exch_sort_sorted:
  assumes "\<And>a b. le a b \<or> le b a" "\<And>a b c. le a b \<Longrightarrow> le b c \<Longrightarrow> le a c"
  shows "sorted_wrt le (exch_sort le xs)"
  using assms
proof (induction le xs rule: exch_sort.induct)
  case (2 le x xs)
  have "set (exch_sort le (snd (exch_step le x xs))) = set (snd (exch_step le x xs))" by (metis exch_sort_mset set_mset_mset)
  then show ?case using 2 exch_step_least[of le x xs] by simp
qed simp

definition in_order :: "'v list_t \<Rightarrow> 'v \<Rightarrow> 'v \<Rightarrow> bool" where
  "in_order self a b \<longleftrightarrow> (case l_match self of Some m \<Rightarrow> m a b \<noteq> 0 | None \<Rightarrow> False)"

lemma sort_compare_step:
  assumes "represents s (xs @ (i, v) # us @ (j, w) # ys)" "l_match (ls_self s) \<noteq> None"
  shows "\<exists>s'. sort_compare (Some i) (Some j) s = Inr s' \<and> ls_self s' = ls_self s \<and>
    represents s' (xs @ (i, if in_order (ls_self s) v w then v else w) # us @ (j, if in_order (ls_self s) v w then w else v) # ys)"
  using assms by (auto simp: sort_compare_def in_order_def represents_def)

lemma sort_inner_exchanges:
  "represents s (xs @ (i, v) # us @ ys) \<Longrightarrow> l_match (ls_self s) \<noteq> None \<Longrightarrow>
   \<exists>s'. sort_inner (Some i) (first ys None) s = Some (Inr s') \<and> ls_self s' = ls_self s \<and>
     represents s' (xs @ (i, fst (exch_step (in_order (ls_self s)) v (map snd ys))) # us
       @ zip (map fst ys) (snd (exch_step (in_order (ls_self s)) v (map snd ys))))"
proof (induction ys arbitrary: s v us)
  case Nil
  then show ?case by (subst sort_inner.simps) simp
next
  case (Cons y ys)
  let ?le = "in_order (ls_self s)"
  obtain j w where y: "y = (j, w)" by fastforce
  obtain s1 where s1: "sort_compare (Some i) (Some j) s = Inr s1" "ls_self s1 = ls_self s"
    "represents s1 (xs @ (i, if ?le v w then v else w) # us @ (j, if ?le v w then w else v) # ys)"
    using sort_compare_step[of s xs i v us j w ys] Cons(2,3) y by auto
  have j: "\<exists>nd. ls_heap s1 j = Some nd \<and> nd_next nd = first ys None" using s1(3) by (auto simp: represents_def)
  have r: "represents s1 (xs @ (i, if ?le v w then v else w) # (us @ [(j, if ?le v w then w else v)]) @ ys)" using s1(3) by simp
  obtain s2 where s2: "sort_inner (Some i) (first ys None) s1 = Some (Inr s2)" "ls_self s2 = ls_self s1"
    "represents s2 (xs @ (i, fst (exch_step ?le (if ?le v w then v else w) (map snd ys))) # (us @ [(j, if ?le v w then w else v)])
       @ zip (map fst ys) (snd (exch_step ?le (if ?le v w then v else w) (map snd ys))))"
    using Cons(1)[OF r] Cons(3) s1(2) by auto
  have "sort_inner (Some i) (Some j) s = sort_inner (Some i) (first ys None) s1"
    using j s1(1) by (subst sort_inner.simps) auto
  then show ?case using s1(2) s2 by (auto simp: y split_beta Let_def split: if_splits)
qed

lemma represents_tail: "represents s (xs @ (i, v) # ys) \<Longrightarrow> Some i = l_tail (ls_self s) \<longleftrightarrow> ys = []"
  by (cases ys rule: rev_cases) (auto simp: represents_def)

lemma represents_head: "represents s (xs @ (i, v) # ys) \<Longrightarrow> ls_heap s i = Some \<lparr>nd_prev = final None xs, nd_next = first ys None, nd_val = v\<rparr>"
  by (auto simp: represents_def)

lemma map_fst_zip_same: "length xs = length ys \<Longrightarrow> map fst (zip xs ys) = xs" "length xs = length ys \<Longrightarrow> map snd (zip xs ys) = ys"
  by simp_all

lemma sort_outer_sorts:
  "represents s (xs @ (i, v) # ys) \<Longrightarrow> l_match (ls_self s) \<noteq> None \<Longrightarrow>
   \<exists>s'. sort_outer (Some i) s = Some (Inr s') \<and>
     represents s' (xs @ zip (i # map fst ys) (exch_sort (in_order (ls_self s)) (v # map snd ys)))"
proof (induction "length ys" arbitrary: s xs i v ys)
  case 0
  then have t: "Some i = l_tail (ls_self s)" using represents_tail[of s xs i v ys] by simp
  show ?case using 0 t by (subst sort_outer.simps) simp
next
  case (Suc n)
  let ?le = "in_order (ls_self s)" and ?m = "fst (exch_step (in_order (ls_self s)) v (map snd ys))"
  let ?r = "snd (exch_step (in_order (ls_self s)) v (map snd ys))"
  have t: "Some i \<noteq> l_tail (ls_self s)" using represents_tail[OF Suc(3)] Suc(2) by auto
  note hd = represents_head[OF Suc(3)]
  obtain s1 where s1: "sort_inner (Some i) (first ys None) s = Some (Inr s1)" "ls_self s1 = ls_self s"
    "represents s1 (xs @ (i, ?m) # zip (map fst ys) ?r)"
    using sort_inner_exchanges[of s xs i v "[]" ys] Suc(3,4) by auto
  have ne: "ys \<noteq> []" "?r \<noteq> []" using Suc(2) exch_step_length[of ?le v "map snd ys"] by (auto simp del: exch_step_length)
  obtain y zs where y: "ys = y # zs" using ne(1) by (cases ys) auto
  obtain w ws where w: "?r = w # ws" using ne(2) by (cases ?r) auto
  have "length ?r = length ys" by simp
  then have lw: "length ws = length zs" unfolding w using y by simp
  have r: "represents s1 ((xs @ [(i, ?m)]) @ (fst y, w) # zip (map fst zs) ws)" using s1(3) unfolding w by (simp add: y)
  obtain s2 where s2: "sort_outer (Some (fst y)) s1 = Some (Inr s2)"
    "represents s2 ((xs @ [(i, ?m)]) @ zip (fst y # map fst (zip (map fst zs) ws)) (exch_sort ?le (w # map snd (zip (map fst zs) ws))))"
    using Suc(1)[OF _ r] Suc(2,4) s1(2) y lw by auto
  have "first (zip (map fst ys) ?r) None = Some (fst y)" unfolding w by (simp add: y)
  then have "sort_outer (Some i) s = sort_outer (Some (fst y)) s1"
    using t hd s1(1) represents_head[OF s1(3)] by (subst sort_outer.simps) simp
  moreover have "zip (i # map fst ys) (exch_sort ?le (v # map snd ys)) = (i, ?m) # zip (map fst ys) (exch_sort ?le ?r)" by simp
  ultimately show ?case using s2 lw unfolding w by (simp add: y map_fst_zip_same)
qed

lemma list_sort_sorts:
  assumes "represents s xs" "l_match (ls_self s) \<noteq> None" "length xs < 2 ^ 31"
  shows "\<exists>s'. list_sort s = Some (Inr s') \<and> represents s' (zip (map fst xs) (exch_sort (in_order (ls_self s)) (map snd xs)))"
proof -
  have u: "unat (l_len (ls_self s)) = length xs" using assms(1) by (simp add: represents_def)
  have l: "list_len (ls_self s) = int (length xs)"
  proof -
    have "uint (l_len (ls_self s)) < 2 ^ 31" using u assms(3) by (simp add: uint_nat)
    then have "sint (l_len (ls_self s)) = uint (l_len (ls_self s))" unfolding sint_uint by (intro signed_take_bit_int_eq_self) (simp_all add: order_trans[of _ 0])
    then show ?thesis using u by (simp add: list_len_def uint_nat)
  qed
  show ?thesis
  proof (cases xs)
    case Nil
    then show ?thesis using assms(1) l by (simp add: list_sort_def)
  next
    case (Cons x ys)
    show ?thesis
    proof (cases "ys = []")
      case True
      then show ?thesis using Cons assms(1) l by (auto simp: list_sort_def)
    next
      case False
      then have "\<not> list_len (ls_self s) \<le> 1" using l Cons by (cases ys) auto
      moreover have "l_head (ls_self s) = Some (fst x)" using assms(1) Cons by (simp add: represents_def)
      ultimately show ?thesis
        using sort_outer_sorts[of s "[]" "fst x" "snd x" ys] assms(1,2) Cons by (simp add: list_sort_def)
    qed
  qed
qed

section \<open>Properties\<close>


definition sample_list :: "nat list_st" where
  "sample_list =
     \<lparr>ls_heap = [10 \<mapsto> \<lparr>nd_prev = None, nd_next = Some 20, nd_val = 5\<rparr>, 20 \<mapsto> \<lparr>nd_prev = Some 10, nd_next = None, nd_val = 3\<rparr>,
        30 \<mapsto> \<lparr>nd_prev = None, nd_next = None, nd_val = 4\<rparr>],
      ls_self = \<lparr>l_head = Some 10, l_tail = Some 20, l_len = 2, l_free = False, l_match = Some (\<lambda>a b. if a \<le> b then 1 else 0)\<rparr>,
      ls_freed = []\<rparr>"

lemma sample_list_represents: "represents sample_list [(10, 5), (20, 3)]"
  by (simp add: represents_def sample_list_def final_def)


text \<open>C17: \<open>list_sort\<close> returns, and when the comparison is a total preorder the values are sorted by it, the same values as
  before, in the same nodes.\<close>

theorem list_sort_sorts_values:
  assumes "represents s xs" "l_match (ls_self s) = Some m" "length xs < 2 ^ 31"
    "\<And>a b. m a b \<noteq> 0 \<or> m b a \<noteq> 0" "\<And>a b c. m a b \<noteq> 0 \<Longrightarrow> m b c \<noteq> 0 \<Longrightarrow> m a c \<noteq> 0"
  shows "\<exists>s' ys. list_sort s = Some (Inr s') \<and> represents s' ys \<and> map fst ys = map fst xs \<and>
    mset (map snd ys) = mset (map snd xs) \<and> sorted_wrt (\<lambda>a b. m a b \<noteq> 0) (map snd ys)"
proof -
  have le: "in_order (ls_self s) = (\<lambda>a b. m a b \<noteq> 0)" using assms(2) by (intro ext) (simp add: in_order_def)
  obtain s' where s': "list_sort s = Some (Inr s')"
    "represents s' (zip (map fst xs) (exch_sort (\<lambda>a b. m a b \<noteq> 0) (map snd xs)))"
    using list_sort_sorts[of s xs] assms(1-3) le by auto
  have "sorted_wrt (\<lambda>a b. m a b \<noteq> 0) (exch_sort (\<lambda>a b. m a b \<noteq> 0) (map snd xs))"
    by (rule exch_sort_sorted) (fact assms(4), fact assms(5))
  then show ?thesis
    using s' by (intro exI[of _ s'] exI[of _ "zip (map fst xs) (exch_sort (\<lambda>a b. m a b \<noteq> 0) (map snd xs))"])
      (simp add: map_fst_zip_same exch_sort_mset)
qed

theorem list_sort_sorts_values_witness:
  "\<exists>s'. list_sort sample_list = Some (Inr s') \<and> represents s' [(10, 3), (20, 5)]"
proof -
  let ?m = "\<lambda>a b. if a \<le> b then 1 else (0 :: int)"
  have m: "l_match (ls_self sample_list) = Some ?m" by (simp add: sample_list_def)
  have len: "length [(10 :: nat, 5 :: nat), (20, 3)] < 2 ^ 31" by simp
  have sorts: "\<exists>s' ys. list_sort sample_list = Some (Inr s') \<and> represents s' ys \<and> map fst ys = map fst [(10 :: nat, 5 :: nat), (20, 3)] \<and>
      mset (map snd ys) = mset (map snd [(10 :: nat, 5 :: nat), (20, 3)]) \<and> sorted_wrt (\<lambda>a b. ?m a b \<noteq> 0) (map snd ys)"
    by (rule list_sort_sorts_values[OF sample_list_represents m len]) (simp_all split: if_splits)
  from sorts obtain s' ys where s': "list_sort sample_list = Some (Inr s') \<and> represents s' ys \<and>
      map fst ys = map fst [(10 :: nat, 5 :: nat), (20, 3)] \<and> mset (map snd ys) = mset (map snd [(10 :: nat, 5 :: nat), (20, 3)]) \<and>
      sorted_wrt (\<lambda>a b. ?m a b \<noteq> 0) (map snd ys)" by (elim exE)
  then have "map fst ys = [10, 20]" by simp
  then obtain x y where ys: "ys = [(10, x), (20, y)]" by (auto simp: map_eq_Cons_conv)
  have le: "x \<le> y" using s' by (simp add: ys split: if_splits)
  have "mset [x, y] = mset [5, 3]" using s' by (simp add: ys)
  then have "{x, y} = {5, 3}" by (metis set_mset_mset list.set(1) list.simps(15))
  then have "x = 3" "y = 5" using le by (auto simp: doubleton_eq_iff)
  then show ?thesis using s' ys by blast
qed

text \<open>Fact: clearing a list and destroying it free each of its nodes once and nothing else, and hand the values to the
  destructor in order.\<close>

theorem list_frees_its_nodes:
  assumes "represents s xs"
  shows "(\<exists>s'. list_clear True s = Some (Inr s') \<and> represents s' [] \<and> dom (ls_heap s') = dom (ls_heap s) - fst ` set xs \<and>
      ls_freed s' = ls_freed s @ (if l_free (ls_self s) then map snd xs else [])) \<and>
    (\<exists>h. list_destroy s = Inr (h, ls_freed s @ (if l_free (ls_self s) then map snd xs else [])) \<and>
      dom h = dom (ls_heap s) - fst ` set xs)"
proof -
  obtain s' where s': "list_clear True s = Some (Inr s')" "represents s' []"
    "\<forall>x. ls_heap s' x = (if x \<in> fst ` set xs then None else ls_heap s x)"
    "ls_freed s' = ls_freed s @ (if l_free (ls_self s) then map snd xs else [])"
    using list_clear_clears[OF assms] by blast
  have "dom (ls_heap s') = dom (ls_heap s) - fst ` set xs" using s'(3) by (auto simp: dom_def split: if_splits)
  moreover have "dom (\<lambda>x. if x \<in> fst ` set xs then None else ls_heap s x) = dom (ls_heap s) - fst ` set xs"
    by (auto simp: dom_def split: if_splits)
  ultimately show ?thesis using s' list_destroy_frees[OF assms] by blast
qed

theorem list_frees_its_nodes_witness: "\<exists>s'. list_clear True sample_list = Some (Inr s') \<and> dom (ls_heap s') = {30}"
  using list_frees_its_nodes[OF sample_list_represents] by (auto simp: sample_list_def)

end
