(* ===== verification/MqttWire.thy ===== *)
theory MqttWire
  imports Prelude "HOL-Library.Signed_Division"
begin

text \<open>
  The basic encodings of the MQTT client library, \<open>MQTTPacket.c\<close> and \<open>utf-8.c\<close> of \<open>component/paho.mqtt.c-1.3.9\<close>: the
  remaining length, integers of two and four bytes, strings with their length, and the check that a string is UTF-8.
  A buffer with its end is a list of bytes, a pointer into it a position; a read at or after the end is a fault. What a
  function writes through its pointer is its result.
\<close>

section \<open>Completion codes\<close>

definition TCPSOCKET_COMPLETE :: int where "TCPSOCKET_COMPLETE = 0"

definition SOCKET_ERROR :: int where "SOCKET_ERROR = -1"

definition TCPSOCKET_INTERRUPTED :: int where "TCPSOCKET_INTERRUPTED = -22"

section \<open>Remaining length\<close>

function MQTTPacket_encode :: "nat \<Rightarrow> UCHAR list" where
  "MQTTPacket_encode len =
     (let d = of_nat (len mod 128) in if len div 128 > 0 then (d OR 0x80) # MQTTPacket_encode (len div 128) else [d])"
  by pat_completeness auto

termination MQTTPacket_encode
  by (relation "measure id") auto

declare MQTTPacket_encode.simps [simp del]

text \<open>
  Reading it from the socket: at most four bytes; \<open>eof\<close> is what \<open>WebSocket_getch\<close> answers when no byte is there.
  The result is the completion code, the value, and the bytes left.
\<close>

definition MAX_NO_OF_REMAINING_LENGTH_BYTES :: nat where "MAX_NO_OF_REMAINING_LENGTH_BYTES = 4"

fun decode_loop :: "int \<Rightarrow> nat \<Rightarrow> nat \<Rightarrow> nat \<Rightarrow> UCHAR list \<Rightarrow> int \<times> nat \<times> UCHAR list" where
  "decode_loop eof 0 multiplier v cs = (SOCKET_ERROR, v, cs)"
| "decode_loop eof (Suc k) multiplier v [] = (eof, v, [])"
| "decode_loop eof (Suc k) multiplier v (c # cs) =
     (let v' = v + unat (c AND 127) * multiplier
      in if c AND 128 \<noteq> 0 then decode_loop eof k (multiplier * 128) v' cs else (TCPSOCKET_COMPLETE, v', cs))"

definition MQTTPacket_decode :: "int \<Rightarrow> UCHAR list \<Rightarrow> int \<times> nat \<times> UCHAR list" where
  "MQTTPacket_decode eof cs = decode_loop eof MAX_NO_OF_REMAINING_LENGTH_BYTES 1 0 cs"

section \<open>Reading\<close>

definition readChar :: "UCHAR list \<Rightarrow> nat \<Rightarrow> (UCHAR \<times> nat) res" where
  "readChar data p = (if p < length data then Inr (data ! p, p + 1) else Inl Out_of_bounds_read)"

definition readInt :: "UCHAR list \<Rightarrow> nat \<Rightarrow> (nat \<times> nat) res" where
  "readInt data p =
     bind_res (readChar data p) (\<lambda>(a, p1). bind_res (readChar data p1) (\<lambda>(b, p2). Inr (256 * unat a + unat b, p2)))"

text \<open>The product with \<open>2\<^sup>2\<^sup>4\<close> wraps in 32 bits.\<close>

definition readInt4 :: "UCHAR list \<Rightarrow> nat \<Rightarrow> (uint32 \<times> nat) res" where
  "readInt4 data p =
     bind_res (readChar data p) (\<lambda>(a, p1). bind_res (readChar data p1) (\<lambda>(b, p2).
     bind_res (readChar data p2) (\<lambda>(c, p3). bind_res (readChar data p3) (\<lambda>(d, p4).
       Inr (16777216 * ucast a + 65536 * ucast b + 256 * ucast c + ucast d, p4)))))"

text \<open>A string with its length: no string when the end comes first; then only the length may have been read.\<close>

definition readUTFlen :: "UCHAR list \<Rightarrow> nat \<Rightarrow> (UCHAR list option \<times> nat) res" where
  "readUTFlen data p =
     (if int (length data) - int p > 1
      then bind_res (readInt data p) (\<lambda>(len, p1).
             if p1 + len \<le> length data then Inr (Some (take len (drop p1 data)), p1 + len) else Inr (None, p1))
      else Inr (None, p))"

definition MQTTLenStringRead :: "UCHAR list \<Rightarrow> nat \<Rightarrow> (int \<times> UCHAR list \<times> nat) res" where
  "MQTTLenStringRead data p =
     (if int (length data) - int p > 1
      then bind_res (readInt data p) (\<lambda>(len, p1).
             if p1 + len \<le> length data then Inr (2 + int len, take len (drop p1 data), p1 + len) else Inr (-1, [], p1))
      else Inr (-1, [], p))"

definition MQTTPacket_VBIlen :: "int \<Rightarrow> int" where
  "MQTTPacket_VBIlen rem_len = (if rem_len < 128 then 1 else if rem_len < 16384 then 2 else if rem_len < 2097152 then 3 else 4)"

text \<open>The number of bytes counts the attempt at a fifth byte, which is not read.\<close>

fun vbi_loop :: "nat \<Rightarrow> nat \<Rightarrow> nat \<Rightarrow> nat \<Rightarrow> UCHAR list \<Rightarrow> nat \<Rightarrow> (nat \<times> nat) res" where
  "vbi_loop 0 len multiplier v data p = Inr (len + 1, v)"
| "vbi_loop (Suc k) len multiplier v data p =
     bind_res (readChar data p) (\<lambda>(c, p1).
       let v' = v + unat (c AND 127) * multiplier
       in if c AND 128 \<noteq> 0 then vbi_loop k (len + 1) (multiplier * 128) v' data p1 else Inr (len + 1, v'))"

definition MQTTPacket_decodeBuf :: "UCHAR list \<Rightarrow> nat \<Rightarrow> (nat \<times> nat) res" where
  "MQTTPacket_decodeBuf data p = vbi_loop MAX_NO_OF_REMAINING_LENGTH_BYTES 0 1 0 data p"

section \<open>Writing\<close>

definition writeInt :: "int \<Rightarrow> UCHAR list" where
  "writeInt anInt = [word_of_int (anInt sdiv 256), word_of_int (anInt smod 256)]"

definition writeInt4 :: "int \<Rightarrow> UCHAR list" where
  "writeInt4 anInt =
     (let a1 = anInt smod 16777216; a2 = a1 smod 65536
      in [word_of_int (anInt sdiv 16777216), word_of_int (a1 sdiv 65536), word_of_int (a2 sdiv 256), word_of_int (a2 smod 256)])"

definition writeUTF :: "UCHAR list \<Rightarrow> UCHAR list" where
  "writeUTF str = writeInt (int (length str)) @ str"

definition writeData :: "UCHAR list \<Rightarrow> UCHAR list" where
  "writeData dat = writeInt (int (length dat)) @ dat"

definition writeMQTTLenString :: "UCHAR list \<Rightarrow> UCHAR list" where
  "writeMQTTLenString dat = writeInt (int (length dat)) @ dat"

section \<open>UTF-8\<close>

definition valid_ranges :: "(UCHAR \<times> UCHAR) list list" where
  "valid_ranges =
     [[(0x00, 0x7F)],
      [(0xC2, 0xDF), (0x80, 0xBF)],
      [(0xE0, 0xE0), (0xA0, 0xBF), (0x80, 0xBF)],
      [(0xE1, 0xEC), (0x80, 0xBF), (0x80, 0xBF)],
      [(0xED, 0xED), (0x80, 0x9F), (0x80, 0xBF)],
      [(0xEE, 0xEF), (0x80, 0xBF), (0x80, 0xBF)],
      [(0xF0, 0xF0), (0x90, 0xBF), (0x80, 0xBF), (0x80, 0xBF)],
      [(0xF1, 0xF3), (0x80, 0xBF), (0x80, 0xBF), (0x80, 0xBF)],
      [(0xF4, 0xF4), (0x80, 0x8F), (0x80, 0xBF), (0x80, 0xBF)]]"

definition utf8_charlen :: "UCHAR \<Rightarrow> nat" where
  "utf8_charlen b =
     (if b AND 128 = 0 then 1 else if b AND 0xF0 = 0xF0 then 4 else if b AND 0xE0 = 0xE0 then 3 else 2)"

text \<open>
  The bytes from the character on; the result is what follows it. The bytes and the limits are both \<open>char\<close>, so the
  comparison has the same outcome whether \<open>char\<close> is signed or not.
\<close>

definition UTF8_char_validate :: "UCHAR list \<Rightarrow> UCHAR list option" where
  "UTF8_char_validate data =
     (case data of [] \<Rightarrow> None
      | b # bs \<Rightarrow>
          (let charlen = utf8_charlen b
           in if charlen > length data then None
              else if \<exists>row \<in> set valid_ranges. length row = charlen \<and> list_all2 (\<lambda>(lo, up) c. lo \<le> c \<and> c \<le> up) row (take charlen data)
              then Some (drop charlen data) else None))"

lemma utf8_charlen_pos: "0 < utf8_charlen b"
  by (simp add: utf8_charlen_def)

lemma UTF8_char_validate_shorter: "UTF8_char_validate data = Some rest \<Longrightarrow> length rest < length data"
  using utf8_charlen_pos by (auto simp: UTF8_char_validate_def Let_def split: list.splits if_splits)

function UTF8_validate :: "UCHAR list \<Rightarrow> bool" where
  "UTF8_validate data =
     (if data = [] then True
      else case UTF8_char_validate data of None \<Rightarrow> False | Some rest \<Rightarrow> UTF8_validate rest)"
  by pat_completeness auto

termination UTF8_validate
  by (relation "measure length") (auto dest: UTF8_char_validate_shorter)

declare UTF8_validate.simps [simp del]

definition UTF8_validateString :: "UCHAR list option \<Rightarrow> bool" where
  "UTF8_validateString str = (case str of None \<Rightarrow> False | Some s \<Rightarrow> UTF8_validate s)"

section \<open>What is written is read back\<close>

lemma below_128_bits:
  assumes "n < 128"
  shows "(of_nat n OR 0x80 :: UCHAR) AND 127 = of_nat n" "(of_nat n OR 0x80 :: UCHAR) AND 128 \<noteq> 0"
    "(of_nat n :: UCHAR) AND 127 = of_nat n" "(of_nat n :: UCHAR) AND 128 = 0"
proof -
  have all: "list_all (\<lambda>n. (of_nat n OR 0x80 :: UCHAR) AND 127 = of_nat n \<and> (of_nat n OR 0x80 :: UCHAR) AND 128 \<noteq> 0 \<and>
      (of_nat n :: UCHAR) AND 127 = of_nat n \<and> (of_nat n :: UCHAR) AND 128 = 0) [0..<128]"
    by code_simp
  from assms have "n \<in> set [0..<128]" by simp
  then show "(of_nat n OR 0x80 :: UCHAR) AND 127 = of_nat n" "(of_nat n OR 0x80 :: UCHAR) AND 128 \<noteq> 0"
    "(of_nat n :: UCHAR) AND 127 = of_nat n" "(of_nat n :: UCHAR) AND 128 = 0"
    using all unfolding list_all_iff by blast+
qed

lemma unat_of_nat_byte: "n < 256 \<Longrightarrow> unat (of_nat n :: UCHAR) = n"
  by (simp add: unat_of_nat)

lemma encode_last: "len < 128 \<Longrightarrow> MQTTPacket_encode len = [of_nat len]"
  by (subst MQTTPacket_encode.simps) simp

lemma encode_more: "128 \<le> len \<Longrightarrow> MQTTPacket_encode len = (of_nat (len mod 128) OR 0x80) # MQTTPacket_encode (len div 128)"
  by (subst MQTTPacket_encode.simps) (simp add: Let_def)

lemma decode_loop_encode:
  "len < 128 ^ k \<Longrightarrow> 0 < k \<Longrightarrow> decode_loop eof k multiplier v (MQTTPacket_encode len @ rest) = (TCPSOCKET_COMPLETE, v + len * multiplier, rest)"
proof (induction k arbitrary: len multiplier v)
  case (Suc k)
  show ?case
  proof (cases "len < 128")
    case True
    then show ?thesis by (simp add: encode_last below_128_bits unat_of_nat_byte)
  next
    case False
    have m: "len mod 128 < 128" by simp
    have e: "v + len mod 128 * multiplier + len div 128 * (multiplier * 128) = v + len * multiplier"
      using div_mult_mod_eq[of len 128] by (metis add.assoc add.commute add_mult_distrib mult.assoc mult.commute)
    have k: "len div 128 < 128 ^ k" using Suc(2) by (simp add: less_mult_imp_div_less mult.commute)
    moreover have "0 < len div 128" using False by (simp add: div_greater_zero_iff)
    ultimately have "0 < k" by (cases k) auto
    then show ?thesis using False below_128_bits[OF m] e k
      by (simp add: encode_more Suc(1) unat_of_nat_byte Let_def)
  qed
qed simp

lemma decode_encode:
  "len < 268435456 \<Longrightarrow> MQTTPacket_decode eof (MQTTPacket_encode len @ rest) = (TCPSOCKET_COMPLETE, len, rest)"
  using decode_loop_encode[of len 4] by (simp add: MQTTPacket_decode_def MAX_NO_OF_REMAINING_LENGTH_BYTES_def)

lemma readChar_at [simp]: "readChar (pre @ c # post) (length pre) = Inr (c, Suc (length pre))"
  by (simp add: readChar_def)

lemma vbi_loop_encode:
  "len < 128 ^ k \<Longrightarrow> 0 < k \<Longrightarrow> vbi_loop k l multiplier v (pre @ MQTTPacket_encode len @ post) (length pre) =
     Inr (l + length (MQTTPacket_encode len), v + len * multiplier)"
proof (induction k arbitrary: len l multiplier v pre)
  case (Suc k)
  show ?case
  proof (cases "len < 128")
    case True
    then show ?thesis by (simp add: encode_last below_128_bits unat_of_nat_byte Let_def)
  next
    case False
    have m: "len mod 128 < 128" by simp
    have e: "v + len mod 128 * multiplier + len div 128 * (multiplier * 128) = v + len * multiplier"
      using div_mult_mod_eq[of len 128] by (metis add.assoc add.commute add_mult_distrib mult.assoc mult.commute)
    have k: "len div 128 < 128 ^ k" using Suc(2) by (simp add: less_mult_imp_div_less mult.commute)
    moreover have "0 < len div 128" using False by (simp add: div_greater_zero_iff)
    ultimately have "0 < k" by (cases k) auto
    then show ?thesis using False below_128_bits[OF m] e k Suc(1)[of "len div 128" "l + 1" "multiplier * 128" _ "pre @ [of_nat (len mod 128) OR 0x80]"]
      by (simp add: encode_more unat_of_nat_byte Let_def)
  qed
qed simp

lemma decodeBuf_encode:
  "len < 268435456 \<Longrightarrow> MQTTPacket_decodeBuf (pre @ MQTTPacket_encode len @ post) (length pre) = Inr (length (MQTTPacket_encode len), len)"
  using vbi_loop_encode[of len 4 0 1 0] by (simp add: MQTTPacket_decodeBuf_def MAX_NO_OF_REMAINING_LENGTH_BYTES_def)

lemma encode_length:
  "len < 268435456 \<Longrightarrow> int (length (MQTTPacket_encode len)) = MQTTPacket_VBIlen (int len)"
proof -
  assume "len < 268435456"
  moreover have "length (MQTTPacket_encode n) = 1" if "n < 128" for n using that by (simp add: encode_last)
  then have 2: "length (MQTTPacket_encode n) = 2" if "128 \<le> n" "n < 16384" for n using that by (simp add: encode_more less_mult_imp_div_less)
  then have 3: "length (MQTTPacket_encode n) = 3" if "16384 \<le> n" "n < 2097152" for n
    using that by (simp add: encode_more less_mult_imp_div_less div_le_mono[of 16384 n 128, simplified])
  then have "length (MQTTPacket_encode n) = 4" if "2097152 \<le> n" "n < 268435456" for n
    using that by (simp add: encode_more less_mult_imp_div_less div_le_mono[of 2097152 n 128, simplified])
  ultimately show ?thesis using 2 3 by (cases "len < 128"; cases "len < 16384"; cases "len < 2097152") (simp_all add: MQTTPacket_VBIlen_def encode_last)
qed

lemma readInt_at: "readInt (pre @ a # b # post) (length pre) = Inr (256 * unat a + unat b, length pre + 2)"
  using readChar_at[of "pre @ [a]" b post] by (simp add: readInt_def)

lemma sdiv_pos: "0 \<le> a \<Longrightarrow> 0 < b \<Longrightarrow> (a::int) sdiv b = a div b"
  by (cases "a = 0") (simp_all add: signed_divide_int_def sgn_if)

lemma smod_pos: "0 \<le> a \<Longrightarrow> 0 < b \<Longrightarrow> (a::int) smod b = a mod b"
  by (cases "a = 0") (simp_all add: signed_modulo_int_def sgn_if)

lemma unat_word_of_int_byte: "0 \<le> i \<Longrightarrow> i < 256 \<Longrightarrow> unat (word_of_int i :: UCHAR) = nat i"
  by (simp add: unat_eq_nat_uint uint_word_of_int)

lemma readInt_writeInt:
  assumes "0 \<le> n" "n < 65536"
  shows "readInt (pre @ writeInt n @ post) (length pre) = Inr (nat n, length pre + 2)"
proof -
  have "n div 256 < 256" "0 \<le> n div 256" using assms by simp_all
  moreover have "256 * nat (n div 256) + nat (n mod 256) = nat n"
    using assms(1) by (simp add: nat_div_distrib nat_mod_distrib)
  ultimately show ?thesis using assms
    by (simp add: writeInt_def sdiv_pos smod_pos readInt_at unat_word_of_int_byte)
qed

lemma readInt4_at:
  "readInt4 (pre @ a # b # c # d # post) (length pre) =
     Inr (16777216 * ucast a + 65536 * ucast b + 256 * ucast c + ucast d, length pre + 4)"
  using readChar_at[of "pre @ [a]" b "c # d # post"] readChar_at[of "pre @ [a, b]" c "d # post"] readChar_at[of "pre @ [a, b, c]" d post]
  by (simp add: readInt4_def)

lemma readInt4_writeInt4:
  assumes "0 \<le> n" "n < 2 ^ 31"
  shows "readInt4 (pre @ writeInt4 n @ post) (length pre) = Inr (word_of_int n, length pre + 4)"
proof -
  define a b c d where "a = n div 16777216" and "b = n mod 16777216 div 65536" and "c = n mod 65536 div 256" and "d = n mod 256"
  have w: "writeInt4 n = [word_of_int a, word_of_int b, word_of_int c, word_of_int d]"
    using assms by (simp add: writeInt4_def sdiv_pos smod_pos Let_def a_def b_def c_def d_def mod_mod_cancel)
  have r: "0 \<le> a" "a < 256" "0 \<le> b" "b < 256" "0 \<le> c" "c < 256" "0 \<le> d" "d < 256"
    using assms by (simp_all add: a_def b_def c_def d_def)
  have n: "16777216 * a + 65536 * b + 256 * c + d = n"
  proof -
    have "16777216 * (n div 16777216) + n mod 16777216 = n" by (rule mult_div_mod_eq)
    moreover have "65536 * (n mod 16777216 div 65536) + n mod 65536 = n mod 16777216"
      using mult_div_mod_eq[of 65536 "n mod 16777216"] by (simp add: mod_mod_cancel)
    moreover have "256 * (n mod 65536 div 256) + n mod 256 = n mod 65536"
      using mult_div_mod_eq[of 256 "n mod 65536"] by (simp add: mod_mod_cancel)
    ultimately show ?thesis unfolding a_def b_def c_def d_def by linarith
  qed
  have u: "(ucast (word_of_int x :: UCHAR) :: uint32) = word_of_int x" if "0 \<le> x" "x < 256" for x
    using that by (simp add: ucast_eq uint_word_of_int)
  have "16777216 * word_of_int a + 65536 * word_of_int b + 256 * word_of_int c + word_of_int d = (word_of_int n :: uint32)"
    unfolding n[symmetric] by simp
  then show ?thesis using r by (simp add: w readInt4_at u)
qed

lemma readUTFlen_writeUTF:
  assumes "length str < 65536"
  shows "readUTFlen (pre @ writeUTF str @ post) (length pre) = Inr (Some str, length pre + 2 + length str)"
proof -
  have "readInt (pre @ writeInt (int (length str)) @ str @ post) (length pre) = Inr (length str, length pre + 2)"
    using readInt_writeInt[of "int (length str)" pre "str @ post"] assms by simp
  moreover have "length (writeInt (int (length str))) = 2" by (simp add: writeInt_def)
  ultimately show ?thesis by (simp add: readUTFlen_def writeUTF_def)
qed

lemma MQTTLenStringRead_write:
  assumes "length dat < 65536"
  shows "MQTTLenStringRead (pre @ writeMQTTLenString dat @ post) (length pre) = Inr (2 + int (length dat), dat, length pre + 2 + length dat)"
proof -
  have "readInt (pre @ writeInt (int (length dat)) @ dat @ post) (length pre) = Inr (length dat, length pre + 2)"
    using readInt_writeInt[of "int (length dat)" pre "dat @ post"] assms by simp
  moreover have "length (writeInt (int (length dat))) = 2" by (simp add: writeInt_def)
  ultimately show ?thesis by (simp add: MQTTLenStringRead_def writeMQTTLenString_def)
qed

section \<open>UTF-8 strings\<close>

text \<open>The encoding of a Unicode scalar value by its definition.\<close>

definition scalar_value :: "nat \<Rightarrow> bool" where
  "scalar_value cp \<longleftrightarrow> cp < 0x110000 \<and> \<not> (0xD800 \<le> cp \<and> cp < 0xE000)"

definition utf8_bytes :: "nat \<Rightarrow> nat list" where
  "utf8_bytes cp =
     (if cp < 0x80 then [cp]
      else if cp < 0x800 then [0xC0 + cp div 64, 0x80 + cp mod 64]
      else if cp < 0x10000 then [0xE0 + cp div 4096, 0x80 + cp div 64 mod 64, 0x80 + cp mod 64]
      else [0xF0 + cp div 262144, 0x80 + cp div 4096 mod 64, 0x80 + cp div 64 mod 64, 0x80 + cp mod 64])"

definition unicode_utf8 :: "nat \<Rightarrow> UCHAR list" where
  "unicode_utf8 cp = map of_nat (utf8_bytes cp)"

lemma utf8_charlen_unat:
  "utf8_charlen b = (if unat b < 128 then 1 else if 240 \<le> unat b then 4 else if 224 \<le> unat b then 3 else 2)"
proof -
  have all: "list_all (\<lambda>n. utf8_charlen (of_nat n) = (if n < 128 then 1 else if 240 \<le> n then 4 else if 224 \<le> n then 3 else 2)) [0..<256]"
    by code_simp
  have "unat b \<in> set [0..<256]" using unsigned_less[of b, where ?'a = nat] by simp
  then have "utf8_charlen (of_nat (unat b)) = (if unat b < 128 then 1 else if 240 \<le> unat b then 4 else if 224 \<le> unat b then 3 else 2)"
    using all unfolding list_all_iff by blast
  then show ?thesis by simp
qed

text \<open>A character of one, two, three or four bytes, and the bytes it has.\<close>

definition well_formed :: "nat list \<Rightarrow> bool" where
  "well_formed bs \<longleftrightarrow>
     (\<exists>a. bs = [a] \<and> a \<le> 0x7F) \<or>
     (\<exists>a b. bs = [a, b] \<and> 0xC2 \<le> a \<and> a \<le> 0xDF \<and> 0x80 \<le> b \<and> b \<le> 0xBF) \<or>
     (\<exists>a b c. bs = [a, b, c] \<and> 0x80 \<le> b \<and> b \<le> 0xBF \<and> 0x80 \<le> c \<and> c \<le> 0xBF \<and>
        (a = 0xE0 \<and> 0xA0 \<le> b \<or> 0xE1 \<le> a \<and> a \<le> 0xEC \<or> a = 0xED \<and> b \<le> 0x9F \<or> 0xEE \<le> a \<and> a \<le> 0xEF)) \<or>
     (\<exists>a b c d. bs = [a, b, c, d] \<and> 0x80 \<le> b \<and> b \<le> 0xBF \<and> 0x80 \<le> c \<and> c \<le> 0xBF \<and> 0x80 \<le> d \<and> d \<le> 0xBF \<and>
        (a = 0xF0 \<and> 0x90 \<le> b \<or> 0xF1 \<le> a \<and> a \<le> 0xF3 \<or> a = 0xF4 \<and> b \<le> 0x8F))"

lemma rows_well_formed:
  "(\<exists>row \<in> set valid_ranges. list_all2 (\<lambda>(lo, up) c. lo \<le> c \<and> c \<le> up) row bs) \<longleftrightarrow> well_formed (map unat bs)"
  by (auto simp: valid_ranges_def well_formed_def list_all2_Cons1 word_le_nat_alt map_eq_Cons_conv)

lemma well_formed_charlen:
  "well_formed (map unat bs) \<Longrightarrow> \<exists>b bs'. bs = b # bs' \<and> utf8_charlen b = length bs"
  by (auto simp: well_formed_def utf8_charlen_unat map_eq_Cons_conv)

lemma UTF8_char_validate_iff:
  "UTF8_char_validate data = Some rest \<longleftrightarrow> (\<exists>bs. data = bs @ rest \<and> well_formed (map unat bs))"
proof
  assume v: "UTF8_char_validate data = Some rest"
  then obtain b bs where d: "data = b # bs" by (cases data) (auto simp: UTF8_char_validate_def)
  let ?n = "utf8_charlen b"
  have r: "\<exists>row \<in> set valid_ranges. list_all2 (\<lambda>(lo, up) c. lo \<le> c \<and> c \<le> up) row (take ?n data)" "drop ?n data = rest"
    using v by (auto simp: UTF8_char_validate_def d Let_def split: if_splits)
  have "data = take ?n data @ rest" using r(2) by (metis append_take_drop_id)
  then show "\<exists>bs. data = bs @ rest \<and> well_formed (map unat bs)" using r(1) rows_well_formed by blast
next
  assume "\<exists>bs. data = bs @ rest \<and> well_formed (map unat bs)"
  then obtain bs where bs: "data = bs @ rest" "well_formed (map unat bs)" by blast
  obtain b bs' where b: "bs = b # bs'" "utf8_charlen b = length bs" using well_formed_charlen[OF bs(2)] by blast
  obtain row where row: "row \<in> set valid_ranges" "list_all2 (\<lambda>(lo, up) c. lo \<le> c \<and> c \<le> up) row bs"
    using rows_well_formed bs(2) by blast
  then have "length row = length bs" by (simp add: list_all2_lengthD)
  then show "UTF8_char_validate data = Some rest" using bs(1) b row by (auto simp: UTF8_char_validate_def Let_def)
qed

lemma div_mod_64: "z < 64 \<Longrightarrow> (64 * y + z) div 64 = y" "z < 64 \<Longrightarrow> (64 * y + z) mod 64 = (z :: nat)"
  by simp_all

lemma parts_div:
  assumes "z < 64"
  shows "(4096 * x + 64 * y + z) div 64 = 64 * x + y" "(4096 * x + 64 * y + z) mod 64 = z"
    "(262144 * w + 4096 * x + 64 * y + z) div 64 = 4096 * w + 64 * x + y" "(262144 * w + 4096 * x + 64 * y + z) mod 64 = (z :: nat)"
proof -
  have "4096 * x + 64 * y + z = 64 * (64 * x + y) + z" "262144 * w + 4096 * x + 64 * y + z = 64 * (4096 * w + 64 * x + y) + z" by simp_all
  then show "(4096 * x + 64 * y + z) div 64 = 64 * x + y" "(4096 * x + 64 * y + z) mod 64 = z"
    "(262144 * w + 4096 * x + 64 * y + z) div 64 = 4096 * w + 64 * x + y" "(262144 * w + 4096 * x + 64 * y + z) mod 64 = z"
    using div_mod_64[OF assms, of "64 * x + y"] div_mod_64[OF assms, of "4096 * w + 64 * x + y"] by metis+
qed

lemma utf8_bytes_parts:
  assumes "z < 64" "y < 64" "x < 64"
  shows "utf8_bytes (64 * y + z) = (if y < 2 then [64 * y + z] else if y < 32 then [0xC0 + y, 0x80 + z] else [0xE0, 0x80 + y, 0x80 + z])"
    "utf8_bytes (4096 * x + 64 * y + z) =
       (if x = 0 then utf8_bytes (64 * y + z) else if x < 16 then [0xE0 + x, 0x80 + y, 0x80 + z] else [0xF0, 0x80 + x, 0x80 + y, 0x80 + z])"
    "utf8_bytes (262144 * w + 4096 * x + 64 * y + z) =
       (if w = 0 then utf8_bytes (4096 * x + 64 * y + z) else [0xF0 + w, 0x80 + x, 0x80 + y, 0x80 + z])"
proof -
  have d: "n div 4096 = n div 64 div 64" "n div 262144 = n div 64 div 64 div 64" for n :: nat by (simp_all flip: div_mult2_eq)
  show "utf8_bytes (64 * y + z) = (if y < 2 then [64 * y + z] else if y < 32 then [0xC0 + y, 0x80 + z] else [0xE0, 0x80 + y, 0x80 + z])"
    using assms unfolding utf8_bytes_def d by (simp add: div_mod_64)
  show "utf8_bytes (4096 * x + 64 * y + z) =
       (if x = 0 then utf8_bytes (64 * y + z) else if x < 16 then [0xE0 + x, 0x80 + y, 0x80 + z] else [0xF0, 0x80 + x, 0x80 + y, 0x80 + z])"
    using assms unfolding utf8_bytes_def d by (simp add: parts_div div_mod_64)
  show "utf8_bytes (262144 * w + 4096 * x + 64 * y + z) =
       (if w = 0 then utf8_bytes (4096 * x + 64 * y + z) else [0xF0 + w, 0x80 + x, 0x80 + y, 0x80 + z])"
    using assms unfolding utf8_bytes_def d by (simp add: parts_div div_mod_64)
qed

lemma parts_exist: "\<exists>w x y z. cp = 262144 * w + 4096 * x + 64 * y + z \<and> x < 64 \<and> y < 64 \<and> (z :: nat) < 64"
proof -
  have "64 * (cp div 64) + cp mod 64 = cp" "64 * (cp div 64 div 64) + cp div 64 mod 64 = cp div 64"
    "64 * (cp div 64 div 64 div 64) + cp div 64 div 64 mod 64 = cp div 64 div 64" by (simp_all only: mult_div_mod_eq)
  then have "cp = 262144 * (cp div 64 div 64 div 64) + 4096 * (cp div 64 div 64 mod 64) + 64 * (cp div 64 mod 64) + cp mod 64"
    by linarith
  then show ?thesis
    by (intro exI[of _ "cp div 64 div 64 div 64"] exI[of _ "cp div 64 div 64 mod 64"] exI[of _ "cp div 64 mod 64"] exI[of _ "cp mod 64"]) simp
qed

lemma well_formed_utf8_bytes: "scalar_value cp \<Longrightarrow> well_formed (utf8_bytes cp)"
proof -
  assume s: "scalar_value cp"
  obtain w x y z where cp: "cp = 262144 * w + 4096 * x + 64 * y + z" "x < 64" "y < 64" "z < 64" using parts_exist by blast
  have "\<not> (w = 0 \<and> x = 13 \<and> 32 \<le> y)" "w < 4 \<or> w = 4 \<and> x < 16" using s cp by (auto simp: scalar_value_def)
  then show ?thesis using cp(2-4)
    unfolding cp(1) utf8_bytes_parts[OF cp(4,3,2)] by (auto simp: well_formed_def split: if_splits)
qed

lemma utf8_bytes_well_formed:
  assumes "well_formed bs"
  shows "\<exists>cp. scalar_value cp \<and> bs = utf8_bytes cp"
proof -
  consider (one) a where "bs = [a]" "a \<le> 0x7F"
    | (two) a b where "bs = [a, b]" "0xC2 \<le> a" "a \<le> 0xDF" "0x80 \<le> b" "b \<le> 0xBF"
    | (three) a b c where "bs = [a, b, c]" "0x80 \<le> b" "b \<le> 0xBF" "0x80 \<le> c" "c \<le> 0xBF"
        "a = 0xE0 \<and> 0xA0 \<le> b \<or> 0xE1 \<le> a \<and> a \<le> 0xEC \<or> a = 0xED \<and> b \<le> 0x9F \<or> 0xEE \<le> a \<and> a \<le> 0xEF"
    | (four) a b c d where "bs = [a, b, c, d]" "0x80 \<le> b" "b \<le> 0xBF" "0x80 \<le> c" "c \<le> 0xBF" "0x80 \<le> d" "d \<le> 0xBF"
        "a = 0xF0 \<and> 0x90 \<le> b \<or> 0xF1 \<le> a \<and> a \<le> 0xF3 \<or> a = 0xF4 \<and> b \<le> 0x8F"
    using assms unfolding well_formed_def by blast
  then show ?thesis
  proof cases
    case one
    then show ?thesis by (intro exI[of _ a]) (simp add: scalar_value_def utf8_bytes_def)
  next
    case two
    define y z where "y = a - 0xC0" and "z = b - 0x80"
    then have "a = 0xC0 + y" "b = 0x80 + z" "2 \<le> y" "y < 32" "z < 64" using two by auto
    then show ?thesis using two(1) utf8_bytes_parts(1)[of z y 0] by (intro exI[of _ "64 * y + z"]) (auto simp: scalar_value_def)
  next
    case three
    define x y z where "x = a - 0xE0" and "y = b - 0x80" and "z = c - 0x80"
    then have xyz: "a = 0xE0 + x" "b = 0x80 + y" "c = 0x80 + z" "x < 16" "y < 64" "z < 64" "x = 0 \<longrightarrow> 32 \<le> y" "x = 13 \<longrightarrow> y < 32"
      using three by auto
    have "\<not> (0xD800 \<le> 4096 * x + 64 * y + z \<and> 4096 * x + 64 * y + z < 0xE000)"
    proof (cases "x = 13")
      case False
      then have "x \<le> 12 \<or> 14 \<le> x" by auto
      then show ?thesis using xyz(5,6) by auto
    qed (use xyz in auto)
    with xyz show ?thesis using three(1) utf8_bytes_parts(1)[of z y x] utf8_bytes_parts(2)[of z y x]
      by (intro exI[of _ "4096 * x + 64 * y + z"]) (auto simp: scalar_value_def simp del: not_less not_le)
  next
    case four
    define w x y z where "w = a - 0xF0" and "x = b - 0x80" and "y = c - 0x80" and "z = d - 0x80"
    then have "a = 0xF0 + w" "b = 0x80 + x" "c = 0x80 + y" "d = 0x80 + z" "x < 64" "y < 64" "z < 64"
      "w = 0 \<longrightarrow> 16 \<le> x" "w < 4 \<or> w = 4 \<and> x < 16" using four by auto
    then show ?thesis using four(1) utf8_bytes_parts(2)[of z y x] utf8_bytes_parts(3)[of z y x w]
      by (intro exI[of _ "262144 * w + 4096 * x + 64 * y + z"]) (auto simp: scalar_value_def)
  qed
qed

section \<open>Properties\<close>

text \<open>Fact: the remaining length of a packet, any below \<open>2\<^sup>2\<^sup>8\<close>, is written in at most four bytes, the number that \<open>MQTTPacket_VBIlen\<close>
  gives, and read back from the socket and from a buffer.\<close>

theorem remaining_length_roundtrip:
  assumes "len < 268435456"
  shows "MQTTPacket_decode eof (MQTTPacket_encode len @ rest) = (TCPSOCKET_COMPLETE, len, rest) \<and>
    MQTTPacket_decodeBuf (pre @ MQTTPacket_encode len @ rest) (length pre) = Inr (length (MQTTPacket_encode len), len) \<and>
    int (length (MQTTPacket_encode len)) = MQTTPacket_VBIlen (int len) \<and> length (MQTTPacket_encode len) \<le> 4"
proof -
  have "int (length (MQTTPacket_encode len)) \<le> 4" using encode_length[OF assms] by (simp add: MQTTPacket_VBIlen_def)
  then show ?thesis using decode_encode[OF assms] decodeBuf_encode[OF assms] encode_length[OF assms] by auto
qed

theorem remaining_length_roundtrip_witness: "MQTTPacket_decode SOCKET_ERROR [0xC1, 0x02, 7] = (TCPSOCKET_COMPLETE, 321, [7])"
proof -
  have "MQTTPacket_encode 321 = [0xC1, 0x02]" by (simp add: MQTTPacket_encode.simps)
  then show ?thesis using remaining_length_roundtrip[of 321 SOCKET_ERROR "[7]" "[]"] by simp
qed

text \<open>C35: \<open>UTF8_validate\<close> accepts exactly the strings that are a sequence of Unicode scalar values in UTF-8: no overlong form, no
  surrogate, nothing above U+10FFFF, and no character cut off.\<close>

theorem UTF8_validate_iff_encoded:
  "UTF8_validate data \<longleftrightarrow> (\<exists>cps. list_all scalar_value cps \<and> data = concat (map unicode_utf8 cps))"
proof
  show "UTF8_validate data \<Longrightarrow> \<exists>cps. list_all scalar_value cps \<and> data = concat (map unicode_utf8 cps)"
  proof (induction data rule: UTF8_validate.induct)
    case (1 data)
    show ?case
    proof (cases "data = []")
      case True
      then show ?thesis by (intro exI[of _ "[]"]) simp
    next
      case False
      then obtain rest where r: "UTF8_char_validate data = Some rest" "UTF8_validate rest"
        using 1(2) by (subst (asm) UTF8_validate.simps) (auto split: option.splits)
      obtain cps where cps: "list_all scalar_value cps" "rest = concat (map unicode_utf8 cps)" using 1(1)[OF False r] by blast
      obtain bs where bs: "data = bs @ rest" "well_formed (map unat bs)" using r(1) UTF8_char_validate_iff by blast
      obtain cp where cp: "scalar_value cp" "map unat bs = utf8_bytes cp" using utf8_bytes_well_formed[OF bs(2)] by blast
      have "bs = unicode_utf8 cp" unfolding unicode_utf8_def cp(2)[symmetric] by (simp add: comp_def)
      then show ?thesis using cps cp(1) bs(1) by (intro exI[of _ "cp # cps"]) simp
    qed
  qed
next
  assume "\<exists>cps. list_all scalar_value cps \<and> data = concat (map unicode_utf8 cps)"
  then obtain cps where cps: "list_all scalar_value cps" "data = concat (map unicode_utf8 cps)" by blast
  have u: "map unat (unicode_utf8 cp) = utf8_bytes cp" if "scalar_value cp" for cp
  proof -
    have "list_all (\<lambda>b. b < 256) (utf8_bytes cp)" using well_formed_utf8_bytes[OF that] by (auto simp: well_formed_def)
    then show ?thesis unfolding unicode_utf8_def list_all_iff by (auto simp: unat_of_nat_byte intro: map_idI)
  qed
  show "UTF8_validate data"
    unfolding cps(2) using cps(1)
  proof (induction cps)
    case Nil
    then show ?case by (simp add: UTF8_validate.simps)
  next
    case (Cons cp cps)
    let ?rest = "concat (map unicode_utf8 cps)"
    have "UTF8_char_validate (unicode_utf8 cp @ ?rest) = Some ?rest"
      using Cons(2) u[of cp] well_formed_utf8_bytes[of cp] UTF8_char_validate_iff by auto
    then show ?case using Cons by (subst UTF8_validate.simps) simp
  qed
qed

text \<open>Fact: an integer of four bytes is read back when it is below \<open>2\<^sup>3\<^sup>1\<close>; the largest one, which the protocol uses for a session that
  does not expire, is written as 255, since it reaches \<open>writeInt4\<close> as -1.\<close>

theorem int4_roundtrip:
  "0 \<le> n \<Longrightarrow> n < 2 ^ 31 \<Longrightarrow> readInt4 (pre @ writeInt4 n @ post) (length pre) = Inr (word_of_int n, length pre + 4)"
  by (rule readInt4_writeInt4)

theorem int4_roundtrip_witness: "readInt4 (writeInt4 70000) 0 = Inr (70000, 4)"
  using int4_roundtrip[of 70000 "[]" "[]"] by simp

lemma writeInt4_never_expires: "writeInt4 (sint (0xFFFFFFFF :: uint32)) = [0, 0, 0, 0xFF]"
  by code_simp

end
