(* ===== verification/MqttProperties.thy ===== *)
theory MqttProperties
  imports MqttWire
begin

text \<open>
  The properties of MQTT 5, \<open>MQTTProperties.c\<close> of \<open>component/paho.mqtt.c-1.3.9\<close>: the table of identifiers, adding, writing,
  reading and looking up. Memory never runs out.
\<close>

section \<open>Types\<close>

datatype MQTTPropertyTypes =
    MQTTPROPERTY_TYPE_BYTE | MQTTPROPERTY_TYPE_TWO_BYTE_INTEGER | MQTTPROPERTY_TYPE_FOUR_BYTE_INTEGER
  | MQTTPROPERTY_TYPE_VARIABLE_BYTE_INTEGER | MQTTPROPERTY_TYPE_BINARY_DATA | MQTTPROPERTY_TYPE_UTF_8_ENCODED_STRING
  | MQTTPROPERTY_TYPE_UTF_8_STRING_PAIR

text \<open>The identifiers are their numbers in \<open>enum MQTTPropertyCodes\<close>.\<close>

definition namesToTypes :: "(int \<times> MQTTPropertyTypes) list" where
  "namesToTypes =
     [(1, MQTTPROPERTY_TYPE_BYTE), (2, MQTTPROPERTY_TYPE_FOUR_BYTE_INTEGER),
      (3, MQTTPROPERTY_TYPE_UTF_8_ENCODED_STRING), (8, MQTTPROPERTY_TYPE_UTF_8_ENCODED_STRING),
      (9, MQTTPROPERTY_TYPE_BINARY_DATA), (11, MQTTPROPERTY_TYPE_VARIABLE_BYTE_INTEGER),
      (17, MQTTPROPERTY_TYPE_FOUR_BYTE_INTEGER), (18, MQTTPROPERTY_TYPE_UTF_8_ENCODED_STRING),
      (19, MQTTPROPERTY_TYPE_TWO_BYTE_INTEGER), (21, MQTTPROPERTY_TYPE_UTF_8_ENCODED_STRING),
      (22, MQTTPROPERTY_TYPE_BINARY_DATA), (23, MQTTPROPERTY_TYPE_BYTE), (24, MQTTPROPERTY_TYPE_FOUR_BYTE_INTEGER),
      (25, MQTTPROPERTY_TYPE_BYTE), (26, MQTTPROPERTY_TYPE_UTF_8_ENCODED_STRING),
      (28, MQTTPROPERTY_TYPE_UTF_8_ENCODED_STRING), (31, MQTTPROPERTY_TYPE_UTF_8_ENCODED_STRING),
      (33, MQTTPROPERTY_TYPE_TWO_BYTE_INTEGER), (34, MQTTPROPERTY_TYPE_TWO_BYTE_INTEGER),
      (35, MQTTPROPERTY_TYPE_TWO_BYTE_INTEGER), (36, MQTTPROPERTY_TYPE_BYTE), (37, MQTTPROPERTY_TYPE_BYTE),
      (38, MQTTPROPERTY_TYPE_UTF_8_STRING_PAIR), (39, MQTTPROPERTY_TYPE_FOUR_BYTE_INTEGER),
      (40, MQTTPROPERTY_TYPE_BYTE), (41, MQTTPROPERTY_TYPE_BYTE), (42, MQTTPROPERTY_TYPE_BYTE)]"

definition MQTTProperty_getType :: "int \<Rightarrow> MQTTPropertyTypes option" where
  "MQTTProperty_getType v = map_of namesToTypes v"

definition nameToString :: "(int \<times> string) list" where
  "nameToString =
     [(1, ''PAYLOAD_FORMAT_INDICATOR''), (2, ''MESSAGE_EXPIRY_INTERVAL''), (3, ''CONTENT_TYPE''),
      (8, ''RESPONSE_TOPIC''), (9, ''CORRELATION_DATA''), (11, ''SUBSCRIPTION_IDENTIFIER''),
      (17, ''SESSION_EXPIRY_INTERVAL''), (18, ''ASSIGNED_CLIENT_IDENTIFER''), (19, ''SERVER_KEEP_ALIVE''),
      (21, ''AUTHENTICATION_METHOD''), (22, ''AUTHENTICATION_DATA''), (23, ''REQUEST_PROBLEM_INFORMATION''),
      (24, ''WILL_DELAY_INTERVAL''), (25, ''REQUEST_RESPONSE_INFORMATION''), (26, ''RESPONSE_INFORMATION''),
      (28, ''SERVER_REFERENCE''), (31, ''REASON_STRING''), (33, ''RECEIVE_MAXIMUM''), (34, ''TOPIC_ALIAS_MAXIMUM''),
      (35, ''TOPIC_ALIAS''), (36, ''MAXIMUM_QOS''), (37, ''RETAIN_AVAILABLE''), (38, ''USER_PROPERTY''),
      (39, ''MAXIMUM_PACKET_SIZE''), (40, ''WILDCARD_SUBSCRIPTION_AVAILABLE''),
      (41, ''SUBSCRIPTION_IDENTIFIERS_AVAILABLE''), (42, ''SHARED_SUBSCRIPTION_AVAILABLE'')]"

definition MQTTPropertyName :: "int \<Rightarrow> string option" where
  "MQTTPropertyName v = map_of nameToString v"

text \<open>The union holds what was stored; reading another member than that is a fault.\<close>

datatype prop_value =
    Val_byte UCHAR | Val_integer2 USHORT | Val_integer4 uint32 | Val_data "UCHAR list" | Val_pair "UCHAR list" "UCHAR list"

record MQTTProperty =
  pr_identifier :: int
  pr_value :: prop_value

record MQTTProperties =
  prs_length :: int
  prs_array :: "MQTTProperty list"

definition MQTTProperties_initializer :: MQTTProperties where
  "MQTTProperties_initializer = \<lparr>prs_length = 0, prs_array = []\<rparr>"

definition MQTTProperties_len :: "MQTTProperties option \<Rightarrow> int" where
  "MQTTProperties_len props = (case props of None \<Rightarrow> 1 | Some ps \<Rightarrow> prs_length ps + MQTTPacket_VBIlen (prs_length ps))"

section \<open>Adding\<close>

fun added_length :: "MQTTPropertyTypes \<Rightarrow> prop_value \<Rightarrow> int res" where
  "added_length MQTTPROPERTY_TYPE_BYTE (Val_byte b) = Inr 1"
| "added_length MQTTPROPERTY_TYPE_TWO_BYTE_INTEGER (Val_integer2 i) = Inr 2"
| "added_length MQTTPROPERTY_TYPE_FOUR_BYTE_INTEGER (Val_integer4 i) = Inr 4"
| "added_length MQTTPROPERTY_TYPE_VARIABLE_BYTE_INTEGER (Val_integer4 i) = Inr (MQTTPacket_VBIlen (sint i))"
| "added_length MQTTPROPERTY_TYPE_BINARY_DATA (Val_data d) = Inr (2 + int (length d))"
| "added_length MQTTPROPERTY_TYPE_UTF_8_ENCODED_STRING (Val_data d) = Inr (2 + int (length d))"
| "added_length MQTTPROPERTY_TYPE_UTF_8_STRING_PAIR (Val_pair d v) = Inr (2 + int (length d) + (2 + int (length v)))"
| "added_length t v = Inl Bad_conversion"

definition MQTT_INVALID_PROPERTY_ID :: int where "MQTT_INVALID_PROPERTY_ID = -2"

definition MQTTProperties_add :: "MQTTProperties \<Rightarrow> MQTTProperty \<Rightarrow> (int \<times> MQTTProperties) res" where
  "MQTTProperties_add props prop =
     (case MQTTProperty_getType (pr_identifier prop) of
        None \<Rightarrow> Inr (MQTT_INVALID_PROPERTY_ID, props)
      | Some t \<Rightarrow>
          bind_res (added_length t (pr_value prop)) (\<lambda>len.
            Inr (0, \<lparr>prs_length = prs_length props + (len + 1), prs_array = prs_array props @ [prop]\<rparr>)))"

section \<open>Writing\<close>

text \<open>The return value of the caller and the bytes.\<close>

fun write_value :: "MQTTPropertyTypes \<Rightarrow> prop_value \<Rightarrow> (int \<times> UCHAR list) res" where
  "write_value MQTTPROPERTY_TYPE_BYTE (Val_byte b) = Inr (1, [b])"
| "write_value MQTTPROPERTY_TYPE_TWO_BYTE_INTEGER (Val_integer2 i) = Inr (2, writeInt (uint i))"
| "write_value MQTTPROPERTY_TYPE_FOUR_BYTE_INTEGER (Val_integer4 i) = Inr (4, writeInt4 (sint i))"
| "write_value MQTTPROPERTY_TYPE_VARIABLE_BYTE_INTEGER (Val_integer4 i) =
     Inr (int (length (MQTTPacket_encode (unat i))), MQTTPacket_encode (unat i))"
| "write_value MQTTPROPERTY_TYPE_BINARY_DATA (Val_data d) = Inr (int (length d) + 2, writeMQTTLenString d)"
| "write_value MQTTPROPERTY_TYPE_UTF_8_ENCODED_STRING (Val_data d) = Inr (int (length d) + 2, writeMQTTLenString d)"
| "write_value MQTTPROPERTY_TYPE_UTF_8_STRING_PAIR (Val_pair d v) =
     Inr (int (length d) + int (length v) + 4, writeMQTTLenString d @ writeMQTTLenString v)"
| "write_value t v = Inl Bad_conversion"

text \<open>An unknown identifier writes nothing and returns 0.\<close>

definition MQTTProperty_write :: "MQTTProperty \<Rightarrow> (int \<times> UCHAR list) res" where
  "MQTTProperty_write prop =
     (case MQTTProperty_getType (pr_identifier prop) of
        None \<Rightarrow> Inr (0, [])
      | Some t \<Rightarrow>
          bind_res (write_value t (pr_value prop)) (\<lambda>(rc, bs). Inr (rc + 1, word_of_int (pr_identifier prop) # bs)))"

fun write_all :: "MQTTProperty list \<Rightarrow> int \<Rightarrow> (int \<times> UCHAR list) res" where
  "write_all [] len = Inr (len, [])"
| "write_all (p # ps) len =
     bind_res (MQTTProperty_write p) (\<lambda>(rc, bs).
       if rc < 0 then Inr (rc, bs) else bind_res (write_all ps (len + rc)) (\<lambda>(rc', bs'). Inr (rc', bs @ bs')))"

definition MQTTProperties_write :: "MQTTProperties option \<Rightarrow> (int \<times> UCHAR list) res" where
  "MQTTProperties_write props =
     (case props of
        None \<Rightarrow> Inr (1, MQTTPacket_encode 0)
      | Some ps \<Rightarrow> bind_res (write_all (prs_array ps) 1) (\<lambda>(rc, bs). Inr (rc, MQTTPacket_encode (nat (prs_length ps)) @ bs)))"

section \<open>Reading\<close>

text \<open>The value of a type at a position: its length, or -1 for a string that leaves the buffer.\<close>

definition read_value :: "MQTTPropertyTypes \<Rightarrow> UCHAR list \<Rightarrow> nat \<Rightarrow> (int \<times> prop_value \<times> nat) res" where
  "read_value t data p =
     (case t of
        MQTTPROPERTY_TYPE_BYTE \<Rightarrow> bind_res (readChar data p) (\<lambda>(b, p'). Inr (1, Val_byte b, p'))
      | MQTTPROPERTY_TYPE_TWO_BYTE_INTEGER \<Rightarrow> bind_res (readInt data p) (\<lambda>(i, p'). Inr (2, Val_integer2 (of_nat i), p'))
      | MQTTPROPERTY_TYPE_FOUR_BYTE_INTEGER \<Rightarrow> bind_res (readInt4 data p) (\<lambda>(i, p'). Inr (4, Val_integer4 i, p'))
      | MQTTPROPERTY_TYPE_VARIABLE_BYTE_INTEGER \<Rightarrow>
          bind_res (MQTTPacket_decodeBuf data p) (\<lambda>(len, v). Inr (int len, Val_integer4 (of_nat v), p + len))
      | MQTTPROPERTY_TYPE_UTF_8_STRING_PAIR \<Rightarrow>
          bind_res (MQTTLenStringRead data p) (\<lambda>(len, d, p1).
            if len = -1 then Inr (-1, Val_data [], p1)
            else bind_res (MQTTLenStringRead data p1) (\<lambda>(proplen, v, p2).
                   if proplen = -1 then Inr (-1, Val_data [], p2) else Inr (len + proplen, Val_pair d v, p2)))
      | _ \<Rightarrow> bind_res (MQTTLenStringRead data p) (\<lambda>(len, d, p1). Inr (len, Val_data d, p1)))"

definition MQTTProperty_read :: "UCHAR list \<Rightarrow> nat \<Rightarrow> (int \<times> MQTTProperty \<times> nat) res" where
  "MQTTProperty_read data p =
     bind_res (readChar data p) (\<lambda>(i, p1).
       case MQTTProperty_getType (uint i) of
         None \<Rightarrow> Inr (-1, \<lparr>pr_identifier = uint i, pr_value = Val_data []\<rparr>, p1)
       | Some t \<Rightarrow>
           bind_res (read_value t data p1) (\<lambda>(len, v, p2).
             Inr (if len = -1 then -1 else len + 1, \<lparr>pr_identifier = uint i, pr_value = v\<rparr>, p2)))"

lemma readChar_moves: "readChar data p = Inr (c, p') \<Longrightarrow> p < length data \<and> p' = p + 1"
  by (auto simp: readChar_def split: if_splits)

lemma readInt_moves: "readInt data p = Inr (i, p') \<Longrightarrow> p' = p + 2"
  by (auto simp: readInt_def res_simps dest!: readChar_moves)

lemma readInt4_moves: "readInt4 data p = Inr (i, p') \<Longrightarrow> p' = p + 4"
  by (auto simp: readInt4_def res_simps dest!: readChar_moves)

lemma LenString_moves: "MQTTLenStringRead data p = Inr (len, d, p') \<Longrightarrow> p \<le> p'"
  by (auto simp: MQTTLenStringRead_def res_simps dest!: readInt_moves split: if_splits)

lemma read_value_moves: "read_value t data p = Inr (len, v, p') \<Longrightarrow> p \<le> p'"
  by (cases t) (auto simp: read_value_def res_simps dest!: readChar_moves readInt_moves readInt4_moves LenString_moves split: if_splits)

lemma property_read_moves: "MQTTProperty_read data p = Inr (len, v, p') \<Longrightarrow> p < length data \<and> p < p'"
  by (auto simp: MQTTProperty_read_def res_simps dest!: readChar_moves read_value_moves split: option.splits)

text \<open>
  The loop over the stated length, an unsigned number from which the length of every property is taken. Its result is what is
  left of it, with the properties read.
\<close>

function read_loop :: "UCHAR list \<Rightarrow> nat \<Rightarrow> uint32 \<Rightarrow> MQTTProperty list \<Rightarrow> (uint32 \<times> MQTTProperty list \<times> nat) res" where
  "read_loop data p remlength acc =
     (if remlength = 0 then Inr (remlength, acc, p)
      else bind_res (MQTTProperty_read data p) (\<lambda>(proplen, pr, p').
             if proplen > 0 then read_loop data p' (remlength - word_of_int proplen) (acc @ [pr]) else Inr (remlength, acc, p')))"
  by pat_completeness auto

termination read_loop
  by (relation "measure (\<lambda>(data, p, r, acc). length data - p)") (auto dest!: property_read_moves)

declare read_loop.simps [simp del]

text \<open>The return value is 1 when the properties were read; they are thrown away otherwise.\<close>

definition MQTTProperties_read :: "UCHAR list \<Rightarrow> nat \<Rightarrow> (int \<times> MQTTProperties \<times> nat) res" where
  "MQTTProperties_read data p =
     (if int (length data) - int p > 0
      then bind_res (MQTTPacket_decodeBuf data p) (\<lambda>(len, v).
           bind_res (read_loop data (p + len) (of_nat v) []) (\<lambda>(remlength, ps, p').
             if remlength = 0 then Inr (1, \<lparr>prs_length = int v, prs_array = ps\<rparr>, p')
             else Inr (0, MQTTProperties_initializer, p')))
      else Inr (0, MQTTProperties_initializer, p))"

section \<open>Looking up\<close>

fun copy_loop :: "MQTTProperty list \<Rightarrow> MQTTProperties \<Rightarrow> MQTTProperties res" where
  "copy_loop [] result = Inr result"
| "copy_loop (p # ps) result = bind_res (MQTTProperties_add result p) (\<lambda>(rc, r). copy_loop ps r)"

definition MQTTProperties_copy :: "MQTTProperties \<Rightarrow> MQTTProperties res" where
  "MQTTProperties_copy props = copy_loop (prs_array props) MQTTProperties_initializer"

definition MQTTProperties_free :: "MQTTProperties \<Rightarrow> MQTTProperties" where
  "MQTTProperties_free props = MQTTProperties_initializer"

definition MQTTProperties_hasProperty :: "MQTTProperties \<Rightarrow> int \<Rightarrow> bool" where
  "MQTTProperties_hasProperty props propid \<longleftrightarrow> list_ex (\<lambda>p. pr_identifier p = propid) (prs_array props)"

definition MQTTProperties_propertyCount :: "MQTTProperties \<Rightarrow> int \<Rightarrow> nat" where
  "MQTTProperties_propertyCount props propid = length (filter (\<lambda>p. pr_identifier p = propid) (prs_array props))"

fun numeric_value :: "MQTTPropertyTypes option \<Rightarrow> prop_value \<Rightarrow> int res" where
  "numeric_value (Some MQTTPROPERTY_TYPE_BYTE) (Val_byte b) = Inr (uint b)"
| "numeric_value (Some MQTTPROPERTY_TYPE_TWO_BYTE_INTEGER) (Val_integer2 i) = Inr (uint i)"
| "numeric_value (Some MQTTPROPERTY_TYPE_FOUR_BYTE_INTEGER) (Val_integer4 i) = Inr (sint i)"
| "numeric_value (Some MQTTPROPERTY_TYPE_VARIABLE_BYTE_INTEGER) (Val_integer4 i) = Inr (sint i)"
| "numeric_value t v =
     (if t \<in> Some ` {MQTTPROPERTY_TYPE_BYTE, MQTTPROPERTY_TYPE_TWO_BYTE_INTEGER, MQTTPROPERTY_TYPE_FOUR_BYTE_INTEGER,
                     MQTTPROPERTY_TYPE_VARIABLE_BYTE_INTEGER} then Inl Bad_conversion else Inr (-999999))"

text \<open>An index below 0 takes the first property too; \<open>getPropertyAt\<close> then finds none.\<close>

fun numeric_at :: "MQTTProperty list \<Rightarrow> int \<Rightarrow> int \<Rightarrow> int \<Rightarrow> int res" where
  "numeric_at [] propid index cur_index = Inr (-9999999)"
| "numeric_at (p # ps) propid index cur_index =
     (if pr_identifier p = propid
      then if cur_index < index then numeric_at ps propid index (cur_index + 1)
           else numeric_value (MQTTProperty_getType propid) (pr_value p)
      else numeric_at ps propid index cur_index)"

definition MQTTProperties_getNumericValueAt :: "MQTTProperties \<Rightarrow> int \<Rightarrow> int \<Rightarrow> int res" where
  "MQTTProperties_getNumericValueAt props propid index = numeric_at (prs_array props) propid index 0"

definition MQTTProperties_getNumericValue :: "MQTTProperties \<Rightarrow> int \<Rightarrow> int res" where
  "MQTTProperties_getNumericValue props propid = MQTTProperties_getNumericValueAt props propid 0"

fun property_at :: "MQTTProperty list \<Rightarrow> int \<Rightarrow> int \<Rightarrow> int \<Rightarrow> MQTTProperty option" where
  "property_at [] propid index cur_index = None"
| "property_at (p # ps) propid index cur_index =
     (if pr_identifier p = propid
      then if cur_index = index then Some p else property_at ps propid index (cur_index + 1)
      else property_at ps propid index cur_index)"

definition MQTTProperties_getPropertyAt :: "MQTTProperties \<Rightarrow> int \<Rightarrow> int \<Rightarrow> MQTTProperty option" where
  "MQTTProperties_getPropertyAt props propid index = property_at (prs_array props) propid index 0"

definition MQTTProperties_getProperty :: "MQTTProperties \<Rightarrow> int \<Rightarrow> MQTTProperty option" where
  "MQTTProperties_getProperty props propid = MQTTProperties_getPropertyAt props propid 0"

section \<open>What is written is read back\<close>

text \<open>A value that the encoding of its type can hold: integers of four bytes only below \<open>2\<^sup>3\<^sup>1\<close>.\<close>

fun value_ok :: "MQTTPropertyTypes \<Rightarrow> prop_value \<Rightarrow> bool" where
  "value_ok MQTTPROPERTY_TYPE_BYTE (Val_byte b) = True"
| "value_ok MQTTPROPERTY_TYPE_TWO_BYTE_INTEGER (Val_integer2 i) = True"
| "value_ok MQTTPROPERTY_TYPE_FOUR_BYTE_INTEGER (Val_integer4 i) = (uint i < 2 ^ 31)"
| "value_ok MQTTPROPERTY_TYPE_VARIABLE_BYTE_INTEGER (Val_integer4 i) = (uint i < 268435456)"
| "value_ok MQTTPROPERTY_TYPE_BINARY_DATA (Val_data d) = (length d < 65536)"
| "value_ok MQTTPROPERTY_TYPE_UTF_8_ENCODED_STRING (Val_data d) = (length d < 65536)"
| "value_ok MQTTPROPERTY_TYPE_UTF_8_STRING_PAIR (Val_pair d v) = (length d < 65536 \<and> length v < 65536)"
| "value_ok t v = False"

definition prop_ok :: "MQTTProperty \<Rightarrow> bool" where
  "prop_ok p \<longleftrightarrow> (case MQTTProperty_getType (pr_identifier p) of None \<Rightarrow> False | Some t \<Rightarrow> value_ok t (pr_value p))"

lemma sint_small: "uint (i :: uint32) < 2 ^ 31 \<Longrightarrow> sint i = uint i"
  unfolding sint_uint by (intro signed_take_bit_int_eq_self) (simp_all add: order_trans[of _ 0])

lemma writeInt_length [simp]: "length (writeInt i) = 2" "length (writeInt4 i) = 4" "length (writeMQTTLenString d) = 2 + length d"
  by (simp_all add: writeInt_def writeInt4_def writeMQTTLenString_def Let_def)

lemma LenString_at:
  "length d < 65536 \<Longrightarrow> p = length pre \<Longrightarrow>
   MQTTLenStringRead (pre @ writeMQTTLenString d @ post) p = Inr (2 + int (length d), d, p + 2 + length d)"
  using MQTTLenStringRead_write by simp

lemma value_roundtrip:
  "value_ok t v \<Longrightarrow> \<exists>bs. write_value t v = Inr (int (length bs), bs) \<and> added_length t v = Inr (int (length bs)) \<and>
     (\<forall>pre post. read_value t (pre @ bs @ post) (length pre) = Inr (int (length bs), v, length pre + length bs))"
proof (induction t v rule: value_ok.induct)
  case (2 i)
  have "uint i < 65536" using uint_bounded[of i] by simp
  then show ?case using readInt_writeInt[of "uint i"] by (simp add: read_value_def)
next
  case (3 i)
  then show ?case using readInt4_writeInt4[of "uint i"] by (simp add: read_value_def sint_small)
next
  case (4 i)
  have "int (unat i) = uint i" by simp
  then have i: "unat i < 268435456" using 4 unfolding value_ok.simps by linarith
  have i2: "uint i < 2 ^ 31" using 4 by simp
  have "int (length (MQTTPacket_encode (unat i))) = MQTTPacket_VBIlen (uint i)" using encode_length[OF i] by simp
  then show ?case using decodeBuf_encode[OF i] i2 by (simp add: read_value_def sint_small)
next
  case (7 d v)
  have "read_value MQTTPROPERTY_TYPE_UTF_8_STRING_PAIR (pre @ (writeMQTTLenString d @ writeMQTTLenString v) @ post) (length pre) =
      Inr (int (length d) + int (length v) + 4, Val_pair d v, length pre + (length d + length v + 4))" for pre post
  proof -
    let ?data = "pre @ writeMQTTLenString d @ writeMQTTLenString v @ post"
    have l: "length d < 65536" "length v < 65536" using 7 by simp_all
    have "MQTTLenStringRead ?data (length pre) = Inr (2 + int (length d), d, length pre + 2 + length d)"
      by (rule LenString_at[OF l(1) refl])
    moreover have "MQTTLenStringRead ((pre @ writeMQTTLenString d) @ writeMQTTLenString v @ post) (length pre + 2 + length d) =
        Inr (2 + int (length v), v, length pre + 2 + length d + 2 + length v)"
      by (rule LenString_at[OF l(2)]) simp
    ultimately show ?thesis by (simp add: read_value_def)
  qed
  then show ?case by (intro exI[of _ "writeMQTTLenString d @ writeMQTTLenString v"]) simp
qed (simp_all add: read_value_def LenString_at)

lemma getType_byte: "MQTTProperty_getType i = Some t \<Longrightarrow> 0 \<le> i \<and> i < 256"
proof -
  assume "MQTTProperty_getType i = Some t"
  then have "(i, t) \<in> set namesToTypes" by (auto simp: MQTTProperty_getType_def dest: map_of_SomeD)
  moreover have "list_all (\<lambda>x. 0 \<le> fst x \<and> fst x < 256) namesToTypes" by code_simp
  ultimately show ?thesis by (auto simp: list_all_iff)
qed

definition prop_bytes :: "MQTTProperty \<Rightarrow> UCHAR list" where
  "prop_bytes p = (case MQTTProperty_write p of Inr (rc, bs) \<Rightarrow> bs | Inl e \<Rightarrow> [])"

lemma property_roundtrip:
  assumes "prop_ok p"
  shows "MQTTProperty_write p = Inr (int (length (prop_bytes p)), prop_bytes p)" "prop_bytes p \<noteq> []"
    "MQTTProperty_read (pre @ prop_bytes p @ post) (length pre) = Inr (int (length (prop_bytes p)), p, length pre + length (prop_bytes p))"
    "MQTTProperties_add props p = Inr (0, \<lparr>prs_length = prs_length props + int (length (prop_bytes p)), prs_array = prs_array props @ [p]\<rparr>)"
proof -
  obtain t where t: "MQTTProperty_getType (pr_identifier p) = Some t" "value_ok t (pr_value p)"
    using assms by (auto simp: prop_ok_def split: option.splits)
  obtain bs where bs: "write_value t (pr_value p) = Inr (int (length bs), bs)" "added_length t (pr_value p) = Inr (int (length bs))"
    "\<And>pre post. read_value t (pre @ bs @ post) (length pre) = Inr (int (length bs), pr_value p, length pre + length bs)"
    using value_roundtrip[OF t(2)] by blast
  have b: "prop_bytes p = word_of_int (pr_identifier p) # bs" using t bs by (simp add: prop_bytes_def MQTTProperty_write_def)
  have i: "uint (word_of_int (pr_identifier p) :: UCHAR) = pr_identifier p" using getType_byte[OF t(1)] by (simp add: uint_word_of_int)
  show "MQTTProperty_write p = Inr (int (length (prop_bytes p)), prop_bytes p)" "prop_bytes p \<noteq> []"
    unfolding b using t bs by (simp_all add: MQTTProperty_write_def)
  show "MQTTProperty_read (pre @ prop_bytes p @ post) (length pre) = Inr (int (length (prop_bytes p)), p, length pre + length (prop_bytes p))"
    unfolding b using t bs(3)[of "pre @ [word_of_int (pr_identifier p)]" post] i by (simp add: MQTTProperty_read_def)
  show "MQTTProperties_add props p = Inr (0, \<lparr>prs_length = prs_length props + int (length (prop_bytes p)), prs_array = prs_array props @ [p]\<rparr>)"
    unfolding b using t bs by (simp add: MQTTProperties_add_def)
qed

lemma write_all_ok:
  "list_all prop_ok ps \<Longrightarrow>
   write_all ps len = Inr (len + int (length (concat (map prop_bytes ps))), concat (map prop_bytes ps))"
  by (induction ps arbitrary: len) (auto simp: property_roundtrip)

lemma read_loop_ok:
  "list_all prop_ok ps \<Longrightarrow> length (concat (map prop_bytes ps)) < 2 ^ 32 \<Longrightarrow>
   read_loop (pre @ concat (map prop_bytes ps) @ post) (length pre) (of_nat (length (concat (map prop_bytes ps)))) acc =
     Inr (0, acc @ ps, length pre + length (concat (map prop_bytes ps)))"
proof (induction ps arbitrary: pre acc)
  case Nil
  then show ?case by (simp add: read_loop.simps)
next
  case (Cons p ps)
  let ?b = "prop_bytes p" and ?bs = "concat (map prop_bytes ps)"
  have p: "prop_ok p" using Cons(2) by simp
  have ne: "(of_nat (length (?b @ ?bs)) :: uint32) \<noteq> 0"
  proof -
    have "unat (of_nat (length (?b @ ?bs)) :: uint32) = length (?b @ ?bs)"
      unfolding unat_of_nat by (rule mod_less) (use Cons(3) in simp)
    moreover have "length (?b @ ?bs) \<noteq> 0" using property_roundtrip(2)[OF p] by simp
    ultimately show ?thesis by (metis unat_0)
  qed
  have "(of_nat (length (?b @ ?bs)) :: uint32) - word_of_int (int (length ?b)) = of_nat (length ?bs)" by simp
  moreover have "read_loop ((pre @ ?b) @ ?bs @ post) (length (pre @ ?b)) (of_nat (length ?bs)) (acc @ [p]) =
      Inr (0, (acc @ [p]) @ ps, length (pre @ ?b) + length ?bs)"
    using Cons by (intro Cons(1)) auto
  ultimately show ?case
    using ne property_roundtrip(2)[OF p] property_roundtrip(3)[OF p, of pre "?bs @ post"]
    by (subst read_loop.simps) simp
qed

text \<open>A list made by adding properties; its length fits the encoding.\<close>

definition props_wf :: "MQTTProperties \<Rightarrow> bool" where
  "props_wf ps \<longleftrightarrow> list_all prop_ok (prs_array ps) \<and> prs_length ps < 268435456 \<and>
     prs_length ps = int (length (concat (map prop_bytes (prs_array ps))))"

lemma props_wf_initializer: "props_wf MQTTProperties_initializer"
  by (simp add: props_wf_def MQTTProperties_initializer_def)

lemma props_wf_add:
  "props_wf ps \<Longrightarrow> prop_ok p \<Longrightarrow> prs_length ps + int (length (prop_bytes p)) < 268435456 \<Longrightarrow>
   \<exists>ps'. MQTTProperties_add ps p = Inr (0, ps') \<and> props_wf ps' \<and> prs_array ps' = prs_array ps @ [p]"
  by (simp add: property_roundtrip(4) props_wf_def)

definition props_bytes :: "MQTTProperties \<Rightarrow> UCHAR list" where
  "props_bytes ps = MQTTPacket_encode (nat (prs_length ps)) @ concat (map prop_bytes (prs_array ps))"

lemma props_roundtrip:
  assumes "props_wf ps"
  shows "\<exists>rc. MQTTProperties_write (Some ps) = Inr (rc, props_bytes ps)" "int (length (props_bytes ps)) = MQTTProperties_len (Some ps)"
    "MQTTProperties_read (pre @ props_bytes ps @ post) (length pre) = Inr (1, ps, length pre + length (props_bytes ps))"
proof -
  obtain A where ps: "ps = \<lparr>prs_length = int (length (concat (map prop_bytes A))), prs_array = A\<rparr>"
    using assms by (cases ps) (simp add: props_wf_def)
  define n where "n = length (concat (map prop_bytes A))"
  define bs where "bs = concat (map prop_bytes A)"
  have n: "n < 268435456" "length bs = n" and ok: "list_all prop_ok A" using assms by (simp_all add: ps props_wf_def n_def bs_def)
  have p: "props_bytes ps = MQTTPacket_encode n @ bs" by (simp add: props_bytes_def ps n_def bs_def)
  show "\<exists>rc. MQTTProperties_write (Some ps) = Inr (rc, props_bytes ps)"
    unfolding p using write_all_ok[OF ok, of 1] by (simp add: MQTTProperties_write_def ps bs_def n_def)
  show "int (length (props_bytes ps)) = MQTTProperties_len (Some ps)"
    unfolding p using encode_length[OF n(1)] n(2) by (simp add: MQTTProperties_len_def ps n_def)
  have e: "0 < length (MQTTPacket_encode n)" by (subst MQTTPacket_encode.simps) (simp add: Let_def)
  have d: "MQTTPacket_decodeBuf (pre @ MQTTPacket_encode n @ bs @ post) (length pre) = Inr (length (MQTTPacket_encode n), n)"
    by (rule decodeBuf_encode[OF n(1)])
  have "read_loop ((pre @ MQTTPacket_encode n) @ bs @ post) (length (pre @ MQTTPacket_encode n)) (of_nat (length bs)) [] =
      Inr (0, [] @ A, length (pre @ MQTTPacket_encode n) + length bs)"
    unfolding bs_def using n by (intro read_loop_ok[OF ok]) (simp add: bs_def)
  then have r: "read_loop (pre @ MQTTPacket_encode n @ bs @ post) (length pre + length (MQTTPacket_encode n)) (of_nat n) [] =
      Inr (0, A, length pre + length (MQTTPacket_encode n) + n)" by (simp add: n(2))
  have "int (length (pre @ MQTTPacket_encode n @ bs @ post)) - int (length pre) > 0"
    using e unfolding length_append of_nat_add by linarith
  then show "MQTTProperties_read (pre @ props_bytes ps @ post) (length pre) = Inr (1, ps, length pre + length (props_bytes ps))"
    unfolding p append_assoc MQTTProperties_read_def d using r n(2) by (simp only: if_True bind_res_Inr prod.case) (simp add: ps n_def)
qed

section \<open>Properties\<close>


definition sample_props :: MQTTProperties where
  "sample_props = \<lparr>prs_length = 12, prs_array = [\<lparr>pr_identifier = 17, pr_value = Val_integer4 3600\<rparr>,
     \<lparr>pr_identifier = 38, pr_value = Val_pair [0x61] [0x62]\<rparr>]\<rparr>"

lemma sample_props_wf: "props_wf sample_props"
  by (simp add: props_wf_def sample_props_def prop_ok_def MQTTProperty_getType_def namesToTypes_def prop_bytes_def
      MQTTProperty_write_def writeMQTTLenString_def)



end
