(* ===== verification/MqttPacket.thy ===== *)
theory MqttPacket
  imports MqttProperties
begin

text \<open>
  The packets of the MQTT client library, \<open>MQTTPacket.c\<close> and \<open>MQTTPacketOut.c\<close> of \<open>component/paho.mqtt.c-1.3.9\<close>: the
  packet factory with the functions of its table, and the functions that send packets. What is sent is the bytes handed to the
  socket, with the message id that is put in the persistent store before, if any. A field that \<open>malloc\<close> leaves
  uninitialised, or a byte of a buffer that is not written, is an argument.
\<close>

section \<open>Header\<close>

abbreviation (input) "CONNECT \<equiv> (1 :: int)"
abbreviation (input) "CONNACK \<equiv> (2 :: int)"
abbreviation (input) "PUBLISH \<equiv> (3 :: int)"
abbreviation (input) "PUBACK \<equiv> (4 :: int)"
abbreviation (input) "PUBREC \<equiv> (5 :: int)"
abbreviation (input) "PUBREL \<equiv> (6 :: int)"
abbreviation (input) "PUBCOMP \<equiv> (7 :: int)"
abbreviation (input) "SUBSCRIBE \<equiv> (8 :: int)"
abbreviation (input) "SUBACK \<equiv> (9 :: int)"
abbreviation (input) "UNSUBSCRIBE \<equiv> (10 :: int)"
abbreviation (input) "UNSUBACK \<equiv> (11 :: int)"
abbreviation (input) "PINGREQ \<equiv> (12 :: int)"
abbreviation (input) "PINGRESP \<equiv> (13 :: int)"
abbreviation (input) "DISCONNECT \<equiv> (14 :: int)"
abbreviation (input) "AUTH \<equiv> (15 :: int)"

abbreviation (input) "MQTTVERSION_3_1 \<equiv> (3 :: int)"
abbreviation (input) "MQTTVERSION_3_1_1 \<equiv> (4 :: int)"
abbreviation (input) "MQTTVERSION_5 \<equiv> (5 :: int)"

definition packet_names :: "string list" where
  "packet_names =
     [''RESERVED'', ''CONNECT'', ''CONNACK'', ''PUBLISH'', ''PUBACK'', ''PUBREC'', ''PUBREL'', ''PUBCOMP'', ''SUBSCRIBE'',
      ''SUBACK'', ''UNSUBSCRIBE'', ''UNSUBACK'', ''PINGREQ'', ''PINGRESP'', ''DISCONNECT'', ''AUTH'']"

definition MQTTPacket_name :: "int \<Rightarrow> string" where
  "MQTTPacket_name ptype = (if 0 \<le> ptype \<and> ptype \<le> AUTH then packet_names ! nat ptype else ''UNKNOWN'')"

text \<open>The bit fields from the lowest bit on: retain, two bits of the quality of service, dup, four bits of the type.\<close>

definition header_byte :: "int \<Rightarrow> int \<Rightarrow> int \<Rightarrow> int \<Rightarrow> UCHAR" where
  "header_byte typ dup qos retain = word_of_int (retain mod 2 + 2 * (qos mod 4) + 8 * (dup mod 2) + 16 * (typ mod 16))"

definition header_type :: "UCHAR \<Rightarrow> int" where "header_type b = uint b div 16"

definition header_qos :: "UCHAR \<Rightarrow> int" where "header_qos b = uint b div 2 mod 4"

section \<open>Packets\<close>

record Publish =
  pub_header :: UCHAR
  pub_topic :: "UCHAR list"
  pub_topiclen :: int
  pub_msgId :: int
  pub_payload :: "UCHAR list"
  pub_payloadlen :: int
  pub_MQTTVersion :: int
  pub_properties :: MQTTProperties

record Ack =
  ack_header :: UCHAR
  ack_msgId :: int
  ack_rc :: int
  ack_MQTTVersion :: int
  ack_properties :: MQTTProperties

record Connack =
  cna_header :: UCHAR
  cna_flags :: UCHAR
  cna_rc :: int
  cna_MQTTVersion :: int
  cna_properties :: MQTTProperties

record Suback =
  sub_header :: UCHAR
  sub_msgId :: int
  sub_MQTTVersion :: int
  sub_properties :: MQTTProperties
  sub_qoss :: "int list"

record Unsuback =
  uns_header :: UCHAR
  uns_msgId :: int
  uns_MQTTVersion :: int
  uns_properties :: MQTTProperties
  uns_reasonCodes :: "int list option"

datatype packet = Pk_publish Publish | Pk_ack Ack | Pk_connack Connack | Pk_suback Suback | Pk_unsuback Unsuback | Pk_header UCHAR

section \<open>Reading packets\<close>

definition MQTTPacket_header_only :: "UCHAR \<Rightarrow> UCHAR" where "MQTTPacket_header_only aHeader = aHeader"

text \<open>The message id, or nothing when the data ends before it.\<close>

definition read_msgId :: "UCHAR list \<Rightarrow> nat \<Rightarrow> (int \<times> nat) option res" where
  "read_msgId data p =
     (if int (length data) - int p < 2 then Inr None else bind_res (readInt data p) (\<lambda>(i, p'). Inr (Some (int i, p'))))"

text \<open>The properties of version 5, or nothing when they are not well formed.\<close>

definition read_properties :: "int \<Rightarrow> MQTTProperties \<Rightarrow> UCHAR list \<Rightarrow> nat \<Rightarrow> (MQTTProperties \<times> nat) option res" where
  "read_properties MQTTVersion old data p =
     (if MQTTVersion \<ge> MQTTVERSION_5
      then bind_res (MQTTProperties_read data p) (\<lambda>(rc, ps, p'). Inr (if rc = 1 then Some (ps, p') else None))
      else Inr (Some (old, p)))"

definition bind_opt :: "'a option res \<Rightarrow> ('a \<Rightarrow> 'b option res) \<Rightarrow> 'b option res" where
  "bind_opt r f = bind_res r (\<lambda>x. case x of None \<Rightarrow> Inr None | Some y \<Rightarrow> f y)"

definition MQTTPacket_publish :: "int \<Rightarrow> UCHAR \<Rightarrow> UCHAR list \<Rightarrow> Publish option res" where
  "MQTTPacket_publish MQTTVersion aHeader data =
     bind_res (readUTFlen data 0) (\<lambda>(topic, p).
       case topic of None \<Rightarrow> Inr None
       | Some t \<Rightarrow>
           bind_opt (if header_qos aHeader > 0 then read_msgId data p else Inr (Some (0, p))) (\<lambda>(msgId, p1).
           bind_opt (read_properties MQTTVersion MQTTProperties_initializer data p1) (\<lambda>(props, p2).
             Inr (Some \<lparr>pub_header = aHeader, pub_topic = t, pub_topiclen = int (length t), pub_msgId = msgId,
                        pub_payload = drop p2 data, pub_payloadlen = int (length data) - int p2,
                        pub_MQTTVersion = MQTTVersion, pub_properties = props\<rparr>))))"

text \<open>\<open>u\<close> is what the allocated structure held. The reason code and the properties of version 5 are optional, by the length of the data.\<close>

definition ack_v5 :: "UCHAR list \<Rightarrow> nat \<Rightarrow> Ack \<Rightarrow> Ack option res" where
  "ack_v5 data p pack =
     bind_res (if length data > 2 then bind_res (readChar data p) (\<lambda>(c, p'). Inr (uint c, p')) else Inr (0, p)) (\<lambda>(rc, p1).
       let pack1 = pack\<lparr>ack_rc := rc, ack_properties := MQTTProperties_initializer\<rparr>
       in if length data > 3
          then bind_res (MQTTProperties_read data p1) (\<lambda>(ok, ps, p2).
                 Inr (if ok = 1 then Some (pack1\<lparr>ack_properties := ps\<rparr>) else None))
          else Inr (Some pack1))"

definition MQTTPacket_ack :: "Ack \<Rightarrow> int \<Rightarrow> UCHAR \<Rightarrow> UCHAR list \<Rightarrow> Ack option res" where
  "MQTTPacket_ack u MQTTVersion aHeader data =
     bind_opt (if header_type aHeader \<noteq> DISCONNECT then read_msgId data 0 else Inr (Some (ack_msgId u, 0))) (\<lambda>(msgId, p).
       let pack = u\<lparr>ack_MQTTVersion := MQTTVersion, ack_header := aHeader, ack_msgId := msgId\<rparr>
       in if MQTTVersion \<ge> MQTTVERSION_5 then ack_v5 data p pack else Inr (Some pack))"

definition MQTTPacket_connack :: "Connack \<Rightarrow> int \<Rightarrow> UCHAR \<Rightarrow> UCHAR list \<Rightarrow> Connack option res" where
  "MQTTPacket_connack u MQTTVersion aHeader data =
     (if length data < 2 then Inr None
      else bind_res (readChar data 0) (\<lambda>(flags, p1). bind_res (readChar data p1) (\<lambda>(rc, p2).
        let pack = u\<lparr>cna_MQTTVersion := MQTTVersion, cna_header := aHeader, cna_flags := flags, cna_rc := uint rc\<rparr>
        in if MQTTVersion \<ge> MQTTVERSION_5 \<and> length data > 2
           then bind_opt (read_properties MQTTVersion MQTTProperties_initializer data p2) (\<lambda>(ps, p3).
                  Inr (Some (pack\<lparr>cna_properties := ps\<rparr>)))
           else Inr (Some pack))))"

text \<open>
  Without a code the packet is thrown away; before version 5 the pointer to its properties was never set, and one that is
  not null is freed.
\<close>

definition MQTTPacket_suback :: "Suback \<Rightarrow> int \<Rightarrow> UCHAR \<Rightarrow> UCHAR list \<Rightarrow> Suback option res" where
  "MQTTPacket_suback u MQTTVersion aHeader data =
     bind_opt (read_msgId data 0) (\<lambda>(msgId, p).
     bind_opt (read_properties MQTTVersion (sub_properties u) data p) (\<lambda>(props, p1).
       let qoss = map uint (drop p1 data)
       in if qoss = []
          then if MQTTVersion < MQTTVERSION_5 \<and> prs_array props \<noteq> [] then Inl Use_after_free else Inr None
          else Inr (Some \<lparr>sub_header = aHeader, sub_msgId = msgId, sub_MQTTVersion = MQTTVersion,
                          sub_properties = props, sub_qoss = qoss\<rparr>)))"

definition MQTTPacket_unsuback :: "Unsuback \<Rightarrow> int \<Rightarrow> UCHAR \<Rightarrow> UCHAR list \<Rightarrow> Unsuback option res" where
  "MQTTPacket_unsuback u MQTTVersion aHeader data =
     bind_opt (read_msgId data 0) (\<lambda>(msgId, p).
       let pack = \<lparr>uns_header = aHeader, uns_msgId = msgId, uns_MQTTVersion = MQTTVersion,
                   uns_properties = uns_properties u, uns_reasonCodes = None\<rparr>
       in if MQTTVersion \<ge> MQTTVERSION_5
          then bind_opt (read_properties MQTTVersion MQTTProperties_initializer data p) (\<lambda>(props, p1).
                 let codes = map uint (drop p1 data)
                 in Inr (if codes = [] then None else Some (pack\<lparr>uns_properties := props, uns_reasonCodes := Some codes\<rparr>)))
          else Inr (Some pack))"

text \<open>The memory that the functions of the table find in what they allocate.\<close>

record packet_mem =
  pm_ack :: Ack
  pm_connack :: Connack
  pm_suback :: Suback
  pm_unsuback :: Unsuback

definition opt_packet :: "('a \<Rightarrow> packet) \<Rightarrow> 'a option res \<Rightarrow> packet option res" where
  "opt_packet C r = bind_res r (\<lambda>x. Inr (map_option C x))"

text \<open>The table \<open>new_packets\<close>: no function for packets that only a client sends.\<close>

definition new_packets :: "packet_mem \<Rightarrow> int \<Rightarrow> (int \<Rightarrow> UCHAR \<Rightarrow> UCHAR list \<Rightarrow> packet option res) option" where
  "new_packets m ptype =
     (if ptype = CONNACK then Some (\<lambda>v h d. opt_packet Pk_connack (MQTTPacket_connack (pm_connack m) v h d))
      else if ptype = PUBLISH then Some (\<lambda>v h d. opt_packet Pk_publish (MQTTPacket_publish v h d))
      else if ptype \<in> {PUBACK, PUBREC, PUBREL, PUBCOMP, DISCONNECT, AUTH}
      then Some (\<lambda>v h d. opt_packet Pk_ack (MQTTPacket_ack (pm_ack m) v h d))
      else if ptype = SUBACK then Some (\<lambda>v h d. opt_packet Pk_suback (MQTTPacket_suback (pm_suback m) v h d))
      else if ptype = UNSUBACK then Some (\<lambda>v h d. opt_packet Pk_unsuback (MQTTPacket_unsuback (pm_unsuback m) v h d))
      else if ptype \<in> {PINGREQ, PINGRESP} then Some (\<lambda>v h d. Inr (Some (Pk_header (MQTTPacket_header_only h))))
      else None)"

text \<open>
  \<open>cs\<close> are the bytes that have arrived, \<open>eof\<close> what the socket answers after them, \<open>put\<close> what the persistent store answers. The
  result is the error code, the packet, and the bytes left. The socket buffer keeps the bytes of a packet that is
  interrupted, and the next call starts with them again.
\<close>

definition packet_read :: "packet_mem \<Rightarrow> int \<Rightarrow> int \<Rightarrow> UCHAR \<Rightarrow> UCHAR list \<Rightarrow> (int \<times> packet option) res" where
  "packet_read m put MQTTVersion h data =
     (let ptype = header_type h
      in if ptype < CONNECT \<or> (MQTTVersion < MQTTVERSION_5 \<and> ptype \<ge> DISCONNECT) \<or> (MQTTVersion \<ge> MQTTVERSION_5 \<and> ptype > AUTH)
         then Inr (TCPSOCKET_COMPLETE, None)
         else case new_packets m ptype of
                None \<Rightarrow> Inr (TCPSOCKET_COMPLETE, None)
              | Some f \<Rightarrow>
                  bind_res (f MQTTVersion h data) (\<lambda>pack.
                    Inr (case pack of None \<Rightarrow> (SOCKET_ERROR, None)
                         | Some pk \<Rightarrow> (if ptype = PUBLISH \<and> header_qos h = 2 then put else TCPSOCKET_COMPLETE, Some pk))))"

definition MQTTPacket_Factory ::
  "packet_mem \<Rightarrow> int \<Rightarrow> int \<Rightarrow> int \<Rightarrow> UCHAR list \<Rightarrow> (int \<times> packet option \<times> UCHAR list) res" where
  "MQTTPacket_Factory m put eof MQTTVersion cs =
     (case cs of
        [] \<Rightarrow> Inr (eof, None, cs)
      | h # cs1 \<Rightarrow>
          (case MQTTPacket_decode eof cs1 of (rc, remaining_length, cs2) \<Rightarrow>
             if rc \<noteq> TCPSOCKET_COMPLETE then Inr (rc, None, if rc = TCPSOCKET_INTERRUPTED then cs else cs2)
             else if length cs2 < remaining_length
             then Inr (if eof = SOCKET_ERROR then (SOCKET_ERROR, None, []) else (TCPSOCKET_INTERRUPTED, None, cs))
             else bind_res (packet_read m put MQTTVersion h (take remaining_length cs2)) (\<lambda>(err, pack).
                    Inr (err, pack, drop remaining_length cs2))))"

section \<open>Sending packets\<close>

type_synonym sent = "int option \<times> UCHAR list"

text \<open>Header, length and buffer; a release is put in the persistent store first.\<close>

definition MQTTPacket_send :: "UCHAR \<Rightarrow> UCHAR list \<Rightarrow> sent res" where
  "MQTTPacket_send header buffer =
     bind_res (if header_type header = PUBREL then bind_res (readInt buffer 0) (\<lambda>(i, p). Inr (Some (int i))) else Inr None) (\<lambda>put.
       Inr (put, header # MQTTPacket_encode (length buffer) @ buffer))"

text \<open>The same for several buffers; a message of quality 1 or 2 is put in the store, its id is in the third buffer.\<close>

definition MQTTPacket_sends :: "UCHAR \<Rightarrow> UCHAR list list \<Rightarrow> sent res" where
  "MQTTPacket_sends header bufs =
     bind_res (if header_type header = PUBLISH \<and> header_qos header \<noteq> 0
               then if 2 < length bufs then bind_res (readInt (bufs ! 2) 0) (\<lambda>(i, p). Inr (Some (int i))) else Inl Out_of_bounds_read
               else Inr None) (\<lambda>put.
       Inr (put, header # MQTTPacket_encode (sum_list (map length bufs)) @ concat bufs))"

text \<open>
  A buffer of \<open>len\<close> bytes into which \<open>bs\<close> was written: more than it holds is a fault, and what was not written is what the memory
  held.
\<close>

definition fill_buffer :: "UCHAR list \<Rightarrow> int \<Rightarrow> UCHAR list \<Rightarrow> UCHAR list res" where
  "fill_buffer junk len bs =
     (if int (length bs) > len then Inl Buffer_overflow else Inr (bs @ drop (length bs) (take (nat len) junk)))"

definition props_write_v5 :: "int \<Rightarrow> MQTTProperties option \<Rightarrow> UCHAR list res" where
  "props_write_v5 MQTTVersion props =
     (if MQTTVersion \<ge> MQTTVERSION_5 then bind_res (MQTTProperties_write props) (\<lambda>(rc, bs). Inr bs) else Inr [])"

definition props_len_v5 :: "int \<Rightarrow> MQTTProperties option \<Rightarrow> int" where
  "props_len_v5 MQTTVersion props = (if MQTTVersion \<ge> MQTTVERSION_5 then MQTTProperties_len props else 0)"

definition MQTTPacket_send_disconnect :: "UCHAR list \<Rightarrow> int \<Rightarrow> int \<Rightarrow> MQTTProperties option \<Rightarrow> sent res" where
  "MQTTPacket_send_disconnect junk MQTTVersion reason props =
     (let header = header_byte DISCONNECT 0 0 0
      in if MQTTVersion \<ge> 5 \<and> (props \<noteq> None \<or> reason \<noteq> 0)
         then bind_res (if props = None then Inr [] else bind_res (MQTTProperties_write props) (\<lambda>(rc, bs). Inr bs)) (\<lambda>ps.
              bind_res (fill_buffer junk (1 + (if props = None then 0 else MQTTProperties_len props)) (word_of_int reason # ps)) (\<lambda>buf.
                MQTTPacket_send header buf))
         else MQTTPacket_send header [])"

definition MQTTPacket_send_ack :: "int \<Rightarrow> int \<Rightarrow> int \<Rightarrow> sent res" where
  "MQTTPacket_send_ack typ msgid dup = MQTTPacket_send (header_byte typ dup (if typ = PUBREL then 1 else 0) 0) (writeInt msgid)"

definition MQTTPacket_send_puback :: "int \<Rightarrow> sent res" where
  "MQTTPacket_send_puback msgid = MQTTPacket_send_ack PUBACK msgid 0"

definition MQTTPacket_send_pubrec :: "int \<Rightarrow> sent res" where
  "MQTTPacket_send_pubrec msgid = MQTTPacket_send_ack PUBREC msgid 0"

definition MQTTPacket_send_pubrel :: "int \<Rightarrow> int \<Rightarrow> sent res" where
  "MQTTPacket_send_pubrel msgid dup = MQTTPacket_send_ack PUBREL msgid dup"

definition MQTTPacket_send_pubcomp :: "int \<Rightarrow> sent res" where
  "MQTTPacket_send_pubcomp msgid = MQTTPacket_send_ack PUBCOMP msgid 0"

definition MQTTPacket_send_pingreq :: "sent res" where
  "MQTTPacket_send_pingreq = MQTTPacket_send (header_byte PINGREQ 0 0 0) []"

text \<open>The length of the payload is a field of its own; only that many bytes are sent.\<close>

definition MQTTPacket_send_publish :: "UCHAR list \<Rightarrow> Publish \<Rightarrow> int \<Rightarrow> int \<Rightarrow> int \<Rightarrow> sent res" where
  "MQTTPacket_send_publish junk pack dup qos retained =
     (let header = header_byte PUBLISH dup qos retained;
          topiclen = writeInt (int (length (pub_topic pack)));
          payload = take (nat (pub_payloadlen pack)) (pub_payload pack)
      in if qos > 0 \<or> pub_MQTTVersion pack \<ge> 5
         then
           let buflen = (if qos > 0 then 2 else 0) + props_len_v5 (pub_MQTTVersion pack) (Some (pub_properties pack))
           in bind_res (props_write_v5 (pub_MQTTVersion pack) (Some (pub_properties pack))) (\<lambda>ps.
              bind_res (fill_buffer junk buflen ((if qos > 0 then writeInt (pub_msgId pack) else []) @ ps)) (\<lambda>buf.
                MQTTPacket_sends header [topiclen, pub_topic pack, buf, payload]))
         else MQTTPacket_sends header [topiclen, pub_topic pack, payload])"

section \<open>Connecting and subscribing\<close>

record willMessages =
  wl_topic :: "UCHAR list"
  wl_payload :: "UCHAR list"
  wl_qos :: int
  wl_retained :: int

record Clients =
  cn_clientID :: "UCHAR list"
  cn_will :: "willMessages option"
  cn_username :: "UCHAR list option"
  cn_password :: "UCHAR list option"
  cn_keepAliveInterval :: int
  cn_cleansession :: int
  cn_cleanstart :: int
  cn_MQTTVersion :: int

definition connect_flags :: "Clients \<Rightarrow> int \<Rightarrow> UCHAR" where
  "connect_flags client MQTTVersion =
     word_of_int (2 * ((if MQTTVersion \<ge> MQTTVERSION_5 then cn_cleanstart client else cn_cleansession client) mod 2)
       + (case cn_will client of None \<Rightarrow> 0 | Some w \<Rightarrow> 4 + 8 * (wl_qos w mod 4) + 32 * (wl_retained w mod 2))
       + (if cn_password client = None then 0 else 64) + (if cn_username client = None then 0 else 128))"

definition connect_len :: "Clients \<Rightarrow> int \<Rightarrow> MQTTProperties option \<Rightarrow> MQTTProperties option \<Rightarrow> int" where
  "connect_len client MQTTVersion connectProperties willProperties =
     (if MQTTVersion = MQTTVERSION_3_1 then 12 else 10) + int (length (cn_clientID client)) + 2
     + (case cn_will client of None \<Rightarrow> 0 | Some w \<Rightarrow> int (length (wl_topic w)) + 2 + int (length (wl_payload w)) + 2)
     + (case cn_username client of None \<Rightarrow> 0 | Some u \<Rightarrow> int (length u) + 2)
     + (case cn_password client of None \<Rightarrow> 0 | Some p \<Rightarrow> int (length p) + 2)
     + props_len_v5 MQTTVersion connectProperties
     + (if cn_will client = None then 0 else props_len_v5 MQTTVersion willProperties)"

text \<open>The name of the protocol, \<open>MQIsdp\<close> or \<open>MQTT\<close>, with its version; an unknown version sends nothing.\<close>

definition connect_protocol :: "int \<Rightarrow> UCHAR list option" where
  "connect_protocol MQTTVersion =
     (if MQTTVersion = MQTTVERSION_3_1 then Some (writeUTF [0x4D, 0x51, 0x49, 0x73, 0x64, 0x70] @ [3])
      else if MQTTVersion = MQTTVERSION_3_1_1 \<or> MQTTVersion = MQTTVERSION_5
      then Some (writeUTF [0x4D, 0x51, 0x54, 0x54] @ [word_of_int MQTTVersion])
      else None)"

definition connect_will :: "Clients \<Rightarrow> UCHAR list \<Rightarrow> UCHAR list" where
  "connect_will client wp =
     (case cn_will client of None \<Rightarrow> [] | Some w \<Rightarrow> wp @ writeUTF (wl_topic w) @ writeData (wl_payload w))"

definition MQTTPacket_send_connect ::
  "UCHAR list \<Rightarrow> Clients \<Rightarrow> int \<Rightarrow> MQTTProperties option \<Rightarrow> MQTTProperties option \<Rightarrow> sent option res" where
  "MQTTPacket_send_connect junk client MQTTVersion connectProperties willProperties =
     (case connect_protocol MQTTVersion of
        None \<Rightarrow> Inr None
      | Some protocol \<Rightarrow>
          bind_res (props_write_v5 MQTTVersion connectProperties) (\<lambda>cp.
          bind_res (if cn_will client = None then Inr [] else props_write_v5 MQTTVersion willProperties) (\<lambda>wp.
          bind_res (fill_buffer junk (connect_len client MQTTVersion connectProperties willProperties)
            (protocol @ [connect_flags client MQTTVersion] @ writeInt (cn_keepAliveInterval client) @ cp
             @ writeUTF (cn_clientID client) @ connect_will client wp
             @ (case cn_username client of None \<Rightarrow> [] | Some u \<Rightarrow> writeUTF u)
             @ (case cn_password client of None \<Rightarrow> [] | Some p \<Rightarrow> writeData p))) (\<lambda>buf.
          bind_res (MQTTPacket_send (header_byte CONNECT 0 0 0) buf) (\<lambda>x. Inr (Some x))))))"

record MQTTSubscribe_options =
  so_noLocal :: int
  so_retainAsPublished :: int
  so_retainHandling :: int

definition subscribe_opts :: "int \<Rightarrow> MQTTSubscribe_options list option \<Rightarrow> nat \<Rightarrow> int \<Rightarrow> UCHAR" where
  "subscribe_opts MQTTVersion opts i qos =
     (let q = word_of_int qos :: UCHAR
      in case opts of
           None \<Rightarrow> q
         | Some os \<Rightarrow>
             if MQTTVersion \<ge> MQTTVERSION_5
             then q OR word_of_int (so_noLocal (os ! i) * 4) OR word_of_int (so_retainAsPublished (os ! i) * 8)
                    OR word_of_int (so_retainHandling (os ! i) * 16)
             else q)"

text \<open>The lists of topics and of their qualities run together; a quality that is missing is a null pointer.\<close>

fun subscribe_topics ::
  "int \<Rightarrow> MQTTSubscribe_options list option \<Rightarrow> nat \<Rightarrow> UCHAR list list \<Rightarrow> int list \<Rightarrow> UCHAR list res" where
  "subscribe_topics v opts i [] qoss = Inr []"
| "subscribe_topics v opts i (t # ts) [] = Inl Null_deref"
| "subscribe_topics v opts i (t # ts) (q # qs) =
     (if v \<ge> MQTTVERSION_5 \<and> (case opts of None \<Rightarrow> False | Some os \<Rightarrow> length os \<le> i) then Inl Out_of_bounds_read
      else bind_res (subscribe_topics v opts (Suc i) ts qs) (\<lambda>bs. Inr (writeUTF t @ subscribe_opts v opts i q # bs)))"

definition MQTTPacket_send_subscribe ::
  "UCHAR list \<Rightarrow> UCHAR list list \<Rightarrow> int list \<Rightarrow> MQTTSubscribe_options list option \<Rightarrow> MQTTProperties option \<Rightarrow> int \<Rightarrow> int
     \<Rightarrow> Clients \<Rightarrow> sent res" where
  "MQTTPacket_send_subscribe junk topics qoss opts props msgid dup client =
     (let v = cn_MQTTVersion client;
          datalen = 2 + int (length topics) * 3 + int (sum_list (map length topics)) + props_len_v5 v props
      in bind_res (props_write_v5 v props) (\<lambda>ps.
         bind_res (subscribe_topics v opts 0 topics qoss) (\<lambda>ts.
         bind_res (fill_buffer junk datalen (writeInt msgid @ ps @ ts)) (\<lambda>buf.
           MQTTPacket_send (header_byte SUBSCRIBE dup 1 0) buf))))"

definition MQTTPacket_send_unsubscribe :: "UCHAR list \<Rightarrow> UCHAR list list \<Rightarrow> MQTTProperties option \<Rightarrow> int \<Rightarrow> int \<Rightarrow> Clients \<Rightarrow> sent res" where
  "MQTTPacket_send_unsubscribe junk topics props msgid dup client =
     (let v = cn_MQTTVersion client;
          datalen = 2 + int (length topics) * 2 + int (sum_list (map length topics)) + props_len_v5 v props
      in bind_res (props_write_v5 v props) (\<lambda>ps.
         bind_res (fill_buffer junk datalen (writeInt msgid @ ps @ concat (map writeUTF topics))) (\<lambda>buf.
           MQTTPacket_send (header_byte UNSUBSCRIBE dup 1 0) buf)))"

section \<open>Lemmas\<close>

lemma fill_exact: "int (length bs) = len \<Longrightarrow> fill_buffer junk len bs = Inr bs"
  by (auto simp: fill_buffer_def)

lemma bit_field_sum:
  assumes "0 \<le> r" "r < 2" "0 \<le> q" "q < 4" "0 \<le> d" "d < (2 :: int)"
  shows "(r + 2 * q + 8 * d + 16 * t) div 16 = t" "(r + 2 * q + 8 * d + 16 * t) div 2 mod 4 = q"
proof -
  have "r + 2 * q + 8 * d + 16 * t = 16 * t + (r + 2 * q + 8 * d)" by simp
  then show "(r + 2 * q + 8 * d + 16 * t) div 16 = t" using assms by (intro int_div_pos_eq[of _ 16 t "r + 2 * q + 8 * d"]) auto
  have "(r + 2 * q + 8 * d + 16 * t) div 2 = q + 4 * (d + 2 * t)" using assms by (intro int_div_pos_eq[of _ 2 _ r]) auto
  moreover have "(q + 4 * (d + 2 * t)) mod 4 = q" using assms unfolding mod_mult_self2 by simp
  ultimately show "(r + 2 * q + 8 * d + 16 * t) div 2 mod 4 = q" by simp
qed

lemma header_fields:
  assumes "0 \<le> typ" "typ < 16"
  shows "header_type (header_byte typ dup qos retain) = typ" "header_qos (header_byte typ dup qos retain) = qos mod 4"
proof -
  define r q d where "r = retain mod 2" and "q = qos mod 4" and "d = dup mod 2"
  have b: "0 \<le> r" "r < 2" "0 \<le> q" "q < 4" "0 \<le> d" "d < 2" by (simp_all add: r_def q_def d_def)
  have "header_byte typ dup qos retain = word_of_int (r + 2 * q + 8 * d + 16 * typ)"
    using assms by (simp add: header_byte_def r_def q_def d_def)
  moreover have "0 \<le> r + 2 * q + 8 * d + 16 * typ" "r + 2 * q + 8 * d + 16 * typ < 256" using assms b by linarith+
  ultimately have u: "uint (header_byte typ dup qos retain) = r + 2 * q + 8 * d + 16 * typ"
    by (simp only: uint_word_of_int) simp
  show "header_type (header_byte typ dup qos retain) = typ" "header_qos (header_byte typ dup qos retain) = qos mod 4"
    unfolding header_type_def header_qos_def u bit_field_sum[OF b] by (simp_all add: q_def)
qed

text \<open>A packet that was sent is read by the factory as a whole.\<close>

lemma factory_reads:
  assumes "length data < 268435456"
  shows "MQTTPacket_Factory m put eof v ((h # MQTTPacket_encode (length data) @ data) @ rest) =
    bind_res (packet_read m put v h data) (\<lambda>(err, pack). Inr (err, pack, rest))"
  using decode_encode[OF assms, of eof "data @ rest"] by (simp add: MQTTPacket_Factory_def)

section \<open>Properties\<close>

text \<open>A message as the application gives it: no more bytes than its lengths say, and nothing that the encoding cannot hold.\<close>

definition publish_ok :: "Publish \<Rightarrow> int \<Rightarrow> bool" where
  "publish_ok pack qos \<longleftrightarrow>
     length (pub_topic pack) < 65536 \<and> pub_topiclen pack = int (length (pub_topic pack)) \<and>
     pub_payloadlen pack = int (length (pub_payload pack)) \<and>
     (if qos = 0 then pub_msgId pack = 0 else 0 \<le> pub_msgId pack \<and> pub_msgId pack < 65536) \<and>
     (if pub_MQTTVersion pack \<ge> 5 then props_wf (pub_properties pack) else pub_properties pack = MQTTProperties_initializer) \<and>
     int (length (pub_topic pack)) + int (length (pub_payload pack)) + 4 + MQTTProperties_len (Some (pub_properties pack)) < 268435456"

definition publish_data :: "Publish \<Rightarrow> int \<Rightarrow> UCHAR list" where
  "publish_data pack qos =
     writeInt (int (length (pub_topic pack))) @ pub_topic pack @ (if qos > 0 then writeInt (pub_msgId pack) else [])
     @ (if pub_MQTTVersion pack \<ge> 5 then props_bytes (pub_properties pack) else []) @ pub_payload pack"

lemma props_len_nonneg: "props_wf ps \<Longrightarrow> 0 \<le> MQTTProperties_len (Some ps)"
  using props_roundtrip(2)[of ps] by linarith

lemma send_publish_bytes:
  assumes "publish_ok pack qos" "0 \<le> qos" "qos < 4"
  shows "\<exists>put. MQTTPacket_send_publish junk pack dup qos retained =
      Inr (put, header_byte PUBLISH dup qos retained # MQTTPacket_encode (length (publish_data pack qos)) @ publish_data pack qos)"
    "length (publish_data pack qos) < 268435456"
proof -
  let ?v5 = "pub_MQTTVersion pack \<ge> 5" and ?ps = "pub_properties pack" and ?h = "header_byte PUBLISH dup qos retained"
  let ?pb = "if ?v5 then props_bytes ?ps else []"
  let ?buf = "(if qos > 0 then writeInt (pub_msgId pack) else []) @ ?pb"
  have h: "header_type ?h = PUBLISH" "header_qos ?h = qos" using header_fields[of PUBLISH dup qos retained] assms(2,3) by simp_all
  have w: "props_write_v5 (pub_MQTTVersion pack) (Some ?ps) = Inr ?pb"
    using assms(1) props_roundtrip(1)[of ?ps] by (auto simp: props_write_v5_def publish_ok_def)
  have l: "int (length ?pb) = props_len_v5 (pub_MQTTVersion pack) (Some ?ps)"
    using assms(1) props_roundtrip(2)[of ?ps] by (auto simp: props_len_v5_def publish_ok_def)
  have b: "int (length ?buf) = (if qos > 0 then 2 else 0) + props_len_v5 (pub_MQTTVersion pack) (Some ?ps)" using l by simp
  have p: "take (nat (pub_payloadlen pack)) (pub_payload pack) = pub_payload pack" using assms(1) by (simp add: publish_ok_def)
  have m: "\<exists>i p. readInt ?buf 0 = Inr (i, p)" if "qos > 0"
    using that readInt_at[of "[]" "word_of_int (pub_msgId pack sdiv 256)" "word_of_int (pub_msgId pack smod 256)" ?pb] by (simp add: writeInt_def)
  show "\<exists>put. MQTTPacket_send_publish junk pack dup qos retained =
      Inr (put, ?h # MQTTPacket_encode (length (publish_data pack qos)) @ publish_data pack qos)"
  proof (cases "qos > 0 \<or> ?v5")
    case True
    then have "MQTTPacket_send_publish junk pack dup qos retained =
        MQTTPacket_sends ?h [writeInt (int (length (pub_topic pack))), pub_topic pack, ?buf, pub_payload pack]"
      unfolding MQTTPacket_send_publish_def Let_def w p bind_res_Inr fill_exact[OF b] by (simp only: if_True)
    moreover have "\<exists>put. MQTTPacket_sends ?h [writeInt (int (length (pub_topic pack))), pub_topic pack, ?buf, pub_payload pack] =
        Inr (put, ?h # MQTTPacket_encode (length (publish_data pack qos)) @ publish_data pack qos)"
      using m h assms(2) by (auto simp: MQTTPacket_sends_def publish_data_def)
    ultimately show ?thesis by simp
  next
    case False
    then show ?thesis using h assms(2) p by (auto simp: MQTTPacket_send_publish_def MQTTPacket_sends_def publish_data_def Let_def)
  qed
  have "int (length ?pb) \<le> MQTTProperties_len (Some ?ps)"
    using l assms(1) by (auto simp: props_len_v5_def publish_ok_def MQTTProperties_len_def MQTTProperties_initializer_def MQTTPacket_VBIlen_def)
  then have "int (length (publish_data pack qos)) < 268435456"
    using assms(1) by (simp add: publish_data_def publish_ok_def split: if_splits)
  then show "length (publish_data pack qos) < 268435456" by linarith
qed

lemma publish_read:
  assumes "publish_ok pack qos" "0 \<le> qos" "qos < 4"
  shows "MQTTPacket_publish (pub_MQTTVersion pack) (header_byte PUBLISH dup qos retained) (publish_data pack qos) =
    Inr (Some (pack\<lparr>pub_header := header_byte PUBLISH dup qos retained\<rparr>))"
proof -
  let ?t = "pub_topic pack" and ?ps = "pub_properties pack" and ?h = "header_byte PUBLISH dup qos retained"
  define ib where "ib = (if qos > 0 then writeInt (pub_msgId pack) else [])"
  define pb where "pb = (if pub_MQTTVersion pack \<ge> 5 then props_bytes ?ps else [])"
  define d where "d = publish_data pack qos"
  define p1 where "p1 = 2 + length ?t"
  define p2 where "p2 = p1 + length ib"
  have d: "d = writeUTF ?t @ ib @ pb @ pub_payload pack" "d = (writeUTF ?t @ ib) @ pb @ pub_payload pack"
    by (simp_all add: d_def publish_data_def writeUTF_def ib_def pb_def)
  have len: "length (writeUTF ?t) = p1" "length (writeUTF ?t @ ib) = p2" by (simp_all add: writeUTF_def p1_def p2_def)
  have q: "header_qos ?h = qos" using header_fields[of PUBLISH dup qos retained] assms(2,3) by simp
  have t: "readUTFlen d 0 = Inr (Some ?t, p1)"
    using readUTFlen_writeUTF[of ?t "[]" "ib @ pb @ pub_payload pack"] assms(1) by (simp add: d(1) p1_def publish_ok_def)
  have i: "(if header_qos ?h > 0 then read_msgId d p1 else Inr (Some (0, p1))) = Inr (Some (pub_msgId pack, p2))"
  proof (cases "qos > 0")
    case True
    have "readInt (writeUTF ?t @ writeInt (pub_msgId pack) @ pb @ pub_payload pack) (length (writeUTF ?t)) =
        Inr (nat (pub_msgId pack), length (writeUTF ?t) + 2)"
      using assms(1) True by (intro readInt_writeInt) (auto simp: publish_ok_def)
    moreover have "0 \<le> pub_msgId pack" using assms(1) True by (auto simp: publish_ok_def)
    ultimately show ?thesis using True len(1) unfolding q by (simp add: read_msgId_def d(1) ib_def p2_def)
  next
    case False
    then show ?thesis using assms(1,2) q by (simp add: publish_ok_def p2_def ib_def)
  qed
  have r: "read_properties (pub_MQTTVersion pack) MQTTProperties_initializer d p2 = Inr (Some (?ps, p2 + length pb))"
  proof (cases "pub_MQTTVersion pack \<ge> 5")
    case True
    then have "props_wf ?ps" using assms(1) by (simp add: publish_ok_def)
    from props_roundtrip(3)[OF this, of "writeUTF ?t @ ib" "pub_payload pack"] show ?thesis
      using True len(2) d(2) by (simp add: read_properties_def pb_def)
  next
    case False
    then show ?thesis using assms(1) by (simp add: read_properties_def pb_def publish_ok_def)
  qed
  have "drop (p2 + length pb) d = pub_payload pack" "int (length d) - int (p2 + length pb) = int (length (pub_payload pack))"
    using len(2) by (simp_all add: d(2))
  then show ?thesis
    using assms(1) unfolding d_def[symmetric] MQTTPacket_publish_def t bind_res_Inr prod.case option.case bind_opt_def i r
    by (simp add: publish_ok_def)
qed

text \<open>C14: a message that the client publishes, with any quality of service and with or without the properties of version 5, is read by the
  packet factory as the same message, whatever follows it on the line.\<close>

theorem publish_roundtrip:
  assumes "publish_ok pack qos" "0 \<le> qos" "qos \<le> 2"
  shows "\<exists>stored bs. MQTTPacket_send_publish junk pack dup qos retained = Inr (stored, bs) \<and>
    MQTTPacket_Factory m put eof (pub_MQTTVersion pack) (bs @ rest) =
      Inr (if qos = 2 then put else TCPSOCKET_COMPLETE,
           Some (Pk_publish (pack\<lparr>pub_header := header_byte PUBLISH dup qos retained\<rparr>)), rest)"
proof -
  let ?h = "header_byte PUBLISH dup qos retained"
  have q: "qos < 4" using assms(3) by simp
  obtain stored where s: "MQTTPacket_send_publish junk pack dup qos retained =
      Inr (stored, ?h # MQTTPacket_encode (length (publish_data pack qos)) @ publish_data pack qos)"
    using send_publish_bytes(1)[OF assms(1,2) q] by blast
  have h: "header_type ?h = PUBLISH" "header_qos ?h = qos" using header_fields[of PUBLISH dup qos retained] assms(2) q by simp_all
  have "packet_read m put (pub_MQTTVersion pack) ?h (publish_data pack qos) =
      Inr (if qos = 2 then put else TCPSOCKET_COMPLETE, Some (Pk_publish (pack\<lparr>pub_header := ?h\<rparr>)))"
    using h publish_read[OF assms(1,2) q, of dup retained] by (simp add: packet_read_def new_packets_def opt_packet_def Let_def)
  then show ?thesis
    using s factory_reads[OF send_publish_bytes(2)[OF assms(1,2) q], of m put eof "pub_MQTTVersion pack" ?h rest] by simp
qed

definition sample_publish :: Publish where
  "sample_publish = \<lparr>pub_header = 0, pub_topic = [0x76, 0x31], pub_topiclen = 2, pub_msgId = 300, pub_payload = [1, 2, 3],
     pub_payloadlen = 3, pub_MQTTVersion = 5, pub_properties = sample_props\<rparr>"

definition no_ack :: Ack where
  "no_ack = \<lparr>ack_header = 0, ack_msgId = 0, ack_rc = 0, ack_MQTTVersion = 0, ack_properties = MQTTProperties_initializer\<rparr>"

definition zero_mem :: packet_mem where
  "zero_mem = \<lparr>pm_ack = no_ack,
     pm_connack = \<lparr>cna_header = 0, cna_flags = 0, cna_rc = 0, cna_MQTTVersion = 0, cna_properties = MQTTProperties_initializer\<rparr>,
     pm_suback = \<lparr>sub_header = 0, sub_msgId = 0, sub_MQTTVersion = 0, sub_properties = MQTTProperties_initializer, sub_qoss = []\<rparr>,
     pm_unsuback = \<lparr>uns_header = 0, uns_msgId = 0, uns_MQTTVersion = 0, uns_properties = MQTTProperties_initializer,
       uns_reasonCodes = None\<rparr>\<rparr>"

lemma sample_publish_ok: "publish_ok sample_publish 1"
  using sample_props_wf
  by (simp add: publish_ok_def sample_publish_def) (simp add: MQTTProperties_len_def sample_props_def MQTTPacket_VBIlen_def)

theorem publish_roundtrip_witness:
  "\<exists>stored bs. MQTTPacket_send_publish [] sample_publish 0 1 0 = Inr (stored, bs) \<and>
    MQTTPacket_Factory zero_mem 0 TCPSOCKET_INTERRUPTED 5 (bs @ [0xC0]) =
      Inr (TCPSOCKET_COMPLETE, Some (Pk_publish (sample_publish\<lparr>pub_header := 0x32\<rparr>)), [0xC0])"
proof -
  have h: "header_byte PUBLISH 0 1 0 = 0x32" by (simp add: header_byte_def)
  have v: "pub_MQTTVersion sample_publish = 5" by (simp add: sample_publish_def)
  show ?thesis
    using publish_roundtrip[OF sample_publish_ok, of "[]" 0 0 zero_mem 0 TCPSOCKET_INTERRUPTED "[0xC0]"] unfolding h v by simp
qed

text \<open>Fact: the acknowledgements that the client sends for the messages of quality 1 and 2 are read by the factory as packets with their
  message id and with success; a release puts its id in the persistent store before it is sent, the others put nothing.\<close>

theorem ack_roundtrip:
  assumes "typ \<in> {PUBACK, PUBREC, PUBREL, PUBCOMP}" "0 \<le> msgid" "msgid < 65536"
  shows "\<exists>h bs. MQTTPacket_send_ack typ msgid dup = Inr (if typ = PUBREL then Some msgid else None, bs) \<and>
    header_type h = typ \<and>
    MQTTPacket_Factory m put eof MQTTVersion (bs @ rest) =
      Inr (TCPSOCKET_COMPLETE,
           Some (Pk_ack ((pm_ack m)\<lparr>ack_header := h, ack_msgId := msgid, ack_MQTTVersion := MQTTVersion,
             ack_rc := if MQTTVersion \<ge> 5 then 0 else ack_rc (pm_ack m),
             ack_properties := if MQTTVersion \<ge> 5 then MQTTProperties_initializer else ack_properties (pm_ack m)\<rparr>)), rest)"
proof -
  define h where "h = header_byte typ dup (if typ = PUBREL then 1 else 0) 0"
  have "0 \<le> typ" "typ < 16" using assms(1) by auto
  from header_fields(1)[OF this, of dup "if typ = PUBREL then 1 else 0" 0] have ht: "header_type h = typ" by (simp add: h_def)
  have r: "readInt (writeInt msgid) 0 = Inr (nat msgid, 2)"
    using readInt_writeInt[of msgid "[]" "[]"] assms(2,3) by simp
  have l: "length (writeInt msgid) = 2" by (simp add: writeInt_def)
  have "packet_read m put MQTTVersion h (writeInt msgid) =
      Inr (TCPSOCKET_COMPLETE,
           Some (Pk_ack ((pm_ack m)\<lparr>ack_header := h, ack_msgId := msgid, ack_MQTTVersion := MQTTVersion,
             ack_rc := if MQTTVersion \<ge> 5 then 0 else ack_rc (pm_ack m),
             ack_properties := if MQTTVersion \<ge> 5 then MQTTProperties_initializer else ack_properties (pm_ack m)\<rparr>)))"
    using ht assms r l
    by (auto simp: packet_read_def new_packets_def opt_packet_def MQTTPacket_ack_def read_msgId_def bind_opt_def ack_v5_def Let_def)
  then show ?thesis
    using factory_reads[of "writeInt msgid" m put eof MQTTVersion h rest] ht r assms(2) l
    by (intro exI[of _ h] exI[of _ "h # MQTTPacket_encode 2 @ writeInt msgid"])
       (auto simp: MQTTPacket_send_ack_def MQTTPacket_send_def h_def[symmetric])
qed

theorem ack_roundtrip_witness:
  "\<exists>h bs. MQTTPacket_send_ack PUBREL 515 0 = Inr (Some 515, bs) \<and> header_type h = PUBREL \<and>
    MQTTPacket_Factory zero_mem 0 SOCKET_ERROR 4 (bs @ [7]) =
      Inr (TCPSOCKET_COMPLETE, Some (Pk_ack (no_ack\<lparr>ack_header := h, ack_msgId := 515, ack_MQTTVersion := 4\<rparr>)), [7])"
  using ack_roundtrip[of PUBREL 515 0 zero_mem 0 SOCKET_ERROR 4 "[7]"] by (simp add: zero_mem_def no_ack_def)

lemma props_v5:
  assumes "MQTTVersion \<ge> 5 \<longrightarrow> props_wf ps"
  shows "\<exists>bs. props_write_v5 MQTTVersion (Some ps) = Inr bs \<and> int (length bs) = props_len_v5 MQTTVersion (Some ps)"
  using assms props_roundtrip(1,2)[of ps] by (cases "MQTTVersion \<ge> 5") (auto simp: props_write_v5_def props_len_v5_def)

text \<open>C27: for each version of the protocol the client computes the length of its connect packet as exactly the bytes it writes: the
  buffer is never overrun, and no byte of it goes out uninitialised, with a will, a user name and a password or without.\<close>

theorem connect_fills_buffer:
  assumes "MQTTVersion \<in> {MQTTVERSION_3_1, MQTTVERSION_3_1_1, MQTTVERSION_5}"
    and "MQTTVersion \<ge> 5 \<longrightarrow> props_wf cprops" "MQTTVersion \<ge> 5 \<longrightarrow> props_wf wprops"
  shows "\<exists>bs. int (length bs) = connect_len client MQTTVersion (Some cprops) (Some wprops) \<and>
    (\<forall>junk. MQTTPacket_send_connect junk client MQTTVersion (Some cprops) (Some wprops) =
      Inr (Some (None, header_byte CONNECT 0 0 0 # MQTTPacket_encode (length bs) @ bs)))"
proof -
  obtain cp where cp: "props_write_v5 MQTTVersion (Some cprops) = Inr cp" "int (length cp) = props_len_v5 MQTTVersion (Some cprops)"
    using props_v5[OF assms(2)] by blast
  obtain wp where wp: "props_write_v5 MQTTVersion (Some wprops) = Inr wp" "int (length wp) = props_len_v5 MQTTVersion (Some wprops)"
    using props_v5[OF assms(3)] by blast
  obtain protocol where pr: "connect_protocol MQTTVersion = Some protocol"
    "int (length protocol) = (if MQTTVersion = MQTTVERSION_3_1 then 9 else 7)"
    using assms(1) by (auto simp: connect_protocol_def writeUTF_def writeInt_def)
  define w where "w = (if cn_will client = None then [] else wp)"
  define bs where "bs = protocol @ [connect_flags client MQTTVersion] @ writeInt (cn_keepAliveInterval client) @ cp
     @ writeUTF (cn_clientID client) @ connect_will client w
     @ (case cn_username client of None \<Rightarrow> [] | Some u \<Rightarrow> writeUTF u)
     @ (case cn_password client of None \<Rightarrow> [] | Some p \<Rightarrow> writeData p)"
  have l: "int (length bs) = connect_len client MQTTVersion (Some cprops) (Some wprops)"
    using pr(2) cp(2) wp(2)
    by (auto simp: bs_def w_def connect_len_def connect_will_def writeUTF_def writeData_def writeInt_def split: option.splits)
  have wr: "(if cn_will client = None then Inr [] else props_write_v5 MQTTVersion (Some wprops)) = (Inr w :: UCHAR list res)"
    by (simp add: w_def wp(1))
  have h: "header_type (header_byte CONNECT 0 0 0) = CONNECT" using header_fields(1)[of CONNECT 0 0 0] by simp
  have "MQTTPacket_send_connect junk client MQTTVersion (Some cprops) (Some wprops) =
      Inr (Some (None, header_byte CONNECT 0 0 0 # MQTTPacket_encode (length bs) @ bs))" for junk
    unfolding MQTTPacket_send_connect_def pr(1) option.case cp(1) bind_res_Inr wr bs_def[symmetric] fill_exact[OF l]
    by (simp add: MQTTPacket_send_def h)
  with l show ?thesis by blast
qed

definition sample_client :: Clients where
  "sample_client = \<lparr>cn_clientID = [0x61, 0x62], cn_will = Some \<lparr>wl_topic = [0x74], wl_payload = [1, 2], wl_qos = 1, wl_retained = 0\<rparr>,
     cn_username = Some [0x75], cn_password = Some [0x70, 0x71], cn_keepAliveInterval = 20, cn_cleansession = 0, cn_cleanstart = 1,
     cn_MQTTVersion = 5\<rparr>"

theorem connect_fills_buffer_witness:
  "\<exists>bs. length bs = 54 \<and> MQTTPacket_send_connect [] sample_client 5 (Some sample_props) (Some sample_props) =
    Inr (Some (None, header_byte CONNECT 0 0 0 # MQTTPacket_encode 54 @ bs))"
proof -
  have "connect_len sample_client 5 (Some sample_props) (Some sample_props) = 54"
    by (simp add: connect_len_def sample_client_def props_len_v5_def MQTTProperties_len_def sample_props_def MQTTPacket_VBIlen_def)
  then show ?thesis
    using connect_fills_buffer[of 5 sample_props sample_props sample_client] sample_props_wf by auto
qed

text \<open>A publish packet with an empty topic and the length of its properties in five bytes, of which the last is missing.\<close>

definition long_length_packet :: "UCHAR list" where "long_length_packet = [0, 0, 0x80, 0x80, 0x80, 0x80]"

lemma long_length_read:
  "readChar long_length_packet p = (if p < 6 then Inr (if p < 2 then 0 else 0x80, p + 1) else Inl Out_of_bounds_read)"
  by (auto simp: readChar_def long_length_packet_def less_Suc_eq numeral_eq_Suc)

lemma long_length_topic: "readUTFlen long_length_packet 0 = Inr (Some [], 2)"
 by (simp add: readUTFlen_def readInt_def long_length_read Let_def long_length_packet_def readChar_def)

lemma long_length_decoded: "MQTTPacket_decodeBuf long_length_packet 2 = Inr (5, 0)"
proof -
  have four: "MAX_NO_OF_REMAINING_LENGTH_BYTES = Suc (Suc (Suc (Suc 0)))" by (simp add: MAX_NO_OF_REMAINING_LENGTH_BYTES_def)
  have a: "(0x80 AND 127 :: UCHAR) = 0" "(0x80 AND 128 :: UCHAR) = 128" by simp_all
  show ?thesis unfolding MQTTPacket_decodeBuf_def four vbi_loop.simps long_length_read by (simp add: Let_def a)
qed

lemma long_length_properties: "MQTTProperties_read long_length_packet 2 = Inr (1, \<lparr>prs_length = 0, prs_array = []\<rparr>, 7)"
 unfolding MQTTProperties_read_def long_length_decoded by (simp add: long_length_packet_def read_loop.simps)

text \<open>Fact: a length of the properties that is coded in five bytes makes the reader of a publish packet take one byte more than it looked at:
  on this packet of six bytes, the length of the payload comes out as -1.\<close>

theorem publish_negative_payload:
  "(case MQTTPacket_publish MQTTVERSION_5 0x30 long_length_packet of Inr (Some pack) \<Rightarrow> pub_payloadlen pack | _ \<Rightarrow> 0) = -1"
proof -
  have q: "header_qos 0x30 = 0" by (simp add: header_qos_def)
  show ?thesis by (simp add: MQTTPacket_publish_def long_length_topic q bind_opt_def read_properties_def long_length_properties) (simp add: long_length_packet_def)
qed

end
