(* ===== verification/MqttProtocol.thy ===== *)
theory MqttProtocol
  imports MqttPacket
begin

text \<open>
  The message exchanges of the MQTT client library, \<open>MQTTProtocolClient.c\<close> of \<open>component/paho.mqtt.c-1.3.9\<close>, with what it calls in
  \<open>MQTTClient.c\<close> and \<open>MQTTProtocolOut.c\<close>: message ids, the stored publications with their reference counts, the handlers of the
  incoming packets of the three qualities of service, keep-alive, retries and the end of a session. The stored publications live on a heap;
  the lists of messages refer to them. A handler works on the shared state \<open>g\<close> and its client \<open>c\<close>; what the socket, the
  persistent store and the clock answer is an argument, and what is sent is noted in a list of events. Memory never runs out.
\<close>

section \<open>State\<close>

abbreviation (input) "MAX_MSG_ID \<equiv> (65535 :: int)"
abbreviation (input) "NOT_IN_PROGRESS \<equiv> (0 :: int)"
abbreviation (input) "MQTT_DISCONNECTING \<equiv> (-2 :: int)"
abbreviation (input) "MQTTREASONCODE_UNSPECIFIED_ERROR \<equiv> (128 :: int)"

record Publications =
  pb_topic :: "UCHAR list"
  pb_topiclen :: int
  pb_payload :: "UCHAR list"
  pb_payloadlen :: int
  pb_refcount :: int

record Messages =
  ms_qos :: int
  ms_retain :: int
  ms_msgid :: int
  ms_MQTTVersion :: int
  ms_properties :: MQTTProperties
  ms_publish :: "nat option"
  ms_lastTouch :: int
  ms_nextMessageType :: int

record qEntry =
  qe_topicName :: "UCHAR list"
  qe_topicLen :: int
  qe_payload :: "UCHAR list"
  qe_payloadlen :: int
  qe_qos :: int
  qe_retained :: int
  qe_dup :: int
  qe_msgid :: int
  qe_properties :: MQTTProperties

text \<open>The client with the fields that no packet reads.\<close>

record client = Clients +
  ct_connected :: int
  ct_good :: int
  ct_ping_outstanding :: int
  ct_ping_due :: int
  ct_ping_due_time :: int
  ct_connect_state :: int
  ct_socket :: int
  ct_lastSent :: int
  ct_lastReceived :: int
  ct_lastPing :: int
  ct_msgID :: int
  ct_retryInterval :: int
  ct_maxInflightMessages :: int
  ct_inboundMsgs :: "Messages list"
  ct_outboundMsgs :: "Messages list"
  ct_messageQueue :: "qEntry list"

text \<open>A packet with the id stored with it, the removal of a message from the persistent store, the end of all that is stored
  for a client, a socket that is closed, the request to stop the background thread, and the report of a lost connection to
  an application that asked for it.\<close>

datatype event = Ev_sent sent | Ev_removed int int | Ev_cleared | Ev_closed int | Ev_stop | Ev_lost

record protocol =
  mp_heap :: "nat \<Rightarrow> Publications option"
  mp_publications :: "nat list"
  mp_next :: nat
  mp_pending_writes :: "(int \<times> nat) list"
  mp_msgs_sent :: int
  mp_msgs_received :: int
  mp_events :: "event list"

text \<open>One call's answers: whether the socket has no writes pending, what sending a packet and a last disconnect answers, what
  removing from the store answers, the time, and what newly allocated memory holds.\<close>

record net_os =
  os_noPendingWrites :: bool
  os_send :: int
  os_disconnect :: int
  os_remove :: int
  os_now :: int
  os_mem :: Messages

definition header_retain :: "UCHAR \<Rightarrow> int" where "header_retain b = uint b mod 2"

definition header_dup :: "UCHAR \<Rightarrow> int" where "header_dup b = uint b div 8 mod 2"

definition emit :: "event \<Rightarrow> protocol \<Rightarrow> protocol" where
  "emit e g = g\<lparr>mp_events := mp_events g @ [e]\<rparr>"

section \<open>Message ids\<close>

definition messageIDCompare :: "Messages \<Rightarrow> int \<Rightarrow> bool" where "messageIDCompare m i = (ms_msgid m = i)"

text \<open>The message that \<open>ListFindItem\<close> finds. The element it tries first, the current one, is the same when ids are distinct.\<close>

definition find_msg :: "int \<Rightarrow> Messages list \<Rightarrow> Messages option" where
  "find_msg i ms = List.find (\<lambda>m. messageIDCompare m i) ms"

definition next_msgid :: "int \<Rightarrow> int" where "next_msgid i = (if i = MAX_MSG_ID then 1 else i + 1)"

text \<open>The search for an id that no outbound message has; it may run for ever.\<close>

partial_function (option) assign_loop :: "int \<Rightarrow> Messages list \<Rightarrow> int \<Rightarrow> int option" where
  "assign_loop start ms msgid =
     (if find_msg msgid ms = None then Some msgid
      else if next_msgid msgid = start then Some 0
      else assign_loop start ms (next_msgid msgid))"

definition MQTTProtocol_assignMsgId :: "client \<Rightarrow> (int \<times> client) option" where
  "MQTTProtocol_assignMsgId c =
     (case assign_loop (ct_msgID c) (ct_outboundMsgs c) (next_msgid (ct_msgID c)) of
        None \<Rightarrow> None
      | Some msgid \<Rightarrow> Some (msgid, if msgid \<noteq> 0 then c\<lparr>ct_msgID := msgid\<rparr> else c))"

section \<open>Stored publications\<close>

definition MQTTProtocol_storePublication :: "Publish \<Rightarrow> protocol \<Rightarrow> nat \<times> protocol" where
  "MQTTProtocol_storePublication p g =
     (let r = mp_next g
      in (r, g\<lparr>mp_heap := (mp_heap g)(r \<mapsto> \<lparr>pb_topic = pub_topic p, pb_topiclen = pub_topiclen p, pb_payload = pub_payload p,
                                     pb_payloadlen = pub_payloadlen p, pb_refcount = 1\<rparr>),
               mp_publications := mp_publications g @ [r], mp_next := r + 1\<rparr>))"

text \<open>\<open>ListRemove\<close> on the list of publications, which frees the structure it finds.\<close>

definition publications_remove :: "nat \<Rightarrow> protocol \<Rightarrow> protocol" where
  "publications_remove r g =
     (if r \<in> set (mp_publications g)
      then g\<lparr>mp_publications := remove1 r (mp_publications g), mp_heap := (mp_heap g)(r := None)\<rparr> else g)"

definition MQTTProtocol_removePublication :: "nat option \<Rightarrow> protocol \<Rightarrow> protocol res" where
  "MQTTProtocol_removePublication p g =
     (case p of
        None \<Rightarrow> Inr g
      | Some r \<Rightarrow>
          (case mp_heap g r of
             None \<Rightarrow> Inl Use_after_free
           | Some pb \<Rightarrow>
               Inr (if pb_refcount pb - 1 = 0 then publications_remove r g
                    else g\<lparr>mp_heap := (mp_heap g)(r \<mapsto> pb\<lparr>pb_refcount := pb_refcount pb - 1\<rparr>)\<rparr>)))"

fun remove_publications :: "Messages list \<Rightarrow> protocol \<Rightarrow> protocol res" where
  "remove_publications [] g = Inr g"
| "remove_publications (m # ms) g = bind_res (MQTTProtocol_removePublication (ms_publish m) g) (remove_publications ms)"

definition MQTTProtocol_emptyMessageList :: "Messages list \<Rightarrow> protocol \<Rightarrow> (Messages list \<times> protocol) res" where
  "MQTTProtocol_emptyMessageList ms g = bind_res (remove_publications ms g) (\<lambda>g'. Inr ([], g'))"

text \<open>The lists, the queue and the strings of the client are gone afterwards.\<close>

definition MQTTProtocol_freeClient :: "client \<Rightarrow> protocol \<Rightarrow> protocol res" where
  "MQTTProtocol_freeClient c g =
     bind_res (MQTTProtocol_emptyMessageList (ct_outboundMsgs c) g) (\<lambda>(_, g1).
     bind_res (MQTTProtocol_emptyMessageList (ct_inboundMsgs c) g1) (\<lambda>(_, g2). Inr g2))"

section \<open>Sending\<close>

definition putdatas :: "net_os \<Rightarrow> sent res \<Rightarrow> protocol \<Rightarrow> client \<Rightarrow> (int \<times> protocol \<times> client) res" where
  "putdatas os s g c =
     bind_res s (\<lambda>x. Inr (os_send os, emit (Ev_sent x) g,
       if os_send os = TCPSOCKET_COMPLETE then c\<lparr>ct_lastSent := os_now os\<rparr> else c))"

text \<open>The publication is kept until the rest of it is written.\<close>

definition MQTTProtocol_storeQoS0 :: "Publish \<Rightarrow> protocol \<Rightarrow> client \<Rightarrow> protocol" where
  "MQTTProtocol_storeQoS0 p g c =
     (let (r, g1) = MQTTProtocol_storePublication p g
      in g1\<lparr>mp_pending_writes := mp_pending_writes g1 @ [(ct_socket c, r)]\<rparr>)"

definition MQTTProtocol_startPublishCommon ::
  "net_os \<Rightarrow> Publish \<Rightarrow> int \<Rightarrow> int \<Rightarrow> protocol \<Rightarrow> client \<Rightarrow> (int \<times> protocol \<times> client) res" where
  "MQTTProtocol_startPublishCommon os p qos retained g c =
     bind_res (putdatas os (MQTTPacket_send_publish [] p 0 qos retained) g c) (\<lambda>(rc, g1, c1).
       Inr (rc, if qos = 0 \<and> rc = TCPSOCKET_INTERRUPTED then MQTTProtocol_storeQoS0 p g1 c1 else g1, c1))"

text \<open>The properties of a message are a copy with version 5; before, they keep what the memory held.\<close>

definition message_properties :: "Publish \<Rightarrow> MQTTProperties \<Rightarrow> MQTTProperties res" where
  "message_properties p old = (if pub_MQTTVersion p \<ge> 5 then MQTTProperties_copy (pub_properties p) else Inr old)"

text \<open>For a new message, the pointer that is passed in is null.\<close>

definition MQTTProtocol_createMessage :: "net_os \<Rightarrow> Publish \<Rightarrow> int \<Rightarrow> int \<Rightarrow> protocol \<Rightarrow> (Messages \<times> protocol) res" where
  "MQTTProtocol_createMessage os p qos retained g =
     (let (r, g1) = MQTTProtocol_storePublication p g; m = os_mem os
      in bind_res (message_properties p (ms_properties m)) (\<lambda>props.
           Inr (m\<lparr>ms_publish := Some r, ms_msgid := pub_msgId p, ms_qos := qos, ms_retain := retained,
                  ms_MQTTVersion := pub_MQTTVersion p, ms_properties := props,
                  ms_lastTouch := os_now os, ms_nextMessageType := if qos = 2 then PUBREC else ms_nextMessageType m\<rparr>, g1)))"

definition MQTTProtocol_startPublish ::
  "net_os \<Rightarrow> Publish \<Rightarrow> int \<Rightarrow> int \<Rightarrow> protocol \<Rightarrow> client \<Rightarrow> (int \<times> protocol \<times> client) res" where
  "MQTTProtocol_startPublish os p qos retained g c =
     (if qos > 0
      then bind_res (MQTTProtocol_createMessage os p qos retained g) (\<lambda>(m, g1).
             MQTTProtocol_startPublishCommon os (p\<lparr>pub_properties := ms_properties m, pub_MQTTVersion := ms_MQTTVersion m\<rparr>)
               qos retained g1 (c\<lparr>ct_outboundMsgs := ct_outboundMsgs c @ [m]\<rparr>))
      else MQTTProtocol_startPublishCommon os p qos retained g c)"

section \<open>Incoming packets\<close>

text \<open>The message goes to the queue of the application. A copy of a payload with a negative length fails for lack of memory.\<close>

definition Protocol_processPublication :: "Publish \<Rightarrow> client \<Rightarrow> bool \<Rightarrow> client res" where
  "Protocol_processPublication p c allocatePayload =
     (if allocatePayload \<and> pub_payloadlen p < 0 then Inr c
      else bind_res (message_properties p MQTTProperties_initializer) (\<lambda>props.
       Inr (c\<lparr>ct_messageQueue := ct_messageQueue c @
         [\<lparr>qe_topicName = pub_topic p, qe_topicLen = pub_topiclen p, qe_payload = take (nat (pub_payloadlen p)) (pub_payload p),
           qe_payloadlen = pub_payloadlen p, qe_qos = header_qos (pub_header p), qe_retained = header_retain (pub_header p),
           qe_dup = if header_qos (pub_header p) = 2 then 0 else header_dup (pub_header p), qe_msgid = pub_msgId p,
           qe_properties = props\<rparr>]\<rparr>)))"

fun replace_msg :: "int \<Rightarrow> Messages \<Rightarrow> Messages list \<Rightarrow> Messages list" where
  "replace_msg i m [] = []"
| "replace_msg i m (x # xs) = (if messageIDCompare x i then m # xs else x # replace_msg i m xs)"

fun remove_msg :: "int \<Rightarrow> Messages list \<Rightarrow> Messages list" where
  "remove_msg i [] = []"
| "remove_msg i (x # xs) = (if messageIDCompare x i then xs else x # remove_msg i xs)"

text \<open>What a message holds, as a packet for the application.\<close>

definition message_publish :: "Messages \<Rightarrow> Publications \<Rightarrow> Publish" where
  "message_publish m pb =
     \<lparr>pub_header = header_byte 0 0 (ms_qos m) (ms_retain m), pub_topic = pb_topic pb, pub_topiclen = pb_topiclen pb,
      pub_msgId = ms_msgid m, pub_payload = pb_payload pb, pub_payloadlen = pb_payloadlen pb,
      pub_MQTTVersion = ms_MQTTVersion m, pub_properties = ms_properties m\<rparr>"

definition inbound_message :: "net_os \<Rightarrow> nat \<Rightarrow> Publish \<Rightarrow> Messages res" where
  "inbound_message os r p =
     (let m = os_mem os
      in bind_res (message_properties p (ms_properties m)) (\<lambda>props.
           Inr (m\<lparr>ms_publish := Some r, ms_msgid := pub_msgId p, ms_qos := header_qos (pub_header p),
                  ms_retain := header_retain (pub_header p), ms_MQTTVersion := pub_MQTTVersion p, ms_properties := props,
                  ms_nextMessageType := PUBREL\<rparr>)))"

text \<open>
  Quality 2: the message is kept until it is released. One with the same id takes its place. With version 5 the application gets a
  message that is new at once, and its publication is not kept; before, when it is released.
\<close>

definition deliver_now :: "int \<Rightarrow> nat \<Rightarrow> Messages \<Rightarrow> protocol \<Rightarrow> client \<Rightarrow> (int \<times> protocol \<times> client) res" where
  "deliver_now rc r m g c =
     (case mp_heap g r of
        None \<Rightarrow> Inl Use_after_free
      | Some pb \<Rightarrow>
          bind_res (Protocol_processPublication (message_publish m pb) c True) (\<lambda>c1.
            Inr (rc, publications_remove r g,
                 c1\<lparr>ct_inboundMsgs := replace_msg (ms_msgid m) (m\<lparr>ms_publish := None\<rparr>) (ct_inboundMsgs c1)\<rparr>)))"

abbreviation (input) "PAHO_MEMORY_ERROR \<equiv> (-99 :: int)"

definition kept_rc :: "Publish \<Rightarrow> int \<Rightarrow> int" where
  "kept_rc p rc = (if pub_payloadlen p < 0 then PAHO_MEMORY_ERROR else rc)"

definition handle_qos2 :: "net_os \<Rightarrow> Publish \<Rightarrow> protocol \<Rightarrow> client \<Rightarrow> (int \<times> protocol \<times> client) res" where
  "handle_qos2 os p g c =
     (let (r, g1) = MQTTProtocol_storePublication p g
      in bind_res (inbound_message os r p) (\<lambda>m.
         case find_msg (ms_msgid m) (ct_inboundMsgs c) of
           Some old \<Rightarrow>
             bind_res (MQTTProtocol_removePublication (ms_publish old) g1) (\<lambda>g2.
             bind_res (putdatas os (MQTTPacket_send_pubrec (pub_msgId p)) g2
                 (c\<lparr>ct_inboundMsgs := replace_msg (ms_msgid m) m (ct_inboundMsgs c)\<rparr>)) (\<lambda>(rc, g3, c3). Inr (kept_rc p rc, g3, c3)))
         | None \<Rightarrow>
             bind_res (putdatas os (MQTTPacket_send_pubrec (pub_msgId p)) g1 (c\<lparr>ct_inboundMsgs := ct_inboundMsgs c @ [m]\<rparr>)) (\<lambda>(rc, g2, c2).
               if ms_MQTTVersion m \<ge> MQTTVERSION_5 then deliver_now rc r m g2 c2 else Inr (kept_rc p rc, g2, c2))))"

text \<open>A message of quality 1 is acknowledged before it is delivered.\<close>

definition MQTTProtocol_handlePublishes :: "net_os \<Rightarrow> Publish \<Rightarrow> protocol \<Rightarrow> client \<Rightarrow> (int \<times> protocol \<times> client) res" where
  "MQTTProtocol_handlePublishes os p g c =
     (let qos = header_qos (pub_header p)
      in if qos = 0 then bind_res (Protocol_processPublication p c True) (\<lambda>c1. Inr (TCPSOCKET_COMPLETE, g, c1))
         else if \<not> os_noPendingWrites os then Inr (SOCKET_ERROR, g, c)
         else if qos = 1
         then bind_res (putdatas os (MQTTPacket_send_puback (pub_msgId p)) g c) (\<lambda>(rc, g1, c1).
              bind_res (Protocol_processPublication p c1 True) (\<lambda>c2. Inr (rc, g1, c2)))
         else if qos = 2 then handle_qos2 os p g c
         else Inr (TCPSOCKET_COMPLETE, g, c))"

abbreviation (input) "PERSISTENCE_SENT \<equiv> (0 :: int)"
abbreviation (input) "PERSISTENCE_RECEIVED \<equiv> (1 :: int)"

text \<open>An outbound message is done: it leaves the store, the publications and the list.\<close>

definition outbound_done :: "net_os \<Rightarrow> Messages \<Rightarrow> protocol \<Rightarrow> client \<Rightarrow> (int \<times> protocol \<times> client) res" where
  "outbound_done os m g c =
     bind_res (MQTTProtocol_removePublication (ms_publish m) (emit (Ev_removed PERSISTENCE_SENT (ms_msgid m)) g)) (\<lambda>g1.
       Inr (os_remove os, g1, c\<lparr>ct_outboundMsgs := remove_msg (ms_msgid m) (ct_outboundMsgs c)\<rparr>))"

definition MQTTProtocol_handlePubacks :: "net_os \<Rightarrow> Ack \<Rightarrow> protocol \<Rightarrow> client \<Rightarrow> (int \<times> protocol \<times> client) res" where
  "MQTTProtocol_handlePubacks os puback g c =
     (case find_msg (ack_msgId puback) (ct_outboundMsgs c) of
        None \<Rightarrow> Inr (TCPSOCKET_COMPLETE, g, c)
      | Some m \<Rightarrow> if ms_qos m \<noteq> 1 then Inr (TCPSOCKET_COMPLETE, g, c) else outbound_done os m g c)"

definition count_sent :: "int \<times> protocol \<times> client \<Rightarrow> (int \<times> protocol \<times> client) res" where
  "count_sent = (\<lambda>(rc, g, c). Inr (rc, g\<lparr>mp_msgs_sent := mp_msgs_sent g + 1\<rparr>, c))"

definition MQTTProtocol_handlePubrecs :: "net_os \<Rightarrow> Ack \<Rightarrow> protocol \<Rightarrow> client \<Rightarrow> (int \<times> protocol \<times> client) res" where
  "MQTTProtocol_handlePubrecs os pubrec g c =
     (case find_msg (ack_msgId pubrec) (ct_outboundMsgs c) of
        None \<Rightarrow> Inr (TCPSOCKET_COMPLETE, g, c)
      | Some m \<Rightarrow>
          if ms_qos m \<noteq> 2 \<or> ms_nextMessageType m \<noteq> PUBREC then Inr (TCPSOCKET_COMPLETE, g, c)
          else if ack_MQTTVersion pubrec \<ge> MQTTVERSION_5 \<and> ack_rc pubrec \<ge> MQTTREASONCODE_UNSPECIFIED_ERROR
          then bind_res (outbound_done os m g c) count_sent
          else bind_res (putdatas os (MQTTPacket_send_pubrel (ack_msgId pubrec) 0) g c) (\<lambda>(rc, g1, c1).
                 Inr (rc, g1, c1\<lparr>ct_outboundMsgs := replace_msg (ms_msgid m)
                   (m\<lparr>ms_nextMessageType := PUBCOMP, ms_lastTouch := os_now os\<rparr>) (ct_outboundMsgs c1)\<rparr>)))"

definition MQTTProtocol_handlePubcomps :: "net_os \<Rightarrow> Ack \<Rightarrow> protocol \<Rightarrow> client \<Rightarrow> (int \<times> protocol \<times> client) res" where
  "MQTTProtocol_handlePubcomps os pubcomp g c =
     (case find_msg (ack_msgId pubcomp) (ct_outboundMsgs c) of
        None \<Rightarrow> Inr (TCPSOCKET_COMPLETE, g, c)
      | Some m \<Rightarrow>
          if ms_qos m \<noteq> 2 \<or> ms_nextMessageType m \<noteq> PUBCOMP then Inr (TCPSOCKET_COMPLETE, g, c)
          else bind_res (outbound_done os m g c) count_sent)"

text \<open>The message for the application, when it still has to get it; without a publication, its topic is a null pointer.\<close>

definition deliver_released :: "Messages \<Rightarrow> protocol \<Rightarrow> client \<Rightarrow> client res" where
  "deliver_released m g c =
     (case ms_publish m of
        None \<Rightarrow> if ms_MQTTVersion m \<ge> MQTTVERSION_5 then Inr c else Inl Null_deref
      | Some r \<Rightarrow>
          (case mp_heap g r of
             None \<Rightarrow> Inl Use_after_free
           | Some pb \<Rightarrow> if ms_MQTTVersion m \<ge> MQTTVERSION_5 then Inr c else Protocol_processPublication (message_publish m pb) c False))"

definition MQTTProtocol_handlePubrels :: "net_os \<Rightarrow> Ack \<Rightarrow> protocol \<Rightarrow> client \<Rightarrow> (int \<times> protocol \<times> client) res" where
  "MQTTProtocol_handlePubrels os pubrel g c =
     (case find_msg (ack_msgId pubrel) (ct_inboundMsgs c) of
        None \<Rightarrow>
          if header_dup (ack_header pubrel) = 0 then Inr (TCPSOCKET_COMPLETE, g, c)
          else if \<not> os_noPendingWrites os then Inr (SOCKET_ERROR, g, c)
          else putdatas os (MQTTPacket_send_pubcomp (ack_msgId pubrel)) g c
      | Some m \<Rightarrow>
          if ms_qos m \<noteq> 2 \<or> ms_nextMessageType m \<noteq> PUBREL then Inr (TCPSOCKET_COMPLETE, g, c)
          else if \<not> os_noPendingWrites os then Inr (SOCKET_ERROR, g, c)
          else bind_res (putdatas os (MQTTPacket_send_pubcomp (ack_msgId pubrel)) g c) (\<lambda>(rc, g1, c1).
               bind_res (deliver_released m g1 c1) (\<lambda>c2.
                 let g2 = emit (Ev_removed PERSISTENCE_RECEIVED (ack_msgId pubrel)) g1;
                     g3 = (case ms_publish m of None \<Rightarrow> g2 | Some r \<Rightarrow> publications_remove r g2)
                 in Inr (rc + os_remove os, g3\<lparr>mp_msgs_received := mp_msgs_received g3 + 1\<rparr>,
                         c2\<lparr>ct_inboundMsgs := remove_msg (ms_msgid m) (ct_inboundMsgs c2)\<rparr>))))"

definition MQTTProtocol_handlePingresps :: "client \<Rightarrow> client" where
  "MQTTProtocol_handlePingresps c = c\<lparr>ct_ping_outstanding := 0\<rparr>"

section \<open>The end of a session\<close>

definition MQTTClient_cleanSession :: "protocol \<Rightarrow> client \<Rightarrow> (protocol \<times> client) res" where
  "MQTTClient_cleanSession g c =
     bind_res (MQTTProtocol_emptyMessageList (ct_inboundMsgs c) (emit Ev_cleared g)) (\<lambda>(ins, g1).
     bind_res (MQTTProtocol_emptyMessageList (ct_outboundMsgs c) g1) (\<lambda>(outs, g2).
       Inr (g2, c\<lparr>ct_inboundMsgs := ins, ct_outboundMsgs := outs, ct_messageQueue := [], ct_msgID := 0\<rparr>)))"

definition MQTTClient_closeSession :: "net_os \<Rightarrow> int \<Rightarrow> MQTTProperties option \<Rightarrow> protocol \<Rightarrow> client \<Rightarrow> (protocol \<times> client) res" where
  "MQTTClient_closeSession os reason props g c =
     (let c0 = c\<lparr>ct_good := 0, ct_ping_outstanding := 0, ct_ping_due := 0\<rparr>
      in bind_res
           (if ct_socket c0 > 0
            then bind_res
                   (if ct_connected c0 \<noteq> 0
                    then bind_res (putdatas (os\<lparr>os_send := os_disconnect os\<rparr>)
                           (MQTTPacket_send_disconnect [] (cn_MQTTVersion c0) reason props) g c0) (\<lambda>(_, g1, c1). Inr (g1, c1))
                    else Inr (g, c0)) (\<lambda>(g1, c1).
                 Inr (emit (Ev_closed (ct_socket c1)) g1, c1\<lparr>ct_socket := 0\<rparr>))
            else Inr (g, c0)) (\<lambda>(g1, c1).
         let c2 = c1\<lparr>ct_connected := 0, ct_connect_state := NOT_IN_PROGRESS\<rparr>
         in if cn_MQTTVersion c2 < MQTTVERSION_5 \<and> cn_cleansession c2 \<noteq> 0 then MQTTClient_cleanSession g1 c2 else Inr (g1, c2)))"

text \<open>The way a session ends by itself: no time is left for messages in flight, and the application is told.\<close>

definition MQTTProtocol_closeSession :: "net_os \<Rightarrow> protocol \<Rightarrow> client \<Rightarrow> (protocol \<times> client) res" where
  "MQTTProtocol_closeSession os g c =
     (let was_connected = ct_connected c;
          c1 = (if ct_connected c \<noteq> 0 then c\<lparr>ct_connect_state := MQTT_DISCONNECTING\<rparr> else c)
      in bind_res (MQTTClient_closeSession os 0 None g c1) (\<lambda>(g2, c2).
           Inr (if was_connected \<noteq> 0 then emit Ev_lost (emit Ev_stop g2) else emit Ev_stop g2, c2)))"

section \<open>Keep-alive and retries\<close>

definition keepalive_client :: "net_os \<Rightarrow> int \<Rightarrow> protocol \<Rightarrow> client \<Rightarrow> (protocol \<times> client) res" where
  "keepalive_client os now g c =
     (let interval = cn_keepAliveInterval c * 1000
      in if ct_connected c = 0 \<or> cn_keepAliveInterval c = 0 then Inr (g, c)
         else if ct_ping_outstanding c = 1
         then if now - ct_lastPing c \<ge> interval then MQTTProtocol_closeSession os g c else Inr (g, c)
         else if ct_ping_due c = 1 \<and> now - ct_ping_due_time c \<ge> interval then MQTTProtocol_closeSession os g c
         else if now - ct_lastSent c \<ge> interval \<or> now - ct_lastReceived c \<ge> interval
         then if os_noPendingWrites os
              then bind_res (putdatas os MQTTPacket_send_pingreq g c) (\<lambda>(rc, g1, c1).
                     if rc \<noteq> TCPSOCKET_COMPLETE then MQTTProtocol_closeSession os g1 c1
                     else Inr (g1, c1\<lparr>ct_ping_due := 0, ct_lastPing := now, ct_ping_outstanding := 1\<rparr>))
              else if ct_ping_due c = 0 then Inr (g, c\<lparr>ct_ping_due := 1, ct_ping_due_time := now\<rparr>)
              else Inr (g, c)
         else Inr (g, c))"

text \<open>One client after the other, \<open>os i\<close> the answers for the client with number \<open>i\<close>.\<close>

fun each_client :: "(nat \<Rightarrow> protocol \<Rightarrow> client \<Rightarrow> (protocol \<times> client) res) \<Rightarrow> nat \<Rightarrow> protocol \<Rightarrow> client list \<Rightarrow> (protocol \<times> client list) res" where
  "each_client f i g [] = Inr (g, [])"
| "each_client f i g (c # cs) =
     bind_res (f i g c) (\<lambda>(g1, c1). bind_res (each_client f (Suc i) g1 cs) (\<lambda>(g2, cs2). Inr (g2, c1 # cs2)))"

definition MQTTProtocol_keepalive :: "(nat \<Rightarrow> net_os) \<Rightarrow> int \<Rightarrow> protocol \<Rightarrow> client list \<Rightarrow> (protocol \<times> client list) res" where
  "MQTTProtocol_keepalive os now g cs = each_client (\<lambda>i. keepalive_client (os i) now) 0 g cs"

text \<open>The packet that starts a retry: the message again, marked as a duplicate, with the length of its topic unset.\<close>

definition retry_publish :: "Messages \<Rightarrow> Publications \<Rightarrow> Publish" where
  "retry_publish m pb =
     \<lparr>pub_header = 0, pub_topic = pb_topic pb, pub_topiclen = 0, pub_msgId = ms_msgid m, pub_payload = pb_payload pb,
      pub_payloadlen = pb_payloadlen pb, pub_MQTTVersion = ms_MQTTVersion m, pub_properties = ms_properties m\<rparr>"

text \<open>One message: the result says whether the session was closed; then the loop ends.\<close>

definition retry_message :: "net_os \<Rightarrow> Messages \<Rightarrow> protocol \<Rightarrow> client \<Rightarrow> (bool \<times> Messages \<times> protocol \<times> client) res" where
  "retry_message os m g c =
     (if ms_qos m = 1 \<or> (ms_qos m = 2 \<and> ms_nextMessageType m = PUBREC)
      then case ms_publish m of
             None \<Rightarrow> Inl Null_deref
           | Some r \<Rightarrow>
               (case mp_heap g r of
                  None \<Rightarrow> Inl Use_after_free
                | Some pb \<Rightarrow>
                    bind_res (putdatas os (MQTTPacket_send_publish [] (retry_publish m pb) 1 (ms_qos m) (ms_retain m)) g c)
                      (\<lambda>(rc, g1, c1). Inr (rc = SOCKET_ERROR, if rc = SOCKET_ERROR then m else m\<lparr>ms_lastTouch := os_now os\<rparr>, g1, c1)))
      else if ms_qos m \<noteq> 0 \<and> ms_nextMessageType m = PUBCOMP
      then bind_res (putdatas os (MQTTPacket_send_pubrel (ms_msgid m) 0) g c) (\<lambda>(rc, g1, c1).
             Inr (rc \<noteq> TCPSOCKET_COMPLETE, if rc \<noteq> TCPSOCKET_COMPLETE then m else m\<lparr>ms_lastTouch := os_now os\<rparr>, g1, c1))
      else Inr (False, m, g, c))"

text \<open>\<open>before\<close> are the messages already looked at.\<close>

fun retries_loop :: "(nat \<Rightarrow> net_os) \<Rightarrow> int \<Rightarrow> bool \<Rightarrow> nat \<Rightarrow> Messages list \<Rightarrow> Messages list \<Rightarrow> protocol \<Rightarrow> client \<Rightarrow> (protocol \<times> client) res" where
  "retries_loop os now regardless i before [] g c = Inr (g, c\<lparr>ct_outboundMsgs := before\<rparr>)"
| "retries_loop os now regardless i before (m # ms) g c =
     (if \<not> (ct_connected c \<noteq> 0 \<and> ct_good c \<noteq> 0 \<and> os_noPendingWrites (os i)) then Inr (g, c\<lparr>ct_outboundMsgs := before @ m # ms\<rparr>)
      else if regardless \<or> now - ms_lastTouch m > max (ct_retryInterval c) 10 * 1000
      then bind_res (retry_message (os i) m g c) (\<lambda>(closed, m1, g1, c1).
             if closed then MQTTProtocol_closeSession (os i) g1 (c1\<lparr>ct_good := 0, ct_outboundMsgs := before @ m1 # ms\<rparr>)
             else retries_loop os now regardless (Suc i) (before @ [m1]) ms g1 c1)
      else retries_loop os now regardless (Suc i) (before @ [m]) ms g c)"

definition MQTTProtocol_retries :: "(nat \<Rightarrow> net_os) \<Rightarrow> int \<Rightarrow> bool \<Rightarrow> protocol \<Rightarrow> client \<Rightarrow> (protocol \<times> client) res" where
  "MQTTProtocol_retries os now regardless g c =
     (if \<not> regardless \<and> ct_retryInterval c \<le> 0 then Inr (g, c)
      else retries_loop os now regardless 0 [] (ct_outboundMsgs c) g c)"

text \<open>\<open>free\<close> tells whether the socket of the client had no writes pending before its retries.\<close>

definition retry_client ::
  "net_os \<Rightarrow> (nat \<Rightarrow> net_os) \<Rightarrow> int \<Rightarrow> bool \<Rightarrow> bool \<Rightarrow> protocol \<Rightarrow> client \<Rightarrow> (protocol \<times> client) res" where
  "retry_client os oss now doRetry regardless g c =
     (if ct_connected c = 0 then Inr (g, c)
      else if ct_good c = 0 then MQTTProtocol_closeSession os g c
      else if \<not> os_noPendingWrites os then Inr (g, c)
      else if doRetry then MQTTProtocol_retries oss now regardless g c
      else Inr (g, c))"

definition MQTTProtocol_retry ::
  "(nat \<Rightarrow> net_os) \<Rightarrow> (nat \<Rightarrow> nat \<Rightarrow> net_os) \<Rightarrow> int \<Rightarrow> bool \<Rightarrow> bool \<Rightarrow> protocol \<Rightarrow> client list \<Rightarrow> (protocol \<times> client list) res" where
  "MQTTProtocol_retry os oss now doRetry regardless g cs =
     each_client (\<lambda>i. retry_client (os i) (oss i) now doRetry regardless) 0 g cs"

section \<open>Message ids are free\<close>

definition msgid_free :: "Messages list \<Rightarrow> int \<Rightarrow> bool" where "msgid_free ms i \<longleftrightarrow> i \<notin> ms_msgid ` set ms"

lemma find_msg_None [simp]: "find_msg i ms = None \<longleftrightarrow> msgid_free ms i"
  by (auto simp: find_msg_def messageIDCompare_def msgid_free_def find_None_iff)

text \<open>The id \<open>k\<close> steps after \<open>start\<close>.\<close>

definition id_after :: "int \<Rightarrow> int \<Rightarrow> int" where
  "id_after start k = (if start + k \<le> 65535 then start + k else start + k - 65535)"

lemma next_id_after: "1 \<le> start \<Longrightarrow> start \<le> 65535 \<Longrightarrow> 0 \<le> k \<Longrightarrow> k < 65535 \<Longrightarrow> next_msgid (id_after start k) = id_after start (k + 1)"
  by (auto simp: next_msgid_def id_after_def)

lemma id_after_range:
  "1 \<le> start \<Longrightarrow> start \<le> 65535 \<Longrightarrow> 0 \<le> k \<Longrightarrow> k \<le> 65535 \<Longrightarrow> 1 \<le> id_after start k \<and> id_after start k \<le> 65535"
  by (auto simp: id_after_def)

lemma id_after_all:
  assumes "1 \<le> i" "i \<le> 65535" "i \<noteq> start" "1 \<le> start" "start \<le> 65535"
  shows "\<exists>k. 1 \<le> k \<and> k \<le> 65534 \<and> id_after start k = i"
proof (cases "start < i")
  case True
  then show ?thesis using assms by (intro exI[of _ "i - start"]) (auto simp: id_after_def)
next
  case False
  then show ?thesis using assms by (intro exI[of _ "i - start + 65535"]) (auto simp: id_after_def)
qed

lemma assign_loop_returns:
  assumes "1 \<le> start" "start \<le> 65535"
  shows "1 \<le> k \<Longrightarrow> k \<le> 65534 \<Longrightarrow> \<forall>j. 1 \<le> j \<and> j < k \<longrightarrow> \<not> msgid_free ms (id_after start j) \<Longrightarrow>
    \<exists>r. assign_loop start ms (id_after start k) = Some r \<and> (r \<noteq> 0 \<longrightarrow> 1 \<le> r \<and> r \<le> 65535 \<and> msgid_free ms r) \<and>
      (r = 0 \<longrightarrow> (\<forall>j. 1 \<le> j \<and> j \<le> 65534 \<longrightarrow> \<not> msgid_free ms (id_after start j)))"
proof (induction "nat (65534 - k)" arbitrary: k rule: less_induct)
  case less
  have n: "next_msgid (id_after start k) = id_after start (k + 1)" using assms less.prems by (intro next_id_after) auto
  have r: "1 \<le> id_after start k" "id_after start k \<le> 65535" using id_after_range[OF assms, of k] less.prems by auto
  show ?case
  proof (cases "msgid_free ms (id_after start k)")
    case True
    then show ?thesis using r by (subst assign_loop.simps) auto
  next
    case used: False
    have u: "\<forall>j. 1 \<le> j \<and> j < k + 1 \<longrightarrow> \<not> msgid_free ms (id_after start j)"
      using less.prems(3) used by (metis (no_types, opaque_lifting) zless_add1_eq)
    show ?thesis
    proof (cases "k = 65534")
      case True
      then have "id_after start (k + 1) = start" using assms by (auto simp: id_after_def)
      then show ?thesis using used n u True by (subst assign_loop.simps) auto
    next
      case False
      then have "id_after start (k + 1) \<noteq> start" using assms less.prems by (auto simp: id_after_def)
      then show ?thesis using used n less.hyps[of "k + 1"] less.prems(1,2) False u by (subst assign_loop.simps) auto
    qed
  qed
qed

lemma assign_loop_first:
  assumes "1 \<le> j" "j \<le> 65535" "msgid_free ms j"
  shows "1 \<le> i \<Longrightarrow> i \<le> j \<Longrightarrow> \<exists>r. assign_loop 0 ms i = Some r \<and> 1 \<le> r \<and> r \<le> 65535 \<and> msgid_free ms r"
proof (induction "nat (j - i)" arbitrary: i rule: less_induct)
  case less
  show ?case
  proof (cases "msgid_free ms i")
    case True
    then show ?thesis using less.prems assms by (subst assign_loop.simps) auto
  next
    case False
    then have "i < j" using less.prems assms by (cases "i = j") auto
    then show ?thesis using False less.hyps[of "i + 1"] less.prems assms by (subst assign_loop.simps) (auto simp: next_msgid_def)
  qed
qed

lemma assign_loop_forever:
  assumes "\<forall>i. 1 \<le> i \<and> i \<le> 65535 \<longrightarrow> \<not> msgid_free ms i"
  shows "1 \<le> i \<Longrightarrow> i \<le> 65535 \<Longrightarrow> assign_loop 0 ms i = None"
proof -
  have "x = 0 \<longrightarrow> xs = ms \<longrightarrow> 1 \<le> i \<longrightarrow> i \<le> 65535 \<longrightarrow> False" if "assign_loop x xs i = Some r" for x xs i r
  proof (rule assign_loop.raw_induct[OF _ that], intro impI)
    fix f :: "int \<Rightarrow> Messages list \<Rightarrow> int \<Rightarrow> int option" and start xs msgid y
    assume IH: "\<And>st xs i y. f st xs i = Some y \<Longrightarrow> st = 0 \<longrightarrow> xs = ms \<longrightarrow> 1 \<le> i \<longrightarrow> i \<le> 65535 \<longrightarrow> False"
      and e: "(if find_msg msgid xs = None then Some msgid else if next_msgid msgid = start then Some 0
        else f start xs (next_msgid msgid)) = Some y"
      and p: "start = 0" "xs = ms" "1 \<le> msgid" "msgid \<le> 65535"
    have n: "1 \<le> next_msgid msgid" "next_msgid msgid \<le> 65535" using p(3,4) by (auto simp: next_msgid_def)
    have "\<not> msgid_free ms msgid" using assms p(3,4) by simp
    then have "f 0 ms (next_msgid msgid) = Some y" using e n(1) unfolding p(1,2) by (auto split: if_splits)
    then show False using IH n by blast
  qed
  then show "1 \<le> i \<Longrightarrow> i \<le> 65535 \<Longrightarrow> assign_loop 0 ms i = None" by (cases "assign_loop 0 ms i") auto
qed

text \<open>C37: a new message id is between 1 and 65535 and no outbound message has it; that there is none is only reported when all
  others than the last one are taken. The search ends, unless it starts from 0 and every id is taken: then it runs for ever.\<close>

theorem assignMsgId_fresh:
  assumes "0 \<le> ct_msgID c" "ct_msgID c \<le> 65535"
  shows "case MQTTProtocol_assignMsgId c of
      None \<Rightarrow> ct_msgID c = 0 \<and> (\<forall>i. 1 \<le> i \<and> i \<le> 65535 \<longrightarrow> i \<in> ms_msgid ` set (ct_outboundMsgs c))
    | Some (r, c') \<Rightarrow>
        (r \<noteq> 0 \<longrightarrow> 1 \<le> r \<and> r \<le> 65535 \<and> r \<notin> ms_msgid ` set (ct_outboundMsgs c) \<and> c' = c\<lparr>ct_msgID := r\<rparr>) \<and>
        (r = 0 \<longrightarrow> c' = c \<and> (\<forall>i. 1 \<le> i \<and> i \<le> 65535 \<and> i \<noteq> ct_msgID c \<longrightarrow> i \<in> ms_msgid ` set (ct_outboundMsgs c)))"
proof (cases "ct_msgID c = 0")
  case True
  show ?thesis
  proof (cases "\<exists>j. 1 \<le> j \<and> j \<le> 65535 \<and> msgid_free (ct_outboundMsgs c) j")
    case free: True
    then obtain r where "assign_loop 0 (ct_outboundMsgs c) 1 = Some r" "1 \<le> r" "r \<le> 65535" "msgid_free (ct_outboundMsgs c) r"
      using assign_loop_first[of _ "ct_outboundMsgs c" 1] by blast
    then show ?thesis using True by (simp add: MQTTProtocol_assignMsgId_def next_msgid_def msgid_free_def)
  next
    case False
    then show ?thesis using True assign_loop_forever[of "ct_outboundMsgs c" 1]
      by (auto simp: MQTTProtocol_assignMsgId_def next_msgid_def msgid_free_def)
  qed
next
  case False
  then have s: "1 \<le> ct_msgID c" using assms(1) by simp
  have "next_msgid (ct_msgID c) = id_after (ct_msgID c) 1" using assms(2) by (auto simp: next_msgid_def id_after_def)
  moreover have "\<forall>j. 1 \<le> j \<and> j < 1 \<longrightarrow> \<not> msgid_free (ct_outboundMsgs c) (id_after (ct_msgID c) j)" by auto
  note assign_loop_returns[OF s assms(2) _ _ this]
  ultimately obtain r where r: "assign_loop (ct_msgID c) (ct_outboundMsgs c) (next_msgid (ct_msgID c)) = Some r"
    "r \<noteq> 0 \<longrightarrow> 1 \<le> r \<and> r \<le> 65535 \<and> msgid_free (ct_outboundMsgs c) r"
    "r = 0 \<longrightarrow> (\<forall>j. 1 \<le> j \<and> j \<le> 65534 \<longrightarrow> \<not> msgid_free (ct_outboundMsgs c) (id_after (ct_msgID c) j))"
    by auto
  have "r = 0 \<longrightarrow> (\<forall>i. 1 \<le> i \<and> i \<le> 65535 \<and> i \<noteq> ct_msgID c \<longrightarrow> \<not> msgid_free (ct_outboundMsgs c) i)"
    using r(3) id_after_all[OF _ _ _ s assms(2)] by metis
  then show ?thesis using r(1,2) by (simp add: MQTTProtocol_assignMsgId_def msgid_free_def)
qed

definition zero_message :: Messages where
  "zero_message = \<lparr>ms_qos = 0, ms_retain = 0, ms_msgid = 0, ms_MQTTVersion = 0, ms_properties = MQTTProperties_initializer,
     ms_publish = None, ms_lastTouch = 0, ms_nextMessageType = 0\<rparr>"

definition new_client :: client where
  "new_client = \<lparr>cn_clientID = [0x61], cn_will = None, cn_username = None, cn_password = None, cn_keepAliveInterval = 20,
     cn_cleansession = 0, cn_cleanstart = 0, cn_MQTTVersion = 4, ct_connected = 1, ct_good = 1, ct_ping_outstanding = 0,
     ct_ping_due = 0, ct_ping_due_time = 0, ct_connect_state = 0, ct_socket = 3, ct_lastSent = 0, ct_lastReceived = 0,
     ct_lastPing = 0, ct_msgID = 0, ct_retryInterval = 0, ct_maxInflightMessages = 10, ct_inboundMsgs = [],
     ct_outboundMsgs = [], ct_messageQueue = []\<rparr>"

text \<open>After 65535 the search starts again from 1, and leaves out the ids that are taken.\<close>

theorem assignMsgId_fresh_witness:
  "case MQTTProtocol_assignMsgId (new_client\<lparr>ct_msgID := 65535, ct_outboundMsgs := [zero_message\<lparr>ms_msgid := 1\<rparr>]\<rparr>) of
     None \<Rightarrow> False | Some (r, c') \<Rightarrow> 1 < r \<and> r \<le> 65535 \<and> ct_msgID c' = r"
proof -
  let ?c = "new_client\<lparr>ct_msgID := 65535, ct_outboundMsgs := [zero_message\<lparr>ms_msgid := 1\<rparr>]\<rparr>"
  have "\<exists>i. 1 \<le> i \<and> i \<le> 65535 \<and> i \<noteq> 65535 \<and> i \<notin> ms_msgid ` set (ct_outboundMsgs ?c)" by (intro exI[of _ 2]) simp
  then show ?thesis using assignMsgId_fresh[of ?c] by (auto split: option.splits)
qed

declare find_msg_None [simp del]

end
