(* ===== verification/MqttDelivery.thy ===== *)
theory MqttDelivery
  imports MqttProtocol "HOL-Library.Multiset"
begin

text \<open>
  What the exchanges of \<open>MqttProtocol\<close> promise. \<open>MQTTClient_cycle\<close> of \<open>MQTTClient.c\<close> hands each packet to its handler. Every stored
  publication is held by exactly one message, so that none is used after it was freed and none is lost; and the queue of the application
  is what an abstract receiver, which only knows which message ids are held, makes of the packets. From this follows that messages of
  quality 2 arrive exactly once.
\<close>

section \<open>Handing out packets\<close>

text \<open>The callbacks of a client, and what they were called with.\<close>

record MQTTClients =
  mc_published :: bool
  mc_dc :: bool

datatype callback = Cb_published int int int | Cb_deliveryComplete int

definition published_call :: "MQTTClients \<Rightarrow> client \<Rightarrow> Ack \<Rightarrow> callback list" where
  "published_call m c a =
     (if cn_MQTTVersion c \<ge> MQTTVERSION_5 \<and> mc_published m
      then [Cb_published (ack_msgId a) (header_type (ack_header a)) (ack_rc a)] else [])"

text \<open>The handlers that \<open>MQTTClient_cycle\<close> calls, with the packet that is left for the caller.\<close>

definition cycle_packet ::
  "MQTTClients \<Rightarrow> net_os \<Rightarrow> packet \<Rightarrow> protocol \<Rightarrow> client \<Rightarrow> (int \<times> packet option \<times> callback list \<times> protocol \<times> client) res" where
  "cycle_packet m os pack g c =
     (let freed = (\<lambda>cbs (rc, g', c'). Inr (rc, None, cbs, g', c'))
      in case pack of
           Pk_publish p \<Rightarrow> bind_res (MQTTProtocol_handlePublishes os p g c) (freed [])
         | Pk_ack a \<Rightarrow>
             let t = header_type (ack_header a); complete = (if mc_dc m then [Cb_deliveryComplete (ack_msgId a)] else [])
             in if t = PUBACK then bind_res (MQTTProtocol_handlePubacks os a g c) (freed (published_call m c a @ complete))
                else if t = PUBCOMP then bind_res (MQTTProtocol_handlePubcomps os a g c) (freed (published_call m c a @ complete))
                else if t = PUBREC
                then bind_res (MQTTProtocol_handlePubrecs os a g c)
                       (freed (if ack_rc a \<ge> MQTTREASONCODE_UNSPECIFIED_ERROR then published_call m c a else []))
                else if t = PUBREL then bind_res (MQTTProtocol_handlePubrels os a g c) (freed [])
                else Inr (TCPSOCKET_COMPLETE, Some pack, [], g, c)
         | Pk_header h \<Rightarrow>
             if header_type h = PINGRESP then Inr (TCPSOCKET_COMPLETE, None, [], g, MQTTProtocol_handlePingresps c)
             else Inr (TCPSOCKET_COMPLETE, Some pack, [], g, c)
         | _ \<Rightarrow> Inr (TCPSOCKET_COMPLETE, Some pack, [], g, c))"

text \<open>The packets that arrive while a session lasts, one after the other.\<close>

fun cycle_packets :: "MQTTClients \<Rightarrow> (net_os \<times> packet) list \<Rightarrow> protocol \<Rightarrow> client \<Rightarrow> (bool \<times> protocol \<times> client) res" where
  "cycle_packets m [] g c = Inr (True, g, c)"
| "cycle_packets m ((os, pack) # rest) g c =
     bind_res (cycle_packet m os pack g c) (\<lambda>(rc, _, _, g1, c1).
       if rc = SOCKET_ERROR then Inr (False, g1, c1) else cycle_packets m rest g1 c1)"

section \<open>Every publication has one owner\<close>

definition msg_ref :: "Messages \<Rightarrow> nat multiset" where
  "msg_ref m = (case ms_publish m of None \<Rightarrow> {#} | Some r \<Rightarrow> {#r#})"

definition refs :: "Messages list \<Rightarrow> nat multiset" where "refs ms = sum_list (map msg_ref ms)"

definition owned :: "protocol \<Rightarrow> nat multiset \<Rightarrow> bool" where
  "owned g M \<longleftrightarrow> M = mset (mp_publications g) \<and> distinct (mp_publications g) \<and> dom (mp_heap g) = set (mp_publications g) \<and>
     (\<forall>r pb. mp_heap g r = Some pb \<longrightarrow> pb_refcount pb = 1) \<and> (\<forall>r\<in>set (mp_publications g). r < mp_next g)"

lemma refs_simps [simp]: "refs [] = {#}" "refs (m # ms) = msg_ref m + refs ms" "refs (xs @ ys) = refs xs + refs ys"
  by (simp_all add: refs_def)

lemma owned_emit [simp]: "owned (emit e g) M = owned g M" "mp_heap (emit e g) = mp_heap g"
  by (simp_all add: owned_def emit_def)

lemma owned_counts [simp]:
  "owned (g\<lparr>mp_msgs_sent := i\<rparr>) M = owned g M" "owned (g\<lparr>mp_msgs_received := i\<rparr>) M = owned g M"
  by (simp_all add: owned_def)

lemma owned_store:
  assumes "owned g M" "MQTTProtocol_storePublication p g = (r, g1)"
  shows "owned g1 (add_mset r M)" "r \<notin># M"
    "mp_heap g1 = (mp_heap g)(r \<mapsto> \<lparr>pb_topic = pub_topic p, pb_topiclen = pub_topiclen p, pb_payload = pub_payload p,
       pb_payloadlen = pub_payloadlen p, pb_refcount = 1\<rparr>)"
proof -
  have r: "r = mp_next g" and n: "r \<notin> set (mp_publications g)" using assms by (auto simp: MQTTProtocol_storePublication_def Let_def owned_def)
  show "r \<notin># M" using assms(1) n by (simp add: owned_def)
  have g1: "mp_publications g1 = mp_publications g @ [r]" "mp_next g1 = Suc (mp_next g)"
    "mp_heap g1 = (mp_heap g)(r \<mapsto> \<lparr>pb_topic = pub_topic p, pb_topiclen = pub_topiclen p, pb_payload = pub_payload p,
       pb_payloadlen = pub_payloadlen p, pb_refcount = 1\<rparr>)"
    using assms(2) by (auto simp: MQTTProtocol_storePublication_def Let_def)
  have "dom (mp_heap g1) = set (mp_publications g1)" using assms(1) by (simp add: g1 owned_def)
  moreover have "\<forall>r pb. mp_heap g1 r = Some pb \<longrightarrow> pb_refcount pb = 1" using assms(1) by (simp add: g1 owned_def)
  moreover have "\<forall>r\<in>set (mp_publications g1). r < mp_next g1" using assms(1) r by (auto simp: g1 owned_def)
  ultimately show "owned g1 (add_mset r M)" using assms(1) n by (simp add: owned_def g1(1))
  show "mp_heap g1 = (mp_heap g)(r \<mapsto> \<lparr>pb_topic = pub_topic p, pb_topiclen = pub_topiclen p, pb_payload = pub_payload p,
       pb_payloadlen = pub_payloadlen p, pb_refcount = 1\<rparr>)"
    using assms(2) by (auto simp: MQTTProtocol_storePublication_def Let_def)
qed

lemma owned_in: "owned g M \<Longrightarrow> r \<in># M \<Longrightarrow> \<exists>pb. mp_heap g r = Some pb \<and> pb_refcount pb = 1"
  unfolding owned_def by (metis domD set_mset_mset)

lemma owned_once:
  assumes "owned g (add_mset r M)"
  shows "r \<notin># M"
proof -
  have "distinct (mp_publications g)" "add_mset r M = mset (mp_publications g)" using assms by (simp_all add: owned_def)
  then have "count (add_mset r M) r \<le> 1" unfolding distinct_count_atmost_1 by (metis order_refl zero_le)
  then show ?thesis by (simp add: not_in_iff)
qed

lemma owned_publications_remove:
  assumes "owned g (add_mset r M)"
  shows "owned (publications_remove r g) M" "mp_heap (publications_remove r g) = (mp_heap g)(r := None)"
proof -
  have m: "add_mset r M = mset (mp_publications g)" and d: "distinct (mp_publications g)" using assms by (simp_all add: owned_def)
  have r: "r \<in> set (mp_publications g)" using m by (metis set_mset_mset union_single_eq_member)
  have "M = mset (remove1 r (mp_publications g))" using m by (metis add_mset_remove_trivial mset_remove1)
  then show "owned (publications_remove r g) M" using assms r d by (auto simp: owned_def publications_remove_def)
  show "mp_heap (publications_remove r g) = (mp_heap g)(r := None)" using r by (simp add: publications_remove_def)
qed

lemma owned_remove:
  assumes "owned g (msg_ref m + M)"
  shows "\<exists>g1. MQTTProtocol_removePublication (ms_publish m) g = Inr g1 \<and> owned g1 M \<and>
    (\<forall>r. r \<in># M \<longrightarrow> mp_heap g1 r = mp_heap g r)"
proof (cases "ms_publish m")
  case None
  then show ?thesis using assms by (simp add: msg_ref_def MQTTProtocol_removePublication_def)
next
  case (Some r)
  then have o: "owned g (add_mset r M)" using assms by (simp add: msg_ref_def)
  obtain pb where pb: "mp_heap g r = Some pb" "pb_refcount pb = 1" using owned_in[OF o] by auto
  have "r \<notin># M" using o by (rule owned_once)
  then show ?thesis using Some pb owned_publications_remove[OF o] by (auto simp: MQTTProtocol_removePublication_def)
qed

section \<open>Lists of messages\<close>

lemma find_msg_SomeD: "find_msg i ms = Some m \<Longrightarrow> m \<in> set ms \<and> ms_msgid m = i"
  by (auto simp: find_msg_def find_Some_iff messageIDCompare_def)

lemma refs_replace:
  "find_msg i ms = Some m \<Longrightarrow> refs (replace_msg i m' ms) + msg_ref m = refs ms + msg_ref m'"
  by (induction ms) (auto simp: find_msg_def messageIDCompare_def ac_simps)

lemma refs_remove: "find_msg i ms = Some m \<Longrightarrow> refs ms = msg_ref m + refs (remove_msg i ms)"
  by (induction ms) (auto simp: find_msg_def messageIDCompare_def ac_simps)

lemma ids_distinct_Cons:
  "distinct (map ms_msgid (a # ms)) \<longleftrightarrow> (\<forall>x\<in>set ms. ms_msgid x \<noteq> ms_msgid a) \<and> distinct (map ms_msgid ms)"
  by (auto simp: image_iff)

lemma remove_msg_distinct:
  "distinct (map ms_msgid ms) \<Longrightarrow> set (remove_msg i ms) = {m \<in> set ms. ms_msgid m \<noteq> i} \<and> distinct (map ms_msgid (remove_msg i ms))"
proof (induction ms)
  case (Cons a ms)
  then show ?case unfolding ids_distinct_Cons by (cases "ms_msgid a = i") (auto simp: messageIDCompare_def)
qed simp

lemma replace_msg_ids: "ms_msgid m' = i \<Longrightarrow> map ms_msgid (replace_msg i m' ms) = map ms_msgid ms"
  by (induction ms) (auto simp: messageIDCompare_def)

lemma replace_msg_append: "i \<notin> ms_msgid ` set xs \<Longrightarrow> ms_msgid m = i \<Longrightarrow> replace_msg i m' (xs @ [m]) = xs @ [m']"
  by (induction xs) (auto simp: messageIDCompare_def)

lemma replace_msg_set:
  "distinct (map ms_msgid ms) \<Longrightarrow> find_msg i ms = Some m \<Longrightarrow> set (replace_msg i m' ms) = insert m' {x \<in> set ms. ms_msgid x \<noteq> i}"
proof (induction ms)
  case (Cons a ms)
  then show ?case unfolding ids_distinct_Cons by (cases "ms_msgid a = i") (auto simp: messageIDCompare_def find_msg_def)
qed (simp add: find_msg_def)

section \<open>What the application gets\<close>

text \<open>The message that the application gets for a packet.\<close>

definition publish_entry :: "Publish \<Rightarrow> qEntry" where
  "publish_entry p =
     \<lparr>qe_topicName = pub_topic p, qe_topicLen = pub_topiclen p, qe_payload = take (nat (pub_payloadlen p)) (pub_payload p),
      qe_payloadlen = pub_payloadlen p, qe_qos = header_qos (pub_header p), qe_retained = header_retain (pub_header p),
      qe_dup = if header_qos (pub_header p) = 2 then 0 else header_dup (pub_header p), qe_msgid = pub_msgId p,
      qe_properties = (case message_properties p MQTTProperties_initializer of Inr q \<Rightarrow> q | Inl _ \<Rightarrow> MQTTProperties_initializer)\<rparr>"

text \<open>A packet for a client of version \<open>v\<close>: its payload is not of negative length, and its properties have values of their types.\<close>

definition publish_fine :: "int \<Rightarrow> Publish \<Rightarrow> bool" where
  "publish_fine v p \<longleftrightarrow> pub_MQTTVersion p = v \<and> 0 \<le> pub_payloadlen p \<and>
     (v \<ge> 5 \<longrightarrow> (case MQTTProperties_copy (pub_properties p) of Inr q \<Rightarrow> True | Inl _ \<Rightarrow> False))"

fun packet_fine :: "int \<Rightarrow> packet \<Rightarrow> bool" where
  "packet_fine v (Pk_publish p) = publish_fine v p"
| "packet_fine v _ = True"

lemma process_entry:
  assumes "a \<longrightarrow> 0 \<le> pub_payloadlen p" "message_properties p MQTTProperties_initializer = Inr q"
  shows "Protocol_processPublication p c a = Inr (c\<lparr>ct_messageQueue := ct_messageQueue c @ [publish_entry p]\<rparr>)"
  using assms by (auto simp: Protocol_processPublication_def publish_entry_def)

lemma fine_properties: "publish_fine v p \<Longrightarrow> \<exists>q. message_properties p old = Inr q"
  by (auto simp: publish_fine_def message_properties_def split: sum.splits)

lemma process_fine:
  "publish_fine v p \<Longrightarrow> Protocol_processPublication p c a = Inr (c\<lparr>ct_messageQueue := ct_messageQueue c @ [publish_entry p]\<rparr>)"
  using fine_properties[of v p MQTTProperties_initializer] process_entry[of a p] by (auto simp: publish_fine_def)

text \<open>A copy of properties is its own copy.\<close>

lemma copy_loop_again:
  "copy_loop xs r = Inr q \<Longrightarrow> \<exists>ys n. q = \<lparr>prs_length = prs_length r + n, prs_array = prs_array r @ ys\<rparr> \<and>
     (\<forall>r'. copy_loop ys r' = Inr \<lparr>prs_length = prs_length r' + n, prs_array = prs_array r' @ ys\<rparr>)"
proof (induction xs arbitrary: r)
  case Nil
  then show ?case by (intro exI[of _ "[]"] exI[of _ 0]) simp
next
  case (Cons x xs)
  show ?case
  proof (cases "MQTTProperty_getType (pr_identifier x)")
    case None
    then show ?thesis using Cons by (simp add: MQTTProperties_add_def)
  next
    case (Some t)
    with Cons.prems obtain len where len: "added_length t (pr_value x) = Inr len"
      "copy_loop xs \<lparr>prs_length = prs_length r + (len + 1), prs_array = prs_array r @ [x]\<rparr> = Inr q"
      by (cases "added_length t (pr_value x)") (auto simp: MQTTProperties_add_def)
    obtain ys n where ys: "q = \<lparr>prs_length = prs_length r + (len + 1) + n, prs_array = prs_array r @ [x] @ ys\<rparr>"
      "\<And>r'. copy_loop ys r' = Inr \<lparr>prs_length = prs_length r' + n, prs_array = prs_array r' @ ys\<rparr>"
      using Cons.IH[OF len(2)] by auto
    show ?thesis using ys Some len(1)
      by (intro exI[of _ "x # ys"] exI[of _ "len + 1 + n"]) (auto simp: MQTTProperties_add_def)
  qed
qed

lemma copy_again: "MQTTProperties_copy ps = Inr q \<Longrightarrow> MQTTProperties_copy q = Inr q"
  unfolding MQTTProperties_copy_def using copy_loop_again[of "prs_array ps" MQTTProperties_initializer q]
  by (auto simp: MQTTProperties_initializer_def)

lemma header_retain_byte: "header_retain (header_byte 0 0 qos retain) = retain mod 2"
proof -
  have "uint (header_byte 0 0 qos retain) = retain mod 2 + 2 * (qos mod 4)"
    unfolding header_byte_def uint_word_of_int by (simp add: mod_pos_pos_trivial)
  then show ?thesis by (simp add: header_retain_def)
qed

lemma message_entry:
  assumes "publish_fine v p" "header_qos (pub_header p) = 2" "inbound_message os r p = Inr m"
    "pb = \<lparr>pb_topic = pub_topic p, pb_topiclen = pub_topiclen p, pb_payload = pub_payload p,
       pb_payloadlen = pub_payloadlen p, pb_refcount = 1\<rparr>"
  shows "publish_entry (message_publish m pb) = publish_entry p"
    "Protocol_processPublication (message_publish m pb) c a = Inr (c\<lparr>ct_messageQueue := ct_messageQueue c @ [publish_entry p]\<rparr>)"
proof -
  obtain q where q: "message_properties p (ms_properties (os_mem os)) = Inr q" using fine_properties[OF assms(1)] by blast
  have m: "ms_qos m = 2" "ms_retain m = header_retain (pub_header p)" "ms_msgid m = pub_msgId p" "ms_MQTTVersion m = pub_MQTTVersion p"
    "ms_properties m = q" using assms(2,3) q by (auto simp: inbound_message_def)
  have h: "header_qos (header_byte 0 0 2 x) = 2" for x using header_fields(2)[of 0 0 2 x] by simp
  have r: "header_retain (header_byte 0 0 2 (header_retain (pub_header p))) = header_retain (pub_header p)"
    unfolding header_retain_byte by (simp add: header_retain_def)
  have c: "\<exists>q'. message_properties (message_publish m pb) MQTTProperties_initializer = Inr q' \<and>
      message_properties p MQTTProperties_initializer = Inr q'"
    using q copy_again m(4,5) by (auto simp: message_properties_def message_publish_def split: if_splits)
  then obtain q' where c': "message_properties (message_publish m pb) MQTTProperties_initializer = Inr q'"
    "message_properties p MQTTProperties_initializer = Inr q'" by blast
  have f: "pub_header (message_publish m pb) = header_byte 0 0 2 (header_retain (pub_header p))"
    "pub_topic (message_publish m pb) = pub_topic p" "pub_topiclen (message_publish m pb) = pub_topiclen p"
    "pub_payload (message_publish m pb) = pub_payload p" "pub_payloadlen (message_publish m pb) = pub_payloadlen p"
    "pub_msgId (message_publish m pb) = pub_msgId p"
    using m by (simp_all add: message_publish_def assms(4))
  show e: "publish_entry (message_publish m pb) = publish_entry p"
    unfolding publish_entry_def f c' h r assms(2) by simp
  show "Protocol_processPublication (message_publish m pb) c a = Inr (c\<lparr>ct_messageQueue := ct_messageQueue c @ [publish_entry p]\<rparr>)"
    using process_entry[OF _ c'(1), of a c] assms(1) unfolding e f by (simp add: publish_fine_def)
qed

text \<open>The abstract receiver: which ids are held, with what, and the queue.\<close>

fun receive_packet :: "int \<Rightarrow> packet \<Rightarrow> (int \<Rightarrow> qEntry option) \<times> qEntry list \<Rightarrow> (int \<Rightarrow> qEntry option) \<times> qEntry list" where
  "receive_packet v (Pk_publish p) (H, q) =
     (let e = publish_entry p; qos = header_qos (pub_header p)
      in if qos = 0 \<or> qos = 1 then (H, q @ [e])
         else if qos = 2 then (H(pub_msgId p \<mapsto> e), if v \<ge> 5 \<and> H (pub_msgId p) = None then q @ [e] else q)
         else (H, q))"
| "receive_packet v (Pk_ack a) (H, q) =
     (if header_type (ack_header a) = PUBREL
      then case H (ack_msgId a) of None \<Rightarrow> (H, q) | Some e \<Rightarrow> (H(ack_msgId a := None), if v \<ge> 5 then q else q @ [e])
      else (H, q))"
| "receive_packet v _ s = s"

definition held_entry :: "protocol \<Rightarrow> Messages \<Rightarrow> qEntry option" where
  "held_entry g m =
     (case ms_publish m of None \<Rightarrow> None | Some r \<Rightarrow> map_option (\<lambda>pb. publish_entry (message_publish m pb)) (mp_heap g r))"

definition inbound_fine :: "int \<Rightarrow> Messages \<Rightarrow> bool" where
  "inbound_fine v m \<longleftrightarrow> ms_qos m = 2 \<and> ms_nextMessageType m = PUBREL \<and> ms_MQTTVersion m = v"

text \<open>The state of a client of version \<open>v\<close>, with \<open>M\<close> the publications of the others, stands for \<open>H\<close>.\<close>

definition stands_for :: "int \<Rightarrow> nat multiset \<Rightarrow> protocol \<Rightarrow> client \<Rightarrow> (int \<Rightarrow> qEntry option) \<Rightarrow> bool" where
  "stands_for v M g c H \<longleftrightarrow>
     owned g (refs (ct_inboundMsgs c) + (refs (ct_outboundMsgs c) + M)) \<and>
     distinct (map ms_msgid (ct_inboundMsgs c)) \<and> (\<forall>m\<in>set (ct_inboundMsgs c). inbound_fine v m) \<and>
     dom H = ms_msgid ` set (ct_inboundMsgs c) \<and>
     (v < 5 \<longrightarrow> (\<forall>m\<in>set (ct_inboundMsgs c). held_entry g m = H (ms_msgid m)))"

text \<open>Answers when nothing goes wrong on the socket and in the store.\<close>

definition os_fine :: "net_os \<Rightarrow> bool" where
  "os_fine os \<longleftrightarrow> os_noPendingWrites os \<and> os_send os = TCPSOCKET_COMPLETE \<and> os_remove os = 0"

lemma putdatas_ack:
  assumes "os_fine os"
  shows "\<exists>x. putdatas os (MQTTPacket_send_ack t i d) g c = Inr (0, emit (Ev_sent x) g, c\<lparr>ct_lastSent := os_now os\<rparr>)"
proof -
  have "\<exists>x. MQTTPacket_send_ack t i d = Inr x"
    by (auto simp: MQTTPacket_send_ack_def MQTTPacket_send_def writeInt_def readInt_def readChar_def)
  then obtain x where x: "MQTTPacket_send_ack t i d = Inr x" by blast
  show ?thesis using assms by (intro exI[of _ x]) (simp add: putdatas_def x os_fine_def TCPSOCKET_COMPLETE_def)
qed

lemma ref_in: "m \<in> set ms \<Longrightarrow> ms_publish m = Some r \<Longrightarrow> r \<in># refs ms"
  by (induction ms) (auto simp: msg_ref_def)

lemma held_entry_cong: "(\<And>r. ms_publish m = Some r \<Longrightarrow> mp_heap g r = mp_heap g' r) \<Longrightarrow> held_entry g m = held_entry g' m"
  by (auto simp: held_entry_def split: option.splits)

lemma held_entry_same [simp]:
  "held_entry (emit e g) m = held_entry g m" "held_entry (g\<lparr>mp_msgs_received := i\<rparr>) m = held_entry g m"
  by (rule held_entry_cong, simp)+

lemma outbound_done_fine:
  assumes "os_fine os" "find_msg i (ct_outboundMsgs c) = Some m" "stands_for v M g c H"
  shows "\<exists>g1 c1. outbound_done os m g c = Inr (0, g1, c1) \<and> stands_for v M g1 c1 H \<and> ct_messageQueue c1 = ct_messageQueue c"
proof -
  let ?rest = "refs (ct_inboundMsgs c) + (refs (remove_msg i (ct_outboundMsgs c)) + M)" and ?g = "emit (Ev_removed PERSISTENCE_SENT (ms_msgid m)) g"
  have i: "ms_msgid m = i" using find_msg_SomeD[OF assms(2)] by simp
  have "owned ?g (msg_ref m + ?rest)"
    using assms(3) refs_remove[OF assms(2)] by (simp add: stands_for_def ac_simps)
  then obtain g1 where g1: "MQTTProtocol_removePublication (ms_publish m) ?g = Inr g1" "owned g1 ?rest"
    "\<forall>r. r \<in># ?rest \<longrightarrow> mp_heap g1 r = mp_heap ?g r" using owned_remove by blast
  have "held_entry g1 x = held_entry g x" if "x \<in> set (ct_inboundMsgs c)" for x
    using g1(3) ref_in[OF that] by (intro held_entry_cong) simp
  then have "stands_for v M g1 (c\<lparr>ct_outboundMsgs := remove_msg i (ct_outboundMsgs c)\<rparr>) H"
    using g1(2) assms(3) by (simp add: stands_for_def)
  then show ?thesis using g1(1) i assms(1) by (simp add: outbound_done_def os_fine_def)
qed

lemma stands_for_same:
  assumes "stands_for v M g c H" "mp_heap g' = mp_heap g" "\<And>N. owned g' N = owned g N"
    "ct_inboundMsgs c' = ct_inboundMsgs c" "refs (ct_outboundMsgs c') = refs (ct_outboundMsgs c)"
  shows "stands_for v M g' c' H"
  using assms(1) unfolding stands_for_def held_entry_def assms(2-5) .

lemma pubacks_fine:
  assumes "os_fine os" "stands_for v M g c H"
  shows "\<exists>g1 c1. MQTTProtocol_handlePubacks os a g c = Inr (0, g1, c1) \<and> stands_for v M g1 c1 H \<and> ct_messageQueue c1 = ct_messageQueue c"
  using outbound_done_fine[OF assms(1) _ assms(2)] assms(2)
  by (auto simp: MQTTProtocol_handlePubacks_def TCPSOCKET_COMPLETE_def split: option.splits)

lemma count_sent_fine:
  assumes "\<exists>g1 c1. r = Inr (0, g1, c1) \<and> stands_for v M g1 c1 H \<and> ct_messageQueue c1 = q"
  shows "\<exists>g1 c1. bind_res r count_sent = Inr (0, g1, c1) \<and> stands_for v M g1 c1 H \<and> ct_messageQueue c1 = q"
proof -
  obtain g1 c1 where r: "r = Inr (0, g1, c1)" "stands_for v M g1 c1 H" "ct_messageQueue c1 = q" using assms by blast
  have "stands_for v M (g1\<lparr>mp_msgs_sent := mp_msgs_sent g1 + 1\<rparr>) c1 H"
    by (rule stands_for_same[OF r(2)]) simp_all
  then show ?thesis using r by (simp add: count_sent_def)
qed

lemma pubcomps_fine:
  assumes "os_fine os" "stands_for v M g c H"
  shows "\<exists>g1 c1. MQTTProtocol_handlePubcomps os a g c = Inr (0, g1, c1) \<and> stands_for v M g1 c1 H \<and> ct_messageQueue c1 = ct_messageQueue c"
  using count_sent_fine[OF outbound_done_fine[OF assms(1) _ assms(2)]] assms(2)
  by (auto simp: MQTTProtocol_handlePubcomps_def TCPSOCKET_COMPLETE_def split: option.splits)

lemma pubrecs_fine:
  assumes "os_fine os" "stands_for v M g c H"
  shows "\<exists>g1 c1. MQTTProtocol_handlePubrecs os a g c = Inr (0, g1, c1) \<and> stands_for v M g1 c1 H \<and> ct_messageQueue c1 = ct_messageQueue c"
proof (cases "find_msg (ack_msgId a) (ct_outboundMsgs c)")
  case None
  then show ?thesis using assms(2) by (simp add: MQTTProtocol_handlePubrecs_def TCPSOCKET_COMPLETE_def)
next
  case (Some m)
  then have i: "ms_msgid m = ack_msgId a" using find_msg_SomeD by blast
  let ?m = "m\<lparr>ms_nextMessageType := PUBCOMP, ms_lastTouch := os_now os\<rparr>"
  obtain x where x: "putdatas os (MQTTPacket_send_pubrel (ack_msgId a) 0) g c =
      Inr (0, emit (Ev_sent x) g, c\<lparr>ct_lastSent := os_now os\<rparr>)"
    using putdatas_ack[OF assms(1)] unfolding MQTTPacket_send_pubrel_def by blast
  have "refs (replace_msg (ack_msgId a) ?m (ct_outboundMsgs c)) = refs (ct_outboundMsgs c)"
    using refs_replace[OF Some, of ?m] by (simp add: msg_ref_def)
  then have "stands_for v M (emit (Ev_sent x) g)
      (c\<lparr>ct_lastSent := os_now os, ct_outboundMsgs := replace_msg (ack_msgId a) ?m (ct_outboundMsgs c)\<rparr>) H"
    by (intro stands_for_same[OF assms(2)]) simp_all
  then have "\<exists>g1 c1. bind_res (putdatas os (MQTTPacket_send_pubrel (ack_msgId a) 0) g c) (\<lambda>(rc, g1, c1).
      Inr (rc, g1, c1\<lparr>ct_outboundMsgs := replace_msg (ms_msgid m) ?m (ct_outboundMsgs c1)\<rparr>)) = Inr (0, g1, c1) \<and>
      stands_for v M g1 c1 H \<and> ct_messageQueue c1 = ct_messageQueue c"
    by (simp add: x i)
  then show ?thesis using Some assms(2) count_sent_fine[OF outbound_done_fine[OF assms(1) Some assms(2)]]
    by (simp add: MQTTProtocol_handlePubrecs_def TCPSOCKET_COMPLETE_def)
qed

lemma pubrels_fine:
  assumes "os_fine os" "stands_for v M g c H"
  shows "\<exists>g1 c1. MQTTProtocol_handlePubrels os a g c = Inr (0, g1, c1) \<and>
    (case H (ack_msgId a) of
       None \<Rightarrow> stands_for v M g1 c1 H \<and> ct_messageQueue c1 = ct_messageQueue c
     | Some e \<Rightarrow> stands_for v M g1 c1 (H(ack_msgId a := None)) \<and>
         ct_messageQueue c1 = (if v \<ge> 5 then ct_messageQueue c else ct_messageQueue c @ [e]))"
proof -
  let ?i = "ack_msgId a"
  obtain x where x: "putdatas os (MQTTPacket_send_pubcomp ?i) g c = Inr (0, emit (Ev_sent x) g, c\<lparr>ct_lastSent := os_now os\<rparr>)"
    using putdatas_ack[OF assms(1)] unfolding MQTTPacket_send_pubcomp_def by blast
  have w: "os_noPendingWrites os" "os_remove os = 0" using assms(1) by (simp_all add: os_fine_def)
  have d: "dom H = ms_msgid ` set (ct_inboundMsgs c)" "distinct (map ms_msgid (ct_inboundMsgs c))" using assms(2) by (simp_all add: stands_for_def)
  show ?thesis
  proof (cases "find_msg ?i (ct_inboundMsgs c)")
    case None
    then have "?i \<notin> dom H" using d by (simp add: msgid_free_def find_msg_None)
    then have "H ?i = None" by blast
    moreover have "stands_for v M (emit (Ev_sent x) g) (c\<lparr>ct_lastSent := os_now os\<rparr>) H" by (rule stands_for_same[OF assms(2)]) simp_all
    ultimately show ?thesis using None x w assms(2) by (simp add: MQTTProtocol_handlePubrels_def TCPSOCKET_COMPLETE_def)
  next
    case (Some m)
    then have m: "m \<in> set (ct_inboundMsgs c)" "ms_msgid m = ?i" using find_msg_SomeD by blast+
    then have f: "ms_qos m = 2" "ms_nextMessageType m = PUBREL" "ms_MQTTVersion m = v"
      using assms(2) by (simp_all add: stands_for_def inbound_fine_def)
    obtain e where e: "H ?i = Some e" using d m by (metis domD imageI)
    let ?g1 = "emit (Ev_sent x) g" and ?c1 = "c\<lparr>ct_lastSent := os_now os\<rparr>" and ?ins = "remove_msg ?i (ct_inboundMsgs c)"
    let ?rest = "refs ?ins + (refs (ct_outboundMsgs c) + M)" and ?g2 = "emit (Ev_removed PERSISTENCE_RECEIVED ?i) (emit (Ev_sent x) g)"
    have o: "owned ?g2 (msg_ref m + ?rest)" using assms(2) refs_remove[OF Some] by (simp add: stands_for_def ac_simps)
    have del: "deliver_released m ?g1 ?c1 = Inr (?c1\<lparr>ct_messageQueue := if v \<ge> 5 then ct_messageQueue c else ct_messageQueue c @ [e]\<rparr>)"
    proof (cases "v \<ge> 5")
      case True
      have "mp_heap g r \<noteq> None" if "ms_publish m = Some r" for r
        using owned_in[of g "refs (ct_inboundMsgs c) + (refs (ct_outboundMsgs c) + M)" r] ref_in[OF m(1) that] assms(2)
        by (auto simp: stands_for_def)
      then show ?thesis using True f(3) by (auto simp: deliver_released_def split: option.splits)
    next
      case False
      then have h: "held_entry g m = Some e" using assms(2) m e by (simp add: stands_for_def)
      then obtain r pb where pb: "ms_publish m = Some r" "mp_heap g r = Some pb" "e = publish_entry (message_publish m pb)"
        by (auto simp: held_entry_def split: option.splits)
      have "message_properties (message_publish m pb) MQTTProperties_initializer = Inr MQTTProperties_initializer"
        using False f(3) by (simp add: message_properties_def message_publish_def)
      from process_entry[OF _ this, of False ?c1] show ?thesis using False f(3) pb by (simp add: deliver_released_def)
    qed
    define g3 where "g3 = (case ms_publish m of None \<Rightarrow> ?g2 | Some r \<Rightarrow> publications_remove r ?g2)"
    have g3: "owned g3 ?rest" "\<And>r. r \<in># ?rest \<Longrightarrow> mp_heap g3 r = mp_heap g r"
    proof -
      show "owned g3 ?rest" using o owned_publications_remove(1)[of ?g2 _ ?rest] by (auto simp: g3_def msg_ref_def split: option.splits)
      show "mp_heap g3 r = mp_heap g r" if "r \<in># ?rest" for r
      proof (cases "ms_publish m")
        case (Some r')
        then have "owned ?g2 (add_mset r' ?rest)" using o by (simp add: msg_ref_def)
        moreover from this have "r' \<notin># ?rest"
          by (rule owned_once)
        ultimately show ?thesis using owned_publications_remove(2) that Some by (auto simp: g3_def)
      qed (simp add: g3_def)
    qed
    let ?c3 = "?c1\<lparr>ct_messageQueue := if v \<ge> 5 then ct_messageQueue c else ct_messageQueue c @ [e], ct_inboundMsgs := ?ins\<rparr>"
    note s = remove_msg_distinct[OF d(2), of ?i]
    have "held_entry g3 y = held_entry g y" if "y \<in> set ?ins" for y
      using ref_in[OF that] by (intro held_entry_cong g3(2)) simp
    moreover have "dom (H(?i := None)) = ms_msgid ` set ?ins" using s d(1) by auto
    ultimately have "stands_for v M (g3\<lparr>mp_msgs_received := mp_msgs_received g3 + 1\<rparr>) ?c3 (H(?i := None))"
      using g3(1) s assms(2) by (auto simp: stands_for_def)
    then show ?thesis using Some x w m f del e by (simp add: MQTTProtocol_handlePubrels_def Let_def g3_def)
  qed
qed

lemma inbound_message_fine:
  assumes "inbound_message os r p = Inr m" "publish_fine v p" "header_qos (pub_header p) = 2"
  shows "ms_msgid m = pub_msgId p" "ms_publish m = Some r" "inbound_fine v m"
proof -
  obtain q where "message_properties p (ms_properties (os_mem os)) = Inr q" using fine_properties[OF assms(2)] by blast
  then have "m = (os_mem os)\<lparr>ms_publish := Some r, ms_msgid := pub_msgId p, ms_qos := 2, ms_retain := header_retain (pub_header p),
      ms_MQTTVersion := pub_MQTTVersion p, ms_properties := q, ms_nextMessageType := PUBREL\<rparr>"
    using assms(1,3) by (simp add: inbound_message_def Let_def)
  then show "ms_msgid m = pub_msgId p" "ms_publish m = Some r" "inbound_fine v m"
    using assms(2) by (simp_all add: inbound_fine_def publish_fine_def)
qed

lemma held_entry_new:
  assumes "inbound_message os r p = Inr m" "publish_fine v p" "header_qos (pub_header p) = 2"
    "mp_heap g r = Some \<lparr>pb_topic = pub_topic p, pb_topiclen = pub_topiclen p, pb_payload = pub_payload p,
       pb_payloadlen = pub_payloadlen p, pb_refcount = 1\<rparr>"
  shows "held_entry g m = Some (publish_entry p)"
  using message_entry(1)[OF assms(2,3,1)] inbound_message_fine(2)[OF assms(1-3)] assms(4) by (simp add: held_entry_def)

lemma qos2_again:
  assumes "os_fine os" "stands_for v M g c H" "publish_fine v p" "header_qos (pub_header p) = 2" "H (pub_msgId p) \<noteq> None"
  shows "\<exists>g1 c1. handle_qos2 os p g c = Inr (0, g1, c1) \<and> stands_for v M g1 c1 (H(pub_msgId p \<mapsto> publish_entry p)) \<and>
    ct_messageQueue c1 = ct_messageQueue c"
proof -
  let ?i = "pub_msgId p" and ?out = "refs (ct_outboundMsgs c) + M"
  have d: "dom H = ms_msgid ` set (ct_inboundMsgs c)" "distinct (map ms_msgid (ct_inboundMsgs c))"
    and o: "owned g (refs (ct_inboundMsgs c) + ?out)" using assms(2) by (simp_all add: stands_for_def)
  obtain r g1 where st: "MQTTProtocol_storePublication p g = (r, g1)" by fastforce
  note s = owned_store[OF o st]
  obtain q where "message_properties p (ms_properties (os_mem os)) = Inr q" using fine_properties[OF assms(3)] by blast
  then obtain m where im: "inbound_message os r p = Inr m" by (simp add: inbound_message_def Let_def)
  note m = inbound_message_fine[OF im assms(3,4)]
  have "?i \<in> dom H" using assms(5) by blast
  then have "find_msg ?i (ct_inboundMsgs c) \<noteq> None" using d(1) by (simp add: find_msg_None msgid_free_def)
  then obtain old where old: "find_msg ?i (ct_inboundMsgs c) = Some old" by blast
  let ?ins = "replace_msg ?i m (ct_inboundMsgs c)"
  have mr: "msg_ref m = {#r#}" using m(2) by (simp add: msg_ref_def)
  have "add_mset r (refs (ct_inboundMsgs c) + ?out) = (refs (ct_inboundMsgs c) + msg_ref m) + ?out" by (simp add: mr)
  also have "\<dots> = msg_ref old + (refs ?ins + ?out)" unfolding refs_replace[OF old, of m, symmetric] by (simp add: ac_simps)
  finally have e: "add_mset r (refs (ct_inboundMsgs c) + ?out) = msg_ref old + (refs ?ins + ?out)" .
  have "owned g1 (msg_ref old + (refs ?ins + ?out))" using s(1) unfolding e .
  from owned_remove[OF this] obtain g2 where g2: "MQTTProtocol_removePublication (ms_publish old) g1 = Inr g2" "owned g2 (refs ?ins + ?out)"
    "\<And>r. r \<in># refs ?ins + ?out \<Longrightarrow> mp_heap g2 r = mp_heap g1 r" by blast
  obtain x where x: "putdatas os (MQTTPacket_send_pubrec ?i) g2 (c\<lparr>ct_inboundMsgs := ?ins\<rparr>) =
      Inr (0, emit (Ev_sent x) g2, c\<lparr>ct_inboundMsgs := ?ins, ct_lastSent := os_now os\<rparr>)"
    using putdatas_ack[OF assms(1), of PUBREC ?i 0 g2 "c\<lparr>ct_inboundMsgs := ?ins\<rparr>"] unfolding MQTTPacket_send_pubrec_def by auto
  have set: "set ?ins = insert m {y \<in> set (ct_inboundMsgs c). ms_msgid y \<noteq> ?i}" using replace_msg_set[OF d(2) old] .
  have held: "held_entry g2 y = held_entry g y" if y: "y \<in> set (ct_inboundMsgs c)" "ms_msgid y \<noteq> ?i" for y
  proof (rule held_entry_cong)
    fix r' assume r': "ms_publish y = Some r'"
    have "r' \<in># refs ?ins" using ref_in[OF _ r', of ?ins] y set by simp
    moreover have "r' \<noteq> r" using s(2) ref_in[OF y(1) r'] by auto
    ultimately show "mp_heap g2 r' = mp_heap g r'" using g2(3)[of r'] s(3) by simp
  qed
  have "mp_heap g2 r = mp_heap g1 r" using g2(3)[of r] ref_in[of m ?ins r] m(2) set by simp
  then have new: "held_entry g2 m = Some (publish_entry p)" using held_entry_new[OF im assms(3,4)] s(3) by simp
  have "dom (H(?i \<mapsto> publish_entry p)) = ms_msgid ` set ?ins" using d(1) m(1) by (auto simp: set image_iff)
  then have "stands_for v M (emit (Ev_sent x) g2) (c\<lparr>ct_inboundMsgs := ?ins, ct_lastSent := os_now os\<rparr>) (H(?i \<mapsto> publish_entry p))"
    using g2(2) assms(2) d(2) m held new set
    by (auto simp: stands_for_def replace_msg_ids[of m ?i])
  moreover have "handle_qos2 os p g c = Inr (0, emit (Ev_sent x) g2, c\<lparr>ct_inboundMsgs := ?ins, ct_lastSent := os_now os\<rparr>)"
    using st im m(1) old g2(1) x assms(3) by (simp add: handle_qos2_def kept_rc_def publish_fine_def)
  ultimately show ?thesis by simp
qed

lemma qos2_new:
  assumes "os_fine os" "stands_for v M g c H" "publish_fine v p" "header_qos (pub_header p) = 2" "H (pub_msgId p) = None"
  shows "\<exists>g1 c1. handle_qos2 os p g c = Inr (0, g1, c1) \<and> stands_for v M g1 c1 (H(pub_msgId p \<mapsto> publish_entry p)) \<and>
    ct_messageQueue c1 = (if v \<ge> 5 then ct_messageQueue c @ [publish_entry p] else ct_messageQueue c)"
proof -
  let ?i = "pub_msgId p" and ?out = "refs (ct_outboundMsgs c) + M"
  have d: "dom H = ms_msgid ` set (ct_inboundMsgs c)" "distinct (map ms_msgid (ct_inboundMsgs c))"
    and o: "owned g (refs (ct_inboundMsgs c) + ?out)" using assms(2) by (simp_all add: stands_for_def)
  obtain r g1 where st: "MQTTProtocol_storePublication p g = (r, g1)" by fastforce
  note s = owned_store[OF o st]
  obtain q where "message_properties p (ms_properties (os_mem os)) = Inr q" using fine_properties[OF assms(3)] by blast
  then obtain m where im: "inbound_message os r p = Inr m" by (simp add: inbound_message_def Let_def)
  note m = inbound_message_fine[OF im assms(3,4)]
  have "?i \<notin> dom H" using assms(5) by blast
  then have free: "?i \<notin> ms_msgid ` set (ct_inboundMsgs c)" using d(1) by simp
  then have new: "find_msg ?i (ct_inboundMsgs c) = None" by (simp add: find_msg_None msgid_free_def)
  let ?ins = "ct_inboundMsgs c @ [m]" and ?pb = "\<lparr>pb_topic = pub_topic p, pb_topiclen = pub_topiclen p, pb_payload = pub_payload p,
       pb_payloadlen = pub_payloadlen p, pb_refcount = 1\<rparr>"
  let ?c2 = "c\<lparr>ct_inboundMsgs := ?ins, ct_lastSent := os_now os\<rparr>"
  obtain x where x: "putdatas os (MQTTPacket_send_pubrec ?i) g1 (c\<lparr>ct_inboundMsgs := ?ins\<rparr>) = Inr (0, emit (Ev_sent x) g1, ?c2)"
    using putdatas_ack[OF assms(1), of PUBREC ?i 0 g1 "c\<lparr>ct_inboundMsgs := ?ins\<rparr>"] unfolding MQTTPacket_send_pubrec_def by auto
  have dom: "dom (H(?i \<mapsto> publish_entry p)) = ms_msgid ` set ?ins" using d(1) m(1) by auto
  have dis: "distinct (map ms_msgid ?ins)" using d(2) free m(1) by simp
  have v: "ms_MQTTVersion m = v" using m(3) by (simp add: inbound_fine_def)
  have h: "mp_heap (emit (Ev_sent x) g1) r = Some ?pb" using s(3) by simp
  show ?thesis
  proof (cases "v \<ge> 5")
    case True
    let ?m = "m\<lparr>ms_publish := None\<rparr>" and ?c3 = "?c2\<lparr>ct_messageQueue := ct_messageQueue c @ [publish_entry p]\<rparr>"
    let ?g3 = "publications_remove r (emit (Ev_sent x) g1)"
    have rep: "replace_msg ?i ?m ?ins = ct_inboundMsgs c @ [?m]"
      using free m(1) by (rule replace_msg_append)
    have "owned ?g3 (refs (ct_inboundMsgs c) + ?out)" using owned_publications_remove(1)[of "emit (Ev_sent x) g1"] s(1) by simp
    then have "stands_for v M ?g3 (?c3\<lparr>ct_inboundMsgs := ct_inboundMsgs c @ [?m]\<rparr>) (H(?i \<mapsto> publish_entry p))"
      using True assms(2) dom dis m(1,3) by (simp add: stands_for_def msg_ref_def inbound_fine_def)
    moreover have "handle_qos2 os p g c = Inr (0, ?g3, ?c3\<lparr>ct_inboundMsgs := ct_inboundMsgs c @ [?m]\<rparr>)"
      using st im m(1) new x True v h rep message_entry(2)[OF assms(3,4) im refl, of ?c2 True]
      by (simp add: handle_qos2_def deliver_now_def)
    ultimately show ?thesis using True by simp
  next
    case False
    have held: "held_entry g1 y = H (ms_msgid y)" if y: "y \<in> set (ct_inboundMsgs c)" for y
    proof -
      have "held_entry g1 y = held_entry g y"
      proof (rule held_entry_cong)
        fix r' assume r': "ms_publish y = Some r'"
        have "r' \<noteq> r" using s(2) ref_in[OF y r'] by auto
        then show "mp_heap g1 r' = mp_heap g r'" using s(3) by simp
      qed
      then show ?thesis using False assms(2) y by (simp add: stands_for_def)
    qed
    have "held_entry g1 m = Some (publish_entry p)" using held_entry_new[OF im assms(3,4)] s(3) by simp
    then have "stands_for v M (emit (Ev_sent x) g1) ?c2 (H(?i \<mapsto> publish_entry p))"
      using s(1) False assms(2) dom dis m held free
      by (auto simp: stands_for_def msg_ref_def image_iff)
    moreover have "handle_qos2 os p g c = Inr (0, emit (Ev_sent x) g1, ?c2)"
      using st im m(1) new x False v assms(3) by (simp add: handle_qos2_def kept_rc_def publish_fine_def)
    ultimately show ?thesis using False by simp
  qed
qed

lemma publishes_fine:
  assumes "os_fine os" "stands_for v M g c H" "publish_fine v p" "receive_packet v (Pk_publish p) (H, ct_messageQueue c) = (H', q')"
  shows "\<exists>g1 c1. MQTTProtocol_handlePublishes os p g c = Inr (0, g1, c1) \<and> stands_for v M g1 c1 H' \<and> ct_messageQueue c1 = q'"
proof -
  have w: "os_noPendingWrites os" using assms(1) by (simp add: os_fine_def)
  let ?q = "\<lambda>c. c\<lparr>ct_messageQueue := ct_messageQueue c @ [publish_entry p]\<rparr>"
  consider "header_qos (pub_header p) = 0" | "header_qos (pub_header p) = 1" | "header_qos (pub_header p) = 2"
    | "header_qos (pub_header p) \<notin> {0, 1, 2}" by blast
  then show ?thesis
  proof cases
    case 1
    have "stands_for v M g (?q c) H" by (rule stands_for_same[OF assms(2)]) simp_all
    then show ?thesis using 1 assms(4) process_fine[OF assms(3)]
      by (simp add: MQTTProtocol_handlePublishes_def TCPSOCKET_COMPLETE_def)
  next
    case 2
    obtain x where x: "putdatas os (MQTTPacket_send_puback (pub_msgId p)) g c = Inr (0, emit (Ev_sent x) g, c\<lparr>ct_lastSent := os_now os\<rparr>)"
      using putdatas_ack[OF assms(1)] unfolding MQTTPacket_send_puback_def by blast
    have "stands_for v M (emit (Ev_sent x) g) (?q (c\<lparr>ct_lastSent := os_now os\<rparr>)) H" by (rule stands_for_same[OF assms(2)]) simp_all
    then show ?thesis using 2 x w assms(4) process_fine[OF assms(3)] by (simp add: MQTTProtocol_handlePublishes_def)
  next
    case 3
    have e: "MQTTProtocol_handlePublishes os p g c = handle_qos2 os p g c" using 3 w by (simp add: MQTTProtocol_handlePublishes_def)
    have s: "H' = H(pub_msgId p \<mapsto> publish_entry p)"
      "q' = (if v \<ge> 5 \<and> H (pub_msgId p) = None then ct_messageQueue c @ [publish_entry p] else ct_messageQueue c)"
      using 3 assms(4) by (simp_all add: Let_def)
    show ?thesis
    proof (cases "H (pub_msgId p) = None")
      case True
      then show ?thesis using qos2_new[OF assms(1-3) 3 True] by (simp add: e s)
    next
      case False
      then show ?thesis using qos2_again[OF assms(1-3) 3 False] unfolding e s by auto
    qed
  next
    case 4
    then show ?thesis using assms(2,4) w by (simp add: MQTTProtocol_handlePublishes_def TCPSOCKET_COMPLETE_def)
  qed
qed

lemma cycle_packet_fine:
  assumes "os_fine os" "stands_for v M g c H" "packet_fine v pack" "receive_packet v pack (H, ct_messageQueue c) = (H', q')"
  shows "\<exists>left cbs g1 c1. cycle_packet m os pack g c = Inr (0, left, cbs, g1, c1) \<and> stands_for v M g1 c1 H' \<and> ct_messageQueue c1 = q'"
proof (cases pack)
  case (Pk_publish p)
  then show ?thesis using publishes_fine[OF assms(1,2), of p H' q'] assms(3,4) by (auto simp: cycle_packet_def)
next
  case (Pk_ack a)
  let ?t = "header_type (ack_header a)"
  consider "?t = PUBREL" | "?t = PUBACK" | "?t = PUBCOMP" | "?t = PUBREC" | "?t \<notin> {PUBREL, PUBACK, PUBCOMP, PUBREC}" by blast
  then show ?thesis
  proof cases
    case 1
    then show ?thesis using pubrels_fine[OF assms(1,2), of a] assms(4) Pk_ack
      by (cases "H (ack_msgId a)") (auto simp: cycle_packet_def)
  next
    case 2
    then show ?thesis using pubacks_fine[OF assms(1,2), of a] assms(4) Pk_ack by (auto simp: cycle_packet_def Let_def)
  next
    case 3
    then show ?thesis using pubcomps_fine[OF assms(1,2), of a] assms(4) Pk_ack by (auto simp: cycle_packet_def Let_def)
  next
    case 4
    then show ?thesis using pubrecs_fine[OF assms(1,2), of a] assms(4) Pk_ack by (auto simp: cycle_packet_def Let_def)
  next
    case 5
    then show ?thesis using assms(2,4) Pk_ack by (simp add: cycle_packet_def Let_def TCPSOCKET_COMPLETE_def)
  qed
next
  case (Pk_header h)
  have "stands_for v M g (MQTTProtocol_handlePingresps c) H"
    by (rule stands_for_same[OF assms(2)]) (simp_all add: MQTTProtocol_handlePingresps_def)
  then show ?thesis using assms(2,4) Pk_header
    by (simp add: cycle_packet_def TCPSOCKET_COMPLETE_def MQTTProtocol_handlePingresps_def)
qed (use assms(2,4) in \<open>simp_all add: cycle_packet_def TCPSOCKET_COMPLETE_def\<close>)

text \<open>The packets one after the other, for the abstract receiver.\<close>

fun receive_packets :: "int \<Rightarrow> packet list \<Rightarrow> (int \<Rightarrow> qEntry option) \<times> qEntry list \<Rightarrow> (int \<Rightarrow> qEntry option) \<times> qEntry list" where
  "receive_packets v [] s = s"
| "receive_packets v (p # ps) s = receive_packets v ps (receive_packet v p s)"

text \<open>C13: whatever packets arrive, in whatever order, the handlers of the client do what the abstract receiver does: no publication is used
  after it was freed, none is lost or held twice, and the queue of the application is that of the receiver.\<close>

theorem handlers_refine_receiver:
  assumes "stands_for v M g c H" "\<forall>(os, pack)\<in>set packets. os_fine os \<and> packet_fine v pack"
  shows "\<exists>g' c' H'. cycle_packets m packets g c = Inr (True, g', c') \<and> stands_for v M g' c' H' \<and>
    receive_packets v (map snd packets) (H, ct_messageQueue c) = (H', ct_messageQueue c')"
  using assms
proof (induction packets arbitrary: g c H)
  case Nil
  then show ?case by simp
next
  case (Cons x packets)
  obtain os pack where x: "x = (os, pack)" by fastforce
  obtain H1 q1 where r: "receive_packet v pack (H, ct_messageQueue c) = (H1, q1)" by fastforce
  have "os_fine os" "packet_fine v pack" using Cons.prems(2) x by auto
  from cycle_packet_fine[OF this(1) Cons.prems(1) this(2) r] obtain left cbs g1 c1 where
    c: "cycle_packet m os pack g c = Inr (0, left, cbs, g1, c1)" "stands_for v M g1 c1 H1" "ct_messageQueue c1 = q1" by blast
  show ?case using Cons.IH[OF c(2)] Cons.prems(2) c r x by (auto simp: SOCKET_ERROR_def)
qed

section \<open>Exactly once\<close>

text \<open>The packets about the message id \<open>i\<close> of an exchange of quality 2, and the messages it brings.\<close>

fun about :: "int \<Rightarrow> packet \<Rightarrow> bool" where
  "about i (Pk_publish p) \<longleftrightarrow> header_qos (pub_header p) = 2 \<and> pub_msgId p = i"
| "about i (Pk_ack a) \<longleftrightarrow> header_type (ack_header a) = PUBREL \<and> ack_msgId a = i"
| "about i _ \<longleftrightarrow> False"

definition brought :: "int \<Rightarrow> qEntry list \<Rightarrow> qEntry list" where
  "brought i q = filter (\<lambda>e. qe_qos e = 2 \<and> qe_msgid e = i) q"

text \<open>What the receiver holds under an id has this id.\<close>

definition held_ids :: "(int \<Rightarrow> qEntry option) \<Rightarrow> bool" where
  "held_ids H \<longleftrightarrow> (\<forall>i e. H i = Some e \<longrightarrow> qe_qos e = 2 \<and> qe_msgid e = i)"

lemma brought_simps [simp]:
  "brought i [] = []" "brought i (q @ [e]) = brought i q @ (if qe_qos e = 2 \<and> qe_msgid e = i then [e] else [])"
  by (simp_all add: brought_def)

lemma entry_fields [simp]: "qe_qos (publish_entry p) = header_qos (pub_header p)" "qe_msgid (publish_entry p) = pub_msgId p"
  by (simp_all add: publish_entry_def)

lemma receive_held_ids: "held_ids H \<Longrightarrow> receive_packet v pk (H, q) = (H', q') \<Longrightarrow> held_ids H'"
  by (cases pk) (auto simp: held_ids_def Let_def split: if_splits option.splits)

text \<open>What is received under an id only depends on the packets about it.\<close>

lemma receive_other:
  assumes "held_ids H" "\<not> about i pk" "receive_packet v pk (H, q) = (H', q')"
  shows "H' i = H i \<and> brought i q' = brought i q"
proof (cases pk)
  case (Pk_publish p)
  then show ?thesis using assms by (auto simp: Let_def split: if_splits)
next
  case (Pk_ack a)
  then show ?thesis using assms by (auto simp: held_ids_def split: if_splits option.splits)
qed (use assms(3) in simp_all)

lemma receive_about:
  assumes "about i pk" "H1 i = H2 i" "brought i q1 = brought i q2"
    "receive_packet v pk (H1, q1) = (H1', q1')" "receive_packet v pk (H2, q2) = (H2', q2')"
  shows "H1' i = H2' i \<and> brought i q1' = brought i q2'"
  using assms by (cases pk) (auto simp: Let_def split: if_splits option.splits)

lemma receive_filter:
  "held_ids H1 \<Longrightarrow> H1 i = H2 i \<Longrightarrow> brought i q1 = brought i q2 \<Longrightarrow> receive_packets v pks (H1, q1) = (H1', q1') \<Longrightarrow>
   receive_packets v (filter (about i) pks) (H2, q2) = (H2', q2') \<Longrightarrow> H1' i = H2' i \<and> brought i q1' = brought i q2'"
proof (induction pks arbitrary: H1 H2 q1 q2)
  case (Cons pk pks)
  obtain H q where r: "receive_packet v pk (H1, q1) = (H, q)" by fastforce
  have h: "held_ids H" using receive_held_ids[OF Cons.prems(1) r] .
  show ?case
  proof (cases "about i pk")
    case True
    obtain H'' q'' where r': "receive_packet v pk (H2, q2) = (H'', q'')" by fastforce
    note a = receive_about[OF True Cons.prems(2,3) r r']
    show ?thesis using Cons.IH[of H H'' q q'', OF h conjunct1[OF a] conjunct2[OF a]] Cons.prems(4,5) r r' True by simp
  next
    case False
    note a = receive_other[OF Cons.prems(1) False r]
    have "H i = H2 i" "brought i q = brought i q2" using a Cons.prems(2,3) by simp_all
    then show ?thesis using Cons.IH[of H H2 q q2, OF h] Cons.prems(4,5) r False by simp
  qed
qed simp

text \<open>An exchange as a sender makes it: the same message once or more, marked as a duplicate or not, then its release once or more.\<close>

record qos2_exchange =
  ex_publishes :: "Publish list"
  ex_releases :: "Ack list"

definition exchange_packets :: "qos2_exchange \<Rightarrow> packet list" where
  "exchange_packets x = map Pk_publish (ex_publishes x) @ map Pk_ack (ex_releases x)"

definition exchange_of :: "int \<Rightarrow> qEntry \<Rightarrow> qos2_exchange \<Rightarrow> bool" where
  "exchange_of i e x \<longleftrightarrow> ex_publishes x \<noteq> [] \<and> ex_releases x \<noteq> [] \<and> qe_qos e = 2 \<and> qe_msgid e = i \<and>
     (\<forall>p\<in>set (ex_publishes x). publish_entry p = e) \<and>
     (\<forall>a\<in>set (ex_releases x). header_type (ack_header a) = PUBREL \<and> ack_msgId a = i)"

lemma receive_append: "receive_packets v (xs @ ys) s = receive_packets v ys (receive_packets v xs s)"
  by (induction xs arbitrary: s) simp_all

lemma receive_publishes_held:
  assumes "qe_qos e = 2" "qe_msgid e = i"
  shows "\<forall>p\<in>set ps. publish_entry p = e \<Longrightarrow> H i = Some e \<Longrightarrow> receive_packets v (map Pk_publish ps) (H, q) = (H, q)"
proof (induction ps)
  case (Cons p ps)
  have "header_qos (pub_header p) = 2" "pub_msgId p = i" using Cons.prems(1) assms entry_fields[of p] by auto
  moreover have "H(i \<mapsto> e) = H" using Cons.prems(2) by auto
  ultimately show ?case using Cons by (simp add: Let_def)
qed simp

lemma receive_publishes:
  assumes "qe_qos e = 2" "qe_msgid e = i" "\<forall>p\<in>set ps. publish_entry p = e" "ps \<noteq> []" "H i = None"
  shows "receive_packets v (map Pk_publish ps) (H, q) = (H(i \<mapsto> e), if v \<ge> 5 then q @ [e] else q)"
proof -
  obtain p ps' where ps: "ps = p # ps'" using assms(4) by (cases ps) auto
  have "header_qos (pub_header p) = 2" "pub_msgId p = i" using assms(1-3) entry_fields[of p] by (auto simp: ps)
  then show ?thesis using assms receive_publishes_held[OF assms(1,2), of ps' "H(i \<mapsto> e)"] by (simp add: ps Let_def)
qed

lemma receive_releases_none:
  "\<forall>a\<in>set as. header_type (ack_header a) = PUBREL \<and> ack_msgId a = i \<Longrightarrow> H i = None \<Longrightarrow>
   receive_packets v (map Pk_ack as) (H, q) = (H, q)"
  by (induction as) simp_all

lemma receive_releases:
  assumes "\<forall>a\<in>set as. header_type (ack_header a) = PUBREL \<and> ack_msgId a = i" "as \<noteq> []" "H i = Some e"
  shows "receive_packets v (map Pk_ack as) (H, q) = (H(i := None), if v \<ge> 5 then q else q @ [e])"
proof -
  obtain a as' where a: "as = a # as'" using assms(2) by (cases as) auto
  then show ?thesis using assms receive_releases_none[of as' i "H(i := None)"] by simp
qed

lemma receive_exchange:
  assumes "exchange_of i e x" "H i = None"
  shows "receive_packets v (exchange_packets x) (H, q) = (H, q @ [e])"
proof -
  have "H(i := None) = H" using assms(2) by auto
  then show ?thesis
    using assms receive_publishes[of e i "ex_publishes x" H v q] receive_releases[of "ex_releases x" i "H(i \<mapsto> e)" e v]
    by (simp add: exchange_packets_def receive_append exchange_of_def)
qed

lemma receive_exchanges:
  "list_all2 (exchange_of i) es xs \<Longrightarrow> H i = None \<Longrightarrow>
   receive_packets v (concat (map exchange_packets xs)) (H, q) = (H, q @ es)"
  by (induction es xs arbitrary: q rule: list_all2_induct) (simp_all add: receive_append receive_exchange)


section \<open>Packets as they are read\<close>

text \<open>The properties of a packet that was read can be copied, so that the packets of the theorems above are those of the factory.\<close>

definition typed :: "MQTTProperty \<Rightarrow> bool" where
  "typed p \<longleftrightarrow> (case MQTTProperty_getType (pr_identifier p) of None \<Rightarrow> True | Some t \<Rightarrow> \<exists>n. added_length t (pr_value p) = Inr n)"

lemma read_value_typed: "read_value t data p = Inr (len, v, p') \<Longrightarrow> len \<noteq> -1 \<Longrightarrow> \<exists>n. added_length t v = Inr n"
  by (cases t) (auto simp: read_value_def res_simps split: if_splits)

lemma property_read_typed: "MQTTProperty_read data p = Inr (len, pr, p') \<Longrightarrow> len > 0 \<Longrightarrow> typed pr"
  using read_value_typed by (fastforce simp: MQTTProperty_read_def typed_def res_simps split: option.splits if_splits)

lemma read_loop_typed: "read_loop data p r acc = Inr (r', ps, p') \<Longrightarrow> list_all typed acc \<Longrightarrow> list_all typed ps"
proof (induction data p r acc rule: read_loop.induct)
  case (1 data p r acc)
  show ?case
  proof (cases "r = 0")
    case True
    then show ?thesis using 1(2,3) by (simp add: read_loop.simps)
  next
    case False
    then obtain len pr q where pr: "MQTTProperty_read data p = Inr (len, pr, q)"
      using 1(2) by (subst (asm) read_loop.simps) (auto simp: res_simps)
    show ?thesis
    proof (cases "len > 0")
      case True
      then have "list_all typed (acc @ [pr])" using property_read_typed[OF pr] 1(3) by simp
      moreover have "read_loop data q (r - word_of_int len) (acc @ [pr]) = Inr (r', ps, p')"
        using 1(2) False True pr by (subst (asm) read_loop.simps) simp
      ultimately show ?thesis using 1(1)[OF False pr refl refl True] by simp
    next
      case len: False
      then show ?thesis using 1(2,3) False pr by (subst (asm) read_loop.simps) simp
    qed
  qed
qed

lemma copy_typed: "list_all typed ps \<Longrightarrow> \<exists>q. copy_loop ps r = Inr q"
  by (induction ps arbitrary: r) (auto simp: typed_def MQTTProperties_add_def split: option.splits)

lemma properties_read_copies:
  assumes "MQTTProperties_read data p = Inr (1, ps, p')"
  shows "\<exists>q. MQTTProperties_copy ps = Inr q"
  using assms read_loop_typed copy_typed
  by (fastforce simp: MQTTProperties_read_def MQTTProperties_copy_def res_simps split: if_splits)

lemma read_publish_fine:
  assumes "MQTTPacket_publish v h data = Inr (Some p)" "0 \<le> pub_payloadlen p"
  shows "publish_fine v p"
proof -
  have "pub_MQTTVersion p = v \<and> (v \<ge> 5 \<longrightarrow> (\<exists>q. MQTTProperties_copy (pub_properties p) = Inr q))"
    using assms(1) properties_read_copies
    by (fastforce simp: MQTTPacket_publish_def bind_opt_def read_properties_def res_simps split: option.splits if_splits)
  then show ?thesis using assms(2) by (auto simp: publish_fine_def)
qed

section \<open>Retries\<close>

text \<open>What is sent again for an outbound message: the message itself, until its receipt is known, and its release after that.\<close>

definition resend :: "protocol \<Rightarrow> Messages \<Rightarrow> sent res" where
  "resend g m =
     (if ms_qos m = 2 \<and> ms_nextMessageType m = PUBCOMP then MQTTPacket_send_pubrel (ms_msgid m) 0
      else case ms_publish m of
             None \<Rightarrow> Inl Null_deref
           | Some r \<Rightarrow>
               (case mp_heap g r of
                  None \<Rightarrow> Inl Use_after_free
                | Some pb \<Rightarrow> MQTTPacket_send_publish [] (retry_publish m pb) 1 (ms_qos m) (ms_retain m)))"

text \<open>A message of quality 1 or 2 that waits for an acknowledgement and can be written as a packet.\<close>

definition outbound_fine :: "protocol \<Rightarrow> Messages \<Rightarrow> bool" where
  "outbound_fine g m \<longleftrightarrow> (ms_qos m = 1 \<or> ms_qos m = 2 \<and> ms_nextMessageType m \<in> {PUBREC, PUBCOMP}) \<and>
     (case resend g m of Inr x \<Rightarrow> True | Inl _ \<Rightarrow> False)"

lemma retry_message_fine:
  assumes "os_fine os" "outbound_fine g m" "resend g m = Inr x" "mp_heap g' = mp_heap g"
  shows "retry_message os m g' c = Inr (False, m\<lparr>ms_lastTouch := os_now os\<rparr>, emit (Ev_sent x) g', c\<lparr>ct_lastSent := os_now os\<rparr>)"
proof -
  have p: "putdatas os (Inr x) g' c = Inr (0, emit (Ev_sent x) g', c\<lparr>ct_lastSent := os_now os\<rparr>)"
    using assms(1) by (simp add: putdatas_def os_fine_def TCPSOCKET_COMPLETE_def)
  consider "ms_qos m = 2" "ms_nextMessageType m = PUBCOMP" | "ms_qos m = 1 \<or> ms_qos m = 2 \<and> ms_nextMessageType m = PUBREC"
    using assms(2) by (auto simp: outbound_fine_def)
  then show ?thesis
  proof cases
    case 1
    then have "MQTTPacket_send_pubrel (ms_msgid m) 0 = Inr x" using assms(3) by (simp add: resend_def)
    then show ?thesis using 1 p by (simp add: retry_message_def TCPSOCKET_COMPLETE_def)
  next
    case 2
    then obtain r pb where r: "ms_publish m = Some r" "mp_heap g' r = Some pb"
      "MQTTPacket_send_publish [] (retry_publish m pb) 1 (ms_qos m) (ms_retain m) = Inr x"
      using assms(3,4) by (auto simp: resend_def split: option.splits)
    then show ?thesis using 2 p by (simp add: retry_message_def SOCKET_ERROR_def)
  qed
qed

definition untouched :: "Messages \<Rightarrow> Messages" where "untouched m = m\<lparr>ms_lastTouch := 0\<rparr>"

lemma untouched_touch [simp]: "untouched (m\<lparr>ms_lastTouch := t\<rparr>) = untouched m"
  by (simp add: untouched_def)

lemma retries_loop_fine:
  assumes "\<forall>i. os_fine (os i)"
  shows "\<forall>m\<in>set ms. outbound_fine g m \<Longrightarrow> ct_connected c \<noteq> 0 \<Longrightarrow> ct_good c \<noteq> 0 \<Longrightarrow> mp_heap g' = mp_heap g \<Longrightarrow>
    \<exists>g2 c2 xs. retries_loop os now True i before ms g' c = Inr (g2, c2) \<and> list_all2 (\<lambda>m x. resend g m = Inr x) ms xs \<and>
      mp_events g2 = mp_events g' @ map Ev_sent xs \<and> map untouched (ct_outboundMsgs c2) = map untouched (before @ ms) \<and>
      ct_connected c2 = ct_connected c"
proof (induction ms arbitrary: i before g' c)
  case Nil
  then show ?case by simp
next
  case (Cons m ms)
  have f: "outbound_fine g m" and w: "os_fine (os i)" using Cons.prems(1) assms by simp_all
  obtain x where x: "resend g m = Inr x" using f by (auto simp: outbound_fine_def split: sum.splits)
  let ?m = "m\<lparr>ms_lastTouch := os_now (os i)\<rparr>" and ?g = "emit (Ev_sent x) g'" and ?c = "c\<lparr>ct_lastSent := os_now (os i)\<rparr>"
  have r: "retry_message (os i) m g' c = Inr (False, ?m, ?g, ?c)" using retry_message_fine[OF w f x Cons.prems(4)] .
  have n: "os_noPendingWrites (os i)" using w by (simp add: os_fine_def)
  have "\<forall>m\<in>set ms. outbound_fine g m" "ct_connected ?c \<noteq> 0" "ct_good ?c \<noteq> 0" "mp_heap ?g = mp_heap g" using Cons.prems by simp_all
  from Cons.IH[OF this, of "Suc i" "before @ [?m]"] obtain g2 c2 xs where
    IH: "retries_loop os now True (Suc i) (before @ [?m]) ms ?g ?c = Inr (g2, c2)" "list_all2 (\<lambda>m x. resend g m = Inr x) ms xs"
    "mp_events g2 = mp_events ?g @ map Ev_sent xs" "map untouched (ct_outboundMsgs c2) = map untouched ((before @ [?m]) @ ms)"
    "ct_connected c2 = ct_connected ?c" by blast
  have "retries_loop os now True i before (m # ms) g' c = Inr (g2, c2)" using Cons.prems(2,3) n r IH(1) by simp
  then show ?case using IH x by (intro exI[of _ g2] exI[of _ c2] exI[of _ "x # xs"]) (simp add: emit_def)
qed


section \<open>Concrete instances\<close>

definition os_good :: net_os where
  "os_good = \<lparr>os_noPendingWrites = True, os_send = TCPSOCKET_COMPLETE, os_disconnect = TCPSOCKET_COMPLETE, os_remove = 0,
     os_now = 5, os_mem = zero_message\<rparr>"

definition new_protocol :: protocol where
  "new_protocol = \<lparr>mp_heap = Map.empty, mp_publications = [], mp_next = 0, mp_pending_writes = [], mp_msgs_sent = 0,
     mp_msgs_received = 0, mp_events = []\<rparr>"

text \<open>A message of quality 2 with the id 7, sent, sent again as a duplicate, and released twice; in between, one of quality 0.\<close>

definition sample_qos2 :: "int \<Rightarrow> Publish" where
  "sample_qos2 dup = \<lparr>pub_header = header_byte PUBLISH dup 2 0, pub_topic = [0x74], pub_topiclen = 1, pub_msgId = 7,
     pub_payload = [1, 2], pub_payloadlen = 2, pub_MQTTVersion = 4, pub_properties = MQTTProperties_initializer\<rparr>"

definition sample_qos0 :: Publish where
  "sample_qos0 = (sample_qos2 0)\<lparr>pub_header := header_byte PUBLISH 0 0 0, pub_msgId := 0\<rparr>"

definition sample_pubrel :: Ack where
  "sample_pubrel = no_ack\<lparr>ack_header := header_byte PUBREL 0 1 0, ack_msgId := 7\<rparr>"

definition sample_packets :: "packet list" where
  "sample_packets = [Pk_publish (sample_qos2 0), Pk_publish sample_qos0, Pk_publish (sample_qos2 1), Pk_ack sample_pubrel,
     Pk_ack sample_pubrel]"

lemma new_client_stands: "stands_for 4 {#} new_protocol new_client Map.empty"
  by (simp add: stands_for_def owned_def new_protocol_def new_client_def)

lemma os_good_fine: "os_fine os_good" by (simp add: os_fine_def os_good_def)

lemma sample_headers:
  "header_qos (pub_header (sample_qos2 d)) = 2" "header_qos (pub_header sample_qos0) = 0" "header_type (ack_header sample_pubrel) = PUBREL"
  "header_retain (pub_header (sample_qos2 0)) = header_retain (pub_header (sample_qos2 1))"
  using header_fields(2)[of PUBLISH d 2 0] header_fields(2)[of PUBLISH 0 0 0] header_fields(1)[of PUBREL 0 1 0]
  by (simp_all add: sample_qos2_def sample_qos0_def sample_pubrel_def) (simp add: header_retain_def header_byte_def)

lemma sample_fine: "\<forall>(os, pack)\<in>set (map (Pair os_good) sample_packets). os_fine os \<and> packet_fine 4 pack"
  by (simp add: sample_packets_def os_good_fine publish_fine_def sample_qos2_def sample_qos0_def)

theorem handlers_refine_receiver_witness:
  "\<exists>g' c' H'. cycle_packets \<lparr>mc_published = False, mc_dc = True\<rparr> (map (Pair os_good) sample_packets) new_protocol new_client =
      Inr (True, g', c') \<and> stands_for 4 {#} g' c' H' \<and>
    receive_packets 4 sample_packets (Map.empty, []) = (H', ct_messageQueue c')"
proof -
  have "map snd (map (Pair os_good) sample_packets) = sample_packets" by (simp add: comp_def)
  moreover have "ct_messageQueue new_client = []" by (simp add: new_client_def)
  ultimately show ?thesis
    using handlers_refine_receiver[OF new_client_stands sample_fine, of "\<lparr>mc_published = False, mc_dc = True\<rparr>"] by simp
qed


text \<open>Two messages in flight, one that waits for a receipt and one for the end of its exchange.\<close>

definition sample_flight :: "Messages list" where
  "sample_flight = [zero_message\<lparr>ms_qos := 1, ms_msgid := 4, ms_MQTTVersion := 4, ms_publish := Some 0\<rparr>,
     zero_message\<lparr>ms_qos := 2, ms_msgid := 5, ms_MQTTVersion := 4, ms_publish := Some 1, ms_nextMessageType := PUBCOMP\<rparr>]"

definition sample_stored :: protocol where
  "sample_stored = new_protocol\<lparr>mp_heap := [0 \<mapsto> \<lparr>pb_topic = [0x74], pb_topiclen = 1, pb_payload = [9], pb_payloadlen = 1, pb_refcount = 1\<rparr>,
     1 \<mapsto> \<lparr>pb_topic = [0x74], pb_topiclen = 1, pb_payload = [], pb_payloadlen = 0, pb_refcount = 1\<rparr>], mp_publications := [0, 1], mp_next := 2\<rparr>"

lemma sample_flight_fine: "\<forall>m\<in>set sample_flight. outbound_fine sample_stored m"
proof -
  have h: "header_type (header_byte PUBLISH 1 1 0) = PUBLISH" "header_qos (header_byte PUBLISH 1 1 0) = 1"
    using header_fields[of PUBLISH 1 1 0] by simp_all
  show ?thesis
    by (simp add: sample_flight_def sample_stored_def new_protocol_def zero_message_def outbound_fine_def resend_def retry_publish_def
        MQTTPacket_send_publish_def MQTTPacket_sends_def h fill_buffer_def props_write_v5_def props_len_v5_def writeInt_def readInt_def
        readChar_def MQTTPacket_send_pubrel_def MQTTPacket_send_ack_def MQTTPacket_send_def)
qed


end
