(* ===== verification/Appl.thy ===== *)
theory Appl
  imports Mb Cloud
begin

text \<open>
  The program around the components: the options of \<open>main.c\<close>, the two initialisation steps of \<open>plt.c\<close>, and the start
  sequence of \<open>appl.c\<close> and \<open>mdl.c\<close>. The results of the system calls are the record \<open>boot_os\<close>.
\<close>

section \<open>Options\<close>

record main_t =
  mn_mdl :: mdl_t
  mn_DAEMON :: int
  mn_RUNTYPE :: int

text \<open>One pair of option character and argument, as \<open>getopt\<close> delivers it.\<close>

definition main_option :: "char \<times> string \<Rightarrow> main_t \<Rightarrow> main_t res" where
  "main_option o_a st =
     (case o_a of (ch, optarg) \<Rightarrow>
        let d = mn_mdl st
        in if ch = CHR ''a'' then Inr (st\<lparr>mn_mdl := d\<lparr>m_adr := atoi optarg\<rparr>\<rparr>)
           else if ch = CHR ''b''
           then bind_res (strcpy_buf 128 optarg) (\<lambda>v. Inr (st\<lparr>mn_mdl := d\<lparr>m_szSerial := v\<rparr>\<rparr>))
           else if ch = CHR ''c''
           then bind_res (strcpy_buf 128 optarg) (\<lambda>v. Inr (st\<lparr>mn_mdl := d\<lparr>m_szDevName := v\<rparr>\<rparr>))
           else if ch = CHR ''d'' then Inr (st\<lparr>mn_DAEMON := 1\<rparr>)
           else if ch = CHR ''p'' then Inr (st\<lparr>mn_mdl := d\<lparr>m_mqtt_servport := atoi optarg\<rparr>\<rparr>)
           else if ch = CHR ''s''
           then bind_res (strcpy_buf 16 optarg) (\<lambda>v. Inr (st\<lparr>mn_mdl := d\<lparr>m_szmqtt_servip := v\<rparr>\<rparr>))
           else if ch = CHR ''t''
           then Inr (st\<lparr>mn_RUNTYPE := (if optarg = ''appl'' then 0 else if optarg = ''tool'' then 2 else -1)\<rparr>)
           else Inr st)"

fun main_options :: "(char \<times> string) list \<Rightarrow> main_t \<Rightarrow> main_t res" where
  "main_options [] st = Inr st"
| "main_options (x # xs) st = bind_res (main_option x st) (main_options xs)"

text \<open>What \<open>main\<close> runs after the options and \<open>sim_init\<close>.\<close>

datatype runtype = Run_appl | Run_tool | Run_unknown

definition main_prog :: "(char \<times> string) list \<Rightarrow> mdl_t \<Rightarrow> (runtype \<times> main_t) res" where
  "main_prog opts d0 =
     bind_res (main_options opts \<lparr>mn_mdl = d0, mn_DAEMON = 0, mn_RUNTYPE = -1\<rparr>) (\<lambda>st.
       let st1 = st\<lparr>mn_mdl := sim_init (mn_mdl st)\<rparr>
       in Inr (if mn_RUNTYPE st1 = 0 then Run_appl else if mn_RUNTYPE st1 = 2 then Run_tool else Run_unknown, st1))"

section \<open>Start sequence\<close>

record boot_os =
  bo_daemon :: int
  bo_zlog_init :: int
  bo_zlog_category :: bool
  bo_mdl_thread :: bool
  bo_raw :: "fmodbus_t option"
  bo_serial :: serial_os
  bo_poll_thread :: bool
  bo_mqtt_thread :: bool

definition log_init :: "boot_os \<Rightarrow> int" where
  "log_init os = (if bo_zlog_init os \<noteq> 0 then -1 else if \<not> bo_zlog_category os then -2 else 0)"

definition plt_init_stp1 :: "boot_os \<Rightarrow> int" where
  "plt_init_stp1 os = (if log_init os \<noteq> 0 then -1 else 0)"

definition mdl_init :: "boot_os \<Rightarrow> int" where
  "mdl_init os = (if bo_mdl_thread os then 0 else -1)"

definition appl_init :: "boot_os \<Rightarrow> sim_t \<Rightarrow> int \<times> sim_t" where
  "appl_init os s = (if mdl_init os \<noteq> 0 then (-1, s) else (0, cloud_init s))"

text \<open>The Modbus slave is started before the uplink; the result carries the context of the slave.\<close>

definition plt_init_stp2 :: "boot_os \<Rightarrow> mdl_t \<Rightarrow> (int \<times> fmodbus_t option) res" where
  "plt_init_stp2 os d =
     bind_res (mbs_start_MDL (bo_raw os) (bo_serial os) (bo_poll_thread os) d) (\<lambda>(rc, ctx).
       Inr (if rc \<noteq> 0 then -1 else if mqtt_init (bo_mqtt_thread os) \<noteq> 0 then -3 else 0, ctx))"

text \<open>
  \<open>appl_main\<close> up to its endless loop: \<open>Some\<close> state is what the loop \<open>appl_run\<close> starts from, \<open>None\<close> is the return
  with -1.
\<close>

definition appl_main :: "boot_os \<Rightarrow> int \<Rightarrow> sim_t \<Rightarrow> (sim_t \<times> fmodbus_t option) option res" where
  "appl_main os DAEMON s =
     (if DAEMON = 1 \<and> bo_daemon os \<noteq> 0 then Inr None
      else if plt_init_stp1 os \<noteq> 0 then Inr None
      else case appl_init os s of (rc, s1) \<Rightarrow>
        if rc \<noteq> 0 then Inr None
        else bind_res (plt_init_stp2 os (sim_mdl s1)) (\<lambda>(rc2, ctx).
          if rc2 \<noteq> 0 then Inr None else Inr (Some (s1, ctx))))"

section \<open>State names\<close>

definition plt_sm_statecode2str :: "int \<Rightarrow> string" where
  "plt_sm_statecode2str stat =
     (if stat = 10 then ''launch'' else if stat = SMST_OFFLINE then ''offline'' else if stat = SMST_READY then ''ready''
      else if stat = 12 then ''stdby'' else if stat = 14 then ''dhg'' else if stat = 15 then ''chg''
      else if stat = 16 then ''err'' else ''unknown'')"

definition plt_devm_str2nbr :: "string \<Rightarrow> int" where
  "plt_devm_str2nbr m =
     (if m = ''zh200'' then 0 else if m = ''dtsd1352'' then 1 else if m = ''dlt645'' then 2 else -1)"

section \<open>Properties\<close>

text \<open>Fact: the options configure the model exactly as printed, the voltages start at 400.1, 400.2 and 400.3 V and
  the application runs; and a server name of 16 or more characters overruns its array.\<close>

theorem main_configures_model:
  assumes "- (2 ^ 31) \<le> adr \<and> adr < 2 ^ 31" "- (2 ^ 31) \<le> port \<and> port < 2 ^ 31" "length ser < 128" "length dev < 128"
    "opts = [(CHR ''a'', show_int adr), (CHR ''b'', ser), (CHR ''c'', dev), (CHR ''s'', ip), (CHR ''p'', show_int port),
             (CHR ''t'', ''appl'')]"
  shows "main_prog opts d0 =
    (if length ip < 16
     then Inr (Run_appl, \<lparr>mn_mdl = d0\<lparr>m_adr := adr, m_szSerial := ser, m_szDevName := dev, m_szmqtt_servip := ip,
            m_mqtt_servport := port, m_uab := dbl_round (4001 / 10), m_ubc := dbl_round (4002 / 10),
            m_uca := dbl_round (4003 / 10)\<rparr>, mn_DAEMON = 0, mn_RUNTYPE = 0\<rparr>)
     else Inl Buffer_overflow)"
  using assms by (simp add: main_prog_def main_option_def atoi_show_int sim_init_def strcpy_buf_def)

theorem main_configures_model_witness:
  "main_prog [(CHR ''a'', show_int 5), (CHR ''b'', ''/dev/ttyS0''), (CHR ''c'', ''pcs''), (CHR ''s'', ''mqtt.example.com''),
     (CHR ''p'', show_int 1883), (CHR ''t'', ''appl'')] (MDL mbs_example) = Inl Buffer_overflow"
  by (subst main_configures_model[of 5 1883 "''/dev/ttyS0''" "''pcs''" _ "''mqtt.example.com''"]) simp_all

end
