(* ===== verification/Spec2Isabelle.thy ===== *)
theory Spec2Isabelle
  imports RingBuffers StateMachine Mb Mqtt MqttCache Tbmqtt TbmqttCache Cloud CJsonMinify CloudJson ChanIo ChanSlave MbTcp MbAscii MbCoils LibModbusPair Tb Stats Log Tool LinkedList MqttDelivery Appl
begin

text \<open>
  Verification of the PCS simulator: a program that plays a power conversion system. It keeps a model of six
  electrical quantities (\<open>struct mdl_t MDL\<close>), serves them as Modbus registers on a serial line, publishes them over MQTT and
  executes commands received over MQTT.

  \<^bold>\<open>Parts and theories.\<close>

  \<^item> \<open>Prelude\<close>: the faults a C statement can end in, the sum type \<open>'a res\<close> that carries them, and the parts of the C library
    that the sources use (\<open>strcpy\<close>, \<open>strncpy\<close>, \<open>%d\<close>, \<open>atoi\<close>). \<open>Doubles\<close>: IEEE doubles as rationals with rounding to nearest
    even. \<open>Sqlite\<close>: the interface of \<open>sqlite3_exec\<close>, with the database as parameter.
  \<^item> \<open>RingBuffer\<close>, \<open>RingBuffers\<close>: the six ring buffer files of \<open>platform/util\<close> and \<open>platform/device/chan\<close>. The operations are
    translated once over the mask; the locale \<open>lossy_fifo\<close> is their contract, a bounded queue that drops its oldest
    element when full, and it is interpreted for each of the six files. The uplinks and the cloud client rest on these
    interpretations.
  \<^item> \<open>StateMachine\<close>: \<open>platform/util/statemachine/sm.c\<close>, the states, steps, counters and timing statistics.
  \<^item> \<open>Crc\<close>, \<open>Mbs\<close>, \<open>MbFunc\<close>, \<open>MbPort\<close>, \<open>MbRtu\<close>, \<open>Mb\<close>: the Modbus slave. \<open>Crc\<close> is \<open>mbcrc.c\<close>; \<open>Mbs\<close> the register banks and callbacks
    of \<open>platform/device/chan/mbs.c\<close>; \<open>MbFunc\<close> the function handlers of FreeModbus, whose contract is the locale
    \<open>function_handler\<close>; \<open>MbPort\<close> and \<open>MbRtu\<close> the serial port layer and the RTU transport with its three state machines; \<open>Mb\<close> the
    protocol stack \<open>mb.c\<close>, the start of the slave and its polling thread. \<open>MbTcp\<close>, \<open>MbAscii\<close>: the two transports the simulator does
    not start, \<open>mbtcp.c\<close> with \<open>porttcp.c\<close> under the same stack, and \<open>mbascii.c\<close>; \<open>MbCoils\<close>: the handlers the configuration leaves out.
  \<^item> \<open>Mqtt\<close>, \<open>Tbmqtt\<close>: the two uplinks \<open>mqtt.c\<close>/\<open>mqtt_sm.c\<close> and \<open>tbmqtt.c\<close>/\<open>tbmqtt_sm.c\<close>. \<open>Cache\<close>, \<open>MqttCache\<close>, \<open>TbmqttCache\<close>: the caches that
    move messages between a filling transmit buffer and a database.
  \<^item> \<open>NumText\<close>: the text of numbers in C, \<open>%.15g\<close> and \<open>strtod\<close>, over the doubles. \<open>CJson\<close>, \<open>CJsonParse\<close>, \<open>CJsonPrint\<close>, \<open>CJsonMinify\<close>: the
    JSON library \<open>component/cJSON/cJSON.c\<close>, its tree with constructors, queries and updates, its parser, printer and compressor;
    \<open>CJsonRoundtrip\<close>: what parser and printer are to each other. \<open>CloudJson\<close>: the cloud client on this library.
  \<^item> \<open>LibModbus\<close>, \<open>LibModbusFrames\<close>: the client side of \<open>component/libmodbus\<close>, requests and the reassembly and check of answers;
    \<open>LibModbusServer\<close> its server side, and \<open>LibModbusPair\<close> both at the ends of one line. \<open>Chan\<close>,
    \<open>ChanRetry\<close>, \<open>ChanIo\<close>: the field channels \<open>platform/device/chan/chan.c\<close> on top of it and of the ring buffers. \<open>ChanSlave\<close>: a
    channel whose line leads to the simulated slave, both Modbus stacks of the program against each other.
  \<^item> \<open>Shm\<close>, \<open>ShmServer\<close>, \<open>Tool\<close>: the shared memory through which the tool \<open>platform/util/tool.c\<close> sends commands to the server
    thread of \<open>shm.c\<close>: the interleaving of the threads as a step relation, the work of the server, and the menus of the tool.
  \<^item> \<open>LinkedList\<close>: the doubly linked list \<open>component/list\<close> on a heap of nodes.
  \<^item> \<open>MqttWire\<close>, \<open>MqttProperties\<close>, \<open>MqttPacket\<close>: the packets of the MQTT client library, \<open>component/paho.mqtt.c-1.3.9\<close>: lengths,
    numbers, strings and UTF-8, the properties of version 5, and the functions that send packets and the factory that reads them.
    \<open>MqttProtocol\<close>, \<open>MqttDelivery\<close>: the message exchanges of this library, \<open>MQTTProtocolClient.c\<close> with what it calls in \<open>MQTTClient.c\<close>, and
    what they promise.
  \<^item> \<open>Cloud\<close>, \<open>Tb\<close>: the clients \<open>appl/cloud.c\<close> and \<open>appl/tb.c\<close>, which queue telemetry and execute commands. \<open>Misc\<close>, \<open>Clock\<close>: \<open>misc.c\<close>,
    bytes, dates, directories and processes. \<open>Stats\<close>: \<open>comm.c\<close> and \<open>mac.c\<close>; \<open>Log\<close>: the printers of \<open>log.c\<close>. \<open>Appl\<close>: the options of \<open>main.c\<close> and the start sequence of \<open>appl.c\<close>, \<open>mdl.c\<close> and \<open>plt.c\<close>.

  \<^bold>\<open>Modelling.\<close> A C structure is a record, an operation a function from the state to the state afterwards or to a fault
  (\<open>Inl\<close>); a fault is an assertion that fails, a write past an array, a null dereference, a conversion C leaves
  undefined, a missing return value, a read outside an array, or a use of freed memory. Registers, frames and CRCs are words of their C width; indices and timers are
  integers. What the program cannot decide is an argument: what the operating system and the libraries
  answer in one iteration (\<open>poll_os\<close>, \<open>mqtt_os\<close>, \<open>tbmqtt_os\<close>, \<open>cloud_os\<close>, \<open>boot_os\<close>), the start of a channel (\<open>start_os\<close>), the other end of a Modbus line (\<open>link\<close>), uninitialised locals (\<open>e0\<close>, \<open>p0\<close>, \<open>itm\<close>, \<open>rc0\<close>),
  and the database. The cloud client takes a JSON parser and printer as arguments, which \<open>CloudJson\<close> instantiates with the library. Threads are sequences of iterations; where one thread can run in
  the middle of another because a lock is free, the interruption is an argument (\<open>between\<close> of \<open>mqtt_forward\<close>).
  The loops of the threads do not end; they are recursive functions over the list of answers, one
  entry per iteration (\<open>poll_loop\<close>, \<open>mqtt_run\<close>, \<open>tbmqtt_run\<close>, \<open>cloud_run\<close>, \<open>tb_run\<close>), so that no bound is chosen; the loops inside one
  iteration are total functions. The recursion of the JSON parser and printer and the receiving loop of the Modbus client are
  functions with a termination proof, not fuel.

  \<^bold>\<open>What is shown.\<close> Of the Modbus slave: a frame with the right address and CRC is answered four polls later with the
  response of its handler or the exception and a right CRC; polling is free of faults in every reachable state but one,
  a receive buffer filled to the last byte, where an assertion fails; the table-driven CRC equals the
  bitwise one and detects every error in one byte; what is written to holding registers is read back, although six of
  them pass through doubles. Of the uplink: messages are confirmed in the order they were queued and none is lost
  while the buffer has room; the invariant of its state machine; when it reconnects. Of the caches: messages are neither lost
  nor duplicated, under the contract that SQL gives the statements. Of the clients: the period of the
  telemetry, the effect of the commands, and the lock that closes by itself. Of the JSON library: the parser returns on every
  string and gives typed trees, the printer stays in its buffer, and what it prints is read back. Of the Modbus client: the
  pieces an answer arrives in do not matter, and a read with retries succeeds exactly when the device answers in
  time; what a client writes to a server of the same library it reads back. Of the slave over TCP: a request in pieces of any
  size is answered. Of the channels: bytes keep their order, ports are configured as asked.
  Of the shared memory: a command is an atomic call of the server however the threads interleave, and a session at the menus
  enables the channels it names. Of the linked list: its operations are those of a sequence, and its sorting sorts. Of the MQTT
  packets: what is published, acknowledged or set as a property is read back, the connect packet fills its buffer exactly, and the
  check of UTF-8 accepts exactly the encodings of Unicode scalar values. Of the MQTT exchanges: the handlers refine an abstract
  receiver and keep every stored publication owned by one message, messages of quality 2 arrive exactly once, message ids are
  free, and a reconnect sends again what is not acknowledged. Across components, below: a command from the cloud,
  from its text on, is seen on the Modbus side, and a register write in the text of the telemetry. Several theorems state where the code does
  not do what it means to: the message lost between peek and dequeue, the unterminated payload, the quote that breaks
  the insertion, the null handle of the ThingsBoard uplink, the missing parameter, the flag that is never read, the read past
  an unterminated JSON buffer, the compressor and the backslash, the datagram that loses its rest, the channel table without
  a bound, the dangling and the null context, the semaphores
  that the tool looks for in vain, and the lengths in MQTT packets that are trusted.

  \<^bold>\<open>Not modelled.\<close> The libraries under \<open>component\<close> other than FreeModbus, cJSON, libmodbus, list and the packets and
  exchanges of Paho (its sockets, threads, persistence and connecting, zlog, snowid, uuid4); of cJSON, items shared between trees and the memory hooks, and memory never runs
  out; of libmodbus, opening ports and sockets and the error recovery; of \<open>tool.c\<close>, its display and the entries that only work
  on the terminal; and most formatting of log and status lines.
\<close>

section \<open>Properties that span components\<close>

text \<open>The holding register of the first line voltage, as two bytes.\<close>

lemma voltage_register_read:
  assumes "mdl_readable d"
  shows "\<exists>w'. eMBRegHoldingCB MBSIDX_MDL (w\<lparr>MDL := d\<rparr>) (replicate 2 0) 0 0x6020 1 MB_REG_READ =
    Inr (MB_ENOERR, w', [hi_byte (deci (m_uab d)), lo_byte (deci (m_uab d))])"
  using holding_cb_read[of "0x6020" 1 "w\<lparr>MDL := d\<rparr>" 0 "replicate 2 0"] assms
  by (simp add: holding_range_def REG_HOLDING_NREGS_def reg_bytes_def holding_refresh_def)

text \<open>Fact: a command from the cloud is seen on the Modbus side: after a message that sets the line voltage to a tenth
  of \<open>r\<close>, a read of its holding register returns \<open>r\<close>, high byte first.\<close>

theorem cloud_command_visible_on_modbus:
  assumes "mqtt_wf (sim_mqtt s)" "rx_items (sim_mqtt s) = e # es" "length (tx_items (sim_mqtt s)) < 255"
    "carries_cmd prs (szpayload e) ''set uab'' rt" "cJSON_GetObjectItem rt ''param'' = Some param"
    "cj_valuedouble param = tenth r" "mdl_readable (sim_mdl s)"
    "length (m_szDevName (sim_mdl s)) < 124" "\<bar>now\<bar> < 10 ^ 17"
  shows "\<exists>s' w'. cloud_proc_recv prs now e0 s = Inr s' \<and>
    eMBRegHoldingCB MBSIDX_MDL (w\<lparr>MDL := sim_mdl s'\<rparr>) (replicate 2 0) 0 0x6020 1 MB_REG_READ =
      Inr (MB_ENOERR, w', [hi_byte r, lo_byte r])"
proof -
  obtain s' where s': "cloud_proc_recv prs now e0 s = Inr s'"
    "sim_mdl s' = (sim_mdl s)\<lparr>m_uab := cj_valuedouble param\<rparr>"
    using cloud_set_uab_ok[OF assms(1-5,8,9), of e0] by blast
  have "mdl_readable (sim_mdl s')" using assms(6,7) s'(2) by (simp add: mdl_readable_def)
  from voltage_register_read[OF this, of w] show ?thesis using s' assms(6) by auto
qed

lemma holding_write_sets_uab:
  assumes "eMBRegHoldingCB MBSIDX_MDL w [hi_byte r, lo_byte r] 0 0x6020 1 MB_REG_WRITE = Inr (st, w', buf)"
  shows "m_uab (MDL w') = tenth r"
  using assms holding_cb_write[of "0x6020" 1 0 "[hi_byte r, lo_byte r]" w]
  by (auto simp: holding_range_def REG_HOLDING_NREGS_def on_06_WriteSingleHoldingRegister_def holding_store_def Let_def)

lemma cloud_telemetry_queued:
  assumes "mqtt_wf (sim_mqtt s)" "rx_items (sim_mqtt s) = []" "length (tx_items (sim_mqtt s)) < 255"
    "cl_sys_intv (sim_cloud s) \<le> cl_sys_timer (sim_cloud s)" "telemetry_fits (sim_mdl s) os"
  shows "\<exists>s' e. cloud_exe os s = Inr s' \<and> tx_items (sim_mqtt s') = tx_items (sim_mqtt s) @ [e] \<and>
    szpayload e = telemetry_payload (co_print os) (co_ts os) (sim_mdl s)"
  using assms(4,5) cloud_idle_exe[OF assms(1,2), of os] queue_tx_room(1)[OF assms(1,3)]
  by (simp add: cloud_update_def telemetry_fits_def Let_def)

text \<open>Fact: a register write reaches the telemetry: when it is due, the message that is queued after a write of \<open>r\<close> to
  the register of the line voltage carries the members of the model with that voltage a tenth of \<open>r\<close>.\<close>

theorem modbus_write_reaches_telemetry:
  assumes "eMBRegHoldingCB MBSIDX_MDL w [hi_byte r, lo_byte r] 0 0x6020 1 MB_REG_WRITE = Inr (st, w', buf)"
    "sim_mdl s = MDL w'" "mqtt_wf (sim_mqtt s)" "rx_items (sim_mqtt s) = []" "length (tx_items (sim_mqtt s)) < 255"
    "cl_sys_intv (sim_cloud s) \<le> cl_sys_timer (sim_cloud s)" "telemetry_fits (sim_mdl s) os"
  shows "\<exists>s' e. cloud_exe os s = Inr s' \<and> tx_items (sim_mqtt s') = tx_items (sim_mqtt s) @ [e] \<and>
    szpayload e = telemetry_payload (co_print os) (co_ts os) (sim_mdl s) \<and>
    telemetry_members (sim_mdl s) ! 0 = (''uab'', tenth r)"
proof -
  have "telemetry_members (sim_mdl s) ! 0 = (''uab'', tenth r)"
    using holding_write_sets_uab[OF assms(1)] by (simp add: telemetry_members_def assms(2))
  then show ?thesis using cloud_telemetry_queued[OF assms(3-7)] by blast
qed

text \<open>C7: the text \<open>{"cmd":"set uab","param":v}\<close> with \<open>v\<close> the decimal text of a tenth of \<open>r\<close>, received from the cloud
  and parsed by the library, is answered by \<open>r\<close> when a Modbus master reads the register of the line voltage.\<close>

theorem text_command_visible_on_modbus:
  assumes "mqtt_wf (sim_mqtt s)" "rx_items (sim_mqtt s) = e # es" "length (tx_items (sim_mqtt s)) < 255"
    "szpayload e = set_uab_text (tenth r)" "mdl_readable (sim_mdl s)"
    "length (m_szDevName (sim_mdl s)) < 124" "\<bar>now\<bar> < 10 ^ 17"
  shows "\<exists>s' w'. cloud_proc_recv json_parse now e0 s = Inr s' \<and>
    eMBRegHoldingCB MBSIDX_MDL (w\<lparr>MDL := sim_mdl s'\<rparr>) (replicate 2 0) 0 0x6020 1 MB_REG_READ =
      Inr (MB_ENOERR, w', [hi_byte r, lo_byte r])"
proof -
  note c = set_uab_carries[OF tenth_range assms(4)]
  obtain s' where s': "cloud_proc_recv json_parse now e0 s = Inr s'" "sim_mdl s' = (sim_mdl s)\<lparr>m_uab := tenth r\<rparr>"
    using cloud_set_uab_ok[OF assms(1-3) c assms(6,7), of e0] by (auto simp: reread_tenth)
  have "mdl_readable (sim_mdl s')" using assms(5) s'(2) by (simp add: mdl_readable_def)
  from voltage_register_read[OF this, of w] show ?thesis using s' by auto
qed

lemma holding_write_members:
  assumes "eMBRegHoldingCB MBSIDX_MDL w [hi_byte r, lo_byte r] 0 0x6020 1 MB_REG_WRITE = Inr (st, w', buf)"
  shows "members_in_range (MDL w')"
  using assms holding_cb_write[of "0x6020" 1 0 "[hi_byte r, lo_byte r]" w]
  by (auto simp: holding_range_def REG_HOLDING_NREGS_def on_06_WriteSingleHoldingRegister_def Let_def members_in_range_def
      telemetry_members_def tenth_range)

text \<open>C8: the way back: after a Modbus master wrote \<open>r\<close> to the register of the line voltage, the text of the next telemetry
  message, parsed by the library, has exactly a tenth of \<open>r\<close> under \<open>data.uab\<close>.\<close>

theorem modbus_write_in_telemetry_text:
  assumes "eMBRegHoldingCB MBSIDX_MDL w [hi_byte r, lo_byte r] 0 0x6020 1 MB_REG_WRITE = Inr (st, w', buf)"
    "sim_mdl s = MDL w'" "mqtt_wf (sim_mqtt s)" "rx_items (sim_mqtt s) = []" "length (tx_items (sim_mqtt s)) < 255"
    "cl_sys_intv (sim_cloud s) \<le> cl_sys_timer (sim_cloud s)" "length (m_szDevName (sim_mdl s)) < 128"
    "escape ts = ts" "length ts < 1000"
  shows "\<exists>s' e t data. cloud_exe (cloud_client now ts e0) s = Inr s' \<and> tx_items (sim_mqtt s') = tx_items (sim_mqtt s) @ [e] \<and>
    cJSON_Parse (szpayload e) = Inr (Some t) \<and> cJSON_GetObjectItem t ''data'' = Some data \<and>
    map_option cj_valuedouble (cJSON_GetObjectItem data ''uab'') = Some (tenth r)"
proof -
  have u: "m_uab (sim_mdl s) = tenth r" using holding_write_sets_uab[OF assms(1)] assms(2) by simp
  have m: "members_in_range (sim_mdl s)" using holding_write_members[OF assms(1)] assms(2) by simp
  have f: "telemetry_fits (sim_mdl s) (cloud_client now ts e0)"
    using telemetry_payload_length[OF m, of ts] assms(7,9) by (simp add: telemetry_fits_def cloud_client_def)
  obtain t data where t: "cJSON_Parse (telemetry_payload json_print ts (sim_mdl s)) = Inr (Some t)"
    "cJSON_GetObjectItem t ''data'' = Some data" "map_option cj_valuedouble (cJSON_GetObjectItem data ''uab'') = Some (tenth r)"
    using telemetry_data_members[OF m assms(8)] u reread_tenth by (auto simp: telemetry_members_def)
  then show ?thesis using cloud_telemetry_queued[OF assms(3-6) f] by (auto simp: cloud_client_def)
qed

section \<open>Concrete instances\<close>

theorem cloud_command_visible_on_modbus_witness:
  "\<exists>s' w'. cloud_proc_recv (\<lambda>p. Some (CJSON 64 None 0 0 None [CJSON 16 (Some ''set uab'') 0 0 (Some ''cmd'') [],
       CJSON 8 None 220 (tenth 2205) (Some ''param'') []])) 1700000000 elem0 sim_example = Inr s' \<and>
     eMBRegHoldingCB MBSIDX_MDL (mbs_example\<lparr>MDL := sim_mdl s'\<rparr>) (replicate 2 0) 0 0x6020 1 MB_REG_READ =
       Inr (MB_ENOERR, w', [0x08, 0x9D])"
proof -
  let ?j = "CJSON 64 None 0 0 None [CJSON 16 (Some ''set uab'') 0 0 (Some ''cmd'') [],
    CJSON 8 None 220 (tenth 2205) (Some ''param'') []]"
  have c: "carries_cmd (\<lambda>p. Some ?j) (szpayload elem0) ''set uab'' ?j"
    "cJSON_GetObjectItem ?j ''param'' = Some (CJSON 8 None 220 (tenth 2205) (Some ''param'') [])"
    by (simp_all add: carries_cmd_def cJSON_GetObjectItem_def get_object_item_def case_insensitive_eq_def tolower_def
        cJSON_IsString_def cJSON_String_def)
  have "mdl_readable (sim_mdl sim_example)" "length (tx_items (sim_mqtt sim_example)) < 255"
    "length (m_szDevName (sim_mdl sim_example)) < 124"
    using mbs_example_ok example_name by (simp_all add: sim_example_def mbs_ok_def)
  moreover have "hi_byte 2205 = 0x08" "lo_byte 2205 = 0x9D" by (simp_all add: hi_byte_def lo_byte_def)
  ultimately show ?thesis
    using cloud_command_visible_on_modbus[OF sim_example_wf sim_example_rx _ c, of 2205 1700000000 elem0 mbs_example]
    by simp
qed

theorem modbus_write_reaches_telemetry_witness:
  "\<exists>w' s' e. eMBRegHoldingCB MBSIDX_MDL mbs_example [hi_byte 2205, lo_byte 2205] 0 0x6020 1 MB_REG_WRITE =
       Inr (MB_ENOERR, w', [hi_byte 2205, lo_byte 2205]) \<and>
     cloud_exe cloud_os_example \<lparr>sim_mdl = MDL w', sim_mqtt = mqtt_example,
       sim_cloud = \<lparr>cl_sys_timer = 10, cl_sys_intv = 10, cl_upload_enable = 1\<rparr>\<rparr> = Inr s' \<and>
     tx_items (sim_mqtt s') = [e] \<and> telemetry_members (MDL w') ! 0 = (''uab'', tenth 2205)"
proof -
  let ?w' = "on_06_WriteSingleHoldingRegister (mbs_example\<lparr>usHoldingRegisters :=
    holding_store [hi_byte 2205, lo_byte 2205] 0 (unat (0x6020 :: USHORT)) (unat (1 :: USHORT))
      (usHoldingRegisters mbs_example)\<rparr>)"
  let ?s = "\<lparr>sim_mdl = MDL ?w', sim_mqtt = mqtt_example,
    sim_cloud = \<lparr>cl_sys_timer = 10, cl_sys_intv = 10, cl_upload_enable = 1\<rparr>\<rparr>"
  have w: "eMBRegHoldingCB MBSIDX_MDL mbs_example [hi_byte 2205, lo_byte 2205] 0 0x6020 1 MB_REG_WRITE =
      Inr (MB_ENOERR, ?w', [hi_byte 2205, lo_byte 2205])"
    by (rule holding_cb_write) (simp_all add: holding_range_def REG_HOLDING_NREGS_def)
  have "m_szDevName (MDL ?w') = m_szDevName (MDL mbs_example)"
    by (simp add: on_06_WriteSingleHoldingRegister_def Let_def)
  then have "telemetry_fits (sim_mdl ?s) cloud_os_example"
    using example_name by (simp add: telemetry_fits_def telemetry_payload_def cloud_os_example_def)
  from modbus_write_reaches_telemetry[OF w _ _ _ _ _ this] show ?thesis using w mqtt_example_wf by auto
qed

theorem text_command_visible_on_modbus_witness:
  "\<exists>s' w'. cloud_proc_recv json_parse 1700000000 elem0 (sim_holding (elem0\<lparr>szpayload := set_uab_text (tenth 2205)\<rparr>)) = Inr s' \<and>
     eMBRegHoldingCB MBSIDX_MDL (mbs_example\<lparr>MDL := sim_mdl s'\<rparr>) (replicate 2 0) 0 0x6020 1 MB_REG_READ =
       Inr (MB_ENOERR, w', [0x08, 0x9D])"
proof -
  let ?e = "elem0\<lparr>szpayload := set_uab_text (tenth 2205)\<rparr>"
  have "mdl_readable (sim_mdl (sim_holding ?e))" "length (tx_items (sim_mqtt (sim_holding ?e))) < 255"
    "length (m_szDevName (sim_mdl (sim_holding ?e))) < 124"
    using mbs_example_ok example_name by (simp_all add: sim_holding_def mbs_ok_def)
  moreover have "hi_byte 2205 = 0x08" "lo_byte 2205 = 0x9D" by (simp_all add: hi_byte_def lo_byte_def)
  ultimately show ?thesis
    using text_command_visible_on_modbus[OF sim_holding_wf sim_holding_rx, of ?e 2205 1700000000 elem0 mbs_example] by simp
qed

theorem modbus_write_in_telemetry_text_witness:
  "\<exists>w' s' e t data. eMBRegHoldingCB MBSIDX_MDL mbs_example [hi_byte 2205, lo_byte 2205] 0 0x6020 1 MB_REG_WRITE =
       Inr (MB_ENOERR, w', [hi_byte 2205, lo_byte 2205]) \<and>
     cloud_exe (cloud_client 1700000000 ''2023-11-14 22:13:20'' elem0) \<lparr>sim_mdl = MDL w', sim_mqtt = mqtt_example,
       sim_cloud = \<lparr>cl_sys_timer = 10, cl_sys_intv = 10, cl_upload_enable = 1\<rparr>\<rparr> = Inr s' \<and>
     tx_items (sim_mqtt s') = [e] \<and> cJSON_Parse (szpayload e) = Inr (Some t) \<and> cJSON_GetObjectItem t ''data'' = Some data \<and>
     map_option cj_valuedouble (cJSON_GetObjectItem data ''uab'') = Some (tenth 2205)"
proof -
  let ?w' = "on_06_WriteSingleHoldingRegister (mbs_example\<lparr>usHoldingRegisters :=
    holding_store [hi_byte 2205, lo_byte 2205] 0 (unat (0x6020 :: USHORT)) (unat (1 :: USHORT))
      (usHoldingRegisters mbs_example)\<rparr>)"
  let ?s = "\<lparr>sim_mdl = MDL ?w', sim_mqtt = mqtt_example,
    sim_cloud = \<lparr>cl_sys_timer = 10, cl_sys_intv = 10, cl_upload_enable = 1\<rparr>\<rparr>"
  have w: "eMBRegHoldingCB MBSIDX_MDL mbs_example [hi_byte 2205, lo_byte 2205] 0 0x6020 1 MB_REG_WRITE =
      Inr (MB_ENOERR, ?w', [hi_byte 2205, lo_byte 2205])"
    by (rule holding_cb_write) (simp_all add: holding_range_def REG_HOLDING_NREGS_def)
  have "length (m_szDevName (sim_mdl ?s)) < 128"
    using example_name by (simp add: on_06_WriteSingleHoldingRegister_def Let_def)
  moreover have "escape ''2023-11-14 22:13:20'' = ''2023-11-14 22:13:20''" by (simp add: escape_def escape_char_def)
  ultimately show ?thesis
    using modbus_write_in_telemetry_text[OF w, of ?s "''2023-11-14 22:13:20''" 1700000000 elem0] w mqtt_example_wf by auto
qed

end
